(* ===== verification/Prelude.thy ===== *)
theory Prelude
  imports Main "HOL-Library.Word"
begin

text \<open>
  Shared vocabulary of the development: machine integers and their checked arithmetic,
  the reading of Rust's \<open>Result\<close> as a sum, the loop combinators the source's
  \<open>while index < len\<close> loops translate to, and the two interfaces several components
  implement: a list of records looked up by key, and a reducer that keeps an invariant.
\<close>

section \<open>Machine integers and results\<close>

type_synonym u8 = "8 word"
type_synonym u16 = "16 word"
type_synonym u32 = "32 word"
type_synonym u64 = "64 word"

text \<open>Rust's \<open>Result<T, E>\<close> is the sum \<open>'e + 'a\<close>: \<open>Err\<close> on the left, \<open>Ok\<close> on the right.\<close>

abbreviation Err :: "'e \<Rightarrow> 'e + 'a" where "Err \<equiv> Inl"
abbreviation Ok :: "'a \<Rightarrow> 'e + 'a" where "Ok \<equiv> Inr"

definition is_ok :: "'e + 'a \<Rightarrow> bool" where
  "is_ok r = (case r of Inl _ \<Rightarrow> False | Inr _ \<Rightarrow> True)"

lemma is_ok_simps [simp]: "is_ok (Ok x)" "\<not> is_ok (Err e)"
  by (simp_all add: is_ok_def)

lemma is_ok_unit: "is_ok (r :: 'e + unit) \<longleftrightarrow> r = Ok ()"
  by (cases r) auto

text \<open>\<open>map_err\<close> of the standard library.\<close>

definition map_err :: "('e \<Rightarrow> 'f) \<Rightarrow> 'e + 'a \<Rightarrow> 'f + 'a" where
  "map_err f r = (case r of Inl e \<Rightarrow> Inl (f e) | Inr x \<Rightarrow> Inr x)"

lemma map_err_simps [simp]: "map_err f (Err e) = Err (f e)" "map_err f (Ok x) = Ok x"
  by (simp_all add: map_err_def)

lemma map_err_eq_Ok [simp]: "map_err f r = Ok x \<longleftrightarrow> r = Ok x"
  by (cases r) auto

text \<open>\<open>checked_add\<close> and \<open>checked_sub\<close> of an unsigned integer type.\<close>

definition checked_add :: "'a::len word \<Rightarrow> 'a word \<Rightarrow> 'a word option" where
  "checked_add a b = (if unat a + unat b < 2 ^ LENGTH('a) then Some (a + b) else None)"

definition checked_sub :: "'a::len word \<Rightarrow> 'a word \<Rightarrow> 'a word option" where
  "checked_sub a b = (if b \<le> a then Some (a - b) else None)"

lemma checked_add_Some: "checked_add a b = Some c \<longleftrightarrow> unat c = unat a + unat b"
proof -
  have "unat (a + b) = unat a + unat b" if "unat a + unat b < 2 ^ LENGTH('a)"
    using that by (simp add: unat_word_ariths)
  moreover have "unat c < 2 ^ LENGTH('a)" by (rule unsigned_less)
  ultimately show ?thesis
    unfolding checked_add_def by (metis option.inject option.simps(3) word_unat_eq_iff)
qed

lemma checked_add_None: "checked_add a b = None \<longleftrightarrow> 2 ^ LENGTH('a) \<le> unat a + unat (b :: 'a::len word)"
  by (auto simp: checked_add_def)

lemma checked_sub_Some: "checked_sub a b = Some c \<longleftrightarrow> unat a = unat b + unat c"
proof -
  have "unat (a - b) = unat a - unat b" if "b \<le> a"
    using that by (simp add: unat_sub)
  then show ?thesis
    by (auto simp: checked_sub_def word_unat_eq_iff word_le_nat_alt)
qed

lemma checked_sub_None: "checked_sub a b = None \<longleftrightarrow> unat a < unat b"
  by (auto simp: checked_sub_def word_le_nat_alt)

section \<open>Loops\<close>

text \<open>
  \<open>for_range f n\<close> is \<open>let mut index = 0; while index < n { f(index)?; index += 1; }\<close>:
  the first error stops the loop.
\<close>

fun for_list :: "('a \<Rightarrow> 'e + unit) \<Rightarrow> 'a list \<Rightarrow> 'e + unit" where
  "for_list f [] = Ok ()"
| "for_list f (x # xs) = (case f x of Inl e \<Rightarrow> Err e | Inr _ \<Rightarrow> for_list f xs)"

definition for_range :: "(nat \<Rightarrow> 'e + unit) \<Rightarrow> nat \<Rightarrow> 'e + unit" where
  "for_range f n = for_list f [0..<n]"

lemma for_list_Ok: "for_list f xs = Ok () \<longleftrightarrow> (\<forall>x\<in>set xs. f x = Ok ())"
  by (induction xs) (auto split: sum.splits)

lemma for_range_Ok: "for_range f n = Ok () \<longleftrightarrow> (\<forall>i<n. f i = Ok ())"
  by (auto simp: for_range_def for_list_Ok)

text \<open>
  \<open>find_index p xs\<close> is the search loop that returns the first index whose element
  satisfies \<open>p\<close>.
\<close>

fun find_index :: "('a \<Rightarrow> bool) \<Rightarrow> 'a list \<Rightarrow> nat option" where
  "find_index p [] = None"
| "find_index p (x # xs) = (if p x then Some 0 else map_option Suc (find_index p xs))"

lemma find_index_Some:
  "find_index p xs = Some i \<longleftrightarrow> i < length xs \<and> p (xs ! i) \<and> (\<forall>j<i. \<not> p (xs ! j))"
proof (induction xs arbitrary: i)
  case Nil
  then show ?case by simp
next
  case (Cons x xs)
  show ?case
  proof (cases i)
    case 0
    then show ?thesis by auto
  next
    case (Suc k)
    have "(\<forall>j<Suc k. \<not> p ((x # xs) ! j)) \<longleftrightarrow> \<not> p x \<and> (\<forall>j<k. \<not> p (xs ! j))"
      by (auto simp: less_Suc_eq_0_disj)
    with Suc show ?thesis by (auto simp: Cons.IH)
  qed
qed

lemma find_index_None: "find_index p xs = None \<longleftrightarrow> (\<forall>x\<in>set xs. \<not> p x)"
  by (induction xs) auto

lemma find_index_append:
  "find_index p (xs @ ys) = (case find_index p xs of
     Some i \<Rightarrow> Some i | None \<Rightarrow> map_option (\<lambda>i. length xs + i) (find_index p ys))"
proof (induction xs)
  case Nil
  show ?case by (cases "find_index p ys") simp_all
next
  case (Cons x xs)
  then show ?case by (cases "find_index p ys") (auto split: option.splits)
qed

lemma find_index_cong_nth:
  assumes "length xs = length ys" and "\<And>i. i < length xs \<Longrightarrow> p (xs ! i) = q (ys ! i)"
  shows "find_index p xs = find_index q ys"
  using assms
proof (induction xs ys rule: list_induct2)
  case Nil
  then show ?case by simp
next
  case (Cons x xs y ys)
  from Cons.prems[of 0] have "p x = q y" by simp
  moreover have "find_index p xs = find_index q ys"
    using Cons.IH Cons.prems by (metis Suc_less_eq length_Cons nth_Cons_Suc)
  ultimately show ?case by simp
qed

section \<open>Sums over lists\<close>

lemma sum_list_update_nat:
  fixes f :: "'a \<Rightarrow> nat"
  assumes "i < length xs"
  shows "sum_list (map f (xs[i := x])) + f (xs ! i) = sum_list (map f xs) + f x"
  using assms
proof (induction xs arbitrary: i)
  case Nil
  then show ?case by simp
next
  case (Cons y ys)
  show ?case
  proof (cases i)
    case 0
    then show ?thesis by simp
  next
    case (Suc k)
    with Cons.IH[of k] Cons.prems show ?thesis by simp
  qed
qed

lemma sum_list_cong_nth:
  fixes f g :: "'a \<Rightarrow> nat"
  assumes "length xs = length ys" and "\<And>i. i < length xs \<Longrightarrow> f (xs ! i) = g (ys ! i)"
  shows "sum_list (map f xs) = sum_list (map g ys)"
proof -
  have "map f xs = map g ys"
    using assms by (intro nth_equalityI) auto
  then show ?thesis by simp
qed

lemma member_le_sum_list_nth:
  fixes f :: "'a \<Rightarrow> nat"
  shows "i < length xs \<Longrightarrow> f (xs ! i) \<le> sum_list (map f xs)"
  using member_le_sum_list[of "f (xs ! i)" "map f xs"] by simp

lemma sum_list_eq_0_nat: "(\<And>x. x \<in> set xs \<Longrightarrow> f x = (0::nat)) \<Longrightarrow> sum_list (map f xs) = 0"
  by (induction xs) auto

section \<open>Interface: records looked up by key\<close>

text \<open>
  A table is a list of records with a key; the provider's \<open>find\<close> returns the index of the
  first record with the key. The client's laws are those of a map as long as keys are
  distinct.
\<close>

locale keyed_list =
  fixes key :: "'r \<Rightarrow> 'k"
    and find :: "'r list \<Rightarrow> 'k \<Rightarrow> nat option"
  assumes find_first: "find rs k = find_index (\<lambda>r. key r = k) rs"
begin

lemma find_Some_bound: "find rs k = Some i \<Longrightarrow> i < length rs"
  by (simp add: find_first find_index_Some)

lemma find_Some_key: "find rs k = Some i \<Longrightarrow> key (rs ! i) = k"
  by (simp add: find_first find_index_Some)

lemma find_None_iff: "find rs k = None \<longleftrightarrow> k \<notin> key ` set rs"
  by (auto simp: find_first find_index_None)

lemma find_nth:
  assumes "distinct (map key rs)" and "i < length rs"
  shows "find rs (key (rs ! i)) = Some i"
  using assms by (auto simp: find_first find_index_Some distinct_conv_nth)

lemma find_iff_nth:
  assumes "distinct (map key rs)"
  shows "find rs k = Some i \<longleftrightarrow> i < length rs \<and> key (rs ! i) = k"
  using assms find_nth find_Some_bound find_Some_key by blast

lemma find_cong_keys: "map key rs = map key ts \<Longrightarrow> find rs k = find ts k"
  unfolding find_first
  by (rule find_index_cong_nth) (metis length_map, metis length_map nth_map)

lemma find_update: "i < length rs \<Longrightarrow> key r = key (rs ! i) \<Longrightarrow> find (rs[i := r]) k = find rs k"
  by (rule find_cong_keys) (simp add: map_update list_update_same_conv)

lemma find_append:
  "find (rs @ [r]) k = (case find rs k of Some i \<Rightarrow> Some i
     | None \<Rightarrow> if key r = k then Some (length rs) else None)"
  by (auto simp: find_first find_index_append split: option.splits)

lemma find_append_old: "find rs k = Some i \<Longrightarrow> find (rs @ ts) k = Some i"
  by (simp add: find_first find_index_append)

end

section \<open>Interface: a reducer that keeps an invariant and only grows\<close>

text \<open>
  \<open>accepts s c s' r\<close> says that the reducer accepts command \<open>c\<close> in state \<open>s\<close>, with successor
  \<open>s'\<close> and receipt \<open>r\<close>. A rejected command leaves the caller's state as it is, so an execution is
  a sequence of accepted commands. Whatever each accepted command keeps (\<open>inv\<close>) and however the
  state may only move (\<open>le\<close>, a preorder) then holds over every execution.
\<close>

definition successor :: "('s \<Rightarrow> 'c \<Rightarrow> 's \<Rightarrow> 'r \<Rightarrow> bool) \<Rightarrow> 's \<Rightarrow> 's \<Rightarrow> bool" where
  "successor accepts s s' \<longleftrightarrow> (\<exists>c r. accepts s c s' r)"

locale reducer =
  fixes accepts :: "'s \<Rightarrow> 'c \<Rightarrow> 's \<Rightarrow> 'r \<Rightarrow> bool"
    and inv :: "'s \<Rightarrow> bool"
    and le :: "'s \<Rightarrow> 's \<Rightarrow> bool"
  assumes accepts_inv: "inv s \<Longrightarrow> accepts s c s' r \<Longrightarrow> inv s'"
    and accepts_le: "inv s \<Longrightarrow> accepts s c s' r \<Longrightarrow> le s s'"
    and le_refl: "le s s"
    and le_trans: "le s t \<Longrightarrow> le t u \<Longrightarrow> le s u"
begin

lemma run_inv: "(successor accepts)\<^sup>*\<^sup>* s t \<Longrightarrow> inv s \<Longrightarrow> inv t"
  by (induction rule: rtranclp_induct) (auto simp: successor_def intro: accepts_inv)

lemma run_le: "(successor accepts)\<^sup>*\<^sup>* s t \<Longrightarrow> inv s \<Longrightarrow> le s t"
proof (induction rule: rtranclp_induct)
  case base
  show ?case by (rule le_refl)
next
  case (step t u)
  from step have "inv t" by (blast intro: run_inv)
  with step show ?case by (auto simp: successor_def intro: le_trans accepts_le)
qed

end

end
