(* ===== verification/Peritus_Types.thy ===== *)
theory Peritus_Types
  imports Prelude "HOL-Library.List_Lexorder"
begin

text \<open>
  The crate \<open>peritus-types\<close>: fixed-width byte arrays, the opaque nonzero identifiers behind
  every nominal id, SHA-256 digests as exact bytes, one-based numbers, resource quantities
  and the revision tuple all authority decisions are bound to. Private Rust fields whose
  constructor checks a condition are typedefs, so the condition holds of every value.
\<close>

section \<open>Errors\<close>

datatype identifier_error = IdentifierZero

datatype one_based_number_error = NumberZero | NumberOverflow

datatype resource_quantity_error = QuantityOverflow | QuantityUnderflow

fun identifier_error_code :: "identifier_error \<Rightarrow> string" where
  "identifier_error_code IdentifierZero = ''PERITUS-TYPES-ID-001''"

fun one_based_number_error_code :: "one_based_number_error \<Rightarrow> string" where
  "one_based_number_error_code NumberZero = ''PERITUS-TYPES-NUMBER-001''"
| "one_based_number_error_code NumberOverflow = ''PERITUS-TYPES-NUMBER-002''"

fun resource_quantity_error_code :: "resource_quantity_error \<Rightarrow> string" where
  "resource_quantity_error_code QuantityOverflow = ''PERITUS-TYPES-RESOURCE-001''"
| "resource_quantity_error_code QuantityUnderflow = ''PERITUS-TYPES-RESOURCE-002''"

section \<open>Byte arrays and identifiers\<close>

text \<open>The arrays \<open>[u8; 16]\<close> and \<open>[u8; 32]\<close>.\<close>

typedef bytes16 = "{bs :: u8 list. length bs = 16}"
  morphisms bytes16_list Bytes16
  by (rule exI [of _ "replicate 16 0"]) simp

typedef bytes32 = "{bs :: u8 list. length bs = 32}"
  morphisms bytes32_list Bytes32
  by (rule exI [of _ "replicate 32 0"]) simp

setup_lifting type_definition_bytes16
setup_lifting type_definition_bytes32

lemma length_bytes16_list [simp]: "length (bytes16_list b) = 16"
  using bytes16_list by blast

lemma length_bytes32_list [simp]: "length (bytes32_list b) = 32"
  using bytes32_list by blast

text \<open>\<open>OpaqueIdentifier\<close>: sixteen bytes, not all zero. \<open>identifier_new\<close> is its constructor.\<close>

definition some_byte_nonzero :: "bytes16 \<Rightarrow> bool" where
  "some_byte_nonzero b = list_ex (\<lambda>x. x \<noteq> 0) (bytes16_list b)"

lemma some_byte_nonzero_exists: "some_byte_nonzero (Bytes16 (replicate 15 0 @ [1]))"
  by (simp add: some_byte_nonzero_def Bytes16_inverse)

typedef opaque_identifier = "{b. some_byte_nonzero b}"
  morphisms identifier_bytes Abs_opaque_identifier
  using some_byte_nonzero_exists by blast

setup_lifting type_definition_opaque_identifier

definition identifier_new :: "bytes16 \<Rightarrow> identifier_error + opaque_identifier" where
  "identifier_new b =
     (if some_byte_nonzero b then Ok (Abs_opaque_identifier b) else Err IdentifierZero)"

definition as_bytes :: "opaque_identifier \<Rightarrow> u8 list" where
  "as_bytes i = bytes16_list (identifier_bytes i)"

lemma length_as_bytes [simp]: "length (as_bytes i) = 16"
  by (simp add: as_bytes_def)

lemma as_bytes_inject [simp]: "as_bytes i = as_bytes j \<longleftrightarrow> i = j"
  by (simp add: as_bytes_def bytes16_list_inject identifier_bytes_inject)

lemma as_bytes_nonzero: "as_bytes i \<noteq> replicate 16 0"
proof
  assume zero: "as_bytes i = replicate 16 0"
  have "some_byte_nonzero (identifier_bytes i)"
    using identifier_bytes by blast
  with zero show False
    by (simp add: some_byte_nonzero_def as_bytes_def list_ex_iff)
qed

lemma identifier_new_as_bytes:
  "identifier_new b = Ok i \<longleftrightarrow> as_bytes i = bytes16_list b"
proof
  assume "identifier_new b = Ok i"
  then show "as_bytes i = bytes16_list b"
    by (auto simp: identifier_new_def as_bytes_def Abs_opaque_identifier_inverse split: if_splits)
next
  assume "as_bytes i = bytes16_list b"
  then have "identifier_bytes i = b"
    by (simp add: as_bytes_def bytes16_list_inject)
  then show "identifier_new b = Ok i"
    using identifier_bytes [of i] by (auto simp: identifier_new_def identifier_bytes_inverse)
qed

text \<open>
  Equality and the derived \<open>Ord\<close> compare the bytes, the order lexicographically from the
  first byte.
\<close>

instantiation opaque_identifier :: linorder
begin

definition less_eq_opaque_identifier :: "opaque_identifier \<Rightarrow> opaque_identifier \<Rightarrow> bool" where
  "less_eq_opaque_identifier i j = (as_bytes i \<le> as_bytes j)"

definition less_opaque_identifier :: "opaque_identifier \<Rightarrow> opaque_identifier \<Rightarrow> bool" where
  "less_opaque_identifier i j = (as_bytes i < as_bytes j)"

instance
  by standard
    (auto simp: less_eq_opaque_identifier_def less_opaque_identifier_def less_le_not_le
      intro: order_antisym)

end

instantiation opaque_identifier :: equal
begin

definition equal_opaque_identifier :: "opaque_identifier \<Rightarrow> opaque_identifier \<Rightarrow> bool" where
  "equal_opaque_identifier i j = (as_bytes i = as_bytes j)"

instance
  by standard (simp add: equal_opaque_identifier_def)

end

text \<open>
  \<open>low_identifier b\<close> is the identifier whose last byte is \<open>b\<close> and whose other bytes are zero;
  concrete inputs are built with it.
\<close>

definition low_identifier :: "u8 \<Rightarrow> opaque_identifier" where
  "low_identifier b = Abs_opaque_identifier (Bytes16 (replicate 15 0 @ [if b = 0 then 1 else b]))"

lemma as_bytes_low_identifier [simp]:
  "as_bytes (low_identifier b) = replicate 15 0 @ [if b = 0 then 1 else b]"
  by (simp add: as_bytes_def low_identifier_def some_byte_nonzero_def
      Abs_opaque_identifier_inverse Bytes16_inverse)

lemma low_identifier_eq [simp]:
  "low_identifier a = low_identifier b \<longleftrightarrow> (if a = 0 then 1 else a) = (if b = 0 then 1 else b)"
  by (simp flip: as_bytes_inject)

section \<open>Nominal identifiers\<close>

text \<open>Each nominal identifier of the source is a tuple struct around \<open>OpaqueIdentifier\<close>.\<close>

datatype budget_id = BudgetId (budget_id_raw: opaque_identifier)
datatype budget_reservation_id = BudgetReservationId (reservation_id_raw: opaque_identifier)
datatype action_id = ActionId (action_id_raw: opaque_identifier)
datatype workspace_id = WorkspaceId (workspace_id_raw: opaque_identifier)
datatype policy_id = PolicyId (policy_id_raw: opaque_identifier)
datatype provider_profile_id = ProviderProfileId (provider_profile_id_raw: opaque_identifier)
datatype acceptance_spec_id = AcceptanceSpecId (acceptance_spec_id_raw: opaque_identifier)
datatype harness_id = HarnessId (harness_id_raw: opaque_identifier)

section \<open>Digests\<close>

datatype sha256_digest = Sha256Digest (digest_array: bytes32)

definition digest_bytes :: "sha256_digest \<Rightarrow> u8 list" where
  "digest_bytes d = bytes32_list (digest_array d)"

lemma length_digest_bytes [simp]: "length (digest_bytes d) = 32"
  by (simp add: digest_bytes_def)

lemma digest_bytes_inject [simp]: "digest_bytes c = digest_bytes d \<longleftrightarrow> c = d"
  by (cases c; cases d) (simp add: digest_bytes_def bytes32_list_inject)

definition low_digest :: "u8 \<Rightarrow> sha256_digest" where
  "low_digest b = Sha256Digest (Bytes32 (replicate 31 0 @ [b]))"

lemma low_digest_eq [simp]: "low_digest a = low_digest b \<longleftrightarrow> a = b"
  by (simp add: low_digest_def Bytes32_inject)

section \<open>One-based numbers\<close>

typedef positive_number = "{n :: u64. n \<noteq> 0}"
  morphisms positive_get Abs_positive_number
  by (rule exI [of _ 1]) simp

setup_lifting type_definition_positive_number

lemma positive_get_nonzero [simp]: "positive_get n \<noteq> 0"
  using positive_get by blast

lemma positive_get_pos [simp]: "0 < unat (positive_get n)"
  by (simp add: unat_gt_0)

definition positive_new :: "u64 \<Rightarrow> one_based_number_error + positive_number" where
  "positive_new v = (if v = 0 then Err NumberZero else Ok (Abs_positive_number v))"

definition positive_first :: positive_number where
  "positive_first = Abs_positive_number 1"

definition positive_checked_next :: "positive_number \<Rightarrow> one_based_number_error + positive_number" where
  "positive_checked_next n = (case checked_add (positive_get n) 1 of
     Some v \<Rightarrow> Ok (Abs_positive_number v) | None \<Rightarrow> Err NumberOverflow)"

lemma positive_first_get [simp]: "positive_get positive_first = 1"
  by (simp add: positive_first_def Abs_positive_number_inverse)

lemma positive_new_Ok: "positive_new v = Ok n \<longleftrightarrow> positive_get n = v"
  by (auto simp: positive_new_def Abs_positive_number_inverse positive_get_inverse)

lemma positive_new_Err: "positive_new v = Err e \<longleftrightarrow> v = 0 \<and> e = NumberZero"
  by (auto simp: positive_new_def)

lemma positive_checked_next_Ok:
  "positive_checked_next n = Ok m \<longleftrightarrow> unat (positive_get m) = unat (positive_get n) + 1"
proof (cases "checked_add (positive_get n) 1")
  case None
  then have "2 ^ 64 \<le> unat (positive_get n) + 1" by (simp add: checked_add_None)
  moreover have "unat (positive_get m) < 2 ^ 64" using unsigned_less[of "positive_get m"] by simp
  ultimately show ?thesis using None by (simp add: positive_checked_next_def)
next
  case (Some v)
  then have v: "unat v = unat (positive_get n) + 1" by (simp add: checked_add_Some)
  then have "v \<noteq> 0" by auto
  then have "positive_get (Abs_positive_number v) = v" by (simp add: Abs_positive_number_inverse)
  with Some v show ?thesis
    by (auto simp: positive_checked_next_def word_unat_eq_iff positive_get_inject[symmetric])
qed

lemma positive_checked_next_Err:
  "positive_checked_next n = Err e \<longleftrightarrow> unat (positive_get n) + 1 = 2 ^ 64 \<and> e = NumberOverflow"
proof -
  have "unat (positive_get n) < 2 ^ 64" using unsigned_less[of "positive_get n"] by simp
  then show ?thesis
    by (auto simp: positive_checked_next_def checked_add_def split: if_splits)
qed

text \<open>The three public one-based numbers wrap \<open>PositiveNumber\<close>.\<close>

datatype revision_number = RevisionNumber (revision_number_raw: positive_number)
datatype event_sequence = EventSequence (event_sequence_raw: positive_number)
datatype generation = Generation (generation_raw: positive_number)

definition revision_number_new :: "u64 \<Rightarrow> one_based_number_error + revision_number" where
  "revision_number_new v = (case positive_new v of Inr n \<Rightarrow> Ok (RevisionNumber n) | Inl e \<Rightarrow> Err e)"

definition revision_number_get :: "revision_number \<Rightarrow> u64" where
  "revision_number_get r = positive_get (revision_number_raw r)"

definition revision_number_first :: revision_number where
  "revision_number_first = RevisionNumber positive_first"

definition revision_number_checked_next :: "revision_number \<Rightarrow> one_based_number_error + revision_number" where
  "revision_number_checked_next r = (case positive_checked_next (revision_number_raw r) of
     Inr n \<Rightarrow> Ok (RevisionNumber n) | Inl e \<Rightarrow> Err e)"

definition event_sequence_new :: "u64 \<Rightarrow> one_based_number_error + event_sequence" where
  "event_sequence_new v = (case positive_new v of Inr n \<Rightarrow> Ok (EventSequence n) | Inl e \<Rightarrow> Err e)"

definition event_sequence_get :: "event_sequence \<Rightarrow> u64" where
  "event_sequence_get s = positive_get (event_sequence_raw s)"

definition event_sequence_first :: event_sequence where
  "event_sequence_first = EventSequence positive_first"

definition event_sequence_checked_next :: "event_sequence \<Rightarrow> one_based_number_error + event_sequence" where
  "event_sequence_checked_next s = (case positive_checked_next (event_sequence_raw s) of
     Inr n \<Rightarrow> Ok (EventSequence n) | Inl e \<Rightarrow> Err e)"

definition generation_new :: "u64 \<Rightarrow> one_based_number_error + generation" where
  "generation_new v = (case positive_new v of Inr n \<Rightarrow> Ok (Generation n) | Inl e \<Rightarrow> Err e)"

definition generation_get :: "generation \<Rightarrow> u64" where
  "generation_get g = positive_get (generation_raw g)"

definition generation_first :: generation where
  "generation_first = Generation positive_first"

definition generation_checked_next :: "generation \<Rightarrow> one_based_number_error + generation" where
  "generation_checked_next g = (case positive_checked_next (generation_raw g) of
     Inr n \<Rightarrow> Ok (Generation n) | Inl e \<Rightarrow> Err e)"

lemma generation_get_inject [simp]: "generation_get g = generation_get h \<longleftrightarrow> g = h"
  by (cases g; cases h) (simp add: generation_get_def positive_get_inject)

lemma revision_number_get_inject [simp]: "revision_number_get g = revision_number_get h \<longleftrightarrow> g = h"
  by (cases g; cases h) (simp add: revision_number_get_def positive_get_inject)

lemma generation_checked_next_Ok:
  "generation_checked_next g = Ok h \<longleftrightarrow> unat (generation_get h) = unat (generation_get g) + 1"
proof (cases h)
  case (Generation n)
  have "generation_checked_next g = Ok h \<longleftrightarrow> positive_checked_next (generation_raw g) = Ok n"
    by (auto simp: generation_checked_next_def Generation split: sum.splits)
  then show ?thesis by (simp add: positive_checked_next_Ok generation_get_def Generation)
qed

section \<open>Resource quantities\<close>

datatype resource_kind =
    ModelTokensKind | ProviderCostMicrounitsKind | WallTimeMilliseconds | CpuTimeMilliseconds
  | MemoryBytes | DiskBytes | OutputBytes | ProcessCount | ConcurrencySlots | AttemptCount | RetryCount

datatype resource_quantity = ResourceQuantity (quantity_get: u64)

definition quantity_zero :: resource_quantity where
  "quantity_zero = ResourceQuantity 0"

definition quantity_checked_add ::
  "resource_quantity \<Rightarrow> resource_quantity \<Rightarrow> resource_quantity_error + resource_quantity" where
  "quantity_checked_add a b = (case checked_add (quantity_get a) (quantity_get b) of
     Some v \<Rightarrow> Ok (ResourceQuantity v) | None \<Rightarrow> Err QuantityOverflow)"

definition quantity_checked_sub ::
  "resource_quantity \<Rightarrow> resource_quantity \<Rightarrow> resource_quantity_error + resource_quantity" where
  "quantity_checked_sub a b = (case checked_sub (quantity_get a) (quantity_get b) of
     Some v \<Rightarrow> Ok (ResourceQuantity v) | None \<Rightarrow> Err QuantityUnderflow)"

text \<open>The number of units of a quantity, read as a natural number.\<close>

definition units :: "resource_quantity \<Rightarrow> nat" where
  "units q = unat (quantity_get q)"

lemma units_less: "units q < 2 ^ 64"
  using unsigned_less[of "quantity_get q"] by (simp add: units_def)

lemma units_inject [simp]: "units p = units q \<longleftrightarrow> p = q"
  by (cases p; cases q) (simp add: units_def word_unat_eq_iff)

lemma units_zero [simp]: "units quantity_zero = 0" "units (ResourceQuantity 0) = 0"
  by (simp_all add: units_def quantity_zero_def)

lemma quantity_checked_add_Ok: "quantity_checked_add a b = Ok c \<longleftrightarrow> units c = units a + units b"
proof (cases "checked_add (quantity_get a) (quantity_get b)")
  case None
  then have "2 ^ 64 \<le> units a + units b" by (simp add: checked_add_None units_def)
  moreover have "units c < 2 ^ 64" by (rule units_less)
  ultimately show ?thesis using None by (simp add: quantity_checked_add_def)
next
  case (Some v)
  then have "unat v = units a + units b" by (simp add: checked_add_Some units_def)
  then show ?thesis using Some
    by (cases c) (auto simp: quantity_checked_add_def units_def word_unat_eq_iff)
qed

lemma quantity_checked_add_Err:
  "quantity_checked_add a b = Err e \<longleftrightarrow> 2 ^ 64 \<le> units a + units b \<and> e = QuantityOverflow"
  by (auto simp: quantity_checked_add_def checked_add_def units_def split: if_splits)

lemma quantity_checked_sub_Ok: "quantity_checked_sub a b = Ok c \<longleftrightarrow> units a = units b + units c"
proof (cases "checked_sub (quantity_get a) (quantity_get b)")
  case None
  then have "units a < units b" by (simp add: checked_sub_None units_def)
  then show ?thesis using None by (simp add: quantity_checked_sub_def)
next
  case (Some v)
  then have "units a = units b + unat v" by (simp add: checked_sub_Some units_def)
  then show ?thesis using Some
    by (cases c) (auto simp: quantity_checked_sub_def units_def word_unat_eq_iff)
qed

lemma quantity_checked_sub_Err:
  "quantity_checked_sub a b = Err e \<longleftrightarrow> units a < units b \<and> e = QuantityUnderflow"
  by (auto simp: quantity_checked_sub_def checked_sub_def units_def word_le_nat_alt
      split: if_splits)

section \<open>Revision tuple\<close>

record revision_tuple =
  acceptance_spec_id :: acceptance_spec_id
  harness_id :: harness_id
  workspace_id :: workspace_id
  workspace_generation :: generation
  workspace_revision :: revision_number
  policy_id :: policy_id
  provider_profile_id :: provider_profile_id

end
