(* ===== verification/Budget_Amounts.thy ===== *)
theory Budget_Amounts
  imports Peritus_Types
begin

text \<open>
  \<open>peritus-budget\<close>, files \<open>limits.rs\<close>, \<open>amounts.rs\<close>, \<open>amounts/operations.rs\<close> and
  \<open>failure.rs\<close>: the five budget dimensions, vectors of checked quantities, their componentwise
  arithmetic and comparisons, and the typed failures of the ledger. Every vector is read
  through \<open>amt v d\<close>, the natural number of units it holds in dimension \<open>d\<close>; the lemmas state
  each operation pointwise over the dimensions.
\<close>

section \<open>Dimensions\<close>

datatype budget_dimension =
  ModelTokens | ProviderCostMicrounits | ActiveEffectMilliseconds | Attempts | Retries

text \<open>The derived \<open>Ord\<close> is the declaration order.\<close>

fun dimension_rank :: "budget_dimension \<Rightarrow> nat" where
  "dimension_rank ModelTokens = 0"
| "dimension_rank ProviderCostMicrounits = 1"
| "dimension_rank ActiveEffectMilliseconds = 2"
| "dimension_rank Attempts = 3"
| "dimension_rank Retries = 4"

lemma dimension_rank_inject [simp]: "dimension_rank c = dimension_rank d \<longleftrightarrow> c = d"
  by (cases c; cases d) simp_all

instantiation budget_dimension :: linorder
begin

definition less_eq_budget_dimension :: "budget_dimension \<Rightarrow> budget_dimension \<Rightarrow> bool" where
  "less_eq_budget_dimension c d = (dimension_rank c \<le> dimension_rank d)"

definition less_budget_dimension :: "budget_dimension \<Rightarrow> budget_dimension \<Rightarrow> bool" where
  "less_budget_dimension c d = (dimension_rank c < dimension_rank d)"

instance
  by standard (auto simp: less_eq_budget_dimension_def less_budget_dimension_def
      intro: antisym dest: dimension_rank_inject[THEN iffD1, OF antisym])

end

lemma all_dimensions:
  "(\<forall>d. P d) \<longleftrightarrow> P ModelTokens \<and> P ProviderCostMicrounits \<and> P ActiveEffectMilliseconds
     \<and> P Attempts \<and> P Retries"
  by (metis budget_dimension.exhaust)

lemma ex_dimensions:
  "(\<exists>d. P d) \<longleftrightarrow> P ModelTokens \<or> P ProviderCostMicrounits \<or> P ActiveEffectMilliseconds
     \<or> P Attempts \<or> P Retries"
  by (metis budget_dimension.exhaust)

record budget_dimension_set =
  set_model_tokens :: bool
  set_provider_cost :: bool
  set_active_effect :: bool
  set_attempts :: bool
  set_retries :: bool

definition dimension_set_empty :: budget_dimension_set where
  "dimension_set_empty = \<lparr>set_model_tokens = False, set_provider_cost = False,
     set_active_effect = False, set_attempts = False, set_retries = False\<rparr>"

definition dimension_set_is_empty :: "budget_dimension_set \<Rightarrow> bool" where
  "dimension_set_is_empty s \<longleftrightarrow> \<not> set_model_tokens s \<and> \<not> set_provider_cost s
     \<and> \<not> set_active_effect s \<and> \<not> set_attempts s \<and> \<not> set_retries s"

fun dimension_set_contains :: "budget_dimension_set \<Rightarrow> budget_dimension \<Rightarrow> bool" where
  "dimension_set_contains s ModelTokens = set_model_tokens s"
| "dimension_set_contains s ProviderCostMicrounits = set_provider_cost s"
| "dimension_set_contains s ActiveEffectMilliseconds = set_active_effect s"
| "dimension_set_contains s Attempts = set_attempts s"
| "dimension_set_contains s Retries = set_retries s"

definition dimension_set_from_members ::
  "bool \<Rightarrow> bool \<Rightarrow> bool \<Rightarrow> bool \<Rightarrow> bool \<Rightarrow> budget_dimension_set" where
  "dimension_set_from_members m p a t r = \<lparr>set_model_tokens = m, set_provider_cost = p,
     set_active_effect = a, set_attempts = t, set_retries = r\<rparr>"

lemma dimension_set_is_empty_iff:
  "dimension_set_is_empty s \<longleftrightarrow> (\<forall>d. \<not> dimension_set_contains s d)"
  by (simp add: dimension_set_is_empty_def all_dimensions)

section \<open>Failures\<close>

datatype arithmetic_kind = Overflow | Underflow

record amount_arithmetic_error =
  arithmetic_error_kind :: arithmetic_kind
  arithmetic_error_dimension :: budget_dimension

definition arithmetic_overflow :: "budget_dimension \<Rightarrow> amount_arithmetic_error" where
  "arithmetic_overflow d = \<lparr>arithmetic_error_kind = Overflow, arithmetic_error_dimension = d\<rparr>"

definition arithmetic_underflow :: "budget_dimension \<Rightarrow> amount_arithmetic_error" where
  "arithmetic_underflow d = \<lparr>arithmetic_error_kind = Underflow, arithmetic_error_dimension = d\<rparr>"

datatype budget_recovery =
  Terminal | CallerCorrectable | Reobserve | ResolveIndeterminate | AfterAccountingChange

definition arithmetic_error_code :: "amount_arithmetic_error \<Rightarrow> string" where
  "arithmetic_error_code e = (case arithmetic_error_kind e of
     Overflow \<Rightarrow> ''PERITUS-BUDGET-AMOUNT-001'' | Underflow \<Rightarrow> ''PERITUS-BUDGET-AMOUNT-002'')"

definition arithmetic_error_recovery :: "amount_arithmetic_error \<Rightarrow> budget_recovery" where
  "arithmetic_error_recovery e = CallerCorrectable"

datatype budget_error_kind =
    UnknownBudget | UnknownReservation | DuplicateBudgetConflict | DuplicateReservationConflict
  | EmptyRequest | InvalidAttemptAccounting | AccountNotOpen | InsufficientBudget
  | InvalidReservationPhase | InvalidAccountPhase | PriorAttemptUnresolved | BindingMismatch
  | NonmonotonicObservation | OutstandingWork | Arithmetic | CorruptState

fun budget_error_kind_code :: "budget_error_kind \<Rightarrow> string" where
  "budget_error_kind_code UnknownBudget = ''PERITUS-BUDGET-001''"
| "budget_error_kind_code UnknownReservation = ''PERITUS-BUDGET-002''"
| "budget_error_kind_code DuplicateBudgetConflict = ''PERITUS-BUDGET-003''"
| "budget_error_kind_code DuplicateReservationConflict = ''PERITUS-BUDGET-004''"
| "budget_error_kind_code EmptyRequest = ''PERITUS-BUDGET-005''"
| "budget_error_kind_code InvalidAttemptAccounting = ''PERITUS-BUDGET-006''"
| "budget_error_kind_code AccountNotOpen = ''PERITUS-BUDGET-007''"
| "budget_error_kind_code InsufficientBudget = ''PERITUS-BUDGET-008''"
| "budget_error_kind_code InvalidReservationPhase = ''PERITUS-BUDGET-009''"
| "budget_error_kind_code BindingMismatch = ''PERITUS-BUDGET-010''"
| "budget_error_kind_code NonmonotonicObservation = ''PERITUS-BUDGET-011''"
| "budget_error_kind_code OutstandingWork = ''PERITUS-BUDGET-012''"
| "budget_error_kind_code Arithmetic = ''PERITUS-BUDGET-013''"
| "budget_error_kind_code CorruptState = ''PERITUS-BUDGET-014''"
| "budget_error_kind_code InvalidAccountPhase = ''PERITUS-BUDGET-015''"
| "budget_error_kind_code PriorAttemptUnresolved = ''PERITUS-BUDGET-016''"

fun budget_error_kind_recovery :: "budget_error_kind \<Rightarrow> budget_recovery" where
  "budget_error_kind_recovery UnknownBudget = Terminal"
| "budget_error_kind_recovery UnknownReservation = Terminal"
| "budget_error_kind_recovery DuplicateBudgetConflict = Terminal"
| "budget_error_kind_recovery DuplicateReservationConflict = Terminal"
| "budget_error_kind_recovery BindingMismatch = Terminal"
| "budget_error_kind_recovery AccountNotOpen = Terminal"
| "budget_error_kind_recovery InvalidReservationPhase = Terminal"
| "budget_error_kind_recovery InvalidAccountPhase = Terminal"
| "budget_error_kind_recovery CorruptState = Terminal"
| "budget_error_kind_recovery EmptyRequest = CallerCorrectable"
| "budget_error_kind_recovery InvalidAttemptAccounting = CallerCorrectable"
| "budget_error_kind_recovery Arithmetic = CallerCorrectable"
| "budget_error_kind_recovery NonmonotonicObservation = Reobserve"
| "budget_error_kind_recovery PriorAttemptUnresolved = ResolveIndeterminate"
| "budget_error_kind_recovery InsufficientBudget = AfterAccountingChange"
| "budget_error_kind_recovery OutstandingWork = AfterAccountingChange"

record budget_error =
  error_kind :: budget_error_kind
  error_budget_id :: "budget_id option"
  error_reservation_id :: "budget_reservation_id option"
  limiting_dimensions :: budget_dimension_set
  error_arithmetic :: "amount_arithmetic_error option"

definition budget_failure :: "budget_error_kind \<Rightarrow> budget_id \<Rightarrow> budget_error" where
  "budget_failure k b = \<lparr>error_kind = k, error_budget_id = Some b, error_reservation_id = None,
     limiting_dimensions = dimension_set_empty, error_arithmetic = None\<rparr>"

definition reservation_failure :: "budget_error_kind \<Rightarrow> budget_reservation_id \<Rightarrow> budget_error" where
  "reservation_failure k r = \<lparr>error_kind = k, error_budget_id = None, error_reservation_id = Some r,
     limiting_dimensions = dimension_set_empty, error_arithmetic = None\<rparr>"

definition insufficient_failure :: "budget_id \<Rightarrow> budget_dimension_set \<Rightarrow> budget_error" where
  "insufficient_failure b ds = \<lparr>error_kind = InsufficientBudget, error_budget_id = Some b,
     error_reservation_id = None, limiting_dimensions = ds, error_arithmetic = None\<rparr>"

definition arithmetic_failure :: "amount_arithmetic_error \<Rightarrow> budget_error" where
  "arithmetic_failure e = \<lparr>error_kind = Arithmetic, error_budget_id = None,
     error_reservation_id = None, limiting_dimensions = dimension_set_empty,
     error_arithmetic = Some e\<rparr>"

definition budget_error_code :: "budget_error \<Rightarrow> string" where
  "budget_error_code e = budget_error_kind_code (error_kind e)"

definition budget_error_recovery :: "budget_error \<Rightarrow> budget_recovery" where
  "budget_error_recovery e = budget_error_kind_recovery (error_kind e)"

text \<open>\<open>model::corrupt\<close>.\<close>

definition corrupt :: "budget_id \<Rightarrow> budget_error" where
  "corrupt b = budget_failure CorruptState b"

lemma error_kind_simps [simp]:
  "error_kind (budget_failure k b) = k"
  "error_kind (reservation_failure k r) = k"
  "error_kind (insufficient_failure b ds) = InsufficientBudget"
  "error_kind (arithmetic_failure ae) = Arithmetic"
  "error_kind (corrupt b) = CorruptState"
  by (simp_all add: budget_failure_def reservation_failure_def insufficient_failure_def
      arithmetic_failure_def corrupt_def)

lemma budget_error_kind_code_inject: "budget_error_kind_code j = budget_error_kind_code k \<longleftrightarrow> j = k"
  by (cases j; cases k) simp_all

section \<open>Amounts\<close>

record budget_amounts =
  model_tokens :: resource_quantity
  provider_cost_microunits :: resource_quantity
  active_effect_milliseconds :: resource_quantity
  attempts :: resource_quantity
  retries :: resource_quantity

definition amounts_new :: "resource_quantity \<Rightarrow> resource_quantity \<Rightarrow> resource_quantity
    \<Rightarrow> resource_quantity \<Rightarrow> resource_quantity \<Rightarrow> budget_amounts" where
  "amounts_new m p a t r = \<lparr>model_tokens = m, provider_cost_microunits = p,
     active_effect_milliseconds = a, attempts = t, retries = r\<rparr>"

definition from_units :: "u64 \<Rightarrow> u64 \<Rightarrow> u64 \<Rightarrow> u64 \<Rightarrow> u64 \<Rightarrow> budget_amounts" where
  "from_units m p a t r = amounts_new (ResourceQuantity m) (ResourceQuantity p)
     (ResourceQuantity a) (ResourceQuantity t) (ResourceQuantity r)"

definition amounts_zero :: budget_amounts where
  "amounts_zero = from_units 0 0 0 0 0"

fun amounts_get :: "budget_amounts \<Rightarrow> budget_dimension \<Rightarrow> resource_quantity" where
  "amounts_get v ModelTokens = model_tokens v"
| "amounts_get v ProviderCostMicrounits = provider_cost_microunits v"
| "amounts_get v ActiveEffectMilliseconds = active_effect_milliseconds v"
| "amounts_get v Attempts = attempts v"
| "amounts_get v Retries = retries v"

definition quantity_add ::
  "resource_quantity \<Rightarrow> resource_quantity \<Rightarrow> budget_dimension \<Rightarrow> amount_arithmetic_error + resource_quantity" where
  "quantity_add l r d = (case quantity_checked_add l r of
     Inr v \<Rightarrow> Ok v
   | Inl QuantityOverflow \<Rightarrow> Err (arithmetic_overflow d)
   | Inl QuantityUnderflow \<Rightarrow> Err (arithmetic_underflow d))"

definition quantity_sub ::
  "resource_quantity \<Rightarrow> resource_quantity \<Rightarrow> budget_dimension \<Rightarrow> amount_arithmetic_error + resource_quantity" where
  "quantity_sub l r d = (case quantity_checked_sub l r of
     Inr v \<Rightarrow> Ok v
   | Inl QuantityUnderflow \<Rightarrow> Err (arithmetic_underflow d)
   | Inl QuantityOverflow \<Rightarrow> Err (arithmetic_overflow d))"

definition amounts_is_zero :: "budget_amounts \<Rightarrow> bool" where
  "amounts_is_zero v \<longleftrightarrow> quantity_get (model_tokens v) = 0
     \<and> quantity_get (provider_cost_microunits v) = 0
     \<and> quantity_get (active_effect_milliseconds v) = 0
     \<and> quantity_get (attempts v) = 0 \<and> quantity_get (retries v) = 0"

definition fits_within :: "budget_amounts \<Rightarrow> budget_amounts \<Rightarrow> bool" where
  "fits_within v c \<longleftrightarrow> quantity_get (model_tokens v) \<le> quantity_get (model_tokens c)
     \<and> quantity_get (provider_cost_microunits v) \<le> quantity_get (provider_cost_microunits c)
     \<and> quantity_get (active_effect_milliseconds v) \<le> quantity_get (active_effect_milliseconds c)
     \<and> quantity_get (attempts v) \<le> quantity_get (attempts c)
     \<and> quantity_get (retries v) \<le> quantity_get (retries c)"

definition amounts_equals :: "budget_amounts \<Rightarrow> budget_amounts \<Rightarrow> bool" where
  "amounts_equals v w \<longleftrightarrow> quantity_get (model_tokens v) = quantity_get (model_tokens w)
     \<and> quantity_get (provider_cost_microunits v) = quantity_get (provider_cost_microunits w)
     \<and> quantity_get (active_effect_milliseconds v) = quantity_get (active_effect_milliseconds w)
     \<and> quantity_get (attempts v) = quantity_get (attempts w)
     \<and> quantity_get (retries v) = quantity_get (retries w)"

definition exceeding_dimensions :: "budget_amounts \<Rightarrow> budget_amounts \<Rightarrow> budget_dimension_set" where
  "exceeding_dimensions v c = dimension_set_from_members
     (quantity_get (model_tokens v) > quantity_get (model_tokens c))
     (quantity_get (provider_cost_microunits v) > quantity_get (provider_cost_microunits c))
     (quantity_get (active_effect_milliseconds v) > quantity_get (active_effect_milliseconds c))
     (quantity_get (attempts v) > quantity_get (attempts c))
     (quantity_get (retries v) > quantity_get (retries c))"

definition amounts_checked_add ::
  "budget_amounts \<Rightarrow> budget_amounts \<Rightarrow> amount_arithmetic_error + budget_amounts" where
  "amounts_checked_add v w =
    (case quantity_add (model_tokens v) (model_tokens w) ModelTokens of Inl e \<Rightarrow> Err e | Inr m \<Rightarrow>
     case quantity_add (provider_cost_microunits v) (provider_cost_microunits w)
       ProviderCostMicrounits of Inl e \<Rightarrow> Err e | Inr p \<Rightarrow>
     case quantity_add (active_effect_milliseconds v) (active_effect_milliseconds w)
       ActiveEffectMilliseconds of Inl e \<Rightarrow> Err e | Inr a \<Rightarrow>
     case quantity_add (attempts v) (attempts w) Attempts of Inl e \<Rightarrow> Err e | Inr t \<Rightarrow>
     case quantity_add (retries v) (retries w) Retries of Inl e \<Rightarrow> Err e | Inr r \<Rightarrow>
     Ok (amounts_new m p a t r))"

definition amounts_checked_sub ::
  "budget_amounts \<Rightarrow> budget_amounts \<Rightarrow> amount_arithmetic_error + budget_amounts" where
  "amounts_checked_sub v w =
    (case quantity_sub (model_tokens v) (model_tokens w) ModelTokens of Inl e \<Rightarrow> Err e | Inr m \<Rightarrow>
     case quantity_sub (provider_cost_microunits v) (provider_cost_microunits w)
       ProviderCostMicrounits of Inl e \<Rightarrow> Err e | Inr p \<Rightarrow>
     case quantity_sub (active_effect_milliseconds v) (active_effect_milliseconds w)
       ActiveEffectMilliseconds of Inl e \<Rightarrow> Err e | Inr a \<Rightarrow>
     case quantity_sub (attempts v) (attempts w) Attempts of Inl e \<Rightarrow> Err e | Inr t \<Rightarrow>
     case quantity_sub (retries v) (retries w) Retries of Inl e \<Rightarrow> Err e | Inr r \<Rightarrow>
     Ok (amounts_new m p a t r))"

text \<open>Immutable account ceilings.\<close>

datatype budget_limits = BudgetLimits (limit_amounts: budget_amounts)

section \<open>The pointwise reading\<close>

definition amt :: "budget_amounts \<Rightarrow> budget_dimension \<Rightarrow> nat" where
  "amt v d = units (amounts_get v d)"

lemma amt_simps:
  "amt v ModelTokens = units (model_tokens v)"
  "amt v ProviderCostMicrounits = units (provider_cost_microunits v)"
  "amt v ActiveEffectMilliseconds = units (active_effect_milliseconds v)"
  "amt v Attempts = units (attempts v)"
  "amt v Retries = units (retries v)"
  by (simp_all add: amt_def)

lemma amt_less: "amt v d < 2 ^ 64"
  unfolding amt_def by (rule units_less)

lemma amt_zero [simp]: "amt amounts_zero d = 0"
  by (cases d) (simp_all add: amt_simps amounts_zero_def from_units_def amounts_new_def)

lemma amounts_eqI: "(\<And>d. amt v d = amt w d) \<Longrightarrow> v = w"
proof (rule budget_amounts.equality)
  assume eq: "\<And>d. amt v d = amt w d"
  from eq[of ModelTokens] show "model_tokens v = model_tokens w" by (simp add: amt_simps)
  from eq[of ProviderCostMicrounits]
  show "provider_cost_microunits v = provider_cost_microunits w" by (simp add: amt_simps)
  from eq[of ActiveEffectMilliseconds]
  show "active_effect_milliseconds v = active_effect_milliseconds w" by (simp add: amt_simps)
  from eq[of Attempts] show "attempts v = attempts w" by (simp add: amt_simps)
  from eq[of Retries] show "retries v = retries w" by (simp add: amt_simps)
qed simp

lemma amounts_eq_iff: "v = w \<longleftrightarrow> (\<forall>d. amt v d = amt w d)"
  by (auto intro: amounts_eqI)

lemma amounts_is_zero_iff: "amounts_is_zero v \<longleftrightarrow> (\<forall>d. amt v d = 0)"
  by (simp add: amounts_is_zero_def all_dimensions amt_simps units_def unat_eq_0)

lemma amounts_is_zero_eq: "amounts_is_zero v \<longleftrightarrow> v = amounts_zero"
  by (auto simp: amounts_is_zero_iff intro: amounts_eqI)

lemma fits_within_iff: "fits_within v c \<longleftrightarrow> (\<forall>d. amt v d \<le> amt c d)"
  by (simp add: fits_within_def all_dimensions amt_simps units_def word_le_nat_alt)

lemma amounts_equals_eq [simp]: "amounts_equals v w \<longleftrightarrow> v = w"
  by (simp add: amounts_equals_def amounts_eq_iff all_dimensions amt_simps units_def
      word_unat_eq_iff)

lemma exceeding_dimensions_contains:
  "dimension_set_contains (exceeding_dimensions v c) d \<longleftrightarrow> amt c d < amt v d"
  by (cases d) (simp_all add: exceeding_dimensions_def dimension_set_from_members_def amt_simps
      units_def word_less_nat_alt)

lemma quantity_add_Ok: "quantity_add a b d = Ok c \<longleftrightarrow> units c = units a + units b"
proof -
  have "quantity_add a b d = Ok c \<longleftrightarrow> quantity_checked_add a b = Ok c"
    by (cases "quantity_checked_add a b")
      (simp_all add: quantity_add_def split: resource_quantity_error.split)
  then show ?thesis by (simp only: quantity_checked_add_Ok)
qed

lemma quantity_add_Err:
  "quantity_add a b d = Err e \<longleftrightarrow> 2 ^ 64 \<le> units a + units b \<and> e = arithmetic_overflow d"
proof (cases "quantity_checked_add a b")
  case (Inl x)
  then have "2 ^ 64 \<le> units a + units b" and "x = QuantityOverflow"
    by (simp_all only: quantity_checked_add_Err)
  with Inl show ?thesis by (auto simp: quantity_add_def)
next
  case (Inr q)
  then have "units q = units a + units b" by (simp only: quantity_checked_add_Ok)
  then have "units a + units b < 2 ^ 64" using units_less[of q] by simp
  with Inr show ?thesis by (simp add: quantity_add_def)
qed

lemma quantity_sub_Ok: "quantity_sub a b d = Ok c \<longleftrightarrow> units a = units b + units c"
proof -
  have "quantity_sub a b d = Ok c \<longleftrightarrow> quantity_checked_sub a b = Ok c"
    by (cases "quantity_checked_sub a b")
      (simp_all add: quantity_sub_def split: resource_quantity_error.split)
  then show ?thesis by (simp only: quantity_checked_sub_Ok)
qed

lemma quantity_sub_Err:
  "quantity_sub a b d = Err e \<longleftrightarrow> units a < units b \<and> e = arithmetic_underflow d"
proof (cases "quantity_checked_sub a b")
  case (Inl x)
  then have "units a < units b" and "x = QuantityUnderflow"
    by (simp_all only: quantity_checked_sub_Err)
  with Inl show ?thesis by (auto simp: quantity_sub_def)
next
  case (Inr q)
  then have "units a = units b + units q" by (simp only: quantity_checked_sub_Ok)
  with Inr show ?thesis by (simp add: quantity_sub_def)
qed

lemma amounts_checked_add_Ok:
  "amounts_checked_add v w = Ok u \<longleftrightarrow> (\<forall>d. amt u d = amt v d + amt w d)"
proof -
  have "amounts_checked_add v w = Ok u \<longleftrightarrow>
      quantity_add (model_tokens v) (model_tokens w) ModelTokens = Ok (model_tokens u)
    \<and> quantity_add (provider_cost_microunits v) (provider_cost_microunits w)
        ProviderCostMicrounits = Ok (provider_cost_microunits u)
    \<and> quantity_add (active_effect_milliseconds v) (active_effect_milliseconds w)
        ActiveEffectMilliseconds = Ok (active_effect_milliseconds u)
    \<and> quantity_add (attempts v) (attempts w) Attempts = Ok (attempts u)
    \<and> quantity_add (retries v) (retries w) Retries = Ok (retries u)"
    by (cases u) (auto simp: amounts_checked_add_def amounts_new_def split: sum.splits)
  then show ?thesis
    by (simp add: quantity_add_Ok all_dimensions amt_simps)
qed

lemma amounts_checked_sub_Ok:
  "amounts_checked_sub v w = Ok u \<longleftrightarrow> (\<forall>d. amt v d = amt w d + amt u d)"
proof -
  have "amounts_checked_sub v w = Ok u \<longleftrightarrow>
      quantity_sub (model_tokens v) (model_tokens w) ModelTokens = Ok (model_tokens u)
    \<and> quantity_sub (provider_cost_microunits v) (provider_cost_microunits w)
        ProviderCostMicrounits = Ok (provider_cost_microunits u)
    \<and> quantity_sub (active_effect_milliseconds v) (active_effect_milliseconds w)
        ActiveEffectMilliseconds = Ok (active_effect_milliseconds u)
    \<and> quantity_sub (attempts v) (attempts w) Attempts = Ok (attempts u)
    \<and> quantity_sub (retries v) (retries w) Retries = Ok (retries u)"
    by (cases u) (auto simp: amounts_checked_sub_def amounts_new_def split: sum.splits)
  then show ?thesis
    by (simp add: quantity_sub_Ok all_dimensions amt_simps)
qed

text \<open>
  A failed operation names the first dimension, in declaration order, whose exact result is not
  representable.
\<close>

lemma quantity_add_cases:
  obtains (overflow) "quantity_add a b d = Err (arithmetic_overflow d)" "2 ^ 64 \<le> units a + units b"
  | (sum) c where "quantity_add a b d = Ok c" "units a + units b < 2 ^ 64"
proof (cases "quantity_add a b d")
  case (Inl e)
  then have "2 ^ 64 \<le> units a + units b \<and> e = arithmetic_overflow d"
    by (simp only: quantity_add_Err)
  with Inl overflow show ?thesis by blast
next
  case (Inr c)
  then have "units c = units a + units b" by (simp only: quantity_add_Ok)
  then have "units a + units b < 2 ^ 64" using units_less[of c] by simp
  with Inr sum show ?thesis by blast
qed

lemma amounts_checked_add_error:
  assumes "amounts_checked_add v w = Err e"
  shows "\<exists>d. 2 ^ 64 \<le> amt v d + amt w d \<and> (\<forall>c<d. amt v c + amt w c < 2 ^ 64)
    \<and> e = arithmetic_overflow d"
proof -
  let ?over = "\<lambda>d. 2 ^ 64 \<le> amt v d + amt w d"
  have lt: "c < d \<longleftrightarrow> dimension_rank c < dimension_rank d" for c d :: budget_dimension
    by (simp add: less_budget_dimension_def)
  have "?over ModelTokens \<and> e = arithmetic_overflow ModelTokens
    \<or> \<not> ?over ModelTokens \<and> ?over ProviderCostMicrounits
      \<and> e = arithmetic_overflow ProviderCostMicrounits
    \<or> \<not> ?over ModelTokens \<and> \<not> ?over ProviderCostMicrounits \<and> ?over ActiveEffectMilliseconds
      \<and> e = arithmetic_overflow ActiveEffectMilliseconds
    \<or> \<not> ?over ModelTokens \<and> \<not> ?over ProviderCostMicrounits \<and> \<not> ?over ActiveEffectMilliseconds
      \<and> ?over Attempts \<and> e = arithmetic_overflow Attempts
    \<or> \<not> ?over ModelTokens \<and> \<not> ?over ProviderCostMicrounits \<and> \<not> ?over ActiveEffectMilliseconds
      \<and> \<not> ?over Attempts \<and> ?over Retries \<and> e = arithmetic_overflow Retries"
    using assms unfolding amounts_checked_add_def amt_simps
    apply (rule_tac a = "model_tokens v" and b = "model_tokens w" and d = ModelTokens
        in quantity_add_cases; simp)
    apply (rule_tac a = "provider_cost_microunits v" and b = "provider_cost_microunits w"
        and d = ProviderCostMicrounits in quantity_add_cases; simp)
    apply (rule_tac a = "active_effect_milliseconds v" and b = "active_effect_milliseconds w"
        and d = ActiveEffectMilliseconds in quantity_add_cases; simp)
    apply (rule_tac a = "attempts v" and b = "attempts w" and d = Attempts
        in quantity_add_cases; simp)
    apply (rule_tac a = "retries v" and b = "retries w" and d = Retries
        in quantity_add_cases; simp)
    done
  then show ?thesis
    unfolding ex_dimensions all_dimensions lt by (simp add: not_le) argo
qed

lemma amounts_checked_sub_is_ok:
  "is_ok (amounts_checked_sub v w) \<longleftrightarrow> fits_within w v"
proof
  assume "is_ok (amounts_checked_sub v w)"
  then obtain u where "amounts_checked_sub v w = Ok u"
    by (cases "amounts_checked_sub v w") auto
  then have "\<forall>d. amt v d = amt w d + amt u d" by (simp add: amounts_checked_sub_Ok)
  then show "fits_within w v" by (simp add: fits_within_iff)
next
  assume le: "fits_within w v"
  have "\<exists>q. units p = units r + units q" if "units r \<le> units p" for p r
  proof -
    have "units p - units r < 2 ^ 64" using units_less[of p] by linarith
    then have "units (ResourceQuantity (of_nat (units p - units r))) = units p - units r"
      by (simp add: units_def unat_of_nat take_bit_nat_eq_self)
    with that show ?thesis by (metis le_add_diff_inverse)
  qed
  then have "\<exists>q. amt v d = amt w d + units q" for d
    using le by (simp add: fits_within_iff amt_def)
  then obtain q where q: "\<And>d. amt v d = amt w d + units (q d)" by metis
  define u where "u = amounts_new (q ModelTokens) (q ProviderCostMicrounits)
     (q ActiveEffectMilliseconds) (q Attempts) (q Retries)"
  have "amt u d = units (q d)" for d
    by (cases d) (simp_all add: u_def amounts_new_def amt_simps)
  with q have "amounts_checked_sub v w = Ok u" by (simp add: amounts_checked_sub_Ok)
  then show "is_ok (amounts_checked_sub v w)" by simp
qed

lemma amounts_checked_sub_exists:
  assumes "\<And>d. amt w d \<le> amt v d"
  obtains u where "amounts_checked_sub v w = Ok u" and "\<And>d. amt u d = amt v d - amt w d"
proof -
  have "is_ok (amounts_checked_sub v w)"
    using assms by (simp add: amounts_checked_sub_is_ok fits_within_iff)
  then obtain u where u: "amounts_checked_sub v w = Ok u"
    by (cases "amounts_checked_sub v w") auto
  then have "amt u d = amt v d - amt w d" for d
    by (simp add: amounts_checked_sub_Ok)
  with u that show ?thesis by blast
qed

lemma amounts_checked_add_exists:
  assumes "\<And>d. amt v d + amt w d < 2 ^ 64"
  obtains u where "amounts_checked_add v w = Ok u" and "\<And>d. amt u d = amt v d + amt w d"
proof (cases "amounts_checked_add v w")
  case (Inl e)
  then have "\<exists>d. 2 ^ 64 \<le> amt v d + amt w d" using amounts_checked_add_error by blast
  with assms show ?thesis by (meson not_le)
next
  case (Inr u)
  then have "amt u d = amt v d + amt w d" for d by (simp add: amounts_checked_add_Ok)
  with Inr that show ?thesis by blast
qed

end
