(* ===== verification/Budget_Model.thy ===== *)
theory Budget_Model
  imports Budget_Amounts
begin

text \<open>
  \<open>peritus-budget\<close>, files \<open>state.rs\<close>, \<open>state/receipt.rs\<close>, \<open>snapshot.rs\<close>, \<open>command.rs\<close>,
  \<open>command/*.rs\<close>, \<open>identity_model.rs\<close> and \<open>transition/accounting/lookup.rs\<close>: the ledger, its
  accounts and reservation tombstones, the closed command vocabulary, receipts, snapshots, the
  byte-by-byte identity comparisons and the lookups by identity.
\<close>

section \<open>Identity comparison\<close>

text \<open>\<open>bytes_equal\<close> and \<open>bytes32_equal\<close> compare every index of the two arrays.\<close>

definition bytes_equal :: "u8 list \<Rightarrow> u8 list \<Rightarrow> bool" where
  "bytes_equal l r \<longleftrightarrow> list_all (\<lambda>i. l ! i = r ! i) [0..<16]"

definition bytes32_equal :: "u8 list \<Rightarrow> u8 list \<Rightarrow> bool" where
  "bytes32_equal l r \<longleftrightarrow> list_all (\<lambda>i. l ! i = r ! i) [0..<32]"

lemma bytes_equal_eq: "length l = 16 \<Longrightarrow> length r = 16 \<Longrightarrow> bytes_equal l r \<longleftrightarrow> l = r"
  by (auto simp: bytes_equal_def list_all_iff list_eq_iff_nth_eq)

lemma bytes32_equal_eq: "length l = 32 \<Longrightarrow> length r = 32 \<Longrightarrow> bytes32_equal l r \<longleftrightarrow> l = r"
  by (auto simp: bytes32_equal_def list_all_iff list_eq_iff_nth_eq)

definition budget_id_equal :: "budget_id \<Rightarrow> budget_id \<Rightarrow> bool" where
  "budget_id_equal l r = bytes_equal (as_bytes (budget_id_raw l)) (as_bytes (budget_id_raw r))"

definition reservation_id_equal :: "budget_reservation_id \<Rightarrow> budget_reservation_id \<Rightarrow> bool" where
  "reservation_id_equal l r =
     bytes_equal (as_bytes (reservation_id_raw l)) (as_bytes (reservation_id_raw r))"

definition action_id_equal :: "action_id \<Rightarrow> action_id \<Rightarrow> bool" where
  "action_id_equal l r = bytes_equal (as_bytes (action_id_raw l)) (as_bytes (action_id_raw r))"

definition digest_equal :: "sha256_digest \<Rightarrow> sha256_digest \<Rightarrow> bool" where
  "digest_equal l r = bytes32_equal (digest_bytes l) (digest_bytes r)"

fun parent_equal :: "budget_id option \<Rightarrow> budget_id option \<Rightarrow> bool" where
  "parent_equal (Some l) (Some r) = budget_id_equal l r"
| "parent_equal None None = True"
| "parent_equal _ _ = False"

fun parent_matches_id :: "budget_id option \<Rightarrow> budget_id \<Rightarrow> bool" where
  "parent_matches_id (Some actual) expected = budget_id_equal actual expected"
| "parent_matches_id None expected = False"

fun optional_digest_equal :: "sha256_digest option \<Rightarrow> sha256_digest option \<Rightarrow> bool" where
  "optional_digest_equal (Some l) (Some r) = digest_equal l r"
| "optional_digest_equal None None = True"
| "optional_digest_equal _ _ = False"

definition revision_equal :: "revision_tuple \<Rightarrow> revision_tuple \<Rightarrow> bool" where
  "revision_equal l r \<longleftrightarrow>
     bytes_equal (as_bytes (acceptance_spec_id_raw (acceptance_spec_id l)))
       (as_bytes (acceptance_spec_id_raw (acceptance_spec_id r)))
   \<and> bytes_equal (as_bytes (harness_id_raw (harness_id l))) (as_bytes (harness_id_raw (harness_id r)))
   \<and> bytes_equal (as_bytes (workspace_id_raw (workspace_id l)))
       (as_bytes (workspace_id_raw (workspace_id r)))
   \<and> generation_get (workspace_generation l) = generation_get (workspace_generation r)
   \<and> revision_number_get (workspace_revision l) = revision_number_get (workspace_revision r)
   \<and> bytes_equal (as_bytes (policy_id_raw (policy_id l))) (as_bytes (policy_id_raw (policy_id r)))
   \<and> bytes_equal (as_bytes (provider_profile_id_raw (provider_profile_id l)))
       (as_bytes (provider_profile_id_raw (provider_profile_id r)))"

text \<open>Each comparison decides equality of the values.\<close>

lemma identity_equal_eq [simp]:
  "budget_id_equal b c \<longleftrightarrow> b = c"
  "reservation_id_equal r s \<longleftrightarrow> r = s"
  "action_id_equal x y \<longleftrightarrow> x = y"
  "digest_equal d e \<longleftrightarrow> d = e"
  by (cases b; cases c; cases r; cases s; cases x; cases y;
      simp add: budget_id_equal_def reservation_id_equal_def action_id_equal_def digest_equal_def
        bytes_equal_eq bytes32_equal_eq)+

lemma parent_equal_eq [simp]: "parent_equal p q \<longleftrightarrow> p = q"
  by (cases "(p, q)" rule: parent_equal.cases) simp_all

lemma parent_matches_id_eq [simp]: "parent_matches_id p b \<longleftrightarrow> p = Some b"
  by (cases p) simp_all

lemma optional_digest_equal_eq [simp]: "optional_digest_equal p q \<longleftrightarrow> p = q"
  by (cases "(p, q)" rule: optional_digest_equal.cases) simp_all

lemma nominal_raw_inject:
  "acceptance_spec_id_raw x = acceptance_spec_id_raw x' \<longleftrightarrow> x = x'"
  "harness_id_raw h = harness_id_raw h' \<longleftrightarrow> h = h'"
  "workspace_id_raw w = workspace_id_raw w' \<longleftrightarrow> w = w'"
  "policy_id_raw p = policy_id_raw p' \<longleftrightarrow> p = p'"
  "provider_profile_id_raw q = provider_profile_id_raw q' \<longleftrightarrow> q = q'"
  by (cases x; cases x'; cases h; cases h'; cases w; cases w'; cases p; cases p'; cases q;
      cases q'; simp)+

lemma revision_equal_eq [simp]: "revision_equal l r \<longleftrightarrow> l = r"
  by (cases l; cases r) (auto simp: revision_equal_def bytes_equal_eq nominal_raw_inject)

section \<open>Commands\<close>

record child_budget_request =
  child_id :: budget_id
  child_parent_id :: budget_id
  child_revision :: revision_tuple
  child_limits :: budget_limits

record budget_request =
  request_reservation_id :: budget_reservation_id
  request_budget_id :: budget_id
  request_revision :: revision_tuple
  request_action_id :: action_id
  request_action_digest :: sha256_digest
  consume_now :: budget_amounts
  reserve :: budget_amounts

definition request_matches :: "budget_request \<Rightarrow> budget_request \<Rightarrow> bool" where
  "request_matches q other \<longleftrightarrow>
     reservation_id_equal (request_reservation_id q) (request_reservation_id other)
   \<and> budget_id_equal (request_budget_id q) (request_budget_id other)
   \<and> revision_equal (request_revision q) (request_revision other)
   \<and> action_id_equal (request_action_id q) (request_action_id other)
   \<and> digest_equal (request_action_digest q) (request_action_digest other)
   \<and> amounts_equals (consume_now q) (consume_now other)
   \<and> amounts_equals (reserve q) (reserve other)"

lemma request_matches_eq [simp]: "request_matches q other \<longleftrightarrow> q = other"
  by (cases q; cases other) (auto simp: request_matches_def)

record activation =
  activation_reservation_id :: budget_reservation_id
  activation_action_id :: action_id
  activation_action_digest :: sha256_digest
  activation_evidence_digest :: sha256_digest

datatype usage_finality = Interim | Final

record usage_observation =
  observation_reservation_id :: budget_reservation_id
  observation_action_id :: action_id
  observation_action_digest :: sha256_digest
  observation_evidence_digest :: sha256_digest
  cumulative :: budget_amounts
  observation_finality :: usage_finality

record reservation_reference =
  reference_reservation_id :: budget_reservation_id
  reference_action_id :: action_id
  reference_action_digest :: sha256_digest
  reference_evidence_digest :: sha256_digest

datatype ambiguous_finalization = AmbiguousFinalization (finalization_reference: reservation_reference)

datatype budget_command =
    AllocateChild child_budget_request
  | Begin budget_request
  | Activate activation
  | ObserveUsage usage_observation
  | SettleExact reservation_reference
  | CancelHeld reservation_reference
  | FinalizeAmbiguous ambiguous_finalization
  | Seal budget_id
  | Close budget_id

section \<open>Ledger state\<close>

datatype budget_account_phase = Open | Draining | Faulted | Closed

definition account_phase_is_closed :: "budget_account_phase \<Rightarrow> bool" where
  "account_phase_is_closed p = (case p of Closed \<Rightarrow> True | _ \<Rightarrow> False)"

lemma account_phase_is_closed_eq [simp]: "account_phase_is_closed p \<longleftrightarrow> p = Closed"
  by (cases p) (simp_all add: account_phase_is_closed_def)

datatype reservation_phase =
  Held | Active | SettledExact | SettledFinal | CancelledHeld | SettledAmbiguous | OverrunFaulted

definition is_live :: "reservation_phase \<Rightarrow> bool" where
  "is_live p = (case p of Held \<Rightarrow> True | Active \<Rightarrow> True | _ \<Rightarrow> False)"

lemma is_live_iff: "is_live p \<longleftrightarrow> p = Held \<or> p = Active"
  by (cases p) (simp_all add: is_live_def)

definition reservation_phase_equals :: "reservation_phase \<Rightarrow> reservation_phase \<Rightarrow> bool" where
  "reservation_phase_equals p q = (case (p, q) of
     (Held, Held) \<Rightarrow> True | (Active, Active) \<Rightarrow> True | (SettledExact, SettledExact) \<Rightarrow> True
   | (SettledFinal, SettledFinal) \<Rightarrow> True | (CancelledHeld, CancelledHeld) \<Rightarrow> True
   | (SettledAmbiguous, SettledAmbiguous) \<Rightarrow> True | (OverrunFaulted, OverrunFaulted) \<Rightarrow> True
   | _ \<Rightarrow> False)"

lemma reservation_phase_equals_eq [simp]: "reservation_phase_equals p q \<longleftrightarrow> p = q"
  by (cases p; cases q) (simp_all add: reservation_phase_equals_def)

record budget_account =
  account_id :: budget_id
  parent_id :: "budget_id option"
  revision :: revision_tuple
  limits :: budget_limits
  consumed :: budget_amounts
  operation_reserved :: budget_amounts
  child_delegated_remaining :: budget_amounts
  account_phase :: budget_account_phase

record reservation_record =
  request :: budget_request
  observed :: budget_amounts
  reservation_phase :: reservation_phase
  activation_evidence :: "sha256_digest option"
  observation_evidence :: "sha256_digest option"
  final_evidence :: "sha256_digest option"
  final_reported :: "budget_amounts option"
  finality :: "usage_finality option"

record budget_ledger =
  root_id :: budget_id
  accounts :: "budget_account list"
  reservations :: "reservation_record list"

text \<open>A ledger with one open root account, and the copy the reducer works on.\<close>

definition new_root :: "budget_id \<Rightarrow> revision_tuple \<Rightarrow> budget_limits \<Rightarrow> budget_ledger" where
  "new_root root rv lims = \<lparr>root_id = root,
     accounts = [\<lparr>account_id = root, parent_id = None, revision = rv, limits = lims,
       consumed = amounts_zero, operation_reserved = amounts_zero,
       child_delegated_remaining = amounts_zero, account_phase = Open\<rparr>],
     reservations = []\<rparr>"

definition duplicate :: "budget_ledger \<Rightarrow> budget_ledger" where
  "duplicate l = \<lparr>root_id = root_id l,
     accounts = map (\<lambda>i. accounts l ! i) [0..<length (accounts l)],
     reservations = map (\<lambda>i. reservations l ! i) [0..<length (reservations l)]\<rparr>"

lemma duplicate_eq [simp]: "duplicate l = l"
  by (cases l) (simp add: duplicate_def map_nth)

definition account_count :: "budget_ledger \<Rightarrow> nat" where
  "account_count l = length (accounts l)"

definition reservation_count :: "budget_ledger \<Rightarrow> nat" where
  "reservation_count l = length (reservations l)"

section \<open>Receipts and snapshots\<close>

datatype budget_operation =
    AllocateChildOperation | BeginOperation | ActivateOperation | ObserveUsageOperation
  | SettleExactOperation | CancelHeldOperation | FinalizeAmbiguousOperation | SealOperation
  | CloseOperation

datatype budget_receipt_kind = Applied | Idempotent | OverrunFaultedReceipt

record budget_receipt =
  receipt_operation :: budget_operation
  receipt_kind :: budget_receipt_kind
  receipt_budget_id :: budget_id
  receipt_reservation_id :: "budget_reservation_id option"
  charged :: budget_amounts
  released :: budget_amounts
  reported :: "budget_amounts option"
  receipt_evidence_digest :: "sha256_digest option"

definition receipt_new :: "budget_operation \<Rightarrow> budget_receipt_kind \<Rightarrow> budget_id
    \<Rightarrow> budget_reservation_id option \<Rightarrow> budget_amounts \<Rightarrow> budget_amounts
    \<Rightarrow> budget_amounts option \<Rightarrow> sha256_digest option \<Rightarrow> budget_receipt" where
  "receipt_new op k b r c rel rep ev = \<lparr>receipt_operation = op, receipt_kind = k,
     receipt_budget_id = b, receipt_reservation_id = r, charged = c, released = rel,
     reported = rep, receipt_evidence_digest = ev\<rparr>"

definition receipt :: "budget_operation \<Rightarrow> budget_receipt_kind \<Rightarrow> budget_id \<Rightarrow> budget_receipt" where
  "receipt op k b = receipt_new op k b None amounts_zero amounts_zero None None"

definition bound_receipt :: "budget_operation \<Rightarrow> budget_receipt_kind \<Rightarrow> budget_id
    \<Rightarrow> budget_reservation_id \<Rightarrow> sha256_digest \<Rightarrow> budget_receipt" where
  "bound_receipt op k b r ev = receipt_new op k b (Some r) amounts_zero amounts_zero None (Some ev)"

lemmas receipt_defs = receipt_def bound_receipt_def receipt_new_def

text \<open>An accepted transition: the next ledger and its receipt.\<close>

type_synonym budget_transition = "budget_ledger \<times> budget_receipt"

record budget_snapshot =
  snapshot_id :: budget_id
  snapshot_parent_id :: "budget_id option"
  snapshot_revision :: revision_tuple
  snapshot_limits :: budget_limits
  snapshot_consumed :: budget_amounts
  snapshot_operation_reserved :: budget_amounts
  snapshot_child_delegated_remaining :: budget_amounts
  snapshot_available :: budget_amounts
  snapshot_phase :: budget_account_phase

definition snapshot_from_account :: "budget_account \<Rightarrow> budget_amounts \<Rightarrow> budget_snapshot" where
  "snapshot_from_account a avail = \<lparr>snapshot_id = account_id a, snapshot_parent_id = parent_id a,
     snapshot_revision = revision a, snapshot_limits = limits a, snapshot_consumed = consumed a,
     snapshot_operation_reserved = operation_reserved a,
     snapshot_child_delegated_remaining = child_delegated_remaining a,
     snapshot_available = avail, snapshot_phase = account_phase a\<rparr>"

record reservation_snapshot =
  view_request :: budget_request
  view_observed :: budget_amounts
  view_outstanding :: budget_amounts
  view_phase :: reservation_phase
  view_activation_evidence :: "sha256_digest option"
  view_observation_evidence :: "sha256_digest option"
  view_final_evidence :: "sha256_digest option"
  view_final_reported :: "budget_amounts option"
  view_finality :: "usage_finality option"

definition snapshot_from_record :: "reservation_record \<Rightarrow> budget_amounts \<Rightarrow> reservation_snapshot" where
  "snapshot_from_record r out = \<lparr>view_request = request r, view_observed = observed r,
     view_outstanding = out, view_phase = reservation_phase r,
     view_activation_evidence = activation_evidence r,
     view_observation_evidence = observation_evidence r,
     view_final_evidence = final_evidence r, view_final_reported = final_reported r,
     view_finality = finality r\<rparr>"

section \<open>Lookup\<close>

definition reservation_key :: "reservation_record \<Rightarrow> budget_reservation_id" where
  "reservation_key r = request_reservation_id (request r)"

definition account_index_of :: "budget_account list \<Rightarrow> budget_id \<Rightarrow> nat option" where
  "account_index_of as b = find_index (\<lambda>a. budget_id_equal (account_id a) b) as"

definition reservation_index_of :: "reservation_record list \<Rightarrow> budget_reservation_id \<Rightarrow> nat option" where
  "reservation_index_of rs r =
     find_index (\<lambda>x. reservation_id_equal (request_reservation_id (request x)) r) rs"

definition find_account :: "budget_ledger \<Rightarrow> budget_id \<Rightarrow> nat option" where
  "find_account l b = account_index_of (accounts l) b"

definition find_reservation :: "budget_ledger \<Rightarrow> budget_reservation_id \<Rightarrow> nat option" where
  "find_reservation l r = reservation_index_of (reservations l) r"

interpretation account_table: keyed_list account_id account_index_of
  by unfold_locales (simp add: account_index_of_def)

interpretation reservation_table: keyed_list reservation_key reservation_index_of
  by unfold_locales (simp add: reservation_index_of_def reservation_key_def)

definition require_account :: "budget_ledger \<Rightarrow> budget_id \<Rightarrow> budget_error + nat" where
  "require_account l b = (case find_account l b of
     Some i \<Rightarrow> Ok i | None \<Rightarrow> Err (budget_failure UnknownBudget b))"

definition require_reservation :: "budget_ledger \<Rightarrow> budget_reservation_id \<Rightarrow> budget_error + nat" where
  "require_reservation l r = (case find_reservation l r of
     Some i \<Rightarrow> Ok i | None \<Rightarrow> Err (reservation_failure UnknownReservation r))"

lemma require_account_Ok: "require_account l b = Ok i \<longleftrightarrow> find_account l b = Some i"
  by (auto simp: require_account_def split: option.splits)

lemma require_reservation_Ok: "require_reservation l r = Ok i \<longleftrightarrow> find_reservation l r = Some i"
  by (auto simp: require_reservation_def split: option.splits)

lemma require_account_Err:
  "require_account l b = Err e \<longleftrightarrow> find_account l b = None \<and> e = budget_failure UnknownBudget b"
  by (auto simp: require_account_def split: option.splits)

lemma require_reservation_Err:
  "require_reservation l r = Err e \<longleftrightarrow>
     find_reservation l r = None \<and> e = reservation_failure UnknownReservation r"
  by (auto simp: require_reservation_def split: option.splits)

definition require_binding ::
  "reservation_record \<Rightarrow> action_id \<Rightarrow> sha256_digest \<Rightarrow> budget_error + unit" where
  "require_binding r a d =
     (if \<not> action_id_equal (request_action_id (request r)) a
         \<or> \<not> digest_equal (request_action_digest (request r)) d
      then Err (reservation_failure BindingMismatch (request_reservation_id (request r)))
      else Ok ())"

definition require_reference_binding ::
  "reservation_record \<Rightarrow> reservation_reference \<Rightarrow> budget_error + unit" where
  "require_reference_binding r ref =
     require_binding r (reference_action_id ref) (reference_action_digest ref)"

lemma require_binding_Ok:
  "require_binding r a d = Ok () \<longleftrightarrow>
     request_action_id (request r) = a \<and> request_action_digest (request r) = d"
  by (auto simp: require_binding_def)

lemma require_binding_Err:
  "require_binding r a d = Err e \<longleftrightarrow>
     \<not> (request_action_id (request r) = a \<and> request_action_digest (request r) = d)
     \<and> e = reservation_failure BindingMismatch (request_reservation_id (request r))"
  by (auto simp: require_binding_def)

text \<open>Live work of an account: a live reservation on it, or a direct child that is not closed.\<close>

definition has_live_work :: "budget_ledger \<Rightarrow> budget_id \<Rightarrow> bool" where
  "has_live_work l b \<longleftrightarrow>
     list_ex (\<lambda>r. budget_id_equal (request_budget_id (request r)) b \<and> is_live (reservation_phase r))
       (reservations l)
   \<or> list_ex (\<lambda>a. parent_matches_id (parent_id a) b \<and> \<not> account_phase_is_closed (account_phase a))
       (accounts l)"

lemma has_live_work_iff:
  "has_live_work l b \<longleftrightarrow>
     (\<exists>r\<in>set (reservations l). request_budget_id (request r) = b \<and> is_live (reservation_phase r))
   \<or> (\<exists>a\<in>set (accounts l). parent_id a = Some b \<and> account_phase a \<noteq> Closed)"
  by (simp add: has_live_work_def list_ex_iff)

end
