(* ===== verification/Budget_Accounting.thy ===== *)
theory Budget_Accounting
  imports Budget_Model
begin

text \<open>
  \<open>peritus-budget\<close>, files \<open>model.rs\<close> and \<open>transition/accounting/*.rs\<close> together with
  \<open>transition/lifecycle/retry.rs\<close>: available capacity, outstanding reservations, the open-lineage
  check, the propagation of charges and faults along an account's lineage, and the release of
  operation reservations.

  A mutation of one element of a vector is \<open>update_account\<close> or \<open>update_reservation\<close>. The
  reducers mutate a private copy that is dropped on failure, so a failing operation returns its
  error only. The \<open>establish_*\<close> calls of the source check nothing and change nothing (they are
  witnesses for the proof tool the crate was written with) and have no counterpart here.
\<close>

section \<open>In-place updates\<close>

definition update_account :: "budget_ledger \<Rightarrow> nat \<Rightarrow> (budget_account \<Rightarrow> budget_account) \<Rightarrow> budget_ledger" where
  "update_account l i f = l\<lparr>accounts := (accounts l)[i := f (accounts l ! i)]\<rparr>"

definition update_reservation ::
  "budget_ledger \<Rightarrow> nat \<Rightarrow> (reservation_record \<Rightarrow> reservation_record) \<Rightarrow> budget_ledger" where
  "update_reservation l i f = l\<lparr>reservations := (reservations l)[i := f (reservations l ! i)]\<rparr>"

lemma update_account_simps [simp]:
  "root_id (update_account l i f) = root_id l"
  "reservations (update_account l i f) = reservations l"
  "length (accounts (update_account l i f)) = length (accounts l)"
  by (simp_all add: update_account_def)

lemma update_reservation_simps [simp]:
  "root_id (update_reservation l i f) = root_id l"
  "accounts (update_reservation l i f) = accounts l"
  "length (reservations (update_reservation l i f)) = length (reservations l)"
  by (simp_all add: update_reservation_def)

lemma update_account_nth:
  "i < length (accounts l) \<Longrightarrow>
     accounts (update_account l i f) ! k = (if k = i then f (accounts l ! i) else accounts l ! k)"
  by (simp add: update_account_def nth_list_update)

lemma update_reservation_nth:
  "i < length (reservations l) \<Longrightarrow>
     reservations (update_reservation l i f) ! k =
       (if k = i then f (reservations l ! i) else reservations l ! k)"
  by (simp add: update_reservation_def nth_list_update)

section \<open>Capacity queries\<close>

definition available :: "budget_account \<Rightarrow> budget_error + budget_amounts" where
  "available a =
    (case amounts_checked_sub (limit_amounts (limits a)) (consumed a) of
       Inl e \<Rightarrow> Err (arithmetic_failure e)
     | Inr after_consumed \<Rightarrow>
    (case amounts_checked_sub after_consumed (operation_reserved a) of
       Inl e \<Rightarrow> Err (arithmetic_failure e)
     | Inr after_reserved \<Rightarrow>
    (case amounts_checked_sub after_reserved (child_delegated_remaining a) of
       Inl e \<Rightarrow> Err (arithmetic_failure e)
     | Inr avail \<Rightarrow> Ok avail)))"

definition outstanding :: "reservation_record \<Rightarrow> budget_error + budget_amounts" where
  "outstanding r =
    (if is_live (reservation_phase r)
     then (case amounts_checked_sub (reserve (request r)) (observed r) of
             Inl e \<Rightarrow> Err (arithmetic_failure e) | Inr amount \<Rightarrow> Ok amount)
     else Ok amounts_zero)"

definition outstanding_validated :: "reservation_record \<Rightarrow> budget_amounts" where
  "outstanding_validated r = (case outstanding r of Inr amount \<Rightarrow> amount | Inl _ \<Rightarrow> amounts_zero)"

text \<open>The four ways an account's ceiling is split, in every dimension.\<close>

definition capacity_ok :: "budget_account \<Rightarrow> bool" where
  "capacity_ok a \<longleftrightarrow> (\<forall>d. amt (consumed a) d + amt (operation_reserved a) d
     + amt (child_delegated_remaining a) d \<le> amt (limit_amounts (limits a)) d)"

lemma available_unfold:
  "available a = Ok v \<longleftrightarrow> (\<exists>u w. amounts_checked_sub (limit_amounts (limits a)) (consumed a) = Ok u
     \<and> amounts_checked_sub u (operation_reserved a) = Ok w
     \<and> amounts_checked_sub w (child_delegated_remaining a) = Ok v)"
  by (auto simp: available_def split: sum.splits)

lemma available_exists:
  assumes "capacity_ok a"
  obtains v where "available a = Ok v"
    and "\<And>d. amt (limit_amounts (limits a)) d = amt (consumed a) d + amt (operation_reserved a) d
           + amt (child_delegated_remaining a) d + amt v d"
proof -
  from assms have cap: "amt (consumed a) d + amt (operation_reserved a) d
     + amt (child_delegated_remaining a) d \<le> amt (limit_amounts (limits a)) d" for d
    by (simp add: capacity_ok_def)
  have "amt (consumed a) d \<le> amt (limit_amounts (limits a)) d" for d
    using cap[of d] by linarith
  then obtain u where u: "amounts_checked_sub (limit_amounts (limits a)) (consumed a) = Ok u"
    "\<And>d. amt u d = amt (limit_amounts (limits a)) d - amt (consumed a) d"
    using amounts_checked_sub_exists by blast
  have "amt (operation_reserved a) d \<le> amt u d" for d
    using cap[of d] u(2)[of d] by linarith
  then obtain w where w: "amounts_checked_sub u (operation_reserved a) = Ok w"
    "\<And>d. amt w d = amt u d - amt (operation_reserved a) d"
    using amounts_checked_sub_exists by blast
  have "amt (child_delegated_remaining a) d \<le> amt w d" for d
    using cap[of d] u(2)[of d] w(2)[of d] by linarith
  then obtain v where v: "amounts_checked_sub w (child_delegated_remaining a) = Ok v"
    "\<And>d. amt v d = amt w d - amt (child_delegated_remaining a) d"
    using amounts_checked_sub_exists by blast
  show thesis
  proof (rule that)
    show "available a = Ok v" using u w v by (auto simp: available_unfold)
    show "amt (limit_amounts (limits a)) d = amt (consumed a) d + amt (operation_reserved a) d
           + amt (child_delegated_remaining a) d + amt v d" for d
      using cap[of d] u(2)[of d] w(2)[of d] v(2)[of d] by linarith
  qed
qed

lemma available_Ok:
  "available a = Ok v \<longleftrightarrow> (\<forall>d. amt (limit_amounts (limits a)) d =
     amt (consumed a) d + amt (operation_reserved a) d + amt (child_delegated_remaining a) d + amt v d)"
  (is "_ \<longleftrightarrow> ?eq v")
proof
  assume "available a = Ok v"
  then show "?eq v" by (auto simp: available_unfold amounts_checked_sub_Ok)
next
  assume eq: "?eq v"
  then have "capacity_ok a" by (simp add: capacity_ok_def)
  then obtain w where w: "available a = Ok w" "?eq w"
    by (rule available_exists) blast
  from eq w(2) have "v = w" by (intro amounts_eqI) (metis add_left_cancel)
  with w show "available a = Ok v" by simp
qed

lemma available_is_ok: "is_ok (available a) \<longleftrightarrow> capacity_ok a"
proof
  assume "is_ok (available a)"
  then obtain v where "available a = Ok v" by (cases "available a") auto
  then show "capacity_ok a" by (simp add: available_Ok capacity_ok_def)
next
  assume "capacity_ok a"
  then obtain v where "available a = Ok v" by (rule available_exists)
  then show "is_ok (available a)" by simp
qed

text \<open>Units a reservation still holds.\<close>

definition outstanding_units :: "reservation_record \<Rightarrow> budget_dimension \<Rightarrow> nat" where
  "outstanding_units r d = (if is_live (reservation_phase r)
     then amt (reserve (request r)) d - amt (observed r) d else 0)"

lemma outstanding_cases:
  assumes "fits_within (observed r) (reserve (request r))"
  shows "outstanding r = Ok (outstanding_validated r)"
    and "amt (outstanding_validated r) d = outstanding_units r d"
proof -
  obtain u where u: "amounts_checked_sub (reserve (request r)) (observed r) = Ok u"
    "\<And>d. amt u d = amt (reserve (request r)) d - amt (observed r) d"
    by (rule amounts_checked_sub_exists [of "observed r" "reserve (request r)"])
      (use assms in \<open>simp_all add: fits_within_iff\<close>)
  then show "outstanding r = Ok (outstanding_validated r)"
    by (simp add: outstanding_def outstanding_validated_def)
  from u show "amt (outstanding_validated r) d = outstanding_units r d"
    by (simp add: outstanding_def outstanding_validated_def outstanding_units_def)
qed

section \<open>Open lineage\<close>

text \<open>
  The walk up the parents has no bound in the source: on a ledger whose parents form a cycle it
  does not return, which is the value \<open>None\<close> here.
\<close>

partial_function (option) require_open_parent_chain ::
  "budget_ledger \<Rightarrow> nat \<Rightarrow> (budget_error + unit) option" where
  "require_open_parent_chain l i =
    (if account_phase (accounts l ! i) \<noteq> Open
     then Some (Err (budget_failure AccountNotOpen (account_id (accounts l ! i))))
     else (case parent_id (accounts l ! i) of
       None \<Rightarrow> Some (Ok ())
     | Some p \<Rightarrow> (case require_account l p of
         Inl e \<Rightarrow> Some (Err e)
       | Inr parent_index \<Rightarrow> require_open_parent_chain l parent_index)))"

definition require_open_lineage :: "budget_ledger \<Rightarrow> budget_id \<Rightarrow> (budget_error + nat) option" where
  "require_open_lineage l b = (case require_account l b of
     Inl e \<Rightarrow> Some (Err e)
   | Inr target \<Rightarrow> (case require_open_parent_chain l target of
       None \<Rightarrow> None
     | Some (Inl e) \<Rightarrow> Some (Err e)
     | Some (Inr _) \<Rightarrow> Some (Ok target)))"

section \<open>Charging a lineage\<close>

fun charge_lineage_inner ::
  "budget_ledger \<Rightarrow> budget_id \<Rightarrow> budget_amounts \<Rightarrow> bool \<Rightarrow> nat \<Rightarrow> budget_error + budget_ledger" where
  "charge_lineage_inner l current amount delegated_child 0 = Err (corrupt current)"
| "charge_lineage_inner l current amount delegated_child (Suc remaining_steps) =
    (case find_account l current of
       None \<Rightarrow> Err (corrupt current)
     | Some index \<Rightarrow>
    (let parent = parent_id (accounts l ! index) in
     case (if delegated_child
           then (case amounts_checked_sub (child_delegated_remaining (accounts l ! index)) amount of
                   Inl e \<Rightarrow> Err (arithmetic_failure e)
                 | Inr delegated \<Rightarrow>
                     Ok (update_account l index (\<lambda>a. a\<lparr>child_delegated_remaining := delegated\<rparr>)))
           else Ok l) of
       Inl e \<Rightarrow> Err e
     | Inr l1 \<Rightarrow>
    (case amounts_checked_add (consumed (accounts l1 ! index)) amount of
       Inl e \<Rightarrow> Err (arithmetic_failure e)
     | Inr charged_total \<Rightarrow>
    (let l2 = update_account l1 index (\<lambda>a. a\<lparr>consumed := charged_total\<rparr>) in
     case parent of
       None \<Rightarrow> Ok l2
     | Some p \<Rightarrow> charge_lineage_inner l2 p amount True remaining_steps))))"

definition charge_lineage ::
  "budget_ledger \<Rightarrow> budget_id \<Rightarrow> budget_amounts \<Rightarrow> budget_error + budget_ledger" where
  "charge_lineage l b amount = charge_lineage_inner l b amount False (length (accounts l))"

section \<open>Faulting a lineage\<close>

fun fault_lineage_inner :: "budget_ledger \<Rightarrow> budget_id \<Rightarrow> nat \<Rightarrow> budget_error + budget_ledger" where
  "fault_lineage_inner l current 0 = Err (corrupt current)"
| "fault_lineage_inner l current (Suc remaining_steps) =
    (case find_account l current of
       None \<Rightarrow> Err (corrupt current)
     | Some index \<Rightarrow>
    (let parent = parent_id (accounts l ! index);
         l1 = update_account l index (\<lambda>a. a\<lparr>account_phase := Faulted\<rparr>) in
     case parent of
       None \<Rightarrow> Ok l1
     | Some p \<Rightarrow> fault_lineage_inner l1 p remaining_steps))"

definition fault_lineage :: "budget_ledger \<Rightarrow> budget_id \<Rightarrow> budget_error + budget_ledger" where
  "fault_lineage l b = fault_lineage_inner l b (length (accounts l))"

section \<open>Releases\<close>

definition release_operation_reservation ::
  "budget_ledger \<Rightarrow> budget_id \<Rightarrow> budget_amounts \<Rightarrow> budget_error + budget_ledger" where
  "release_operation_reservation l b amount = (case find_account l b of
     None \<Rightarrow> Err (corrupt b)
   | Some index \<Rightarrow>
      (case amounts_checked_sub (operation_reserved (accounts l ! index)) amount of
         Inl e \<Rightarrow> Err (arithmetic_failure e)
       | Inr left \<Rightarrow> Ok (update_account l index (\<lambda>a. a\<lparr>operation_reserved := left\<rparr>))))"

definition release_operation_reservation_validated ::
  "budget_ledger \<Rightarrow> nat \<Rightarrow> budget_amounts \<Rightarrow> budget_ledger" where
  "release_operation_reservation_validated l index amount =
    (case amounts_checked_sub (operation_reserved (accounts l ! index)) amount of
       Inr left \<Rightarrow> update_account l index (\<lambda>a. a\<lparr>operation_reserved := left\<rparr>)
     | Inl _ \<Rightarrow> l)"

definition release_observation_charge :: "budget_ledger \<Rightarrow> nat \<Rightarrow> budget_amounts \<Rightarrow> budget_ledger" where
  "release_observation_charge l reservation_index amount =
    (case find_account l (request_budget_id (request (reservations l ! reservation_index))) of
       None \<Rightarrow> l
     | Some index \<Rightarrow>
        (case amounts_checked_sub (operation_reserved (accounts l ! index)) amount of
           Inr left \<Rightarrow> update_account l index (\<lambda>a. a\<lparr>operation_reserved := left\<rparr>)
         | Inl _ \<Rightarrow> l))"

definition release_full_reservation :: "budget_ledger \<Rightarrow> nat \<Rightarrow> budget_amounts \<Rightarrow> budget_ledger" where
  "release_full_reservation l reservation_index amount =
    (case find_account l (request_budget_id (request (reservations l ! reservation_index))) of
       None \<Rightarrow> l
     | Some index \<Rightarrow>
        (case amounts_checked_sub (operation_reserved (accounts l ! index)) amount of
           Inr left \<Rightarrow> update_account l index (\<lambda>a. a\<lparr>operation_reserved := left\<rparr>)
         | Inl _ \<Rightarrow> l))"

section \<open>Retry history\<close>

fun retry_loop ::
  "budget_request \<Rightarrow> bool \<Rightarrow> reservation_record list \<Rightarrow> budget_error + bool" where
  "retry_loop q retry [] = Ok retry"
| "retry_loop q retry (prior # rest) =
    (if revision_equal (request_revision (request prior)) (request_revision q)
        \<and> action_id_equal (request_action_id (request prior)) (request_action_id q)
     then (if \<not> digest_equal (request_action_digest (request prior)) (request_action_digest q)
           then Err (reservation_failure BindingMismatch (request_reservation_id q))
           else if is_live (reservation_phase prior)
           then Err (reservation_failure PriorAttemptUnresolved (request_reservation_id q))
           else retry_loop q True rest)
     else retry_loop q retry rest)"

definition retry_required :: "budget_ledger \<Rightarrow> budget_request \<Rightarrow> nat \<Rightarrow> budget_error + bool" where
  "retry_required l q stop = retry_loop q False (take stop (reservations l))"

definition validate_attempt_charge :: "budget_request \<Rightarrow> bool \<Rightarrow> budget_error + unit" where
  "validate_attempt_charge q retry =
    (if quantity_get (amounts_get (consume_now q) Attempts) \<noteq> 1
        \<or> quantity_get (amounts_get (consume_now q) Retries) \<noteq> (if retry then 1 else 0)
        \<or> quantity_get (amounts_get (reserve q) Attempts) \<noteq> 0
        \<or> quantity_get (amounts_get (reserve q) Retries) \<noteq> 0
     then Err (reservation_failure InvalidAttemptAccounting (request_reservation_id q))
     else Ok ())"

text \<open>Two requests of one lineage of attempts: same revision and action.\<close>

definition same_attempt_lineage :: "budget_request \<Rightarrow> budget_request \<Rightarrow> bool" where
  "same_attempt_lineage p q \<longleftrightarrow>
     request_revision p = request_revision q \<and> request_action_id p = request_action_id q"

lemma retry_loop_Ok:
  "retry_loop q b rs = Ok b' \<longleftrightarrow>
    (\<forall>r\<in>set rs. same_attempt_lineage (request r) q \<longrightarrow>
       request_action_digest (request r) = request_action_digest q \<and> \<not> is_live (reservation_phase r))
    \<and> (b' \<longleftrightarrow> b \<or> (\<exists>r\<in>set rs. same_attempt_lineage (request r) q))"
  by (induction q b rs rule: retry_loop.induct)
    (auto simp: same_attempt_lineage_def)

lemma validate_attempt_charge_Ok:
  "validate_attempt_charge q retry = Ok () \<longleftrightarrow>
     amt (consume_now q) Attempts = 1 \<and> amt (consume_now q) Retries = (if retry then 1 else 0)
   \<and> amt (reserve q) Attempts = 0 \<and> amt (reserve q) Retries = 0"
  by (auto simp: validate_attempt_charge_def amt_def units_def word_unat_eq_iff)

end
