(* ===== verification/Budget_Validation.thy ===== *)
theory Budget_Validation
  imports Budget_Accounting
begin

text \<open>
  \<open>peritus-budget\<close>, files \<open>transition/validation/*.rs\<close>: the executable validation of a ledger
  (tree shape, conservation equations, tombstones, retry history) and of a step (identities
  immutable, consumption monotone, charges propagated to the parent). The second part states
  what a valid ledger is, over all indices and dimensions, and proves that the executable
  validation accepts exactly those ledgers.
\<close>

section \<open>Structure\<close>

definition account_at :: "budget_ledger \<Rightarrow> nat \<Rightarrow> budget_error + budget_account" where
  "account_at l i = (if length (accounts l) \<le> i then Err (corrupt (root_id l)) else Ok (accounts l ! i))"

definition reservation_at :: "budget_ledger \<Rightarrow> nat \<Rightarrow> budget_error + reservation_record" where
  "reservation_at l i =
     (if length (reservations l) \<le> i then Err (corrupt (root_id l)) else Ok (reservations l ! i))"

definition duplicate_account_before :: "budget_ledger \<Rightarrow> budget_id \<Rightarrow> nat \<Rightarrow> bool" where
  "duplicate_account_before l b stop =
     (if length (accounts l) < stop then True
      else list_ex (\<lambda>i. budget_id_equal (account_id (accounts l ! i)) b) [0..<stop])"

definition validate_account_unique_before :: "budget_ledger \<Rightarrow> nat \<Rightarrow> budget_error + unit" where
  "validate_account_unique_before l index =
     (if length (accounts l) \<le> index then Err (corrupt (root_id l))
      else (case account_at l index of
        Inl e \<Rightarrow> Err e
      | Inr a \<Rightarrow>
         if duplicate_account_before l (account_id a) index then Err (corrupt (account_id a))
         else Ok ()))"

definition duplicate_reservation_before :: "budget_ledger \<Rightarrow> budget_reservation_id \<Rightarrow> nat \<Rightarrow> bool" where
  "duplicate_reservation_before l r stop =
     (if length (reservations l) < stop then True
      else list_ex (\<lambda>i. reservation_id_equal (request_reservation_id (request (reservations l ! i))) r)
        [0..<stop])"

definition validate_reservation_unique_before :: "budget_ledger \<Rightarrow> nat \<Rightarrow> budget_error + unit" where
  "validate_reservation_unique_before l index =
     (if length (reservations l) \<le> index then Err (corrupt (root_id l))
      else (let r = request_reservation_id (request (reservations l ! index)) in
        if duplicate_reservation_before l r index then Err (reservation_failure CorruptState r)
        else Ok ()))"

definition validate_parent_before :: "budget_ledger \<Rightarrow> nat \<Rightarrow> budget_error + unit" where
  "validate_parent_before l child_index =
     (if child_index = 0 \<or> length (accounts l) \<le> child_index then Err (corrupt (root_id l))
      else (case account_at l child_index of
        Inl e \<Rightarrow> Err e
      | Inr child \<Rightarrow>
         if parent_id child = None then Err (corrupt (account_id child))
         else (case find_index (\<lambda>p. parent_matches_id (parent_id child) (account_id p))
                  (take child_index (accounts l)) of
             None \<Rightarrow> Err (corrupt (account_id child))
           | Some p \<Rightarrow>
               if \<not> revision_equal (revision child) (revision (accounts l ! p))
               then Err (corrupt (account_id child)) else Ok ())))"

section \<open>Derived sums\<close>

definition child_contributes :: "budget_account \<Rightarrow> budget_id \<Rightarrow> bool" where
  "child_contributes child b \<longleftrightarrow>
     (case parent_id child of Some actual \<Rightarrow> budget_id_equal actual b | None \<Rightarrow> False)
   \<and> (case account_phase child of Closed \<Rightarrow> False | Open \<Rightarrow> True | Draining \<Rightarrow> True | Faulted \<Rightarrow> True)"

lemma child_contributes_iff: "child_contributes c b \<longleftrightarrow> parent_id c = Some b \<and> account_phase c \<noteq> Closed"
  by (auto simp: child_contributes_def split: option.splits budget_account_phase.splits)

definition reservation_contributes :: "reservation_record \<Rightarrow> budget_id \<Rightarrow> bool" where
  "reservation_contributes r b = budget_id_equal (request_budget_id (request r)) b"

fun child_remaining_loop ::
  "budget_account \<Rightarrow> budget_account list \<Rightarrow> budget_amounts \<Rightarrow> budget_error + budget_amounts" where
  "child_remaining_loop a [] sum_so_far = Ok sum_so_far"
| "child_remaining_loop a (child # rest) sum_so_far =
    (if child_contributes child (account_id a)
     then (if \<not> revision_equal (revision child) (revision a) then Err (corrupt (account_id child))
           else (case amounts_checked_sub (limit_amounts (limits child)) (consumed child) of
             Inl e \<Rightarrow> Err (corrupt (account_id child))
           | Inr remaining \<Rightarrow>
              (case amounts_checked_add sum_so_far remaining of
                 Inl e \<Rightarrow> Err (corrupt (account_id a))
               | Inr next \<Rightarrow> child_remaining_loop a rest next)))
     else child_remaining_loop a rest sum_so_far)"

definition direct_child_remaining :: "budget_ledger \<Rightarrow> nat \<Rightarrow> budget_error + budget_amounts" where
  "direct_child_remaining l index =
     (if length (accounts l) \<le> index then Err (corrupt (root_id l))
      else child_remaining_loop (accounts l ! index) (accounts l) amounts_zero)"

fun operation_reserved_loop ::
  "budget_id \<Rightarrow> reservation_record list \<Rightarrow> budget_amounts \<Rightarrow> budget_error + budget_amounts" where
  "operation_reserved_loop b [] sum_so_far = Ok sum_so_far"
| "operation_reserved_loop b (r # rest) sum_so_far =
    (if reservation_contributes r b
     then (case outstanding r of
         Inl e \<Rightarrow> Err (corrupt b)
       | Inr amount \<Rightarrow>
          (case amounts_checked_add sum_so_far amount of
             Inl e \<Rightarrow> Err (corrupt b)
           | Inr next \<Rightarrow> operation_reserved_loop b rest next))
     else operation_reserved_loop b rest sum_so_far)"

definition direct_operation_reserved :: "budget_ledger \<Rightarrow> nat \<Rightarrow> budget_error + budget_amounts" where
  "direct_operation_reserved l index =
     (if length (accounts l) \<le> index then Err (corrupt (root_id l))
      else operation_reserved_loop (account_id (accounts l ! index)) (reservations l) amounts_zero)"

section \<open>Accounts\<close>

definition validate_account :: "budget_ledger \<Rightarrow> nat \<Rightarrow> budget_error + unit" where
  "validate_account l index =
    (let a = accounts l ! index in
     case validate_account_unique_before l index of Inl e \<Rightarrow> Err e | Inr _ \<Rightarrow>
     case (if 0 < index then validate_parent_before l index else Ok ()) of Inl e \<Rightarrow> Err e | Inr _ \<Rightarrow>
     case map_err (\<lambda>_. corrupt (account_id a)) (available a) of Inl e \<Rightarrow> Err e | Inr _ \<Rightarrow>
     case direct_child_remaining l index of Inl e \<Rightarrow> Err e | Inr child_remaining \<Rightarrow>
     if \<not> amounts_equals child_remaining (child_delegated_remaining a)
     then Err (corrupt (account_id a)) else
     case direct_operation_reserved l index of Inl e \<Rightarrow> Err e | Inr reserved \<Rightarrow>
     if \<not> amounts_equals reserved (operation_reserved a)
     then Err (corrupt (account_id a)) else
     if account_phase_is_closed (account_phase a) \<and> has_live_work l (account_id a)
     then Err (corrupt (account_id a)) else Ok ())"

definition validate_accounts :: "budget_ledger \<Rightarrow> budget_error + unit" where
  "validate_accounts l =
    (if accounts l = [] then Err (corrupt (root_id l)) else
     case find_account l (root_id l) of
       None \<Rightarrow> Err (corrupt (root_id l))
     | Some root_index \<Rightarrow>
        if root_index \<noteq> 0 \<or> parent_id (accounts l ! root_index) \<noteq> None
        then Err (corrupt (root_id l))
        else for_range (validate_account l) (length (accounts l)))"

section \<open>Reservations\<close>

definition optional_amounts_equal :: "budget_amounts option \<Rightarrow> budget_amounts option \<Rightarrow> bool" where
  "optional_amounts_equal p q = (case (p, q) of
     (Some v, Some w) \<Rightarrow> amounts_equals v w | (None, None) \<Rightarrow> True | _ \<Rightarrow> False)"

lemma optional_amounts_equal_eq [simp]: "optional_amounts_equal p q \<longleftrightarrow> p = q"
  by (simp add: optional_amounts_equal_def split: option.split)

definition optional_finality_is_final :: "usage_finality option \<Rightarrow> bool" where
  "optional_finality_is_final f = (case f of Some Final \<Rightarrow> True | _ \<Rightarrow> False)"

lemma optional_finality_is_final_eq [simp]: "optional_finality_is_final f \<longleftrightarrow> f = Some Final"
  by (simp add: optional_finality_is_final_def split: option.split usage_finality.split)

definition record_phase_valid :: "reservation_record \<Rightarrow> bool" where
  "record_phase_valid r = (case reservation_phase r of
     Held \<Rightarrow> amounts_is_zero (observed r) \<and> activation_evidence r = None
       \<and> observation_evidence r = None \<and> final_evidence r = None
       \<and> final_reported r = None \<and> finality r = None
   | Active \<Rightarrow> activation_evidence r \<noteq> None
       \<and> (amounts_is_zero (observed r) \<or> observation_evidence r \<noteq> None)
       \<and> final_evidence r = None \<and> final_reported r = None \<and> finality r = None
   | SettledExact \<Rightarrow> amounts_equals (observed r) (reserve (request r))
       \<and> final_reported r = None \<and> finality r = None
       \<and> (amounts_is_zero (reserve (request r)) \<or> final_evidence r \<noteq> None)
   | SettledFinal \<Rightarrow> activation_evidence r \<noteq> None
       \<and> optional_digest_equal (observation_evidence r) (final_evidence r)
       \<and> final_evidence r \<noteq> None
       \<and> optional_amounts_equal (final_reported r) (Some (observed r))
       \<and> optional_finality_is_final (finality r)
   | CancelledHeld \<Rightarrow> amounts_is_zero (observed r) \<and> activation_evidence r = None
       \<and> observation_evidence r = None \<and> final_evidence r \<noteq> None
       \<and> final_reported r = None \<and> finality r = None
   | SettledAmbiguous \<Rightarrow> activation_evidence r \<noteq> None
       \<and> amounts_equals (observed r) (reserve (request r))
       \<and> final_evidence r \<noteq> None \<and> final_reported r = None \<and> finality r = None
   | OverrunFaulted \<Rightarrow> activation_evidence r \<noteq> None
       \<and> optional_digest_equal (observation_evidence r) (final_evidence r)
       \<and> amounts_equals (observed r) (reserve (request r))
       \<and> final_evidence r \<noteq> None \<and> finality r \<noteq> None
       \<and> (case final_reported r of
            Some report \<Rightarrow> \<not> fits_within report (reserve (request r)) | None \<Rightarrow> False))"

definition validate_record_phase :: "reservation_record \<Rightarrow> budget_error + unit" where
  "validate_record_phase r =
     (if \<not> record_phase_valid r
      then Err (reservation_failure CorruptState (request_reservation_id (request r))) else Ok ())"

definition validate_reservation :: "budget_ledger \<Rightarrow> nat \<Rightarrow> budget_error + unit" where
  "validate_reservation l index =
    (let r = reservations l ! index;
         rid = request_reservation_id (request r);
         corruption = reservation_failure CorruptState rid in
     case validate_reservation_unique_before l index of Inl e \<Rightarrow> Err e | Inr _ \<Rightarrow>
     case find_account l (request_budget_id (request r)) of None \<Rightarrow> Err corruption | Some account_index \<Rightarrow>
     if \<not> revision_equal (request_revision (request r)) (revision (accounts l ! account_index))
        \<or> \<not> fits_within (observed r) (reserve (request r))
     then Err corruption else
     case validate_record_phase r of Inl e \<Rightarrow> Err e | Inr _ \<Rightarrow>
     case retry_required l (request r) index of Inl e \<Rightarrow> Err corruption | Inr retry \<Rightarrow>
     if \<not> is_ok (validate_attempt_charge (request r) retry) then Err corruption else Ok ())"

definition validate_reservations :: "budget_ledger \<Rightarrow> budget_error + unit" where
  "validate_reservations l = for_range (validate_reservation l) (length (reservations l))"

text \<open>\<open>validation::validate\<close>, and the public \<open>BudgetLedger::validate\<close> that maps every failure.\<close>

definition validate :: "budget_ledger \<Rightarrow> budget_error + unit" where
  "validate l = (case validate_accounts l of Inl e \<Rightarrow> Err e | Inr _ \<Rightarrow>
     case validate_reservations l of Inl e \<Rightarrow> Err e | Inr _ \<Rightarrow> Ok ())"

definition ledger_validate :: "budget_ledger \<Rightarrow> budget_error + unit" where
  "ledger_validate l = (case validate l of Inr _ \<Rightarrow> Ok () | Inl _ \<Rightarrow> Err (corrupt (root_id l)))"

section \<open>Refinement of a step\<close>

definition refine_account :: "budget_ledger \<Rightarrow> budget_ledger \<Rightarrow> nat \<Rightarrow> budget_error + unit" where
  "refine_account before after index =
    (case account_at before index of Inl e \<Rightarrow> Err e | Inr prior \<Rightarrow>
     case account_at after index of Inl e \<Rightarrow> Err e | Inr next \<Rightarrow>
     if \<not> budget_id_equal (account_id prior) (account_id next)
        \<or> \<not> parent_equal (parent_id prior) (parent_id next)
        \<or> \<not> revision_equal (revision prior) (revision next)
        \<or> \<not> amounts_equals (limit_amounts (limits prior)) (limit_amounts (limits next))
        \<or> \<not> fits_within (consumed prior) (consumed next)
     then Err (corrupt (account_id prior)) else Ok ())"

definition refine_accounts :: "budget_ledger \<Rightarrow> budget_ledger \<Rightarrow> budget_error + unit" where
  "refine_accounts before after =
     (if length (accounts after) < length (accounts before) then Err (corrupt (root_id after))
      else for_range (refine_account before after) (length (accounts before)))"

definition refine_reservation :: "budget_ledger \<Rightarrow> budget_ledger \<Rightarrow> nat \<Rightarrow> budget_error + unit" where
  "refine_reservation before after index =
    (case reservation_at before index of Inl e \<Rightarrow> Err e | Inr prior \<Rightarrow>
     case reservation_at after index of Inl e \<Rightarrow> Err e | Inr next \<Rightarrow>
     if \<not> request_matches (request prior) (request next) \<or> \<not> fits_within (observed prior) (observed next)
     then Err (reservation_failure CorruptState (request_reservation_id (request prior))) else Ok ())"

definition refine_reservations :: "budget_ledger \<Rightarrow> budget_ledger \<Rightarrow> budget_error + unit" where
  "refine_reservations before after =
     (if length (reservations after) < length (reservations before) then Err (corrupt (root_id after))
      else for_range (refine_reservation before after) (length (reservations before)))"

definition find_parent_index :: "budget_ledger \<Rightarrow> nat \<Rightarrow> budget_error + nat" where
  "find_parent_index l child_index =
    (if length (accounts l) \<le> child_index then Err (corrupt (root_id l)) else
     case (if 0 < child_index then validate_parent_before l child_index else Ok ()) of
       Inl e \<Rightarrow> Err e
     | Inr _ \<Rightarrow>
       (case find_index (\<lambda>p. parent_matches_id (parent_id (accounts l ! child_index)) (account_id p))
           (accounts l) of
          Some index \<Rightarrow> Ok index
        | None \<Rightarrow> Err (corrupt (account_id (accounts l ! child_index)))))"

definition validate_child_propagation ::
  "budget_ledger \<Rightarrow> budget_ledger \<Rightarrow> nat \<Rightarrow> budget_error + unit" where
  "validate_child_propagation before after child_index =
    (case account_at before child_index of Inl e \<Rightarrow> Err e | Inr prior_child \<Rightarrow>
     case account_at after child_index of Inl e \<Rightarrow> Err e | Inr next_child \<Rightarrow>
     if parent_id prior_child \<noteq> None \<and> \<not> amounts_equals (consumed prior_child) (consumed next_child)
     then (case find_parent_index before child_index of Inl e \<Rightarrow> Err e | Inr parent_index \<Rightarrow>
           case account_at before parent_index of Inl e \<Rightarrow> Err e | Inr prior_parent \<Rightarrow>
           case account_at after parent_index of Inl e \<Rightarrow> Err e | Inr next_parent \<Rightarrow>
           case amounts_checked_sub (consumed next_child) (consumed prior_child) of
             Inl e \<Rightarrow> Err (arithmetic_failure e) | Inr child_delta \<Rightarrow>
           case amounts_checked_sub (consumed next_parent) (consumed prior_parent) of
             Inl e \<Rightarrow> Err (arithmetic_failure e) | Inr parent_delta \<Rightarrow>
           if \<not> amounts_equals child_delta parent_delta then Err (corrupt (account_id prior_child))
           else Ok ())
     else Ok ())"

definition validate_ancestor_propagation :: "budget_ledger \<Rightarrow> budget_ledger \<Rightarrow> budget_error + unit" where
  "validate_ancestor_propagation before after =
     (if length (accounts after) < length (accounts before) then Err (corrupt (root_id after))
      else for_range (validate_child_propagation before after) (length (accounts before)))"

definition validate_refinement :: "budget_ledger \<Rightarrow> budget_ledger \<Rightarrow> budget_error + unit" where
  "validate_refinement before after =
    (if \<not> budget_id_equal (root_id before) (root_id after) then Err (corrupt (root_id after)) else
     case refine_accounts before after of Inl e \<Rightarrow> Err e | Inr _ \<Rightarrow>
     case refine_reservations before after of Inl e \<Rightarrow> Err e | Inr _ \<Rightarrow>
     case validate_ancestor_propagation before after of Inl e \<Rightarrow> Err e | Inr _ \<Rightarrow> Ok ())"

end
