(* ===== verification/Budget_Transition.thy ===== *)
theory Budget_Transition
  imports Budget_Validation
begin

text \<open>
  \<open>peritus-budget\<close>, files \<open>transition.rs\<close>, \<open>transition/reducer.rs\<close>, \<open>transition/allocation/*.rs\<close>,
  \<open>transition/lifecycle/*.rs\<close>, \<open>transition/reconciliation/**\<close> and \<open>state/queries.rs\<close>: one
  definition per command, the closed dispatcher, the checked transition around it, and the
  checked read-only projections. A result of type \<open>(budget_error + budget_transition) option\<close> is
  \<open>None\<close> where the code does not return (only the parent walk can do that).
\<close>

section \<open>Allocation and begin\<close>

definition allocate_child ::
  "budget_ledger \<Rightarrow> child_budget_request \<Rightarrow> (budget_error + budget_transition) option" where
  "allocate_child l q = (case find_account l (child_id q) of
     Some existing_index \<Rightarrow>
      (let existing = accounts l ! existing_index in
       if parent_matches_id (parent_id existing) (child_parent_id q)
          \<and> revision_equal (revision existing) (child_revision q)
          \<and> amounts_equals (limit_amounts (limits existing)) (limit_amounts (child_limits q))
       then Some (Ok (l, receipt AllocateChildOperation Idempotent (child_id q)))
       else Some (Err (budget_failure DuplicateBudgetConflict (child_id q))))
   | None \<Rightarrow> (case require_open_lineage l (child_parent_id q) of
       None \<Rightarrow> None
     | Some (Inl e) \<Rightarrow> Some (Err e)
     | Some (Inr parent_index) \<Rightarrow>
        if \<not> revision_equal (revision (accounts l ! parent_index)) (child_revision q)
        then Some (Err (budget_failure BindingMismatch (child_parent_id q)))
        else (case available (accounts l ! parent_index) of
          Inl e \<Rightarrow> Some (Err e)
        | Inr avail \<Rightarrow>
          (let requested = limit_amounts (child_limits q) in
           if \<not> fits_within requested avail
           then Some (Err (insufficient_failure (child_parent_id q) (exceeding_dimensions requested avail)))
           else (case amounts_checked_add (child_delegated_remaining (accounts l ! parent_index)) requested of
             Inl e \<Rightarrow> Some (Err (arithmetic_failure e))
           | Inr delegated \<Rightarrow>
             (let l1 = update_account l parent_index (\<lambda>a. a\<lparr>child_delegated_remaining := delegated\<rparr>);
                  l2 = l1\<lparr>accounts := accounts l1 @
                    [\<lparr>account_id = child_id q, parent_id = Some (child_parent_id q),
                      revision = child_revision q, limits = child_limits q,
                      consumed = amounts_zero, operation_reserved = amounts_zero,
                      child_delegated_remaining = amounts_zero, account_phase = Open\<rparr>]\<rparr>
              in Some (Ok (l2, receipt_new AllocateChildOperation Applied (child_id q) None
                   amounts_zero amounts_zero None None))))))))"

definition apply_new_begin ::
  "budget_ledger \<Rightarrow> nat \<Rightarrow> budget_request \<Rightarrow> budget_error + budget_transition" where
  "apply_new_begin l account_index q = (case charge_lineage l (request_budget_id q) (consume_now q) of
     Inl e \<Rightarrow> Err e
   | Inr l1 \<Rightarrow> (case amounts_checked_add (operation_reserved (accounts l1 ! account_index)) (reserve q) of
       Inl e \<Rightarrow> Err (arithmetic_failure e)
     | Inr reserved \<Rightarrow>
       (let l2 = update_account l1 account_index (\<lambda>a. a\<lparr>operation_reserved := reserved\<rparr>);
            phase = (if amounts_is_zero (reserve q) then SettledExact else Held);
            l3 = l2\<lparr>reservations := reservations l2 @
              [\<lparr>request = q, observed = amounts_zero, reservation_phase = phase,
                activation_evidence = None, observation_evidence = None, final_evidence = None,
                final_reported = None, finality = None\<rparr>]\<rparr>
        in Ok (l3, receipt_new BeginOperation Applied (request_budget_id q)
             (Some (request_reservation_id q)) (consume_now q) amounts_zero None None))))"

definition begin_reservation ::
  "budget_ledger \<Rightarrow> budget_request \<Rightarrow> (budget_error + budget_transition) option" where
  "begin_reservation l q = (case find_reservation l (request_reservation_id q) of
     Some existing_index \<Rightarrow>
       if request_matches (request (reservations l ! existing_index)) q
       then Some (Ok (l, receipt_new BeginOperation Idempotent (request_budget_id q)
              (Some (request_reservation_id q)) amounts_zero amounts_zero None None))
       else Some (Err (reservation_failure DuplicateReservationConflict (request_reservation_id q)))
   | None \<Rightarrow> (case amounts_checked_add (consume_now q) (reserve q) of
       Inl e \<Rightarrow> Some (Err (arithmetic_failure e))
     | Inr requested \<Rightarrow>
       if amounts_is_zero requested
       then Some (Err (reservation_failure EmptyRequest (request_reservation_id q)))
       else (case require_open_lineage l (request_budget_id q) of
         None \<Rightarrow> None
       | Some (Inl e) \<Rightarrow> Some (Err e)
       | Some (Inr account_index) \<Rightarrow>
         if \<not> revision_equal (revision (accounts l ! account_index)) (request_revision q)
         then Some (Err (reservation_failure BindingMismatch (request_reservation_id q)))
         else (case retry_required l q (length (reservations l)) of
           Inl e \<Rightarrow> Some (Err e)
         | Inr retry \<Rightarrow> (case validate_attempt_charge q retry of
             Inl e \<Rightarrow> Some (Err e)
           | Inr _ \<Rightarrow> (case available (accounts l ! account_index) of
               Inl e \<Rightarrow> Some (Err e)
             | Inr avail \<Rightarrow>
               if \<not> fits_within requested avail
               then Some (Err (insufficient_failure (request_budget_id q)
                      (exceeding_dimensions requested avail)))
               else Some (apply_new_begin l account_index q)))))))"

section \<open>Activation\<close>

definition activate :: "budget_ledger \<Rightarrow> activation \<Rightarrow> budget_error + budget_transition" where
  "activate l act = (case require_reservation l (activation_reservation_id act) of
     Inl e \<Rightarrow> Err e
   | Inr i \<Rightarrow> (case require_binding (reservations l ! i) (activation_action_id act)
         (activation_action_digest act) of
       Inl e \<Rightarrow> Err e
     | Inr _ \<Rightarrow>
       (let b = request_budget_id (request (reservations l ! i)) in
        case reservation_phase (reservations l ! i) of
          Held \<Rightarrow> Ok (update_reservation l i (\<lambda>r. r\<lparr>reservation_phase := Active,
                    activation_evidence := Some (activation_evidence_digest act)\<rparr>),
                  bound_receipt ActivateOperation Applied b (activation_reservation_id act)
                    (activation_evidence_digest act))
        | Active \<Rightarrow>
            if optional_digest_equal (activation_evidence (reservations l ! i))
                 (Some (activation_evidence_digest act))
            then Ok (l, bound_receipt ActivateOperation Idempotent b (activation_reservation_id act)
                   (activation_evidence_digest act))
            else Err (reservation_failure BindingMismatch (activation_reservation_id act))
        | _ \<Rightarrow> Err (reservation_failure InvalidReservationPhase (activation_reservation_id act)))))"

section \<open>Usage observations\<close>

definition replay_final_observation_validated ::
  "budget_ledger \<Rightarrow> nat \<Rightarrow> usage_observation \<Rightarrow> budget_error + budget_receipt" where
  "replay_final_observation_validated l i obs =
    (let r = reservations l ! i;
         reported_matches = (case final_reported r of
           Some report \<Rightarrow> amounts_equals report (cumulative obs) | None \<Rightarrow> False);
         finality_matches = (case (finality r, observation_finality obs) of
           (Some Interim, Interim) \<Rightarrow> True | (Some Final, Final) \<Rightarrow> True | _ \<Rightarrow> False);
         exact_replay = finality_matches
           \<and> optional_digest_equal (final_evidence r) (Some (observation_evidence_digest obs))
           \<and> reported_matches
     in if \<not> exact_replay
        then Err (reservation_failure InvalidReservationPhase (observation_reservation_id obs))
        else (case reservation_phase r of
          SettledFinal \<Rightarrow> Ok (receipt_new ObserveUsageOperation Idempotent
            (request_budget_id (request r)) (Some (observation_reservation_id obs)) amounts_zero
            amounts_zero (Some (cumulative obs)) (Some (observation_evidence_digest obs)))
        | OverrunFaulted \<Rightarrow> Ok (receipt_new ObserveUsageOperation OverrunFaultedReceipt
            (request_budget_id (request r)) (Some (observation_reservation_id obs)) amounts_zero
            amounts_zero (Some (cumulative obs)) (Some (observation_evidence_digest obs)))
        | _ \<Rightarrow> Err (reservation_failure InvalidReservationPhase (observation_reservation_id obs))))"

definition apply_interim_validated ::
  "budget_ledger \<Rightarrow> nat \<Rightarrow> usage_observation \<Rightarrow> budget_error + budget_transition" where
  "apply_interim_validated l i obs =
    (if reservation_phase (reservations l ! i) \<noteq> Active
     then Err (reservation_failure InvalidReservationPhase (observation_reservation_id obs))
     else if observation_finality obs \<noteq> Interim
     then Err (reservation_failure InvalidReservationPhase (observation_reservation_id obs))
     else
      (let b = request_budget_id (request (reservations l ! i)) in
       case amounts_checked_sub (cumulative obs) (observed (reservations l ! i)) of
         Inl e \<Rightarrow> Err (arithmetic_failure e)
       | Inr delta \<Rightarrow> (case charge_lineage (release_observation_charge l i delta) b delta of
           Inl e \<Rightarrow> Err e
         | Inr l1 \<Rightarrow>
            Ok (update_reservation l1 i (\<lambda>r. r\<lparr>observed := cumulative obs,
                  observation_evidence := Some (observation_evidence_digest obs)\<rparr>),
                receipt_new ObserveUsageOperation Applied b (Some (observation_reservation_id obs))
                  delta amounts_zero (Some (cumulative obs)) (Some (observation_evidence_digest obs))))))"

definition apply_final_validated ::
  "budget_ledger \<Rightarrow> nat \<Rightarrow> usage_observation \<Rightarrow> budget_error + budget_transition" where
  "apply_final_validated l i obs =
    (if reservation_phase (reservations l ! i) \<noteq> Active
     then Err (reservation_failure InvalidReservationPhase (observation_reservation_id obs))
     else if observation_finality obs \<noteq> Final
     then Err (reservation_failure InvalidReservationPhase (observation_reservation_id obs))
     else
      (let r = reservations l ! i;
           b = request_budget_id (request r);
           evidence = observation_evidence_digest obs in
       case find_account l b of None \<Rightarrow> Err (corrupt b) | Some account_index \<Rightarrow>
       case amounts_checked_sub (cumulative obs) (observed r) of
         Inl e \<Rightarrow> Err (arithmetic_failure e) | Inr delta \<Rightarrow>
       case charge_lineage (release_observation_charge l i delta) b delta of
         Inl e \<Rightarrow> Err e | Inr l1 \<Rightarrow>
       (let l2 = update_reservation l1 i (\<lambda>r. r\<lparr>observed := cumulative obs,
                   observation_evidence := Some evidence\<rparr>) in
        case amounts_checked_sub (reserve (request r)) (cumulative obs) of
          Inl e \<Rightarrow> Err (arithmetic_failure e) | Inr left \<Rightarrow>
        (let l3 = release_operation_reservation_validated l2 account_index left;
             l4 = update_reservation l3 i (\<lambda>r. r\<lparr>reservation_phase := SettledFinal,
                    final_evidence := Some evidence, final_reported := Some (cumulative obs),
                    finality := Some Final\<rparr>)
         in Ok (l4, receipt_new ObserveUsageOperation Applied b (Some (observation_reservation_id obs))
              delta left (Some (cumulative obs)) (Some evidence))))))"

definition make_overrun_receipt ::
  "usage_observation \<Rightarrow> budget_id \<Rightarrow> budget_amounts \<Rightarrow> budget_receipt" where
  "make_overrun_receipt obs b amount = receipt_new ObserveUsageOperation OverrunFaultedReceipt b
     (Some (observation_reservation_id obs)) amount amounts_zero (Some (cumulative obs))
     (Some (observation_evidence_digest obs))"

definition apply_overrun_validated ::
  "budget_ledger \<Rightarrow> nat \<Rightarrow> usage_observation \<Rightarrow> budget_error + budget_transition" where
  "apply_overrun_validated l i obs =
    (if reservation_phase (reservations l ! i) \<noteq> Active
     then Err (reservation_failure InvalidReservationPhase (observation_reservation_id obs))
     else
      (let r = reservations l ! i;
           b = request_budget_id (request r);
           ceiling = reserve (request r) in
       case find_account l b of None \<Rightarrow> Err (corrupt b) | Some account_index \<Rightarrow>
       (let remaining = outstanding_validated r in
        case charge_lineage (release_full_reservation l i remaining) b remaining of
          Inl e \<Rightarrow> Err e | Inr l1 \<Rightarrow>
        (let l2 = update_reservation l1 i (\<lambda>r. r\<lparr>observed := ceiling,
               observation_evidence := Some (observation_evidence_digest obs),
               reservation_phase := OverrunFaulted,
               final_evidence := Some (observation_evidence_digest obs),
               final_reported := Some (cumulative obs),
               finality := Some (observation_finality obs)\<rparr>) in
         case fault_lineage l2 b of
           Inl e \<Rightarrow> Err e
         | Inr l3 \<Rightarrow> Ok (l3, make_overrun_receipt obs b remaining)))))"

definition observe_validated ::
  "budget_ledger \<Rightarrow> usage_observation \<Rightarrow> budget_error + budget_transition" where
  "observe_validated l obs =
    (let rid = observation_reservation_id obs in
     case require_reservation l rid of Inl e \<Rightarrow> Err e | Inr i \<Rightarrow>
     (let r = reservations l ! i in
      case require_binding r (observation_action_id obs) (observation_action_digest obs) of
        Inl e \<Rightarrow> Err e | Inr _ \<Rightarrow>
      if reservation_phase r \<noteq> Active
      then (case replay_final_observation_validated l i obs of Inl e \<Rightarrow> Err e | Inr rc \<Rightarrow> Ok (l, rc))
      else
       (let high_water = observed r;
            evidence = observation_evidence_digest obs;
            is_interim = (case observation_finality obs of Interim \<Rightarrow> True | Final \<Rightarrow> False) in
        if \<not> fits_within high_water (cumulative obs)
        then Err (reservation_failure NonmonotonicObservation rid)
        else if amounts_equals high_water (cumulative obs) \<and> observation_evidence r \<noteq> None
          \<and> \<not> optional_digest_equal (observation_evidence r) (Some evidence)
        then Err (reservation_failure BindingMismatch rid)
        else if amounts_equals high_water (cumulative obs)
          \<and> optional_digest_equal (observation_evidence r) (Some evidence) \<and> is_interim
        then Ok (l, receipt_new ObserveUsageOperation Idempotent (request_budget_id (request r))
               (Some rid) amounts_zero amounts_zero (Some (cumulative obs)) (Some evidence))
        else if \<not> fits_within (cumulative obs) (reserve (request r))
        then apply_overrun_validated l i obs
        else (case observation_finality obs of
           Final \<Rightarrow> apply_final_validated l i obs
         | Interim \<Rightarrow> apply_interim_validated l i obs))))"

section \<open>Finalization\<close>

definition finalize_full_ceiling :: "budget_ledger \<Rightarrow> reservation_reference \<Rightarrow> budget_operation
    \<Rightarrow> reservation_phase \<Rightarrow> budget_error + budget_transition" where
  "finalize_full_ceiling l ref operation final_phase =
    (case require_reservation l (reference_reservation_id ref) of Inl e \<Rightarrow> Err e | Inr i \<Rightarrow>
     (let r = reservations l ! i;
          b = request_budget_id (request r);
          evidence = reference_evidence_digest ref in
      case require_reference_binding r ref of Inl e \<Rightarrow> Err e | Inr _ \<Rightarrow>
      if reservation_phase_equals (reservation_phase r) final_phase
         \<and> optional_digest_equal (final_evidence r) (Some evidence)
      then Ok (l, bound_receipt operation Idempotent b (reference_reservation_id ref) evidence)
      else if reservation_phase r \<noteq> Active
      then Err (reservation_failure InvalidReservationPhase (reference_reservation_id ref))
      else (let remaining = outstanding_validated r in
        case charge_lineage (release_full_reservation l i remaining) b remaining of
          Inl e \<Rightarrow> Err e | Inr l1 \<Rightarrow>
          Ok (update_reservation l1 i (\<lambda>r. r\<lparr>observed := reserve (request r),
                reservation_phase := final_phase, final_evidence := Some evidence\<rparr>),
              receipt_new operation Applied b (Some (reference_reservation_id ref)) remaining
                amounts_zero None (Some evidence)))))"

definition settle_exact :: "budget_ledger \<Rightarrow> reservation_reference \<Rightarrow> budget_error + budget_transition" where
  "settle_exact l ref = finalize_full_ceiling l ref SettleExactOperation SettledExact"

definition finalize_ambiguous ::
  "budget_ledger \<Rightarrow> ambiguous_finalization \<Rightarrow> budget_error + budget_transition" where
  "finalize_ambiguous l fin =
     finalize_full_ceiling l (finalization_reference fin) FinalizeAmbiguousOperation SettledAmbiguous"

definition cancel_held :: "budget_ledger \<Rightarrow> reservation_reference \<Rightarrow> budget_error + budget_transition" where
  "cancel_held l ref =
    (case require_reservation l (reference_reservation_id ref) of Inl e \<Rightarrow> Err e | Inr i \<Rightarrow>
     (let r = reservations l ! i;
          b = request_budget_id (request r);
          evidence = reference_evidence_digest ref in
      case require_reference_binding r ref of Inl e \<Rightarrow> Err e | Inr _ \<Rightarrow>
      if reservation_phase_equals (reservation_phase r) CancelledHeld
         \<and> optional_digest_equal (final_evidence r) (Some evidence)
      then Ok (l, bound_receipt CancelHeldOperation Idempotent b (reference_reservation_id ref) evidence)
      else if reservation_phase r \<noteq> Held
      then Err (reservation_failure InvalidReservationPhase (reference_reservation_id ref))
      else (let freed = reserve (request r);
                l1 = release_full_reservation l i freed
            in Ok (update_reservation l1 i (\<lambda>r. r\<lparr>reservation_phase := CancelledHeld,
                     final_evidence := Some evidence\<rparr>),
                   receipt_new CancelHeldOperation Applied b (Some (reference_reservation_id ref))
                     amounts_zero freed None (Some evidence)))))"

section \<open>Sealing and closing\<close>

definition seal_validated :: "budget_ledger \<Rightarrow> budget_id \<Rightarrow> budget_error + budget_transition" where
  "seal_validated l b = (case require_account l b of Inl e \<Rightarrow> Err e | Inr i \<Rightarrow>
    (case account_phase (accounts l ! i) of
       Open \<Rightarrow> Ok (update_account l i (\<lambda>a. a\<lparr>account_phase := Draining\<rparr>), receipt SealOperation Applied b)
     | Draining \<Rightarrow> Ok (l, receipt SealOperation Idempotent b)
     | Faulted \<Rightarrow> Ok (l, receipt SealOperation Idempotent b)
     | Closed \<Rightarrow> Ok (l, receipt SealOperation Idempotent b)))"

definition close_apply :: "budget_ledger \<Rightarrow> budget_id \<Rightarrow> nat \<Rightarrow> budget_error + budget_transition" where
  "close_apply l b i =
    (if has_live_work l b then Err (budget_failure OutstandingWork b) else
     case amounts_checked_sub (limit_amounts (limits (accounts l ! i))) (consumed (accounts l ! i)) of
       Inl e \<Rightarrow> Err (arithmetic_failure e)
     | Inr unused \<Rightarrow>
     (let closed = (\<lambda>l'. Ok (update_account l' i (\<lambda>a. a\<lparr>account_phase := Closed\<rparr>),
            receipt_new CloseOperation Applied b None amounts_zero unused None None)) in
      case parent_id (accounts l ! i) of
        None \<Rightarrow> closed l
      | Some p \<Rightarrow>
       (case find_account l p of None \<Rightarrow> Err (corrupt b) | Some parent_index \<Rightarrow>
        if parent_index = i then Err (corrupt b) else
        case amounts_checked_sub (child_delegated_remaining (accounts l ! parent_index)) unused of
          Inl e \<Rightarrow> Err (arithmetic_failure e)
        | Inr delegated \<Rightarrow>
           closed (update_account l parent_index (\<lambda>a. a\<lparr>child_delegated_remaining := delegated\<rparr>)))))"

definition close_validated :: "budget_ledger \<Rightarrow> budget_id \<Rightarrow> budget_error + budget_transition" where
  "close_validated l b = (case require_account l b of Inl e \<Rightarrow> Err e | Inr i \<Rightarrow>
    (case account_phase (accounts l ! i) of
       Draining \<Rightarrow> close_apply l b i
     | Faulted \<Rightarrow> close_apply l b i
     | Open \<Rightarrow> Err (budget_failure InvalidAccountPhase b)
     | Closed \<Rightarrow> Ok (l, receipt CloseOperation Idempotent b)))"

section \<open>Dispatch and the checked transition\<close>

fun apply_validated :: "budget_ledger \<Rightarrow> budget_command \<Rightarrow> (budget_error + budget_transition) option" where
  "apply_validated l (AllocateChild q) = allocate_child l q"
| "apply_validated l (Begin q) = begin_reservation l q"
| "apply_validated l (Activate act) = Some (activate l act)"
| "apply_validated l (ObserveUsage obs) = Some (observe_validated l obs)"
| "apply_validated l (SettleExact ref) = Some (settle_exact l ref)"
| "apply_validated l (CancelHeld ref) = Some (cancel_held l ref)"
| "apply_validated l (FinalizeAmbiguous fin) = Some (finalize_ambiguous l fin)"
| "apply_validated l (Seal b) = Some (seal_validated l b)"
| "apply_validated l (Close b) = Some (close_validated l b)"

definition transition ::
  "budget_ledger \<Rightarrow> budget_command \<Rightarrow> (budget_error + budget_transition) option" where
  "transition l c =
    (if \<not> is_ok (validate l) then Some (Err (corrupt (root_id l))) else
     case apply_validated (duplicate l) c of
       None \<Rightarrow> None
     | Some (Inl e) \<Rightarrow> Some (Err e)
     | Some (Inr (next, rc)) \<Rightarrow>
        if \<not> is_ok (validate next) then Some (Err (corrupt (root_id l)))
        else if \<not> is_ok (validate_refinement l next) then Some (Err (corrupt (root_id l)))
        else Some (Ok (next, rc)))"

section \<open>Checked projections\<close>

definition snapshot_account :: "budget_ledger \<Rightarrow> budget_id \<Rightarrow> budget_error + budget_snapshot" where
  "snapshot_account l b =
    (case validate l of Inl _ \<Rightarrow> Err (corrupt (root_id l)) | Inr _ \<Rightarrow>
     case find_account l b of None \<Rightarrow> Err (budget_failure UnknownBudget b) | Some i \<Rightarrow>
     case available (accounts l ! i) of Inl _ \<Rightarrow> Err (corrupt (root_id l)) | Inr avail \<Rightarrow>
     Ok (snapshot_from_account (accounts l ! i) avail))"

definition snapshot_reservation ::
  "budget_ledger \<Rightarrow> budget_reservation_id \<Rightarrow> budget_error + reservation_snapshot" where
  "snapshot_reservation l r =
    (case validate l of Inl _ \<Rightarrow> Err (corrupt (root_id l)) | Inr _ \<Rightarrow>
     case find_reservation l r of None \<Rightarrow> Err (reservation_failure UnknownReservation r) | Some i \<Rightarrow>
     case outstanding (reservations l ! i) of Inl _ \<Rightarrow> Err (corrupt (root_id l)) | Inr out \<Rightarrow>
     Ok (snapshot_from_record (reservations l ! i) out))"

end
