(* ===== verification/Budget_Spec.thy ===== *)
theory Budget_Spec
  imports Budget_Transition
begin

text \<open>
  What a valid budget ledger is, stated over all indices and dimensions, and the equivalence of
  the executable validation with it: the tree has its root first and every parent before its
  children, in every account and dimension consumed, reserved and delegated capacity fit the
  ceiling, delegated capacity is the unused capacity of the open children, reserved capacity is
  what live reservations still hold, closed accounts are quiescent, and tombstones and retry
  history are consistent.
\<close>

section \<open>The invariant\<close>

definition unused_units :: "budget_account \<Rightarrow> budget_dimension \<Rightarrow> nat" where
  "unused_units a d = amt (limit_amounts (limits a)) d - amt (consumed a) d"

definition child_total :: "budget_account list \<Rightarrow> budget_id \<Rightarrow> budget_dimension \<Rightarrow> nat" where
  "child_total as b d = sum_list (map (\<lambda>a. if child_contributes a b then unused_units a d else 0) as)"

definition reserved_total :: "reservation_record list \<Rightarrow> budget_id \<Rightarrow> budget_dimension \<Rightarrow> nat" where
  "reserved_total rs b d =
     sum_list (map (\<lambda>r. if request_budget_id (request r) = b then outstanding_units r d else 0) rs)"

definition tree_shape :: "budget_id \<Rightarrow> budget_account list \<Rightarrow> bool" where
  "tree_shape root as \<longleftrightarrow> as \<noteq> [] \<and> account_id (as ! 0) = root \<and> parent_id (as ! 0) = None
     \<and> distinct (map account_id as)
     \<and> (\<forall>i<length as. 0 < i \<longrightarrow> (\<exists>j<i. parent_id (as ! i) = Some (account_id (as ! j))
          \<and> revision (as ! i) = revision (as ! j)))"

definition capacities_ok :: "budget_account list \<Rightarrow> bool" where
  "capacities_ok as \<longleftrightarrow> (\<forall>a\<in>set as. capacity_ok a)"

definition delegation_ok :: "budget_account list \<Rightarrow> bool" where
  "delegation_ok as \<longleftrightarrow> (\<forall>a\<in>set as. \<forall>d. amt (child_delegated_remaining a) d = child_total as (account_id a) d)"

definition reserved_ok :: "budget_ledger \<Rightarrow> bool" where
  "reserved_ok l \<longleftrightarrow> (\<forall>a\<in>set (accounts l). \<forall>d.
     amt (operation_reserved a) d = reserved_total (reservations l) (account_id a) d)"

definition quiescent_ok :: "budget_ledger \<Rightarrow> bool" where
  "quiescent_ok l \<longleftrightarrow> (\<forall>a\<in>set (accounts l). account_phase a = Closed \<longrightarrow> \<not> has_live_work l (account_id a))"

definition record_ok :: "budget_account list \<Rightarrow> reservation_record \<Rightarrow> bool" where
  "record_ok as r \<longleftrightarrow> (\<exists>a\<in>set as. account_id a = request_budget_id (request r)
       \<and> revision a = request_revision (request r))
     \<and> fits_within (observed r) (reserve (request r)) \<and> record_phase_valid r"

definition attempt_charge_ok :: "budget_request \<Rightarrow> bool \<Rightarrow> bool" where
  "attempt_charge_ok q retry \<longleftrightarrow>
     amt (consume_now q) Attempts = 1 \<and> amt (consume_now q) Retries = (if retry then 1 else 0)
     \<and> amt (reserve q) Attempts = 0 \<and> amt (reserve q) Retries = 0"

definition attempt_ok :: "reservation_record list \<Rightarrow> budget_request \<Rightarrow> bool" where
  "attempt_ok earlier q \<longleftrightarrow>
     (\<forall>r\<in>set earlier. same_attempt_lineage (request r) q \<longrightarrow>
        request_action_digest (request r) = request_action_digest q \<and> \<not> is_live (reservation_phase r))
     \<and> attempt_charge_ok q (\<exists>r\<in>set earlier. same_attempt_lineage (request r) q)"

definition history_ok :: "reservation_record list \<Rightarrow> bool" where
  "history_ok rs \<longleftrightarrow> (\<forall>i<length rs. attempt_ok (take i rs) (request (rs ! i)))"

definition ledger_inv :: "budget_ledger \<Rightarrow> bool" where
  "ledger_inv l \<longleftrightarrow> tree_shape (root_id l) (accounts l) \<and> capacities_ok (accounts l)
     \<and> delegation_ok (accounts l) \<and> reserved_ok l \<and> quiescent_ok l
     \<and> distinct (map reservation_key (reservations l))
     \<and> (\<forall>r\<in>set (reservations l). record_ok (accounts l) r)
     \<and> history_ok (reservations l)"

section \<open>The summation loops\<close>

lemma child_remaining_loop_Ok:
  "child_remaining_loop a cs s = Ok v \<longleftrightarrow>
     (\<forall>c\<in>set cs. child_contributes c (account_id a) \<longrightarrow>
        revision c = revision a \<and> fits_within (consumed c) (limit_amounts (limits c)))
   \<and> (\<forall>d. amt v d = amt s d + child_total cs (account_id a) d)"
proof (induction cs arbitrary: s)
  case Nil
  show ?case by (auto simp: child_total_def intro: amounts_eqI)
next
  case (Cons c cs)
  show ?case
  proof (cases "child_contributes c (account_id a)")
    case False
    then show ?thesis by (simp add: Cons.IH child_total_def)
  next
    case True
    show ?thesis
    proof (cases "revision c = revision a \<and> fits_within (consumed c) (limit_amounts (limits c))")
      case False
      then consider "revision c \<noteq> revision a"
        | "\<not> is_ok (amounts_checked_sub (limit_amounts (limits c)) (consumed c))"
        by (auto simp: amounts_checked_sub_is_ok)
      then have "\<not> is_ok (child_remaining_loop a (c # cs) s)"
        using True
        by cases (auto split: sum.splits simp: is_ok_def)
      with False True show ?thesis by (auto simp: is_ok_def split: sum.splits)
    next
      case ok: True
      then obtain u where u: "amounts_checked_sub (limit_amounts (limits c)) (consumed c) = Ok u"
        "\<And>d. amt u d = unused_units c d"
        unfolding fits_within_iff unused_units_def using amounts_checked_sub_exists by metis
      show ?thesis
      proof (cases "amounts_checked_add s u")
        case (Inl e)
        then obtain d where "2 ^ 64 \<le> amt s d + amt u d"
          using amounts_checked_add_error by blast
        then have "amt v d \<noteq> amt s d + child_total (c # cs) (account_id a) d"
          using amt_less[of v d] True by (simp add: child_total_def u)
        with Inl True ok u show ?thesis by auto
      next
        case (Inr t)
        then have "amt t d = amt s d + unused_units c d" for d
          by (simp add: amounts_checked_add_Ok u)
        with Inr True ok u show ?thesis by (auto simp: Cons.IH child_total_def)
      qed
    qed
  qed
qed

lemma operation_reserved_loop_Ok:
  assumes "\<And>r. r \<in> set rs \<Longrightarrow> fits_within (observed r) (reserve (request r))"
  shows "operation_reserved_loop b rs s = Ok v \<longleftrightarrow> (\<forall>d. amt v d = amt s d + reserved_total rs b d)"
  using assms
proof (induction rs arbitrary: s)
  case Nil
  show ?case by (auto simp: reserved_total_def intro: amounts_eqI)
next
  case (Cons r rs)
  have out: "outstanding r = Ok (outstanding_validated r)"
    "\<And>d. amt (outstanding_validated r) d = outstanding_units r d"
    using Cons.prems[of r] by (simp_all add: outstanding_cases)
  have IH: "operation_reserved_loop b rs t = Ok v \<longleftrightarrow> (\<forall>d. amt v d = amt t d + reserved_total rs b d)" for t
    using Cons.IH Cons.prems by simp
  show ?case
  proof (cases "request_budget_id (request r) = b")
    case False
    then show ?thesis by (simp add: IH reserved_total_def reservation_contributes_def)
  next
    case True
    show ?thesis
    proof (cases "amounts_checked_add s (outstanding_validated r)")
      case (Inl e)
      then obtain d where "2 ^ 64 \<le> amt s d + outstanding_units r d"
        using amounts_checked_add_error out by metis
      then have "amt v d \<noteq> amt s d + reserved_total (r # rs) b d"
        using amt_less[of v d] True by (simp add: reserved_total_def)
      with Inl True out show ?thesis by (auto simp: reservation_contributes_def)
    next
      case (Inr t)
      then have "amt t d = amt s d + outstanding_units r d" for d
        by (simp add: amounts_checked_add_Ok out)
      with Inr True out show ?thesis
        by (auto simp: IH reserved_total_def reservation_contributes_def)
    qed
  qed
qed

section \<open>The structural checks\<close>

lemma validate_account_unique_before_Ok:
  "i < length (accounts l) \<Longrightarrow> validate_account_unique_before l i = Ok () \<longleftrightarrow>
     (\<forall>j<i. account_id (accounts l ! j) \<noteq> account_id (accounts l ! i))"
  by (auto simp: validate_account_unique_before_def account_at_def duplicate_account_before_def
      list_ex_iff)

lemma validate_reservation_unique_before_Ok:
  "i < length (reservations l) \<Longrightarrow> validate_reservation_unique_before l i = Ok () \<longleftrightarrow>
     (\<forall>j<i. reservation_key (reservations l ! j) \<noteq> reservation_key (reservations l ! i))"
  by (auto simp: validate_reservation_unique_before_def duplicate_reservation_before_def
      reservation_key_def list_ex_iff Let_def)

lemma distinct_map_before:
  "distinct (map f xs) \<longleftrightarrow> (\<forall>i<length xs. \<forall>j<i. f (xs ! j) \<noteq> f (xs ! i))"
  unfolding distinct_conv_nth by (auto, metis linorder_neqE_nat order.strict_trans)

lemma validate_parent_before_Ok:
  assumes "0 < i" and "i < length (accounts l)" and "distinct (map account_id (accounts l))"
  shows "validate_parent_before l i = Ok () \<longleftrightarrow>
    (\<exists>j<i. parent_id (accounts l ! i) = Some (account_id (accounts l ! j))
       \<and> revision (accounts l ! i) = revision (accounts l ! j))"
proof -
  let ?as = "accounts l"
  let ?P = "\<lambda>p. parent_id (?as ! i) = Some (account_id p)"
  have unfold: "validate_parent_before l i = Ok () \<longleftrightarrow> (\<exists>p. find_index ?P (take i ?as) = Some p
      \<and> revision (?as ! i) = revision (?as ! p))"
  proof (cases "find_index ?P (take i ?as)")
    case None
    then show ?thesis using assms(1,2) by (simp add: validate_parent_before_def account_at_def)
  next
    case (Some p)
    then have "parent_id (?as ! i) \<noteq> None" by (auto simp: find_index_Some)
    with Some show ?thesis using assms(1,2) by (simp add: validate_parent_before_def account_at_def)
  qed
  show ?thesis
  proof
    assume "validate_parent_before l i = Ok ()"
    then show "\<exists>j<i. parent_id (?as ! i) = Some (account_id (?as ! j))
       \<and> revision (?as ! i) = revision (?as ! j)"
      unfolding unfold find_index_Some by auto
  next
    assume "\<exists>j<i. parent_id (?as ! i) = Some (account_id (?as ! j))
       \<and> revision (?as ! i) = revision (?as ! j)"
    then obtain j where j: "j < i" "?P (?as ! j)" "revision (?as ! i) = revision (?as ! j)" by blast
    then have "\<forall>k<j. \<not> ?P (?as ! k)"
      using assms(2,3) unfolding distinct_map_before by (metis less_trans option.inject)
    then have "find_index ?P (take i ?as) = Some j"
      using j assms(2) by (simp add: find_index_Some)
    with j show "validate_parent_before l i = Ok ()" unfolding unfold by blast
  qed
qed

section \<open>Validation accepts exactly the valid ledgers\<close>

lemma validate_account_Ok:
  "validate_account l i = Ok () \<longleftrightarrow>
     validate_account_unique_before l i = Ok ()
   \<and> (0 < i \<longrightarrow> validate_parent_before l i = Ok ())
   \<and> capacity_ok (accounts l ! i)
   \<and> direct_child_remaining l i = Ok (child_delegated_remaining (accounts l ! i))
   \<and> direct_operation_reserved l i = Ok (operation_reserved (accounts l ! i))
   \<and> (account_phase (accounts l ! i) = Closed \<longrightarrow> \<not> has_live_work l (account_id (accounts l ! i)))"
  using available_is_ok[of "accounts l ! i"]
  by (auto simp: validate_account_def Let_def is_ok_def map_err_def split: sum.splits)

lemma validate_reservation_Ok:
  "validate_reservation l i = Ok () \<longleftrightarrow>
     validate_reservation_unique_before l i = Ok ()
   \<and> (\<exists>k. find_account l (request_budget_id (request (reservations l ! i))) = Some k
        \<and> request_revision (request (reservations l ! i)) = revision (accounts l ! k))
   \<and> fits_within (observed (reservations l ! i)) (reserve (request (reservations l ! i)))
   \<and> record_phase_valid (reservations l ! i)
   \<and> (\<exists>retry. retry_required l (request (reservations l ! i)) i = Ok retry
        \<and> validate_attempt_charge (request (reservations l ! i)) retry = Ok ())"
  by (auto simp: validate_reservation_def validate_record_phase_def Let_def is_ok_def
      split: sum.splits option.splits)

lemma attempt_ok_retry_required:
  "attempt_ok (take i (reservations l)) q \<longleftrightarrow>
     (\<exists>retry. retry_required l q i = Ok retry \<and> validate_attempt_charge q retry = Ok ())"
  unfolding attempt_ok_def attempt_charge_ok_def retry_required_def retry_loop_Ok
    validate_attempt_charge_Ok by auto

lemma find_account_root:
  "find_account l (root_id l) = Some 0 \<longleftrightarrow> accounts l \<noteq> [] \<and> account_id (accounts l ! 0) = root_id l"
  by (auto simp: find_account_def account_table.find_first find_index_Some)

lemma find_account_ex:
  assumes "distinct (map account_id (accounts l))"
  shows "(\<exists>k. find_account l b = Some k \<and> P (accounts l ! k)) \<longleftrightarrow>
    (\<exists>a\<in>set (accounts l). account_id a = b \<and> P a)"
  unfolding find_account_def account_table.find_iff_nth[OF assms]
  by (metis in_set_conv_nth)

lemma validate_accounts_Ok:
  "validate_accounts l = Ok () \<longleftrightarrow>
    accounts l \<noteq> [] \<and> account_id (accounts l ! 0) = root_id l \<and> parent_id (accounts l ! 0) = None
    \<and> (\<forall>i<length (accounts l). validate_account l i = Ok ())"
proof -
  have "validate_accounts l = Ok () \<longleftrightarrow> accounts l \<noteq> [] \<and> find_account l (root_id l) = Some 0
    \<and> parent_id (accounts l ! 0) = None \<and> (\<forall>i<length (accounts l). validate_account l i = Ok ())"
    by (auto simp: validate_accounts_def for_range_Ok split: option.splits)
  then show ?thesis by (auto simp: find_account_root)
qed

lemma validate_Ok: "validate l = Ok () \<longleftrightarrow> validate_accounts l = Ok () \<and> validate_reservations l = Ok ()"
  by (auto simp: validate_def split: sum.splits)

lemma validate_reservations_Ok:
  assumes "distinct (map account_id (accounts l))"
  shows "validate_reservations l = Ok () \<longleftrightarrow> distinct (map reservation_key (reservations l))
     \<and> (\<forall>r\<in>set (reservations l). record_ok (accounts l) r) \<and> history_ok (reservations l)"
proof -
  let ?rs = "reservations l"
  have point: "validate_reservation l i = Ok () \<longleftrightarrow>
      (\<forall>j<i. reservation_key (?rs ! j) \<noteq> reservation_key (?rs ! i))
      \<and> record_ok (accounts l) (?rs ! i) \<and> attempt_ok (take i ?rs) (request (?rs ! i))"
    if "i < length ?rs" for i
  proof -
    have "(\<exists>k. find_account l (request_budget_id (request (?rs ! i))) = Some k
        \<and> request_revision (request (?rs ! i)) = revision (accounts l ! k)) \<longleftrightarrow>
      (\<exists>a\<in>set (accounts l). account_id a = request_budget_id (request (?rs ! i))
        \<and> revision a = request_revision (request (?rs ! i)))"
      using find_account_ex[OF assms, of "request_budget_id (request (?rs ! i))"
          "\<lambda>a. request_revision (request (?rs ! i)) = revision a"]
      by (simp add: eq_commute)
    then show ?thesis
      unfolding validate_reservation_Ok attempt_ok_retry_required record_ok_def
        validate_reservation_unique_before_Ok[OF that] by blast
  qed
  then have "validate_reservations l = Ok () \<longleftrightarrow> (\<forall>i<length ?rs.
      (\<forall>j<i. reservation_key (?rs ! j) \<noteq> reservation_key (?rs ! i))
      \<and> record_ok (accounts l) (?rs ! i) \<and> attempt_ok (take i ?rs) (request (?rs ! i)))"
    unfolding validate_reservations_def for_range_Ok by blast
  also have "\<dots> \<longleftrightarrow> distinct (map reservation_key ?rs) \<and> (\<forall>r\<in>set ?rs. record_ok (accounts l) r)
      \<and> history_ok ?rs"
    unfolding distinct_map_before history_ok_def all_set_conv_all_nth by blast
  finally show ?thesis .
qed

lemma direct_child_remaining_Ok:
  assumes "tree_shape (root_id l) (accounts l)" and "capacities_ok (accounts l)"
    and "i < length (accounts l)"
  shows "direct_child_remaining l i = Ok v \<longleftrightarrow>
    (\<forall>d. amt v d = child_total (accounts l) (account_id (accounts l ! i)) d)"
proof -
  let ?as = "accounts l"
  have "revision c = revision (?as ! i) \<and> fits_within (consumed c) (limit_amounts (limits c))"
    if c: "c \<in> set ?as" "child_contributes c (account_id (?as ! i))" for c
  proof
    from c obtain k where k: "k < length ?as" "c = ?as ! k" by (auto simp: in_set_conv_nth)
    from c k have par: "parent_id (?as ! k) = Some (account_id (?as ! i))"
      by (simp add: child_contributes_iff)
    with assms(1) have "k \<noteq> 0" unfolding tree_shape_def by (metis option.distinct(1))
    with assms(1) k obtain j where j: "j < k" "parent_id (?as ! k) = Some (account_id (?as ! j))"
      "revision (?as ! k) = revision (?as ! j)" unfolding tree_shape_def by blast
    with par have "account_id (?as ! j) = account_id (?as ! i)" by simp
    then have "j = i"
      using assms j k by (simp add: tree_shape_def distinct_conv_nth) (metis less_trans)
    with j k show "revision c = revision (?as ! i)" by simp
    from c assms(2) have "capacity_ok c" by (simp add: capacities_ok_def)
    then show "fits_within (consumed c) (limit_amounts (limits c))"
      unfolding capacity_ok_def fits_within_iff by (meson add_leD1)
  qed
  then show ?thesis
    using assms(3) by (auto simp: direct_child_remaining_def child_remaining_loop_Ok)
qed

lemma direct_operation_reserved_Ok:
  assumes "\<forall>r\<in>set (reservations l). record_ok (accounts l) r" and "i < length (accounts l)"
  shows "direct_operation_reserved l i = Ok v \<longleftrightarrow>
    (\<forall>d. amt v d = reserved_total (reservations l) (account_id (accounts l ! i)) d)"
  using assms by (simp add: direct_operation_reserved_def operation_reserved_loop_Ok record_ok_def)

lemma validate_iff_ledger_inv: "validate l = Ok () \<longleftrightarrow> ledger_inv l"
proof -
  let ?as = "accounts l"
  have unique: "(\<forall>i<length ?as. validate_account_unique_before l i = Ok ())
      \<longleftrightarrow> distinct (map account_id ?as)"
    by (simp add: validate_account_unique_before_Ok distinct_map_before)
  show ?thesis
  proof (cases "distinct (map account_id ?as)")
    case False
    then have "\<not> validate l = Ok ()"
      unfolding validate_Ok validate_accounts_Ok validate_account_Ok unique[symmetric] by blast
    with False show ?thesis by (simp add: ledger_inv_def tree_shape_def)
  next
    case distinct: True
    have shape: "tree_shape (root_id l) ?as \<longleftrightarrow> ?as \<noteq> [] \<and> account_id (?as ! 0) = root_id l
        \<and> parent_id (?as ! 0) = None
        \<and> (\<forall>i<length ?as. 0 < i \<longrightarrow> validate_parent_before l i = Ok ())"
      using distinct validate_parent_before_Ok[OF _ _ distinct] by (simp add: tree_shape_def)
    have accounts: "validate_accounts l = Ok () \<longleftrightarrow> tree_shape (root_id l) ?as
        \<and> (\<forall>i<length ?as. capacity_ok (?as ! i)
          \<and> direct_child_remaining l i = Ok (child_delegated_remaining (?as ! i))
          \<and> direct_operation_reserved l i = Ok (operation_reserved (?as ! i))
          \<and> (account_phase (?as ! i) = Closed \<longrightarrow> \<not> has_live_work l (account_id (?as ! i))))"
      unfolding validate_accounts_Ok validate_account_Ok shape using distinct unique by blast
    note resv = validate_reservations_Ok[OF distinct]
    show ?thesis
    proof (cases "tree_shape (root_id l) ?as \<and> capacities_ok ?as
        \<and> (\<forall>r\<in>set (reservations l). record_ok ?as r)")
      case True
      then show ?thesis
        unfolding validate_Ok accounts resv ledger_inv_def
        by (auto simp: direct_child_remaining_Ok direct_operation_reserved_Ok capacities_ok_def
            delegation_ok_def reserved_ok_def quiescent_ok_def all_set_conv_all_nth)
    next
      case False
      then show ?thesis
        unfolding validate_Ok accounts resv ledger_inv_def
        by (auto simp: capacities_ok_def all_set_conv_all_nth)
    qed
  qed
qed

end
