(* ===== verification/Budget_Lineage.thy ===== *)
theory Budget_Lineage
  imports Budget_Spec
begin

text \<open>
  The lineage of an account (itself and its ancestors, up to the root) and the closed form of the
  three walks along it: the open-lineage check, the charge and the fault. On a tree-shaped ledger
  each walk ends within the fuel the code passes (the number of accounts), because parents stand
  before their children.
\<close>

section \<open>The lineage of an account\<close>

function lineage :: "budget_account list \<Rightarrow> nat \<Rightarrow> nat list" where
  "lineage as i = i # (case parent_id (as ! i) of None \<Rightarrow> []
     | Some p \<Rightarrow> (case account_index_of as p of None \<Rightarrow> []
        | Some j \<Rightarrow> if j < i then lineage as j else []))"
  by pat_completeness auto
termination
  by (relation "measure (\<lambda>(as, i). i)") auto

declare lineage.simps [simp del]

lemma tree_distinct: "tree_shape root as \<Longrightarrow> distinct (map account_id as)"
  by (simp add: tree_shape_def)

lemma tree_nth_inject:
  "tree_shape root as \<Longrightarrow> i < length as \<Longrightarrow> j < length as \<Longrightarrow>
     account_id (as ! i) = account_id (as ! j) \<longleftrightarrow> i = j"
  using tree_distinct[of root as] by (auto simp: distinct_conv_nth)

lemma tree_find:
  "tree_shape root as \<Longrightarrow> account_index_of as b = Some i \<longleftrightarrow> i < length as \<and> account_id (as ! i) = b"
  using tree_distinct account_table.find_iff_nth by blast

lemma tree_parent:
  assumes "tree_shape root as" and "i < length as" and "parent_id (as ! i) = Some p"
  obtains j where "j < i" and "account_index_of as p = Some j" and "account_id (as ! j) = p"
    and "revision (as ! i) = revision (as ! j)"
proof -
  from assms have "0 < i" unfolding tree_shape_def by (metis not_gr_zero option.distinct(1))
  with assms obtain j where j: "j < i" "parent_id (as ! i) = Some (account_id (as ! j))"
    "revision (as ! i) = revision (as ! j)" unfolding tree_shape_def by blast
  moreover have "account_index_of as p = Some j"
    using assms j by (simp add: tree_find)
  ultimately show thesis using that assms(3) by simp
qed

lemma lineage_root: "parent_id (as ! i) = None \<Longrightarrow> lineage as i = [i]"
  by (subst lineage.simps) simp

lemma lineage_step:
  "tree_shape root as \<Longrightarrow> i < length as \<Longrightarrow> parent_id (as ! i) = Some p \<Longrightarrow>
     account_index_of as p = Some j \<Longrightarrow> lineage as i = i # lineage as j"
  by (subst lineage.simps) (auto elim: tree_parent)

lemma lineage_nonempty [simp]: "lineage as i \<noteq> []"
  by (subst lineage.simps) simp

lemma lineage_self [simp]: "i \<in> set (lineage as i)"
  by (subst lineage.simps) simp

lemma lineage_bound: "k \<in> set (lineage as i) \<Longrightarrow> k \<le> i"
proof (induction as i rule: lineage.induct)
  case (1 as i)
  show ?case
  proof (cases "k = i")
    case False
    with 1(2) lineage.simps[of as i] obtain p j where j: "parent_id (as ! i) = Some p"
      "account_index_of as p = Some j" "j < i" "k \<in> set (lineage as j)"
      by (auto split: option.splits if_splits)
    with 1 have "k \<le> j" by blast
    with j show ?thesis by simp
  qed simp
qed

lemma lineage_cong:
  assumes "length as = length bs"
    and "\<And>k. k < length as \<Longrightarrow> account_id (as ! k) = account_id (bs ! k) \<and> parent_id (as ! k) = parent_id (bs ! k)"
    and "i < length as"
  shows "lineage as i = lineage bs i"
  using assms(3)
proof (induction i rule: less_induct)
  case (less i)
  have "account_index_of as p = account_index_of bs p" for p
    by (rule account_table.find_cong_keys) (use assms in \<open>auto intro: nth_equalityI\<close>)
  then show ?case
    using less assms(2)[of i]
    by (subst (1 2) lineage.simps) (auto split: option.splits)
qed

text \<open>
  Induction along a lineage: the root, or an account whose parent's lineage satisfies the property.
\<close>

lemma lineage_induct [consumes 2, case_names root child]:
  assumes "tree_shape root as" and "i < length as"
    and "\<And>i. i < length as \<Longrightarrow> parent_id (as ! i) = None \<Longrightarrow> lineage as i = [i] \<Longrightarrow> P i"
    and "\<And>i p j. i < length as \<Longrightarrow> parent_id (as ! i) = Some p \<Longrightarrow> j < i \<Longrightarrow>
      account_index_of as p = Some j \<Longrightarrow> account_id (as ! j) = p \<Longrightarrow>
      lineage as i = i # lineage as j \<Longrightarrow> P j \<Longrightarrow> P i"
  shows "P i"
  using assms(2)
proof (induction i rule: less_induct)
  case (less i)
  show ?case
  proof (cases "parent_id (as ! i)")
    case None
    with less show ?thesis using assms(3) lineage_root by blast
  next
    case (Some p)
    with assms(1) less.prems obtain j where j: "j < i" "account_index_of as p = Some j"
      "account_id (as ! j) = p" by (rule tree_parent)
    moreover have "lineage as i = i # lineage as j"
      using assms(1) less.prems Some j(2) by (rule lineage_step)
    moreover have "P j" using less j by simp
    ultimately show ?thesis using assms(4) less.prems Some by blast
  qed
qed

lemma lineage_distinct:
  assumes "tree_shape root as" and "i < length as"
  shows "distinct (lineage as i)"
  using assms by (induction rule: lineage_induct) (auto dest: lineage_bound)

lemma lineage_parent_closed:
  assumes "tree_shape root as" and "i < length as" and "k \<in> set (lineage as i)"
    and "parent_id (as ! k) = Some p" and "account_index_of as p = Some j"
  shows "j \<in> set (lineage as i) \<and> j \<noteq> i"
  using assms
proof (induction rule: lineage_induct)
  case (root i)
  then show ?case by simp
next
  case (child i p' j')
  show ?case
  proof (cases "k = i")
    case True
    with child have "j = j'" by simp
    with child show ?thesis by simp
  next
    case False
    with child have "j \<in> set (lineage as j')" by simp
    with child show ?thesis using lineage_bound[of j as j'] by auto
  qed
qed

lemma lineage_root_member:
  assumes "tree_shape root as" and "i < length as"
  shows "0 \<in> set (lineage as i)"
  using assms
proof (induction rule: lineage_induct)
  case (root i)
  have "i = 0"
  proof (rule ccontr)
    assume "i \<noteq> 0"
    with assms(1) root(1) have "parent_id (as ! i) \<noteq> None" by (auto simp: tree_shape_def)
    with root show False by simp
  qed
  then show ?case by simp
qed simp

text \<open>
  Each account of a lineage but its first has exactly one child in the lineage; no other account
  has any.
\<close>

lemma lineage_child_count:
  assumes tree: "tree_shape root as" and "i < length as" and "k < length as"
  shows "(\<Sum>c<length as. if parent_id (as ! c) = Some (account_id (as ! k)) \<and> c \<in> set (lineage as i)
      then x else 0) = (if k \<in> set (lineage as i) \<and> k \<noteq> i then x else (0::nat))"
  using tree assms(2)
proof (induction rule: lineage_induct)
  case (root i)
  then have "(\<Sum>c<length as. if parent_id (as ! c) = Some (account_id (as ! k)) \<and> c \<in> set (lineage as i)
      then x else 0) = (\<Sum>c<length as. 0)"
    by (intro sum.cong) auto
  with root show ?case by auto
next
  case (child i p j)
  let ?hit = "\<lambda>c. parent_id (as ! c) = Some (account_id (as ! k))"
  let ?S = "set (lineage as j)"
  have notin: "i \<notin> ?S" using child lineage_bound[of i as j] by auto
  have "(\<Sum>c<length as. if ?hit c \<and> c \<in> set (lineage as i) then x else 0) =
     (\<Sum>c<length as. (if c = i then if ?hit i then x else 0 else 0) + (if ?hit c \<and> c \<in> ?S then x else 0))"
    using child notin by (intro sum.cong) auto
  also have "\<dots> = (if ?hit i then x else 0) + (if k \<in> ?S \<and> k \<noteq> j then x else 0)"
    using child by (simp add: sum.distrib)
  also have "?hit i \<longleftrightarrow> k = j"
    using child assms(3) tree_nth_inject[OF tree, of j k] by auto
  finally show ?case
    using child notin lineage_self[of j as] by auto
qed

section \<open>The open-lineage check\<close>

lemma open_chain_result:
  assumes "tree_shape (root_id l) (accounts l)" and "i < length (accounts l)"
  shows "require_open_parent_chain l i =
    Some (case List.find (\<lambda>k. account_phase (accounts l ! k) \<noteq> Open) (lineage (accounts l) i) of
      None \<Rightarrow> Ok () | Some k \<Rightarrow> Err (budget_failure AccountNotOpen (account_id (accounts l ! k))))"
  using assms
proof (induction rule: lineage_induct)
  case (root i)
  then show ?case by (subst require_open_parent_chain.simps) simp
next
  case (child i p j)
  then have "require_account l p = Ok j" by (simp add: require_account_def find_account_def)
  with child show ?case by (subst require_open_parent_chain.simps) simp
qed

lemma require_open_lineage_result:
  assumes "tree_shape (root_id l) (accounts l)"
  shows "require_open_lineage l b = Some (case find_account l b of
     None \<Rightarrow> Err (budget_failure UnknownBudget b)
   | Some i \<Rightarrow> (case List.find (\<lambda>k. account_phase (accounts l ! k) \<noteq> Open) (lineage (accounts l) i) of
        None \<Rightarrow> Ok i
      | Some k \<Rightarrow> Err (budget_failure AccountNotOpen (account_id (accounts l ! k)))))"
proof (cases "find_account l b")
  case None
  then show ?thesis by (simp add: require_open_lineage_def require_account_def)
next
  case (Some i)
  then have "i < length (accounts l)"
    unfolding find_account_def by (rule account_table.find_Some_bound)
  with Some show ?thesis
    by (simp add: require_open_lineage_def require_account_def open_chain_result[OF assms]
        split: option.split)
qed

lemma require_open_lineage_Ok:
  assumes "tree_shape (root_id l) (accounts l)"
  shows "require_open_lineage l b = Some (Ok i) \<longleftrightarrow> find_account l b = Some i
    \<and> (\<forall>k\<in>set (lineage (accounts l) i). account_phase (accounts l ! k) = Open)"
  unfolding require_open_lineage_result[OF assms]
  by (auto simp: find_None_iff find_Some_iff split: option.splits)

section \<open>The charge\<close>

text \<open>
  \<open>same_static a b\<close>: the fields no charge writes. \<open>lineage_charged as bs S D v\<close>: consumption grew by
  \<open>v\<close> exactly on \<open>S\<close>, delegated capacity shrank by \<open>v\<close> exactly on \<open>D\<close>, and nothing else changed.
\<close>

definition same_static :: "budget_account \<Rightarrow> budget_account \<Rightarrow> bool" where
  "same_static a b \<longleftrightarrow> account_id b = account_id a \<and> parent_id b = parent_id a
     \<and> revision b = revision a \<and> limits b = limits a"

definition lineage_charged :: "budget_account list \<Rightarrow> budget_account list \<Rightarrow> nat set \<Rightarrow> nat set
    \<Rightarrow> budget_amounts \<Rightarrow> bool" where
  "lineage_charged as bs S D v \<longleftrightarrow> length bs = length as \<and> (\<forall>k<length as.
     same_static (as ! k) (bs ! k)
   \<and> operation_reserved (bs ! k) = operation_reserved (as ! k)
   \<and> account_phase (bs ! k) = account_phase (as ! k)
   \<and> (\<forall>d. amt (consumed (bs ! k)) d = amt (consumed (as ! k)) d + (if k \<in> S then amt v d else 0))
   \<and> (\<forall>d. amt (child_delegated_remaining (bs ! k)) d + (if k \<in> D then amt v d else 0)
        = amt (child_delegated_remaining (as ! k)) d))"

lemma same_static_refl [simp]: "same_static a a"
  by (simp add: same_static_def)

lemma same_static_trans: "same_static a b \<Longrightarrow> same_static b c \<Longrightarrow> same_static a c"
  by (simp add: same_static_def)

lemma tree_shape_cong:
  assumes "length bs = length as" and "\<And>k. k < length as \<Longrightarrow> same_static (as ! k) (bs ! k)"
    and "tree_shape root as"
  shows "tree_shape root bs"
proof -
  have ids: "map account_id bs = map account_id as"
    using assms(1,2) by (auto intro!: nth_equalityI simp: same_static_def)
  have "0 < length as" using assms(3) by (simp add: tree_shape_def)
  with assms ids show ?thesis
    unfolding tree_shape_def same_static_def by (metis (no_types, lifting) less_trans length_0_conv)
qed

lemma index_of_static:
  assumes "length bs = length as" and "\<And>k. k < length as \<Longrightarrow> same_static (as ! k) (bs ! k)"
  shows "account_index_of bs b = account_index_of as b"
  by (rule account_table.find_cong_keys)
    (use assms in \<open>auto intro!: nth_equalityI simp: same_static_def\<close>)

lemma lineage_static:
  assumes "length bs = length as" and "\<And>k. k < length as \<Longrightarrow> same_static (as ! k) (bs ! k)"
    and "i < length as"
  shows "lineage bs i = lineage as i"
  by (rule lineage_cong) (use assms in \<open>auto simp: same_static_def\<close>)

lemma charge_step:
  assumes "i < length (accounts l)" and "find_account l cur = Some i"
    and "dc \<Longrightarrow> fits_within v (child_delegated_remaining (accounts l ! i))"
    and "\<And>d. amt (consumed (accounts l ! i)) d + amt v d < 2 ^ 64"
  obtains a' where
    "\<And>n. charge_lineage_inner l cur v dc (Suc n) = (case parent_id (accounts l ! i) of
        None \<Rightarrow> Ok (update_account l i (\<lambda>_. a'))
      | Some p \<Rightarrow> charge_lineage_inner (update_account l i (\<lambda>_. a')) p v True n)"
    and "same_static (accounts l ! i) a'" and "operation_reserved a' = operation_reserved (accounts l ! i)"
    and "account_phase a' = account_phase (accounts l ! i)"
    and "\<And>d. amt (consumed a') d = amt (consumed (accounts l ! i)) d + amt v d"
    and "\<And>d. amt (child_delegated_remaining a') d + (if dc then amt v d else 0)
           = amt (child_delegated_remaining (accounts l ! i)) d"
proof -
  let ?a = "accounts l ! i"
  obtain e where e: "dc \<Longrightarrow> amounts_checked_sub (child_delegated_remaining ?a) v = Ok e"
    "\<not> dc \<Longrightarrow> e = child_delegated_remaining ?a"
    "\<And>d. amt e d + (if dc then amt v d else 0) = amt (child_delegated_remaining ?a) d"
  proof (cases dc)
    case True
    with assms(3) obtain e where "amounts_checked_sub (child_delegated_remaining ?a) v = Ok e"
      "\<And>d. amt e d = amt (child_delegated_remaining ?a) d - amt v d"
      unfolding fits_within_iff using amounts_checked_sub_exists by metis
    with True assms(3) that show thesis by (simp add: fits_within_iff)
  next
    case False
    with that[of "child_delegated_remaining ?a"] show thesis by simp
  qed
  obtain c where c: "amounts_checked_add (consumed ?a) v = Ok c"
    "\<And>d. amt c d = amt (consumed ?a) d + amt v d"
    using amounts_checked_add_exists assms(4) by metis
  let ?a' = "?a\<lparr>child_delegated_remaining := e, consumed := c\<rparr>"
  show thesis
  proof (rule that[of ?a'])
    show "charge_lineage_inner l cur v dc (Suc n) = (case parent_id ?a of
        None \<Rightarrow> Ok (update_account l i (\<lambda>_. ?a'))
      | Some p \<Rightarrow> charge_lineage_inner (update_account l i (\<lambda>_. ?a')) p v True n)" for n
    proof (cases dc)
      case True
      with e have "amounts_checked_sub (child_delegated_remaining ?a) v = Ok e" by simp
      with True c assms(1,2) show ?thesis
        by (cases "parent_id ?a") (simp_all add: update_account_def Let_def)
    next
      case False
      with e c assms(1,2) show ?thesis
        by (cases "parent_id ?a") (simp_all add: update_account_def Let_def)
    qed
  qed (use e c in \<open>simp_all add: same_static_def\<close>)
qed

lemma charge_lineage_inner_result:
  assumes "tree_shape (root_id l) (accounts l)" and "i < length (accounts l)" and "i < n"
    and "account_id (accounts l ! i) = cur"
    and "\<And>k. k \<in> set (lineage (accounts l) i) \<Longrightarrow> k \<noteq> i \<or> dc \<Longrightarrow>
           fits_within v (child_delegated_remaining (accounts l ! k))"
    and "\<And>k d. k \<in> set (lineage (accounts l) i) \<Longrightarrow>
           amt (consumed (accounts l ! k)) d + amt v d < 2 ^ 64"
  shows "\<exists>l'. charge_lineage_inner l cur v dc n = Ok l' \<and> root_id l' = root_id l
    \<and> reservations l' = reservations l
    \<and> lineage_charged (accounts l) (accounts l') (set (lineage (accounts l) i))
        (set (lineage (accounts l) i) - (if dc then {} else {i})) v"
  using assms
proof (induction n arbitrary: l i cur dc)
  case 0
  then show ?case by simp
next
  case (Suc n)
  let ?as = "accounts l"
  have find: "find_account l cur = Some i"
    using Suc.prems by (simp add: find_account_def tree_find)
  obtain a' where step: "\<And>n. charge_lineage_inner l cur v dc (Suc n) = (case parent_id (?as ! i) of
        None \<Rightarrow> Ok (update_account l i (\<lambda>_. a'))
      | Some p \<Rightarrow> charge_lineage_inner (update_account l i (\<lambda>_. a')) p v True n)"
    and a': "same_static (?as ! i) a'" "operation_reserved a' = operation_reserved (?as ! i)"
      "account_phase a' = account_phase (?as ! i)"
      "\<And>d. amt (consumed a') d = amt (consumed (?as ! i)) d + amt v d"
      "\<And>d. amt (child_delegated_remaining a') d + (if dc then amt v d else 0)
           = amt (child_delegated_remaining (?as ! i)) d"
    by (rule charge_step[OF Suc.prems(2) find, of dc v]) (use Suc.prems in auto)
  let ?l1 = "update_account l i (\<lambda>_. a')"
  have nth1: "accounts ?l1 ! k = (if k = i then a' else ?as ! k)" for k
    using Suc.prems(2) by (simp add: update_account_nth)
  have static1: "same_static (?as ! k) (accounts ?l1 ! k)" for k
    using a'(1) by (simp add: nth1)
  show ?case
  proof (cases "parent_id (?as ! i)")
    case None
    then have "lineage ?as i = [i]" by (rule lineage_root)
    with None step a' show ?thesis
      by (auto simp: lineage_charged_def nth1)
  next
    case (Some p)
    with Suc.prems(1,2) obtain j where j: "j < i" "account_index_of ?as p = Some j"
      "account_id (?as ! j) = p" by (rule tree_parent)
    have line: "lineage ?as i = i # lineage ?as j"
      using Suc.prems(1,2) Some j(2) by (rule lineage_step)
    have line1: "lineage (accounts ?l1) j = lineage ?as j"
      by (rule lineage_static) (use static1 Suc.prems(2) j in auto)
    have notin: "i \<notin> set (lineage ?as j)" using j lineage_bound[of i ?as j] by auto
    have tree1: "tree_shape (root_id ?l1) (accounts ?l1)"
      using tree_shape_cong[of "accounts ?l1" ?as] static1 Suc.prems(1) by simp
    have "\<exists>l'. charge_lineage_inner ?l1 p v True n = Ok l' \<and> root_id l' = root_id ?l1
      \<and> reservations l' = reservations ?l1
      \<and> lineage_charged (accounts ?l1) (accounts l') (set (lineage (accounts ?l1) j))
          (set (lineage (accounts ?l1) j) - (if True then {} else {j})) v"
    proof (rule Suc.IH[OF tree1])
      show "j < length (accounts ?l1)" "j < n" using j Suc.prems by auto
      show "account_id (accounts ?l1 ! j) = p" using j by (simp add: nth1)
      fix k assume "k \<in> set (lineage (accounts ?l1) j)"
      then have k: "k \<in> set (lineage ?as j)" "k \<noteq> i" using line1 notin by auto
      then show "fits_within v (child_delegated_remaining (accounts ?l1 ! k))"
        using Suc.prems(5)[of k] line by (simp add: nth1)
      from k show "amt (consumed (accounts ?l1 ! k)) d + amt v d < 2 ^ 64" for d
        using Suc.prems(6)[of k] line by (simp add: nth1)
    qed
    then obtain l' where l': "charge_lineage_inner ?l1 p v True n = Ok l'" "root_id l' = root_id l"
      "reservations l' = reservations l"
      "lineage_charged (accounts ?l1) (accounts l') (set (lineage ?as j)) (set (lineage ?as j)) v"
      by (auto simp: line1)
    have "lineage_charged ?as (accounts l') (set (lineage ?as i))
        (set (lineage ?as i) - (if dc then {} else {i})) v"
      using l'(4) a' notin unfolding lineage_charged_def line
      by (auto simp: nth1 same_static_def)
    with l' Some step show ?thesis by auto
  qed
qed

lemma charge_lineage_result:
  assumes "tree_shape (root_id l) (accounts l)" and "find_account l b = Some i"
    and "\<And>k. k \<in> set (lineage (accounts l) i) \<Longrightarrow> k \<noteq> i \<Longrightarrow>
           fits_within v (child_delegated_remaining (accounts l ! k))"
    and "\<And>k d. k \<in> set (lineage (accounts l) i) \<Longrightarrow>
           amt (consumed (accounts l ! k)) d + amt v d < 2 ^ 64"
  obtains l' where "charge_lineage l b v = Ok l'" and "root_id l' = root_id l"
    and "reservations l' = reservations l"
    and "lineage_charged (accounts l) (accounts l') (set (lineage (accounts l) i))
        (set (lineage (accounts l) i) - {i}) v"
proof -
  have i: "i < length (accounts l)" "account_id (accounts l ! i) = b"
    using assms(1,2) by (simp_all add: find_account_def tree_find)
  from charge_lineage_inner_result[OF assms(1) i(1) i(1) i(2), of False v] assms(3,4)
  show thesis using that by (auto simp: charge_lineage_def)
qed

section \<open>The fault\<close>

definition lineage_faulted :: "budget_account list \<Rightarrow> budget_account list \<Rightarrow> nat set \<Rightarrow> bool" where
  "lineage_faulted as bs S \<longleftrightarrow> length bs = length as \<and> (\<forall>k<length as.
     bs ! k = (if k \<in> S then (as ! k)\<lparr>account_phase := Faulted\<rparr> else as ! k))"

lemma fault_lineage_inner_result:
  assumes "tree_shape (root_id l) (accounts l)" and "i < length (accounts l)" and "i < n"
    and "account_id (accounts l ! i) = cur"
  shows "\<exists>l'. fault_lineage_inner l cur n = Ok l' \<and> root_id l' = root_id l
    \<and> reservations l' = reservations l
    \<and> lineage_faulted (accounts l) (accounts l') (set (lineage (accounts l) i))"
  using assms
proof (induction n arbitrary: l i cur)
  case 0
  then show ?case by simp
next
  case (Suc n)
  let ?as = "accounts l"
  let ?l1 = "update_account l i (\<lambda>a. a\<lparr>account_phase := Faulted\<rparr>)"
  have find: "find_account l cur = Some i"
    using Suc.prems by (simp add: find_account_def tree_find)
  have nth1: "accounts ?l1 ! k = (if k = i then (?as ! i)\<lparr>account_phase := Faulted\<rparr> else ?as ! k)" for k
    using Suc.prems(2) by (simp add: update_account_nth)
  have static1: "same_static (?as ! k) (accounts ?l1 ! k)" for k
    by (simp add: nth1 same_static_def)
  show ?case
  proof (cases "parent_id (?as ! i)")
    case None
    then have "lineage ?as i = [i]" by (rule lineage_root)
    with None find show ?thesis by (auto simp: lineage_faulted_def nth1)
  next
    case (Some p)
    with Suc.prems(1,2) obtain j where j: "j < i" "account_index_of ?as p = Some j"
      "account_id (?as ! j) = p" by (rule tree_parent)
    have line: "lineage ?as i = i # lineage ?as j"
      using Suc.prems(1,2) Some j(2) by (rule lineage_step)
    have line1: "lineage (accounts ?l1) j = lineage ?as j"
      by (rule lineage_static) (use static1 Suc.prems(2) j in auto)
    have notin: "i \<notin> set (lineage ?as j)" using j lineage_bound[of i ?as j] by auto
    have tree1: "tree_shape (root_id ?l1) (accounts ?l1)"
      using tree_shape_cong[of "accounts ?l1" ?as] static1 Suc.prems(1) by simp
    obtain l' where l': "fault_lineage_inner ?l1 p n = Ok l'" "root_id l' = root_id l"
      "reservations l' = reservations l"
      "lineage_faulted (accounts ?l1) (accounts l') (set (lineage ?as j))"
      using Suc.IH[OF tree1, of j p] j Suc.prems by (auto simp: line1 nth1)
    have "lineage_faulted ?as (accounts l') (set (lineage ?as i))"
      using l'(4) notin unfolding lineage_faulted_def line by (auto simp: nth1)
    with l' Some find show ?thesis by auto
  qed
qed

lemma fault_lineage_result:
  assumes "tree_shape (root_id l) (accounts l)" and "find_account l b = Some i"
  obtains l' where "fault_lineage l b = Ok l'" and "root_id l' = root_id l"
    and "reservations l' = reservations l"
    and "lineage_faulted (accounts l) (accounts l') (set (lineage (accounts l) i))"
proof -
  have i: "i < length (accounts l)" "account_id (accounts l ! i) = b"
    using assms(1,2) by (simp_all add: find_account_def tree_find)
  from fault_lineage_inner_result[OF assms(1) i(1) i(1) i(2)]
  show thesis using that by (auto simp: fault_lineage_def)
qed

end
