(* ===== verification/Budget_Invariant.thy ===== *)
theory Budget_Invariant
  imports Budget_Lineage
begin

text \<open>
  What each kind of ledger update does to the parts of the invariant: a charge of a lineage keeps
  the account books, replacing one reservation by a later stage of itself keeps the reservation
  side, a phase change that leaves closedness alone keeps both. The operations of the reducer are
  assembled from these in \<open>Budget_Steps\<close>.
\<close>

section \<open>The account books\<close>

definition books_ok :: "budget_id \<Rightarrow> budget_account list \<Rightarrow> bool" where
  "books_ok root as \<longleftrightarrow> tree_shape root as \<and> capacities_ok as \<and> delegation_ok as"

lemma ledger_inv_books: "ledger_inv l \<Longrightarrow> books_ok (root_id l) (accounts l)"
  by (simp add: ledger_inv_def books_ok_def)

lemma books_tree: "books_ok root as \<Longrightarrow> tree_shape root as"
  by (simp add: books_ok_def)

lemma ledger_inv_tree: "ledger_inv l \<Longrightarrow> tree_shape (root_id l) (accounts l)"
  by (simp add: ledger_inv_def)

lemma books_capacity: "books_ok root as \<Longrightarrow> k < length as \<Longrightarrow>
    amt (consumed (as ! k)) d + amt (operation_reserved (as ! k)) d
     + amt (child_delegated_remaining (as ! k)) d \<le> amt (limit_amounts (limits (as ! k))) d"
  by (simp add: books_ok_def capacities_ok_def capacity_ok_def)

lemma books_delegation: "books_ok root as \<Longrightarrow> k < length as \<Longrightarrow>
    amt (child_delegated_remaining (as ! k)) d = child_total as (account_id (as ! k)) d"
  by (simp add: books_ok_def delegation_ok_def)

lemma child_total_sum:
  "child_total as b d = (\<Sum>c<length as. if child_contributes (as ! c) b then unused_units (as ! c) d else 0)"
  unfolding child_total_def by (simp add: sum_list_sum_nth atLeast0LessThan)

lemma child_total_member:
  "c < length as \<Longrightarrow> parent_id (as ! c) = Some b \<Longrightarrow> account_phase (as ! c) \<noteq> Closed \<Longrightarrow>
     unused_units (as ! c) d \<le> child_total as b d"
  using member_le_sum_list_nth[of c as "\<lambda>a. if child_contributes a b then unused_units a d else 0"]
  by (simp add: child_total_def child_contributes_iff)

lemma find_account_bound: "find_account l b = Some i \<Longrightarrow> i < length (accounts l) \<and> account_id (accounts l ! i) = b"
  unfolding find_account_def
  by (blast intro: account_table.find_Some_bound account_table.find_Some_key)

lemma find_reservation_bound:
  "find_reservation l r = Some n \<Longrightarrow>
     n < length (reservations l) \<and> request_reservation_id (request (reservations l ! n)) = r"
  unfolding find_reservation_def
  using reservation_table.find_Some_bound reservation_table.find_Some_key
  by (fastforce simp: reservation_key_def)

text \<open>
  An account that is not closed keeps its ancestors from closing, and capacity that is free in an
  account was delegated by every ancestor.
\<close>

lemma lineage_not_closed:
  assumes "tree_shape (root_id l) (accounts l)" and "quiescent_ok l"
    and "i < length (accounts l)" and "account_phase (accounts l ! i) \<noteq> Closed"
  shows "\<forall>k\<in>set (lineage (accounts l) i). account_phase (accounts l ! k) \<noteq> Closed"
  using assms(1,3,4)
proof (induction rule: lineage_induct)
  case (root i)
  then show ?case by simp
next
  case (child i p j)
  then have "has_live_work l (account_id (accounts l ! j))"
    unfolding has_live_work_iff using nth_mem by blast
  with assms(2) child have "account_phase (accounts l ! j) \<noteq> Closed"
    unfolding quiescent_ok_def by (metis nth_mem order.strict_trans)
  with child show ?case by simp
qed

lemma lineage_funds:
  assumes "books_ok root as" and "i < length as"
    and "\<forall>k\<in>set (lineage as i). account_phase (as ! k) \<noteq> Closed"
    and "x \<le> unused_units (as ! i) d"
  shows "\<forall>k\<in>set (lineage as i). x \<le> unused_units (as ! k) d
     \<and> (k \<noteq> i \<longrightarrow> x \<le> amt (child_delegated_remaining (as ! k)) d)"
  using books_tree[OF assms(1)] assms(2,3,4)
proof (induction rule: lineage_induct)
  case (root i)
  then show ?case by simp
next
  case (child i p j)
  then have j: "j < length as" by simp
  have "x \<le> child_total as (account_id (as ! j)) d"
    using child child_total_member[of i as p d] by simp
  then have deleg: "x \<le> amt (child_delegated_remaining (as ! j)) d"
    using books_delegation[OF assms(1) j] by simp
  with books_capacity[OF assms(1) j, of d] have "x \<le> unused_units (as ! j) d"
    by (simp add: unused_units_def)
  with child have "\<forall>k\<in>set (lineage as j). x \<le> unused_units (as ! k) d
     \<and> (k \<noteq> j \<longrightarrow> x \<le> amt (child_delegated_remaining (as ! k)) d)" by simp
  with deleg child show ?case by auto
qed

section \<open>A charge keeps the books\<close>

text \<open>
  The effect of a charge of \<open>v\<close> to the lineage of account \<open>i\<close> that also releases \<open>x\<close> of the
  account's operation reservation.
\<close>

definition account_effect :: "budget_account list \<Rightarrow> budget_account list \<Rightarrow> nat \<Rightarrow> budget_amounts
    \<Rightarrow> (budget_dimension \<Rightarrow> nat) \<Rightarrow> bool" where
  "account_effect as bs i v x \<longleftrightarrow> length bs = length as \<and> (\<forall>k<length as.
     same_static (as ! k) (bs ! k) \<and> account_phase (bs ! k) = account_phase (as ! k)
   \<and> (\<forall>d. amt (consumed (bs ! k)) d = amt (consumed (as ! k)) d
        + (if k \<in> set (lineage as i) then amt v d else 0))
   \<and> (\<forall>d. amt (child_delegated_remaining (bs ! k)) d
        + (if k \<in> set (lineage as i) \<and> k \<noteq> i then amt v d else 0)
        = amt (child_delegated_remaining (as ! k)) d)
   \<and> (\<forall>d. amt (operation_reserved (bs ! k)) d + (if k = i then x d else 0)
        = amt (operation_reserved (as ! k)) d))"

lemma account_effect_static:
  "account_effect as bs i v x \<Longrightarrow> length bs = length as"
  "account_effect as bs i v x \<Longrightarrow> k < length as \<Longrightarrow> same_static (as ! k) (bs ! k)"
  "account_effect as bs i v x \<Longrightarrow> k < length as \<Longrightarrow> account_phase (bs ! k) = account_phase (as ! k)"
  by (simp_all add: account_effect_def)

lemma child_contributes_static:
  "same_static a b \<Longrightarrow> (account_phase b = Closed \<longleftrightarrow> account_phase a = Closed) \<Longrightarrow>
     child_contributes b c = child_contributes a c"
  by (simp add: child_contributes_iff same_static_def)

lemma effect_child_total:
  assumes "tree_shape root as" and eff: "account_effect as bs i v x"
    and "i < length as" and "k < length as"
    and live: "\<forall>k\<in>set (lineage as i). account_phase (as ! k) \<noteq> Closed"
    and room: "\<And>k. k \<in> set (lineage as i) \<Longrightarrow> amt v d \<le> unused_units (as ! k) d"
  shows "child_total bs (account_id (as ! k)) d
     + (if k \<in> set (lineage as i) \<and> k \<noteq> i then amt v d else 0)
     = child_total as (account_id (as ! k)) d"
proof -
  let ?b = "account_id (as ! k)" and ?S = "set (lineage as i)"
  have each: "(if child_contributes (bs ! c) ?b then unused_units (bs ! c) d else 0)
      + (if parent_id (as ! c) = Some ?b \<and> c \<in> ?S then amt v d else 0)
      = (if child_contributes (as ! c) ?b then unused_units (as ! c) d else 0)" if c: "c < length as" for c
  proof -
    have "child_contributes (bs ! c) ?b = child_contributes (as ! c) ?b"
      by (rule child_contributes_static) (use account_effect_static[OF eff] c in auto)
    moreover have "unused_units (bs ! c) d = unused_units (as ! c) d - (if c \<in> ?S then amt v d else 0)"
      using eff c unfolding account_effect_def same_static_def unused_units_def by auto
    ultimately show ?thesis
      using room[of c] live by (auto simp: child_contributes_iff)
  qed
  have "child_total bs ?b d + (\<Sum>c<length as. if parent_id (as ! c) = Some ?b \<and> c \<in> ?S then amt v d else 0)
      = (\<Sum>c<length as. (if child_contributes (bs ! c) ?b then unused_units (bs ! c) d else 0)
        + (if parent_id (as ! c) = Some ?b \<and> c \<in> ?S then amt v d else 0))"
    using account_effect_static(1)[OF eff] by (simp add: child_total_sum sum.distrib)
  also have "\<dots> = child_total as ?b d"
    unfolding child_total_sum by (rule sum.cong) (use each in auto)
  finally show ?thesis
    using lineage_child_count[OF assms(1,3,4)] by simp
qed

lemma effect_books:
  assumes books: "books_ok root as" and eff: "account_effect as bs i v x" and i: "i < length as"
    and live: "\<forall>k\<in>set (lineage as i). account_phase (as ! k) \<noteq> Closed"
    and room: "\<And>d. amt (consumed (as ! i)) d + amt v d + amt (operation_reserved (as ! i)) d
       + amt (child_delegated_remaining (as ! i)) d \<le> amt (limit_amounts (limits (as ! i))) d + x d"
    and room': "\<And>d. amt (consumed (as ! i)) d + amt v d \<le> amt (limit_amounts (limits (as ! i))) d"
  shows "books_ok root bs"
proof -
  have tree: "tree_shape root bs"
    using tree_shape_cong[OF _ _ books_tree[OF books]] account_effect_static[OF eff] by blast
  have funds: "amt v d \<le> unused_units (as ! k) d" if "k \<in> set (lineage as i)" for k d
    using lineage_funds[OF books i live, of "amt v d" d] room'[of d] that
    by (simp add: unused_units_def)
  have "capacity_ok (bs ! k)" if k: "k < length as" for k
    unfolding capacity_ok_def
  proof
    fix d
    from eff k have e: "limits (bs ! k) = limits (as ! k)"
      "amt (consumed (bs ! k)) d = amt (consumed (as ! k)) d + (if k \<in> set (lineage as i) then amt v d else 0)"
      "amt (child_delegated_remaining (bs ! k)) d
        + (if k \<in> set (lineage as i) \<and> k \<noteq> i then amt v d else 0)
        = amt (child_delegated_remaining (as ! k)) d"
      "amt (operation_reserved (bs ! k)) d + (if k = i then x d else 0) = amt (operation_reserved (as ! k)) d"
      by (simp_all add: account_effect_def same_static_def)
    then show "amt (consumed (bs ! k)) d + amt (operation_reserved (bs ! k)) d
      + amt (child_delegated_remaining (bs ! k)) d \<le> amt (limit_amounts (limits (bs ! k))) d"
      using books_capacity[OF books k, of d] room[of d] by (auto split: if_splits)
  qed
  then have "capacities_ok bs"
    using account_effect_static(1)[OF eff] by (auto simp: capacities_ok_def in_set_conv_nth)
  moreover have "amt (child_delegated_remaining (bs ! k)) d = child_total bs (account_id (bs ! k)) d"
    if k: "k < length as" for k d
  proof -
    have "account_id (bs ! k) = account_id (as ! k)"
      and deleg: "amt (child_delegated_remaining (bs ! k)) d
        + (if k \<in> set (lineage as i) \<and> k \<noteq> i then amt v d else 0)
        = amt (child_delegated_remaining (as ! k)) d"
      using eff k by (simp_all add: account_effect_def same_static_def)
    moreover have "child_total bs (account_id (as ! k)) d
       + (if k \<in> set (lineage as i) \<and> k \<noteq> i then amt v d else 0) = child_total as (account_id (as ! k)) d"
      by (rule effect_child_total[OF books_tree[OF books] eff i k live funds])
    ultimately show ?thesis
      using books_delegation[OF books k, of d] by (metis add_right_cancel)
  qed
  then have "delegation_ok bs"
    using account_effect_static(1)[OF eff] by (auto simp: delegation_ok_def in_set_conv_nth)
  ultimately show ?thesis using tree by (simp add: books_ok_def)
qed

section \<open>Release, then charge\<close>

lemma release_same: "release_observation_charge = release_full_reservation"
  by (intro ext) (simp add: release_observation_charge_def release_full_reservation_def)

lemma release_result:
  assumes "find_account l (request_budget_id (request (reservations l ! n))) = Some i"
    and "\<And>d. amt v d \<le> amt (operation_reserved (accounts l ! i)) d"
  obtains left where "release_full_reservation l n v
      = update_account l i (\<lambda>a. a\<lparr>operation_reserved := left\<rparr>)"
    and "\<And>d. amt left d + amt v d = amt (operation_reserved (accounts l ! i)) d"
proof -
  obtain left where "amounts_checked_sub (operation_reserved (accounts l ! i)) v = Ok left"
    "\<And>d. amt left d = amt (operation_reserved (accounts l ! i)) d - amt v d"
    using amounts_checked_sub_exists assms(2) by blast
  with assms that show thesis by (simp add: release_full_reservation_def)
qed

lemma release_validated_result:
  assumes "\<And>d. amt v d \<le> amt (operation_reserved (accounts l ! i)) d"
  obtains left where "release_operation_reservation_validated l i v
      = update_account l i (\<lambda>a. a\<lparr>operation_reserved := left\<rparr>)"
    and "\<And>d. amt left d + amt v d = amt (operation_reserved (accounts l ! i)) d"
proof -
  obtain left where "amounts_checked_sub (operation_reserved (accounts l ! i)) v = Ok left"
    "\<And>d. amt left d = amt (operation_reserved (accounts l ! i)) d - amt v d"
    using amounts_checked_sub_exists assms by blast
  with assms that show thesis by (simp add: release_operation_reservation_validated_def)
qed

text \<open>Lowering an operation reservation is the effect that charges nothing.\<close>

lemma lower_effect:
  assumes "i < length (accounts l)"
    and "\<And>d. amt left d + x d = amt (operation_reserved (accounts l ! i)) d"
  shows "account_effect (accounts l) (accounts (update_account l i (\<lambda>a. a\<lparr>operation_reserved := left\<rparr>)))
    i amounts_zero x"
  using assms by (auto simp: account_effect_def update_account_nth same_static_def)

lemma account_effect_at:
  assumes "account_effect as bs i v x" and "k < length as"
  shows "same_static (as ! k) (bs ! k)" and "account_phase (bs ! k) = account_phase (as ! k)"
    and "amt (consumed (bs ! k)) d = amt (consumed (as ! k)) d
        + (if k \<in> set (lineage as i) then amt v d else 0)"
    and "amt (child_delegated_remaining (bs ! k)) d
        + (if k \<in> set (lineage as i) \<and> k \<noteq> i then amt v d else 0)
        = amt (child_delegated_remaining (as ! k)) d"
    and "amt (operation_reserved (bs ! k)) d + (if k = i then x d else 0)
        = amt (operation_reserved (as ! k)) d"
  using assms by (simp_all add: account_effect_def)

lemma effect_lineage:
  assumes "account_effect as bs i v x" and "k < length as"
  shows "lineage bs k = lineage as k"
  by (rule lineage_static) (use account_effect_static[OF assms(1)] assms(2) in auto)

lemma effect_trans_lower:
  assumes e1: "account_effect as bs i v x" and e2: "account_effect bs cs i amounts_zero y"
    and i: "i < length as"
  shows "account_effect as cs i v (\<lambda>d. x d + y d)"
proof -
  have len: "length bs = length as" "length cs = length as"
    using account_effect_static(1)[OF e1] account_effect_static(1)[OF e2] by simp_all
  show ?thesis
    unfolding account_effect_def
  proof (intro conjI allI impI)
    fix k d assume k: "k < length as"
    note f = account_effect_at[OF e1 k] account_effect_at[OF e2, of k, unfolded len, OF k]
    show "same_static (as ! k) (cs ! k)" using f(1,6) by (rule same_static_trans)
    show "account_phase (cs ! k) = account_phase (as ! k)" using f by simp
    show "amt (consumed (cs ! k)) d = amt (consumed (as ! k)) d
        + (if k \<in> set (lineage as i) then amt v d else 0)"
      using f(3,8)[of d] by simp
    show "amt (child_delegated_remaining (cs ! k)) d
        + (if k \<in> set (lineage as i) \<and> k \<noteq> i then amt v d else 0)
        = amt (child_delegated_remaining (as ! k)) d"
      using f(4,9)[of d] by (auto split: if_splits)
    show "amt (operation_reserved (cs ! k)) d + (if k = i then x d + y d else 0)
        = amt (operation_reserved (as ! k)) d"
      using f(5,10)[of d] by (cases "k = i") simp_all
  qed (use len in simp)
qed

lemma charged_effect:
  assumes e: "account_effect as bs i amounts_zero x" and i: "i < length as"
    and charged: "lineage_charged bs cs (set (lineage bs i)) (set (lineage bs i) - {i}) v"
  shows "account_effect as cs i v x"
proof -
  have len: "length bs = length as" "length cs = length as"
    using account_effect_static(1)[OF e] charged by (simp_all add: lineage_charged_def)
  have line: "lineage bs i = lineage as i" by (rule effect_lineage[OF e i])
  show ?thesis
    unfolding account_effect_def
  proof (intro conjI allI impI)
    fix k d assume k: "k < length as"
    note f = account_effect_at[OF e k]
    have c: "same_static (bs ! k) (cs ! k)" "operation_reserved (cs ! k) = operation_reserved (bs ! k)"
      "account_phase (cs ! k) = account_phase (bs ! k)"
      "amt (consumed (cs ! k)) d = amt (consumed (bs ! k)) d
         + (if k \<in> set (lineage as i) then amt v d else 0)"
      "amt (child_delegated_remaining (cs ! k)) d + (if k \<in> set (lineage as i) - {i} then amt v d else 0)
         = amt (child_delegated_remaining (bs ! k)) d"
      using charged k len line by (simp_all add: lineage_charged_def)
    show "same_static (as ! k) (cs ! k)" using f(1) c(1) by (rule same_static_trans)
    show "account_phase (cs ! k) = account_phase (as ! k)" using f c by simp
    show "amt (consumed (cs ! k)) d = amt (consumed (as ! k)) d
        + (if k \<in> set (lineage as i) then amt v d else 0)"
      using f(3)[of d] c(4) by simp
    show "amt (child_delegated_remaining (cs ! k)) d
        + (if k \<in> set (lineage as i) \<and> k \<noteq> i then amt v d else 0)
        = amt (child_delegated_remaining (as ! k)) d"
      using f(4)[of d] c(5) by (simp split: if_splits)
    show "amt (operation_reserved (cs ! k)) d + (if k = i then x d else 0)
        = amt (operation_reserved (as ! k)) d"
      using f(5)[of d] c(2) by simp
  qed (use len in simp)
qed

text \<open>A charge that free capacity covers succeeds, whatever the operation reservations are.\<close>

lemma charge_exists:
  assumes books: "books_ok (root_id l) (accounts l)" and find: "find_account l b = Some i"
    and live: "\<forall>k\<in>set (lineage (accounts l) i). account_phase (accounts l ! k) \<noteq> Closed"
    and room: "\<And>d. amt v d \<le> unused_units (accounts l ! i) d"
  obtains l' where "charge_lineage l b v = Ok l'" and "root_id l' = root_id l"
    and "reservations l' = reservations l"
    and "lineage_charged (accounts l) (accounts l') (set (lineage (accounts l) i))
        (set (lineage (accounts l) i) - {i}) v"
proof -
  have i: "i < length (accounts l)" using find_account_bound[OF find] by simp
  have funds: "amt v d \<le> unused_units (accounts l ! k) d
     \<and> (k \<noteq> i \<longrightarrow> amt v d \<le> amt (child_delegated_remaining (accounts l ! k)) d)"
    if "k \<in> set (lineage (accounts l) i)" for k d
    using lineage_funds[OF books i live room] that by blast
  show thesis
  proof (rule charge_lineage_result[OF books_tree[OF books] find, of v])
    show "fits_within v (child_delegated_remaining (accounts l ! k))"
      if "k \<in> set (lineage (accounts l) i)" "k \<noteq> i" for k
      using funds[OF that(1)] that(2) by (simp add: fits_within_iff)
    show "amt (consumed (accounts l ! k)) d + amt v d < 2 ^ 64"
      if k: "k \<in> set (lineage (accounts l) i)" for k d
    proof -
      have "k < length (accounts l)" using lineage_bound[OF k] i by simp
      then have "amt (consumed (accounts l ! k)) d \<le> amt (limit_amounts (limits (accounts l ! k))) d"
        using books_capacity[OF books, of k d] by linarith
      then have "amt (consumed (accounts l ! k)) d + amt v d
          \<le> amt (limit_amounts (limits (accounts l ! k))) d"
        using funds[OF k, of d, THEN conjunct1] by (simp add: unused_units_def)
      then show ?thesis using amt_less by (rule le_less_trans)
    qed
  qed (rule that)
qed

lemma release_then_charge:
  assumes books: "books_ok (root_id l) (accounts l)"
    and find: "find_account l (request_budget_id (request (reservations l ! n))) = Some i"
    and live: "\<forall>k\<in>set (lineage (accounts l) i). account_phase (accounts l ! k) \<noteq> Closed"
    and room: "\<And>d. amt v d \<le> amt (operation_reserved (accounts l ! i)) d"
  obtains l' where
    "charge_lineage (release_full_reservation l n v) (request_budget_id (request (reservations l ! n))) v = Ok l'"
    and "root_id l' = root_id l" and "reservations l' = reservations l"
    and "account_effect (accounts l) (accounts l') i v (amt v)" and "books_ok (root_id l) (accounts l')"
proof -
  let ?b = "request_budget_id (request (reservations l ! n))"
  have i: "i < length (accounts l)" using find_account_bound[OF find] by simp
  obtain left where left: "release_full_reservation l n v
      = update_account l i (\<lambda>a. a\<lparr>operation_reserved := left\<rparr>)" (is "_ = ?l0")
    "\<And>d. amt left d + amt v d = amt (operation_reserved (accounts l ! i)) d"
    by (rule release_result[OF find room]) (rule that)
  have e0: "account_effect (accounts l) (accounts ?l0) i amounts_zero (amt v)"
    by (rule lower_effect[OF i left(2)])
  have books0: "books_ok (root_id ?l0) (accounts ?l0)"
  proof -
    have "books_ok (root_id l) (accounts ?l0)"
    proof (rule effect_books[OF books e0 i live])
      fix d
      show "amt (consumed (accounts l ! i)) d + amt amounts_zero d
         + amt (operation_reserved (accounts l ! i)) d
         + amt (child_delegated_remaining (accounts l ! i)) d
         \<le> amt (limit_amounts (limits (accounts l ! i))) d + amt v d"
        "amt (consumed (accounts l ! i)) d + amt amounts_zero d
         \<le> amt (limit_amounts (limits (accounts l ! i))) d"
        using books_capacity[OF books i, of d] by simp_all
    qed
    then show ?thesis by simp
  qed
  have find0: "find_account ?l0 ?b = Some i"
    using find index_of_static[of "accounts ?l0" "accounts l"] account_effect_static[OF e0]
    by (simp add: find_account_def)
  have line0: "lineage (accounts ?l0) i = lineage (accounts l) i"
    by (rule effect_lineage[OF e0 i])
  have live0: "\<forall>k\<in>set (lineage (accounts ?l0) i). account_phase (accounts ?l0 ! k) \<noteq> Closed"
    using live account_effect_static(3)[OF e0] lineage_bound i unfolding line0
    by (metis order.strict_trans1)
  have room0: "amt v d \<le> unused_units (accounts ?l0 ! i) d" for d
    using books_capacity[OF books i, of d] room[of d] i
    by (simp add: unused_units_def update_account_nth)
  obtain l' where l': "charge_lineage ?l0 ?b v = Ok l'" "root_id l' = root_id ?l0"
    "reservations l' = reservations ?l0"
    "lineage_charged (accounts ?l0) (accounts l') (set (lineage (accounts ?l0) i))
        (set (lineage (accounts ?l0) i) - {i}) v"
    by (rule charge_exists[OF books0 find0 live0 room0])
  have e: "account_effect (accounts l) (accounts l') i v (amt v)"
    by (rule charged_effect[OF e0 i l'(4)])
  have "books_ok (root_id l) (accounts l')"
  proof (rule effect_books[OF books e i live])
    fix d
    show "amt (consumed (accounts l ! i)) d + amt v d + amt (operation_reserved (accounts l ! i)) d
       + amt (child_delegated_remaining (accounts l ! i)) d
       \<le> amt (limit_amounts (limits (accounts l ! i))) d + amt v d"
      "amt (consumed (accounts l ! i)) d + amt v d \<le> amt (limit_amounts (limits (accounts l ! i))) d"
      using books_capacity[OF books i, of d] room[of d] by simp_all
  qed
  with l' e left(1) show thesis using that by simp
qed

section \<open>The reservation side\<close>

lemma attempt_ok_later:
  assumes "length rs' = length rs"
    and "\<And>j. j < length rs \<Longrightarrow> request (rs' ! j) = request (rs ! j)
      \<and> (is_live (reservation_phase (rs' ! j)) \<longrightarrow> is_live (reservation_phase (rs ! j)))"
    and "attempt_ok rs q"
  shows "attempt_ok rs' q"
proof -
  have "(\<exists>r\<in>set rs'. same_attempt_lineage (request r) q) \<longleftrightarrow>
      (\<exists>r\<in>set rs. same_attempt_lineage (request r) q)"
    using assms(1,2) by (metis in_set_conv_nth)
  moreover have "\<forall>r\<in>set rs'. same_attempt_lineage (request r) q \<longrightarrow>
      request_action_digest (request r) = request_action_digest q \<and> \<not> is_live (reservation_phase r)"
    using assms unfolding attempt_ok_def by (metis in_set_conv_nth)
  ultimately show ?thesis using assms(3) by (simp add: attempt_ok_def)
qed

lemma history_ok_later:
  assumes "length rs' = length rs"
    and "\<And>j. j < length rs \<Longrightarrow> request (rs' ! j) = request (rs ! j)
      \<and> (is_live (reservation_phase (rs' ! j)) \<longrightarrow> is_live (reservation_phase (rs ! j)))"
    and "history_ok rs"
  shows "history_ok rs'"
  unfolding history_ok_def
proof (intro allI impI)
  fix m assume m: "m < length rs'"
  have "attempt_ok (take m rs) (request (rs ! m))"
    using assms(1,3) m by (simp add: history_ok_def)
  then have "attempt_ok (take m rs') (request (rs ! m))"
    by (rule attempt_ok_later[rotated 2]) (use assms(1,2) m in auto)
  then show "attempt_ok (take m rs') (request (rs' ! m))"
    using assms(1,2) m by simp
qed

lemma reserved_total_update:
  assumes "n < length rs" and "request r' = request (rs ! n)"
  shows "reserved_total (rs[n := r']) b d
      + (if request_budget_id (request (rs ! n)) = b then outstanding_units (rs ! n) d else 0)
    = reserved_total rs b d
      + (if request_budget_id (request (rs ! n)) = b then outstanding_units r' d else 0)"
  using sum_list_update_nat[OF assms(1),
      of "\<lambda>r. if request_budget_id (request r) = b then outstanding_units r d else 0" r'] assms(2)
  by (simp add: reserved_total_def)

lemma reserved_total_member:
  "n < length rs \<Longrightarrow> request_budget_id (request (rs ! n)) = b \<Longrightarrow>
     outstanding_units (rs ! n) d \<le> reserved_total rs b d"
  using member_le_sum_list_nth[of n rs
      "\<lambda>r. if request_budget_id (request r) = b then outstanding_units r d else 0"]
  by (simp add: reserved_total_def)

lemma record_ok_static:
  assumes "record_ok as r" and "length bs = length as"
    and "\<And>k. k < length as \<Longrightarrow> same_static (as ! k) (bs ! k)"
  shows "record_ok bs r"
proof -
  from assms(1) obtain a where "a \<in> set as" "account_id a = request_budget_id (request r)"
    "revision a = request_revision (request r)" by (auto simp: record_ok_def)
  then obtain k where "k < length as" "account_id (as ! k) = request_budget_id (request r)"
    "revision (as ! k) = request_revision (request r)" by (auto simp: in_set_conv_nth)
  with assms have "\<exists>a\<in>set bs. account_id a = request_budget_id (request r)
      \<and> revision a = request_revision (request r)"
    by (metis nth_mem same_static_def)
  with assms(1) show ?thesis by (simp add: record_ok_def)
qed

lemma has_live_work_later:
  assumes "length bs = length (accounts l)"
    and "\<And>k. k < length (accounts l) \<Longrightarrow> same_static (accounts l ! k) (bs ! k)
       \<and> (account_phase (accounts l ! k) = Closed \<longrightarrow> account_phase (bs ! k) = Closed)"
    and "accounts l' = bs" and "length (reservations l') = length (reservations l)"
    and "\<And>j. j < length (reservations l) \<Longrightarrow>
      request (reservations l' ! j) = request (reservations l ! j)
      \<and> (is_live (reservation_phase (reservations l' ! j)) \<longrightarrow> is_live (reservation_phase (reservations l ! j)))"
    and "has_live_work l' b"
  shows "has_live_work l b"
proof -
  from assms(6) consider
    r where "r \<in> set (reservations l')" "request_budget_id (request r) = b" "is_live (reservation_phase r)"
  | a where "a \<in> set bs" "parent_id a = Some b" "account_phase a \<noteq> Closed"
    unfolding has_live_work_iff assms(3) by blast
  then show ?thesis
  proof cases
    case 1
    with assms(4,5) show ?thesis unfolding has_live_work_iff by (metis in_set_conv_nth)
  next
    case 2
    then obtain k where k: "k < length (accounts l)" "a = bs ! k"
      using assms(1) by (auto simp: in_set_conv_nth)
    with 2 assms(2)[of k] have "parent_id (accounts l ! k) = Some b"
      "account_phase (accounts l ! k) \<noteq> Closed" by (auto simp: same_static_def)
    with k(1) show ?thesis unfolding has_live_work_iff using nth_mem by blast
  qed
qed

lemma ledger_inv_quiet:
  "ledger_inv l \<Longrightarrow> k < length (accounts l) \<Longrightarrow> account_phase (accounts l ! k) = Closed \<Longrightarrow>
     \<not> has_live_work l (account_id (accounts l ! k))"
  by (simp add: ledger_inv_def quiescent_ok_def)

text \<open>
  The general step that appends nothing: static account data unchanged, closed accounts stay
  closed and newly closed ones have no live work, requests unchanged, liveness only lost.
\<close>

lemma later_inv:
  assumes inv: "ledger_inv l" and root: "root_id l' = root_id l"
    and books: "books_ok (root_id l) (accounts l')"
    and accts: "length (accounts l') = length (accounts l)"
      "\<And>k. k < length (accounts l) \<Longrightarrow> same_static (accounts l ! k) (accounts l' ! k)
       \<and> (account_phase (accounts l ! k) = Closed \<longrightarrow> account_phase (accounts l' ! k) = Closed)"
    and quiet: "\<And>k. k < length (accounts l) \<Longrightarrow> account_phase (accounts l' ! k) = Closed \<Longrightarrow>
      \<not> has_live_work l (account_id (accounts l ! k))"
    and resv: "length (reservations l') = length (reservations l)"
      "\<And>j. j < length (reservations l) \<Longrightarrow>
      request (reservations l' ! j) = request (reservations l ! j)
      \<and> (is_live (reservation_phase (reservations l' ! j)) \<longrightarrow> is_live (reservation_phase (reservations l ! j)))"
    and held: "\<And>k d. k < length (accounts l) \<Longrightarrow> amt (operation_reserved (accounts l' ! k)) d
      = reserved_total (reservations l') (account_id (accounts l ! k)) d"
    and records: "\<And>j. j < length (reservations l) \<Longrightarrow>
      fits_within (observed (reservations l' ! j)) (reserve (request (reservations l ! j)))
      \<and> record_phase_valid (reservations l' ! j)"
  shows "ledger_inv l'"
proof -
  have ids: "account_id (accounts l' ! k) = account_id (accounts l ! k)" if "k < length (accounts l)" for k
    using accts(2)[OF that] by (simp add: same_static_def)
  have "reserved_ok l'"
    unfolding reserved_ok_def using accts(1) held ids by (auto simp: in_set_conv_nth)
  moreover have "quiescent_ok l'"
    unfolding quiescent_ok_def
  proof (intro ballI impI)
    fix a assume "a \<in> set (accounts l')" "account_phase a = Closed"
    then obtain k where "k < length (accounts l)" "a = accounts l' ! k"
      "account_phase (accounts l' ! k) = Closed"
      using accts(1) by (auto simp: in_set_conv_nth)
    then have "\<not> has_live_work l (account_id a)"
      using quiet ids by simp
    then show "\<not> has_live_work l' (account_id a)"
      by (rule contrapos_nn) (rule has_live_work_later[OF accts refl resv])
  qed
  moreover have "map reservation_key (reservations l') = map reservation_key (reservations l)"
    using resv by (auto intro!: nth_equalityI simp: reservation_key_def)
  then have "distinct (map reservation_key (reservations l'))"
    using inv by (simp add: ledger_inv_def)
  moreover have "record_ok (accounts l') r" if "r \<in> set (reservations l')" for r
  proof -
    from that obtain j where j: "j < length (reservations l)" "r = reservations l' ! j"
      using resv(1) by (auto simp: in_set_conv_nth)
    then have "record_ok (accounts l) (reservations l ! j)"
      using inv by (simp add: ledger_inv_def)
    then have "record_ok (accounts l') (reservations l ! j)"
      by (rule record_ok_static) (use accts in auto)
    with resv(2)[OF j(1)] records[OF j(1)] j(2) show ?thesis by (simp add: record_ok_def)
  qed
  moreover have "history_ok (reservations l')"
    using history_ok_later[OF resv] inv by (simp add: ledger_inv_def)
  ultimately show ?thesis
    using books root by (simp add: ledger_inv_def books_ok_def)
qed

section \<open>Settling a reservation, changing phases\<close>

text \<open>
  \<open>settled l l' n i v x r'\<close>: record \<open>n\<close>, held by account \<open>i\<close>, became \<open>r'\<close>; \<open>v\<close> was charged to the
  lineage of the account and \<open>x\<close> of its operation reservation is gone.
\<close>

definition settled :: "budget_ledger \<Rightarrow> budget_ledger \<Rightarrow> nat \<Rightarrow> nat \<Rightarrow> budget_amounts
    \<Rightarrow> (budget_dimension \<Rightarrow> nat) \<Rightarrow> reservation_record \<Rightarrow> bool" where
  "settled l l' n i v x r' \<longleftrightarrow> root_id l' = root_id l
     \<and> account_effect (accounts l) (accounts l') i v x
     \<and> reservations l' = (reservations l)[n := r'] \<and> request r' = request (reservations l ! n)"

lemma ledger_inv_reserved:
  "ledger_inv l \<Longrightarrow> k < length (accounts l) \<Longrightarrow>
     amt (operation_reserved (accounts l ! k)) d = reserved_total (reservations l) (account_id (accounts l ! k)) d"
  by (simp add: ledger_inv_def reserved_ok_def)

lemma ledger_inv_record:
  assumes "ledger_inv l" and "n < length (reservations l)"
  shows "record_ok (accounts l) (reservations l ! n)"
  using assms by (simp add: ledger_inv_def)

lemma settled_inv:
  assumes inv: "ledger_inv l" and n: "n < length (reservations l)"
    and find: "find_account l (request_budget_id (request (reservations l ! n))) = Some i"
    and settled: "settled l l' n i v x r'" and books: "books_ok (root_id l) (accounts l')"
    and live: "is_live (reservation_phase r') \<Longrightarrow> is_live (reservation_phase (reservations l ! n))"
    and left: "\<And>d. outstanding_units (reservations l ! n) d = outstanding_units r' d + x d"
    and fits: "fits_within (observed r') (reserve (request (reservations l ! n)))"
    and phase: "record_phase_valid r'"
  shows "ledger_inv l'"
proof -
  let ?r = "reservations l ! n"
  have i: "i < length (accounts l)" "account_id (accounts l ! i) = request_budget_id (request ?r)"
    using find_account_bound[OF find] by simp_all
  from settled have root: "root_id l' = root_id l"
    and eff: "account_effect (accounts l) (accounts l') i v x"
    and rs: "reservations l' = (reservations l)[n := r']" and req: "request r' = request ?r"
    by (simp_all add: settled_def)
  have old: "record_ok (accounts l) (reservations l ! j)" if "j < length (reservations l)" for j
    using inv that by (rule ledger_inv_record)
  show ?thesis
  proof (rule later_inv[OF inv root books])
    show "length (accounts l') = length (accounts l)"
      by (rule account_effect_static(1)[OF eff])
    show "length (reservations l') = length (reservations l)" by (simp add: rs)
    show "same_static (accounts l ! k) (accounts l' ! k)
       \<and> (account_phase (accounts l ! k) = Closed \<longrightarrow> account_phase (accounts l' ! k) = Closed)"
      if "k < length (accounts l)" for k
      using account_effect_static[OF eff] that by simp
    show "\<not> has_live_work l (account_id (accounts l ! k))"
      if "k < length (accounts l)" "account_phase (accounts l' ! k) = Closed" for k
      using ledger_inv_quiet[OF inv that(1)] account_effect_static(3)[OF eff that(1)] that(2) by simp
    show "request (reservations l' ! j) = request (reservations l ! j)
      \<and> (is_live (reservation_phase (reservations l' ! j)) \<longrightarrow> is_live (reservation_phase (reservations l ! j)))"
      if "j < length (reservations l)" for j
      using that req live n by (cases "j = n") (simp_all add: rs)
    show "fits_within (observed (reservations l' ! j)) (reserve (request (reservations l ! j)))
      \<and> record_phase_valid (reservations l' ! j)" if "j < length (reservations l)" for j
      using that old[of j] fits phase by (cases "j = n") (simp_all add: rs record_ok_def)
    fix k d assume k: "k < length (accounts l)"
    let ?b = "account_id (accounts l ! k)"
    have same: "request_budget_id (request ?r) = ?b \<longleftrightarrow> k = i"
      using tree_nth_inject[OF ledger_inv_tree[OF inv] k i(1)] i(2) by auto
    have "amt (operation_reserved (accounts l' ! k)) d + (if k = i then x d else 0)
        = reserved_total (reservations l) ?b d"
      using account_effect_at(5)[OF eff k] ledger_inv_reserved[OF inv k] by simp
    then show "amt (operation_reserved (accounts l' ! k)) d = reserved_total (reservations l') ?b d"
      using reserved_total_update[OF n req, of ?b d] left[of d] by (auto simp: rs same split: if_splits)
  qed
qed

text \<open>Only account phases change, and closed accounts stay closed.\<close>

lemma phase_change_inv:
  assumes inv: "ledger_inv l" and root: "root_id l' = root_id l"
    and resv: "reservations l' = reservations l" and len: "length (accounts l') = length (accounts l)"
    and accts: "\<And>k. k < length (accounts l) \<Longrightarrow> \<exists>p. accounts l' ! k = (accounts l ! k)\<lparr>account_phase := p\<rparr>
      \<and> (p = Closed \<longleftrightarrow> account_phase (accounts l ! k) = Closed)"
  shows "ledger_inv l'"
proof -
  have same: "same_static (accounts l ! k) (accounts l' ! k)
     \<and> (account_phase (accounts l' ! k) = Closed \<longleftrightarrow> account_phase (accounts l ! k) = Closed)
     \<and> consumed (accounts l' ! k) = consumed (accounts l ! k)
     \<and> operation_reserved (accounts l' ! k) = operation_reserved (accounts l ! k)
     \<and> child_delegated_remaining (accounts l' ! k) = child_delegated_remaining (accounts l ! k)"
    if "k < length (accounts l)" for k
    using accts[OF that] by (auto simp: same_static_def)
  have totals: "child_total (accounts l') b d = child_total (accounts l) b d" for b d
    unfolding child_total_def
  proof (rule sum_list_cong_nth[OF len])
    fix k assume "k < length (accounts l')"
    then have k: "k < length (accounts l)" by (simp add: len)
    have "child_contributes (accounts l' ! k) b = child_contributes (accounts l ! k) b"
      using same[OF k] by (intro child_contributes_static) simp_all
    moreover have "unused_units (accounts l' ! k) d = unused_units (accounts l ! k) d"
      using same[OF k] by (simp add: unused_units_def same_static_def)
    ultimately show "(if child_contributes (accounts l' ! k) b then unused_units (accounts l' ! k) d else 0)
       = (if child_contributes (accounts l ! k) b then unused_units (accounts l ! k) d else 0)" by simp
  qed
  have old: "books_ok (root_id l) (accounts l)" by (rule ledger_inv_books[OF inv])
  have "capacity_ok (accounts l' ! k)" if k: "k < length (accounts l)" for k
    using books_capacity[OF old k] same[OF k] by (simp add: capacity_ok_def same_static_def)
  moreover have "amt (child_delegated_remaining (accounts l' ! k)) d
      = child_total (accounts l') (account_id (accounts l' ! k)) d" if k: "k < length (accounts l)" for k d
    using books_delegation[OF old k] same[OF k] by (simp add: totals same_static_def)
  ultimately have "books_ok (root_id l) (accounts l')"
    using tree_shape_cong[OF len _ ledger_inv_tree[OF inv]] same len
    by (auto simp: books_ok_def capacities_ok_def delegation_ok_def in_set_conv_nth)
  then show ?thesis
    by (rule later_inv[OF inv root])
      (use len same resv ledger_inv_record[OF inv] ledger_inv_reserved[OF inv]
          ledger_inv_quiet[OF inv] in \<open>simp_all add: record_ok_def\<close>)
qed

end
