(* ===== verification/Budget_Steps.thy ===== *)
theory Budget_Steps
  imports Budget_Invariant
begin

text \<open>
  Each operation of the reducer on a valid ledger: when it is accepted, what its effect is, and
  that the next ledger is valid again.
\<close>

section \<open>Operations on a live reservation\<close>

lemma live_reservation:
  assumes inv: "ledger_inv l" and n: "n < length (reservations l)"
    and live: "is_live (reservation_phase (reservations l ! n))"
  obtains i where "find_account l (request_budget_id (request (reservations l ! n))) = Some i"
    and "\<forall>k\<in>set (lineage (accounts l) i). account_phase (accounts l ! k) \<noteq> Closed"
    and "\<And>d. outstanding_units (reservations l ! n) d \<le> amt (operation_reserved (accounts l ! i)) d"
proof -
  let ?r = "reservations l ! n"
  have tree: "tree_shape (root_id l) (accounts l)" using inv by (rule ledger_inv_tree)
  from ledger_inv_record[OF inv n] obtain i where i: "i < length (accounts l)"
    "account_id (accounts l ! i) = request_budget_id (request ?r)"
    by (auto simp: record_ok_def in_set_conv_nth)
  have "has_live_work l (account_id (accounts l ! i))"
    unfolding has_live_work_iff using i(2) n live nth_mem by fastforce
  then have "account_phase (accounts l ! i) \<noteq> Closed"
    using inv i(1) by (auto simp: ledger_inv_def quiescent_ok_def)
  then have "\<forall>k\<in>set (lineage (accounts l) i). account_phase (accounts l ! k) \<noteq> Closed"
    using lineage_not_closed[OF tree _ i(1)] inv by (simp add: ledger_inv_def)
  moreover have "outstanding_units ?r d \<le> amt (operation_reserved (accounts l ! i)) d" for d
    using ledger_inv_reserved[OF inv i(1)] reserved_total_member[OF n i(2)[symmetric]] by simp
  moreover have "find_account l (request_budget_id (request ?r)) = Some i"
    using i tree by (simp add: find_account_def tree_find)
  ultimately show thesis using that by blast
qed

lemma record_fits:
  "ledger_inv l \<Longrightarrow> n < length (reservations l) \<Longrightarrow>
     amt (observed (reservations l ! n)) d \<le> amt (reserve (request (reservations l ! n))) d"
  using ledger_inv_record[of l n] by (simp add: record_ok_def fits_within_iff)

lemma record_phase_ok:
  "ledger_inv l \<Longrightarrow> n < length (reservations l) \<Longrightarrow> record_phase_valid (reservations l ! n)"
  using ledger_inv_record[of l n] by (simp add: record_ok_def)

text \<open>
  The common part of the interim, final, overrun and finalization steps: release \<open>v\<close>, charge it.
\<close>

lemma live_charge:
  assumes inv: "ledger_inv l" and n: "n < length (reservations l)"
    and live: "is_live (reservation_phase (reservations l ! n))"
    and v: "\<And>d. amt v d \<le> outstanding_units (reservations l ! n) d"
  obtains i l1 where "find_account l (request_budget_id (request (reservations l ! n))) = Some i"
    and "i < length (accounts l)"
    and "charge_lineage (release_full_reservation l n v) (request_budget_id (request (reservations l ! n))) v = Ok l1"
    and "root_id l1 = root_id l" and "reservations l1 = reservations l"
    and "account_effect (accounts l) (accounts l1) i v (amt v)" and "books_ok (root_id l) (accounts l1)"
    and "\<And>d. outstanding_units (reservations l ! n) d \<le> amt (operation_reserved (accounts l ! i)) d"
    and "\<forall>k\<in>set (lineage (accounts l) i). account_phase (accounts l ! k) \<noteq> Closed"
proof -
  obtain i where i: "find_account l (request_budget_id (request (reservations l ! n))) = Some i"
    "\<forall>k\<in>set (lineage (accounts l) i). account_phase (accounts l ! k) \<noteq> Closed"
    "\<And>d. outstanding_units (reservations l ! n) d \<le> amt (operation_reserved (accounts l ! i)) d"
    by (rule live_reservation[OF inv n live]) (rule that)
  have "amt v d \<le> amt (operation_reserved (accounts l ! i)) d" for d
    using v[of d] i(3)[of d] by simp
  then obtain l1 where
    "charge_lineage (release_full_reservation l n v) (request_budget_id (request (reservations l ! n))) v = Ok l1"
    "root_id l1 = root_id l" "reservations l1 = reservations l"
    "account_effect (accounts l) (accounts l1) i v (amt v)" "books_ok (root_id l) (accounts l1)"
    using release_then_charge[OF ledger_inv_books[OF inv] i(1,2)] by blast
  with i find_account_bound[OF i(1)] show thesis using that by blast
qed

lemma settledI:
  assumes "root_id l1 = root_id l" and "reservations l1 = reservations l"
    and "account_effect (accounts l) (accounts l1) i v x"
    and "request (f (reservations l ! n)) = request (reservations l ! n)"
  shows "settled l (update_reservation l1 n f) n i v x (f (reservations l ! n))"
  using assms by (simp add: settled_def update_reservation_def)

lemma apply_interim_result:
  assumes inv: "ledger_inv l" and n: "n < length (reservations l)"
    and r: "r = reservations l ! n" and active: "reservation_phase r = Active"
    and fin: "observation_finality obs = Interim"
    and mono: "fits_within (observed r) (cumulative obs)"
    and fits: "fits_within (cumulative obs) (reserve (request r))"
  obtains l' i v where "apply_interim_validated l n obs = Ok (l', receipt_new ObserveUsageOperation Applied
        (request_budget_id (request r)) (Some (observation_reservation_id obs)) v amounts_zero
        (Some (cumulative obs)) (Some (observation_evidence_digest obs)))"
    and "find_account l (request_budget_id (request r)) = Some i"
    and "settled l l' n i v (amt v)
      (r\<lparr>observed := cumulative obs, observation_evidence := Some (observation_evidence_digest obs)\<rparr>)"
    and "\<And>d. amt (cumulative obs) d = amt (observed r) d + amt v d" and "ledger_inv l'"
proof -
  let ?f = "\<lambda>r. r\<lparr>observed := cumulative obs,
    observation_evidence := Some (observation_evidence_digest obs)\<rparr>"
  obtain v where v: "amounts_checked_sub (cumulative obs) (observed r) = Ok v"
    "\<And>d. amt v d = amt (cumulative obs) d - amt (observed r) d"
    using amounts_checked_sub_exists[of "observed r" "cumulative obs"] mono by (auto simp: fits_within_iff)
  have ord: "amt (observed r) d \<le> amt (cumulative obs) d" "amt (cumulative obs) d \<le> amt (reserve (request r)) d"
    for d using mono fits by (simp_all add: fits_within_iff)
  have live: "is_live (reservation_phase (reservations l ! n))" using active r by (simp add: is_live_iff)
  have "amt v d \<le> outstanding_units (reservations l ! n) d" for d
    using v(2)[of d] ord[of d] live by (simp add: outstanding_units_def r[symmetric])
  then obtain i l1 where l1: "find_account l (request_budget_id (request (reservations l ! n))) = Some i"
    "charge_lineage (release_full_reservation l n v) (request_budget_id (request (reservations l ! n))) v = Ok l1"
    "root_id l1 = root_id l" "reservations l1 = reservations l"
    "account_effect (accounts l) (accounts l1) i v (amt v)" "books_ok (root_id l) (accounts l1)"
    by (rule live_charge[OF inv n live]) blast
  let ?l' = "update_reservation l1 n ?f"
  have settled: "settled l ?l' n i v (amt v) (?f r)"
    unfolding r by (rule settledI) (use l1 in simp_all)
  have "ledger_inv ?l'"
  proof (rule settled_inv[OF inv n l1(1) settled])
    show "books_ok (root_id l) (accounts ?l')" using l1 by simp
    show "outstanding_units (reservations l ! n) d = outstanding_units (?f r) d + amt v d" for d
      using v(2)[of d] ord[of d] live active by (simp add: outstanding_units_def r[symmetric])
    show "record_phase_valid (?f r)"
      using record_phase_ok[OF inv n] active by (simp add: record_phase_valid_def r[symmetric])
  qed (use live r fits in simp_all)
  moreover have "apply_interim_validated l n obs = Ok (?l', receipt_new ObserveUsageOperation Applied
        (request_budget_id (request r)) (Some (observation_reservation_id obs)) v amounts_zero
        (Some (cumulative obs)) (Some (observation_evidence_digest obs)))"
    using active fin v(1) l1(2) by (simp add: apply_interim_validated_def Let_def release_same r[symmetric])
  ultimately show thesis using that[OF _ _ settled] l1(1) v(2) ord(1) r by simp
qed

lemma apply_final_result:
  assumes inv: "ledger_inv l" and n: "n < length (reservations l)"
    and r: "r = reservations l ! n" and active: "reservation_phase r = Active"
    and fin: "observation_finality obs = Final"
    and mono: "fits_within (observed r) (cumulative obs)"
    and fits: "fits_within (cumulative obs) (reserve (request r))"
  obtains l' i v w where "apply_final_validated l n obs = Ok (l', receipt_new ObserveUsageOperation Applied
        (request_budget_id (request r)) (Some (observation_reservation_id obs)) v w
        (Some (cumulative obs)) (Some (observation_evidence_digest obs)))"
    and "find_account l (request_budget_id (request r)) = Some i"
    and "settled l l' n i v (\<lambda>d. amt v d + amt w d)
      (r\<lparr>observed := cumulative obs, observation_evidence := Some (observation_evidence_digest obs),
         reservation_phase := SettledFinal, final_evidence := Some (observation_evidence_digest obs),
         final_reported := Some (cumulative obs), finality := Some Final\<rparr>)"
    and "\<And>d. amt (cumulative obs) d = amt (observed r) d + amt v d"
    and "\<And>d. amt (reserve (request r)) d = amt (cumulative obs) d + amt w d" and "ledger_inv l'"
proof -
  let ?ev = "Some (observation_evidence_digest obs)"
  let ?f = "\<lambda>r. r\<lparr>observed := cumulative obs, observation_evidence := ?ev\<rparr>"
  let ?g = "\<lambda>r. r\<lparr>reservation_phase := SettledFinal, final_evidence := ?ev,
     final_reported := Some (cumulative obs), finality := Some Final\<rparr>"
  obtain v where v: "amounts_checked_sub (cumulative obs) (observed r) = Ok v"
    "\<And>d. amt v d = amt (cumulative obs) d - amt (observed r) d"
    using amounts_checked_sub_exists[of "observed r" "cumulative obs"] mono by (auto simp: fits_within_iff)
  obtain w where w: "amounts_checked_sub (reserve (request r)) (cumulative obs) = Ok w"
    "\<And>d. amt w d = amt (reserve (request r)) d - amt (cumulative obs) d"
    using amounts_checked_sub_exists[of "cumulative obs" "reserve (request r)"] fits
    by (auto simp: fits_within_iff)
  have ord: "amt (observed r) d \<le> amt (cumulative obs) d" "amt (cumulative obs) d \<le> amt (reserve (request r)) d"
    for d using mono fits by (simp_all add: fits_within_iff)
  have live: "is_live (reservation_phase (reservations l ! n))" using active r by (simp add: is_live_iff)
  have out: "outstanding_units (reservations l ! n) d = amt v d + amt w d" for d
    using v(2)[of d] w(2)[of d] ord[of d] live by (simp add: outstanding_units_def r[symmetric])
  then have "amt v d \<le> outstanding_units (reservations l ! n) d" for d by simp
  then obtain i l1 where l1: "find_account l (request_budget_id (request (reservations l ! n))) = Some i"
    "i < length (accounts l)"
    "charge_lineage (release_full_reservation l n v) (request_budget_id (request (reservations l ! n))) v = Ok l1"
    "root_id l1 = root_id l" "reservations l1 = reservations l"
    "account_effect (accounts l) (accounts l1) i v (amt v)" "books_ok (root_id l) (accounts l1)"
    "\<And>d. outstanding_units (reservations l ! n) d \<le> amt (operation_reserved (accounts l ! i)) d"
    "\<forall>k\<in>set (lineage (accounts l) i). account_phase (accounts l ! k) \<noteq> Closed"
    by (rule live_charge[OF inv n live]) blast
  let ?l2 = "update_reservation l1 n ?f"
  have i1: "i < length (accounts l1)" using l1(2) account_effect_static(1)[OF l1(6)] by simp
  have "amt w d \<le> amt (operation_reserved (accounts ?l2 ! i)) d" for d
    using account_effect_at(5)[OF l1(6,2), of d] l1(8)[of d] out[of d] by simp
  then obtain left where left: "release_operation_reservation_validated ?l2 i w
      = update_account ?l2 i (\<lambda>a. a\<lparr>operation_reserved := left\<rparr>)"
    "\<And>d. amt left d + amt w d = amt (operation_reserved (accounts ?l2 ! i)) d"
    using release_validated_result[of w ?l2 i] by blast
  let ?l3 = "update_account ?l2 i (\<lambda>a. a\<lparr>operation_reserved := left\<rparr>)"
  let ?l' = "update_reservation ?l3 n ?g"
  have e3: "account_effect (accounts l1) (accounts ?l3) i amounts_zero (amt w)"
    using lower_effect[of i ?l2 left "amt w"] i1 left(2) by simp
  have eff: "account_effect (accounts l) (accounts ?l3) i v (\<lambda>d. amt v d + amt w d)"
    by (rule effect_trans_lower[OF l1(6) e3 l1(2)])
  have "accounts ?l' = accounts ?l3" by simp
  moreover have "reservations ?l' = (reservations l)[n := ?g (?f r)]"
    using n l1(5) by (simp add: update_reservation_def update_account_def r)
  ultimately have settled: "settled l ?l' n i v (\<lambda>d. amt v d + amt w d) (?g (?f r))"
    using eff l1(4) by (simp add: settled_def r)
  have "books_ok (root_id l) (accounts ?l3)"
  proof (rule effect_books[OF ledger_inv_books[OF inv] eff l1(2,9)])
    fix d
    show "amt (consumed (accounts l ! i)) d + amt v d + amt (operation_reserved (accounts l ! i)) d
       + amt (child_delegated_remaining (accounts l ! i)) d
       \<le> amt (limit_amounts (limits (accounts l ! i))) d + (amt v d + amt w d)"
      "amt (consumed (accounts l ! i)) d + amt v d \<le> amt (limit_amounts (limits (accounts l ! i))) d"
      using books_capacity[OF ledger_inv_books[OF inv] l1(2), of d] l1(8)[of d] out[of d] by simp_all
  qed
  then have books: "books_ok (root_id l) (accounts ?l')" by simp
  have "ledger_inv ?l'"
  proof (rule settled_inv[OF inv n l1(1) settled books])
    show "outstanding_units (reservations l ! n) d = outstanding_units (?g (?f r)) d + (amt v d + amt w d)" for d
      using out[of d] by (simp add: outstanding_units_def is_live_def)
    show "record_phase_valid (?g (?f r))"
      using record_phase_ok[OF inv n] active by (simp add: record_phase_valid_def r[symmetric])
  qed (use r fits in \<open>simp_all add: is_live_def\<close>)
  moreover have "apply_final_validated l n obs = Ok (?l', receipt_new ObserveUsageOperation Applied
        (request_budget_id (request r)) (Some (observation_reservation_id obs)) v w
        (Some (cumulative obs)) ?ev)"
    using active fin v(1) w(1) l1(1,3) left(1)
    by (simp add: apply_final_validated_def Let_def release_same r[symmetric])
  ultimately show thesis using that[OF _ _ settled] l1(1) v(2) w(2) ord r by simp
qed

text \<open>
  Charging everything a live reservation still holds, as exact and ambiguous settlement and the
  overrun do.
\<close>

lemma full_charge_result:
  assumes inv: "ledger_inv l" and n: "n < length (reservations l)"
    and r: "r = reservations l ! n" and live: "is_live (reservation_phase r)"
    and req: "request (f r) = request r" and obs: "observed (f r) = reserve (request r)"
    and dead: "\<not> is_live (reservation_phase (f r))" and phase: "record_phase_valid (f r)"
  obtains l1 i v where "outstanding_validated r = v"
    and "find_account l (request_budget_id (request r)) = Some i"
    and "charge_lineage (release_full_reservation l n v) (request_budget_id (request r)) v = Ok l1"
    and "settled l (update_reservation l1 n f) n i v (amt v) (f r)"
    and "\<And>d. amt (reserve (request r)) d = amt (observed r) d + amt v d"
    and "ledger_inv (update_reservation l1 n f)"
    and "\<forall>k\<in>set (lineage (accounts l) i). account_phase (accounts l ! k) \<noteq> Closed"
proof -
  let ?v = "outstanding_validated r"
  have fits: "fits_within (observed r) (reserve (request r))"
    using record_fits[OF inv n] r by (simp add: fits_within_iff)
  have v: "amt ?v d = outstanding_units r d" for d by (rule outstanding_cases(2)[OF fits])
  have "is_live (reservation_phase (reservations l ! n))" using live r by simp
  moreover have "amt ?v d \<le> outstanding_units (reservations l ! n) d" for d using v r by simp
  ultimately obtain i l1 where l1:
    "find_account l (request_budget_id (request (reservations l ! n))) = Some i"
    "charge_lineage (release_full_reservation l n ?v) (request_budget_id (request (reservations l ! n))) ?v = Ok l1"
    "root_id l1 = root_id l" "reservations l1 = reservations l"
    "account_effect (accounts l) (accounts l1) i ?v (amt ?v)" "books_ok (root_id l) (accounts l1)"
    "\<forall>k\<in>set (lineage (accounts l) i). account_phase (accounts l ! k) \<noteq> Closed"
    using live_charge[OF inv n] by metis
  let ?l' = "update_reservation l1 n f"
  have settled: "settled l ?l' n i ?v (amt ?v) (f r)"
    unfolding r by (rule settledI) (use l1 req r in simp_all)
  have "ledger_inv ?l'"
  proof (rule settled_inv[OF inv n l1(1) settled])
    show "books_ok (root_id l) (accounts ?l')" using l1 by simp
    show "outstanding_units (reservations l ! n) d = outstanding_units (f r) d + amt ?v d" for d
      using v[of d] dead by (simp add: outstanding_units_def r[symmetric])
    show "fits_within (observed (f r)) (reserve (request (reservations l ! n)))"
      using obs r by (simp add: fits_within_iff)
  qed (use dead phase in simp_all)
  moreover have "amt (reserve (request r)) d = amt (observed r) d + amt ?v d" for d
    using v[of d] live fits by (simp add: outstanding_units_def fits_within_iff)
  ultimately show thesis using that[OF refl _ _ settled] l1 r by simp
qed

lemma apply_overrun_result:
  assumes inv: "ledger_inv l" and n: "n < length (reservations l)"
    and r: "r = reservations l ! n" and active: "reservation_phase r = Active"
    and over: "\<not> fits_within (cumulative obs) (reserve (request r))"
  obtains l' l2 i v where "apply_overrun_validated l n obs
      = Ok (l', make_overrun_receipt obs (request_budget_id (request r)) v)"
    and "find_account l (request_budget_id (request r)) = Some i"
    and "settled l l2 n i v (amt v)
      (r\<lparr>observed := reserve (request r), observation_evidence := Some (observation_evidence_digest obs),
         reservation_phase := OverrunFaulted, final_evidence := Some (observation_evidence_digest obs),
         final_reported := Some (cumulative obs), finality := Some (observation_finality obs)\<rparr>)"
    and "\<And>d. amt (reserve (request r)) d = amt (observed r) d + amt v d"
    and "root_id l' = root_id l2" and "reservations l' = reservations l2"
    and "lineage_faulted (accounts l2) (accounts l') (set (lineage (accounts l) i))"
    and "ledger_inv l2" and "ledger_inv l'"
proof -
  let ?b = "request_budget_id (request r)" and ?ev = "Some (observation_evidence_digest obs)"
  let ?f = "\<lambda>x. x\<lparr>observed := reserve (request r), observation_evidence := ?ev,
     reservation_phase := OverrunFaulted, final_evidence := ?ev,
     final_reported := Some (cumulative obs), finality := Some (observation_finality obs)\<rparr>"
  have phase: "record_phase_valid (?f r)"
    using record_phase_ok[OF inv n] active over by (simp add: record_phase_valid_def r[symmetric])
  have req: "request (?f r) = request r" and full: "observed (?f r) = reserve (request r)" by simp_all
  have dead: "\<not> is_live (reservation_phase (?f r))" and live: "is_live (reservation_phase r)"
    using active by (simp_all add: is_live_def)
  obtain l1 i v where s: "outstanding_validated r = v" "find_account l ?b = Some i"
    "charge_lineage (release_full_reservation l n v) ?b v = Ok l1"
    "settled l (update_reservation l1 n ?f) n i v (amt v) (?f r)"
    "\<And>d. amt (reserve (request r)) d = amt (observed r) d + amt v d"
    "ledger_inv (update_reservation l1 n ?f)"
    "\<forall>k\<in>set (lineage (accounts l) i). account_phase (accounts l ! k) \<noteq> Closed"
    by (rule full_charge_result[OF inv n r live, of ?f, OF req full dead phase]) (rule that)
  let ?l2 = "update_reservation l1 n ?f"
  have i: "i < length (accounts l)" using find_account_bound[OF s(2)] by simp
  have eff: "account_effect (accounts l) (accounts ?l2) i v (amt v)"
    using s(4) by (simp add: settled_def)
  have "find_account ?l2 ?b = Some i"
    using s(2) index_of_static[of "accounts ?l2" "accounts l"] account_effect_static[OF eff]
    by (simp add: find_account_def)
  then obtain l' where l': "fault_lineage ?l2 ?b = Ok l'" "root_id l' = root_id ?l2"
    "reservations l' = reservations ?l2"
    "lineage_faulted (accounts ?l2) (accounts l') (set (lineage (accounts ?l2) i))"
    by (rule fault_lineage_result[OF ledger_inv_tree[OF s(6)]])
  have line: "lineage (accounts ?l2) i = lineage (accounts l) i" by (rule effect_lineage[OF eff i])
  have open2: "account_phase (accounts ?l2 ! k) \<noteq> Closed" if "k \<in> set (lineage (accounts l) i)" for k
    using that s(7) account_effect_static(3)[OF eff, of k] lineage_bound[OF that] i by simp
  have "ledger_inv l'"
  proof (rule phase_change_inv[OF s(6) l'(2,3)])
    show "length (accounts l') = length (accounts ?l2)" using l'(4) by (simp add: lineage_faulted_def)
    fix k assume k: "k < length (accounts ?l2)"
    show "\<exists>p. accounts l' ! k = (accounts ?l2 ! k)\<lparr>account_phase := p\<rparr>
      \<and> (p = Closed \<longleftrightarrow> account_phase (accounts ?l2 ! k) = Closed)"
    proof (cases "k \<in> set (lineage (accounts l) i)")
      case True
      with l'(4) k line have "accounts l' ! k = (accounts ?l2 ! k)\<lparr>account_phase := Faulted\<rparr>"
        by (simp add: lineage_faulted_def)
      with open2[OF True] show ?thesis by (intro exI[of _ Faulted]) simp
    next
      case False
      with l'(4) k line have "accounts l' ! k = accounts ?l2 ! k"
        by (simp add: lineage_faulted_def)
      then show ?thesis by (intro exI[of _ "account_phase (accounts ?l2 ! k)"]) simp
    qed
  qed
  moreover have "apply_overrun_validated l n obs = Ok (l', make_overrun_receipt obs ?b v)"
    using active s(1-3) l'(1) by (simp add: apply_overrun_validated_def Let_def r[symmetric])
  moreover have "lineage_faulted (accounts ?l2) (accounts l') (set (lineage (accounts l) i))"
    using l'(4) line by simp
  ultimately show thesis using that[OF _ s(2,4,5) l'(2,3) _ s(6)] by blast
qed

lemma finalize_result:
  assumes inv: "ledger_inv l" and find: "find_reservation l (reference_reservation_id ref) = Some n"
    and r: "r = reservations l ! n" and active: "reservation_phase r = Active"
    and binding: "request_action_id (request r) = reference_action_id ref"
      "request_action_digest (request r) = reference_action_digest ref"
    and final: "final_phase = SettledExact \<or> final_phase = SettledAmbiguous"
  obtains l' i v where "finalize_full_ceiling l ref op final_phase = Ok (l', receipt_new op Applied
        (request_budget_id (request r)) (Some (reference_reservation_id ref)) v amounts_zero None
        (Some (reference_evidence_digest ref)))"
    and "find_account l (request_budget_id (request r)) = Some i"
    and "settled l l' n i v (amt v) (r\<lparr>observed := reserve (request r), reservation_phase := final_phase,
        final_evidence := Some (reference_evidence_digest ref)\<rparr>)"
    and "\<And>d. amt (reserve (request r)) d = amt (observed r) d + amt v d" and "ledger_inv l'"
proof -
  let ?f = "\<lambda>x. x\<lparr>observed := reserve (request x), reservation_phase := final_phase,
        final_evidence := Some (reference_evidence_digest ref)\<rparr>"
  have n: "n < length (reservations l)" using find_reservation_bound[OF find] by simp
  have phase: "record_phase_valid (?f r)"
    using record_phase_ok[OF inv n] active final by (auto simp: record_phase_valid_def r[symmetric])
  have req: "request (?f r) = request r" and obs: "observed (?f r) = reserve (request r)" by simp_all
  have dead: "\<not> is_live (reservation_phase (?f r))" and live: "is_live (reservation_phase r)"
    using active final by (auto simp: is_live_def)
  obtain l1 i v where s: "outstanding_validated r = v"
    "find_account l (request_budget_id (request r)) = Some i"
    "charge_lineage (release_full_reservation l n v) (request_budget_id (request r)) v = Ok l1"
    "settled l (update_reservation l1 n ?f) n i v (amt v) (?f r)"
    "\<And>d. amt (reserve (request r)) d = amt (observed r) d + amt v d"
    "ledger_inv (update_reservation l1 n ?f)"
    "\<forall>k\<in>set (lineage (accounts l) i). account_phase (accounts l ! k) \<noteq> Closed"
    by (rule full_charge_result[OF inv n r live, of ?f, OF req obs dead phase]) (rule that)
  have "finalize_full_ceiling l ref op final_phase = Ok (update_reservation l1 n ?f,
      receipt_new op Applied (request_budget_id (request r)) (Some (reference_reservation_id ref)) v
        amounts_zero None (Some (reference_evidence_digest ref)))"
    using find active binding final s(1,3)
    by (auto simp: finalize_full_ceiling_def require_reservation_def require_reference_binding_def
        require_binding_def Let_def r[symmetric])
  then show thesis using that s(2,4,5,6) by blast
qed

lemma cancel_result:
  assumes inv: "ledger_inv l" and find: "find_reservation l (reference_reservation_id ref) = Some n"
    and r: "r = reservations l ! n" and held: "reservation_phase r = Held"
    and binding: "request_action_id (request r) = reference_action_id ref"
      "request_action_digest (request r) = reference_action_digest ref"
  obtains l' i where "cancel_held l ref = Ok (l', receipt_new CancelHeldOperation Applied
        (request_budget_id (request r)) (Some (reference_reservation_id ref)) amounts_zero
        (reserve (request r)) None (Some (reference_evidence_digest ref)))"
    and "find_account l (request_budget_id (request r)) = Some i"
    and "settled l l' n i amounts_zero (amt (reserve (request r))) (r\<lparr>reservation_phase := CancelledHeld,
        final_evidence := Some (reference_evidence_digest ref)\<rparr>)"
    and "ledger_inv l'"
proof -
  let ?f = "\<lambda>x. x\<lparr>reservation_phase := CancelledHeld,
        final_evidence := Some (reference_evidence_digest ref)\<rparr>"
  let ?b = "request_budget_id (request r)"
  have n: "n < length (reservations l)" using find_reservation_bound[OF find] by simp
  have live: "is_live (reservation_phase (reservations l ! n))" using held r by (simp add: is_live_def)
  have valid: "record_phase_valid r" using record_phase_ok[OF inv n] r by simp
  with held have zero: "observed r = amounts_zero"
    by (simp add: record_phase_valid_def amounts_is_zero_eq)
  obtain i where i: "find_account l (request_budget_id (request (reservations l ! n))) = Some i"
    "\<forall>k\<in>set (lineage (accounts l) i). account_phase (accounts l ! k) \<noteq> Closed"
    "\<And>d. outstanding_units (reservations l ! n) d \<le> amt (operation_reserved (accounts l ! i)) d"
    by (rule live_reservation[OF inv n live]) (rule that)
  have ib: "i < length (accounts l)" using find_account_bound[OF i(1)] by simp
  have out: "outstanding_units (reservations l ! n) d = amt (reserve (request r)) d" for d
    using live zero by (simp add: outstanding_units_def r[symmetric])
  obtain left where left: "release_full_reservation l n (reserve (request r))
      = update_account l i (\<lambda>a. a\<lparr>operation_reserved := left\<rparr>)"
    "\<And>d. amt left d + amt (reserve (request r)) d = amt (operation_reserved (accounts l ! i)) d"
    using release_result[OF i(1)] i(3) out by metis
  let ?l1 = "update_account l i (\<lambda>a. a\<lparr>operation_reserved := left\<rparr>)"
  let ?l' = "update_reservation ?l1 n ?f"
  have eff: "account_effect (accounts l) (accounts ?l1) i amounts_zero (amt (reserve (request r)))"
    by (rule lower_effect[OF ib left(2)])
  have settled: "settled l ?l' n i amounts_zero (amt (reserve (request r))) (?f r)"
    unfolding r by (rule settledI) (use eff r in simp_all)
  have books: "books_ok (root_id l) (accounts ?l')"
  proof -
    have "books_ok (root_id l) (accounts ?l1)"
      by (rule effect_books[OF ledger_inv_books[OF inv] eff ib i(2)])
        (use books_capacity[OF ledger_inv_books[OF inv] ib] in
          \<open>auto intro: order_trans[OF _ trans_le_add1] order_trans[OF le_add1]\<close>)
    then show ?thesis by simp
  qed
  have "ledger_inv ?l'"
  proof (rule settled_inv[OF inv n i(1) settled books])
    show "outstanding_units (reservations l ! n) d = outstanding_units (?f r) d + amt (reserve (request r)) d"
      for d using out[of d] by (simp add: outstanding_units_def is_live_def)
    show "record_phase_valid (?f r)" using valid held by (simp add: record_phase_valid_def)
  qed (use zero r in \<open>simp_all add: is_live_def fits_within_iff\<close>)
  moreover have "cancel_held l ref = Ok (?l', receipt_new CancelHeldOperation Applied ?b
      (Some (reference_reservation_id ref)) amounts_zero (reserve (request r)) None
      (Some (reference_evidence_digest ref)))"
    using find held binding left(1)
    by (simp add: cancel_held_def require_reservation_def require_reference_binding_def
        require_binding_def Let_def r[symmetric])
  ultimately show thesis using that[OF _ _ settled] i(1) r by simp
qed

section \<open>Activation and sealing\<close>

lemma effect_refl: "account_effect as as i amounts_zero (\<lambda>_. 0)"
  by (simp add: account_effect_def)

lemma activate_result:
  assumes inv: "ledger_inv l" and find: "find_reservation l (activation_reservation_id act) = Some n"
    and r: "r = reservations l ! n" and held: "reservation_phase r = Held"
    and binding: "request_action_id (request r) = activation_action_id act"
      "request_action_digest (request r) = activation_action_digest act"
  obtains l' i where "activate l act = Ok (l', bound_receipt ActivateOperation Applied
        (request_budget_id (request r)) (activation_reservation_id act) (activation_evidence_digest act))"
    and "find_account l (request_budget_id (request r)) = Some i"
    and "settled l l' n i amounts_zero (\<lambda>_. 0) (r\<lparr>reservation_phase := Active,
        activation_evidence := Some (activation_evidence_digest act)\<rparr>)"
    and "ledger_inv l'"
proof -
  let ?f = "\<lambda>x. x\<lparr>reservation_phase := Active,
        activation_evidence := Some (activation_evidence_digest act)\<rparr>"
  let ?l' = "update_reservation l n ?f"
  have n: "n < length (reservations l)" using find_reservation_bound[OF find] by simp
  have live: "is_live (reservation_phase (reservations l ! n))" using held r by (simp add: is_live_def)
  obtain i where i: "find_account l (request_budget_id (request (reservations l ! n))) = Some i"
    by (rule live_reservation[OF inv n live]) (rule that)
  have settled: "settled l ?l' n i amounts_zero (\<lambda>_. 0) (?f r)"
    unfolding r by (rule settledI) (simp_all add: effect_refl)
  have "ledger_inv ?l'"
  proof (rule settled_inv[OF inv n i settled])
    show "books_ok (root_id l) (accounts ?l')" using ledger_inv_books[OF inv] by simp
    show "outstanding_units (reservations l ! n) d = outstanding_units (?f r) d + 0" for d
      using held by (simp add: outstanding_units_def is_live_def r[symmetric])
    show "record_phase_valid (?f r)"
      using record_phase_ok[OF inv n] held by (simp add: record_phase_valid_def r[symmetric])
  qed (use live record_fits[OF inv n] r in \<open>simp_all add: fits_within_iff\<close>)
  moreover have "activate l act = Ok (?l', bound_receipt ActivateOperation Applied
        (request_budget_id (request r)) (activation_reservation_id act) (activation_evidence_digest act))"
    using find held binding
    by (simp add: activate_def require_reservation_def require_binding_def Let_def r[symmetric])
  ultimately show thesis using that[OF _ _ settled] i r by simp
qed

lemma seal_result:
  assumes inv: "ledger_inv l" and find: "find_account l b = Some i"
    and phase: "account_phase (accounts l ! i) = Open"
  shows "seal_validated l b = Ok (update_account l i (\<lambda>a. a\<lparr>account_phase := Draining\<rparr>),
      receipt SealOperation Applied b)" (is ?result)
    and "ledger_inv (update_account l i (\<lambda>a. a\<lparr>account_phase := Draining\<rparr>))" (is "ledger_inv ?l'")
proof -
  show ?result using assms by (simp add: seal_validated_def require_account_def)
  have i: "i < length (accounts l)" using find_account_bound[OF find] by simp
  show "ledger_inv ?l'"
  proof (rule phase_change_inv[OF inv])
    fix k assume "k < length (accounts l)"
    show "\<exists>p. accounts ?l' ! k = (accounts l ! k)\<lparr>account_phase := p\<rparr>
      \<and> (p = Closed \<longleftrightarrow> account_phase (accounts l ! k) = Closed)"
      using phase i by (intro exI[of _ "account_phase (accounts ?l' ! k)"])
        (auto simp: update_account_nth)
  qed simp_all
qed

section \<open>Closing\<close>

text \<open>
  \<open>account_closed as bs i u\<close>: account \<open>i\<close> is closed and its parent got back the unused capacity \<open>u\<close>.
\<close>

definition account_closed :: "budget_account list \<Rightarrow> budget_account list \<Rightarrow> nat \<Rightarrow> budget_amounts \<Rightarrow> bool" where
  "account_closed as bs i u \<longleftrightarrow> length bs = length as \<and> (\<forall>k<length as.
     same_static (as ! k) (bs ! k) \<and> consumed (bs ! k) = consumed (as ! k)
   \<and> operation_reserved (bs ! k) = operation_reserved (as ! k)
   \<and> account_phase (bs ! k) = (if k = i then Closed else account_phase (as ! k))
   \<and> (\<forall>d. amt (child_delegated_remaining (bs ! k)) d
        + (if parent_id (as ! i) = Some (account_id (as ! k)) then amt u d else 0)
        = amt (child_delegated_remaining (as ! k)) d))"

lemma account_closed_at:
  assumes "account_closed as bs i u" and "k < length as"
  shows "same_static (as ! k) (bs ! k)" and "consumed (bs ! k) = consumed (as ! k)"
    and "operation_reserved (bs ! k) = operation_reserved (as ! k)"
    and "account_phase (bs ! k) = (if k = i then Closed else account_phase (as ! k))"
    and "amt (child_delegated_remaining (bs ! k)) d
        + (if parent_id (as ! i) = Some (account_id (as ! k)) then amt u d else 0)
        = amt (child_delegated_remaining (as ! k)) d"
  using assms by (simp_all add: account_closed_def)

lemma closed_child_total:
  assumes closed: "account_closed as bs i u" and i: "i < length as"
    and phase: "account_phase (as ! i) \<noteq> Closed" and u: "amt u d = unused_units (as ! i) d"
  shows "child_total bs b d + (if parent_id (as ! i) = Some b then amt u d else 0) = child_total as b d"
proof -
  have each: "(if child_contributes (bs ! c) b then unused_units (bs ! c) d else 0)
      + (if c = i then if parent_id (as ! i) = Some b then amt u d else 0 else 0)
      = (if child_contributes (as ! c) b then unused_units (as ! c) d else 0)" if c: "c < length as" for c
  proof -
    note f = account_closed_at[OF closed c]
    have "unused_units (bs ! c) d = unused_units (as ! c) d"
      using f(1,2) by (simp add: unused_units_def same_static_def)
    with f(1,4) phase u show ?thesis
      by (cases "c = i") (simp_all add: child_contributes_iff same_static_def)
  qed
  have "child_total bs b d + (if parent_id (as ! i) = Some b then amt u d else 0)
      = (\<Sum>c<length as. (if child_contributes (bs ! c) b then unused_units (bs ! c) d else 0)
        + (if c = i then if parent_id (as ! i) = Some b then amt u d else 0 else 0))"
    using closed i by (simp add: child_total_sum sum.distrib account_closed_def)
  also have "\<dots> = child_total as b d"
    unfolding child_total_sum by (rule sum.cong) (use each in auto)
  finally show ?thesis .
qed

lemma closed_inv:
  assumes inv: "ledger_inv l" and closed: "account_closed (accounts l) (accounts l') i u"
    and i: "i < length (accounts l)" and phase: "account_phase (accounts l ! i) \<noteq> Closed"
    and u: "\<And>d. amt u d = unused_units (accounts l ! i) d"
    and idle: "\<not> has_live_work l (account_id (accounts l ! i))"
    and root: "root_id l' = root_id l" and resv: "reservations l' = reservations l"
  shows "ledger_inv l'"
proof -
  note books = ledger_inv_books[OF inv]
  have len: "length (accounts l') = length (accounts l)" using closed by (simp add: account_closed_def)
  note at = account_closed_at[OF closed]
  have "capacity_ok (accounts l' ! k)" if k: "k < length (accounts l)" for k
    unfolding capacity_ok_def
  proof
    fix d
    show "amt (consumed (accounts l' ! k)) d + amt (operation_reserved (accounts l' ! k)) d
     + amt (child_delegated_remaining (accounts l' ! k)) d \<le> amt (limit_amounts (limits (accounts l' ! k))) d"
      using books_capacity[OF books k, of d] at(1-3)[OF k] at(5)[OF k, of d] by (simp add: same_static_def)
  qed
  moreover have "amt (child_delegated_remaining (accounts l' ! k)) d
      = child_total (accounts l') (account_id (accounts l' ! k)) d" if k: "k < length (accounts l)" for k d
    using closed_child_total[OF closed i phase u, of "account_id (accounts l ! k)" d] at(1)[OF k] at(5)[OF k, of d]
      books_delegation[OF books k, of d] by (simp add: same_static_def)
  ultimately have books': "books_ok (root_id l) (accounts l')"
    using tree_shape_cong[OF len at(1) ledger_inv_tree[OF inv]] len
    by (auto simp: books_ok_def capacities_ok_def delegation_ok_def in_set_conv_nth)
  show ?thesis
  proof (rule later_inv[OF inv root books' len])
    show "\<not> has_live_work l (account_id (accounts l ! k))"
      if "k < length (accounts l)" "account_phase (accounts l' ! k) = Closed" for k
      using that at(4)[OF that(1)] idle ledger_inv_quiet[OF inv] by (auto split: if_splits)
    show "same_static (accounts l ! k) (accounts l' ! k)
       \<and> (account_phase (accounts l ! k) = Closed \<longrightarrow> account_phase (accounts l' ! k) = Closed)"
      if k: "k < length (accounts l)" for k
      using at(1)[OF k] at(4)[OF k] by simp
    show "amt (operation_reserved (accounts l' ! k)) d
        = reserved_total (reservations l') (account_id (accounts l ! k)) d"
      if k: "k < length (accounts l)" for k d
      unfolding at(3)[OF k] resv by (rule ledger_inv_reserved[OF inv k])
    show "fits_within (observed (reservations l' ! j)) (reserve (request (reservations l ! j)))
      \<and> record_phase_valid (reservations l' ! j)" if "j < length (reservations l)" for j
      using ledger_inv_record[OF inv that] by (simp add: resv record_ok_def)
  qed (simp_all add: resv)
qed

end
