(* ===== verification/Budget_Growth.thy ===== *)
theory Budget_Growth
  imports Budget_Steps
begin

text \<open>
  The remaining operations on a valid ledger: closing an account, and the two that append,
  child allocation and begin.
\<close>

section \<open>Closing an account\<close>

lemma close_result:
  assumes inv: "ledger_inv l" and find: "find_account l b = Some i"
    and phase: "account_phase (accounts l ! i) = Draining \<or> account_phase (accounts l ! i) = Faulted"
    and idle: "\<not> has_live_work l b"
  obtains l' u where "close_validated l b
      = Ok (l', receipt_new CloseOperation Applied b None amounts_zero u None None)"
    and "account_closed (accounts l) (accounts l') i u"
    and "\<And>d. amt u d = unused_units (accounts l ! i) d"
    and "root_id l' = root_id l" and "reservations l' = reservations l" and "ledger_inv l'"
proof -
  let ?as = "accounts l" and ?a = "accounts l ! i"
  note books = ledger_inv_books[OF inv] and tree = ledger_inv_tree[OF inv]
  have i: "i < length ?as" "account_id ?a = b" using find_account_bound[OF find] by simp_all
  have "amt (consumed ?a) d \<le> amt (limit_amounts (limits ?a)) d" for d
    using books_capacity[OF books i(1), of d] by linarith
  then obtain u where u: "amounts_checked_sub (limit_amounts (limits ?a)) (consumed ?a) = Ok u"
    "\<And>d. amt u d = unused_units ?a d"
    unfolding unused_units_def using amounts_checked_sub_exists by metis
  have live: "account_phase ?a \<noteq> Closed" using phase by auto
  have close: "close_validated l b = close_apply l b i"
    using find phase by (auto simp: close_validated_def require_account_def)
  note finish = that
  have result: thesis if "close_apply l b i = Ok (l', receipt_new CloseOperation Applied b None amounts_zero u None None)"
    and c: "account_closed ?as (accounts l') i u" and "root_id l' = root_id l"
    and "reservations l' = reservations l" for l'
  proof (rule finish[OF _ c u(2) that(3,4)])
    show "close_validated l b = Ok (l', receipt_new CloseOperation Applied b None amounts_zero u None None)"
      using close that(1) by simp
    show "ledger_inv l'"
      using closed_inv[OF inv c i(1) live u(2) _ that(3,4)] idle i(2) by simp
  qed
  show thesis
  proof (cases "parent_id ?a")
    case None
    let ?l' = "update_account l i (\<lambda>a. a\<lparr>account_phase := Closed\<rparr>)"
    show thesis
    proof (rule result[of ?l'])
      show "close_apply l b i = Ok (?l', receipt_new CloseOperation Applied b None amounts_zero u None None)"
        using None u(1) idle by (simp add: close_apply_def)
      show "account_closed ?as (accounts ?l') i u"
        using None i by (auto simp: account_closed_def update_account_nth same_static_def)
    qed simp_all
  next
    case (Some p)
    with tree i(1) obtain j where j: "j < i" "account_index_of ?as p = Some j" "account_id (?as ! j) = p"
      by (rule tree_parent)
    have "amt u d \<le> amt (child_delegated_remaining (?as ! j)) d" for d
      using child_total_member[OF i(1) Some live, of d] books_delegation[OF books, of j d] j i(1) u(2)
      by simp
    then obtain e where e: "amounts_checked_sub (child_delegated_remaining (?as ! j)) u = Ok e"
      "\<And>d. amt e d = amt (child_delegated_remaining (?as ! j)) d - amt u d"
      "\<And>d. amt e d + amt u d = amt (child_delegated_remaining (?as ! j)) d"
      using amounts_checked_sub_exists[of u "child_delegated_remaining (?as ! j)"]
      by (metis le_add_diff_inverse2)
    let ?l1 = "update_account l j (\<lambda>a. a\<lparr>child_delegated_remaining := e\<rparr>)"
    let ?l' = "update_account ?l1 i (\<lambda>a. a\<lparr>account_phase := Closed\<rparr>)"
    have nth: "accounts ?l' ! k = (if k = i then ?a\<lparr>account_phase := Closed\<rparr>
        else if k = j then (?as ! j)\<lparr>child_delegated_remaining := e\<rparr> else ?as ! k)" for k
      using i(1) j(1) by (simp add: update_account_nth)
    have parent: "Some p = Some (account_id (?as ! k)) \<longleftrightarrow> k = j" if "k < length ?as" for k
      using tree_nth_inject[OF tree that, of j] j i(1) by auto
    show thesis
    proof (rule result[of ?l'])
      show "close_apply l b i = Ok (?l', receipt_new CloseOperation Applied b None amounts_zero u None None)"
        using Some u(1) e(1) idle j by (simp add: close_apply_def find_account_def)
      show "account_closed ?as (accounts ?l') i u"
        unfolding account_closed_def Some
      proof (intro conjI allI impI)
        fix k d assume k: "k < length ?as"
        show "amt (child_delegated_remaining (accounts ?l' ! k)) d
          + (if Some p = Some (account_id (?as ! k)) then amt u d else 0)
          = amt (child_delegated_remaining (?as ! k)) d"
          unfolding parent[OF k] nth using j(1) e(3) by simp
      qed (use j(1) in \<open>simp_all add: nth same_static_def\<close>)
    qed simp_all
  qed
qed

section \<open>Begin\<close>

definition new_record :: "budget_request \<Rightarrow> reservation_record" where
  "new_record q = \<lparr>request = q, observed = amounts_zero,
     reservation_phase = (if amounts_is_zero (reserve q) then SettledExact else Held),
     activation_evidence = None, observation_evidence = None, final_evidence = None,
     final_reported = None, finality = None\<rparr>"

lemma new_record_simps [simp]:
  "request (new_record q) = q" "observed (new_record q) = amounts_zero"
  "outstanding_units (new_record q) d = amt (reserve q) d"
  by (auto simp: new_record_def outstanding_units_def is_live_def amounts_is_zero_iff)

lemma new_record_valid: "record_phase_valid (new_record q)"
  by (auto simp: new_record_def record_phase_valid_def amounts_is_zero_eq)

text \<open>
  \<open>begun l l' i q\<close>: \<open>consume_now\<close> is charged to the lineage of account \<open>i\<close>, \<open>reserve\<close> is held by it,
  and the request is recorded.
\<close>

definition begun :: "budget_ledger \<Rightarrow> budget_ledger \<Rightarrow> nat \<Rightarrow> budget_request \<Rightarrow> bool" where
  "begun l l' i q \<longleftrightarrow> root_id l' = root_id l \<and> length (accounts l') = length (accounts l)
     \<and> reservations l' = reservations l @ [new_record q] \<and> (\<forall>k<length (accounts l).
     same_static (accounts l ! k) (accounts l' ! k)
   \<and> account_phase (accounts l' ! k) = account_phase (accounts l ! k)
   \<and> (\<forall>d. amt (consumed (accounts l' ! k)) d = amt (consumed (accounts l ! k)) d
        + (if k \<in> set (lineage (accounts l) i) then amt (consume_now q) d else 0))
   \<and> (\<forall>d. amt (child_delegated_remaining (accounts l' ! k)) d
        + (if k \<in> set (lineage (accounts l) i) \<and> k \<noteq> i then amt (consume_now q) d else 0)
        = amt (child_delegated_remaining (accounts l ! k)) d)
   \<and> (\<forall>d. amt (operation_reserved (accounts l' ! k)) d = amt (operation_reserved (accounts l ! k)) d
        + (if k = i then amt (reserve q) d else 0)))"

lemma begun_at:
  assumes "begun l l' i q" and "k < length (accounts l)"
  shows "same_static (accounts l ! k) (accounts l' ! k)"
    and "account_phase (accounts l' ! k) = account_phase (accounts l ! k)"
    and "amt (consumed (accounts l' ! k)) d = amt (consumed (accounts l ! k)) d
        + (if k \<in> set (lineage (accounts l) i) then amt (consume_now q) d else 0)"
    and "amt (operation_reserved (accounts l' ! k)) d = amt (operation_reserved (accounts l ! k)) d
        + (if k = i then amt (reserve q) d else 0)"
  using assms by (simp_all add: begun_def)

lemma raise_books:
  assumes books: "books_ok root as" and i: "i < length as"
    and bs: "bs = as[i := (as ! i)\<lparr>operation_reserved := v\<rparr>]"
    and room: "\<And>d. amt (consumed (as ! i)) d + amt v d + amt (child_delegated_remaining (as ! i)) d
      \<le> amt (limit_amounts (limits (as ! i))) d"
  shows "books_ok root bs"
proof -
  have nth: "bs ! k = (if k = i then (as ! i)\<lparr>operation_reserved := v\<rparr> else as ! k)" for k
    using i by (simp add: bs nth_list_update)
  have len: "length bs = length as" by (simp add: bs)
  have static: "same_static (as ! k) (bs ! k)" for k by (simp add: nth same_static_def)
  have totals: "child_total bs b d = child_total as b d" for b d
    unfolding child_total_def
    by (rule sum_list_cong_nth[OF len]) (auto simp: nth child_contributes_iff unused_units_def)
  have "capacity_ok (bs ! k)" if "k < length as" for k
    using books_capacity[OF books that] room by (simp add: nth capacity_ok_def)
  moreover have "amt (child_delegated_remaining (bs ! k)) d = child_total bs (account_id (bs ! k)) d"
    if "k < length as" for k d
    using books_delegation[OF books that, of d] by (auto simp: nth totals)
  ultimately show ?thesis
    using tree_shape_cong[OF len static books_tree[OF books]] len
    by (auto simp: books_ok_def capacities_ok_def delegation_ok_def in_set_conv_nth)
qed

lemma reserved_total_append:
  "reserved_total (rs @ [r]) b d
     = reserved_total rs b d + (if request_budget_id (request r) = b then outstanding_units r d else 0)"
  by (simp add: reserved_total_def)

lemma history_append: "history_ok (rs @ [r]) \<longleftrightarrow> history_ok rs \<and> attempt_ok rs (request r)"
  by (auto simp: history_ok_def nth_append less_Suc_eq)

lemma begun_inv:
  assumes inv: "ledger_inv l" and find: "find_account l (request_budget_id q) = Some i"
    and opened: "account_phase (accounts l ! i) = Open"
    and rv: "revision (accounts l ! i) = request_revision q"
    and fresh: "find_reservation l (request_reservation_id q) = None"
    and attempt: "attempt_ok (reservations l) q"
    and begun: "begun l l' i q" and books: "books_ok (root_id l) (accounts l')"
  shows "ledger_inv l'"
proof -
  have i: "i < length (accounts l)" "account_id (accounts l ! i) = request_budget_id q"
    using find_account_bound[OF find] by simp_all
  have len: "length (accounts l') = length (accounts l)" and root: "root_id l' = root_id l"
    and rs: "reservations l' = reservations l @ [new_record q]" using begun by (simp_all add: begun_def)
  note at = begun_at[OF begun]
  have ids: "account_id (accounts l' ! k) = account_id (accounts l ! k)" if "k < length (accounts l)" for k
    using at(1)[OF that] by (simp add: same_static_def)
  have same: "request_budget_id q = account_id (accounts l ! k) \<longleftrightarrow> k = i" if "k < length (accounts l)" for k
    using tree_nth_inject[OF ledger_inv_tree[OF inv] that i(1)] i(2) by auto
  have "amt (operation_reserved (accounts l' ! k)) d = reserved_total (reservations l') (account_id (accounts l' ! k)) d"
    if k: "k < length (accounts l)" for k d
    using at(4)[OF k, of d] ledger_inv_reserved[OF inv k, of d] ids[OF k] same[OF k]
    by (simp add: rs reserved_total_append)
  then have "reserved_ok l'" using len by (auto simp: reserved_ok_def in_set_conv_nth)
  moreover have "\<not> has_live_work l' (account_id (accounts l' ! k))"
    if k: "k < length (accounts l)" and closed: "account_phase (accounts l' ! k) = Closed" for k
  proof
    assume "has_live_work l' (account_id (accounts l' ! k))"
    moreover have "request_budget_id q \<noteq> account_id (accounts l ! k)"
      using same[OF k] opened closed at(2)[OF k] by auto
    ultimately have "has_live_work (l'\<lparr>reservations := reservations l\<rparr>) (account_id (accounts l ! k))"
      unfolding has_live_work_iff ids[OF k] rs by auto
    then have "has_live_work l (account_id (accounts l ! k))"
      by (rule has_live_work_later[OF len, rotated -1]) (use at(1,2) in simp_all)
    then show False using ledger_inv_quiet[OF inv k] at(2)[OF k] closed by simp
  qed
  then have "quiescent_ok l'" using len by (auto simp: quiescent_ok_def in_set_conv_nth)
  moreover have "request_reservation_id q \<notin> reservation_key ` set (reservations l)"
    using fresh reservation_table.find_None_iff by (simp add: find_reservation_def)
  then have "distinct (map reservation_key (reservations l'))"
    using inv by (simp add: rs ledger_inv_def reservation_key_def)
  moreover have "record_ok (accounts l') r" if "r \<in> set (reservations l')" for r
  proof (rule record_ok_static[OF _ len at(1)])
    from that consider "r \<in> set (reservations l)" | "r = new_record q" by (auto simp: rs)
    then show "record_ok (accounts l) r"
    proof cases
      case 2
      then show ?thesis using i rv nth_mem[OF i(1)] new_record_valid
        by (auto simp: record_ok_def fits_within_iff)
    qed (use inv in \<open>simp add: ledger_inv_def\<close>)
  qed
  moreover have "history_ok (reservations l')"
    using inv attempt by (simp add: rs history_append ledger_inv_def)
  ultimately show ?thesis using books root by (simp add: ledger_inv_def books_ok_def)
qed

lemma begin_result:
  assumes inv: "ledger_inv l" and find: "find_account l (request_budget_id q) = Some i"
    and chain: "\<forall>k\<in>set (lineage (accounts l) i). account_phase (accounts l ! k) = Open"
    and rv: "revision (accounts l ! i) = request_revision q"
    and fresh: "find_reservation l (request_reservation_id q) = None"
    and attempt: "attempt_ok (reservations l) q"
    and room: "\<And>d. amt (consumed (accounts l ! i)) d + amt (operation_reserved (accounts l ! i)) d
      + amt (child_delegated_remaining (accounts l ! i)) d + amt (consume_now q) d + amt (reserve q) d
      \<le> amt (limit_amounts (limits (accounts l ! i))) d"
  obtains l' where "apply_new_begin l i q = Ok (l', receipt_new BeginOperation Applied
        (request_budget_id q) (Some (request_reservation_id q)) (consume_now q) amounts_zero None None)"
    and "begun l l' i q" and "ledger_inv l'"
proof -
  let ?as = "accounts l" and ?v = "consume_now q"
  note books = ledger_inv_books[OF inv]
  have i: "i < length ?as" using find_account_bound[OF find] by simp
  have live: "\<forall>k\<in>set (lineage ?as i). account_phase (?as ! k) \<noteq> Closed" using chain by auto
  have "amt ?v d \<le> unused_units (?as ! i) d" for d
    using room[of d] by (simp add: unused_units_def)
  then obtain l1 where l1: "charge_lineage l (request_budget_id q) ?v = Ok l1" "root_id l1 = root_id l"
    "reservations l1 = reservations l"
    "lineage_charged ?as (accounts l1) (set (lineage ?as i)) (set (lineage ?as i) - {i}) ?v"
    by (rule charge_exists[OF books find live])
  have eff: "account_effect ?as (accounts l1) i ?v (\<lambda>_. 0)"
    by (rule charged_effect[OF effect_refl i l1(4)])
  note at = account_effect_at[OF eff]
  have books1: "books_ok (root_id l) (accounts l1)"
  proof (rule effect_books[OF books eff i live])
    fix d
    show "amt (consumed (?as ! i)) d + amt ?v d + amt (operation_reserved (?as ! i)) d
       + amt (child_delegated_remaining (?as ! i)) d \<le> amt (limit_amounts (limits (?as ! i))) d + 0"
      "amt (consumed (?as ! i)) d + amt ?v d \<le> amt (limit_amounts (limits (?as ! i))) d"
      using room[of d] by simp_all
  qed
  have room1: "amt (consumed (accounts l1 ! i)) d
      + (amt (operation_reserved (accounts l1 ! i)) d + amt (reserve q) d)
      + amt (child_delegated_remaining (accounts l1 ! i)) d
      \<le> amt (limit_amounts (limits (accounts l1 ! i))) d" for d
    using at(1)[OF i] at(3,4,5)[OF i, of d] room[of d] by (simp add: same_static_def)
  have "amt (operation_reserved (accounts l1 ! i)) d + amt (reserve q) d < 2 ^ 64" for d
    using room1[of d] amt_less[of "limit_amounts (limits (accounts l1 ! i))" d] by linarith
  then obtain h where h: "amounts_checked_add (operation_reserved (accounts l1 ! i)) (reserve q) = Ok h"
    "\<And>d. amt h d = amt (operation_reserved (accounts l1 ! i)) d + amt (reserve q) d"
    using amounts_checked_add_exists by blast
  let ?l2 = "update_account l1 i (\<lambda>a. a\<lparr>operation_reserved := h\<rparr>)"
  let ?l' = "?l2\<lparr>reservations := reservations ?l2 @ [new_record q]\<rparr>"
  have i1: "i < length (accounts l1)" using i account_effect_static(1)[OF eff] by simp
  have books': "books_ok (root_id l) (accounts ?l')"
    by (rule raise_books[OF books1 i1, of _ h])
      (use room1 h(2) in \<open>simp_all add: update_account_def\<close>)
  have begun: "begun l ?l' i q"
    unfolding begun_def
  proof (intro conjI allI impI)
    fix k d assume k: "k < length ?as"
    note f = at(1,2)[OF k] at(3,4,5)[OF k, of d]
    have nth: "accounts ?l2 ! k = (if k = i then (accounts l1 ! i)\<lparr>operation_reserved := h\<rparr> else accounts l1 ! k)"
      using i1 by (simp add: update_account_nth)
    show "same_static (?as ! k) (accounts ?l' ! k)"
      using f(1) by (auto simp: nth same_static_def)
    show "account_phase (accounts ?l' ! k) = account_phase (?as ! k)" using f(2) by (auto simp: nth)
    show "amt (consumed (accounts ?l' ! k)) d
      = amt (consumed (?as ! k)) d + (if k \<in> set (lineage ?as i) then amt ?v d else 0)"
      using f(3) by (auto simp: nth)
    show "amt (child_delegated_remaining (accounts ?l' ! k)) d
      + (if k \<in> set (lineage ?as i) \<and> k \<noteq> i then amt ?v d else 0)
      = amt (child_delegated_remaining (?as ! k)) d"
      using f(4) by (auto simp: nth)
    show "amt (operation_reserved (accounts ?l' ! k)) d
      = amt (operation_reserved (?as ! k)) d + (if k = i then amt (reserve q) d else 0)"
      using f(5) h(2)[of d] by (auto simp: nth)
  qed (use l1 account_effect_static(1)[OF eff] in simp_all)
  have "ledger_inv ?l'"
    using begun_inv[OF inv find _ rv fresh attempt begun books'] chain lineage_self by blast
  moreover have "apply_new_begin l i q = Ok (?l', receipt_new BeginOperation Applied
        (request_budget_id q) (Some (request_reservation_id q)) ?v amounts_zero None None)"
    using l1(1) h(1) by (simp add: apply_new_begin_def Let_def new_record_def)
  ultimately show thesis using that begun by blast
qed

section \<open>Child allocation\<close>

definition new_child :: "child_budget_request \<Rightarrow> budget_account" where
  "new_child q = \<lparr>account_id = child_id q, parent_id = Some (child_parent_id q),
     revision = child_revision q, limits = child_limits q, consumed = amounts_zero,
     operation_reserved = amounts_zero, child_delegated_remaining = amounts_zero, account_phase = Open\<rparr>"

text \<open>\<open>allocated l l' i q\<close>: a fresh child was appended and account \<open>i\<close> delegates its whole ceiling.\<close>

definition allocated :: "budget_ledger \<Rightarrow> budget_ledger \<Rightarrow> nat \<Rightarrow> child_budget_request \<Rightarrow> bool" where
  "allocated l l' i q \<longleftrightarrow> root_id l' = root_id l \<and> reservations l' = reservations l
     \<and> (\<exists>e. accounts l' = (accounts l)[i := (accounts l ! i)\<lparr>child_delegated_remaining := e\<rparr>] @ [new_child q]
        \<and> (\<forall>d. amt e d = amt (child_delegated_remaining (accounts l ! i)) d
             + amt (limit_amounts (child_limits q)) d))"

lemma tree_append:
  assumes "tree_shape root as" and "i < length as" and "account_id a \<notin> account_id ` set as"
    and "parent_id a = Some (account_id (as ! i))" and "revision a = revision (as ! i)"
  shows "tree_shape root (as @ [a])"
proof -
  have "\<exists>j<k. parent_id ((as @ [a]) ! k) = Some (account_id ((as @ [a]) ! j))
     \<and> revision ((as @ [a]) ! k) = revision ((as @ [a]) ! j)" if k: "k < length (as @ [a])" "0 < k" for k
  proof (cases "k = length as")
    case True
    with assms(2,4,5) show ?thesis by (intro exI[of _ i]) (simp add: nth_append)
  next
    case False
    with k have "k < length as" by simp
    with assms(1) k(2) obtain j where "j < k" "parent_id (as ! k) = Some (account_id (as ! j))"
      "revision (as ! k) = revision (as ! j)" unfolding tree_shape_def by blast
    with \<open>k < length as\<close> show ?thesis by (intro exI[of _ j]) (simp add: nth_append)
  qed
  with assms(1,3) show ?thesis by (auto simp: tree_shape_def nth_append)
qed

lemma new_child_simps [simp]:
  "account_id (new_child q) = child_id q" "parent_id (new_child q) = Some (child_parent_id q)"
  "account_phase (new_child q) = Open" "limits (new_child q) = child_limits q"
  "consumed (new_child q) = amounts_zero" "operation_reserved (new_child q) = amounts_zero"
  "child_delegated_remaining (new_child q) = amounts_zero" "revision (new_child q) = child_revision q"
  by (simp_all add: new_child_def)

lemma allocated_nth:
  assumes "allocated l l' i q" and "i < length (accounts l)"
  shows "length (accounts l') = Suc (length (accounts l))"
    and "accounts l' ! length (accounts l) = new_child q"
    and "k < length (accounts l) \<Longrightarrow> same_static (accounts l ! k) (accounts l' ! k)
      \<and> consumed (accounts l' ! k) = consumed (accounts l ! k)
      \<and> operation_reserved (accounts l' ! k) = operation_reserved (accounts l ! k)
      \<and> account_phase (accounts l' ! k) = account_phase (accounts l ! k)
      \<and> amt (child_delegated_remaining (accounts l' ! k)) d = amt (child_delegated_remaining (accounts l ! k)) d
         + (if k = i then amt (limit_amounts (child_limits q)) d else 0)"
  using assms by (auto simp: allocated_def nth_append nth_list_update same_static_def)

lemma all_nth_Suc: "length xs = Suc n \<Longrightarrow> (\<forall>x\<in>set xs. P x) \<longleftrightarrow> (\<forall>k<n. P (xs ! k)) \<and> P (xs ! n)"
  by (auto simp: all_set_conv_all_nth less_Suc_eq)

lemma child_total_fresh:
  assumes "tree_shape root as" and "c \<notin> account_id ` set as"
  shows "child_total as c d = 0"
proof -
  have "parent_id a \<noteq> Some c" if a: "a \<in> set as" for a
  proof
    assume par: "parent_id a = Some c"
    from a obtain k where "k < length as" "a = as ! k" by (auto simp: in_set_conv_nth)
    with assms(1) par obtain j where "j < k" "account_id (as ! j) = c" by (metis tree_parent)
    with \<open>k < length as\<close> assms(2) show False by (metis image_eqI less_trans nth_mem)
  qed
  then show ?thesis by (auto simp: child_total_def child_contributes_iff intro!: sum_list_eq_0_nat)
qed

lemma allocated_child_total:
  assumes "allocated l l' i q" and "i < length (accounts l)"
  shows "child_total (accounts l') b d = child_total (accounts l) b d
      + (if b = child_parent_id q then amt (limit_amounts (child_limits q)) d else 0)"
proof -
  obtain e where acc: "accounts l' = (accounts l)[i := (accounts l ! i)\<lparr>child_delegated_remaining := e\<rparr>]
      @ [new_child q]" (is "_ = ?bs @ _") using assms(1) by (auto simp: allocated_def)
  have "child_total ?bs b d = child_total (accounts l) b d"
    unfolding child_total_def
    by (rule sum_list_cong_nth) (auto simp: nth_list_update assms(2) child_contributes_iff unused_units_def)
  then show ?thesis by (simp add: acc child_total_def child_contributes_iff unused_units_def)
qed

lemma allocated_books:
  assumes inv: "ledger_inv l" and find: "find_account l (child_parent_id q) = Some i"
    and rv: "revision (accounts l ! i) = child_revision q"
    and fresh: "child_id q \<notin> account_id ` set (accounts l)"
    and room: "\<And>d. amt (consumed (accounts l ! i)) d + amt (operation_reserved (accounts l ! i)) d
      + amt (child_delegated_remaining (accounts l ! i)) d + amt (limit_amounts (child_limits q)) d
      \<le> amt (limit_amounts (limits (accounts l ! i))) d"
    and step: "allocated l l' i q"
  shows "books_ok (root_id l) (accounts l')"
proof -
  let ?as = "accounts l" and ?bs = "butlast (accounts l')"
  note books = ledger_inv_books[OF inv] and tree = ledger_inv_tree[OF inv]
  have i: "i < length ?as" "account_id (?as ! i) = child_parent_id q"
    using find_account_bound[OF find] by simp_all
  note at = allocated_nth[OF step i(1)] and totals = allocated_child_total[OF step i(1)]
  have same: "account_id (?as ! k) = child_parent_id q \<longleftrightarrow> k = i" if "k < length ?as" for k
    using tree_nth_inject[OF tree that i(1)] i(2) by auto
  have split: "accounts l' = ?bs @ [new_child q]" and len: "length ?bs = length ?as"
    using step by (auto simp: allocated_def)
  have nth: "?bs ! k = accounts l' ! k" if "k < length ?as" for k
    using that len at(1) by (simp add: nth_butlast)
  have static: "same_static (?as ! k) (?bs ! k)" if "k < length ?as" for k
    using at(3)[OF that] nth[OF that] by simp
  have "map account_id ?bs = map account_id ?as"
    by (rule nth_equalityI) (use len static in \<open>auto simp: same_static_def\<close>)
  then have ids: "account_id ` set ?bs = account_id ` set ?as" by (metis set_map)
  have "tree_shape (root_id l) (?bs @ [new_child q])"
    by (rule tree_append[OF tree_shape_cong[OF len static tree], of i])
      (use ids fresh i rv static[OF i(1)] len in \<open>simp_all add: same_static_def\<close>)
  then have "tree_shape (root_id l) (accounts l')" using split by simp
  moreover have "capacities_ok (accounts l')"
    unfolding capacities_ok_def all_nth_Suc[OF at(1)] capacity_ok_def
  proof (intro conjI allI impI)
    fix k d assume k: "k < length ?as"
    show "amt (consumed (accounts l' ! k)) d + amt (operation_reserved (accounts l' ! k)) d
      + amt (child_delegated_remaining (accounts l' ! k)) d \<le> amt (limit_amounts (limits (accounts l' ! k))) d"
      using books_capacity[OF books k, of d] room[of d] at(3)[OF k, of d] by (simp add: same_static_def)
  qed (simp add: at(2))
  moreover have "delegation_ok (accounts l')"
    unfolding delegation_ok_def all_nth_Suc[OF at(1)]
  proof (intro conjI allI impI)
    fix k d assume k: "k < length ?as"
    show "amt (child_delegated_remaining (accounts l' ! k)) d
       = child_total (accounts l') (account_id (accounts l' ! k)) d"
      using books_delegation[OF books k, of d] at(3)[OF k, of d] same[OF k]
      by (simp add: totals same_static_def)
  next
    fix d
    have "child_id q \<noteq> child_parent_id q" using fresh i nth_mem[OF i(1)] by (metis image_eqI)
    then show "amt (child_delegated_remaining (accounts l' ! length ?as)) d
       = child_total (accounts l') (account_id (accounts l' ! length ?as)) d"
      using child_total_fresh[OF tree fresh] by (simp add: at(2) totals)
  qed
  ultimately show ?thesis by (simp add: books_ok_def)
qed

lemma allocated_inv:
  assumes inv: "ledger_inv l" and find: "find_account l (child_parent_id q) = Some i"
    and opened: "account_phase (accounts l ! i) = Open"
    and fresh: "child_id q \<notin> account_id ` set (accounts l)"
    and books: "books_ok (root_id l) (accounts l')" and step: "allocated l l' i q"
  shows "ledger_inv l'"
proof -
  let ?as = "accounts l"
  have i: "i < length ?as" "account_id (?as ! i) = child_parent_id q"
    using find_account_bound[OF find] by simp_all
  note at = allocated_nth[OF step i(1)]
  have rs: "reservations l' = reservations l" "root_id l' = root_id l"
    using step by (simp_all add: allocated_def)
  have ids: "account_id (accounts l' ! k) = account_id (?as ! k)" if "k < length ?as" for k
    using at(3)[OF that] by (simp add: same_static_def)
  have known: "request_budget_id (request r) \<noteq> child_id q" if "r \<in> set (reservations l)" for r
    using inv that fresh unfolding ledger_inv_def record_ok_def by (metis image_eqI)
  have "reserved_ok l'"
    unfolding reserved_ok_def all_nth_Suc[OF at(1)]
  proof (intro conjI allI impI)
    fix k d assume k: "k < length ?as"
    show "amt (operation_reserved (accounts l' ! k)) d
       = reserved_total (reservations l') (account_id (accounts l' ! k)) d"
      using ledger_inv_reserved[OF inv k] at(3)[OF k] by (simp add: rs ids[OF k])
  next
    fix d
    have "reserved_total (reservations l) (child_id q) d = 0"
      using known by (auto simp: reserved_total_def intro!: sum_list_eq_0_nat)
    then show "amt (operation_reserved (accounts l' ! length ?as)) d
       = reserved_total (reservations l') (account_id (accounts l' ! length ?as)) d"
      by (simp add: at(2) rs)
  qed
  moreover have "quiescent_ok l'"
    unfolding quiescent_ok_def all_nth_Suc[OF at(1)]
  proof (intro conjI allI impI)
    fix k assume k: "k < length ?as" and closed: "account_phase (accounts l' ! k) = Closed"
    have quiet: "\<not> has_live_work l (account_id (?as ! k))"
      using ledger_inv_quiet[OF inv k] at(3)[OF k] closed by simp
    have "account_id (?as ! k) \<noteq> child_parent_id q"
      using tree_nth_inject[OF ledger_inv_tree[OF inv] k i(1)] i(2) opened closed at(3)[OF k] by auto
    moreover have "\<exists>b\<in>set ?as. parent_id b = parent_id a \<and> account_phase b = account_phase a"
      if "a \<in> set (accounts l')" "a \<noteq> new_child q" for a
    proof -
      from that at(1,2) obtain j where j: "j < length ?as" "a = accounts l' ! j"
        by (auto simp: in_set_conv_nth less_Suc_eq)
      with at(3)[OF j(1)] show ?thesis
        by (intro bexI[of _ "?as ! j"]) (simp_all add: same_static_def)
    qed
    ultimately have "\<exists>b\<in>set ?as. parent_id b = Some (account_id (?as ! k)) \<and> account_phase b \<noteq> Closed"
      if "a \<in> set (accounts l')" "parent_id a = Some (account_id (?as ! k))" "account_phase a \<noteq> Closed" for a
      using that by (cases "a = new_child q") (simp, metis)
    then show "\<not> has_live_work l' (account_id (accounts l' ! k))"
      using quiet unfolding has_live_work_iff ids[OF k] rs by blast
  qed (simp add: at(2))
  moreover have "record_ok (accounts l') r" if r: "r \<in> set (reservations l)" for r
  proof -
    from r inv have "record_ok ?as r" by (simp add: ledger_inv_def)
    then obtain k where k: "k < length ?as" "account_id (?as ! k) = request_budget_id (request r)"
      "revision (?as ! k) = request_revision (request r)"
      by (auto simp: record_ok_def in_set_conv_nth)
    with at(3)[OF k(1)] have "account_id (accounts l' ! k) = request_budget_id (request r)"
      "revision (accounts l' ! k) = request_revision (request r)" "k < length (accounts l')"
      by (simp_all add: same_static_def at(1))
    with r inv show ?thesis unfolding ledger_inv_def record_ok_def by (metis nth_mem)
  qed
  ultimately show ?thesis using inv books by (simp add: ledger_inv_def books_ok_def rs)
qed

lemma allocate_result:
  assumes inv: "ledger_inv l" and find: "find_account l (child_parent_id q) = Some i"
    and chain: "\<forall>k\<in>set (lineage (accounts l) i). account_phase (accounts l ! k) = Open"
    and rv: "revision (accounts l ! i) = child_revision q"
    and fresh: "find_account l (child_id q) = None"
    and avail: "available (accounts l ! i) = Ok avail"
    and fits: "fits_within (limit_amounts (child_limits q)) avail"
  obtains l' where "allocate_child l q = Some (Ok (l', receipt_new AllocateChildOperation Applied
        (child_id q) None amounts_zero amounts_zero None None))"
    and "allocated l l' i q" and "ledger_inv l'"
proof -
  let ?as = "accounts l" and ?v = "limit_amounts (child_limits q)"
  have i: "i < length ?as" using find_account_bound[OF find] by simp
  have room: "amt (consumed (?as ! i)) d + amt (operation_reserved (?as ! i)) d
      + amt (child_delegated_remaining (?as ! i)) d + amt ?v d \<le> amt (limit_amounts (limits (?as ! i))) d"
    for d
    using avail fits by (simp add: available_Ok fits_within_iff)
  have "amt (child_delegated_remaining (?as ! i)) d + amt ?v d < 2 ^ 64" for d
    using room[of d] amt_less[of "limit_amounts (limits (?as ! i))" d] by linarith
  then obtain e where e: "amounts_checked_add (child_delegated_remaining (?as ! i)) ?v = Ok e"
    "\<And>d. amt e d = amt (child_delegated_remaining (?as ! i)) d + amt ?v d"
    using amounts_checked_add_exists by blast
  let ?l' = "l\<lparr>accounts := ?as[i := (?as ! i)\<lparr>child_delegated_remaining := e\<rparr>] @ [new_child q]\<rparr>"
  have step: "allocated l ?l' i q" using e(2) by (auto simp: allocated_def)
  have newid: "child_id q \<notin> account_id ` set ?as"
    using fresh account_table.find_None_iff by (simp add: find_account_def)
  have "ledger_inv ?l'"
    using allocated_inv[OF inv find _ newid allocated_books[OF inv find rv newid room step] step]
      chain lineage_self by blast
  moreover have "require_open_lineage l (child_parent_id q) = Some (Ok i)"
    using require_open_lineage_Ok[OF ledger_inv_tree[OF inv]] find chain by simp
  then have "allocate_child l q = Some (Ok (?l', receipt_new AllocateChildOperation Applied
        (child_id q) None amounts_zero amounts_zero None None))"
    using fresh rv avail fits e(1)
    by (simp add: allocate_child_def Let_def update_account_def new_child_def)
  ultimately show thesis using that step by blast
qed

end
