(* ===== verification/Budget_Machine.thy ===== *)
theory Budget_Machine
  imports Budget_Growth
begin

text \<open>
  The budget ledger as an abstract machine: one rule per accepted command, stating its guard and
  its effect over units of capacity, with no arithmetic that can fail and no loop. The reducer
  accepts a command on a valid ledger exactly when a rule applies, and then ends in the rule's
  ledger with the rule's receipt.
\<close>

section \<open>The machine\<close>

definition bound_to :: "reservation_record \<Rightarrow> action_id \<Rightarrow> sha256_digest \<Rightarrow> bool" where
  "bound_to r a d \<longleftrightarrow> request_action_id (request r) = a \<and> request_action_digest (request r) = d"

definition lineage_open :: "budget_ledger \<Rightarrow> nat \<Rightarrow> bool" where
  "lineage_open l i \<longleftrightarrow> (\<forall>k\<in>set (lineage (accounts l) i). account_phase (accounts l ! k) = Open)"

definition has_room :: "budget_account \<Rightarrow> (budget_dimension \<Rightarrow> nat) \<Rightarrow> bool" where
  "has_room a x \<longleftrightarrow> (\<forall>d. amt (consumed a) d + amt (operation_reserved a) d
     + amt (child_delegated_remaining a) d + x d \<le> amt (limit_amounts (limits a)) d)"

definition observe_receipt :: "usage_observation \<Rightarrow> budget_receipt_kind \<Rightarrow> budget_id
    \<Rightarrow> budget_amounts \<Rightarrow> budget_amounts \<Rightarrow> budget_receipt" where
  "observe_receipt obs k b v w = receipt_new ObserveUsageOperation k b
     (Some (observation_reservation_id obs)) v w (Some (cumulative obs))
     (Some (observation_evidence_digest obs))"

definition observed_record :: "reservation_record \<Rightarrow> usage_observation \<Rightarrow> reservation_record" where
  "observed_record r obs = r\<lparr>observed := cumulative obs,
     observation_evidence := Some (observation_evidence_digest obs)\<rparr>"

definition final_record :: "reservation_record \<Rightarrow> usage_observation \<Rightarrow> reservation_record" where
  "final_record r obs = r\<lparr>observed := cumulative obs,
     observation_evidence := Some (observation_evidence_digest obs), reservation_phase := SettledFinal,
     final_evidence := Some (observation_evidence_digest obs),
     final_reported := Some (cumulative obs), finality := Some Final\<rparr>"

definition overrun_record :: "reservation_record \<Rightarrow> usage_observation \<Rightarrow> reservation_record" where
  "overrun_record r obs = r\<lparr>observed := reserve (request r),
     observation_evidence := Some (observation_evidence_digest obs), reservation_phase := OverrunFaulted,
     final_evidence := Some (observation_evidence_digest obs),
     final_reported := Some (cumulative obs), finality := Some (observation_finality obs)\<rparr>"

definition ceiling_record :: "reservation_record \<Rightarrow> reservation_phase \<Rightarrow> sha256_digest \<Rightarrow> reservation_record" where
  "ceiling_record r p ev = r\<lparr>observed := reserve (request r), reservation_phase := p,
     final_evidence := Some ev\<rparr>"

text \<open>
  \<open>replays l c rc\<close>: the command was applied before and its replay returns receipt \<open>rc\<close>.
\<close>

inductive replays :: "budget_ledger \<Rightarrow> budget_command \<Rightarrow> budget_receipt \<Rightarrow> bool" for l where
  replay_allocate: "find_account l (child_id q) = Some i \<Longrightarrow>
    parent_id (accounts l ! i) = Some (child_parent_id q) \<Longrightarrow>
    revision (accounts l ! i) = child_revision q \<Longrightarrow>
    limit_amounts (limits (accounts l ! i)) = limit_amounts (child_limits q) \<Longrightarrow>
    replays l (AllocateChild q) (receipt AllocateChildOperation Idempotent (child_id q))"
| replay_begin: "find_reservation l (request_reservation_id q) = Some n \<Longrightarrow>
    request (reservations l ! n) = q \<Longrightarrow>
    replays l (Begin q) (receipt_new BeginOperation Idempotent (request_budget_id q)
      (Some (request_reservation_id q)) amounts_zero amounts_zero None None)"
| replay_activate: "find_reservation l (activation_reservation_id act) = Some n \<Longrightarrow>
    bound_to (reservations l ! n) (activation_action_id act) (activation_action_digest act) \<Longrightarrow>
    reservation_phase (reservations l ! n) = Active \<Longrightarrow>
    activation_evidence (reservations l ! n) = Some (activation_evidence_digest act) \<Longrightarrow>
    replays l (Activate act) (bound_receipt ActivateOperation Idempotent
      (request_budget_id (request (reservations l ! n))) (activation_reservation_id act)
      (activation_evidence_digest act))"
| replay_interim: "find_reservation l (observation_reservation_id obs) = Some n \<Longrightarrow>
    bound_to (reservations l ! n) (observation_action_id obs) (observation_action_digest obs) \<Longrightarrow>
    reservation_phase (reservations l ! n) = Active \<Longrightarrow> observation_finality obs = Interim \<Longrightarrow>
    observed (reservations l ! n) = cumulative obs \<Longrightarrow>
    observation_evidence (reservations l ! n) = Some (observation_evidence_digest obs) \<Longrightarrow>
    replays l (ObserveUsage obs) (observe_receipt obs Idempotent
      (request_budget_id (request (reservations l ! n))) amounts_zero amounts_zero)"
| replay_final: "find_reservation l (observation_reservation_id obs) = Some n \<Longrightarrow>
    bound_to (reservations l ! n) (observation_action_id obs) (observation_action_digest obs) \<Longrightarrow>
    reservation_phase (reservations l ! n) = SettledFinal \<and> k = Idempotent
      \<or> reservation_phase (reservations l ! n) = OverrunFaulted \<and> k = OverrunFaultedReceipt \<Longrightarrow>
    finality (reservations l ! n) = Some (observation_finality obs) \<Longrightarrow>
    final_reported (reservations l ! n) = Some (cumulative obs) \<Longrightarrow>
    final_evidence (reservations l ! n) = Some (observation_evidence_digest obs) \<Longrightarrow>
    replays l (ObserveUsage obs) (observe_receipt obs k
      (request_budget_id (request (reservations l ! n))) amounts_zero amounts_zero)"
| replay_settle: "find_reservation l (reference_reservation_id ref) = Some n \<Longrightarrow>
    bound_to (reservations l ! n) (reference_action_id ref) (reference_action_digest ref) \<Longrightarrow>
    (c, op, p) \<in> {(SettleExact ref, SettleExactOperation, SettledExact),
      (FinalizeAmbiguous (AmbiguousFinalization ref), FinalizeAmbiguousOperation, SettledAmbiguous),
      (CancelHeld ref, CancelHeldOperation, CancelledHeld)} \<Longrightarrow>
    reservation_phase (reservations l ! n) = p \<Longrightarrow>
    final_evidence (reservations l ! n) = Some (reference_evidence_digest ref) \<Longrightarrow>
    replays l c (bound_receipt op Idempotent (request_budget_id (request (reservations l ! n)))
      (reference_reservation_id ref) (reference_evidence_digest ref))"
| replay_seal: "find_account l b = Some i \<Longrightarrow> account_phase (accounts l ! i) \<noteq> Open \<Longrightarrow>
    replays l (Seal b) (receipt SealOperation Idempotent b)"
| replay_close: "find_account l b = Some i \<Longrightarrow> account_phase (accounts l ! i) = Closed \<Longrightarrow>
    replays l (Close b) (receipt CloseOperation Idempotent b)"

text \<open>\<open>applies l c l' rc\<close>: the command is new, and takes the ledger to \<open>l'\<close> with receipt \<open>rc\<close>.\<close>

inductive applies :: "budget_ledger \<Rightarrow> budget_command \<Rightarrow> budget_ledger \<Rightarrow> budget_receipt \<Rightarrow> bool"
  for l where
  apply_allocate: "find_account l (child_id q) = None \<Longrightarrow>
    find_account l (child_parent_id q) = Some i \<Longrightarrow> lineage_open l i \<Longrightarrow>
    revision (accounts l ! i) = child_revision q \<Longrightarrow>
    has_room (accounts l ! i) (amt (limit_amounts (child_limits q))) \<Longrightarrow> allocated l l' i q \<Longrightarrow>
    applies l (AllocateChild q) l' (receipt_new AllocateChildOperation Applied (child_id q) None
      amounts_zero amounts_zero None None)"
| apply_begin: "find_reservation l (request_reservation_id q) = None \<Longrightarrow>
    find_account l (request_budget_id q) = Some i \<Longrightarrow> lineage_open l i \<Longrightarrow>
    revision (accounts l ! i) = request_revision q \<Longrightarrow> attempt_ok (reservations l) q \<Longrightarrow>
    has_room (accounts l ! i) (\<lambda>d. amt (consume_now q) d + amt (reserve q) d) \<Longrightarrow> begun l l' i q \<Longrightarrow>
    applies l (Begin q) l' (receipt_new BeginOperation Applied (request_budget_id q)
      (Some (request_reservation_id q)) (consume_now q) amounts_zero None None)"
| apply_activate: "find_reservation l (activation_reservation_id act) = Some n \<Longrightarrow>
    r = reservations l ! n \<Longrightarrow> bound_to r (activation_action_id act) (activation_action_digest act) \<Longrightarrow>
    reservation_phase r = Held \<Longrightarrow> find_account l (request_budget_id (request r)) = Some i \<Longrightarrow>
    settled l l' n i amounts_zero (\<lambda>_. 0) (r\<lparr>reservation_phase := Active,
      activation_evidence := Some (activation_evidence_digest act)\<rparr>) \<Longrightarrow>
    applies l (Activate act) l' (bound_receipt ActivateOperation Applied
      (request_budget_id (request r)) (activation_reservation_id act) (activation_evidence_digest act))"
| apply_interim: "find_reservation l (observation_reservation_id obs) = Some n \<Longrightarrow>
    r = reservations l ! n \<Longrightarrow> bound_to r (observation_action_id obs) (observation_action_digest obs) \<Longrightarrow>
    reservation_phase r = Active \<Longrightarrow> find_account l (request_budget_id (request r)) = Some i \<Longrightarrow>
    observation_finality obs = Interim \<Longrightarrow> fits_within (cumulative obs) (reserve (request r)) \<Longrightarrow>
    (observed r = cumulative obs \<Longrightarrow> observation_evidence r = None) \<Longrightarrow>
    (\<And>d. amt (cumulative obs) d = amt (observed r) d + amt v d) \<Longrightarrow>
    settled l l' n i v (amt v) (observed_record r obs) \<Longrightarrow>
    applies l (ObserveUsage obs) l'
      (observe_receipt obs Applied (request_budget_id (request r)) v amounts_zero)"
| apply_final: "find_reservation l (observation_reservation_id obs) = Some n \<Longrightarrow>
    r = reservations l ! n \<Longrightarrow> bound_to r (observation_action_id obs) (observation_action_digest obs) \<Longrightarrow>
    reservation_phase r = Active \<Longrightarrow> find_account l (request_budget_id (request r)) = Some i \<Longrightarrow>
    observation_finality obs = Final \<Longrightarrow>
    (observed r = cumulative obs \<Longrightarrow> observation_evidence r = None
      \<or> observation_evidence r = Some (observation_evidence_digest obs)) \<Longrightarrow>
    (\<And>d. amt (cumulative obs) d = amt (observed r) d + amt v d) \<Longrightarrow>
    (\<And>d. amt (reserve (request r)) d = amt (cumulative obs) d + amt w d) \<Longrightarrow>
    settled l l' n i v (\<lambda>d. amt v d + amt w d) (final_record r obs) \<Longrightarrow>
    applies l (ObserveUsage obs) l'
      (observe_receipt obs Applied (request_budget_id (request r)) v w)"
| apply_overrun: "find_reservation l (observation_reservation_id obs) = Some n \<Longrightarrow>
    r = reservations l ! n \<Longrightarrow> bound_to r (observation_action_id obs) (observation_action_digest obs) \<Longrightarrow>
    reservation_phase r = Active \<Longrightarrow> find_account l (request_budget_id (request r)) = Some i \<Longrightarrow>
    fits_within (observed r) (cumulative obs) \<Longrightarrow> \<not> fits_within (cumulative obs) (reserve (request r)) \<Longrightarrow>
    (\<And>d. amt (reserve (request r)) d = amt (observed r) d + amt v d) \<Longrightarrow>
    settled l l2 n i v (amt v) (overrun_record r obs) \<Longrightarrow>
    root_id l' = root_id l2 \<Longrightarrow> reservations l' = reservations l2 \<Longrightarrow>
    lineage_faulted (accounts l2) (accounts l') (set (lineage (accounts l) i)) \<Longrightarrow>
    applies l (ObserveUsage obs) l'
      (observe_receipt obs OverrunFaultedReceipt (request_budget_id (request r)) v amounts_zero)"
| apply_settle: "find_reservation l (reference_reservation_id ref) = Some n \<Longrightarrow>
    r = reservations l ! n \<Longrightarrow> bound_to r (reference_action_id ref) (reference_action_digest ref) \<Longrightarrow>
    reservation_phase r = Active \<Longrightarrow> find_account l (request_budget_id (request r)) = Some i \<Longrightarrow>
    (c, op, p) \<in> {(SettleExact ref, SettleExactOperation, SettledExact),
      (FinalizeAmbiguous (AmbiguousFinalization ref), FinalizeAmbiguousOperation, SettledAmbiguous)} \<Longrightarrow>
    (\<And>d. amt (reserve (request r)) d = amt (observed r) d + amt v d) \<Longrightarrow>
    settled l l' n i v (amt v) (ceiling_record r p (reference_evidence_digest ref)) \<Longrightarrow>
    applies l c l' (receipt_new op Applied (request_budget_id (request r))
      (Some (reference_reservation_id ref)) v amounts_zero None (Some (reference_evidence_digest ref)))"
| apply_cancel: "find_reservation l (reference_reservation_id ref) = Some n \<Longrightarrow>
    r = reservations l ! n \<Longrightarrow> bound_to r (reference_action_id ref) (reference_action_digest ref) \<Longrightarrow>
    reservation_phase r = Held \<Longrightarrow> find_account l (request_budget_id (request r)) = Some i \<Longrightarrow>
    settled l l' n i amounts_zero (amt (reserve (request r))) (r\<lparr>reservation_phase := CancelledHeld,
      final_evidence := Some (reference_evidence_digest ref)\<rparr>) \<Longrightarrow>
    applies l (CancelHeld ref) l' (receipt_new CancelHeldOperation Applied
      (request_budget_id (request r)) (Some (reference_reservation_id ref)) amounts_zero
      (reserve (request r)) None (Some (reference_evidence_digest ref)))"
| apply_seal: "find_account l b = Some i \<Longrightarrow> account_phase (accounts l ! i) = Open \<Longrightarrow>
    l' = update_account l i (\<lambda>a. a\<lparr>account_phase := Draining\<rparr>) \<Longrightarrow>
    applies l (Seal b) l' (receipt SealOperation Applied b)"
| apply_close: "find_account l b = Some i \<Longrightarrow>
    account_phase (accounts l ! i) = Draining \<or> account_phase (accounts l ! i) = Faulted \<Longrightarrow>
    \<not> has_live_work l b \<Longrightarrow> (\<And>d. amt u d = unused_units (accounts l ! i) d) \<Longrightarrow>
    account_closed (accounts l) (accounts l') i u \<Longrightarrow>
    root_id l' = root_id l \<Longrightarrow> reservations l' = reservations l \<Longrightarrow>
    applies l (Close b) l' (receipt_new CloseOperation Applied b None amounts_zero u None None)"

text \<open>An accepted command replays or applies.\<close>

definition accepts :: "budget_ledger \<Rightarrow> budget_command \<Rightarrow> budget_ledger \<Rightarrow> budget_receipt \<Rightarrow> bool" where
  "accepts l c l' rc \<longleftrightarrow> replays l c rc \<and> l' = l \<or> applies l c l' rc"

section \<open>Effects are deterministic\<close>

lemma account_eqI:
  assumes "same_static a b" and "same_static a c" and "account_phase b = account_phase c"
    and "\<And>d. amt (consumed b) d = amt (consumed c) d"
    and "\<And>d. amt (operation_reserved b) d = amt (operation_reserved c) d"
    and "\<And>d. amt (child_delegated_remaining b) d = amt (child_delegated_remaining c) d"
  shows "b = (c :: budget_account)"
  using assms amounts_eqI[of "consumed b" "consumed c"]
    amounts_eqI[of "operation_reserved b" "operation_reserved c"]
    amounts_eqI[of "child_delegated_remaining b" "child_delegated_remaining c"]
  by (intro budget_account.equality) (simp_all add: same_static_def)

lemma ledger_eqI:
  "root_id l = root_id m \<Longrightarrow> accounts l = accounts m \<Longrightarrow> reservations l = reservations m \<Longrightarrow>
     l = (m :: budget_ledger)"
  by (intro budget_ledger.equality) simp_all

lemma account_effect_unique:
  assumes "account_effect as bs i v x" and "account_effect as cs i v x"
  shows "bs = cs"
proof (rule nth_equalityI)
  show len: "length bs = length cs" using assms by (simp add: account_effect_def)
  fix k assume "k < length bs"
  then have k: "k < length as" using assms(1) by (simp add: account_effect_def)
  note b = account_effect_at[OF assms(1) k] and c = account_effect_at[OF assms(2) k]
  show "bs ! k = cs ! k"
  proof (rule account_eqI[OF b(1) c(1)])
    show "account_phase (bs ! k) = account_phase (cs ! k)" using b(2) c(2) by simp
    fix d
    show "amt (consumed (bs ! k)) d = amt (consumed (cs ! k)) d" using b(3)[of d] c(3)[of d] by simp
    show "amt (operation_reserved (bs ! k)) d = amt (operation_reserved (cs ! k)) d"
      using b(5)[of d] c(5)[of d] by simp
    show "amt (child_delegated_remaining (bs ! k)) d = amt (child_delegated_remaining (cs ! k)) d"
      using b(4)[of d] c(4)[of d] by simp
  qed
qed

lemma settled_unique:
  assumes "settled l l' n i v x r" and "settled l l'' n i v x r"
  shows "l' = l''"
  by (rule ledger_eqI) (use assms account_effect_unique in \<open>auto simp: settled_def\<close>)

lemma faulted_unique:
  assumes "lineage_faulted as bs S" and "lineage_faulted as cs S"
  shows "bs = cs"
  by (rule nth_equalityI) (use assms in \<open>simp_all add: lineage_faulted_def\<close>)

lemma closed_unique:
  assumes "account_closed as bs i u" and "account_closed as cs i u"
  shows "bs = cs"
proof (rule nth_equalityI)
  show len: "length bs = length cs" using assms by (simp add: account_closed_def)
  fix k assume "k < length bs"
  then have k: "k < length as" using assms(1) by (simp add: account_closed_def)
  note b = account_closed_at[OF assms(1) k] and c = account_closed_at[OF assms(2) k]
  have "amt (child_delegated_remaining (bs ! k)) d = amt (child_delegated_remaining (cs ! k)) d" for d
    using b(5)[of d] c(5)[of d] by simp
  then show "bs ! k = cs ! k"
    using b(1-4) c(1-4) by (intro account_eqI[of "as ! k"]) simp_all
qed

lemma begun_unique:
  assumes "begun l l' i q" and "begun l l'' i q"
  shows "l' = l''"
proof (rule ledger_eqI)
  show "accounts l' = accounts l''"
  proof (rule nth_equalityI)
    show "length (accounts l') = length (accounts l'')" using assms by (simp add: begun_def)
    fix k assume "k < length (accounts l')"
    then have k: "k < length (accounts l)" using assms by (simp add: begun_def)
    note b = begun_at[OF assms(1) k] and c = begun_at[OF assms(2) k]
    have deleg: "amt (child_delegated_remaining (accounts l' ! k)) d
        + (if k \<in> set (lineage (accounts l) i) \<and> k \<noteq> i then amt (consume_now q) d else 0)
        = amt (child_delegated_remaining (accounts l ! k)) d"
      "amt (child_delegated_remaining (accounts l'' ! k)) d
        + (if k \<in> set (lineage (accounts l) i) \<and> k \<noteq> i then amt (consume_now q) d else 0)
        = amt (child_delegated_remaining (accounts l ! k)) d" for d
      using assms k by (simp_all add: begun_def)
    show "accounts l' ! k = accounts l'' ! k"
    proof (rule account_eqI[OF b(1) c(1)])
      fix d
      show "amt (child_delegated_remaining (accounts l' ! k)) d
         = amt (child_delegated_remaining (accounts l'' ! k)) d"
        using deleg[of d] by linarith
    qed (use b(2-4) c(2-4) in simp_all)
  qed
qed (use assms in \<open>simp_all add: begun_def\<close>)

lemma allocated_unique:
  assumes "allocated l l' i q" and "allocated l l'' i q"
  shows "l' = l''"
proof -
  from assms obtain e f where e: "accounts l' = (accounts l)[i := (accounts l ! i)\<lparr>child_delegated_remaining := e\<rparr>]
      @ [new_child q]" "accounts l'' = (accounts l)[i := (accounts l ! i)\<lparr>child_delegated_remaining := f\<rparr>]
      @ [new_child q]" "\<And>d. amt e d = amt f d"
    unfolding allocated_def by auto
  from e(3) have "e = f" by (rule amounts_eqI)
  with e assms show ?thesis by (intro ledger_eqI) (simp_all add: allocated_def)
qed

section \<open>The reducer takes the machine's steps\<close>

lemma has_room_available:
  "available a = Ok v \<Longrightarrow> has_room a x \<longleftrightarrow> (\<forall>d. x d \<le> amt v d)"
  by (simp add: available_Ok has_room_def add.assoc)

lemma ledger_inv_available:
  assumes "ledger_inv l" and "find_account l b = Some i"
  obtains v where "available (accounts l ! i) = Ok v"
proof -
  have "i < length (accounts l)" using find_account_bound[OF assms(2)] by simp
  then have "capacity_ok (accounts l ! i)"
    using assms(1) by (simp add: ledger_inv_def capacities_ok_def)
  then show thesis using that by (rule available_exists)
qed

lemma allocate_sound:
  assumes inv: "ledger_inv l" and ok: "allocate_child l q = Some (Ok (l', rc))"
  shows "accepts l (AllocateChild q) l' rc \<and> ledger_inv l'"
proof (cases "find_account l (child_id q)")
  case (Some i)
  with ok have "l' = l \<and> rc = receipt AllocateChildOperation Idempotent (child_id q)
    \<and> parent_id (accounts l ! i) = Some (child_parent_id q) \<and> revision (accounts l ! i) = child_revision q
    \<and> limit_amounts (limits (accounts l ! i)) = limit_amounts (child_limits q)"
    by (auto simp: allocate_child_def Let_def split: if_splits)
  with Some inv show ?thesis by (auto simp: accepts_def intro: replay_allocate)
next
  case None
  with ok obtain i where i: "require_open_lineage l (child_parent_id q) = Some (Ok i)"
    by (auto simp: allocate_child_def split: option.splits sum.splits)
  then have find: "find_account l (child_parent_id q) = Some i" and chain: "lineage_open l i"
    using require_open_lineage_Ok[OF ledger_inv_tree[OF inv]] by (simp_all add: lineage_open_def)
  obtain avail where avail: "available (accounts l ! i) = Ok avail"
    by (rule ledger_inv_available[OF inv find])
  from ok None i avail have guard: "revision (accounts l ! i) = child_revision q"
    "fits_within (limit_amounts (child_limits q)) avail"
    by (auto simp: allocate_child_def Let_def split: if_splits)
  obtain l'' where "allocate_child l q = Some (Ok (l'', receipt_new AllocateChildOperation Applied
        (child_id q) None amounts_zero amounts_zero None None))"
    "allocated l l'' i q" "ledger_inv l''"
    using allocate_result[OF inv find _ guard(1) None avail guard(2)] chain
    unfolding lineage_open_def by blast
  with ok None find chain guard avail show ?thesis
    by (auto simp: accepts_def has_room_available fits_within_iff intro: apply_allocate)
qed

lemma allocate_complete:
  assumes inv: "ledger_inv l" and "accepts l (AllocateChild q) l' rc"
  shows "allocate_child l q = Some (Ok (l', rc))"
  using assms(2) unfolding accepts_def
proof (elim disjE conjE)
  assume "replays l (AllocateChild q) rc" "l' = l"
  then show ?thesis by cases (simp_all add: allocate_child_def)
next
  assume "applies l (AllocateChild q) l' rc"
  then show ?thesis
  proof cases
    case (apply_allocate i)
    obtain avail where avail: "available (accounts l ! i) = Ok avail"
      by (rule ledger_inv_available[OF inv apply_allocate(3)])
    have "fits_within (limit_amounts (child_limits q)) avail"
      using apply_allocate avail by (simp add: has_room_available fits_within_iff)
    then obtain l'' where l'': "allocate_child l q = Some (Ok (l'', rc))" "allocated l l'' i q"
      using allocate_result[OF inv apply_allocate(3) _ apply_allocate(5,2) avail] apply_allocate(1,4)
      unfolding lineage_open_def by blast
    then show ?thesis using allocated_unique[OF l''(2) apply_allocate(7)] by simp
  qed auto
qed

lemma attempt_ok_now:
  "attempt_ok (reservations l) q \<longleftrightarrow> (\<exists>retry. retry_required l q (length (reservations l)) = Ok retry
     \<and> validate_attempt_charge q retry = Ok ())"
  using attempt_ok_retry_required[of "length (reservations l)" l q] by simp

text \<open>What the guards of a new begin amount to.\<close>

lemma begin_guards:
  assumes inv: "ledger_inv l" and fresh: "find_reservation l (request_reservation_id q) = None"
  shows "begin_reservation l q = Some (Ok (l', rc)) \<longleftrightarrow>
    (\<exists>i. find_account l (request_budget_id q) = Some i \<and> lineage_open l i
      \<and> revision (accounts l ! i) = request_revision q \<and> attempt_ok (reservations l) q
      \<and> has_room (accounts l ! i) (\<lambda>d. amt (consume_now q) d + amt (reserve q) d)
      \<and> apply_new_begin l i q = Ok (l', rc))" (is "?ok \<longleftrightarrow> (\<exists>i. ?guard i)")
proof
  assume ok: ?ok
  then obtain req i retry avail where g: "amounts_checked_add (consume_now q) (reserve q) = Ok req"
    "require_open_lineage l (request_budget_id q) = Some (Ok i)"
    "revision (accounts l ! i) = request_revision q"
    "retry_required l q (length (reservations l)) = Ok retry" "validate_attempt_charge q retry = Ok ()"
    "available (accounts l ! i) = Ok avail" "fits_within req avail" "apply_new_begin l i q = Ok (l', rc)"
    using fresh by (auto simp: begin_reservation_def split: option.splits sum.splits if_splits)
  then have "?guard i"
    using require_open_lineage_Ok[OF ledger_inv_tree[OF inv]]
    by (auto simp: lineage_open_def attempt_ok_now has_room_available fits_within_iff amounts_checked_add_Ok)
  then show "\<exists>i. ?guard i" ..
next
  assume "\<exists>i. ?guard i"
  then obtain i where g: "?guard i" ..
  then have chain: "require_open_lineage l (request_budget_id q) = Some (Ok i)"
    using require_open_lineage_Ok[OF ledger_inv_tree[OF inv]] by (simp add: lineage_open_def)
  obtain avail where avail: "available (accounts l ! i) = Ok avail"
    by (rule ledger_inv_available[OF inv]) (use g in blast)
  have room: "amt (consume_now q) d + amt (reserve q) d \<le> amt avail d" for d
    using g by (simp add: has_room_available[OF avail])
  have "amt (consume_now q) d + amt (reserve q) d < 2 ^ 64" for d
    using room[of d] amt_less[of avail d] by (rule le_less_trans)
  then obtain req where req: "amounts_checked_add (consume_now q) (reserve q) = Ok req"
    "\<And>d. amt req d = amt (consume_now q) d + amt (reserve q) d"
    using amounts_checked_add_exists by blast
  from g have "amt (consume_now q) Attempts = 1" by (simp add: attempt_ok_def attempt_charge_ok_def)
  then have "\<not> amounts_is_zero req"
    using req(2)[of Attempts] by (auto simp: amounts_is_zero_iff intro!: exI[of _ Attempts])
  moreover obtain retry where "retry_required l q (length (reservations l)) = Ok retry"
    "validate_attempt_charge q retry = Ok ()" using g attempt_ok_now by blast
  moreover have "fits_within req avail" using room req(2) by (simp add: fits_within_iff)
  ultimately show ?ok using fresh req chain avail g by (simp add: begin_reservation_def)
qed

lemma new_begin_result:
  assumes inv: "ledger_inv l" and fresh: "find_reservation l (request_reservation_id q) = None"
    and find: "find_account l (request_budget_id q) = Some i" and chain: "lineage_open l i"
    and rv: "revision (accounts l ! i) = request_revision q" and attempt: "attempt_ok (reservations l) q"
    and room: "has_room (accounts l ! i) (\<lambda>d. amt (consume_now q) d + amt (reserve q) d)"
  obtains l' where "apply_new_begin l i q = Ok (l', receipt_new BeginOperation Applied
        (request_budget_id q) (Some (request_reservation_id q)) (consume_now q) amounts_zero None None)"
    and "begun l l' i q" and "ledger_inv l'"
  using begin_result[OF inv find _ rv fresh attempt] chain room
  unfolding lineage_open_def has_room_def by (metis (no_types, lifting) add.assoc)

lemma begin_sound:
  assumes inv: "ledger_inv l" and ok: "begin_reservation l q = Some (Ok (l', rc))"
  shows "accepts l (Begin q) l' rc \<and> ledger_inv l'"
proof (cases "find_reservation l (request_reservation_id q)")
  case (Some n)
  with ok have "l' = l \<and> request (reservations l ! n) = q \<and> rc = receipt_new BeginOperation Idempotent
      (request_budget_id q) (Some (request_reservation_id q)) amounts_zero amounts_zero None None"
    by (auto simp: begin_reservation_def split: if_splits)
  with Some inv show ?thesis by (auto simp: accepts_def intro: replay_begin)
next
  case None
  with ok obtain i where g: "find_account l (request_budget_id q) = Some i" "lineage_open l i"
    "revision (accounts l ! i) = request_revision q" "attempt_ok (reservations l) q"
    "has_room (accounts l ! i) (\<lambda>d. amt (consume_now q) d + amt (reserve q) d)"
    "apply_new_begin l i q = Ok (l', rc)" using begin_guards[OF inv] by blast
  obtain l'' where "apply_new_begin l i q = Ok (l'', receipt_new BeginOperation Applied
      (request_budget_id q) (Some (request_reservation_id q)) (consume_now q) amounts_zero None None)"
    "begun l l'' i q" "ledger_inv l''" by (rule new_begin_result[OF inv None g(1-5)])
  with None g show ?thesis by (auto simp: accepts_def intro: apply_begin)
qed

lemma begin_complete:
  assumes inv: "ledger_inv l" and "accepts l (Begin q) l' rc"
  shows "begin_reservation l q = Some (Ok (l', rc))"
  using assms(2) unfolding accepts_def
proof (elim disjE conjE)
  assume "replays l (Begin q) rc" "l' = l"
  then show ?thesis by cases (simp_all add: begin_reservation_def)
next
  assume "applies l (Begin q) l' rc"
  then show ?thesis
  proof cases
    case (apply_begin i)
    obtain l'' where l'': "apply_new_begin l i q = Ok (l'', rc)" "begun l l'' i q"
      using new_begin_result[OF inv apply_begin(2-7)] apply_begin(1) by metis
    then have "l'' = l'" using begun_unique apply_begin(8) by blast
    with l'' apply_begin show ?thesis unfolding begin_guards[OF inv apply_begin(2)] by blast
  qed auto
qed

text \<open>Commands on a named reservation: it must exist and be bound to the same action.\<close>

lemma require_binding_if: "require_binding r a d = (if bound_to r a d then Ok ()
    else Err (reservation_failure BindingMismatch (request_reservation_id (request r))))"
  by (simp add: require_binding_def bound_to_def)

lemma activate_sound:
  assumes inv: "ledger_inv l" and ok: "activate l act = Ok (l', rc)"
  shows "accepts l (Activate act) l' rc \<and> ledger_inv l'"
proof -
  from ok obtain n where n: "find_reservation l (activation_reservation_id act) = Some n"
    by (auto simp: activate_def require_reservation_Ok split: sum.splits)
  let ?r = "reservations l ! n"
  from ok n have b: "bound_to ?r (activation_action_id act) (activation_action_digest act)"
    by (simp add: activate_def require_reservation_def require_binding_if split: if_splits)
  note unfold = activate_def require_reservation_def n require_binding_if b Let_def
  from ok consider "reservation_phase ?r = Held" | "reservation_phase ?r = Active"
    by (cases "reservation_phase ?r") (simp_all add: unfold)
  then show ?thesis
  proof cases
    case 1
    with b obtain l'' i where l'': "activate l act = Ok (l'', bound_receipt ActivateOperation Applied
        (request_budget_id (request ?r)) (activation_reservation_id act) (activation_evidence_digest act))"
      "find_account l (request_budget_id (request ?r)) = Some i"
      "settled l l'' n i amounts_zero (\<lambda>_. 0) (?r\<lparr>reservation_phase := Active,
        activation_evidence := Some (activation_evidence_digest act)\<rparr>)" "ledger_inv l''"
      using activate_result[OF inv n refl] unfolding bound_to_def by metis
    with ok n b 1 show ?thesis by (auto simp: accepts_def intro: apply_activate)
  next
    case 2
    with ok have "activation_evidence ?r = Some (activation_evidence_digest act)" "l' = l"
      "rc = bound_receipt ActivateOperation Idempotent (request_budget_id (request ?r))
        (activation_reservation_id act) (activation_evidence_digest act)"
      by (auto simp: unfold split: if_splits)
    with 2 n b inv show ?thesis by (auto simp: accepts_def intro: replay_activate)
  qed
qed

lemma activate_complete:
  assumes inv: "ledger_inv l" and "accepts l (Activate act) l' rc"
  shows "activate l act = Ok (l', rc)"
  using assms(2) unfolding accepts_def
proof (elim disjE conjE)
  assume "replays l (Activate act) rc" "l' = l"
  then show ?thesis
    by cases (simp_all add: activate_def require_reservation_def require_binding_if Let_def)
next
  assume "applies l (Activate act) l' rc"
  then show ?thesis
  proof cases
    case (apply_activate n r i)
    then obtain l'' i' where l'': "activate l act = Ok (l'', rc)"
      "find_account l (request_budget_id (request r)) = Some i'"
      "settled l l'' n i' amounts_zero (\<lambda>_. 0) (r\<lparr>reservation_phase := Active,
        activation_evidence := Some (activation_evidence_digest act)\<rparr>)"
      using activate_result[OF inv apply_activate(2,3,5)] unfolding bound_to_def by metis
    with apply_activate(6) have "i' = i" by simp
    with l''(3) apply_activate(7) have "l'' = l'" using settled_unique by blast
    with l''(1) show ?thesis by simp
  qed auto
qed

lemma cancel_sound:
  assumes inv: "ledger_inv l" and ok: "cancel_held l ref = Ok (l', rc)"
  shows "accepts l (CancelHeld ref) l' rc \<and> ledger_inv l'"
proof -
  from ok obtain n where n: "find_reservation l (reference_reservation_id ref) = Some n"
    by (auto simp: cancel_held_def require_reservation_Ok split: sum.splits)
  let ?r = "reservations l ! n" and ?ev = "reference_evidence_digest ref"
  from ok n have b: "bound_to ?r (reference_action_id ref) (reference_action_digest ref)"
    by (simp add: cancel_held_def require_reservation_def require_reference_binding_def
        require_binding_if Let_def split: if_splits)
  note unfold = cancel_held_def require_reservation_def n require_reference_binding_def
    require_binding_if b Let_def
  show ?thesis
  proof (cases "reservation_phase ?r = CancelledHeld \<and> final_evidence ?r = Some ?ev")
    case True
    with ok have "l' = l" "rc = bound_receipt CancelHeldOperation Idempotent
        (request_budget_id (request ?r)) (reference_reservation_id ref) ?ev" by (auto simp: unfold)
    with True n b inv show ?thesis
      by (auto simp: accepts_def intro!: replay_settle[where p = CancelledHeld])
  next
    case False
    with ok have held: "reservation_phase ?r = Held" by (auto simp: unfold split: if_splits)
    with b obtain l'' i where "cancel_held l ref = Ok (l'', receipt_new CancelHeldOperation Applied
        (request_budget_id (request ?r)) (Some (reference_reservation_id ref)) amounts_zero
        (reserve (request ?r)) None (Some ?ev))"
      "find_account l (request_budget_id (request ?r)) = Some i"
      "settled l l'' n i amounts_zero (amt (reserve (request ?r))) (?r\<lparr>reservation_phase := CancelledHeld,
        final_evidence := Some ?ev\<rparr>)" "ledger_inv l''"
      using cancel_result[OF inv n refl] unfolding bound_to_def by metis
    with ok n b held show ?thesis by (auto simp: accepts_def intro: apply_cancel)
  qed
qed

lemma cancel_complete:
  assumes inv: "ledger_inv l" and "accepts l (CancelHeld ref) l' rc"
  shows "cancel_held l ref = Ok (l', rc)"
  using assms(2) unfolding accepts_def
proof (elim disjE conjE)
  assume "replays l (CancelHeld ref) rc" "l' = l"
  then show ?thesis
    by cases (auto simp: cancel_held_def require_reservation_def require_reference_binding_def
        require_binding_if Let_def)
next
  assume "applies l (CancelHeld ref) l' rc"
  then show ?thesis
  proof cases
    case (apply_cancel n r i)
    then obtain l'' i' where l'': "cancel_held l ref = Ok (l'', rc)"
      "find_account l (request_budget_id (request r)) = Some i'"
      "settled l l'' n i' amounts_zero (amt (reserve (request r))) (r\<lparr>reservation_phase := CancelledHeld,
        final_evidence := Some (reference_evidence_digest ref)\<rparr>)"
      using cancel_result[OF inv apply_cancel(2,3,5)] unfolding bound_to_def by metis
    with apply_cancel(6) have "i' = i" by simp
    with l''(3) apply_cancel(7) have "l'' = l'" using settled_unique by blast
    with l''(1) show ?thesis by simp
  qed auto
qed

text \<open>The two settlements differ in their operation and terminal phase only.\<close>

lemma settle_sound:
  assumes inv: "ledger_inv l" and ok: "finalize_full_ceiling l ref op p = Ok (l', rc)"
    and kind: "(c, op, p) \<in> {(SettleExact ref, SettleExactOperation, SettledExact),
      (FinalizeAmbiguous (AmbiguousFinalization ref), FinalizeAmbiguousOperation, SettledAmbiguous)}"
  shows "accepts l c l' rc \<and> ledger_inv l'"
proof -
  from ok obtain n where n: "find_reservation l (reference_reservation_id ref) = Some n"
    by (auto simp: finalize_full_ceiling_def require_reservation_Ok split: sum.splits)
  let ?r = "reservations l ! n" and ?ev = "reference_evidence_digest ref"
  from ok n have b: "bound_to ?r (reference_action_id ref) (reference_action_digest ref)"
    by (simp add: finalize_full_ceiling_def require_reservation_def require_reference_binding_def
        require_binding_if Let_def split: if_splits)
  note unfold = finalize_full_ceiling_def require_reservation_def n require_reference_binding_def
    require_binding_if b Let_def
  show ?thesis
  proof (cases "reservation_phase ?r = p \<and> final_evidence ?r = Some ?ev")
    case True
    with ok have "l' = l" "rc = bound_receipt op Idempotent
        (request_budget_id (request ?r)) (reference_reservation_id ref) ?ev" by (auto simp: unfold)
    with True n b inv kind show ?thesis
      by (auto simp: accepts_def intro!: replay_settle[where p = p])
  next
    case False
    with ok have active: "reservation_phase ?r = Active" by (auto simp: unfold split: if_splits)
    have p: "p = SettledExact \<or> p = SettledAmbiguous" using kind by auto
    obtain l'' i v where r: "finalize_full_ceiling l ref op p = Ok (l'', receipt_new op Applied
        (request_budget_id (request ?r)) (Some (reference_reservation_id ref)) v amounts_zero None (Some ?ev))"
      "find_account l (request_budget_id (request ?r)) = Some i"
      "settled l l'' n i v (amt v) (ceiling_record ?r p ?ev)"
      "\<And>d. amt (reserve (request ?r)) d = amt (observed ?r) d + amt v d" "ledger_inv l''"
      using finalize_result[OF inv n refl active _ _ p] b unfolding bound_to_def ceiling_record_def by metis
    with ok have eq: "l'' = l'" "rc = receipt_new op Applied
        (request_budget_id (request ?r)) (Some (reference_reservation_id ref)) v amounts_zero None (Some ?ev)"
      by simp_all
    have "applies l c l' rc"
      unfolding eq(2) by (rule apply_settle[OF n refl b active r(2) kind r(4) r(3)[unfolded eq(1)]])
    with r(5) eq show ?thesis by (simp add: accepts_def)
  qed
qed

lemma settle_complete:
  assumes inv: "ledger_inv l" and acc: "accepts l c l' rc"
    and kind: "(c, op, p) \<in> {(SettleExact ref, SettleExactOperation, SettledExact),
      (FinalizeAmbiguous (AmbiguousFinalization ref), FinalizeAmbiguousOperation, SettledAmbiguous)}"
  shows "finalize_full_ceiling l ref op p = Ok (l', rc)"
  using acc unfolding accepts_def
proof (elim disjE conjE)
  assume "replays l c rc" "l' = l"
  then show ?thesis
    by cases (use kind in \<open>auto simp: finalize_full_ceiling_def require_reservation_def
        require_reference_binding_def require_binding_if Let_def\<close>)
next
  assume "applies l c l' rc"
  then show ?thesis
  proof cases
    case (apply_settle ref' n r i op' p' v)
    with kind have same: "ref' = ref" "op' = op" "p' = p" by auto
    have p: "p = SettledExact \<or> p = SettledAmbiguous" using kind by auto
    obtain l'' i' v' where l'': "finalize_full_ceiling l ref op p = Ok (l'', receipt_new op Applied
        (request_budget_id (request r)) (Some (reference_reservation_id ref)) v' amounts_zero None
        (Some (reference_evidence_digest ref)))"
      "find_account l (request_budget_id (request r)) = Some i'"
      "settled l l'' n i' v' (amt v') (ceiling_record r p (reference_evidence_digest ref))"
      "\<And>d. amt (reserve (request r)) d = amt (observed r) d + amt v' d"
      using finalize_result[OF inv apply_settle(2,3,5)[unfolded same] _ _ p] apply_settle(4)
      unfolding bound_to_def ceiling_record_def same by metis
    from l''(2) apply_settle(6) have "i' = i" by simp
    moreover have "v' = v" by (rule amounts_eqI) (metis l''(4) apply_settle(8) add_left_cancel)
    ultimately show ?thesis
      using settled_unique[OF l''(3)] apply_settle(1,9) l''(1) unfolding same by blast
  qed (use kind in auto)
qed

lemma seal_sound:
  assumes inv: "ledger_inv l" and ok: "seal_validated l b = Ok (l', rc)"
  shows "accepts l (Seal b) l' rc \<and> ledger_inv l'"
proof -
  from ok obtain i where i: "find_account l b = Some i"
    by (auto simp: seal_validated_def require_account_Ok split: sum.splits)
  show ?thesis
  proof (cases "account_phase (accounts l ! i) = Open")
    case True
    with ok i seal_result[OF inv i] show ?thesis by (auto simp: accepts_def intro: apply_seal)
  next
    case False
    with ok i have "l' = l \<and> rc = receipt SealOperation Idempotent b"
      by (cases "account_phase (accounts l ! i)") (auto simp: seal_validated_def require_account_def)
    with False i inv show ?thesis by (auto simp: accepts_def intro: replay_seal)
  qed
qed

lemma seal_complete:
  assumes inv: "ledger_inv l" and "accepts l (Seal b) l' rc"
  shows "seal_validated l b = Ok (l', rc)"
  using assms(2) unfolding accepts_def
proof (elim disjE conjE)
  assume "replays l (Seal b) rc" "l' = l"
  then show ?thesis
    by cases (auto simp: seal_validated_def require_account_def split: budget_account_phase.split)
next
  assume "applies l (Seal b) l' rc"
  then show ?thesis by cases (auto simp: seal_validated_def require_account_def)
qed

lemma close_sound:
  assumes inv: "ledger_inv l" and ok: "close_validated l b = Ok (l', rc)"
  shows "accepts l (Close b) l' rc \<and> ledger_inv l'"
proof -
  from ok obtain i where i: "find_account l b = Some i"
    by (auto simp: close_validated_def require_account_Ok split: sum.splits)
  show ?thesis
  proof (cases "account_phase (accounts l ! i) = Draining \<or> account_phase (accounts l ! i) = Faulted")
    case True
    with ok i have idle: "\<not> has_live_work l b"
      by (auto simp: close_validated_def require_account_def close_apply_def)
    obtain l'' u where r: "close_validated l b
        = Ok (l'', receipt_new CloseOperation Applied b None amounts_zero u None None)"
      "account_closed (accounts l) (accounts l'') i u" "\<And>d. amt u d = unused_units (accounts l ! i) d"
      "root_id l'' = root_id l" "reservations l'' = reservations l" "ledger_inv l''"
      by (rule close_result[OF inv i True idle]) (rule that)
    with ok True i idle show ?thesis by (auto simp: accepts_def intro: apply_close)
  next
    case False
    with ok i have "account_phase (accounts l ! i) = Closed \<and> l' = l
        \<and> rc = receipt CloseOperation Idempotent b"
      by (cases "account_phase (accounts l ! i)") (auto simp: close_validated_def require_account_def)
    with i inv show ?thesis by (auto simp: accepts_def intro: replay_close)
  qed
qed

lemma close_complete:
  assumes inv: "ledger_inv l" and "accepts l (Close b) l' rc"
  shows "close_validated l b = Ok (l', rc)"
  using assms(2) unfolding accepts_def
proof (elim disjE conjE)
  assume "replays l (Close b) rc" "l' = l"
  then show ?thesis by cases (auto simp: close_validated_def require_account_def)
next
  assume "applies l (Close b) l' rc"
  then show ?thesis
  proof cases
    case (apply_close i u)
    obtain l'' u' where r: "close_validated l b
        = Ok (l'', receipt_new CloseOperation Applied b None amounts_zero u' None None)"
      "account_closed (accounts l) (accounts l'') i u'" "\<And>d. amt u' d = unused_units (accounts l ! i) d"
      "root_id l'' = root_id l" "reservations l'' = reservations l"
      by (rule close_result[OF inv apply_close(2-4)]) (rule that)
    have "u' = u" by (rule amounts_eqI) (simp add: r(3) apply_close(5))
    then have "l'' = l'"
      using r closed_unique[OF _ apply_close(6)] apply_close(7,8) by (intro ledger_eqI) simp_all
    with r(1) \<open>u' = u\<close> apply_close(1) show ?thesis by simp
  qed auto
qed

text \<open>Observations.\<close>

lemma replay_final_Ok:
  "replay_final_observation_validated l n obs = Ok rc \<longleftrightarrow>
    finality (reservations l ! n) = Some (observation_finality obs)
  \<and> final_reported (reservations l ! n) = Some (cumulative obs)
  \<and> final_evidence (reservations l ! n) = Some (observation_evidence_digest obs)
  \<and> (\<exists>k. (reservation_phase (reservations l ! n) = SettledFinal \<and> k = Idempotent
        \<or> reservation_phase (reservations l ! n) = OverrunFaulted \<and> k = OverrunFaultedReceipt)
      \<and> rc = observe_receipt obs k (request_budget_id (request (reservations l ! n))) amounts_zero amounts_zero)"
  by (cases "observation_finality obs"; cases "reservation_phase (reservations l ! n)")
    (auto simp: replay_final_observation_validated_def Let_def observe_receipt_def
      split: option.split usage_finality.split)

definition replays_interim :: "reservation_record \<Rightarrow> usage_observation \<Rightarrow> bool" where
  "replays_interim r obs \<longleftrightarrow> observed r = cumulative obs
     \<and> observation_evidence r = Some (observation_evidence_digest obs) \<and> observation_finality obs = Interim"

definition conflicts :: "reservation_record \<Rightarrow> usage_observation \<Rightarrow> bool" where
  "conflicts r obs \<longleftrightarrow> observed r = cumulative obs \<and> observation_evidence r \<noteq> None
     \<and> observation_evidence r \<noteq> Some (observation_evidence_digest obs)"

text \<open>The dispatch of an observation, by the stage its reservation is in.\<close>

lemma observe_dispatch:
  assumes n: "find_reservation l (observation_reservation_id obs) = Some n"
    and b: "bound_to (reservations l ! n) (observation_action_id obs) (observation_action_digest obs)"
  shows "reservation_phase (reservations l ! n) \<noteq> Active \<Longrightarrow> observe_validated l obs = Ok (l', rc) \<longleftrightarrow>
      l' = l \<and> replay_final_observation_validated l n obs = Ok rc"
    and "reservation_phase (reservations l ! n) = Active \<Longrightarrow> observe_validated l obs =
     (if \<not> fits_within (observed (reservations l ! n)) (cumulative obs)
      then Err (reservation_failure NonmonotonicObservation (observation_reservation_id obs))
      else if conflicts (reservations l ! n) obs
      then Err (reservation_failure BindingMismatch (observation_reservation_id obs))
      else if replays_interim (reservations l ! n) obs
      then Ok (l, observe_receipt obs Idempotent (request_budget_id (request (reservations l ! n)))
        amounts_zero amounts_zero)
      else if \<not> fits_within (cumulative obs) (reserve (request (reservations l ! n)))
      then apply_overrun_validated l n obs
      else if observation_finality obs = Final then apply_final_validated l n obs
      else apply_interim_validated l n obs)"
proof -
  show "reservation_phase (reservations l ! n) \<noteq> Active \<Longrightarrow> observe_validated l obs = Ok (l', rc) \<longleftrightarrow>
      l' = l \<and> replay_final_observation_validated l n obs = Ok rc"
    using n b by (auto simp: observe_validated_def require_reservation_def require_binding_if Let_def
        split: sum.splits)
  show "reservation_phase (reservations l ! n) = Active \<Longrightarrow> observe_validated l obs =
     (if \<not> fits_within (observed (reservations l ! n)) (cumulative obs)
      then Err (reservation_failure NonmonotonicObservation (observation_reservation_id obs))
      else if conflicts (reservations l ! n) obs
      then Err (reservation_failure BindingMismatch (observation_reservation_id obs))
      else if replays_interim (reservations l ! n) obs
      then Ok (l, observe_receipt obs Idempotent (request_budget_id (request (reservations l ! n)))
        amounts_zero amounts_zero)
      else if \<not> fits_within (cumulative obs) (reserve (request (reservations l ! n)))
      then apply_overrun_validated l n obs
      else if observation_finality obs = Final then apply_final_validated l n obs
      else apply_interim_validated l n obs)"
    using n b by (cases "observation_finality obs"; cases "observation_evidence (reservations l ! n)")
      (simp_all add: observe_validated_def require_reservation_def require_binding_if Let_def
        conflicts_def replays_interim_def observe_receipt_def)
qed

lemma observe_sound:
  assumes inv: "ledger_inv l" and ok: "observe_validated l obs = Ok (l', rc)"
  shows "accepts l (ObserveUsage obs) l' rc \<and> ledger_inv l'"
proof -
  from ok obtain n where n: "find_reservation l (observation_reservation_id obs) = Some n"
    by (cases "find_reservation l (observation_reservation_id obs)")
      (simp_all add: observe_validated_def require_reservation_def Let_def)
  let ?r = "reservations l ! n" and ?b = "request_budget_id (request (reservations l ! n))"
  have len: "n < length (reservations l)" using find_reservation_bound[OF n] by simp
  from ok n have b: "bound_to ?r (observation_action_id obs) (observation_action_digest obs)"
    by (simp add: observe_validated_def require_reservation_def require_binding_if Let_def split: if_splits)
  show ?thesis
  proof (cases "reservation_phase ?r = Active")
    case False
    with ok have same: "l' = l" and "replay_final_observation_validated l n obs = Ok rc"
      using observe_dispatch(1)[OF n b] by simp_all
    from this(2) have "replays l (ObserveUsage obs) rc"
      unfolding replay_final_Ok by (auto intro: replay_final[OF n b])
    with same inv show ?thesis by (simp add: accepts_def)
  next
    case active: True
    note ok' = ok[unfolded observe_dispatch(2)[OF n b active]]
    from ok' have mono: "fits_within (observed ?r) (cumulative obs)" and clean: "\<not> conflicts ?r obs"
      by (auto split: if_splits)
    consider "replays_interim ?r obs" | "\<not> fits_within (cumulative obs) (reserve (request ?r))"
      "apply_overrun_validated l n obs = Ok (l', rc)"
    | "fits_within (cumulative obs) (reserve (request ?r))" "observation_finality obs = Final"
      "apply_final_validated l n obs = Ok (l', rc)"
    | "fits_within (cumulative obs) (reserve (request ?r))" "observation_finality obs = Interim"
      "\<not> replays_interim ?r obs" "apply_interim_validated l n obs = Ok (l', rc)"
      using ok' mono clean by (cases "observation_finality obs") (auto split: if_splits)
    then show ?thesis
    proof cases
      case 1
      with ok' mono clean have "l' = l" "rc = observe_receipt obs Idempotent ?b amounts_zero amounts_zero"
        by auto
      with 1 n b active inv show ?thesis
        by (auto simp: accepts_def replays_interim_def intro: replay_interim)
    next
      case 2
      obtain m l2 i v where o: "apply_overrun_validated l n obs = Ok (m, make_overrun_receipt obs ?b v)"
        "find_account l ?b = Some i" "settled l l2 n i v (amt v) (overrun_record ?r obs)"
        "\<And>d. amt (reserve (request ?r)) d = amt (observed ?r) d + amt v d"
        "root_id m = root_id l2" "reservations m = reservations l2"
        "lineage_faulted (accounts l2) (accounts m) (set (lineage (accounts l) i))" "ledger_inv m"
        using apply_overrun_result[OF inv len refl active 2(1)] unfolding overrun_record_def by metis
      with 2(2) have eq: "m = l'" "rc = observe_receipt obs OverrunFaultedReceipt ?b v amounts_zero"
        by (simp_all add: make_overrun_receipt_def observe_receipt_def)
      have "applies l (ObserveUsage obs) l' rc"
        unfolding eq(2) by (rule apply_overrun[OF n refl b active o(2) mono 2(1) o(4,3) o(5-7)[unfolded eq(1)]])
      with o(8) eq(1) show ?thesis by (simp add: accepts_def)
    next
      case 3
      obtain m i v w where o: "apply_final_validated l n obs = Ok (m, observe_receipt obs Applied ?b v w)"
        "find_account l ?b = Some i" "settled l m n i v (\<lambda>d. amt v d + amt w d) (final_record ?r obs)"
        "\<And>d. amt (cumulative obs) d = amt (observed ?r) d + amt v d"
        "\<And>d. amt (reserve (request ?r)) d = amt (cumulative obs) d + amt w d" "ledger_inv m"
        by (rule apply_final_result[OF inv len refl active 3(2) mono 3(1),
              folded final_record_def observe_receipt_def]) (rule that)
      with 3(3) have eq: "m = l'" "rc = observe_receipt obs Applied ?b v w" by simp_all
      have "applies l (ObserveUsage obs) l' rc"
        unfolding eq(2)
        by (rule apply_final[OF n refl b active o(2) 3(2) _ o(4,5) o(3)[unfolded eq(1)]])
          (use clean in \<open>auto simp: conflicts_def\<close>)
      with o(6) eq(1) show ?thesis by (simp add: accepts_def)
    next
      case 4
      obtain m i v where o: "apply_interim_validated l n obs = Ok (m, observe_receipt obs Applied ?b v amounts_zero)"
        "find_account l ?b = Some i" "settled l m n i v (amt v) (observed_record ?r obs)"
        "\<And>d. amt (cumulative obs) d = amt (observed ?r) d + amt v d" "ledger_inv m"
        using apply_interim_result[OF inv len refl active 4(2) mono 4(1)]
        unfolding observed_record_def observe_receipt_def by metis
      with 4(4) have eq: "m = l'" "rc = observe_receipt obs Applied ?b v amounts_zero" by simp_all
      have "applies l (ObserveUsage obs) l' rc"
        unfolding eq(2)
        by (rule apply_interim[OF n refl b active o(2) 4(2,1) _ o(4) o(3)[unfolded eq(1)]])
          (use clean 4(2,3) in \<open>auto simp: conflicts_def replays_interim_def\<close>)
      with o(5) eq(1) show ?thesis by (simp add: accepts_def)
    qed
  qed
qed

text \<open>The units a step charges are determined by what it reports.\<close>

lemma added_amount_unique:
  "(\<And>d. amt a d = amt b d + amt v d) \<Longrightarrow> (\<And>d. amt a d = amt b d + amt w d) \<Longrightarrow> v = w"
  by (rule amounts_eqI) (metis add_left_cancel)

lemma added_amount_fits: "(\<And>d. amt a d = amt b d + amt v d) \<Longrightarrow> fits_within b a"
  by (simp add: fits_within_iff)

lemma observe_complete_interim:
  assumes inv: "ledger_inv l" and n: "find_reservation l (observation_reservation_id obs) = Some n"
    and r: "r = reservations l ! n"
    and b: "bound_to r (observation_action_id obs) (observation_action_digest obs)"
    and active: "reservation_phase r = Active" and i: "find_account l (request_budget_id (request r)) = Some i"
    and fin: "observation_finality obs = Interim" and fits: "fits_within (cumulative obs) (reserve (request r))"
    and new: "observed r = cumulative obs \<Longrightarrow> observation_evidence r = None"
    and v: "\<And>d. amt (cumulative obs) d = amt (observed r) d + amt v d"
    and settled: "settled l l' n i v (amt v) (observed_record r obs)"
  shows "observe_validated l obs
      = Ok (l', observe_receipt obs Applied (request_budget_id (request r)) v amounts_zero)"
proof -
  have len: "n < length (reservations l)" using find_reservation_bound[OF n] by simp
  have mono: "fits_within (observed r) (cumulative obs)" using v by (rule added_amount_fits)
  have "\<not> conflicts r obs" "\<not> replays_interim r obs" using new by (auto simp: conflicts_def replays_interim_def)
  then have dispatch: "observe_validated l obs = apply_interim_validated l n obs"
    using observe_dispatch(2)[OF n b[unfolded r]] active fin fits mono unfolding r by simp
  obtain m j w where o: "apply_interim_validated l n obs
      = Ok (m, observe_receipt obs Applied (request_budget_id (request r)) w amounts_zero)"
    "find_account l (request_budget_id (request r)) = Some j" "settled l m n j w (amt w) (observed_record r obs)"
    "\<And>d. amt (cumulative obs) d = amt (observed r) d + amt w d"
    using apply_interim_result[OF inv len r active fin mono fits]
    unfolding observed_record_def observe_receipt_def by metis
  have eq: "w = v" "j = i" using added_amount_unique[OF o(4) v] o(2) i by simp_all
  then have "m = l'" using settled_unique[OF o(3)] settled by simp
  with dispatch o(1) eq show ?thesis by simp
qed

lemma observe_complete_final:
  assumes inv: "ledger_inv l" and n: "find_reservation l (observation_reservation_id obs) = Some n"
    and r: "r = reservations l ! n"
    and b: "bound_to r (observation_action_id obs) (observation_action_digest obs)"
    and active: "reservation_phase r = Active" and i: "find_account l (request_budget_id (request r)) = Some i"
    and fin: "observation_finality obs = Final"
    and new: "observed r = cumulative obs \<Longrightarrow> observation_evidence r = None
      \<or> observation_evidence r = Some (observation_evidence_digest obs)"
    and v: "\<And>d. amt (cumulative obs) d = amt (observed r) d + amt v d"
    and w: "\<And>d. amt (reserve (request r)) d = amt (cumulative obs) d + amt w d"
    and settled: "settled l l' n i v (\<lambda>d. amt v d + amt w d) (final_record r obs)"
  shows "observe_validated l obs = Ok (l', observe_receipt obs Applied (request_budget_id (request r)) v w)"
proof -
  have len: "n < length (reservations l)" using find_reservation_bound[OF n] by simp
  have mono: "fits_within (observed r) (cumulative obs)" using v by (rule added_amount_fits)
  have fits: "fits_within (cumulative obs) (reserve (request r))" using w by (rule added_amount_fits)
  have "\<not> conflicts r obs" "\<not> replays_interim r obs" using new fin by (auto simp: conflicts_def replays_interim_def)
  then have dispatch: "observe_validated l obs = apply_final_validated l n obs"
    using observe_dispatch(2)[OF n b[unfolded r]] active fin fits mono unfolding r by simp
  obtain m j v' w' where o: "apply_final_validated l n obs
      = Ok (m, observe_receipt obs Applied (request_budget_id (request r)) v' w')"
    "find_account l (request_budget_id (request r)) = Some j"
    "settled l m n j v' (\<lambda>d. amt v' d + amt w' d) (final_record r obs)"
    "\<And>d. amt (cumulative obs) d = amt (observed r) d + amt v' d"
    "\<And>d. amt (reserve (request r)) d = amt (cumulative obs) d + amt w' d" "ledger_inv m"
    by (rule apply_final_result[OF inv len r active fin mono fits,
          folded final_record_def observe_receipt_def]) (rule that)
  have eq: "v' = v" "w' = w" "j = i"
    using added_amount_unique[OF o(4) v] added_amount_unique[OF o(5) w] o(2) i by simp_all
  then have "m = l'" using settled_unique[OF o(3)] settled by simp
  with dispatch o(1) eq show ?thesis by simp
qed

lemma observe_complete_overrun:
  assumes inv: "ledger_inv l" and n: "find_reservation l (observation_reservation_id obs) = Some n"
    and r: "r = reservations l ! n"
    and b: "bound_to r (observation_action_id obs) (observation_action_digest obs)"
    and active: "reservation_phase r = Active" and i: "find_account l (request_budget_id (request r)) = Some i"
    and mono: "fits_within (observed r) (cumulative obs)"
    and over: "\<not> fits_within (cumulative obs) (reserve (request r))"
    and v: "\<And>d. amt (reserve (request r)) d = amt (observed r) d + amt v d"
    and settled: "settled l l2 n i v (amt v) (overrun_record r obs)"
    and l': "root_id l' = root_id l2" "reservations l' = reservations l2"
      "lineage_faulted (accounts l2) (accounts l') (set (lineage (accounts l) i))"
  shows "observe_validated l obs
      = Ok (l', observe_receipt obs OverrunFaultedReceipt (request_budget_id (request r)) v amounts_zero)"
proof -
  have len: "n < length (reservations l)" using find_reservation_bound[OF n] by simp
  have "observed r \<noteq> cumulative obs"
    using over record_fits[OF inv len] r by (auto simp: fits_within_iff)
  then have "\<not> conflicts r obs" "\<not> replays_interim r obs" by (auto simp: conflicts_def replays_interim_def)
  then have dispatch: "observe_validated l obs = apply_overrun_validated l n obs"
    using observe_dispatch(2)[OF n b[unfolded r]] active over mono unfolding r by simp
  obtain m l3 j w where o: "apply_overrun_validated l n obs
      = Ok (m, make_overrun_receipt obs (request_budget_id (request r)) w)"
    "find_account l (request_budget_id (request r)) = Some j" "settled l l3 n j w (amt w) (overrun_record r obs)"
    "\<And>d. amt (reserve (request r)) d = amt (observed r) d + amt w d"
    "root_id m = root_id l3" "reservations m = reservations l3"
    "lineage_faulted (accounts l3) (accounts m) (set (lineage (accounts l) j))"
    using apply_overrun_result[OF inv len r active over] unfolding overrun_record_def by metis
  have eq: "w = v" "j = i" using added_amount_unique[OF o(4) v] o(2) i by simp_all
  then have l3: "l3 = l2" using settled_unique[OF o(3)] settled by simp
  have "accounts m = accounts l'"
    using faulted_unique[of "accounts l2"] o(7) l'(3) unfolding l3 eq by blast
  with o(5,6) l' l3 have "m = l'" by (intro ledger_eqI) simp_all
  with dispatch o(1) eq show ?thesis by (simp add: make_overrun_receipt_def observe_receipt_def)
qed

lemma observe_complete:
  assumes inv: "ledger_inv l" and acc: "accepts l (ObserveUsage obs) l' rc"
  shows "observe_validated l obs = Ok (l', rc)"
  using acc unfolding accepts_def
proof (elim disjE conjE)
  assume rep: "replays l (ObserveUsage obs) rc" and same: "l' = l"
  from rep show ?thesis
  proof cases
    case (replay_interim n)
    have "\<not> conflicts (reservations l ! n) obs" "replays_interim (reservations l ! n) obs"
      "fits_within (observed (reservations l ! n)) (cumulative obs)"
      using replay_interim by (auto simp: conflicts_def replays_interim_def fits_within_iff)
    with observe_dispatch(2)[OF replay_interim(2-4)] same replay_interim(1) show ?thesis by simp
  next
    case (replay_final n k)
    then have "reservation_phase (reservations l ! n) \<noteq> Active" by auto
    with observe_dispatch(1)[OF replay_final(2,3)] replay_final same show ?thesis
      unfolding replay_final_Ok by blast
  qed auto
next
  assume "applies l (ObserveUsage obs) l' rc"
  then show ?thesis
  proof cases
    case apply_interim
    show ?thesis unfolding apply_interim(1)
      by (rule observe_complete_interim[OF inv apply_interim(2-)])
  next
    case apply_final
    show ?thesis unfolding apply_final(1)
      by (rule observe_complete_final[OF inv apply_final(2-)])
  next
    case apply_overrun
    show ?thesis unfolding apply_overrun(1)
      by (rule observe_complete_overrun[OF inv apply_overrun(2-)])
  qed auto
qed

section \<open>The reducer and the machine\<close>

theorem apply_validated_machine:
  assumes inv: "ledger_inv l"
  shows "apply_validated l c = Some (Ok (l', rc)) \<longleftrightarrow> accepts l c l' rc"
proof (cases c)
  case (FinalizeAmbiguous f)
  then obtain ref where c: "c = FinalizeAmbiguous (AmbiguousFinalization ref)" by (cases f) simp
  then have kind: "(c, FinalizeAmbiguousOperation, SettledAmbiguous) \<in>
      {(SettleExact ref, SettleExactOperation, SettledExact),
       (FinalizeAmbiguous (AmbiguousFinalization ref), FinalizeAmbiguousOperation, SettledAmbiguous)}"
    by simp
  have "apply_validated l c = Some (finalize_full_ceiling l ref FinalizeAmbiguousOperation SettledAmbiguous)"
    by (simp add: c finalize_ambiguous_def)
  moreover have "finalize_full_ceiling l ref FinalizeAmbiguousOperation SettledAmbiguous = Ok (l', rc)
      \<longleftrightarrow> accepts l c l' rc"
    using settle_sound[OF inv _ kind] settle_complete[OF inv _ kind] by (intro iffI) blast+
  ultimately show ?thesis by simp
next
  case (SettleExact ref)
  then have kind: "(c, SettleExactOperation, SettledExact) \<in>
      {(SettleExact ref, SettleExactOperation, SettledExact),
       (FinalizeAmbiguous (AmbiguousFinalization ref), FinalizeAmbiguousOperation, SettledAmbiguous)}"
    by simp
  have "apply_validated l c = Some (finalize_full_ceiling l ref SettleExactOperation SettledExact)"
    by (simp add: SettleExact settle_exact_def)
  moreover have "finalize_full_ceiling l ref SettleExactOperation SettledExact = Ok (l', rc)
      \<longleftrightarrow> accepts l c l' rc"
    using settle_sound[OF inv _ kind] settle_complete[OF inv _ kind] by (intro iffI) blast+
  ultimately show ?thesis by simp
next
  case (AllocateChild q)
  show ?thesis unfolding AllocateChild apply_validated.simps option.inject
    using allocate_sound[OF inv, of q l' rc] allocate_complete[OF inv, of q l' rc] by blast
next
  case (Begin q)
  show ?thesis unfolding Begin apply_validated.simps option.inject
    using begin_sound[OF inv, of q l' rc] begin_complete[OF inv, of q l' rc] by blast
next
  case (Activate a)
  show ?thesis unfolding Activate apply_validated.simps option.inject
    using activate_sound[OF inv, of a l' rc] activate_complete[OF inv, of a l' rc] by blast
next
  case (ObserveUsage obs)
  show ?thesis unfolding ObserveUsage apply_validated.simps option.inject
    using observe_sound[OF inv, of obs l' rc] observe_complete[OF inv, of obs l' rc] by blast
next
  case (CancelHeld ref)
  show ?thesis unfolding CancelHeld apply_validated.simps option.inject
    using cancel_sound[OF inv, of ref l' rc] cancel_complete[OF inv, of ref l' rc] by blast
next
  case (Seal b)
  show ?thesis unfolding Seal apply_validated.simps option.inject
    using seal_sound[OF inv, of b l' rc] seal_complete[OF inv, of b l' rc] by blast
next
  case (Close b)
  show ?thesis unfolding Close apply_validated.simps option.inject
    using close_sound[OF inv, of b l' rc] close_complete[OF inv, of b l' rc] by blast
qed

theorem accepts_inv:
  assumes inv: "ledger_inv l" and "accepts l c l' rc"
  shows "ledger_inv l'"
proof -
  have ok: "apply_validated l c = Some (Ok (l', rc))" using apply_validated_machine assms by blast
  show ?thesis
  proof (cases c)
    case (SettleExact ref)
    with ok settle_sound[OF inv, of ref SettleExactOperation SettledExact l' rc c]
    show ?thesis by (simp add: settle_exact_def)
  next
    case (FinalizeAmbiguous f)
    with ok settle_sound[OF inv, of "finalization_reference f" FinalizeAmbiguousOperation SettledAmbiguous l' rc c]
    show ?thesis by (cases f) (simp add: finalize_ambiguous_def)
  next
    case (AllocateChild q)
    with ok allocate_sound[OF inv, of q] show ?thesis by simp
  next
    case (Begin q)
    with ok begin_sound[OF inv, of q] show ?thesis by simp
  next
    case (Activate a)
    with ok activate_sound[OF inv, of a] show ?thesis by simp
  next
    case (ObserveUsage obs)
    with ok observe_sound[OF inv, of obs] show ?thesis by simp
  next
    case (CancelHeld ref)
    with ok cancel_sound[OF inv, of ref] show ?thesis by simp
  next
    case (Seal b)
    with ok seal_sound[OF inv, of b] show ?thesis by simp
  next
    case (Close b)
    with ok close_sound[OF inv, of b] show ?thesis by simp
  qed
qed

end
