(* ===== verification/Budget_Refinement.thy ===== *)
theory Budget_Refinement
  imports Budget_Machine
begin

text \<open>
  What one accepted step may do to a ledger, the relation the executable \<open>validate_refinement\<close>
  decides: identities and ceilings never change, consumption and observed usage only grow, and
  whatever an account consumes its parent consumes too. Every step of the machine refines, so the
  two validations the reducer runs after a command always pass.
\<close>

section \<open>Refinement\<close>

definition refines :: "budget_ledger \<Rightarrow> budget_ledger \<Rightarrow> bool" where
  "refines l l' \<longleftrightarrow> root_id l' = root_id l
     \<and> length (accounts l) \<le> length (accounts l') \<and> length (reservations l) \<le> length (reservations l')
     \<and> (\<forall>k<length (accounts l). same_static (accounts l ! k) (accounts l' ! k)
          \<and> (\<forall>d. amt (consumed (accounts l ! k)) d \<le> amt (consumed (accounts l' ! k)) d))
     \<and> (\<forall>n<length (reservations l). request (reservations l' ! n) = request (reservations l ! n)
          \<and> (\<forall>d. amt (observed (reservations l ! n)) d \<le> amt (observed (reservations l' ! n)) d))
     \<and> (\<forall>k<length (accounts l). \<forall>j<length (accounts l).
          parent_id (accounts l ! k) = Some (account_id (accounts l ! j)) \<longrightarrow>
          consumed (accounts l' ! k) \<noteq> consumed (accounts l ! k) \<longrightarrow>
          (\<forall>d. amt (consumed (accounts l' ! j)) d + amt (consumed (accounts l ! k)) d
             = amt (consumed (accounts l' ! k)) d + amt (consumed (accounts l ! j)) d))"

lemma limits_equal_iff: "limit_amounts a = limit_amounts b \<longleftrightarrow> a = b"
  by (cases a; cases b) simp

lemma refine_accounts_Ok:
  "refine_accounts l l' = Ok () \<longleftrightarrow> length (accounts l) \<le> length (accounts l')
     \<and> (\<forall>k<length (accounts l). same_static (accounts l ! k) (accounts l' ! k)
          \<and> (\<forall>d. amt (consumed (accounts l ! k)) d \<le> amt (consumed (accounts l' ! k)) d))"
proof (cases "length (accounts l) \<le> length (accounts l')")
  case True
  have "refine_account l l' k = Ok () \<longleftrightarrow> same_static (accounts l ! k) (accounts l' ! k)
      \<and> (\<forall>d. amt (consumed (accounts l ! k)) d \<le> amt (consumed (accounts l' ! k)) d)"
    if "k < length (accounts l)" for k
    using that True by (auto simp: refine_account_def account_at_def same_static_def fits_within_iff
        limits_equal_iff)
  with True show ?thesis by (simp add: refine_accounts_def for_range_Ok)
qed (simp add: refine_accounts_def)

lemma refine_reservations_Ok:
  "refine_reservations l l' = Ok () \<longleftrightarrow> length (reservations l) \<le> length (reservations l')
     \<and> (\<forall>n<length (reservations l). request (reservations l' ! n) = request (reservations l ! n)
          \<and> (\<forall>d. amt (observed (reservations l ! n)) d \<le> amt (observed (reservations l' ! n)) d))"
proof (cases "length (reservations l) \<le> length (reservations l')")
  case True
  have "refine_reservation l l' n = Ok () \<longleftrightarrow> request (reservations l' ! n) = request (reservations l ! n)
      \<and> (\<forall>d. amt (observed (reservations l ! n)) d \<le> amt (observed (reservations l' ! n)) d)"
    if "n < length (reservations l)" for n
    using that True by (auto simp: refine_reservation_def reservation_at_def fits_within_iff)
  with True show ?thesis by (simp add: refine_reservations_def for_range_Ok)
qed (simp add: refine_reservations_def)

lemma find_parent_index_result:
  assumes tree: "tree_shape (root_id l) (accounts l)" and k: "k < length (accounts l)"
    and parent: "parent_id (accounts l ! k) = Some p"
  obtains j where "find_parent_index l k = Ok j" and "j < k" and "account_id (accounts l ! j) = p"
proof -
  obtain j where j: "j < k" "account_index_of (accounts l) p = Some j" "account_id (accounts l ! j) = p"
    "revision (accounts l ! k) = revision (accounts l ! j)"
    using tree k parent by (rule tree_parent)
  have "validate_parent_before l k = Ok ()"
    using validate_parent_before_Ok[of k l] tree_distinct[OF tree] k j parent by auto
  moreover have "find_index (\<lambda>a. parent_matches_id (Some p) (account_id a)) (accounts l) = Some j"
    using j(2) unfolding account_table.find_first by (simp add: eq_commute[of p])
  ultimately have "find_parent_index l k = Ok j"
    using k j(1) parent by (simp add: find_parent_index_def)
  with that j show thesis by blast
qed

lemma child_propagation_Ok:
  assumes tree: "tree_shape (root_id l) (accounts l)" and k: "k < length (accounts l)"
    and len: "length (accounts l) \<le> length (accounts l')"
    and grow: "\<And>k d. k < length (accounts l) \<Longrightarrow> amt (consumed (accounts l ! k)) d \<le> amt (consumed (accounts l' ! k)) d"
  shows "validate_child_propagation l l' k = Ok () \<longleftrightarrow> (\<forall>j<length (accounts l).
          parent_id (accounts l ! k) = Some (account_id (accounts l ! j)) \<longrightarrow>
          consumed (accounts l' ! k) \<noteq> consumed (accounts l ! k) \<longrightarrow>
          (\<forall>d. amt (consumed (accounts l' ! j)) d + amt (consumed (accounts l ! k)) d
             = amt (consumed (accounts l' ! k)) d + amt (consumed (accounts l ! j)) d))"
    (is "_ \<longleftrightarrow> (\<forall>j<_. ?prop j)")
proof (cases "parent_id (accounts l ! k) \<noteq> None \<and> consumed (accounts l ! k) \<noteq> consumed (accounts l' ! k)")
  case False
  with k len show ?thesis by (auto simp: validate_child_propagation_def account_at_def)
next
  case True
  then obtain p where p: "parent_id (accounts l ! k) = Some p" by auto
  obtain j where j: "find_parent_index l k = Ok j" "j < k" "account_id (accounts l ! j) = p"
    by (rule find_parent_index_result[OF tree k p])
  have jl: "j < length (accounts l)" using j(2) k by simp
  have only: "parent_id (accounts l ! k) = Some (account_id (accounts l ! m)) \<longleftrightarrow> m = j"
    if "m < length (accounts l)" for m
    using tree_nth_inject[OF tree that jl] p j(3) by auto
  obtain u where u: "amounts_checked_sub (consumed (accounts l' ! k)) (consumed (accounts l ! k)) = Ok u"
    "\<And>d. amt u d = amt (consumed (accounts l' ! k)) d - amt (consumed (accounts l ! k)) d"
    using amounts_checked_sub_exists grow[OF k] by blast
  obtain w where w: "amounts_checked_sub (consumed (accounts l' ! j)) (consumed (accounts l ! j)) = Ok w"
    "\<And>d. amt w d = amt (consumed (accounts l' ! j)) d - amt (consumed (accounts l ! j)) d"
    using amounts_checked_sub_exists grow[OF jl] by blast
  have "validate_child_propagation l l' k = Ok () \<longleftrightarrow> u = w"
    using True j(1) jl k len u(1) w(1) by (simp add: validate_child_propagation_def account_at_def)
  also have "\<dots> \<longleftrightarrow> (\<forall>d. amt (consumed (accounts l' ! j)) d + amt (consumed (accounts l ! k)) d
             = amt (consumed (accounts l' ! k)) d + amt (consumed (accounts l ! j)) d)"
  proof -
    have "amt u d = amt w d \<longleftrightarrow> amt (consumed (accounts l' ! j)) d + amt (consumed (accounts l ! k)) d
             = amt (consumed (accounts l' ! k)) d + amt (consumed (accounts l ! j)) d" for d
      using u(2)[of d] w(2)[of d] grow[OF k, of d] grow[OF jl, of d] by linarith
    then show ?thesis unfolding amounts_eq_iff by blast
  qed
  finally show ?thesis using only jl True by auto
qed

lemma validate_refinement_Ok:
  assumes tree: "tree_shape (root_id l) (accounts l)"
  shows "validate_refinement l l' = Ok () \<longleftrightarrow> refines l l'"
proof (cases "root_id l' = root_id l \<and> refine_accounts l l' = Ok () \<and> refine_reservations l l' = Ok ()")
  case False
  have "validate_refinement l l' \<noteq> Ok ()"
    using False by (auto simp: validate_refinement_def split: sum.splits)
  moreover have "\<not> refines l l'"
    using False unfolding refines_def refine_accounts_Ok refine_reservations_Ok by blast
  ultimately show ?thesis by blast
next
  case True
  have "validate_refinement l l' = Ok () \<longleftrightarrow> validate_ancestor_propagation l l' = Ok ()"
    using True by (auto simp: validate_refinement_def split: sum.splits)
  also have "\<dots> \<longleftrightarrow> refines l l'"
    using True child_propagation_Ok[OF tree, of _ l'] unfolding refine_accounts_Ok refine_reservations_Ok
    by (auto simp: validate_ancestor_propagation_def for_range_Ok refines_def)
  finally show ?thesis .
qed

section \<open>What every applied command does\<close>

text \<open>
  Phases only move forward: a draining, faulted or closed account never reopens, a fault is never
  cleared, a closed account never changes, a settled reservation never changes.
\<close>

fun phase_moves :: "budget_account_phase \<Rightarrow> budget_account_phase \<Rightarrow> bool" where
  "phase_moves Open q = True"
| "phase_moves Draining q = (q \<noteq> Open)"
| "phase_moves Faulted q = (q = Faulted \<or> q = Closed)"
| "phase_moves Closed q = (q = Closed)"

lemma phase_moves_refl [simp]: "phase_moves p p"
  by (cases p) simp_all

lemma phase_moves_trans: "phase_moves p q \<Longrightarrow> phase_moves q r \<Longrightarrow> phase_moves p r"
  by (cases p; cases q; cases r) simp_all

definition record_moves :: "reservation_record \<Rightarrow> reservation_record \<Rightarrow> bool" where
  "record_moves r r' \<longleftrightarrow> request r' = request r \<and> (\<forall>d. amt (observed r) d \<le> amt (observed r') d)
     \<and> (reservation_phase r = Active \<longrightarrow> reservation_phase r' \<noteq> Held)
     \<and> (\<not> is_live (reservation_phase r) \<longrightarrow> r' = r)"

lemma record_moves_refl [simp]: "record_moves r r"
  by (auto simp: record_moves_def)

lemma record_moves_trans: "record_moves r s \<Longrightarrow> record_moves s t \<Longrightarrow> record_moves r t"
  unfolding record_moves_def is_live_iff by (metis order_trans)

text \<open>
  \<open>charges l l' i v\<close>: the accounts of \<open>l\<close> are still there, moved forward, and consumption grew by
  \<open>v\<close> on the lineage of account \<open>i\<close> and nowhere else.
\<close>

definition charges :: "budget_ledger \<Rightarrow> budget_ledger \<Rightarrow> nat \<Rightarrow> budget_amounts \<Rightarrow> bool" where
  "charges l l' i v \<longleftrightarrow> i < length (accounts l) \<and> root_id l' = root_id l
     \<and> length (accounts l) \<le> length (accounts l') \<and> length (reservations l) \<le> length (reservations l')
     \<and> (\<forall>k<length (accounts l). same_static (accounts l ! k) (accounts l' ! k)
          \<and> phase_moves (account_phase (accounts l ! k)) (account_phase (accounts l' ! k))
          \<and> (\<forall>d. amt (consumed (accounts l' ! k)) d = amt (consumed (accounts l ! k)) d
               + (if k \<in> set (lineage (accounts l) i) then amt v d else 0)))
     \<and> (\<forall>n<length (reservations l). record_moves (reservations l ! n) (reservations l' ! n))"

lemma charges_at:
  assumes "charges l l' i v" and "k < length (accounts l)"
  shows "same_static (accounts l ! k) (accounts l' ! k)"
    and "phase_moves (account_phase (accounts l ! k)) (account_phase (accounts l' ! k))"
    and "amt (consumed (accounts l' ! k)) d = amt (consumed (accounts l ! k)) d
           + (if k \<in> set (lineage (accounts l) i) then amt v d else 0)"
  using assms by (simp_all add: charges_def)

lemma charges_refines:
  assumes tree: "tree_shape (root_id l) (accounts l)" and c: "charges l l' i v"
  shows "refines l l'"
proof -
  have i: "i < length (accounts l)" using c by (simp add: charges_def)
  have "amt (consumed (accounts l' ! j)) d + amt (consumed (accounts l ! k)) d
      = amt (consumed (accounts l' ! k)) d + amt (consumed (accounts l ! j)) d"
    if k: "k < length (accounts l)" and j: "j < length (accounts l)"
      and par: "parent_id (accounts l ! k) = Some (account_id (accounts l ! j))"
      and changed: "consumed (accounts l' ! k) \<noteq> consumed (accounts l ! k)" for k j d
  proof -
    have "k \<in> set (lineage (accounts l) i)"
    proof (rule ccontr)
      assume "k \<notin> set (lineage (accounts l) i)"
      then have "consumed (accounts l' ! k) = consumed (accounts l ! k)"
        using charges_at(3)[OF c k] by (intro amounts_eqI) simp
      with changed show False by simp
    qed
    moreover from this have "j \<in> set (lineage (accounts l) i)"
      using lineage_parent_closed[OF tree i _ par, of j] j tree by (simp add: tree_find)
    ultimately show ?thesis
      using charges_at(3)[OF c k, of d] charges_at(3)[OF c j, of d] by simp
  qed
  with c show ?thesis by (simp add: refines_def charges_def record_moves_def)
qed

lemma settled_charges:
  assumes "settled l l' n i v x r'" and "i < length (accounts l)" and "n < length (reservations l)"
    and "record_moves (reservations l ! n) r'"
  shows "charges l l' i v"
proof -
  have "record_moves (reservations l ! m) ((reservations l)[n := r'] ! m)"
    if "m < length (reservations l)" for m
    using that assms(3,4) by (cases "m = n") simp_all
  then show ?thesis
    using assms(1,2) by (simp add: settled_def charges_def account_effect_def)
qed

lemma charges_refl: "i < length (accounts l) \<Longrightarrow> charges l l i amounts_zero"
  by (simp add: charges_def)

text \<open>The account an accepted command charges is the one its receipt names.\<close>

lemma applies_charges:
  assumes inv: "ledger_inv l" and "applies l c l' rc"
  shows "\<exists>i. charges l l' i (charged rc)
    \<and> (charged rc \<noteq> amounts_zero \<longrightarrow> find_account l (receipt_budget_id rc) = Some i)"
  using assms(2)
proof cases
  case (apply_allocate q i)
  have i: "i < length (accounts l)" using find_account_bound[OF apply_allocate(4)] by simp
  have "root_id l' = root_id l" "reservations l' = reservations l"
    using apply_allocate(8) by (simp_all add: allocated_def)
  then have "charges l l' i amounts_zero"
    using allocated_nth[OF apply_allocate(8) i] i by (simp add: charges_def)
  then show ?thesis using apply_allocate(2) by (auto simp: receipt_new_def)
next
  case (apply_begin q i)
  have i: "i < length (accounts l)" using find_account_bound[OF apply_begin(4)] by simp
  have "charges l l' i (consume_now q)"
    using apply_begin(9) i by (simp add: begun_def charges_def nth_append)
  then show ?thesis using apply_begin(2,4) by (auto simp: receipt_new_def)
next
  case (apply_activate act n r i)
  have n: "n < length (reservations l)" using find_reservation_bound[OF apply_activate(3)] by simp
  have i: "i < length (accounts l)" using find_account_bound[OF apply_activate(7)] by simp
  have "charges l l' i amounts_zero"
    by (rule settled_charges[OF apply_activate(8) i n])
      (use apply_activate(4,6) in \<open>simp add: record_moves_def is_live_def\<close>)
  then show ?thesis using apply_activate(2) by (auto simp: bound_receipt_def receipt_new_def)
next
  case (apply_interim obs n r i v)
  have n: "n < length (reservations l)" using find_reservation_bound[OF apply_interim(3)] by simp
  have i: "i < length (accounts l)" using find_account_bound[OF apply_interim(7)] by simp
  have "charges l l' i v"
    by (rule settled_charges[OF apply_interim(12) i n])
      (use apply_interim(4,6,11) in \<open>simp add: record_moves_def is_live_def observed_record_def\<close>)
  then show ?thesis using apply_interim(2,7) by (auto simp: observe_receipt_def receipt_new_def)
next
  case (apply_final obs n r i v w)
  have n: "n < length (reservations l)" using find_reservation_bound[OF apply_final(3)] by simp
  have i: "i < length (accounts l)" using find_account_bound[OF apply_final(7)] by simp
  have "charges l l' i v"
    by (rule settled_charges[OF apply_final(12) i n])
      (use apply_final(4,6,10) in \<open>simp add: record_moves_def is_live_def final_record_def\<close>)
  then show ?thesis using apply_final(2,7) by (auto simp: observe_receipt_def receipt_new_def)
next
  case (apply_overrun obs n r i v l2)
  have n: "n < length (reservations l)" using find_reservation_bound[OF apply_overrun(3)] by simp
  have i: "i < length (accounts l)" using find_account_bound[OF apply_overrun(7)] by simp
  have c2: "charges l l2 i v"
    by (rule settled_charges[OF apply_overrun(11) i n])
      (use apply_overrun(4,6,10) in \<open>simp add: record_moves_def is_live_def overrun_record_def\<close>)
  have len: "length (accounts l2) = length (accounts l)"
    using apply_overrun(11) by (simp add: settled_def account_effect_def)
  have live: "is_live (reservation_phase (reservations l ! n))"
    using apply_overrun(4,6) by (simp add: is_live_def)
  obtain i' where "find_account l (request_budget_id (request (reservations l ! n))) = Some i'"
    "\<forall>k\<in>set (lineage (accounts l) i'). account_phase (accounts l ! k) \<noteq> Closed"
    by (rule live_reservation[OF inv n live]) (rule that)
  with apply_overrun(4,7) have lively: "account_phase (accounts l ! k) \<noteq> Closed"
    if "k \<in> set (lineage (accounts l) i)" for k using that by simp
  have faulted: "accounts l' ! k = (if k \<in> set (lineage (accounts l) i)
      then (accounts l2 ! k)\<lparr>account_phase := Faulted\<rparr> else accounts l2 ! k)" if "k < length (accounts l)" for k
    using apply_overrun(14) that len by (simp add: lineage_faulted_def)
  have moves: "phase_moves (account_phase (accounts l ! k)) Faulted"
    if "k \<in> set (lineage (accounts l) i)" for k
    using lively[OF that] by (cases "account_phase (accounts l ! k)") simp_all
  have "charges l l' i v"
    using c2 apply_overrun(12-14) faulted moves len
    by (simp add: charges_def lineage_faulted_def same_static_def)
  then show ?thesis using apply_overrun(2,7) by (auto simp: observe_receipt_def receipt_new_def)
next
  case (apply_settle ref n r i op p v)
  have n: "n < length (reservations l)" using find_reservation_bound[OF apply_settle(2)] by simp
  have i: "i < length (accounts l)" using find_account_bound[OF apply_settle(6)] by simp
  have "charges l l' i v"
    by (rule settled_charges[OF apply_settle(9) i n])
      (use apply_settle(3,5,7,8) in \<open>auto simp: record_moves_def is_live_def ceiling_record_def\<close>)
  then show ?thesis using apply_settle(1,6) by (auto simp: receipt_new_def)
next
  case (apply_cancel ref n r i)
  have n: "n < length (reservations l)" using find_reservation_bound[OF apply_cancel(3)] by simp
  have i: "i < length (accounts l)" using find_account_bound[OF apply_cancel(7)] by simp
  have "charges l l' i amounts_zero"
    by (rule settled_charges[OF apply_cancel(8) i n])
      (use apply_cancel(4,6) in \<open>simp add: record_moves_def is_live_def\<close>)
  then show ?thesis using apply_cancel(2) by (auto simp: receipt_new_def)
next
  case (apply_seal b i)
  have i: "i < length (accounts l)" using find_account_bound[OF apply_seal(3)] by simp
  have "charges l l' i amounts_zero"
    using apply_seal(4,5) i by (simp add: charges_def update_account_nth same_static_def)
  then show ?thesis using apply_seal(2) by (auto simp: receipt_defs)
next
  case (apply_close b i u)
  have i: "i < length (accounts l)" using find_account_bound[OF apply_close(3)] by simp
  have "charges l l' i amounts_zero"
    unfolding charges_def
  proof (intro conjI allI impI)
    fix k assume k: "k < length (accounts l)"
    note at = account_closed_at[OF apply_close(7) k]
    show "same_static (accounts l ! k) (accounts l' ! k)" by (rule at(1))
    show "phase_moves (account_phase (accounts l ! k)) (account_phase (accounts l' ! k))"
      using at(4) by (cases "account_phase (accounts l ! k)") simp_all
    show "amt (consumed (accounts l' ! k)) d = amt (consumed (accounts l ! k)) d
        + (if k \<in> set (lineage (accounts l) i) then amt amounts_zero d else 0)" for d
      using at(2) by simp
  qed (use i apply_close(7-9) in \<open>simp_all add: account_closed_def\<close>)
  then show ?thesis using apply_close(2) by (auto simp: receipt_new_def)
qed

end
