(* ===== verification/Budget_Executions.thy ===== *)
theory Budget_Executions
  imports Budget_Refinement
begin

text \<open>
  The checked transition on every ledger, and what holds over every sequence of commands: the
  invariant, forward movement, and the audit of consumption against the recorded requests.
\<close>

section \<open>The checked transition\<close>

lemma valid_iff: "is_ok (validate l) \<longleftrightarrow> ledger_inv l"
  by (simp add: is_ok_unit validate_iff_ledger_inv)

text \<open>On a valid ledger the two checks after the command pass.\<close>

lemma transition_valid:
  assumes inv: "ledger_inv l"
  shows "transition l c = apply_validated l c"
proof (cases "apply_validated l c")
  case (Some r)
  show ?thesis
  proof (cases r)
    case (Inr p)
    obtain m rc where p: "p = (m, rc)" by (cases p)
    with Some Inr have acc: "accepts l c m rc" using apply_validated_machine[OF inv] by simp
    have "ledger_inv m" by (rule accepts_inv[OF inv acc])
    moreover have "refines l m"
      using acc applies_charges[OF inv] charges_refines[OF ledger_inv_tree[OF inv]]
        charges_refl[of 0 l] ledger_inv_tree[OF inv]
      unfolding accepts_def tree_shape_def by (metis length_greater_0_conv)
    then have "is_ok (validate_refinement l m)"
      using validate_refinement_Ok[OF ledger_inv_tree[OF inv]] by (simp add: is_ok_unit)
    ultimately show ?thesis using Some Inr p inv by (simp add: transition_def valid_iff)
  qed (use Some inv in \<open>simp add: transition_def valid_iff\<close>)
qed (use inv in \<open>simp add: transition_def valid_iff\<close>)

lemma transition_Ok:
  "transition l c = Some (Ok (l', rc)) \<longleftrightarrow> ledger_inv l \<and> accepts l c l' rc"
proof (cases "ledger_inv l")
  case True
  then show ?thesis using transition_valid apply_validated_machine by simp
qed (simp add: transition_def valid_iff)

lemma apply_validated_returns:
  assumes "ledger_inv l"
  shows "apply_validated l c \<noteq> None"
proof -
  note tree = ledger_inv_tree[OF assms]
  have returns: "require_open_lineage l b = None \<longleftrightarrow> False" for b
    by (simp add: require_open_lineage_result[OF tree])
  show ?thesis
    by (cases c) (auto simp: returns allocate_child_def begin_reservation_def Let_def
        split: option.split sum.split)
qed

lemma transition_returns: "transition l c \<noteq> None"
proof (cases "is_ok (validate l)")
  case True
  then have "apply_validated l c \<noteq> None"
    using apply_validated_returns by (simp add: valid_iff)
  with True show ?thesis by (auto simp: transition_def split: option.split sum.split)
qed (simp add: transition_def)

section \<open>Moving forward\<close>

text \<open>
  \<open>evolves l m\<close>: every account and reservation of \<open>l\<close> is still in \<open>m\<close>, moved forward, and no
  account's consumption grew by more than its parent's.
\<close>

definition evolves :: "budget_ledger \<Rightarrow> budget_ledger \<Rightarrow> bool" where
  "evolves l m \<longleftrightarrow> root_id m = root_id l
     \<and> length (accounts l) \<le> length (accounts m) \<and> length (reservations l) \<le> length (reservations m)
     \<and> (\<forall>k<length (accounts l). same_static (accounts l ! k) (accounts m ! k)
          \<and> phase_moves (account_phase (accounts l ! k)) (account_phase (accounts m ! k))
          \<and> (\<forall>d. amt (consumed (accounts l ! k)) d \<le> amt (consumed (accounts m ! k)) d))
     \<and> (\<forall>k<length (accounts l). \<forall>j<length (accounts l).
          parent_id (accounts l ! k) = Some (account_id (accounts l ! j)) \<longrightarrow>
          (\<forall>d. amt (consumed (accounts m ! k)) d + amt (consumed (accounts l ! j)) d
             \<le> amt (consumed (accounts m ! j)) d + amt (consumed (accounts l ! k)) d))
     \<and> (\<forall>n<length (reservations l). record_moves (reservations l ! n) (reservations m ! n))"

lemma evolves_refl [simp]: "evolves l l"
  by (simp add: evolves_def)

lemma evolves_account:
  assumes "evolves l m" and "k < length (accounts l)"
  shows "k < length (accounts m)" and "same_static (accounts l ! k) (accounts m ! k)"
    and "phase_moves (account_phase (accounts l ! k)) (account_phase (accounts m ! k))"
    and "amt (consumed (accounts l ! k)) d \<le> amt (consumed (accounts m ! k)) d"
  using assms by (simp_all add: evolves_def)

lemma evolves_trans:
  assumes lm: "evolves l m" and mn: "evolves m n"
  shows "evolves l n"
  unfolding evolves_def
proof (intro conjI allI impI)
  show "root_id n = root_id l" "length (accounts l) \<le> length (accounts n)"
    "length (reservations l) \<le> length (reservations n)"
    using lm mn by (simp_all add: evolves_def)
  fix k assume k: "k < length (accounts l)"
  note a = evolves_account[OF lm k] and b = evolves_account[OF mn evolves_account(1)[OF lm k]]
  show "same_static (accounts l ! k) (accounts n ! k)" using a(2) b(2) by (rule same_static_trans)
  show "phase_moves (account_phase (accounts l ! k)) (account_phase (accounts n ! k))"
    using a(3) b(3) by (rule phase_moves_trans)
  show "amt (consumed (accounts l ! k)) d \<le> amt (consumed (accounts n ! k)) d" for d
    using a(4) b(4) by (rule order_trans)
  fix j d assume j: "j < length (accounts l)"
    and par: "parent_id (accounts l ! k) = Some (account_id (accounts l ! j))"
  then have "parent_id (accounts m ! k) = Some (account_id (accounts m ! j))"
    using a(2) evolves_account(2)[OF lm j] by (simp add: same_static_def)
  then have "amt (consumed (accounts n ! k)) d + amt (consumed (accounts m ! j)) d
      \<le> amt (consumed (accounts n ! j)) d + amt (consumed (accounts m ! k)) d"
    using mn evolves_account(1)[OF lm k] evolves_account(1)[OF lm j] by (simp add: evolves_def)
  moreover have "amt (consumed (accounts m ! k)) d + amt (consumed (accounts l ! j)) d
      \<le> amt (consumed (accounts m ! j)) d + amt (consumed (accounts l ! k)) d"
    using lm k j par by (simp add: evolves_def)
  ultimately show "amt (consumed (accounts n ! k)) d + amt (consumed (accounts l ! j)) d
      \<le> amt (consumed (accounts n ! j)) d + amt (consumed (accounts l ! k)) d" by linarith
next
  fix r assume "r < length (reservations l)"
  then show "record_moves (reservations l ! r) (reservations n ! r)"
    using lm mn by (auto simp: evolves_def intro: record_moves_trans)
qed

lemma charges_evolves:
  assumes tree: "tree_shape (root_id l) (accounts l)" and c: "charges l l' i v"
  shows "evolves l l'"
proof -
  have i: "i < length (accounts l)" using c by (simp add: charges_def)
  have "amt (consumed (accounts l' ! k)) d + amt (consumed (accounts l ! j)) d
      \<le> amt (consumed (accounts l' ! j)) d + amt (consumed (accounts l ! k)) d"
    if k: "k < length (accounts l)" and j: "j < length (accounts l)"
      and par: "parent_id (accounts l ! k) = Some (account_id (accounts l ! j))" for k j d
  proof -
    have "k \<in> set (lineage (accounts l) i) \<longrightarrow> j \<in> set (lineage (accounts l) i)"
      using lineage_parent_closed[OF tree i _ par, of j] j tree by (simp add: tree_find)
    then show ?thesis
      using charges_at(3)[OF c k, of d] charges_at(3)[OF c j, of d] by simp
  qed
  with c show ?thesis by (simp add: evolves_def charges_def)
qed

lemma accepts_evolves:
  assumes inv: "ledger_inv l" and "accepts l c l' rc"
  shows "evolves l l'"
  using assms(2) applies_charges[OF inv] charges_evolves[OF ledger_inv_tree[OF inv]]
  unfolding accepts_def by fastforce

section \<open>Executions\<close>

definition accepted :: "budget_ledger \<Rightarrow> budget_command \<Rightarrow> budget_ledger \<Rightarrow> budget_receipt \<Rightarrow> bool" where
  "accepted l c l' rc \<longleftrightarrow> transition l c = Some (Ok (l', rc))"

interpretation budget: reducer accepted ledger_inv evolves
  by unfold_locales
    (auto simp: accepted_def transition_Ok intro: accepts_inv accepts_evolves evolves_trans)

text \<open>A caller that keeps its ledger when a command is refused.\<close>

fun run_commands :: "budget_ledger \<Rightarrow> budget_command list \<Rightarrow> budget_ledger" where
  "run_commands l [] = l"
| "run_commands l (c # cs) = run_commands
     (case transition l c of Some (Inr (l', rc)) \<Rightarrow> l' | _ \<Rightarrow> l) cs"

lemma run_commands_append: "run_commands l (cs @ ds) = run_commands (run_commands l cs) ds"
  by (induction l cs rule: run_commands.induct) simp_all

lemma run_commands_reaches: "(successor accepted)\<^sup>*\<^sup>* l (run_commands l cs)"
proof (induction cs arbitrary: l)
  case (Cons c cs)
  show ?case
  proof (cases "\<exists>l' rc. transition l c = Some (Ok (l', rc))")
    case True
    then obtain l' rc where t: "transition l c = Some (Ok (l', rc))" by blast
    then have "successor accepted l l'" by (auto simp: successor_def accepted_def)
    with t Cons.IH[of l'] show ?thesis by (simp add: converse_rtranclp_into_rtranclp)
  next
    case False
    then have "run_commands l (c # cs) = run_commands l cs"
      by (auto split: option.split sum.split)
    with Cons.IH[of l] show ?thesis by simp
  qed
qed simp

lemma new_root_inv: "ledger_inv (new_root root rv lims)"
  by (simp add: ledger_inv_def new_root_def tree_shape_def capacities_ok_def capacity_ok_def
      delegation_ok_def child_total_def child_contributes_iff reserved_ok_def reserved_total_def
      quiescent_ok_def has_live_work_iff history_ok_def)

lemma run_commands_inv: "ledger_inv l \<Longrightarrow> ledger_inv (run_commands l cs)"
  using run_commands_reaches by (rule budget.run_inv)

lemma run_commands_evolves: "ledger_inv l \<Longrightarrow> evolves l (run_commands l cs)"
  using run_commands_reaches by (rule budget.run_le)

section \<open>The audit of consumption\<close>

text \<open>
  What the recorded requests of an account have used: their immediate charges and the usage
  observed for them.
\<close>

definition recorded_usage :: "reservation_record list \<Rightarrow> budget_id \<Rightarrow> budget_dimension \<Rightarrow> nat" where
  "recorded_usage rs b d = sum_list (map (\<lambda>r. if request_budget_id (request r) = b
     then amt (consume_now (request r)) d + amt (observed r) d else 0) rs)"

definition children_consumed :: "budget_account list \<Rightarrow> budget_id \<Rightarrow> budget_dimension \<Rightarrow> nat" where
  "children_consumed as b d = sum_list (map (\<lambda>a. if parent_id a = Some b then amt (consumed a) d else 0) as)"

definition audited :: "budget_ledger \<Rightarrow> bool" where
  "audited l \<longleftrightarrow> (\<forall>a\<in>set (accounts l). \<forall>d. amt (consumed a) d
     = recorded_usage (reservations l) (account_id a) d + children_consumed (accounts l) (account_id a) d)"

lemma children_consumed_sum:
  "children_consumed as b d = (\<Sum>c<length as. if parent_id (as ! c) = Some b then amt (consumed (as ! c)) d else 0)"
  unfolding children_consumed_def by (simp add: sum_list_sum_nth atLeast0LessThan)

text \<open>A charge is accounted for by the children of every account it reaches, its own account apart.\<close>

lemma charges_children:
  assumes tree: "tree_shape (root_id l) (accounts l)" and c: "charges l l' i v"
    and len: "length (accounts l') = length (accounts l)" and k: "k < length (accounts l)"
  shows "children_consumed (accounts l') (account_id (accounts l ! k)) d
    = children_consumed (accounts l) (account_id (accounts l ! k)) d
      + (if k \<in> set (lineage (accounts l) i) \<and> k \<noteq> i then amt v d else 0)"
proof -
  let ?b = "account_id (accounts l ! k)" and ?S = "set (lineage (accounts l) i)"
  have i: "i < length (accounts l)" using c by (simp add: charges_def)
  have "children_consumed (accounts l') ?b d = (\<Sum>c<length (accounts l).
      (if parent_id (accounts l ! c) = Some ?b then amt (consumed (accounts l ! c)) d else 0)
      + (if parent_id (accounts l ! c) = Some ?b \<and> c \<in> ?S then amt v d else 0))"
    unfolding children_consumed_sum len
  proof (rule sum.cong)
    fix m assume "m \<in> {..<length (accounts l)}"
    then have "m < length (accounts l)" by simp
    note at = charges_at[OF c this]
    show "(if parent_id (accounts l' ! m) = Some ?b then amt (consumed (accounts l' ! m)) d else 0)
      = (if parent_id (accounts l ! m) = Some ?b then amt (consumed (accounts l ! m)) d else 0)
        + (if parent_id (accounts l ! m) = Some ?b \<and> m \<in> ?S then amt v d else 0)"
      using at(1) at(3)[of d] by (simp add: same_static_def)
  qed simp
  also have "\<dots> = children_consumed (accounts l) ?b d + (if k \<in> ?S \<and> k \<noteq> i then amt v d else 0)"
    using lineage_child_count[OF tree i k] by (simp add: sum.distrib children_consumed_sum)
  finally show ?thesis .
qed

text \<open>
  The audit survives a step that charges \<open>v\<close> to account \<open>i\<close> and records \<open>v\<close> more usage for it.
\<close>

lemma audited_step:
  assumes tree: "tree_shape (root_id l) (accounts l)" and c: "charges l l' i v"
    and len: "length (accounts l') = length (accounts l)" and audit: "audited l"
    and usage: "\<And>b d. recorded_usage (reservations l') b d = recorded_usage (reservations l) b d
      + (if b = account_id (accounts l ! i) then amt v d else 0)"
  shows "audited l'"
proof -
  have i: "i < length (accounts l)" using c by (simp add: charges_def)
  have "amt (consumed (accounts l' ! k)) d = recorded_usage (reservations l') (account_id (accounts l' ! k)) d
      + children_consumed (accounts l') (account_id (accounts l' ! k)) d" if k: "k < length (accounts l)" for k d
  proof -
    have id: "account_id (accounts l' ! k) = account_id (accounts l ! k)"
      using charges_at(1)[OF c k] by (simp add: same_static_def)
    have old: "amt (consumed (accounts l ! k)) d = recorded_usage (reservations l) (account_id (accounts l ! k)) d
      + children_consumed (accounts l) (account_id (accounts l ! k)) d"
      using audit k by (simp add: audited_def)
    have same: "account_id (accounts l ! k) = account_id (accounts l ! i) \<longleftrightarrow> k = i"
      by (rule tree_nth_inject[OF tree k i])
    show ?thesis
      unfolding id charges_children[OF tree c len k] usage charges_at(3)[OF c k] old same by auto
  qed
  then show ?thesis using len by (auto simp: audited_def in_set_conv_nth)
qed

lemma recorded_usage_update:
  assumes "n < length rs" and "request r' = request (rs ! n)"
    and "amt (observed r') d = amt (observed (rs ! n)) d + x"
  shows "recorded_usage (rs[n := r']) b d = recorded_usage rs b d
    + (if b = request_budget_id (request (rs ! n)) then x else 0)"
proof -
  let ?f = "\<lambda>r. if request_budget_id (request r) = b
     then amt (consume_now (request r)) d + amt (observed r) d else 0"
  have "recorded_usage (rs[n := r']) b d + ?f (rs ! n) = recorded_usage rs b d + ?f r'"
    unfolding recorded_usage_def by (rule sum_list_update_nat[OF assms(1)])
  with assms(2,3) show ?thesis by (auto split: if_splits)
qed

lemma recorded_usage_append:
  "recorded_usage (rs @ [new_record q]) b d = recorded_usage rs b d
     + (if b = request_budget_id q then amt (consume_now q) d else 0)"
  by (simp add: recorded_usage_def)

lemma audited_settled:
  assumes tree: "tree_shape (root_id l) (accounts l)" and audit: "audited l"
    and n: "find_reservation l rid = Some n" and find: "find_account l (request_budget_id (request (reservations l ! n))) = Some i"
    and settled: "settled l l' n i v x r'" and moves: "record_moves (reservations l ! n) r'"
    and usage: "\<And>d. amt (observed r') d = amt (observed (reservations l ! n)) d + amt v d"
  shows "audited l'"
proof -
  have nl: "n < length (reservations l)" using find_reservation_bound[OF n] by simp
  have i: "i < length (accounts l)" "account_id (accounts l ! i) = request_budget_id (request (reservations l ! n))"
    using find_account_bound[OF find] by simp_all
  show ?thesis
  proof (rule audited_step[OF tree settled_charges[OF settled i(1) nl moves] _ audit])
    show "length (accounts l') = length (accounts l)"
      using settled by (simp add: settled_def account_effect_def)
    show "recorded_usage (reservations l') b d = recorded_usage (reservations l) b d
      + (if b = account_id (accounts l ! i) then amt v d else 0)" for b d
      using settled recorded_usage_update[OF nl _ usage] i(2) by (simp add: settled_def)
  qed
qed

lemma audited_allocated:
  assumes inv: "ledger_inv l" and audit: "audited l" and fresh: "find_account l (child_id q) = None"
    and i: "i < length (accounts l)" and step: "allocated l l' i q"
  shows "audited l'"
proof -
  note at = allocated_nth[OF step i]
  have rs: "reservations l' = reservations l" using step by (simp add: allocated_def)
  have newid: "child_id q \<notin> account_id ` set (accounts l)"
    using fresh account_table.find_None_iff by (simp add: find_account_def)
  obtain as1 where acc: "accounts l' = as1 @ [new_child q]" and len: "length as1 = length (accounts l)"
    using step by (auto simp: allocated_def)
  have nth: "same_static (accounts l ! k) (as1 ! k) \<and> consumed (as1 ! k) = consumed (accounts l ! k)"
    if "k < length (accounts l)" for k
    using at(3)[OF that] that len by (simp add: acc nth_append)
  have children: "children_consumed (accounts l') b d = children_consumed (accounts l) b d" for b d
  proof -
    have "children_consumed as1 b d = children_consumed (accounts l) b d"
      unfolding children_consumed_def
      by (rule sum_list_cong_nth[OF len]) (use nth len in \<open>simp add: same_static_def\<close>)
    then show ?thesis by (simp add: acc children_consumed_def)
  qed
  have "children_consumed (accounts l) (child_id q) d = 0" for d
  proof -
    have "parent_id a \<noteq> Some (child_id q)" if a: "a \<in> set (accounts l)" for a
    proof
      assume par: "parent_id a = Some (child_id q)"
      from a obtain k where "k < length (accounts l)" "a = accounts l ! k" by (auto simp: in_set_conv_nth)
      with ledger_inv_tree[OF inv] par obtain j where "j < k" "account_id (accounts l ! j) = child_id q"
        by (metis tree_parent)
      with \<open>k < length (accounts l)\<close> newid show False by (metis image_eqI less_trans nth_mem)
    qed
    then show ?thesis by (auto simp: children_consumed_def intro!: sum_list_eq_0_nat)
  qed
  moreover have "recorded_usage (reservations l) (child_id q) d = 0" for d
  proof -
    have "request_budget_id (request r) \<noteq> child_id q" if "r \<in> set (reservations l)" for r
      using inv that newid unfolding ledger_inv_def record_ok_def by (metis image_eqI)
    then show ?thesis by (auto simp: recorded_usage_def intro!: sum_list_eq_0_nat)
  qed
  moreover have "amt (consumed (accounts l' ! k)) d
      = recorded_usage (reservations l') (account_id (accounts l' ! k)) d
        + children_consumed (accounts l') (account_id (accounts l' ! k)) d" if k: "k < length (accounts l)" for k d
    using audit k at(3)[OF k] by (simp add: audited_def rs children same_static_def)
  ultimately show ?thesis
    unfolding audited_def all_nth_Suc[OF at(1)] by (simp add: at(2) rs children)
qed

lemma accepts_audited:
  assumes inv: "ledger_inv l" and audit: "audited l" and acc: "accepts l c l' rc"
  shows "audited l'"
proof -
  note tree = ledger_inv_tree[OF inv]
  have "audited l'" if step: "applies l c l' rc"
    using step
  proof cases
    case (apply_allocate q i)
    then show ?thesis using audited_allocated[OF inv audit] find_account_bound by blast
  next
    case (apply_begin q i)
    have i: "i < length (accounts l)" "account_id (accounts l ! i) = request_budget_id q"
      using find_account_bound[OF apply_begin(4)] by simp_all
    have c: "charges l l' i (consume_now q)"
      using apply_begin(9) i by (simp add: begun_def charges_def nth_append)
    show ?thesis
      by (rule audited_step[OF tree c _ audit])
        (use apply_begin(9) i(2) in \<open>simp_all add: begun_def recorded_usage_append\<close>)
  next
    case (apply_activate act n r i)
    show ?thesis
      by (rule audited_settled[OF tree audit apply_activate(3) _ apply_activate(8)])
        (use apply_activate(4,6,7) in \<open>simp_all add: record_moves_def is_live_def\<close>)
  next
    case (apply_interim obs n r i v)
    show ?thesis
      by (rule audited_settled[OF tree audit apply_interim(3) _ apply_interim(12)])
        (use apply_interim(4,6,7,11) in \<open>simp_all add: record_moves_def is_live_def observed_record_def\<close>)
  next
    case (apply_final obs n r i v w)
    show ?thesis
      by (rule audited_settled[OF tree audit apply_final(3) _ apply_final(12)])
        (use apply_final(4,6,7,10) in \<open>simp_all add: record_moves_def is_live_def final_record_def\<close>)
  next
    case (apply_overrun obs n r i v l2)
    have "audited l2"
      by (rule audited_settled[OF tree audit apply_overrun(3) _ apply_overrun(11)])
        (use apply_overrun(4,6,7,10) in \<open>simp_all add: record_moves_def is_live_def overrun_record_def\<close>)
    moreover have "children_consumed (accounts l') b d = children_consumed (accounts l2) b d" for b d
      unfolding children_consumed_def
      by (rule sum_list_cong_nth) (use apply_overrun(14) in \<open>simp_all add: lineage_faulted_def\<close>)
    ultimately show ?thesis
      using apply_overrun(13,14)
      unfolding audited_def lineage_faulted_def all_set_conv_all_nth by simp
  next
    case (apply_settle ref n r i op p v)
    show ?thesis
      by (rule audited_settled[OF tree audit apply_settle(2) _ apply_settle(9)])
        (use apply_settle(3,5,6,7,8) in \<open>auto simp: record_moves_def is_live_def ceiling_record_def\<close>)
  next
    case (apply_cancel ref n r i)
    show ?thesis
      by (rule audited_settled[OF tree audit apply_cancel(3) _ apply_cancel(8)])
        (use apply_cancel(4,6,7) in \<open>simp_all add: record_moves_def is_live_def\<close>)
  next
    case (apply_seal b i)
    obtain j where c: "charges l l' j amounts_zero"
      using applies_charges[OF inv step] apply_seal(2) by (auto simp: receipt_defs)
    show ?thesis
      by (rule audited_step[OF tree c _ audit]) (use apply_seal(5) in simp_all)
  next
    case (apply_close b i u)
    obtain j where c: "charges l l' j amounts_zero"
      using applies_charges[OF inv step] apply_close(2) by (auto simp: receipt_defs)
    show ?thesis
      by (rule audited_step[OF tree c _ audit])
        (use apply_close(7,9) in \<open>simp_all add: account_closed_def\<close>)
  qed
  with acc audit show ?thesis by (auto simp: accepts_def)
qed

interpretation audit: reducer accepted "\<lambda>l. ledger_inv l \<and> audited l" evolves
  by unfold_locales
    (auto simp: accepted_def transition_Ok intro: accepts_inv accepts_evolves evolves_trans accepts_audited)

lemma run_commands_audited: "ledger_inv l \<Longrightarrow> audited l \<Longrightarrow> audited (run_commands l cs)"
  using audit.run_inv[OF run_commands_reaches] by blast

lemma new_root_audited: "audited (new_root root rv lims)"
  by (simp add: audited_def new_root_def recorded_usage_def children_consumed_def)

text \<open>
  Summed over the whole tree: the root has consumed exactly what the recorded requests used.
\<close>

definition total_usage :: "reservation_record list \<Rightarrow> budget_dimension \<Rightarrow> nat" where
  "total_usage rs d = sum_list (map (\<lambda>r. amt (consume_now (request r)) d + amt (observed r) d) rs)"

lemma recorded_usage_total:
  assumes "distinct (map account_id as)"
    and "\<forall>r\<in>set rs. \<exists>a\<in>set as. account_id a = request_budget_id (request r)"
  shows "(\<Sum>k<length as. recorded_usage rs (account_id (as ! k)) d) = total_usage rs d"
  using assms(2)
proof (induction rs)
  case Nil
  then show ?case by (simp add: recorded_usage_def total_usage_def)
next
  case (Cons r rs)
  let ?x = "amt (consume_now (request r)) d + amt (observed r) d"
  obtain j where j: "j < length as" "account_id (as ! j) = request_budget_id (request r)"
    using Cons.prems by (auto simp: in_set_conv_nth)
  have "recorded_usage (r # rs) (account_id (as ! k)) d
      = (if k = j then ?x else 0) + recorded_usage rs (account_id (as ! k)) d" if "k < length as" for k
    using assms(1) that j by (auto simp: recorded_usage_def distinct_conv_nth)
  then have "(\<Sum>k<length as. recorded_usage (r # rs) (account_id (as ! k)) d)
      = (\<Sum>k<length as. (if k = j then ?x else 0) + recorded_usage rs (account_id (as ! k)) d)"
    by (intro sum.cong) auto
  also have "\<dots> = ?x + total_usage rs d"
    using Cons j(1) by (simp add: sum.distrib)
  finally show ?case by (simp add: total_usage_def)
qed

lemma children_consumed_total:
  assumes tree: "tree_shape root as"
  shows "amt (consumed (as ! 0)) d + (\<Sum>k<length as. children_consumed as (account_id (as ! k)) d)
    = (\<Sum>k<length as. amt (consumed (as ! k)) d)"
proof -
  have ne: "0 < length as" using tree by (simp add: tree_shape_def)
  have one: "(\<Sum>k<length as. if parent_id (as ! c) = Some (account_id (as ! k)) then x else 0)
      = (if c = 0 then 0 else x)" if c: "c < length as" for c and x :: nat
  proof (cases "parent_id (as ! c)")
    case None
    with tree c have "c = 0" unfolding tree_shape_def by (metis gr0I option.distinct(1))
    with None show ?thesis by simp
  next
    case (Some p)
    with tree have "c \<noteq> 0" unfolding tree_shape_def by (metis option.distinct(1))
    obtain j where j: "j < c" "account_id (as ! j) = p" using tree c Some by (rule tree_parent)
    then have "Some p = Some (account_id (as ! k)) \<longleftrightarrow> k = j" if "k < length as" for k
      using tree_nth_inject[OF tree that, of j] c by auto
    then have "(\<Sum>k<length as. if parent_id (as ! c) = Some (account_id (as ! k)) then x else 0)
        = (\<Sum>k<length as. if k = j then x else 0)"
      unfolding Some by (intro sum.cong) auto
    with \<open>c \<noteq> 0\<close> j(1) c show ?thesis by simp
  qed
  have "(\<Sum>k<length as. children_consumed as (account_id (as ! k)) d)
      = (\<Sum>c<length as. \<Sum>k<length as.
          if parent_id (as ! c) = Some (account_id (as ! k)) then amt (consumed (as ! c)) d else 0)"
    unfolding children_consumed_sum by (rule sum.swap)
  also have "\<dots> = (\<Sum>c<length as. if c = 0 then 0 else amt (consumed (as ! c)) d)"
    by (intro sum.cong) (use one in auto)
  finally have "amt (consumed (as ! 0)) d + (\<Sum>k<length as. children_consumed as (account_id (as ! k)) d)
      = (\<Sum>c<length as. (if c = 0 then amt (consumed (as ! 0)) d else 0)
          + (if c = 0 then 0 else amt (consumed (as ! c)) d))"
    using ne by (simp add: sum.distrib)
  also have "\<dots> = (\<Sum>k<length as. amt (consumed (as ! k)) d)" by (intro sum.cong) auto
  finally show ?thesis .
qed

lemma root_consumption:
  assumes inv: "ledger_inv l" and audit: "audited l"
  shows "amt (consumed (accounts l ! 0)) d = total_usage (reservations l) d"
proof -
  let ?as = "accounts l"
  note tree = ledger_inv_tree[OF inv]
  have known: "\<forall>r\<in>set (reservations l). \<exists>a\<in>set ?as. account_id a = request_budget_id (request r)"
    using inv unfolding ledger_inv_def record_ok_def by blast
  have "(\<Sum>k<length ?as. amt (consumed (?as ! k)) d)
      = (\<Sum>k<length ?as. recorded_usage (reservations l) (account_id (?as ! k)) d
          + children_consumed ?as (account_id (?as ! k)) d)"
    using audit by (intro sum.cong) (auto simp: audited_def)
  also have "\<dots> = total_usage (reservations l) d
      + (\<Sum>k<length ?as. children_consumed ?as (account_id (?as ! k)) d)"
    using recorded_usage_total[OF tree_distinct[OF tree] known] by (simp add: sum.distrib)
  finally show ?thesis using children_consumed_total[OF tree, of d] by linarith
qed

end
