(* ===== verification/Budget_Examples.thy ===== *)
theory Budget_Examples
  imports Budget_Executions
begin

text \<open>
  A concrete run of the reducer, used as input of the witnesses: a root account with a ceiling of
  100 model tokens, a child with 60, one request of the child that reserves 40 tokens, its activation,
  an interim observation of 10 tokens and then one of 50, which overruns the reservation.
\<close>

section \<open>Inputs\<close>

definition sample_id :: "u8 \<Rightarrow> budget_id" where
  "sample_id b = BudgetId (low_identifier b)"

definition sample_revision :: revision_tuple where
  "sample_revision = \<lparr>acceptance_spec_id = AcceptanceSpecId (low_identifier 1),
     harness_id = HarnessId (low_identifier 2), workspace_id = WorkspaceId (low_identifier 3),
     workspace_generation = generation_first, workspace_revision = revision_number_first,
     policy_id = PolicyId (low_identifier 4), provider_profile_id = ProviderProfileId (low_identifier 5)\<rparr>"

definition tokens :: "u64 \<Rightarrow> budget_amounts" where
  "tokens n = from_units n 0 0 0 0"

definition sample_root :: budget_ledger where
  "sample_root = new_root (sample_id 1) sample_revision (BudgetLimits (from_units 100 0 0 5 5))"

definition sample_child :: child_budget_request where
  "sample_child = \<lparr>child_id = sample_id 2, child_parent_id = sample_id 1,
     child_revision = sample_revision, child_limits = BudgetLimits (from_units 60 0 0 3 3)\<rparr>"

definition sample_request :: budget_request where
  "sample_request = \<lparr>request_reservation_id = BudgetReservationId (low_identifier 1),
     request_budget_id = sample_id 2, request_revision = sample_revision,
     request_action_id = ActionId (low_identifier 1), request_action_digest = low_digest 1,
     consume_now = from_units 0 0 0 1 0, reserve = tokens 40\<rparr>"

definition sample_activation :: activation where
  "sample_activation = \<lparr>activation_reservation_id = BudgetReservationId (low_identifier 1),
     activation_action_id = ActionId (low_identifier 1), activation_action_digest = low_digest 1,
     activation_evidence_digest = low_digest 2\<rparr>"

definition sample_usage :: "u64 \<Rightarrow> usage_finality \<Rightarrow> usage_observation" where
  "sample_usage n f = \<lparr>observation_reservation_id = BudgetReservationId (low_identifier 1),
     observation_action_id = ActionId (low_identifier 1), observation_action_digest = low_digest 1,
     observation_evidence_digest = low_digest 3, cumulative = tokens n, observation_finality = f\<rparr>"

lemma sample_id_eq [simp]: "sample_id a = sample_id b \<longleftrightarrow> low_identifier a = low_identifier b"
  by (simp add: sample_id_def)

section \<open>Ledgers of the run\<close>

text \<open>One account of the run, from its consumption, reservation and delegation.\<close>

definition sample_account :: "u8 \<Rightarrow> budget_id option \<Rightarrow> budget_amounts \<Rightarrow> budget_amounts
    \<Rightarrow> budget_amounts \<Rightarrow> budget_amounts \<Rightarrow> budget_account_phase \<Rightarrow> budget_account" where
  "sample_account b p lim used held deleg ph = \<lparr>account_id = sample_id b, parent_id = p,
     revision = sample_revision, limits = BudgetLimits lim, consumed = used,
     operation_reserved = held, child_delegated_remaining = deleg, account_phase = ph\<rparr>"

definition sample_tree :: "budget_ledger" where
  "sample_tree = \<lparr>root_id = sample_id 1, accounts =
     [sample_account 1 None (from_units 100 0 0 5 5) amounts_zero amounts_zero (from_units 60 0 0 3 3) Open,
      sample_account 2 (Some (sample_id 1)) (from_units 60 0 0 3 3) amounts_zero amounts_zero amounts_zero Open],
     reservations = []\<rparr>"

lemmas sample_defs = sample_root_def sample_child_def sample_request_def sample_activation_def
  sample_usage_def sample_account_def sample_tree_def new_root_def tokens_def

lemmas amounts_eval = from_units_def amounts_new_def amounts_zero_def amounts_checked_add_def
  amounts_checked_sub_def quantity_add_def quantity_sub_def quantity_checked_add_def
  quantity_checked_sub_def checked_add_def checked_sub_def fits_within_def amounts_is_zero_def

lemma sample_root_inv: "ledger_inv sample_root"
  unfolding sample_root_def by (rule new_root_inv)

lemma find_account_nil: "account_index_of [] b = None"
  by (simp add: account_index_of_def)

lemma find_account_cons: "account_index_of (a # as) b
    = (if account_id a = b then Some 0 else map_option Suc (account_index_of as b))"
  by (simp add: account_index_of_def)

lemma find_reservation_nil: "reservation_index_of [] b = None"
  by (simp add: reservation_index_of_def)

lemma find_reservation_cons: "reservation_index_of (r # rs) b
    = (if request_reservation_id (request r) = b then Some 0 else map_option Suc (reservation_index_of rs b))"
  by (simp add: reservation_index_of_def)

lemmas ledger_eval = find_account_def find_reservation_def find_account_nil find_account_cons
  find_reservation_nil find_reservation_cons require_account_def require_reservation_def
  update_account_def update_reservation_def available_def receipt_defs Let_def

lemma sample_allocates:
  "transition sample_root (AllocateChild sample_child)
     = Some (Ok (sample_tree, receipt AllocateChildOperation Applied (sample_id 2)))"
  unfolding transition_valid[OF sample_root_inv]
  by (simp add: allocate_child_def require_open_lineage_def require_open_parent_chain.simps
      ledger_eval sample_defs amounts_eval)

text \<open>The ledger while the request is in the given stage, with \<open>n\<close> of its tokens charged.\<close>

definition sample_stage :: "u64 \<Rightarrow> u64 \<Rightarrow> budget_account_phase \<Rightarrow> reservation_record \<Rightarrow> budget_ledger" where
  "sample_stage n held ph r = \<lparr>root_id = sample_id 1, accounts =
     [sample_account 1 None (from_units 100 0 0 5 5) (from_units n 0 0 1 0) amounts_zero
        (from_units (60 - n) 0 0 2 3) ph,
      sample_account 2 (Some (sample_id 1)) (from_units 60 0 0 3 3) (from_units n 0 0 1 0)
        (tokens held) amounts_zero ph],
     reservations = [r]\<rparr>"

definition sample_record :: "budget_amounts \<Rightarrow> reservation_phase \<Rightarrow> sha256_digest option
    \<Rightarrow> sha256_digest option \<Rightarrow> reservation_record" where
  "sample_record used ph act obs = \<lparr>request = sample_request, observed = used, reservation_phase = ph,
     activation_evidence = act, observation_evidence = obs, final_evidence = None,
     final_reported = None, finality = None\<rparr>"

definition sample_begun :: budget_ledger where
  "sample_begun = sample_stage 0 40 Open (sample_record amounts_zero Held None None)"

definition sample_active :: budget_ledger where
  "sample_active = sample_stage 0 40 Open (sample_record amounts_zero Active (Some (low_digest 2)) None)"

definition sample_observed :: budget_ledger where
  "sample_observed = sample_stage 10 30 Open
     (sample_record (tokens 10) Active (Some (low_digest 2)) (Some (low_digest 3)))"

definition sample_overrun :: budget_ledger where
  "sample_overrun = sample_stage 40 0 Faulted
     ((sample_record (tokens 40) OverrunFaulted (Some (low_digest 2)) (Some (low_digest 3)))
       \<lparr>final_evidence := Some (low_digest 3), final_reported := Some (tokens 50), finality := Some Interim\<rparr>)"

lemmas stage_defs = sample_defs sample_stage_def sample_record_def sample_begun_def sample_active_def
  sample_observed_def sample_overrun_def

lemma sample_tree_inv: "ledger_inv sample_tree"
  using sample_allocates unfolding transition_Ok by (auto intro: accepts_inv)

lemma sample_begins:
  "transition sample_tree (Begin sample_request)
     = Some (Ok (sample_begun, receipt_new BeginOperation Applied (sample_id 2)
         (Some (BudgetReservationId (low_identifier 1))) (from_units 0 0 0 1 0) amounts_zero None None))"
  unfolding transition_valid[OF sample_tree_inv]
  by (simp add: begin_reservation_def require_open_lineage_def require_open_parent_chain.simps
      apply_new_begin_def retry_required_def validate_attempt_charge_def charge_lineage_def
      ledger_eval stage_defs amounts_eval)

lemma sample_begun_inv: "ledger_inv sample_begun"
  using sample_begins unfolding transition_Ok by (auto intro: accepts_inv)

lemma sample_activates:
  "transition sample_begun (Activate sample_activation)
     = Some (Ok (sample_active, bound_receipt ActivateOperation Applied (sample_id 2)
         (BudgetReservationId (low_identifier 1)) (low_digest 2)))"
  unfolding transition_valid[OF sample_begun_inv]
  by (simp add: activate_def require_binding_def ledger_eval stage_defs)

lemma sample_active_inv: "ledger_inv sample_active"
  using sample_activates unfolding transition_Ok by (auto intro: accepts_inv)

lemmas observe_eval = observe_validated_def require_binding_def apply_interim_validated_def
  apply_final_validated_def apply_overrun_validated_def release_same release_full_reservation_def
  release_operation_reservation_validated_def charge_lineage_def fault_lineage_def
  outstanding_validated_def outstanding_def is_live_def make_overrun_receipt_def

lemma sample_observes:
  "transition sample_active (ObserveUsage (sample_usage 10 Interim))
     = Some (Ok (sample_observed, observe_receipt (sample_usage 10 Interim) Applied (sample_id 2)
         (tokens 10) amounts_zero))"
  unfolding transition_valid[OF sample_active_inv]
  by (simp add: observe_eval observe_receipt_def ledger_eval stage_defs amounts_eval)

lemma sample_observed_inv: "ledger_inv sample_observed"
  using sample_observes unfolding transition_Ok by (auto intro: accepts_inv)

lemma sample_overruns:
  "transition sample_observed (ObserveUsage (sample_usage 50 Interim))
     = Some (Ok (sample_overrun, observe_receipt (sample_usage 50 Interim) OverrunFaultedReceipt
         (sample_id 2) (tokens 30) amounts_zero))"
  unfolding transition_valid[OF sample_observed_inv]
  by (simp add: observe_eval observe_receipt_def ledger_eval stage_defs amounts_eval)

end
