(* ===== verification/Budget_Consequences.thy ===== *)
theory Budget_Consequences
  imports Budget_Examples
begin

text \<open>
  What follows from the machine for a single step and for whole runs: which refusals a valid
  ledger can give, how free capacity moves, that redelivered commands replay, and that an overrun
  stops the growth of the tree.
\<close>

section \<open>Refusals\<close>

lemma require_open_lineage_Err:
  assumes "ledger_inv l" and "require_open_lineage l b = Some (Err e)"
  shows "error_kind e \<in> {UnknownBudget, AccountNotOpen}"
  using assms(2) unfolding require_open_lineage_result[OF ledger_inv_tree[OF assms(1)]]
  by (auto split: option.splits)

lemma allocate_Err:
  assumes inv: "ledger_inv l" and err: "allocate_child l q = Some (Err e)"
  shows "error_kind e \<in> {DuplicateBudgetConflict, UnknownBudget, AccountNotOpen, BindingMismatch, InsufficientBudget}"
proof (cases "find_account l (child_id q)")
  case (Some i)
  with err show ?thesis by (auto simp: allocate_child_def Let_def split: if_splits)
next
  case fresh: None
  show ?thesis
  proof (cases "require_open_lineage l (child_parent_id q)")
    case None
    with fresh err show ?thesis by (simp add: allocate_child_def)
  next
    case (Some r)
    show ?thesis
    proof (cases r)
      case (Inl x)
      with Some fresh err show ?thesis
        using require_open_lineage_Err[OF inv] by (fastforce simp: allocate_child_def)
    next
      case (Inr i)
      with Some have i: "find_account l (child_parent_id q) = Some i"
        "\<forall>k\<in>set (lineage (accounts l) i). account_phase (accounts l ! k) = Open"
        using require_open_lineage_Ok[OF ledger_inv_tree[OF inv]] by auto
      obtain avail where avail: "available (accounts l ! i) = Ok avail"
        by (rule ledger_inv_available[OF inv i(1)])
      have "\<not> (revision (accounts l ! i) = child_revision q \<and> fits_within (limit_amounts (child_limits q)) avail)"
        using allocate_result[OF inv i _ fresh avail] err by force
      with fresh Some Inr avail err show ?thesis
        by (auto simp: allocate_child_def Let_def split: if_splits)
    qed
  qed
qed

lemma retry_loop_Err:
  "retry_loop q b rs = Err e \<Longrightarrow> error_kind e \<in> {BindingMismatch, PriorAttemptUnresolved}"
  by (induction q b rs rule: retry_loop.induct) (auto split: if_splits)

text \<open>A begin refused for lack of capacity names the account and the dimensions that lack it.\<close>

definition lacks_capacity :: "budget_ledger \<Rightarrow> budget_request \<Rightarrow> budget_error \<Rightarrow> bool" where
  "lacks_capacity l q e \<longleftrightarrow> (\<exists>i avail. find_account l (request_budget_id q) = Some i
     \<and> available (accounts l ! i) = Ok avail \<and> error_budget_id e = Some (request_budget_id q)
     \<and> (\<forall>d. dimension_set_contains (limiting_dimensions e) d
          \<longleftrightarrow> amt avail d < amt (consume_now q) d + amt (reserve q) d)
     \<and> \<not> dimension_set_is_empty (limiting_dimensions e))"

definition begin_refusal :: "budget_ledger \<Rightarrow> budget_request \<Rightarrow> budget_error \<Rightarrow> bool" where
  "begin_refusal l q e \<longleftrightarrow> error_kind e \<in> {DuplicateReservationConflict, EmptyRequest, UnknownBudget,
       AccountNotOpen, BindingMismatch, PriorAttemptUnresolved, InvalidAttemptAccounting}
     \<or> error_kind e = Arithmetic \<and> \<not> is_ok (amounts_checked_add (consume_now q) (reserve q))
     \<or> error_kind e = InsufficientBudget \<and> lacks_capacity l q e"

lemma begin_refusal_new:
  assumes inv: "ledger_inv l" and err: "begin_reservation l q = Some (Err e)"
    and fresh: "find_reservation l (request_reservation_id q) = None"
    and req: "amounts_checked_add (consume_now q) (reserve q) = Ok req"
    and nonzero: "\<not> amounts_is_zero req"
    and line: "require_open_lineage l (request_budget_id q) = Some (Ok i)"
  shows "begin_refusal l q e"
proof -
  have i: "find_account l (request_budget_id q) = Some i" "lineage_open l i"
    using line require_open_lineage_Ok[OF ledger_inv_tree[OF inv]] by (auto simp: lineage_open_def)
  obtain avail where avail: "available (accounts l ! i) = Ok avail"
    by (rule ledger_inv_available[OF inv i(1)])
  note ev = begin_reservation_def fresh req nonzero line avail
  have reqd: "amt req d = amt (consume_now q) d + amt (reserve q) d" for d
    using req by (simp add: amounts_checked_add_Ok)
  consider (binding) "revision (accounts l ! i) \<noteq> request_revision q"
    | (retry) x where "revision (accounts l ! i) = request_revision q"
        "retry_required l q (length (reservations l)) = Err x"
    | (charge) retry x where "revision (accounts l ! i) = request_revision q"
        "retry_required l q (length (reservations l)) = Ok retry" "validate_attempt_charge q retry = Err x"
    | (capacity) retry where "revision (accounts l ! i) = request_revision q"
        "retry_required l q (length (reservations l)) = Ok retry" "validate_attempt_charge q retry = Ok ()"
    by (metis old.sum.exhaust old.unit.exhaust)
  then show ?thesis
  proof cases
    case binding
    with err show ?thesis by (auto simp: ev begin_refusal_def)
  next
    case retry
    with err have "e = x" by (simp add: ev)
    with retry(2) retry_loop_Err show ?thesis unfolding retry_required_def begin_refusal_def by blast
  next
    case charge
    with err have "e = x" by (simp add: ev)
    with charge(3) show ?thesis
      by (auto simp: validate_attempt_charge_def begin_refusal_def split: if_splits)
  next
    case capacity
    have attempt: "attempt_ok (reservations l) q" using capacity attempt_ok_now by blast
    have short: "\<not> fits_within req avail"
    proof
      assume fits: "fits_within req avail"
      then have "has_room (accounts l ! i) (\<lambda>d. amt (consume_now q) d + amt (reserve q) d)"
        by (simp add: has_room_available[OF avail] fits_within_iff reqd)
      then obtain l' rc where "apply_new_begin l i q = Ok (l', rc)"
        using new_begin_result[OF inv fresh i capacity(1) attempt] by metis
      with capacity fits err show False by (simp add: ev)
    qed
    with capacity err have e: "e = insufficient_failure (request_budget_id q) (exceeding_dimensions req avail)"
      by (simp add: ev)
    then have dims: "dimension_set_contains (limiting_dimensions e) d
        \<longleftrightarrow> amt avail d < amt (consume_now q) d + amt (reserve q) d" for d
      by (simp add: insufficient_failure_def exceeding_dimensions_contains reqd)
    moreover have "\<not> dimension_set_is_empty (limiting_dimensions e)"
      using short dims by (simp add: dimension_set_is_empty_iff fits_within_iff reqd not_le)
    ultimately show ?thesis
      using i(1) avail e by (simp add: begin_refusal_def lacks_capacity_def insufficient_failure_def)
  qed
qed

lemma begin_Err:
  assumes inv: "ledger_inv l" and err: "begin_reservation l q = Some (Err e)"
  shows "begin_refusal l q e"
proof -
  obtain r where r: "require_open_lineage l (request_budget_id q) = Some r"
    unfolding require_open_lineage_result[OF ledger_inv_tree[OF inv]] by blast
  consider (known) n where "find_reservation l (request_reservation_id q) = Some n"
    | (overflow) a where "find_reservation l (request_reservation_id q) = None"
        "amounts_checked_add (consume_now q) (reserve q) = Err a"
    | (empty) req where "find_reservation l (request_reservation_id q) = None"
        "amounts_checked_add (consume_now q) (reserve q) = Ok req" "amounts_is_zero req"
    | (closed) req r where "find_reservation l (request_reservation_id q) = None"
        "amounts_checked_add (consume_now q) (reserve q) = Ok req" "\<not> amounts_is_zero req"
        "require_open_lineage l (request_budget_id q) = Some (Err r)"
    | (new) req i where "find_reservation l (request_reservation_id q) = None"
        "amounts_checked_add (consume_now q) (reserve q) = Ok req" "\<not> amounts_is_zero req"
        "require_open_lineage l (request_budget_id q) = Some (Ok i)"
    using r by (cases "find_reservation l (request_reservation_id q)";
        cases "amounts_checked_add (consume_now q) (reserve q)"; cases r) blast+
  then show ?thesis
  proof cases
    case known
    with err show ?thesis by (auto simp: begin_reservation_def begin_refusal_def split: if_splits)
  next
    case overflow
    with err show ?thesis by (auto simp: begin_reservation_def begin_refusal_def)
  next
    case empty
    with err show ?thesis by (auto simp: begin_reservation_def begin_refusal_def)
  next
    case closed
    with err have "e = r" by (simp add: begin_reservation_def)
    with closed(4) require_open_lineage_Err[OF inv] show ?thesis by (auto simp: begin_refusal_def)
  next
    case new
    then show ?thesis by (rule begin_refusal_new[OF inv err])
  qed
qed

text \<open>The commands on reservations and accounts.\<close>

lemma activate_Err:
  "activate l act = Err e \<Longrightarrow> error_kind e \<in> {UnknownReservation, BindingMismatch, InvalidReservationPhase}"
  by (cases "find_reservation l (activation_reservation_id act)")
    (auto simp: activate_def require_reservation_def require_binding_if Let_def
      split: if_splits reservation_phase.splits)

lemma observe_Err:
  assumes inv: "ledger_inv l" and err: "observe_validated l obs = Err e"
  shows "error_kind e \<in> {UnknownReservation, BindingMismatch, InvalidReservationPhase, NonmonotonicObservation}"
proof (cases "find_reservation l (observation_reservation_id obs)")
  case None
  with err show ?thesis by (auto simp: observe_validated_def require_reservation_def Let_def)
next
  case (Some n)
  let ?r = "reservations l ! n"
  have len: "n < length (reservations l)" using find_reservation_bound[OF Some] by simp
  show ?thesis
  proof (cases "bound_to ?r (observation_action_id obs) (observation_action_digest obs)")
    case False
    with Some err show ?thesis
      by (auto simp: observe_validated_def require_reservation_def require_binding_if Let_def)
  next
    case b: True
    show ?thesis
    proof (cases "reservation_phase ?r = Active")
      case False
      then show ?thesis
        using err Some b by (auto simp: observe_validated_def require_reservation_def require_binding_if
            replay_final_observation_validated_def Let_def split: if_splits sum.splits reservation_phase.splits)
    next
      case active: True
      note err' = err[unfolded observe_dispatch(2)[OF Some b active]]
      have "apply_overrun_validated l n obs \<noteq> Err e" if "\<not> fits_within (cumulative obs) (reserve (request ?r))"
        using apply_overrun_result[OF inv len refl active that] by (metis Inl_Inr_False)
      moreover have "apply_final_validated l n obs \<noteq> Err e"
        if "observation_finality obs = Final" "fits_within (observed ?r) (cumulative obs)"
          "fits_within (cumulative obs) (reserve (request ?r))"
        using apply_final_result[OF inv len refl active that] by force
      moreover have "apply_interim_validated l n obs \<noteq> Err e"
        if "observation_finality obs = Interim" "fits_within (observed ?r) (cumulative obs)"
          "fits_within (cumulative obs) (reserve (request ?r))"
        using apply_interim_result[OF inv len refl active that] by force
      ultimately show ?thesis
        using err' by (cases "observation_finality obs") (auto split: if_splits)
    qed
  qed
qed

lemma finalize_Err:
  assumes inv: "ledger_inv l" and err: "finalize_full_ceiling l ref op p = Err e"
    and p: "p = SettledExact \<or> p = SettledAmbiguous"
  shows "error_kind e \<in> {UnknownReservation, BindingMismatch, InvalidReservationPhase}"
proof (cases "find_reservation l (reference_reservation_id ref)")
  case None
  with err show ?thesis by (auto simp: finalize_full_ceiling_def require_reservation_def)
next
  case (Some n)
  let ?r = "reservations l ! n"
  show ?thesis
  proof (cases "reservation_phase ?r = Active \<and> bound_to ?r (reference_action_id ref) (reference_action_digest ref)")
    case True
    then have "\<exists>x. finalize_full_ceiling l ref op p = Ok x"
      using finalize_result[OF inv Some refl _ _ _ p] unfolding bound_to_def by metis
    with err show ?thesis by auto
  next
    case False
    with Some err show ?thesis
      by (auto simp: finalize_full_ceiling_def require_reservation_def require_reference_binding_def
          require_binding_if Let_def split: if_splits)
  qed
qed

lemma cancel_Err:
  "cancel_held l ref = Err e \<Longrightarrow> error_kind e \<in> {UnknownReservation, BindingMismatch, InvalidReservationPhase}"
  by (cases "find_reservation l (reference_reservation_id ref)")
    (auto simp: cancel_held_def require_reservation_def require_reference_binding_def
      require_binding_if Let_def split: if_splits)

lemma seal_Err: "seal_validated l b = Err e \<Longrightarrow> error_kind e = UnknownBudget"
  by (cases "find_account l b")
    (auto simp: seal_validated_def require_account_def split: budget_account_phase.splits)

lemma close_Err:
  assumes inv: "ledger_inv l" and err: "close_validated l b = Err e"
  shows "error_kind e \<in> {UnknownBudget, InvalidAccountPhase, OutstandingWork}"
proof (cases "find_account l b")
  case None
  with err show ?thesis by (auto simp: close_validated_def require_account_def)
next
  case (Some i)
  show ?thesis
  proof (cases "(account_phase (accounts l ! i) = Draining \<or> account_phase (accounts l ! i) = Faulted)
      \<and> \<not> has_live_work l b")
    case True
    then have "\<exists>x. close_validated l b = Ok x" using close_result[OF inv Some] by metis
    with err show ?thesis by auto
  next
    case False
    with Some err show ?thesis
      by (cases "account_phase (accounts l ! i)")
        (auto simp: close_validated_def require_account_def close_apply_def split: if_splits)
  qed
qed

section \<open>Capacity that is free\<close>

definition free_units :: "budget_account \<Rightarrow> budget_dimension \<Rightarrow> nat" where
  "free_units a d = amt (limit_amounts (limits a)) d - amt (consumed a) d
     - amt (operation_reserved a) d - amt (child_delegated_remaining a) d"

lemma settled_free:
  assumes inv: "ledger_inv l" and find: "find_account l b = Some i" and k: "k < length (accounts l)"
    and settled: "settled l l' n i v (\<lambda>d. amt v d + amt w d) r'"
    and held: "amt v d + amt w d \<le> amt (operation_reserved (accounts l ! i)) d"
  shows "free_units (accounts l' ! k) d = free_units (accounts l ! k) d
     + (if account_id (accounts l ! k) = b then amt w d else 0)"
proof -
  have i: "i < length (accounts l)" "account_id (accounts l ! i) = b" using find_account_bound[OF find] by simp_all
  have same: "account_id (accounts l ! k) = b \<longleftrightarrow> k = i"
    using tree_nth_inject[OF ledger_inv_tree[OF inv] k i(1)] i(2) by auto
  have eff: "account_effect (accounts l) (accounts l') i v (\<lambda>d. amt v d + amt w d)"
    using settled by (simp add: settled_def)
  note at = account_effect_at(1)[OF eff k] account_effect_at(3,4,5)[OF eff k, of d]
  have lim: "limits (accounts l' ! k) = limits (accounts l ! k)" using at(1) by (simp add: same_static_def)
  note cap = books_capacity[OF ledger_inv_books[OF inv] k, of d]
  consider "k = i" | "k \<noteq> i" "k \<in> set (lineage (accounts l) i)" | "k \<noteq> i" "k \<notin> set (lineage (accounts l) i)"
    by blast
  then show ?thesis
    unfolding same free_units_def lim
  proof cases
    case 1
    then show "amt (limit_amounts (limits (accounts l ! k))) d - amt (consumed (accounts l' ! k)) d
        - amt (operation_reserved (accounts l' ! k)) d - amt (child_delegated_remaining (accounts l' ! k)) d
      = amt (limit_amounts (limits (accounts l ! k))) d - amt (consumed (accounts l ! k)) d
        - amt (operation_reserved (accounts l ! k)) d - amt (child_delegated_remaining (accounts l ! k)) d
        + (if k = i then amt w d else 0)"
      using at(2-4) held cap by simp
  qed (use at(2-4) cap in simp_all)
qed

definition reservation_command :: "budget_command \<Rightarrow> bool" where
  "reservation_command c = (case c of Activate _ \<Rightarrow> True | ObserveUsage _ \<Rightarrow> True | SettleExact _ \<Rightarrow> True
     | FinalizeAmbiguous _ \<Rightarrow> True | CancelHeld _ \<Rightarrow> True | _ \<Rightarrow> False)"

lemma faulted_free:
  assumes "lineage_faulted as bs S" and "k < length as"
  shows "free_units (bs ! k) d = free_units (as ! k) d"
  using assms by (simp add: lineage_faulted_def free_units_def)

lemma outstanding_held:
  assumes inv: "ledger_inv l" and n: "find_reservation l rid = Some n" and r: "r = reservations l ! n"
    and live: "is_live (reservation_phase r)" and find: "find_account l (request_budget_id (request r)) = Some i"
    and x: "x + amt (observed r) d \<le> amt (reserve (request r)) d"
  shows "x \<le> amt (operation_reserved (accounts l ! i)) d"
proof -
  have len: "n < length (reservations l)" using find_reservation_bound[OF n] by simp
  obtain j where "find_account l (request_budget_id (request (reservations l ! n))) = Some j"
    "\<forall>k\<in>set (lineage (accounts l) j). account_phase (accounts l ! k) \<noteq> Closed"
    "\<And>d. outstanding_units (reservations l ! n) d \<le> amt (operation_reserved (accounts l ! j)) d"
    by (rule live_reservation[OF inv len live[unfolded r]]) (rule that)
  with find have "outstanding_units r d \<le> amt (operation_reserved (accounts l ! i)) d"
    unfolding r by simp
  with x live show ?thesis by (simp add: outstanding_units_def)
qed

lemma applies_free:
  assumes inv: "ledger_inv l" and rc: "reservation_command c" and step: "applies l c l' rc"
    and k: "k < length (accounts l)"
  shows "free_units (accounts l' ! k) d = free_units (accounts l ! k) d
     + (if account_id (accounts l ! k) = receipt_budget_id rc then amt (released rc) d else 0)"
  using step
proof cases
  case (apply_activate act n r i)
  have "settled l l' n i amounts_zero (\<lambda>d. amt amounts_zero d + amt amounts_zero d)
      (r\<lparr>reservation_phase := Active, activation_evidence := Some (activation_evidence_digest act)\<rparr>)"
    using apply_activate(8) by simp
  from settled_free[OF inv apply_activate(7) k this, of d] apply_activate(2)
  show ?thesis by (simp add: receipt_defs)
next
  case (apply_interim obs n r i v)
  have "amt v d + amt amounts_zero d \<le> amt (operation_reserved (accounts l ! i)) d"
    by (rule outstanding_held[OF inv apply_interim(3,4) _ apply_interim(7)])
      (use apply_interim(6,9,11) in \<open>auto simp: is_live_def fits_within_iff add.commute\<close>)
  moreover have "settled l l' n i v (\<lambda>d. amt v d + amt amounts_zero d) (observed_record r obs)"
    using apply_interim(12) by simp
  ultimately show ?thesis
    using settled_free[OF inv apply_interim(7) k, of l' n v amounts_zero] apply_interim(2)
    by (simp add: observe_receipt_def receipt_defs)
next
  case (apply_final obs n r i v w)
  have "amt v d + amt w d \<le> amt (operation_reserved (accounts l ! i)) d"
    by (rule outstanding_held[OF inv apply_final(3,4) _ apply_final(7)])
      (use apply_final(6,10,11) in \<open>auto simp: is_live_def\<close>)
  then show ?thesis
    using settled_free[OF inv apply_final(7) k apply_final(12)] apply_final(2)
    by (simp add: observe_receipt_def receipt_defs)
next
  case (apply_overrun obs n r i v l2)
  have "amt v d + amt amounts_zero d \<le> amt (operation_reserved (accounts l ! i)) d"
    by (rule outstanding_held[OF inv apply_overrun(3,4) _ apply_overrun(7)])
      (use apply_overrun(6,10) in \<open>auto simp: is_live_def\<close>)
  moreover have "settled l l2 n i v (\<lambda>d. amt v d + amt amounts_zero d) (overrun_record r obs)"
    using apply_overrun(11) by simp
  moreover have "k < length (accounts l2)"
    using k apply_overrun(11) by (simp add: settled_def account_effect_def)
  ultimately show ?thesis
    using settled_free[OF inv apply_overrun(7) k, of l2 n v amounts_zero] apply_overrun(2)
      faulted_free[OF apply_overrun(14)] by (simp add: observe_receipt_def receipt_defs)
next
  case (apply_settle ref n r i op p v)
  have "amt v d + amt amounts_zero d \<le> amt (operation_reserved (accounts l ! i)) d"
    by (rule outstanding_held[OF inv apply_settle(2,3) _ apply_settle(6)])
      (use apply_settle(5,8) in \<open>auto simp: is_live_def\<close>)
  moreover have "settled l l' n i v (\<lambda>d. amt v d + amt amounts_zero d)
      (ceiling_record r p (reference_evidence_digest ref))"
    using apply_settle(9) by simp
  ultimately show ?thesis
    using settled_free[OF inv apply_settle(6) k, of l' n v amounts_zero] apply_settle(1)
    by (simp add: receipt_defs)
next
  case (apply_cancel ref n r i)
  have valid: "record_phase_valid r"
    using record_phase_ok[OF inv] find_reservation_bound[OF apply_cancel(3)] apply_cancel(4) by simp
  then have "observed r = amounts_zero"
    using apply_cancel(6) by (simp add: record_phase_valid_def amounts_is_zero_eq)
  then have "amt amounts_zero d + amt (reserve (request r)) d \<le> amt (operation_reserved (accounts l ! i)) d"
    by (intro outstanding_held[OF inv apply_cancel(3,4) _ apply_cancel(7)])
      (use apply_cancel(6) in \<open>auto simp: is_live_def\<close>)
  moreover have "settled l l' n i amounts_zero (\<lambda>d. amt amounts_zero d + amt (reserve (request r)) d)
      (r\<lparr>reservation_phase := CancelledHeld, final_evidence := Some (reference_evidence_digest ref)\<rparr>)"
    using apply_cancel(8) by simp
  ultimately show ?thesis
    using settled_free[OF inv apply_cancel(7) k, of l' n amounts_zero "reserve (request r)"] apply_cancel(2)
    by (simp add: receipt_defs)
qed (use rc in \<open>auto simp: reservation_command_def\<close>)

lemma replays_released: "replays l c rc \<Longrightarrow> charged rc = amounts_zero \<and> released rc = amounts_zero"
  by (induction rule: replays.induct) (auto simp: observe_receipt_def receipt_defs)

section \<open>Redelivered commands\<close>

lemma settled_find:
  assumes "settled l l' n i v x r'" and "find_reservation l rid = Some n"
  shows "find_reservation l' rid = Some n" and "reservations l' ! n = r'"
proof -
  have n: "n < length (reservations l)" using find_reservation_bound[OF assms(2)] by simp
  then show "reservations l' ! n = r'" using assms(1) by (simp add: settled_def)
  show "find_reservation l' rid = Some n"
    using reservation_table.find_update[OF n, of r' rid] assms
    by (simp add: settled_def find_reservation_def reservation_key_def)
qed

lemma receipt_kinds [simp]:
  "receipt_kind (receipt op k b) = k" "receipt_kind (receipt_new op k b r c rel rep ev) = k"
  "receipt_kind (bound_receipt op k b rs e) = k" "receipt_kind (observe_receipt obs k b c rel) = k"
  "receipt_operation (receipt op k b) = op" "receipt_operation (receipt_new op k b r c rel rep ev) = op"
  "receipt_operation (bound_receipt op k b rs e) = op"
  "receipt_operation (observe_receipt obs k b c rel) = ObserveUsageOperation"
  by (simp_all add: receipt_defs observe_receipt_def)

lemma redelivered_settled:
  assumes "settled l l' n i v x r'" and "find_reservation l rid = Some n"
    and "bound_to (reservations l ! n) a d"
  shows "find_reservation l' rid = Some n" and "reservations l' ! n = r'" and "bound_to (reservations l' ! n) a d"
  using settled_find[OF assms(1,2)] assms(1,3) by (simp_all add: settled_def bound_to_def)

lemma redelivered:
  assumes inv: "ledger_inv l" and step: "applies l c l' rc"
  shows "\<exists>rc'. replays l' c rc' \<and> receipt_operation rc' = receipt_operation rc"
  using step
proof cases
  case (apply_allocate q i)
  have i: "i < length (accounts l)" using find_account_bound[OF apply_allocate(4)] by simp
  note at = allocated_nth[OF apply_allocate(8) i]
  have inv': "ledger_inv l'" using accepts_inv[OF inv] step by (auto simp: accepts_def)
  have "find_account l' (child_id q) = Some (length (accounts l))"
    by (simp add: find_account_def tree_find[OF ledger_inv_tree[OF inv']] at(1,2))
  from replay_allocate[OF this] show ?thesis
    using apply_allocate(1,2) at(2) by auto
next
  case (apply_begin q i)
  have rs: "reservations l' = reservations l @ [new_record q]" using apply_begin(9) by (simp add: begun_def)
  have "find_reservation l' (request_reservation_id q) = Some (length (reservations l))"
    using apply_begin(3) reservation_table.find_append[of "reservations l" "new_record q"]
    by (simp add: find_reservation_def rs reservation_key_def)
  from replay_begin[OF this] show ?thesis using apply_begin(1,2) by (auto simp: rs)
next
  case (apply_activate act n r i)
  note f = redelivered_settled[OF apply_activate(8,3) apply_activate(5)[unfolded apply_activate(4)]]
  from replay_activate[OF f(1,3)] show ?thesis using apply_activate(1,2) f(2) by auto
next
  case (apply_interim obs n r i v)
  note f = redelivered_settled[OF apply_interim(12,3) apply_interim(5)[unfolded apply_interim(4)]]
  from replay_interim[OF f(1,3)] show ?thesis
    using apply_interim(1,2,6,8) f(2) by (auto simp: observed_record_def)
next
  case (apply_final obs n r i v w)
  note f = redelivered_settled[OF apply_final(12,3) apply_final(5)[unfolded apply_final(4)]]
  from replay_final[OF f(1,3), of Idempotent] show ?thesis
    using apply_final(1,2,8) f(2) by (auto simp: final_record_def)
next
  case (apply_overrun obs n r i v l2)
  note f = redelivered_settled[OF apply_overrun(11,3) apply_overrun(5)[unfolded apply_overrun(4)]]
  have "find_reservation l' (observation_reservation_id obs) = Some n"
    "bound_to (reservations l' ! n) (observation_action_id obs) (observation_action_digest obs)"
    using f apply_overrun(13) by (simp_all add: find_reservation_def)
  from replay_final[OF this, of OverrunFaultedReceipt] show ?thesis
    using apply_overrun(1,2,13) f(2) by (auto simp: overrun_record_def)
next
  case (apply_settle ref n r i op p v)
  note f = redelivered_settled[OF apply_settle(9,2) apply_settle(4)[unfolded apply_settle(3)]]
  have kind: "(c, op, p) \<in> {(SettleExact ref, SettleExactOperation, SettledExact),
      (FinalizeAmbiguous (AmbiguousFinalization ref), FinalizeAmbiguousOperation, SettledAmbiguous),
      (CancelHeld ref, CancelHeldOperation, CancelledHeld)}" using apply_settle(7) by auto
  from replay_settle[OF f(1,3) kind] show ?thesis
    using apply_settle(1) f(2) by (auto simp: ceiling_record_def)
next
  case (apply_cancel ref n r i)
  note f = redelivered_settled[OF apply_cancel(8,3) apply_cancel(5)[unfolded apply_cancel(4)]]
  have kind: "(c, CancelHeldOperation, CancelledHeld) \<in> {(SettleExact ref, SettleExactOperation, SettledExact),
      (FinalizeAmbiguous (AmbiguousFinalization ref), FinalizeAmbiguousOperation, SettledAmbiguous),
      (CancelHeld ref, CancelHeldOperation, CancelledHeld)}" using apply_cancel(1) by auto
  from replay_settle[OF f(1,3) kind] show ?thesis using apply_cancel(2) f(2) by auto
next
  case (apply_seal b i)
  have i: "i < length (accounts l)" using find_account_bound[OF apply_seal(3)] by simp
  have "find_account l' b = Some i"
    using account_table.find_update[OF i, of "(accounts l ! i)\<lparr>account_phase := Draining\<rparr>" b] apply_seal(3,5)
    by (simp add: find_account_def update_account_def)
  from replay_seal[OF this] show ?thesis using apply_seal(1,2,5) i by (auto simp: update_account_nth)
next
  case (apply_close b i u)
  have i: "i < length (accounts l)" using find_account_bound[OF apply_close(3)] by simp
  have "find_account l' b = Some i"
    using apply_close(3) index_of_static[of "accounts l'" "accounts l"] account_closed_at(1)[OF apply_close(7)]
      apply_close(7) by (simp add: find_account_def account_closed_def)
  from replay_close[OF this] show ?thesis
    using apply_close(1,2) account_closed_at(4)[OF apply_close(7) i] by auto
qed

section \<open>Overruns stop the tree\<close>

definition overruns_contained :: "budget_ledger \<Rightarrow> bool" where
  "overruns_contained l \<longleftrightarrow> (\<forall>r\<in>set (reservations l). reservation_phase r = OverrunFaulted \<longrightarrow>
     account_phase (accounts l ! 0) \<in> {Faulted, Closed})"

lemma contained_charges:
  assumes "overruns_contained l" and c: "charges l l' i v"
    and new: "\<And>n. n < length (reservations l') \<Longrightarrow> reservation_phase (reservations l' ! n) = OverrunFaulted \<Longrightarrow>
       n < length (reservations l) \<and> reservation_phase (reservations l ! n) = OverrunFaulted"
  shows "overruns_contained l'"
  unfolding overruns_contained_def
proof (intro ballI impI)
  fix r assume "r \<in> set (reservations l')" "reservation_phase r = OverrunFaulted"
  then obtain n where "n < length (reservations l)" "reservation_phase (reservations l ! n) = OverrunFaulted"
    using new by (metis in_set_conv_nth)
  then have "account_phase (accounts l ! 0) \<in> {Faulted, Closed}"
    using assms(1) nth_mem unfolding overruns_contained_def by blast
  moreover have "0 < length (accounts l)" using c by (auto simp: charges_def)
  then have "phase_moves (account_phase (accounts l ! 0)) (account_phase (accounts l' ! 0))"
    by (rule charges_at(2)[OF c])
  ultimately show "account_phase (accounts l' ! 0) \<in> {Faulted, Closed}" by auto
qed

lemma contained_settled:
  assumes "overruns_contained l" and "charges l l' i v" and settled: "settled l l' n j w x r'"
    and "reservation_phase r' \<noteq> OverrunFaulted"
  shows "overruns_contained l'"
proof (rule contained_charges[OF assms(1,2)])
  fix m assume m: "m < length (reservations l')" "reservation_phase (reservations l' ! m) = OverrunFaulted"
  have rs: "reservations l' = (reservations l)[n := r']" using settled by (simp add: settled_def)
  with m assms(4) have "m \<noteq> n" by auto
  with m rs show "m < length (reservations l) \<and> reservation_phase (reservations l ! m) = OverrunFaulted"
    by simp
qed

lemma accepts_contained:
  assumes inv: "ledger_inv l" and safe: "overruns_contained l" and acc: "accepts l c l' rc"
  shows "overruns_contained l'"
proof -
  have "overruns_contained l'" if step: "applies l c l' rc"
  proof -
    obtain j where c: "charges l l' j (charged rc)" using applies_charges[OF inv step] by blast
    note settled = contained_settled[OF safe c]
    show ?thesis
      using step
    proof cases
      case (apply_allocate q i)
      show ?thesis
        by (rule contained_charges[OF safe c]) (use apply_allocate(8) in \<open>simp_all add: allocated_def\<close>)
    next
      case (apply_begin q i)
      show ?thesis
        by (rule contained_charges[OF safe c])
          (use apply_begin(9) in \<open>auto simp: begun_def nth_append new_record_def less_Suc_eq split: if_splits\<close>)
    next
      case (apply_activate act n r i)
      show ?thesis by (rule settled[OF apply_activate(8)]) simp
    next
      case (apply_interim obs n r i v)
      show ?thesis
        by (rule settled[OF apply_interim(12)]) (use apply_interim(6) in \<open>simp add: observed_record_def\<close>)
    next
      case (apply_final obs n r i v w)
      show ?thesis by (rule settled[OF apply_final(12)]) (simp add: final_record_def)
    next
      case (apply_overrun obs n r i v l2)
      have i: "i < length (accounts l)" using find_account_bound[OF apply_overrun(7)] by simp
      have "0 \<in> set (lineage (accounts l) i)" by (rule lineage_root_member[OF ledger_inv_tree[OF inv] i])
      moreover have "0 < length (accounts l2)"
        using apply_overrun(11) i by (auto simp: settled_def account_effect_def)
      ultimately have "account_phase (accounts l' ! 0) = Faulted"
        using apply_overrun(14) by (simp add: lineage_faulted_def)
      then show ?thesis by (simp add: overruns_contained_def)
    next
      case (apply_settle ref n r i op p v)
      show ?thesis
        by (rule settled[OF apply_settle(9)]) (use apply_settle(7) in \<open>auto simp: ceiling_record_def\<close>)
    next
      case (apply_cancel ref n r i)
      show ?thesis by (rule settled[OF apply_cancel(8)]) simp
    next
      case (apply_seal b i)
      show ?thesis by (rule contained_charges[OF safe c]) (use apply_seal(5) in simp_all)
    next
      case (apply_close b i u)
      show ?thesis by (rule contained_charges[OF safe c]) (use apply_close(9) in simp_all)
    qed
  qed
  with acc safe show ?thesis by (auto simp: accepts_def)
qed

interpretation containment: reducer accepted "\<lambda>l. ledger_inv l \<and> overruns_contained l" evolves
  by unfold_locales
    (auto simp: accepted_def transition_Ok intro: accepts_inv accepts_evolves evolves_trans accepts_contained)

lemma run_commands_contained: "ledger_inv l \<Longrightarrow> overruns_contained l \<Longrightarrow> overruns_contained (run_commands l cs)"
  using containment.run_inv[OF run_commands_reaches] by blast

lemma new_root_contained: "overruns_contained (new_root root rv lims)"
  by (simp add: overruns_contained_def new_root_def)

lemma no_growth_when_contained:
  assumes inv: "ledger_inv l" and safe: "overruns_contained l"
    and r: "r \<in> set (reservations l)" "reservation_phase r = OverrunFaulted"
    and acc: "accepts l c l' rc" and grow: "c = Begin q \<or> c = AllocateChild a"
  shows "l' = l \<and> receipt_kind rc = Idempotent"
proof -
  have root: "account_phase (accounts l ! 0) \<noteq> Open"
    using safe r unfolding overruns_contained_def by fastforce
  have "\<not> lineage_open l i" if "find_account l b = Some i" for i b
    using lineage_root_member[OF ledger_inv_tree[OF inv], of i] find_account_bound[OF that] root
    unfolding lineage_open_def by blast
  then have "\<not> applies l c l' rc" using grow by (auto elim: applies.cases)
  then have rep: "replays l c rc" and "l' = l" using acc by (auto simp: accepts_def)
  from rep grow have "receipt_kind rc = Idempotent" by (auto elim: replays.cases)
  with \<open>l' = l\<close> show ?thesis by simp
qed

section \<open>Attempts\<close>

lemma history_pair:
  assumes "history_ok rs" and "i < j" and "j < length rs"
    and "same_attempt_lineage (request (rs ! i)) (request (rs ! j))"
  shows "request_action_digest (request (rs ! i)) = request_action_digest (request (rs ! j))"
    and "\<not> is_live (reservation_phase (rs ! i))"
    and "amt (consume_now (request (rs ! j))) Attempts = 1"
    and "amt (consume_now (request (rs ! j))) Retries = 1"
proof -
  have attempt: "attempt_ok (take j rs) (request (rs ! j))" using assms(1,3) by (simp add: history_ok_def)
  have member: "rs ! i \<in> set (take j rs)" using assms(2,3) by (auto simp: in_set_conv_nth intro!: exI[of _ i])
  with attempt assms(4) show "request_action_digest (request (rs ! i)) = request_action_digest (request (rs ! j))"
    "\<not> is_live (reservation_phase (rs ! i))" by (simp_all add: attempt_ok_def)
  have "\<exists>r\<in>set (take j rs). same_attempt_lineage (request r) (request (rs ! j))" using member assms(4) by blast
  with attempt show "amt (consume_now (request (rs ! j))) Attempts = 1"
    "amt (consume_now (request (rs ! j))) Retries = 1"
    unfolding attempt_ok_def attempt_charge_ok_def by simp_all
qed

section \<open>Closing\<close>

lemma closed_free:
  assumes inv: "ledger_inv l" and find: "find_account l b = Some i" and k: "k < length (accounts l)"
    and closed: "account_closed (accounts l) (accounts l') i u"
  shows "free_units (accounts l' ! k) d = free_units (accounts l ! k) d
     + (if parent_id (accounts l ! i) = Some (account_id (accounts l ! k)) then amt u d else 0)"
proof -
  note at = account_closed_at(1,2,3)[OF closed k] account_closed_at(5)[OF closed k, of d]
  have "limits (accounts l' ! k) = limits (accounts l ! k)" using at(1) by (simp add: same_static_def)
  with at(2,3,4) books_capacity[OF ledger_inv_books[OF inv] k, of d]
  show ?thesis by (simp add: free_units_def split: if_splits)
qed

end
