(* ===== verification/Budget_Properties.thy ===== *)
theory Budget_Properties
  imports Budget_Consequences
begin

text \<open>
  The properties of the budget ledger. Each is stated over the executable definitions; the
  witnesses run them on the sample ledger.
\<close>

section \<open>The transition\<close>

text \<open>
  C4. The checked transition accepts a command exactly when the ledger is valid and the abstract
  machine has a replay or a step for it, and it then returns the machine's ledger and receipt: no
  arithmetic failure, walk or validation makes the code refuse a step the machine takes.
\<close>

theorem transition_is_machine:
  "transition l c = Some (Ok (l', rc)) \<longleftrightarrow> ledger_validate l = Ok () \<and> accepts l c l' rc"
proof -
  have "ledger_validate l = Ok () \<longleftrightarrow> ledger_inv l"
    by (auto simp: ledger_validate_def validate_iff_ledger_inv[symmetric] split: sum.splits)
  then show ?thesis by (simp add: transition_Ok)
qed

text \<open>
  C21. The transition returns on every ledger and command: on a ledger whose parents form a cycle,
  where the unbounded parent walk would not end, the validation before it refuses first.
\<close>

theorem transition_always_returns: "\<exists>r. transition l c = Some r"
  using transition_returns[of l c] by auto

text \<open>
  C17. Whatever commands a caller submits to a new root ledger, the ledger it holds is valid.
\<close>

theorem runs_stay_valid: "ledger_validate (run_commands (new_root root rv lims) cs) = Ok ()"
proof -
  have "validate (run_commands (new_root root rv lims) cs) = Ok ()"
    using run_commands_inv[OF new_root_inv] by (simp add: validate_iff_ledger_inv)
  then show ?thesis by (simp add: ledger_validate_def)
qed

text \<open>
  C10. After any commands on a new root ledger the root has consumed, in every dimension, exactly the
  immediate charges and observed usage of all recorded requests of the tree; every account has
  consumed its own requests' usage and its children's consumption; and the total is within the
  root's ceiling.
\<close>

theorem root_spend_is_recorded_usage:
  "let l = run_commands (new_root root rv lims) cs in audited l
     \<and> (\<forall>d. amt (consumed (accounts l ! 0)) d = total_usage (reservations l) d
          \<and> total_usage (reservations l) d \<le> amt (limit_amounts lims) d)"
proof -
  let ?l0 = "new_root root rv lims"
  define l where "l = run_commands ?l0 cs"
  have inv: "ledger_inv l" and audit: "audited l" and moved: "evolves ?l0 l"
    unfolding l_def
    by (rule run_commands_inv[OF new_root_inv], rule run_commands_audited[OF new_root_inv new_root_audited],
        rule run_commands_evolves[OF new_root_inv])
  have spent: "amt (consumed (accounts l ! 0)) d = total_usage (reservations l) d" for d
    by (rule root_consumption[OF inv audit])
  have "0 < length (accounts ?l0)" by (simp add: new_root_def)
  note root = evolves_account(1,2)[OF moved this]
  have "limits (accounts l ! 0) = lims" using root(2) by (simp add: same_static_def new_root_def)
  then have "amt (consumed (accounts l ! 0)) d \<le> amt (limit_amounts lims) d" for d
    using books_capacity[OF ledger_inv_books[OF inv] root(1), of d] by simp
  with spent audit show ?thesis by (simp add: Let_def l_def[symmetric])
qed

text \<open>
  An accepted command charges exactly what its receipt says: consumption grows by that amount
  on the account the receipt names and on each of its ancestors up to the root, and on no other
  account; identities and ceilings stay, phases and reservations only move forward.
\<close>

theorem charge_covers_lineage:
  assumes "transition l c = Some (Ok (l', rc))" and "charged rc \<noteq> amounts_zero"
  shows "\<exists>i. find_account l (receipt_budget_id rc) = Some i \<and> charges l l' i (charged rc)"
proof -
  from assms(1) have "ledger_inv l" "accepts l c l' rc" by (simp_all add: transition_Ok)
  moreover have "\<not> replays l c rc" using assms(2) replays_released by blast
  ultimately show ?thesis using applies_charges[of l c l' rc] assms(2) unfolding accepts_def by blast
qed

theorem charge_covers_lineage_witness:
  "\<exists>i. find_account sample_active (sample_id 2) = Some i \<and> charges sample_active sample_observed i (tokens 10)"
  using charge_covers_lineage[OF sample_observes]
  by (simp add: observe_receipt_def receipt_new_def tokens_def from_units_def amounts_new_def amounts_zero_def)

text \<open>
  C22. Commands on a reservation spend only what it reserved: for every account, free capacity after
  the command is the free capacity before it, plus, on the account the receipt names, what the
  receipt reports as released. In particular a charge that propagates to the ancestors takes
  nothing from their free capacity.
\<close>

theorem reservations_spend_reserved_capacity:
  assumes "transition l c = Some (Ok (l', rc))" and "reservation_command c" and "k < account_count l"
  shows "free_units (accounts l' ! k) d = free_units (accounts l ! k) d
     + (if account_id (accounts l ! k) = receipt_budget_id rc then amt (released rc) d else 0)"
proof -
  from assms(1) have inv: "ledger_inv l" and acc: "accepts l c l' rc" by (simp_all add: transition_Ok)
  have "k < length (accounts l)" using assms(3) by (simp add: account_count_def)
  then have "applies l c l' rc \<Longrightarrow> ?thesis" using applies_free[OF inv assms(2)] by blast
  moreover have "replays l c rc \<Longrightarrow> l' = l \<Longrightarrow> ?thesis" using replays_released by fastforce
  ultimately show ?thesis using acc by (auto simp: accepts_def)
qed

theorem reservations_spend_reserved_capacity_witness:
  "free_units (accounts sample_overrun ! 0) ModelTokens = free_units (accounts sample_observed ! 0) ModelTokens"
  using reservations_spend_reserved_capacity[OF sample_overruns, of 0 ModelTokens]
  by (simp add: reservation_command_def account_count_def observe_receipt_def receipt_new_def stage_defs)

text \<open>
  C23. Redelivery is free: a command that was accepted is accepted again right away, leaves the
  ledger as it is, charges and releases nothing, and its receipt is not an \<open>Applied\<close> one.
\<close>

theorem redelivery_is_free:
  assumes "transition l c = Some (Ok (l', rc))"
  shows "\<exists>rc'. transition l' c = Some (Ok (l', rc')) \<and> receipt_kind rc' \<noteq> Applied
     \<and> receipt_operation rc' = receipt_operation rc
     \<and> charged rc' = amounts_zero \<and> released rc' = amounts_zero"
proof -
  from assms have inv: "ledger_inv l" and acc: "accepts l c l' rc" by (simp_all add: transition_Ok)
  have inv': "ledger_inv l'" by (rule accepts_inv[OF inv acc])
  obtain rc' where rep: "replays l' c rc'" "receipt_operation rc' = receipt_operation rc"
    using acc redelivered[OF inv] unfolding accepts_def by blast
  from rep(1) have "receipt_kind rc' \<noteq> Applied" by (auto elim!: replays.cases)
  moreover have "transition l' c = Some (Ok (l', rc'))"
    using inv' rep(1) by (simp add: transition_Ok accepts_def)
  ultimately show ?thesis using rep replays_released by blast
qed

theorem redelivery_is_free_witness:
  "\<exists>rc'. transition sample_overrun (ObserveUsage (sample_usage 50 Interim)) = Some (Ok (sample_overrun, rc'))
     \<and> receipt_kind rc' \<noteq> Applied \<and> charged rc' = amounts_zero"
  using redelivery_is_free[OF sample_overruns] by blast

text \<open>
  C19. An overrun stops the whole tree: once a run holds a reservation that overran its ceiling, no
  command that would take capacity for new work (a begin or a child allocation) is applied, on any
  account; only replays of earlier ones are acknowledged, and they change nothing.
\<close>

theorem overrun_stops_growth:
  assumes "l = run_commands (new_root root rv lims) cs"
    and "r \<in> set (reservations l)" and "reservation_phase r = OverrunFaulted"
    and "c = Begin q \<or> c = AllocateChild a" and "transition l c = Some (Ok (l', rc))"
  shows "l' = l \<and> receipt_kind rc = Idempotent"
proof -
  have "ledger_inv l" "overruns_contained l"
    unfolding assms(1)
    by (rule run_commands_inv[OF new_root_inv],
        rule run_commands_contained[OF new_root_inv new_root_contained])
  then show ?thesis
    using no_growth_when_contained assms(2-5) by (simp add: transition_Ok)
qed

lemma sample_run:
  "run_commands sample_root [AllocateChild sample_child, Begin sample_request, Activate sample_activation,
     ObserveUsage (sample_usage 10 Interim), ObserveUsage (sample_usage 50 Interim)] = sample_overrun"
  by (simp add: sample_allocates sample_begins sample_activates sample_observes sample_overruns)

lemma sample_begin_again:
  "transition sample_overrun (Begin sample_request) = Some (Ok (sample_overrun,
     receipt_new BeginOperation Idempotent (sample_id 2) (Some (BudgetReservationId (low_identifier 1)))
       amounts_zero amounts_zero None None))"
proof -
  have "ledger_inv sample_overrun" using sample_overruns unfolding transition_Ok by (auto intro: accepts_inv)
  from transition_valid[OF this] show ?thesis
    by (simp add: begin_reservation_def ledger_eval stage_defs)
qed

theorem overrun_stops_growth_witness:
  "\<exists>l' rc. transition sample_overrun (Begin sample_request) = Some (Ok (l', rc))
     \<and> l' = sample_overrun \<and> receipt_kind rc = Idempotent"
proof (intro exI conjI)
  have r: "reservations sample_overrun ! 0 \<in> set (reservations sample_overrun)"
    "reservation_phase (reservations sample_overrun ! 0) = OverrunFaulted"
    by (simp_all add: stage_defs)
  show "transition sample_overrun (Begin sample_request) = Some (Ok (sample_overrun,
     receipt_new BeginOperation Idempotent (sample_id 2) (Some (BudgetReservationId (low_identifier 1)))
       amounts_zero amounts_zero None None))"
    by (rule sample_begin_again)
  then show "receipt_kind (receipt_new BeginOperation Idempotent (sample_id 2)
     (Some (BudgetReservationId (low_identifier 1))) amounts_zero amounts_zero None None) = Idempotent"
    using overrun_stops_growth[OF sample_run[symmetric, unfolded sample_root_def] r] by blast
qed simp

section \<open>Refusals\<close>

text \<open>
  C24. On a valid ledger no command is refused as a corrupt state, and an arithmetic failure comes
  only from a begin whose own immediate and reserved amounts overflow when added: none of the
  ledger's checked additions, subtractions and lookups can fail once the guards have passed.
\<close>

theorem refusals_never_report_corruption:
  assumes "ledger_validate l = Ok ()" and "transition l c = Some (Err e)"
  shows "error_kind e \<noteq> CorruptState \<and> (error_kind e = Arithmetic \<longrightarrow>
     (\<exists>q. c = Begin q \<and> \<not> is_ok (amounts_checked_add (consume_now q) (reserve q))))"
proof -
  have inv: "ledger_inv l"
    using assms(1) by (auto simp: ledger_validate_def validate_iff_ledger_inv[symmetric] split: sum.splits)
  with assms(2) have err: "apply_validated l c = Some (Err e)" using transition_valid by simp
  show ?thesis
  proof (cases c)
    case (AllocateChild q)
    with err allocate_Err[OF inv] show ?thesis by fastforce
  next
    case (Begin q)
    with err begin_Err[OF inv, of q e] show ?thesis by (auto simp: begin_refusal_def)
  next
    case (ObserveUsage obs)
    with err observe_Err[OF inv, of obs e] show ?thesis by auto
  next
    case (SettleExact ref)
    with err finalize_Err[OF inv, of ref SettleExactOperation SettledExact e]
    show ?thesis by (auto simp: settle_exact_def)
  next
    case (FinalizeAmbiguous f)
    with err finalize_Err[OF inv, of "finalization_reference f" FinalizeAmbiguousOperation SettledAmbiguous e]
    show ?thesis by (auto simp: finalize_ambiguous_def)
  next
    case (Close b)
    with err close_Err[OF inv, of b e] show ?thesis by auto
  next
    case (Activate act)
    with err activate_Err[of l act e] show ?thesis by auto
  next
    case (CancelHeld ref)
    with err cancel_Err[of l ref e] show ?thesis by auto
  next
    case (Seal b)
    with err seal_Err[of l b e] show ?thesis by auto
  qed
qed

lemma sample_root_valid: "ledger_validate sample_root = Ok ()"
  using sample_root_inv by (simp add: ledger_validate_def validate_iff_ledger_inv[symmetric])

theorem refusals_never_report_corruption_witness:
  "\<exists>e. transition sample_root (Seal (sample_id 9)) = Some (Err e) \<and> error_kind e \<noteq> CorruptState"
proof (intro exI conjI)
  show "transition sample_root (Seal (sample_id 9)) = Some (Err (budget_failure UnknownBudget (sample_id 9)))"
    unfolding transition_valid[OF sample_root_inv]
    by (simp add: seal_validated_def ledger_eval sample_defs)
  from refusals_never_report_corruption[OF sample_root_valid this]
  show "error_kind (budget_failure UnknownBudget (sample_id 9)) \<noteq> CorruptState" by blast
qed

text \<open>
  A begin refused for insufficient budget names the requested account and exactly the dimensions
  in which its available capacity is below the immediate and reserved amounts together, and there
  is at least one.
\<close>

theorem insufficient_names_dimensions:
  assumes "transition l (Begin q) = Some (Err e)" and "error_kind e = InsufficientBudget"
  shows "\<exists>i avail. find_account l (request_budget_id q) = Some i
     \<and> available (accounts l ! i) = Ok avail \<and> error_budget_id e = Some (request_budget_id q)
     \<and> (\<forall>d. dimension_set_contains (limiting_dimensions e) d
          \<longleftrightarrow> amt avail d < amt (consume_now q) d + amt (reserve q) d)
     \<and> \<not> dimension_set_is_empty (limiting_dimensions e)"
proof (cases "ledger_inv l")
  case True
  with assms(1) have "begin_refusal l q e" using begin_Err transition_valid by simp
  with assms(2) show ?thesis by (simp add: begin_refusal_def lacks_capacity_def)
next
  case False
  then have "transition l (Begin q) = Some (Err (corrupt (root_id l)))" by (simp add: transition_def valid_iff)
  with assms(1) have "error_kind e = CorruptState" by (auto simp: corrupt_def)
  with assms(2) show ?thesis by simp
qed

theorem insufficient_names_dimensions_witness:
  "\<exists>e. transition sample_tree (Begin (sample_request\<lparr>reserve := tokens 70\<rparr>)) = Some (Err e)
     \<and> error_budget_id e = Some (sample_id 2) \<and> dimension_set_contains (limiting_dimensions e) ModelTokens"
proof (intro exI conjI)
  let ?q = "sample_request\<lparr>reserve := tokens 70\<rparr>"
  let ?e = "insufficient_failure (sample_id 2) (exceeding_dimensions (from_units 70 0 0 1 0) (from_units 60 0 0 3 3))"
  show err: "transition sample_tree (Begin ?q) = Some (Err ?e)"
    unfolding transition_valid[OF sample_tree_inv]
    by (simp add: begin_reservation_def require_open_lineage_def require_open_parent_chain.simps
        retry_required_def validate_attempt_charge_def ledger_eval stage_defs amounts_eval)
  have "error_kind ?e = InsufficientBudget" by (simp add: insufficient_failure_def)
  from insufficient_names_dimensions[OF err this]
  have "error_budget_id ?e = Some (request_budget_id ?q)" by blast
  then show "error_budget_id ?e = Some (sample_id 2)" by (simp add: sample_request_def)
  show "dimension_set_contains (limiting_dimensions ?e) ModelTokens"
    by (simp add: insufficient_failure_def exceeding_dimensions_def dimension_set_from_members_def amounts_eval)
qed

section \<open>Runs\<close>

text \<open>
  C25. Runs only move forward: whatever is submitted after a run, every account and request is still
  there with its identity, parent, revision and ceiling; consumption and observed usage never
  shrink, a child's consumption never grows by more than its parent's; faults and closings are
  never undone, and a settled reservation never changes.
\<close>

theorem runs_only_move_forward:
  "evolves (run_commands (new_root root rv lims) cs) (run_commands (new_root root rv lims) (cs @ ds))"
  unfolding run_commands_append
  by (rule run_commands_evolves[OF run_commands_inv[OF new_root_inv]])

text \<open>
  C26. Validation is a decision procedure: it accepts exactly the ledgers that satisfy the invariant
  stated over all accounts, reservations and dimensions, and refuses any other as a corrupt state
  of its root.
\<close>

theorem validation_decides_invariant:
  "ledger_validate l = (if ledger_inv l then Ok () else Err (corrupt (root_id l)))"
  by (cases "validate l") (auto simp: ledger_validate_def validate_iff_ledger_inv[symmetric])

text \<open>
  On a valid ledger the executable refinement check accepts exactly the successors that keep
  identities and requests, never lower consumption, and whose changed accounts raise their parent
  by the same amounts.
\<close>

theorem refinement_check_decides:
  "validate l = Ok () \<and> validate_refinement l l' = Ok () \<longleftrightarrow> ledger_inv l \<and> refines l l'"
  using validate_refinement_Ok[OF ledger_inv_tree] by (auto simp: validate_iff_ledger_inv)

text \<open>
  The validations after the command never refuse: the transition is the validation of the
  ledger it is given, followed by the dispatched command.
\<close>

theorem checks_after_command_pass:
  "transition l c = (if is_ok (validate l) then apply_validated l c else Some (Err (corrupt (root_id l))))"
  using transition_valid by (simp add: valid_iff transition_def)

text \<open>
  C27. Attempts of one action are sequential: in a run, when two requests have the same revision and
  action, the earlier one has the same action digest and is settled, and the later one was charged
  one attempt and one retry.
\<close>

theorem attempts_are_sequential:
  assumes "l = run_commands (new_root root rv lims) cs" and "i < j" and "j < reservation_count l"
    and "same_attempt_lineage (request (reservations l ! i)) (request (reservations l ! j))"
  shows "request_action_digest (request (reservations l ! i)) = request_action_digest (request (reservations l ! j))
     \<and> \<not> is_live (reservation_phase (reservations l ! i))
     \<and> amt (consume_now (request (reservations l ! j))) Attempts = 1
     \<and> amt (consume_now (request (reservations l ! j))) Retries = 1"
proof -
  have "ledger_inv l" unfolding assms(1) by (rule run_commands_inv[OF new_root_inv])
  then have "history_ok (reservations l)" by (simp add: ledger_inv_def)
  from history_pair[OF this assms(2) _ assms(4)] assms(3) show ?thesis by (simp add: reservation_count_def)
qed

definition sample_attempt :: "u8 \<Rightarrow> u64 \<Rightarrow> budget_request" where
  "sample_attempt n retry = sample_request\<lparr>request_reservation_id := BudgetReservationId (low_identifier n),
     request_budget_id := sample_id 1, consume_now := from_units 5 0 0 1 retry, reserve := amounts_zero\<rparr>"

lemma sample_attempts:
  "run_commands sample_root [Begin (sample_attempt 1 0), Begin (sample_attempt 2 1)]
     = \<lparr>root_id = sample_id 1, accounts = [sample_account 1 None (from_units 100 0 0 5 5)
         (from_units 10 0 0 2 1) amounts_zero amounts_zero Open],
        reservations = [new_record (sample_attempt 1 0), new_record (sample_attempt 2 1)]\<rparr>" (is "_ = ?l2")
proof -
  let ?l1 = "\<lparr>root_id = sample_id 1, accounts = [sample_account 1 None (from_units 100 0 0 5 5)
      (from_units 5 0 0 1 0) amounts_zero amounts_zero Open], reservations = [new_record (sample_attempt 1 0)]\<rparr>"
  note eval = begin_reservation_def require_open_lineage_def require_open_parent_chain.simps
    apply_new_begin_def retry_required_def validate_attempt_charge_def charge_lineage_def new_record_def
    sample_attempt_def ledger_eval stage_defs amounts_eval
  have one: "\<exists>rc. transition sample_root (Begin (sample_attempt 1 0)) = Some (Ok (?l1, rc))"
    unfolding transition_valid[OF sample_root_inv] by (simp add: eval)
  then have "ledger_inv ?l1" unfolding transition_Ok by (auto intro: accepts_inv)
  from transition_valid[OF this] have "\<exists>rc. transition ?l1 (Begin (sample_attempt 2 1)) = Some (Ok (?l2, rc))"
    by (simp add: eval is_live_def)
  with one show ?thesis by auto
qed

theorem attempts_are_sequential_witness:
  "\<exists>l. l = run_commands sample_root [Begin (sample_attempt 1 0), Begin (sample_attempt 2 1)]
     \<and> \<not> is_live (reservation_phase (reservations l ! 0))
     \<and> amt (consume_now (request (reservations l ! 1))) Retries = 1"
proof (intro exI conjI)
  let ?l = "run_commands sample_root [Begin (sample_attempt 1 0), Begin (sample_attempt 2 1)]"
  have "0 < (1::nat)" "1 < reservation_count ?l"
    "same_attempt_lineage (request (reservations ?l ! 0)) (request (reservations ?l ! 1))"
    unfolding sample_attempts by (simp_all add: reservation_count_def same_attempt_lineage_def sample_attempt_def)
  from attempts_are_sequential[OF _ this] show "\<not> is_live (reservation_phase (reservations ?l ! 0))"
    "amt (consume_now (request (reservations ?l ! 1))) Retries = 1"
    unfolding sample_root_def by blast+
qed simp

section \<open>Closing and projections\<close>

text \<open>
  C28. Closing an account that still exists and is not closed needs it to be sealed or faulted and
  free of live reservations and open children; it releases exactly the account's unconsumed
  ceiling, to the free capacity of its parent and of no other account.
\<close>

theorem close_returns_unused:
  assumes "transition l (Close b) = Some (Ok (l', rc))" and "receipt_kind rc = Applied"
  shows "\<exists>i. find_account l b = Some i \<and> account_phase (accounts l ! i) \<in> {Draining, Faulted}
     \<and> \<not> has_live_work l b \<and> account_phase (accounts l' ! i) = Closed
     \<and> (\<forall>d. amt (released rc) d = unused_units (accounts l ! i) d)
     \<and> (\<forall>k<length (accounts l). \<forall>d. free_units (accounts l' ! k) d = free_units (accounts l ! k) d
          + (if parent_id (accounts l ! i) = Some (account_id (accounts l ! k)) then amt (released rc) d else 0))"
proof -
  from assms(1) have inv: "ledger_inv l" and acc: "accepts l (Close b) l' rc" by (simp_all add: transition_Ok)
  have "\<not> replays l (Close b) rc" using assms(2) by (auto elim: replays.cases)
  with acc have "applies l (Close b) l' rc" by (simp add: accepts_def)
  then show ?thesis
  proof cases
    case (apply_close i u)
    have i: "i < length (accounts l)" using find_account_bound[OF apply_close(2)] by simp
    have "released rc = u" using apply_close(1) by (simp add: receipt_new_def)
    with apply_close closed_free[OF inv apply_close(2) _ apply_close(6)] account_closed_at(4)[OF apply_close(6) i]
    show ?thesis by auto
  qed simp
qed

definition sample_draining :: budget_ledger where
  "sample_draining = update_account sample_tree 1 (\<lambda>a. a\<lparr>account_phase := Draining\<rparr>)"

definition sample_closed :: budget_ledger where
  "sample_closed = \<lparr>root_id = sample_id 1, accounts =
     [sample_account 1 None (from_units 100 0 0 5 5) amounts_zero amounts_zero amounts_zero Open,
      sample_account 2 (Some (sample_id 1)) (from_units 60 0 0 3 3) amounts_zero amounts_zero amounts_zero Closed],
     reservations = []\<rparr>"

lemma sample_closes:
  "transition sample_draining (Close (sample_id 2)) = Some (Ok (sample_closed,
     receipt_new CloseOperation Applied (sample_id 2) None amounts_zero (from_units 60 0 0 3 3) None None))"
proof -
  have "transition sample_tree (Seal (sample_id 2))
      = Some (Ok (sample_draining, receipt SealOperation Applied (sample_id 2)))"
    unfolding transition_valid[OF sample_tree_inv]
    by (simp add: seal_validated_def sample_draining_def ledger_eval stage_defs)
  then have "ledger_inv sample_draining" unfolding transition_Ok by (auto intro: accepts_inv)
  from transition_valid[OF this] show ?thesis
    by (simp add: close_validated_def close_apply_def has_live_work_iff sample_draining_def
        sample_closed_def ledger_eval stage_defs amounts_eval)
qed

theorem close_returns_unused_witness:
  "free_units (accounts sample_closed ! 0) ModelTokens
     = free_units (accounts sample_draining ! 0) ModelTokens + 60"
proof -
  let ?rc = "receipt_new CloseOperation Applied (sample_id 2) None amounts_zero (from_units 60 0 0 3 3) None None"
  have "receipt_kind ?rc = Applied" by simp
  from close_returns_unused[OF sample_closes this] obtain i where i:
    "find_account sample_draining (sample_id 2) = Some i"
    "\<forall>k<length (accounts sample_draining). \<forall>d. free_units (accounts sample_closed ! k) d
       = free_units (accounts sample_draining ! k) d
       + (if parent_id (accounts sample_draining ! i) = Some (account_id (accounts sample_draining ! k))
          then amt (released ?rc) d else 0)" by blast
  have "i = 1" using i(1) by (simp add: sample_draining_def ledger_eval stage_defs)
  with i(2)[rule_format, of 0 ModelTokens] show ?thesis
    by (simp add: sample_draining_def update_account_def stage_defs receipt_new_def amt_simps
        units_def from_units_def amounts_new_def)
qed

text \<open>
  The account projection exists exactly for the known accounts of a valid ledger, and its
  available capacity is what the ceiling leaves after consumption, operation reservations and
  delegation, in every dimension.
\<close>

theorem snapshot_balances:
  "snapshot_account l b = Ok s \<longleftrightarrow> ledger_inv l \<and> (\<exists>i. find_account l b = Some i
     \<and> s = snapshot_from_account (accounts l ! i) (snapshot_available s)
     \<and> (\<forall>d. amt (limit_amounts (limits (accounts l ! i))) d = amt (consumed (accounts l ! i)) d
          + amt (operation_reserved (accounts l ! i)) d + amt (child_delegated_remaining (accounts l ! i)) d
          + amt (snapshot_available s) d))"
proof -
  have avail: "snapshot_available (snapshot_from_account a v) = v" for a v
    by (simp add: snapshot_from_account_def)
  have "snapshot_account l b = Ok s \<longleftrightarrow> validate l = Ok () \<and> (\<exists>i v. find_account l b = Some i
      \<and> available (accounts l ! i) = Ok v \<and> s = snapshot_from_account (accounts l ! i) v)"
    by (auto simp: snapshot_account_def split: sum.splits option.splits)
  also have "\<dots> \<longleftrightarrow> ledger_inv l \<and> (\<exists>i. find_account l b = Some i
      \<and> available (accounts l ! i) = Ok (snapshot_available s)
      \<and> s = snapshot_from_account (accounts l ! i) (snapshot_available s))"
    using avail by (metis validate_iff_ledger_inv)
  finally show ?thesis unfolding available_Ok by blast
qed

text \<open>
  The reservation projection exists exactly for the known reservations of a valid ledger; its
  outstanding amount is the unobserved part of the reserve while the reservation is live, and
  nothing afterwards.
\<close>

theorem reservation_snapshot_outstanding:
  "snapshot_reservation l r = Ok s \<longleftrightarrow> ledger_inv l \<and> (\<exists>n. find_reservation l r = Some n
     \<and> s = snapshot_from_record (reservations l ! n) (view_outstanding s)
     \<and> (\<forall>d. amt (view_outstanding s) d = outstanding_units (reservations l ! n) d))"
proof -
  have out: "view_outstanding (snapshot_from_record x v) = v" for x v
    by (simp add: snapshot_from_record_def)
  have units: "outstanding (reservations l ! n) = Ok v \<longleftrightarrow> (\<forall>d. amt v d = outstanding_units (reservations l ! n) d)"
    if "ledger_inv l" "find_reservation l r = Some n" for n v
  proof -
    have "fits_within (observed (reservations l ! n)) (reserve (request (reservations l ! n)))"
      using record_fits[OF that(1)] find_reservation_bound[OF that(2)] by (simp add: fits_within_iff)
    from outstanding_cases[OF this] show ?thesis by (auto simp: amounts_eq_iff)
  qed
  have "snapshot_reservation l r = Ok s \<longleftrightarrow> validate l = Ok () \<and> (\<exists>n v. find_reservation l r = Some n
      \<and> outstanding (reservations l ! n) = Ok v \<and> s = snapshot_from_record (reservations l ! n) v)"
    by (auto simp: snapshot_reservation_def split: sum.splits option.splits)
  also have "\<dots> \<longleftrightarrow> ledger_inv l \<and> (\<exists>n. find_reservation l r = Some n
      \<and> outstanding (reservations l ! n) = Ok (view_outstanding s)
      \<and> s = snapshot_from_record (reservations l ! n) (view_outstanding s))"
    using out by (metis validate_iff_ledger_inv)
  finally show ?thesis using units by blast
qed

text \<open>
  Adding two vectors fails exactly when some dimension overflows 64 bits, and the error names
  the first such dimension in the order of the source.
\<close>

theorem amounts_add_names_first_overflow:
  "amounts_checked_add v w = Err e \<longleftrightarrow> (\<exists>d. 2 ^ 64 \<le> amt v d + amt w d
     \<and> (\<forall>c. c < d \<longrightarrow> amt v c + amt w c < 2 ^ 64) \<and> e = arithmetic_overflow d)"
proof
  assume "amounts_checked_add v w = Err e"
  then show "\<exists>d. 2 ^ 64 \<le> amt v d + amt w d \<and> (\<forall>c. c < d \<longrightarrow> amt v c + amt w c < 2 ^ 64)
     \<and> e = arithmetic_overflow d" by (rule amounts_checked_add_error)
next
  assume "\<exists>d. 2 ^ 64 \<le> amt v d + amt w d \<and> (\<forall>c. c < d \<longrightarrow> amt v c + amt w c < 2 ^ 64)
     \<and> e = arithmetic_overflow d"
  then obtain d where d: "2 ^ 64 \<le> amt v d + amt w d" "\<forall>c<d. amt v c + amt w c < 2 ^ 64"
    "e = arithmetic_overflow d" by blast
  have "amounts_checked_add v w \<noteq> Ok u" for u
    using d(1) amt_less[of u d] unfolding amounts_checked_add_Ok by (metis leD)
  then obtain e' where e': "amounts_checked_add v w = Err e'" by (cases "amounts_checked_add v w") auto
  from amounts_checked_add_error[OF e'] obtain d' where d': "2 ^ 64 \<le> amt v d' + amt w d'"
    "\<forall>c<d'. amt v c + amt w c < 2 ^ 64" "e' = arithmetic_overflow d'" by blast
  have "d = d'" using d(1,2) d'(1,2) by (metis leD linorder_neqE)
  with d(3) d'(3) e' show "amounts_checked_add v w = Err e" by simp
qed

theorem amounts_add_names_first_overflow_witness:
  "amounts_checked_add (from_units 0 18446744073709551615 18446744073709551615 0 0) (from_units 0 1 1 0 0)
     = Err (arithmetic_overflow ProviderCostMicrounits)"
proof -
  have "2 ^ 64 \<le> amt (from_units 0 18446744073709551615 18446744073709551615 0 0) ProviderCostMicrounits
      + amt (from_units 0 1 1 0 0) ProviderCostMicrounits"
    by (simp add: amt_simps units_def from_units_def amounts_new_def)
  moreover have "\<forall>c. c < ProviderCostMicrounits \<longrightarrow>
      amt (from_units 0 18446744073709551615 18446744073709551615 0 0) c + amt (from_units 0 1 1 0 0) c < 2 ^ 64"
    by (auto simp: all_dimensions less_budget_dimension_def amt_simps units_def from_units_def amounts_new_def)
  ultimately show ?thesis using amounts_add_names_first_overflow by blast
qed

end
