(* ===== verification/Codec_Model.thy ===== *)
theory Codec_Model
  imports Prelude
begin

text \<open>
  \<open>peritus-codec\<close>, files \<open>error.rs\<close>, \<open>limits.rs\<close>, \<open>reader.rs\<close> and \<open>writer.rs\<close>: the failure
  vocabulary, the resource limits, and the primitive reader and writer.

  A reader or writer method takes \<open>&mut self\<close> and returns a \<open>Result\<close>: it is a function from the
  state to a result and the state it leaves behind, also when it fails (\<open>op\<close>). \<open>and_then\<close> is the
  sequence with the question-mark operator. Lengths and offsets of slices are natural numbers;
  \<open>usize\<close> has 64 bits, so that a \<open>u32\<close> always fits a \<open>usize\<close>, and \<open>usize_checked_add\<close> writes
  its overflow out.
\<close>

section \<open>Failures\<close>

datatype codec_limit =
  FrameBytes | PayloadBytes | CollectionItems | StringBytes | OpaqueBytes | NestingDepth

datatype codec_error_kind =
  LimitExceeded | LengthOverflow | Truncated | InvalidBoolean | InvalidOption | InvalidUtf8
| InvalidMagic | UnsupportedFormatVersion | InvalidFamily | InvalidSchemaVersion | NonzeroFlags
| TrailingBytes | WrongFamily | WrongSchemaVersion | UnknownTag | InvalidDomainValue

record codec_error =
  codec_kind :: codec_error_kind
  codec_offset :: nat
  codec_limit :: "codec_limit option"

definition codec_failure :: "codec_error_kind \<Rightarrow> nat \<Rightarrow> codec_error" where
  "codec_failure k at_byte = \<lparr>codec_kind = k, codec_offset = at_byte, codec_limit = None\<rparr>"

definition codec_limited :: "nat \<Rightarrow> codec_limit \<Rightarrow> codec_error" where
  "codec_limited at_byte lim =
     \<lparr>codec_kind = LimitExceeded, codec_offset = at_byte, codec_limit = Some lim\<rparr>"

definition codec_failure_at :: "codec_error_kind \<Rightarrow> nat \<Rightarrow> codec_error" where
  "codec_failure_at k at_byte = \<lparr>codec_kind = k, codec_offset = at_byte, codec_limit = None\<rparr>"

lemma codec_offset_simps [simp]:
  "codec_offset (codec_failure k n) = n" "codec_offset (codec_limited n lim) = n"
  "codec_offset (codec_failure_at k n) = n"
  by (simp_all add: codec_failure_def codec_limited_def codec_failure_at_def)

section \<open>Limits\<close>

type_synonym usize = "64 word"

record codec_limits =
  max_frame_bytes :: usize
  max_payload_bytes :: usize
  max_collection_items :: usize
  max_string_bytes :: usize
  max_opaque_bytes :: usize
  max_nesting_depth :: u16

definition HEADER_LEN :: nat where "HEADER_LEN = 16"

definition PRODUCTION :: codec_limits where
  "PRODUCTION = \<lparr>max_frame_bytes = 16 * 1024 * 1024,
     max_payload_bytes = 16 * 1024 * 1024 - of_nat HEADER_LEN,
     max_collection_items = 65535, max_string_bytes = 1024 * 1024,
     max_opaque_bytes = 8 * 1024 * 1024, max_nesting_depth = 64\<rparr>"

definition codec_limits_new ::
  "usize \<Rightarrow> usize \<Rightarrow> usize \<Rightarrow> usize \<Rightarrow> usize \<Rightarrow> u16 \<Rightarrow> codec_limits" where
  "codec_limits_new frame payload items str opaque depth =
     \<lparr>max_frame_bytes = frame, max_payload_bytes = payload, max_collection_items = items,
      max_string_bytes = str, max_opaque_bytes = opaque, max_nesting_depth = depth\<rparr>"

section \<open>Conversions of the standard library\<close>

text \<open>\<open>usize::checked_add\<close> on lengths, and \<open>u32::try_from\<close> of a length.\<close>

definition usize_checked_add :: "nat \<Rightarrow> nat \<Rightarrow> nat option" where
  "usize_checked_add m n = (if m + n < 2 ^ 64 then Some (m + n) else None)"

definition u32_try_from :: "nat \<Rightarrow> u32 option" where
  "u32_try_from n = (if n < 2 ^ 32 then Some (of_nat n) else None)"

text \<open>\<open>to_be_bytes\<close> and \<open>from_be_bytes\<close> of the unsigned integers.\<close>

fun be_digits :: "nat \<Rightarrow> nat \<Rightarrow> u8 list" where
  "be_digits 0 v = []"
| "be_digits (Suc n) v = be_digits n (v div 256) @ [of_nat v]"

definition be_value :: "u8 list \<Rightarrow> nat" where
  "be_value bs = foldl (\<lambda>v b. v * 256 + unat b) 0 bs"

definition to_be_bytes :: "'a::len word \<Rightarrow> u8 list" where
  "to_be_bytes w = be_digits (LENGTH('a) div 8) (unat w)"

definition from_be_bytes :: "u8 list \<Rightarrow> 'a::len word" where
  "from_be_bytes bs = of_nat (be_value bs)"

text \<open>
  \<open>core::str::from_utf8\<close>: the well-formed byte sequences of the Unicode standard (no overlong
  forms, no surrogates, nothing above U+10FFFF). A \<open>&str\<close> is a byte sequence that passed it.
\<close>

definition utf8_tail :: "u8 \<Rightarrow> bool" where
  "utf8_tail b \<longleftrightarrow> 0x80 \<le> b \<and> b \<le> 0xBF"

fun utf8_valid :: "u8 list \<Rightarrow> bool" where
  "utf8_valid [] = True"
| "utf8_valid (b # bs) =
    (if b < 0x80 then utf8_valid bs
     else if 0xC2 \<le> b \<and> b \<le> 0xDF then (case bs of
       c # rest \<Rightarrow> utf8_tail c \<and> utf8_valid rest | _ \<Rightarrow> False)
     else if 0xE0 \<le> b \<and> b \<le> 0xEF then (case bs of
       c # d # rest \<Rightarrow> utf8_tail c \<and> (b = 0xE0 \<longrightarrow> 0xA0 \<le> c) \<and> (b = 0xED \<longrightarrow> c \<le> 0x9F)
         \<and> utf8_tail d \<and> utf8_valid rest | _ \<Rightarrow> False)
     else if 0xF0 \<le> b \<and> b \<le> 0xF4 then (case bs of
       c # d # e # rest \<Rightarrow> utf8_tail c \<and> (b = 0xF0 \<longrightarrow> 0x90 \<le> c) \<and> (b = 0xF4 \<longrightarrow> c \<le> 0x8F)
         \<and> utf8_tail d \<and> utf8_tail e \<and> utf8_valid rest | _ \<Rightarrow> False)
     else False)"

typedef rust_str = "{bs. utf8_valid bs}"
  morphisms str_bytes Rust_str
  by (rule exI [of _ "[]"]) simp

setup_lifting type_definition_rust_str

definition from_utf8 :: "u8 list \<Rightarrow> rust_str option" where
  "from_utf8 bs = (if utf8_valid bs then Some (Rust_str bs) else None)"

lemma from_utf8_Some: "from_utf8 bs = Some s \<longleftrightarrow> bs = str_bytes s"
proof
  assume "from_utf8 bs = Some s"
  then show "bs = str_bytes s" by (auto simp: from_utf8_def Rust_str_inverse split: if_splits)
next
  assume "bs = str_bytes s"
  then show "from_utf8 bs = Some s"
    using str_bytes[of s] by (simp add: from_utf8_def str_bytes_inverse)
qed

section \<open>Operations\<close>

type_synonym ('s, 'a) operation = "'s \<Rightarrow> (codec_error + 'a) \<times> 's"

definition ret :: "'a \<Rightarrow> ('s, 'a) operation" where
  "ret x s = (Ok x, s)"

definition fail :: "codec_error \<Rightarrow> ('s, 'a) operation" where
  "fail e s = (Err e, s)"

definition and_then :: "('s, 'a) operation \<Rightarrow> ('a \<Rightarrow> ('s, 'b) operation) \<Rightarrow> ('s, 'b) operation" where
  "and_then m f s = (case m s of (Inl e, s') \<Rightarrow> (Err e, s') | (Inr x, s') \<Rightarrow> f x s')"

definition query :: "('s \<Rightarrow> 'a) \<Rightarrow> ('s, 'a) operation" where
  "query f s = (Ok (f s), s)"

section \<open>The reader\<close>

record reader =
  input :: "u8 list"
  position :: nat
  base_offset :: nat
  reader_limits :: codec_limits
  reader_depth :: u16

definition reader_new :: "u8 list \<Rightarrow> codec_limits \<Rightarrow> reader" where
  "reader_new bs lims =
     \<lparr>input = bs, position = 0, base_offset = 0, reader_limits = lims, reader_depth = 0\<rparr>"

definition reader_with_base :: "u8 list \<Rightarrow> codec_limits \<Rightarrow> nat \<Rightarrow> reader" where
  "reader_with_base bs lims base =
     \<lparr>input = bs, position = 0, base_offset = base, reader_limits = lims, reader_depth = 0\<rparr>"

definition offset :: "reader \<Rightarrow> nat" where
  "offset r = base_offset r + position r"

definition remaining :: "reader \<Rightarrow> nat" where
  "remaining r = length (input r) - position r"

definition finish :: "reader \<Rightarrow> codec_error + unit" where
  "finish r = (if position r = length (input r) then Ok ()
     else Err (codec_failure TrailingBytes (offset r)))"

definition take_bytes :: "nat \<Rightarrow> (reader, u8 list) operation" where
  "take_bytes n r = (case usize_checked_add (position r) n of
     None \<Rightarrow> (Err (codec_failure LengthOverflow (offset r)), r)
   | Some stop \<Rightarrow>
      if length (input r) < stop then (Err (codec_failure Truncated (offset r)), r)
      else (Ok (take n (drop (position r) (input r))), r\<lparr>position := stop\<rparr>))"

definition read_u8 :: "(reader, u8) operation" where
  "read_u8 = and_then (take_bytes 1) (\<lambda>bs. ret (bs ! 0))"

definition read_u16 :: "(reader, u16) operation" where
  "read_u16 = and_then (take_bytes 2) (\<lambda>bs. ret (from_be_bytes bs))"

definition read_u32 :: "(reader, u32) operation" where
  "read_u32 = and_then (take_bytes 4) (\<lambda>bs. ret (from_be_bytes bs))"

definition read_u64 :: "(reader, u64) operation" where
  "read_u64 = and_then (take_bytes 8) (\<lambda>bs. ret (from_be_bytes bs))"

definition read_fixed :: "nat \<Rightarrow> (reader, u8 list) operation" where
  "read_fixed n = take_bytes n"

definition read_bool :: "(reader, bool) operation" where
  "read_bool = and_then (query offset) (\<lambda>at_byte. and_then read_u8 (\<lambda>b.
     if b = 0 then ret False else if b = 1 then ret True
     else fail (codec_failure InvalidBoolean at_byte)))"

definition read_option_tag :: "(reader, bool) operation" where
  "read_option_tag = and_then (query offset) (\<lambda>at_byte. and_then read_u8 (\<lambda>b.
     if b = 0 then ret False else if b = 1 then ret True
     else fail (codec_failure InvalidOption at_byte)))"

definition read_bytes :: "(reader, u8 list) operation" where
  "read_bytes = and_then (query offset) (\<lambda>length_offset. and_then read_u32 (\<lambda>len.
     and_then (query reader_limits) (\<lambda>lims.
     if unat (max_opaque_bytes lims) < unat len then fail (codec_limited length_offset OpaqueBytes)
     else take_bytes (unat len))))"

definition read_str :: "(reader, rust_str) operation" where
  "read_str = and_then (query offset) (\<lambda>length_offset. and_then read_u32 (\<lambda>len.
     and_then (query reader_limits) (\<lambda>lims.
     if unat (max_string_bytes lims) < unat len then fail (codec_limited length_offset StringBytes)
     else and_then (take_bytes (unat len)) (\<lambda>bs. case from_utf8 bs of
       Some s \<Rightarrow> ret s | None \<Rightarrow> fail (codec_failure InvalidUtf8 (length_offset + 4))))))"

definition read_collection_len :: "(reader, nat) operation" where
  "read_collection_len = and_then (query offset) (\<lambda>at_byte. and_then read_u32 (\<lambda>count.
     and_then (query reader_limits) (\<lambda>lims.
     if unat (max_collection_items lims) < unat count then fail (codec_limited at_byte CollectionItems)
     else ret (unat count))))"

definition read_nested :: "(reader, 'a) operation \<Rightarrow> (reader, 'a) operation" where
  "read_nested decode r =
    (if max_nesting_depth (reader_limits r) \<le> reader_depth r
     then (Err (codec_limited (offset r) NestingDepth), r)
     else (case decode (r\<lparr>reader_depth := reader_depth r + 1\<rparr>) of
       (res, r') \<Rightarrow> (res, r'\<lparr>reader_depth := reader_depth r' - 1\<rparr>)))"

section \<open>The writer\<close>

record writer =
  wbytes :: "u8 list"
  writer_limits :: codec_limits
  writer_depth :: u16

definition writer_new :: "codec_limits \<Rightarrow> writer" where
  "writer_new lims = \<lparr>wbytes = [], writer_limits = lims, writer_depth = 0\<rparr>"

definition writer_len :: "writer \<Rightarrow> nat" where
  "writer_len w = length (wbytes w)"

definition reserve_payload :: "nat \<Rightarrow> (writer, unit) operation" where
  "reserve_payload additional w = (case usize_checked_add (length (wbytes w)) additional of
     None \<Rightarrow> (Err (codec_failure LengthOverflow (writer_len w)), w)
   | Some next_len \<Rightarrow>
      if unat (max_payload_bytes (writer_limits w)) < next_len
      then (Err (codec_limited (writer_len w) PayloadBytes), w) else (Ok (), w))"

text \<open>\<open>self.bytes.extend_from_slice(value)\<close>.\<close>

definition extend :: "u8 list \<Rightarrow> (writer, unit) operation" where
  "extend bs w = (Ok (), w\<lparr>wbytes := wbytes w @ bs\<rparr>)"

definition write_fixed :: "u8 list \<Rightarrow> (writer, unit) operation" where
  "write_fixed bs = and_then (reserve_payload (length bs)) (\<lambda>_. extend bs)"

definition write_u8 :: "u8 \<Rightarrow> (writer, unit) operation" where
  "write_u8 v = write_fixed [v]"

definition write_u16 :: "u16 \<Rightarrow> (writer, unit) operation" where
  "write_u16 v = write_fixed (to_be_bytes v)"

definition write_u32 :: "u32 \<Rightarrow> (writer, unit) operation" where
  "write_u32 v = write_fixed (to_be_bytes v)"

definition write_u64 :: "u64 \<Rightarrow> (writer, unit) operation" where
  "write_u64 v = write_fixed (to_be_bytes v)"

definition write_bool :: "bool \<Rightarrow> (writer, unit) operation" where
  "write_bool b = write_u8 (if b then 1 else 0)"

definition write_option_tag :: "bool \<Rightarrow> (writer, unit) operation" where
  "write_option_tag present = write_u8 (if present then 1 else 0)"

text \<open>The length-prefixed values: both methods have this body after their own limit check.\<close>

definition write_prefixed :: "u8 list \<Rightarrow> (writer, unit) operation" where
  "write_prefixed bs w = (case u32_try_from (length bs) of
     None \<Rightarrow> (Err (codec_failure LengthOverflow (writer_len w)), w)
   | Some len \<Rightarrow> (case usize_checked_add 4 (length bs) of
       None \<Rightarrow> (Err (codec_failure LengthOverflow (writer_len w)), w)
     | Some additional \<Rightarrow> and_then (reserve_payload additional)
         (\<lambda>_. and_then (extend (to_be_bytes len)) (\<lambda>_. extend bs)) w))"

definition write_bytes :: "u8 list \<Rightarrow> (writer, unit) operation" where
  "write_bytes bs w =
    (if unat (max_opaque_bytes (writer_limits w)) < length bs
     then (Err (codec_limited (writer_len w) OpaqueBytes), w) else write_prefixed bs w)"

definition write_str :: "rust_str \<Rightarrow> (writer, unit) operation" where
  "write_str s w =
    (if unat (max_string_bytes (writer_limits w)) < length (str_bytes s)
     then (Err (codec_limited (writer_len w) StringBytes), w) else write_prefixed (str_bytes s) w)"

definition write_collection_len :: "nat \<Rightarrow> (writer, unit) operation" where
  "write_collection_len n w =
    (if unat (max_collection_items (writer_limits w)) < n
     then (Err (codec_limited (writer_len w) CollectionItems), w)
     else (case u32_try_from n of
       None \<Rightarrow> (Err (codec_failure LengthOverflow (writer_len w)), w)
     | Some v \<Rightarrow> write_u32 v w))"

definition write_nested :: "(writer, 'a) operation \<Rightarrow> (writer, 'a) operation" where
  "write_nested encode w =
    (if max_nesting_depth (writer_limits w) \<le> writer_depth w
     then (Err (codec_limited (writer_len w) NestingDepth), w)
     else (case encode (w\<lparr>writer_depth := writer_depth w + 1\<rparr>) of
       (res, w') \<Rightarrow> (res, w'\<lparr>writer_depth := writer_depth w' - 1\<rparr>)))"

end
