(* ===== verification/Codec_Format.thy ===== *)
theory Codec_Format
  imports Codec_Model
begin

text \<open>
  What the protocol crates rely on when they build messages from the reader and the writer. A wire
  format is a writer and a reader of one type of values, with the bytes a value has and the limits
  it has to meet: the writer succeeds exactly when the value fits and there is room, and appends
  its bytes; the reader returns a value exactly when that value's bytes come next, and steps over
  them. The locale states this contract; every primitive of the codec meets it, and so does every
  sequence of formats, which is how the message formats are proved.
\<close>

named_theorems steady_intros \<open>how the failures of a decoder stay inside its input\<close>
named_theorems appends_intros \<open>how an encoder only appends\<close>
named_theorems wire_simps \<open>when the reader and writer of a format succeed\<close>

section \<open>Sequences\<close>

lemma and_then_Ok [simp]:
  "and_then m f s = (Ok y, s'') \<longleftrightarrow> (\<exists>x s'. m s = (Ok x, s') \<and> f x s' = (Ok y, s''))"
  by (auto simp: and_then_def split: prod.splits sum.splits)

lemma ret_Ok [simp]: "ret x s = (Ok y, s') \<longleftrightarrow> y = x \<and> s' = s"
  by (auto simp: ret_def)

lemma fail_Ok [simp]: "\<not> fail e s = (Ok y, s')"
  by (simp add: fail_def)

lemma query_Ok [simp]: "query f s = (Ok y, s') \<longleftrightarrow> y = f s \<and> s' = s"
  by (auto simp: query_def)

section \<open>Big-endian integers\<close>

lemma length_be_digits [simp]: "length (be_digits n v) = n"
  by (induction n v rule: be_digits.induct) simp_all

lemma be_value_snoc [simp]: "be_value (bs @ [b]) = be_value bs * 256 + unat b"
  by (simp add: be_value_def)

lemma be_value_Nil [simp]: "be_value [] = 0"
  by (simp add: be_value_def)

lemma be_value_be_digits: "be_value (be_digits n v) = v mod 256 ^ n"
proof (induction n v rule: be_digits.induct)
  case (2 n v)
  have "v mod 256 ^ Suc n = (v div 256 mod 256 ^ n) * 256 + v mod 256"
    by (simp add: mod_mult2_eq)
  with 2 show ?case by (simp add: unat_of_nat)
qed simp

lemma be_value_less: "be_value bs < 256 ^ length bs"
proof (induction bs rule: rev_induct)
  case (snoc b bs)
  have "unat b < 256" using unsigned_less[of b] by simp
  with snoc show ?case by simp
qed simp

lemma be_digits_be_value: "be_digits (length bs) (be_value bs) = bs"
proof (induction bs rule: rev_induct)
  case (snoc b bs)
  have "unat b < 256" using unsigned_less[of b] by simp
  then have "(be_value bs * 256 + unat b) div 256 = be_value bs" by simp
  moreover have "(of_nat (be_value bs * 256 + unat b) :: u8) = b"
  proof -
    have "(of_nat (be_value bs * 256 + unat b) :: u8) = of_nat (be_value bs) * of_nat 256 + b"
      by simp
    also have "(of_nat 256 :: u8) = 0" by simp
    finally show ?thesis by simp
  qed
  ultimately show ?case using snoc by simp
qed simp

lemma length_to_be_bytes [simp]: "length (to_be_bytes (w :: 'a::len word)) = LENGTH('a) div 8"
  by (simp add: to_be_bytes_def)

lemma to_be_bytes_eq:
  assumes "LENGTH('a::len) = 8 * n" and "length bs = n"
  shows "bs = to_be_bytes w \<longleftrightarrow> w = (from_be_bytes bs :: 'a word)"
proof -
  have pow: "(256::nat) ^ n = 2 ^ LENGTH('a)" by (simp add: assms(1) power_mult)
  have less: "be_value bs < 2 ^ LENGTH('a)" using be_value_less[of bs] assms(2) pow by simp
  have "unat w < 2 ^ LENGTH('a)" by (rule unsigned_less)
  then have "be_value (to_be_bytes w) = unat w"
    by (simp add: to_be_bytes_def be_value_be_digits assms(1) pow[unfolded assms(1)])
  then have "w = from_be_bytes bs" if "bs = to_be_bytes w"
    using that by (simp add: from_be_bytes_def)
  moreover have "bs = to_be_bytes w" if w: "w = from_be_bytes bs"
  proof -
    have "unat w = be_value bs" using less by (simp add: w from_be_bytes_def unat_of_nat)
    then show ?thesis
      using be_digits_be_value[of bs] assms by (simp add: to_be_bytes_def)
  qed
  ultimately show ?thesis by blast
qed

lemma to_be_bytes_inject:
  assumes "LENGTH('a::len) = 8 * n"
  shows "to_be_bytes v = to_be_bytes w \<longleftrightarrow> v = (w :: 'a word)"
  using to_be_bytes_eq[OF assms, of "to_be_bytes v" w] to_be_bytes_eq[OF assms, of "to_be_bytes v" v]
  by (auto simp: assms)

section \<open>Reading what comes next\<close>

text \<open>\<open>ready r bs\<close>: the bytes \<open>bs\<close> come next in the reader's input.\<close>

definition ready :: "reader \<Rightarrow> u8 list \<Rightarrow> bool" where
  "ready r bs \<longleftrightarrow> position r + length bs \<le> length (input r) \<and> position r + length bs < 2 ^ 64
     \<and> take (length bs) (drop (position r) (input r)) = bs"

definition advance :: "reader \<Rightarrow> nat \<Rightarrow> reader" where
  "advance r n = r\<lparr>position := position r + n\<rparr>"

lemma advance_simps [simp]:
  "input (advance r n) = input r" "position (advance r n) = position r + n"
  "base_offset (advance r n) = base_offset r" "reader_limits (advance r n) = reader_limits r"
  "reader_depth (advance r n) = reader_depth r" "offset (advance r n) = offset r + n"
  "advance (advance r m) n = advance r (m + n)" "advance r 0 = r"
  by (simp_all add: advance_def offset_def)

lemma ready_append:
  "ready r (as @ bs) \<longleftrightarrow> ready r as \<and> ready (advance r (length as)) bs"
proof -
  have "take (length as + length bs) (drop (position r) (input r))
      = take (length as) (drop (position r) (input r))
        @ take (length bs) (drop (position r + length as) (input r))"
    by (simp add: take_add add.commute)
  moreover have "length (take (length as) (drop (position r) (input r))) = length as"
    if "position r + length as \<le> length (input r)" using that by simp
  ultimately show ?thesis unfolding ready_def by (auto simp: add.assoc)
qed

lemma ready_length: "ready r bs \<Longrightarrow> position r + length bs \<le> length (input r)"
  by (simp add: ready_def)

lemma take_bytes_Ok [simp]:
  "take_bytes n r = (Ok bs, r') \<longleftrightarrow> length bs = n \<and> ready r bs \<and> r' = advance r n"
  unfolding take_bytes_def usize_checked_add_def ready_def advance_def by auto

section \<open>Decoders stay inside their input\<close>

text \<open>
  A steady decoder moves forward only, never past the end of the input, and changes nothing else of
  the reader, also when it fails; its failures carry an offset between \<open>lo\<close> and the end.
\<close>

definition steady :: "nat \<Rightarrow> (reader, 'a) operation \<Rightarrow> bool" where
  "steady lo rd \<longleftrightarrow> (\<forall>r. position r \<le> length (input r) \<and> lo \<le> offset r \<longrightarrow>
     (\<exists>n. snd (rd r) = advance r n \<and> position r + n \<le> length (input r))
   \<and> (\<forall>e. fst (rd r) = Err e \<longrightarrow> lo \<le> codec_offset e \<and> codec_offset e \<le> base_offset r + length (input r)))"

lemma steadyD:
  assumes "steady lo rd" "rd r = (res, r')" "position r \<le> length (input r)" "lo \<le> offset r"
  shows "\<exists>n. r' = advance r n \<and> position r + n \<le> length (input r)"
    and "res = Err e \<Longrightarrow> lo \<le> codec_offset e \<and> codec_offset e \<le> base_offset r + length (input r)"
  using assms unfolding steady_def by (metis fst_conv snd_conv)+

lemma steadyI:
  assumes "\<And>r res r'. \<lbrakk>rd r = (res, r'); position r \<le> length (input r); lo \<le> offset r\<rbrakk> \<Longrightarrow>
     (\<exists>n. r' = advance r n \<and> position r + n \<le> length (input r))
   \<and> (\<forall>e. res = Err e \<longrightarrow> lo \<le> codec_offset e \<and> codec_offset e \<le> base_offset r + length (input r))"
  shows "steady lo rd"
  unfolding steady_def using assms by (metis prod.collapse)

lemma steady_ret [steady_intros]: "steady lo (ret x)"
  by (rule steadyI) (auto simp: ret_def intro: exI[of _ 0])

lemma steady_fail [steady_intros]: "codec_offset e = lo \<Longrightarrow> steady lo (fail e)"
  by (rule steadyI) (auto simp: fail_def offset_def intro: exI[of _ 0])

lemma steady_and_then [steady_intros]:
  assumes m: "steady lo m" and f: "\<And>x. steady lo (f x)"
  shows "steady lo (and_then m f)"
proof (rule steadyI)
  fix r res r' assume run: "and_then m f r = (res, r')" and r: "position r \<le> length (input r)" "lo \<le> offset r"
  obtain res1 r1 where 1: "m r = (res1, r1)" by fastforce
  obtain n where n: "r1 = advance r n" "position r + n \<le> length (input r)"
    using steadyD(1)[OF m 1 r] by blast
  show "(\<exists>n. r' = advance r n \<and> position r + n \<le> length (input r))
   \<and> (\<forall>e. res = Err e \<longrightarrow> lo \<le> codec_offset e \<and> codec_offset e \<le> base_offset r + length (input r))"
  proof (cases res1)
    case (Inl e)
    with run 1 have "res = Err e" "r' = r1" by (simp_all add: and_then_def)
    with steadyD(2)[OF m 1 r Inl] n show ?thesis by blast
  next
    case (Inr x)
    with run 1 have 2: "f x r1 = (res, r')" by (simp add: and_then_def)
    have r1: "position r1 \<le> length (input r1)" "lo \<le> offset r1" using n r by simp_all
    obtain k where "r' = advance r1 k" "position r1 + k \<le> length (input r1)"
      using steadyD(1)[OF f 2 r1] by blast
    then have "\<exists>n. r' = advance r n \<and> position r + n \<le> length (input r)"
      using n by (auto simp: add.assoc)
    moreover have "lo \<le> codec_offset e \<and> codec_offset e \<le> base_offset r + length (input r)" if "res = Err e" for e
      using steadyD(2)[OF f 2 r1 that] n by simp
    ultimately show ?thesis by blast
  qed
qed

lemma steady_query: "(\<And>x. steady lo (f x)) \<Longrightarrow> steady lo (and_then (query g) f)"
  by (rule steady_and_then) (auto simp: query_def intro!: steadyI exI[of _ 0])

lemma steady_offset:
  assumes "\<And>at_byte. lo \<le> at_byte \<Longrightarrow> steady at_byte (f at_byte)"
  shows "steady lo (and_then (query offset) f)"
proof (rule steadyI)
  fix r res r' assume run: "and_then (query offset) f r = (res, r')"
    and r: "position r \<le> length (input r)" "lo \<le> offset r"
  from run have 1: "f (offset r) r = (res, r')" by (simp add: and_then_def query_def)
  have "steady (offset r) (f (offset r))" by (rule assms[OF r(2)])
  from steadyD[OF this 1 r(1)] show "(\<exists>n. r' = advance r n \<and> position r + n \<le> length (input r))
   \<and> (\<forall>e. res = Err e \<longrightarrow> lo \<le> codec_offset e \<and> codec_offset e \<le> base_offset r + length (input r))"
    using r(2) by (metis order.refl order.trans)
qed

lemma steady_take_bytes [steady_intros]: "steady lo (take_bytes n)"
  by (rule steadyI)
    (auto simp: take_bytes_def usize_checked_add_def offset_def advance_def
      split: if_splits intro: exI[of _ 0] exI[of _ n])

lemma steady_if [steady_intros]:
  "\<lbrakk>b \<Longrightarrow> steady lo m; \<not> b \<Longrightarrow> steady lo m'\<rbrakk> \<Longrightarrow> steady lo (if b then m else m')"
  by simp

lemma steady_case_option [steady_intros]:
  "\<lbrakk>steady lo m; \<And>x. steady lo (f x)\<rbrakk> \<Longrightarrow> steady lo (case v of None \<Rightarrow> m | Some x \<Rightarrow> f x)"
  by (cases v) auto

lemma steady_case_sum [steady_intros]:
  "\<lbrakk>\<And>e. steady lo (f e); \<And>x. steady lo (g x)\<rbrakk> \<Longrightarrow> steady lo (case v of Inl e \<Rightarrow> f e | Inr x \<Rightarrow> g x)"
  by (cases v) auto

lemma steady_nested [steady_intros]:
  assumes "steady lo rd"
  shows "steady lo (read_nested rd)"
proof (rule steadyI)
  fix r res r' assume run: "read_nested rd r = (res, r')"
    and r: "position r \<le> length (input r)" "lo \<le> offset r"
  show "(\<exists>n. r' = advance r n \<and> position r + n \<le> length (input r))
   \<and> (\<forall>e. res = Err e \<longrightarrow> lo \<le> codec_offset e \<and> codec_offset e \<le> base_offset r + length (input r))"
  proof (cases "max_nesting_depth (reader_limits r) \<le> reader_depth r")
    case True
    with run have "r' = r" "res = Err (codec_limited (offset r) NestingDepth)"
      by (auto simp: read_nested_def)
    with r show ?thesis by (auto simp: offset_def intro: exI[of _ 0])
  next
    case False
    let ?r = "r\<lparr>reader_depth := reader_depth r + 1\<rparr>"
    obtain r1 where 1: "rd ?r = (res, r1)" "r' = r1\<lparr>reader_depth := reader_depth r1 - 1\<rparr>"
      using run False by (cases "rd ?r") (auto simp: read_nested_def)
    have r1: "position ?r \<le> length (input ?r)" "lo \<le> offset ?r" using r by (simp_all add: offset_def)
    from steadyD[OF assms 1(1) r1] obtain n where "r1 = advance ?r n" "position r + n \<le> length (input r)"
      "\<forall>e. res = Err e \<longrightarrow> lo \<le> codec_offset e \<and> codec_offset e \<le> base_offset r + length (input r)"
      by auto
    moreover then have "r' = advance r n" using 1(2) by (simp add: advance_def)
    ultimately show ?thesis by blast
  qed
qed

lemma steady_ints [steady_intros]:
  "steady lo read_u8" "steady lo read_u16" "steady lo read_u32" "steady lo read_u64"
  "steady lo (read_fixed n)"
  by (simp_all add: read_u8_def read_u16_def read_u32_def read_u64_def read_fixed_def steady_intros)

lemma steady_tags [steady_intros]: "steady lo read_bool" "steady lo read_option_tag"
  unfolding read_bool_def read_option_tag_def by (intro steady_offset steady_intros; simp)+

lemma steady_counted [steady_intros]: "steady lo read_bytes" "steady lo read_collection_len"
  unfolding read_bytes_def read_collection_len_def
  by (intro steady_offset steady_query steady_and_then[of _ read_u32] steady_intros; simp)+

section \<open>Encoders only append\<close>

definition append_bytes :: "writer \<Rightarrow> u8 list \<Rightarrow> writer" where
  "append_bytes w bs = w\<lparr>wbytes := wbytes w @ bs\<rparr>"

definition appends :: "(writer, 'a) operation \<Rightarrow> bool" where
  "appends wr \<longleftrightarrow> (\<forall>w. \<exists>bs. snd (wr w) = append_bytes w bs)"

lemma append_bytes_simps [simp]:
  "wbytes (append_bytes w bs) = wbytes w @ bs"
  "writer_limits (append_bytes w bs) = writer_limits w"
  "writer_depth (append_bytes w bs) = writer_depth w"
  "append_bytes (append_bytes w as) bs = append_bytes w (as @ bs)"
  "append_bytes w [] = w"
  by (simp_all add: append_bytes_def)

text \<open>\<open>room w bs\<close>: the payload stays within its limit when \<open>bs\<close> is appended.\<close>

definition room :: "writer \<Rightarrow> u8 list \<Rightarrow> bool" where
  "room w bs \<longleftrightarrow> length (wbytes w) + length bs \<le> unat (max_payload_bytes (writer_limits w))"

lemma room_append: "room w (as @ bs) \<longleftrightarrow> room w as \<and> room (append_bytes w as) bs"
  by (auto simp: room_def)

lemma extend_eq [simp]: "extend bs w = (Ok (), append_bytes w bs)"
  by (simp add: extend_def append_bytes_def)

lemma appends_ret [appends_intros]: "appends (ret x)"
  by (auto simp: appends_def ret_def intro: exI[of _ "[]"])

lemma appends_and_then [appends_intros]:
  assumes "appends m" and "\<And>x. appends (f x)"
  shows "appends (and_then m f)"
  unfolding appends_def
proof
  fix w
  obtain res w1 where 1: "m w = (res, w1)" by fastforce
  with assms(1) obtain as where as: "w1 = append_bytes w as" unfolding appends_def by (metis snd_conv)
  show "\<exists>bs. snd (and_then m f w) = append_bytes w bs"
  proof (cases res)
    case (Inl e)
    with 1 as show ?thesis by (auto simp: and_then_def)
  next
    case (Inr x)
    obtain bs where "snd (f x w1) = append_bytes w1 bs" using assms(2) unfolding appends_def by blast
    with 1 as Inr show ?thesis by (auto simp: and_then_def)
  qed
qed

lemma appends_if [appends_intros]:
  "\<lbrakk>b \<Longrightarrow> appends m; \<not> b \<Longrightarrow> appends m'\<rbrakk> \<Longrightarrow> appends (if b then m else m')"
  by simp

lemma appends_case_option [appends_intros]:
  "\<lbrakk>appends m; \<And>x. appends (f x)\<rbrakk> \<Longrightarrow> appends (case v of None \<Rightarrow> m | Some x \<Rightarrow> f x)"
  by (cases v) auto

lemma appends_nested [appends_intros]:
  assumes "appends wr"
  shows "appends (write_nested wr)"
  unfolding appends_def
proof
  fix w :: writer
  let ?w = "w\<lparr>writer_depth := writer_depth w + 1\<rparr>"
  obtain bs where "snd (wr ?w) = append_bytes ?w bs" using assms unfolding appends_def by blast
  then have "snd (write_nested wr w) = append_bytes w bs"
    if "\<not> max_nesting_depth (writer_limits w) \<le> writer_depth w"
    using that by (cases "wr ?w") (simp add: write_nested_def append_bytes_def)
  then show "\<exists>bs. snd (write_nested wr w) = append_bytes w bs"
    by (cases "max_nesting_depth (writer_limits w) \<le> writer_depth w")
      (auto simp: write_nested_def intro: exI[of _ "[]"])
qed

text \<open>The primitives are transactional: one that fails leaves the writer as it was.\<close>

definition transactional :: "(writer, 'a) operation \<Rightarrow> bool" where
  "transactional wr \<longleftrightarrow> (\<forall>w. \<not> is_ok (fst (wr w)) \<longrightarrow> snd (wr w) = w)"

lemma reserve_payload_cases:
  "reserve_payload n w = (if room w (replicate n 0) then (Ok (), w)
     else (Err (if length (wbytes w) + n < 2 ^ 64 then codec_limited (writer_len w) PayloadBytes
                else codec_failure LengthOverflow (writer_len w)), w))"
proof -
  have "unat (max_payload_bytes (writer_limits w)) < 2 ^ 64"
    using unsigned_less[of "max_payload_bytes (writer_limits w)"] by simp
  then show ?thesis by (auto simp: reserve_payload_def usize_checked_add_def room_def)
qed

lemma write_fixed_eq:
  "write_fixed bs w = (if room w bs then (Ok (), append_bytes w bs)
     else (Err (if length (wbytes w) + length bs < 2 ^ 64 then codec_limited (writer_len w) PayloadBytes
                else codec_failure LengthOverflow (writer_len w)), w))"
  by (simp add: write_fixed_def and_then_def reserve_payload_cases room_def)

lemma write_prefixed_Ok:
  "write_prefixed bs w = (Ok (), w') \<longleftrightarrow> length bs < 2 ^ 32
     \<and> room w (to_be_bytes (of_nat (length bs) :: u32) @ bs)
     \<and> w' = append_bytes w (to_be_bytes (of_nat (length bs) :: u32) @ bs)"
  by (auto simp: write_prefixed_def u32_try_from_def usize_checked_add_def reserve_payload_cases
      room_def and_then_def)

lemma write_prefixed_Err: "write_prefixed bs w = (Err e, w') \<Longrightarrow> w' = w"
  by (auto simp: write_prefixed_def u32_try_from_def usize_checked_add_def reserve_payload_cases
      and_then_def split: if_splits)

lemma transactional_primitives:
  "transactional (write_fixed bs)" "transactional (write_u8 a)" "transactional (write_u16 b)"
  "transactional (write_u32 c)" "transactional (write_u64 d)" "transactional (write_bool t)"
  "transactional (write_option_tag t)" "transactional (write_bytes bs)" "transactional (write_str s)"
  "transactional (write_collection_len n)"
proof -
  have p: "snd (write_prefixed bs w) = w" if "\<not> is_ok (fst (write_prefixed bs w))" for bs w
    using that write_prefixed_Err[of bs w] by (cases "write_prefixed bs w") (auto simp: is_ok_def split: sum.splits)
  show "transactional (write_bytes bs)" "transactional (write_str s)"
    by (auto simp: transactional_def write_bytes_def write_str_def intro: p)
  show "transactional (write_fixed bs)" "transactional (write_u8 a)" "transactional (write_u16 b)"
    "transactional (write_u32 c)" "transactional (write_u64 d)" "transactional (write_bool t)"
    "transactional (write_option_tag t)" "transactional (write_collection_len n)"
    by (simp_all add: transactional_def write_u8_def write_u16_def write_u32_def write_u64_def
        write_bool_def write_option_tag_def write_collection_len_def write_fixed_eq u32_try_from_def)
qed

lemma appends_primitives [appends_intros]:
  "appends (write_fixed bs)" "appends (write_u8 a)" "appends (write_u16 b)" "appends (write_u32 c)"
  "appends (write_u64 d)" "appends (write_bool t)" "appends (write_option_tag t)"
  "appends (write_bytes bs)" "appends (write_str s)" "appends (write_collection_len n)"
proof -
  have fixed: "appends (write_fixed bs)" for bs
    by (auto simp: appends_def write_fixed_eq intro: exI[of _ "[]"])
  then show "appends (write_fixed bs)" .
  show "appends (write_u8 a)" "appends (write_u16 b)" "appends (write_u32 c)" "appends (write_u64 d)"
    "appends (write_bool t)" "appends (write_option_tag t)"
    by (simp_all add: write_u8_def write_u16_def write_u32_def write_u64_def write_bool_def
        write_option_tag_def fixed)
  have p: "\<exists>as. snd (write_prefixed bs w) = append_bytes w as" for bs w
  proof (cases "write_prefixed bs w")
    case (Pair res w')
    then show ?thesis
      using write_prefixed_Ok[of bs w w'] write_prefixed_Err[of bs w _ w']
      by (cases res) (auto intro: exI[of _ "[]"])
  qed
  then show "appends (write_bytes bs)" "appends (write_str s)"
    by (auto simp: appends_def write_bytes_def write_str_def intro: exI[of _ "[]"])
  show "appends (write_collection_len n)"
    using fixed by (auto simp: appends_def write_collection_len_def write_u32_def u32_try_from_def
        intro: exI[of _ "[]"])
qed

end
