(* ===== verification/Codec_Wire.thy ===== *)
theory Codec_Wire
  imports Codec_Format
begin

text \<open>
  The contract between an encoder and a decoder of one type of values, and its first providers: the
  primitives of \<open>reader.rs\<close> and \<open>writer.rs\<close>.
\<close>

section \<open>The contract\<close>

locale wire_format =
  fixes put :: "'a \<Rightarrow> (writer, unit) operation"
    and get :: "(reader, 'a) operation"
    and enc :: "'a \<Rightarrow> u8 list"
    and fits :: "codec_limits \<Rightarrow> u16 \<Rightarrow> 'a \<Rightarrow> bool"
  assumes write_Ok: "put x w = (Ok (), w') \<longleftrightarrow>
      fits (writer_limits w) (writer_depth w) x \<and> room w (enc x) \<and> w' = append_bytes w (enc x)"
    and read_Ok: "get r = (Ok x, r') \<longleftrightarrow>
      fits (reader_limits r) (reader_depth r) x \<and> ready r (enc x) \<and> r' = advance r (length (enc x))"
    and write_appends: "appends (put x)"
    and read_steady: "steady lo get"
begin

text \<open>What was written is read back, wherever it stands in an input.\<close>

lemma read_written:
  assumes "put x w = (Ok (), w')" and "input r = wbytes w' @ rest" and "position r = length (wbytes w)"
    and "length (input r) < 2 ^ 64" and "reader_limits r = writer_limits w" and "reader_depth r = writer_depth w"
  shows "get r = (Ok x, advance r (length (enc x)))"
  using assms by (auto simp: write_Ok read_Ok ready_def)

text \<open>A value has one encoding: two readers that return it stepped over the same bytes.\<close>

lemma one_encoding:
  assumes "get r = (Ok x, r')" and "get s = (Ok x, s')"
  shows "take (position r' - position r) (drop (position r) (input r))
     = take (position s' - position s) (drop (position s) (input s))"
  using assms by (simp add: read_Ok ready_def)

text \<open>The bytes determine the value.\<close>

lemma one_value:
  assumes "fits lims d x" and "fits lims d y" and "enc x = enc y" and "length (enc x) < 2 ^ 64"
  shows "x = y"
proof -
  define r where "r = \<lparr>input = enc x, position = 0, base_offset = 0, reader_limits = lims, reader_depth = d\<rparr>"
  have "get r = (Ok x, advance r (length (enc x)))" "get r = (Ok y, advance r (length (enc y)))"
    using assms by (simp_all add: read_Ok r_def ready_def)
  then show ?thesis by (metis Inr_inject prod.inject)
qed

end

abbreviation always :: "codec_limits \<Rightarrow> u16 \<Rightarrow> 'a \<Rightarrow> bool" where
  "always lims depth x \<equiv> True"

section \<open>Integers and tags\<close>

lemma take_bytes_1: "and_then (take_bytes 1) (\<lambda>bs. ret (bs ! 0)) r = (Ok b, r')
    \<longleftrightarrow> ready r [b] \<and> r' = advance r 1"
  by (auto simp: length_Suc_conv)

lemma take_bytes_word:
  assumes "LENGTH('a::len) = 8 * n"
  shows "and_then (take_bytes n) (\<lambda>bs. ret (from_be_bytes bs)) r = (Ok (v :: 'a word), r')
    \<longleftrightarrow> ready r (to_be_bytes v) \<and> r' = advance r n"
proof -
  have v: "length (to_be_bytes v) = n" using assms by simp
  have eq: "bs = to_be_bytes v \<longleftrightarrow> v = from_be_bytes bs" if "length bs = n" for bs
    using to_be_bytes_eq[OF assms that] .
  show ?thesis using eq v by (simp, metis)
qed

lemma write_fixed_Ok: "write_fixed bs w = (Ok (), w') \<longleftrightarrow> room w bs \<and> w' = append_bytes w bs"
  by (auto simp: write_fixed_eq)

interpretation u8_wire: wire_format write_u8 read_u8 "\<lambda>v. [v]" always
proof unfold_locales
  show "read_u8 r = (Ok x, r') \<longleftrightarrow> True \<and> ready r [x] \<and> r' = advance r (length [x])" for r x r'
    unfolding read_u8_def take_bytes_1 by simp
qed (simp_all add: write_u8_def write_fixed_Ok appends_intros steady_intros)

interpretation u16_wire: wire_format write_u16 read_u16 to_be_bytes always
proof unfold_locales
  show "read_u16 r = (Ok x, r') \<longleftrightarrow> True \<and> ready r (to_be_bytes x) \<and> r' = advance r (length (to_be_bytes x))" for r x r'
    unfolding read_u16_def by (subst take_bytes_word) simp_all
qed (simp_all add: write_u16_def write_fixed_Ok appends_intros steady_intros)

interpretation u32_wire: wire_format write_u32 read_u32 to_be_bytes always
proof unfold_locales
  show "read_u32 r = (Ok x, r') \<longleftrightarrow> True \<and> ready r (to_be_bytes x) \<and> r' = advance r (length (to_be_bytes x))" for r x r'
    unfolding read_u32_def by (subst take_bytes_word) simp_all
qed (simp_all add: write_u32_def write_fixed_Ok appends_intros steady_intros)

interpretation u64_wire: wire_format write_u64 read_u64 to_be_bytes always
proof unfold_locales
  show "read_u64 r = (Ok x, r') \<longleftrightarrow> True \<and> ready r (to_be_bytes x) \<and> r' = advance r (length (to_be_bytes x))" for r x r'
    unfolding read_u64_def by (subst take_bytes_word) simp_all
qed (simp_all add: write_u64_def write_fixed_Ok appends_intros steady_intros)

lemmas [wire_simps] =
  u8_wire.write_Ok u8_wire.read_Ok u16_wire.write_Ok u16_wire.read_Ok
  u32_wire.write_Ok u32_wire.read_Ok u64_wire.write_Ok u64_wire.read_Ok

definition enc_flag :: "bool \<Rightarrow> u8 list" where
  "enc_flag b = [if b then 1 else 0]"

lemma enc_flag_simps [simp]: "enc_flag True = [1]" "enc_flag False = [0]" "length (enc_flag b) = 1"
  by (simp_all add: enc_flag_def)

interpretation bool_wire: wire_format write_bool read_bool enc_flag always
proof unfold_locales
  show "read_bool r = (Ok x, r') \<longleftrightarrow> True \<and> ready r (enc_flag x) \<and> r' = advance r (length (enc_flag x))" for r x r'
    by (cases x) (auto simp: read_bool_def wire_simps split: if_splits intro: exI[of _ 0])
qed (simp_all add: write_bool_def enc_flag_def wire_simps appends_intros steady_intros)

interpretation option_tag_wire: wire_format write_option_tag read_option_tag enc_flag always
proof unfold_locales
  show "read_option_tag r = (Ok x, r') \<longleftrightarrow> True \<and> ready r (enc_flag x) \<and> r' = advance r (length (enc_flag x))" for r x r'
    by (cases x) (auto simp: read_option_tag_def wire_simps split: if_splits intro: exI[of _ 0])
qed (simp_all add: write_option_tag_def enc_flag_def wire_simps appends_intros steady_intros)

lemmas [wire_simps] =
  bool_wire.write_Ok bool_wire.read_Ok option_tag_wire.write_Ok option_tag_wire.read_Ok

section \<open>Length-prefixed values\<close>

definition enc_prefixed :: "u8 list \<Rightarrow> u8 list" where
  "enc_prefixed bs = to_be_bytes (of_nat (length bs) :: u32) @ bs"

lemma length_enc_prefixed [simp]: "length (enc_prefixed bs) = 4 + length bs"
  by (simp add: enc_prefixed_def)

lemma unat_u32_eq: "n = unat (len :: u32) \<longleftrightarrow> n < 2 ^ 32 \<and> len = of_nat n"
  using unsigned_less[of len] by (auto simp: unat_of_nat)

lemma read_prefixed:
  "(\<exists>len::u32. ready r (to_be_bytes len) \<and> length bs = unat len \<and> ready (advance r 4) bs \<and> P (unat len))
     \<longleftrightarrow> length bs < 2 ^ 32 \<and> P (length bs) \<and> ready r (enc_prefixed bs)"
proof -
  have "unat (of_nat (length bs) :: u32) = length bs" if "length bs < 2 ^ 32"
    using that by (simp add: unat_of_nat)
  then show ?thesis
    unfolding unat_u32_eq enc_prefixed_def ready_append by auto
qed

definition opaque_fits :: "codec_limits \<Rightarrow> u16 \<Rightarrow> u8 list \<Rightarrow> bool" where
  "opaque_fits lims d bs \<longleftrightarrow> length bs \<le> unat (max_opaque_bytes lims) \<and> length bs < 2 ^ 32"

interpretation bytes_wire: wire_format write_bytes read_bytes enc_prefixed opaque_fits
proof unfold_locales
  show "read_bytes r = (Ok bs, r') \<longleftrightarrow> opaque_fits (reader_limits r) (reader_depth r) bs
      \<and> ready r (enc_prefixed bs) \<and> r' = advance r (length (enc_prefixed bs))" for r bs r'
    using read_prefixed[of r bs "\<lambda>n. n \<le> unat (max_opaque_bytes (reader_limits r)) \<and> r' = advance r (4 + n)"]
    by (auto simp: read_bytes_def wire_simps opaque_fits_def not_less)
  show "write_bytes bs w = (Ok (), w') \<longleftrightarrow> opaque_fits (writer_limits w) (writer_depth w) bs
      \<and> room w (enc_prefixed bs) \<and> w' = append_bytes w (enc_prefixed bs)" for bs w w'
    by (auto simp: write_bytes_def write_prefixed_Ok enc_prefixed_def opaque_fits_def)
qed (simp_all add: appends_intros steady_intros)

definition str_fits :: "codec_limits \<Rightarrow> u16 \<Rightarrow> rust_str \<Rightarrow> bool" where
  "str_fits lims d s \<longleftrightarrow>
     length (str_bytes s) \<le> unat (max_string_bytes lims) \<and> length (str_bytes s) < 2 ^ 32"

lemma utf8_step:
  "(case from_utf8 bs of None \<Rightarrow> fail e | Some t \<Rightarrow> ret t) r = (Ok s, r') \<longleftrightarrow> bs = str_bytes s \<and> r' = r"
proof (cases "from_utf8 bs")
  case None
  with from_utf8_Some[of bs s] show ?thesis by simp
next
  case (Some t)
  with from_utf8_Some[of bs s] show ?thesis by auto
qed

lemma read_str_Ok:
  "read_str r = (Ok s, r') \<longleftrightarrow> str_fits (reader_limits r) (reader_depth r) s
     \<and> ready r (enc_prefixed (str_bytes s)) \<and> r' = advance r (length (enc_prefixed (str_bytes s)))"
  using read_prefixed[of r "str_bytes s"
      "\<lambda>n. n \<le> unat (max_string_bytes (reader_limits r)) \<and> r' = advance r (4 + n)"]
  by (auto simp: read_str_def wire_simps utf8_step str_fits_def not_less)

lemma steady_read_str [steady_intros]: "steady lo read_str"
proof (rule steadyI)
  fix r res r' assume run: "read_str r = (res, r')"
    and r: "position r \<le> length (input r)" "lo \<le> offset r"
  define body where "body len = (if unat (max_string_bytes (reader_limits r)) < unat (len :: u32)
      then fail (codec_limited (offset r) StringBytes)
      else and_then (take_bytes (unat len)) (\<lambda>bs. case from_utf8 bs of
         Some s \<Rightarrow> ret s | None \<Rightarrow> fail (codec_failure InvalidUtf8 (offset r + 4))))" for len
  obtain res1 r1 where 1: "read_u32 r = (res1, r1)" by fastforce
  have u32: "steady lo read_u32" by (rule steady_ints)
  show "(\<exists>n. r' = advance r n \<and> position r + n \<le> length (input r))
   \<and> (\<forall>e. res = Err e \<longrightarrow> lo \<le> codec_offset e \<and> codec_offset e \<le> base_offset r + length (input r))"
  proof (cases res1)
    case (Inl e)
    with run 1 have "res = Err e" "r' = r1" by (simp_all add: read_str_def and_then_def query_def)
    with steadyD[OF u32 1 r] Inl show ?thesis by blast
  next
    case (Inr len)
    then have r1: "r1 = advance r 4" "position r + 4 \<le> length (input r)"
      using 1 by (auto simp: wire_simps dest!: ready_length)
    have 2: "body len r1 = (res, r')"
      using run 1 Inr r1(1) by (simp add: read_str_def and_then_def query_def body_def)
    have "steady (offset r) (body len)" if "unat (max_string_bytes (reader_limits r)) < unat len"
      using that unfolding body_def by (simp add: steady_intros)
    moreover have "steady (offset r + 4) (body len)" if "\<not> unat (max_string_bytes (reader_limits r)) < unat len"
      using that unfolding body_def by (simp add: steady_intros)
    ultimately have "\<exists>k\<ge>offset r. k \<le> offset r1 \<and> steady k (body len)"
      using r1 by (cases "unat (max_string_bytes (reader_limits r)) < unat len")
        (auto intro: exI[of _ "offset r"] exI[of _ "offset r + 4"])
    then obtain k where k: "offset r \<le> k" "k \<le> offset r1" "steady k (body len)" by blast
    have "position r1 \<le> length (input r1)" using r1 by simp
    from steadyD[OF k(3) 2 this k(2)] r1 k(1) r(2) show ?thesis by (auto simp: add.assoc)
  qed
qed

interpretation str_wire: wire_format write_str read_str "\<lambda>s. enc_prefixed (str_bytes s)" str_fits
proof unfold_locales
  show "write_str s w = (Ok (), w') \<longleftrightarrow> str_fits (writer_limits w) (writer_depth w) s
      \<and> room w (enc_prefixed (str_bytes s)) \<and> w' = append_bytes w (enc_prefixed (str_bytes s))" for s w w'
    by (auto simp: write_str_def write_prefixed_Ok enc_prefixed_def str_fits_def)
qed (simp_all add: read_str_Ok appends_intros steady_intros)

section \<open>Collection counts\<close>

definition count_fits :: "codec_limits \<Rightarrow> u16 \<Rightarrow> nat \<Rightarrow> bool" where
  "count_fits lims d n \<longleftrightarrow> n \<le> unat (max_collection_items lims) \<and> n < 2 ^ 32"

interpretation count_wire: wire_format write_collection_len read_collection_len
  "\<lambda>n. to_be_bytes (of_nat n :: u32)" count_fits
proof unfold_locales
  show "read_collection_len r = (Ok n, r') \<longleftrightarrow> count_fits (reader_limits r) (reader_depth r) n
      \<and> ready r (to_be_bytes (of_nat n :: u32)) \<and> r' = advance r (length (to_be_bytes (of_nat n :: u32)))" for r n r'
    unfolding read_collection_len_def count_fits_def
    by (auto simp: wire_simps not_less unat_u32_eq unat_of_nat intro: exI[of _ "of_nat n"])
  show "write_collection_len n w = (Ok (), w') \<longleftrightarrow> count_fits (writer_limits w) (writer_depth w) n
      \<and> room w (to_be_bytes (of_nat n :: u32)) \<and> w' = append_bytes w (to_be_bytes (of_nat n :: u32))" for n w w'
    by (auto simp: write_collection_len_def u32_try_from_def count_fits_def wire_simps)
qed (simp_all add: appends_intros steady_intros)

lemmas [wire_simps] =
  bytes_wire.write_Ok bytes_wire.read_Ok str_wire.write_Ok str_wire.read_Ok
  count_wire.write_Ok count_wire.read_Ok

end
