(* ===== verification/Codec_Message.thy ===== *)
theory Codec_Message
  imports Codec_Wire Peritus_Types
begin

text \<open>
  \<open>peritus-codec\<close>, files \<open>frame.rs\<close>, \<open>message.rs\<close> and \<open>hash.rs\<close>: the version-one frame and the
  typed messages in it. The traits \<open>CanonicalEncode\<close> and \<open>CanonicalDecode\<close> are the arguments
  \<open>put\<close>, \<open>get\<close>, \<open>family\<close> and \<open>schema\<close> of the message functions. SHA-256 is third-party code: the
  digest function is an argument.
\<close>

section \<open>Frames\<close>

definition MAGIC :: "u8 list" where "MAGIC = [0x50, 0x52, 0x54, 0x53]"

definition FORMAT_VERSION :: u16 where "FORMAT_VERSION = 1"

record frame_header =
  family :: u16
  schema_version :: u16
  payload_len :: u32

record decoded_frame =
  header :: frame_header
  payload :: "u8 list"

definition encode_frame ::
  "u16 \<Rightarrow> u16 \<Rightarrow> u8 list \<Rightarrow> codec_limits \<Rightarrow> codec_error + u8 list" where
  "encode_frame fam schema bytes lims =
    (if fam = 0 then Err (codec_failure InvalidFamily 6)
     else if schema = 0 then Err (codec_failure InvalidSchemaVersion 8)
     else if unat (max_payload_bytes lims) < length bytes then Err (codec_limited 12 PayloadBytes)
     else (case u32_try_from (length bytes) of
       None \<Rightarrow> Err (codec_failure LengthOverflow 12)
     | Some len \<Rightarrow> (case usize_checked_add HEADER_LEN (length bytes) of
         None \<Rightarrow> Err (codec_failure LengthOverflow 12)
       | Some frame_len \<Rightarrow>
          if unat (max_frame_bytes lims) < frame_len then Err (codec_limited 0 FrameBytes)
          else Ok (MAGIC @ to_be_bytes FORMAT_VERSION @ to_be_bytes fam @ to_be_bytes schema
            @ to_be_bytes (0 :: u16) @ to_be_bytes len @ bytes))))"

text \<open>\<open>input[a..b]\<close>.\<close>

definition slice :: "nat \<Rightarrow> nat \<Rightarrow> 'a list \<Rightarrow> 'a list" where
  "slice a b xs = take (b - a) (drop a xs)"

definition decode_frame :: "u8 list \<Rightarrow> codec_limits \<Rightarrow> codec_error + decoded_frame" where
  "decode_frame bytes lims =
    (if unat (max_frame_bytes lims) < length bytes then Err (codec_limited 0 FrameBytes)
     else if length bytes < HEADER_LEN then Err (codec_failure Truncated (length bytes))
     else if slice 0 4 bytes \<noteq> MAGIC then Err (codec_failure InvalidMagic 0)
     else if (from_be_bytes (slice 4 6 bytes) :: u16) \<noteq> FORMAT_VERSION
     then Err (codec_failure UnsupportedFormatVersion 4)
     else (let fam = from_be_bytes (slice 6 8 bytes) :: u16 in
     if fam = 0 then Err (codec_failure InvalidFamily 6)
     else (let schema = from_be_bytes (slice 8 10 bytes) :: u16 in
     if schema = 0 then Err (codec_failure InvalidSchemaVersion 8)
     else if (from_be_bytes (slice 10 12 bytes) :: u16) \<noteq> 0 then Err (codec_failure NonzeroFlags 10)
     else (let len = from_be_bytes (slice 12 16 bytes) :: u32 in
     if unat (max_payload_bytes lims) < unat len then Err (codec_limited 12 PayloadBytes)
     else (case usize_checked_add HEADER_LEN (unat len) of
       None \<Rightarrow> Err (codec_failure LengthOverflow 12)
     | Some expected \<Rightarrow>
        if length bytes < expected then Err (codec_failure Truncated (length bytes))
        else if expected < length bytes then Err (codec_failure TrailingBytes expected)
        else Ok \<lparr>header = \<lparr>family = fam, schema_version = schema, payload_len = len\<rparr>,
                 payload = slice HEADER_LEN expected bytes\<rparr>)))))"

definition frame_bytes :: "u16 \<Rightarrow> u16 \<Rightarrow> u8 list \<Rightarrow> u8 list" where
  "frame_bytes fam schema bytes = MAGIC @ to_be_bytes FORMAT_VERSION @ to_be_bytes fam
     @ to_be_bytes schema @ to_be_bytes (0 :: u16) @ to_be_bytes (of_nat (length bytes) :: u32) @ bytes"

definition frame_fits :: "codec_limits \<Rightarrow> u8 list \<Rightarrow> bool" where
  "frame_fits lims bytes \<longleftrightarrow> length bytes \<le> unat (max_payload_bytes lims) \<and> length bytes < 2 ^ 32
     \<and> HEADER_LEN + length bytes \<le> unat (max_frame_bytes lims)"

lemma length_frame_bytes [simp]: "length (frame_bytes fam schema bytes) = 16 + length bytes"
  by (simp add: frame_bytes_def MAGIC_def)

lemma encode_frame_Ok:
  "encode_frame fam schema bytes lims = Ok out \<longleftrightarrow>
     fam \<noteq> 0 \<and> schema \<noteq> 0 \<and> frame_fits lims bytes \<and> out = frame_bytes fam schema bytes"
proof -
  have "unat (max_frame_bytes lims) < 2 ^ 64"
    using unsigned_less[of "max_frame_bytes lims"] by simp
  then show ?thesis
    by (auto simp: encode_frame_def u32_try_from_def usize_checked_add_def frame_fits_def
        frame_bytes_def HEADER_LEN_def)
qed

lemma slice_append: "slice a b (xs @ ys) =
    (if b \<le> length xs then slice a b xs
     else if length xs \<le> a then slice (a - length xs) (b - length xs) ys
     else slice a (length xs) xs @ slice 0 (b - length xs) ys)"
  by (auto simp: slice_def not_le)

lemma slice_all: "length xs = n \<Longrightarrow> slice 0 n xs = xs"
  by (simp add: slice_def)

lemma slice_split: "a \<le> b \<Longrightarrow> drop a xs = slice a b xs @ drop b xs"
  by (simp add: slice_def) (metis append_take_drop_id drop_drop le_add_diff_inverse2)

lemma header_split:
  assumes "16 \<le> length bs"
  shows "bs = slice 0 4 bs @ slice 4 6 bs @ slice 6 8 bs @ slice 8 10 bs @ slice 10 12 bs
      @ slice 12 16 bs @ drop 16 bs"
proof -
  have "bs = drop 0 bs" by simp
  also have "\<dots> = slice 0 4 bs @ drop 4 bs" by (rule slice_split) simp
  also have "drop 4 bs = slice 4 6 bs @ drop 6 bs" by (rule slice_split) simp
  also have "drop 6 bs = slice 6 8 bs @ drop 8 bs" by (rule slice_split) simp
  also have "drop 8 bs = slice 8 10 bs @ drop 10 bs" by (rule slice_split) simp
  also have "drop 10 bs = slice 10 12 bs @ drop 12 bs" by (rule slice_split) simp
  also have "drop 12 bs = slice 12 16 bs @ drop 16 bs" by (rule slice_split) simp
  finally show ?thesis .
qed

lemma word_field:
  assumes "LENGTH('a::len) = 8 * n" and "length bs = n"
  shows "(from_be_bytes bs :: 'a word) = w \<longleftrightarrow> bs = to_be_bytes w"
  using to_be_bytes_eq[OF assms, of w] by auto

lemma from_to_be_bytes [simp]:
  "from_be_bytes (to_be_bytes (v :: u16)) = v" "from_be_bytes (to_be_bytes (u :: u32)) = u"
  using word_field[of 2 "to_be_bytes v" v] word_field[of 4 "to_be_bytes u" u] by simp_all

lemma frame_fields:
  "slice 0 4 (frame_bytes fam schema bs) = MAGIC"
  "slice 4 6 (frame_bytes fam schema bs) = to_be_bytes FORMAT_VERSION"
  "slice 6 8 (frame_bytes fam schema bs) = to_be_bytes fam"
  "slice 8 10 (frame_bytes fam schema bs) = to_be_bytes schema"
  "slice 10 12 (frame_bytes fam schema bs) = to_be_bytes (0 :: u16)"
  "slice 12 16 (frame_bytes fam schema bs) = to_be_bytes (of_nat (length bs) :: u32)"
  "drop 16 (frame_bytes fam schema bs) = bs"
  by (simp_all add: frame_bytes_def slice_append slice_all MAGIC_def slice_def)

lemma decode_frame_Ok:
  "decode_frame bs lims = Ok f \<longleftrightarrow> (\<exists>fam schema body. fam \<noteq> 0 \<and> schema \<noteq> 0 \<and> frame_fits lims body
     \<and> bs = frame_bytes fam schema body
     \<and> f = \<lparr>header = \<lparr>family = fam, schema_version = schema, payload_len = of_nat (length body)\<rparr>,
            payload = body\<rparr>)" (is "_ \<longleftrightarrow> ?encoded")
proof
  assume ok: "decode_frame bs lims = Ok f"
  define fam where "fam = (from_be_bytes (slice 6 8 bs) :: u16)"
  define schema where "schema = (from_be_bytes (slice 8 10 bs) :: u16)"
  define len where "len = (from_be_bytes (slice 12 16 bs) :: u32)"
  from ok have len16: "16 \<le> length bs" and frame: "length bs \<le> unat (max_frame_bytes lims)"
    and magic: "slice 0 4 bs = MAGIC" and version: "from_be_bytes (slice 4 6 bs) = FORMAT_VERSION"
    and fam: "fam \<noteq> 0" and schema: "schema \<noteq> 0" and flags: "from_be_bytes (slice 10 12 bs) = (0 :: u16)"
    and payload: "unat len \<le> unat (max_payload_bytes lims)" and total: "length bs = 16 + unat len"
    and f: "f = \<lparr>header = \<lparr>family = fam, schema_version = schema, payload_len = len\<rparr>,
        payload = slice 16 (16 + unat len) bs\<rparr>"
    unfolding decode_frame_def Let_def
    by (auto simp: HEADER_LEN_def usize_checked_add_def fam_def schema_def len_def not_less
        split: if_splits)
  define body where "body = drop 16 bs"
  have body: "length body = unat len" "slice 16 (16 + unat len) bs = body"
    using total by (simp_all add: body_def slice_def)
  have len: "len = of_nat (length body)" using body(1) by simp
  have lens: "length (slice 4 6 bs) = 2" "length (slice 6 8 bs) = 2" "length (slice 8 10 bs) = 2"
    "length (slice 10 12 bs) = 2" "length (slice 12 16 bs) = 4"
    using len16 by (simp_all add: slice_def)
  have "slice 4 6 bs = to_be_bytes FORMAT_VERSION"
    using version lens(1) word_field[of 2 "slice 4 6 bs" FORMAT_VERSION] by simp
  moreover have "slice 6 8 bs = to_be_bytes fam" "slice 8 10 bs = to_be_bytes schema"
    using lens word_field[of 2 "slice 6 8 bs" fam] word_field[of 2 "slice 8 10 bs" schema]
    by (simp_all add: fam_def schema_def)
  moreover have "slice 10 12 bs = to_be_bytes (0 :: u16)"
    using flags lens(4) word_field[of 2 "slice 10 12 bs" "0 :: u16"] by simp
  moreover have "slice 12 16 bs = to_be_bytes len"
    using lens(5) word_field[of 4 "slice 12 16 bs" len] by (simp add: len_def)
  ultimately have "bs = frame_bytes fam schema body"
    using header_split[OF len16] magic unfolding frame_bytes_def body_def[symmetric] len[symmetric] by simp
  moreover have "frame_fits lims body"
    using frame payload total body(1) unsigned_less[of len] by (simp add: frame_fits_def HEADER_LEN_def)
  ultimately show ?encoded using fam schema f len body(2) by blast
next
  assume ?encoded
  then obtain fam schema body where e: "fam \<noteq> 0" "schema \<noteq> 0" "frame_fits lims body"
    "bs = frame_bytes fam schema body"
    "f = \<lparr>header = \<lparr>family = fam, schema_version = schema, payload_len = of_nat (length body)\<rparr>, payload = body\<rparr>"
    by blast
  have u: "unat (of_nat (length body) :: u32) = length body"
    using e(3) by (simp add: frame_fits_def unat_of_nat)
  have "slice 16 (16 + length body) bs = body"
    using frame_fields(7)[of fam schema body] e(4) by (simp add: slice_def)
  moreover have "length bs = 16 + length body" using e(4) by simp
  ultimately show "decode_frame bs lims = Ok f"
    using e(1-3,5) u unfolding e(4) decode_frame_def Let_def frame_fields from_to_be_bytes
    by (auto simp: HEADER_LEN_def usize_checked_add_def frame_fits_def)
qed

lemma decode_encode_frame:
  "decode_frame bs lims = Ok f \<longleftrightarrow>
     encode_frame (family (header f)) (schema_version (header f)) (payload f) lims = Ok bs
   \<and> payload_len (header f) = of_nat (length (payload f))"
proof -
  have "f = \<lparr>header = \<lparr>family = fam, schema_version = schema, payload_len = len\<rparr>, payload = body\<rparr> \<longleftrightarrow>
      family (header f) = fam \<and> schema_version (header f) = schema \<and> payload_len (header f) = len
      \<and> payload f = body" for fam schema len body
    by (cases f, cases "header f") auto
  then show ?thesis by (auto simp: decode_frame_Ok encode_frame_Ok)
qed

lemma decode_frame_offset:
  "decode_frame bs lims = Err e \<Longrightarrow> codec_offset e \<le> length bs"
  by (auto simp: decode_frame_def Let_def HEADER_LEN_def usize_checked_add_def split: if_splits)

text \<open>A frame tells its own length: none is a proper prefix of another.\<close>

lemma frame_self_delimiting:
  assumes "decode_frame bs lims = Ok f" and "decode_frame (bs @ extra) lims' = Ok f'"
  shows "extra = []"
proof -
  from assms(1) obtain fam schema body where 1: "bs = frame_bytes fam schema body" "length body < 2 ^ 32"
    by (auto simp: decode_frame_Ok frame_fits_def)
  from assms(2) obtain fam' schema' body' where 2: "bs @ extra = frame_bytes fam' schema' body'" "length body' < 2 ^ 32"
    by (auto simp: decode_frame_Ok frame_fits_def)
  have "slice 12 16 (bs @ extra) = slice 12 16 bs" using 1(1) by (simp add: slice_append)
  then have "to_be_bytes (of_nat (length body) :: u32) = to_be_bytes (of_nat (length body') :: u32)"
    unfolding 2(1) unfolding 1(1) frame_fields by simp
  then have "(of_nat (length body) :: u32) = of_nat (length body')" by (simp add: to_be_bytes_inject)
  then have "length body = length body'" using 1(2) 2(2) by (simp add: word_of_nat_eq_iff take_bit_nat_def)
  then have "length (bs @ extra) = length bs" unfolding 2(1) using 1(1) by simp
  then show ?thesis by simp
qed

section \<open>Messages\<close>

definition encode_message ::
  "('a \<Rightarrow> (writer, unit) operation) \<Rightarrow> u16 \<Rightarrow> u16 \<Rightarrow> 'a \<Rightarrow> codec_limits \<Rightarrow> codec_error + u8 list" where
  "encode_message put fam schema x lims = (case put x (writer_new lims) of
     (Inl e, _) \<Rightarrow> Err e | (Inr _, w) \<Rightarrow> encode_frame fam schema (wbytes w) lims)"

definition decode_message ::
  "(reader, 'a) operation \<Rightarrow> u16 \<Rightarrow> u16 \<Rightarrow> u8 list \<Rightarrow> codec_limits \<Rightarrow> codec_error + 'a" where
  "decode_message get fam schema bytes lims = (case decode_frame bytes lims of
     Inl e \<Rightarrow> Err e
   | Inr frame \<Rightarrow>
      if family (header frame) \<noteq> fam then Err (codec_failure WrongFamily 6)
      else if schema_version (header frame) \<noteq> schema then Err (codec_failure WrongSchemaVersion 8)
      else (case get (reader_with_base (payload frame) lims HEADER_LEN) of
        (Inl e, _) \<Rightarrow> Err e
      | (Inr x, r) \<Rightarrow> (case finish r of Inl e \<Rightarrow> Err e | Inr _ \<Rightarrow> Ok x)))"

text \<open>\<open>sha256\<close> and \<open>canonical_sha256\<close>, over the digest function of the \<open>sha2\<close> crate.\<close>

definition sha256 :: "(u8 list \<Rightarrow> bytes32) \<Rightarrow> u8 list \<Rightarrow> sha256_digest" where
  "sha256 sha2_digest bytes = Sha256Digest (sha2_digest bytes)"

definition canonical_sha256 ::
  "(u8 list \<Rightarrow> bytes32) \<Rightarrow> ('a \<Rightarrow> (writer, unit) operation) \<Rightarrow> u16 \<Rightarrow> u16 \<Rightarrow> 'a \<Rightarrow> codec_limits
     \<Rightarrow> codec_error + sha256_digest" where
  "canonical_sha256 sha2_digest put fam schema x lims =
     (case encode_message put fam schema x lims of
        Inl e \<Rightarrow> Err e | Inr bytes \<Rightarrow> Ok (sha256 sha2_digest bytes))"

locale message_format = wire_format put get enc fits
  for put :: "'a \<Rightarrow> (writer, unit) operation" and get :: "(reader, 'a) operation"
    and enc :: "'a \<Rightarrow> u8 list" and fits :: "codec_limits \<Rightarrow> u16 \<Rightarrow> 'a \<Rightarrow> bool" +
  fixes fam :: u16 and schema :: u16
  assumes family_nonzero: "fam \<noteq> 0" and schema_nonzero: "schema \<noteq> 0"
begin

lemma encode_Ok:
  "encode_message put fam schema x lims = Ok bs \<longleftrightarrow>
     fits lims 0 x \<and> frame_fits lims (enc x) \<and> bs = frame_bytes fam schema (enc x)"
proof (cases "put x (writer_new lims)")
  case (Pair res w)
  show ?thesis
  proof (cases res)
    case (Inl e)
    with Pair write_Ok[of x "writer_new lims" "append_bytes (writer_new lims) (enc x)"]
    show ?thesis
      by (auto simp: encode_message_def writer_new_def room_def frame_fits_def)
  next
    case (Inr u)
    with Pair write_Ok[of x "writer_new lims" w]
    show ?thesis
      by (auto simp: encode_message_def writer_new_def room_def encode_frame_Ok append_bytes_def
          family_nonzero schema_nonzero)
  qed
qed

text \<open>Decoding inverts encoding, and accepts nothing else.\<close>

lemma decode_Ok: "decode_message get fam schema bs lims = Ok x \<longleftrightarrow> encode_message put fam schema x lims = Ok bs"
proof -
  have body: "(case get (reader_with_base body lims HEADER_LEN) of (Inl e, _) \<Rightarrow> Err e
       | (Inr y, r) \<Rightarrow> (case finish r of Inl e \<Rightarrow> Err e | Inr _ \<Rightarrow> Ok y)) = Ok x
     \<longleftrightarrow> fits lims 0 x \<and> body = enc x" if "length body < 2 ^ 32" for body
  proof -
    have "(case get (reader_with_base body lims HEADER_LEN) of (Inl e, _) \<Rightarrow> Err e
         | (Inr y, r) \<Rightarrow> (case finish r of Inl e \<Rightarrow> Err e | Inr _ \<Rightarrow> Ok y)) = Ok x
       \<longleftrightarrow> (\<exists>r. get (reader_with_base body lims HEADER_LEN) = (Ok x, r) \<and> finish r = Ok ())"
      by (auto split: prod.splits sum.splits)
    also have "\<dots> \<longleftrightarrow> fits lims 0 x \<and> body = enc x"
      using that by (auto simp: read_Ok finish_def reader_with_base_def ready_def)
    finally show ?thesis .
  qed
  show ?thesis
  proof
    assume "decode_message get fam schema bs lims = Ok x"
    then obtain f where f: "decode_frame bs lims = Ok f" "family (header f) = fam" "schema_version (header f) = schema"
      "(case get (reader_with_base (payload f) lims HEADER_LEN) of (Inl e, _) \<Rightarrow> Err e
       | (Inr y, r) \<Rightarrow> (case finish r of Inl e \<Rightarrow> Err e | Inr _ \<Rightarrow> Ok y)) = Ok x"
      by (auto simp: decode_message_def split: sum.splits if_splits)
    from f(1) have "frame_fits lims (payload f)" "bs = frame_bytes (family (header f)) (schema_version (header f)) (payload f)"
      by (auto simp: decode_frame_Ok)
    then show "encode_message put fam schema x lims = Ok bs"
      using f(2-4) body[of "payload f"] by (simp add: encode_Ok frame_fits_def)
  next
    assume "encode_message put fam schema x lims = Ok bs"
    then have e: "fits lims 0 x" "frame_fits lims (enc x)" "bs = frame_bytes fam schema (enc x)"
      by (simp_all add: encode_Ok)
    then have "decode_frame bs lims = Ok \<lparr>header = \<lparr>family = fam, schema_version = schema,
        payload_len = of_nat (length (enc x))\<rparr>, payload = enc x\<rparr>"
      using family_nonzero schema_nonzero by (auto simp: decode_frame_Ok)
    then show "decode_message get fam schema bs lims = Ok x"
      using e(1,2) body[of "enc x"] by (simp add: decode_message_def frame_fits_def)
  qed
qed

text \<open>Refusals point into the bytes that were refused.\<close>

lemma decode_offset:
  assumes "decode_message get fam schema bs lims = Err e"
  shows "codec_offset e \<le> length bs"
proof (cases "decode_frame bs lims")
  case (Inl e')
  with assms show ?thesis by (auto simp: decode_message_def intro: decode_frame_offset)
next
  case (Inr f)
  then have len: "length bs = 16 + length (payload f)" by (auto simp: decode_frame_Ok)
  let ?r = "reader_with_base (payload f) lims HEADER_LEN"
  obtain res r' where run: "get ?r = (res, r')" by fastforce
  have start: "position ?r \<le> length (input ?r)" "0 \<le> offset ?r" by (simp_all add: reader_with_base_def)
  from steadyD(1)[OF read_steady run start] obtain n where n: "r' = advance ?r n" "n \<le> length (payload f)"
    by (auto simp: reader_with_base_def)
  have "codec_offset e' \<le> 16 + length (payload f)" if "res = Err e'" for e'
    using steadyD(2)[OF read_steady run start that] by (simp add: reader_with_base_def HEADER_LEN_def)
  moreover have "codec_offset e' \<le> 16 + length (payload f)" if "finish r' = Err e'" for e'
    using that n by (auto simp: finish_def reader_with_base_def offset_def HEADER_LEN_def split: if_splits)
  ultimately show ?thesis
    using assms Inr run len by (auto simp: decode_message_def split: if_splits sum.splits)
qed

lemma encode_inject:
  assumes "encode_message put fam schema x lims = Ok bs" and "encode_message put fam schema y lims' = Ok bs"
  shows "enc x = enc y"
  using assms by (auto simp: encode_Ok frame_bytes_def)

end

end
