(* ===== verification/Peritus_Identifiers.thy ===== *)
theory Peritus_Identifiers
  imports Peritus_Types
begin

text \<open>
  \<open>peritus-types\<close>, files \<open>ids/*.rs\<close>: the constructors of the nominal identifiers. Every nominal
  identifier is a tuple struct around \<open>OpaqueIdentifier\<close> whose \<open>new\<close> passes the identifier check
  on and wraps the result (\<open>wrapped_new\<close>), and whose \<open>as_bytes\<close> and \<open>into_bytes\<close> return the bytes
  of the identifier inside. The locale states what the other crates use of one.
\<close>

definition wrapped_new :: "(opaque_identifier \<Rightarrow> 'a) \<Rightarrow> bytes16 \<Rightarrow> identifier_error + 'a" where
  "wrapped_new wrap b = (case identifier_new b of Inl e \<Rightarrow> Err e | Inr i \<Rightarrow> Ok (wrap i))"

locale nominal_id =
  fixes wrap :: "opaque_identifier \<Rightarrow> 'a" and raw :: "'a \<Rightarrow> opaque_identifier"
  assumes raw_wrap: "raw (wrap i) = i" and wrap_raw: "wrap (raw x) = x"
begin

lemma new_Ok: "wrapped_new wrap b = Ok x \<longleftrightarrow> bytes16_list b = as_bytes (raw x)"
proof -
  have "wrapped_new wrap b = Ok x \<longleftrightarrow> identifier_new b = Ok (raw x)"
    using raw_wrap wrap_raw by (auto simp: wrapped_new_def split: sum.splits)
  then show ?thesis by (auto simp: identifier_new_as_bytes)
qed

lemma new_Err: "wrapped_new wrap b = Err e \<longleftrightarrow> bytes16_list b = replicate 16 0 \<and> e = IdentifierZero"
proof -
  have "some_byte_nonzero b \<longleftrightarrow> bytes16_list b \<noteq> replicate 16 0"
    by (auto simp: some_byte_nonzero_def list_ex_iff intro: replicate_eqI)
  then show ?thesis by (auto simp: wrapped_new_def identifier_new_def)
qed

lemma new_bytes: "wrapped_new wrap (identifier_bytes (raw x)) = Ok x"
  by (simp add: new_Ok as_bytes_def)

lemma bytes_inject: "as_bytes (raw x) = as_bytes (raw y) \<longleftrightarrow> x = y"
  by simp (metis wrap_raw)

end

section \<open>The identifiers\<close>

text \<open>\<open>ids/lifecycle.rs\<close>.\<close>

datatype project_id = ProjectId (project_id_raw: opaque_identifier)

definition project_id_new :: "bytes16 \<Rightarrow> identifier_error + project_id" where
  "project_id_new = wrapped_new ProjectId"

interpretation project_id: nominal_id ProjectId project_id_raw
  by unfold_locales simp_all

definition acceptance_spec_id_new :: "bytes16 \<Rightarrow> identifier_error + acceptance_spec_id" where
  "acceptance_spec_id_new = wrapped_new AcceptanceSpecId"

interpretation acceptance_spec_id: nominal_id AcceptanceSpecId acceptance_spec_id_raw
  by unfold_locales simp_all

definition harness_id_new :: "bytes16 \<Rightarrow> identifier_error + harness_id" where
  "harness_id_new = wrapped_new HarnessId"

interpretation harness_id: nominal_id HarnessId harness_id_raw
  by unfold_locales simp_all

datatype session_id = SessionId (session_id_raw: opaque_identifier)

definition session_id_new :: "bytes16 \<Rightarrow> identifier_error + session_id" where
  "session_id_new = wrapped_new SessionId"

interpretation session_id: nominal_id SessionId session_id_raw
  by unfold_locales simp_all

datatype run_id = RunId (run_id_raw: opaque_identifier)

definition run_id_new :: "bytes16 \<Rightarrow> identifier_error + run_id" where
  "run_id_new = wrapped_new RunId"

interpretation run_id: nominal_id RunId run_id_raw
  by unfold_locales simp_all

datatype attempt_id = AttemptId (attempt_id_raw: opaque_identifier)

definition attempt_id_new :: "bytes16 \<Rightarrow> identifier_error + attempt_id" where
  "attempt_id_new = wrapped_new AttemptId"

interpretation attempt_id: nominal_id AttemptId attempt_id_raw
  by unfold_locales simp_all

text \<open>\<open>ids/execution.rs\<close>.\<close>

datatype turn_id = TurnId (turn_id_raw: opaque_identifier)

definition turn_id_new :: "bytes16 \<Rightarrow> identifier_error + turn_id" where
  "turn_id_new = wrapped_new TurnId"

interpretation turn_id: nominal_id TurnId turn_id_raw
  by unfold_locales simp_all

definition action_id_new :: "bytes16 \<Rightarrow> identifier_error + action_id" where
  "action_id_new = wrapped_new ActionId"

interpretation action_id: nominal_id ActionId action_id_raw
  by unfold_locales simp_all

definition workspace_id_new :: "bytes16 \<Rightarrow> identifier_error + workspace_id" where
  "workspace_id_new = wrapped_new WorkspaceId"

interpretation workspace_id: nominal_id WorkspaceId workspace_id_raw
  by unfold_locales simp_all

datatype snapshot_id = SnapshotId (snapshot_id_raw: opaque_identifier)

definition snapshot_id_new :: "bytes16 \<Rightarrow> identifier_error + snapshot_id" where
  "snapshot_id_new = wrapped_new SnapshotId"

interpretation snapshot_id: nominal_id SnapshotId snapshot_id_raw
  by unfold_locales simp_all

datatype actor_id = ActorId (actor_id_raw: opaque_identifier)

definition actor_id_new :: "bytes16 \<Rightarrow> identifier_error + actor_id" where
  "actor_id_new = wrapped_new ActorId"

interpretation actor_id: nominal_id ActorId actor_id_raw
  by unfold_locales simp_all

datatype environment_id = EnvironmentId (environment_id_raw: opaque_identifier)

definition environment_id_new :: "bytes16 \<Rightarrow> identifier_error + environment_id" where
  "environment_id_new = wrapped_new EnvironmentId"

interpretation environment_id: nominal_id EnvironmentId environment_id_raw
  by unfold_locales simp_all

datatype resource_id = ResourceId (resource_id_raw: opaque_identifier)

definition resource_id_new :: "bytes16 \<Rightarrow> identifier_error + resource_id" where
  "resource_id_new = wrapped_new ResourceId"

interpretation resource_id: nominal_id ResourceId resource_id_raw
  by unfold_locales simp_all

definition policy_id_new :: "bytes16 \<Rightarrow> identifier_error + policy_id" where
  "policy_id_new = wrapped_new PolicyId"

interpretation policy_id: nominal_id PolicyId policy_id_raw
  by unfold_locales simp_all

definition provider_profile_id_new :: "bytes16 \<Rightarrow> identifier_error + provider_profile_id" where
  "provider_profile_id_new = wrapped_new ProviderProfileId"

interpretation provider_profile_id: nominal_id ProviderProfileId provider_profile_id_raw
  by unfold_locales simp_all

datatype command_id = CommandId (command_id_raw: opaque_identifier)

definition command_id_new :: "bytes16 \<Rightarrow> identifier_error + command_id" where
  "command_id_new = wrapped_new CommandId"

interpretation command_id: nominal_id CommandId command_id_raw
  by unfold_locales simp_all

text \<open>\<open>ids/records.rs\<close>.\<close>

datatype event_id = EventId (event_id_raw: opaque_identifier)

definition event_id_new :: "bytes16 \<Rightarrow> identifier_error + event_id" where
  "event_id_new = wrapped_new EventId"

interpretation event_id: nominal_id EventId event_id_raw
  by unfold_locales simp_all

datatype process_id = ProcessId (process_id_raw: opaque_identifier)

definition process_id_new :: "bytes16 \<Rightarrow> identifier_error + process_id" where
  "process_id_new = wrapped_new ProcessId"

interpretation process_id: nominal_id ProcessId process_id_raw
  by unfold_locales simp_all

datatype artifact_id = ArtifactId (artifact_id_raw: opaque_identifier)

definition artifact_id_new :: "bytes16 \<Rightarrow> identifier_error + artifact_id" where
  "artifact_id_new = wrapped_new ArtifactId"

interpretation artifact_id: nominal_id ArtifactId artifact_id_raw
  by unfold_locales simp_all

datatype evidence_id = EvidenceId (evidence_id_raw: opaque_identifier)

definition evidence_id_new :: "bytes16 \<Rightarrow> identifier_error + evidence_id" where
  "evidence_id_new = wrapped_new EvidenceId"

interpretation evidence_id: nominal_id EvidenceId evidence_id_raw
  by unfold_locales simp_all

text \<open>\<open>ids/review.rs\<close>.\<close>

datatype gate_id = GateId (gate_id_raw: opaque_identifier)

definition gate_id_new :: "bytes16 \<Rightarrow> identifier_error + gate_id" where
  "gate_id_new = wrapped_new GateId"

interpretation gate_id: nominal_id GateId gate_id_raw
  by unfold_locales simp_all

datatype gate_execution_id = GateExecutionId (gate_execution_id_raw: opaque_identifier)

definition gate_execution_id_new :: "bytes16 \<Rightarrow> identifier_error + gate_execution_id" where
  "gate_execution_id_new = wrapped_new GateExecutionId"

interpretation gate_execution_id: nominal_id GateExecutionId gate_execution_id_raw
  by unfold_locales simp_all

datatype review_cycle_id = ReviewCycleId (review_cycle_id_raw: opaque_identifier)

definition review_cycle_id_new :: "bytes16 \<Rightarrow> identifier_error + review_cycle_id" where
  "review_cycle_id_new = wrapped_new ReviewCycleId"

interpretation review_cycle_id: nominal_id ReviewCycleId review_cycle_id_raw
  by unfold_locales simp_all

datatype finding_id = FindingId (finding_id_raw: opaque_identifier)

definition finding_id_new :: "bytes16 \<Rightarrow> identifier_error + finding_id" where
  "finding_id_new = wrapped_new FindingId"

interpretation finding_id: nominal_id FindingId finding_id_raw
  by unfold_locales simp_all

datatype approval_request_id = ApprovalRequestId (approval_request_id_raw: opaque_identifier)

definition approval_request_id_new :: "bytes16 \<Rightarrow> identifier_error + approval_request_id" where
  "approval_request_id_new = wrapped_new ApprovalRequestId"

interpretation approval_request_id: nominal_id ApprovalRequestId approval_request_id_raw
  by unfold_locales simp_all

text \<open>\<open>ids/budget.rs\<close>.\<close>

definition budget_id_new :: "bytes16 \<Rightarrow> identifier_error + budget_id" where
  "budget_id_new = wrapped_new BudgetId"

interpretation budget_id: nominal_id BudgetId budget_id_raw
  by unfold_locales simp_all

definition budget_reservation_id_new :: "bytes16 \<Rightarrow> identifier_error + budget_reservation_id" where
  "budget_reservation_id_new = wrapped_new BudgetReservationId"

interpretation budget_reservation_id: nominal_id BudgetReservationId reservation_id_raw
  by unfold_locales simp_all

text \<open>\<open>ids/evolution.rs\<close>.\<close>

datatype evaluation_campaign_id = EvaluationCampaignId (evaluation_campaign_id_raw: opaque_identifier)

definition evaluation_campaign_id_new :: "bytes16 \<Rightarrow> identifier_error + evaluation_campaign_id" where
  "evaluation_campaign_id_new = wrapped_new EvaluationCampaignId"

interpretation evaluation_campaign_id: nominal_id EvaluationCampaignId evaluation_campaign_id_raw
  by unfold_locales simp_all

datatype evolution_campaign_id = EvolutionCampaignId (evolution_campaign_id_raw: opaque_identifier)

definition evolution_campaign_id_new :: "bytes16 \<Rightarrow> identifier_error + evolution_campaign_id" where
  "evolution_campaign_id_new = wrapped_new EvolutionCampaignId"

interpretation evolution_campaign_id: nominal_id EvolutionCampaignId evolution_campaign_id_raw
  by unfold_locales simp_all

end
