(* ===== verification/Protocol_Primitives.thy ===== *)
theory Protocol_Primitives
  imports Codec_Message Peritus_Identifiers
begin

text \<open>
  \<open>peritus-protocol\<close>, file \<open>primitive.rs\<close>: the encodings the message families share (identifiers,
  digests, options, closed enumerations, the revision tuple), with \<open>write_role\<close> and \<open>read_role\<close>
  left to the policy messages. Each is shown to be a wire format.
\<close>

section \<open>Sequences of writes\<close>

text \<open>\<open>a(writer)?; b(writer)?; c(writer)\<close>.\<close>

fun in_order :: "(writer, unit) operation list \<Rightarrow> (writer, unit) operation" where
  "in_order [] = ret ()"
| "in_order (m # ms) = and_then m (\<lambda>_. in_order ms)"

lemma appends_in_order [appends_intros]: "\<forall>m\<in>set ms. appends m \<Longrightarrow> appends (in_order ms)"
  by (induction ms) (auto intro!: appends_intros)

lemmas wire_layout = room_append ready_append add.assoc

section \<open>Closed enumerations\<close>

text \<open>
  \<open>let offset = reader.offset(); match reader.read_u16()? { tag => Ok(..), _ => Err(UnknownTag) }\<close>,
  with the arms of the match as a partial function of the tag.
\<close>

definition read_tag :: "(u16 \<Rightarrow> 'a option) \<Rightarrow> (reader, 'a) operation" where
  "read_tag arms = and_then (query offset) (\<lambda>at_byte. and_then read_u16 (\<lambda>tag.
     case arms tag of Some x \<Rightarrow> ret x | None \<Rightarrow> fail (codec_failure_at UnknownTag at_byte)))"

definition write_tag :: "('a \<Rightarrow> u16) \<Rightarrow> 'a \<Rightarrow> (writer, unit) operation" where
  "write_tag tag x = write_u16 (tag x)"

lemma option_step:
  "(case v of None \<Rightarrow> fail e | Some y \<Rightarrow> ret y) s = (Ok x, s') \<longleftrightarrow> v = Some x \<and> s' = s"
  by (auto split: option.splits)

lemma tag_wire:
  assumes arms: "\<And>t x. arms t = Some x \<longleftrightarrow> t = tag x"
  shows "wire_format (write_tag tag) (read_tag arms) (\<lambda>x. to_be_bytes (tag x)) always"
proof unfold_locales
  show "write_tag tag x w = (Ok (), w') \<longleftrightarrow> True \<and> room w (to_be_bytes (tag x))
      \<and> w' = append_bytes w (to_be_bytes (tag x))" for x w w'
    by (simp add: write_tag_def wire_simps)
  show "read_tag arms r = (Ok x, r') \<longleftrightarrow> True \<and> ready r (to_be_bytes (tag x))
      \<and> r' = advance r (length (to_be_bytes (tag x)))" for r x r'
    by (auto simp: read_tag_def wire_simps option_step arms)
  show "appends (write_tag tag x)" for x by (simp add: write_tag_def appends_intros)
  show "steady lo (read_tag arms)" for lo
    unfolding read_tag_def by (intro steady_offset steady_intros) simp
qed

section \<open>Identifiers and digests\<close>

definition write_id :: "bytes16 \<Rightarrow> (writer, unit) operation" where
  "write_id b = write_fixed (bytes16_list b)"

definition read_id :: "(bytes16 \<Rightarrow> identifier_error + 'a) \<Rightarrow> (reader, 'a) operation" where
  "read_id checked = and_then (query offset) (\<lambda>at_byte. and_then (read_fixed 16) (\<lambda>bs.
     case checked (Bytes16 bs) of
       Inl _ \<Rightarrow> fail (codec_failure_at InvalidDomainValue at_byte) | Inr x \<Rightarrow> ret x))"

lemma bytes16_list_Bytes16: "length bs = 16 \<Longrightarrow> bytes16_list (Bytes16 bs) = bs"
  by (simp add: Bytes16_inverse)

lemma bytes32_list_Bytes32: "length bs = 32 \<Longrightarrow> bytes32_list (Bytes32 bs) = bs"
  by (simp add: Bytes32_inverse)

lemma sum_step:
  "(case v of Inl _ \<Rightarrow> fail e | Inr y \<Rightarrow> ret y) s = (Ok x, s') \<longleftrightarrow> v = Ok x \<and> s' = s"
  by (auto split: sum.splits)

lemma id_wire:
  assumes "nominal_id wrap raw"
  shows "wire_format (\<lambda>x. write_id (identifier_bytes (raw x))) (read_id (wrapped_new wrap))
    (\<lambda>x. as_bytes (raw x)) always"
proof unfold_locales
  note new = nominal_id.new_Ok[OF assms]
  show "write_id (identifier_bytes (raw x)) w = (Ok (), w') \<longleftrightarrow>
      True \<and> room w (as_bytes (raw x)) \<and> w' = append_bytes w (as_bytes (raw x))" for x w w'
    by (simp add: write_id_def write_fixed_Ok as_bytes_def)
  have new16: "length bs = 16 \<and> ready r bs \<and> wrapped_new wrap (Bytes16 bs) = Ok x \<longleftrightarrow>
      bs = as_bytes (raw x) \<and> ready r (as_bytes (raw x))" for bs r x
    by (auto simp: new bytes16_list_Bytes16)
  show "read_id (wrapped_new wrap) r = (Ok x, r') \<longleftrightarrow>
      True \<and> ready r (as_bytes (raw x)) \<and> r' = advance r (length (as_bytes (raw x)))" for r x r'
    using new16 by (simp add: read_id_def read_fixed_def sum_step) blast
  show "appends (write_id (identifier_bytes (raw x)))" for x by (simp add: write_id_def appends_intros)
  show "steady lo (read_id (wrapped_new wrap))" for lo
    unfolding read_id_def by (intro steady_offset steady_intros) simp
qed

definition write_digest :: "sha256_digest \<Rightarrow> (writer, unit) operation" where
  "write_digest d = write_fixed (digest_bytes d)"

definition read_digest :: "(reader, sha256_digest) operation" where
  "read_digest = and_then (read_fixed 32) (\<lambda>bs. ret (Sha256Digest (Bytes32 bs)))"

interpretation digest_wire: wire_format write_digest read_digest digest_bytes always
proof unfold_locales
  have new32: "length bs = 32 \<and> ready r bs \<and> d = Sha256Digest (Bytes32 bs) \<longleftrightarrow>
      bs = digest_bytes d \<and> ready r (digest_bytes d)" for bs r d
    by (cases d) (auto simp: digest_bytes_def bytes32_list_Bytes32 bytes32_list_inverse)
  show "read_digest r = (Ok d, r') \<longleftrightarrow> True \<and> ready r (digest_bytes d) \<and> r' = advance r (length (digest_bytes d))" for r d r'
    using new32 by (simp add: read_digest_def read_fixed_def) blast
qed (simp_all add: write_digest_def write_fixed_Ok read_digest_def appends_intros steady_intros)

lemmas [wire_simps] = digest_wire.write_Ok digest_wire.read_Ok

section \<open>Options\<close>

text \<open>An option is its presence tag and then the value; digests, amounts and finality share this.\<close>

definition write_option :: "('a \<Rightarrow> (writer, unit) operation) \<Rightarrow> 'a option \<Rightarrow> (writer, unit) operation" where
  "write_option put v = in_order [write_option_tag (v \<noteq> None), (case v of Some x \<Rightarrow> put x | None \<Rightarrow> ret ())]"

definition read_option :: "(reader, 'a) operation \<Rightarrow> (reader, 'a option) operation" where
  "read_option get = and_then read_option_tag (\<lambda>present.
     if present then and_then get (\<lambda>x. ret (Some x)) else ret None)"

definition enc_option :: "('a \<Rightarrow> u8 list) \<Rightarrow> 'a option \<Rightarrow> u8 list" where
  "enc_option enc v = (case v of None \<Rightarrow> enc_flag False | Some x \<Rightarrow> enc_flag True @ enc x)"

lemma option_wire:
  assumes "wire_format put get enc always"
  shows "wire_format (write_option put) (read_option get) (enc_option enc) always"
proof unfold_locales
  note put = wire_format.write_Ok[OF assms] and get = wire_format.read_Ok[OF assms]
  show "write_option put v w = (Ok (), w') \<longleftrightarrow> True \<and> room w (enc_option enc v) \<and> w' = append_bytes w (enc_option enc v)" for v w w'
    by (cases v) (auto simp: write_option_def wire_simps put enc_option_def wire_layout simp del: enc_flag_simps(1,2))
  show "read_option get r = (Ok v, r') \<longleftrightarrow> True \<and> ready r (enc_option enc v) \<and> r' = advance r (length (enc_option enc v))" for r v r'
  proof (cases v)
    case None
    then show ?thesis
      by (auto simp: read_option_def wire_simps enc_option_def split: if_splits intro: exI[of _ False])
  next
    case (Some x)
    then show ?thesis
      by (auto simp: read_option_def wire_simps get enc_option_def wire_layout split: if_splits
          intro!: exI[of _ True] simp del: enc_flag_simps(1,2))
  qed
  show "appends (write_option put v)" for v
    using wire_format.write_appends[OF assms]
    by (cases v) (auto simp: write_option_def intro!: appends_intros)
  show "steady lo (read_option get)" for lo
    unfolding read_option_def by (intro steady_intros wire_format.read_steady[OF assms])
qed

definition write_option_digest :: "sha256_digest option \<Rightarrow> (writer, unit) operation" where
  "write_option_digest = write_option write_digest"

definition read_option_digest :: "(reader, sha256_digest option) operation" where
  "read_option_digest = read_option read_digest"

interpretation option_digest_wire: wire_format write_option_digest read_option_digest
  "enc_option digest_bytes" always
  unfolding write_option_digest_def read_option_digest_def
  by (rule option_wire) (rule digest_wire.wire_format_axioms)

definition write_option_id :: "'a option \<Rightarrow> ('a \<Rightarrow> bytes16) \<Rightarrow> (writer, unit) operation" where
  "write_option_id v bytes = write_option (\<lambda>x. write_id (bytes x)) v"

definition read_option_id :: "(bytes16 \<Rightarrow> identifier_error + 'a) \<Rightarrow> (reader, 'a option) operation" where
  "read_option_id checked = read_option (read_id checked)"

lemma option_id_wire:
  assumes "nominal_id wrap raw"
  shows "wire_format (\<lambda>v. write_option_id v (\<lambda>x. identifier_bytes (raw x)))
    (read_option_id (wrapped_new wrap)) (enc_option (\<lambda>x. as_bytes (raw x))) always"
  unfolding write_option_id_def read_option_id_def by (rule option_wire[OF id_wire[OF assms]])

section \<open>One-based numbers\<close>

text \<open>\<open>let offset = reader.offset(); Number::new(reader.read_u64()?).map_err(..)\<close>.\<close>

definition read_number :: "(u64 \<Rightarrow> one_based_number_error + 'a) \<Rightarrow> (reader, 'a) operation" where
  "read_number checked = and_then (query offset) (\<lambda>at_byte. and_then read_u64 (\<lambda>v.
     case checked v of
       Inl _ \<Rightarrow> fail (codec_failure_at InvalidDomainValue at_byte) | Inr x \<Rightarrow> ret x))"

lemma number_wire:
  assumes "\<And>v x. checked v = Ok x \<longleftrightarrow> v = value x"
  shows "wire_format (\<lambda>x. write_u64 (value x)) (read_number checked) (\<lambda>x. to_be_bytes (value x)) always"
proof unfold_locales
  show "read_number checked r = (Ok x, r') \<longleftrightarrow> True \<and> ready r (to_be_bytes (value x))
      \<and> r' = advance r (length (to_be_bytes (value x)))" for r x r'
    by (auto simp: read_number_def wire_simps sum_step assms)
  show "steady lo (read_number checked)" for lo
    unfolding read_number_def by (intro steady_offset steady_intros) simp
qed (simp_all add: wire_simps appends_intros)

lemma number_new_Ok:
  "generation_new v = Ok g \<longleftrightarrow> v = generation_get g"
  "revision_number_new v = Ok n \<longleftrightarrow> v = revision_number_get n"
  "event_sequence_new v = Ok s \<longleftrightarrow> v = event_sequence_get s"
proof -
  show "generation_new v = Ok g \<longleftrightarrow> v = generation_get g"
    using positive_new_Ok[of v "generation_raw g"]
    by (cases g) (auto simp: generation_new_def generation_get_def split: sum.splits)
  show "revision_number_new v = Ok n \<longleftrightarrow> v = revision_number_get n"
    using positive_new_Ok[of v "revision_number_raw n"]
    by (cases n) (auto simp: revision_number_new_def revision_number_get_def split: sum.splits)
  show "event_sequence_new v = Ok s \<longleftrightarrow> v = event_sequence_get s"
    using positive_new_Ok[of v "event_sequence_raw s"]
    by (cases s) (auto simp: event_sequence_new_def event_sequence_get_def split: sum.splits)
qed

interpretation generation_wire: wire_format "\<lambda>g. write_u64 (generation_get g)"
  "read_number generation_new" "\<lambda>g. to_be_bytes (generation_get g)" always
  by (rule number_wire) (rule number_new_Ok)

interpretation revision_number_wire: wire_format "\<lambda>n. write_u64 (revision_number_get n)"
  "read_number revision_number_new" "\<lambda>n. to_be_bytes (revision_number_get n)" always
  by (rule number_wire) (rule number_new_Ok)

section \<open>Identifiers of the revision tuple\<close>

interpretation acceptance_spec_id_wire: wire_format
  "\<lambda>x. write_id (identifier_bytes (acceptance_spec_id_raw x))" "read_id acceptance_spec_id_new"
  "\<lambda>x. as_bytes (acceptance_spec_id_raw x)" always
  unfolding acceptance_spec_id_new_def by (rule id_wire) (rule acceptance_spec_id.nominal_id_axioms)

interpretation harness_id_wire: wire_format
  "\<lambda>x. write_id (identifier_bytes (harness_id_raw x))" "read_id harness_id_new"
  "\<lambda>x. as_bytes (harness_id_raw x)" always
  unfolding harness_id_new_def by (rule id_wire) (rule harness_id.nominal_id_axioms)

interpretation workspace_id_wire: wire_format
  "\<lambda>x. write_id (identifier_bytes (workspace_id_raw x))" "read_id workspace_id_new"
  "\<lambda>x. as_bytes (workspace_id_raw x)" always
  unfolding workspace_id_new_def by (rule id_wire) (rule workspace_id.nominal_id_axioms)

interpretation policy_id_wire: wire_format
  "\<lambda>x. write_id (identifier_bytes (policy_id_raw x))" "read_id policy_id_new"
  "\<lambda>x. as_bytes (policy_id_raw x)" always
  unfolding policy_id_new_def by (rule id_wire) (rule policy_id.nominal_id_axioms)

interpretation provider_profile_id_wire: wire_format
  "\<lambda>x. write_id (identifier_bytes (provider_profile_id_raw x))" "read_id provider_profile_id_new"
  "\<lambda>x. as_bytes (provider_profile_id_raw x)" always
  unfolding provider_profile_id_new_def by (rule id_wire) (rule provider_profile_id.nominal_id_axioms)

lemma write_id_Ok [wire_simps]:
  "write_id (identifier_bytes i) w = (Ok (), w') \<longleftrightarrow> room w (as_bytes i) \<and> w' = append_bytes w (as_bytes i)"
  by (simp add: write_id_def write_fixed_Ok as_bytes_def)

lemma appends_write_id [appends_intros]: "appends (write_id b)" "appends (write_digest d)"
  by (simp_all add: write_id_def write_digest_def appends_intros)

lemmas [wire_simps] =
  option_digest_wire.write_Ok option_digest_wire.read_Ok generation_wire.read_Ok
  revision_number_wire.read_Ok acceptance_spec_id_wire.read_Ok harness_id_wire.read_Ok
  workspace_id_wire.read_Ok policy_id_wire.read_Ok provider_profile_id_wire.read_Ok

lemmas [steady_intros] =
  digest_wire.read_steady option_digest_wire.read_steady generation_wire.read_steady
  revision_number_wire.read_steady acceptance_spec_id_wire.read_steady harness_id_wire.read_steady
  workspace_id_wire.read_steady policy_id_wire.read_steady provider_profile_id_wire.read_steady

section \<open>The revision tuple\<close>

definition write_revision :: "revision_tuple \<Rightarrow> (writer, unit) operation" where
  "write_revision rv = in_order
    [write_id (identifier_bytes (acceptance_spec_id_raw (acceptance_spec_id rv))),
     write_id (identifier_bytes (harness_id_raw (harness_id rv))),
     write_id (identifier_bytes (workspace_id_raw (workspace_id rv))),
     write_u64 (generation_get (workspace_generation rv)),
     write_u64 (revision_number_get (workspace_revision rv)),
     write_id (identifier_bytes (policy_id_raw (policy_id rv))),
     write_id (identifier_bytes (provider_profile_id_raw (provider_profile_id rv)))]"

definition read_revision :: "(reader, revision_tuple) operation" where
  "read_revision =
     and_then (read_id acceptance_spec_id_new) (\<lambda>acceptance.
     and_then (read_id harness_id_new) (\<lambda>harness.
     and_then (read_id workspace_id_new) (\<lambda>workspace.
     and_then (read_number generation_new) (\<lambda>gen.
     and_then (read_number revision_number_new) (\<lambda>rev.
     and_then (read_id policy_id_new) (\<lambda>policy.
     and_then (read_id provider_profile_id_new) (\<lambda>profile.
     ret \<lparr>acceptance_spec_id = acceptance, harness_id = harness, workspace_id = workspace,
       workspace_generation = gen, workspace_revision = rev, policy_id = policy,
       provider_profile_id = profile\<rparr>)))))))"

definition enc_revision :: "revision_tuple \<Rightarrow> u8 list" where
  "enc_revision rv = as_bytes (acceptance_spec_id_raw (acceptance_spec_id rv))
     @ as_bytes (harness_id_raw (harness_id rv)) @ as_bytes (workspace_id_raw (workspace_id rv))
     @ to_be_bytes (generation_get (workspace_generation rv))
     @ to_be_bytes (revision_number_get (workspace_revision rv))
     @ as_bytes (policy_id_raw (policy_id rv)) @ as_bytes (provider_profile_id_raw (provider_profile_id rv))"

interpretation revision_wire: wire_format write_revision read_revision enc_revision always
proof unfold_locales
  show "write_revision x w = (Ok (), w') \<longleftrightarrow> True \<and> room w (enc_revision x) \<and> w' = append_bytes w (enc_revision x)" for x w w'
    by (auto simp: write_revision_def enc_revision_def wire_simps wire_layout)
  show "read_revision r = (Ok x, r') \<longleftrightarrow> True \<and> ready r (enc_revision x) \<and> r' = advance r (length (enc_revision x))" for r x r'
    by (cases x) (auto simp: read_revision_def enc_revision_def wire_simps wire_layout)
  show "appends (write_revision x)" for x
    by (auto simp: write_revision_def intro!: appends_intros)
  show "steady lo read_revision" for lo
    unfolding read_revision_def by (intro steady_intros)
qed

lemmas [wire_simps] = revision_wire.write_Ok revision_wire.read_Ok
lemmas [steady_intros] = revision_wire.read_steady
lemmas [appends_intros] = revision_wire.write_appends option_digest_wire.write_appends

end
