(* ===== verification/Protocol_Budget.thy ===== *)
theory Protocol_Budget
  imports Protocol_Primitives Budget_Model
begin

text \<open>
  \<open>peritus-protocol\<close>, files \<open>budget/*.rs\<close>: the message families 10 to 15, which carry the commands,
  amounts, snapshots, receipts and errors of the budget ledger. The DTO types of the source wrap or
  copy the domain types field by field; a DTO with the fields of its domain type is that type here,
  and \<open>BudgetErrorDto\<close>, whose array of five flags is indexed by dimension, is a record of its own.
\<close>

definition SCHEMA_V1 :: u16 where "SCHEMA_V1 = 1"

section \<open>Amounts\<close>

definition write_amounts :: "budget_amounts \<Rightarrow> (writer, unit) operation" where
  "write_amounts v = in_order
    [write_u64 (quantity_get (amounts_get v ModelTokens)),
     write_u64 (quantity_get (amounts_get v ProviderCostMicrounits)),
     write_u64 (quantity_get (amounts_get v ActiveEffectMilliseconds)),
     write_u64 (quantity_get (amounts_get v Attempts)),
     write_u64 (quantity_get (amounts_get v Retries))]"

definition read_amounts :: "(reader, budget_amounts) operation" where
  "read_amounts = and_then read_u64 (\<lambda>m. and_then read_u64 (\<lambda>c. and_then read_u64 (\<lambda>e.
     and_then read_u64 (\<lambda>a. and_then read_u64 (\<lambda>t. ret (from_units m c e a t))))))"

definition enc_amounts :: "budget_amounts \<Rightarrow> u8 list" where
  "enc_amounts v = to_be_bytes (quantity_get (amounts_get v ModelTokens))
     @ to_be_bytes (quantity_get (amounts_get v ProviderCostMicrounits))
     @ to_be_bytes (quantity_get (amounts_get v ActiveEffectMilliseconds))
     @ to_be_bytes (quantity_get (amounts_get v Attempts))
     @ to_be_bytes (quantity_get (amounts_get v Retries))"

lemma from_units_eq: "v = from_units m c e a t \<longleftrightarrow>
    quantity_get (amounts_get v ModelTokens) = m \<and> quantity_get (amounts_get v ProviderCostMicrounits) = c
  \<and> quantity_get (amounts_get v ActiveEffectMilliseconds) = e \<and> quantity_get (amounts_get v Attempts) = a
  \<and> quantity_get (amounts_get v Retries) = t"
  by (cases v) (auto simp: from_units_def amounts_new_def resource_quantity.expand)

interpretation amounts_wire: message_format write_amounts read_amounts enc_amounts always 11 SCHEMA_V1
proof unfold_locales
  show "write_amounts x w = (Ok (), w') \<longleftrightarrow> True \<and> room w (enc_amounts x) \<and> w' = append_bytes w (enc_amounts x)" for x w w'
    by (auto simp: write_amounts_def enc_amounts_def wire_simps wire_layout)
  show "read_amounts r = (Ok x, r') \<longleftrightarrow> True \<and> ready r (enc_amounts x) \<and> r' = advance r (length (enc_amounts x))" for r x r'
    by (auto simp: read_amounts_def enc_amounts_def wire_simps wire_layout from_units_eq)
  show "appends (write_amounts x)" for x by (auto simp: write_amounts_def intro!: appends_intros)
  show "steady lo read_amounts" for lo unfolding read_amounts_def by (intro steady_intros)
qed (simp_all add: SCHEMA_V1_def)

definition write_option_amounts :: "budget_amounts option \<Rightarrow> (writer, unit) operation" where
  "write_option_amounts = write_option write_amounts"

definition read_option_amounts :: "(reader, budget_amounts option) operation" where
  "read_option_amounts = read_option read_amounts"

interpretation option_amounts_wire: wire_format write_option_amounts read_option_amounts
  "enc_option enc_amounts" always
  unfolding write_option_amounts_def read_option_amounts_def
  by (rule option_wire) (rule amounts_wire.wire_format_axioms)

lemmas [wire_simps] =
  amounts_wire.write_Ok amounts_wire.read_Ok option_amounts_wire.write_Ok option_amounts_wire.read_Ok
lemmas [appends_intros] = amounts_wire.write_appends option_amounts_wire.write_appends
lemmas [steady_intros] = amounts_wire.read_steady option_amounts_wire.read_steady

section \<open>Identifiers\<close>

interpretation budget_id_wire: wire_format
  "\<lambda>x. write_id (identifier_bytes (budget_id_raw x))" "read_id budget_id_new"
  "\<lambda>x. as_bytes (budget_id_raw x)" always
  unfolding budget_id_new_def by (rule id_wire) (rule budget_id.nominal_id_axioms)

interpretation budget_reservation_id_wire: wire_format
  "\<lambda>x. write_id (identifier_bytes (reservation_id_raw x))" "read_id budget_reservation_id_new"
  "\<lambda>x. as_bytes (reservation_id_raw x)" always
  unfolding budget_reservation_id_new_def by (rule id_wire) (rule budget_reservation_id.nominal_id_axioms)

interpretation action_id_wire: wire_format
  "\<lambda>x. write_id (identifier_bytes (action_id_raw x))" "read_id action_id_new"
  "\<lambda>x. as_bytes (action_id_raw x)" always
  unfolding action_id_new_def by (rule id_wire) (rule action_id.nominal_id_axioms)

interpretation option_budget_id_wire: wire_format
  "\<lambda>v. write_option_id v (\<lambda>x. identifier_bytes (budget_id_raw x))" "read_option_id budget_id_new"
  "enc_option (\<lambda>x. as_bytes (budget_id_raw x))" always
  unfolding budget_id_new_def by (rule option_id_wire) (rule budget_id.nominal_id_axioms)

interpretation option_reservation_id_wire: wire_format
  "\<lambda>v. write_option_id v (\<lambda>x. identifier_bytes (reservation_id_raw x))" "read_option_id budget_reservation_id_new"
  "enc_option (\<lambda>x. as_bytes (reservation_id_raw x))" always
  unfolding budget_reservation_id_new_def by (rule option_id_wire) (rule budget_reservation_id.nominal_id_axioms)

lemmas [wire_simps] =
  budget_id_wire.read_Ok budget_reservation_id_wire.read_Ok action_id_wire.read_Ok
  option_budget_id_wire.read_Ok option_reservation_id_wire.read_Ok
  option_budget_id_wire.write_Ok option_reservation_id_wire.write_Ok
lemmas [steady_intros] =
  budget_id_wire.read_steady budget_reservation_id_wire.read_steady action_id_wire.read_steady
  option_budget_id_wire.read_steady option_reservation_id_wire.read_steady
lemmas [appends_intros] =
  option_budget_id_wire.write_appends option_reservation_id_wire.write_appends

section \<open>Requests and references\<close>

definition write_budget_request :: "budget_request \<Rightarrow> (writer, unit) operation" where
  "write_budget_request q = in_order
    [write_id (identifier_bytes (reservation_id_raw (request_reservation_id q))),
     write_id (identifier_bytes (budget_id_raw (request_budget_id q))),
     write_revision (request_revision q),
     write_id (identifier_bytes (action_id_raw (request_action_id q))),
     write_digest (request_action_digest q),
     write_amounts (consume_now q), write_amounts (reserve q)]"

definition read_budget_request :: "(reader, budget_request) operation" where
  "read_budget_request =
     and_then (read_id budget_reservation_id_new) (\<lambda>reservation. and_then (read_id budget_id_new) (\<lambda>budget.
     and_then read_revision (\<lambda>rv. and_then (read_id action_id_new) (\<lambda>action.
     and_then read_digest (\<lambda>digest. and_then read_amounts (\<lambda>now. and_then read_amounts (\<lambda>held.
     ret \<lparr>request_reservation_id = reservation, request_budget_id = budget, request_revision = rv,
       request_action_id = action, request_action_digest = digest, consume_now = now, reserve = held\<rparr>)))))))"

definition enc_request :: "budget_request \<Rightarrow> u8 list" where
  "enc_request q = as_bytes (reservation_id_raw (request_reservation_id q))
     @ as_bytes (budget_id_raw (request_budget_id q)) @ enc_revision (request_revision q)
     @ as_bytes (action_id_raw (request_action_id q)) @ digest_bytes (request_action_digest q)
     @ enc_amounts (consume_now q) @ enc_amounts (reserve q)"

interpretation request_wire: wire_format write_budget_request read_budget_request enc_request always
proof unfold_locales
  show "write_budget_request x w = (Ok (), w') \<longleftrightarrow> True \<and> room w (enc_request x) \<and> w' = append_bytes w (enc_request x)" for x w w'
    by (auto simp: write_budget_request_def enc_request_def wire_simps wire_layout)
  show "read_budget_request r = (Ok x, r') \<longleftrightarrow> True \<and> ready r (enc_request x) \<and> r' = advance r (length (enc_request x))" for r x r'
    by (cases x) (auto simp: read_budget_request_def enc_request_def wire_simps wire_layout)
  show "appends (write_budget_request x)" for x
    by (auto simp: write_budget_request_def intro!: appends_intros)
  show "steady lo read_budget_request" for lo unfolding read_budget_request_def by (intro steady_intros)
qed

text \<open>The four fields an activation, an observation and a reference begin with.\<close>

definition write_reference_fields ::
  "budget_reservation_id \<Rightarrow> action_id \<Rightarrow> sha256_digest \<Rightarrow> sha256_digest \<Rightarrow> (writer, unit) operation" where
  "write_reference_fields reservation action action_digest evidence_digest = in_order
    [write_id (identifier_bytes (reservation_id_raw reservation)),
     write_id (identifier_bytes (action_id_raw action)),
     write_digest action_digest, write_digest evidence_digest]"

definition read_reference_fields ::
  "(reader, budget_reservation_id \<times> action_id \<times> sha256_digest \<times> sha256_digest) operation" where
  "read_reference_fields =
     and_then (read_id budget_reservation_id_new) (\<lambda>reservation. and_then (read_id action_id_new) (\<lambda>action.
     and_then read_digest (\<lambda>action_digest. and_then read_digest (\<lambda>evidence_digest.
     ret (reservation, action, action_digest, evidence_digest)))))"

definition enc_fields :: "budget_reservation_id \<times> action_id \<times> sha256_digest \<times> sha256_digest \<Rightarrow> u8 list" where
  "enc_fields = (\<lambda>(reservation, action, action_digest, evidence_digest).
     as_bytes (reservation_id_raw reservation) @ as_bytes (action_id_raw action)
     @ digest_bytes action_digest @ digest_bytes evidence_digest)"

interpretation fields_wire: wire_format
  "\<lambda>(reservation, action, action_digest, evidence_digest).
     write_reference_fields reservation action action_digest evidence_digest"
  read_reference_fields enc_fields always
proof unfold_locales
  show "(case x of (a, b, c, d) \<Rightarrow> write_reference_fields a b c d) w = (Ok (), w')
      \<longleftrightarrow> True \<and> room w (enc_fields x) \<and> w' = append_bytes w (enc_fields x)" for x w w'
    by (cases x) (auto simp: write_reference_fields_def enc_fields_def wire_simps wire_layout)
  show "read_reference_fields r = (Ok x, r') \<longleftrightarrow> True \<and> ready r (enc_fields x) \<and> r' = advance r (length (enc_fields x))" for r x r'
    by (cases x) (auto simp: read_reference_fields_def enc_fields_def wire_simps wire_layout)
  show "appends (case x of (a, b, c, d) \<Rightarrow> write_reference_fields a b c d)" for x
    by (cases x) (auto simp: write_reference_fields_def intro!: appends_intros)
  show "steady lo read_reference_fields" for lo unfolding read_reference_fields_def by (intro steady_intros)
qed

lemma write_reference_fields_Ok:
  "write_reference_fields a b c d w = (Ok (), w') \<longleftrightarrow>
     room w (enc_fields (a, b, c, d)) \<and> w' = append_bytes w (enc_fields (a, b, c, d))"
  using fields_wire.write_Ok[of "(a, b, c, d)" w w'] by simp

lemma appends_reference_fields [appends_intros]: "appends (write_reference_fields a b c d)"
  using fields_wire.write_appends[of "(a, b, c, d)"] by simp

lemmas [wire_simps] =
  request_wire.write_Ok request_wire.read_Ok write_reference_fields_Ok fields_wire.read_Ok
lemmas [appends_intros] = request_wire.write_appends
lemmas [steady_intros] = request_wire.read_steady fields_wire.read_steady

definition write_reference :: "reservation_reference \<Rightarrow> (writer, unit) operation" where
  "write_reference ref = write_reference_fields (reference_reservation_id ref) (reference_action_id ref)
     (reference_action_digest ref) (reference_evidence_digest ref)"

definition read_reference :: "(reader, reservation_reference) operation" where
  "read_reference = and_then read_reference_fields
    (\<lambda>(reservation, action, action_digest, evidence_digest).
     ret \<lparr>reference_reservation_id = reservation, reference_action_id = action,
       reference_action_digest = action_digest, reference_evidence_digest = evidence_digest\<rparr>)"

definition enc_reference :: "reservation_reference \<Rightarrow> u8 list" where
  "enc_reference ref = enc_fields (reference_reservation_id ref, reference_action_id ref,
     reference_action_digest ref, reference_evidence_digest ref)"

lemma steady_case_tuple [steady_intros]:
  "(\<And>a b c d. steady lo (f a b c d)) \<Longrightarrow> steady lo (case x of (a, b, c, d) \<Rightarrow> f a b c d)"
  by (cases x) auto

interpretation reference_wire: wire_format write_reference read_reference enc_reference always
proof unfold_locales
  show "write_reference x w = (Ok (), w') \<longleftrightarrow> True \<and> room w (enc_reference x) \<and> w' = append_bytes w (enc_reference x)" for x w w'
    by (simp add: write_reference_def enc_reference_def wire_simps)
  show "read_reference r = (Ok x, r') \<longleftrightarrow> True \<and> ready r (enc_reference x) \<and> r' = advance r (length (enc_reference x))" for r x r'
    by (cases x) (auto simp: read_reference_def enc_reference_def wire_simps)
  show "appends (write_reference x)" for x by (simp add: write_reference_def appends_intros)
  show "steady lo read_reference" for lo unfolding read_reference_def by (intro steady_intros)
qed

lemmas [wire_simps] = reference_wire.write_Ok reference_wire.read_Ok
lemmas [appends_intros] = reference_wire.write_appends
lemmas [steady_intros] = reference_wire.read_steady

definition finality_tag :: "usage_finality \<Rightarrow> u16" where
  "finality_tag f = (case f of Interim \<Rightarrow> 1 | Final \<Rightarrow> 2)"

definition read_finality :: "(reader, usage_finality) operation" where
  "read_finality = read_tag (\<lambda>t. if t = 1 then Some Interim else if t = 2 then Some Final else None)"

interpretation finality_wire: wire_format "write_tag finality_tag" read_finality
  "\<lambda>f. to_be_bytes (finality_tag f)" always
  unfolding read_finality_def
proof (rule tag_wire)
  show "(if t = 1 then Some Interim else if t = 2 then Some Final else None) = Some f
      \<longleftrightarrow> t = finality_tag f" for t f
    by (cases f) (auto simp: finality_tag_def)
qed

lemmas [wire_simps] = finality_wire.read_Ok
lemmas [steady_intros] = finality_wire.read_steady

end
