(* ===== verification/Protocol_Messages.thy ===== *)
theory Protocol_Messages
  imports Protocol_Budget
begin

text \<open>
  The budget messages themselves, \<open>budget/command.rs\<close>, \<open>receipt.rs\<close>, \<open>snapshot.rs\<close> and \<open>error.rs\<close>:
  the payload of each family is shown to be a message format, so that the frame functions of the
  codec invert each other on it and refuse everything else.
\<close>

section \<open>Commands (family 10)\<close>

definition tagged_budget_id :: "u16 \<Rightarrow> budget_id \<Rightarrow> (writer, unit) operation" where
  "tagged_budget_id tag b = in_order [write_u16 tag, write_id (identifier_bytes (budget_id_raw b))]"

fun write_command :: "budget_command \<Rightarrow> (writer, unit) operation" where
  "write_command (AllocateChild q) = in_order [write_u16 1,
     write_id (identifier_bytes (budget_id_raw (child_id q))),
     write_id (identifier_bytes (budget_id_raw (child_parent_id q))),
     write_revision (child_revision q), write_amounts (limit_amounts (child_limits q))]"
| "write_command (Begin q) = in_order [write_u16 2, write_budget_request q]"
| "write_command (Activate act) = in_order [write_u16 3, write_reference_fields
     (activation_reservation_id act) (activation_action_id act) (activation_action_digest act)
     (activation_evidence_digest act)]"
| "write_command (ObserveUsage obs) = in_order [write_u16 4, write_reference_fields
     (observation_reservation_id obs) (observation_action_id obs) (observation_action_digest obs)
     (observation_evidence_digest obs), write_amounts (cumulative obs),
     write_u16 (finality_tag (observation_finality obs))]"
| "write_command (SettleExact ref) = in_order [write_u16 5, write_reference ref]"
| "write_command (CancelHeld ref) = in_order [write_u16 6, write_reference ref]"
| "write_command (FinalizeAmbiguous fin) = in_order [write_u16 7, write_reference (finalization_reference fin)]"
| "write_command (Seal b) = tagged_budget_id 8 b"
| "write_command (Close b) = tagged_budget_id 9 b"

definition read_command_body :: "nat \<Rightarrow> u16 \<Rightarrow> (reader, budget_command) operation" where
  "read_command_body at_byte tag =
    (if tag = 1 then
       and_then (read_id budget_id_new) (\<lambda>child. and_then (read_id budget_id_new) (\<lambda>parent.
       and_then read_revision (\<lambda>rv. and_then read_amounts (\<lambda>amounts.
       ret (AllocateChild \<lparr>child_id = child, child_parent_id = parent, child_revision = rv,
         child_limits = BudgetLimits amounts\<rparr>)))))
     else if tag = 2 then and_then read_budget_request (\<lambda>q. ret (Begin q))
     else if tag = 3 then
       and_then read_reference_fields (\<lambda>(reservation, action, action_digest, evidence_digest).
       ret (Activate \<lparr>activation_reservation_id = reservation, activation_action_id = action,
         activation_action_digest = action_digest, activation_evidence_digest = evidence_digest\<rparr>))
     else if tag = 4 then
       and_then read_reference_fields (\<lambda>(reservation, action, action_digest, evidence_digest).
       and_then read_amounts (\<lambda>amounts. and_then read_finality (\<lambda>fin.
       ret (ObserveUsage \<lparr>observation_reservation_id = reservation, observation_action_id = action,
         observation_action_digest = action_digest, observation_evidence_digest = evidence_digest,
         cumulative = amounts, observation_finality = fin\<rparr>))))
     else if tag = 5 then and_then read_reference (\<lambda>ref. ret (SettleExact ref))
     else if tag = 6 then and_then read_reference (\<lambda>ref. ret (CancelHeld ref))
     else if tag = 7 then and_then read_reference (\<lambda>ref. ret (FinalizeAmbiguous (AmbiguousFinalization ref)))
     else if tag = 8 then and_then (read_id budget_id_new) (\<lambda>b. ret (Seal b))
     else if tag = 9 then and_then (read_id budget_id_new) (\<lambda>b. ret (Close b))
     else fail (codec_failure_at UnknownTag at_byte))"

definition read_command :: "(reader, budget_command) operation" where
  "read_command = and_then (query offset) (\<lambda>at_byte. and_then read_u16 (read_command_body at_byte))"

fun command_tag :: "budget_command \<Rightarrow> u16" where
  "command_tag (AllocateChild q) = 1"
| "command_tag (Begin q) = 2"
| "command_tag (Activate act) = 3"
| "command_tag (ObserveUsage obs) = 4"
| "command_tag (SettleExact ref) = 5"
| "command_tag (CancelHeld ref) = 6"
| "command_tag (FinalizeAmbiguous fin) = 7"
| "command_tag (Seal b) = 8"
| "command_tag (Close b) = 9"

fun enc_command_body :: "budget_command \<Rightarrow> u8 list" where
  "enc_command_body (AllocateChild q) = as_bytes (budget_id_raw (child_id q))
     @ as_bytes (budget_id_raw (child_parent_id q)) @ enc_revision (child_revision q)
     @ enc_amounts (limit_amounts (child_limits q))"
| "enc_command_body (Begin q) = enc_request q"
| "enc_command_body (Activate act) = enc_fields (activation_reservation_id act, activation_action_id act,
     activation_action_digest act, activation_evidence_digest act)"
| "enc_command_body (ObserveUsage obs) = enc_fields (observation_reservation_id obs,
     observation_action_id obs, observation_action_digest obs, observation_evidence_digest obs)
     @ enc_amounts (cumulative obs) @ to_be_bytes (finality_tag (observation_finality obs))"
| "enc_command_body (SettleExact ref) = enc_reference ref"
| "enc_command_body (CancelHeld ref) = enc_reference ref"
| "enc_command_body (FinalizeAmbiguous fin) = enc_reference (finalization_reference fin)"
| "enc_command_body (Seal b) = as_bytes (budget_id_raw b)"
| "enc_command_body (Close b) = as_bytes (budget_id_raw b)"

definition enc_command :: "budget_command \<Rightarrow> u8 list" where
  "enc_command c = to_be_bytes (command_tag c) @ enc_command_body c"

lemma write_command_Ok:
  "write_command c w = (Ok (), w') \<longleftrightarrow> room w (enc_command c) \<and> w' = append_bytes w (enc_command c)"
  by (cases c) (auto simp: enc_command_def tagged_budget_id_def wire_simps wire_layout)

lemma read_command_body_Ok:
  "read_command_body at_byte tag r = (Ok c, r') \<longleftrightarrow> tag = command_tag c
     \<and> ready r (enc_command_body c) \<and> r' = advance r (length (enc_command_body c))"
proof (cases c)
  case (AllocateChild q)
  then show ?thesis
    by (cases q, cases "child_limits q") (auto simp: read_command_body_def wire_simps wire_layout split: if_splits)
next
  case (Begin q)
  then show ?thesis by (auto simp: read_command_body_def wire_simps split: if_splits)
next
  case (Activate act)
  then show ?thesis by (cases act) (auto simp: read_command_body_def wire_simps split: if_splits)
next
  case (ObserveUsage obs)
  then show ?thesis
    by (cases obs) (auto simp: read_command_body_def wire_simps wire_layout split: if_splits)
next
  case (SettleExact ref)
  then show ?thesis by (auto simp: read_command_body_def wire_simps split: if_splits)
next
  case (CancelHeld ref)
  then show ?thesis by (auto simp: read_command_body_def wire_simps split: if_splits)
next
  case (FinalizeAmbiguous fin)
  then show ?thesis by (cases fin) (auto simp: read_command_body_def wire_simps split: if_splits)
next
  case (Seal b)
  then show ?thesis by (auto simp: read_command_body_def wire_simps split: if_splits)
next
  case (Close b)
  then show ?thesis by (auto simp: read_command_body_def wire_simps split: if_splits)
qed

interpretation command_wire: message_format write_command read_command enc_command always 10 SCHEMA_V1
proof unfold_locales
  show "write_command x w = (Ok (), w') \<longleftrightarrow> True \<and> room w (enc_command x) \<and> w' = append_bytes w (enc_command x)" for x w w'
    by (simp add: write_command_Ok)
  show "read_command r = (Ok x, r') \<longleftrightarrow> True \<and> ready r (enc_command x) \<and> r' = advance r (length (enc_command x))" for r x r'
    by (auto simp: read_command_def wire_simps read_command_body_Ok enc_command_def wire_layout)
  show "appends (write_command x)" for x
    by (cases x) (auto simp: tagged_budget_id_def intro!: appends_intros)
  show "steady lo read_command" for lo
    unfolding read_command_def read_command_body_def by (intro steady_offset steady_intros) simp
qed (simp_all add: SCHEMA_V1_def)

section \<open>Receipts (family 14)\<close>

definition operation_tag :: "budget_operation \<Rightarrow> u16" where
  "operation_tag x = (case x of AllocateChildOperation \<Rightarrow> 1 | BeginOperation \<Rightarrow> 2 | ActivateOperation \<Rightarrow> 3 | ObserveUsageOperation \<Rightarrow> 4
   | SettleExactOperation \<Rightarrow> 5 | CancelHeldOperation \<Rightarrow> 6 | FinalizeAmbiguousOperation \<Rightarrow> 7 | SealOperation \<Rightarrow> 8
   | CloseOperation \<Rightarrow> 9)"

definition operation_tag_arms :: "u16 \<Rightarrow> budget_operation option" where
  "operation_tag_arms t = (if t = 1 then Some AllocateChildOperation else if t = 2 then Some BeginOperation
     else if t = 3 then Some ActivateOperation else if t = 4 then Some ObserveUsageOperation
     else if t = 5 then Some SettleExactOperation else if t = 6 then Some CancelHeldOperation
     else if t = 7 then Some FinalizeAmbiguousOperation else if t = 8 then Some SealOperation
     else if t = 9 then Some CloseOperation else None)"

definition read_operation :: "(reader, budget_operation) operation" where
  "read_operation = read_tag operation_tag_arms"

interpretation operation_wire: wire_format "write_tag operation_tag" read_operation
  "\<lambda>x. to_be_bytes (operation_tag x)" always
  unfolding read_operation_def
  by (rule tag_wire, rename_tac t x, case_tac x) (auto simp: operation_tag_def operation_tag_arms_def)

lemmas [wire_simps] = operation_wire.read_Ok
lemmas [steady_intros] = operation_wire.read_steady

definition kind_tag :: "budget_receipt_kind \<Rightarrow> u16" where
  "kind_tag x = (case x of Applied \<Rightarrow> 1 | Idempotent \<Rightarrow> 2 | OverrunFaultedReceipt \<Rightarrow> 3)"

definition kind_tag_arms :: "u16 \<Rightarrow> budget_receipt_kind option" where
  "kind_tag_arms t = (if t = 1 then Some Applied else if t = 2 then Some Idempotent
     else if t = 3 then Some OverrunFaultedReceipt else None)"

definition read_kind :: "(reader, budget_receipt_kind) operation" where
  "read_kind = read_tag kind_tag_arms"

interpretation kind_wire: wire_format "write_tag kind_tag" read_kind
  "\<lambda>x. to_be_bytes (kind_tag x)" always
  unfolding read_kind_def
  by (rule tag_wire, rename_tac t x, case_tac x) (auto simp: kind_tag_def kind_tag_arms_def)

lemmas [wire_simps] = kind_wire.read_Ok
lemmas [steady_intros] = kind_wire.read_steady

definition write_receipt :: "budget_receipt \<Rightarrow> (writer, unit) operation" where
  "write_receipt x = in_order
    [write_u16 (operation_tag (receipt_operation x)),
     write_u16 (kind_tag (receipt_kind x)),
     write_id (identifier_bytes (budget_id_raw (receipt_budget_id x))),
     write_option_id (receipt_reservation_id x) (\<lambda>r. identifier_bytes (reservation_id_raw r)),
     write_amounts (charged x),
     write_amounts (released x),
     write_option_amounts (reported x),
     write_option_digest (receipt_evidence_digest x)]"

definition read_receipt :: "(reader, budget_receipt) operation" where
  "read_receipt =
     and_then read_operation (\<lambda>oper.
     and_then read_kind (\<lambda>kind.
     and_then (read_id budget_id_new) (\<lambda>budget.
     and_then (read_option_id budget_reservation_id_new) (\<lambda>reservation.
     and_then read_amounts (\<lambda>charge.
     and_then read_amounts (\<lambda>release.
     and_then read_option_amounts (\<lambda>report.
     and_then read_option_digest (\<lambda>evidence.
     ret \<lparr>receipt_operation = oper, receipt_kind = kind,
       receipt_budget_id = budget, receipt_reservation_id = reservation,
       charged = charge, released = release,
       reported = report, receipt_evidence_digest = evidence\<rparr>))))))))"

definition enc_receipt :: "budget_receipt \<Rightarrow> u8 list" where
  "enc_receipt x = to_be_bytes (operation_tag (receipt_operation x))
     @ to_be_bytes (kind_tag (receipt_kind x))
     @ as_bytes (budget_id_raw (receipt_budget_id x))
     @ enc_option (\<lambda>r. as_bytes (reservation_id_raw r)) (receipt_reservation_id x)
     @ enc_amounts (charged x)
     @ enc_amounts (released x)
     @ enc_option enc_amounts (reported x)
     @ enc_option digest_bytes (receipt_evidence_digest x)"

interpretation receipt_wire: message_format write_receipt read_receipt enc_receipt always 14 SCHEMA_V1
proof unfold_locales
  show "write_receipt x w = (Ok (), w') \<longleftrightarrow> True \<and> room w (enc_receipt x) \<and> w' = append_bytes w (enc_receipt x)" for x w w'
    by (auto simp: write_receipt_def enc_receipt_def wire_simps wire_layout)
  show "read_receipt r = (Ok x, r') \<longleftrightarrow> True \<and> ready r (enc_receipt x) \<and> r' = advance r (length (enc_receipt x))" for r x r'
    by (cases x) (auto simp: read_receipt_def enc_receipt_def wire_simps wire_layout)
  show "appends (write_receipt x)" for x by (auto simp: write_receipt_def intro!: appends_intros)
  show "steady lo read_receipt" for lo unfolding read_receipt_def by (intro steady_intros)
qed (simp_all add: SCHEMA_V1_def)

section \<open>Account snapshots (family 12)\<close>

definition account_phase_tag :: "budget_account_phase \<Rightarrow> u16" where
  "account_phase_tag x = (case x of Open \<Rightarrow> 1 | Draining \<Rightarrow> 2 | Faulted \<Rightarrow> 3 | Closed \<Rightarrow> 4)"

definition account_phase_tag_arms :: "u16 \<Rightarrow> budget_account_phase option" where
  "account_phase_tag_arms t = (if t = 1 then Some Open else if t = 2 then Some Draining
     else if t = 3 then Some Faulted else if t = 4 then Some Closed
     else None)"

definition read_account_phase :: "(reader, budget_account_phase) operation" where
  "read_account_phase = read_tag account_phase_tag_arms"

interpretation account_phase_wire: wire_format "write_tag account_phase_tag" read_account_phase
  "\<lambda>x. to_be_bytes (account_phase_tag x)" always
  unfolding read_account_phase_def
  by (rule tag_wire, rename_tac t x, case_tac x) (auto simp: account_phase_tag_def account_phase_tag_arms_def)

lemmas [wire_simps] = account_phase_wire.read_Ok
lemmas [steady_intros] = account_phase_wire.read_steady

definition write_snapshot :: "budget_snapshot \<Rightarrow> (writer, unit) operation" where
  "write_snapshot x = in_order
    [write_id (identifier_bytes (budget_id_raw (snapshot_id x))),
     write_option_id (snapshot_parent_id x) (\<lambda>b. identifier_bytes (budget_id_raw b)),
     write_revision (snapshot_revision x),
     write_amounts (limit_amounts (snapshot_limits x)),
     write_amounts (snapshot_consumed x),
     write_amounts (snapshot_operation_reserved x),
     write_amounts (snapshot_child_delegated_remaining x),
     write_amounts (snapshot_available x),
     write_u16 (account_phase_tag (snapshot_phase x))]"

definition read_snapshot :: "(reader, budget_snapshot) operation" where
  "read_snapshot =
     and_then (read_id budget_id_new) (\<lambda>budget.
     and_then (read_option_id budget_id_new) (\<lambda>parent.
     and_then read_revision (\<lambda>rv.
     and_then read_amounts (\<lambda>lims.
     and_then read_amounts (\<lambda>used.
     and_then read_amounts (\<lambda>held.
     and_then read_amounts (\<lambda>delegated.
     and_then read_amounts (\<lambda>avail.
     and_then read_account_phase (\<lambda>phase.
     ret \<lparr>snapshot_id = budget, snapshot_parent_id = parent,
       snapshot_revision = rv, snapshot_limits = BudgetLimits lims,
       snapshot_consumed = used, snapshot_operation_reserved = held,
       snapshot_child_delegated_remaining = delegated, snapshot_available = avail,
       snapshot_phase = phase\<rparr>)))))))))"

definition enc_snapshot :: "budget_snapshot \<Rightarrow> u8 list" where
  "enc_snapshot x = as_bytes (budget_id_raw (snapshot_id x))
     @ enc_option (\<lambda>b. as_bytes (budget_id_raw b)) (snapshot_parent_id x)
     @ enc_revision (snapshot_revision x)
     @ enc_amounts (limit_amounts (snapshot_limits x))
     @ enc_amounts (snapshot_consumed x)
     @ enc_amounts (snapshot_operation_reserved x)
     @ enc_amounts (snapshot_child_delegated_remaining x)
     @ enc_amounts (snapshot_available x)
     @ to_be_bytes (account_phase_tag (snapshot_phase x))"

interpretation snapshot_wire: message_format write_snapshot read_snapshot enc_snapshot always 12 SCHEMA_V1
proof unfold_locales
  show "write_snapshot x w = (Ok (), w') \<longleftrightarrow> True \<and> room w (enc_snapshot x) \<and> w' = append_bytes w (enc_snapshot x)" for x w w'
    by (auto simp: write_snapshot_def enc_snapshot_def wire_simps wire_layout)
  show "read_snapshot r = (Ok x, r') \<longleftrightarrow> True \<and> ready r (enc_snapshot x) \<and> r' = advance r (length (enc_snapshot x))" for r x r'
    by (cases x, cases "snapshot_limits x") (auto simp: read_snapshot_def enc_snapshot_def wire_simps wire_layout)
  show "appends (write_snapshot x)" for x by (auto simp: write_snapshot_def intro!: appends_intros)
  show "steady lo read_snapshot" for lo unfolding read_snapshot_def by (intro steady_intros)
qed (simp_all add: SCHEMA_V1_def)

section \<open>Reservation snapshots (family 13)\<close>

definition reservation_phase_tag :: "reservation_phase \<Rightarrow> u16" where
  "reservation_phase_tag x = (case x of Held \<Rightarrow> 1 | Active \<Rightarrow> 2 | SettledExact \<Rightarrow> 3 | SettledFinal \<Rightarrow> 4
   | CancelledHeld \<Rightarrow> 5 | SettledAmbiguous \<Rightarrow> 6 | OverrunFaulted \<Rightarrow> 7)"

definition reservation_phase_tag_arms :: "u16 \<Rightarrow> reservation_phase option" where
  "reservation_phase_tag_arms t = (if t = 1 then Some Held else if t = 2 then Some Active
     else if t = 3 then Some SettledExact else if t = 4 then Some SettledFinal
     else if t = 5 then Some CancelledHeld else if t = 6 then Some SettledAmbiguous
     else if t = 7 then Some OverrunFaulted else None)"

definition read_reservation_phase :: "(reader, reservation_phase) operation" where
  "read_reservation_phase = read_tag reservation_phase_tag_arms"

interpretation reservation_phase_wire: wire_format "write_tag reservation_phase_tag" read_reservation_phase
  "\<lambda>x. to_be_bytes (reservation_phase_tag x)" always
  unfolding read_reservation_phase_def
  by (rule tag_wire, rename_tac t x, case_tac x) (auto simp: reservation_phase_tag_def reservation_phase_tag_arms_def)

lemmas [wire_simps] = reservation_phase_wire.read_Ok
lemmas [steady_intros] = reservation_phase_wire.read_steady

definition write_option_finality :: "usage_finality option \<Rightarrow> (writer, unit) operation" where
  "write_option_finality = write_option (write_tag finality_tag)"

definition read_option_finality :: "(reader, usage_finality option) operation" where
  "read_option_finality = read_option read_finality"

interpretation option_finality_wire: wire_format write_option_finality read_option_finality
  "enc_option (\<lambda>f. to_be_bytes (finality_tag f))" always
  unfolding write_option_finality_def read_option_finality_def
  by (rule option_wire) (rule finality_wire.wire_format_axioms)

lemmas [wire_simps] = option_finality_wire.write_Ok option_finality_wire.read_Ok
lemmas [appends_intros] = option_finality_wire.write_appends
lemmas [steady_intros] = option_finality_wire.read_steady

definition write_reservation_snapshot :: "reservation_snapshot \<Rightarrow> (writer, unit) operation" where
  "write_reservation_snapshot x = in_order
    [write_budget_request (view_request x),
     write_amounts (view_observed x),
     write_amounts (view_outstanding x),
     write_u16 (reservation_phase_tag (view_phase x)),
     write_option_digest (view_activation_evidence x),
     write_option_digest (view_observation_evidence x),
     write_option_digest (view_final_evidence x),
     write_option_amounts (view_final_reported x),
     write_option_finality (view_finality x)]"

definition read_reservation_snapshot :: "(reader, reservation_snapshot) operation" where
  "read_reservation_snapshot =
     and_then read_budget_request (\<lambda>q.
     and_then read_amounts (\<lambda>seen.
     and_then read_amounts (\<lambda>out.
     and_then read_reservation_phase (\<lambda>phase.
     and_then read_option_digest (\<lambda>activation_digest.
     and_then read_option_digest (\<lambda>observation_digest.
     and_then read_option_digest (\<lambda>final_digest.
     and_then read_option_amounts (\<lambda>report.
     and_then read_option_finality (\<lambda>fin.
     ret \<lparr>view_request = q, view_observed = seen,
       view_outstanding = out, view_phase = phase,
       view_activation_evidence = activation_digest, view_observation_evidence = observation_digest,
       view_final_evidence = final_digest, view_final_reported = report,
       view_finality = fin\<rparr>)))))))))"

definition enc_reservation_snapshot :: "reservation_snapshot \<Rightarrow> u8 list" where
  "enc_reservation_snapshot x = enc_request (view_request x)
     @ enc_amounts (view_observed x)
     @ enc_amounts (view_outstanding x)
     @ to_be_bytes (reservation_phase_tag (view_phase x))
     @ enc_option digest_bytes (view_activation_evidence x)
     @ enc_option digest_bytes (view_observation_evidence x)
     @ enc_option digest_bytes (view_final_evidence x)
     @ enc_option enc_amounts (view_final_reported x)
     @ enc_option (\<lambda>f. to_be_bytes (finality_tag f)) (view_finality x)"

interpretation reservation_snapshot_wire: message_format write_reservation_snapshot read_reservation_snapshot enc_reservation_snapshot always 13 SCHEMA_V1
proof unfold_locales
  show "write_reservation_snapshot x w = (Ok (), w') \<longleftrightarrow> True \<and> room w (enc_reservation_snapshot x) \<and> w' = append_bytes w (enc_reservation_snapshot x)" for x w w'
    by (auto simp: write_reservation_snapshot_def enc_reservation_snapshot_def wire_simps wire_layout)
  show "read_reservation_snapshot r = (Ok x, r') \<longleftrightarrow> True \<and> ready r (enc_reservation_snapshot x) \<and> r' = advance r (length (enc_reservation_snapshot x))" for r x r'
    by (cases x) (auto simp: read_reservation_snapshot_def enc_reservation_snapshot_def wire_simps wire_layout)
  show "appends (write_reservation_snapshot x)" for x by (auto simp: write_reservation_snapshot_def intro!: appends_intros)
  show "steady lo read_reservation_snapshot" for lo unfolding read_reservation_snapshot_def by (intro steady_intros)
qed (simp_all add: SCHEMA_V1_def)

section \<open>Errors (family 15)\<close>

definition error_tag :: "budget_error_kind \<Rightarrow> u16" where
  "error_tag x = (case x of UnknownBudget \<Rightarrow> 1 | UnknownReservation \<Rightarrow> 2 | DuplicateBudgetConflict \<Rightarrow> 3 | DuplicateReservationConflict \<Rightarrow> 4
   | EmptyRequest \<Rightarrow> 5 | InvalidAttemptAccounting \<Rightarrow> 6 | AccountNotOpen \<Rightarrow> 7 | InsufficientBudget \<Rightarrow> 8
   | InvalidReservationPhase \<Rightarrow> 9 | InvalidAccountPhase \<Rightarrow> 10 | PriorAttemptUnresolved \<Rightarrow> 11 | BindingMismatch \<Rightarrow> 12
   | NonmonotonicObservation \<Rightarrow> 13 | OutstandingWork \<Rightarrow> 14 | Arithmetic \<Rightarrow> 15 | CorruptState \<Rightarrow> 16)"

definition error_tag_arms :: "u16 \<Rightarrow> budget_error_kind option" where
  "error_tag_arms t = (if t = 1 then Some UnknownBudget else if t = 2 then Some UnknownReservation
     else if t = 3 then Some DuplicateBudgetConflict else if t = 4 then Some DuplicateReservationConflict
     else if t = 5 then Some EmptyRequest else if t = 6 then Some InvalidAttemptAccounting
     else if t = 7 then Some AccountNotOpen else if t = 8 then Some InsufficientBudget
     else if t = 9 then Some InvalidReservationPhase else if t = 10 then Some InvalidAccountPhase
     else if t = 11 then Some PriorAttemptUnresolved else if t = 12 then Some BindingMismatch
     else if t = 13 then Some NonmonotonicObservation else if t = 14 then Some OutstandingWork
     else if t = 15 then Some Arithmetic else if t = 16 then Some CorruptState
     else None)"

definition read_error_kind :: "(reader, budget_error_kind) operation" where
  "read_error_kind = read_tag error_tag_arms"

interpretation error_kind_wire: wire_format "write_tag error_tag" read_error_kind
  "\<lambda>x. to_be_bytes (error_tag x)" always
  unfolding read_error_kind_def
  by (rule tag_wire, rename_tac t x, case_tac x) (auto simp: error_tag_def error_tag_arms_def)

lemmas [wire_simps] = error_kind_wire.read_Ok
lemmas [steady_intros] = error_kind_wire.read_steady

definition arithmetic_kind_tag :: "arithmetic_kind \<Rightarrow> u16" where
  "arithmetic_kind_tag x = (case x of Overflow \<Rightarrow> 1 | Underflow \<Rightarrow> 2)"

definition arithmetic_kind_tag_arms :: "u16 \<Rightarrow> arithmetic_kind option" where
  "arithmetic_kind_tag_arms t = (if t = 1 then Some Overflow else if t = 2 then Some Underflow
     else None)"

definition read_arithmetic_kind :: "(reader, arithmetic_kind) operation" where
  "read_arithmetic_kind = read_tag arithmetic_kind_tag_arms"

interpretation arithmetic_kind_wire: wire_format "write_tag arithmetic_kind_tag" read_arithmetic_kind
  "\<lambda>x. to_be_bytes (arithmetic_kind_tag x)" always
  unfolding read_arithmetic_kind_def
  by (rule tag_wire, rename_tac t x, case_tac x) (auto simp: arithmetic_kind_tag_def arithmetic_kind_tag_arms_def)

lemmas [wire_simps] = arithmetic_kind_wire.read_Ok
lemmas [steady_intros] = arithmetic_kind_wire.read_steady

definition dimension_tag :: "budget_dimension \<Rightarrow> u16" where
  "dimension_tag x = (case x of ModelTokens \<Rightarrow> 1 | ProviderCostMicrounits \<Rightarrow> 2 | ActiveEffectMilliseconds \<Rightarrow> 3 | Attempts \<Rightarrow> 4
   | Retries \<Rightarrow> 5)"

definition dimension_tag_arms :: "u16 \<Rightarrow> budget_dimension option" where
  "dimension_tag_arms t = (if t = 1 then Some ModelTokens else if t = 2 then Some ProviderCostMicrounits
     else if t = 3 then Some ActiveEffectMilliseconds else if t = 4 then Some Attempts
     else if t = 5 then Some Retries else None)"

definition read_dimension :: "(reader, budget_dimension) operation" where
  "read_dimension = read_tag dimension_tag_arms"

interpretation dimension_wire: wire_format "write_tag dimension_tag" read_dimension
  "\<lambda>x. to_be_bytes (dimension_tag x)" always
  unfolding read_dimension_def
  by (rule tag_wire, rename_tac t x, case_tac x) (auto simp: dimension_tag_def dimension_tag_arms_def)

lemmas [wire_simps] = dimension_wire.read_Ok
lemmas [steady_intros] = dimension_wire.read_steady

text \<open>
  \<open>AmountArithmeticErrorDto\<close> has the fields of the domain's arithmetic error. The flags of
  \<open>limiting_dimensions\<close> are written in the order of the dimensions.
\<close>

record budget_error_dto =
  dto_kind :: budget_error_kind
  dto_budget_id :: "budget_id option"
  dto_reservation_id :: "budget_reservation_id option"
  dto_limiting_dimensions :: budget_dimension_set
  dto_arithmetic :: "amount_arithmetic_error option"

definition budget_error_dto_from :: "budget_error \<Rightarrow> budget_error_dto" where
  "budget_error_dto_from e = (let dimensions = limiting_dimensions e in
     \<lparr>dto_kind = error_kind e, dto_budget_id = error_budget_id e,
      dto_reservation_id = error_reservation_id e,
      dto_limiting_dimensions = dimension_set_from_members
        (dimension_set_contains dimensions ModelTokens)
        (dimension_set_contains dimensions ProviderCostMicrounits)
        (dimension_set_contains dimensions ActiveEffectMilliseconds)
        (dimension_set_contains dimensions Attempts) (dimension_set_contains dimensions Retries),
      dto_arithmetic = map_option (\<lambda>v. \<lparr>arithmetic_error_kind = arithmetic_error_kind v,
        arithmetic_error_dimension = arithmetic_error_dimension v\<rparr>) (error_arithmetic e)\<rparr>)"

definition write_arithmetic :: "amount_arithmetic_error \<Rightarrow> (writer, unit) operation" where
  "write_arithmetic v = in_order [write_u16 (arithmetic_kind_tag (arithmetic_error_kind v)),
     write_u16 (dimension_tag (arithmetic_error_dimension v))]"

definition read_arithmetic :: "(reader, amount_arithmetic_error) operation" where
  "read_arithmetic = and_then read_arithmetic_kind (\<lambda>kind. and_then read_dimension (\<lambda>dimension.
     ret \<lparr>arithmetic_error_kind = kind, arithmetic_error_dimension = dimension\<rparr>))"

definition enc_arithmetic :: "amount_arithmetic_error \<Rightarrow> u8 list" where
  "enc_arithmetic v = to_be_bytes (arithmetic_kind_tag (arithmetic_error_kind v))
     @ to_be_bytes (dimension_tag (arithmetic_error_dimension v))"

interpretation arithmetic_wire: wire_format write_arithmetic read_arithmetic enc_arithmetic always
proof unfold_locales
  show "write_arithmetic x w = (Ok (), w') \<longleftrightarrow> True \<and> room w (enc_arithmetic x) \<and> w' = append_bytes w (enc_arithmetic x)" for x w w'
    by (auto simp: write_arithmetic_def enc_arithmetic_def wire_simps wire_layout)
  show "read_arithmetic r = (Ok x, r') \<longleftrightarrow> True \<and> ready r (enc_arithmetic x) \<and> r' = advance r (length (enc_arithmetic x))" for r x r'
    by (cases x) (auto simp: read_arithmetic_def enc_arithmetic_def wire_simps wire_layout)
  show "appends (write_arithmetic x)" for x by (auto simp: write_arithmetic_def intro!: appends_intros)
  show "steady lo read_arithmetic" for lo unfolding read_arithmetic_def by (intro steady_intros)
qed

definition write_flags :: "budget_dimension_set \<Rightarrow> (writer, unit) operation" where
  "write_flags s = in_order [write_bool (set_model_tokens s), write_bool (set_provider_cost s),
     write_bool (set_active_effect s), write_bool (set_attempts s), write_bool (set_retries s)]"

definition read_flags :: "(reader, budget_dimension_set) operation" where
  "read_flags = and_then read_bool (\<lambda>m. and_then read_bool (\<lambda>p. and_then read_bool (\<lambda>a.
     and_then read_bool (\<lambda>t. and_then read_bool (\<lambda>r. ret (dimension_set_from_members m p a t r))))))"

definition enc_flags :: "budget_dimension_set \<Rightarrow> u8 list" where
  "enc_flags s = enc_flag (set_model_tokens s) @ enc_flag (set_provider_cost s)
     @ enc_flag (set_active_effect s) @ enc_flag (set_attempts s) @ enc_flag (set_retries s)"

interpretation flags_wire: wire_format write_flags read_flags enc_flags always
proof unfold_locales
  show "write_flags x w = (Ok (), w') \<longleftrightarrow> True \<and> room w (enc_flags x) \<and> w' = append_bytes w (enc_flags x)" for x w w'
    by (auto simp: write_flags_def enc_flags_def wire_simps wire_layout)
  show "read_flags r = (Ok x, r') \<longleftrightarrow> True \<and> ready r (enc_flags x) \<and> r' = advance r (length (enc_flags x))" for r x r'
    by (cases x) (auto simp: read_flags_def enc_flags_def dimension_set_from_members_def wire_simps wire_layout)
  show "appends (write_flags x)" for x by (auto simp: write_flags_def intro!: appends_intros)
  show "steady lo read_flags" for lo unfolding read_flags_def by (intro steady_intros)
qed

definition write_option_arithmetic :: "amount_arithmetic_error option \<Rightarrow> (writer, unit) operation" where
  "write_option_arithmetic = write_option write_arithmetic"

definition read_option_arithmetic :: "(reader, amount_arithmetic_error option) operation" where
  "read_option_arithmetic = read_option read_arithmetic"

interpretation option_arithmetic_wire: wire_format write_option_arithmetic read_option_arithmetic
  "enc_option enc_arithmetic" always
  unfolding write_option_arithmetic_def read_option_arithmetic_def
  by (rule option_wire) (rule arithmetic_wire.wire_format_axioms)

lemmas [wire_simps] = flags_wire.write_Ok flags_wire.read_Ok
  option_arithmetic_wire.write_Ok option_arithmetic_wire.read_Ok
lemmas [appends_intros] = flags_wire.write_appends option_arithmetic_wire.write_appends
lemmas [steady_intros] = flags_wire.read_steady option_arithmetic_wire.read_steady

definition write_error :: "budget_error_dto \<Rightarrow> (writer, unit) operation" where
  "write_error x = in_order
    [write_u16 (error_tag (dto_kind x)),
     write_option_id (dto_budget_id x) (\<lambda>b. identifier_bytes (budget_id_raw b)),
     write_option_id (dto_reservation_id x) (\<lambda>r. identifier_bytes (reservation_id_raw r)),
     write_flags (dto_limiting_dimensions x),
     write_option_arithmetic (dto_arithmetic x)]"

definition read_error :: "(reader, budget_error_dto) operation" where
  "read_error =
     and_then read_error_kind (\<lambda>kind.
     and_then (read_option_id budget_id_new) (\<lambda>budget.
     and_then (read_option_id budget_reservation_id_new) (\<lambda>reservation.
     and_then read_flags (\<lambda>flags.
     and_then read_option_arithmetic (\<lambda>arithmetic.
     ret \<lparr>dto_kind = kind, dto_budget_id = budget,
       dto_reservation_id = reservation, dto_limiting_dimensions = flags,
       dto_arithmetic = arithmetic\<rparr>)))))"

definition enc_error :: "budget_error_dto \<Rightarrow> u8 list" where
  "enc_error x = to_be_bytes (error_tag (dto_kind x))
     @ enc_option (\<lambda>b. as_bytes (budget_id_raw b)) (dto_budget_id x)
     @ enc_option (\<lambda>r. as_bytes (reservation_id_raw r)) (dto_reservation_id x)
     @ enc_flags (dto_limiting_dimensions x)
     @ enc_option enc_arithmetic (dto_arithmetic x)"

interpretation error_wire: message_format write_error read_error enc_error always 15 SCHEMA_V1
proof unfold_locales
  show "write_error x w = (Ok (), w') \<longleftrightarrow> True \<and> room w (enc_error x) \<and> w' = append_bytes w (enc_error x)" for x w w'
    by (auto simp: write_error_def enc_error_def wire_simps wire_layout)
  show "read_error r = (Ok x, r') \<longleftrightarrow> True \<and> ready r (enc_error x) \<and> r' = advance r (length (enc_error x))" for r x r'
    by (cases x) (auto simp: read_error_def enc_error_def wire_simps wire_layout)
  show "appends (write_error x)" for x by (auto simp: write_error_def intro!: appends_intros)
  show "steady lo read_error" for lo unfolding read_error_def by (intro steady_intros)
qed (simp_all add: SCHEMA_V1_def)

end
