(* ===== verification/Codec_Nesting.thy ===== *)
theory Codec_Nesting
  imports Codec_Wire
begin

text \<open>
  Nested aggregates of any shape. A layered value is content or an aggregate of layered values side
  by side; its aggregates are written and read through \<open>Writer::nested\<close> and \<open>Reader::nested\<close>, as a
  codec nests its own. Depth is what the limit bounds, not the number of aggregates: the value can
  be coded exactly when its deepest content lies within the limit, however many aggregates stand
  beside each other.
\<close>

section \<open>Layered values\<close>

datatype 'a layered = Content 'a | Aggregate "'a layered list"

primrec layers :: "'a layered \<Rightarrow> nat" and layers_of :: "'a layered list \<Rightarrow> nat" where
  "layers (Content x) = 0"
| "layers (Aggregate ts) = Suc (layers_of ts)"
| "layers_of [] = 0"
| "layers_of (t # ts) = max (layers t) (layers_of ts)"

primrec layered_bytes :: "u8 list layered \<Rightarrow> u8 list" and layered_list_bytes :: "u8 list layered list \<Rightarrow> u8 list" where
  "layered_bytes (Content bs) = bs"
| "layered_bytes (Aggregate ts) = layered_list_bytes ts"
| "layered_list_bytes [] = []"
| "layered_list_bytes (t # ts) = layered_bytes t @ layered_list_bytes ts"

text \<open>What the decoder knows beforehand: where the aggregates are and how long each content is.\<close>

primrec layout :: "u8 list layered \<Rightarrow> nat layered" and layout_list :: "u8 list layered list \<Rightarrow> nat layered list" where
  "layout (Content bs) = Content (length bs)"
| "layout (Aggregate ts) = Aggregate (layout_list ts)"
| "layout_list [] = []"
| "layout_list (t # ts) = layout t # layout_list ts"

primrec write_layered :: "u8 list layered \<Rightarrow> (writer, unit) operation"
  and write_layers :: "u8 list layered list \<Rightarrow> (writer, unit) operation" where
  "write_layered (Content bs) = write_fixed bs"
| "write_layered (Aggregate ts) = write_nested (write_layers ts)"
| "write_layers [] = ret ()"
| "write_layers (t # ts) = and_then (write_layered t) (\<lambda>_. write_layers ts)"

primrec read_layered :: "nat layered \<Rightarrow> (reader, u8 list layered) operation"
  and read_layers :: "nat layered list \<Rightarrow> (reader, u8 list layered list) operation" where
  "read_layered (Content n) = and_then (read_fixed n) (\<lambda>bs. ret (Content bs))"
| "read_layered (Aggregate ss) = and_then (read_nested (read_layers ss)) (\<lambda>ts. ret (Aggregate ts))"
| "read_layers [] = ret []"
| "read_layers (s # ss) = and_then (read_layered s) (\<lambda>t. and_then (read_layers ss) (\<lambda>ts. ret (t # ts)))"

section \<open>Levels within the limit\<close>

definition within :: "codec_limits \<Rightarrow> u16 \<Rightarrow> nat \<Rightarrow> bool" where
  "within lims d k \<longleftrightarrow> k = 0 \<or> unat d + k \<le> unat (max_nesting_depth lims)"

lemma within_max: "within lims d (max j k) \<longleftrightarrow> within lims d j \<and> within lims d k"
  by (auto simp: within_def max_def)

lemma within_Suc: "within lims d (Suc k) \<longleftrightarrow> d < max_nesting_depth lims \<and> within lims (d + 1) k"
proof -
  have "unat (d + 1) = unat d + 1" if "d < max_nesting_depth lims"
  proof -
    have "unat d + 1 < 2 ^ 16"
      using that unsigned_less[of "max_nesting_depth lims", where 'a = nat] by (simp add: word_less_nat_alt)
    then show ?thesis by (simp add: unat_word_ariths)
  qed
  then show ?thesis by (auto simp: within_def word_less_nat_alt)
qed

lemma within_0 [simp]: "within lims d 0"
  by (simp add: within_def)

section \<open>Writing\<close>

lemma write_nested_Ok:
  "write_nested put w = (Ok x, w') \<longleftrightarrow> writer_depth w < max_nesting_depth (writer_limits w)
     \<and> (\<exists>w1. put (w\<lparr>writer_depth := writer_depth w + 1\<rparr>) = (Ok x, w1)
           \<and> w' = w1\<lparr>writer_depth := writer_depth w1 - 1\<rparr>)"
  by (auto simp: write_nested_def not_le split: prod.splits)

lemma write_layered_Ok:
  "room w [] \<Longrightarrow> write_layered t w = (Ok (), w') \<longleftrightarrow> within (writer_limits w) (writer_depth w) (layers t)
     \<and> room w (layered_bytes t) \<and> w' = append_bytes w (layered_bytes t)"
  "room w [] \<Longrightarrow> write_layers ts w = (Ok (), w') \<longleftrightarrow> within (writer_limits w) (writer_depth w) (layers_of ts)
     \<and> room w (layered_list_bytes ts) \<and> w' = append_bytes w (layered_list_bytes ts)"
proof (induction t and ts arbitrary: w w' and w w' rule: layers.induct layers_of.induct)
  case (Content bs)
  then show ?case by (auto simp: write_fixed_eq)
next
  case (Aggregate ts)
  let ?w = "w\<lparr>writer_depth := writer_depth w + 1\<rparr>"
  have "room ?w []" using Aggregate.prems by (simp add: room_def)
  from Aggregate.IH[OF this] show ?case
    by (auto simp: write_nested_Ok within_Suc room_def append_bytes_def)
next
  case Nil_layered
  then show ?case by (auto simp: ret_def)
next
  case (Cons_layered t ts)
  have "room (append_bytes w bs) []" if "room w bs" for bs using that by (simp add: room_def)
  with Cons_layered show ?case by (auto simp: within_max room_append)
qed

lemma write_layered_appends: "appends (write_layered t)" "appends (write_layers ts)"
  by (induction t and ts rule: layers.induct layers_of.induct) (simp_all add: appends_intros)

section \<open>Reading\<close>

lemma read_nested_Ok:
  "read_nested get r = (Ok x, r') \<longleftrightarrow> reader_depth r < max_nesting_depth (reader_limits r)
     \<and> (\<exists>r1. get (r\<lparr>reader_depth := reader_depth r + 1\<rparr>) = (Ok x, r1)
           \<and> r' = r1\<lparr>reader_depth := reader_depth r1 - 1\<rparr>)"
  by (auto simp: read_nested_def not_le split: prod.splits)

lemma read_layered_Ok:
  "ready r [] \<Longrightarrow> read_layered s r = (Ok t, r') \<longleftrightarrow> s = layout t \<and> within (reader_limits r) (reader_depth r) (layers t)
     \<and> ready r (layered_bytes t) \<and> r' = advance r (length (layered_bytes t))"
  "ready r [] \<Longrightarrow> read_layers ss r = (Ok ts, r') \<longleftrightarrow> ss = layout_list ts \<and> within (reader_limits r) (reader_depth r) (layers_of ts)
     \<and> ready r (layered_list_bytes ts) \<and> r' = advance r (length (layered_list_bytes ts))"
proof (induction s and ss arbitrary: r t r' and r ts r' rule: layers.induct layers_of.induct)
  case (Content n)
  then show ?case by (cases t) (auto simp: read_fixed_def)
next
  case (Aggregate ss)
  let ?r = "r\<lparr>reader_depth := reader_depth r + 1\<rparr>"
  have "ready ?r []" using Aggregate.prems by (simp add: ready_def)
  from Aggregate.IH[OF this] show ?case
    by (cases t) (auto simp: read_nested_Ok within_Suc ready_def advance_def)
next
  case Nil_layered
  then show ?case by (cases ts) auto
next
  case (Cons_layered s ss)
  have "ready (advance r (length bs)) []" if "ready r bs" for bs using that by (auto simp: ready_def)
  with Cons_layered show ?case by (cases ts) (auto simp: within_max ready_append)
qed

lemma read_layered_steady: "steady lo (read_layered s)" "steady lo (read_layers ss)"
  by (induction s and ss rule: layers.induct layers_of.induct) (simp_all add: steady_intros)

text \<open>Beyond the limit the encoding of a value is refused for the limit, and for nothing else.\<close>

lemma read_nested_refused:
  assumes "reader_depth r < max_nesting_depth (reader_limits r) \<Longrightarrow>
      \<exists>i r1. get (r\<lparr>reader_depth := reader_depth r + 1\<rparr>) = (Err (codec_limited i NestingDepth), r1)"
  shows "\<exists>i r'. read_nested get r = (Err (codec_limited i NestingDepth), r')"
  using assms by (fastforce simp: read_nested_def)

lemma read_layered_refused:
  "ready r (layered_bytes t) \<Longrightarrow> \<not> within (reader_limits r) (reader_depth r) (layers t) \<Longrightarrow>
     \<exists>i r'. read_layered (layout t) r = (Err (codec_limited i NestingDepth), r')"
  "ready r (layered_list_bytes ts) \<Longrightarrow> \<not> within (reader_limits r) (reader_depth r) (layers_of ts) \<Longrightarrow>
     \<exists>i r'. read_layers (layout_list ts) r = (Err (codec_limited i NestingDepth), r')"
proof (induction t and ts arbitrary: r and r rule: layers.induct layers_of.induct)
  case (Aggregate ts)
  have "\<exists>i r'. read_nested (read_layers (layout_list ts)) r = (Err (codec_limited i NestingDepth), r')"
    by (rule read_nested_refused) (use Aggregate in \<open>auto simp: within_Suc ready_def\<close>)
  then show ?case by (auto simp: and_then_def)
next
  case (Cons_layered t ts)
  then have bytes: "ready r (layered_bytes t)"
    "ready (advance r (length (layered_bytes t))) (layered_list_bytes ts)" by (simp_all add: ready_append)
  then have start: "ready r []" by (simp add: ready_def)
  show ?case
  proof (cases "within (reader_limits r) (reader_depth r) (layers t)")
    case True
    with bytes start have "read_layered (layout t) r = (Ok t, advance r (length (layered_bytes t)))"
      by (simp add: read_layered_Ok)
    with Cons_layered True bytes show ?thesis by (fastforce simp: and_then_def within_max)
  next
    case False
    with Cons_layered.IH(1)[OF bytes(1)] show ?thesis by (auto simp: and_then_def)
  qed
qed simp_all

end
