(* ===== verification/Codec_Properties.thy ===== *)
theory Codec_Properties
  imports Protocol_Messages Codec_Nesting
begin

text \<open>
  The properties of the codec and of the budget messages. The message properties are the facts of
  the interpreted message formats, written out over the definitions of the model.
\<close>

section \<open>Frames\<close>

text \<open>
  C36. The frame decoder accepts exactly the bytes the encoder produces for the family, schema
  version and payload it returns, under the same limits: nothing else parses, and no other frame
  carries the same content.
\<close>

theorem frame_decoding_inverts_encoding:
  "decode_frame bs lims = Ok f \<longleftrightarrow>
     encode_frame (family (header f)) (schema_version (header f)) (payload f) lims = Ok bs
   \<and> payload_len (header f) = of_nat (length (payload f))"
  by (rule decode_encode_frame)

text \<open>
  A frame tells its own length: bytes that decode as a frame are not a proper prefix of other
  bytes that do, under whatever limits.
\<close>

theorem frames_tell_their_length:
  assumes "decode_frame bs lims = Ok f" and "decode_frame (bs @ extra) lims' = Ok f'"
  shows "extra = [] \<and> f' = f"
proof -
  have "extra = []" by (rule frame_self_delimiting[OF assms])
  moreover from this assms have "f' = f" by (auto simp: decode_encode_frame encode_frame_Ok)
    (auto simp: decode_frame_Ok frame_bytes_def to_be_bytes_inject)
  ultimately show ?thesis by blast
qed

definition sample_frame :: "u8 list" where
  "sample_frame = frame_bytes 10 1 [0, 8]"

lemma sample_frame_decodes:
  "decode_frame sample_frame PRODUCTION = Ok \<lparr>header = \<lparr>family = 10, schema_version = 1, payload_len = 2\<rparr>,
     payload = [0, 8]\<rparr>"
  by (auto simp: decode_frame_Ok sample_frame_def frame_fits_def PRODUCTION_def HEADER_LEN_def
      intro!: exI[of _ 10] exI[of _ 1] exI[of _ "[0, 8]"])

theorem frames_tell_their_length_witness:
  "decode_frame (sample_frame @ []) PRODUCTION = decode_frame sample_frame PRODUCTION
     \<and> \<not> is_ok (decode_frame (sample_frame @ [0]) PRODUCTION)"
proof -
  have "False" if "decode_frame (sample_frame @ [0]) PRODUCTION = Ok f'" for f'
    using frames_tell_their_length[OF sample_frame_decodes that] by simp
  then show ?thesis by (cases "decode_frame (sample_frame @ [0]) PRODUCTION") auto
qed

section \<open>Messages\<close>

text \<open>
  C20. A budget command message decodes to a command exactly when it is the encoding of that
  command: encoding and decoding are inverse, and each command has one message.
\<close>

theorem command_messages_roundtrip:
  "decode_message read_command 10 SCHEMA_V1 bs lims = Ok c
     \<longleftrightarrow> encode_message write_command 10 SCHEMA_V1 c lims = Ok bs"
  by (rule command_wire.decode_Ok)

text \<open>
  The same holds for the other families of the budget protocol: amounts, account and
  reservation snapshots, receipts and errors.
\<close>

theorem budget_reports_roundtrip:
  "(decode_message read_amounts 11 SCHEMA_V1 bs lims = Ok v \<longleftrightarrow> encode_message write_amounts 11 SCHEMA_V1 v lims = Ok bs)
 \<and> (decode_message read_snapshot 12 SCHEMA_V1 bs lims = Ok s \<longleftrightarrow> encode_message write_snapshot 12 SCHEMA_V1 s lims = Ok bs)
 \<and> (decode_message read_reservation_snapshot 13 SCHEMA_V1 bs lims = Ok r
      \<longleftrightarrow> encode_message write_reservation_snapshot 13 SCHEMA_V1 r lims = Ok bs)
 \<and> (decode_message read_receipt 14 SCHEMA_V1 bs lims = Ok rc \<longleftrightarrow> encode_message write_receipt 14 SCHEMA_V1 rc lims = Ok bs)
 \<and> (decode_message read_error 15 SCHEMA_V1 bs lims = Ok e \<longleftrightarrow> encode_message write_error 15 SCHEMA_V1 e lims = Ok bs)"
  by (intro conjI amounts_wire.decode_Ok snapshot_wire.decode_Ok reservation_snapshot_wire.decode_Ok
      receipt_wire.decode_Ok error_wire.decode_Ok)

lemma enc_lengths:
  "length (enc_revision rv) = 96" "length (enc_amounts v) = 40" "length (enc_request q) = 256"
  "length (enc_fields flds) = 96" "length (enc_reference ref) = 96"
  by (simp_all add: enc_revision_def enc_amounts_def enc_request_def enc_fields_def enc_reference_def
      split: prod.splits)

lemma enc_command_length: "length (enc_command c) \<le> 258"
  by (cases c) (simp_all add: enc_command_def enc_lengths)

text \<open>
  C37. Every budget command can be sent: under the production limits its encoding succeeds, in at
  most 274 bytes.
\<close>

theorem commands_fit_production_limits:
  "\<exists>bs. encode_message write_command 10 SCHEMA_V1 c PRODUCTION = Ok bs \<and> length bs \<le> 274
     \<and> decode_message read_command 10 SCHEMA_V1 bs PRODUCTION = Ok c"
proof -
  have "frame_fits PRODUCTION (enc_command c)"
    using enc_command_length[of c] by (simp add: frame_fits_def PRODUCTION_def HEADER_LEN_def)
  then show ?thesis
    using enc_command_length[of c] by (auto simp: command_wire.decode_Ok command_wire.encode_Ok)
qed

text \<open>
  C38. A refused command message is refused at an offset inside the message.
\<close>

theorem refusals_point_into_message:
  assumes "decode_message read_command 10 SCHEMA_V1 bs lims = Err e"
  shows "codec_offset e \<le> length bs"
  using assms by (rule command_wire.decode_offset)

lemma sample_refused:
  "decode_message read_command 10 SCHEMA_V1 [0x50, 0x52] PRODUCTION = Err (codec_failure Truncated 2)"
  by (simp add: decode_message_def decode_frame_def PRODUCTION_def HEADER_LEN_def
      numeral_2_eq_2[symmetric])

theorem refusals_point_into_message_witness:
  "codec_offset (codec_failure Truncated 2) \<le> length [0x50, 0x52 :: u8]"
  by (rule refusals_point_into_message[OF sample_refused])

section \<open>Readers and writers\<close>

text \<open>
  C39. No primitive read moves backwards or past the end of the input, or changes anything else of
  the reader, whether it succeeds or not; and it fails at an offset inside the input.
\<close>

theorem reads_stay_inside_input:
  "steady lo read_u8 \<and> steady lo read_u16 \<and> steady lo read_u32 \<and> steady lo read_u64
   \<and> steady lo (read_fixed n) \<and> steady lo read_bool \<and> steady lo read_option_tag
   \<and> steady lo read_bytes \<and> steady lo read_str \<and> steady lo read_collection_len"
  by (simp add: steady_intros)

text \<open>
  Primitive writes are transactional: one that fails leaves the writer as it was.
\<close>

theorem failed_writes_leave_no_bytes:
  "transactional (write_fixed bs) \<and> transactional (write_u8 a) \<and> transactional (write_u16 b)
   \<and> transactional (write_u32 c) \<and> transactional (write_u64 d) \<and> transactional (write_bool t)
   \<and> transactional (write_option_tag t) \<and> transactional (write_bytes bs)
   \<and> transactional (write_str s) \<and> transactional (write_collection_len n)"
  by (simp add: transactional_primitives)

text \<open>
  C40. The depth limit bounds depth and nothing else. Take any contents in nested aggregates, beside and
  inside each other. Their encoding is read back exactly when no content lies below more aggregates
  than the limit, and otherwise it is refused for the nesting depth; it is written exactly when
  moreover it fits the payload limit. Whatever the input or the outcome, the reader and the writer
  are left at the depth they started from.
\<close>

theorem nesting_is_bounded:
  assumes "length (layered_bytes t @ rest) < 2 ^ 64"
  shows "(read_layered (layout t) (reader_new (layered_bytes t @ rest) lims)
       = (Ok t, (reader_new (layered_bytes t @ rest) lims)\<lparr>position := length (layered_bytes t)\<rparr>)
     \<longleftrightarrow> layers t \<le> unat (max_nesting_depth lims))
   \<and> ((\<exists>i r. read_layered (layout t) (reader_new (layered_bytes t @ rest) lims)
         = (Err (codec_limited i NestingDepth), r)) \<longleftrightarrow> unat (max_nesting_depth lims) < layers t)
   \<and> (write_layered t (writer_new lims) = (Ok (), (writer_new lims)\<lparr>wbytes := layered_bytes t\<rparr>)
     \<longleftrightarrow> layers t \<le> unat (max_nesting_depth lims)
         \<and> length (layered_bytes t) \<le> unat (max_payload_bytes lims))
   \<and> (\<forall>s bs. reader_depth (snd (read_layered s (reader_new bs lims))) = 0)
   \<and> (\<forall>u. writer_depth (snd (write_layered u (writer_new lims))) = 0)"
proof -
  define r where "r = reader_new (layered_bytes t @ rest) lims"
  have r: "ready r []" "ready r (layered_bytes t)" "reader_depth r = 0" "reader_limits r = lims"
    using assms by (simp_all add: r_def reader_new_def ready_def)
  have fits: "within lims 0 k \<longleftrightarrow> k \<le> unat (max_nesting_depth lims)" for k by (auto simp: within_def)
  have read: "read_layered (layout t) r = (Ok t, r\<lparr>position := length (layered_bytes t)\<rparr>)
      \<longleftrightarrow> layers t \<le> unat (max_nesting_depth lims)"
    using r by (auto simp: read_layered_Ok fits r_def reader_new_def advance_def)
  have refused: "(\<exists>i r'. read_layered (layout t) r = (Err (codec_limited i NestingDepth), r'))
      \<longleftrightarrow> unat (max_nesting_depth lims) < layers t"
    using read read_layered_refused(1)[OF r(2)] by (auto simp: r fits not_le)
  have "reader_depth (snd (read_layered s (reader_new bs lims))) = 0" for s bs
    using steadyD(1)[OF read_layered_steady(1)[of 0] prod.collapse[symmetric], of "reader_new bs lims" s]
    by (auto simp: reader_new_def)
  moreover have "writer_depth (snd (write_layered u (writer_new lims))) = 0" for u
  proof -
    obtain bs where "snd (write_layered u (writer_new lims)) = append_bytes (writer_new lims) bs"
      using write_layered_appends(1)[of u] unfolding appends_def by blast
    then show ?thesis by (simp add: writer_new_def)
  qed
  moreover have "write_layered t (writer_new lims) = (Ok (), (writer_new lims)\<lparr>wbytes := layered_bytes t\<rparr>)
     \<longleftrightarrow> layers t \<le> unat (max_nesting_depth lims) \<and> length (layered_bytes t) \<le> unat (max_payload_bytes lims)"
    by (auto simp: write_layered_Ok room_def writer_new_def fits append_bytes_def)
  ultimately show ?thesis using read refused unfolding r_def by blast
qed

text \<open>Three aggregates, two of them side by side, need a limit of two.\<close>

definition sample_layered :: "u8 list layered" where
  "sample_layered = Aggregate [Aggregate [Content [1]], Content [2, 3], Aggregate [Content []]]"

definition nested_up_to :: "u16 \<Rightarrow> codec_limits" where
  "nested_up_to d = PRODUCTION\<lparr>max_nesting_depth := d\<rparr>"

theorem nesting_is_bounded_witness:
  "read_layered (layout sample_layered) (reader_new [1, 2, 3, 9] (nested_up_to 2))
     = (Ok sample_layered, (reader_new [1, 2, 3, 9] (nested_up_to 2))\<lparr>position := 3\<rparr>)
 \<and> (\<exists>i r. read_layered (layout sample_layered) (reader_new [1, 2, 3, 9] (nested_up_to 1))
     = (Err (codec_limited i NestingDepth), r))"
  using nesting_is_bounded[of sample_layered "[9]" "nested_up_to 2"]
    nesting_is_bounded[of sample_layered "[9]" "nested_up_to 1"]
  by (simp add: sample_layered_def nested_up_to_def)

end
