(* ===== verification/Canonical.thy ===== *)
theory Canonical
  imports Peritus_Types "HOL-Library.Product_Lexorder"
begin

text \<open>
  Canonical collections: the three-way comparison of \<open>core::cmp\<close>, the adjacent-pair loop with which
  every collection constructor checks strict order, and the merges of ordered lists. A type with a
  canonical comparison interprets the locale \<open>canonical_order\<close> with the key it compares by; the
  laws then say the loops compute on the set of keys.
\<close>

section \<open>Three-way comparison\<close>

datatype ordering = Less | Equal | Greater

definition compare_keys :: "'a::linorder \<Rightarrow> 'a \<Rightarrow> ordering" where
  "compare_keys x y = (if x < y then Less else if x = y then Equal else Greater)"

lemma compare_keys_simps [simp]:
  "compare_keys x y = Less \<longleftrightarrow> x < y" "compare_keys x y = Equal \<longleftrightarrow> x = y"
  "compare_keys x y = Greater \<longleftrightarrow> y < x"
  by (auto simp: compare_keys_def)

lemma case_ordering: "(case compare_keys x y of Less \<Rightarrow> a | Equal \<Rightarrow> b | Greater \<Rightarrow> c)
    = (if x < y then a else if x = y then b else c)"
  by (simp add: compare_keys_def)

text \<open>
  Byte by byte comparison of two arrays of the same length, from the first byte on, and the
  comparison of slices, in which a proper prefix comes first.
\<close>

fun compare_arrays :: "u8 list \<Rightarrow> u8 list \<Rightarrow> ordering" where
  "compare_arrays (x # xs) (y # ys) =
     (if x < y then Less else if y < x then Greater else compare_arrays xs ys)"
| "compare_arrays _ _ = Equal"

fun compare_slices :: "u8 list \<Rightarrow> u8 list \<Rightarrow> ordering" where
  "compare_slices [] [] = Equal"
| "compare_slices [] (y # ys) = Less"
| "compare_slices (x # xs) [] = Greater"
| "compare_slices (x # xs) (y # ys) =
     (if x < y then Less else if y < x then Greater else compare_slices xs ys)"

lemma compare_arrays_keys: "length xs = length ys \<Longrightarrow> compare_arrays xs ys = compare_keys xs ys"
  by (induction xs ys rule: list_induct2) (auto simp: compare_keys_def)

lemma compare_slices_keys: "compare_slices xs ys = compare_keys xs ys"
  by (induction xs ys rule: compare_slices.induct) (auto simp: compare_keys_def)

text \<open>The equality test of two identifiers walks the bytes as well.\<close>

fun arrays_equal :: "u8 list \<Rightarrow> u8 list \<Rightarrow> bool" where
  "arrays_equal (x # xs) (y # ys) = (if x \<noteq> y then False else arrays_equal xs ys)"
| "arrays_equal _ _ = True"

lemma arrays_equal_iff: "length xs = length ys \<Longrightarrow> arrays_equal xs ys \<longleftrightarrow> xs = ys"
  by (induction xs ys rule: list_induct2) auto

definition compare_identifier_bytes :: "opaque_identifier \<Rightarrow> opaque_identifier \<Rightarrow> ordering" where
  "compare_identifier_bytes a b = compare_arrays (as_bytes a) (as_bytes b)"

definition identifier_values_equal :: "opaque_identifier \<Rightarrow> opaque_identifier \<Rightarrow> bool" where
  "identifier_values_equal a b = arrays_equal (as_bytes a) (as_bytes b)"

definition compare_digest :: "sha256_digest \<Rightarrow> sha256_digest \<Rightarrow> ordering" where
  "compare_digest a b = compare_arrays (digest_bytes a) (digest_bytes b)"

lemma identifier_values_equal_iff [simp]: "identifier_values_equal a b \<longleftrightarrow> a = b"
  by (simp add: identifier_values_equal_def arrays_equal_iff)

section \<open>Strictly ascending lists\<close>

text \<open>
  \<open>while index < values.len()\<close> from one on, comparing each element with its predecessor: the
  first pair that is not ascending decides which error is returned.
\<close>

fun adjacent_check :: "('a \<Rightarrow> 'a \<Rightarrow> ordering) \<Rightarrow> 'e \<Rightarrow> 'e \<Rightarrow> 'a list \<Rightarrow> 'e + unit" where
  "adjacent_check cmp duplicated unordered (x # y # zs) = (case cmp x y of
     Less \<Rightarrow> adjacent_check cmp duplicated unordered (y # zs)
   | Equal \<Rightarrow> Err duplicated
   | Greater \<Rightarrow> Err unordered)"
| "adjacent_check cmp duplicated unordered _ = Ok ()"

text \<open>The search loop of \<open>contains\<close>.\<close>

fun search :: "('a \<Rightarrow> 'a \<Rightarrow> ordering) \<Rightarrow> 'a list \<Rightarrow> 'a \<Rightarrow> bool" where
  "search cmp [] v = False"
| "search cmp (x # xs) v = (case cmp x v of
     Less \<Rightarrow> search cmp xs v | Greater \<Rightarrow> search cmp xs v | Equal \<Rightarrow> True)"

text \<open>The two merge loops: common elements, and all elements.\<close>

fun merge_common :: "('a \<Rightarrow> 'a \<Rightarrow> ordering) \<Rightarrow> 'a list \<Rightarrow> 'a list \<Rightarrow> 'a list" where
  "merge_common cmp (x # xs) (y # ys) = (case cmp x y of
     Less \<Rightarrow> merge_common cmp xs (y # ys)
   | Greater \<Rightarrow> merge_common cmp (x # xs) ys
   | Equal \<Rightarrow> x # merge_common cmp xs ys)"
| "merge_common cmp _ _ = []"

fun merge_all :: "('a \<Rightarrow> 'a \<Rightarrow> ordering) \<Rightarrow> 'a list \<Rightarrow> 'a list \<Rightarrow> 'a list" where
  "merge_all cmp [] [] = []"
| "merge_all cmp [] (y # ys) = y # merge_all cmp [] ys"
| "merge_all cmp (x # xs) [] = x # merge_all cmp xs []"
| "merge_all cmp (x # xs) (y # ys) = (case cmp x y of
     Less \<Rightarrow> x # merge_all cmp xs (y # ys)
   | Greater \<Rightarrow> y # merge_all cmp (x # xs) ys
   | Equal \<Rightarrow> x # merge_all cmp xs ys)"

definition ascending :: "('a \<Rightarrow> 'k::linorder) \<Rightarrow> 'a list \<Rightarrow> bool" where
  "ascending key xs = sorted_wrt (<) (map key xs)"

lemma ascending_simps [simp]:
  "ascending key []" "ascending key [x]"
  "ascending key (x # y # zs) \<longleftrightarrow> key x < key y \<and> ascending key (y # zs)"
  by (auto simp: ascending_def)

lemma ascending_Cons: "ascending key (x # xs) \<longleftrightarrow> (\<forall>y\<in>set xs. key x < key y) \<and> ascending key xs"
  by (simp add: ascending_def)

lemma ascending_map [simp]: "ascending key (map f xs) = ascending (\<lambda>x. key (f x)) xs"
  by (simp add: ascending_def o_def)

lemma ascending_filter: "ascending key xs \<Longrightarrow> ascending key (filter P xs)"
  by (induction xs) (auto simp: ascending_Cons)

lemma ascending_middle:
  assumes "ascending key xs" and "\<And>x. x \<in> set xs \<Longrightarrow> key x < key m"
    and "ascending key ys" and "\<And>y. y \<in> set ys \<Longrightarrow> key m < key y"
  shows "ascending key (xs @ m # ys)"
  using assms by (auto simp: ascending_def sorted_wrt_append) (meson less_trans)

lemma ascending_distinct: "ascending key xs \<Longrightarrow> distinct xs"
  by (induction xs) (auto simp: ascending_Cons)

lemma ascending_map_cong: "map key xs = map key' ys \<Longrightarrow> ascending key xs = ascending key' ys"
  by (simp add: ascending_def)

lemma ascending_inj_on: "ascending key xs \<Longrightarrow> inj_on key (set xs)"
  by (simp add: ascending_def strict_sorted_iff distinct_map)

section \<open>Interface: a canonical comparison\<close>

locale canonical_order =
  fixes cmp :: "'a \<Rightarrow> 'a \<Rightarrow> ordering" and key :: "'a \<Rightarrow> 'k::linorder"
  assumes cmp_key: "cmp x y = compare_keys (key x) (key y)"
begin

lemma check_Ok: "adjacent_check cmp d u xs = Ok () \<longleftrightarrow> ascending key xs"
  by (induction xs rule: induct_list012) (simp_all add: cmp_key case_ordering)

lemma check_Err: "adjacent_check cmp d u xs = Err e \<Longrightarrow> e = d \<or> e = u"
  by (induction xs rule: induct_list012) (auto simp: cmp_key case_ordering split: if_splits)

lemma checked_Ok: "(case adjacent_check cmp d u xs of Inl e \<Rightarrow> Err e | Inr _ \<Rightarrow> Ok y) = Ok z
    \<longleftrightarrow> ascending key xs \<and> z = y"
  using check_Ok[of d u xs] by (auto split: sum.splits)

lemma search_iff: "search cmp xs v \<longleftrightarrow> (\<exists>x\<in>set xs. key x = key v)"
proof (induction xs)
  case (Cons x xs)
  then show ?case by (auto simp: cmp_key[of x v] case_ordering)
qed simp

lemma merge_common_keys:
  "ascending key xs \<Longrightarrow> ascending key ys \<Longrightarrow>
     set (merge_common cmp xs ys) = {x \<in> set xs. key x \<in> key ` set ys}"
proof (induction xs arbitrary: ys)
  case (Cons x xs)
  note outer = Cons.IH
  show ?case using Cons.prems
  proof (induction ys)
    case (Cons y ys)
    with outer show ?case
      by (auto simp: cmp_key[of x y] case_ordering ascending_Cons)
  qed simp
qed simp

lemma merge_common_ascending:
  "ascending key xs \<Longrightarrow> ascending key ys \<Longrightarrow> ascending key (merge_common cmp xs ys)"
proof (induction xs arbitrary: ys)
  case (Cons x xs)
  note outer = Cons.IH
  show ?case using Cons.prems
  proof (induction ys)
    case (Cons y ys)
    with outer show ?case
      by (auto simp: cmp_key[of x y] case_ordering ascending_Cons merge_common_keys)
  qed simp
qed simp

lemma merge_all_keys: "key ` set (merge_all cmp xs ys) = key ` (set xs \<union> set ys)"
proof (induction xs arbitrary: ys)
  case Nil
  show ?case by (induction ys) simp_all
next
  case (Cons x xs)
  note outer = Cons.IH
  show ?case
  proof (induction ys)
    case (Cons y ys)
    with outer show ?case
      by (auto simp: cmp_key case_ordering)
  qed (simp add: outer)
qed

lemma merge_all_key_mem: "v \<in> set (merge_all cmp xs ys) \<Longrightarrow> \<exists>u\<in>set xs \<union> set ys. key v = key u"
  using merge_all_keys[of xs ys] by blast

lemma merge_all_ascending:
  "ascending key xs \<Longrightarrow> ascending key ys \<Longrightarrow> ascending key (merge_all cmp xs ys)"
proof (induction xs arbitrary: ys)
  case Nil
  then show ?case
    by (induction ys) (auto simp: ascending_Cons dest!: merge_all_key_mem)
next
  case (Cons x xs)
  note outer = Cons.IH
  show ?case using Cons.prems
  proof (induction ys)
    case Nil
    with outer[of "[]"] show ?case by (auto simp: ascending_Cons dest!: merge_all_key_mem)
  next
    case (Cons y ys)
    with outer[of "y # ys"] outer[of ys] show ?case
      by (auto simp: cmp_key[of x y] case_ordering ascending_Cons dest!: merge_all_key_mem) force+
  qed
qed

end

locale canonical_identity = canonical_order +
  assumes key_inject: "key x = key y \<Longrightarrow> x = y"
begin

lemma equal_iff: "cmp x y = Equal \<longleftrightarrow> x = y"
  using key_inject by (auto simp: cmp_key)

lemma search_mem: "search cmp xs v \<longleftrightarrow> v \<in> set xs"
  using key_inject by (auto simp: search_iff)

lemma merge_common_set:
  "ascending key xs \<Longrightarrow> ascending key ys \<Longrightarrow> set (merge_common cmp xs ys) = set xs \<inter> set ys"
  using key_inject by (auto simp: merge_common_keys)

lemma merge_all_set: "set (merge_all cmp xs ys) = set xs \<union> set ys"
  using merge_all_keys key_inject by (metis inj_image_eq_iff injI)

end

interpretation identifier_order: canonical_identity compare_identifier_bytes as_bytes
  by unfold_locales (simp_all add: compare_identifier_bytes_def compare_arrays_keys)

interpretation digest_order: canonical_identity compare_digest digest_bytes
  by unfold_locales (simp_all add: compare_digest_def compare_arrays_keys)

end
