(* ===== verification/Capability_Name.thy ===== *)
theory Capability_Name
  imports Canonical Codec_Model
begin

text \<open>
  \<open>peritus-types\<close>, file \<open>capability.rs\<close>: capability names with the recursive check of their
  grammar, and their byte order. The grammar of the documentation,
  \<open>[a-z][a-z0-9-]*(.[a-z][a-z0-9-]*)*\<close>, is the inductive predicate \<open>dotted_name\<close>.
\<close>

datatype capability_name_error =
  NameEmpty | NameTooLong | NameEmptySegment | NameInvalidSegmentStart | NameInvalidCharacter

fun capability_name_error_code :: "capability_name_error \<Rightarrow> string" where
  "capability_name_error_code NameEmpty = ''PERITUS-TYPES-CAPABILITY-001''"
| "capability_name_error_code NameTooLong = ''PERITUS-TYPES-CAPABILITY-002''"
| "capability_name_error_code NameEmptySegment = ''PERITUS-TYPES-CAPABILITY-003''"
| "capability_name_error_code NameInvalidSegmentStart = ''PERITUS-TYPES-CAPABILITY-004''"
| "capability_name_error_code NameInvalidCharacter = ''PERITUS-TYPES-CAPABILITY-005''"

definition is_ascii_lowercase :: "u8 \<Rightarrow> bool" where
  "is_ascii_lowercase b \<longleftrightarrow> 0x61 \<le> b \<and> b \<le> 0x7A"

definition is_capability_tail :: "u8 \<Rightarrow> bool" where
  "is_capability_tail b \<longleftrightarrow> is_ascii_lowercase b \<or> (0x30 \<le> b \<and> b \<le> 0x39) \<or> b = 0x2D"

function validate_from :: "u8 list \<Rightarrow> nat \<Rightarrow> bool \<Rightarrow> capability_name_error + unit" where
  "validate_from bytes index at_segment_start =
    (if length bytes < index then Err NameEmptySegment
     else if index = length bytes then
       (if at_segment_start then (if index = 0 then Err NameEmpty else Err NameEmptySegment)
        else Ok ())
     else (let byte = bytes ! index in
       if at_segment_start then
         (if is_ascii_lowercase byte then validate_from bytes (index + 1) False
          else if byte = 0x2E then Err NameEmptySegment
          else Err NameInvalidSegmentStart)
       else if byte = 0x2E then validate_from bytes (index + 1) True
       else if is_capability_tail byte then validate_from bytes (index + 1) False
       else Err NameInvalidCharacter))"
  by pat_completeness auto
termination by (relation "measure (\<lambda>(bytes, index, _). length bytes - index)") auto

declare validate_from.simps [simp del]

definition MAX_LENGTH :: nat where "MAX_LENGTH = 128"

definition validate_capability_bytes :: "u8 list \<Rightarrow> capability_name_error + unit" where
  "validate_capability_bytes bytes =
    (if MAX_LENGTH < length bytes then Err NameTooLong else validate_from bytes 0 True)"

section \<open>The grammar\<close>

definition segment :: "u8 list \<Rightarrow> bool" where
  "segment s \<longleftrightarrow> s \<noteq> [] \<and> is_ascii_lowercase (hd s) \<and> list_all is_capability_tail (tl s)"

inductive dotted_name :: "u8 list \<Rightarrow> bool" where
  single: "segment s \<Longrightarrow> dotted_name s"
| dotted: "segment s \<Longrightarrow> dotted_name t \<Longrightarrow> dotted_name (s @ 0x2E # t)"

text \<open>The rest of a name after a segment has begun.\<close>

inductive rest_of_name :: "u8 list \<Rightarrow> bool" where
  rest_last: "list_all is_capability_tail s \<Longrightarrow> rest_of_name s"
| rest_dot: "list_all is_capability_tail s \<Longrightarrow> dotted_name t \<Longrightarrow> rest_of_name (s @ 0x2E # t)"

lemma dot_not_tail [simp]: "\<not> is_capability_tail 0x2E" "\<not> is_ascii_lowercase 0x2E"
  by (simp_all add: is_capability_tail_def is_ascii_lowercase_def)

lemma lowercase_tail [simp]: "is_ascii_lowercase b \<Longrightarrow> is_capability_tail b"
  by (simp add: is_capability_tail_def)

lemma dotted_name_Nil [simp]: "\<not> dotted_name []"
  by (auto elim: dotted_name.cases simp: segment_def)

lemma dotted_name_Cons: "dotted_name (b # bs) \<longleftrightarrow> is_ascii_lowercase b \<and> rest_of_name bs"
proof
  assume "dotted_name (b # bs)"
  then show "is_ascii_lowercase b \<and> rest_of_name bs"
  proof cases
    case single
    then show ?thesis by (auto simp: segment_def intro: rest_last)
  next
    case (dotted s t)
    then show ?thesis by (cases s) (auto simp: segment_def intro: rest_dot)
  qed
next
  assume *: "is_ascii_lowercase b \<and> rest_of_name bs"
  then have "rest_of_name bs" by simp
  then show "dotted_name (b # bs)"
  proof cases
    case rest_last
    with * show ?thesis by (auto simp: segment_def intro: single)
  next
    case (rest_dot s t)
    with * have "dotted_name ((b # s) @ 0x2E # t)"
      by (intro dotted) (auto simp: segment_def)
    with rest_dot show ?thesis by simp
  qed
qed

lemma rest_of_name_Nil [simp]: "rest_of_name []"
  by (rule rest_last) simp

lemma rest_of_name_Cons: "rest_of_name (b # bs) \<longleftrightarrow>
    (b = 0x2E \<and> dotted_name bs) \<or> (is_capability_tail b \<and> rest_of_name bs)"
proof
  assume "rest_of_name (b # bs)"
  then show "(b = 0x2E \<and> dotted_name bs) \<or> (is_capability_tail b \<and> rest_of_name bs)"
  proof cases
    case rest_last
    then show ?thesis by (auto intro: rest_of_name.rest_last)
  next
    case (rest_dot s t)
    then show ?thesis by (cases s) (auto intro: rest_of_name.rest_dot)
  qed
next
  assume "(b = 0x2E \<and> dotted_name bs) \<or> (is_capability_tail b \<and> rest_of_name bs)"
  then show "rest_of_name (b # bs)"
  proof (elim disjE conjE)
    assume "b = 0x2E" "dotted_name bs"
    then show ?thesis using rest_dot[of "[]" bs] by simp
  next
    assume tail: "is_capability_tail b" and "rest_of_name bs"
    from this(2) show ?thesis
    proof cases
      case rest_last
      with tail show ?thesis by (auto intro: rest_of_name.rest_last)
    next
      case (rest_dot s t)
      with tail have "rest_of_name ((b # s) @ 0x2E # t)" by (intro rest_of_name.rest_dot) auto
      with rest_dot show ?thesis by simp
    qed
  qed
qed

text \<open>The walk over the bytes decides the grammar of what is left.\<close>

lemma validate_from_Ok:
  "i \<le> length bytes \<Longrightarrow> validate_from bytes i start = Ok () \<longleftrightarrow>
     (if start then dotted_name (drop i bytes) else rest_of_name (drop i bytes))"
proof (induction "length bytes - i" arbitrary: i start)
  case 0
  then show ?case by (simp add: validate_from.simps)
next
  case (Suc k)
  then have i: "i < length bytes" and ih: "\<And>start. validate_from bytes (Suc i) start = Ok () \<longleftrightarrow>
     (if start then dotted_name (drop (Suc i) bytes) else rest_of_name (drop (Suc i) bytes))"
    by simp_all
  from i have "drop i bytes = bytes ! i # drop (Suc i) bytes" by (rule Cons_nth_drop_Suc[symmetric])
  with i show ?case
    unfolding validate_from.simps[of bytes i start]
    by (auto simp: ih dotted_name_Cons rest_of_name_Cons Let_def)
qed

lemma validate_capability_bytes_Ok:
  "validate_capability_bytes bs = Ok () \<longleftrightarrow> length bs \<le> 128 \<and> dotted_name bs"
  using validate_from_Ok[of 0 bs True]
  by (auto simp: validate_capability_bytes_def MAX_LENGTH_def)

section \<open>Names\<close>

lemma utf8_ascii: "list_all (\<lambda>b. b < 0x80) bs \<Longrightarrow> utf8_valid bs"
  by (induction bs rule: utf8_valid.induct) (auto split: list.splits)

definition sample_name :: rust_str where "sample_name = Rust_str [0x61]"

lemma sample_name_valid: "validate_capability_bytes (str_bytes sample_name) = Ok ()"
proof -
  have "str_bytes sample_name = [0x61]"
    by (simp add: sample_name_def Rust_str_inverse)
  then show ?thesis
    by (simp add: validate_capability_bytes_Ok)
      (auto simp: segment_def is_ascii_lowercase_def intro!: single)
qed

typedef capability_name = "{s. validate_capability_bytes (str_bytes s) = Ok ()}"
  morphisms name_value Capability_name
  using sample_name_valid by blast

setup_lifting type_definition_capability_name

definition capability_name_new :: "rust_str \<Rightarrow> capability_name_error + capability_name" where
  "capability_name_new value = (case validate_capability_bytes (str_bytes value) of
     Inr _ \<Rightarrow> Ok (Capability_name value) | Inl e \<Rightarrow> Err e)"

definition name_bytes :: "capability_name \<Rightarrow> u8 list" where
  "name_bytes n = str_bytes (name_value n)"

definition name_canonical_cmp :: "capability_name \<Rightarrow> capability_name \<Rightarrow> ordering" where
  "name_canonical_cmp a b = compare_slices (name_bytes a) (name_bytes b)"

lemma name_bytes_inject [simp]: "name_bytes a = name_bytes b \<longleftrightarrow> a = b"
  by (simp add: name_bytes_def str_bytes_inject name_value_inject)

interpretation name_order: canonical_identity name_canonical_cmp name_bytes
  by unfold_locales (simp_all add: name_canonical_cmp_def compare_slices_keys)

lemma capability_name_new_Ok:
  "capability_name_new s = Ok n \<longleftrightarrow> length (str_bytes s) \<le> 128 \<and> dotted_name (str_bytes s) \<and> name_value n = s"
proof -
  have "capability_name_new s = Ok n \<longleftrightarrow> validate_capability_bytes (str_bytes s) = Ok () \<and> name_value n = s"
    using name_value[of n]
    by (auto simp: capability_name_new_def Capability_name_inverse name_value_inverse split: sum.splits)
  then show ?thesis by (simp add: validate_capability_bytes_Ok)
qed

end
