(* ===== verification/Policy_Base.thy ===== *)
theory Policy_Base
  imports Capability_Name Peritus_Identifiers
begin

text \<open>
  \<open>peritus-policy\<close>, files \<open>failure.rs\<close>, \<open>failure/metadata.rs\<close>, \<open>validity.rs\<close>, \<open>time.rs\<close> and
  \<open>use_limit.rs\<close>: the typed failures, authority instants and half-open validity windows, the
  monotonic authority clock and logical use bounds. A window is read as the set of instants inside
  it (\<open>window_set\<close>): intersecting windows intersects the sets.
\<close>

section \<open>Failures\<close>

datatype policy_recovery =
  PolicyTerminal | PolicyReobserve | PolicyReauthorize | PolicyCallerCorrectable

datatype canonical_collection =
    ActorCollection | RoleCollection | EnvironmentCollection | PermissionCollection
  | OperationCollection | RiskCollection | IndependenceCollection | RestrictionRuleCollection
  | GrantCollection | RestrictionLayerCollection

datatype scope_dimension =
  ActorDimension | RoleDimension | EnvironmentDimension | PermissionsDimension | RevisionDimension

datatype policy_error_kind =
    EmptyCanonicalCollection | NonCanonicalOrder | DuplicateCanonicalValue | InvalidValidityWindow
  | PolicyClockEpochMismatch | PolicyClockRegression | PolicyTimeOverflow | ZeroUseLimit
  | SelectorOutsideBoundary | InvalidPolicyTier | InvalidRuleKind | PolicyRevisionMismatch
  | InvalidOperationRisk | AmendmentBaseMismatch | AmendmentPolicyIdReuse | AmendmentTierMismatch
  | CapabilityScopeMismatch | CapabilityExhausted | CapabilityNotYetValid | CapabilityExpired

record policy_error =
  policy_error_kind :: policy_error_kind
  policy_error_collection :: "canonical_collection option"
  policy_error_dimension :: "scope_dimension option"

definition plain_policy_error :: "policy_error_kind \<Rightarrow> policy_error" where
  "plain_policy_error k =
     \<lparr>policy_error_kind = k, policy_error_collection = None, policy_error_dimension = None\<rparr>"

definition collection_error :: "policy_error_kind \<Rightarrow> canonical_collection \<Rightarrow> policy_error" where
  "collection_error k c =
     \<lparr>policy_error_kind = k, policy_error_collection = Some c, policy_error_dimension = None\<rparr>"

definition dimension_error :: "policy_error_kind \<Rightarrow> scope_dimension \<Rightarrow> policy_error" where
  "dimension_error k d =
     \<lparr>policy_error_kind = k, policy_error_collection = None, policy_error_dimension = Some d\<rparr>"

definition empty_canonical_collection :: "canonical_collection \<Rightarrow> policy_error" where
  "empty_canonical_collection = collection_error EmptyCanonicalCollection"

definition non_canonical_order :: "canonical_collection \<Rightarrow> policy_error" where
  "non_canonical_order = collection_error NonCanonicalOrder"

definition duplicate_canonical_value :: "canonical_collection \<Rightarrow> policy_error" where
  "duplicate_canonical_value = collection_error DuplicateCanonicalValue"

definition selector_outside_boundary :: "scope_dimension \<Rightarrow> policy_error" where
  "selector_outside_boundary = dimension_error SelectorOutsideBoundary"

definition capability_scope_mismatch :: "scope_dimension \<Rightarrow> policy_error" where
  "capability_scope_mismatch = dimension_error CapabilityScopeMismatch"

definition policy_error_from_kind :: "policy_error_kind \<Rightarrow> policy_error option" where
  "policy_error_from_kind k =
    (if k = EmptyCanonicalCollection \<or> k = NonCanonicalOrder \<or> k = DuplicateCanonicalValue
        \<or> k = SelectorOutsideBoundary \<or> k = CapabilityScopeMismatch
     then None else Some (plain_policy_error k))"

lemma plain_policy_error_kind [simp]: "policy_error_kind (plain_policy_error k) = k"
  by (simp add: plain_policy_error_def)

lemma plain_policy_error_eq [simp]: "plain_policy_error k = plain_policy_error k' \<longleftrightarrow> k = k'"
  by (auto simp: plain_policy_error_def)

fun policy_error_code :: "policy_error_kind \<Rightarrow> string" where
  "policy_error_code EmptyCanonicalCollection = ''PERITUS-POLICY-INPUT-001''"
| "policy_error_code NonCanonicalOrder = ''PERITUS-POLICY-INPUT-002''"
| "policy_error_code DuplicateCanonicalValue = ''PERITUS-POLICY-INPUT-003''"
| "policy_error_code InvalidValidityWindow = ''PERITUS-POLICY-TIME-001''"
| "policy_error_code PolicyClockEpochMismatch = ''PERITUS-POLICY-TIME-002''"
| "policy_error_code PolicyClockRegression = ''PERITUS-POLICY-TIME-003''"
| "policy_error_code PolicyTimeOverflow = ''PERITUS-POLICY-TIME-004''"
| "policy_error_code ZeroUseLimit = ''PERITUS-POLICY-SCOPE-001''"
| "policy_error_code SelectorOutsideBoundary = ''PERITUS-POLICY-SCOPE-002''"
| "policy_error_code InvalidPolicyTier = ''PERITUS-POLICY-LAYER-001''"
| "policy_error_code InvalidRuleKind = ''PERITUS-POLICY-LAYER-002''"
| "policy_error_code AmendmentBaseMismatch = ''PERITUS-POLICY-AMEND-001''"
| "policy_error_code AmendmentPolicyIdReuse = ''PERITUS-POLICY-AMEND-002''"
| "policy_error_code AmendmentTierMismatch = ''PERITUS-POLICY-AMEND-003''"
| "policy_error_code CapabilityScopeMismatch = ''PERITUS-POLICY-CAPABILITY-001''"
| "policy_error_code CapabilityExhausted = ''PERITUS-POLICY-CAPABILITY-002''"
| "policy_error_code CapabilityNotYetValid = ''PERITUS-POLICY-CAPABILITY-003''"
| "policy_error_code CapabilityExpired = ''PERITUS-POLICY-CAPABILITY-004''"
| "policy_error_code PolicyRevisionMismatch = ''PERITUS-POLICY-REVISION-001''"
| "policy_error_code InvalidOperationRisk = ''PERITUS-POLICY-OPERATION-001''"

definition policy_error_recovery :: "policy_error_kind \<Rightarrow> policy_recovery" where
  "policy_error_recovery k =
    (if k = PolicyClockEpochMismatch \<or> k = PolicyClockRegression \<or> k = PolicyTimeOverflow
     then PolicyReobserve
     else if k = CapabilityScopeMismatch \<or> k = CapabilityExhausted \<or> k = CapabilityNotYetValid
       \<or> k = CapabilityExpired \<or> k = AmendmentBaseMismatch \<or> k = AmendmentPolicyIdReuse
     then PolicyReauthorize
     else PolicyCallerCorrectable)"

section \<open>Instants and windows\<close>

record authority_instant =
  epoch :: generation
  tick_millis :: u64

definition U64_MAX :: u64 where "U64_MAX = 0xFFFFFFFFFFFFFFFF"

lemma unat_U64_MAX [simp]: "unat U64_MAX = 2 ^ 64 - 1"
  by (simp add: U64_MAX_def)

lemma U64_MAX_greatest [simp]: "n \<le> U64_MAX"
  using unsigned_less[of n, where 'a = nat] by (simp add: word_le_nat_alt)

definition instant_checked_add :: "authority_instant \<Rightarrow> u64 \<Rightarrow> policy_error + authority_instant" where
  "instant_checked_add t duration =
    (if U64_MAX - tick_millis t < duration then Err (plain_policy_error PolicyTimeOverflow)
     else Ok \<lparr>epoch = epoch t, tick_millis = tick_millis t + duration\<rparr>)"

lemma instant_checked_add_Ok:
  "instant_checked_add t d = Ok t' \<longleftrightarrow>
     epoch t' = epoch t \<and> unat (tick_millis t') = unat (tick_millis t) + unat d"
proof -
  have max: "unat (U64_MAX - tick_millis t) = 2 ^ 64 - 1 - unat (tick_millis t)"
    by (subst unat_sub) simp_all
  have t': "unat (tick_millis t') < 2 ^ 64" using unsigned_less[of "tick_millis t'"] by simp
  show ?thesis
  proof (cases "unat (tick_millis t) + unat d < 2 ^ 64")
    case True
    then have "unat (tick_millis t + d) = unat (tick_millis t) + unat d" by (simp add: unat_word_ariths)
    with True max show ?thesis
      by (cases t') (auto simp: instant_checked_add_def word_less_nat_alt word_unat_eq_iff)
  next
    case False
    have "unat (tick_millis t) < 2 ^ 64" using unsigned_less[of "tick_millis t"] by simp
    with False have "U64_MAX - tick_millis t < d" by (simp add: word_less_nat_alt max)
    with False t' show ?thesis by (auto simp: instant_checked_add_def)
  qed
qed

definition well_ordered_bounds :: "authority_instant \<times> authority_instant \<Rightarrow> bool" where
  "well_ordered_bounds b \<longleftrightarrow> epoch (fst b) = epoch (snd b) \<and> tick_millis (fst b) < tick_millis (snd b)"

typedef validity_window = "{b. well_ordered_bounds b}"
  morphisms window_bounds Validity_window
  by (rule exI [of _ "(\<lparr>epoch = generation_first, tick_millis = 0\<rparr>, \<lparr>epoch = generation_first, tick_millis = 1\<rparr>)"])
    (simp add: well_ordered_bounds_def)

setup_lifting type_definition_validity_window

definition not_before :: "validity_window \<Rightarrow> authority_instant" where
  "not_before w = fst (window_bounds w)"

definition expires_at :: "validity_window \<Rightarrow> authority_instant" where
  "expires_at w = snd (window_bounds w)"

definition validity_window_new ::
  "authority_instant \<Rightarrow> authority_instant \<Rightarrow> policy_error + validity_window" where
  "validity_window_new a b =
    (if generation_get (epoch a) \<noteq> generation_get (epoch b) \<or> tick_millis b \<le> tick_millis a
     then Err (plain_policy_error InvalidValidityWindow)
     else Ok (Validity_window (a, b)))"

definition window_contains :: "validity_window \<Rightarrow> authority_instant \<Rightarrow> policy_error + bool" where
  "window_contains w t =
    (if generation_get (epoch t) = generation_get (epoch (not_before w))
     then Ok (tick_millis (not_before w) \<le> tick_millis t \<and> tick_millis t < tick_millis (expires_at w))
     else Err (plain_policy_error PolicyClockEpochMismatch))"

definition window_is_within :: "validity_window \<Rightarrow> validity_window \<Rightarrow> bool" where
  "window_is_within w parent \<longleftrightarrow>
     generation_get (epoch (not_before w)) = generation_get (epoch (not_before parent))
   \<and> tick_millis (not_before parent) \<le> tick_millis (not_before w)
   \<and> tick_millis (expires_at w) \<le> tick_millis (expires_at parent)"

definition window_intersection ::
  "validity_window \<Rightarrow> validity_window \<Rightarrow> policy_error + validity_window" where
  "window_intersection w other =
    (if generation_get (epoch (not_before w)) \<noteq> generation_get (epoch (not_before other))
     then Err (plain_policy_error PolicyClockEpochMismatch)
     else validity_window_new
       (if tick_millis (not_before other) \<le> tick_millis (not_before w) then not_before w else not_before other)
       (if tick_millis (expires_at w) \<le> tick_millis (expires_at other) then expires_at w else expires_at other))"

text \<open>The instants of a window.\<close>

definition window_set :: "validity_window \<Rightarrow> authority_instant set" where
  "window_set w = {t. epoch t = epoch (not_before w) \<and> tick_millis (not_before w) \<le> tick_millis t
     \<and> tick_millis t < tick_millis (expires_at w)}"

lemma window_epochs [simp]: "epoch (expires_at w) = epoch (not_before w)"
  and window_ticks: "tick_millis (not_before w) < tick_millis (expires_at w)"
  using window_bounds[of w] by (simp_all add: well_ordered_bounds_def not_before_def expires_at_def)

lemma window_eqI: "not_before v = not_before w \<Longrightarrow> expires_at v = expires_at w \<Longrightarrow> v = w"
  by (simp add: not_before_def expires_at_def prod_eq_iff flip: window_bounds_inject)

lemma validity_window_new_Ok: "validity_window_new a b = Ok w \<longleftrightarrow> not_before w = a \<and> expires_at w = b"
proof -
  have "not_before (Validity_window (a, b)) = a \<and> expires_at (Validity_window (a, b)) = b"
    if "well_ordered_bounds (a, b)"
    using that by (simp add: not_before_def expires_at_def Validity_window_inverse)
  then show ?thesis
    using window_ticks[of w] window_epochs[of w]
    by (auto simp: validity_window_new_def well_ordered_bounds_def not_le intro!: window_eqI)
qed

lemma window_contains_iff: "window_contains w t = Ok True \<longleftrightarrow> t \<in> window_set w"
  by (auto simp: window_contains_def window_set_def)

lemma not_before_in_window [simp]: "not_before w \<in> window_set w"
  by (simp add: window_set_def window_ticks)

lemma window_set_inject: "window_set v = window_set w \<longleftrightarrow> v = w"
proof
  assume eq: "window_set v = window_set w"
  have first: "tick_millis (not_before a) \<le> tick_millis (not_before b) \<and> epoch (not_before a) = epoch (not_before b)"
    if "window_set b = window_set a" for a b
    using that not_before_in_window[of b] by (auto simp: window_set_def)
  have last: "tick_millis (expires_at b) \<le> tick_millis (expires_at a)"
    if ab: "window_set b = window_set a" for a b
  proof -
    let ?t = "\<lparr>epoch = epoch (not_before b), tick_millis = tick_millis (expires_at b) - 1\<rparr>"
    have pos: "tick_millis (not_before b) < tick_millis (expires_at b)" by (rule window_ticks)
    then have "unat (tick_millis (expires_at b) - 1) = unat (tick_millis (expires_at b)) - 1"
      by (intro unat_minus_one) auto
    with pos have "?t \<in> window_set b"
      by (simp add: window_set_def word_le_nat_alt word_less_nat_alt)
    with ab have "?t \<in> window_set a" by simp
    then have "tick_millis (expires_at b) - 1 < tick_millis (expires_at a)" by (simp add: window_set_def)
    with pos show ?thesis
      using \<open>unat (tick_millis (expires_at b) - 1) = _\<close> by (simp add: word_le_nat_alt word_less_nat_alt)
  qed
  have "not_before v = not_before w"
    using first[of v w] first[of w v] eq by (intro authority_instant.equality) auto
  moreover have "expires_at v = expires_at w"
    using last[of v w] last[of w v] eq \<open>not_before v = _\<close> by (intro authority_instant.equality) auto
  ultimately show "v = w" by (rule window_eqI)
qed simp

lemma window_intersection_Ok:
  "window_intersection v w = Ok x \<longleftrightarrow> window_set x = window_set v \<inter> window_set w"
proof
  assume "window_intersection v w = Ok x"
  then show "window_set x = window_set v \<inter> window_set w"
    by (auto simp: window_intersection_def validity_window_new_Ok window_set_def split: if_splits)
next
  assume x: "window_set x = window_set v \<inter> window_set w"
  then have mem: "not_before x \<in> window_set v \<inter> window_set w" by (metis not_before_in_window)
  have "\<exists>y. window_intersection v w = Ok y"
    using mem window_ticks[of v] window_ticks[of w]
    by (auto simp: window_intersection_def validity_window_new_def window_set_def)
  then obtain y where y: "window_intersection v w = Ok y" ..
  then have "window_set y = window_set v \<inter> window_set w"
    by (auto simp: window_intersection_def validity_window_new_Ok window_set_def split: if_splits)
  with x have "y = x" by (simp flip: window_set_inject)
  with y show "window_intersection v w = Ok x" by simp
qed

lemma window_intersection_Err:
  "window_intersection v w = Err e \<Longrightarrow> window_set v \<inter> window_set w = {}
     \<and> (e = plain_policy_error InvalidValidityWindow \<or> e = plain_policy_error PolicyClockEpochMismatch)"
  by (auto simp: window_intersection_def validity_window_new_def window_set_def split: if_splits)

lemma window_is_within_iff: "window_is_within w p \<longleftrightarrow> window_set w \<subseteq> window_set p"
proof
  show "window_is_within w p \<Longrightarrow> window_set w \<subseteq> window_set p"
    by (auto simp: window_is_within_def window_set_def)
next
  assume sub: "window_set w \<subseteq> window_set p"
  then have "window_intersection w p = Ok w" by (auto simp: window_intersection_Ok)
  then show "window_is_within w p"
    by (auto simp: window_intersection_def validity_window_new_Ok window_is_within_def split: if_splits)
qed

section \<open>The authority clock\<close>

record authority_time_state =
  time_epoch :: generation
  greatest_tick_millis :: u64

record authority_time_failure =
  time_failure_error :: policy_error
  time_failure_state :: authority_time_state

definition authority_time_state_new :: "authority_instant \<Rightarrow> authority_time_state" where
  "authority_time_state_new t = \<lparr>time_epoch = epoch t, greatest_tick_millis = tick_millis t\<rparr>"

definition validate_observation :: "authority_time_state \<Rightarrow> authority_instant \<Rightarrow> policy_error + unit" where
  "validate_observation s t =
    (if generation_get (epoch t) \<noteq> generation_get (time_epoch s)
     then Err (plain_policy_error PolicyClockEpochMismatch)
     else if tick_millis t < greatest_tick_millis s then Err (plain_policy_error PolicyClockRegression)
     else Ok ())"

definition time_observe ::
  "authority_time_state \<Rightarrow> authority_instant \<Rightarrow> authority_time_failure + authority_time_state" where
  "time_observe s t =
    (if generation_get (epoch t) \<noteq> generation_get (time_epoch s)
     then Err \<lparr>time_failure_error = plain_policy_error PolicyClockEpochMismatch, time_failure_state = s\<rparr>
     else if tick_millis t < greatest_tick_millis s
     then Err \<lparr>time_failure_error = plain_policy_error PolicyClockRegression, time_failure_state = s\<rparr>
     else Ok \<lparr>time_epoch = time_epoch s, greatest_tick_millis = tick_millis t\<rparr>)"

definition observable :: "authority_time_state \<Rightarrow> authority_instant \<Rightarrow> bool" where
  "observable s t \<longleftrightarrow> epoch t = time_epoch s \<and> greatest_tick_millis s \<le> tick_millis t"

lemma validate_observation_Ok: "validate_observation s t = Ok () \<longleftrightarrow> observable s t"
  by (auto simp: validate_observation_def observable_def)

lemma time_observe_Ok: "time_observe s t = Ok s' \<longleftrightarrow> observable s t \<and> s' = authority_time_state_new t"
  by (auto simp: time_observe_def observable_def authority_time_state_new_def)

lemma time_observe_validate:
  "time_observe s t = (case validate_observation s t of
     Inl e \<Rightarrow> Err \<lparr>time_failure_error = e, time_failure_state = s\<rparr>
   | Inr _ \<Rightarrow> Ok (authority_time_state_new t))"
  by (auto simp: time_observe_def validate_observation_def authority_time_state_new_def)

section \<open>Use limits\<close>

datatype use_limit = UseLimit (limit_remaining: "u64 option")

definition unlimited :: use_limit where "unlimited = UseLimit None"

definition limited :: "u64 \<Rightarrow> policy_error + use_limit" where
  "limited n = (if n = 0 then Err (plain_policy_error ZeroUseLimit) else Ok (UseLimit (Some n)))"

definition exhausted :: use_limit where "exhausted = UseLimit (Some 0)"

definition is_exhausted :: "use_limit \<Rightarrow> bool" where
  "is_exhausted l \<longleftrightarrow> limit_remaining l = Some 0"

fun limit_is_within :: "use_limit \<Rightarrow> use_limit \<Rightarrow> bool" where
  "limit_is_within (UseLimit _) (UseLimit None) = True"
| "limit_is_within (UseLimit (Some value)) (UseLimit (Some bound)) = (value \<le> bound)"
| "limit_is_within (UseLimit None) (UseLimit (Some bound)) = False"

fun limit_intersection :: "use_limit \<Rightarrow> use_limit \<Rightarrow> use_limit" where
  "limit_intersection (UseLimit None) (UseLimit None) = unlimited"
| "limit_intersection (UseLimit (Some v)) (UseLimit None) = UseLimit (Some v)"
| "limit_intersection (UseLimit None) (UseLimit (Some v)) = UseLimit (Some v)"
| "limit_intersection (UseLimit (Some left)) (UseLimit (Some right)) =
     UseLimit (Some (if left \<le> right then left else right))"

definition limit_decrement :: "use_limit \<Rightarrow> policy_error + use_limit" where
  "limit_decrement l = (case limit_remaining l of
     None \<Rightarrow> Ok l
   | Some n \<Rightarrow> if n = 0 then Err (plain_policy_error CapabilityExhausted)
       else if n = 1 then Ok exhausted
       else Ok (UseLimit (Some (n - 1))))"

text \<open>The number of uses a limit still allows, as a set: all of them, or those below the count.\<close>

definition limit_uses :: "use_limit \<Rightarrow> nat set" where
  "limit_uses l = (case limit_remaining l of None \<Rightarrow> UNIV | Some n \<Rightarrow> {..unat n})"

lemma limit_uses_inject: "limit_uses l = limit_uses k \<longleftrightarrow> l = k"
proof -
  have "UNIV \<noteq> {..n}" "{..n} \<noteq> UNIV" for n :: nat
    using infinite_UNIV_nat by (metis finite_atMost)+
  then show ?thesis
    by (cases "limit_remaining l"; cases "limit_remaining k"; cases l; cases k)
      (auto simp: limit_uses_def word_unat_eq_iff)
qed

lemma limit_is_within_iff: "limit_is_within l k \<longleftrightarrow> limit_uses l \<subseteq> limit_uses k"
proof (cases "(l, k)" rule: limit_is_within.cases)
  case (3 bound)
  have "\<not> UNIV \<subseteq> {..unat bound}"
    using infinite_UNIV_nat finite_subset by (metis finite_atMost)
  with 3 show ?thesis by (simp add: limit_uses_def)
qed (auto simp: limit_uses_def word_le_nat_alt)

lemma limit_intersection_uses: "limit_uses (limit_intersection l k) = limit_uses l \<inter> limit_uses k"
  by (cases "(l, k)" rule: limit_intersection.cases)
    (auto simp: limit_uses_def unlimited_def word_le_nat_alt)

lemma limit_decrement_Ok:
  "limit_decrement l = Ok k \<longleftrightarrow> (case limit_remaining l of None \<Rightarrow> k = l
     | Some n \<Rightarrow> (\<exists>m. limit_remaining k = Some m \<and> unat n = Suc (unat m)))"
proof (cases "limit_remaining l")
  case None
  then show ?thesis by (auto simp: limit_decrement_def)
next
  case (Some n)
  have k: "limit_remaining k = Some m \<longleftrightarrow> k = UseLimit (Some m)" for m
    by (cases k) auto
  show ?thesis
  proof (cases "n = 0")
    case True
    with Some show ?thesis by (simp add: limit_decrement_def)
  next
    case False
    then have pred: "unat (n - 1) = unat n - 1" and "0 < unat n"
      by (rule unat_minus_one) (simp add: False unat_gt_0)
    then have "unat n = Suc (unat m) \<longleftrightarrow> unat m = unat (n - 1)" for m
      by linarith
    then have "unat n = Suc (unat m) \<longleftrightarrow> m = n - 1" for m
      by (simp only: word_unat_eq_iff)
    moreover from False Some have "limit_decrement l = Ok (UseLimit (Some (n - 1)))"
      by (simp add: limit_decrement_def exhausted_def)
    ultimately show ?thesis using Some by (auto simp: k)
  qed
qed

end
