(* ===== verification/Policy_Roles.thy ===== *)
theory Policy_Roles
  imports Policy_Base
begin

text \<open>
  \<open>peritus-policy\<close>, files \<open>role.rs\<close>, \<open>risk.rs\<close>, \<open>operation_risks.rs\<close> (the risk every operation class
  carries), \<open>independence.rs\<close> and the tiers of \<open>rule.rs\<close> and \<open>layer.rs\<close>: the closed enumerations of the
  policy with their canonical ranks, and the sets built from them.
\<close>

section \<open>Roles and operation classes\<close>

datatype actor_role =
    Writer | Fixer | Reviewer | Evaluator | GateRunner | Orchestrator | EvolutionAgent
  | HumanAuthority | DaemonService | ProviderToolWorker | Plugin

fun canonical_rank :: "actor_role \<Rightarrow> u8" where
  "canonical_rank Writer = 0"
| "canonical_rank Fixer = 1"
| "canonical_rank Reviewer = 2"
| "canonical_rank Evaluator = 3"
| "canonical_rank GateRunner = 4"
| "canonical_rank Orchestrator = 5"
| "canonical_rank EvolutionAgent = 6"
| "canonical_rank HumanAuthority = 7"
| "canonical_rank DaemonService = 8"
| "canonical_rank ProviderToolWorker = 9"
| "canonical_rank Plugin = 10"

datatype operation_class =
    Inspection | WorkspaceMutation | Execution | Network | DependencyEnvironment
  | RepositoryHistoryMutation | SecretUse | ExternalSideEffect | Acceptance | Waiver
  | PolicyAmendment | HarnessPromotion | HumanAuthorityDecision | RawEffect

fun permits_operation :: "actor_role \<Rightarrow> operation_class \<Rightarrow> bool" where
  "permits_operation Writer c = (c \<in> {Inspection, WorkspaceMutation, Execution, Network,
     DependencyEnvironment, RepositoryHistoryMutation, SecretUse, ExternalSideEffect})"
| "permits_operation Fixer c = (c \<in> {Inspection, WorkspaceMutation, Execution, Network,
     DependencyEnvironment, RepositoryHistoryMutation, SecretUse, ExternalSideEffect})"
| "permits_operation Reviewer c = (c = Inspection)"
| "permits_operation Plugin c = (c = Inspection)"
| "permits_operation Evaluator c = (c \<in> {Inspection, Execution})"
| "permits_operation GateRunner c = (c \<in> {Inspection, Execution})"
| "permits_operation Orchestrator c = (c \<in> {Inspection, Execution, Acceptance, PolicyAmendment,
     HarnessPromotion})"
| "permits_operation EvolutionAgent c = (c \<in> {Inspection, WorkspaceMutation, Execution, Network,
     DependencyEnvironment})"
| "permits_operation HumanAuthority c = (c \<in> {Inspection, Acceptance, Waiver, PolicyAmendment,
     HarnessPromotion, HumanAuthorityDecision})"
| "permits_operation DaemonService c = (c \<in> {Inspection, Execution, Network, SecretUse,
     ExternalSideEffect, Acceptance, PolicyAmendment, HarnessPromotion})"
| "permits_operation ProviderToolWorker c = (c \<in> {Inspection, WorkspaceMutation, Execution,
     Network, DependencyEnvironment, RepositoryHistoryMutation, SecretUse, ExternalSideEffect,
     RawEffect})"

lemma canonical_rank_inject [simp]: "canonical_rank a = canonical_rank b \<longleftrightarrow> a = b"
  by (cases a; cases b) simp_all

text \<open>\<open>left_rank.cmp(&right_rank)\<close> of the enumerations.\<close>

definition compare_roles :: "actor_role \<Rightarrow> actor_role \<Rightarrow> ordering" where
  "compare_roles a b = compare_keys (canonical_rank a) (canonical_rank b)"

interpretation role_order: canonical_identity compare_roles canonical_rank
  by unfold_locales (simp_all add: compare_roles_def)

section \<open>Risks\<close>

datatype risk_class =
    ReadRisk | ScopedWriteRisk | ExecutionRisk | NetworkRisk | DependencyEnvironmentRisk
  | RepositoryHistoryMutationRisk | SecretUseRisk | ExternalSideEffectRisk | PolicyAuthorityRisk
  | HarnessPromotionRisk

fun risk_rank :: "risk_class \<Rightarrow> u8" where
  "risk_rank ReadRisk = 0"
| "risk_rank ScopedWriteRisk = 1"
| "risk_rank ExecutionRisk = 2"
| "risk_rank NetworkRisk = 3"
| "risk_rank DependencyEnvironmentRisk = 4"
| "risk_rank RepositoryHistoryMutationRisk = 5"
| "risk_rank SecretUseRisk = 6"
| "risk_rank ExternalSideEffectRisk = 7"
| "risk_rank PolicyAuthorityRisk = 8"
| "risk_rank HarnessPromotionRisk = 9"

lemma risk_rank_inject [simp]: "risk_rank a = risk_rank b \<longleftrightarrow> a = b"
  by (cases a; cases b) simp_all

definition compare_risks :: "risk_class \<Rightarrow> risk_class \<Rightarrow> ordering" where
  "compare_risks a b = compare_keys (risk_rank a) (risk_rank b)"

interpretation risk_order: canonical_identity compare_risks risk_rank
  by unfold_locales (simp_all add: compare_risks_def)

datatype risk_set = RiskSet (risk_values: "risk_class list")

definition risk_set_new :: "risk_class list \<Rightarrow> policy_error + risk_set" where
  "risk_set_new values =
    (if values = [] then Err (empty_canonical_collection RiskCollection)
     else (case adjacent_check compare_risks (duplicate_canonical_value RiskCollection)
         (non_canonical_order RiskCollection) values of
       Inl e \<Rightarrow> Err e | Inr _ \<Rightarrow> Ok (RiskSet values)))"

definition risk_set_contains :: "risk_set \<Rightarrow> risk_class \<Rightarrow> bool" where
  "risk_set_contains s r = list_ex (\<lambda>v. risk_rank v = risk_rank r) (risk_values s)"

lemma risk_set_contains_iff [simp]: "risk_set_contains s r \<longleftrightarrow> r \<in> set (risk_values s)"
  by (auto simp: risk_set_contains_def list_ex_iff)

fun mandatory_risk :: "operation_class \<Rightarrow> risk_class" where
  "mandatory_risk Inspection = ReadRisk"
| "mandatory_risk WorkspaceMutation = ScopedWriteRisk"
| "mandatory_risk Execution = ExecutionRisk"
| "mandatory_risk Network = NetworkRisk"
| "mandatory_risk DependencyEnvironment = DependencyEnvironmentRisk"
| "mandatory_risk RepositoryHistoryMutation = RepositoryHistoryMutationRisk"
| "mandatory_risk SecretUse = SecretUseRisk"
| "mandatory_risk ExternalSideEffect = ExternalSideEffectRisk"
| "mandatory_risk RawEffect = ExternalSideEffectRisk"
| "mandatory_risk Acceptance = PolicyAuthorityRisk"
| "mandatory_risk Waiver = PolicyAuthorityRisk"
| "mandatory_risk PolicyAmendment = PolicyAuthorityRisk"
| "mandatory_risk HumanAuthorityDecision = PolicyAuthorityRisk"
| "mandatory_risk HarnessPromotion = HarnessPromotionRisk"

section \<open>Independence requirements\<close>

datatype independence_requirement =
  NotRequester | NotActionActor | NoProducingAttemptParticipation | NoReviewParticipation

fun independence_rank :: "independence_requirement \<Rightarrow> u8" where
  "independence_rank NotRequester = 0"
| "independence_rank NotActionActor = 1"
| "independence_rank NoProducingAttemptParticipation = 2"
| "independence_rank NoReviewParticipation = 3"

lemma independence_rank_inject [simp]: "independence_rank a = independence_rank b \<longleftrightarrow> a = b"
  by (cases a; cases b) simp_all

definition compare_independence :: "independence_requirement \<Rightarrow> independence_requirement \<Rightarrow> ordering" where
  "compare_independence a b = compare_keys (independence_rank a) (independence_rank b)"

interpretation independence_order: canonical_identity compare_independence independence_rank
  by unfold_locales (simp_all add: compare_independence_def)

datatype independence_set = IndependenceSet (independence_values: "independence_requirement list")

definition independence_set_new :: "independence_requirement list \<Rightarrow> policy_error + independence_set" where
  "independence_set_new values =
    (case adjacent_check compare_independence (duplicate_canonical_value IndependenceCollection)
         (non_canonical_order IndependenceCollection) values of
       Inl e \<Rightarrow> Err e | Inr _ \<Rightarrow> Ok (IndependenceSet values))"

definition independence_union :: "independence_set \<Rightarrow> independence_set \<Rightarrow> independence_set" where
  "independence_union a b =
     IndependenceSet (merge_all compare_independence (independence_values a) (independence_values b))"

lemma independence_union_set [simp]:
  "set (independence_values (independence_union a b)) = set (independence_values a) \<union> set (independence_values b)"
  by (simp add: independence_union_def independence_order.merge_all_set)

section \<open>Tiers\<close>

datatype authority_tier = ProjectTier | UserTier | OrganizationTier | SystemTier

fun authority_tier_rank :: "authority_tier \<Rightarrow> u8" where
  "authority_tier_rank ProjectTier = 0"
| "authority_tier_rank UserTier = 1"
| "authority_tier_rank OrganizationTier = 2"
| "authority_tier_rank SystemTier = 3"

definition at_least :: "authority_tier \<Rightarrow> authority_tier \<Rightarrow> bool" where
  "at_least t required \<longleftrightarrow> authority_tier_rank required \<le> authority_tier_rank t"

definition tier_maximum :: "authority_tier \<Rightarrow> authority_tier \<Rightarrow> authority_tier" where
  "tier_maximum a b = (if authority_tier_rank b \<le> authority_tier_rank a then a else b)"

lemma at_least_maximum: "at_least t (tier_maximum a b) \<longleftrightarrow> at_least t a \<and> at_least t b"
  by (auto simp: at_least_def tier_maximum_def)

lemma at_least_refl [simp]: "at_least t t"
  by (simp add: at_least_def)

datatype policy_tier = SystemPolicy | UserPolicy | ProjectPolicy | RunPolicy | SessionPolicy | RoleHarnessPolicy

fun policy_tier_rank :: "policy_tier \<Rightarrow> u8" where
  "policy_tier_rank SystemPolicy = 0"
| "policy_tier_rank UserPolicy = 1"
| "policy_tier_rank ProjectPolicy = 2"
| "policy_tier_rank RunPolicy = 3"
| "policy_tier_rank SessionPolicy = 4"
| "policy_tier_rank RoleHarnessPolicy = 5"

lemma policy_tier_rank_inject [simp]: "policy_tier_rank a = policy_tier_rank b \<longleftrightarrow> a = b"
  by (cases a; cases b) simp_all

end
