(* ===== verification/Policy_Scope.thy ===== *)
theory Policy_Scope
  imports Policy_Roles
begin

text \<open>
  \<open>peritus-policy\<close>, files \<open>scope.rs\<close>, \<open>scope_validation.rs\<close>, \<open>identity.rs\<close>, \<open>capability_scope.rs\<close>,
  \<open>selector*.rs\<close>, \<open>scope_selector*.rs\<close> and \<open>boundary.rs\<close>: permissions in canonical order, complete
  capability scopes, the selectors of rules and grants, and the outer authority boundary.
\<close>

lemma raw_inject [simp]:
  "actor_id_raw a = actor_id_raw a' \<longleftrightarrow> a = a'"
  "environment_id_raw e = environment_id_raw e' \<longleftrightarrow> e = e'"
  "resource_id_raw r = resource_id_raw r' \<longleftrightarrow> r = r'"
  "policy_id_raw p = policy_id_raw p' \<longleftrightarrow> p = p'"
  "workspace_id_raw w = workspace_id_raw w' \<longleftrightarrow> w = w'"
  "acceptance_spec_id_raw s = acceptance_spec_id_raw s' \<longleftrightarrow> s = s'"
  "harness_id_raw h = harness_id_raw h' \<longleftrightarrow> h = h'"
  "provider_profile_id_raw f = provider_profile_id_raw f' \<longleftrightarrow> f = f'"
  by (auto intro: actor_id.expand environment_id.expand resource_id.expand policy_id.expand
      workspace_id.expand acceptance_spec_id.expand harness_id.expand provider_profile_id.expand)

section \<open>Permissions\<close>

record permission =
  permission_resource :: resource_id
  permission_name :: capability_name

definition permission_canonical_cmp :: "permission \<Rightarrow> permission \<Rightarrow> ordering" where
  "permission_canonical_cmp p q =
    (case compare_identifier_bytes (resource_id_raw (permission_resource p)) (resource_id_raw (permission_resource q)) of
       Equal \<Rightarrow> name_canonical_cmp (permission_name p) (permission_name q)
     | Less \<Rightarrow> Less
     | Greater \<Rightarrow> Greater)"

definition permission_key :: "permission \<Rightarrow> u8 list \<times> u8 list" where
  "permission_key p = (as_bytes (resource_id_raw (permission_resource p)), name_bytes (permission_name p))"

lemma permission_key_inject: "permission_key p = permission_key q \<Longrightarrow> p = q"
  by (cases p; cases q) (auto simp: permission_key_def)

interpretation permission_order: canonical_identity permission_canonical_cmp permission_key
proof unfold_locales
  show "permission_canonical_cmp p q = compare_keys (permission_key p) (permission_key q)" for p q
    by (simp add: permission_canonical_cmp_def identifier_order.cmp_key name_order.cmp_key
        permission_key_def case_ordering compare_keys_def)
qed (rule permission_key_inject)

definition canonical_permissions :: "permission list \<Rightarrow> bool" where
  "canonical_permissions ps \<longleftrightarrow> ps \<noteq> [] \<and> ascending permission_key ps"

text \<open>A permission set is nonempty and in canonical order; \<open>permission_set_new\<close> is its constructor.\<close>

typedef permission_set = "{ps. canonical_permissions ps}"
  morphisms permission_list Permission_set
proof
  show "[p] \<in> {ps. canonical_permissions ps}" for p
    by (simp add: canonical_permissions_def)
qed

setup_lifting type_definition_permission_set

definition permission_set_new :: "permission list \<Rightarrow> policy_error + permission_set" where
  "permission_set_new values =
    (if values = [] then Err (empty_canonical_collection PermissionCollection)
     else (case adjacent_check permission_canonical_cmp (duplicate_canonical_value PermissionCollection)
         (non_canonical_order PermissionCollection) values of
       Inl e \<Rightarrow> Err e | Inr _ \<Rightarrow> Ok (Permission_set values)))"

definition permission_set_contains :: "permission_set \<Rightarrow> permission \<Rightarrow> bool" where
  "permission_set_contains s p = search permission_canonical_cmp (permission_list s) p"

definition is_subset_of :: "permission_set \<Rightarrow> permission_set \<Rightarrow> bool" where
  "is_subset_of s other = list_all (permission_set_contains other) (permission_list s)"

definition permissions_of :: "permission_set \<Rightarrow> permission set" where
  "permissions_of s = set (permission_list s)"

lemma permission_list_nonempty [simp]: "permission_list s \<noteq> []"
  using permission_list[of s] by (simp add: canonical_permissions_def)

lemma permission_list_ascending: "ascending permission_key (permission_list s)"
  using permission_list[of s] by (simp add: canonical_permissions_def)

lemma permission_set_new_Ok: "permission_set_new ps = Ok s \<longleftrightarrow> permission_list s = ps"
proof -
  have "permission_set_new ps = Ok s \<longleftrightarrow> canonical_permissions ps \<and> s = Permission_set ps"
    by (auto simp: permission_set_new_def canonical_permissions_def permission_order.checked_Ok)
  then show ?thesis
    using permission_list[of s] by (auto simp: Permission_set_inverse permission_list_inverse)
qed

lemma permission_set_contains_iff [simp]: "permission_set_contains s p \<longleftrightarrow> p \<in> permissions_of s"
  by (simp add: permission_set_contains_def permissions_of_def permission_order.search_mem)

lemma is_subset_of_iff [simp]: "is_subset_of s t \<longleftrightarrow> permissions_of s \<subseteq> permissions_of t"
  by (auto simp: is_subset_of_def list_all_iff permissions_of_def)

section \<open>Canonical lists of actors, roles and environments\<close>

definition validate_actor_values :: "actor_id list \<Rightarrow> policy_error + unit" where
  "validate_actor_values values =
    (if values = [] then Err (empty_canonical_collection ActorCollection)
     else adjacent_check (\<lambda>a b. compare_identifier_bytes (actor_id_raw a) (actor_id_raw b))
       (duplicate_canonical_value ActorCollection) (non_canonical_order ActorCollection) values)"

definition validate_environment_values :: "environment_id list \<Rightarrow> policy_error + unit" where
  "validate_environment_values values =
    (if values = [] then Err (empty_canonical_collection EnvironmentCollection)
     else adjacent_check (\<lambda>a b. compare_identifier_bytes (environment_id_raw a) (environment_id_raw b))
       (duplicate_canonical_value EnvironmentCollection) (non_canonical_order EnvironmentCollection) values)"

definition validate_role_values :: "actor_role list \<Rightarrow> policy_error + unit" where
  "validate_role_values values =
    (if values = [] then Err (empty_canonical_collection RoleCollection)
     else adjacent_check compare_roles
       (duplicate_canonical_value RoleCollection) (non_canonical_order RoleCollection) values)"

interpretation actor_order: canonical_identity
    "\<lambda>a b. compare_identifier_bytes (actor_id_raw a) (actor_id_raw b)" "\<lambda>a. as_bytes (actor_id_raw a)"
  by unfold_locales (auto simp: identifier_order.cmp_key)

interpretation environment_order: canonical_identity
    "\<lambda>a b. compare_identifier_bytes (environment_id_raw a) (environment_id_raw b)"
    "\<lambda>a. as_bytes (environment_id_raw a)"
  by unfold_locales (auto simp: identifier_order.cmp_key)

lemma validate_role_values_Ok: "validate_role_values rs = Ok () \<longleftrightarrow> rs \<noteq> [] \<and> ascending canonical_rank rs"
  by (simp add: validate_role_values_def role_order.check_Ok)

definition actor_values_contain :: "actor_id list \<Rightarrow> actor_id \<Rightarrow> bool" where
  "actor_values_contain values v = list_ex (\<lambda>c. identifier_values_equal (actor_id_raw c) (actor_id_raw v)) values"

definition environment_values_contain :: "environment_id list \<Rightarrow> environment_id \<Rightarrow> bool" where
  "environment_values_contain values v =
     list_ex (\<lambda>c. identifier_values_equal (environment_id_raw c) (environment_id_raw v)) values"

definition role_values_contain :: "actor_role list \<Rightarrow> actor_role \<Rightarrow> bool" where
  "role_values_contain values v = list_ex (\<lambda>c. canonical_rank c = canonical_rank v) values"

lemma values_contain_iff [simp]:
  "actor_values_contain as a \<longleftrightarrow> a \<in> set as"
  "environment_values_contain es e \<longleftrightarrow> e \<in> set es"
  "role_values_contain rs r \<longleftrightarrow> r \<in> set rs"
  by (auto simp: actor_values_contain_def environment_values_contain_def role_values_contain_def
      list_ex_iff)

definition revision_values_equal :: "revision_tuple \<Rightarrow> revision_tuple \<Rightarrow> bool" where
  "revision_values_equal a b \<longleftrightarrow>
     identifier_values_equal (acceptance_spec_id_raw (acceptance_spec_id a)) (acceptance_spec_id_raw (acceptance_spec_id b))
   \<and> identifier_values_equal (harness_id_raw (harness_id a)) (harness_id_raw (harness_id b))
   \<and> identifier_values_equal (workspace_id_raw (workspace_id a)) (workspace_id_raw (workspace_id b))
   \<and> generation_get (workspace_generation a) = generation_get (workspace_generation b)
   \<and> revision_number_get (workspace_revision a) = revision_number_get (workspace_revision b)
   \<and> identifier_values_equal (policy_id_raw (policy_id a)) (policy_id_raw (policy_id b))
   \<and> identifier_values_equal (provider_profile_id_raw (provider_profile_id a)) (provider_profile_id_raw (provider_profile_id b))"

lemma revision_values_equal_iff [simp]: "revision_values_equal a b \<longleftrightarrow> a = b"
  by (cases a; cases b) (auto simp: revision_values_equal_def)

section \<open>Scopes\<close>

record capability_scope =
  scope_actor :: actor_id
  scope_role :: actor_role
  scope_environment :: environment_id
  scope_permissions :: permission_set
  scope_revision :: revision_tuple
  scope_validity :: validity_window
  scope_use_limit :: use_limit

definition scope_policy_id :: "capability_scope \<Rightarrow> policy_id" where
  "scope_policy_id s = policy_id (scope_revision s)"

definition scope_contains_permission :: "capability_scope \<Rightarrow> resource_id \<Rightarrow> capability_name \<Rightarrow> bool" where
  "scope_contains_permission s r n =
     list_ex (\<lambda>p. permission_resource p = r \<and> permission_name p = n) (permission_list (scope_permissions s))"

definition with_constraints :: "capability_scope \<Rightarrow> validity_window \<Rightarrow> use_limit \<Rightarrow> capability_scope" where
  "with_constraints s v l = s\<lparr>scope_validity := v, scope_use_limit := l\<rparr>"

section \<open>Selectors\<close>

datatype 'a selector_values = AnyWithinParent | Exact "'a list"

type_synonym actor_selector = "actor_id selector_values"
type_synonym role_selector = "actor_role selector_values"
type_synonym environment_selector = "environment_id selector_values"

text \<open>A permission selector holds the optional exact set.\<close>

type_synonym permission_selector = "permission_set option"

definition actor_selector_exact :: "actor_id list \<Rightarrow> policy_error + actor_selector" where
  "actor_selector_exact values = (case validate_actor_values values of Inl e \<Rightarrow> Err e | Inr _ \<Rightarrow> Ok (Exact values))"

definition role_selector_exact :: "actor_role list \<Rightarrow> policy_error + role_selector" where
  "role_selector_exact values = (case validate_role_values values of Inl e \<Rightarrow> Err e | Inr _ \<Rightarrow> Ok (Exact values))"

definition environment_selector_exact :: "environment_id list \<Rightarrow> policy_error + environment_selector" where
  "environment_selector_exact values = (case validate_environment_values values of Inl e \<Rightarrow> Err e | Inr _ \<Rightarrow> Ok (Exact values))"

definition actor_selector_contains :: "actor_selector \<Rightarrow> actor_id \<Rightarrow> bool" where
  "actor_selector_contains s v = (case s of AnyWithinParent \<Rightarrow> True | Exact vs \<Rightarrow> actor_values_contain vs v)"

definition role_selector_contains :: "role_selector \<Rightarrow> actor_role \<Rightarrow> bool" where
  "role_selector_contains s v = (case s of AnyWithinParent \<Rightarrow> True | Exact vs \<Rightarrow> role_values_contain vs v)"

definition environment_selector_contains :: "environment_selector \<Rightarrow> environment_id \<Rightarrow> bool" where
  "environment_selector_contains s v = (case s of AnyWithinParent \<Rightarrow> True | Exact vs \<Rightarrow> environment_values_contain vs v)"

definition permission_selector_contains :: "permission_selector \<Rightarrow> permission \<Rightarrow> bool" where
  "permission_selector_contains s p = (case s of None \<Rightarrow> True | Some ps \<Rightarrow> permission_set_contains ps p)"

text \<open>The values a selector selects.\<close>

definition selected :: "'a selector_values \<Rightarrow> 'a set" where
  "selected s = (case s of AnyWithinParent \<Rightarrow> UNIV | Exact vs \<Rightarrow> set vs)"

lemma selector_contains_iff [simp]:
  "actor_selector_contains sa a \<longleftrightarrow> a \<in> selected sa"
  "role_selector_contains sr r \<longleftrightarrow> r \<in> selected sr"
  "environment_selector_contains se e \<longleftrightarrow> e \<in> selected se"
  by (auto simp: actor_selector_contains_def role_selector_contains_def
      environment_selector_contains_def selected_def split: selector_values.splits)

record scope_selector =
  selector_actors :: actor_selector
  selector_roles :: role_selector
  selector_environments :: environment_selector
  selector_permissions :: permission_selector
  selector_revision :: revision_tuple

definition matches_identity :: "scope_selector \<Rightarrow> capability_scope \<Rightarrow> bool" where
  "matches_identity sel s \<longleftrightarrow>
     actor_selector_contains (selector_actors sel) (scope_actor s)
   \<and> role_selector_contains (selector_roles sel) (scope_role s)
   \<and> environment_selector_contains (selector_environments sel) (scope_environment s)
   \<and> revision_values_equal (selector_revision sel) (scope_revision s)"

definition selector_contains_permission :: "scope_selector \<Rightarrow> permission \<Rightarrow> bool" where
  "selector_contains_permission sel p = permission_selector_contains (selector_permissions sel) p"

definition matches_any_permission :: "scope_selector \<Rightarrow> capability_scope \<Rightarrow> bool" where
  "matches_any_permission sel s =
     list_ex (selector_contains_permission sel) (permission_list (scope_permissions s))"

definition selector_rebind_revision :: "scope_selector \<Rightarrow> revision_tuple \<Rightarrow> scope_selector" where
  "selector_rebind_revision sel r = sel\<lparr>selector_revision := r\<rparr>"

section \<open>The authority boundary\<close>

record authority_boundary =
  boundary_actors :: "actor_id list"
  boundary_roles :: "actor_role list"
  boundary_environments :: "environment_id list"
  boundary_permissions :: permission_set
  boundary_revision :: revision_tuple
  boundary_validity :: validity_window
  boundary_use_limit :: use_limit

definition authority_boundary_new ::
  "actor_id list \<Rightarrow> actor_role list \<Rightarrow> environment_id list \<Rightarrow> permission_set \<Rightarrow> revision_tuple
    \<Rightarrow> validity_window \<Rightarrow> use_limit \<Rightarrow> policy_error + authority_boundary" where
  "authority_boundary_new actors roles environments permissions revision validity limit =
    (case validate_actor_values actors of Inl e \<Rightarrow> Err e | Inr _ \<Rightarrow>
    (case validate_role_values roles of Inl e \<Rightarrow> Err e | Inr _ \<Rightarrow>
    (case validate_environment_values environments of Inl e \<Rightarrow> Err e | Inr _ \<Rightarrow>
      Ok \<lparr>boundary_actors = actors, boundary_roles = roles, boundary_environments = environments,
         boundary_permissions = permissions, boundary_revision = revision,
         boundary_validity = validity, boundary_use_limit = limit\<rparr>)))"

definition contains_scope :: "authority_boundary \<Rightarrow> capability_scope \<Rightarrow> bool" where
  "contains_scope b s \<longleftrightarrow>
     actor_values_contain (boundary_actors b) (scope_actor s)
   \<and> role_values_contain (boundary_roles b) (scope_role s)
   \<and> environment_values_contain (boundary_environments b) (scope_environment s)
   \<and> is_subset_of (scope_permissions s) (boundary_permissions b)
   \<and> revision_values_equal (boundary_revision b) (scope_revision s)
   \<and> window_is_within (scope_validity s) (boundary_validity b)
   \<and> limit_is_within (scope_use_limit s) (boundary_use_limit b)"

definition boundary_rebind_revision :: "authority_boundary \<Rightarrow> revision_tuple \<Rightarrow> authority_boundary" where
  "boundary_rebind_revision b r = b\<lparr>boundary_revision := r\<rparr>"

definition actors_outside :: "scope_selector \<Rightarrow> authority_boundary \<Rightarrow> bool" where
  "actors_outside sel b = (case selector_actors sel of AnyWithinParent \<Rightarrow> False
     | Exact vs \<Rightarrow> list_ex (\<lambda>v. \<not> actor_values_contain (boundary_actors b) v) vs)"

definition roles_outside :: "scope_selector \<Rightarrow> authority_boundary \<Rightarrow> bool" where
  "roles_outside sel b = (case selector_roles sel of AnyWithinParent \<Rightarrow> False
     | Exact vs \<Rightarrow> list_ex (\<lambda>v. \<not> role_values_contain (boundary_roles b) v) vs)"

definition environments_outside :: "scope_selector \<Rightarrow> authority_boundary \<Rightarrow> bool" where
  "environments_outside sel b = (case selector_environments sel of AnyWithinParent \<Rightarrow> False
     | Exact vs \<Rightarrow> list_ex (\<lambda>v. \<not> environment_values_contain (boundary_environments b) v) vs)"

definition permissions_outside :: "scope_selector \<Rightarrow> authority_boundary \<Rightarrow> bool" where
  "permissions_outside sel b = (case selector_permissions sel of None \<Rightarrow> False
     | Some ps \<Rightarrow> list_ex (\<lambda>v. \<not> permission_set_contains (boundary_permissions b) v) (permission_list ps))"

definition first_boundary_mismatch :: "scope_selector \<Rightarrow> authority_boundary \<Rightarrow> scope_dimension option" where
  "first_boundary_mismatch sel b =
    (if \<not> revision_values_equal (selector_revision sel) (boundary_revision b) then Some RevisionDimension
     else if actors_outside sel b then Some ActorDimension
     else if roles_outside sel b then Some RoleDimension
     else if environments_outside sel b then Some EnvironmentDimension
     else if permissions_outside sel b then Some PermissionsDimension
     else None)"

end
