(* ===== verification/Policy_Definition.thy ===== *)
theory Policy_Definition
  imports Policy_Scope
begin

text \<open>
  \<open>peritus-policy\<close>, files \<open>operation*.rs\<close>, \<open>rule.rs\<close>, \<open>restriction_rule.rs\<close>, \<open>ceiling*.rs\<close>,
  \<open>layer.rs\<close> and \<open>definition*.rs\<close>: the operation registry, approval requirements, grants and
  restriction rules, and the policy definition made of them with its constructor checks. The
  \<open>duplicate\<close> functions of the source copy a value field by field and have no counterpart.
\<close>

section \<open>Denial reasons\<close>

datatype denial_reason =
    PolicyMismatch | OutsideAuthorityBoundary | UnknownOperation | RoleSeparation
  | IncompleteCeilingCoverage | ImmutableDeny | RestrictionDeny | EmptyConstraintIntersection
  | ApprovalConstraintConflict | NotYetValid | Expired

section \<open>Operations\<close>

record operation_descriptor =
  descriptor_name :: capability_name
  descriptor_class :: operation_class
  descriptor_risks :: risk_set

definition operation_descriptor_new ::
  "capability_name \<Rightarrow> operation_class \<Rightarrow> risk_set \<Rightarrow> policy_error + operation_descriptor" where
  "operation_descriptor_new n c risks =
    (if \<not> risk_set_contains risks (mandatory_risk c) then Err (plain_policy_error InvalidOperationRisk)
     else Ok \<lparr>descriptor_name = n, descriptor_class = c, descriptor_risks = risks\<rparr>)"

datatype operation_registry = OperationRegistry (descriptors: "operation_descriptor list")

definition operation_registry_new :: "operation_descriptor list \<Rightarrow> policy_error + operation_registry" where
  "operation_registry_new ds =
    (case adjacent_check (\<lambda>a b. name_canonical_cmp (descriptor_name a) (descriptor_name b))
        (duplicate_canonical_value OperationCollection) (non_canonical_order OperationCollection) ds of
       Inl e \<Rightarrow> Err e | Inr _ \<Rightarrow> Ok (OperationRegistry ds))"

fun descriptor_denial_from ::
  "operation_descriptor list \<Rightarrow> actor_role \<Rightarrow> permission \<Rightarrow> denial_reason option" where
  "descriptor_denial_from [] role p = Some UnknownOperation"
| "descriptor_denial_from (d # ds) role p =
    (case name_canonical_cmp (descriptor_name d) (permission_name p) of
       Less \<Rightarrow> descriptor_denial_from ds role p
     | Greater \<Rightarrow> Some UnknownOperation
     | Equal \<Rightarrow> if permits_operation role (descriptor_class d) then None else Some RoleSeparation)"

fun operation_denial_from ::
  "permission list \<Rightarrow> operation_descriptor list \<Rightarrow> actor_role \<Rightarrow> denial_reason option" where
  "operation_denial_from [] ds role = None"
| "operation_denial_from (p # ps) ds role =
    (case descriptor_denial_from ds role p of
       Some reason \<Rightarrow> Some reason
     | None \<Rightarrow> operation_denial_from ps ds role)"

definition first_denial :: "operation_registry \<Rightarrow> capability_scope \<Rightarrow> denial_reason option" where
  "first_denial r s = operation_denial_from (permission_list (scope_permissions s)) (descriptors r) (scope_role s)"

fun descriptor_index :: "operation_descriptor list \<Rightarrow> capability_name \<Rightarrow> nat option" where
  "descriptor_index [] n = None"
| "descriptor_index (d # ds) n = (case name_canonical_cmp (descriptor_name d) n of
     Less \<Rightarrow> map_option Suc (descriptor_index ds n)
   | Equal \<Rightarrow> Some 0
   | Greater \<Rightarrow> None)"

definition descriptor_for :: "operation_registry \<Rightarrow> capability_name \<Rightarrow> operation_descriptor option" where
  "descriptor_for r n = map_option ((!) (descriptors r)) (descriptor_index (descriptors r) n)"

definition role_permits :: "operation_registry \<Rightarrow> actor_role \<Rightarrow> capability_name \<Rightarrow> bool" where
  "role_permits r role n = (case descriptor_for r n of
     None \<Rightarrow> False | Some d \<Rightarrow> permits_operation role (descriptor_class d))"

fun descriptor_has_risk :: "operation_descriptor list \<Rightarrow> capability_name \<Rightarrow> risk_class \<Rightarrow> bool" where
  "descriptor_has_risk [] n risk = False"
| "descriptor_has_risk (d # ds) n risk = (case name_canonical_cmp (descriptor_name d) n of
     Less \<Rightarrow> descriptor_has_risk ds n risk
   | Equal \<Rightarrow> risk_set_contains (descriptor_risks d) risk
   | Greater \<Rightarrow> False)"

fun permissions_require_risk :: "permission list \<Rightarrow> operation_descriptor list \<Rightarrow> risk_class \<Rightarrow> bool" where
  "permissions_require_risk [] ds risk = False"
| "permissions_require_risk (p # ps) ds risk =
    (if descriptor_has_risk ds (permission_name p) risk then True
     else permissions_require_risk ps ds risk)"

definition append_required_risk ::
  "permission list \<Rightarrow> operation_descriptor list \<Rightarrow> risk_class \<Rightarrow> risk_class list \<Rightarrow> risk_class list" where
  "append_required_risk ps ds risk values =
    (if permissions_require_risk ps ds risk then values @ [risk] else values)"

definition collect_lower_risks :: "permission list \<Rightarrow> operation_descriptor list \<Rightarrow> risk_class list" where
  "collect_lower_risks ps ds =
    (let values = append_required_risk ps ds ReadRisk [];
         values = append_required_risk ps ds ScopedWriteRisk values;
         values = append_required_risk ps ds ExecutionRisk values;
         values = append_required_risk ps ds NetworkRisk values
     in append_required_risk ps ds DependencyEnvironmentRisk values)"

definition collect_all_risks :: "permission list \<Rightarrow> operation_descriptor list \<Rightarrow> risk_class list" where
  "collect_all_risks ps ds =
    (let values = collect_lower_risks ps ds;
         values = append_required_risk ps ds RepositoryHistoryMutationRisk values;
         values = append_required_risk ps ds SecretUseRisk values;
         values = append_required_risk ps ds ExternalSideEffectRisk values;
         values = append_required_risk ps ds PolicyAuthorityRisk values
     in append_required_risk ps ds HarnessPromotionRisk values)"

text \<open>
  \<open>risks_for_scope\<close> also computes the mandatory risk of the first permission and drops it; on the
  way it indexes the registry, and \<open>None\<close> is the panic of that index on an empty registry.
\<close>

definition admitted_descriptor :: "operation_registry \<Rightarrow> permission \<Rightarrow> operation_descriptor option" where
  "admitted_descriptor r p = (case descriptor_for r (permission_name p) of
     Some d \<Rightarrow> Some d
   | None \<Rightarrow> if descriptors r = [] then None else Some (descriptors r ! 0))"

definition required_risk_for_scope :: "operation_registry \<Rightarrow> capability_scope \<Rightarrow> risk_class option" where
  "required_risk_for_scope r s =
    map_option (\<lambda>d. mandatory_risk (descriptor_class d))
      (admitted_descriptor r (permission_list (scope_permissions s) ! 0))"

definition risks_for_scope :: "operation_registry \<Rightarrow> capability_scope \<Rightarrow> risk_set option" where
  "risks_for_scope r s =
    (let values = collect_all_risks (permission_list (scope_permissions s)) (descriptors r)
     in case required_risk_for_scope r s of
       None \<Rightarrow> None
     | Some required_risk \<Rightarrow> Some (RiskSet values))"

section \<open>Approval requirements\<close>

record approval_requirement =
  minimum_tier :: authority_tier
  approver_roles :: "actor_role list"
  approval_independence :: independence_set
  approval_validity :: validity_window

definition approval_requirement_new ::
  "authority_tier \<Rightarrow> actor_role list \<Rightarrow> independence_set \<Rightarrow> validity_window \<Rightarrow> policy_error + approval_requirement" where
  "approval_requirement_new tier roles independence validity =
    (case validate_role_values roles of Inl e \<Rightarrow> Err e
     | Inr _ \<Rightarrow> Ok \<lparr>minimum_tier = tier, approver_roles = roles, approval_independence = independence,
         approval_validity = validity\<rparr>)"

definition requirement_conjunction ::
  "approval_requirement \<Rightarrow> approval_requirement \<Rightarrow> policy_error + approval_requirement option" where
  "requirement_conjunction a b =
    (let roles = merge_common compare_roles (approver_roles a) (approver_roles b) in
     if roles = [] then Ok None
     else (case window_intersection (approval_validity a) (approval_validity b) of
       Inl e \<Rightarrow> if policy_error_kind e = InvalidValidityWindow \<or> policy_error_kind e = PolicyClockEpochMismatch
         then Ok None else Err e
     | Inr validity \<Rightarrow> Ok (Some \<lparr>minimum_tier = tier_maximum (minimum_tier a) (minimum_tier b),
         approver_roles = roles,
         approval_independence = independence_union (approval_independence a) (approval_independence b),
         approval_validity = validity\<rparr>)))"

definition constrain_validity ::
  "approval_requirement \<Rightarrow> validity_window \<Rightarrow> policy_error + approval_requirement option" where
  "constrain_validity a w = (case window_intersection (approval_validity a) w of
     Inl e \<Rightarrow> if policy_error_kind e = InvalidValidityWindow \<or> policy_error_kind e = PolicyClockEpochMismatch
       then Ok None else Err e
   | Inr validity \<Rightarrow> Ok (Some (a\<lparr>approval_validity := validity\<rparr>)))"

section \<open>Rules, grants and layers\<close>

datatype restriction_rule_kind = Deny | RequireApproval approval_requirement

record restriction_rule =
  rule_digest :: sha256_digest
  rule_selector :: scope_selector
  rule_kind :: restriction_rule_kind

definition is_deny :: "restriction_rule \<Rightarrow> bool" where
  "is_deny r \<longleftrightarrow> rule_kind r = Deny"

definition rule_approval_requirement :: "restriction_rule \<Rightarrow> approval_requirement option" where
  "rule_approval_requirement r = (case rule_kind r of Deny \<Rightarrow> None | RequireApproval q \<Rightarrow> Some q)"

definition rule_canonical_cmp :: "restriction_rule \<Rightarrow> restriction_rule \<Rightarrow> ordering" where
  "rule_canonical_cmp a b = compare_digest (rule_digest a) (rule_digest b)"

interpretation rule_order: canonical_order rule_canonical_cmp "\<lambda>r. digest_bytes (rule_digest r)"
  by unfold_locales (simp add: rule_canonical_cmp_def digest_order.cmp_key)

definition rule_matches_scope :: "restriction_rule \<Rightarrow> capability_scope \<Rightarrow> bool" where
  "rule_matches_scope r s \<longleftrightarrow> matches_identity (rule_selector r) s \<and> matches_any_permission (rule_selector r) s"

definition matching_approval_requirement ::
  "restriction_rule \<Rightarrow> capability_scope \<Rightarrow> approval_requirement option" where
  "matching_approval_requirement r s = (if rule_matches_scope r s then rule_approval_requirement r else None)"

definition rule_rebind_revision :: "restriction_rule \<Rightarrow> revision_tuple \<Rightarrow> restriction_rule" where
  "rule_rebind_revision r rv = r\<lparr>rule_selector := selector_rebind_revision (rule_selector r) rv\<rparr>"

record ceiling_grant =
  grant_digest :: sha256_digest
  grant_selector :: scope_selector
  grant_validity :: validity_window
  grant_use_limit :: use_limit

definition grant_matches_scope :: "ceiling_grant \<Rightarrow> capability_scope \<Rightarrow> bool" where
  "grant_matches_scope g s \<longleftrightarrow> matches_identity (grant_selector g) s \<and> matches_any_permission (grant_selector g) s"

definition grant_rebind_revision :: "ceiling_grant \<Rightarrow> revision_tuple \<Rightarrow> ceiling_grant" where
  "grant_rebind_revision g rv = g\<lparr>grant_selector := selector_rebind_revision (grant_selector g) rv\<rparr>"

record authority_ceiling =
  ceiling_boundary :: authority_boundary
  ceiling_grants :: "ceiling_grant list"
  immutable_denies :: "restriction_rule list"

text \<open>
  The two checking loops of the constructor: each element against the boundary, and against its
  predecessor.
\<close>

fun check_grants :: "authority_boundary \<Rightarrow> ceiling_grant option \<Rightarrow> ceiling_grant list \<Rightarrow> policy_error + unit" where
  "check_grants b prev [] = Ok ()"
| "check_grants b prev (g # gs) =
    (case first_boundary_mismatch (grant_selector g) b of
       Some d \<Rightarrow> Err (selector_outside_boundary d)
     | None \<Rightarrow> (case (case prev of None \<Rightarrow> Less | Some p \<Rightarrow> compare_digest (grant_digest p) (grant_digest g)) of
         Less \<Rightarrow> check_grants b (Some g) gs
       | Equal \<Rightarrow> Err (duplicate_canonical_value GrantCollection)
       | Greater \<Rightarrow> Err (non_canonical_order GrantCollection)))"

fun check_immutable_denies ::
  "authority_boundary \<Rightarrow> restriction_rule option \<Rightarrow> restriction_rule list \<Rightarrow> policy_error + unit" where
  "check_immutable_denies b prev [] = Ok ()"
| "check_immutable_denies b prev (r # rs) =
    (if \<not> is_deny r then Err (plain_policy_error InvalidRuleKind)
     else (case first_boundary_mismatch (rule_selector r) b of
       Some d \<Rightarrow> Err (selector_outside_boundary d)
     | None \<Rightarrow> (case (case prev of None \<Rightarrow> Less | Some p \<Rightarrow> rule_canonical_cmp p r) of
         Less \<Rightarrow> check_immutable_denies b (Some r) rs
       | Equal \<Rightarrow> Err (duplicate_canonical_value RestrictionRuleCollection)
       | Greater \<Rightarrow> Err (non_canonical_order RestrictionRuleCollection))))"

definition authority_ceiling_new ::
  "authority_boundary \<Rightarrow> ceiling_grant list \<Rightarrow> restriction_rule list \<Rightarrow> policy_error + authority_ceiling" where
  "authority_ceiling_new b gs ds =
    (case check_grants b None gs of Inl e \<Rightarrow> Err e | Inr _ \<Rightarrow>
    (case check_immutable_denies b None ds of Inl e \<Rightarrow> Err e | Inr _ \<Rightarrow>
      Ok \<lparr>ceiling_boundary = b, ceiling_grants = gs, immutable_denies = ds\<rparr>))"

definition ceiling_rebind_revision :: "authority_ceiling \<Rightarrow> revision_tuple \<Rightarrow> authority_ceiling" where
  "ceiling_rebind_revision c rv =
    \<lparr>ceiling_boundary = boundary_rebind_revision (ceiling_boundary c) rv,
     ceiling_grants = map (\<lambda>g. grant_rebind_revision g rv) (ceiling_grants c),
     immutable_denies = map (\<lambda>r. rule_rebind_revision r rv) (immutable_denies c)\<rparr>"

record restriction_layer =
  layer_tier :: policy_tier
  layer_rules :: "restriction_rule list"

definition restriction_layer_new :: "policy_tier \<Rightarrow> restriction_rule list \<Rightarrow> policy_error + restriction_layer" where
  "restriction_layer_new tier rules =
    (case adjacent_check rule_canonical_cmp (duplicate_canonical_value RestrictionRuleCollection)
        (non_canonical_order RestrictionRuleCollection) rules of
       Inl e \<Rightarrow> Err e | Inr _ \<Rightarrow> Ok \<lparr>layer_tier = tier, layer_rules = rules\<rparr>)"

definition layer_rebind_revision :: "restriction_layer \<Rightarrow> revision_tuple \<Rightarrow> restriction_layer" where
  "layer_rebind_revision l rv = l\<lparr>layer_rules := map (\<lambda>r. rule_rebind_revision r rv) (layer_rules l)\<rparr>"

section \<open>Policy definitions\<close>

record policy_definition =
  definition_policy_id :: policy_id
  policy_ceiling :: authority_ceiling
  operations :: operation_registry
  layers :: "restriction_layer list"

definition validate_rule_boundaries :: "restriction_rule list \<Rightarrow> authority_boundary \<Rightarrow> policy_error + unit" where
  "validate_rule_boundaries rules b =
    for_list (\<lambda>r. case first_boundary_mismatch (rule_selector r) b of
       Some d \<Rightarrow> Err (selector_outside_boundary d) | None \<Rightarrow> Ok ()) rules"

definition validate_layer_boundaries :: "restriction_layer list \<Rightarrow> authority_boundary \<Rightarrow> policy_error + unit" where
  "validate_layer_boundaries ls b = for_list (\<lambda>l. validate_rule_boundaries (layer_rules l) b) ls"

fun check_tiers :: "restriction_layer list \<Rightarrow> policy_error + unit" where
  "check_tiers (a # b # ls) =
    (if policy_tier_rank (layer_tier b) \<le> policy_tier_rank (layer_tier a)
     then Err (plain_policy_error InvalidPolicyTier) else check_tiers (b # ls))"
| "check_tiers _ = Ok ()"

definition policy_definition_new ::
  "policy_id \<Rightarrow> authority_ceiling \<Rightarrow> operation_registry \<Rightarrow> restriction_layer list \<Rightarrow> policy_error + policy_definition" where
  "policy_definition_new pid c ops ls =
    (if \<not> identifier_values_equal (policy_id_raw (policy_id (boundary_revision (ceiling_boundary c)))) (policy_id_raw pid)
     then Err (plain_policy_error PolicyRevisionMismatch)
     else (case check_tiers ls of Inl e \<Rightarrow> Err e | Inr _ \<Rightarrow>
       (case validate_layer_boundaries ls (ceiling_boundary c) of Inl e \<Rightarrow> Err e | Inr _ \<Rightarrow>
         Ok \<lparr>definition_policy_id = pid, policy_ceiling = c, operations = ops, layers = ls\<rparr>)))"

end
