(* ===== verification/Policy_Evaluation.thy ===== *)
theory Policy_Evaluation
  imports Policy_Definition
begin

text \<open>
  \<open>peritus-policy\<close>, files \<open>evaluation*.rs\<close>, \<open>decision*.rs\<close>, \<open>denial.rs\<close> and \<open>escalation.rs\<close>: the
  evaluation of an authorization request. \<open>evaluate\<close> returns \<open>None\<close> where the source would panic.
\<close>

section \<open>Decisions\<close>

record issuance_plan =
  plan_scope :: capability_scope
  plan_evaluated_at :: authority_instant
  plan_time_state :: authority_time_state

record escalation_challenge =
  challenge_scope :: capability_scope
  challenge_requirement :: approval_requirement
  challenge_risks :: risk_set
  challenge_evaluated_at :: authority_instant
  challenge_time_state :: authority_time_state

record authorization_denial =
  denial_reason :: denial_reason
  denial_scope :: capability_scope
  denial_evaluated_at :: authority_instant
  denial_time_state :: authority_time_state

datatype policy_decision =
    Authorized issuance_plan
  | ApprovalRequired escalation_challenge
  | Denied authorization_denial

datatype policy_decision_kind = AuthorizedKind | ApprovalRequiredKind | DeniedKind

fun decision_kind :: "policy_decision \<Rightarrow> policy_decision_kind" where
  "decision_kind (Authorized _) = AuthorizedKind"
| "decision_kind (ApprovalRequired _) = ApprovalRequiredKind"
| "decision_kind (Denied _) = DeniedKind"

fun decision_time_state :: "policy_decision \<Rightarrow> authority_time_state" where
  "decision_time_state (Authorized p) = plan_time_state p"
| "decision_time_state (ApprovalRequired c) = challenge_time_state c"
| "decision_time_state (Denied d) = denial_time_state d"

section \<open>Predicates\<close>

definition grant_covers_permission ::
  "ceiling_grant list \<Rightarrow> capability_scope \<Rightarrow> permission \<Rightarrow> bool" where
  "grant_covers_permission gs s p = list_ex (\<lambda>g. matches_identity (grant_selector g) s
     \<and> selector_contains_permission (grant_selector g) p) gs"

definition ceiling_has_full_coverage :: "authority_ceiling \<Rightarrow> capability_scope \<Rightarrow> bool" where
  "ceiling_has_full_coverage c s =
     list_all (grant_covers_permission (ceiling_grants c) s) (permission_list (scope_permissions s))"

definition deny_rule_matches :: "restriction_rule list \<Rightarrow> capability_scope \<Rightarrow> bool" where
  "deny_rule_matches rules s = list_ex (\<lambda>r. is_deny r \<and> rule_matches_scope r s) rules"

definition has_immutable_deny :: "policy_definition \<Rightarrow> capability_scope \<Rightarrow> bool" where
  "has_immutable_deny p s = deny_rule_matches (immutable_denies (policy_ceiling p)) s"

definition has_restriction_deny :: "policy_definition \<Rightarrow> capability_scope \<Rightarrow> bool" where
  "has_restriction_deny p s = list_ex (\<lambda>l. deny_rule_matches (layer_rules l) s) (layers p)"

definition matches_policy_id :: "policy_definition \<Rightarrow> capability_scope \<Rightarrow> bool" where
  "matches_policy_id p s =
     identifier_values_equal (policy_id_raw (definition_policy_id p)) (policy_id_raw (scope_policy_id s))"

definition preconstraint_denial :: "policy_definition \<Rightarrow> capability_scope \<Rightarrow> denial_reason option" where
  "preconstraint_denial p s =
    (if \<not> matches_policy_id p s then Some PolicyMismatch
     else if \<not> contains_scope (ceiling_boundary (policy_ceiling p)) s then Some OutsideAuthorityBoundary
     else (case first_denial (operations p) s of
       Some reason \<Rightarrow> Some reason
     | None \<Rightarrow>
        if has_immutable_deny p s then Some ImmutableDeny
        else if has_restriction_deny p s then Some RestrictionDeny
        else if \<not> ceiling_has_full_coverage (policy_ceiling p) s then Some IncompleteCeilingCoverage
        else None))"

section \<open>Constraints\<close>

record effective_constraints =
  effective_validity :: validity_window
  effective_use_limit :: use_limit

datatype constraint_result = ConstraintsAccepted effective_constraints | ConstraintsDenied denial_reason

definition intersect_window :: "validity_window \<Rightarrow> validity_window \<Rightarrow> validity_window option" where
  "intersect_window a b = (case window_intersection a b of Inr w \<Rightarrow> Some w | Inl _ \<Rightarrow> None)"

definition initial_constraints :: "policy_definition \<Rightarrow> capability_scope \<Rightarrow> constraint_result" where
  "initial_constraints p s =
    (let b = ceiling_boundary (policy_ceiling p);
         limit = limit_intersection (scope_use_limit s) (boundary_use_limit b)
     in case intersect_window (scope_validity s) (boundary_validity b) of
       None \<Rightarrow> ConstraintsDenied EmptyConstraintIntersection
     | Some w \<Rightarrow> ConstraintsAccepted \<lparr>effective_validity = w, effective_use_limit = limit\<rparr>)"

fun fold_grants :: "capability_scope \<Rightarrow> effective_constraints \<Rightarrow> ceiling_grant list \<Rightarrow> constraint_result" where
  "fold_grants s acc [] = ConstraintsAccepted acc"
| "fold_grants s acc (g # gs) =
    (if grant_matches_scope g s then
       (case intersect_window (effective_validity acc) (grant_validity g) of
          None \<Rightarrow> ConstraintsDenied EmptyConstraintIntersection
        | Some w \<Rightarrow> fold_grants s \<lparr>effective_validity = w,
            effective_use_limit = limit_intersection (effective_use_limit acc) (grant_use_limit g)\<rparr> gs)
     else fold_grants s acc gs)"

definition grant_constraints :: "policy_definition \<Rightarrow> capability_scope \<Rightarrow> constraint_result" where
  "grant_constraints p s = (case initial_constraints p s of
     ConstraintsDenied reason \<Rightarrow> ConstraintsDenied reason
   | ConstraintsAccepted initial \<Rightarrow> fold_grants s initial (ceiling_grants (policy_ceiling p)))"

section \<open>Approval\<close>

datatype restriction_result = RestrictionAccepted "approval_requirement option" | RestrictionDenied denial_reason

datatype accumulation_result = Accumulated "approval_requirement option" | Conflict

definition accumulate_requirement ::
  "approval_requirement option \<Rightarrow> approval_requirement \<Rightarrow> policy_error + accumulation_result" where
  "accumulate_requirement approval q = (case approval of
     None \<Rightarrow> Ok (Accumulated (Some q))
   | Some a \<Rightarrow> (case requirement_conjunction a q of
       Inl e \<Rightarrow> Err e
     | Inr None \<Rightarrow> Ok Conflict
     | Inr (Some v) \<Rightarrow> Ok (Accumulated (Some v))))"

fun conjoin_rules ::
  "capability_scope \<Rightarrow> approval_requirement option \<Rightarrow> restriction_rule list \<Rightarrow> policy_error + restriction_result" where
  "conjoin_rules s approval [] = Ok (RestrictionAccepted approval)"
| "conjoin_rules s approval (r # rs) =
    (case matching_approval_requirement r s of
       None \<Rightarrow> conjoin_rules s approval rs
     | Some q \<Rightarrow> (case accumulate_requirement approval q of
         Inl e \<Rightarrow> Err e
       | Inr Conflict \<Rightarrow> Ok (RestrictionDenied ApprovalConstraintConflict)
       | Inr (Accumulated a) \<Rightarrow> conjoin_rules s a rs))"

fun conjoin_layers ::
  "capability_scope \<Rightarrow> approval_requirement option \<Rightarrow> restriction_layer list \<Rightarrow> policy_error + restriction_result" where
  "conjoin_layers s approval [] = Ok (RestrictionAccepted approval)"
| "conjoin_layers s approval (l # ls) =
    (case conjoin_rules s approval (layer_rules l) of
       Inl e \<Rightarrow> Err e
     | Inr (RestrictionDenied reason) \<Rightarrow> Ok (RestrictionDenied reason)
     | Inr (RestrictionAccepted a) \<Rightarrow> conjoin_layers s a ls)"

definition approval_conjunction :: "policy_definition \<Rightarrow> capability_scope \<Rightarrow> policy_error + restriction_result" where
  "approval_conjunction p s = conjoin_layers s None (layers p)"

section \<open>Evaluation\<close>

datatype validity_result = ValidityAccepted | ValidityDenied denial_reason | ValidityFailed policy_error

definition validity_denial :: "validity_window \<Rightarrow> authority_instant \<Rightarrow> validity_result" where
  "validity_denial w t = (case window_contains w t of
     Inl e \<Rightarrow> ValidityFailed e
   | Inr inside \<Rightarrow>
      if inside then ValidityAccepted
      else if tick_millis t < tick_millis (not_before w) then ValidityDenied NotYetValid
      else ValidityDenied Expired)"

definition exact_requested_denial ::
  "capability_scope \<Rightarrow> authority_time_state \<Rightarrow> authority_instant \<Rightarrow> denial_reason
    \<Rightarrow> authority_time_failure + policy_decision" where
  "exact_requested_denial s time t reason = (case time_observe time t of
     Inl e \<Rightarrow> Err e
   | Inr next \<Rightarrow> Ok (Denied \<lparr>denial_reason = reason, denial_scope = s, denial_evaluated_at = t,
       denial_time_state = next\<rparr>))"

definition finalize_required_approval ::
  "policy_definition \<Rightarrow> capability_scope \<Rightarrow> effective_constraints \<Rightarrow> approval_requirement
    \<Rightarrow> authority_time_state \<Rightarrow> authority_instant \<Rightarrow> (authority_time_failure + policy_decision) option" where
  "finalize_required_approval p s cs q time t =
    (let effective = with_constraints s (effective_validity cs) (effective_use_limit cs) in
     case constrain_validity q (scope_validity effective) of
       Inl e \<Rightarrow> Some (Err \<lparr>time_failure_error = e, time_failure_state = time\<rparr>)
     | Inr constrained \<Rightarrow> (case time_observe time t of
         Inl e \<Rightarrow> Some (Err e)
       | Inr next \<Rightarrow> (case constrained of
           None \<Rightarrow> Some (Ok (Denied \<lparr>denial_reason = ApprovalConstraintConflict,
             denial_scope = effective, denial_evaluated_at = t, denial_time_state = next\<rparr>))
         | Some requirement \<Rightarrow> (case risks_for_scope (operations p) effective of
             None \<Rightarrow> None
           | Some risks \<Rightarrow> Some (Ok (ApprovalRequired \<lparr>challenge_scope = effective,
               challenge_requirement = requirement, challenge_risks = risks,
               challenge_evaluated_at = t, challenge_time_state = next\<rparr>))))))"

definition finalize_decision ::
  "policy_definition \<Rightarrow> capability_scope \<Rightarrow> effective_constraints \<Rightarrow> approval_requirement option
    \<Rightarrow> authority_time_state \<Rightarrow> authority_instant \<Rightarrow> (authority_time_failure + policy_decision) option" where
  "finalize_decision p s cs approval time t = (case approval of
     None \<Rightarrow> (case time_observe time t of
       Inl e \<Rightarrow> Some (Err e)
     | Inr next \<Rightarrow> Some (Ok (Authorized
         \<lparr>plan_scope = with_constraints s (effective_validity cs) (effective_use_limit cs),
          plan_evaluated_at = t, plan_time_state = next\<rparr>)))
   | Some requirement \<Rightarrow> finalize_required_approval p s cs requirement time t)"

definition evaluate_with_constraints ::
  "policy_definition \<Rightarrow> capability_scope \<Rightarrow> authority_time_state \<Rightarrow> authority_instant
    \<Rightarrow> effective_constraints \<Rightarrow> (authority_time_failure + policy_decision) option" where
  "evaluate_with_constraints p s time t cs =
    (case approval_conjunction p s of
       Inl e \<Rightarrow> Some (Err \<lparr>time_failure_error = e, time_failure_state = time\<rparr>)
     | Inr (RestrictionDenied reason) \<Rightarrow> Some (exact_requested_denial s time t reason)
     | Inr (RestrictionAccepted approval) \<Rightarrow>
        (case validity_denial (effective_validity cs) t of
           ValidityFailed e \<Rightarrow> Some (Err \<lparr>time_failure_error = e, time_failure_state = time\<rparr>)
         | ValidityDenied reason \<Rightarrow> Some (exact_requested_denial s time t reason)
         | ValidityAccepted \<Rightarrow> finalize_decision p s cs approval time t))"

definition evaluate ::
  "policy_definition \<Rightarrow> capability_scope \<Rightarrow> authority_time_state \<Rightarrow> authority_instant
    \<Rightarrow> (authority_time_failure + policy_decision) option" where
  "evaluate p s time t =
    (case validate_observation time t of
       Inl e \<Rightarrow> Some (Err \<lparr>time_failure_error = e, time_failure_state = time\<rparr>)
     | Inr _ \<Rightarrow> (case preconstraint_denial p s of
         Some reason \<Rightarrow> Some (exact_requested_denial s time t reason)
       | None \<Rightarrow> (case grant_constraints p s of
           ConstraintsDenied reason \<Rightarrow> Some (exact_requested_denial s time t reason)
         | ConstraintsAccepted cs \<Rightarrow> evaluate_with_constraints p s time t cs)))"

end
