(* ===== verification/Policy_Spec.thy ===== *)
theory Policy_Spec
  imports Policy_Evaluation
begin

text \<open>
  What a policy definition means, without the order in which the code checks it: which requests the
  policy admits, the instants and the uses left after every constraint, and which approvers can
  give a required approval. The loops of the evaluation are then shown to compute these sets.
\<close>

section \<open>Meaning\<close>

definition covers :: "scope_selector \<Rightarrow> capability_scope \<Rightarrow> bool" where
  "covers sel s \<longleftrightarrow> matches_identity sel s \<and> (\<exists>q\<in>permissions_of (scope_permissions s). selector_contains_permission sel q)"

definition permitted_operation :: "policy_definition \<Rightarrow> actor_role \<Rightarrow> permission \<Rightarrow> bool" where
  "permitted_operation p role q \<longleftrightarrow> (\<exists>d\<in>set (descriptors (operations p)).
     descriptor_name d = permission_name q \<and> permits_operation role (descriptor_class d))"

definition policy_rules :: "policy_definition \<Rightarrow> restriction_rule set" where
  "policy_rules p = set (immutable_denies (policy_ceiling p)) \<union> (\<Union>l\<in>set (layers p). set (layer_rules l))"

definition admissible :: "policy_definition \<Rightarrow> capability_scope \<Rightarrow> bool" where
  "admissible p s \<longleftrightarrow>
     scope_policy_id s = definition_policy_id p
   \<and> contains_scope (ceiling_boundary (policy_ceiling p)) s
   \<and> (\<forall>q\<in>permissions_of (scope_permissions s). permitted_operation p (scope_role s) q)
   \<and> (\<forall>r\<in>policy_rules p. is_deny r \<longrightarrow> \<not> covers (rule_selector r) s)
   \<and> (\<forall>q\<in>permissions_of (scope_permissions s). \<exists>g\<in>set (ceiling_grants (policy_ceiling p)).
        matches_identity (grant_selector g) s \<and> selector_contains_permission (grant_selector g) q)"

definition applicable_grants :: "policy_definition \<Rightarrow> capability_scope \<Rightarrow> ceiling_grant set" where
  "applicable_grants p s = {g \<in> set (ceiling_grants (policy_ceiling p)). covers (grant_selector g) s}"

definition effective_instants :: "policy_definition \<Rightarrow> capability_scope \<Rightarrow> authority_instant set" where
  "effective_instants p s = window_set (scope_validity s)
     \<inter> window_set (boundary_validity (ceiling_boundary (policy_ceiling p)))
     \<inter> (\<Inter>g\<in>applicable_grants p s. window_set (grant_validity g))"

definition effective_uses :: "policy_definition \<Rightarrow> capability_scope \<Rightarrow> nat set" where
  "effective_uses p s = limit_uses (scope_use_limit s)
     \<inter> limit_uses (boundary_use_limit (ceiling_boundary (policy_ceiling p)))
     \<inter> (\<Inter>g\<in>applicable_grants p s. limit_uses (grant_use_limit g))"

text \<open>An approver: tier, role, the independence conditions it meets, and when it approves.\<close>

record approver =
  approver_tier :: authority_tier
  approver_role :: actor_role
  approver_independence :: "independence_requirement set"
  approves_at :: authority_instant

definition may_approve :: "approval_requirement \<Rightarrow> approver \<Rightarrow> bool" where
  "may_approve q a \<longleftrightarrow> at_least (approver_tier a) (minimum_tier q)
     \<and> approver_role a \<in> set (approver_roles q)
     \<and> set (independence_values (approval_independence q)) \<subseteq> approver_independence a
     \<and> approves_at a \<in> window_set (approval_validity q)"

definition applicable_requirements :: "policy_definition \<Rightarrow> capability_scope \<Rightarrow> approval_requirement set" where
  "applicable_requirements p s = {q. \<exists>r\<in>policy_rules p. rule_kind r = RequireApproval q
     \<and> covers (rule_selector r) s}"

text \<open>
  Well-formed policies, which the constructors return: the registry is in canonical order with the
  mandatory risks, immutable denies deny, and approver roles are in canonical order.
\<close>

definition requirement_ok :: "approval_requirement \<Rightarrow> bool" where
  "requirement_ok q \<longleftrightarrow> approver_roles q \<noteq> [] \<and> ascending canonical_rank (approver_roles q)"

definition registry_ok :: "operation_registry \<Rightarrow> bool" where
  "registry_ok r \<longleftrightarrow> ascending (\<lambda>d. name_bytes (descriptor_name d)) (descriptors r)"

definition policy_ok :: "policy_definition \<Rightarrow> bool" where
  "policy_ok p \<longleftrightarrow> registry_ok (operations p)
     \<and> (\<forall>r\<in>set (immutable_denies (policy_ceiling p)). is_deny r)
     \<and> (\<forall>l\<in>set (layers p). \<forall>r\<in>set (layer_rules l). \<forall>q. rule_kind r = RequireApproval q \<longrightarrow> requirement_ok q)"

section \<open>Registered operations\<close>

lemma descriptor_denial_iff:
  assumes "ascending (\<lambda>d. name_bytes (descriptor_name d)) ds"
  shows "descriptor_denial_from ds role q =
    (if \<exists>d\<in>set ds. descriptor_name d = permission_name q
     then (if \<exists>d\<in>set ds. descriptor_name d = permission_name q \<and> permits_operation role (descriptor_class d)
           then None else Some RoleSeparation)
     else Some UnknownOperation)"
  using assms
proof (induction ds)
  case (Cons d ds)
  have later: "\<forall>e\<in>set ds. name_bytes (descriptor_name d) < name_bytes (descriptor_name e)"
    using Cons.prems by (simp add: ascending_Cons)
  consider "name_bytes (descriptor_name d) < name_bytes (permission_name q)"
    | "descriptor_name d = permission_name q" | "name_bytes (permission_name q) < name_bytes (descriptor_name d)"
    by (metis linorder_cases name_bytes_inject)
  then show ?case
  proof cases
    case 1
    then have "descriptor_name d \<noteq> permission_name q" by auto
    with 1 Cons show ?thesis by (simp add: name_order.cmp_key case_ordering ascending_Cons)
  next
    case 2
    with later have "\<forall>e\<in>set ds. descriptor_name e \<noteq> permission_name q" by auto
    with 2 show ?thesis by (auto simp: name_order.cmp_key case_ordering)
  next
    case 3
    with later have "\<forall>e\<in>set (d # ds). descriptor_name e \<noteq> permission_name q" by auto
    with 3 show ?thesis by (auto simp: name_order.cmp_key case_ordering)
  qed
qed simp

lemma descriptor_index_Some:
  assumes "ascending (\<lambda>d. name_bytes (descriptor_name d)) ds" and "d \<in> set ds"
  shows "\<exists>i. descriptor_index ds (descriptor_name d) = Some i \<and> i < length ds \<and> ds ! i = d"
  using assms
proof (induction ds)
  case (Cons e ds)
  show ?case
  proof (cases "d = e")
    case False
    with Cons obtain i where "descriptor_index ds (descriptor_name d) = Some i" "i < length ds" "ds ! i = d"
      by (auto simp: ascending_Cons)
    moreover from False Cons.prems have "name_bytes (descriptor_name e) < name_bytes (descriptor_name d)"
      by (auto simp: ascending_Cons)
    ultimately show ?thesis by (auto simp: name_order.cmp_key case_ordering)
  qed (simp add: name_order.cmp_key case_ordering)
qed simp

lemma descriptor_has_risk_iff:
  assumes "ascending (\<lambda>d. name_bytes (descriptor_name d)) ds"
  shows "descriptor_has_risk ds n risk \<longleftrightarrow>
    (\<exists>d\<in>set ds. descriptor_name d = n \<and> risk \<in> set (risk_values (descriptor_risks d)))"
  using assms
proof (induction ds)
  case (Cons d ds)
  have later: "\<forall>e\<in>set ds. name_bytes (descriptor_name d) < name_bytes (descriptor_name e)"
    using Cons.prems by (simp add: ascending_Cons)
  with Cons show ?case
    by (auto simp: name_order.cmp_key case_ordering ascending_Cons)
qed simp

lemma operation_denial_None:
  "operation_denial_from ps ds role = None \<longleftrightarrow> (\<forall>q\<in>set ps. descriptor_denial_from ds role q = None)"
  by (induction ps) (auto split: option.splits)

lemma first_denial_None:
  assumes "registry_ok (operations p)"
  shows "first_denial (operations p) s = None \<longleftrightarrow>
    (\<forall>q\<in>permissions_of (scope_permissions s). permitted_operation p (scope_role s) q)"
  using assms
  by (auto simp: first_denial_def operation_denial_None registry_ok_def descriptor_denial_iff
      permissions_of_def permitted_operation_def)

lemma permissions_require_risk_iff:
  "permissions_require_risk ps ds risk \<longleftrightarrow> (\<exists>q\<in>set ps. descriptor_has_risk ds (permission_name q) risk)"
  by (induction ps) auto

lemma append_required_risk_mem [simp]:
  "risk \<in> set (append_required_risk ps ds r vs) \<longleftrightarrow> risk \<in> set vs \<or> (risk = r \<and> permissions_require_risk ps ds r)"
  by (auto simp: append_required_risk_def)

lemma collect_all_risks_set:
  "set (collect_all_risks ps ds) = {risk. permissions_require_risk ps ds risk}"
proof -
  have "risk \<in> set (collect_all_risks ps ds) \<longleftrightarrow> permissions_require_risk ps ds risk" for risk
    by (cases risk) (simp_all add: collect_all_risks_def collect_lower_risks_def Let_def)
  then show ?thesis by blast
qed

section \<open>Denies and coverage\<close>

lemma matches_any_permission_iff: "matches_any_permission sel s \<longleftrightarrow>
    (\<exists>q\<in>permissions_of (scope_permissions s). selector_contains_permission sel q)"
  by (simp add: matches_any_permission_def permissions_of_def list_ex_iff)

lemma rule_matches_scope_iff [simp]: "rule_matches_scope r s \<longleftrightarrow> covers (rule_selector r) s"
  by (simp add: rule_matches_scope_def covers_def matches_any_permission_iff)

lemma grant_matches_scope_iff [simp]: "grant_matches_scope g s \<longleftrightarrow> covers (grant_selector g) s"
  by (simp add: grant_matches_scope_def covers_def matches_any_permission_iff)

lemma matches_policy_id_iff [simp]: "matches_policy_id p s \<longleftrightarrow> scope_policy_id s = definition_policy_id p"
  by (auto simp: matches_policy_id_def)

lemma full_coverage_iff: "ceiling_has_full_coverage c s \<longleftrightarrow>
    (\<forall>q\<in>permissions_of (scope_permissions s). \<exists>g\<in>set (ceiling_grants c).
        matches_identity (grant_selector g) s \<and> selector_contains_permission (grant_selector g) q)"
  by (auto simp: ceiling_has_full_coverage_def grant_covers_permission_def list_all_iff list_ex_iff permissions_of_def)

lemma no_deny_iff: "\<not> has_immutable_deny p s \<and> \<not> has_restriction_deny p s \<longleftrightarrow>
    (\<forall>r\<in>policy_rules p. is_deny r \<longrightarrow> \<not> covers (rule_selector r) s)"
  by (auto simp: has_immutable_deny_def has_restriction_deny_def deny_rule_matches_def list_ex_iff policy_rules_def)

lemma preconstraint_denial_None:
  assumes "registry_ok (operations p)"
  shows "preconstraint_denial p s = None \<longleftrightarrow> admissible p s"
  using first_denial_None[OF assms, of s] no_deny_iff[of p s]
  by (auto simp: preconstraint_denial_def admissible_def full_coverage_iff split: if_splits option.splits)

section \<open>Constraints\<close>

lemma intersect_window_Some: "intersect_window a b = Some w \<longleftrightarrow> window_set w = window_set a \<inter> window_set b"
  by (auto simp: intersect_window_def window_intersection_Ok[symmetric] split: sum.splits)

lemma intersect_window_None: "intersect_window a b = None \<Longrightarrow> window_set a \<inter> window_set b = {}"
  by (auto simp: intersect_window_def dest: window_intersection_Err split: sum.splits)

lemma fold_grants_Accepted:
  "fold_grants s acc gs = ConstraintsAccepted cs \<Longrightarrow>
     window_set (effective_validity cs) = window_set (effective_validity acc)
       \<inter> (\<Inter>g\<in>{g \<in> set gs. covers (grant_selector g) s}. window_set (grant_validity g))
   \<and> limit_uses (effective_use_limit cs) = limit_uses (effective_use_limit acc)
       \<inter> (\<Inter>g\<in>{g \<in> set gs. covers (grant_selector g) s}. limit_uses (grant_use_limit g))"
proof (induction gs arbitrary: acc)
  case (Cons g gs)
  show ?case
  proof (cases "covers (grant_selector g) s")
    case True
    have split: "{h \<in> set (g # gs). covers (grant_selector h) s} = insert g {h \<in> set gs. covers (grant_selector h) s}"
      using True by auto
    from Cons.prems True obtain w where w: "intersect_window (effective_validity acc) (grant_validity g) = Some w"
      and rest: "fold_grants s \<lparr>effective_validity = w,
            effective_use_limit = limit_intersection (effective_use_limit acc) (grant_use_limit g)\<rparr> gs = ConstraintsAccepted cs"
      by (auto split: option.splits)
    from Cons.IH[OF rest] w show ?thesis
      unfolding split by (simp add: intersect_window_Some limit_intersection_uses Int_assoc)
  next
    case False
    then have "{h \<in> set (g # gs). covers (grant_selector h) s} = {h \<in> set gs. covers (grant_selector h) s}"
      by auto
    with False Cons show ?thesis by simp
  qed
qed simp

lemma fold_grants_Denied:
  "fold_grants s acc gs = ConstraintsDenied reason \<Longrightarrow>
     window_set (effective_validity acc)
       \<inter> (\<Inter>g\<in>{g \<in> set gs. covers (grant_selector g) s}. window_set (grant_validity g)) = {}
   \<and> reason = EmptyConstraintIntersection"
proof (induction gs arbitrary: acc)
  case (Cons g gs)
  show ?case
  proof (cases "covers (grant_selector g) s")
    case True
    have split: "{h \<in> set (g # gs). covers (grant_selector h) s} = insert g {h \<in> set gs. covers (grant_selector h) s}"
      using True by auto
    show ?thesis
    proof (cases "intersect_window (effective_validity acc) (grant_validity g)")
      case None
      with Cons.prems True show ?thesis
        using intersect_window_None[OF None] unfolding split by auto
    next
      case (Some w)
      with Cons.prems True Cons.IH[of "\<lparr>effective_validity = w,
            effective_use_limit = limit_intersection (effective_use_limit acc) (grant_use_limit g)\<rparr>"]
      show ?thesis unfolding split by (simp add: intersect_window_Some Int_assoc)
    qed
  next
    case False
    then have "{h \<in> set (g # gs). covers (grant_selector h) s} = {h \<in> set gs. covers (grant_selector h) s}"
      by auto
    with False Cons show ?thesis by simp
  qed
qed simp

lemma grant_constraints_Accepted:
  assumes "grant_constraints p s = ConstraintsAccepted cs"
  shows "window_set (effective_validity cs) = effective_instants p s"
    and "limit_uses (effective_use_limit cs) = effective_uses p s"
  using assms
  by (auto simp: grant_constraints_def initial_constraints_def Let_def effective_instants_def effective_uses_def
      applicable_grants_def intersect_window_Some limit_intersection_uses
      dest!: fold_grants_Accepted split: constraint_result.splits option.splits)

lemma grant_constraints_Denied:
  assumes "grant_constraints p s = ConstraintsDenied reason"
  shows "effective_instants p s = {} \<and> reason = EmptyConstraintIntersection"
proof (cases "intersect_window (scope_validity s) (boundary_validity (ceiling_boundary (policy_ceiling p)))")
  case None
  with assms intersect_window_None[OF None] show ?thesis
    by (auto simp: grant_constraints_def initial_constraints_def effective_instants_def)
next
  case (Some w)
  with assms show ?thesis
    by (auto simp: grant_constraints_def initial_constraints_def effective_instants_def
        applicable_grants_def intersect_window_Some dest!: fold_grants_Denied)
qed

lemma window_set_nonempty [simp]: "window_set w \<noteq> {}"
  using not_before_in_window[of w] by blast

lemma grant_constraints_iff: "(\<exists>cs. grant_constraints p s = ConstraintsAccepted cs) \<longleftrightarrow> effective_instants p s \<noteq> {}"
proof (cases "grant_constraints p s")
  case (ConstraintsAccepted cs)
  then have "effective_instants p s = window_set (effective_validity cs)"
    by (simp add: grant_constraints_Accepted)
  then show ?thesis using ConstraintsAccepted by simp
qed (simp add: grant_constraints_Denied)

section \<open>Approvals\<close>

lemma requirement_conjunction_returns: "\<exists>r. requirement_conjunction a b = Ok r"
  by (auto simp: requirement_conjunction_def Let_def dest: window_intersection_Err split: sum.splits)

lemma requirement_conjunction_Some:
  assumes "requirement_conjunction a b = Ok (Some c)" and "requirement_ok a" and "requirement_ok b"
  shows "requirement_ok c" and "may_approve c x \<longleftrightarrow> may_approve a x \<and> may_approve b x"
proof -
  let ?roles = "merge_common compare_roles (approver_roles a) (approver_roles b)"
  from assms(1) obtain w where w: "window_intersection (approval_validity a) (approval_validity b) = Ok w"
    and c: "c = \<lparr>minimum_tier = tier_maximum (minimum_tier a) (minimum_tier b), approver_roles = ?roles,
         approval_independence = independence_union (approval_independence a) (approval_independence b),
         approval_validity = w\<rparr>" and ne: "?roles \<noteq> []"
    by (auto simp: requirement_conjunction_def Let_def split: sum.splits if_splits)
  have asc: "ascending canonical_rank (approver_roles a)" "ascending canonical_rank (approver_roles b)"
    using assms(2,3) by (simp_all add: requirement_ok_def)
  show "requirement_ok c"
    using ne role_order.merge_common_ascending[OF asc] by (simp add: c requirement_ok_def)
  show "may_approve c x \<longleftrightarrow> may_approve a x \<and> may_approve b x"
    using w role_order.merge_common_set[OF asc]
    by (auto simp: c may_approve_def at_least_maximum window_intersection_Ok)
qed

lemma requirement_conjunction_None:
  assumes "requirement_conjunction a b = Ok None" and "requirement_ok a" and "requirement_ok b"
  shows "\<not> (may_approve a x \<and> may_approve b x)"
proof -
  have "set (merge_common compare_roles (approver_roles a) (approver_roles b)) = set (approver_roles a) \<inter> set (approver_roles b)"
    using assms(2,3) by (intro role_order.merge_common_set) (simp_all add: requirement_ok_def)
  with assms(1) show ?thesis
    by (auto simp: requirement_conjunction_def Let_def may_approve_def
        dest: window_intersection_Err split: sum.splits if_splits)
qed

text \<open>A requirement in canonical form always has some approver.\<close>

lemma requirement_ok_approver:
  assumes "requirement_ok q"
  shows "\<exists>a. may_approve q a"
proof -
  have "may_approve q \<lparr>approver_tier = SystemTier, approver_role = hd (approver_roles q),
      approver_independence = UNIV, approves_at = not_before (approval_validity q)\<rparr>"
    using assms by (cases "minimum_tier q") (auto simp: may_approve_def requirement_ok_def at_least_def)
  then show ?thesis ..
qed

text \<open>What the conjunction loops compute over the requirements seen so far.\<close>

definition conjoins :: "approval_requirement set \<Rightarrow> approval_requirement option \<Rightarrow> bool" where
  "conjoins qs acc \<longleftrightarrow> (case acc of
     None \<Rightarrow> qs = {}
   | Some q \<Rightarrow> qs \<noteq> {} \<and> requirement_ok q \<and> (\<forall>x. may_approve q x \<longleftrightarrow> (\<forall>r\<in>qs. may_approve r x)))"

lemma accumulate_requirement_conjoins:
  assumes "conjoins qs acc" and "requirement_ok q"
  shows "(\<exists>next. accumulate_requirement acc q = Ok (Accumulated next) \<and> conjoins (insert q qs) next)
    \<or> (accumulate_requirement acc q = Ok Conflict \<and> (\<nexists>x. \<forall>r\<in>insert q qs. may_approve r x))"
proof (cases acc)
  case None
  with assms show ?thesis by (simp add: accumulate_requirement_def conjoins_def)
next
  case (Some a)
  with assms have a: "requirement_ok a" "\<And>x. may_approve a x \<longleftrightarrow> (\<forall>r\<in>qs. may_approve r x)"
    by (simp_all add: conjoins_def)
  obtain r where r: "requirement_conjunction a q = Ok r" using requirement_conjunction_returns by blast
  show ?thesis
  proof (cases r)
    case None
    with requirement_conjunction_None[OF _ a(1) assms(2)] r Some a(2) show ?thesis
      by (auto simp: accumulate_requirement_def)
  next
    case (Some c)
    with requirement_conjunction_Some[OF _ a(1) assms(2), of c] r \<open>acc = Some a\<close> a(2) show ?thesis
      by (auto simp: accumulate_requirement_def conjoins_def)
  qed
qed

definition rule_requirements :: "capability_scope \<Rightarrow> restriction_rule list \<Rightarrow> approval_requirement set" where
  "rule_requirements s rs = {q. \<exists>r\<in>set rs. rule_kind r = RequireApproval q \<and> covers (rule_selector r) s}"

lemma matching_approval_requirement_Some:
  "matching_approval_requirement r s = Some q \<longleftrightarrow> rule_kind r = RequireApproval q \<and> covers (rule_selector r) s"
  by (auto simp: matching_approval_requirement_def rule_approval_requirement_def split: restriction_rule_kind.splits)

lemma conjoin_rules_conjoins:
  assumes "conjoins qs acc" and "\<forall>r\<in>set rs. \<forall>q. rule_kind r = RequireApproval q \<longrightarrow> requirement_ok q"
  shows "(\<exists>next. conjoin_rules s acc rs = Ok (RestrictionAccepted next) \<and> conjoins (qs \<union> rule_requirements s rs) next)
    \<or> (conjoin_rules s acc rs = Ok (RestrictionDenied ApprovalConstraintConflict)
        \<and> (\<nexists>x. \<forall>r\<in>qs \<union> rule_requirements s rs. may_approve r x))"
  using assms
proof (induction rs arbitrary: qs acc)
  case Nil
  then show ?case by (simp add: rule_requirements_def)
next
  case (Cons r rs)
  show ?case
  proof (cases "matching_approval_requirement r s")
    case None
    then have "rule_requirements s (r # rs) = rule_requirements s rs"
      using matching_approval_requirement_Some[of r s] by (auto simp: rule_requirements_def)
    with None Cons.IH[OF Cons.prems(1)] Cons.prems(2) show ?thesis by simp
  next
    case (Some q)
    then have q: "rule_kind r = RequireApproval q" "covers (rule_selector r) s"
      by (simp_all add: matching_approval_requirement_Some)
    then have set: "qs \<union> rule_requirements s (r # rs) = insert q qs \<union> rule_requirements s rs"
      by (auto simp: rule_requirements_def)
    from accumulate_requirement_conjoins[OF Cons.prems(1), of q] q Cons.prems(2)
    consider (go) nxt where "accumulate_requirement acc q = Ok (Accumulated nxt)" "conjoins (insert q qs) nxt"
      | (stop) "accumulate_requirement acc q = Ok Conflict" "\<nexists>x. \<forall>r\<in>insert q qs. may_approve r x"
      by auto
    then show ?thesis
    proof cases
      case go
      with Cons.IH[OF go(2)] Cons.prems(2) Some show ?thesis unfolding set by simp
    next
      case stop
      with Some show ?thesis unfolding set by auto
    qed
  qed
qed

lemma conjoin_layers_conjoins:
  assumes "conjoins qs acc"
    and "\<forall>l\<in>set ls. \<forall>r\<in>set (layer_rules l). \<forall>q. rule_kind r = RequireApproval q \<longrightarrow> requirement_ok q"
  shows "(\<exists>next. conjoin_layers s acc ls = Ok (RestrictionAccepted next)
        \<and> conjoins (qs \<union> (\<Union>l\<in>set ls. rule_requirements s (layer_rules l))) next)
    \<or> (conjoin_layers s acc ls = Ok (RestrictionDenied ApprovalConstraintConflict)
        \<and> (\<nexists>x. \<forall>r\<in>qs \<union> (\<Union>l\<in>set ls. rule_requirements s (layer_rules l)). may_approve r x))"
  using assms
proof (induction ls arbitrary: qs acc)
  case (Cons l ls)
  have set: "qs \<union> (\<Union>l\<in>set (l # ls). rule_requirements s (layer_rules l))
      = (qs \<union> rule_requirements s (layer_rules l)) \<union> (\<Union>l\<in>set ls. rule_requirements s (layer_rules l))" by auto
  from conjoin_rules_conjoins[OF Cons.prems(1), of "layer_rules l" s] Cons.prems(2)
  consider (go) nxt where "conjoin_rules s acc (layer_rules l) = Ok (RestrictionAccepted nxt)"
      "conjoins (qs \<union> rule_requirements s (layer_rules l)) nxt"
    | (stop) "conjoin_rules s acc (layer_rules l) = Ok (RestrictionDenied ApprovalConstraintConflict)"
      "\<nexists>x. \<forall>r\<in>qs \<union> rule_requirements s (layer_rules l). may_approve r x"
    by auto
  then show ?case
  proof cases
    case go
    with Cons.IH[OF go(2)] Cons.prems(2) show ?thesis unfolding set by simp
  next
    case stop
    then show ?thesis unfolding set by auto
  qed
qed simp

lemma applicable_requirements_layers:
  assumes "policy_ok p"
  shows "applicable_requirements p s = (\<Union>l\<in>set (layers p). rule_requirements s (layer_rules l))"
  using assms by (fastforce simp: applicable_requirements_def rule_requirements_def policy_rules_def
      policy_ok_def is_deny_def)

lemma approval_conjunction_conjoins:
  assumes "policy_ok p"
  shows "(\<exists>acc. approval_conjunction p s = Ok (RestrictionAccepted acc) \<and> conjoins (applicable_requirements p s) acc)
    \<or> (approval_conjunction p s = Ok (RestrictionDenied ApprovalConstraintConflict)
        \<and> (\<nexists>x. \<forall>r\<in>applicable_requirements p s. may_approve r x))"
proof -
  have "conjoins {} None" by (simp add: conjoins_def)
  from conjoin_layers_conjoins[OF this, of "layers p" s] assms show ?thesis
    by (simp add: approval_conjunction_def applicable_requirements_layers policy_ok_def)
qed

end
