(* ===== verification/Policy_Decisions.thy ===== *)
theory Policy_Decisions
  imports Policy_Spec
begin

text \<open>
  The evaluation, branch by branch, in terms of what the policy means: when it answers at all, when
  it authorizes, when it asks for approval, and what a granted or challenged scope is.
\<close>

definition required_risks :: "policy_definition \<Rightarrow> capability_scope \<Rightarrow> risk_class set" where
  "required_risks p s = {risk. \<exists>q\<in>permissions_of (scope_permissions s). \<exists>d\<in>set (descriptors (operations p)).
     descriptor_name d = permission_name q \<and> risk \<in> set (risk_values (descriptor_risks d))}"

definition constrained_scope :: "policy_definition \<Rightarrow> capability_scope \<Rightarrow> capability_scope \<Rightarrow> bool" where
  "constrained_scope p s e \<longleftrightarrow> (\<exists>v l. e = with_constraints s v l
     \<and> window_set v = effective_instants p s \<and> limit_uses l = effective_uses p s)"

lemma constrained_scope_unique: "constrained_scope p s e \<Longrightarrow> constrained_scope p s e' \<Longrightarrow> e = e'"
  by (auto simp: constrained_scope_def window_set_inject limit_uses_inject)
    (metis window_set_inject limit_uses_inject)

lemma grant_constraints_scope:
  assumes "grant_constraints p s = ConstraintsAccepted cs"
  shows "constrained_scope p s (with_constraints s (effective_validity cs) (effective_use_limit cs))"
  using grant_constraints_Accepted[OF assms] by (auto simp: constrained_scope_def)

lemma with_constraints_permissions [simp]:
  "scope_permissions (with_constraints s v l) = scope_permissions s"
  "scope_validity (with_constraints s v l) = v" "scope_use_limit (with_constraints s v l) = l"
  "scope_actor (with_constraints s v l) = scope_actor s" "scope_role (with_constraints s v l) = scope_role s"
  "scope_environment (with_constraints s v l) = scope_environment s"
  "scope_revision (with_constraints s v l) = scope_revision s"
  by (simp_all add: with_constraints_def)

lemma risks_for_scope_admissible:
  assumes ok: "policy_ok p" and adm: "admissible p s"
  shows "\<exists>values. risks_for_scope (operations p) (with_constraints s v l) = Some (RiskSet values)
    \<and> set values = required_risks p s"
proof -
  have "permission_list (scope_permissions s) ! 0 \<in> permissions_of (scope_permissions s)"
    unfolding permissions_of_def by (rule nth_mem) simp
  with adm have "permitted_operation p (scope_role s) (permission_list (scope_permissions s) ! 0)"
    by (simp add: admissible_def)
  then have "descriptors (operations p) \<noteq> []" by (auto simp: permitted_operation_def)
  then have "\<exists>d. admitted_descriptor (operations p) (permission_list (scope_permissions s) ! 0) = Some d"
    by (auto simp: admitted_descriptor_def split: option.splits)
  moreover have "set (collect_all_risks (permission_list (scope_permissions s)) (descriptors (operations p)))
      = required_risks p s"
    using ok by (auto simp: collect_all_risks_set permissions_require_risk_iff descriptor_has_risk_iff
        policy_ok_def registry_ok_def required_risks_def permissions_of_def)
  ultimately show ?thesis
    by (auto simp: risks_for_scope_def required_risk_for_scope_def Let_def)
qed

lemma validity_denial_iff:
  "validity_denial w t = ValidityAccepted \<longleftrightarrow> t \<in> window_set w"
  by (auto simp: validity_denial_def window_contains_def window_set_def)

lemma exact_requested_denial_Denied:
  "exact_requested_denial s time t reason \<noteq> Ok (Authorized plan)"
  "exact_requested_denial s time t reason \<noteq> Ok (ApprovalRequired c)"
  by (auto simp: exact_requested_denial_def split: sum.splits)

lemma exact_requested_denial_Ok:
  "observable time t \<Longrightarrow> exact_requested_denial s time t reason = Ok (Denied \<lparr>denial_reason = reason,
     denial_scope = s, denial_evaluated_at = t, denial_time_state = authority_time_state_new t\<rparr>)"
  using time_observe_Ok[of time t "authority_time_state_new t"] by (simp add: exact_requested_denial_def)

lemma constrain_validity_cases:
  "(constrain_validity q w = Ok None \<and> (\<nexists>x. may_approve q x \<and> approves_at x \<in> window_set w))
    \<or> (\<exists>r. constrain_validity q w = Ok (Some r) \<and> (requirement_ok q \<longrightarrow> requirement_ok r)
        \<and> (\<forall>x. may_approve r x \<longleftrightarrow> may_approve q x \<and> approves_at x \<in> window_set w))"
proof (cases "window_intersection (approval_validity q) w")
  case (Inl e)
  from window_intersection_Err[OF Inl] Inl show ?thesis
    by (auto simp: constrain_validity_def may_approve_def)
next
  case (Inr v)
  then have "window_set v = window_set (approval_validity q) \<inter> window_set w"
    by (simp add: window_intersection_Ok)
  then have "may_approve (q\<lparr>approval_validity := v\<rparr>) x \<longleftrightarrow> may_approve q x \<and> approves_at x \<in> window_set w" for x
    by (auto simp: may_approve_def)
  moreover have "requirement_ok q \<longrightarrow> requirement_ok (q\<lparr>approval_validity := v\<rparr>)"
    by (simp add: requirement_ok_def)
  moreover have "constrain_validity q w = Ok (Some (q\<lparr>approval_validity := v\<rparr>))"
    using Inr by (simp add: constrain_validity_def)
  ultimately show ?thesis by blast
qed

section \<open>The three answers\<close>

text \<open>What the evaluation of a policy in canonical form returns, in every case.\<close>

inductive answers ::
  "policy_definition \<Rightarrow> capability_scope \<Rightarrow> authority_time_state \<Rightarrow> authority_instant
    \<Rightarrow> authority_time_failure + policy_decision \<Rightarrow> bool"
  for p s time t where
  clock: "validate_observation time t = Err e \<Longrightarrow>
    answers p s time t (Err \<lparr>time_failure_error = e, time_failure_state = time\<rparr>)"
| inadmissible: "observable time t \<Longrightarrow> \<not> admissible p s \<Longrightarrow> denial_scope d = s \<Longrightarrow>
    denial_time_state d = authority_time_state_new t \<Longrightarrow> answers p s time t (Ok (Denied d))"
| empty: "observable time t \<Longrightarrow> admissible p s \<Longrightarrow> effective_instants p s = {} \<Longrightarrow>
    denial_reason d = EmptyConstraintIntersection \<Longrightarrow> denial_scope d = s \<Longrightarrow>
    denial_time_state d = authority_time_state_new t \<Longrightarrow> answers p s time t (Ok (Denied d))"
| unapprovable: "observable time t \<Longrightarrow> admissible p s \<Longrightarrow> effective_instants p s \<noteq> {} \<Longrightarrow>
    (\<nexists>x. \<forall>q\<in>applicable_requirements p s. may_approve q x) \<Longrightarrow>
    denial_reason d = ApprovalConstraintConflict \<Longrightarrow> denial_scope d = s \<Longrightarrow>
    denial_time_state d = authority_time_state_new t \<Longrightarrow> answers p s time t (Ok (Denied d))"
| other_epoch: "observable time t \<Longrightarrow> admissible p s \<Longrightarrow> (\<forall>u\<in>effective_instants p s. epoch u \<noteq> epoch t) \<Longrightarrow>
    effective_instants p s \<noteq> {} \<Longrightarrow> answers p s time t
      (Err \<lparr>time_failure_error = plain_policy_error PolicyClockEpochMismatch, time_failure_state = time\<rparr>)"
| outside: "observable time t \<Longrightarrow> admissible p s \<Longrightarrow> effective_instants p s \<noteq> {} \<Longrightarrow> t \<notin> effective_instants p s \<Longrightarrow>
    denial_reason d = (if \<forall>u\<in>effective_instants p s. tick_millis t < tick_millis u then NotYetValid else Expired) \<Longrightarrow>
    denial_scope d = s \<Longrightarrow> denial_time_state d = authority_time_state_new t \<Longrightarrow> answers p s time t (Ok (Denied d))"
| granted: "observable time t \<Longrightarrow> admissible p s \<Longrightarrow> t \<in> effective_instants p s \<Longrightarrow> applicable_requirements p s = {} \<Longrightarrow>
    constrained_scope p s (plan_scope plan) \<Longrightarrow> plan_evaluated_at plan = t \<Longrightarrow>
    plan_time_state plan = authority_time_state_new t \<Longrightarrow> answers p s time t (Ok (Authorized plan))"
| too_late: "observable time t \<Longrightarrow> admissible p s \<Longrightarrow> t \<in> effective_instants p s \<Longrightarrow> applicable_requirements p s \<noteq> {} \<Longrightarrow>
    (\<nexists>x. (\<forall>q\<in>applicable_requirements p s. may_approve q x) \<and> approves_at x \<in> effective_instants p s) \<Longrightarrow>
    denial_reason d = ApprovalConstraintConflict \<Longrightarrow> constrained_scope p s (denial_scope d) \<Longrightarrow>
    denial_time_state d = authority_time_state_new t \<Longrightarrow> answers p s time t (Ok (Denied d))"
| challenged: "observable time t \<Longrightarrow> admissible p s \<Longrightarrow> t \<in> effective_instants p s \<Longrightarrow> applicable_requirements p s \<noteq> {} \<Longrightarrow>
    requirement_ok (challenge_requirement c) \<Longrightarrow>
    (\<forall>x. may_approve (challenge_requirement c) x \<longleftrightarrow>
      (\<forall>q\<in>applicable_requirements p s. may_approve q x) \<and> approves_at x \<in> effective_instants p s) \<Longrightarrow>
    set (risk_values (challenge_risks c)) = required_risks p s \<Longrightarrow>
    constrained_scope p s (challenge_scope c) \<Longrightarrow> challenge_evaluated_at c = t \<Longrightarrow>
    challenge_time_state c = authority_time_state_new t \<Longrightarrow> answers p s time t (Ok (ApprovalRequired c))"

lemma window_outside:
  assumes "t \<notin> window_set w" and "epoch t = epoch (not_before w)"
  shows "(\<forall>u\<in>window_set w. tick_millis t < tick_millis u) \<longleftrightarrow> tick_millis t < tick_millis (not_before w)"
  using assms not_before_in_window[of w] by (auto simp: window_set_def)

lemma validity_denial_denied:
  assumes "t \<notin> window_set w" and "epoch t = epoch (not_before w)"
  shows "validity_denial w t = ValidityDenied
    (if \<forall>u\<in>window_set w. tick_millis t < tick_millis u then NotYetValid else Expired)"
  unfolding window_outside[OF assms] using assms
  by (auto simp: validity_denial_def window_contains_def window_set_def)

lemma validity_denial_failed:
  "epoch t \<noteq> epoch (not_before w) \<Longrightarrow> validity_denial w t = ValidityFailed (plain_policy_error PolicyClockEpochMismatch)"
  by (simp add: validity_denial_def window_contains_def)

lemma finalize_answers:
  assumes ok: "policy_ok p" and obs: "observable time t" and adm: "admissible p s"
    and cs: "grant_constraints p s = ConstraintsAccepted cs"
    and t: "t \<in> effective_instants p s"
    and q: "requirement_ok q" "\<And>x. may_approve q x \<longleftrightarrow> (\<forall>r\<in>applicable_requirements p s. may_approve r x)"
    and ne: "applicable_requirements p s \<noteq> {}"
  shows "\<exists>r. finalize_required_approval p s cs q time t = Some r \<and> answers p s time t r"
proof -
  note observed = time_observe_Ok[of time t "authority_time_state_new t", THEN iffD2, OF conjI, OF obs refl]
  note scope = grant_constraints_scope[OF cs]
  have w: "window_set (effective_validity cs) = effective_instants p s"
    using cs by (rule grant_constraints_Accepted)
  from risks_for_scope_admissible[OF ok adm] obtain risks where
    risks: "risks_for_scope (operations p) (with_constraints s (effective_validity cs) (effective_use_limit cs)) = Some (RiskSet risks)"
      "set risks = required_risks p s" by blast
  consider (none) "constrain_validity q (effective_validity cs) = Ok None"
      "\<nexists>x. may_approve q x \<and> approves_at x \<in> effective_instants p s"
    | (some) r where "constrain_validity q (effective_validity cs) = Ok (Some r)" "requirement_ok r"
      "\<And>x. may_approve r x \<longleftrightarrow> may_approve q x \<and> approves_at x \<in> effective_instants p s"
    using constrain_validity_cases[of q "effective_validity cs"] q(1) w by auto
  then show ?thesis
  proof cases
    case none
    with scope obs adm t ne q(2) show ?thesis
      by (simp add: finalize_required_approval_def Let_def observed) (rule too_late; simp)
  next
    case some
    with scope obs adm t ne q(2) risks show ?thesis
      by (simp add: finalize_required_approval_def Let_def observed) (rule challenged; simp)
  qed
qed

lemma evaluate_with_constraints_answers:
  assumes ok: "policy_ok p" and obs: "observable time t" and adm: "admissible p s"
    and cs: "grant_constraints p s = ConstraintsAccepted cs"
  shows "\<exists>r. evaluate_with_constraints p s time t cs = Some r \<and> answers p s time t r"
proof -
  note denial = exact_requested_denial_Ok[OF obs]
  have w: "window_set (effective_validity cs) = effective_instants p s"
    using cs by (rule grant_constraints_Accepted)
  then have ne: "effective_instants p s \<noteq> {}" by (metis window_set_nonempty)
  from approval_conjunction_conjoins[OF ok, of s]
  consider (conflict) "approval_conjunction p s = Ok (RestrictionDenied ApprovalConstraintConflict)"
      "\<nexists>x. \<forall>r\<in>applicable_requirements p s. may_approve r x"
    | (epoch) acc where "approval_conjunction p s = Ok (RestrictionAccepted acc)"
      "conjoins (applicable_requirements p s) acc" "epoch t \<noteq> epoch (not_before (effective_validity cs))"
    | (outside) acc where "approval_conjunction p s = Ok (RestrictionAccepted acc)"
      "conjoins (applicable_requirements p s) acc" "epoch t = epoch (not_before (effective_validity cs))"
      "t \<notin> effective_instants p s"
    | (inside) acc where "approval_conjunction p s = Ok (RestrictionAccepted acc)"
      "conjoins (applicable_requirements p s) acc" "t \<in> effective_instants p s"
    by blast
  then show ?thesis
  proof cases
    case conflict
    with obs adm ne show ?thesis
      by (simp add: evaluate_with_constraints_def denial) (rule unapprovable; simp)
  next
    case epoch
    moreover from epoch have "\<forall>u\<in>effective_instants p s. epoch u \<noteq> epoch t"
      by (auto simp flip: w simp: window_set_def)
    ultimately show ?thesis using obs adm ne
      by (simp add: evaluate_with_constraints_def validity_denial_failed other_epoch)
  next
    case outside
    with obs adm ne w show ?thesis
      by (simp add: evaluate_with_constraints_def validity_denial_denied denial)
        (auto intro!: answers.outside)
  next
    case inside
    then have acc: "validity_denial (effective_validity cs) t = ValidityAccepted"
      by (simp add: validity_denial_iff w)
    show ?thesis
    proof (cases acc)
      case None
      with inside acc obs adm grant_constraints_scope[OF cs]
        time_observe_Ok[of time t "authority_time_state_new t"] show ?thesis
        by (simp add: evaluate_with_constraints_def finalize_decision_def conjoins_def) (rule granted; simp)
    next
      case (Some q)
      with inside have "requirement_ok q" "\<And>x. may_approve q x \<longleftrightarrow> (\<forall>r\<in>applicable_requirements p s. may_approve r x)"
        "applicable_requirements p s \<noteq> {}" by (simp_all add: conjoins_def)
      from finalize_answers[OF ok obs adm cs inside(3) this] Some inside acc show ?thesis
        by (simp add: evaluate_with_constraints_def finalize_decision_def)
    qed
  qed
qed

theorem evaluate_answers:
  assumes ok: "policy_ok p"
  shows "\<exists>r. evaluate p s time t = Some r \<and> answers p s time t r"
proof (cases "observable time t")
  case False
  then obtain e where "validate_observation time t = Err e"
    by (metis validate_observation_Ok old.unit.exhaust sum.exhaust)
  then show ?thesis by (auto simp: evaluate_def intro: clock)
next
  case True
  then have obs: "validate_observation time t = Ok ()" by (simp add: validate_observation_Ok)
  note denial = exact_requested_denial_Ok[OF True]
  note none = preconstraint_denial_None[of p s]
  show ?thesis
  proof (cases "preconstraint_denial p s")
    case (Some reason)
    with none ok have "\<not> admissible p s" by (simp add: policy_ok_def)
    with True Some obs show ?thesis by (simp add: evaluate_def denial) (rule inadmissible; simp)
  next
    case None
    with none ok have adm: "admissible p s" by (simp add: policy_ok_def)
    show ?thesis
    proof (cases "grant_constraints p s")
      case (ConstraintsAccepted cs)
      from evaluate_with_constraints_answers[OF ok True adm this] obs None ConstraintsAccepted
      show ?thesis by (simp add: evaluate_def)
    next
      case (ConstraintsDenied reason)
      with grant_constraints_Denied[OF this] True adm obs None show ?thesis
        by (simp add: evaluate_def denial) (rule empty; simp)
    qed
  qed
qed

inductive_cases answers_AuthorizedE: "answers p s time t (Ok (Authorized plan))"
inductive_cases answers_ApprovalE: "answers p s time t (Ok (ApprovalRequired c))"
inductive_cases answers_ErrE: "answers p s time t (Err e)"
inductive_cases answers_DeniedE: "answers p s time t (Ok (Denied d))"

lemma evaluate_result: "policy_ok p \<Longrightarrow> evaluate p s time t = Some r \<Longrightarrow> answers p s time t r"
  using evaluate_answers[of p s time t] by auto

section \<open>Authorization is decided by the meaning of the policy\<close>

lemma evaluate_Authorized:
  assumes ok: "policy_ok p"
  shows "evaluate p s time t = Some (Ok (Authorized plan)) \<longleftrightarrow>
    observable time t \<and> admissible p s \<and> t \<in> effective_instants p s \<and> applicable_requirements p s = {}
  \<and> constrained_scope p s (plan_scope plan) \<and> plan_evaluated_at plan = t
  \<and> plan_time_state plan = authority_time_state_new t" (is "?E \<longleftrightarrow> ?A \<and> ?P plan")
proof
  assume ?E
  from answers_AuthorizedE[OF evaluate_result[OF ok this]] show "?A \<and> ?P plan" by blast
next
  assume A: "?A \<and> ?P plan"
  from evaluate_answers[OF ok, of s time t] obtain r where
    r: "evaluate p s time t = Some r" and answer: "answers p s time t r" by blast
  from answer A obtain plan' where "r = Ok (Authorized plan')" "?P plan'"
    by cases (auto simp: validate_observation_Ok[symmetric])
  with A have "plan' = plan"
    by (intro issuance_plan.equality) (auto intro: constrained_scope_unique)
  with r \<open>r = _\<close> show ?E by simp
qed

end
