(* ===== verification/Policy_Amendment.thy ===== *)
theory Policy_Amendment
  imports Policy_Decisions
begin

text \<open>
  \<open>peritus-policy\<close>, files \<open>amendment.rs\<close>, \<open>amendment/proposal.rs\<close> and \<open>amendment/preview.rs\<close>: replacing
  one restriction layer of a policy by another, with every selector rebound to the revision of the
  successor policy. The ceiling of the successor is the ceiling of the base.
\<close>

record amendment_proposal =
  proposal_base_policy_id :: policy_id
  proposal_successor_policy_id :: policy_id
  proposal_tier :: policy_tier
  proposal_replacement :: restriction_layer
  proposal_digest :: sha256_digest

record revision_candidate =
  candidate_base_policy_id :: policy_id
  successor_policy :: policy_definition
  candidate_tier :: policy_tier
  candidate_digest :: sha256_digest

definition amendment_proposal_new ::
  "policy_id \<Rightarrow> policy_id \<Rightarrow> policy_tier \<Rightarrow> restriction_layer \<Rightarrow> sha256_digest \<Rightarrow> policy_error + amendment_proposal" where
  "amendment_proposal_new base succ tier replacement digest =
    (if identifier_values_equal (policy_id_raw base) (policy_id_raw succ)
     then Err (plain_policy_error AmendmentPolicyIdReuse)
     else if policy_tier_rank (layer_tier replacement) \<noteq> policy_tier_rank tier
     then Err (plain_policy_error AmendmentTierMismatch)
     else Ok \<lparr>proposal_base_policy_id = base, proposal_successor_policy_id = succ, proposal_tier = tier,
        proposal_replacement = replacement, proposal_digest = digest\<rparr>)"

definition successor_revision :: "revision_tuple \<Rightarrow> policy_id \<Rightarrow> revision_tuple" where
  "successor_revision base pid =
    \<lparr>acceptance_spec_id = acceptance_spec_id base, harness_id = harness_id base,
     workspace_id = workspace_id base, workspace_generation = workspace_generation base,
     workspace_revision = workspace_revision base, policy_id = pid,
     provider_profile_id = provider_profile_id base\<rparr>"

function amended_layers_from ::
  "restriction_layer list \<Rightarrow> policy_tier \<Rightarrow> restriction_layer \<Rightarrow> revision_tuple \<Rightarrow> nat \<Rightarrow> bool
    \<Rightarrow> restriction_layer list" where
  "amended_layers_from current target replacement rv index inserted =
    (if length current \<le> index then (if \<not> inserted then [layer_rebind_revision replacement rv] else [])
     else if \<not> inserted \<and> policy_tier_rank target \<le> policy_tier_rank (layer_tier (current ! index))
     then layer_rebind_revision replacement rv # amended_layers_from current target replacement rv index True
     else if policy_tier_rank (layer_tier (current ! index)) = policy_tier_rank target
     then amended_layers_from current target replacement rv (index + 1) inserted
     else layer_rebind_revision (current ! index) rv
       # amended_layers_from current target replacement rv (index + 1) inserted)"
  by pat_completeness auto
termination
  by (relation "measure (\<lambda>(current, _, _, _, index, inserted). 2 * (length current - index) + (if inserted then 0 else 1))")
    auto

declare amended_layers_from.simps [simp del]

definition preview_amendment :: "policy_definition \<Rightarrow> amendment_proposal \<Rightarrow> policy_error + revision_candidate" where
  "preview_amendment p a =
    (if \<not> identifier_values_equal (policy_id_raw (proposal_base_policy_id a)) (policy_id_raw (definition_policy_id p))
     then Err (plain_policy_error AmendmentBaseMismatch)
     else (let rv = successor_revision (boundary_revision (ceiling_boundary (policy_ceiling p))) (proposal_successor_policy_id a);
               c = ceiling_rebind_revision (policy_ceiling p) rv;
               ls = amended_layers_from (layers p) (proposal_tier a) (proposal_replacement a) rv 0 False
       in case policy_definition_new (proposal_successor_policy_id a) c (operations p) ls of
         Inl e \<Rightarrow> Err e
       | Inr q \<Rightarrow> Ok \<lparr>candidate_base_policy_id = proposal_base_policy_id a, successor_policy = q,
           candidate_tier = proposal_tier a, candidate_digest = proposal_digest a\<rparr>))"

section \<open>The layers of the successor\<close>

definition tiers_ascending :: "restriction_layer list \<Rightarrow> bool" where
  "tiers_ascending ls = ascending (\<lambda>l. policy_tier_rank (layer_tier l)) ls"

lemma check_tiers_Ok: "check_tiers ls = Ok () \<longleftrightarrow> tiers_ascending ls"
  unfolding tiers_ascending_def by (induction ls rule: check_tiers.induct) auto

lemma layer_rebind_tier [simp]: "layer_tier (layer_rebind_revision l rv) = layer_tier l"
  by (simp add: layer_rebind_revision_def)

text \<open>The walk over the rest of the layers, as filters.\<close>

lemma amended_inserted:
  "amended_layers_from ls target repl rv i True =
     map (\<lambda>l. layer_rebind_revision l rv) (filter (\<lambda>l. layer_tier l \<noteq> target) (drop i ls))"
proof (induction "length ls - i" arbitrary: i)
  case 0
  then show ?case by (simp add: amended_layers_from.simps)
next
  case (Suc k)
  then have i: "i < length ls" by simp
  then have "drop i ls = ls ! i # drop (Suc i) ls" by (rule Cons_nth_drop_Suc[symmetric])
  with i Suc show ?case by (simp add: amended_layers_from.simps[of ls target repl rv i])
qed

lemma amended_layers:
  assumes "tiers_ascending (drop i ls)"
  shows "amended_layers_from ls target repl rv i False =
     map (\<lambda>l. layer_rebind_revision l rv)
       (filter (\<lambda>l. policy_tier_rank (layer_tier l) < policy_tier_rank target) (drop i ls) @ [repl]
        @ filter (\<lambda>l. policy_tier_rank target < policy_tier_rank (layer_tier l)) (drop i ls))"
  using assms
proof (induction "length ls - i" arbitrary: i)
  case 0
  then show ?case by (simp add: amended_layers_from.simps)
next
  case (Suc k)
  then have i: "i < length ls" by simp
  then have d: "drop i ls = ls ! i # drop (Suc i) ls" by (rule Cons_nth_drop_Suc[symmetric])
  from Suc.prems have later: "\<forall>l\<in>set (drop (Suc i) ls). policy_tier_rank (layer_tier (ls ! i)) < policy_tier_rank (layer_tier l)"
    and asc: "tiers_ascending (drop (Suc i) ls)"
    by (simp_all add: d tiers_ascending_def ascending_Cons)
  show ?case
  proof (cases "policy_tier_rank target \<le> policy_tier_rank (layer_tier (ls ! i))")
    case True
    with later have "\<forall>l\<in>set (drop (Suc i) ls). policy_tier_rank target < policy_tier_rank (layer_tier l)" by auto
    then have none: "filter (\<lambda>l. policy_tier_rank (layer_tier l) < policy_tier_rank target) (drop (Suc i) ls) = []"
      and all: "filter (\<lambda>l. policy_tier_rank target < policy_tier_rank (layer_tier l)) (drop (Suc i) ls) = drop (Suc i) ls"
      and all': "filter (\<lambda>l. layer_tier l \<noteq> target) (drop (Suc i) ls) = drop (Suc i) ls"
      by (auto simp: filter_empty_conv filter_id_conv)
    consider (same) "layer_tier (ls ! i) = target" | (after) "layer_tier (ls ! i) \<noteq> target"
      "policy_tier_rank target < policy_tier_rank (layer_tier (ls ! i))"
      using True by (metis le_neq_trans policy_tier_rank_inject)
    then show ?thesis
    proof cases
      case same
      with i show ?thesis
        by (simp add: amended_layers_from.simps[of ls target repl rv i] amended_inserted d none all all')
    next
      case after
      with i True show ?thesis
        by (simp add: amended_layers_from.simps[of ls target repl rv i] amended_inserted d none all all')
    qed
  next
    case False
    with i Suc.hyps(1)[of "Suc i"] Suc.hyps(2) asc show ?thesis
      by (auto simp: amended_layers_from.simps[of ls target repl rv i] d not_le)
  qed
qed

lemma amended_layers_tiers:
  assumes "tiers_ascending ls" and "layer_tier repl = target"
  shows "tiers_ascending (amended_layers_from ls target repl rv 0 False)"
proof -
  have "amended_layers_from ls target repl rv 0 False = map (\<lambda>l. layer_rebind_revision l rv)
       (filter (\<lambda>l. policy_tier_rank (layer_tier l) < policy_tier_rank target) ls @ repl
        # filter (\<lambda>l. policy_tier_rank target < policy_tier_rank (layer_tier l)) ls)"
    using amended_layers[of 0 ls target repl rv] assms(1) by simp
  moreover have "ascending (\<lambda>l. policy_tier_rank (layer_tier l))
       (filter (\<lambda>l. policy_tier_rank (layer_tier l) < policy_tier_rank target) ls @ repl
        # filter (\<lambda>l. policy_tier_rank target < policy_tier_rank (layer_tier l)) ls)"
    using assms by (intro ascending_middle ascending_filter) (auto simp: tiers_ascending_def)
  ultimately show ?thesis by (simp only: tiers_ascending_def ascending_map layer_rebind_tier)
qed

section \<open>The ceiling of the successor\<close>

text \<open>What of the policy no layer can change: identity, boundary, operations, immutable denies, grants.\<close>

definition ceiling_admits :: "policy_definition \<Rightarrow> capability_scope \<Rightarrow> bool" where
  "ceiling_admits p s \<longleftrightarrow>
     scope_policy_id s = definition_policy_id p
   \<and> contains_scope (ceiling_boundary (policy_ceiling p)) s
   \<and> (\<forall>q\<in>permissions_of (scope_permissions s). permitted_operation p (scope_role s) q)
   \<and> \<not> has_immutable_deny p s
   \<and> ceiling_has_full_coverage (policy_ceiling p) s"

lemma admissible_ceiling: "admissible p s \<longleftrightarrow> ceiling_admits p s \<and> \<not> has_restriction_deny p s"
  using no_deny_iff[of p s] by (auto simp: admissible_def ceiling_admits_def full_coverage_iff)

lemma rebind_covers [simp]:
  "matches_identity (selector_rebind_revision sel rv) (s\<lparr>scope_revision := rv'\<rparr>) \<longleftrightarrow>
     rv = rv' \<and> matches_identity (sel\<lparr>selector_revision := scope_revision s\<rparr>) s"
  "selector_contains_permission (selector_rebind_revision sel rv) q = selector_contains_permission sel q"
  by (auto simp: matches_identity_def selector_rebind_revision_def selector_contains_permission_def)

text \<open>Every selector of a constructed policy carries the revision of its boundary.\<close>

definition bound_to :: "revision_tuple \<Rightarrow> policy_definition \<Rightarrow> bool" where
  "bound_to rv p \<longleftrightarrow> boundary_revision (ceiling_boundary (policy_ceiling p)) = rv
     \<and> policy_id rv = definition_policy_id p
     \<and> (\<forall>g\<in>set (ceiling_grants (policy_ceiling p)). selector_revision (grant_selector g) = rv)
     \<and> (\<forall>r\<in>set (immutable_denies (policy_ceiling p)). selector_revision (rule_selector r) = rv)"

lemma rebind_selector_covers:
  assumes "selector_revision sel = scope_revision s"
  shows "matches_identity (selector_rebind_revision sel rv) (s\<lparr>scope_revision := rv\<rparr>) = matches_identity sel s"
    and "covers (selector_rebind_revision sel rv) (s\<lparr>scope_revision := rv\<rparr>) = covers sel s"
proof -
  have "sel\<lparr>selector_revision := scope_revision s\<rparr> = sel" using assms by (cases sel) simp
  then show "matches_identity (selector_rebind_revision sel rv) (s\<lparr>scope_revision := rv\<rparr>) = matches_identity sel s"
    by simp
  then show "covers (selector_rebind_revision sel rv) (s\<lparr>scope_revision := rv\<rparr>) = covers sel s"
    by (simp add: covers_def)
qed

lemma successor_ceiling_admits:
  assumes bound: "bound_to base p" and s: "scope_revision s = base"
    and q: "successor_policy c = q" and prev: "preview_amendment p a = Ok c"
    and rv: "rv = successor_revision base (proposal_successor_policy_id a)"
  shows "ceiling_admits q (s\<lparr>scope_revision := rv\<rparr>) \<longleftrightarrow> ceiling_admits p s"
proof -
  from prev q bound have q': "policy_ceiling q = ceiling_rebind_revision (policy_ceiling p) rv"
    "operations q = operations p" "definition_policy_id q = proposal_successor_policy_id a"
    by (auto simp: preview_amendment_def policy_definition_new_def Let_def bound_to_def rv
        split: if_splits sum.splits)
  have pid: "scope_policy_id (s\<lparr>scope_revision := rv\<rparr>) = definition_policy_id q" "scope_policy_id s = definition_policy_id p"
    using bound s q' by (simp_all add: scope_policy_id_def rv successor_revision_def bound_to_def)
  have boundary: "contains_scope (ceiling_boundary (policy_ceiling q)) (s\<lparr>scope_revision := rv\<rparr>)
      = contains_scope (ceiling_boundary (policy_ceiling p)) s"
    using bound s by (simp add: contains_scope_def q' ceiling_rebind_revision_def boundary_rebind_revision_def bound_to_def)
  have denies: "has_immutable_deny q (s\<lparr>scope_revision := rv\<rparr>) = has_immutable_deny p s"
    using bound s by (auto simp: has_immutable_deny_def deny_rule_matches_def list_ex_iff q' ceiling_rebind_revision_def
        is_deny_def rule_rebind_revision_def bound_to_def rebind_selector_covers)
  have coverage: "ceiling_has_full_coverage (policy_ceiling q) (s\<lparr>scope_revision := rv\<rparr>)
      = ceiling_has_full_coverage (policy_ceiling p) s"
    using bound s by (auto simp: full_coverage_iff q' ceiling_rebind_revision_def grant_rebind_revision_def
        bound_to_def rebind_selector_covers simp del: rebind_covers(1))
  show ?thesis
    unfolding ceiling_admits_def pid boundary denies coverage
    by (simp add: permitted_operation_def q')
qed

section \<open>When a preview succeeds\<close>

definition policy_valid :: "policy_definition \<Rightarrow> bool" where
  "policy_valid p \<longleftrightarrow>
     policy_definition_new (definition_policy_id p) (policy_ceiling p) (operations p) (layers p) = Ok p"

definition layer_fits :: "authority_boundary \<Rightarrow> restriction_layer \<Rightarrow> bool" where
  "layer_fits b l \<longleftrightarrow> (\<forall>r\<in>set (layer_rules l). first_boundary_mismatch (rule_selector r) b = None)"

lemma validate_layer_boundaries_Ok: "validate_layer_boundaries ls b = Ok () \<longleftrightarrow> (\<forall>l\<in>set ls. layer_fits b l)"
  by (auto simp: validate_layer_boundaries_def validate_rule_boundaries_def for_list_Ok layer_fits_def
      split: option.splits)

lemma policy_definition_new_Ok:
  "policy_definition_new pid c ops ls = Ok p \<longleftrightarrow>
     policy_id (boundary_revision (ceiling_boundary c)) = pid \<and> tiers_ascending ls
   \<and> (\<forall>l\<in>set ls. layer_fits (ceiling_boundary c) l)
   \<and> p = \<lparr>definition_policy_id = pid, policy_ceiling = c, operations = ops, layers = ls\<rparr>"
  by (auto simp: policy_definition_new_def check_tiers_Ok[symmetric] validate_layer_boundaries_Ok[symmetric]
      split: sum.splits)

lemma policy_valid_iff:
  "policy_valid p \<longleftrightarrow> policy_id (boundary_revision (ceiling_boundary (policy_ceiling p))) = definition_policy_id p
     \<and> tiers_ascending (layers p) \<and> (\<forall>l\<in>set (layers p). layer_fits (ceiling_boundary (policy_ceiling p)) l)"
  by (auto simp: policy_valid_def policy_definition_new_Ok)

lemma outside_rebind [simp]:
  "actors_outside sel (b\<lparr>boundary_revision := r'\<rparr>) = actors_outside sel b"
  "roles_outside sel (b\<lparr>boundary_revision := r'\<rparr>) = roles_outside sel b"
  "environments_outside sel (b\<lparr>boundary_revision := r'\<rparr>) = environments_outside sel b"
  "permissions_outside sel (b\<lparr>boundary_revision := r'\<rparr>) = permissions_outside sel b"
  "actors_outside (sel\<lparr>selector_revision := r\<rparr>) b = actors_outside sel b"
  "roles_outside (sel\<lparr>selector_revision := r\<rparr>) b = roles_outside sel b"
  "environments_outside (sel\<lparr>selector_revision := r\<rparr>) b = environments_outside sel b"
  "permissions_outside (sel\<lparr>selector_revision := r\<rparr>) b = permissions_outside sel b"
  by (simp_all add: actors_outside_def roles_outside_def environments_outside_def permissions_outside_def
      split: selector_values.split option.split)

lemma rebind_mismatch:
  "first_boundary_mismatch (selector_rebind_revision sel rv) (boundary_rebind_revision b rv)
     = first_boundary_mismatch (selector_rebind_revision sel (boundary_revision b)) b"
  by (simp add: first_boundary_mismatch_def selector_rebind_revision_def boundary_rebind_revision_def)

lemma mismatch_None_revision:
  "first_boundary_mismatch sel b = None \<Longrightarrow> selector_rebind_revision sel (boundary_revision b) = sel"
  by (cases sel) (auto simp: first_boundary_mismatch_def selector_rebind_revision_def split: if_splits)

lemma layer_fits_rebind:
  "layer_fits (boundary_rebind_revision b rv) (layer_rebind_revision l rv)
     \<longleftrightarrow> layer_fits b (layer_rebind_revision l (boundary_revision b))"
  by (simp add: layer_fits_def layer_rebind_revision_def rule_rebind_revision_def rebind_mismatch)

lemma layer_fits_rebind_same: "layer_fits b l \<Longrightarrow> layer_fits b (layer_rebind_revision l (boundary_revision b))"
  by (simp add: layer_fits_def layer_rebind_revision_def rule_rebind_revision_def mismatch_None_revision)

lemma amended_layers_set:
  assumes "tiers_ascending ls"
  shows "set (amended_layers_from ls target repl rv 0 False) =
    (\<lambda>l. layer_rebind_revision l rv) ` insert repl {l \<in> set ls. layer_tier l \<noteq> target}"
proof -
  have "policy_tier_rank (layer_tier l) < policy_tier_rank target \<or> policy_tier_rank target < policy_tier_rank (layer_tier l)
      \<longleftrightarrow> layer_tier l \<noteq> target" for l
    using policy_tier_rank_inject by (metis linorder_neq_iff)
  then show ?thesis using amended_layers[of 0 ls target repl rv] assms by auto
qed

lemma preview_amendment_Ok:
  assumes valid: "policy_valid p" and tier: "layer_tier (proposal_replacement a) = proposal_tier a"
  shows "(\<exists>c. preview_amendment p a = Ok c) \<longleftrightarrow>
    proposal_base_policy_id a = definition_policy_id p
  \<and> layer_fits (ceiling_boundary (policy_ceiling p)) (layer_rebind_revision (proposal_replacement a)
      (boundary_revision (ceiling_boundary (policy_ceiling p))))"
    (is "_ \<longleftrightarrow> ?base \<and> ?fits")
proof -
  let ?b = "ceiling_boundary (policy_ceiling p)"
  let ?rv = "successor_revision (boundary_revision ?b) (proposal_successor_policy_id a)"
  let ?ls = "amended_layers_from (layers p) (proposal_tier a) (proposal_replacement a) ?rv 0 False"
  from valid have asc: "tiers_ascending (layers p)" and fits: "\<forall>l\<in>set (layers p). layer_fits ?b l"
    by (simp_all add: policy_valid_iff)
  have tiers: "tiers_ascending ?ls" using asc tier by (rule amended_layers_tiers)
  have rule: "(\<forall>l\<in>set ?ls. layer_fits (boundary_rebind_revision ?b ?rv) l) \<longleftrightarrow> ?fits"
    using fits by (auto simp: amended_layers_set[OF asc] layer_fits_rebind layer_fits_rebind_same)
  have "(\<exists>q. policy_definition_new (proposal_successor_policy_id a) (ceiling_rebind_revision (policy_ceiling p) ?rv)
      (operations p) ?ls = Ok q) \<longleftrightarrow> ?fits"
    using tiers rule
    by (simp add: policy_definition_new_Ok ceiling_rebind_revision_def)
      (simp add: boundary_rebind_revision_def successor_revision_def)
  then show ?thesis
    by (auto simp: preview_amendment_def Let_def split: sum.splits)
qed

end
