(* ===== verification/Policy_Capability.thy ===== *)
theory Policy_Capability
  imports Policy_Decisions
begin

text \<open>
  \<open>peritus-policy\<close>, files \<open>capability.rs\<close>, \<open>capability_use.rs\<close>, \<open>capability_transition.rs\<close>,
  \<open>capability_failure.rs\<close> and \<open>capability_issuance.rs\<close>: issuing a capability from an authorized plan
  and using it. A use consumes the capability and returns its successor; a failed use returns it
  unchanged. Runs of uses are executions of the reducer interface.
\<close>

record capability =
  capability_scope :: capability_scope
  capability_issued_at :: authority_instant
  issuance_digest :: sha256_digest
  issuance_command_id :: command_id
  capability_time_state :: authority_time_state
  remaining_uses :: use_limit

record capability_use_request =
  use_action_id :: action_id
  use_action_digest :: sha256_digest
  use_permission :: permission
  use_actor_id :: actor_id
  use_role :: actor_role
  use_environment_id :: environment_id
  use_revision :: revision_tuple
  use_observed_at :: authority_instant

record capability_use_transition =
  used_action_id :: action_id
  used_action_digest :: sha256_digest
  used_permission :: permission
  used_at :: authority_instant
  use_transition_digest :: sha256_digest
  previous_remaining :: use_limit
  use_successor :: capability

record capability_use_failure =
  use_failure_error :: policy_error
  use_failure_capability :: capability

record capability_issuance_transition =
  issued_command_id :: command_id
  issued_transition_digest :: sha256_digest
  issued_capability :: capability

definition capability_from_issuance ::
  "capability_scope \<Rightarrow> authority_instant \<Rightarrow> sha256_digest \<Rightarrow> command_id \<Rightarrow> authority_time_state \<Rightarrow> capability" where
  "capability_from_issuance scope issued digest command time =
     \<lparr>capability_scope = scope, capability_issued_at = issued, issuance_digest = digest,
      issuance_command_id = command, capability_time_state = time,
      remaining_uses = scope_use_limit scope\<rparr>"

definition issue :: "issuance_plan \<Rightarrow> command_id \<Rightarrow> sha256_digest \<Rightarrow> capability_issuance_transition" where
  "issue plan command digest =
     \<lparr>issued_command_id = command, issued_transition_digest = digest,
      issued_capability = capability_from_issuance (plan_scope plan) (plan_evaluated_at plan) digest command
        (plan_time_state plan)\<rparr>"

definition scope_mismatch :: "capability_use_request \<Rightarrow> capability_scope \<Rightarrow> scope_dimension option" where
  "scope_mismatch q s =
    (if \<not> identifier_values_equal (actor_id_raw (use_actor_id q)) (actor_id_raw (scope_actor s)) then Some ActorDimension
     else if canonical_rank (use_role q) \<noteq> canonical_rank (scope_role s) then Some RoleDimension
     else if \<not> identifier_values_equal (environment_id_raw (use_environment_id q)) (environment_id_raw (scope_environment s))
     then Some EnvironmentDimension
     else if \<not> revision_values_equal (use_revision q) (scope_revision s) then Some RevisionDimension
     else if \<not> permission_set_contains (scope_permissions s) (use_permission q) then Some PermissionsDimension
     else None)"

definition validate_use_time :: "capability \<Rightarrow> authority_instant \<Rightarrow> policy_error + unit" where
  "validate_use_time c t =
    (case validate_observation (capability_time_state c) t of
       Inl e \<Rightarrow> Err e
     | Inr _ \<Rightarrow> (case window_contains (scope_validity (capability_scope c)) t of
         Inl e \<Rightarrow> Err e
       | Inr is_current \<Rightarrow>
          if \<not> is_current \<and> tick_millis t < tick_millis (not_before (scope_validity (capability_scope c)))
          then Err (plain_policy_error CapabilityNotYetValid)
          else if \<not> is_current then Err (plain_policy_error CapabilityExpired)
          else Ok ()))"

definition try_use ::
  "capability \<Rightarrow> capability_use_request \<Rightarrow> sha256_digest \<Rightarrow> capability_use_failure + capability_use_transition" where
  "try_use c q digest =
    (case scope_mismatch q (capability_scope c) of
       Some d \<Rightarrow> Err \<lparr>use_failure_error = capability_scope_mismatch d, use_failure_capability = c\<rparr>
     | None \<Rightarrow> (case validate_use_time c (use_observed_at q) of
         Inl e \<Rightarrow> Err \<lparr>use_failure_error = e, use_failure_capability = c\<rparr>
       | Inr _ \<Rightarrow> (case limit_decrement (remaining_uses c) of
           Inl e \<Rightarrow> Err \<lparr>use_failure_error = e, use_failure_capability = c\<rparr>
         | Inr left \<Rightarrow> (case time_observe (capability_time_state c) (use_observed_at q) of
             Inl f \<Rightarrow> Err \<lparr>use_failure_error = time_failure_error f,
               use_failure_capability = c\<lparr>capability_time_state := time_failure_state f\<rparr>\<rparr>
           | Inr time \<Rightarrow> Ok \<lparr>used_action_id = use_action_id q, used_action_digest = use_action_digest q,
               used_permission = use_permission q, used_at = use_observed_at q,
               use_transition_digest = digest, previous_remaining = remaining_uses c,
               use_successor = c\<lparr>capability_time_state := time, remaining_uses := left\<rparr>\<rparr>))))"

section \<open>One use\<close>

lemma scope_mismatch_None: "scope_mismatch q s = None \<longleftrightarrow>
    use_actor_id q = scope_actor s \<and> use_role q = scope_role s \<and> use_environment_id q = scope_environment s
  \<and> use_revision q = scope_revision s \<and> use_permission q \<in> permissions_of (scope_permissions s)"
  by (auto simp: scope_mismatch_def)

lemma validate_use_time_Ok: "validate_use_time c t = Ok () \<longleftrightarrow>
    observable (capability_time_state c) t \<and> t \<in> window_set (scope_validity (capability_scope c))"
  by (auto simp: validate_use_time_def validate_observation_Ok[symmetric] window_contains_iff[symmetric]
      split: sum.splits)

definition permits_use :: "capability \<Rightarrow> capability_use_request \<Rightarrow> bool" where
  "permits_use c q \<longleftrightarrow>
     use_actor_id q = scope_actor (capability_scope c) \<and> use_role q = scope_role (capability_scope c)
   \<and> use_environment_id q = scope_environment (capability_scope c)
   \<and> use_revision q = scope_revision (capability_scope c)
   \<and> use_permission q \<in> permissions_of (scope_permissions (capability_scope c))
   \<and> observable (capability_time_state c) (use_observed_at q)
   \<and> use_observed_at q \<in> window_set (scope_validity (capability_scope c))"

lemma try_use_Ok:
  "try_use c q d = Ok tr \<longleftrightarrow> permits_use c q \<and> (\<exists>left. limit_decrement (remaining_uses c) = Ok left
     \<and> tr = \<lparr>used_action_id = use_action_id q, used_action_digest = use_action_digest q,
         used_permission = use_permission q, used_at = use_observed_at q,
         use_transition_digest = d, previous_remaining = remaining_uses c,
         use_successor = c\<lparr>capability_time_state := authority_time_state_new (use_observed_at q),
           remaining_uses := left\<rparr>\<rparr>)"
proof (cases "permits_use c q")
  case True
  then have "scope_mismatch q (capability_scope c) = None" "validate_use_time c (use_observed_at q) = Ok ()"
    "time_observe (capability_time_state c) (use_observed_at q) = Ok (authority_time_state_new (use_observed_at q))"
    by (simp_all add: permits_use_def scope_mismatch_None validate_use_time_Ok time_observe_Ok)
  with True show ?thesis by (auto simp: try_use_def split: sum.splits)
next
  case False
  then consider "scope_mismatch q (capability_scope c) \<noteq> None" | "validate_use_time c (use_observed_at q) \<noteq> Ok ()"
    by (auto simp: permits_use_def scope_mismatch_None validate_use_time_Ok)
  then show ?thesis using False
    by cases (auto simp: try_use_def split: option.splits sum.splits)
qed

lemma try_use_Err: "try_use c q d = Err f \<Longrightarrow> use_failure_capability f = c"
  by (auto simp: try_use_def time_observe_def validate_use_time_def validate_observation_def
      split: option.splits sum.splits if_splits)

section \<open>Runs\<close>

definition uses :: "capability \<Rightarrow> capability_use_request \<times> sha256_digest \<Rightarrow> capability \<Rightarrow> capability_use_transition \<Rightarrow> bool" where
  "uses c q c' tr \<longleftrightarrow> try_use c (fst q) (snd q) = Ok tr \<and> c' = use_successor tr"

definition capability_inv :: "capability \<Rightarrow> bool" where
  "capability_inv c \<longleftrightarrow> limit_uses (remaining_uses c) \<subseteq> limit_uses (scope_use_limit (capability_scope c))"

definition capability_le :: "capability \<Rightarrow> capability \<Rightarrow> bool" where
  "capability_le c c' \<longleftrightarrow> capability_scope c' = capability_scope c
     \<and> capability_issued_at c' = capability_issued_at c \<and> issuance_digest c' = issuance_digest c
     \<and> issuance_command_id c' = issuance_command_id c
     \<and> time_epoch (capability_time_state c') = time_epoch (capability_time_state c)
     \<and> greatest_tick_millis (capability_time_state c) \<le> greatest_tick_millis (capability_time_state c')
     \<and> limit_uses (remaining_uses c') \<subseteq> limit_uses (remaining_uses c)"

lemma limit_decrement_uses: "limit_decrement l = Ok k \<Longrightarrow> limit_uses k \<subseteq> limit_uses l"
  by (auto simp: limit_decrement_Ok limit_uses_def split: option.splits)

interpretation capability_uses: reducer uses capability_inv capability_le
proof unfold_locales
  show "capability_inv c'" if "capability_inv c" "uses c q c' tr" for c q c' tr
    using that limit_decrement_uses by (fastforce simp: uses_def try_use_Ok capability_inv_def)
  show "capability_le c c'" if "uses c q c' tr" for c q c' tr
    using that
    by (auto simp: uses_def try_use_Ok capability_le_def permits_use_def observable_def authority_time_state_new_def
        dest: limit_decrement_uses[THEN subsetD])
  show "capability_le c c" for c by (simp add: capability_le_def)
  show "capability_le c c''" if "capability_le c c'" "capability_le c' c''" for c c' c''
    using that by (auto simp: capability_le_def)
qed

text \<open>
  A caller that submits a list of requests keeps the capability a failed use returns. \<open>use_all\<close>
  collects the transitions of the successful ones.
\<close>

fun use_all ::
  "capability \<Rightarrow> (capability_use_request \<times> sha256_digest) list \<Rightarrow> capability_use_transition list \<times> capability" where
  "use_all c [] = ([], c)"
| "use_all c (q # qs) = (case try_use c (fst q) (snd q) of
     Inl f \<Rightarrow> use_all (use_failure_capability f) qs
   | Inr tr \<Rightarrow> (case use_all (use_successor tr) qs of (trs, c') \<Rightarrow> (tr # trs, c')))"

lemma use_all_run: "use_all c qs = (trs, c') \<Longrightarrow> (successor uses)\<^sup>*\<^sup>* c c'"
proof (induction qs arbitrary: c trs)
  case (Cons q qs)
  show ?case
  proof (cases "try_use c (fst q) (snd q)")
    case (Inl f)
    with Cons try_use_Err[OF Inl] show ?thesis by simp
  next
    case (Inr tr)
    then have "successor uses c (use_successor tr)" by (auto simp: successor_def uses_def)
    with Inr Cons show ?thesis
      by (auto split: prod.splits intro: converse_rtranclp_into_rtranclp)
  qed
qed simp

lemma use_all_count:
  "use_all c qs = (trs, c') \<Longrightarrow> (case limit_remaining (remaining_uses c) of
     None \<Rightarrow> remaining_uses c' = remaining_uses c
   | Some n \<Rightarrow> (\<exists>m. limit_remaining (remaining_uses c') = Some m \<and> unat n = unat m + length trs))"
proof (induction qs arbitrary: c trs)
  case Nil
  then show ?case by (auto split: option.splits)
next
  case (Cons q qs)
  show ?case
  proof (cases "try_use c (fst q) (snd q)")
    case (Inl f)
    with Cons try_use_Err[OF Inl] show ?thesis by simp
  next
    case (Inr tr)
    then have dec: "limit_decrement (remaining_uses c) = Ok (remaining_uses (use_successor tr))"
      by (auto simp: try_use_Ok)
    from Inr Cons.prems obtain trs' where trs': "use_all (use_successor tr) qs = (trs', c')" "trs = tr # trs'"
      by (auto split: prod.splits)
    from Cons.IH[OF trs'(1)] dec show ?thesis
      by (cases "limit_remaining (remaining_uses c)") (auto simp: limit_decrement_Ok trs'(2))
  qed
qed

lemma use_all_permits:
  "use_all c qs = (trs, c') \<Longrightarrow> tr \<in> set trs \<Longrightarrow>
     used_permission tr \<in> permissions_of (scope_permissions (capability_scope c))
   \<and> used_at tr \<in> window_set (scope_validity (capability_scope c))
   \<and> observable (capability_time_state c) (used_at tr)"
proof (induction qs arbitrary: c trs)
  case (Cons q qs)
  show ?case
  proof (cases "try_use c (fst q) (snd q)")
    case (Inl f)
    with Cons try_use_Err[OF Inl] show ?thesis by simp
  next
    case (Inr u)
    from Inr Cons.prems obtain trs' where trs': "use_all (use_successor u) qs = (trs', c')" "trs = u # trs'"
      by (auto split: prod.splits)
    from Inr have u: "permits_use c (fst q)" "capability_scope (use_successor u) = capability_scope c"
      "capability_time_state (use_successor u) = authority_time_state_new (used_at u)"
      "used_permission u = use_permission (fst q)" "used_at u = use_observed_at (fst q)"
      by (auto simp: try_use_Ok)
    from Cons.prems(2) trs'(2) consider "tr = u" | "tr \<in> set trs'" by auto
    then show ?thesis
    proof cases
      case 1
      with u show ?thesis by (simp add: permits_use_def)
    next
      case 2
      from Cons.IH[OF trs'(1) 2] u show ?thesis
        by (auto simp: permits_use_def observable_def authority_time_state_new_def)
    qed
  qed
qed simp

lemma use_all_snoc:
  "use_all c qs = (trs, c') \<Longrightarrow> try_use c' (fst q) (snd q) = Ok tr \<Longrightarrow>
     use_all c (qs @ [q]) = (trs @ [tr], use_successor tr)"
  by (induction qs arbitrary: c trs) (auto split: sum.splits prod.splits)

text \<open>The uses of a capability issued from an authorization.\<close>

lemma issued_uses:
  assumes ok: "policy_ok p" and plan: "evaluate p s time t = Some (Ok (Authorized plan))"
    and uses: "use_all (issued_capability (issue plan command digest)) requests = (accepted, c)"
  shows "length accepted \<in> effective_uses p s
    \<and> used_at ` set accepted \<subseteq> effective_instants p s
    \<and> used_permission ` set accepted \<subseteq> permissions_of (scope_permissions s)
    \<and> (\<forall>q\<in>used_permission ` set accepted. permitted_operation p (scope_role s) q)"
proof -
  let ?c = "issued_capability (issue plan command digest)"
  from plan ok have A: "admissible p s" "constrained_scope p s (plan_scope plan)"
    by (simp_all add: evaluate_Authorized)
  then obtain v l where scope: "plan_scope plan = with_constraints s v l"
    and vl: "window_set v = effective_instants p s" "limit_uses l = effective_uses p s"
    by (auto simp: constrained_scope_def)
  have c: "capability_scope ?c = plan_scope plan" "remaining_uses ?c = l"
    by (simp_all add: issue_def capability_from_issuance_def scope)
  have "length accepted \<in> limit_uses l"
    using use_all_count[OF uses] by (auto simp: c limit_uses_def split: option.splits)
  then show ?thesis
    using use_all_permits[OF uses] A(1) by (auto simp: c scope vl admissible_def)
qed

lemma issued_scope:
  assumes ok: "policy_ok p" and plan: "evaluate p s time t = Some (Ok (Authorized plan))"
    and uses: "use_all (issued_capability (issue plan command digest)) requests = (accepted, c)"
  shows "admissible p s \<and> (\<exists>v l. capability_scope c = with_constraints s v l)"
proof -
  have "capability_inv (issued_capability (issue plan command digest))"
    by (simp add: capability_inv_def issue_def capability_from_issuance_def)
  then have "capability_le (issued_capability (issue plan command digest)) c"
    by (rule capability_uses.run_le[OF use_all_run[OF uses]])
  with plan show ?thesis unfolding evaluate_Authorized[OF ok]
    by (auto simp: capability_le_def issue_def capability_from_issuance_def constrained_scope_def)
qed

end
