(* ===== verification/Policy_Examples.thy ===== *)
theory Policy_Examples
  imports Policy_Amendment Policy_Capability
begin

text \<open>
  A concrete policy, used as input of the witnesses. One writer may inspect one resource in one
  environment between the ticks 0 and 100, five times at most, three of them by the only grant;
  the request asks for two uses. An amendment adds a user layer that denies writers.
\<close>

definition first_instant :: "u64 \<Rightarrow> authority_instant" where
  "first_instant n = \<lparr>epoch = generation_first, tick_millis = n\<rparr>"

definition sample_window :: validity_window where
  "sample_window = Validity_window (first_instant 0, first_instant 100)"

lemma sample_window_bounds [simp]:
  "not_before sample_window = first_instant 0" "expires_at sample_window = first_instant 100"
  by (simp_all add: not_before_def expires_at_def sample_window_def Validity_window_inverse
      well_ordered_bounds_def first_instant_def)

lemma first_instant_sel [simp]: "epoch (first_instant n) = generation_first" "tick_millis (first_instant n) = n"
  by (simp_all add: first_instant_def)

lemma sample_window_set: "window_set sample_window = {t. epoch t = generation_first \<and> tick_millis t < 100}"
  by (auto simp: window_set_def)

definition policy_revision :: "u8 \<Rightarrow> revision_tuple" where
  "policy_revision b = \<lparr>acceptance_spec_id = AcceptanceSpecId (low_identifier 1),
     harness_id = HarnessId (low_identifier 2), workspace_id = WorkspaceId (low_identifier 3),
     workspace_generation = generation_first, workspace_revision = revision_number_first,
     policy_id = PolicyId (low_identifier b), provider_profile_id = ProviderProfileId (low_identifier 5)\<rparr>"

definition sample_permission :: permission where
  "sample_permission = \<lparr>permission_resource = ResourceId (low_identifier 7),
     permission_name = Capability_name sample_name\<rparr>"

definition sample_permissions :: permission_set where
  "sample_permissions = Permission_set [sample_permission]"

lemma sample_permissions_list [simp]: "permission_list sample_permissions = [sample_permission]"
  by (simp add: sample_permissions_def Permission_set_inverse canonical_permissions_def)

lemma sample_permissions_of [simp]: "permissions_of sample_permissions = {sample_permission}"
  by (simp add: permissions_of_def)

definition sample_selector :: "actor_role selector_values \<Rightarrow> scope_selector" where
  "sample_selector roles = \<lparr>selector_actors = AnyWithinParent, selector_roles = roles,
     selector_environments = AnyWithinParent, selector_permissions = None,
     selector_revision = policy_revision 4\<rparr>"

definition sample_boundary :: authority_boundary where
  "sample_boundary = \<lparr>boundary_actors = [ActorId (low_identifier 1)], boundary_roles = [Writer],
     boundary_environments = [EnvironmentId (low_identifier 1)], boundary_permissions = sample_permissions,
     boundary_revision = policy_revision 4, boundary_validity = sample_window,
     boundary_use_limit = UseLimit (Some 5)\<rparr>"

definition sample_grant :: ceiling_grant where
  "sample_grant = \<lparr>grant_digest = low_digest 1, grant_selector = sample_selector (Exact [Writer]),
     grant_validity = sample_window, grant_use_limit = UseLimit (Some 3)\<rparr>"

definition sample_policy :: policy_definition where
  "sample_policy = \<lparr>definition_policy_id = PolicyId (low_identifier 4),
     policy_ceiling = \<lparr>ceiling_boundary = sample_boundary, ceiling_grants = [sample_grant], immutable_denies = []\<rparr>,
     operations = OperationRegistry [\<lparr>descriptor_name = Capability_name sample_name,
       descriptor_class = Inspection, descriptor_risks = RiskSet [ReadRisk]\<rparr>],
     layers = []\<rparr>"

definition sample_scope :: capability_scope where
  "sample_scope = \<lparr>scope_actor = ActorId (low_identifier 1), scope_role = Writer,
     scope_environment = EnvironmentId (low_identifier 1), scope_permissions = sample_permissions,
     scope_revision = policy_revision 4, scope_validity = sample_window, scope_use_limit = UseLimit (Some 2)\<rparr>"

definition sample_time :: authority_time_state where
  "sample_time = authority_time_state_new (first_instant 1)"

definition sample_plan :: issuance_plan where
  "sample_plan = \<lparr>plan_scope = sample_scope, plan_evaluated_at = first_instant 10,
     plan_time_state = authority_time_state_new (first_instant 10)\<rparr>"

lemma sample_policy_ok: "policy_ok sample_policy"
  by (simp add: policy_ok_def registry_ok_def sample_policy_def)

lemma sample_admissible: "admissible sample_policy sample_scope"
  by (auto simp: admissible_def sample_policy_def sample_scope_def sample_boundary_def sample_grant_def
      sample_selector_def sample_permission_def policy_revision_def scope_policy_id_def contains_scope_def
      permitted_operation_def policy_rules_def matches_identity_def selector_contains_permission_def
      permission_selector_contains_def window_is_within_def selected_def)

lemma sample_covers: "covers (grant_selector sample_grant) sample_scope"
  by (simp add: covers_def sample_grant_def sample_selector_def sample_scope_def matches_identity_def
      selector_contains_permission_def permission_selector_contains_def selected_def)

lemma sample_instants: "effective_instants sample_policy sample_scope = window_set sample_window"
  using sample_covers
  by (auto simp: effective_instants_def applicable_grants_def sample_policy_def sample_boundary_def
      sample_scope_def sample_grant_def)

lemma sample_uses: "effective_uses sample_policy sample_scope = limit_uses (UseLimit (Some 2))"
  using sample_covers
  by (auto simp: effective_uses_def applicable_grants_def sample_policy_def sample_boundary_def
      sample_scope_def sample_grant_def limit_uses_def)

lemma sample_no_requirements: "applicable_requirements sample_policy sample_scope = {}"
  by (simp add: applicable_requirements_def policy_rules_def sample_policy_def)

lemma sample_constrained: "constrained_scope sample_policy sample_scope sample_scope"
  unfolding constrained_scope_def sample_instants sample_uses
  by (rule exI[of _ sample_window], rule exI[of _ "UseLimit (Some 2)"])
    (simp add: with_constraints_def sample_scope_def)

lemma sample_evaluate:
  "evaluate sample_policy sample_scope sample_time (first_instant 10) = Some (Ok (Authorized sample_plan))"
  unfolding evaluate_Authorized[OF sample_policy_ok]
  using sample_admissible sample_no_requirements sample_constrained
  by (simp add: sample_instants sample_window_set sample_plan_def observable_def sample_time_def
      authority_time_state_new_def)

section \<open>A use and an amendment\<close>

definition sample_request :: "u64 \<Rightarrow> capability_use_request" where
  "sample_request n = \<lparr>use_action_id = ActionId (low_identifier 1), use_action_digest = low_digest 2,
     use_permission = sample_permission, use_actor_id = ActorId (low_identifier 1), use_role = Writer,
     use_environment_id = EnvironmentId (low_identifier 1), use_revision = policy_revision 4,
     use_observed_at = first_instant n\<rparr>"

definition sample_capability :: capability where
  "sample_capability = issued_capability (issue sample_plan (CommandId (low_identifier 1)) (low_digest 3))"

lemma sample_capability_sel [simp]:
  "capability_scope sample_capability = sample_scope"
  "capability_time_state sample_capability = authority_time_state_new (first_instant 10)"
  "remaining_uses sample_capability = UseLimit (Some 2)"
  by (simp_all add: sample_capability_def issue_def capability_from_issuance_def sample_plan_def sample_scope_def)

lemma sample_permits: "10 \<le> n \<Longrightarrow> n < 100 \<Longrightarrow> permits_use sample_capability (sample_request n)"
  by (auto simp: permits_use_def sample_request_def sample_scope_def sample_window_set observable_def
      authority_time_state_new_def)

definition sample_proposal :: amendment_proposal where
  "sample_proposal = \<lparr>proposal_base_policy_id = PolicyId (low_identifier 4),
     proposal_successor_policy_id = PolicyId (low_identifier 6), proposal_tier = UserPolicy,
     proposal_replacement = \<lparr>layer_tier = UserPolicy, layer_rules =
       [\<lparr>rule_digest = low_digest 4, rule_selector = sample_selector (Exact [Writer]), rule_kind = Deny\<rparr>]\<rparr>,
     proposal_digest = low_digest 5\<rparr>"

lemma sample_bound_to: "bound_to (policy_revision 4) sample_policy"
  by (simp add: bound_to_def sample_policy_def sample_boundary_def sample_grant_def sample_selector_def
      policy_revision_def)

lemma sample_policy_valid: "policy_valid sample_policy"
  by (simp add: policy_valid_iff sample_policy_def sample_boundary_def policy_revision_def tiers_ascending_def)

lemma sample_preview: "\<exists>c. preview_amendment sample_policy sample_proposal = Ok c"
  by (subst preview_amendment_Ok[OF sample_policy_valid])
    (simp_all add: sample_proposal_def sample_policy_def layer_fits_def layer_rebind_revision_def
      rule_rebind_revision_def selector_rebind_revision_def sample_selector_def sample_boundary_def
      first_boundary_mismatch_def actors_outside_def roles_outside_def environments_outside_def
      permissions_outside_def)

end
