(* ===== verification/Policy_Properties.thy ===== *)
theory Policy_Properties
  imports Policy_Examples
begin

text \<open>The properties of capability names and of the policy engine.\<close>

text \<open>
  C29. A string becomes a capability name exactly when it has at most 128 bytes and is a dotted
  name of the grammar: segments that start with a lowercase letter, go on with lowercase letters,
  digits and hyphens, separated by single dots. The name keeps the string.
\<close>
theorem capability_names_match_grammar:
  "capability_name_new s = Ok n \<longleftrightarrow>
     length (str_bytes s) \<le> 128 \<and> dotted_name (str_bytes s) \<and> name_value n = s"
  by (rule capability_name_new_Ok)

text \<open>
  C7. The evaluation of a policy in canonical form never panics, and every answer is the one the
  meaning of the policy prescribes: time errors on a bad clock, a denial for inadmissible scopes,
  empty constraints, requirements that no approver can meet and instants outside the effective
  window, an authorization exactly on the constrained scope, and a challenge whose requirement is
  met by exactly the approvers that meet every applicable requirement inside the window.
\<close>
theorem evaluation_answers_policy:
  assumes "policy_ok p"
  shows "\<exists>r. evaluate p s time t = Some r \<and> answers p s time t r"
  using assms by (rule evaluate_answers)

theorem evaluation_answers_policy_witness:
  "\<exists>r. evaluate sample_policy sample_scope sample_time (first_instant 200) = Some r
     \<and> answers sample_policy sample_scope sample_time (first_instant 200) r"
  by (rule evaluation_answers_policy) (rule sample_policy_ok)

text \<open>
  C12. A policy authorizes a request exactly when the clock admits the instant, the scope is
  admissible, the instant lies in every window and no requirement of approval applies; the plan is
  then the requested scope with the intersections of all windows and all limits, at that instant.
\<close>
theorem authorization_is_exact:
  assumes "policy_ok p"
  shows "evaluate p s time t = Some (Ok (Authorized plan)) \<longleftrightarrow>
    observable time t \<and> admissible p s \<and> t \<in> effective_instants p s \<and> applicable_requirements p s = {}
  \<and> constrained_scope p s (plan_scope plan) \<and> plan_evaluated_at plan = t
  \<and> plan_time_state plan = authority_time_state_new t"
  using assms by (rule evaluate_Authorized)

theorem authorization_is_exact_witness:
  "evaluate sample_policy sample_scope sample_time (first_instant 10) = Some (Ok (Authorized sample_plan))"
  unfolding authorization_is_exact[OF sample_policy_ok]
  using sample_admissible sample_no_requirements sample_constrained
  by (simp add: sample_instants sample_window_set sample_plan_def observable_def sample_time_def
      authority_time_state_new_def)

text \<open>
  C14. Whatever requests a holder submits with a capability issued from an authorization, the
  accepted uses are at most as many as every limit of the policy allows, at instants inside every
  window of the policy, and of permissions that the requested scope has and the policy admits.
\<close>
theorem issued_uses_stay_authorized:
  assumes ok: "policy_ok p" and plan: "evaluate p s time t = Some (Ok (Authorized plan))"
    and uses: "use_all (issued_capability (issue plan command digest)) requests = (accepted, c)"
  shows "length accepted \<in> effective_uses p s
    \<and> used_at ` set accepted \<subseteq> effective_instants p s
    \<and> used_permission ` set accepted \<subseteq> permissions_of (scope_permissions s)
    \<and> (\<forall>q\<in>used_permission ` set accepted. permitted_operation p (scope_role s) q)"
  using ok plan uses by (rule issued_uses)

theorem issued_uses_stay_authorized_witness:
  "\<exists>accepted c. use_all sample_capability [(sample_request 20, low_digest 4)] = (accepted, c)
     \<and> length accepted \<in> effective_uses sample_policy sample_scope"
proof -
  obtain accepted c where uses: "use_all sample_capability [(sample_request 20, low_digest 4)] = (accepted, c)"
    by (rule prod.exhaust)
  from issued_uses_stay_authorized[OF sample_policy_ok sample_evaluate uses[unfolded sample_capability_def]] uses
  show ?thesis by blast
qed

text \<open>
  C30. An amendment cannot widen the ceiling. A scope rebound to the successor policy is
  admissible there exactly when the ceiling of the base policy admits it, with its boundary,
  operations, immutable denies and grants, and no restriction layer of the successor denies it.
\<close>
theorem amendments_keep_the_ceiling:
  assumes "bound_to base p" and "scope_revision s = base" and "preview_amendment p a = Ok c"
    and "s' = s\<lparr>scope_revision := successor_revision base (proposal_successor_policy_id a)\<rparr>"
  shows "admissible (successor_policy c) s' \<longleftrightarrow>
    ceiling_admits p s \<and> \<not> has_restriction_deny (successor_policy c) s'"
  using successor_ceiling_admits[OF assms(1,2) refl assms(3) refl] assms(4)
  by (simp add: admissible_ceiling)

theorem amendments_keep_the_ceiling_witness:
  "\<exists>c. preview_amendment sample_policy sample_proposal = Ok c
     \<and> (admissible (successor_policy c)
          (sample_scope\<lparr>scope_revision := successor_revision (policy_revision 4) (PolicyId (low_identifier 6))\<rparr>) \<longleftrightarrow>
        ceiling_admits sample_policy sample_scope \<and> \<not> has_restriction_deny (successor_policy c)
          (sample_scope\<lparr>scope_revision := successor_revision (policy_revision 4) (PolicyId (low_identifier 6))\<rparr>))"
proof -
  obtain c where c: "preview_amendment sample_policy sample_proposal = Ok c" using sample_preview by blast
  have s: "scope_revision sample_scope = policy_revision 4" by (simp add: sample_scope_def)
  from amendments_keep_the_ceiling[OF sample_bound_to s c refl] c show ?thesis
    by (auto simp: sample_proposal_def)
qed

end
