(* ===== verification/Lease_Model.thy ===== *)
theory Lease_Model
  imports Policy_Capability
begin

text \<open>
  \<open>peritus-leases\<close>, files \<open>scope.rs\<close>, \<open>claim.rs\<close>, \<open>failure.rs\<close>, \<open>reconcile.rs\<close>, \<open>command.rs\<close>,
  \<open>command/fencing.rs\<close>, \<open>state.rs\<close>, \<open>state/validity.rs\<close> and \<open>binding/\<close>: the exclusive-resource lease
  aggregate, its commands, its failures, and the validity every stored aggregate must have.
\<close>

section \<open>Scopes, holders, claims\<close>

record lease_scope =
  lease_workspace :: workspace_id
  lease_resource :: resource_id
  lease_environment :: environment_id

record lease_holder =
  holder_actor_id :: actor_id
  holder_session_id :: session_id

record lease_claim =
  claim_scope :: lease_scope
  claim_holder :: lease_holder
  claim_generation :: generation
  claim_version :: revision_number
  claim_issued_at :: authority_instant
  claim_expires_at :: authority_instant

section \<open>Failures\<close>

datatype lease_phase = AvailablePhase | ActivePhase | ReconcilingPhase | QuarantinedPhase | RetiredPhase

datatype lease_recovery =
  LeaseTerminal | LeaseReobserve | LeaseReauthorize | LeaseResolveIndeterminate | LeaseCallerCorrectable

datatype lease_scope_dimension = WorkspaceMismatch | ResourceMismatch | LeaseEnvironmentMismatch

datatype reconciliation_dimension =
  ReconciliationScope lease_scope_dimension | FencedGenerationMismatch | PriorHolderMismatch

datatype policy_intersection_dimension =
    IntersectionActor | IntersectionEnvironment | IntersectionWorkspace | IntersectionGeneration
  | IntersectionResourcePermission | IntersectionClockEpoch | IntersectionAction

datatype lease_error =
    ZeroDuration | LeaseTimeOverflow | LeaseClockRegression | LeaseClockEpochMismatch
  | NoClockDiscontinuity | IllegalPhase (expected_phase: lease_phase) (actual_phase: lease_phase)
  | ClaimScopeMismatch lease_scope_dimension | ClaimHolderMismatch | ClaimGenerationMismatch
  | ClaimVersionMismatch | ClaimExpired | DeadlineNotExtended | LeaseNotExpired | HolderLossMismatch
  | HolderQuiescenceMismatch | ReconciliationMismatch reconciliation_dimension
  | LeaseGenerationExhausted | LeaseVersionExhausted | ClaimVersionExhausted
  | PolicyIntersectionMismatch policy_intersection_dimension | PolicyUseInvalid | LeaseCorruptState

fun lease_error_code :: "lease_error \<Rightarrow> string" where
  "lease_error_code ZeroDuration = ''PERITUS-LEASE-INPUT-001''"
| "lease_error_code LeaseTimeOverflow = ''PERITUS-LEASE-TIME-001''"
| "lease_error_code LeaseClockRegression = ''PERITUS-LEASE-TIME-002''"
| "lease_error_code LeaseClockEpochMismatch = ''PERITUS-LEASE-TIME-003''"
| "lease_error_code NoClockDiscontinuity = ''PERITUS-LEASE-TIME-004''"
| "lease_error_code (IllegalPhase _ _) = ''PERITUS-LEASE-STATE-001''"
| "lease_error_code (ClaimScopeMismatch _) = ''PERITUS-LEASE-CLAIM-001''"
| "lease_error_code ClaimHolderMismatch = ''PERITUS-LEASE-CLAIM-002''"
| "lease_error_code ClaimGenerationMismatch = ''PERITUS-LEASE-CLAIM-003''"
| "lease_error_code ClaimVersionMismatch = ''PERITUS-LEASE-CLAIM-004''"
| "lease_error_code ClaimExpired = ''PERITUS-LEASE-CLAIM-005''"
| "lease_error_code DeadlineNotExtended = ''PERITUS-LEASE-RENEW-001''"
| "lease_error_code LeaseNotExpired = ''PERITUS-LEASE-EXPIRE-001''"
| "lease_error_code HolderLossMismatch = ''PERITUS-LEASE-FENCE-001''"
| "lease_error_code HolderQuiescenceMismatch = ''PERITUS-LEASE-FENCE-002''"
| "lease_error_code (ReconciliationMismatch _) = ''PERITUS-LEASE-RECONCILE-001''"
| "lease_error_code LeaseGenerationExhausted = ''PERITUS-LEASE-GENERATION-001''"
| "lease_error_code LeaseVersionExhausted = ''PERITUS-LEASE-VERSION-001''"
| "lease_error_code ClaimVersionExhausted = ''PERITUS-LEASE-VERSION-002''"
| "lease_error_code (PolicyIntersectionMismatch _) = ''PERITUS-LEASE-AUTHORITY-001''"
| "lease_error_code PolicyUseInvalid = ''PERITUS-LEASE-AUTHORITY-002''"
| "lease_error_code LeaseCorruptState = ''PERITUS-LEASE-STATE-002''"

fun lease_error_recovery :: "lease_error \<Rightarrow> lease_recovery" where
  "lease_error_recovery LeaseClockRegression = LeaseReobserve"
| "lease_error_recovery LeaseClockEpochMismatch = LeaseReobserve"
| "lease_error_recovery LeaseNotExpired = LeaseReobserve"
| "lease_error_recovery (IllegalPhase _ _) = LeaseReobserve"
| "lease_error_recovery ClaimGenerationMismatch = LeaseReobserve"
| "lease_error_recovery ClaimVersionMismatch = LeaseReobserve"
| "lease_error_recovery ClaimExpired = LeaseReauthorize"
| "lease_error_recovery (PolicyIntersectionMismatch _) = LeaseReauthorize"
| "lease_error_recovery PolicyUseInvalid = LeaseReauthorize"
| "lease_error_recovery ZeroDuration = LeaseCallerCorrectable"
| "lease_error_recovery NoClockDiscontinuity = LeaseCallerCorrectable"
| "lease_error_recovery (ClaimScopeMismatch _) = LeaseCallerCorrectable"
| "lease_error_recovery ClaimHolderMismatch = LeaseCallerCorrectable"
| "lease_error_recovery HolderLossMismatch = LeaseCallerCorrectable"
| "lease_error_recovery HolderQuiescenceMismatch = LeaseCallerCorrectable"
| "lease_error_recovery (ReconciliationMismatch _) = LeaseCallerCorrectable"
| "lease_error_recovery DeadlineNotExtended = LeaseCallerCorrectable"
| "lease_error_recovery LeaseTimeOverflow = LeaseTerminal"
| "lease_error_recovery LeaseGenerationExhausted = LeaseTerminal"
| "lease_error_recovery LeaseVersionExhausted = LeaseTerminal"
| "lease_error_recovery ClaimVersionExhausted = LeaseTerminal"
| "lease_error_recovery LeaseCorruptState = LeaseTerminal"

typedef lease_duration = "{n :: u64. n \<noteq> 0}"
  morphisms duration_millis Lease_duration
  by (rule exI [of _ 1]) simp

setup_lifting type_definition_lease_duration

definition lease_duration_new :: "u64 \<Rightarrow> lease_error + lease_duration" where
  "lease_duration_new n = (if n = 0 then Err ZeroDuration else Ok (Lease_duration n))"

lemma duration_positive [simp]: "0 < unat (duration_millis d)"
  using duration_millis[of d] by (simp add: unat_gt_0)

section \<open>Evidence and reconciliation\<close>

record holder_loss_evidence =
  loss_claim :: lease_claim
  loss_evidence_id :: evidence_id

record holder_quiescence_evidence =
  quiescence_claim :: lease_claim
  quiescence_evidence_id :: evidence_id

datatype fence_cause =
  ReleasedWithoutQuiescence | ExpiredCause | HolderLostCause | ClockDiscontinuityCause | RevokedCause

record reconciliation_correlation =
  correlation_scope :: lease_scope
  fenced_generation :: generation
  prior_holder :: lease_holder

datatype reconciliation_disposition =
    SafeToAcquire (holder_quiescence: evidence_id) (resource_safety: evidence_id)
  | Dirty evidence_id
  | Indeterminate evidence_id

record reconciliation_observation =
  observation_correlation :: reconciliation_correlation
  observation_disposition :: reconciliation_disposition

section \<open>Commands\<close>

record mint_lease =
  mint_command_id :: command_id
  mint_scope :: lease_scope
  mint_observed_at :: authority_instant

record acquire_lease =
  acquire_command_id :: command_id
  acquire_holder :: lease_holder
  acquire_duration :: lease_duration
  acquire_observed_at :: authority_instant

record renew_lease =
  renew_command_id :: command_id
  renew_claim :: lease_claim
  renew_duration :: lease_duration
  renew_observed_at :: authority_instant

record use_lease =
  use_command_id :: command_id
  use_claim :: lease_claim
  use_lease_observed_at :: authority_instant
  capability_use :: capability_use_transition

record release_lease =
  release_command_id :: command_id
  release_claim :: lease_claim
  release_observed_at :: authority_instant
  release_quiescence :: "holder_quiescence_evidence option"

record expire_lease =
  expire_command_id :: command_id
  expire_observed_at :: authority_instant

record fence_holder_loss =
  loss_command_id :: command_id
  loss_observed_at :: authority_instant
  loss_evidence :: holder_loss_evidence

record fence_clock_discontinuity =
  discontinuity_command_id :: command_id
  discontinuity_observed_at :: authority_instant

record revoke_lease =
  revoke_command_id :: command_id
  revoke_claim :: lease_claim
  revoke_observed_at :: authority_instant
  revoke_evidence_id :: evidence_id

record reconcile_lease =
  reconcile_command_id :: command_id
  reconcile_observed_at :: authority_instant
  reconcile_observation :: reconciliation_observation

section \<open>Command bindings\<close>

record permission_binding =
  binding_resource_id :: resource_id
  binding_capability_name :: capability_name

record use_command_binding =
  ub_command_id :: command_id
  ub_claim :: lease_claim
  ub_observed_at :: authority_instant
  ub_action_id :: action_id
  ub_action_digest :: sha256_digest
  ub_permission :: permission_binding
  ub_actor_id :: actor_id
  ub_role :: actor_role
  ub_environment_id :: environment_id
  ub_scope_permissions :: "permission_binding list"
  ub_revision :: revision_tuple
  ub_validity :: validity_window
  ub_scope_use_limit :: use_limit
  ub_used_at :: authority_instant
  ub_transition_digest :: sha256_digest
  ub_previous_remaining :: use_limit
  ub_successor_remaining :: use_limit
  ub_successor_time_epoch :: generation
  ub_successor_greatest_tick_millis :: u64
  ub_successor_issued_at :: authority_instant
  ub_successor_issuance_digest :: sha256_digest
  ub_successor_issuance_command_id :: command_id

definition permission_binding_from :: "permission \<Rightarrow> permission_binding" where
  "permission_binding_from p =
     \<lparr>binding_resource_id = permission_resource p, binding_capability_name = permission_name p\<rparr>"

definition use_binding_from_command :: "use_lease \<Rightarrow> use_command_binding" where
  "use_binding_from_command c =
    (let use = capability_use c; succ = use_successor use; scope = capability_scope succ in
     \<lparr>ub_command_id = use_command_id c, ub_claim = use_claim c, ub_observed_at = use_lease_observed_at c,
      ub_action_id = used_action_id use, ub_action_digest = used_action_digest use,
      ub_permission = permission_binding_from (used_permission use),
      ub_actor_id = scope_actor scope, ub_role = scope_role scope,
      ub_environment_id = scope_environment scope,
      ub_scope_permissions = map permission_binding_from (permission_list (scope_permissions scope)),
      ub_revision = scope_revision scope, ub_validity = scope_validity scope,
      ub_scope_use_limit = scope_use_limit scope, ub_used_at = used_at use,
      ub_transition_digest = use_transition_digest use, ub_previous_remaining = previous_remaining use,
      ub_successor_remaining = remaining_uses succ,
      ub_successor_time_epoch = time_epoch (capability_time_state succ),
      ub_successor_greatest_tick_millis = greatest_tick_millis (capability_time_state succ),
      ub_successor_issued_at = capability_issued_at succ,
      ub_successor_issuance_digest = issuance_digest succ,
      ub_successor_issuance_command_id = issuance_command_id succ\<rparr>)"

datatype lease_command_binding =
    MintBinding mint_lease | AcquireBinding acquire_lease | RenewBinding renew_lease
  | UseBinding use_command_binding | ReleaseBinding release_lease | ExpireBinding expire_lease
  | HolderLossBinding fence_holder_loss | ClockDiscontinuityBinding fence_clock_discontinuity
  | RevokeBinding revoke_lease | ReconcileBinding reconcile_lease

section \<open>The aggregate\<close>

record active_lease =
  active_holder :: lease_holder
  active_claim_version :: revision_number
  active_issued_at :: authority_instant
  active_expires_at :: authority_instant

record reconciliation_state =
  reconciling_correlation :: reconciliation_correlation
  reconciling_cause :: fence_cause

record quarantined_state =
  quarantined_correlation :: reconciliation_correlation
  quarantined_cause :: fence_cause
  quarantined_disposition :: reconciliation_disposition

datatype retirement_reason = RetiredGenerationExhausted | RetiredVersionExhausted

datatype lease_state =
    Available
  | Active active_lease
  | Reconciling reconciliation_state
  | Quarantined quarantined_state
  | Retired retirement_reason

record lease_aggregate =
  aggregate_scope :: lease_scope
  aggregate_generation :: generation
  aggregate_version :: revision_number
  authority_time :: authority_time_state
  aggregate_state :: lease_state

fun state_phase :: "lease_state \<Rightarrow> lease_phase" where
  "state_phase Available = AvailablePhase"
| "state_phase (Active _) = ActivePhase"
| "state_phase (Reconciling _) = ReconcilingPhase"
| "state_phase (Quarantined _) = QuarantinedPhase"
| "state_phase (Retired _) = RetiredPhase"

definition phase :: "lease_aggregate \<Rightarrow> lease_phase" where
  "phase a = state_phase (aggregate_state a)"

definition claim_of :: "lease_aggregate \<Rightarrow> active_lease \<Rightarrow> lease_claim" where
  "claim_of a act = \<lparr>claim_scope = aggregate_scope a, claim_holder = active_holder act,
     claim_generation = aggregate_generation a, claim_version = active_claim_version act,
     claim_issued_at = active_issued_at act, claim_expires_at = active_expires_at act\<rparr>"

definition active_claim :: "lease_aggregate \<Rightarrow> lease_claim option" where
  "active_claim a = (case aggregate_state a of Active act \<Rightarrow> Some (claim_of a act) | _ \<Rightarrow> None)"

definition reconciliation :: "lease_aggregate \<Rightarrow> reconciliation_state option" where
  "reconciliation a = (case aggregate_state a of Reconciling r \<Rightarrow> Some r | _ \<Rightarrow> None)"

definition quarantine :: "lease_aggregate \<Rightarrow> quarantined_state option" where
  "quarantine a = (case aggregate_state a of Quarantined q \<Rightarrow> Some q | _ \<Rightarrow> None)"

definition lease_retirement :: "lease_aggregate \<Rightarrow> retirement_reason option" where
  "lease_retirement a = (case aggregate_state a of Retired r \<Rightarrow> Some r | _ \<Rightarrow> None)"

definition active_state_is_valid :: "lease_aggregate \<Rightarrow> active_lease \<Rightarrow> bool" where
  "active_state_is_valid a act \<longleftrightarrow>
     generation_get (epoch (active_issued_at act)) = generation_get (time_epoch (authority_time a))
   \<and> generation_get (epoch (active_expires_at act)) = generation_get (time_epoch (authority_time a))
   \<and> tick_millis (active_issued_at act) < tick_millis (active_expires_at act)
   \<and> tick_millis (active_issued_at act) \<le> greatest_tick_millis (authority_time a)
   \<and> greatest_tick_millis (authority_time a) < tick_millis (active_expires_at act)
   \<and> revision_number_get (aggregate_version a) < U64_MAX"

definition generations_are_successive :: "generation \<Rightarrow> generation \<Rightarrow> bool" where
  "generations_are_successive fenced current =
    (if generation_get fenced = U64_MAX then False
     else generation_get fenced + 1 = generation_get current)"

definition lease_scopes_equal :: "lease_scope \<Rightarrow> lease_scope \<Rightarrow> bool" where
  "lease_scopes_equal a b =
    (if \<not> identifier_values_equal (workspace_id_raw (lease_workspace a)) (workspace_id_raw (lease_workspace b)) then False
     else if \<not> identifier_values_equal (resource_id_raw (lease_resource a)) (resource_id_raw (lease_resource b)) then False
     else identifier_values_equal (environment_id_raw (lease_environment a)) (environment_id_raw (lease_environment b)))"

definition correlation_is_valid :: "lease_aggregate \<Rightarrow> reconciliation_correlation \<Rightarrow> bool" where
  "correlation_is_valid a c \<longleftrightarrow> lease_scopes_equal (correlation_scope c) (aggregate_scope a)
     \<and> generations_are_successive (fenced_generation c) (aggregate_generation a)"

definition is_safe :: "reconciliation_disposition \<Rightarrow> bool" where
  "is_safe d = (case d of SafeToAcquire _ _ \<Rightarrow> True | _ \<Rightarrow> False)"

definition lease_validate :: "lease_aggregate \<Rightarrow> lease_error + unit" where
  "lease_validate a =
    (let valid = (case aggregate_state a of
       Available \<Rightarrow> True
     | Retired _ \<Rightarrow> True
     | Active act \<Rightarrow> active_state_is_valid a act
     | Reconciling r \<Rightarrow> correlation_is_valid a (reconciling_correlation r)
     | Quarantined q \<Rightarrow> \<not> is_safe (quarantined_disposition q)
         \<and> correlation_is_valid a (quarantined_correlation q))
     in if valid then Ok () else Err LeaseCorruptState)"

lemma revision_number_checked_next_Ok:
  "revision_number_checked_next r = Ok s \<longleftrightarrow> unat (revision_number_get s) = unat (revision_number_get r) + 1"
proof (cases s)
  case (RevisionNumber n)
  have "revision_number_checked_next r = Ok s \<longleftrightarrow> positive_checked_next (revision_number_raw r) = Ok n"
    by (auto simp: revision_number_checked_next_def RevisionNumber split: sum.splits)
  then show ?thesis by (simp add: positive_checked_next_Ok revision_number_get_def RevisionNumber)
qed

lemma revision_number_checked_next_Err:
  "revision_number_checked_next r = Err e \<longleftrightarrow> revision_number_get r = U64_MAX \<and> e = NumberOverflow"
  using positive_checked_next_Err[of "revision_number_raw r" e]
  by (auto simp: revision_number_checked_next_def revision_number_get_def
      word_unat_eq_iff split: sum.splits)

lemma generation_checked_next_Err:
  "generation_checked_next g = Err e \<longleftrightarrow> generation_get g = U64_MAX \<and> e = NumberOverflow"
  using positive_checked_next_Err[of "generation_raw g" e]
  by (auto simp: generation_checked_next_def generation_get_def
      word_unat_eq_iff split: sum.splits)

lemma lease_scopes_equal_iff [simp]: "lease_scopes_equal a b \<longleftrightarrow> a = b"
  by (cases a; cases b) (auto simp: lease_scopes_equal_def)

lemma generations_are_successive_iff:
  "generations_are_successive g h \<longleftrightarrow> unat (generation_get h) = unat (generation_get g) + 1"
proof -
  have h: "unat (generation_get h) < 2 ^ 64" using unsigned_less[of "generation_get h"] by simp
  have g: "unat (generation_get g) < 2 ^ 64" using unsigned_less[of "generation_get g"] by simp
  show ?thesis
  proof (cases "generation_get g = U64_MAX")
    case True
    with h show ?thesis by (simp add: generations_are_successive_def)
  next
    case False
    with g have "unat (generation_get g) + 1 < 2 ^ 64"
      by (auto simp: word_unat_eq_iff)
    then have "unat (generation_get g + 1) = unat (generation_get g) + 1"
      by (simp add: unat_word_ariths)
    with False show ?thesis by (auto simp: generations_are_successive_def word_unat_eq_iff)
  qed
qed

lemma session_id_raw_inject [simp]: "session_id_raw a = session_id_raw b \<longleftrightarrow> a = b"
  by (auto intro: session_id.expand)

end
