(* ===== verification/Lease_Transition.thy ===== *)
theory Lease_Transition
  imports Lease_Model
begin

text \<open>
  \<open>peritus-leases\<close>, directory \<open>transition/\<close>: every operation of the aggregate. An operation consumes
  the aggregate and returns either the accepted transition, with the next aggregate and its record,
  or the error with the aggregate as it was.
\<close>

section \<open>Records and outcomes\<close>

datatype lease_transition_kind =
    Minted | Acquired | Renewed | Used (used_kind_action: action_id) (used_kind_digest: sha256_digest)
  | ReleasedAvailable | ReleasedReconciling | ExpiredKind | HolderLostKind | ClockDiscontinuityKind
  | RevokedKind | ReconciledAvailable | ReconciledQuarantined | RetiredKind retirement_reason

record lease_transition_record =
  record_command_id :: command_id
  record_scope :: lease_scope
  before_version :: "revision_number option"
  after_version :: revision_number
  before_generation :: "generation option"
  after_generation :: generation
  before_phase :: "lease_phase option"
  after_phase :: lease_phase
  record_kind :: lease_transition_kind
  record_binding :: lease_command_binding

record lease_transition =
  next_aggregate :: lease_aggregate
  transition_record :: lease_transition_record

record lease_failure =
  failure_error :: lease_error
  failure_aggregate :: lease_aggregate

type_synonym lease_outcome = "lease_failure + lease_transition"

definition rejection :: "lease_aggregate \<Rightarrow> lease_error \<Rightarrow> lease_failure" where
  "rejection before error = \<lparr>failure_error = error, failure_aggregate = before\<rparr>"

section \<open>Checks\<close>

definition require_phase :: "lease_aggregate \<Rightarrow> lease_phase \<Rightarrow> lease_error + unit" where
  "require_phase a expected =
    (if phase a = expected then Ok () else Err (IllegalPhase expected (phase a)))"

definition require_active :: "lease_aggregate \<Rightarrow> lease_error + active_lease" where
  "require_active a = (case aggregate_state a of Active act \<Rightarrow> Ok act
     | _ \<Rightarrow> Err (IllegalPhase ActivePhase (phase a)))"

definition lease_validate_observation :: "authority_time_state \<Rightarrow> authority_instant \<Rightarrow> lease_error + unit" where
  "lease_validate_observation time t =
    (if generation_get (epoch t) \<noteq> generation_get (time_epoch time) then Err LeaseClockEpochMismatch
     else if tick_millis t < greatest_tick_millis time then Err LeaseClockRegression
     else Ok ())"

definition map_policy_time :: "policy_error \<Rightarrow> lease_error" where
  "map_policy_time e = (case policy_error_kind e of
     PolicyClockEpochMismatch \<Rightarrow> LeaseClockEpochMismatch
   | PolicyClockRegression \<Rightarrow> LeaseClockRegression
   | PolicyTimeOverflow \<Rightarrow> LeaseTimeOverflow
   | _ \<Rightarrow> PolicyUseInvalid)"

definition ensure_before_expiry :: "authority_instant \<Rightarrow> authority_instant \<Rightarrow> lease_error + unit" where
  "ensure_before_expiry expires observed =
    (if generation_get (epoch observed) \<noteq> generation_get (epoch expires) then Err LeaseClockEpochMismatch
     else if tick_millis expires \<le> tick_millis observed then Err ClaimExpired
     else Ok ())"

definition next_non_fence_version :: "revision_number \<Rightarrow> lease_error + revision_number" where
  "next_non_fence_version v =
    (if U64_MAX - 1 \<le> revision_number_get v then Err LeaseVersionExhausted
     else map_err (\<lambda>_. LeaseVersionExhausted) (revision_number_checked_next v))"

definition next_active_version :: "revision_number \<Rightarrow> lease_error + revision_number" where
  "next_active_version = next_non_fence_version"

definition earlier :: "authority_instant \<Rightarrow> authority_instant \<Rightarrow> authority_instant" where
  "earlier left right = (if tick_millis left \<le> tick_millis right then left else right)"

definition validate_claim_identity :: "lease_claim \<Rightarrow> lease_claim \<Rightarrow> lease_error + unit" where
  "validate_claim_identity expected actual =
    (if \<not> identifier_values_equal (workspace_id_raw (lease_workspace (claim_scope actual)))
          (workspace_id_raw (lease_workspace (claim_scope expected)))
     then Err (ClaimScopeMismatch WorkspaceMismatch)
     else if \<not> identifier_values_equal (resource_id_raw (lease_resource (claim_scope actual)))
          (resource_id_raw (lease_resource (claim_scope expected)))
     then Err (ClaimScopeMismatch ResourceMismatch)
     else if \<not> identifier_values_equal (environment_id_raw (lease_environment (claim_scope actual)))
          (environment_id_raw (lease_environment (claim_scope expected)))
     then Err (ClaimScopeMismatch LeaseEnvironmentMismatch)
     else if \<not> identifier_values_equal (actor_id_raw (holder_actor_id (claim_holder actual)))
            (actor_id_raw (holder_actor_id (claim_holder expected)))
        \<or> \<not> identifier_values_equal (session_id_raw (holder_session_id (claim_holder actual)))
            (session_id_raw (holder_session_id (claim_holder expected)))
     then Err ClaimHolderMismatch
     else if generation_get (claim_generation actual) \<noteq> generation_get (claim_generation expected)
     then Err ClaimGenerationMismatch
     else if revision_number_get (claim_version actual) \<noteq> revision_number_get (claim_version expected)
        \<or> generation_get (epoch (claim_issued_at actual)) \<noteq> generation_get (epoch (claim_issued_at expected))
        \<or> tick_millis (claim_issued_at actual) \<noteq> tick_millis (claim_issued_at expected)
        \<or> generation_get (epoch (claim_expires_at actual)) \<noteq> generation_get (epoch (claim_expires_at expected))
        \<or> tick_millis (claim_expires_at actual) \<noteq> tick_millis (claim_expires_at expected)
     then Err ClaimVersionMismatch
     else Ok ())"

definition require_active_claim :: "lease_aggregate \<Rightarrow> lease_claim \<Rightarrow> lease_error + active_lease" where
  "require_active_claim a claim = (case require_active a of
     Inl e \<Rightarrow> Err e
   | Inr act \<Rightarrow> (case validate_claim_identity (claim_of a act) claim of
       Inl e \<Rightarrow> Err e
     | Inr _ \<Rightarrow> Ok act))"

definition lease_deadline :: "authority_instant \<Rightarrow> lease_duration \<Rightarrow> lease_error + authority_instant" where
  "lease_deadline t d = map_err map_policy_time (instant_checked_add t (duration_millis d))"

section \<open>The checked transition\<close>

datatype authority_time_advance = Observe authority_instant | Preserve | Reset authority_instant

record transition_plan =
  plan_command_id :: command_id
  plan_version :: revision_number
  plan_generation :: generation
  plan_time_advance :: authority_time_advance
  plan_state :: lease_state
  plan_kind :: lease_transition_kind
  plan_binding :: lease_command_binding

definition transition_verified :: "lease_aggregate \<Rightarrow> transition_plan \<Rightarrow> lease_outcome" where
  "transition_verified before p =
    (case lease_validate before of
       Inl e \<Rightarrow> Err (rejection before e)
     | Inr _ \<Rightarrow>
        (let advanced = (case plan_time_advance p of
             Observe t \<Rightarrow> time_observe (authority_time before) t
           | Preserve \<Rightarrow> Ok (authority_time before)
           | Reset t \<Rightarrow> Ok (authority_time_state_new t))
         in case advanced of
           Inl f \<Rightarrow> Err (rejection (before\<lparr>authority_time := time_failure_state f\<rparr>)
             (map_policy_time (time_failure_error f)))
         | Inr time \<Rightarrow>
            (let next = \<lparr>aggregate_scope = aggregate_scope before, aggregate_generation = plan_generation p,
               aggregate_version = plan_version p, authority_time = time, aggregate_state = plan_state p\<rparr>
             in Ok \<lparr>next_aggregate = next,
               transition_record = \<lparr>record_command_id = plan_command_id p, record_scope = aggregate_scope next,
                 before_version = Some (aggregate_version before), after_version = aggregate_version next,
                 before_generation = Some (aggregate_generation before),
                 after_generation = aggregate_generation next,
                 before_phase = Some (phase before), after_phase = phase next,
                 record_kind = plan_kind p, record_binding = plan_binding p\<rparr>\<rparr>)))"

definition transition :: "lease_aggregate \<Rightarrow> transition_plan \<Rightarrow> lease_outcome" where
  "transition before p = (case revision_number_checked_next (aggregate_version before) of
     Inl _ \<Rightarrow> Err (rejection before LeaseCorruptState)
   | Inr expected \<Rightarrow>
      if revision_number_get (plan_version p) \<noteq> revision_number_get expected
      then Err (rejection before LeaseCorruptState)
      else transition_verified before p)"

section \<open>Minting, acquiring, renewing\<close>

definition minted_transition :: "mint_lease \<Rightarrow> lease_aggregate \<Rightarrow> lease_transition" where
  "minted_transition c next = \<lparr>next_aggregate = next,
     transition_record = \<lparr>record_command_id = mint_command_id c, record_scope = aggregate_scope next,
       before_version = None, after_version = aggregate_version next, before_generation = None,
       after_generation = aggregate_generation next, before_phase = None, after_phase = AvailablePhase,
       record_kind = Minted, record_binding = MintBinding c\<rparr>\<rparr>"

definition mint :: "mint_lease \<Rightarrow> lease_error + lease_transition" where
  "mint c = Ok (minted_transition c \<lparr>aggregate_scope = mint_scope c,
     aggregate_generation = generation_first, aggregate_version = revision_number_first,
     authority_time = authority_time_state_new (mint_observed_at c), aggregate_state = Available\<rparr>)"

definition acquire :: "lease_aggregate \<Rightarrow> acquire_lease \<Rightarrow> lease_outcome" where
  "acquire a c =
    (case require_phase a AvailablePhase of Inl e \<Rightarrow> Err (rejection a e) | Inr _ \<Rightarrow>
    (case lease_validate_observation (authority_time a) (acquire_observed_at c) of
       Inl e \<Rightarrow> Err (rejection a e) | Inr _ \<Rightarrow>
    (case lease_deadline (acquire_observed_at c) (acquire_duration c) of
       Inl e \<Rightarrow> Err (rejection a e) | Inr deadline \<Rightarrow>
    (case next_active_version (aggregate_version a) of Inl e \<Rightarrow> Err (rejection a e) | Inr version \<Rightarrow>
      transition a \<lparr>plan_command_id = acquire_command_id c, plan_version = version,
        plan_generation = aggregate_generation a, plan_time_advance = Observe (acquire_observed_at c),
        plan_state = Active \<lparr>active_holder = acquire_holder c, active_claim_version = revision_number_first,
          active_issued_at = acquire_observed_at c, active_expires_at = deadline\<rparr>,
        plan_kind = Acquired, plan_binding = AcquireBinding c\<rparr>))))"

definition renew :: "lease_aggregate \<Rightarrow> renew_lease \<Rightarrow> lease_outcome" where
  "renew a c =
    (case require_active_claim a (renew_claim c) of Inl e \<Rightarrow> Err (rejection a e) | Inr act \<Rightarrow>
    (case lease_validate_observation (authority_time a) (renew_observed_at c) of
       Inl e \<Rightarrow> Err (rejection a e) | Inr _ \<Rightarrow>
    (case ensure_before_expiry (active_expires_at act) (renew_observed_at c) of
       Inl e \<Rightarrow> Err (rejection a e) | Inr _ \<Rightarrow>
    (case lease_deadline (renew_observed_at c) (renew_duration c) of
       Inl e \<Rightarrow> Err (rejection a e) | Inr deadline \<Rightarrow>
      if tick_millis deadline \<le> tick_millis (active_expires_at act)
      then Err (rejection a DeadlineNotExtended)
      else (case revision_number_checked_next (active_claim_version act) of
         Inl _ \<Rightarrow> Err (rejection a ClaimVersionExhausted) | Inr cv \<Rightarrow>
      (case next_active_version (aggregate_version a) of Inl e \<Rightarrow> Err (rejection a e) | Inr version \<Rightarrow>
        transition a \<lparr>plan_command_id = renew_command_id c, plan_version = version,
          plan_generation = aggregate_generation a, plan_time_advance = Observe (renew_observed_at c),
          plan_state = Active \<lparr>active_holder = active_holder act, active_claim_version = cv,
            active_issued_at = renew_observed_at c, active_expires_at = deadline\<rparr>,
          plan_kind = Renewed, plan_binding = RenewBinding c\<rparr>))))))"

section \<open>Using\<close>

definition validate_policy_intersection :: "lease_aggregate \<Rightarrow> use_lease \<Rightarrow> lease_error + unit" where
  "validate_policy_intersection a c =
    (let policy = capability_use c; scope = capability_scope (use_successor policy);
         observed = use_lease_observed_at c in
     if generation_get (epoch (used_at policy)) \<noteq> generation_get (epoch observed)
        \<or> tick_millis (used_at policy) \<noteq> tick_millis observed
     then Err (PolicyIntersectionMismatch IntersectionClockEpoch)
     else if \<not> identifier_values_equal (actor_id_raw (scope_actor scope))
          (actor_id_raw (holder_actor_id (claim_holder (use_claim c))))
     then Err (PolicyIntersectionMismatch IntersectionActor)
     else if \<not> identifier_values_equal (environment_id_raw (scope_environment scope))
          (environment_id_raw (lease_environment (aggregate_scope a)))
     then Err (PolicyIntersectionMismatch IntersectionEnvironment)
     else if \<not> identifier_values_equal (workspace_id_raw (workspace_id (scope_revision scope)))
          (workspace_id_raw (lease_workspace (aggregate_scope a)))
     then Err (PolicyIntersectionMismatch IntersectionWorkspace)
     else if generation_get (workspace_generation (scope_revision scope)) \<noteq> generation_get (aggregate_generation a)
     then Err (PolicyIntersectionMismatch IntersectionGeneration)
     else if \<not> identifier_values_equal (resource_id_raw (permission_resource (used_permission policy)))
          (resource_id_raw (lease_resource (aggregate_scope a)))
     then Err (PolicyIntersectionMismatch IntersectionResourcePermission)
     else if generation_get (epoch (expires_at (scope_validity scope))) \<noteq> generation_get (time_epoch (authority_time a))
     then Err (PolicyIntersectionMismatch IntersectionClockEpoch)
     else (case window_contains (scope_validity scope) observed of
       Inl _ \<Rightarrow> Err PolicyUseInvalid
     | Inr inside \<Rightarrow> if inside then Ok () else Err PolicyUseInvalid))"

record lease_use_transition =
  use_lease_transition :: lease_transition
  use_capability_use :: capability_use_transition
  use_transition_claim :: lease_claim
  effective_expires_at :: authority_instant

record lease_use_failure =
  use_lease_failure :: lease_failure
  use_failure_command :: use_lease

definition use_rejection :: "lease_aggregate \<Rightarrow> lease_error \<Rightarrow> use_lease \<Rightarrow> lease_use_failure" where
  "use_rejection a e c = \<lparr>use_lease_failure = rejection a e, use_failure_command = c\<rparr>"

definition authorize_use :: "lease_aggregate \<Rightarrow> use_lease \<Rightarrow> lease_use_failure + lease_use_transition" where
  "authorize_use a c =
    (case require_active_claim a (use_claim c) of Inl e \<Rightarrow> Err (use_rejection a e c) | Inr act \<Rightarrow>
    (case lease_validate_observation (authority_time a) (use_lease_observed_at c) of
       Inl e \<Rightarrow> Err (use_rejection a e c) | Inr _ \<Rightarrow>
    (case ensure_before_expiry (active_expires_at act) (use_lease_observed_at c) of
       Inl e \<Rightarrow> Err (use_rejection a e c) | Inr _ \<Rightarrow>
    (case validate_policy_intersection a c of Inl e \<Rightarrow> Err (use_rejection a e c) | Inr _ \<Rightarrow>
    (case next_active_version (aggregate_version a) of Inl e \<Rightarrow> Err (use_rejection a e c) | Inr version \<Rightarrow>
      (let policy = capability_use c;
           expires = earlier (active_expires_at act) (expires_at (scope_validity (capability_scope (use_successor policy))))
       in case transition a \<lparr>plan_command_id = use_command_id c, plan_version = version,
          plan_generation = aggregate_generation a, plan_time_advance = Observe (use_lease_observed_at c),
          plan_state = Active act, plan_kind = Used (used_action_id policy) (used_action_digest policy),
          plan_binding = UseBinding (use_binding_from_command c)\<rparr> of
         Inl failure \<Rightarrow> Err \<lparr>use_lease_failure = failure, use_failure_command = c\<rparr>
       | Inr lease \<Rightarrow> Ok \<lparr>use_lease_transition = lease, use_capability_use = policy,
           use_transition_claim = use_claim c, effective_expires_at = expires\<rparr>))))))"

section \<open>Fencing\<close>

record fence_plan =
  fence_command_id :: command_id
  fence_time_advance :: authority_time_advance
  fence_observed_at :: authority_instant
  fence_reconciliation_cause :: "fence_cause option"
  fence_kind :: lease_transition_kind
  fence_binding :: lease_command_binding

fun fencing_kind_is_valid :: "lease_transition_kind \<Rightarrow> bool" where
  "fencing_kind_is_valid ReleasedAvailable = True"
| "fencing_kind_is_valid ReleasedReconciling = True"
| "fencing_kind_is_valid ExpiredKind = True"
| "fencing_kind_is_valid HolderLostKind = True"
| "fencing_kind_is_valid ClockDiscontinuityKind = True"
| "fencing_kind_is_valid RevokedKind = True"
| "fencing_kind_is_valid (RetiredKind _) = True"
| "fencing_kind_is_valid Minted = False"
| "fencing_kind_is_valid Acquired = False"
| "fencing_kind_is_valid Renewed = False"
| "fencing_kind_is_valid (Used _ _) = False"
| "fencing_kind_is_valid ReconciledAvailable = False"
| "fencing_kind_is_valid ReconciledQuarantined = False"

definition retire ::
  "lease_aggregate \<Rightarrow> revision_number \<Rightarrow> generation \<Rightarrow> retirement_reason \<Rightarrow> fence_plan \<Rightarrow> lease_outcome" where
  "retire before version g reason p = transition before
     \<lparr>plan_command_id = fence_command_id p, plan_version = version, plan_generation = g,
      plan_time_advance = fence_time_advance p, plan_state = Retired reason,
      plan_kind = RetiredKind reason, plan_binding = fence_binding p\<rparr>"

definition fence_verified :: "lease_aggregate \<Rightarrow> active_lease \<Rightarrow> fence_plan \<Rightarrow> lease_outcome" where
  "fence_verified before act p =
    (case revision_number_checked_next (aggregate_version before) of
       Inl _ \<Rightarrow> Err (rejection before LeaseCorruptState)
     | Inr version \<Rightarrow>
        if U64_MAX - 1 \<le> revision_number_get version
        then retire before version (aggregate_generation before) RetiredVersionExhausted p
        else (case generation_checked_next (aggregate_generation before) of
           Inl _ \<Rightarrow> retire before version (aggregate_generation before) RetiredGenerationExhausted p
         | Inr g \<Rightarrow> transition before
             \<lparr>plan_command_id = fence_command_id p, plan_version = version, plan_generation = g,
              plan_time_advance = fence_time_advance p,
              plan_state = (case fence_reconciliation_cause p of
                 None \<Rightarrow> Available
               | Some cause \<Rightarrow> Reconciling \<lparr>reconciling_correlation =
                   \<lparr>correlation_scope = aggregate_scope before,
                    fenced_generation = aggregate_generation before, prior_holder = active_holder act\<rparr>,
                   reconciling_cause = cause\<rparr>),
              plan_kind = fence_kind p, plan_binding = fence_binding p\<rparr>))"

definition fence_time :: "lease_aggregate \<Rightarrow> authority_instant \<Rightarrow> fence_cause option \<Rightarrow> lease_error + authority_time_advance" where
  "fence_time before observed cause =
    (if cause = Some ClockDiscontinuityCause then
       (if generation_get (epoch observed) = generation_get (time_epoch (authority_time before)) then
          (if greatest_tick_millis (authority_time before) \<le> tick_millis observed
           then Err NoClockDiscontinuity else Ok Preserve)
        else Ok (Reset observed))
     else (case lease_validate_observation (authority_time before) observed of
       Inl e \<Rightarrow> Err e | Inr _ \<Rightarrow> Ok (Observe observed)))"

definition fence ::
  "lease_aggregate \<Rightarrow> command_id \<Rightarrow> authority_instant \<Rightarrow> fence_cause option \<Rightarrow> lease_transition_kind
    \<Rightarrow> lease_command_binding \<Rightarrow> lease_outcome" where
  "fence before command observed cause kind binding = (case aggregate_state before of
     Active act \<Rightarrow>
       if \<not> fencing_kind_is_valid kind then Err (rejection before LeaseCorruptState)
       else (case fence_time before observed cause of
         Inl e \<Rightarrow> Err (rejection before e)
       | Inr advance \<Rightarrow> fence_verified before act
           \<lparr>fence_command_id = command, fence_time_advance = advance, fence_observed_at = observed,
            fence_reconciliation_cause = cause, fence_kind = kind, fence_binding = binding\<rparr>)
   | _ \<Rightarrow> Err (rejection before LeaseCorruptState))"

definition validate_release_quiescence :: "release_lease \<Rightarrow> lease_error + bool" where
  "validate_release_quiescence c = (case release_quiescence c of
     None \<Rightarrow> Ok False
   | Some evidence \<Rightarrow>
      if is_ok (validate_claim_identity (release_claim c) (quiescence_claim evidence)) then Ok True
      else Err HolderQuiescenceMismatch)"

definition release :: "lease_aggregate \<Rightarrow> release_lease \<Rightarrow> lease_outcome" where
  "release a c =
    (case require_active_claim a (release_claim c) of Inl e \<Rightarrow> Err (rejection a e) | Inr _ \<Rightarrow>
    (case lease_validate_observation (authority_time a) (release_observed_at c) of
       Inl e \<Rightarrow> Err (rejection a e) | Inr _ \<Rightarrow>
    (case validate_release_quiescence c of Inl e \<Rightarrow> Err (rejection a e) | Inr direct \<Rightarrow>
      fence a (release_command_id c) (release_observed_at c)
        (if direct then None else Some ReleasedWithoutQuiescence)
        (if direct then ReleasedAvailable else ReleasedReconciling) (ReleaseBinding c))))"

definition expire :: "lease_aggregate \<Rightarrow> expire_lease \<Rightarrow> lease_outcome" where
  "expire a c =
    (case require_active a of Inl e \<Rightarrow> Err (rejection a e) | Inr act \<Rightarrow>
    (case lease_validate_observation (authority_time a) (expire_observed_at c) of
       Inl e \<Rightarrow> Err (rejection a e) | Inr _ \<Rightarrow>
      if generation_get (epoch (expire_observed_at c)) \<noteq> generation_get (epoch (active_expires_at act))
      then Err (rejection a LeaseCorruptState)
      else if tick_millis (expire_observed_at c) < tick_millis (active_expires_at act)
      then Err (rejection a LeaseNotExpired)
      else fence a (expire_command_id c) (expire_observed_at c) (Some ExpiredCause) ExpiredKind (ExpireBinding c)))"

definition fence_holder_loss :: "lease_aggregate \<Rightarrow> fence_holder_loss \<Rightarrow> lease_outcome" where
  "fence_holder_loss a c =
    (case require_active a of Inl e \<Rightarrow> Err (rejection a e) | Inr _ \<Rightarrow>
    (case require_active_claim a (loss_claim (loss_evidence c)) of
       Inl _ \<Rightarrow> Err (rejection a HolderLossMismatch) | Inr _ \<Rightarrow>
    (case lease_validate_observation (authority_time a) (loss_observed_at c) of
       Inl e \<Rightarrow> Err (rejection a e) | Inr _ \<Rightarrow>
      fence a (loss_command_id c) (loss_observed_at c) (Some HolderLostCause) HolderLostKind
        (HolderLossBinding c))))"

definition fence_clock_discontinuity :: "lease_aggregate \<Rightarrow> fence_clock_discontinuity \<Rightarrow> lease_outcome" where
  "fence_clock_discontinuity a c =
    (case require_active a of Inl e \<Rightarrow> Err (rejection a e) | Inr _ \<Rightarrow>
      (let observed = discontinuity_observed_at c;
           same_epoch = (generation_get (epoch observed) = generation_get (time_epoch (authority_time a)));
           discontinuous = (\<not> same_epoch \<or> tick_millis observed < greatest_tick_millis (authority_time a))
       in if \<not> discontinuous then Err (rejection a NoClockDiscontinuity)
          else fence a (discontinuity_command_id c) observed (Some ClockDiscontinuityCause)
            ClockDiscontinuityKind (ClockDiscontinuityBinding c)))"

definition revoke :: "lease_aggregate \<Rightarrow> revoke_lease \<Rightarrow> lease_outcome" where
  "revoke a c =
    (case require_active_claim a (revoke_claim c) of Inl e \<Rightarrow> Err (rejection a e) | Inr _ \<Rightarrow>
    (case lease_validate_observation (authority_time a) (revoke_observed_at c) of
       Inl e \<Rightarrow> Err (rejection a e) | Inr _ \<Rightarrow>
      fence a (revoke_command_id c) (revoke_observed_at c) (Some RevokedCause) RevokedKind (RevokeBinding c)))"

section \<open>Reconciling\<close>

definition validate_correlation ::
  "reconciliation_correlation \<Rightarrow> reconciliation_correlation \<Rightarrow> lease_error + unit" where
  "validate_correlation expected actual =
    (if \<not> identifier_values_equal (workspace_id_raw (lease_workspace (correlation_scope actual)))
          (workspace_id_raw (lease_workspace (correlation_scope expected)))
     then Err (ReconciliationMismatch (ReconciliationScope WorkspaceMismatch))
     else if \<not> identifier_values_equal (resource_id_raw (lease_resource (correlation_scope actual)))
          (resource_id_raw (lease_resource (correlation_scope expected)))
     then Err (ReconciliationMismatch (ReconciliationScope ResourceMismatch))
     else if \<not> identifier_values_equal (environment_id_raw (lease_environment (correlation_scope actual)))
          (environment_id_raw (lease_environment (correlation_scope expected)))
     then Err (ReconciliationMismatch (ReconciliationScope LeaseEnvironmentMismatch))
     else if generation_get (fenced_generation actual) \<noteq> generation_get (fenced_generation expected)
     then Err (ReconciliationMismatch FencedGenerationMismatch)
     else if \<not> identifier_values_equal (actor_id_raw (holder_actor_id (prior_holder actual)))
            (actor_id_raw (holder_actor_id (prior_holder expected)))
        \<or> \<not> identifier_values_equal (session_id_raw (holder_session_id (prior_holder actual)))
            (session_id_raw (holder_session_id (prior_holder expected)))
     then Err (ReconciliationMismatch PriorHolderMismatch)
     else Ok ())"

definition reconciliation_time_advance ::
  "lease_aggregate \<Rightarrow> fence_cause \<Rightarrow> authority_instant \<Rightarrow> lease_error + authority_time_advance" where
  "reconciliation_time_advance a cause observed =
    (if cause = ClockDiscontinuityCause
        \<and> generation_get (epoch observed) \<noteq> generation_get (time_epoch (authority_time a))
     then Ok (Reset observed)
     else (case lease_validate_observation (authority_time a) observed of
       Inl e \<Rightarrow> Err e | Inr _ \<Rightarrow> Ok (Observe observed)))"

definition reconcile :: "lease_aggregate \<Rightarrow> reconcile_lease \<Rightarrow> lease_outcome" where
  "reconcile a c = (case aggregate_state a of
     Reconciling r \<Rightarrow>
      (case validate_correlation (reconciling_correlation r) (observation_correlation (reconcile_observation c)) of
         Inl e \<Rightarrow> Err (rejection a e) | Inr _ \<Rightarrow>
      (case reconciliation_time_advance a (reconciling_cause r) (reconcile_observed_at c) of
         Inl e \<Rightarrow> Err (rejection a e) | Inr advance \<Rightarrow>
      (case next_non_fence_version (aggregate_version a) of Inl e \<Rightarrow> Err (rejection a e) | Inr version \<Rightarrow>
        (let (state, kind) =
           (if U64_MAX - 1 \<le> revision_number_get version
            then (Retired RetiredVersionExhausted, RetiredKind RetiredVersionExhausted)
            else (case observation_disposition (reconcile_observation c) of
               SafeToAcquire _ _ \<Rightarrow> (Available, ReconciledAvailable)
             | disposition \<Rightarrow> (Quarantined \<lparr>quarantined_correlation = reconciling_correlation r,
                 quarantined_cause = reconciling_cause r, quarantined_disposition = disposition\<rparr>,
                 ReconciledQuarantined)))
         in transition a \<lparr>plan_command_id = reconcile_command_id c, plan_version = version,
              plan_generation = aggregate_generation a, plan_time_advance = advance, plan_state = state,
              plan_kind = kind, plan_binding = ReconcileBinding c\<rparr>))))
   | _ \<Rightarrow> Err (rejection a (IllegalPhase ReconcilingPhase (phase a))))"

section \<open>All commands\<close>

datatype lease_command =
    Acquire acquire_lease | Renew renew_lease | Use use_lease | Release release_lease
  | Expire expire_lease | HolderLoss fence_holder_loss | ClockDiscontinuity fence_clock_discontinuity
  | Revoke revoke_lease | Reconcile reconcile_lease

text \<open>One operation on a stored aggregate; a use is seen through its lease transition.\<close>

fun apply_lease :: "lease_aggregate \<Rightarrow> lease_command \<Rightarrow> lease_outcome" where
  "apply_lease a (Acquire c) = acquire a c"
| "apply_lease a (Renew c) = renew a c"
| "apply_lease a (Use c) = (case authorize_use a c of
     Inl f \<Rightarrow> Err (use_lease_failure f) | Inr u \<Rightarrow> Ok (use_lease_transition u))"
| "apply_lease a (Release c) = release a c"
| "apply_lease a (Expire c) = expire a c"
| "apply_lease a (HolderLoss c) = fence_holder_loss a c"
| "apply_lease a (ClockDiscontinuity c) = fence_clock_discontinuity a c"
| "apply_lease a (Revoke c) = revoke a c"
| "apply_lease a (Reconcile c) = reconcile a c"

end
