(* ===== verification/Lease_Spec.thy ===== *)
theory Lease_Spec
  imports Lease_Transition
begin

text \<open>
  The lease protocol as a state machine, without the order of the checks: which commands step an
  aggregate, and to what. The operations of the code are shown to be the steps of this machine on
  valid aggregates.
\<close>

section \<open>The machine\<close>

definition version_nat :: "revision_number \<Rightarrow> nat" where
  "version_nat v = unat (revision_number_get v)"

definition generation_nat :: "generation \<Rightarrow> nat" where
  "generation_nat g = unat (generation_get g)"

definition succeeds_version :: "lease_aggregate \<Rightarrow> revision_number \<Rightarrow> bool" where
  "succeeds_version a v \<longleftrightarrow> version_nat v = version_nat (aggregate_version a) + 1"

text \<open>
  Every step but a fence leaves the last version unused, so that an active lease can still be
  fenced; a fence that reaches the last two versions retires the aggregate.
\<close>

definition last_versions :: nat where "last_versions = 2 ^ 64 - 2"

definition deadline_after :: "authority_instant \<Rightarrow> lease_duration \<Rightarrow> authority_instant \<Rightarrow> bool" where
  "deadline_after t d e \<longleftrightarrow> epoch e = epoch t
     \<and> unat (tick_millis e) = unat (tick_millis t) + unat (duration_millis d)"

inductive fenced ::
  "lease_aggregate \<Rightarrow> active_lease \<Rightarrow> authority_time_state \<Rightarrow> fence_cause option \<Rightarrow> lease_aggregate \<Rightarrow> bool"
  for a act time cause where
  out_of_versions: "succeeds_version a v \<Longrightarrow> last_versions \<le> version_nat v \<Longrightarrow>
    fenced a act time cause (a\<lparr>aggregate_version := v, authority_time := time,
      aggregate_state := Retired RetiredVersionExhausted\<rparr>)"
| out_of_generations: "succeeds_version a v \<Longrightarrow> version_nat v < last_versions \<Longrightarrow>
    aggregate_generation a = g \<Longrightarrow> generation_nat g = 2 ^ 64 - 1 \<Longrightarrow>
    fenced a act time cause (a\<lparr>aggregate_version := v, authority_time := time,
      aggregate_state := Retired RetiredGenerationExhausted\<rparr>)"
| next_generation: "succeeds_version a v \<Longrightarrow> version_nat v < last_versions \<Longrightarrow>
    generation_nat g = generation_nat (aggregate_generation a) + 1 \<Longrightarrow>
    st = (case cause of None \<Rightarrow> Available | Some k \<Rightarrow> Reconciling \<lparr>reconciling_correlation =
        \<lparr>correlation_scope = aggregate_scope a, fenced_generation = aggregate_generation a,
         prior_holder = active_holder act\<rparr>, reconciling_cause = k\<rparr>) \<Longrightarrow>
    fenced a act time cause (a\<lparr>aggregate_generation := g, aggregate_version := v,
      authority_time := time, aggregate_state := st\<rparr>)"

definition intersects_policy :: "lease_aggregate \<Rightarrow> use_lease \<Rightarrow> bool" where
  "intersects_policy a c \<longleftrightarrow>
    (let policy = capability_use c; scope = capability_scope (use_successor policy) in
       used_at policy = use_lease_observed_at c
     \<and> scope_actor scope = holder_actor_id (claim_holder (use_claim c))
     \<and> scope_environment scope = lease_environment (aggregate_scope a)
     \<and> workspace_id (scope_revision scope) = lease_workspace (aggregate_scope a)
     \<and> workspace_generation (scope_revision scope) = aggregate_generation a
     \<and> permission_resource (used_permission policy) = lease_resource (aggregate_scope a)
     \<and> use_lease_observed_at c \<in> window_set (scope_validity scope)
     \<and> epoch (use_lease_observed_at c) = time_epoch (authority_time a))"

text \<open>The cause a release is fenced with: none when the evidence is for the released claim.\<close>

definition release_cause :: "release_lease \<Rightarrow> fence_cause option \<Rightarrow> bool" where
  "release_cause c k \<longleftrightarrow> (case release_quiescence c of
     None \<Rightarrow> k = Some ReleasedWithoutQuiescence
   | Some e \<Rightarrow> quiescence_claim e = release_claim c \<and> k = None)"

definition discontinuous :: "authority_time_state \<Rightarrow> authority_instant \<Rightarrow> bool" where
  "discontinuous time t \<longleftrightarrow> \<not> observable time t"

definition discontinued_time :: "authority_time_state \<Rightarrow> authority_instant \<Rightarrow> authority_time_state" where
  "discontinued_time time t = (if epoch t = time_epoch time then time else authority_time_state_new t)"

definition reconciled_state :: "revision_number \<Rightarrow> reconciliation_state \<Rightarrow> reconciliation_disposition \<Rightarrow> lease_state" where
  "reconciled_state v r d =
    (if last_versions \<le> version_nat v then Retired RetiredVersionExhausted
     else if is_safe d then Available
     else Quarantined \<lparr>quarantined_correlation = reconciling_correlation r,
       quarantined_cause = reconciling_cause r, quarantined_disposition = d\<rparr>)"

inductive lease_step :: "lease_aggregate \<Rightarrow> lease_command \<Rightarrow> lease_aggregate \<Rightarrow> bool" for a where
  acquired: "aggregate_state a = Available \<Longrightarrow> observable (authority_time a) (acquire_observed_at c) \<Longrightarrow>
    deadline_after (acquire_observed_at c) (acquire_duration c) e \<Longrightarrow>
    succeeds_version a v \<Longrightarrow> version_nat v \<le> last_versions \<Longrightarrow>
    lease_step a (Acquire c) (a\<lparr>aggregate_version := v,
      authority_time := authority_time_state_new (acquire_observed_at c),
      aggregate_state := Active \<lparr>active_holder = acquire_holder c, active_claim_version = revision_number_first,
        active_issued_at = acquire_observed_at c, active_expires_at = e\<rparr>\<rparr>)"
| renewed: "aggregate_state a = Active act \<Longrightarrow> renew_claim c = claim_of a act \<Longrightarrow>
    observable (authority_time a) (renew_observed_at c) \<Longrightarrow>
    tick_millis (renew_observed_at c) < tick_millis (active_expires_at act) \<Longrightarrow>
    deadline_after (renew_observed_at c) (renew_duration c) e \<Longrightarrow>
    tick_millis (active_expires_at act) < tick_millis e \<Longrightarrow>
    version_nat cv = version_nat (active_claim_version act) + 1 \<Longrightarrow>
    succeeds_version a v \<Longrightarrow> version_nat v \<le> last_versions \<Longrightarrow>
    lease_step a (Renew c) (a\<lparr>aggregate_version := v,
      authority_time := authority_time_state_new (renew_observed_at c),
      aggregate_state := Active \<lparr>active_holder = active_holder act, active_claim_version = cv,
        active_issued_at = renew_observed_at c, active_expires_at = e\<rparr>\<rparr>)"
| used: "aggregate_state a = Active act \<Longrightarrow> use_claim c = claim_of a act \<Longrightarrow>
    observable (authority_time a) (use_lease_observed_at c) \<Longrightarrow>
    tick_millis (use_lease_observed_at c) < tick_millis (active_expires_at act) \<Longrightarrow>
    intersects_policy a c \<Longrightarrow> succeeds_version a v \<Longrightarrow> version_nat v \<le> last_versions \<Longrightarrow>
    lease_step a (Use c) (a\<lparr>aggregate_version := v,
      authority_time := authority_time_state_new (use_lease_observed_at c)\<rparr>)"
| released: "aggregate_state a = Active act \<Longrightarrow> release_claim c = claim_of a act \<Longrightarrow>
    observable (authority_time a) (release_observed_at c) \<Longrightarrow> release_cause c k \<Longrightarrow>
    fenced a act (authority_time_state_new (release_observed_at c)) k a' \<Longrightarrow> lease_step a (Release c) a'"
| expired: "aggregate_state a = Active act \<Longrightarrow> observable (authority_time a) (expire_observed_at c) \<Longrightarrow>
    tick_millis (active_expires_at act) \<le> tick_millis (expire_observed_at c) \<Longrightarrow>
    fenced a act (authority_time_state_new (expire_observed_at c)) (Some ExpiredCause) a' \<Longrightarrow>
    lease_step a (Expire c) a'"
| holder_lost: "aggregate_state a = Active act \<Longrightarrow> loss_claim (loss_evidence c) = claim_of a act \<Longrightarrow>
    observable (authority_time a) (loss_observed_at c) \<Longrightarrow>
    fenced a act (authority_time_state_new (loss_observed_at c)) (Some HolderLostCause) a' \<Longrightarrow>
    lease_step a (HolderLoss c) a'"
| discontinued: "aggregate_state a = Active act \<Longrightarrow>
    discontinuous (authority_time a) (discontinuity_observed_at c) \<Longrightarrow>
    fenced a act (discontinued_time (authority_time a) (discontinuity_observed_at c))
      (Some ClockDiscontinuityCause) a' \<Longrightarrow> lease_step a (ClockDiscontinuity c) a'"
| revoked: "aggregate_state a = Active act \<Longrightarrow> revoke_claim c = claim_of a act \<Longrightarrow>
    observable (authority_time a) (revoke_observed_at c) \<Longrightarrow>
    fenced a act (authority_time_state_new (revoke_observed_at c)) (Some RevokedCause) a' \<Longrightarrow>
    lease_step a (Revoke c) a'"
| reconciled: "aggregate_state a = Reconciling r \<Longrightarrow>
    observation_correlation (reconcile_observation c) = reconciling_correlation r \<Longrightarrow>
    observable (authority_time a) (reconcile_observed_at c)
      \<or> (reconciling_cause r = ClockDiscontinuityCause \<and> epoch (reconcile_observed_at c) \<noteq> time_epoch (authority_time a)) \<Longrightarrow>
    succeeds_version a v \<Longrightarrow> version_nat v \<le> last_versions \<Longrightarrow>
    lease_step a (Reconcile c) (a\<lparr>aggregate_version := v,
      authority_time := authority_time_state_new (reconcile_observed_at c),
      aggregate_state := reconciled_state v r (observation_disposition (reconcile_observation c))\<rparr>)"

inductive_cases lease_step_cases: "lease_step a c a'"
inductive_cases fenced_cases: "fenced a act time cause a'"

section \<open>The checks of the code\<close>

lemma version_nat_less: "version_nat v < 2 ^ 64"
  using unsigned_less[of "revision_number_get v"] by (simp add: version_nat_def)

lemma generation_nat_less: "generation_nat g < 2 ^ 64"
  using unsigned_less[of "generation_get g"] by (simp add: generation_nat_def)

lemma version_nat_inject [simp]: "version_nat v = version_nat w \<longleftrightarrow> v = w"
  by (simp add: version_nat_def flip: word_unat_eq_iff)

lemma generation_nat_inject [simp]: "generation_nat g = generation_nat h \<longleftrightarrow> g = h"
  by (simp add: generation_nat_def flip: word_unat_eq_iff)

lemma checked_version: "revision_number_checked_next v = Ok w \<longleftrightarrow> version_nat w = version_nat v + 1"
  by (simp add: revision_number_checked_next_Ok version_nat_def)

lemma checked_version_None: "(\<exists>e. revision_number_checked_next v = Err e) \<longleftrightarrow> version_nat v = 2 ^ 64 - 1"
  by (auto simp: revision_number_checked_next_Err version_nat_def word_unat_eq_iff)

lemma checked_generation: "generation_checked_next g = Ok h \<longleftrightarrow> generation_nat h = generation_nat g + 1"
  by (simp add: generation_checked_next_Ok generation_nat_def)

lemma checked_generation_Err: "generation_checked_next g = Err e \<longleftrightarrow> generation_nat g = 2 ^ 64 - 1 \<and> e = NumberOverflow"
  by (auto simp: generation_checked_next_Err generation_nat_def word_unat_eq_iff)

lemma last_version_word: "U64_MAX - 1 \<le> revision_number_get v \<longleftrightarrow> last_versions \<le> version_nat v"
proof -
  have "unat (U64_MAX - 1) = 2 ^ 64 - 2" by (simp add: U64_MAX_def)
  then show ?thesis by (simp add: word_le_nat_alt version_nat_def last_versions_def)
qed

lemma next_version_Ok: "next_non_fence_version v = Ok w \<longleftrightarrow>
    version_nat w = version_nat v + 1 \<and> version_nat w \<le> last_versions"
  by (auto simp: next_non_fence_version_def last_version_word checked_version)

lemma lease_validate_observation_Ok: "lease_validate_observation time t = Ok () \<longleftrightarrow> observable time t"
  by (auto simp: lease_validate_observation_def observable_def)

lemma lease_validate_observation_simps:
  "observable time t \<Longrightarrow> lease_validate_observation time t = Ok ()"
  "\<not> observable time t \<Longrightarrow> \<exists>e. lease_validate_observation time t = Err e"
  by (auto simp: lease_validate_observation_def observable_def)

lemma ensure_before_expiry_Ok: "ensure_before_expiry x t = Ok () \<longleftrightarrow>
    epoch t = epoch x \<and> tick_millis t < tick_millis x"
  by (auto simp: ensure_before_expiry_def)

lemma lease_deadline_Ok: "lease_deadline t d = Ok e \<longleftrightarrow> deadline_after t d e"
  by (simp add: lease_deadline_def instant_checked_add_Ok deadline_after_def)

lemma validate_claim_identity_Ok: "validate_claim_identity k l = Ok () \<longleftrightarrow> l = k"
proof -
  have "l = k \<longleftrightarrow> lease_workspace (claim_scope l) = lease_workspace (claim_scope k)
     \<and> lease_resource (claim_scope l) = lease_resource (claim_scope k)
     \<and> lease_environment (claim_scope l) = lease_environment (claim_scope k)
     \<and> holder_actor_id (claim_holder l) = holder_actor_id (claim_holder k)
     \<and> holder_session_id (claim_holder l) = holder_session_id (claim_holder k)
     \<and> claim_generation l = claim_generation k \<and> claim_version l = claim_version k
     \<and> epoch (claim_issued_at l) = epoch (claim_issued_at k)
     \<and> tick_millis (claim_issued_at l) = tick_millis (claim_issued_at k)
     \<and> epoch (claim_expires_at l) = epoch (claim_expires_at k)
     \<and> tick_millis (claim_expires_at l) = tick_millis (claim_expires_at k)"
    by (auto intro!: lease_claim.equality lease_scope.equality lease_holder.equality authority_instant.equality)
  then show ?thesis by (auto simp: validate_claim_identity_def)
qed

lemma require_active_Ok: "require_active a = Ok act \<longleftrightarrow> aggregate_state a = Active act"
  by (auto simp: require_active_def split: lease_state.splits)

lemma require_active_claim_Ok: "require_active_claim a k = Ok act \<longleftrightarrow>
    aggregate_state a = Active act \<and> k = claim_of a act"
  by (auto simp: require_active_claim_def require_active_Ok[symmetric] validate_claim_identity_Ok[symmetric]
      split: sum.splits)

lemma require_phase_Ok: "require_phase a AvailablePhase = Ok () \<longleftrightarrow> aggregate_state a = Available"
  by (cases "aggregate_state a") (auto simp: require_phase_def phase_def)

lemma intersects_policy_code:
  assumes "observable (authority_time a) (use_lease_observed_at c)"
  shows "validate_policy_intersection a c = Ok () \<longleftrightarrow> intersects_policy a c"
proof -
  let ?w = "scope_validity (capability_scope (use_successor (capability_use c)))"
  have instant: "used_at (capability_use c) = use_lease_observed_at c \<longleftrightarrow>
      epoch (used_at (capability_use c)) = epoch (use_lease_observed_at c)
      \<and> tick_millis (used_at (capability_use c)) = tick_millis (use_lease_observed_at c)"
    by (auto intro: authority_instant.equality)
  have window: "(case window_contains ?w (use_lease_observed_at c) of Inl _ \<Rightarrow> Err PolicyUseInvalid
      | Inr inside \<Rightarrow> if inside then Ok () else Err PolicyUseInvalid) = Ok ()
      \<longleftrightarrow> use_lease_observed_at c \<in> window_set ?w"
    by (auto simp: window_contains_iff[symmetric] split: sum.splits)
  have epochs: "use_lease_observed_at c \<in> window_set ?w \<Longrightarrow> epoch (expires_at ?w) = time_epoch (authority_time a)"
    using assms by (simp add: window_set_def observable_def)
  from assms have "epoch (use_lease_observed_at c) = time_epoch (authority_time a)"
    by (simp add: observable_def)
  then show ?thesis
    using window epochs
    by (simp add: validate_policy_intersection_def intersects_policy_def Let_def instant) auto
qed

definition advance_time :: "authority_time_state \<Rightarrow> authority_time_advance \<Rightarrow> authority_time_state option" where
  "advance_time time adv = (case adv of
     Observe t \<Rightarrow> if observable time t then Some (authority_time_state_new t) else None
   | Preserve \<Rightarrow> Some time
   | Reset t \<Rightarrow> Some (authority_time_state_new t))"

definition lease_valid :: "lease_aggregate \<Rightarrow> bool" where
  "lease_valid a \<longleftrightarrow> lease_validate a = Ok ()"

text \<open>The checked transition accepts a plan exactly under three conditions.\<close>

lemma transition_next:
  "(\<exists>tr. transition a p = Ok tr \<and> next_aggregate tr = a') \<longleftrightarrow>
     succeeds_version a (plan_version p) \<and> lease_valid a
   \<and> (\<exists>time. advance_time (authority_time a) (plan_time_advance p) = Some time
       \<and> a' = \<lparr>aggregate_scope = aggregate_scope a, aggregate_generation = plan_generation p,
           aggregate_version = plan_version p, authority_time = time, aggregate_state = plan_state p\<rparr>)"
proof (cases "succeeds_version a (plan_version p) \<and> lease_valid a")
  case True
  then have next_v: "revision_number_checked_next (aggregate_version a) = Ok (plan_version p)"
    by (simp add: checked_version succeeds_version_def)
  have observe: "(\<exists>time. time_observe (authority_time a) t = Ok time) \<longleftrightarrow> observable (authority_time a) t" for t
    by (simp add: time_observe_Ok)
  show ?thesis
  proof (cases "plan_time_advance p")
    case (Observe t)
    show ?thesis
    proof (cases "observable (authority_time a) t")
      case obs: True
      then have "time_observe (authority_time a) t = Ok (authority_time_state_new t)"
        by (simp add: time_observe_Ok)
      with True next_v Observe obs show ?thesis
        by (auto simp: transition_def transition_verified_def lease_valid_def Let_def advance_time_def)
    next
      case False
      then obtain f where "time_observe (authority_time a) t = Err f"
        using time_observe_Ok[of "authority_time a" t] by (cases "time_observe (authority_time a) t") auto
      with True next_v Observe False show ?thesis
        by (simp add: transition_def transition_verified_def lease_valid_def Let_def advance_time_def)
    qed
  qed (use True next_v in \<open>auto simp: transition_def transition_verified_def lease_valid_def Let_def advance_time_def\<close>)
next
  case False
  have "succeeds_version a (plan_version p) \<and> lease_valid a" if ok: "transition a p = Ok tr" for tr
  proof -
    from ok obtain v where v: "revision_number_checked_next (aggregate_version a) = Ok v"
      "revision_number_get (plan_version p) = revision_number_get v" and "transition_verified a p = Ok tr"
      by (auto simp: transition_def split: sum.splits if_splits)
    then have "plan_version p = v" "lease_valid a"
      by (auto simp: transition_verified_def lease_valid_def split: sum.splits)
    with v show ?thesis by (simp add: succeeds_version_def checked_version)
  qed
  with False show ?thesis by blast
qed

lemma transition_Err: "transition a p = Err f \<Longrightarrow> failure_aggregate f = a"
  by (auto simp: transition_def transition_verified_def rejection_def Let_def time_observe_def
      split: sum.splits if_splits authority_time_advance.splits)

end
