(* ===== verification/Lease_Refinement.thy ===== *)
theory Lease_Refinement
  imports Lease_Spec
begin

text \<open>
  Every operation of the code is a step of the lease machine on a valid aggregate, and every step is
  taken by the code. A refused operation returns the aggregate unchanged.
\<close>

definition next_is :: "'f + lease_transition \<Rightarrow> lease_aggregate \<Rightarrow> bool" where
  "next_is r a' \<longleftrightarrow> (\<exists>tr. r = Ok tr \<and> next_aggregate tr = a')"

lemma next_is_simps [simp]:
  "next_is (Err f) a' = False"
  "next_is (if b then r else r') a' = (if b then next_is r a' else next_is r' a')"
  by (simp_all add: next_is_def)

lemma next_is_case: "next_is (case x of Inl e \<Rightarrow> Err (g e) | Inr y \<Rightarrow> h y) a' \<longleftrightarrow> (\<exists>y. x = Ok y \<and> next_is (h y) a')"
  by (cases x) simp_all

lemma next_is_case_unit: "next_is (case x of Inl e \<Rightarrow> Err (g e) | Inr _ \<Rightarrow> r) a' \<longleftrightarrow> x = Ok () \<and> next_is r a'"
  by (cases x) simp_all

lemma next_is_transition: "next_is (transition a p) a' \<longleftrightarrow>
     succeeds_version a (plan_version p) \<and> lease_valid a
   \<and> (\<exists>time. advance_time (authority_time a) (plan_time_advance p) = Some time
       \<and> a' = a\<lparr>aggregate_generation := plan_generation p, aggregate_version := plan_version p,
           authority_time := time, aggregate_state := plan_state p\<rparr>)"
  by (cases a) (simp add: next_is_def transition_next)

lemma same_generation [simp]: "a\<lparr>aggregate_generation := aggregate_generation a\<rparr> = (a :: lease_aggregate)"
  by (cases a) simp

lemma same_generation_version [simp]:
  "(a :: lease_aggregate)\<lparr>aggregate_generation := aggregate_generation a, aggregate_version := v\<rparr> = a\<lparr>aggregate_version := v\<rparr>"
  by (cases a) simp

lemma same_state [simp]:
  "aggregate_state a = st \<Longrightarrow> (a :: lease_aggregate)\<lparr>aggregate_version := v, authority_time := tm, aggregate_state := st\<rparr>
     = a\<lparr>aggregate_version := v, authority_time := tm\<rparr>"
  by (cases a) simp

lemma advance_observe: "advance_time time (Observe t) = Some s \<longleftrightarrow> observable time t \<and> s = authority_time_state_new t"
  by (auto simp: advance_time_def)

section \<open>Acquiring, renewing, using\<close>

lemmas check_simps = lease_validate_observation_Ok ensure_before_expiry_Ok lease_deadline_Ok
  require_active_Ok require_active_claim_Ok require_phase_Ok next_version_Ok next_active_version_def
  checked_version advance_observe

lemma acquire_next: "next_is (acquire a c) a' \<longleftrightarrow> lease_valid a \<and> lease_step a (Acquire c) a'"
proof
  assume "next_is (acquire a c) a'"
  then show "lease_valid a \<and> lease_step a (Acquire c) a'"
    by (auto simp: acquire_def next_is_case next_is_case_unit next_is_transition check_simps
        intro!: acquired)
next
  assume *: "lease_valid a \<and> lease_step a (Acquire c) a'"
  then obtain e v where step: "aggregate_state a = Available" "observable (authority_time a) (acquire_observed_at c)"
    "deadline_after (acquire_observed_at c) (acquire_duration c) e" "succeeds_version a v" "version_nat v \<le> last_versions"
    "a' = a\<lparr>aggregate_version := v, authority_time := authority_time_state_new (acquire_observed_at c),
      aggregate_state := Active \<lparr>active_holder = acquire_holder c, active_claim_version = revision_number_first,
        active_issued_at = acquire_observed_at c, active_expires_at = e\<rparr>\<rparr>"
    by (auto elim!: lease_step_cases)
  then have "require_phase a AvailablePhase = Ok ()" "lease_deadline (acquire_observed_at c) (acquire_duration c) = Ok e"
    "lease_validate_observation (authority_time a) (acquire_observed_at c) = Ok ()"
    "next_active_version (aggregate_version a) = Ok v"
    by (simp_all add: check_simps succeeds_version_def)
  with * step show "next_is (acquire a c) a'"
    by (simp add: acquire_def next_is_transition advance_observe)
qed

lemma lease_valid_epoch: "lease_valid a \<Longrightarrow> aggregate_state a = Active act \<Longrightarrow>
    epoch (active_expires_at act) = time_epoch (authority_time a)"
  by (auto simp: lease_valid_def lease_validate_def active_state_is_valid_def split: if_splits)

lemma renew_next: "next_is (renew a c) a' \<longleftrightarrow> lease_valid a \<and> lease_step a (Renew c) a'"
proof
  assume "next_is (renew a c) a'"
  then show "lease_valid a \<and> lease_step a (Renew c) a'"
    by (auto simp: renew_def next_is_case next_is_case_unit next_is_transition check_simps
        split: if_splits intro!: lease_step.renewed)
next
  assume *: "lease_valid a \<and> lease_step a (Renew c) a'"
  then obtain act e cv v where step: "aggregate_state a = Active act" "renew_claim c = claim_of a act"
    "observable (authority_time a) (renew_observed_at c)"
    "tick_millis (renew_observed_at c) < tick_millis (active_expires_at act)"
    "deadline_after (renew_observed_at c) (renew_duration c) e" "tick_millis (active_expires_at act) < tick_millis e"
    "version_nat cv = version_nat (active_claim_version act) + 1"
    "succeeds_version a v" "version_nat v \<le> last_versions"
    "a' = a\<lparr>aggregate_version := v, authority_time := authority_time_state_new (renew_observed_at c),
      aggregate_state := Active \<lparr>active_holder = active_holder act, active_claim_version = cv,
        active_issued_at = renew_observed_at c, active_expires_at = e\<rparr>\<rparr>"
    by (auto elim!: lease_step_cases)
  with * lease_valid_epoch[of a act] have "require_active_claim a (renew_claim c) = Ok act"
    "lease_deadline (renew_observed_at c) (renew_duration c) = Ok e"
    "lease_validate_observation (authority_time a) (renew_observed_at c) = Ok ()"
    "ensure_before_expiry (active_expires_at act) (renew_observed_at c) = Ok ()"
    "revision_number_checked_next (active_claim_version act) = Ok cv"
    "next_active_version (aggregate_version a) = Ok v" "\<not> tick_millis e \<le> tick_millis (active_expires_at act)"
    by (simp_all add: check_simps succeeds_version_def observable_def)
  with * step show "next_is (renew a c) a'"
    by (simp add: renew_def next_is_transition advance_observe)
qed

lemma case_Ok_ex:
  "(\<exists>u. (case x of Inl e \<Rightarrow> Err (g e) | Inr y \<Rightarrow> h y) = Ok u \<and> P u) \<longleftrightarrow> (\<exists>y. x = Ok y \<and> (\<exists>u. h y = Ok u \<and> P u))"
  by (cases x) auto

lemma use_next: "next_is (apply_lease a (Use c)) a' \<longleftrightarrow> lease_valid a \<and> lease_step a (Use c) a'"
proof -
  have view: "next_is (case r of Inl f \<Rightarrow> Err (use_lease_failure f) | Inr u \<Rightarrow> Ok (use_lease_transition u)) a'
      \<longleftrightarrow> (\<exists>u. r = Ok u \<and> next_aggregate (use_lease_transition u) = a')" for r :: "lease_use_failure + lease_use_transition"
    by (cases r) (auto simp: next_is_def)
  show ?thesis
  proof
    assume "next_is (apply_lease a (Use c)) a'"
    then have "\<exists>act. (aggregate_state a = Active act \<and> use_claim c = claim_of a act)
      \<and> lease_validate_observation (authority_time a) (use_lease_observed_at c) = Ok ()
      \<and> ensure_before_expiry (active_expires_at act) (use_lease_observed_at c) = Ok ()
      \<and> validate_policy_intersection a c = Ok () \<and> (\<exists>v. next_active_version (aggregate_version a) = Ok v
      \<and> (\<exists>lease. transition a \<lparr>plan_command_id = use_command_id c, plan_version = v,
          plan_generation = aggregate_generation a, plan_time_advance = Observe (use_lease_observed_at c),
          plan_state = Active act, plan_kind = Used (used_action_id (capability_use c)) (used_action_digest (capability_use c)),
          plan_binding = UseBinding (use_binding_from_command c)\<rparr> = Ok lease \<and> next_aggregate lease = a'))"
      by (auto simp: view authorize_use_def case_Ok_ex Let_def require_active_claim_Ok)
    then obtain act v where *: "aggregate_state a = Active act" "use_claim c = claim_of a act"
      "observable (authority_time a) (use_lease_observed_at c)"
      "tick_millis (use_lease_observed_at c) < tick_millis (active_expires_at act)"
      "intersects_policy a c" "version_nat v \<le> last_versions"
      "next_is (transition a \<lparr>plan_command_id = use_command_id c, plan_version = v,
          plan_generation = aggregate_generation a, plan_time_advance = Observe (use_lease_observed_at c),
          plan_state = Active act, plan_kind = Used (used_action_id (capability_use c)) (used_action_digest (capability_use c)),
          plan_binding = UseBinding (use_binding_from_command c)\<rparr>) a'"
      using intersects_policy_code[of a c]
      by (auto simp: next_is_def lease_validate_observation_Ok next_version_Ok next_active_version_def
          ensure_before_expiry_Ok)
    then show "lease_valid a \<and> lease_step a (Use c) a'"
      by (auto simp: next_is_transition advance_observe intro!: lease_step.used)
  next
    assume *: "lease_valid a \<and> lease_step a (Use c) a'"
    then obtain act v where step: "aggregate_state a = Active act" "use_claim c = claim_of a act"
      "observable (authority_time a) (use_lease_observed_at c)"
      "tick_millis (use_lease_observed_at c) < tick_millis (active_expires_at act)"
      "intersects_policy a c" "succeeds_version a v" "version_nat v \<le> last_versions"
      "a' = a\<lparr>aggregate_version := v, authority_time := authority_time_state_new (use_lease_observed_at c)\<rparr>"
      by (auto elim!: lease_step_cases)
    have nxt: "next_is (transition a \<lparr>plan_command_id = use_command_id c, plan_version = v,
          plan_generation = aggregate_generation a, plan_time_advance = Observe (use_lease_observed_at c),
          plan_state = Active act, plan_kind = Used (used_action_id (capability_use c)) (used_action_digest (capability_use c)),
          plan_binding = UseBinding (use_binding_from_command c)\<rparr>) a'"
      using * step by (simp add: next_is_transition advance_observe)
    have "require_active_claim a (use_claim c) = Ok act" "lease_validate_observation (authority_time a) (use_lease_observed_at c) = Ok ()"
      "validate_policy_intersection a c = Ok ()" "next_active_version (aggregate_version a) = Ok v"
      "ensure_before_expiry (active_expires_at act) (use_lease_observed_at c) = Ok ()"
      using * step lease_valid_epoch[of a act] intersects_policy_code[of a c]
      by (simp_all add: check_simps succeeds_version_def observable_def)
    with nxt show "next_is (apply_lease a (Use c)) a'"
      by (auto simp: view authorize_use_def Let_def next_is_def)
  qed
qed

section \<open>Fencing\<close>

lemma fence_verified_next: "next_is (fence_verified a act p) a' \<longleftrightarrow> lease_valid a
    \<and> (\<exists>time. advance_time (authority_time a) (fence_time_advance p) = Some time
        \<and> fenced a act time (fence_reconciliation_cause p) a')"
proof (cases "revision_number_checked_next (aggregate_version a)")
  case (Inl e)
  then have "version_nat (aggregate_version a) = 2 ^ 64 - 1" using checked_version_None by blast
  then have "\<not> succeeds_version a v" for v
    using version_nat_less[of v] by (simp add: succeeds_version_def)
  with Inl show ?thesis by (auto simp: fence_verified_def elim: fenced_cases)
next
  case (Inr v)
  then have v: "succeeds_version a w \<longleftrightarrow> w = v" for w
    by (auto simp: checked_version succeeds_version_def simp flip: version_nat_inject)
  show ?thesis
  proof (cases "last_versions \<le> version_nat v")
    case True
    with Inr v show ?thesis
      by (auto simp: fence_verified_def last_version_word retire_def next_is_transition
          elim: fenced_cases intro: out_of_versions)
  next
    case False
    show ?thesis
    proof (cases "generation_checked_next (aggregate_generation a)")
      case (Inl e)
      then have full: "generation_nat (aggregate_generation a) = 2 ^ 64 - 1" by (simp add: checked_generation_Err)
      then have "generation_nat g \<noteq> generation_nat (aggregate_generation a) + 1" for g
        using generation_nat_less[of g] by simp
      with Inr v False Inl full show ?thesis
        by (auto simp: fence_verified_def last_version_word retire_def next_is_transition not_le
            elim: fenced_cases intro!: out_of_generations[OF _ _ refl])
    next
      case (Inr g)
      then have g: "generation_nat h = generation_nat (aggregate_generation a) + 1 \<longleftrightarrow> h = g" for h
        by (auto simp: checked_generation simp flip: generation_nat_inject)
      from Inr have "generation_nat (aggregate_generation a) \<noteq> 2 ^ 64 - 1"
        using generation_nat_less[of g] by (simp add: checked_generation)
      with \<open>revision_number_checked_next _ = Ok v\<close> v False Inr g show ?thesis
        by (auto simp: fence_verified_def last_version_word next_is_transition not_le
            elim: fenced_cases intro!: next_generation)
    qed
  qed
qed

lemma fence_next:
  assumes "fencing_kind_is_valid kind"
  shows "next_is (fence a cmd t cause kind b) a' \<longleftrightarrow> lease_valid a \<and> (\<exists>act time. aggregate_state a = Active act
    \<and> (if cause = Some ClockDiscontinuityCause
       then discontinuous (authority_time a) t \<and> time = discontinued_time (authority_time a) t
       else observable (authority_time a) t \<and> time = authority_time_state_new t)
    \<and> fenced a act time cause a')"
proof (cases "aggregate_state a")
  case (Active act)
  have "next_is (fence a cmd t cause kind b) a' \<longleftrightarrow> (\<exists>adv. fence_time a t cause = Ok adv \<and> lease_valid a
      \<and> (\<exists>time. advance_time (authority_time a) adv = Some time \<and> fenced a act time cause a'))"
    using assms by (simp add: fence_def Active next_is_case fence_verified_next)
  also have "\<dots> \<longleftrightarrow> lease_valid a \<and> (\<exists>time. (if cause = Some ClockDiscontinuityCause
       then discontinuous (authority_time a) t \<and> time = discontinued_time (authority_time a) t
       else observable (authority_time a) t \<and> time = authority_time_state_new t) \<and> fenced a act time cause a')"
  proof (cases "cause = Some ClockDiscontinuityCause")
    case True
    then show ?thesis
      by (auto simp: fence_time_def discontinuous_def discontinued_time_def observable_def advance_time_def)
  next
    case False
    then show ?thesis
      using lease_validate_observation_simps[of "authority_time a" t]
      by (cases "observable (authority_time a) t") (auto simp: fence_time_def advance_observe)
  qed
  finally show ?thesis using Active by auto
qed (simp_all add: fence_def)

lemma release_quiescence_code:
  "(\<exists>direct. validate_release_quiescence c = Ok direct
      \<and> k = (if direct then None else Some ReleasedWithoutQuiescence)) \<longleftrightarrow> release_cause c k"
proof (cases "release_quiescence c")
  case None
  then show ?thesis by (auto simp: validate_release_quiescence_def release_cause_def ex_bool_eq)
next
  case (Some e)
  then show ?thesis
    by (auto simp: validate_release_quiescence_def release_cause_def is_ok_unit validate_claim_identity_Ok ex_bool_eq)
qed

lemma release_next: "next_is (release a c) a' \<longleftrightarrow> lease_valid a \<and> lease_step a (Release c) a'"
proof -
  have "next_is (release a c) a' \<longleftrightarrow> (\<exists>direct. validate_release_quiescence c = Ok direct
     \<and> (\<exists>act. aggregate_state a = Active act \<and> release_claim c = claim_of a act)
     \<and> next_is (fence a (release_command_id c) (release_observed_at c)
        (if direct then None else Some ReleasedWithoutQuiescence)
        (if direct then ReleasedAvailable else ReleasedReconciling) (ReleaseBinding c)) a'
     \<and> observable (authority_time a) (release_observed_at c))"
    by (auto simp: release_def next_is_case next_is_case_unit check_simps)
  also have "\<dots> \<longleftrightarrow> (\<exists>k. release_cause c k \<and> lease_valid a \<and> observable (authority_time a) (release_observed_at c)
     \<and> (\<exists>act. aggregate_state a = Active act \<and> release_claim c = claim_of a act
        \<and> fenced a act (authority_time_state_new (release_observed_at c)) k a'))"
    unfolding release_quiescence_code[symmetric]
    by (auto simp: fence_next)
  also have "\<dots> \<longleftrightarrow> lease_valid a \<and> lease_step a (Release c) a'"
    by (auto intro: released elim!: lease_step_cases)
  finally show ?thesis .
qed

lemma expire_next: "next_is (expire a c) a' \<longleftrightarrow> lease_valid a \<and> lease_step a (Expire c) a'"
proof -
  have "next_is (expire a c) a' \<longleftrightarrow> (\<exists>act. aggregate_state a = Active act \<and> lease_valid a
     \<and> observable (authority_time a) (expire_observed_at c)
     \<and> epoch (expire_observed_at c) = epoch (active_expires_at act)
     \<and> tick_millis (active_expires_at act) \<le> tick_millis (expire_observed_at c)
     \<and> fenced a act (authority_time_state_new (expire_observed_at c)) (Some ExpiredCause) a')"
    by (auto simp: expire_def next_is_case next_is_case_unit check_simps fence_next not_less)
  then show ?thesis
    using lease_valid_epoch[of a] by (auto simp: observable_def intro: lease_step.expired elim!: lease_step_cases)
qed

lemma holder_loss_next: "next_is (fence_holder_loss a c) a' \<longleftrightarrow> lease_valid a \<and> lease_step a (HolderLoss c) a'"
proof -
  have "next_is (fence_holder_loss a c) a' \<longleftrightarrow> (\<exists>act. aggregate_state a = Active act \<and> lease_valid a
     \<and> loss_claim (loss_evidence c) = claim_of a act \<and> observable (authority_time a) (loss_observed_at c)
     \<and> fenced a act (authority_time_state_new (loss_observed_at c)) (Some HolderLostCause) a')"
    by (auto simp: fence_holder_loss_def next_is_case next_is_case_unit check_simps fence_next)
  then show ?thesis by (auto intro: holder_lost elim!: lease_step_cases)
qed

lemma discontinuity_next:
  "next_is (fence_clock_discontinuity a c) a' \<longleftrightarrow> lease_valid a \<and> lease_step a (ClockDiscontinuity c) a'"
proof -
  have "next_is (fence_clock_discontinuity a c) a' \<longleftrightarrow> (\<exists>act. aggregate_state a = Active act \<and> lease_valid a
     \<and> discontinuous (authority_time a) (discontinuity_observed_at c)
     \<and> fenced a act (discontinued_time (authority_time a) (discontinuity_observed_at c)) (Some ClockDiscontinuityCause) a')"
    by (auto simp: fence_clock_discontinuity_def next_is_case check_simps fence_next Let_def
        discontinuous_def observable_def not_less)
  then show ?thesis by (auto intro: discontinued elim!: lease_step_cases)
qed

lemma revoke_next: "next_is (revoke a c) a' \<longleftrightarrow> lease_valid a \<and> lease_step a (Revoke c) a'"
proof -
  have "next_is (revoke a c) a' \<longleftrightarrow> (\<exists>act. aggregate_state a = Active act \<and> lease_valid a
     \<and> revoke_claim c = claim_of a act \<and> observable (authority_time a) (revoke_observed_at c)
     \<and> fenced a act (authority_time_state_new (revoke_observed_at c)) (Some RevokedCause) a')"
    by (auto simp: revoke_def next_is_case next_is_case_unit check_simps fence_next)
  then show ?thesis by (auto intro: revoked elim!: lease_step_cases)
qed

section \<open>Reconciling\<close>

lemma validate_correlation_Ok: "validate_correlation k l = Ok () \<longleftrightarrow> l = k"
proof -
  have "l = k \<longleftrightarrow> lease_workspace (correlation_scope l) = lease_workspace (correlation_scope k)
     \<and> lease_resource (correlation_scope l) = lease_resource (correlation_scope k)
     \<and> lease_environment (correlation_scope l) = lease_environment (correlation_scope k)
     \<and> fenced_generation l = fenced_generation k
     \<and> holder_actor_id (prior_holder l) = holder_actor_id (prior_holder k)
     \<and> holder_session_id (prior_holder l) = holder_session_id (prior_holder k)"
    by (auto intro!: reconciliation_correlation.equality lease_scope.equality lease_holder.equality)
  then show ?thesis by (auto simp: validate_correlation_def)
qed

lemma reconciliation_time:
  "(\<exists>adv. reconciliation_time_advance a k t = Ok adv \<and> advance_time (authority_time a) adv = Some time) \<longleftrightarrow>
     (observable (authority_time a) t \<or> (k = ClockDiscontinuityCause \<and> epoch t \<noteq> time_epoch (authority_time a)))
     \<and> time = authority_time_state_new t"
  using lease_validate_observation_simps[of "authority_time a" t]
  by (cases "observable (authority_time a) t")
    (auto simp: reconciliation_time_advance_def advance_time_def observable_def)

lemma reconcile_next: "next_is (reconcile a c) a' \<longleftrightarrow> lease_valid a \<and> lease_step a (Reconcile c) a'"
proof (cases "aggregate_state a")
  case (Reconciling r)
  define d where "d = observation_disposition (reconcile_observation c)"
  have state: "(case (if U64_MAX - 1 \<le> revision_number_get v
            then (Retired RetiredVersionExhausted, RetiredKind RetiredVersionExhausted)
            else (case d of SafeToAcquire _ _ \<Rightarrow> (Available, ReconciledAvailable)
             | disposition \<Rightarrow> (Quarantined \<lparr>quarantined_correlation = reconciling_correlation r,
                 quarantined_cause = reconciling_cause r, quarantined_disposition = disposition\<rparr>,
                 ReconciledQuarantined)))
      of (state, kind) \<Rightarrow> next_is (transition a \<lparr>plan_command_id = reconcile_command_id c, plan_version = v,
            plan_generation = aggregate_generation a, plan_time_advance = adv, plan_state = state,
            plan_kind = kind, plan_binding = ReconcileBinding c\<rparr>) a')
     \<longleftrightarrow> succeeds_version a v \<and> lease_valid a \<and> (\<exists>time. advance_time (authority_time a) adv = Some time
        \<and> a' = a\<lparr>aggregate_version := v, authority_time := time, aggregate_state := reconciled_state v r d\<rparr>)" for v adv
    by (cases d) (auto simp: last_version_word next_is_transition reconciled_state_def is_safe_def)
  have "next_is (reconcile a c) a' \<longleftrightarrow>
     observation_correlation (reconcile_observation c) = reconciling_correlation r
   \<and> (\<exists>adv v. reconciliation_time_advance a (reconciling_cause r) (reconcile_observed_at c) = Ok adv
       \<and> version_nat v \<le> last_versions \<and> succeeds_version a v \<and> lease_valid a
       \<and> (\<exists>time. advance_time (authority_time a) adv = Some time
        \<and> a' = a\<lparr>aggregate_version := v, authority_time := time, aggregate_state := reconciled_state v r d\<rparr>))"
    unfolding reconcile_def Reconciling d_def[symmetric]
    by (auto simp: next_is_case next_is_case_unit validate_correlation_Ok next_version_Ok Let_def
        prod.case_distrib[of "\<lambda>x. next_is x a'"] state succeeds_version_def)
  also have "\<dots> \<longleftrightarrow> observation_correlation (reconcile_observation c) = reconciling_correlation r
   \<and> (\<exists>v. version_nat v \<le> last_versions \<and> succeeds_version a v \<and> lease_valid a
       \<and> (\<exists>time. (\<exists>adv. reconciliation_time_advance a (reconciling_cause r) (reconcile_observed_at c) = Ok adv
            \<and> advance_time (authority_time a) adv = Some time)
        \<and> a' = a\<lparr>aggregate_version := v, authority_time := time, aggregate_state := reconciled_state v r d\<rparr>))"
    by blast
  also have "\<dots> \<longleftrightarrow> lease_valid a \<and> lease_step a (Reconcile c) a'"
    unfolding reconciliation_time
    by (auto simp: Reconciling d_def elim!: lease_step_cases intro!: lease_step.reconciled)
  finally show ?thesis .
qed (auto simp: reconcile_def elim: lease_step_cases)

section \<open>All operations\<close>

theorem apply_lease_next: "next_is (apply_lease a c) a' \<longleftrightarrow> lease_valid a \<and> lease_step a c a'"
  using acquire_next renew_next use_next release_next expire_next holder_loss_next discontinuity_next
    revoke_next reconcile_next
  by (cases c) auto

lemma failure_aggregate_rejection [simp]: "failure_aggregate (rejection a e) = a"
  by (simp add: rejection_def)

lemma fence_Err: "fence a cmd t cause kind b = Err f \<Longrightarrow> failure_aggregate f = a"
  by (auto simp: fence_def fence_verified_def retire_def dest: transition_Err
      split: lease_state.splits sum.splits if_splits)

theorem apply_lease_Err: "apply_lease a c = Err f \<Longrightarrow> failure_aggregate f = a"
  by (cases c)
    (auto simp: acquire_def renew_def authorize_use_def use_rejection_def release_def expire_def
      fence_holder_loss_def fence_clock_discontinuity_def revoke_def reconcile_def Let_def
      dest: transition_Err fence_Err split: sum.splits if_splits lease_state.splits prod.splits)

end
