(* ===== verification/Lease_Invariant.thy ===== *)
theory Lease_Invariant
  imports Lease_Refinement
begin

text \<open>
  What every execution of the lease operations keeps: validity, and the order of fencing stamps. A
  stamp is the generation with the claim version inside it; no step lowers it, and an active lease
  whose stamp has not moved is the same lease.
\<close>

section \<open>Validity\<close>

lemma lease_valid_iff: "lease_valid a \<longleftrightarrow> (case aggregate_state a of
     Available \<Rightarrow> True
   | Retired _ \<Rightarrow> True
   | Active act \<Rightarrow> active_state_is_valid a act
   | Reconciling r \<Rightarrow> correlation_is_valid a (reconciling_correlation r)
   | Quarantined q \<Rightarrow> \<not> is_safe (quarantined_disposition q) \<and> correlation_is_valid a (quarantined_correlation q))"
  by (simp add: lease_valid_def lease_validate_def split: lease_state.split)

lemma version_below_max: "revision_number_get v < U64_MAX \<longleftrightarrow> version_nat v < 2 ^ 64 - 1"
  by (simp add: word_less_nat_alt version_nat_def)

lemma correlation_is_valid_iff: "correlation_is_valid a c \<longleftrightarrow> correlation_scope c = aggregate_scope a
    \<and> generation_nat (aggregate_generation a) = generation_nat (fenced_generation c) + 1"
  by (simp add: correlation_is_valid_def generations_are_successive_iff generation_nat_def)

lemma active_valid_iff: "active_state_is_valid a act \<longleftrightarrow>
    epoch (active_issued_at act) = time_epoch (authority_time a)
  \<and> epoch (active_expires_at act) = time_epoch (authority_time a)
  \<and> tick_millis (active_issued_at act) \<le> greatest_tick_millis (authority_time a)
  \<and> greatest_tick_millis (authority_time a) < tick_millis (active_expires_at act)
  \<and> version_nat (aggregate_version a) < 2 ^ 64 - 1"
  by (auto simp: active_state_is_valid_def version_below_max)

lemma fenced_valid: "fenced a act time cause a' \<Longrightarrow> lease_valid a'"
  by (cases rule: fenced.cases) (auto simp: lease_valid_iff correlation_is_valid_iff split: option.splits)

lemma deadline_after_tick: "deadline_after t d e \<Longrightarrow> epoch e = epoch t \<and> tick_millis t < tick_millis e"
  by (simp add: deadline_after_def word_less_nat_alt)

lemma last_versions_less: "n \<le> last_versions \<Longrightarrow> n < 2 ^ 64 - 1"
  by (simp add: last_versions_def)

lemma used_valid:
  assumes "lease_valid a" and "aggregate_state a = Active act" and "observable (authority_time a) t"
    and "tick_millis t < tick_millis (active_expires_at act)" and "version_nat v \<le> last_versions"
  shows "lease_valid (a\<lparr>aggregate_version := v, authority_time := authority_time_state_new t\<rparr>)"
proof -
  have act: "active_state_is_valid a act" using assms(1,2) by (simp add: lease_valid_iff)
  then have "tick_millis (active_issued_at act) \<le> tick_millis t"
    using assms(3) unfolding active_valid_iff observable_def by (blast intro: order_trans)
  with act assms(2-) last_versions_less[OF assms(5)] show ?thesis
    by (simp add: lease_valid_iff active_valid_iff authority_time_state_new_def observable_def)
qed

lemma started_valid:
  assumes "observable (authority_time a) t" and "deadline_after t d e" and "version_nat v \<le> last_versions"
    and "active_issued_at act = t" and "active_expires_at act = e"
  shows "lease_valid (a\<lparr>aggregate_version := v, authority_time := authority_time_state_new t,
    aggregate_state := Active act\<rparr>)"
  using assms deadline_after_tick[OF assms(2)] last_versions_less[OF assms(3)]
  by (simp add: lease_valid_iff active_valid_iff authority_time_state_new_def observable_def)

lemma reconciled_valid:
  assumes "lease_valid a" and "aggregate_state a = Reconciling r"
  shows "lease_valid (a\<lparr>aggregate_version := v, authority_time := time,
    aggregate_state := reconciled_state v r d\<rparr>)"
  using assms by (auto simp: lease_valid_iff reconciled_state_def correlation_is_valid_iff)

lemma lease_step_valid: "lease_valid a \<Longrightarrow> lease_step a c a' \<Longrightarrow> lease_valid a'"
  by (erule lease_step.cases) (auto intro: used_valid started_valid reconciled_valid fenced_valid)

section \<open>Stamps\<close>

definition claim_rank :: "lease_state \<Rightarrow> nat" where
  "claim_rank s = (case s of Active act \<Rightarrow> version_nat (active_claim_version act) | Retired _ \<Rightarrow> 2 ^ 64 | _ \<Rightarrow> 0)"

definition stamp :: "lease_aggregate \<Rightarrow> nat \<times> nat" where
  "stamp a = (generation_nat (aggregate_generation a), claim_rank (aggregate_state a))"

definition claim_stamp :: "lease_claim \<Rightarrow> nat \<times> nat" where
  "claim_stamp k = (generation_nat (claim_generation k), version_nat (claim_version k))"

definition is_active :: "lease_aggregate \<Rightarrow> bool" where
  "is_active a \<longleftrightarrow> (\<exists>act. aggregate_state a = Active act)"

lemma active_claim_Some: "active_claim a = Some k \<longleftrightarrow> (\<exists>act. aggregate_state a = Active act \<and> k = claim_of a act)"
  by (auto simp: active_claim_def split: lease_state.splits)

lemma active_claim_stamp: "active_claim a = Some k \<Longrightarrow> stamp a = claim_stamp k"
  by (auto simp: active_claim_Some stamp_def claim_stamp_def claim_of_def claim_rank_def)

definition lease_le :: "lease_aggregate \<Rightarrow> lease_aggregate \<Rightarrow> bool" where
  "lease_le a b \<longleftrightarrow> aggregate_scope b = aggregate_scope a
     \<and> version_nat (aggregate_version a) \<le> version_nat (aggregate_version b)
     \<and> stamp a \<le> stamp b
     \<and> (is_active a \<and> stamp a = stamp b \<longrightarrow> aggregate_state b = aggregate_state a)"

lemma version_nat_first [simp]: "version_nat revision_number_first = 1"
  by (simp add: version_nat_def revision_number_get_def revision_number_first_def)

lemma version_nat_bound: "version_nat v < 2 ^ 64"
  by (rule version_nat_less)

lemma fenced_facts:
  assumes "fenced a act time cause a'"
  shows "succeeds_version a (aggregate_version a')" "aggregate_scope a' = aggregate_scope a" "\<not> is_active a'"
    "generation_nat (aggregate_generation a') = generation_nat (aggregate_generation a) + 1
      \<or> aggregate_generation a' = aggregate_generation a \<and> (\<exists>r. aggregate_state a' = Retired r)"
  using assms by (auto elim!: fenced_cases simp: succeeds_version_def is_active_def split: option.splits)

lemma fenced_le:
  assumes step: "fenced a act time cause a'" and act: "aggregate_state a = Active act"
  shows "lease_le a a' \<and> stamp a < stamp a' \<and> \<not> is_active a'"
proof -
  have "claim_rank (aggregate_state a) < 2 ^ 64"
    by (simp only: act claim_rank_def lease_state.case version_nat_bound)
  then have "stamp a < stamp a'"
    using fenced_facts(4)[OF step] by (auto simp: stamp_def claim_rank_def less_prod_def)
  then show ?thesis
    using fenced_facts(1-3)[OF step] by (auto simp: lease_le_def succeeds_version_def)
qed

lemma same_generation_le:
  assumes "succeeds_version a v" and "\<not> is_active a \<or> aggregate_state a = s
      \<or> claim_rank (aggregate_state a) < claim_rank s"
    and "claim_rank (aggregate_state a) \<le> claim_rank s"
  shows "lease_le a (a\<lparr>aggregate_version := v, authority_time := time, aggregate_state := s\<rparr>)"
  using assms by (auto simp: lease_le_def stamp_def succeeds_version_def is_active_def)

lemma claim_rank_simps [simp]:
  "claim_rank Available = 0" "claim_rank (Reconciling r) = 0" "claim_rank (Quarantined q) = 0"
  "claim_rank (Active act) = version_nat (active_claim_version act)" "claim_rank (Retired w) = 2 ^ 64"
  by (simp_all add: claim_rank_def)

lemma unchanged_state_le:
  assumes "succeeds_version a v"
  shows "lease_le a (a\<lparr>aggregate_version := v, authority_time := time\<rparr>)"
  using same_generation_le[OF assms, of "aggregate_state a" time] by simp

lemma lease_step_le: "lease_step a c a' \<Longrightarrow> lease_le a a'"
  by (erule lease_step.cases)
    (auto intro!: same_generation_le unchanged_state_le simp: is_active_def dest: fenced_le)

lemma lease_le_trans:
  assumes ab: "lease_le a b" and bc: "lease_le b c"
  shows "lease_le a c"
proof -
  have "aggregate_state c = aggregate_state a" if "is_active a" "stamp a = stamp c"
  proof -
    from ab bc that have "stamp b = stamp a" by (auto simp: lease_le_def)
    with ab bc that show ?thesis by (auto simp: lease_le_def is_active_def)
  qed
  with ab bc show ?thesis by (auto simp: lease_le_def)
qed

definition lease_accepts :: "lease_aggregate \<Rightarrow> lease_command \<Rightarrow> lease_aggregate \<Rightarrow> lease_transition \<Rightarrow> bool" where
  "lease_accepts a c a' tr \<longleftrightarrow> apply_lease a c = Ok tr \<and> next_aggregate tr = a'"

lemma lease_accepts_step: "lease_accepts a c a' tr \<Longrightarrow> lease_valid a \<and> lease_step a c a'"
  using apply_lease_next[of a c a'] by (auto simp: lease_accepts_def next_is_def)

interpretation leases: reducer lease_accepts lease_valid lease_le
proof unfold_locales
  show "lease_valid a'" if "lease_valid a" "lease_accepts a c a' tr" for a c a' tr
    using lease_accepts_step[OF that(2)] lease_step_valid by blast
  show "lease_le a a'" if "lease_valid a" "lease_accepts a c a' tr" for a c a' tr
    using lease_accepts_step[OF that(2)] lease_step_le by blast
  show "lease_le a a" for a by (simp add: lease_le_def)
qed (rule lease_le_trans)

text \<open>An execution, and the aggregates some execution of a minted lease produces.\<close>

definition lease_run :: "lease_aggregate \<Rightarrow> lease_aggregate \<Rightarrow> bool" where
  "lease_run = (successor lease_accepts)\<^sup>*\<^sup>*"

fun run_leases :: "lease_aggregate \<Rightarrow> lease_command list \<Rightarrow> lease_aggregate" where
  "run_leases a [] = a"
| "run_leases a (c # cs) = (case apply_lease a c of
     Inl f \<Rightarrow> run_leases (failure_aggregate f) cs
   | Inr tr \<Rightarrow> run_leases (next_aggregate tr) cs)"

lemma run_leases_run: "lease_run a (run_leases a cs)"
  unfolding lease_run_def
proof (induction cs arbitrary: a)
  case (Cons c cs)
  show ?case
  proof (cases "apply_lease a c")
    case (Inl f)
    with Cons apply_lease_Err[OF Inl] show ?thesis by simp
  next
    case (Inr tr)
    then have "successor lease_accepts a (next_aggregate tr)"
      by (auto simp: successor_def lease_accepts_def)
    with Inr Cons show ?thesis by (auto intro: converse_rtranclp_into_rtranclp)
  qed
qed simp

lemma run_leases_append: "run_leases a (cs @ ds) = run_leases (run_leases a cs) ds"
  by (induction cs arbitrary: a) (auto split: sum.splits)

lemma lease_run_valid: "lease_run a b \<Longrightarrow> lease_valid a \<Longrightarrow> lease_valid b"
  unfolding lease_run_def by (rule leases.run_inv)

lemma lease_run_le: "lease_run a b \<Longrightarrow> lease_valid a \<Longrightarrow> lease_le a b"
  unfolding lease_run_def by (rule leases.run_le)

lemma lease_le_claim:
  assumes "lease_le a b" and "active_claim a = Some k" and "stamp b = claim_stamp k"
  shows "active_claim b = Some k"
proof -
  have "aggregate_generation b = aggregate_generation a"
    using assms(3) active_claim_stamp[OF assms(2)]
    by (auto simp: stamp_def claim_stamp_def simp flip: generation_nat_inject)
  with assms active_claim_stamp[OF assms(2)] show ?thesis
    by (auto simp: lease_le_def active_claim_Some is_active_def claim_of_def)
qed

lemma superseded_stays_superseded:
  assumes ab: "lease_le a b" and bd: "lease_le b d"
    and k: "active_claim a = Some k" and gone: "active_claim b \<noteq> Some k"
  shows "active_claim d \<noteq> Some k"
proof
  assume "active_claim d = Some k"
  then have "stamp d = claim_stamp k" by (rule active_claim_stamp)
  moreover have "stamp a = claim_stamp k" using k by (rule active_claim_stamp)
  ultimately have "stamp b = claim_stamp k" using ab bd by (auto simp: lease_le_def)
  with lease_le_claim[OF ab k] gone show False by simp
qed

section \<open>Claims and fences\<close>

fun command_claim :: "lease_command \<Rightarrow> lease_claim option" where
  "command_claim (Renew c) = Some (renew_claim c)"
| "command_claim (Use c) = Some (use_claim c)"
| "command_claim (Release c) = Some (release_claim c)"
| "command_claim (HolderLoss c) = Some (loss_claim (loss_evidence c))"
| "command_claim (Revoke c) = Some (revoke_claim c)"
| "command_claim _ = None"

lemma lease_step_claim: "lease_step a c a' \<Longrightarrow> command_claim c = Some k \<Longrightarrow> active_claim a = Some k"
  by (cases rule: lease_step.cases) (auto simp: active_claim_Some)

lemma accepted_claim: "apply_lease a c = Ok tr \<Longrightarrow> command_claim c = Some k \<Longrightarrow> active_claim a = Some k"
  using apply_lease_next[of a c "next_aggregate tr"] lease_step_claim by (auto simp: next_is_def)

lemma fenced_exists:
  assumes "lease_valid a" and "aggregate_state a = Active act"
  shows "\<exists>a'. fenced a act time cause a'"
proof -
  have bound: "version_nat (aggregate_version a) < 2 ^ 64 - 1"
    using assms by (simp add: lease_valid_iff active_valid_iff)
  have "\<exists>v. revision_number_checked_next (aggregate_version a) = Ok v"
    using bound checked_version_None[of "aggregate_version a"]
    by (cases "revision_number_checked_next (aggregate_version a)") auto
  then obtain v where v: "succeeds_version a v" by (auto simp: checked_version succeeds_version_def)
  consider "last_versions \<le> version_nat v" | "version_nat v < last_versions" "generation_nat (aggregate_generation a) = 2 ^ 64 - 1"
    | g where "version_nat v < last_versions" "generation_nat g = generation_nat (aggregate_generation a) + 1"
  proof (cases "generation_checked_next (aggregate_generation a)")
    case (Inl e)
    then have "generation_nat (aggregate_generation a) = 2 ^ 64 - 1" by (simp add: checked_generation_Err)
    with that show ?thesis by linarith
  next
    case (Inr g)
    then have "generation_nat g = generation_nat (aggregate_generation a) + 1" by (simp add: checked_generation)
    with that show ?thesis by (meson not_le)
  qed
  then show ?thesis
  proof cases
    case 1
    with v show ?thesis by (blast intro: out_of_versions)
  next
    case 2
    with v show ?thesis by (blast intro: out_of_generations)
  next
    case 3
    with v show ?thesis by (blast intro: next_generation)
  qed
qed

lemma fence_accepts:
  assumes "lease_step a c a'" and "lease_valid a"
  shows "\<exists>tr. apply_lease a c = Ok tr \<and> next_aggregate tr = a'"
  using assms apply_lease_next[of a c a'] by (simp add: next_is_def)

end
