(* ===== verification/Lease_Examples.thy ===== *)
theory Lease_Examples
  imports Policy_Examples Lease_Invariant
begin

text \<open>
  A concrete lease, used as input of the witnesses: the workspace and resource of the sample policy,
  acquired by its writer at tick 10 until tick 60, used once at tick 20 and expired at tick 70.
\<close>

definition sample_version :: "u64 \<Rightarrow> revision_number" where
  "sample_version n = RevisionNumber (Abs_positive_number (if n = 0 then 1 else n))"

lemma sample_version_nat [simp]: "version_nat (sample_version n) = unat (if n = 0 then 1 else n)"
  by (simp add: version_nat_def revision_number_get_def sample_version_def Abs_positive_number_inverse)

definition sample_lease_scope :: lease_scope where
  "sample_lease_scope = \<lparr>lease_workspace = WorkspaceId (low_identifier 3),
     lease_resource = ResourceId (low_identifier 7), lease_environment = EnvironmentId (low_identifier 1)\<rparr>"

definition sample_holder :: lease_holder where
  "sample_holder = \<lparr>holder_actor_id = ActorId (low_identifier 1), holder_session_id = SessionId (low_identifier 1)\<rparr>"

definition sample_active :: active_lease where
  "sample_active = \<lparr>active_holder = sample_holder, active_claim_version = revision_number_first,
     active_issued_at = first_instant 10, active_expires_at = first_instant 60\<rparr>"

definition sample_lease :: lease_aggregate where
  "sample_lease = \<lparr>aggregate_scope = sample_lease_scope, aggregate_generation = generation_first,
     aggregate_version = sample_version 2, authority_time = authority_time_state_new (first_instant 10),
     aggregate_state = Active sample_active\<rparr>"

definition sample_claim :: lease_claim where
  "sample_claim = claim_of sample_lease sample_active"

lemma sample_lease_sel [simp]:
  "aggregate_state sample_lease = Active sample_active" "aggregate_scope sample_lease = sample_lease_scope"
  "aggregate_generation sample_lease = generation_first" "aggregate_version sample_lease = sample_version 2"
  "authority_time sample_lease = authority_time_state_new (first_instant 10)"
  by (simp_all add: sample_lease_def)

lemma sample_active_sel [simp]:
  "active_holder sample_active = sample_holder" "active_claim_version sample_active = revision_number_first"
  "active_issued_at sample_active = first_instant 10" "active_expires_at sample_active = first_instant 60"
  by (simp_all add: sample_active_def)

lemma sample_lease_valid: "lease_valid sample_lease"
  by (simp add: lease_valid_iff active_valid_iff authority_time_state_new_def)

lemma sample_lease_claim: "active_claim sample_lease = Some sample_claim"
  by (simp add: active_claim_def sample_claim_def)

lemma sample_observable: "10 \<le> n \<Longrightarrow> observable (authority_time sample_lease) (first_instant n)"
  by (simp add: observable_def authority_time_state_new_def)

definition sample_expire :: expire_lease where
  "sample_expire = \<lparr>expire_command_id = CommandId (low_identifier 9), expire_observed_at = first_instant 70\<rparr>"

lemma sample_expires: "active_claim (run_leases sample_lease [Expire sample_expire]) \<noteq> Some sample_claim"
proof -
  obtain a' where fence: "fenced sample_lease sample_active (authority_time_state_new (first_instant 70)) (Some ExpiredCause) a'"
    using fenced_exists[OF sample_lease_valid sample_lease_sel(1)] by blast
  then have "lease_step sample_lease (Expire sample_expire) a'"
    by (intro lease_step.expired) (simp_all add: sample_expire_def observable_def authority_time_state_new_def)
  from fence_accepts[OF this sample_lease_valid] fenced_facts(3)[OF fence] show ?thesis
    by (auto simp: is_active_def active_claim_Some)
qed

text \<open>One use of the sample capability, and the lease command that presents it.\<close>

definition sample_use :: capability_use_transition where
  "sample_use = \<lparr>used_action_id = ActionId (low_identifier 1), used_action_digest = low_digest 2,
     used_permission = sample_permission, used_at = first_instant 20, use_transition_digest = low_digest 4,
     previous_remaining = UseLimit (Some 2), use_successor = sample_capability
       \<lparr>capability_time_state := authority_time_state_new (first_instant 20), remaining_uses := UseLimit (Some 1)\<rparr>\<rparr>"

lemma sample_try_use: "try_use sample_capability (sample_request 20) (low_digest 4) = Ok sample_use"
  unfolding try_use_Ok using sample_permits[of 20]
  by (simp add: sample_use_def sample_request_def limit_decrement_def)

definition sample_use_command :: use_lease where
  "sample_use_command = \<lparr>use_command_id = CommandId (low_identifier 8), use_claim = sample_claim,
     use_lease_observed_at = first_instant 20, capability_use = sample_use\<rparr>"

lemma sample_use_accepted: "\<exists>tr. apply_lease sample_lease (Use sample_use_command) = Ok tr"
proof -
  have "intersects_policy sample_lease sample_use_command"
    by (simp add: intersects_policy_def sample_use_command_def sample_use_def sample_scope_def Let_def
        sample_claim_def claim_of_def sample_holder_def sample_lease_scope_def policy_revision_def
        sample_permission_def sample_window_set authority_time_state_new_def)
  then have "lease_step sample_lease (Use sample_use_command) (sample_lease\<lparr>aggregate_version := sample_version 3,
      authority_time := authority_time_state_new (first_instant 20)\<rparr>)"
    using lease_step.used[of sample_lease sample_active sample_use_command "sample_version 3"]
    by (simp add: sample_use_command_def sample_claim_def observable_def authority_time_state_new_def
        succeeds_version_def last_versions_def)
  from fence_accepts[OF this sample_lease_valid] show ?thesis by blast
qed

end
