(* ===== verification/Lease_Port.thy ===== *)
theory Lease_Port
  imports Lease_Transition
begin

text \<open>
  \<open>peritus-leases\<close>, \<open>port.rs\<close>, \<open>port/contracts.rs\<close> and \<open>port/equality/\<close>: the compare-and-swap request
  that carries a transition to the store, what the request makes of the store's observations, and
  the field by field comparison with which a store checks that a request is the planned one.
  The store itself is an effect behind the trait \<open>LeaseCasPort\<close> and is not modelled.
\<close>

section \<open>Requests and observations\<close>

datatype lease_cas_expectation = ExpectAbsent | ExpectVersion revision_number

record lease_cas_request =
  cas_workspace_id :: workspace_id
  cas_expected :: lease_cas_expectation
  cas_command_id :: command_id
  cas_planned :: lease_aggregate
  cas_record :: lease_transition_record

datatype observed_lease_state = ObservedAbsent | ObservedPresent lease_aggregate

datatype protocol_violation =
  CasIdentityMismatch | AuthoritativePlanMismatch | InvalidSnapshot | MalformedObservation

fun violation_code :: "protocol_violation \<Rightarrow> string" where
  "violation_code CasIdentityMismatch = ''PERITUS-LEASE-CAS-001''"
| "violation_code AuthoritativePlanMismatch = ''PERITUS-LEASE-CAS-002''"
| "violation_code InvalidSnapshot = ''PERITUS-LEASE-CAS-003''"
| "violation_code MalformedObservation = ''PERITUS-LEASE-CAS-004''"

fun violation_recovery :: "protocol_violation \<Rightarrow> lease_recovery" where
  "violation_recovery InvalidSnapshot = LeaseTerminal"
| "violation_recovery CasIdentityMismatch = LeaseCallerCorrectable"
| "violation_recovery AuthoritativePlanMismatch = LeaseCallerCorrectable"
| "violation_recovery MalformedObservation = LeaseCallerCorrectable"

datatype lease_cas_observation =
    ObservedClaimedApplied (observed_workspace: workspace_id) (observed_command: command_id)
  | ObservedConflict (observed_workspace: workspace_id) (observed_command: command_id) observed_lease_state
  | ObservedNotApplied (observed_workspace: workspace_id) (observed_command: command_id)
  | ObservedIndeterminate (observed_workspace: workspace_id) (observed_command: command_id)
  | ObservedInvalid (observed_workspace: workspace_id) (observed_command: command_id) protocol_violation

record validated_applied_lease_claim =
  applied_workspace_id :: workspace_id
  applied_command_id :: command_id

datatype lease_cas_resolution =
    ClaimedApplied validated_applied_lease_claim
  | CasConflict observed_lease_state
  | DefinitelyNotApplied
  | CasIndeterminate
  | ProtocolInvalid protocol_violation

datatype lease_port_failure = PortUnavailable | PortIndeterminate | PortViolation protocol_violation

fun port_failure_code :: "lease_port_failure \<Rightarrow> string" where
  "port_failure_code PortUnavailable = ''PERITUS-LEASE-PORT-001''"
| "port_failure_code PortIndeterminate = ''PERITUS-LEASE-PORT-002''"
| "port_failure_code (PortViolation v) = violation_code v"

fun port_failure_recovery :: "lease_port_failure \<Rightarrow> lease_recovery" where
  "port_failure_recovery PortUnavailable = LeaseReobserve"
| "port_failure_recovery PortIndeterminate = LeaseResolveIndeterminate"
| "port_failure_recovery (PortViolation v) = violation_recovery v"

definition expectation_from_version :: "revision_number option \<Rightarrow> lease_cas_expectation" where
  "expectation_from_version before = (case before of None \<Rightarrow> ExpectAbsent | Some v \<Rightarrow> ExpectVersion v)"

definition from_transition :: "lease_transition \<Rightarrow> lease_cas_request" where
  "from_transition tr = (let r = transition_record tr in
     \<lparr>cas_workspace_id = lease_workspace (record_scope r),
      cas_expected = expectation_from_version (before_version r),
      cas_command_id = record_command_id r, cas_planned = next_aggregate tr, cas_record = r\<rparr>)"

section \<open>Comparing arrays\<close>

text \<open>The recursion on an index from zero up is the recursion on the rest of the arrays.\<close>

definition bytes16_equal :: "opaque_identifier \<Rightarrow> opaque_identifier \<Rightarrow> bool" where
  "bytes16_equal a b = arrays_equal (as_bytes a) (as_bytes b)"

definition bytes32_equal :: "sha256_digest \<Rightarrow> sha256_digest \<Rightarrow> bool" where
  "bytes32_equal a b = arrays_equal (digest_bytes a) (digest_bytes b)"

fun expectations_equal :: "lease_cas_expectation \<Rightarrow> lease_cas_expectation \<Rightarrow> bool" where
  "expectations_equal ExpectAbsent ExpectAbsent = True"
| "expectations_equal (ExpectVersion v) (ExpectVersion w) \<longleftrightarrow> revision_number_get v = revision_number_get w"
| "expectations_equal _ _ = False"

section \<open>Resolving an observation\<close>

definition exact_identity_matches :: "lease_cas_request \<Rightarrow> workspace_id \<Rightarrow> command_id \<Rightarrow> bool" where
  "exact_identity_matches q w c \<longleftrightarrow>
     bytes16_equal (workspace_id_raw w) (workspace_id_raw (cas_workspace_id q))
   \<and> bytes16_equal (command_id_raw c) (command_id_raw (cas_command_id q))"

fun resolve_observation :: "lease_cas_request \<Rightarrow> lease_cas_observation \<Rightarrow> lease_cas_resolution" where
  "resolve_observation q (ObservedClaimedApplied w c) =
     (if exact_identity_matches q w c
      then ClaimedApplied \<lparr>applied_workspace_id = w, applied_command_id = c\<rparr>
      else ProtocolInvalid CasIdentityMismatch)"
| "resolve_observation q (ObservedConflict w c observed) =
     (if exact_identity_matches q w c then CasConflict observed else ProtocolInvalid CasIdentityMismatch)"
| "resolve_observation q (ObservedNotApplied w c) =
     (if exact_identity_matches q w c then DefinitelyNotApplied else ProtocolInvalid CasIdentityMismatch)"
| "resolve_observation q (ObservedIndeterminate w c) =
     (if exact_identity_matches q w c then CasIndeterminate else ProtocolInvalid CasIdentityMismatch)"
| "resolve_observation q (ObservedInvalid w c violation) =
     (if exact_identity_matches q w c then ProtocolInvalid violation else ProtocolInvalid CasIdentityMismatch)"

section \<open>Comparing aggregates\<close>

definition scopes_equal :: "lease_scope \<Rightarrow> lease_scope \<Rightarrow> bool" where
  "scopes_equal a b \<longleftrightarrow>
     bytes16_equal (workspace_id_raw (lease_workspace a)) (workspace_id_raw (lease_workspace b))
   \<and> bytes16_equal (resource_id_raw (lease_resource a)) (resource_id_raw (lease_resource b))
   \<and> bytes16_equal (environment_id_raw (lease_environment a)) (environment_id_raw (lease_environment b))"

definition holders_equal :: "lease_holder \<Rightarrow> lease_holder \<Rightarrow> bool" where
  "holders_equal a b \<longleftrightarrow>
     bytes16_equal (actor_id_raw (holder_actor_id a)) (actor_id_raw (holder_actor_id b))
   \<and> bytes16_equal (session_id_raw (holder_session_id a)) (session_id_raw (holder_session_id b))"

definition claims_equal :: "lease_claim \<Rightarrow> lease_claim \<Rightarrow> bool" where
  "claims_equal a b \<longleftrightarrow> scopes_equal (claim_scope a) (claim_scope b)
   \<and> holders_equal (claim_holder a) (claim_holder b)
   \<and> generation_get (claim_generation a) = generation_get (claim_generation b)
   \<and> revision_number_get (claim_version a) = revision_number_get (claim_version b)
   \<and> generation_get (epoch (claim_issued_at a)) = generation_get (epoch (claim_issued_at b))
   \<and> tick_millis (claim_issued_at a) = tick_millis (claim_issued_at b)
   \<and> generation_get (epoch (claim_expires_at a)) = generation_get (epoch (claim_expires_at b))
   \<and> tick_millis (claim_expires_at a) = tick_millis (claim_expires_at b)"

definition correlations_equal :: "reconciliation_correlation \<Rightarrow> reconciliation_correlation \<Rightarrow> bool" where
  "correlations_equal a b \<longleftrightarrow> scopes_equal (correlation_scope a) (correlation_scope b)
   \<and> generation_get (fenced_generation a) = generation_get (fenced_generation b)
   \<and> holders_equal (prior_holder a) (prior_holder b)"

fun causes_equal :: "fence_cause \<Rightarrow> fence_cause \<Rightarrow> bool" where
  "causes_equal ReleasedWithoutQuiescence ReleasedWithoutQuiescence = True"
| "causes_equal ExpiredCause ExpiredCause = True"
| "causes_equal HolderLostCause HolderLostCause = True"
| "causes_equal ClockDiscontinuityCause ClockDiscontinuityCause = True"
| "causes_equal RevokedCause RevokedCause = True"
| "causes_equal _ _ = False"

fun dispositions_equal :: "reconciliation_disposition \<Rightarrow> reconciliation_disposition \<Rightarrow> bool" where
  "dispositions_equal (SafeToAcquire h r) (SafeToAcquire h' r') \<longleftrightarrow>
     bytes16_equal (evidence_id_raw h) (evidence_id_raw h')
   \<and> bytes16_equal (evidence_id_raw r) (evidence_id_raw r')"
| "dispositions_equal (Dirty e) (Dirty e') = bytes16_equal (evidence_id_raw e) (evidence_id_raw e')"
| "dispositions_equal (Indeterminate e) (Indeterminate e') = bytes16_equal (evidence_id_raw e) (evidence_id_raw e')"
| "dispositions_equal _ _ = False"

definition reconciliation_states_equal :: "reconciliation_state \<Rightarrow> reconciliation_state \<Rightarrow> bool" where
  "reconciliation_states_equal a b \<longleftrightarrow>
     correlations_equal (reconciling_correlation a) (reconciling_correlation b)
   \<and> causes_equal (reconciling_cause a) (reconciling_cause b)"

definition quarantined_states_equal :: "quarantined_state \<Rightarrow> quarantined_state \<Rightarrow> bool" where
  "quarantined_states_equal a b \<longleftrightarrow>
     correlations_equal (quarantined_correlation a) (quarantined_correlation b)
   \<and> causes_equal (quarantined_cause a) (quarantined_cause b)
   \<and> dispositions_equal (quarantined_disposition a) (quarantined_disposition b)"

fun retirements_equal :: "retirement_reason \<Rightarrow> retirement_reason \<Rightarrow> bool" where
  "retirements_equal RetiredGenerationExhausted RetiredGenerationExhausted = True"
| "retirements_equal RetiredVersionExhausted RetiredVersionExhausted = True"
| "retirements_equal _ _ = False"

fun states_equal :: "lease_state \<Rightarrow> lease_state \<Rightarrow> bool" where
  "states_equal Available Available = True"
| "states_equal (Active a) (Active b) \<longleftrightarrow> holders_equal (active_holder a) (active_holder b)
   \<and> revision_number_get (active_claim_version a) = revision_number_get (active_claim_version b)
   \<and> generation_get (epoch (active_issued_at a)) = generation_get (epoch (active_issued_at b))
   \<and> tick_millis (active_issued_at a) = tick_millis (active_issued_at b)
   \<and> generation_get (epoch (active_expires_at a)) = generation_get (epoch (active_expires_at b))
   \<and> tick_millis (active_expires_at a) = tick_millis (active_expires_at b)"
| "states_equal (Reconciling a) (Reconciling b) = reconciliation_states_equal a b"
| "states_equal (Quarantined a) (Quarantined b) = quarantined_states_equal a b"
| "states_equal (Retired a) (Retired b) = retirements_equal a b"
| "states_equal _ _ = False"

definition aggregates_equal :: "lease_aggregate \<Rightarrow> lease_aggregate \<Rightarrow> bool" where
  "aggregates_equal a b \<longleftrightarrow> scopes_equal (aggregate_scope a) (aggregate_scope b)
   \<and> generation_get (aggregate_generation a) = generation_get (aggregate_generation b)
   \<and> revision_number_get (aggregate_version a) = revision_number_get (aggregate_version b)
   \<and> generation_get (time_epoch (authority_time a)) = generation_get (time_epoch (authority_time b))
   \<and> greatest_tick_millis (authority_time a) = greatest_tick_millis (authority_time b)
   \<and> states_equal (aggregate_state a) (aggregate_state b)"

section \<open>Comparing bindings\<close>

definition instants_equal :: "authority_instant \<Rightarrow> authority_instant \<Rightarrow> bool" where
  "instants_equal a b \<longleftrightarrow> generation_get (epoch a) = generation_get (epoch b) \<and> tick_millis a = tick_millis b"

definition durations_equal :: "lease_duration \<Rightarrow> lease_duration \<Rightarrow> bool" where
  "durations_equal a b \<longleftrightarrow> duration_millis a = duration_millis b"

definition mints_equal :: "mint_lease \<Rightarrow> mint_lease \<Rightarrow> bool" where
  "mints_equal a b \<longleftrightarrow> bytes16_equal (command_id_raw (mint_command_id a)) (command_id_raw (mint_command_id b))
   \<and> scopes_equal (mint_scope a) (mint_scope b)
   \<and> instants_equal (mint_observed_at a) (mint_observed_at b)"

definition acquires_equal :: "acquire_lease \<Rightarrow> acquire_lease \<Rightarrow> bool" where
  "acquires_equal a b \<longleftrightarrow> bytes16_equal (command_id_raw (acquire_command_id a)) (command_id_raw (acquire_command_id b))
   \<and> holders_equal (acquire_holder a) (acquire_holder b)
   \<and> durations_equal (acquire_duration a) (acquire_duration b)
   \<and> instants_equal (acquire_observed_at a) (acquire_observed_at b)"

definition renews_equal :: "renew_lease \<Rightarrow> renew_lease \<Rightarrow> bool" where
  "renews_equal a b \<longleftrightarrow> bytes16_equal (command_id_raw (renew_command_id a)) (command_id_raw (renew_command_id b))
   \<and> claims_equal (renew_claim a) (renew_claim b)
   \<and> durations_equal (renew_duration a) (renew_duration b)
   \<and> instants_equal (renew_observed_at a) (renew_observed_at b)"

definition releases_equal :: "release_lease \<Rightarrow> release_lease \<Rightarrow> bool" where
  "releases_equal a b \<longleftrightarrow> bytes16_equal (command_id_raw (release_command_id a)) (command_id_raw (release_command_id b))
   \<and> claims_equal (release_claim a) (release_claim b)
   \<and> instants_equal (release_observed_at a) (release_observed_at b)
   \<and> (case (release_quiescence a, release_quiescence b) of
        (None, None) \<Rightarrow> True
      | (Some e, Some e') \<Rightarrow> claims_equal (quiescence_claim e) (quiescence_claim e')
          \<and> bytes16_equal (evidence_id_raw (quiescence_evidence_id e)) (evidence_id_raw (quiescence_evidence_id e'))
      | _ \<Rightarrow> False)"

definition expires_equal :: "expire_lease \<Rightarrow> expire_lease \<Rightarrow> bool" where
  "expires_equal a b \<longleftrightarrow> bytes16_equal (command_id_raw (expire_command_id a)) (command_id_raw (expire_command_id b))
   \<and> instants_equal (expire_observed_at a) (expire_observed_at b)"

definition holder_losses_equal :: "fence_holder_loss \<Rightarrow> fence_holder_loss \<Rightarrow> bool" where
  "holder_losses_equal a b \<longleftrightarrow> bytes16_equal (command_id_raw (loss_command_id a)) (command_id_raw (loss_command_id b))
   \<and> instants_equal (loss_observed_at a) (loss_observed_at b)
   \<and> claims_equal (loss_claim (loss_evidence a)) (loss_claim (loss_evidence b))
   \<and> bytes16_equal (evidence_id_raw (loss_evidence_id (loss_evidence a)))
       (evidence_id_raw (loss_evidence_id (loss_evidence b)))"

definition discontinuities_equal :: "fence_clock_discontinuity \<Rightarrow> fence_clock_discontinuity \<Rightarrow> bool" where
  "discontinuities_equal a b \<longleftrightarrow>
     bytes16_equal (command_id_raw (discontinuity_command_id a)) (command_id_raw (discontinuity_command_id b))
   \<and> instants_equal (discontinuity_observed_at a) (discontinuity_observed_at b)"

definition revokes_equal :: "revoke_lease \<Rightarrow> revoke_lease \<Rightarrow> bool" where
  "revokes_equal a b \<longleftrightarrow> bytes16_equal (command_id_raw (revoke_command_id a)) (command_id_raw (revoke_command_id b))
   \<and> claims_equal (revoke_claim a) (revoke_claim b)
   \<and> instants_equal (revoke_observed_at a) (revoke_observed_at b)
   \<and> bytes16_equal (evidence_id_raw (revoke_evidence_id a)) (evidence_id_raw (revoke_evidence_id b))"

definition reconciles_equal :: "reconcile_lease \<Rightarrow> reconcile_lease \<Rightarrow> bool" where
  "reconciles_equal a b \<longleftrightarrow> bytes16_equal (command_id_raw (reconcile_command_id a)) (command_id_raw (reconcile_command_id b))
   \<and> instants_equal (reconcile_observed_at a) (reconcile_observed_at b)
   \<and> correlations_equal (observation_correlation (reconcile_observation a)) (observation_correlation (reconcile_observation b))
   \<and> dispositions_equal (observation_disposition (reconcile_observation a)) (observation_disposition (reconcile_observation b))"

section \<open>Comparing use bindings\<close>

definition roles_equal :: "actor_role \<Rightarrow> actor_role \<Rightarrow> bool" where
  "roles_equal a b = (case (a, b) of
     (Writer, Writer) \<Rightarrow> True
   | (Fixer, Fixer) \<Rightarrow> True
   | (Reviewer, Reviewer) \<Rightarrow> True
   | (Evaluator, Evaluator) \<Rightarrow> True
   | (GateRunner, GateRunner) \<Rightarrow> True
   | (Orchestrator, Orchestrator) \<Rightarrow> True
   | (EvolutionAgent, EvolutionAgent) \<Rightarrow> True
   | (HumanAuthority, HumanAuthority) \<Rightarrow> True
   | (DaemonService, DaemonService) \<Rightarrow> True
   | (ProviderToolWorker, ProviderToolWorker) \<Rightarrow> True
   | (Plugin, Plugin) \<Rightarrow> True
   | _ \<Rightarrow> False)"

definition revisions_equal :: "revision_tuple \<Rightarrow> revision_tuple \<Rightarrow> bool" where
  "revisions_equal a b \<longleftrightarrow>
     bytes16_equal (acceptance_spec_id_raw (acceptance_spec_id a)) (acceptance_spec_id_raw (acceptance_spec_id b))
   \<and> bytes16_equal (harness_id_raw (harness_id a)) (harness_id_raw (harness_id b))
   \<and> bytes16_equal (workspace_id_raw (workspace_id a)) (workspace_id_raw (workspace_id b))
   \<and> generation_get (workspace_generation a) = generation_get (workspace_generation b)
   \<and> revision_number_get (workspace_revision a) = revision_number_get (workspace_revision b)
   \<and> bytes16_equal (policy_id_raw (policy_id a)) (policy_id_raw (policy_id b))
   \<and> bytes16_equal (provider_profile_id_raw (provider_profile_id a)) (provider_profile_id_raw (provider_profile_id b))"

definition validities_equal :: "validity_window \<Rightarrow> validity_window \<Rightarrow> bool" where
  "validities_equal a b \<longleftrightarrow> instants_equal (not_before a) (not_before b) \<and> instants_equal (expires_at a) (expires_at b)"

definition use_limits_equal :: "use_limit \<Rightarrow> use_limit \<Rightarrow> bool" where
  "use_limits_equal a b = (case (limit_remaining a, limit_remaining b) of
     (None, None) \<Rightarrow> True
   | (Some m, Some n) \<Rightarrow> m = n
   | _ \<Rightarrow> False)"

definition permissions_equal :: "permission_binding \<Rightarrow> permission_binding \<Rightarrow> bool" where
  "permissions_equal a b \<longleftrightarrow> bytes16_equal (resource_id_raw (binding_resource_id a)) (resource_id_raw (binding_resource_id b))
   \<and> name_canonical_cmp (binding_capability_name a) (binding_capability_name b) = Equal"

text \<open>The loop over the two lists of permissions, entered with lists of the same length.\<close>

fun permission_walk :: "permission_binding list \<Rightarrow> permission_binding list \<Rightarrow> bool" where
  "permission_walk (p # ps) (q # qs) = (if \<not> permissions_equal p q then False else permission_walk ps qs)"
| "permission_walk _ _ = True"

definition use_bindings_equal :: "use_command_binding \<Rightarrow> use_command_binding \<Rightarrow> bool" where
  "use_bindings_equal a b =
    (let leading_fields_equal =
         bytes16_equal (command_id_raw (ub_command_id a)) (command_id_raw (ub_command_id b))
       \<and> claims_equal (ub_claim a) (ub_claim b)
       \<and> instants_equal (ub_observed_at a) (ub_observed_at b)
       \<and> bytes16_equal (action_id_raw (ub_action_id a)) (action_id_raw (ub_action_id b))
       \<and> bytes32_equal (ub_action_digest a) (ub_action_digest b)
       \<and> permissions_equal (ub_permission a) (ub_permission b)
       \<and> bytes16_equal (actor_id_raw (ub_actor_id a)) (actor_id_raw (ub_actor_id b))
       \<and> roles_equal (ub_role a) (ub_role b)
       \<and> bytes16_equal (environment_id_raw (ub_environment_id a)) (environment_id_raw (ub_environment_id b))
     in if \<not> leading_fields_equal \<or> length (ub_scope_permissions a) \<noteq> length (ub_scope_permissions b) then False
        else if \<not> permission_walk (ub_scope_permissions a) (ub_scope_permissions b) then False
        else revisions_equal (ub_revision a) (ub_revision b)
       \<and> validities_equal (ub_validity a) (ub_validity b)
       \<and> use_limits_equal (ub_scope_use_limit a) (ub_scope_use_limit b)
       \<and> instants_equal (ub_used_at a) (ub_used_at b)
       \<and> bytes32_equal (ub_transition_digest a) (ub_transition_digest b)
       \<and> use_limits_equal (ub_previous_remaining a) (ub_previous_remaining b)
       \<and> use_limits_equal (ub_successor_remaining a) (ub_successor_remaining b)
       \<and> generation_get (ub_successor_time_epoch a) = generation_get (ub_successor_time_epoch b)
       \<and> ub_successor_greatest_tick_millis a = ub_successor_greatest_tick_millis b
       \<and> instants_equal (ub_successor_issued_at a) (ub_successor_issued_at b)
       \<and> bytes32_equal (ub_successor_issuance_digest a) (ub_successor_issuance_digest b)
       \<and> bytes16_equal (command_id_raw (ub_successor_issuance_command_id a))
           (command_id_raw (ub_successor_issuance_command_id b)))"

definition bindings_equal :: "lease_command_binding \<Rightarrow> lease_command_binding \<Rightarrow> bool" where
  "bindings_equal a b = (case (a, b) of
     (MintBinding a, MintBinding b) \<Rightarrow> mints_equal a b
   | (AcquireBinding a, AcquireBinding b) \<Rightarrow> acquires_equal a b
   | (RenewBinding a, RenewBinding b) \<Rightarrow> renews_equal a b
   | (UseBinding a, UseBinding b) \<Rightarrow> use_bindings_equal a b
   | (ReleaseBinding a, ReleaseBinding b) \<Rightarrow> releases_equal a b
   | (ExpireBinding a, ExpireBinding b) \<Rightarrow> expires_equal a b
   | (HolderLossBinding a, HolderLossBinding b) \<Rightarrow> holder_losses_equal a b
   | (ClockDiscontinuityBinding a, ClockDiscontinuityBinding b) \<Rightarrow> discontinuities_equal a b
   | (RevokeBinding a, RevokeBinding b) \<Rightarrow> revokes_equal a b
   | (ReconcileBinding a, ReconcileBinding b) \<Rightarrow> reconciles_equal a b
   | _ \<Rightarrow> False)"

section \<open>Comparing records\<close>

definition revision_options_equal :: "revision_number option \<Rightarrow> revision_number option \<Rightarrow> bool" where
  "revision_options_equal a b = (case (a, b) of
     (None, None) \<Rightarrow> True
   | (Some v, Some w) \<Rightarrow> revision_number_get v = revision_number_get w
   | _ \<Rightarrow> False)"

definition generation_options_equal :: "generation option \<Rightarrow> generation option \<Rightarrow> bool" where
  "generation_options_equal a b = (case (a, b) of
     (None, None) \<Rightarrow> True
   | (Some g, Some h) \<Rightarrow> generation_get g = generation_get h
   | _ \<Rightarrow> False)"

fun phases_equal :: "lease_phase \<Rightarrow> lease_phase \<Rightarrow> bool" where
  "phases_equal AvailablePhase AvailablePhase = True"
| "phases_equal ActivePhase ActivePhase = True"
| "phases_equal ReconcilingPhase ReconcilingPhase = True"
| "phases_equal QuarantinedPhase QuarantinedPhase = True"
| "phases_equal RetiredPhase RetiredPhase = True"
| "phases_equal _ _ = False"

definition phase_options_equal :: "lease_phase option \<Rightarrow> lease_phase option \<Rightarrow> bool" where
  "phase_options_equal a b = (case (a, b) of
     (None, None) \<Rightarrow> True
   | (Some p, Some q) \<Rightarrow> phases_equal p q
   | _ \<Rightarrow> False)"

definition kinds_equal :: "lease_transition_kind \<Rightarrow> lease_transition_kind \<Rightarrow> bool" where
  "kinds_equal a b = (case (a, b) of
     (Minted, Minted) \<Rightarrow> True
   | (Acquired, Acquired) \<Rightarrow> True
   | (Renewed, Renewed) \<Rightarrow> True
   | (ReleasedAvailable, ReleasedAvailable) \<Rightarrow> True
   | (ReleasedReconciling, ReleasedReconciling) \<Rightarrow> True
   | (ExpiredKind, ExpiredKind) \<Rightarrow> True
   | (HolderLostKind, HolderLostKind) \<Rightarrow> True
   | (ClockDiscontinuityKind, ClockDiscontinuityKind) \<Rightarrow> True
   | (RevokedKind, RevokedKind) \<Rightarrow> True
   | (ReconciledAvailable, ReconciledAvailable) \<Rightarrow> True
   | (ReconciledQuarantined, ReconciledQuarantined) \<Rightarrow> True
   | (Used i d, Used i' d') \<Rightarrow> bytes16_equal (action_id_raw i) (action_id_raw i') \<and> bytes32_equal d d'
   | (RetiredKind r, RetiredKind r') \<Rightarrow> retirements_equal r r'
   | _ \<Rightarrow> False)"

definition records_equal :: "lease_transition_record \<Rightarrow> lease_transition_record \<Rightarrow> bool" where
  "records_equal a b \<longleftrightarrow> bytes16_equal (command_id_raw (record_command_id a)) (command_id_raw (record_command_id b))
   \<and> scopes_equal (record_scope a) (record_scope b)
   \<and> revision_options_equal (before_version a) (before_version b)
   \<and> revision_number_get (after_version a) = revision_number_get (after_version b)
   \<and> generation_options_equal (before_generation a) (before_generation b)
   \<and> generation_get (after_generation a) = generation_get (after_generation b)
   \<and> phase_options_equal (before_phase a) (before_phase b)
   \<and> phases_equal (after_phase a) (after_phase b)
   \<and> kinds_equal (record_kind a) (record_kind b)
   \<and> bindings_equal (record_binding a) (record_binding b)"

definition authoritative_fields_match ::
  "lease_cas_request \<Rightarrow> workspace_id \<Rightarrow> lease_cas_expectation \<Rightarrow> command_id \<Rightarrow> lease_aggregate
    \<Rightarrow> lease_transition_record \<Rightarrow> bool" where
  "authoritative_fields_match q w expected c planned r \<longleftrightarrow>
     bytes16_equal (workspace_id_raw w) (workspace_id_raw (cas_workspace_id q))
   \<and> expectations_equal expected (cas_expected q)
   \<and> bytes16_equal (command_id_raw c) (command_id_raw (cas_command_id q))
   \<and> aggregates_equal planned (cas_planned q)
   \<and> records_equal r (cas_record q)"

section \<open>Comparison is equality\<close>

lemma bytes16_equal_iff [simp]: "bytes16_equal a b \<longleftrightarrow> a = b"
  by (simp add: bytes16_equal_def arrays_equal_iff)

lemma bytes32_equal_iff [simp]: "bytes32_equal a b \<longleftrightarrow> a = b"
  by (simp add: bytes32_equal_def arrays_equal_iff)

lemma lease_raw_inject [simp]:
  "command_id_raw c = command_id_raw c' \<longleftrightarrow> c = c'"
  "evidence_id_raw e = evidence_id_raw e' \<longleftrightarrow> e = e'"
  "action_id_raw n = action_id_raw n' \<longleftrightarrow> n = n'"
  by (auto intro: command_id.expand evidence_id.expand action_id.expand)

named_theorems comparison \<open>comparison functions that decide equality\<close>

lemma expectations_equal_iff [comparison]: "expectations_equal a b \<longleftrightarrow> a = b"
  by (cases a; cases b) auto

lemma scopes_equal_iff [comparison]: "scopes_equal a b \<longleftrightarrow> a = b"
  by (cases a; cases b) (auto simp: scopes_equal_def)

lemma holders_equal_iff [comparison]: "holders_equal a b \<longleftrightarrow> a = b"
  by (cases a; cases b) (auto simp: holders_equal_def)

lemma instants_equal_iff [comparison]: "instants_equal a b \<longleftrightarrow> a = b"
  by (cases a; cases b) (auto simp: instants_equal_def)

lemma claims_equal_iff [comparison]: "claims_equal a b \<longleftrightarrow> a = b"
  by (auto simp: claims_equal_def comparison intro!: lease_claim.equality authority_instant.equality)

lemma correlations_equal_iff [comparison]: "correlations_equal a b \<longleftrightarrow> a = b"
  by (cases a; cases b) (auto simp: correlations_equal_def comparison)

lemma causes_equal_iff [comparison]: "causes_equal a b \<longleftrightarrow> a = b"
  by (cases a; cases b) auto

lemma dispositions_equal_iff [comparison]: "dispositions_equal a b \<longleftrightarrow> a = b"
  by (cases a; cases b) auto

lemma retirements_equal_iff [comparison]: "retirements_equal a b \<longleftrightarrow> a = b"
  by (cases a; cases b) auto

lemma states_equal_iff [comparison]: "states_equal a b \<longleftrightarrow> a = b"
  by (cases a; cases b)
    (auto simp: comparison reconciliation_states_equal_def quarantined_states_equal_def
      intro!: active_lease.equality authority_instant.equality reconciliation_state.equality quarantined_state.equality)

lemma aggregates_equal_iff [comparison]: "aggregates_equal a b \<longleftrightarrow> a = b"
  by (auto simp: aggregates_equal_def comparison intro!: lease_aggregate.equality authority_time_state.equality)

lemma durations_equal_iff [comparison]: "durations_equal a b \<longleftrightarrow> a = b"
  by (simp add: durations_equal_def duration_millis_inject)

lemma evidence_equal: "claims_equal (quiescence_claim e) (quiescence_claim (e' :: holder_quiescence_evidence))
    \<and> quiescence_evidence_id e = quiescence_evidence_id e' \<longleftrightarrow> e = e'"
  by (auto simp: comparison intro!: holder_quiescence_evidence.equality)

lemma commands_equal_iff [comparison]:
  "mints_equal m m' \<longleftrightarrow> m = m'" "acquires_equal a a' \<longleftrightarrow> a = a'" "renews_equal n n' \<longleftrightarrow> n = n'"
  "expires_equal e e' \<longleftrightarrow> e = e'" "holder_losses_equal h h' \<longleftrightarrow> h = h'"
  "discontinuities_equal d d' \<longleftrightarrow> d = d'" "revokes_equal v v' \<longleftrightarrow> v = v'" "reconciles_equal c c' \<longleftrightarrow> c = c'"
  by (auto simp: mints_equal_def acquires_equal_def renews_equal_def expires_equal_def holder_losses_equal_def
      discontinuities_equal_def revokes_equal_def reconciles_equal_def comparison
      intro!: mint_lease.equality acquire_lease.equality renew_lease.equality expire_lease.equality
      fence_holder_loss.equality holder_loss_evidence.equality fence_clock_discontinuity.equality
      revoke_lease.equality reconcile_lease.equality reconciliation_observation.equality)

lemma releases_equal_iff [comparison]: "releases_equal a b \<longleftrightarrow> a = b"
  by (auto simp: releases_equal_def comparison evidence_equal[unfolded comparison]
      intro!: release_lease.equality split: option.splits)

lemma roles_equal_iff [comparison]: "roles_equal a b \<longleftrightarrow> a = b"
  by (cases a; cases b) (simp_all add: roles_equal_def)

lemma revisions_equal_iff [comparison]: "revisions_equal a b \<longleftrightarrow> a = b"
  by (cases a; cases b) (auto simp: revisions_equal_def)

lemma validities_equal_iff [comparison]: "validities_equal a b \<longleftrightarrow> a = b"
  by (auto simp: validities_equal_def comparison intro: window_eqI)

lemma use_limits_equal_iff [comparison]: "use_limits_equal a b \<longleftrightarrow> a = b"
  by (cases a; cases b) (auto simp: use_limits_equal_def split: option.splits)

lemma permissions_equal_iff [comparison]: "permissions_equal a b \<longleftrightarrow> a = b"
  by (cases a; cases b) (auto simp: permissions_equal_def name_order.cmp_key)

lemma permission_walk_iff: "length ps = length qs \<Longrightarrow> permission_walk ps qs \<longleftrightarrow> ps = qs"
  by (induction ps qs rule: list_induct2) (auto simp: comparison)

lemma use_bindings_equal_iff [comparison]: "use_bindings_equal a b \<longleftrightarrow> a = b"
proof
  show "a = b" if "use_bindings_equal a b"
    using that by (auto simp: use_bindings_equal_def Let_def comparison permission_walk_iff
        intro!: use_command_binding.equality split: if_splits)
qed (simp add: use_bindings_equal_def comparison permission_walk_iff)

lemma bindings_equal_iff [comparison]: "bindings_equal a b \<longleftrightarrow> a = b"
  by (cases a; cases b) (simp_all add: bindings_equal_def comparison)

lemma options_equal_iff [comparison]:
  "revision_options_equal v w \<longleftrightarrow> v = w" "generation_options_equal g h \<longleftrightarrow> g = h" "phases_equal p q \<longleftrightarrow> p = q"
  "phase_options_equal s t \<longleftrightarrow> s = t"
proof -
  show *: "phases_equal p q \<longleftrightarrow> p = q" for p q by (cases p; cases q) auto
  show "revision_options_equal v w \<longleftrightarrow> v = w" "generation_options_equal g h \<longleftrightarrow> g = h" "phase_options_equal s t \<longleftrightarrow> s = t"
    by (auto simp: revision_options_equal_def generation_options_equal_def phase_options_equal_def *
        split: option.splits)
qed

lemma kinds_equal_iff [comparison]: "kinds_equal a b \<longleftrightarrow> a = b"
  by (cases a; cases b) (simp_all add: kinds_equal_def comparison)

lemma records_equal_iff [comparison]: "records_equal a b \<longleftrightarrow> a = b"
  by (auto simp: records_equal_def comparison intro!: lease_transition_record.equality)

lemma fields_match_iff: "authoritative_fields_match q w e c planned r \<longleftrightarrow>
    q = \<lparr>cas_workspace_id = w, cas_expected = e, cas_command_id = c, cas_planned = planned, cas_record = r\<rparr>"
  by (cases q) (auto simp: authoritative_fields_match_def comparison)

end
