(* ===== verification/Lease_Properties.thy ===== *)
theory Lease_Properties
  imports Lease_Examples Lease_Port
begin

text \<open>The properties of the exclusive-resource leases.\<close>

text \<open>
  C6. The nine operations of the aggregate are the steps of the lease machine on valid
  aggregates. An accepted operation leads to the one successor the machine has; a rejected one
  returns the aggregate as it was, and the machine has no step for it.
\<close>
theorem lease_operations_are_machine:
  "case apply_lease a c of
     Inl f \<Rightarrow> failure_aggregate f = a \<and> \<not> (lease_valid a \<and> lease_step a c a')
   | Inr tr \<Rightarrow> lease_valid a \<and> (lease_step a c a' \<longleftrightarrow> a' = next_aggregate tr)"
proof (cases "apply_lease a c")
  case (Inl f)
  with apply_lease_next[of a c a'] apply_lease_Err[OF Inl] show ?thesis by (simp add: next_is_def)
next
  case (Inr tr)
  with apply_lease_next[of a c a'] apply_lease_next[of a c "next_aggregate tr"] show ?thesis
    by (auto simp: next_is_def)
qed

text \<open>
  C18. From a minted lease, every list of commands leads to a valid aggregate of the minted scope,
  and along the list neither the version nor the fencing stamp ever goes back; an active lease
  whose stamp has not moved is the same lease.
\<close>
theorem leases_stay_valid:
  "\<exists>tr. mint m = Ok tr \<and> lease_valid (run_leases (next_aggregate tr) cs)
     \<and> aggregate_scope (run_leases (next_aggregate tr) cs) = mint_scope m
     \<and> lease_le (run_leases (next_aggregate tr) cs) (run_leases (next_aggregate tr) (cs @ ds))"
proof -
  obtain tr where tr: "mint m = Ok tr" and scope: "aggregate_scope (next_aggregate tr) = mint_scope m"
    and valid: "lease_valid (next_aggregate tr)"
    by (simp add: mint_def minted_transition_def lease_valid_iff)
  note run = lease_run_valid[OF run_leases_run valid, of cs]
  from lease_run_le[OF run_leases_run valid, of cs] lease_run_le[OF run_leases_run run, of ds] tr scope run
  show ?thesis by (auto simp: run_leases_append lease_le_def)
qed

text \<open>
  C11. Once a claim is no longer the active one, it never is again, and every later command that
  presents it is rejected without a change, whatever happens in between.
\<close>
theorem superseded_claims_are_dead:
  assumes "lease_valid a" and "active_claim a = Some k" and "active_claim (run_leases a cs) \<noteq> Some k"
    and "command_claim c = Some k"
  shows "active_claim (run_leases a (cs @ ds)) \<noteq> Some k
    \<and> (\<exists>f. apply_lease (run_leases a (cs @ ds)) c = Err f \<and> failure_aggregate f = run_leases a (cs @ ds))"
proof -
  have mid: "lease_valid (run_leases a cs)" using run_leases_run assms(1) by (rule lease_run_valid)
  have "active_claim (run_leases a (cs @ ds)) \<noteq> Some k"
    using superseded_stays_superseded[OF lease_run_le[OF run_leases_run assms(1)]
        lease_run_le[OF run_leases_run mid] assms(2,3)]
    by (simp add: run_leases_append)
  moreover from this have "\<exists>f. apply_lease (run_leases a (cs @ ds)) c = Err f"
    using accepted_claim[OF _ assms(4)] by (cases "apply_lease (run_leases a (cs @ ds)) c") auto
  ultimately show ?thesis using apply_lease_Err by blast
qed

theorem superseded_claims_are_dead_witness:
  "\<exists>f. apply_lease (run_leases sample_lease [Expire sample_expire])
     (Release \<lparr>release_command_id = CommandId (low_identifier 1), release_claim = sample_claim,
       release_observed_at = first_instant 80, release_quiescence = None\<rparr>) = Err f"
  using superseded_claims_are_dead[OF sample_lease_valid sample_lease_claim sample_expires,
      of "Release \<lparr>release_command_id = CommandId (low_identifier 1), release_claim = sample_claim,
        release_observed_at = first_instant 80, release_quiescence = None\<rparr>" "[]"]
  by auto

text \<open>
  C31. An active lease can be taken away at any instant. The command for it, a revocation of the
  active claim when the clock admits the instant and a clock discontinuity otherwise, is accepted
  however many versions and generations have been used; afterwards no claim is active and the
  fencing stamp has grown.
\<close>
theorem active_leases_can_be_fenced:
  assumes valid: "lease_valid a" and active: "active_claim a = Some k"
    and c: "c = (if observable (authority_time a) t
      then Revoke \<lparr>revoke_command_id = command, revoke_claim = k, revoke_observed_at = t, revoke_evidence_id = evidence\<rparr>
      else ClockDiscontinuity \<lparr>discontinuity_command_id = command, discontinuity_observed_at = t\<rparr>)"
  shows "\<exists>tr. apply_lease a c = Ok tr \<and> active_claim (next_aggregate tr) = None \<and> stamp a < stamp (next_aggregate tr)"
proof -
  from active obtain act where act: "aggregate_state a = Active act" "k = claim_of a act"
    by (auto simp: active_claim_Some)
  have "\<exists>time cause a'. fenced a act time cause a' \<and> lease_step a c a'"
  proof (cases "observable (authority_time a) t")
    case True
    obtain a' where "fenced a act (authority_time_state_new t) (Some RevokedCause) a'"
      using fenced_exists[OF valid act(1)] by blast
    with True act c show ?thesis by (fastforce intro: revoked)
  next
    case False
    obtain a' where "fenced a act (discontinued_time (authority_time a) t) (Some ClockDiscontinuityCause) a'"
      using fenced_exists[OF valid act(1)] by blast
    with False act c show ?thesis by (fastforce intro: discontinued simp: discontinuous_def)
  qed
  then obtain a' where "lease_step a c a'" "\<not> is_active a'" "stamp a < stamp a'"
    using fenced_le[OF _ act(1)] by blast
  with fence_accepts[OF \<open>lease_step a c a'\<close> valid] show ?thesis
    by (auto simp: active_claim_def is_active_def split: lease_state.splits)
qed

theorem active_leases_can_be_fenced_witness:
  "\<exists>tr. apply_lease sample_lease (ClockDiscontinuity \<lparr>discontinuity_command_id = CommandId (low_identifier 1),
       discontinuity_observed_at = first_instant 3\<rparr>) = Ok tr \<and> active_claim (next_aggregate tr) = None"
proof -
  have "\<not> observable (authority_time sample_lease) (first_instant 3)"
    by (simp add: observable_def authority_time_state_new_def)
  then have "ClockDiscontinuity \<lparr>discontinuity_command_id = CommandId (low_identifier 1), discontinuity_observed_at = first_instant 3\<rparr>
      = (if observable (authority_time sample_lease) (first_instant 3)
         then Revoke \<lparr>revoke_command_id = CommandId (low_identifier 1), revoke_claim = sample_claim,
           revoke_observed_at = first_instant 3, revoke_evidence_id = EvidenceId (low_identifier 1)\<rparr>
         else ClockDiscontinuity \<lparr>discontinuity_command_id = CommandId (low_identifier 1), discontinuity_observed_at = first_instant 3\<rparr>)"
    by simp
  from active_leases_can_be_fenced[OF sample_lease_valid sample_lease_claim this] show ?thesis by blast
qed

text \<open>
  C32. The comparison with which a store checks a compare-and-swap request is equality of every
  field: the request of a transition matches a workspace, an expectation, a command, an aggregate
  and a record exactly when they are the ones of the transition.
\<close>
theorem matching_fields_are_equal:
  "authoritative_fields_match (from_transition tr) w e c planned r \<longleftrightarrow>
     w = lease_workspace (record_scope (transition_record tr))
   \<and> e = (case before_version (transition_record tr) of None \<Rightarrow> ExpectAbsent | Some v \<Rightarrow> ExpectVersion v)
   \<and> c = record_command_id (transition_record tr)
   \<and> planned = next_aggregate tr \<and> r = transition_record tr"
  by (auto simp: fields_match_iff from_transition_def expectation_from_version_def Let_def)

end
