(* ===== verification/Spec_Model.thy ===== *)
theory Spec_Model
  imports Canonical Peritus_Identifiers
begin

text \<open>
  \<open>peritus-spec\<close>, files \<open>identity.rs\<close>, \<open>error.rs\<close>, \<open>documents.rs\<close>, \<open>requirement.rs\<close>,
  \<open>evidence.rs\<close>, \<open>policy.rs\<close>, \<open>review.rs\<close> and the plan and definition of a gate in \<open>gate.rs\<close>: the
  parts an acceptance contract is put together from, with the check of every constructor.
  The counting loops over indices that the crate uses are \<open>all_from\<close> and \<open>find_from\<close>.
\<close>

section \<open>Loops from an index on\<close>

text \<open>
  \<open>all_from p n i\<close> walks the indices from \<open>i\<close> up to \<open>n\<close> and stops at the first that fails \<open>p\<close>;
  \<open>find_from p n i\<close> returns the first that satisfies it.
\<close>

function all_from :: "(nat \<Rightarrow> bool) \<Rightarrow> nat \<Rightarrow> nat \<Rightarrow> bool" where
  "all_from p n i = (if n \<le> i then True else if \<not> p i then False else all_from p n (Suc i))"
  by pat_completeness auto
termination by (relation "measure (\<lambda>(p, n, i). n - i)") auto

function find_from :: "(nat \<Rightarrow> bool) \<Rightarrow> nat \<Rightarrow> nat \<Rightarrow> nat option" where
  "find_from p n i = (if n \<le> i then None else if p i then Some i else find_from p n (Suc i))"
  by pat_completeness auto
termination by (relation "measure (\<lambda>(p, n, i). n - i)") auto

declare all_from.simps [simp del] find_from.simps [simp del]

lemma all_from_iff: "all_from p n i \<longleftrightarrow> (\<forall>j. i \<le> j \<and> j < n \<longrightarrow> p j)"
proof (induction p n i rule: all_from.induct)
  case (1 p n i)
  show ?case
  proof (cases "n \<le> i \<or> \<not> p i")
    case True
    then show ?thesis by (auto simp: all_from.simps[of p n i])
  next
    case False
    then have "all_from p n i \<longleftrightarrow> (\<forall>j. Suc i \<le> j \<and> j < n \<longrightarrow> p j)"
      using "1.IH" by (simp add: all_from.simps[of p n i])
    with False show ?thesis by (metis Suc_leI le_neq_implies_less Suc_leD)
  qed
qed

lemma find_from_None: "find_from p n i = None \<longleftrightarrow> (\<forall>j. i \<le> j \<and> j < n \<longrightarrow> \<not> p j)"
proof (induction p n i rule: find_from.induct)
  case (1 p n i)
  show ?case
  proof (cases "n \<le> i \<or> p i")
    case True
    then show ?thesis by (auto simp: find_from.simps[of p n i])
  next
    case False
    then have "find_from p n i = None \<longleftrightarrow> (\<forall>j. Suc i \<le> j \<and> j < n \<longrightarrow> \<not> p j)"
      using "1.IH" by (simp add: find_from.simps[of p n i])
    with False show ?thesis by (metis Suc_leI le_neq_implies_less Suc_leD)
  qed
qed

lemma find_from_Some:
  "find_from p n i = Some k \<longleftrightarrow> i \<le> k \<and> k < n \<and> p k \<and> (\<forall>j. i \<le> j \<and> j < k \<longrightarrow> \<not> p j)"
proof (induction p n i rule: find_from.induct)
  case (1 p n i)
  show ?case
  proof (cases "n \<le> i \<or> p i")
    case True
    then show ?thesis by (auto simp: find_from.simps[of p n i] not_less_eq_eq[symmetric] intro: le_antisym)
  next
    case False
    then have "find_from p n i = Some k
        \<longleftrightarrow> Suc i \<le> k \<and> k < n \<and> p k \<and> (\<forall>j. Suc i \<le> j \<and> j < k \<longrightarrow> \<not> p j)"
      using "1.IH" by (simp add: find_from.simps[of p n i])
    with False show ?thesis by (metis Suc_leI le_neq_implies_less Suc_leD)
  qed
qed

section \<open>Digests in their derived order\<close>

instantiation sha256_digest :: linorder
begin

definition less_eq_sha256_digest :: "sha256_digest \<Rightarrow> sha256_digest \<Rightarrow> bool" where
  "less_eq_sha256_digest c d = (digest_bytes c \<le> digest_bytes d)"

definition less_sha256_digest :: "sha256_digest \<Rightarrow> sha256_digest \<Rightarrow> bool" where
  "less_sha256_digest c d = (digest_bytes c < digest_bytes d)"

instance
  by standard
    (auto simp: less_eq_sha256_digest_def less_sha256_digest_def less_le_not_le intro: order_antisym)

end

lemma low_digest_less [simp]: "low_digest a < low_digest b \<longleftrightarrow> a < b"
proof -
  have "ys @ [a] < ys @ [b] \<longleftrightarrow> a < b" for ys :: "u8 list" by (induction ys) auto
  then show ?thesis
    by (simp add: less_sha256_digest_def digest_bytes_def low_digest_def Bytes32_inverse)
qed

lemma low_identifier_less [simp]:
  "low_identifier a < low_identifier b \<longleftrightarrow> (if a = 0 then 1 else a) < (if b = 0 then 1 else b)"
proof -
  have "ys @ [x] < ys @ [y] \<longleftrightarrow> x < y" for x y :: u8 and ys by (induction ys) auto
  then show ?thesis by (simp add: less_opaque_identifier_def)
qed

section \<open>Identities\<close>

datatype content_reference = ContentReference (content_digest: sha256_digest)
datatype requirement_id = RequirementId (requirement_id_digest: sha256_digest)
datatype evidence_requirement_id = EvidenceRequirementId (evidence_requirement_id_digest: sha256_digest)
datatype review_category = ReviewCategory (review_category_digest: sha256_digest)

definition acceptance_id_matches :: "acceptance_spec_id \<Rightarrow> acceptance_spec_id \<Rightarrow> bool" where
  "acceptance_id_matches a b =
     identifier_values_equal (acceptance_spec_id_raw a) (acceptance_spec_id_raw b)"

lemma acceptance_id_matches_iff [simp]: "acceptance_id_matches a b \<longleftrightarrow> a = b"
  by (cases a; cases b) (simp add: acceptance_id_matches_def)

section \<open>Errors\<close>

datatype spec_collection =
    Requirements | Exclusions | Assumptions | Gates | GateDependencies | GateEvidence
  | ReviewCategories | EvidenceRequirements

datatype limit_kind = GateAttempts | ReviewCycles | ReviewerQuorum | GateTimeout

datatype spec_error_kind =
    EmptyCollectionKind | DuplicateCanonicalValueKind | NonCanonicalOrderKind | SelfDependencyKind
  | UnknownGateDependencyKind | GateCycleKind | UnknownEvidenceRequirementKind
  | InvalidEvidenceSourceKind | ZeroLimitKind | InvalidWaiverEvidenceKind
  | MissingApprovalEvidenceKind | ReviewQuorumExceedsCycleLimitKind | RevisionBindingMismatchKind

datatype spec_error =
    EmptyCollection spec_collection
  | DuplicateValue spec_collection
  | UnorderedValue spec_collection
  | SelfDependency gate_id
  | UnknownGateDependency gate_id gate_id
  | GateCycle
  | UnknownEvidenceRequirement gate_id
  | InvalidEvidenceSource evidence_requirement_id
  | ZeroLimit limit_kind
  | InvalidWaiverEvidence
  | MissingApprovalEvidence
  | ReviewQuorumExceedsCycleLimit u16 u16
  | RevisionBindingMismatch

fun spec_error_kind_of :: "spec_error \<Rightarrow> spec_error_kind" where
  "spec_error_kind_of (EmptyCollection _) = EmptyCollectionKind"
| "spec_error_kind_of (DuplicateValue _) = DuplicateCanonicalValueKind"
| "spec_error_kind_of (UnorderedValue _) = NonCanonicalOrderKind"
| "spec_error_kind_of (SelfDependency _) = SelfDependencyKind"
| "spec_error_kind_of (UnknownGateDependency _ _) = UnknownGateDependencyKind"
| "spec_error_kind_of GateCycle = GateCycleKind"
| "spec_error_kind_of (UnknownEvidenceRequirement _) = UnknownEvidenceRequirementKind"
| "spec_error_kind_of (InvalidEvidenceSource _) = InvalidEvidenceSourceKind"
| "spec_error_kind_of (ZeroLimit _) = ZeroLimitKind"
| "spec_error_kind_of InvalidWaiverEvidence = InvalidWaiverEvidenceKind"
| "spec_error_kind_of MissingApprovalEvidence = MissingApprovalEvidenceKind"
| "spec_error_kind_of (ReviewQuorumExceedsCycleLimit _ _) = ReviewQuorumExceedsCycleLimitKind"
| "spec_error_kind_of RevisionBindingMismatch = RevisionBindingMismatchKind"

definition spec_error_collection :: "spec_error \<Rightarrow> spec_collection option" where
  "spec_error_collection e = (case e of
     EmptyCollection c \<Rightarrow> Some c | DuplicateValue c \<Rightarrow> Some c | UnorderedValue c \<Rightarrow> Some c | _ \<Rightarrow> None)"

text \<open>
  The loop over adjacent elements that every collection goes through, by the key it is ordered by:
  equal neighbours are duplicates, a descending pair is not in canonical order.
\<close>

definition check_order :: "('a \<Rightarrow> 'k::linorder) \<Rightarrow> spec_collection \<Rightarrow> 'a list \<Rightarrow> spec_error + unit" where
  "check_order key c xs =
     adjacent_check (\<lambda>x y. compare_keys (key x) (key y)) (DuplicateValue c) (UnorderedValue c) xs"

interpretation check_order: canonical_order "\<lambda>x y. compare_keys (key x) (key y)" key
  for key :: "'a \<Rightarrow> 'k::linorder"
  by unfold_locales simp

lemma check_order_Ok: "check_order key c xs = Ok () \<longleftrightarrow> ascending key xs"
  by (simp add: check_order_def check_order.check_Ok)

section \<open>Documents, requirements, evidence\<close>

record contract_documents =
  objective :: content_reference
  user_visible_behavior :: content_reference
  repository_roots :: content_reference
  permitted_change_surface :: content_reference
  resource_budget_policy :: content_reference
  security_approval_policy :: content_reference
  completion_conditions :: content_reference
  failure_conditions :: content_reference

record requirement =
  requirement_id :: requirement_id
  requirement_content :: content_reference

record exclusion =
  exclusion_content :: content_reference

record assumption =
  assumption_content :: content_reference

datatype evidence_source =
    General | GateSource gate_id | ReviewSource review_category | HumanApproval | WaiverAuthorization

datatype export_classification = Public | Internal | Restricted

record evidence_requirement =
  evidence_requirement_id :: evidence_requirement_id
  evidence_description :: content_reference
  evidence_source :: evidence_source
  evidence_export :: export_classification

datatype human_approval_policy = NotRequired | Required content_reference

definition approval_is_required :: "human_approval_policy \<Rightarrow> bool" where
  "approval_is_required a = (case a of Required _ \<Rightarrow> True | _ \<Rightarrow> False)"

definition approval_authority :: "human_approval_policy \<Rightarrow> content_reference option" where
  "approval_authority a = (case a of NotRequired \<Rightarrow> None | Required r \<Rightarrow> Some r)"

datatype waiver_policy = Forbidden | Allowed content_reference evidence_requirement_id

definition waiver_is_allowed :: "waiver_policy \<Rightarrow> bool" where
  "waiver_is_allowed w = (case w of Allowed _ _ \<Rightarrow> True | _ \<Rightarrow> False)"

definition waiver_authority :: "waiver_policy \<Rightarrow> content_reference option" where
  "waiver_authority w = (case w of Forbidden \<Rightarrow> None | Allowed a _ \<Rightarrow> Some a)"

definition waiver_evidence_requirement :: "waiver_policy \<Rightarrow> evidence_requirement_id option" where
  "waiver_evidence_requirement w = (case w of Forbidden \<Rightarrow> None | Allowed _ e \<Rightarrow> Some e)"

section \<open>Completion and review policies\<close>

record completion_policy =
  max_gate_attempts :: u16
  max_review_cycles :: u16

definition completion_policy_new :: "u16 \<Rightarrow> u16 \<Rightarrow> spec_error + completion_policy" where
  "completion_policy_new gates reviews =
    (if gates = 0 then Err (ZeroLimit GateAttempts)
     else if reviews = 0 then Err (ZeroLimit ReviewCycles)
     else Ok \<lparr>max_gate_attempts = gates, max_review_cycles = reviews\<rparr>)"

datatype finding_severity = Advisory | Low | Medium | High | Critical

record reviewer_independence =
  distinct_reviewers :: bool
  independent_from_producer :: bool
  distinct_contexts :: bool
  distinct_model_families :: bool
  distinct_providers :: bool
  no_shared_ancestry :: bool

record review_policy =
  required_categories :: "review_category list"
  reviewer_quorum :: u16
  reviewer_independence :: reviewer_independence
  blocking_severity :: finding_severity

definition review_policy_new ::
  "review_category list \<Rightarrow> u16 \<Rightarrow> reviewer_independence \<Rightarrow> finding_severity \<Rightarrow> spec_error + review_policy" where
  "review_policy_new categories quorum independence severity =
    (if categories = [] then Err (EmptyCollection ReviewCategories)
     else case check_order review_category_digest ReviewCategories categories of
       Inl e \<Rightarrow> Err e
     | Inr _ \<Rightarrow>
         if quorum = 0 then Err (ZeroLimit ReviewerQuorum)
         else Ok \<lparr>required_categories = categories, reviewer_quorum = quorum,
                  reviewer_independence = independence, blocking_severity = severity\<rparr>)"

section \<open>Gate plans and definitions\<close>

datatype gate_freshness_scope = ExactRevisionTuple | WorkspaceContent

datatype gate_success_rule = ExitCodeZero | Predicate content_reference

record gate_execution_plan =
  plan_action :: content_reference
  plan_environment :: environment_id
  plan_inputs :: content_reference
  plan_parser :: content_reference
  plan_success :: gate_success_rule
  plan_timeout_ms :: u64
  plan_resources :: content_reference
  plan_freshness :: gate_freshness_scope

definition gate_execution_plan_new ::
  "content_reference \<Rightarrow> environment_id \<Rightarrow> content_reference \<Rightarrow> content_reference \<Rightarrow> gate_success_rule
     \<Rightarrow> u64 \<Rightarrow> content_reference \<Rightarrow> gate_freshness_scope \<Rightarrow> spec_error + gate_execution_plan" where
  "gate_execution_plan_new act env inputs parser success timeout resources freshness =
    (if timeout = 0 then Err (ZeroLimit GateTimeout)
     else Ok \<lparr>plan_action = act, plan_environment = env, plan_inputs = inputs, plan_parser = parser,
              plan_success = success, plan_timeout_ms = timeout, plan_resources = resources,
              plan_freshness = freshness\<rparr>)"

record gate_definition =
  gate_definition_id :: gate_id
  gate_plan :: gate_execution_plan
  gate_dependencies :: "gate_id list"
  gate_required_evidence :: "evidence_requirement_id list"

text \<open>The first loop of the constructor: each dependency against the gate, then its predecessor.\<close>

fun check_dependencies :: "gate_id \<Rightarrow> gate_id option \<Rightarrow> gate_id list \<Rightarrow> spec_error + unit" where
  "check_dependencies g prev [] = Ok ()"
| "check_dependencies g prev (d # ds) =
    (if d = g then Err (SelfDependency g)
     else case prev of
       None \<Rightarrow> check_dependencies g (Some d) ds
     | Some p \<Rightarrow>
         if p = d then Err (DuplicateValue GateDependencies)
         else if gate_id_raw d < gate_id_raw p then Err (UnorderedValue GateDependencies)
         else check_dependencies g (Some d) ds)"

definition gate_definition_new ::
  "gate_id \<Rightarrow> gate_execution_plan \<Rightarrow> gate_id list \<Rightarrow> evidence_requirement_id list
     \<Rightarrow> spec_error + gate_definition" where
  "gate_definition_new g plan dependencies required =
    (case check_dependencies g None dependencies of
       Inl e \<Rightarrow> Err e
     | Inr _ \<Rightarrow>
        (case check_order evidence_requirement_id_digest GateEvidence required of
           Inl e \<Rightarrow> Err e
         | Inr _ \<Rightarrow> Ok \<lparr>gate_definition_id = g, gate_plan = plan, gate_dependencies = dependencies,
                        gate_required_evidence = required\<rparr>))"

lemma check_dependencies_Ok:
  "check_dependencies g prev ds = Ok () \<longleftrightarrow> g \<notin> set ds \<and>
     ascending gate_id_raw (case prev of None \<Rightarrow> ds | Some p \<Rightarrow> p # ds)"
proof (induction g prev ds rule: check_dependencies.induct)
  case (1 g prev)
  then show ?case by (cases prev) simp_all
next
  case (2 g prev d ds)
  show ?case
  proof (cases prev)
    case None
    with 2 show ?thesis by auto
  next
    case (Some p)
    have "gate_id_raw p < gate_id_raw d \<longleftrightarrow> p \<noteq> d \<and> \<not> gate_id_raw d < gate_id_raw p"
      by (cases p; cases d) auto
    with 2 Some show ?thesis by auto
  qed
qed

lemma gate_definition_new_Ok:
  "gate_definition_new g plan ds es = Ok d \<longleftrightarrow>
     g \<notin> set ds \<and> ascending gate_id_raw ds \<and> ascending evidence_requirement_id_digest es \<and>
     d = \<lparr>gate_definition_id = g, gate_plan = plan, gate_dependencies = ds, gate_required_evidence = es\<rparr>"
  using check_dependencies_Ok[of g None ds] check_order_Ok[of evidence_requirement_id_digest GateEvidence es]
  by (auto simp: gate_definition_new_def split: sum.splits)

lemma review_policy_new_Ok:
  "review_policy_new cs n ind sev = Ok r \<longleftrightarrow> cs \<noteq> [] \<and> ascending review_category_digest cs \<and> n \<noteq> 0 \<and>
     r = \<lparr>required_categories = cs, reviewer_quorum = n, reviewer_independence = ind, blocking_severity = sev\<rparr>"
  using check_order_Ok[of review_category_digest ReviewCategories cs]
  by (auto simp: review_policy_new_def split: sum.splits)

end
