(* ===== verification/Spec_Gates.thy ===== *)
theory Spec_Gates
  imports Spec_Model
begin

text \<open>
  \<open>peritus-spec\<close>, files \<open>gate.rs\<close>, \<open>gate/query.rs\<close>, \<open>gate_model.rs\<close> and
  \<open>gate_model/canonical.rs\<close>: the gate graph, the greedy schedule its constructor computes, and
  the second, independent walk that checks the schedule before the graph is returned.
\<close>

section \<open>The recheck of an execution order\<close>

definition gate_id_matches :: "gate_id \<Rightarrow> gate_id \<Rightarrow> bool" where
  "gate_id_matches a b = identifier_values_equal (gate_id_raw a) (gate_id_raw b)"

lemma gate_id_matches_iff [simp]: "gate_id_matches a b \<longleftrightarrow> a = b"
  by (cases a; cases b) (simp add: gate_id_matches_def)

definition gate_position_from :: "gate_id list \<Rightarrow> gate_id \<Rightarrow> nat \<Rightarrow> nat option" where
  "gate_position_from order target = find_from (\<lambda>i. gate_id_matches (order ! i) target) (length order)"

definition definition_position_from :: "gate_definition list \<Rightarrow> gate_id \<Rightarrow> nat \<Rightarrow> nat option" where
  "definition_position_from ds target =
     find_from (\<lambda>i. gate_id_matches (gate_definition_id (ds ! i)) target) (length ds)"

definition order_unique_from :: "gate_id list \<Rightarrow> nat \<Rightarrow> bool" where
  "order_unique_from order =
     all_from (\<lambda>i. gate_position_from order (order ! i) (i + 1) = None) (length order)"

definition definitions_unique_from :: "gate_definition list \<Rightarrow> nat \<Rightarrow> bool" where
  "definitions_unique_from ds =
     all_from (\<lambda>i. definition_position_from ds (gate_definition_id (ds ! i)) (i + 1) = None) (length ds)"

definition order_declared_from :: "gate_definition list \<Rightarrow> gate_id list \<Rightarrow> nat \<Rightarrow> bool" where
  "order_declared_from ds order =
     all_from (\<lambda>i. definition_position_from ds (order ! i) 0 \<noteq> None) (length order)"

definition dependencies_precede_from :: "gate_id list \<Rightarrow> gate_id list \<Rightarrow> nat \<Rightarrow> nat \<Rightarrow> bool" where
  "dependencies_precede_from dependencies order position =
     all_from (\<lambda>i. case gate_position_from order (dependencies ! i) 0 of
         Some p \<Rightarrow> p < position | None \<Rightarrow> False) (length dependencies)"

definition definitions_respect_order_from :: "gate_definition list \<Rightarrow> gate_id list \<Rightarrow> nat \<Rightarrow> bool" where
  "definitions_respect_order_from ds order =
     all_from (\<lambda>i. case gate_position_from order (gate_definition_id (ds ! i)) 0 of
         Some p \<Rightarrow> dependencies_precede_from (gate_dependencies (ds ! i)) order p 0
       | None \<Rightarrow> False) (length ds)"

definition definition_is_eligible_at :: "gate_definition \<Rightarrow> gate_id list \<Rightarrow> nat \<Rightarrow> bool" where
  "definition_is_eligible_at d order position \<longleftrightarrow>
     (case gate_position_from order (gate_definition_id d) 0 of Some p \<Rightarrow> position \<le> p | None \<Rightarrow> True)
     \<and> dependencies_precede_from (gate_dependencies d) order position 0"

definition first_eligible_from ::
  "gate_definition list \<Rightarrow> gate_id list \<Rightarrow> nat \<Rightarrow> nat \<Rightarrow> gate_id option" where
  "first_eligible_from ds order position index =
     map_option (\<lambda>i. gate_definition_id (ds ! i))
       (find_from (\<lambda>i. definition_is_eligible_at (ds ! i) order position) (length ds) index)"

definition canonical_execution_from :: "gate_definition list \<Rightarrow> gate_id list \<Rightarrow> nat \<Rightarrow> bool" where
  "canonical_execution_from ds order =
     all_from (\<lambda>position. case first_eligible_from ds order position 0 of
         Some selected \<Rightarrow> gate_id_matches (order ! position) selected | None \<Rightarrow> False) (length order)"

definition execution_order_is_valid :: "gate_definition list \<Rightarrow> gate_id list \<Rightarrow> bool" where
  "execution_order_is_valid ds order \<longleftrightarrow>
     ds \<noteq> [] \<and> length ds = length order \<and> definitions_unique_from ds 0 \<and> order_unique_from order 0
     \<and> order_declared_from ds order 0 \<and> definitions_respect_order_from ds order 0
     \<and> canonical_execution_from ds order 0"

section \<open>The graph and its schedule\<close>

record gate_graph =
  graph_definitions :: "gate_definition list"
  execution_order :: "gate_id list"

fun contains_gate :: "gate_id list \<Rightarrow> gate_id \<Rightarrow> bool" where
  "contains_gate [] target = False"
| "contains_gate (v # vs) target = (if v = target then True else contains_gate vs target)"

fun find_definition :: "gate_definition list \<Rightarrow> gate_id \<Rightarrow> gate_definition option" where
  "find_definition [] target = None"
| "find_definition (d # ds) target =
     (if gate_definition_id d = target then Some d else find_definition ds target)"

fun all_contained :: "gate_id list \<Rightarrow> gate_id list \<Rightarrow> bool" where
  "all_contained [] resolved = True"
| "all_contained (d # ds) resolved = (if \<not> contains_gate resolved d then False else all_contained ds resolved)"

definition dependencies_resolved :: "gate_definition \<Rightarrow> gate_id list \<Rightarrow> bool" where
  "dependencies_resolved d resolved = all_contained (gate_dependencies d) resolved"

text \<open>The inner loop: the first candidate that is not scheduled and has its dependencies resolved.\<close>

fun select_candidate :: "gate_definition list \<Rightarrow> gate_id list \<Rightarrow> gate_id option" where
  "select_candidate [] order = None"
| "select_candidate (d # ds) order =
     (if \<not> contains_gate order (gate_definition_id d) \<and> dependencies_resolved d order
      then Some (gate_definition_id d) else select_candidate ds order)"

function schedule :: "gate_definition list \<Rightarrow> gate_id list \<Rightarrow> spec_error + gate_id list" where
  "schedule ds order =
    (if length order < length ds then
       (case select_candidate ds order of
          Some i \<Rightarrow> schedule ds (order @ [i])
        | None \<Rightarrow> Err GateCycle)
     else Ok order)"
  by pat_completeness auto
termination by (relation "measure (\<lambda>(ds, order). length ds - length order)") auto

declare schedule.simps [simp del]

definition check_known_dependencies :: "gate_definition list \<Rightarrow> gate_definition \<Rightarrow> spec_error + unit" where
  "check_known_dependencies ds d = for_list (\<lambda>target.
     if find_definition ds target = None
     then Err (UnknownGateDependency (gate_definition_id d) target) else Ok ()) (gate_dependencies d)"

definition gate_graph_new :: "gate_definition list \<Rightarrow> spec_error + gate_graph" where
  "gate_graph_new ds =
    (if ds = [] then Err (EmptyCollection Gates)
     else case check_order (\<lambda>d. gate_id_raw (gate_definition_id d)) Gates ds of
       Inl e \<Rightarrow> Err e
     | Inr _ \<Rightarrow>
        (case for_list (check_known_dependencies ds) ds of
           Inl e \<Rightarrow> Err e
         | Inr _ \<Rightarrow>
            (case schedule ds [] of
               Inl e \<Rightarrow> Err e
             | Inr order \<Rightarrow>
                 if \<not> execution_order_is_valid ds order then Err GateCycle
                 else Ok \<lparr>graph_definitions = ds, execution_order = order\<rparr>)))"

definition graph_get :: "gate_graph \<Rightarrow> gate_id \<Rightarrow> gate_definition option" where
  "graph_get g i = find_definition (graph_definitions g) i"

text \<open>\<open>gate/query.rs\<close>.\<close>

definition gate_position :: "gate_id list \<Rightarrow> gate_id \<Rightarrow> nat option" where
  "gate_position values target = find_index (\<lambda>v. v = target) values"

definition dependency_precedes :: "gate_graph \<Rightarrow> gate_id \<Rightarrow> gate_id \<Rightarrow> bool" where
  "dependency_precedes g dependency gate =
    (case (gate_position (execution_order g) dependency, gate_position (execution_order g) gate) of
       (Some i, Some j) \<Rightarrow> i < j
     | _ \<Rightarrow> False)"

section \<open>What the loops compute\<close>

lemma contains_gate_iff [simp]: "contains_gate vs g \<longleftrightarrow> g \<in> set vs"
  by (induction vs) auto

lemma all_contained_iff [simp]: "all_contained ds vs \<longleftrightarrow> set ds \<subseteq> set vs"
  by (induction ds) auto

lemma dependencies_resolved_iff: "dependencies_resolved d vs \<longleftrightarrow> set (gate_dependencies d) \<subseteq> set vs"
  by (simp add: dependencies_resolved_def)

lemma find_definition_None [simp]: "find_definition ds g = None \<longleftrightarrow> g \<notin> gate_definition_id ` set ds"
  by (induction ds) auto

lemma find_definition_mem: "find_definition ds g = Some d \<Longrightarrow> d \<in> set ds \<and> gate_definition_id d = g"
  by (induction ds) (auto split: if_splits)

lemma check_known_dependencies_Ok:
  "check_known_dependencies ds d = Ok () \<longleftrightarrow> set (gate_dependencies d) \<subseteq> gate_definition_id ` set ds"
  by (auto simp: check_known_dependencies_def for_list_Ok)

definition eligible :: "gate_definition \<Rightarrow> gate_id list \<Rightarrow> bool" where
  "eligible d sofar \<longleftrightarrow> gate_definition_id d \<notin> set sofar \<and> set (gate_dependencies d) \<subseteq> set sofar"

lemma select_candidate_find:
  "select_candidate ds order = map_option gate_definition_id (find (\<lambda>d. eligible d order) ds)"
  by (induction ds) (auto simp: eligible_def dependencies_resolved_iff)

lemma gate_position_from_None: "gate_position_from order g 0 = None \<longleftrightarrow> g \<notin> set order"
  by (auto simp: gate_position_from_def find_from_None in_set_conv_nth)

lemma gate_position_from_less:
  "(case gate_position_from order g 0 of Some p \<Rightarrow> p < n | None \<Rightarrow> False) \<longleftrightarrow> g \<in> set (take n order)"
proof (cases "gate_position_from order g 0")
  case None
  moreover from None have "g \<notin> set order" by (simp add: gate_position_from_None)
  ultimately show ?thesis by (auto dest: in_set_takeD)
next
  case (Some p)
  then have p: "p < length order" "order ! p = g" "\<forall>j<p. order ! j \<noteq> g"
    by (auto simp: gate_position_from_def find_from_Some)
  have "g \<in> set (take n order) \<longleftrightarrow> (\<exists>j. j < n \<and> j < length order \<and> order ! j = g)"
    unfolding in_set_conv_nth by (metis length_take min_less_iff_conj nth_take)
  also have "\<dots> \<longleftrightarrow> p < n"
  proof
    assume "\<exists>j. j < n \<and> j < length order \<and> order ! j = g"
    then obtain j where "j < n" "order ! j = g" by blast
    with p(3) have "\<not> j < p" by blast
    with \<open>j < n\<close> show "p < n" by simp
  qed (use p in blast)
  finally show ?thesis using Some by simp
qed

lemma dependencies_precede_from_iff:
  "dependencies_precede_from deps order n 0 \<longleftrightarrow> set deps \<subseteq> set (take n order)"
  by (auto simp: dependencies_precede_from_def all_from_iff gate_position_from_less in_set_conv_nth subset_iff)

lemma definition_is_eligible_at_iff:
  "definition_is_eligible_at d order n \<longleftrightarrow> eligible d (take n order)"
  using gate_position_from_less[where order = order and g = "gate_definition_id d" and n = n]
  by (auto simp: definition_is_eligible_at_def eligible_def dependencies_precede_from_iff split: option.splits)

lemma find_from_find:
  "map_option (\<lambda>i. f (xs ! i)) (find_from (\<lambda>i. p (xs ! i)) (length xs) 0) = map_option f (find p xs)"
proof (cases "find_from (\<lambda>i. p (xs ! i)) (length xs) 0")
  case None
  then have "find p xs = None" by (auto simp: find_from_None find_None_iff in_set_conv_nth)
  with None show ?thesis by simp
next
  case (Some i)
  then have "find p xs = Some (xs ! i)" by (auto simp: find_from_Some find_Some_iff)
  with Some show ?thesis by simp
qed

lemma first_eligible_from_find:
  "first_eligible_from ds order n 0 = map_option gate_definition_id (find (\<lambda>d. eligible d (take n order)) ds)"
  unfolding first_eligible_from_def definition_is_eligible_at_iff by (rule find_from_find)

end
