(* ===== verification/Spec_Order.thy ===== *)
theory Spec_Order
  imports Spec_Gates
begin

text \<open>
  What a gate graph promises. A schedule of gate definitions runs every gate once, each after its
  dependencies, and at each step the first eligible gate in identifier order. The greedy loop finds
  the schedule exactly when the dependencies are acyclic, and the recheck accepts exactly schedules.
\<close>

abbreviation gate_key :: "gate_definition \<Rightarrow> opaque_identifier" where
  "gate_key d \<equiv> gate_id_raw (gate_definition_id d)"

abbreviation gate_ids :: "gate_definition list \<Rightarrow> gate_id set" where
  "gate_ids ds \<equiv> gate_definition_id ` set ds"

definition requires :: "gate_definition list \<Rightarrow> (gate_id \<times> gate_id) set" where
  "requires ds = {(a, gate_definition_id d) |a d. d \<in> set ds \<and> a \<in> set (gate_dependencies d)}"

definition closed_dependencies :: "gate_definition list \<Rightarrow> bool" where
  "closed_dependencies ds \<longleftrightarrow> (\<forall>d\<in>set ds. set (gate_dependencies d) \<subseteq> gate_ids ds)"

definition first_eligible :: "gate_definition list \<Rightarrow> gate_id list \<Rightarrow> gate_id \<Rightarrow> bool" where
  "first_eligible ds sofar g \<longleftrightarrow> (\<exists>d\<in>set ds. gate_definition_id d = g \<and> eligible d sofar
     \<and> (\<forall>d'\<in>set ds. eligible d' sofar \<longrightarrow> gate_key d \<le> gate_key d'))"

definition is_schedule :: "gate_definition list \<Rightarrow> gate_id list \<Rightarrow> bool" where
  "is_schedule ds order \<longleftrightarrow> distinct order \<and> set order = gate_ids ds
     \<and> (\<forall>n<length order. first_eligible ds (take n order) (order ! n))"

section \<open>Greedy prefixes\<close>

definition greedy :: "gate_definition list \<Rightarrow> gate_id list \<Rightarrow> bool" where
  "greedy ds order \<longleftrightarrow> (\<forall>n<length order. select_candidate ds (take n order) = Some (order ! n))"

lemma greedy_Nil [simp]: "greedy ds []"
  by (simp add: greedy_def)

lemma greedy_snoc: "greedy ds (order @ [g]) \<longleftrightarrow> greedy ds order \<and> select_candidate ds order = Some g"
  by (auto simp: greedy_def nth_append less_Suc_eq)

lemma select_candidate_Some:
  "select_candidate ds order = Some g \<Longrightarrow> \<exists>d\<in>set ds. gate_definition_id d = g \<and> eligible d order"
  by (induction ds) (auto simp: eligible_def dependencies_resolved_iff split: if_splits)

lemma select_candidate_None: "select_candidate ds order = None \<longleftrightarrow> (\<forall>d\<in>set ds. \<not> eligible d order)"
  by (induction ds) (auto simp: eligible_def dependencies_resolved_iff)

lemma select_candidate_first:
  assumes "ascending gate_key ds"
  shows "select_candidate ds order = Some g \<longleftrightarrow> first_eligible ds order g"
  using assms
proof (induction ds)
  case Nil
  then show ?case by (simp add: first_eligible_def)
next
  case (Cons d ds)
  then have later: "\<forall>y\<in>set ds. gate_key d < gate_key y" and
    IH: "select_candidate ds order = Some g \<longleftrightarrow> first_eligible ds order g"
    by (auto simp: ascending_Cons)
  show ?case
  proof (cases "eligible d order")
    case True
    have "first_eligible (d # ds) order g \<longleftrightarrow> gate_definition_id d = g"
      using later True by (auto simp: first_eligible_def intro: less_imp_le dest: leD)
    with True show ?thesis by (auto simp: eligible_def dependencies_resolved_iff)
  next
    case False
    have "first_eligible (d # ds) order g \<longleftrightarrow> first_eligible ds order g"
      using False by (auto simp: first_eligible_def)
    with False IH show ?thesis by (auto simp: eligible_def dependencies_resolved_iff)
  qed
qed

lemma greedy_members:
  "greedy ds order \<Longrightarrow> distinct order \<and> set order \<subseteq> gate_ids ds"
proof (induction order rule: rev_induct)
  case (snoc g order)
  then have "select_candidate ds order = Some g" and IH: "distinct order" "set order \<subseteq> gate_ids ds"
    by (simp_all add: greedy_snoc)
  from select_candidate_Some[OF this(1)] IH show ?case by (auto simp: eligible_def)
qed simp

lemma greedy_unique:
  "greedy ds xs \<Longrightarrow> greedy ds ys \<Longrightarrow> length xs = length ys \<Longrightarrow> xs = ys"
proof (induction xs arbitrary: ys rule: rev_induct)
  case (snoc x xs)
  from snoc.prems(3) obtain z zs where ys: "ys = zs @ [z]" by (cases ys rule: rev_cases) simp_all
  with snoc.prems snoc.IH[of zs] show ?case by (simp add: greedy_snoc)
qed simp

lemma greedy_complete:
  assumes "greedy ds order" and "distinct (map gate_definition_id ds)" and "length order = length ds"
  shows "set order = gate_ids ds"
proof (rule card_subset_eq)
  show "set order \<subseteq> gate_ids ds" using greedy_members assms(1) by blast
  have "card (set order) = length order" using greedy_members assms(1) distinct_card by blast
  moreover have "card (gate_ids ds) = length ds" using assms(2) by (metis distinct_card length_map set_map)
  ultimately show "card (set order) = card (gate_ids ds)" using assms(3) by simp
qed simp

text \<open>Dependencies come earlier, so a complete greedy order shows the dependencies acyclic.\<close>

lemma greedy_dependencies:
  assumes "greedy ds order" and "distinct (map gate_definition_id ds)" and "d \<in> set ds"
    and "n < length order" and "order ! n = gate_definition_id d"
  shows "set (gate_dependencies d) \<subseteq> set (take n order)"
proof -
  from assms obtain d' where "d' \<in> set ds" "gate_definition_id d' = order ! n" "eligible d' (take n order)"
    using select_candidate_Some unfolding greedy_def by blast
  moreover have "d' = d"
    using calculation assms(2,3,5) by (metis distinct_map inj_onD)
  ultimately show ?thesis by (simp add: eligible_def)
qed

lemma greedy_precedes:
  assumes "greedy ds order" and "distinct (map gate_definition_id ds)" and "set order = gate_ids ds"
    and "(a, b) \<in> requires ds"
  obtains i j where "i < j" "j < length order" "order ! i = a" "order ! j = b"
proof -
  from assms(4) obtain d where d: "d \<in> set ds" "b = gate_definition_id d" "a \<in> set (gate_dependencies d)"
    by (auto simp: requires_def)
  then have "b \<in> set order" using assms(3) by simp
  then obtain j where j: "j < length order" "order ! j = b" by (auto simp: in_set_conv_nth)
  with greedy_dependencies[OF assms(1,2) d(1)] d have "a \<in> set (take j order)" by auto
  then obtain i where "i < j" "order ! i = a" by (auto simp: in_set_conv_nth)
  with j show ?thesis using that by blast
qed

lemma greedy_acyclic:
  assumes "greedy ds order" and "distinct (map gate_definition_id ds)" and "set order = gate_ids ds"
  shows "acyclic (requires ds)"
proof -
  define pos where "pos g = (THE i. i < length order \<and> order ! i = g)" for g
  have dist: "distinct order" using greedy_members assms(1) by blast
  then have pos: "pos (order ! i) = i" if "i < length order" for i
    unfolding pos_def using that by (intro the_equality) (auto simp: nth_eq_iff_index_eq)
  have "requires ds \<subseteq> measure pos"
  proof (rule subrelI)
    fix a b assume "(a, b) \<in> requires ds"
    with greedy_precedes[OF assms] obtain i j where "i < j" "j < length order" "order ! i = a" "order ! j = b"
      by metis
    with pos[of i] pos[of j] show "(a, b) \<in> measure pos" by auto
  qed
  then show ?thesis using wf_acyclic wf_measure wf_subset by metis
qed

section \<open>The loop finds the schedule exactly when there is one\<close>

lemma schedule_cases:
  assumes "greedy ds order" and "length order \<le> length ds"
  shows "(\<exists>r. schedule ds order = Ok r \<and> greedy ds r \<and> length r = length ds) \<or>
     (schedule ds order = Err GateCycle \<and>
        (\<exists>r. greedy ds r \<and> length r < length ds \<and> select_candidate ds r = None))"
  using assms
proof (induction ds order rule: schedule.induct)
  case (1 ds order)
  show ?case
  proof (cases "length order < length ds")
    case False
    with "1.prems" show ?thesis by (simp add: schedule.simps[of ds order])
  next
    case True
    show ?thesis
    proof (cases "select_candidate ds order")
      case None
      with "1.prems" True show ?thesis by (auto simp: schedule.simps[of ds order])
    next
      case (Some g)
      with "1.prems" True have "greedy ds (order @ [g])" "length (order @ [g]) \<le> length ds"
        by (simp_all add: greedy_snoc)
      from "1.IH"[OF True Some this] Some True show ?thesis by (simp add: schedule.simps[of ds order])
    qed
  qed
qed

lemma stuck_cyclic:
  assumes "greedy ds r" and "length r < length ds" and "select_candidate ds r = None"
    and "distinct (map gate_definition_id ds)" and "closed_dependencies ds"
  shows "\<not> acyclic (requires ds)"
proof
  assume acyclic: "acyclic (requires ds)"
  have "requires ds \<subseteq> gate_ids ds \<times> gate_ids ds"
    using assms(5) by (auto simp: requires_def closed_dependencies_def)
  then have "finite (requires ds)" by (rule finite_subset) simp
  with acyclic have wf: "wf (requires ds)" by (simp add: finite_acyclic_wf)
  have "card (set r) < card (gate_ids ds)"
    using assms(2,4) by (metis card_length distinct_card le_less_trans length_map set_map)
  then have "\<not> gate_ids ds \<subseteq> set r" by (meson card_mono finite_set not_less)
  then obtain b where "b \<in> gate_ids ds - set r" by blast
  from wfE_min[OF wf this] obtain g where
    g: "g \<in> gate_ids ds - set r" "\<And>y. (y, g) \<in> requires ds \<Longrightarrow> y \<notin> gate_ids ds - set r"
    by blast
  then obtain d where d: "d \<in> set ds" "gate_definition_id d = g" by blast
  have "set (gate_dependencies d) \<subseteq> set r"
  proof
    fix x assume x: "x \<in> set (gate_dependencies d)"
    with d have "(x, g) \<in> requires ds" by (auto simp: requires_def)
    moreover from x d(1) assms(5) have "x \<in> gate_ids ds" by (auto simp: closed_dependencies_def)
    ultimately show "x \<in> set r" using g(2) by blast
  qed
  with d g(1) have "eligible d r" by (simp add: eligible_def)
  with d(1) assms(3) show False by (simp add: select_candidate_None)
qed

lemma ascending_distinct_ids: "ascending gate_key ds \<Longrightarrow> distinct (map gate_definition_id ds)"
  by (induction ds) (auto simp: ascending_Cons)

lemma schedule_is_greedy:
  assumes "ascending gate_key ds" and "is_schedule ds order"
  shows "greedy ds order" and "length order = length ds"
proof -
  show "greedy ds order"
    using assms(2) by (simp add: is_schedule_def greedy_def select_candidate_first[OF assms(1)])
  have "length order = card (gate_ids ds)"
    using assms(2) by (metis is_schedule_def distinct_card)
  also have "\<dots> = length ds"
    using ascending_distinct_ids[OF assms(1)] by (metis distinct_card length_map set_map)
  finally show "length order = length ds" .
qed

lemma greedy_is_schedule:
  assumes "ascending gate_key ds" and "greedy ds order" and "length order = length ds"
  shows "is_schedule ds order"
  unfolding is_schedule_def
proof (intro conjI allI impI)
  show "distinct order" using greedy_members[OF assms(2)] by (rule conjunct1)
  show "set order = gate_ids ds"
    by (rule greedy_complete[OF assms(2) ascending_distinct_ids[OF assms(1)] assms(3)])
next
  fix n assume "n < length order"
  with assms(2) show "first_eligible ds (take n order) (order ! n)"
    by (simp add: greedy_def select_candidate_first[OF assms(1)])
qed

lemma schedule_unique:
  "ascending gate_key ds \<Longrightarrow> is_schedule ds xs \<Longrightarrow> is_schedule ds ys \<Longrightarrow> xs = ys"
  using greedy_unique[of ds xs ys] schedule_is_greedy[of ds xs] schedule_is_greedy[of ds ys] by simp

lemma schedule_result:
  assumes "ascending gate_key ds" and "closed_dependencies ds"
  shows "if acyclic (requires ds) then \<exists>r. schedule ds [] = Ok r \<and> is_schedule ds r
    else schedule ds [] = Err GateCycle"
proof -
  note ids = ascending_distinct_ids[OF assms(1)]
  consider (finished) r where "schedule ds [] = Ok r" "greedy ds r" "length r = length ds"
    | (stuck) r where "schedule ds [] = Err GateCycle" "greedy ds r" "length r < length ds"
        "select_candidate ds r = None"
    using schedule_cases[of ds "[]"] by auto
  then show ?thesis
  proof cases
    case finished
    with greedy_complete[OF finished(2) ids] greedy_acyclic[OF finished(2) ids]
      greedy_is_schedule[OF assms(1) finished(2,3)]
    show ?thesis by simp
  next
    case stuck
    with stuck_cyclic[OF stuck(2-4) ids assms(2)] show ?thesis by simp
  qed
qed

section \<open>The recheck accepts exactly schedules\<close>

lemma distinct_nth_less: "distinct xs \<longleftrightarrow> (\<forall>i j. i < j \<and> j < length xs \<longrightarrow> xs ! j \<noteq> xs ! i)"
proof
  assume "distinct xs"
  then show "\<forall>i j. i < j \<and> j < length xs \<longrightarrow> xs ! j \<noteq> xs ! i"
    by (simp add: nth_eq_iff_index_eq)
next
  assume later: "\<forall>i j. i < j \<and> j < length xs \<longrightarrow> xs ! j \<noteq> xs ! i"
  have "xs ! i \<noteq> xs ! j" if "i < length xs" "j < length xs" "i \<noteq> j" for i j
    using later that by (cases i j rule: linorder_cases) metis+
  then show "distinct xs" by (simp add: distinct_conv_nth)
qed

lemma all_position_less_None:
  "(\<forall>i<length xs. find_from (\<lambda>j. xs ! j = xs ! i) (length xs) (Suc i) = None) \<longleftrightarrow> distinct xs"
  by (auto simp: distinct_nth_less find_from_None Suc_le_eq)

lemma find_from_cong:
  assumes "\<And>j. j < n \<Longrightarrow> p j = q j"
  shows "find_from p n i = find_from q n i"
proof (cases "find_from p n i")
  case None
  with assms have "find_from q n i = None" by (simp add: find_from_None)
  with None show ?thesis by simp
next
  case (Some k)
  then have k: "i \<le> k" "k < n" "p k" "\<forall>j. i \<le> j \<and> j < k \<longrightarrow> \<not> p j"
    by (simp_all add: find_from_Some)
  have "\<not> q j" if "i \<le> j" "j < k" for j
    using k(2,4) assms[of j] that by simp
  with k assms[of k] have "find_from q n i = Some k" by (simp add: find_from_Some)
  with Some show ?thesis by simp
qed

lemma definitions_unique_iff: "definitions_unique_from ds 0 \<longleftrightarrow> distinct (map gate_definition_id ds)"
proof -
  have "definition_position_from ds g i = find_from (\<lambda>j. map gate_definition_id ds ! j = g) (length ds) i" for g i
    unfolding definition_position_from_def by (rule find_from_cong) simp
  then show ?thesis
    using all_position_less_None[of "map gate_definition_id ds"]
    by (simp add: definitions_unique_from_def all_from_iff)
qed

lemma order_unique_iff: "order_unique_from order 0 \<longleftrightarrow> distinct order"
  using all_position_less_None[of order]
  by (simp add: order_unique_from_def all_from_iff gate_position_from_def)

lemma definition_position_from_None: "definition_position_from ds g 0 = None \<longleftrightarrow> g \<notin> gate_ids ds"
proof
  assume none: "definition_position_from ds g 0 = None"
  show "g \<notin> gate_ids ds"
  proof
    assume "g \<in> gate_ids ds"
    then obtain j where "j < length ds" "gate_definition_id (ds ! j) = g"
      by (metis imageE in_set_conv_nth)
    with none show False by (simp add: definition_position_from_def find_from_None)
  qed
next
  assume "g \<notin> gate_ids ds"
  then have "gate_definition_id (ds ! j) \<noteq> g" if "j < length ds" for j
    using that by (auto dest: nth_mem)
  then show "definition_position_from ds g 0 = None"
    by (simp add: definition_position_from_def find_from_None)
qed

lemma order_declared_iff: "order_declared_from ds order 0 \<longleftrightarrow> set order \<subseteq> gate_ids ds"
proof -
  have "order_declared_from ds order 0 \<longleftrightarrow> (\<forall>i<length order. order ! i \<in> gate_ids ds)"
    unfolding order_declared_from_def all_from_iff definition_position_from_None by simp
  then show ?thesis by (metis in_set_conv_nth subset_iff)
qed

lemma canonical_execution_iff: "canonical_execution_from ds order 0 \<longleftrightarrow> greedy ds order"
proof -
  have "(case first_eligible_from ds order n 0 of Some g \<Rightarrow> gate_id_matches (order ! n) g | None \<Rightarrow> False)
      \<longleftrightarrow> select_candidate ds (take n order) = Some (order ! n)" for n
    by (auto simp: first_eligible_from_find select_candidate_find split: option.splits)
  then show ?thesis by (simp add: canonical_execution_from_def all_from_iff greedy_def)
qed

lemma definitions_respect_order_greedy:
  assumes "greedy ds order" and "distinct (map gate_definition_id ds)" and "set order = gate_ids ds"
  shows "definitions_respect_order_from ds order 0"
proof -
  have "case gate_position_from order (gate_definition_id d) 0 of
      Some p \<Rightarrow> dependencies_precede_from (gate_dependencies d) order p 0 | None \<Rightarrow> False"
    if d: "d \<in> set ds" for d
  proof (cases "gate_position_from order (gate_definition_id d) 0")
    case None
    with d assms(3) show ?thesis by (auto simp: gate_position_from_None)
  next
    case (Some p)
    then have "p < length order" "order ! p = gate_definition_id d"
      by (auto simp: gate_position_from_def find_from_Some)
    with greedy_dependencies[OF assms(1,2) d] Some show ?thesis
      by (simp add: dependencies_precede_from_iff)
  qed
  then show ?thesis by (simp add: definitions_respect_order_from_def all_from_iff)
qed

lemma execution_order_is_valid_iff:
  assumes "ascending gate_key ds"
  shows "execution_order_is_valid ds order \<longleftrightarrow> ds \<noteq> [] \<and> is_schedule ds order"
proof
  assume "execution_order_is_valid ds order"
  then show "ds \<noteq> [] \<and> is_schedule ds order"
    using greedy_is_schedule[OF assms]
    by (simp add: execution_order_is_valid_def canonical_execution_iff)
next
  assume right: "ds \<noteq> [] \<and> is_schedule ds order"
  then have greedy: "greedy ds order" "length order = length ds" using schedule_is_greedy[OF assms] by auto
  have "distinct order" "set order = gate_ids ds" using right by (auto simp: is_schedule_def)
  with right greedy definitions_respect_order_greedy[OF greedy(1) ascending_distinct_ids[OF assms]]
  show "execution_order_is_valid ds order"
    using ascending_distinct_ids[OF assms]
    by (simp add: execution_order_is_valid_def definitions_unique_iff order_unique_iff order_declared_iff
        canonical_execution_iff)
qed

section \<open>The graph\<close>

lemma check_order_cases:
  "check_order key c xs = Ok () \<and> ascending key xs \<or>
   (check_order key c xs = Err (DuplicateValue c) \<or> check_order key c xs = Err (UnorderedValue c)) \<and> \<not> ascending key xs"
  using check_order_Ok[of key c xs] check_order.check_Err[of key "DuplicateValue c" "UnorderedValue c" xs]
  by (cases "check_order key c xs") (auto simp: check_order_def)

lemma for_list_Err: "for_list f xs = Err e \<Longrightarrow> \<exists>x\<in>set xs. f x = Err e"
  by (induction xs) (auto split: sum.splits)

lemma known_dependencies_Ok:
  "for_list (check_known_dependencies ds) ds = Ok () \<longleftrightarrow> closed_dependencies ds"
  by (simp add: for_list_Ok check_known_dependencies_Ok closed_dependencies_def)

lemma known_dependencies_Err:
  assumes "for_list (check_known_dependencies ds) xs = Err e"
  shows "\<exists>g d. e = UnknownGateDependency g d"
proof -
  from for_list_Err[OF assms] obtain x where "check_known_dependencies ds x = Err e" by blast
  from for_list_Err[OF this[unfolded check_known_dependencies_def]] show ?thesis
    by (auto split: if_splits)
qed

lemma known_dependencies_cases:
  "for_list (check_known_dependencies ds) ds = Ok () \<and> closed_dependencies ds \<or>
   (\<exists>g d. for_list (check_known_dependencies ds) ds = Err (UnknownGateDependency g d)) \<and> \<not> closed_dependencies ds"
  using known_dependencies_Ok[of ds] known_dependencies_Err[of ds ds]
  by (cases "for_list (check_known_dependencies ds) ds") auto

lemma gate_graph_new_result:
  assumes "ds \<noteq> []" and "ascending gate_key ds" and "closed_dependencies ds"
  shows "if acyclic (requires ds)
    then \<exists>r. is_schedule ds r \<and> gate_graph_new ds = Ok \<lparr>graph_definitions = ds, execution_order = r\<rparr>
    else gate_graph_new ds = Err GateCycle"
proof -
  have new: "gate_graph_new ds = (case schedule ds [] of
      Inl e \<Rightarrow> Err e
    | Inr r \<Rightarrow> if \<not> execution_order_is_valid ds r then Err GateCycle
              else Ok \<lparr>graph_definitions = ds, execution_order = r\<rparr>)"
    using assms check_order_Ok[of gate_key Gates ds] known_dependencies_Ok[of ds]
    by (simp add: gate_graph_new_def)
  show ?thesis
  proof (cases "acyclic (requires ds)")
    case True
    with schedule_result[OF assms(2,3)] obtain r where "schedule ds [] = Ok r" "is_schedule ds r" by auto
    with True new assms(1) show ?thesis by (simp add: execution_order_is_valid_iff[OF assms(2)])
  next
    case False
    with schedule_result[OF assms(2,3)] new show ?thesis by simp
  qed
qed

lemma gate_graph_new_bad:
  assumes "\<not> (ds \<noteq> [] \<and> ascending gate_key ds \<and> closed_dependencies ds)"
  shows "\<exists>e. gate_graph_new ds = Err e \<and> e \<noteq> GateCycle"
proof (cases "ds \<noteq> [] \<and> ascending gate_key ds")
  case True
  then have "check_order gate_key Gates ds = Ok ()" by (simp add: check_order_Ok)
  with True assms known_dependencies_cases[of ds] show ?thesis by (auto simp: gate_graph_new_def)
next
  case False
  then show ?thesis using check_order_cases[of gate_key Gates ds] by (auto simp: gate_graph_new_def)
qed

lemma gate_graph_new_Ok:
  "gate_graph_new ds = Ok g \<longleftrightarrow>
     ds \<noteq> [] \<and> ascending gate_key ds \<and> closed_dependencies ds \<and> acyclic (requires ds)
     \<and> graph_definitions g = ds \<and> is_schedule ds (execution_order g)"
proof (cases "ds \<noteq> [] \<and> ascending gate_key ds \<and> closed_dependencies ds")
  case True
  then have asc: "ascending gate_key ds" by simp
  show ?thesis
  proof (cases "acyclic (requires ds)")
    case acyclic: True
    with True gate_graph_new_result obtain r where
      r: "is_schedule ds r" "gate_graph_new ds = Ok \<lparr>graph_definitions = ds, execution_order = r\<rparr>" by metis
    then have "gate_graph_new ds = Ok g \<longleftrightarrow> graph_definitions g = ds \<and> execution_order g = r"
      by (cases g) auto
    then show ?thesis using True acyclic schedule_unique[OF asc r(1)] r(1) by metis
  next
    case False
    with True gate_graph_new_result[of ds] show ?thesis by simp
  qed
next
  case False
  with gate_graph_new_bad[OF False] show ?thesis by auto
qed

lemma gate_graph_new_cycle:
  "gate_graph_new ds = Err GateCycle \<longleftrightarrow>
     ds \<noteq> [] \<and> ascending gate_key ds \<and> closed_dependencies ds \<and> \<not> acyclic (requires ds)"
proof (cases "ds \<noteq> [] \<and> ascending gate_key ds \<and> closed_dependencies ds")
  case True
  with gate_graph_new_result[of ds] show ?thesis by (auto split: if_splits)
next
  case False
  with gate_graph_new_bad[OF False] show ?thesis by auto
qed

end
