(* ===== verification/Spec_Contract.thy ===== *)
theory Spec_Contract
  imports Spec_Order
begin

text \<open>
  \<open>peritus-spec\<close>, files \<open>contract.rs\<close> and \<open>contract/validation.rs\<close>: the acceptance contract, the
  validation of its parts against each other, and its binding to one revision. \<open>contract_ok\<close> says
  what a contract promises; the constructor builds exactly the contracts that keep it.
\<close>

section \<open>Validation\<close>

fun has_evidence :: "evidence_requirement list \<Rightarrow> evidence_requirement_id \<Rightarrow> bool" where
  "has_evidence [] target = False"
| "has_evidence (v # vs) target =
     (if evidence_requirement_id v = target then True else has_evidence vs target)"

fun find_evidence_source :: "evidence_requirement list \<Rightarrow> evidence_requirement_id \<Rightarrow> evidence_source option" where
  "find_evidence_source [] target = None"
| "find_evidence_source (v # vs) target =
     (if evidence_requirement_id v = target then Some (evidence_source v) else find_evidence_source vs target)"

fun has_category :: "review_category list \<Rightarrow> review_category \<Rightarrow> bool" where
  "has_category [] target = False"
| "has_category (v # vs) target = (if v = target then True else has_category vs target)"

definition validate_requirements :: "requirement list \<Rightarrow> spec_error + unit" where
  "validate_requirements vs =
    (if vs = [] then Err (EmptyCollection Requirements)
     else check_order (\<lambda>v. requirement_id_digest (requirement_id v)) Requirements vs)"

definition validate_exclusions :: "exclusion list \<Rightarrow> spec_error + unit" where
  "validate_exclusions = check_order (\<lambda>v. content_digest (exclusion_content v)) Exclusions"

definition validate_assumptions :: "assumption list \<Rightarrow> spec_error + unit" where
  "validate_assumptions = check_order (\<lambda>v. content_digest (assumption_content v)) Assumptions"

abbreviation evidence_key :: "evidence_requirement \<Rightarrow> sha256_digest" where
  "evidence_key v \<equiv> evidence_requirement_id_digest (evidence_requirement_id v)"

definition check_evidence_source ::
  "gate_graph \<Rightarrow> review_policy \<Rightarrow> evidence_requirement \<Rightarrow> spec_error + unit" where
  "check_evidence_source gates review v = (case evidence_source v of
     GateSource i \<Rightarrow> if graph_get gates i = None then Err (InvalidEvidenceSource (evidence_requirement_id v)) else Ok ()
   | ReviewSource c \<Rightarrow>
       if \<not> has_category (required_categories review) c
       then Err (InvalidEvidenceSource (evidence_requirement_id v)) else Ok ()
   | _ \<Rightarrow> Ok ())"

text \<open>One loop checks the order of each element against its predecessor, then its source.\<close>

fun check_evidence ::
  "gate_graph \<Rightarrow> review_policy \<Rightarrow> evidence_requirement option \<Rightarrow> evidence_requirement list \<Rightarrow> spec_error + unit" where
  "check_evidence gates review prev [] = Ok ()"
| "check_evidence gates review prev (v # vs) =
    (case (case prev of
         None \<Rightarrow> Ok ()
       | Some p \<Rightarrow>
           if evidence_requirement_id p = evidence_requirement_id v then Err (DuplicateValue EvidenceRequirements)
           else if evidence_key v < evidence_key p then Err (UnorderedValue EvidenceRequirements)
           else Ok ()) of
       Inl e \<Rightarrow> Err e
     | Inr _ \<Rightarrow>
        (case check_evidence_source gates review v of
           Inl e \<Rightarrow> Err e
         | Inr _ \<Rightarrow> check_evidence gates review (Some v) vs))"

definition validate_evidence ::
  "evidence_requirement list \<Rightarrow> gate_graph \<Rightarrow> review_policy \<Rightarrow> spec_error + unit" where
  "validate_evidence vs gates review =
    (if vs = [] then Err (EmptyCollection EvidenceRequirements) else check_evidence gates review None vs)"

definition check_required_evidence ::
  "evidence_requirement list \<Rightarrow> gate_definition \<Rightarrow> evidence_requirement_id \<Rightarrow> spec_error + unit" where
  "check_required_evidence evidence gate required =
    (if \<not> has_evidence evidence required then Err (UnknownEvidenceRequirement (gate_definition_id gate))
     else case find_evidence_source evidence required of
       Some (GateSource source) \<Rightarrow>
         if source = gate_definition_id gate then Ok () else Err (InvalidEvidenceSource required)
     | _ \<Rightarrow> Err (InvalidEvidenceSource required))"

definition validate_gate_evidence :: "gate_graph \<Rightarrow> evidence_requirement list \<Rightarrow> spec_error + unit" where
  "validate_gate_evidence gates evidence =
     for_list (\<lambda>gate. for_list (check_required_evidence evidence gate) (gate_required_evidence gate))
       (graph_definitions gates)"

definition validate_authority_evidence ::
  "evidence_requirement list \<Rightarrow> human_approval_policy \<Rightarrow> waiver_policy \<Rightarrow> spec_error + unit" where
  "validate_authority_evidence evidence approval waiver =
    (if approval_is_required approval \<and> \<not> list_ex (\<lambda>v. evidence_source v = HumanApproval) evidence
     then Err MissingApprovalEvidence
     else case waiver_evidence_requirement waiver of
       Some required \<Rightarrow>
         if find_evidence_source evidence required \<noteq> Some WaiverAuthorization
         then Err InvalidWaiverEvidence else Ok ()
     | None \<Rightarrow> Ok ())"

definition validate_contract ::
  "requirement list \<Rightarrow> exclusion list \<Rightarrow> assumption list \<Rightarrow> gate_graph \<Rightarrow> review_policy \<Rightarrow> completion_policy
     \<Rightarrow> evidence_requirement list \<Rightarrow> human_approval_policy \<Rightarrow> waiver_policy \<Rightarrow> spec_error + unit" where
  "validate_contract requirements exclusions assumptions gates review completion evidence approval waiver =
    (if max_review_cycles completion < reviewer_quorum review
     then Err (ReviewQuorumExceedsCycleLimit (reviewer_quorum review) (max_review_cycles completion))
     else case validate_requirements requirements of Inl e \<Rightarrow> Err e | Inr _ \<Rightarrow>
      (case validate_exclusions exclusions of Inl e \<Rightarrow> Err e | Inr _ \<Rightarrow>
      (case validate_assumptions assumptions of Inl e \<Rightarrow> Err e | Inr _ \<Rightarrow>
      (case validate_evidence evidence gates review of Inl e \<Rightarrow> Err e | Inr _ \<Rightarrow>
      (case validate_gate_evidence gates evidence of Inl e \<Rightarrow> Err e | Inr _ \<Rightarrow>
       validate_authority_evidence evidence approval waiver)))))"

section \<open>The contract and its binding\<close>

record acceptance_contract =
  contract_id :: acceptance_spec_id
  contract_content_digest :: sha256_digest
  contract_documents :: contract_documents
  contract_requirements :: "requirement list"
  contract_exclusions :: "exclusion list"
  contract_assumptions :: "assumption list"
  contract_gates :: gate_graph
  contract_review_policy :: review_policy
  contract_evidence_requirements :: "evidence_requirement list"
  contract_completion_policy :: completion_policy
  contract_approval_policy :: human_approval_policy
  contract_waiver_policy :: waiver_policy

definition acceptance_contract_new ::
  "acceptance_spec_id \<Rightarrow> sha256_digest \<Rightarrow> contract_documents \<Rightarrow> requirement list \<Rightarrow> exclusion list
     \<Rightarrow> assumption list \<Rightarrow> gate_graph \<Rightarrow> review_policy \<Rightarrow> evidence_requirement list \<Rightarrow> completion_policy
     \<Rightarrow> human_approval_policy \<Rightarrow> waiver_policy \<Rightarrow> spec_error + acceptance_contract" where
  "acceptance_contract_new i digest documents requirements exclusions assumptions gates review evidence
     completion approval waiver =
    (case validate_contract requirements exclusions assumptions gates review completion evidence
            approval waiver of
       Inl e \<Rightarrow> Err e
     | Inr _ \<Rightarrow> Ok \<lparr>contract_id = i, contract_content_digest = digest, contract_documents = documents,
         contract_requirements = requirements, contract_exclusions = exclusions,
         contract_assumptions = assumptions, contract_gates = gates, contract_review_policy = review,
         contract_evidence_requirements = evidence, contract_completion_policy = completion,
         contract_approval_policy = approval, contract_waiver_policy = waiver\<rparr>)"

record contract_binding =
  binding_contract_id :: acceptance_spec_id
  binding_contract_digest :: sha256_digest
  binding_revision :: revision_tuple

definition contract_binding_new :: "acceptance_contract \<Rightarrow> revision_tuple \<Rightarrow> spec_error + contract_binding" where
  "contract_binding_new c revision =
    (if \<not> acceptance_id_matches (acceptance_spec_id revision) (contract_id c)
     then Err RevisionBindingMismatch
     else Ok \<lparr>binding_contract_id = contract_id c, binding_contract_digest = contract_content_digest c,
              binding_revision = revision\<rparr>)"

definition contract_bind :: "acceptance_contract \<Rightarrow> revision_tuple \<Rightarrow> spec_error + contract_binding" where
  "contract_bind c revision = contract_binding_new c revision"

definition matches_revision :: "contract_binding \<Rightarrow> revision_tuple \<Rightarrow> bool" where
  "matches_revision b revision \<longleftrightarrow> revision = binding_revision b"

section \<open>What a contract promises\<close>

text \<open>The evidence a contract names, as a map from identifier to source.\<close>

definition declared :: "evidence_requirement list \<Rightarrow> (evidence_requirement_id \<times> evidence_source) set" where
  "declared vs = (\<lambda>v. (evidence_requirement_id v, evidence_source v)) ` set vs"

definition contract_ok :: "acceptance_contract \<Rightarrow> bool" where
  "contract_ok c \<longleftrightarrow>
     reviewer_quorum (contract_review_policy c) \<le> max_review_cycles (contract_completion_policy c)
   \<and> contract_requirements c \<noteq> []
   \<and> ascending (\<lambda>v. requirement_id_digest (requirement_id v)) (contract_requirements c)
   \<and> ascending (\<lambda>v. content_digest (exclusion_content v)) (contract_exclusions c)
   \<and> ascending (\<lambda>v. content_digest (assumption_content v)) (contract_assumptions c)
   \<and> contract_evidence_requirements c \<noteq> []
   \<and> ascending evidence_key (contract_evidence_requirements c)
   \<and> (\<forall>(e, source) \<in> declared (contract_evidence_requirements c). case source of
        GateSource g \<Rightarrow> g \<in> gate_ids (graph_definitions (contract_gates c))
      | ReviewSource r \<Rightarrow> r \<in> set (required_categories (contract_review_policy c))
      | _ \<Rightarrow> True)
   \<and> (\<forall>d \<in> set (graph_definitions (contract_gates c)). \<forall>e \<in> set (gate_required_evidence d).
        (e, GateSource (gate_definition_id d)) \<in> declared (contract_evidence_requirements c))
   \<and> (approval_is_required (contract_approval_policy c) \<longrightarrow>
        (\<exists>e. (e, HumanApproval) \<in> declared (contract_evidence_requirements c)))
   \<and> (\<forall>a e. contract_waiver_policy c = Allowed a e \<longrightarrow>
        (e, WaiverAuthorization) \<in> declared (contract_evidence_requirements c))"

lemma has_evidence_iff: "has_evidence vs e \<longleftrightarrow> (\<exists>s. (e, s) \<in> declared vs)"
  by (induction vs) (auto simp: declared_def)

lemma has_category_iff [simp]: "has_category vs c \<longleftrightarrow> c \<in> set vs"
  by (induction vs) auto

lemma find_evidence_source_Some:
  "ascending evidence_key vs \<Longrightarrow> find_evidence_source vs e = Some s \<longleftrightarrow> (e, s) \<in> declared vs"
proof (induction vs)
  case (Cons v vs)
  then have "(evidence_requirement_id v, s) \<notin> declared vs" for s
    by (auto simp: declared_def ascending_Cons)
  with Cons show ?case by (auto simp: declared_def ascending_Cons)
qed (simp add: declared_def)

lemma check_evidence_source_Ok:
  "check_evidence_source gates review v = Ok () \<longleftrightarrow> (case evidence_source v of
     GateSource g \<Rightarrow> g \<in> gate_ids (graph_definitions gates)
   | ReviewSource r \<Rightarrow> r \<in> set (required_categories review)
   | _ \<Rightarrow> True)"
  by (auto simp: check_evidence_source_def graph_get_def split: evidence_source.splits)

lemma check_evidence_Ok:
  "check_evidence gates review prev vs = Ok () \<longleftrightarrow>
     ascending evidence_key (case prev of None \<Rightarrow> vs | Some p \<Rightarrow> p # vs)
     \<and> (\<forall>v\<in>set vs. check_evidence_source gates review v = Ok ())"
proof (induction vs arbitrary: prev)
  case Nil
  then show ?case by (cases prev) simp_all
next
  case (Cons v vs)
  show ?case
  proof (cases prev)
    case None
    with Cons[of "Some v"] show ?thesis by (auto split: sum.splits)
  next
    case (Some p)
    have less: "evidence_key p < evidence_key v \<longleftrightarrow>
        evidence_requirement_id p \<noteq> evidence_requirement_id v \<and> \<not> evidence_key v < evidence_key p"
      by (cases "evidence_requirement_id p"; cases "evidence_requirement_id v") auto
    with Some Cons[of "Some v"] show ?thesis by (auto split: sum.splits)
  qed
qed

lemma check_required_evidence_Ok:
  assumes "ascending evidence_key vs"
  shows "check_required_evidence vs gate e = Ok () \<longleftrightarrow> (e, GateSource (gate_definition_id gate)) \<in> declared vs"
  by (auto simp: check_required_evidence_def has_evidence_iff find_evidence_source_Some[OF assms, symmetric]
      split: option.splits evidence_source.splits)

lemma validate_authority_evidence_Ok:
  assumes "ascending evidence_key vs"
  shows "validate_authority_evidence vs approval waiver = Ok () \<longleftrightarrow>
     (approval_is_required approval \<longrightarrow> (\<exists>e. (e, HumanApproval) \<in> declared vs))
   \<and> (\<forall>a e. waiver = Allowed a e \<longrightarrow> (e, WaiverAuthorization) \<in> declared vs)"
proof -
  have "list_ex (\<lambda>v. evidence_source v = HumanApproval) vs \<longleftrightarrow> (\<exists>e. (e, HumanApproval) \<in> declared vs)"
    by (force simp: list_ex_iff declared_def)
  then show ?thesis
    using find_evidence_source_Some[OF assms]
    by (cases waiver) (auto simp: validate_authority_evidence_def waiver_evidence_requirement_def)
qed

lemma sequence_Ok: "(case r of Inl e \<Rightarrow> Err e | Inr (_ :: unit) \<Rightarrow> k) = Ok z \<longleftrightarrow> r = Ok () \<and> k = Ok z"
  by (auto split: sum.splits)

lemma acceptance_contract_new_Ok:
  "acceptance_contract_new i digest documents requirements exclusions assumptions gates review evidence
     completion approval waiver = Ok c \<longleftrightarrow>
   c = \<lparr>contract_id = i, contract_content_digest = digest, contract_documents = documents,
        contract_requirements = requirements, contract_exclusions = exclusions,
        contract_assumptions = assumptions, contract_gates = gates, contract_review_policy = review,
        contract_evidence_requirements = evidence, contract_completion_policy = completion,
        contract_approval_policy = approval, contract_waiver_policy = waiver\<rparr> \<and> contract_ok c"
proof -
  have evidence: "validate_evidence evidence gates review = Ok () \<longleftrightarrow>
      evidence \<noteq> [] \<and> ascending evidence_key evidence
      \<and> (\<forall>(e, source) \<in> declared evidence. case source of
        GateSource g \<Rightarrow> g \<in> gate_ids (graph_definitions gates)
      | ReviewSource r \<Rightarrow> r \<in> set (required_categories review)
      | _ \<Rightarrow> True)"
    by (auto simp: validate_evidence_def check_evidence_Ok check_evidence_source_Ok declared_def)
  have gate: "validate_gate_evidence gates evidence = Ok () \<longleftrightarrow>
      (\<forall>d \<in> set (graph_definitions gates). \<forall>e \<in> set (gate_required_evidence d).
         (e, GateSource (gate_definition_id d)) \<in> declared evidence)"
    if "ascending evidence_key evidence"
    by (simp add: validate_gate_evidence_def for_list_Ok check_required_evidence_Ok[OF that])
  have "validate_contract requirements exclusions assumptions gates review completion evidence approval waiver
      = Ok () \<longleftrightarrow> contract_ok \<lparr>contract_id = i, contract_content_digest = digest, contract_documents = documents,
        contract_requirements = requirements, contract_exclusions = exclusions,
        contract_assumptions = assumptions, contract_gates = gates, contract_review_policy = review,
        contract_evidence_requirements = evidence, contract_completion_policy = completion,
        contract_approval_policy = approval, contract_waiver_policy = waiver\<rparr>"
  proof (cases "ascending evidence_key evidence")
    case True
    show ?thesis
      unfolding validate_contract_def contract_ok_def sequence_Ok evidence gate[OF True]
        validate_authority_evidence_Ok[OF True] validate_requirements_def validate_exclusions_def
        validate_assumptions_def
      by (simp add: sequence_Ok evidence gate[OF True] check_order_Ok
          validate_authority_evidence_Ok[OF True] flip: not_le)
  next
    case False
    then show ?thesis
      by (simp add: validate_contract_def sequence_Ok evidence contract_ok_def)
  qed
  then show ?thesis
    by (auto simp: acceptance_contract_new_def sequence_Ok split: sum.splits)
qed

lemma contract_bind_Ok:
  "contract_bind c revision = Ok b \<longleftrightarrow> acceptance_spec_id revision = contract_id c \<and>
     b = \<lparr>binding_contract_id = contract_id c, binding_contract_digest = contract_content_digest c,
          binding_revision = revision\<rparr>"
  by (auto simp: contract_bind_def contract_binding_new_def)

end
