(* ===== verification/Quality_Evidence.thy ===== *)
theory Quality_Evidence
  imports Spec_Contract
begin

text \<open>
  \<open>peritus-quality-policy\<close>, files \<open>ordinal.rs\<close>, \<open>error.rs\<close>, \<open>revision.rs\<close>, \<open>canonical/order.rs\<close>,
  \<open>finding.rs\<close>, \<open>gate.rs\<close>, \<open>authority.rs\<close>, \<open>review.rs\<close>, \<open>review/validation.rs\<close>, \<open>evidence.rs\<close> and
  its submodules: what was observed about a run, and the canonical form the constructors enforce.
  \<open>evidence_ok\<close> states that form.
\<close>

section \<open>Ordinals and errors\<close>

datatype ordinal_error = ObservationOrdinalError

datatype gate_attempt_ordinal = GateAttemptOrdinal (gate_attempt_get: u16)
datatype review_cycle_ordinal = ReviewCycleOrdinal (review_cycle_get: u16)

definition gate_attempt_ordinal_new :: "u16 \<Rightarrow> ordinal_error + gate_attempt_ordinal" where
  "gate_attempt_ordinal_new v = (if v = 0 then Err ObservationOrdinalError else Ok (GateAttemptOrdinal v))"

definition review_cycle_ordinal_new :: "u16 \<Rightarrow> ordinal_error + review_cycle_ordinal" where
  "review_cycle_ordinal_new v = (if v = 0 then Err ObservationOrdinalError else Ok (ReviewCycleOrdinal v))"

datatype evidence_collection =
    GateCollection | ReviewCollection | ReviewCategoryCollection | FindingCollection
  | ObservationCollection | ApprovalCollection | WaiverCollection

datatype evidence_error_kind =
    UnorderedObservation | DuplicateObservation | EmptyReviewCategories | ResolutionRevisionMismatch
  | DuplicateApprovalSubject | WaiverApprovalSubjectMismatch

record evidence_error =
  evidence_error_kind :: evidence_error_kind
  evidence_error_collection :: evidence_collection
  evidence_error_index :: nat

definition evidence_error_new :: "evidence_error_kind \<Rightarrow> evidence_collection \<Rightarrow> nat \<Rightarrow> evidence_error" where
  "evidence_error_new k c i =
     \<lparr>evidence_error_kind = k, evidence_error_collection = c, evidence_error_index = i\<rparr>"

section \<open>Identity of revisions and digests\<close>

definition digest_matches :: "sha256_digest \<Rightarrow> sha256_digest \<Rightarrow> bool" where
  "digest_matches a b = arrays_equal (digest_bytes a) (digest_bytes b)"

definition evidence_requirement_matches :: "evidence_requirement_id \<Rightarrow> evidence_requirement_id \<Rightarrow> bool" where
  "evidence_requirement_matches a b =
     digest_matches (evidence_requirement_id_digest a) (evidence_requirement_id_digest b)"

definition review_category_matches :: "review_category \<Rightarrow> review_category \<Rightarrow> bool" where
  "review_category_matches a b = digest_matches (review_category_digest a) (review_category_digest b)"

definition reviewer_actor_matches :: "actor_id \<Rightarrow> actor_id \<Rightarrow> bool" where
  "reviewer_actor_matches a b = identifier_values_equal (actor_id_raw a) (actor_id_raw b)"

definition revision_matches :: "revision_tuple \<Rightarrow> revision_tuple \<Rightarrow> bool" where
  "revision_matches a b \<longleftrightarrow>
     identifier_values_equal (acceptance_spec_id_raw (acceptance_spec_id a))
       (acceptance_spec_id_raw (acceptance_spec_id b))
   \<and> identifier_values_equal (harness_id_raw (harness_id a)) (harness_id_raw (harness_id b))
   \<and> identifier_values_equal (workspace_id_raw (workspace_id a)) (workspace_id_raw (workspace_id b))
   \<and> generation_get (workspace_generation a) = generation_get (workspace_generation b)
   \<and> revision_number_get (workspace_revision a) = revision_number_get (workspace_revision b)
   \<and> identifier_values_equal (policy_id_raw (policy_id a)) (policy_id_raw (policy_id b))
   \<and> identifier_values_equal (provider_profile_id_raw (provider_profile_id a))
       (provider_profile_id_raw (provider_profile_id b))"

lemma digest_matches_iff [simp]: "digest_matches a b \<longleftrightarrow> a = b"
  by (simp add: digest_matches_def arrays_equal_iff)

lemma evidence_requirement_matches_iff [simp]: "evidence_requirement_matches a b \<longleftrightarrow> a = b"
  by (cases a; cases b) (simp add: evidence_requirement_matches_def)

lemma review_category_matches_iff [simp]: "review_category_matches a b \<longleftrightarrow> a = b"
  by (cases a; cases b) (simp add: review_category_matches_def)

lemma reviewer_actor_matches_iff [simp]: "reviewer_actor_matches a b \<longleftrightarrow> a = b"
  by (cases a; cases b) (simp add: reviewer_actor_matches_def)

lemma raw_equal_iff:
  "acceptance_spec_id_raw a = acceptance_spec_id_raw b \<longleftrightarrow> a = b"
  "harness_id_raw h = harness_id_raw h' \<longleftrightarrow> h = h'"
  "workspace_id_raw w = workspace_id_raw w' \<longleftrightarrow> w = w'"
  "policy_id_raw p = policy_id_raw p' \<longleftrightarrow> p = p'"
  "provider_profile_id_raw q = provider_profile_id_raw q' \<longleftrightarrow> q = q'"
  by (auto intro: acceptance_spec_id.expand harness_id.expand workspace_id.expand policy_id.expand
      provider_profile_id.expand)

lemma revision_matches_iff [simp]: "revision_matches a b \<longleftrightarrow> a = b"
  by (cases a; cases b) (simp add: revision_matches_def raw_equal_iff)

definition require_ascending :: "u8 list \<Rightarrow> u8 list \<Rightarrow> evidence_collection \<Rightarrow> nat \<Rightarrow> evidence_error + unit" where
  "require_ascending l r c i = (case compare_slices l r of
     Equal \<Rightarrow> Err (evidence_error_new DuplicateObservation c i)
   | Greater \<Rightarrow> Err (evidence_error_new UnorderedObservation c i)
   | Less \<Rightarrow> Ok ())"

lemma require_ascending_Ok [simp]: "require_ascending l r c i = Ok () \<longleftrightarrow> l < r"
  by (simp add: require_ascending_def compare_slices_keys case_ordering)

section \<open>Observations\<close>

datatype finding_disposition =
    FindingOpen
  | FindingResolved (resolution_revision: revision_tuple) (resolution_digest: sha256_digest)
  | WaiverRequested

record finding_observation =
  finding_id :: finding_id
  finding_severity :: finding_severity
  finding_disposition :: finding_disposition
  finding_digest :: sha256_digest

datatype gate_failure = PredicateFailed | UnsuccessfulExit | InvalidResult | GateInfrastructure

datatype gate_outcome = GatePassed | GateFailed gate_failure

record gate_observation =
  observed_execution_id :: gate_execution_id
  observed_gate_id :: gate_id
  observed_attempt :: gate_attempt_ordinal
  gate_revision :: revision_tuple
  gate_outcome :: gate_outcome
  gate_result_digest :: sha256_digest

definition gate_passed :: "gate_observation \<Rightarrow> bool" where
  "gate_passed g = (case gate_outcome g of GatePassed \<Rightarrow> True | _ \<Rightarrow> False)"

datatype approval_subject = AcceptanceSubject | FindingWaiverSubject finding_id

datatype approval_outcome = Approved | ApprovalDenied

record approval_observation =
  approval_request_id :: approval_request_id
  approval_revision :: revision_tuple
  approval_subject :: approval_subject
  approval_actor_id :: actor_id
  observed_authority :: content_reference
  approval_outcome :: approval_outcome
  approval_evidence_digest :: sha256_digest

record waiver_observation =
  waiver_finding_id :: finding_id
  waiver_revision :: revision_tuple
  waiver_approval_request_id :: approval_request_id
  observed_waiver_authority :: content_reference
  waiver_requirement_id :: evidence_requirement_id
  waiver_digest :: sha256_digest

record reviewer_identity =
  reviewer_actor_id :: actor_id
  reviewer_provider :: sha256_digest
  reviewer_model_family :: sha256_digest
  reviewer_prompt_revision :: sha256_digest
  reviewer_context :: sha256_digest
  reviewer_ancestry :: sha256_digest
  reviewer_independent :: bool

record review_observation =
  review_cycle_id :: review_cycle_id
  review_cycle_ordinal :: review_cycle_ordinal
  review_revision :: revision_tuple
  review_reviewer :: reviewer_identity
  review_categories :: "review_category list"
  review_findings :: "finding_observation list"
  review_digest :: sha256_digest

record evidence_observation =
  observed_requirement_id :: evidence_requirement_id
  evidence_revision :: revision_tuple
  observed_artifact_digest :: sha256_digest

section \<open>A review observation\<close>

definition finding_bytes :: "finding_id \<Rightarrow> u8 list" where
  "finding_bytes f = as_bytes (finding_id_raw f)"

lemma finding_bytes_inject [simp]: "finding_bytes f = finding_bytes g \<longleftrightarrow> f = g"
  by (cases f; cases g) (simp add: finding_bytes_def)

definition validate_review_categories :: "review_category list \<Rightarrow> evidence_error + unit" where
  "validate_review_categories vs =
    (if vs = [] then Err (evidence_error_new EmptyReviewCategories ReviewCategoryCollection 0)
     else for_list (\<lambda>i. require_ascending (digest_bytes (review_category_digest (vs ! (i - 1))))
       (digest_bytes (review_category_digest (vs ! i))) ReviewCategoryCollection i) [1..<length vs])"

definition validate_finding :: "finding_observation list \<Rightarrow> revision_tuple \<Rightarrow> nat \<Rightarrow> evidence_error + unit" where
  "validate_finding vs revision i =
    (case (case finding_disposition (vs ! i) of
         FindingResolved resolution _ \<Rightarrow>
           if \<not> revision_matches resolution revision
           then Err (evidence_error_new ResolutionRevisionMismatch FindingCollection i) else Ok ()
       | _ \<Rightarrow> Ok ()) of
       Inl e \<Rightarrow> Err e
     | Inr _ \<Rightarrow>
        if 0 < i then require_ascending (finding_bytes (finding_id (vs ! (i - 1))))
          (finding_bytes (finding_id (vs ! i))) FindingCollection i
        else Ok ())"

definition validate_findings :: "finding_observation list \<Rightarrow> revision_tuple \<Rightarrow> evidence_error + unit" where
  "validate_findings vs revision = for_range (validate_finding vs revision) (length vs)"

definition review_observation_new ::
  "review_cycle_id \<Rightarrow> review_cycle_ordinal \<Rightarrow> revision_tuple \<Rightarrow> reviewer_identity \<Rightarrow> review_category list
     \<Rightarrow> finding_observation list \<Rightarrow> sha256_digest \<Rightarrow> evidence_error + review_observation" where
  "review_observation_new cycle ordinal revision reviewer categories findings digest =
    (case validate_review_categories categories of Inl e \<Rightarrow> Err e | Inr _ \<Rightarrow>
    (case validate_findings findings revision of Inl e \<Rightarrow> Err e | Inr _ \<Rightarrow>
       Ok \<lparr>review_cycle_id = cycle, review_cycle_ordinal = ordinal, review_revision = revision,
          review_reviewer = reviewer, review_categories = categories, review_findings = findings,
          review_digest = digest\<rparr>))"

section \<open>The evidence of a run\<close>

definition subjects_equal :: "approval_subject \<Rightarrow> approval_subject \<Rightarrow> bool" where
  "subjects_equal a b = (case (a, b) of
     (AcceptanceSubject, AcceptanceSubject) \<Rightarrow> True
   | (FindingWaiverSubject f, FindingWaiverSubject g) \<Rightarrow>
       (case compare_slices (finding_bytes f) (finding_bytes g) of Equal \<Rightarrow> True | _ \<Rightarrow> False)
   | _ \<Rightarrow> False)"

definition validate_gate_observations :: "gate_observation list \<Rightarrow> evidence_error + unit" where
  "validate_gate_observations vs =
     for_list (\<lambda>i. require_ascending (as_bytes (gate_id_raw (observed_gate_id (vs ! (i - 1)))))
       (as_bytes (gate_id_raw (observed_gate_id (vs ! i)))) GateCollection i) [1..<length vs]"

definition validate_evidence_observations :: "evidence_observation list \<Rightarrow> evidence_error + unit" where
  "validate_evidence_observations vs =
     for_list (\<lambda>i. require_ascending
       (digest_bytes (evidence_requirement_id_digest (observed_requirement_id (vs ! (i - 1)))))
       (digest_bytes (evidence_requirement_id_digest (observed_requirement_id (vs ! i))))
       ObservationCollection i) [1..<length vs]"

definition finding_seen_before :: "review_observation list \<Rightarrow> nat \<Rightarrow> finding_id \<Rightarrow> bool" where
  "finding_seen_before vs limit target = list_ex (\<lambda>r. list_ex (\<lambda>f.
     case compare_slices (finding_bytes (finding_id f)) (finding_bytes target) of
       Equal \<Rightarrow> True | _ \<Rightarrow> False) (review_findings r)) (take limit vs)"

definition validate_review_order :: "review_observation list \<Rightarrow> nat \<Rightarrow> evidence_error + unit" where
  "validate_review_order vs i =
    (if 0 < i then
       (case require_ascending (as_bytes (review_cycle_id_raw (review_cycle_id (vs ! (i - 1)))))
              (as_bytes (review_cycle_id_raw (review_cycle_id (vs ! i)))) ReviewCollection i of
          Inl e \<Rightarrow> Err e
        | Inr _ \<Rightarrow>
           (let previous = review_cycle_get (review_cycle_ordinal (vs ! (i - 1)));
                current = review_cycle_get (review_cycle_ordinal (vs ! i)) in
            if previous = current then Err (evidence_error_new DuplicateObservation ReviewCollection i)
            else if current < previous then Err (evidence_error_new UnorderedObservation ReviewCollection i)
            else Ok ()))
     else Ok ())"

definition validate_review :: "review_observation list \<Rightarrow> nat \<Rightarrow> evidence_error + unit" where
  "validate_review vs i =
    (case validate_review_order vs i of Inl e \<Rightarrow> Err e | Inr _ \<Rightarrow>
       for_range (\<lambda>j. if finding_seen_before vs i (finding_id (review_findings (vs ! i) ! j))
         then Err (evidence_error_new DuplicateObservation FindingCollection j) else Ok ())
       (length (review_findings (vs ! i))))"

definition validate_reviews :: "review_observation list \<Rightarrow> evidence_error + unit" where
  "validate_reviews vs = for_range (validate_review vs) (length vs)"

definition request_bytes :: "approval_request_id \<Rightarrow> u8 list" where
  "request_bytes r = as_bytes (approval_request_id_raw r)"

definition subject_seen_before :: "approval_observation list \<Rightarrow> nat \<Rightarrow> approval_subject \<Rightarrow> bool" where
  "subject_seen_before vs limit target = list_ex (\<lambda>v. subjects_equal (approval_subject v) target) (take limit vs)"

definition validate_approval :: "approval_observation list \<Rightarrow> nat \<Rightarrow> evidence_error + unit" where
  "validate_approval vs i =
    (case (if 0 < i then require_ascending (request_bytes (approval_request_id (vs ! (i - 1))))
             (request_bytes (approval_request_id (vs ! i))) ApprovalCollection i else Ok ()) of
       Inl e \<Rightarrow> Err e
     | Inr _ \<Rightarrow>
        if subject_seen_before vs i (approval_subject (vs ! i))
        then Err (evidence_error_new DuplicateApprovalSubject ApprovalCollection i) else Ok ())"

definition validate_approvals :: "approval_observation list \<Rightarrow> evidence_error + unit" where
  "validate_approvals vs = for_range (validate_approval vs) (length vs)"

definition waiver_approval_consistent :: "waiver_observation \<Rightarrow> approval_observation list \<Rightarrow> bool" where
  "waiver_approval_consistent w approvals = list_all (\<lambda>a.
     \<not> ((case compare_slices (request_bytes (approval_request_id a)) (request_bytes (waiver_approval_request_id w)) of
           Equal \<Rightarrow> True | _ \<Rightarrow> False)
        \<and> \<not> subjects_equal (approval_subject a) (FindingWaiverSubject (waiver_finding_id w)))) approvals"

definition validate_waiver ::
  "waiver_observation list \<Rightarrow> approval_observation list \<Rightarrow> nat \<Rightarrow> evidence_error + unit" where
  "validate_waiver vs approvals i =
    (case (if 0 < i then require_ascending (finding_bytes (waiver_finding_id (vs ! (i - 1))))
             (finding_bytes (waiver_finding_id (vs ! i))) WaiverCollection i else Ok ()) of
       Inl e \<Rightarrow> Err e
     | Inr _ \<Rightarrow>
        if \<not> waiver_approval_consistent (vs ! i) approvals
        then Err (evidence_error_new WaiverApprovalSubjectMismatch WaiverCollection i) else Ok ())"

definition validate_waivers ::
  "waiver_observation list \<Rightarrow> approval_observation list \<Rightarrow> evidence_error + unit" where
  "validate_waivers vs approvals = for_range (validate_waiver vs approvals) (length vs)"

record acceptance_evidence =
  evidence_gates :: "gate_observation list"
  evidence_reviews :: "review_observation list"
  evidence_observations :: "evidence_observation list"
  evidence_approvals :: "approval_observation list"
  evidence_waivers :: "waiver_observation list"

definition acceptance_evidence_new ::
  "gate_observation list \<Rightarrow> review_observation list \<Rightarrow> evidence_observation list
     \<Rightarrow> approval_observation list \<Rightarrow> waiver_observation list \<Rightarrow> evidence_error + acceptance_evidence" where
  "acceptance_evidence_new gates reviews observations approvals waivers =
    (case validate_gate_observations gates of Inl e \<Rightarrow> Err e | Inr _ \<Rightarrow>
    (case validate_reviews reviews of Inl e \<Rightarrow> Err e | Inr _ \<Rightarrow>
    (case validate_evidence_observations observations of Inl e \<Rightarrow> Err e | Inr _ \<Rightarrow>
    (case validate_approvals approvals of Inl e \<Rightarrow> Err e | Inr _ \<Rightarrow>
    (case validate_waivers waivers approvals of Inl e \<Rightarrow> Err e | Inr _ \<Rightarrow>
       Ok \<lparr>evidence_gates = gates, evidence_reviews = reviews, evidence_observations = observations,
          evidence_approvals = approvals, evidence_waivers = waivers\<rparr>)))))"

section \<open>Canonical evidence\<close>

definition review_ok :: "review_observation \<Rightarrow> bool" where
  "review_ok r \<longleftrightarrow> review_categories r \<noteq> []
   \<and> ascending (\<lambda>c. digest_bytes (review_category_digest c)) (review_categories r)
   \<and> ascending (\<lambda>f. finding_bytes (finding_id f)) (review_findings r)
   \<and> (\<forall>f\<in>set (review_findings r). \<forall>v d. finding_disposition f = FindingResolved v d \<longrightarrow> v = review_revision r)"

definition evidence_ok :: "acceptance_evidence \<Rightarrow> bool" where
  "evidence_ok e \<longleftrightarrow>
     ascending (\<lambda>g. as_bytes (gate_id_raw (observed_gate_id g))) (evidence_gates e)
   \<and> ascending (\<lambda>r. as_bytes (review_cycle_id_raw (review_cycle_id r))) (evidence_reviews e)
   \<and> ascending (\<lambda>r. review_cycle_get (review_cycle_ordinal r)) (evidence_reviews e)
   \<and> sorted_wrt (\<lambda>r s. finding_id ` set (review_findings r) \<inter> finding_id ` set (review_findings s) = {})
       (evidence_reviews e)
   \<and> ascending (\<lambda>v. digest_bytes (evidence_requirement_id_digest (observed_requirement_id v)))
       (evidence_observations e)
   \<and> ascending (\<lambda>a. request_bytes (approval_request_id a)) (evidence_approvals e)
   \<and> distinct (map approval_subject (evidence_approvals e))
   \<and> ascending (\<lambda>w. finding_bytes (waiver_finding_id w)) (evidence_waivers e)
   \<and> (\<forall>w\<in>set (evidence_waivers e). \<forall>a\<in>set (evidence_approvals e).
        approval_request_id a = waiver_approval_request_id w \<longrightarrow>
        approval_subject a = FindingWaiverSubject (waiver_finding_id w))"

lemma ascending_nth:
  "ascending key xs \<longleftrightarrow> (\<forall>i. 0 < i \<and> i < length xs \<longrightarrow> key (xs ! (i - 1)) < key (xs ! i))"
proof -
  have "ascending key xs \<longleftrightarrow> (\<forall>i. Suc i < length xs \<longrightarrow> key (xs ! i) < key (xs ! Suc i))"
    unfolding ascending_def by (subst sorted_wrt_iff_nth_Suc_transp) (auto simp: transp_def)
  also have "\<dots> \<longleftrightarrow> (\<forall>i. 0 < i \<and> i < length xs \<longrightarrow> key (xs ! (i - 1)) < key (xs ! i))"
  proof (intro iffI allI impI)
    fix i assume "\<forall>i. Suc i < length xs \<longrightarrow> key (xs ! i) < key (xs ! Suc i)" "0 < i \<and> i < length xs"
    then show "key (xs ! (i - 1)) < key (xs ! i)" by (cases i) auto
  next
    fix i assume "\<forall>i. 0 < i \<and> i < length xs \<longrightarrow> key (xs ! (i - 1)) < key (xs ! i)" "Suc i < length xs"
    from this(1)[rule_format, of "Suc i"] this(2) show "key (xs ! i) < key (xs ! Suc i)" by simp
  qed
  finally show ?thesis .
qed

lemma ascending_loop:
  "for_list (\<lambda>i. require_ascending (key (xs ! (i - 1))) (key (xs ! i)) c i) [1..<length xs] = Ok ()
     \<longleftrightarrow> ascending key xs"
  unfolding ascending_nth for_list_Ok by auto

lemma subjects_equal_iff [simp]: "subjects_equal a b \<longleftrightarrow> a = b"
  by (auto simp: subjects_equal_def compare_slices_keys case_ordering split: approval_subject.splits)

lemma request_bytes_inject [simp]: "request_bytes r = request_bytes s \<longleftrightarrow> r = s"
  by (cases r; cases s) (simp add: request_bytes_def)

lemma sorted_wrt_take:
  "sorted_wrt R xs \<longleftrightarrow> (\<forall>j<length xs. \<forall>x\<in>set (take j xs). R x (xs ! j))"
proof (induction xs rule: rev_induct)
  case (snoc x xs)
  then show ?case by (auto simp: sorted_wrt_append nth_append less_Suc_eq)
qed simp

lemma distinct_sorted_wrt: "distinct xs \<longleftrightarrow> sorted_wrt (\<noteq>) xs"
  by (induction xs) auto

lemma images_disjoint: "(\<forall>x\<in>A. \<not> (\<exists>r\<in>R. g x \<in> g ` S r)) \<longleftrightarrow> (\<forall>r\<in>R. g ` S r \<inter> g ` A = {})"
proof
  assume none: "\<forall>x\<in>A. \<not> (\<exists>r\<in>R. g x \<in> g ` S r)"
  have "y \<notin> g ` S r \<or> y \<notin> g ` A" if "r \<in> R" for r y
    using none that unfolding image_iff by fast
  then show "\<forall>r\<in>R. g ` S r \<inter> g ` A = {}" by fast
next
  assume "\<forall>r\<in>R. g ` S r \<inter> g ` A = {}"
  then show "\<forall>x\<in>A. \<not> (\<exists>r\<in>R. g x \<in> g ` S r)" by (meson disjoint_iff imageI)
qed

lemma for_range_guard:
  "for_range (\<lambda>j. if p j then Err (e j) else Ok ()) n = Ok () \<longleftrightarrow> (\<forall>j<n. \<not> p j)"
  unfolding for_range_Ok by auto

lemma finding_seen_before_iff:
  "finding_seen_before vs n f \<longleftrightarrow> (\<exists>r\<in>set (take n vs). f \<in> finding_id ` set (review_findings r))"
  by (force simp: finding_seen_before_def list_ex_iff compare_slices_keys case_ordering)

lemma review_observation_new_Ok:
  "review_observation_new cycle ordinal revision reviewer categories findings digest = Ok r \<longleftrightarrow>
     r = \<lparr>review_cycle_id = cycle, review_cycle_ordinal = ordinal, review_revision = revision,
          review_reviewer = reviewer, review_categories = categories, review_findings = findings,
          review_digest = digest\<rparr> \<and> review_ok r"
proof -
  have item: "validate_finding findings revision i = Ok () \<longleftrightarrow>
      (\<forall>v d. finding_disposition (findings ! i) = FindingResolved v d \<longrightarrow> v = revision)
      \<and> (0 < i \<longrightarrow> finding_bytes (finding_id (findings ! (i - 1))) < finding_bytes (finding_id (findings ! i)))" for i
    unfolding validate_finding_def sequence_Ok by (auto split: finding_disposition.splits)
  have "validate_findings findings revision = Ok () \<longleftrightarrow>
      ascending (\<lambda>f. finding_bytes (finding_id f)) findings
      \<and> (\<forall>f\<in>set findings. \<forall>v d. finding_disposition f = FindingResolved v d \<longrightarrow> v = revision)"
    unfolding validate_findings_def for_range_Ok item ascending_nth all_set_conv_all_nth by blast
  moreover have "validate_review_categories categories = Ok () \<longleftrightarrow> categories \<noteq> []
      \<and> ascending (\<lambda>c. digest_bytes (review_category_digest c)) categories"
    using ascending_loop[of "\<lambda>c. digest_bytes (review_category_digest c)" categories]
    by (simp add: validate_review_categories_def)
  ultimately show ?thesis
    by (auto simp: review_observation_new_def sequence_Ok review_ok_def split: sum.splits)
qed

lemma validate_reviews_Ok:
  "validate_reviews rs = Ok () \<longleftrightarrow>
     ascending (\<lambda>r. as_bytes (review_cycle_id_raw (review_cycle_id r))) rs
   \<and> ascending (\<lambda>r. review_cycle_get (review_cycle_ordinal r)) rs
   \<and> sorted_wrt (\<lambda>r s. finding_id ` set (review_findings r) \<inter> finding_id ` set (review_findings s) = {}) rs"
proof -
  have order: "validate_review_order rs i = Ok () \<longleftrightarrow> (0 < i \<longrightarrow>
      as_bytes (review_cycle_id_raw (review_cycle_id (rs ! (i - 1)))) < as_bytes (review_cycle_id_raw (review_cycle_id (rs ! i)))
      \<and> review_cycle_get (review_cycle_ordinal (rs ! (i - 1))) < review_cycle_get (review_cycle_ordinal (rs ! i)))" for i
    unfolding validate_review_order_def sequence_Ok by (auto simp: Let_def sequence_Ok)
  have findings: "for_range (\<lambda>j. if finding_seen_before rs i (finding_id (review_findings (rs ! i) ! j))
         then Err (evidence_error_new DuplicateObservation FindingCollection j) else Ok ())
       (length (review_findings (rs ! i))) = Ok () \<longleftrightarrow>
      (\<forall>r\<in>set (take i rs). finding_id ` set (review_findings r) \<inter> finding_id ` set (review_findings (rs ! i)) = {})" for i
  proof -
    have "(\<forall>j<length (review_findings (rs ! i)). \<not> finding_seen_before rs i (finding_id (review_findings (rs ! i) ! j)))
      \<longleftrightarrow> (\<forall>f\<in>set (review_findings (rs ! i)). \<not> finding_seen_before rs i (finding_id f))"
      by (simp add: all_set_conv_all_nth)
    then show ?thesis
      unfolding for_range_guard finding_seen_before_iff images_disjoint .
  qed
  have split: "(\<forall>i<n. (0 < i \<longrightarrow> A i \<and> B i) \<and> C i) \<longleftrightarrow>
      (\<forall>i. 0 < i \<and> i < n \<longrightarrow> A i) \<and> (\<forall>i. 0 < i \<and> i < n \<longrightarrow> B i) \<and> (\<forall>i<n. C i)"
    for n :: nat and A B C by auto
  show ?thesis
    unfolding validate_reviews_def for_range_Ok[of "validate_review rs"] validate_review_def sequence_Ok
      order findings ascending_nth sorted_wrt_take by (rule split)
qed

lemma validate_approvals_Ok:
  "validate_approvals vs = Ok () \<longleftrightarrow>
     ascending (\<lambda>a. request_bytes (approval_request_id a)) vs \<and> distinct (map approval_subject vs)"
proof -
  have distinct: "distinct (map approval_subject vs) \<longleftrightarrow>
      (\<forall>i<length vs. \<not> subject_seen_before vs i (approval_subject (vs ! i)))"
    unfolding distinct_sorted_wrt sorted_wrt_take subject_seen_before_def
    by (auto simp: list_ex_iff take_map)
  have item: "validate_approval vs i = Ok () \<longleftrightarrow>
      (0 < i \<longrightarrow> request_bytes (approval_request_id (vs ! (i - 1))) < request_bytes (approval_request_id (vs ! i)))
      \<and> \<not> subject_seen_before vs i (approval_subject (vs ! i))" for i
    unfolding validate_approval_def sequence_Ok by auto
  show ?thesis unfolding validate_approvals_def for_range_Ok item distinct ascending_nth by blast
qed

lemma validate_waivers_Ok:
  "validate_waivers vs approvals = Ok () \<longleftrightarrow>
     ascending (\<lambda>w. finding_bytes (waiver_finding_id w)) vs
   \<and> (\<forall>w\<in>set vs. \<forall>a\<in>set approvals. approval_request_id a = waiver_approval_request_id w \<longrightarrow>
        approval_subject a = FindingWaiverSubject (waiver_finding_id w))"
proof -
  have consistent: "waiver_approval_consistent w approvals \<longleftrightarrow> (\<forall>a\<in>set approvals.
      approval_request_id a = waiver_approval_request_id w \<longrightarrow>
      approval_subject a = FindingWaiverSubject (waiver_finding_id w))" for w
    by (auto simp: waiver_approval_consistent_def list_all_iff compare_slices_keys case_ordering)
  have item: "validate_waiver vs approvals i = Ok () \<longleftrightarrow>
      (0 < i \<longrightarrow> finding_bytes (waiver_finding_id (vs ! (i - 1))) < finding_bytes (waiver_finding_id (vs ! i)))
      \<and> waiver_approval_consistent (vs ! i) approvals" for i
    unfolding validate_waiver_def sequence_Ok by auto
  show ?thesis
    unfolding validate_waivers_def for_range_Ok item ascending_nth all_set_conv_all_nth[of vs] consistent by blast
qed

lemma acceptance_evidence_new_Ok:
  "acceptance_evidence_new gates reviews observations approvals waivers = Ok e \<longleftrightarrow>
     e = \<lparr>evidence_gates = gates, evidence_reviews = reviews, evidence_observations = observations,
          evidence_approvals = approvals, evidence_waivers = waivers\<rparr> \<and> evidence_ok e"
  using ascending_loop[of "\<lambda>g. as_bytes (gate_id_raw (observed_gate_id g))" gates]
    ascending_loop[of "\<lambda>v. digest_bytes (evidence_requirement_id_digest (observed_requirement_id v))" observations]
  by (auto simp: acceptance_evidence_new_def sequence_Ok evidence_ok_def validate_gate_observations_def
      validate_evidence_observations_def validate_reviews_Ok validate_approvals_Ok validate_waivers_Ok)

end
