(* ===== verification/Quality_Evaluation.thy ===== *)
theory Quality_Evaluation
  imports Quality_Evidence
begin

text \<open>
  \<open>peritus-quality-policy\<close>, files \<open>decision.rs\<close>, \<open>model/reviews.rs\<close>, \<open>evaluator.rs\<close> and its
  submodules: the evaluation of a contract against the evidence of a run. The sources push every
  unmet condition on one vector and keep a flag per phase; a phase here takes the conditions found
  so far and returns them extended, with its flag.
\<close>

section \<open>Decisions\<close>

datatype observation_kind =
    GateObserved | ReviewObserved | EvidenceObserved | ApprovalObserved | WaiverObserved

datatype reviewer_independence_failure =
    DistinctReviewers | ProducerIndependence | DistinctContexts | DistinctModelFamilies
  | DistinctProviders | SharedAncestry

datatype invalid_waiver_reason =
    WaiverForbidden | NotRequested | WrongAuthority | WrongEvidenceRequirement | MissingApproval
  | WaiverApprovalDenied | UnknownFinding | MissingWaiverEvidence | AlreadyResolved

datatype unmet_condition =
    ContractRevisionMismatch
  | StaleObservation observation_kind nat
  | UnknownGate gate_id
  | MissingGate gate_id
  | GateDidNotPass gate_id gate_failure
  | GateAttemptLimitExceeded gate_id u16 u16
  | UnknownEvidence evidence_requirement_id
  | MissingEvidence evidence_requirement_id
  | UnknownReviewCategory review_category
  | MissingReviewCategory review_category
  | ReviewerQuorumUnmet u16 u16
  | ReviewCycleLimitExceeded review_cycle_id u16 u16
  | ReviewerIndependenceUnmet reviewer_independence_failure
  | UnwaivedBlocker finding_id finding_severity
  | InvalidWaiver finding_id invalid_waiver_reason
  | MissingHumanApproval
  | WrongHumanApprovalAuthority
  | HumanApprovalDenied
  | UnexpectedApproval actor_id

datatype check_result = Complete | Incomplete

definition check_from_bool :: "bool \<Rightarrow> check_result" where
  "check_from_bool b = (if b then Complete else Incomplete)"

definition check_is_complete :: "check_result \<Rightarrow> bool" where
  "check_is_complete r = (case r of Complete \<Rightarrow> True | _ \<Rightarrow> False)"

record acceptance_checks =
  contract_bound :: check_result
  observations_fresh :: check_result
  gates_complete :: check_result
  evidence_complete :: check_result
  reviews_complete :: check_result
  blockers_complete :: check_result
  approvals_complete :: check_result

definition checks_are_complete :: "acceptance_checks \<Rightarrow> bool" where
  "checks_are_complete c \<longleftrightarrow>
     check_is_complete (contract_bound c) \<and> check_is_complete (observations_fresh c)
   \<and> check_is_complete (gates_complete c) \<and> check_is_complete (evidence_complete c)
   \<and> check_is_complete (reviews_complete c) \<and> check_is_complete (blockers_complete c)
   \<and> check_is_complete (approvals_complete c)"

record acceptance_decision =
  unmet_conditions :: "unmet_condition list"
  acceptance_checks :: acceptance_checks
  gate_attempt_limit :: u16
  review_cycle_limit :: u16

definition is_acceptable :: "acceptance_decision \<Rightarrow> bool" where
  "is_acceptable d \<longleftrightarrow> unmet_conditions d = [] \<and> checks_are_complete (acceptance_checks d)"

text \<open>\<open>complete = false; unmet.push(condition)\<close>.\<close>

type_synonym tally = "unmet_condition list \<times> bool"

definition report :: "unmet_condition \<Rightarrow> tally \<Rightarrow> tally" where
  "report c t = (fst t @ [c], False)"

section \<open>Freshness\<close>

text \<open>The same loop is written out for each of the five kinds of observation.\<close>

definition all_current :: "('o \<Rightarrow> revision_tuple) \<Rightarrow> 'o list \<Rightarrow> revision_tuple \<Rightarrow> bool" where
  "all_current revision vs requested = list_all (\<lambda>v. revision_matches (revision v) requested) vs"

definition gates_current :: "gate_observation list \<Rightarrow> revision_tuple \<Rightarrow> bool" where
  "gates_current = all_current gate_revision"

definition reviews_current :: "review_observation list \<Rightarrow> revision_tuple \<Rightarrow> bool" where
  "reviews_current = all_current review_revision"

definition evidence_current :: "evidence_observation list \<Rightarrow> revision_tuple \<Rightarrow> bool" where
  "evidence_current = all_current evidence_revision"

definition approvals_current :: "approval_observation list \<Rightarrow> revision_tuple \<Rightarrow> bool" where
  "approvals_current = all_current approval_revision"

definition waivers_current :: "waiver_observation list \<Rightarrow> revision_tuple \<Rightarrow> bool" where
  "waivers_current = all_current waiver_revision"

definition report_stale ::
  "('o \<Rightarrow> revision_tuple) \<Rightarrow> observation_kind \<Rightarrow> revision_tuple \<Rightarrow> 'o list \<Rightarrow> unmet_condition list
     \<Rightarrow> unmet_condition list" where
  "report_stale revision kind requested vs = fold (\<lambda>i unmet.
     if \<not> revision_matches (revision (vs ! i)) requested then unmet @ [StaleObservation kind i] else unmet)
     [0..<length vs]"

definition evaluate_freshness :: "revision_tuple \<Rightarrow> acceptance_evidence \<Rightarrow> unmet_condition list \<Rightarrow> tally" where
  "evaluate_freshness requested e unmet =
    (let unmet = report_stale gate_revision GateObserved requested (evidence_gates e) unmet;
         unmet = report_stale review_revision ReviewObserved requested (evidence_reviews e) unmet;
         unmet = report_stale evidence_revision EvidenceObserved requested (evidence_observations e) unmet;
         unmet = report_stale approval_revision ApprovalObserved requested (evidence_approvals e) unmet;
         unmet = report_stale waiver_revision WaiverObserved requested (evidence_waivers e) unmet in
     (unmet, gates_current (evidence_gates e) requested \<and> reviews_current (evidence_reviews e) requested
        \<and> evidence_current (evidence_observations e) requested
        \<and> approvals_current (evidence_approvals e) requested
        \<and> waivers_current (evidence_waivers e) requested))"

section \<open>Gates\<close>

definition gate_declared :: "acceptance_contract \<Rightarrow> gate_id \<Rightarrow> bool" where
  "gate_declared c target =
     list_ex (\<lambda>d. gate_id_matches (gate_definition_id d) target) (graph_definitions (contract_gates c))"

definition passing_attempts_within_limit :: "gate_observation list \<Rightarrow> revision_tuple \<Rightarrow> u16 \<Rightarrow> bool" where
  "passing_attempts_within_limit vs requested maximum = list_all (\<lambda>v.
     \<not> (revision_matches (gate_revision v) requested \<and> gate_passed v
        \<and> maximum < gate_attempt_get (observed_attempt v))) vs"

definition current_gate :: "acceptance_evidence \<Rightarrow> gate_id \<Rightarrow> revision_tuple \<Rightarrow> gate_outcome option" where
  "current_gate e i requested = map_option gate_outcome
     (find (\<lambda>o'. gate_id_matches (observed_gate_id o') i \<and> revision_matches (gate_revision o') requested)
       (evidence_gates e))"

definition observe_gate ::
  "acceptance_contract \<Rightarrow> revision_tuple \<Rightarrow> u16 \<Rightarrow> gate_observation \<Rightarrow> tally \<Rightarrow> tally" where
  "observe_gate c requested maximum g t =
    (let t = (if revision_matches (gate_revision g) requested \<and> \<not> gate_declared c (observed_gate_id g)
              then report (UnknownGate (observed_gate_id g)) t else t) in
     if revision_matches (gate_revision g) requested \<and> gate_passed g
        \<and> maximum < gate_attempt_get (observed_attempt g)
     then report (GateAttemptLimitExceeded (observed_gate_id g) (gate_attempt_get (observed_attempt g)) maximum) t
     else t)"

definition require_gate :: "acceptance_evidence \<Rightarrow> revision_tuple \<Rightarrow> gate_definition \<Rightarrow> tally \<Rightarrow> tally" where
  "require_gate e requested d t =
    (case current_gate e (gate_definition_id d) requested of
       None \<Rightarrow> report (MissingGate (gate_definition_id d)) t
     | Some GatePassed \<Rightarrow> t
     | Some (GateFailed failure) \<Rightarrow> report (GateDidNotPass (gate_definition_id d) failure) t)"

definition evaluate_gates ::
  "acceptance_contract \<Rightarrow> revision_tuple \<Rightarrow> acceptance_evidence \<Rightarrow> u16 \<Rightarrow> unmet_condition list \<Rightarrow> tally" where
  "evaluate_gates c requested e maximum unmet =
    (let t = fold (observe_gate c requested maximum) (evidence_gates e) (unmet, True);
         t = fold (require_gate e requested) (graph_definitions (contract_gates c)) t in
     (fst t, snd t \<and> passing_attempts_within_limit (evidence_gates e) requested maximum))"

section \<open>Evidence requirements\<close>

definition requirement_declared :: "acceptance_contract \<Rightarrow> evidence_requirement_id \<Rightarrow> bool" where
  "requirement_declared c target = list_ex (\<lambda>v.
     evidence_requirement_matches (evidence_requirement_id v) target) (contract_evidence_requirements c)"

definition requirement_current ::
  "acceptance_evidence \<Rightarrow> evidence_requirement_id \<Rightarrow> revision_tuple \<Rightarrow> bool" where
  "requirement_current e target requested = list_ex (\<lambda>v.
     evidence_requirement_matches (observed_requirement_id v) target
     \<and> revision_matches (evidence_revision v) requested) (evidence_observations e)"

definition evaluate_requirements ::
  "acceptance_contract \<Rightarrow> revision_tuple \<Rightarrow> acceptance_evidence \<Rightarrow> unmet_condition list \<Rightarrow> tally" where
  "evaluate_requirements c requested e unmet =
    (let t = fold (\<lambda>v t.
           if revision_matches (evidence_revision v) requested
              \<and> \<not> requirement_declared c (observed_requirement_id v)
           then report (UnknownEvidence (observed_requirement_id v)) t else t)
         (evidence_observations e) (unmet, True) in
     fold (\<lambda>v t.
         if \<not> requirement_current e (evidence_requirement_id v) requested
         then report (MissingEvidence (evidence_requirement_id v)) t else t)
       (contract_evidence_requirements c) t)"

section \<open>Reviews\<close>

definition cycles_within_limit :: "review_observation list \<Rightarrow> revision_tuple \<Rightarrow> u16 \<Rightarrow> bool" where
  "cycles_within_limit vs requested maximum = list_all (\<lambda>v.
     \<not> (revision_matches (review_revision v) requested
        \<and> maximum < review_cycle_get (review_cycle_ordinal v))) vs"

datatype independence_dimension =
    ContextIndependence | ModelFamilyIndependence | ProviderIndependence | AncestryIndependence

fun independence_fact :: "reviewer_identity \<Rightarrow> independence_dimension \<Rightarrow> sha256_digest" where
  "independence_fact r ContextIndependence = reviewer_context r"
| "independence_fact r ModelFamilyIndependence = reviewer_model_family r"
| "independence_fact r ProviderIndependence = reviewer_provider r"
| "independence_fact r AncestryIndependence = reviewer_ancestry r"

definition duplicate_pair ::
  "(review_observation \<Rightarrow> review_observation \<Rightarrow> bool) \<Rightarrow> review_observation list \<Rightarrow> revision_tuple \<Rightarrow> bool" where
  "duplicate_pair same vs requested = list_ex (\<lambda>right.
     revision_matches (review_revision (vs ! right)) requested \<and> list_ex (\<lambda>left.
       revision_matches (review_revision (vs ! left)) requested \<and> same (vs ! left) (vs ! right)) [0..<right])
     [0..<length vs]"

definition has_duplicate_fact :: "acceptance_evidence \<Rightarrow> revision_tuple \<Rightarrow> independence_dimension \<Rightarrow> bool" where
  "has_duplicate_fact e requested dimension = duplicate_pair (\<lambda>l r.
     digest_matches (independence_fact (review_reviewer l) dimension)
       (independence_fact (review_reviewer r) dimension)) (evidence_reviews e) requested"

definition has_duplicate_actor :: "acceptance_evidence \<Rightarrow> revision_tuple \<Rightarrow> bool" where
  "has_duplicate_actor e requested = duplicate_pair (\<lambda>l r.
     reviewer_actor_matches (reviewer_actor_id (review_reviewer l)) (reviewer_actor_id (review_reviewer r)))
     (evidence_reviews e) requested"

definition category_present :: "review_category list \<Rightarrow> review_category \<Rightarrow> bool" where
  "category_present vs target = list_ex (\<lambda>v. review_category_matches v target) vs"

definition category_covered :: "acceptance_evidence \<Rightarrow> review_category \<Rightarrow> revision_tuple \<Rightarrow> bool" where
  "category_covered e target requested = list_ex (\<lambda>v.
     revision_matches (review_revision v) requested \<and> category_present (review_categories v) target)
     (evidence_reviews e)"

definition U16_MAX :: u16 where "U16_MAX = 0xFFFF"

definition current_count :: "acceptance_evidence \<Rightarrow> revision_tuple \<Rightarrow> u16" where
  "current_count e requested = fold (\<lambda>v count.
     if revision_matches (review_revision v) requested \<and> count < U16_MAX then count + 1 else count)
     (evidence_reviews e) 0"

definition observed_categories_declared ::
  "acceptance_contract \<Rightarrow> review_category list \<Rightarrow> unmet_condition list \<Rightarrow> tally" where
  "observed_categories_declared c vs unmet = fold (\<lambda>v t.
     if \<not> category_present (required_categories (contract_review_policy c)) v
     then report (UnknownReviewCategory v) t else t) vs (unmet, True)"

definition observe_review ::
  "acceptance_contract \<Rightarrow> revision_tuple \<Rightarrow> u16 \<Rightarrow> review_observation \<Rightarrow> tally \<Rightarrow> tally" where
  "observe_review c requested maximum v t =
    (if revision_matches (review_revision v) requested then
       (let t = (if maximum < review_cycle_get (review_cycle_ordinal v)
                 then report (ReviewCycleLimitExceeded (review_cycle_id v)
                   (review_cycle_get (review_cycle_ordinal v)) maximum) t
                 else t);
            categories = observed_categories_declared c (review_categories v) (fst t) in
        (fst categories, snd t \<and> snd categories))
     else t)"

definition report_if :: "bool \<Rightarrow> unmet_condition \<Rightarrow> tally \<Rightarrow> tally" where
  "report_if b c t = (if b then report c t else t)"

definition evaluate_reviews ::
  "acceptance_contract \<Rightarrow> revision_tuple \<Rightarrow> acceptance_evidence \<Rightarrow> u16 \<Rightarrow> unmet_condition list \<Rightarrow> tally" where
  "evaluate_reviews c requested e maximum unmet =
    (let t = fold (observe_review c requested maximum) (evidence_reviews e) (unmet, True);
         observed = current_count e requested;
         required = reviewer_quorum (contract_review_policy c);
         t = report_if (observed < required) (ReviewerQuorumUnmet required observed) t;
         t = fold (\<lambda>v. report_if (\<not> category_covered e v requested) (MissingReviewCategory v))
               (required_categories (contract_review_policy c)) t;
         independence = reviewer_independence (contract_review_policy c);
         t = report_if (distinct_reviewers independence \<and> has_duplicate_actor e requested)
               (ReviewerIndependenceUnmet DistinctReviewers) t;
         t = report_if (independent_from_producer independence \<and> list_ex (\<lambda>v.
                 revision_matches (review_revision v) requested \<and> \<not> reviewer_independent (review_reviewer v))
                 (evidence_reviews e))
               (ReviewerIndependenceUnmet ProducerIndependence) t;
         t = report_if (distinct_contexts independence \<and> has_duplicate_fact e requested ContextIndependence)
               (ReviewerIndependenceUnmet DistinctContexts) t;
         t = report_if (distinct_model_families independence
                 \<and> has_duplicate_fact e requested ModelFamilyIndependence)
               (ReviewerIndependenceUnmet DistinctModelFamilies) t;
         t = report_if (distinct_providers independence \<and> has_duplicate_fact e requested ProviderIndependence)
               (ReviewerIndependenceUnmet DistinctProviders) t;
         t = report_if (no_shared_ancestry independence \<and> has_duplicate_fact e requested AncestryIndependence)
               (ReviewerIndependenceUnmet SharedAncestry) t in
     (fst t, snd t \<and> cycles_within_limit (evidence_reviews e) requested maximum))"

section \<open>Lookups of findings, approvals and waivers\<close>

definition finding_equal :: "finding_id \<Rightarrow> finding_id \<Rightarrow> bool" where
  "finding_equal a b = (case compare_slices (finding_bytes a) (finding_bytes b) of Equal \<Rightarrow> True | _ \<Rightarrow> False)"

definition request_equal :: "approval_request_id \<Rightarrow> approval_request_id \<Rightarrow> bool" where
  "request_equal a b = (case compare_slices (request_bytes a) (request_bytes b) of Equal \<Rightarrow> True | _ \<Rightarrow> False)"

definition subject_equal :: "approval_subject \<Rightarrow> approval_subject \<Rightarrow> bool" where
  "subject_equal a b = (case (a, b) of
     (AcceptanceSubject, AcceptanceSubject) \<Rightarrow> True
   | (FindingWaiverSubject f, FindingWaiverSubject g) \<Rightarrow> finding_equal f g
   | _ \<Rightarrow> False)"

definition current_waiver :: "acceptance_evidence \<Rightarrow> finding_id \<Rightarrow> revision_tuple \<Rightarrow> nat option" where
  "current_waiver e finding requested = find_index (\<lambda>w.
     finding_equal (waiver_finding_id w) finding \<and> revision_matches (waiver_revision w) requested)
     (evidence_waivers e)"

definition current_approval :: "acceptance_evidence \<Rightarrow> approval_request_id \<Rightarrow> revision_tuple \<Rightarrow> nat option" where
  "current_approval e request requested = find_index (\<lambda>a.
     request_equal (approval_request_id a) request \<and> revision_matches (approval_revision a) requested)
     (evidence_approvals e)"

fun find_finding :: "review_observation list \<Rightarrow> finding_id \<Rightarrow> revision_tuple \<Rightarrow> nat \<Rightarrow> (nat \<times> nat) option" where
  "find_finding [] finding requested k = None"
| "find_finding (r # rs) finding requested k =
    (if revision_matches (review_revision r) requested then
       (case find_index (\<lambda>f. finding_equal (finding_id f) finding) (review_findings r) of
          Some i \<Rightarrow> Some (k, i)
        | None \<Rightarrow> find_finding rs finding requested (Suc k))
     else find_finding rs finding requested (Suc k))"

definition current_finding :: "acceptance_evidence \<Rightarrow> finding_id \<Rightarrow> revision_tuple \<Rightarrow> (nat \<times> nat) option" where
  "current_finding e finding requested = find_finding (evidence_reviews e) finding requested 0"

section \<open>Waivers and blockers\<close>

definition waiver_failure ::
  "acceptance_contract \<Rightarrow> revision_tuple \<Rightarrow> acceptance_evidence \<Rightarrow> finding_observation \<Rightarrow> waiver_observation
     \<Rightarrow> invalid_waiver_reason option" where
  "waiver_failure c requested e finding w =
    (case finding_disposition finding of
       FindingResolved _ _ \<Rightarrow> Some AlreadyResolved
     | FindingOpen \<Rightarrow> Some NotRequested
     | WaiverRequested \<Rightarrow>
       (case contract_waiver_policy c of
          Forbidden \<Rightarrow> Some WaiverForbidden
        | Allowed authority requirement \<Rightarrow>
           if \<not> digest_matches (content_digest (observed_waiver_authority w)) (content_digest authority)
           then Some WrongAuthority
           else if \<not> evidence_requirement_matches (waiver_requirement_id w) requirement
           then Some WrongEvidenceRequirement
           else if \<not> requirement_current e requirement requested then Some MissingWaiverEvidence
           else case current_approval e (waiver_approval_request_id w) requested of
             None \<Rightarrow> Some MissingApproval
           | Some i \<Rightarrow>
              (let approval = evidence_approvals e ! i in
               if \<not> subject_equal (approval_subject approval) (FindingWaiverSubject (finding_id finding))
                  \<or> \<not> digest_matches (content_digest (observed_authority approval)) (content_digest authority)
               then Some MissingApproval
               else case approval_outcome approval of
                 Approved \<Rightarrow> None
               | ApprovalDenied \<Rightarrow> Some WaiverApprovalDenied)))"

definition current_waiver_is_valid ::
  "acceptance_contract \<Rightarrow> revision_tuple \<Rightarrow> acceptance_evidence \<Rightarrow> finding_observation \<Rightarrow> bool" where
  "current_waiver_is_valid c requested e finding =
    (case current_waiver e (finding_id finding) requested of
       Some i \<Rightarrow> waiver_failure c requested e finding (evidence_waivers e ! i) = None
     | None \<Rightarrow> False)"

definition supplied_failure ::
  "acceptance_contract \<Rightarrow> revision_tuple \<Rightarrow> acceptance_evidence \<Rightarrow> waiver_observation
     \<Rightarrow> invalid_waiver_reason option" where
  "supplied_failure c requested e w =
    (case current_finding e (waiver_finding_id w) requested of
       None \<Rightarrow> Some UnknownFinding
     | Some (r, i) \<Rightarrow> waiver_failure c requested e (review_findings (evidence_reviews e ! r) ! i) w)"

definition evaluate_supplied ::
  "acceptance_contract \<Rightarrow> revision_tuple \<Rightarrow> acceptance_evidence \<Rightarrow> unmet_condition list \<Rightarrow> tally" where
  "evaluate_supplied c requested e unmet = fold (\<lambda>w t.
     if revision_matches (waiver_revision w) requested then
       (case supplied_failure c requested e w of
          Some reason \<Rightarrow> report (InvalidWaiver (waiver_finding_id w) reason) t
        | None \<Rightarrow> t)
     else t) (evidence_waivers e) (unmet, True)"

fun severity_rank :: "finding_severity \<Rightarrow> u8" where
  "severity_rank Advisory = 0"
| "severity_rank Low = 1"
| "severity_rank Medium = 2"
| "severity_rank High = 3"
| "severity_rank Critical = 4"

definition check_blocker ::
  "acceptance_contract \<Rightarrow> revision_tuple \<Rightarrow> acceptance_evidence \<Rightarrow> finding_observation \<Rightarrow> tally \<Rightarrow> tally" where
  "check_blocker c requested e f t =
    (if severity_rank (blocking_severity (contract_review_policy c)) \<le> severity_rank (finding_severity f) then
       (case finding_disposition f of
          FindingResolved _ _ \<Rightarrow> t
        | _ \<Rightarrow> report_if (\<not> current_waiver_is_valid c requested e f)
                (UnwaivedBlocker (finding_id f) (finding_severity f)) t)
     else t)"

definition evaluate_blockers ::
  "acceptance_contract \<Rightarrow> revision_tuple \<Rightarrow> acceptance_evidence \<Rightarrow> unmet_condition list \<Rightarrow> tally" where
  "evaluate_blockers c requested e unmet = fold (\<lambda>r t.
     if revision_matches (review_revision r) requested
     then fold (check_blocker c requested e) (review_findings r) t else t)
     (evidence_reviews e) (unmet, True)"

definition evaluate_waivers ::
  "acceptance_contract \<Rightarrow> revision_tuple \<Rightarrow> acceptance_evidence \<Rightarrow> unmet_condition list \<Rightarrow> tally" where
  "evaluate_waivers c requested e unmet =
    (let supplied = evaluate_supplied c requested e unmet;
         blockers = evaluate_blockers c requested e (fst supplied) in
     (fst blockers, snd supplied \<and> snd blockers))"

section \<open>Approvals\<close>

definition current_acceptance_approval :: "acceptance_evidence \<Rightarrow> revision_tuple \<Rightarrow> nat option" where
  "current_acceptance_approval e requested = find_index (\<lambda>a.
     revision_matches (approval_revision a) requested \<and> subject_equal (approval_subject a) AcceptanceSubject)
     (evidence_approvals e)"

definition final_approval_failure ::
  "acceptance_contract \<Rightarrow> revision_tuple \<Rightarrow> acceptance_evidence \<Rightarrow> unmet_condition option" where
  "final_approval_failure c requested e =
    (case contract_approval_policy c of
       NotRequired \<Rightarrow> None
     | Required required \<Rightarrow>
       (case current_acceptance_approval e requested of
          None \<Rightarrow> Some MissingHumanApproval
        | Some i \<Rightarrow>
           (let approval = evidence_approvals e ! i in
            if digest_matches (content_digest (observed_authority approval)) (content_digest required)
            then (case approval_outcome approval of
                    ApprovalDenied \<Rightarrow> Some HumanApprovalDenied
                  | Approved \<Rightarrow> None)
            else Some WrongHumanApprovalAuthority)))"

definition evaluate_final_approval ::
  "acceptance_contract \<Rightarrow> revision_tuple \<Rightarrow> acceptance_evidence \<Rightarrow> unmet_condition list \<Rightarrow> tally" where
  "evaluate_final_approval c requested e unmet =
    (case final_approval_failure c requested e of
       None \<Rightarrow> (unmet, True)
     | Some condition \<Rightarrow> report condition (unmet, True))"

definition waiver_approval_expected ::
  "acceptance_contract \<Rightarrow> revision_tuple \<Rightarrow> acceptance_evidence \<Rightarrow> approval_observation \<Rightarrow> finding_id \<Rightarrow> bool" where
  "waiver_approval_expected c requested e approval finding = fold (\<lambda>w found.
     if revision_matches (waiver_revision w) requested \<and> finding_equal (waiver_finding_id w) finding
        \<and> request_equal (waiver_approval_request_id w) (approval_request_id approval)
        \<and> supplied_failure c requested e w = None
     then True else found) (evidence_waivers e) False"

definition approval_expected ::
  "acceptance_contract \<Rightarrow> revision_tuple \<Rightarrow> acceptance_evidence \<Rightarrow> approval_observation \<Rightarrow> bool" where
  "approval_expected c requested e approval =
    (case approval_subject approval of
       AcceptanceSubject \<Rightarrow> approval_is_required (contract_approval_policy c)
     | FindingWaiverSubject finding \<Rightarrow> waiver_approval_expected c requested e approval finding)"

definition evaluate_unexpected_approvals ::
  "acceptance_contract \<Rightarrow> revision_tuple \<Rightarrow> acceptance_evidence \<Rightarrow> unmet_condition list \<Rightarrow> tally" where
  "evaluate_unexpected_approvals c requested e unmet = fold (\<lambda>a t.
     if revision_matches (approval_revision a) requested \<and> \<not> approval_expected c requested e a
     then report (UnexpectedApproval (approval_actor_id a)) t else t) (evidence_approvals e) (unmet, True)"

section \<open>The evaluation\<close>

definition evaluate_acceptance ::
  "acceptance_contract \<Rightarrow> revision_tuple \<Rightarrow> acceptance_evidence \<Rightarrow> acceptance_decision" where
  "evaluate_acceptance c requested e =
    (let bound = acceptance_id_matches (contract_id c) (acceptance_spec_id requested);
         unmet = (if \<not> bound then [ContractRevisionMismatch] else []);
         fresh = evaluate_freshness requested e unmet;
         maximum_gates = max_gate_attempts (contract_completion_policy c);
         maximum_reviews = max_review_cycles (contract_completion_policy c);
         gates = evaluate_gates c requested e maximum_gates (fst fresh);
         requirements = evaluate_requirements c requested e (fst gates);
         reviews = evaluate_reviews c requested e maximum_reviews (fst requirements);
         blockers = evaluate_waivers c requested e (fst reviews);
         approval = evaluate_final_approval c requested e (fst blockers);
         unexpected = evaluate_unexpected_approvals c requested e (fst approval) in
     \<lparr>unmet_conditions = fst unexpected,
      acceptance_checks =
        \<lparr>contract_bound = check_from_bool bound,
         observations_fresh = check_from_bool (snd fresh),
         gates_complete = check_from_bool (snd gates),
         evidence_complete = check_from_bool (snd requirements),
         reviews_complete = check_from_bool (snd reviews),
         blockers_complete = check_from_bool (snd blockers),
         approvals_complete = check_from_bool (snd approval \<and> snd unexpected)\<rparr>,
      gate_attempt_limit = maximum_gates,
      review_cycle_limit = maximum_reviews\<rparr>)"

end
