(* ===== verification/Quality_Spec.thy ===== *)
theory Quality_Spec
  imports Quality_Evaluation
begin

text \<open>
  What acceptance means. \<open>acceptable\<close> states it over the sets of observations; the evaluation decides
  it. Every phase of the evaluation is \<open>flagged\<close>: it only appends conditions, and its flag says that
  it appended none, so the list of conditions and the flags always agree.
\<close>

section \<open>Phases\<close>

definition tallies :: "(tally \<Rightarrow> tally) \<Rightarrow> bool \<Rightarrow> bool" where
  "tallies g p \<longleftrightarrow> (\<forall>u b. \<exists>cs. g (u, b) = (u @ cs, b \<and> p) \<and> (cs = [] \<longleftrightarrow> p))"

definition flagged :: "(unmet_condition list \<Rightarrow> tally) \<Rightarrow> bool \<Rightarrow> bool" where
  "flagged f p \<longleftrightarrow> (\<forall>u. \<exists>cs. f u = (u @ cs, p) \<and> (cs = [] \<longleftrightarrow> p))"

lemma talliesE:
  assumes "tallies g p"
  obtains cs where "g (u, b) = (u @ cs, b \<and> p)" and "cs = [] \<longleftrightarrow> p"
  using assms unfolding tallies_def by blast

lemma phaseE:
  assumes "flagged f p"
  obtains cs where "f u = (u @ cs, p)" and "cs = [] \<longleftrightarrow> p"
  using assms unfolding flagged_def by blast

lemma tallies_id: "tallies (\<lambda>t. t) True"
  by (simp add: tallies_def)

lemma tallies_report: "tallies (report c) False"
  by (auto simp: tallies_def report_def)

lemma tallies_if: "tallies f p \<Longrightarrow> tallies g q \<Longrightarrow> tallies (\<lambda>t. if b then f t else g t) (if b then p else q)"
  by simp

lemma tallies_report_if: "tallies (report_if b c) (\<not> b)"
  by (auto simp: tallies_def report_if_def report_def)

lemma tallies_comp: "tallies f p \<Longrightarrow> tallies g q \<Longrightarrow> tallies (\<lambda>t. g (f t)) (p \<and> q)"
  unfolding tallies_def[of "\<lambda>t. g (f t)"]
proof (intro allI)
  fix u b
  assume f: "tallies f p" and g: "tallies g q"
  obtain xs where xs: "f (u, b) = (u @ xs, b \<and> p)" "xs = [] \<longleftrightarrow> p" by (rule talliesE[OF f])
  obtain ys where ys: "g (u @ xs, b \<and> p) = ((u @ xs) @ ys, (b \<and> p) \<and> q)" "ys = [] \<longleftrightarrow> q"
    by (rule talliesE[OF g])
  from xs ys have "g (f (u, b)) = (u @ (xs @ ys), b \<and> (p \<and> q))" "xs @ ys = [] \<longleftrightarrow> p \<and> q" by auto
  then show "\<exists>cs. g (f (u, b)) = (u @ cs, b \<and> (p \<and> q)) \<and> (cs = [] \<longleftrightarrow> (p \<and> q))" by blast
qed

lemma tallies_fold: "(\<And>x. tallies (f x) (p x)) \<Longrightarrow> tallies (fold f xs) (\<forall>x\<in>set xs. p x)"
proof (induction xs)
  case (Cons x xs)
  from tallies_comp[OF Cons.prems[of x] Cons.IH[OF Cons.prems]] show ?case by simp
qed (simp add: tallies_def)

lemma tallies_phase: "tallies g p \<Longrightarrow> flagged (\<lambda>u. g (u, True)) p"
  unfolding tallies_def flagged_def by (metis (full_types))

lemma tallies_cong: "tallies g p \<Longrightarrow> p = q \<Longrightarrow> tallies g q"
  by simp

lemma phase_cong: "flagged f p \<Longrightarrow> p = q \<Longrightarrow> flagged f q"
  by simp

lemma phase_snd: "flagged f p \<Longrightarrow> snd (f u) = p"
  by (metis phaseE snd_conv)

lemma phase_fst: "flagged f p \<Longrightarrow> fst (f u) = [] \<longleftrightarrow> u = [] \<and> p"
  by (metis append_is_Nil_conv fst_conv phaseE)

text \<open>A condition that a phase checks once more at its end adds nothing when its flag implies it.\<close>

lemma phase_recheck:
  assumes "tallies g p" and "p \<Longrightarrow> q"
  shows "flagged (\<lambda>u. (fst (g (u, True)), snd (g (u, True)) \<and> q)) p"
  unfolding flagged_def
proof
  fix u
  obtain cs where "g (u, True) = (u @ cs, True \<and> p)" "cs = [] \<longleftrightarrow> p" by (rule talliesE[OF assms(1)])
  with assms(2) show "\<exists>cs. (fst (g (u, True)), snd (g (u, True)) \<and> q) = (u @ cs, p) \<and> (cs = [] \<longleftrightarrow> p)"
    by auto
qed

section \<open>What each phase decides\<close>

lemma report_stale_spec:
  "\<exists>cs. report_stale revision kind requested vs u = u @ cs
     \<and> (cs = [] \<longleftrightarrow> (\<forall>v\<in>set vs. revision v = requested))"
proof -
  have "\<exists>cs. fold (\<lambda>i unmet. if \<not> revision_matches (revision (vs ! i)) requested
          then unmet @ [StaleObservation kind i] else unmet) is u = u @ cs
      \<and> (cs = [] \<longleftrightarrow> (\<forall>i\<in>set is. revision (vs ! i) = requested))" for "is"
    by (induction "is" arbitrary: u) (force split: if_splits)+
  moreover have "(\<forall>i\<in>set [0..<length vs]. revision (vs ! i) = requested) \<longleftrightarrow> (\<forall>v\<in>set vs. revision v = requested)"
    by (auto simp: all_set_conv_all_nth)
  ultimately show ?thesis unfolding report_stale_def by metis
qed

definition current_evidence :: "revision_tuple \<Rightarrow> acceptance_evidence \<Rightarrow> bool" where
  "current_evidence r e \<longleftrightarrow>
     (\<forall>g\<in>set (evidence_gates e). gate_revision g = r) \<and> (\<forall>v\<in>set (evidence_reviews e). review_revision v = r)
   \<and> (\<forall>v\<in>set (evidence_observations e). evidence_revision v = r)
   \<and> (\<forall>a\<in>set (evidence_approvals e). approval_revision a = r)
   \<and> (\<forall>w\<in>set (evidence_waivers e). waiver_revision w = r)"

lemma freshness_phase: "flagged (evaluate_freshness r e) (current_evidence r e)"
  unfolding flagged_def
proof
  fix u
  obtain c1 where 1: "report_stale gate_revision GateObserved r (evidence_gates e) u = u @ c1"
    "c1 = [] \<longleftrightarrow> (\<forall>g\<in>set (evidence_gates e). gate_revision g = r)"
    using report_stale_spec by blast
  obtain c2 where 2: "report_stale review_revision ReviewObserved r (evidence_reviews e) (u @ c1) = (u @ c1) @ c2"
    "c2 = [] \<longleftrightarrow> (\<forall>v\<in>set (evidence_reviews e). review_revision v = r)"
    using report_stale_spec by blast
  obtain c3 where 3: "report_stale evidence_revision EvidenceObserved r (evidence_observations e) ((u @ c1) @ c2)
      = ((u @ c1) @ c2) @ c3" "c3 = [] \<longleftrightarrow> (\<forall>v\<in>set (evidence_observations e). evidence_revision v = r)"
    using report_stale_spec by blast
  obtain c4 where 4: "report_stale approval_revision ApprovalObserved r (evidence_approvals e) (((u @ c1) @ c2) @ c3)
      = (((u @ c1) @ c2) @ c3) @ c4" "c4 = [] \<longleftrightarrow> (\<forall>a\<in>set (evidence_approvals e). approval_revision a = r)"
    using report_stale_spec by blast
  obtain c5 where 5: "report_stale waiver_revision WaiverObserved r (evidence_waivers e) ((((u @ c1) @ c2) @ c3) @ c4)
      = ((((u @ c1) @ c2) @ c3) @ c4) @ c5" "c5 = [] \<longleftrightarrow> (\<forall>w\<in>set (evidence_waivers e). waiver_revision w = r)"
    using report_stale_spec by blast
  have "evaluate_freshness r e u = (u @ c1 @ c2 @ c3 @ c4 @ c5, current_evidence r e)"
    unfolding evaluate_freshness_def Let_def 1(1) 2(1) 3(1) 4(1) 5(1)
    by (simp add: current_evidence_def gates_current_def reviews_current_def evidence_current_def
        approvals_current_def waivers_current_def all_current_def list_all_iff)
  moreover have "c1 @ c2 @ c3 @ c4 @ c5 = [] \<longleftrightarrow> current_evidence r e"
    using 1(2) 2(2) 3(2) 4(2) 5(2) by (simp add: current_evidence_def)
  ultimately show "\<exists>cs. evaluate_freshness r e u = (u @ cs, current_evidence r e) \<and> (cs = [] \<longleftrightarrow> current_evidence r e)"
    by blast
qed

definition gate_observed_ok :: "acceptance_contract \<Rightarrow> revision_tuple \<Rightarrow> gate_observation \<Rightarrow> bool" where
  "gate_observed_ok c r g \<longleftrightarrow> (gate_revision g = r \<longrightarrow>
     observed_gate_id g \<in> gate_ids (graph_definitions (contract_gates c))
     \<and> (gate_passed g \<longrightarrow> gate_attempt_get (observed_attempt g) \<le> max_gate_attempts (contract_completion_policy c)))"

lemma gate_declared_iff [simp]: "gate_declared c i \<longleftrightarrow> i \<in> gate_ids (graph_definitions (contract_gates c))"
  by (auto simp: gate_declared_def list_ex_iff)

lemma observe_gate_tallies:
  "tallies (observe_gate c r (max_gate_attempts (contract_completion_policy c)) g) (gate_observed_ok c r g)"
proof -
  have "observe_gate c r n g = (\<lambda>t. report_if (gate_revision g = r \<and> gate_passed g
        \<and> n < gate_attempt_get (observed_attempt g))
      (GateAttemptLimitExceeded (observed_gate_id g) (gate_attempt_get (observed_attempt g)) n)
      (report_if (gate_revision g = r \<and> observed_gate_id g \<notin> gate_ids (graph_definitions (contract_gates c)))
        (UnknownGate (observed_gate_id g)) t))" for n
    by (simp add: fun_eq_iff observe_gate_def report_if_def Let_def)
  then show ?thesis
    by (simp, intro tallies_cong[OF tallies_comp[OF tallies_report_if tallies_report_if]])
      (auto simp: gate_observed_ok_def not_less)
qed

lemma require_gate_tallies:
  "tallies (require_gate e r d) (current_gate e (gate_definition_id d) r = Some GatePassed)"
  by (auto simp: tallies_def require_gate_def report_def split: option.splits gate_outcome.splits)

lemma gates_phase:
  "flagged (evaluate_gates c r e (max_gate_attempts (contract_completion_policy c)))
     ((\<forall>g\<in>set (evidence_gates e). gate_observed_ok c r g)
      \<and> (\<forall>d\<in>set (graph_definitions (contract_gates c)). current_gate e (gate_definition_id d) r = Some GatePassed))"
  unfolding evaluate_gates_def Let_def
  by (rule phase_recheck[OF tallies_comp[OF tallies_fold[OF observe_gate_tallies] tallies_fold[OF require_gate_tallies]]])
    (auto simp: passing_attempts_within_limit_def list_all_iff gate_observed_ok_def not_less)

lemma requirements_phase:
  "flagged (evaluate_requirements c r e)
     ((\<forall>v\<in>set (evidence_observations e). evidence_revision v = r \<longrightarrow>
         observed_requirement_id v \<in> evidence_requirement_id ` set (contract_evidence_requirements c))
      \<and> (\<forall>v\<in>set (contract_evidence_requirements c). requirement_current e (evidence_requirement_id v) r))"
proof -
  have declared: "requirement_declared c i \<longleftrightarrow> i \<in> evidence_requirement_id ` set (contract_evidence_requirements c)" for i
    by (auto simp: requirement_declared_def list_ex_iff)
  show ?thesis
    unfolding evaluate_requirements_def Let_def report_if_def[symmetric]
    by (rule phase_cong[OF tallies_phase[OF tallies_comp[OF tallies_fold[OF tallies_report_if]
              tallies_fold[OF tallies_report_if]]]])
      (simp add: declared)
qed

definition review_observed_ok :: "acceptance_contract \<Rightarrow> revision_tuple \<Rightarrow> review_observation \<Rightarrow> bool" where
  "review_observed_ok c r v \<longleftrightarrow> (review_revision v = r \<longrightarrow>
     review_cycle_get (review_cycle_ordinal v) \<le> max_review_cycles (contract_completion_policy c)
     \<and> set (review_categories v) \<subseteq> set (required_categories (contract_review_policy c)))"

lemma category_present_iff [simp]: "category_present vs v \<longleftrightarrow> v \<in> set vs"
  by (auto simp: category_present_def list_ex_iff)

lemma observed_categories_phase:
  "flagged (observed_categories_declared c vs) (set vs \<subseteq> set (required_categories (contract_review_policy c)))"
  unfolding observed_categories_declared_def report_if_def[symmetric]
  by (rule phase_cong[OF tallies_phase[OF tallies_fold[OF tallies_report_if]]]) auto

lemma observe_review_tallies:
  "tallies (observe_review c r (max_review_cycles (contract_completion_policy c)) v) (review_observed_ok c r v)"
proof (cases "review_revision v = r")
  case True
  show ?thesis unfolding tallies_def
  proof (intro allI)
    fix u b
    let ?over = "max_review_cycles (contract_completion_policy c) < review_cycle_get (review_cycle_ordinal v)"
    let ?t = "report_if ?over (ReviewCycleLimitExceeded (review_cycle_id v)
        (review_cycle_get (review_cycle_ordinal v)) (max_review_cycles (contract_completion_policy c))) (u, b)"
    obtain xs where xs: "?t = (u @ xs, b \<and> \<not> ?over)" "xs = [] \<longleftrightarrow> \<not> ?over"
      using tallies_report_if unfolding tallies_def by blast
    obtain ys where ys: "observed_categories_declared c (review_categories v) (u @ xs)
        = ((u @ xs) @ ys, set (review_categories v) \<subseteq> set (required_categories (contract_review_policy c)))"
      "ys = [] \<longleftrightarrow> set (review_categories v) \<subseteq> set (required_categories (contract_review_policy c))"
      using observed_categories_phase unfolding flagged_def by metis
    have "observe_review c r (max_review_cycles (contract_completion_policy c)) v (u, b)
        = (u @ (xs @ ys), b \<and> review_observed_ok c r v)"
      using True xs(1) ys(1)
      by (simp add: observe_review_def Let_def report_if_def[symmetric] review_observed_ok_def not_less conj_assoc)
    moreover have "xs @ ys = [] \<longleftrightarrow> review_observed_ok c r v"
      using True xs(2) ys(2) by (simp add: review_observed_ok_def not_less)
    ultimately show "\<exists>cs. observe_review c r (max_review_cycles (contract_completion_policy c)) v (u, b)
        = (u @ cs, b \<and> review_observed_ok c r v) \<and> (cs = [] \<longleftrightarrow> review_observed_ok c r v)" by blast
  qed
next
  case False
  then have "observe_review c r n v = (\<lambda>t. t)" "review_observed_ok c r v" for n
    by (auto simp: fun_eq_iff observe_review_def review_observed_ok_def)
  then show ?thesis using tallies_id by simp
qed

definition independence_ok :: "acceptance_contract \<Rightarrow> revision_tuple \<Rightarrow> acceptance_evidence \<Rightarrow> bool" where
  "independence_ok c r e \<longleftrightarrow> (let i = reviewer_independence (contract_review_policy c) in
     \<not> (distinct_reviewers i \<and> has_duplicate_actor e r)
   \<and> \<not> (independent_from_producer i \<and> list_ex (\<lambda>v. revision_matches (review_revision v) r
           \<and> \<not> reviewer_independent (review_reviewer v)) (evidence_reviews e))
   \<and> \<not> (distinct_contexts i \<and> has_duplicate_fact e r ContextIndependence)
   \<and> \<not> (distinct_model_families i \<and> has_duplicate_fact e r ModelFamilyIndependence)
   \<and> \<not> (distinct_providers i \<and> has_duplicate_fact e r ProviderIndependence)
   \<and> \<not> (no_shared_ancestry i \<and> has_duplicate_fact e r AncestryIndependence))"

lemma reviews_phase:
  "flagged (evaluate_reviews c r e (max_review_cycles (contract_completion_policy c)))
     ((\<forall>v\<in>set (evidence_reviews e). review_observed_ok c r v)
      \<and> reviewer_quorum (contract_review_policy c) \<le> current_count e r
      \<and> (\<forall>v\<in>set (required_categories (contract_review_policy c)). category_covered e v r)
      \<and> independence_ok c r e)"
proof -
  note steps = tallies_comp[OF tallies_comp[OF tallies_comp[OF tallies_comp[OF tallies_comp[OF tallies_comp[OF
    tallies_comp[OF tallies_comp[OF tallies_fold[OF observe_review_tallies] tallies_report_if]
      tallies_fold[OF tallies_report_if]] tallies_report_if] tallies_report_if] tallies_report_if]
      tallies_report_if] tallies_report_if] tallies_report_if]
  show ?thesis
    unfolding evaluate_reviews_def Let_def
    by (rule phase_cong[OF phase_recheck[OF steps]])
      (auto simp: cycles_within_limit_def list_all_iff review_observed_ok_def not_less independence_ok_def Let_def)
qed

lemma supplied_phase:
  "flagged (evaluate_supplied c r e)
     (\<forall>w\<in>set (evidence_waivers e). waiver_revision w = r \<longrightarrow> supplied_failure c r e w = None)"
proof -
  have item: "tallies (\<lambda>t. if revision_matches (waiver_revision w) r then
       (case supplied_failure c r e w of Some reason \<Rightarrow> report (InvalidWaiver (waiver_finding_id w) reason) t
        | None \<Rightarrow> t) else t) (waiver_revision w = r \<longrightarrow> supplied_failure c r e w = None)" for w
    by (auto simp: tallies_def report_def split: option.splits)
  show ?thesis unfolding evaluate_supplied_def by (rule tallies_phase[OF tallies_fold[OF item]])
qed

definition blocks :: "acceptance_contract \<Rightarrow> finding_observation \<Rightarrow> bool" where
  "blocks c f \<longleftrightarrow>
     severity_rank (blocking_severity (contract_review_policy c)) \<le> severity_rank (finding_severity f)
     \<and> (\<forall>v d. finding_disposition f \<noteq> FindingResolved v d)"

lemma blockers_phase:
  "flagged (evaluate_blockers c r e)
     (\<forall>v\<in>set (evidence_reviews e). review_revision v = r \<longrightarrow>
        (\<forall>f\<in>set (review_findings v). blocks c f \<longrightarrow> current_waiver_is_valid c r e f))"
proof -
  have item: "tallies (check_blocker c r e f) (blocks c f \<longrightarrow> current_waiver_is_valid c r e f)" for f
    by (cases "finding_disposition f")
      (auto simp: tallies_def check_blocker_def blocks_def report_if_def report_def)
  have review: "tallies (\<lambda>t. if revision_matches (review_revision v) r
      then fold (check_blocker c r e) (review_findings v) t else t)
      (review_revision v = r \<longrightarrow> (\<forall>f\<in>set (review_findings v). blocks c f \<longrightarrow> current_waiver_is_valid c r e f))" for v
    using tallies_fold[of "check_blocker c r e", OF item] tallies_id
    by (cases "review_revision v = r") simp_all
  show ?thesis unfolding evaluate_blockers_def by (rule tallies_phase[OF tallies_fold[OF review]])
qed

lemma waivers_phase:
  "flagged (evaluate_waivers c r e)
     ((\<forall>w\<in>set (evidence_waivers e). waiver_revision w = r \<longrightarrow> supplied_failure c r e w = None)
      \<and> (\<forall>v\<in>set (evidence_reviews e). review_revision v = r \<longrightarrow>
        (\<forall>f\<in>set (review_findings v). blocks c f \<longrightarrow> current_waiver_is_valid c r e f)))"
proof -
  have two: "flagged (\<lambda>u. (fst (g (fst (f u))), snd (f u) \<and> snd (g (fst (f u))))) (p \<and> q)"
    if first: "flagged f p" and second: "flagged g q" for f g p q
    unfolding flagged_def
  proof
    fix u
    obtain xs where xs: "f u = (u @ xs, p)" "xs = [] \<longleftrightarrow> p" by (rule phaseE[OF first])
    obtain ys where ys: "g (u @ xs) = ((u @ xs) @ ys, q)" "ys = [] \<longleftrightarrow> q" by (rule phaseE[OF second])
    from xs ys show "\<exists>cs. (fst (g (fst (f u))), snd (f u) \<and> snd (g (fst (f u)))) = (u @ cs, p \<and> q)
        \<and> (cs = [] \<longleftrightarrow> p \<and> q)" by (intro exI[of _ "xs @ ys"]) simp
  qed
  show ?thesis
    unfolding evaluate_waivers_def Let_def by (rule two[OF supplied_phase blockers_phase])
qed

lemma final_approval_phase:
  "flagged (evaluate_final_approval c r e) (final_approval_failure c r e = None)"
  by (auto simp: flagged_def evaluate_final_approval_def report_def split: option.splits)

lemma unexpected_phase:
  "flagged (evaluate_unexpected_approvals c r e)
     (\<forall>a\<in>set (evidence_approvals e). approval_revision a = r \<longrightarrow> approval_expected c r e a)"
  unfolding evaluate_unexpected_approvals_def report_if_def[symmetric]
  by (rule phase_cong[OF tallies_phase[OF tallies_fold[OF tallies_report_if]]]) auto

lemmas phases = freshness_phase gates_phase requirements_phase reviews_phase waivers_phase
  final_approval_phase unexpected_phase

lemmas phase_results = phases[THEN phase_fst] phases[THEN phase_snd]

lemma check_complete_from_bool [simp]: "check_is_complete (check_from_bool b) \<longleftrightarrow> b"
  by (simp add: check_is_complete_def check_from_bool_def)

lemma unmet_iff_incomplete:
  "unmet_conditions (evaluate_acceptance c r e) = [] \<longleftrightarrow> checks_are_complete (acceptance_checks (evaluate_acceptance c r e))"
  unfolding evaluate_acceptance_def Let_def checks_are_complete_def
  by (simp add: phase_results)

lemma is_acceptable_phases:
  "is_acceptable (evaluate_acceptance c r e) \<longleftrightarrow>
     contract_id c = acceptance_spec_id r \<and> current_evidence r e
   \<and> ((\<forall>g\<in>set (evidence_gates e). gate_observed_ok c r g)
      \<and> (\<forall>d\<in>set (graph_definitions (contract_gates c)). current_gate e (gate_definition_id d) r = Some GatePassed))
   \<and> ((\<forall>v\<in>set (evidence_observations e). evidence_revision v = r \<longrightarrow>
         observed_requirement_id v \<in> evidence_requirement_id ` set (contract_evidence_requirements c))
      \<and> (\<forall>v\<in>set (contract_evidence_requirements c). requirement_current e (evidence_requirement_id v) r))
   \<and> ((\<forall>v\<in>set (evidence_reviews e). review_observed_ok c r v)
      \<and> reviewer_quorum (contract_review_policy c) \<le> current_count e r
      \<and> (\<forall>v\<in>set (required_categories (contract_review_policy c)). category_covered e v r)
      \<and> independence_ok c r e)
   \<and> ((\<forall>w\<in>set (evidence_waivers e). waiver_revision w = r \<longrightarrow> supplied_failure c r e w = None)
      \<and> (\<forall>v\<in>set (evidence_reviews e). review_revision v = r \<longrightarrow>
        (\<forall>f\<in>set (review_findings v). blocks c f \<longrightarrow> current_waiver_is_valid c r e f)))
   \<and> final_approval_failure c r e = None
   \<and> (\<forall>a\<in>set (evidence_approvals e). approval_revision a = r \<longrightarrow> approval_expected c r e a)"
  unfolding is_acceptable_def unmet_iff_incomplete
  unfolding evaluate_acceptance_def Let_def checks_are_complete_def
  by (simp add: phase_results)

section \<open>Acceptance\<close>

definition waives ::
  "acceptance_contract \<Rightarrow> acceptance_evidence \<Rightarrow> finding_observation \<Rightarrow> waiver_observation \<Rightarrow> bool" where
  "waives c e f w \<longleftrightarrow> finding_disposition f = WaiverRequested
   \<and> contract_waiver_policy c = Allowed (observed_waiver_authority w) (waiver_requirement_id w)
   \<and> waiver_requirement_id w \<in> observed_requirement_id ` set (evidence_observations e)
   \<and> (\<exists>a\<in>set (evidence_approvals e). approval_request_id a = waiver_approval_request_id w
        \<and> approval_subject a = FindingWaiverSubject (finding_id f)
        \<and> observed_authority a = observed_waiver_authority w \<and> approval_outcome a = Approved)"

definition reviewers_independent :: "reviewer_independence \<Rightarrow> reviewer_identity list \<Rightarrow> bool" where
  "reviewers_independent i rs \<longleftrightarrow>
     (distinct_reviewers i \<longrightarrow> distinct (map reviewer_actor_id rs))
   \<and> (independent_from_producer i \<longrightarrow> (\<forall>r\<in>set rs. reviewer_independent r))
   \<and> (distinct_contexts i \<longrightarrow> distinct (map reviewer_context rs))
   \<and> (distinct_model_families i \<longrightarrow> distinct (map reviewer_model_family rs))
   \<and> (distinct_providers i \<longrightarrow> distinct (map reviewer_provider rs))
   \<and> (no_shared_ancestry i \<longrightarrow> distinct (map reviewer_ancestry rs))"

definition all_findings :: "acceptance_evidence \<Rightarrow> finding_observation set" where
  "all_findings e = (\<Union>v\<in>set (evidence_reviews e). set (review_findings v))"

definition acceptable :: "acceptance_contract \<Rightarrow> revision_tuple \<Rightarrow> acceptance_evidence \<Rightarrow> bool" where
  "acceptable c r e \<longleftrightarrow>
     contract_id c = acceptance_spec_id r \<and> current_evidence r e
   \<and> observed_gate_id ` set (evidence_gates e) = gate_ids (graph_definitions (contract_gates c))
   \<and> (\<forall>g\<in>set (evidence_gates e). gate_passed g
        \<and> gate_attempt_get (observed_attempt g) \<le> max_gate_attempts (contract_completion_policy c))
   \<and> observed_requirement_id ` set (evidence_observations e)
        = evidence_requirement_id ` set (contract_evidence_requirements c)
   \<and> (\<Union>v\<in>set (evidence_reviews e). set (review_categories v))
        = set (required_categories (contract_review_policy c))
   \<and> (\<forall>v\<in>set (evidence_reviews e).
        review_cycle_get (review_cycle_ordinal v) \<le> max_review_cycles (contract_completion_policy c))
   \<and> unat (reviewer_quorum (contract_review_policy c)) \<le> length (evidence_reviews e)
   \<and> reviewers_independent (reviewer_independence (contract_review_policy c))
        (map review_reviewer (evidence_reviews e))
   \<and> (\<forall>w\<in>set (evidence_waivers e). \<exists>f\<in>all_findings e. finding_id f = waiver_finding_id w \<and> waives c e f w)
   \<and> (\<forall>f\<in>all_findings e. blocks c f \<longrightarrow>
        (\<exists>w\<in>set (evidence_waivers e). waiver_finding_id w = finding_id f \<and> waives c e f w))
   \<and> (\<forall>authority. contract_approval_policy c = Required authority \<longrightarrow>
        (\<exists>a\<in>set (evidence_approvals e). approval_subject a = AcceptanceSubject
          \<and> observed_authority a = authority \<and> approval_outcome a = Approved))
   \<and> (\<forall>a\<in>set (evidence_approvals e). case approval_subject a of
        AcceptanceSubject \<Rightarrow> approval_is_required (contract_approval_policy c)
      | FindingWaiverSubject f \<Rightarrow> \<exists>w\<in>set (evidence_waivers e).
          waiver_finding_id w = f \<and> waiver_approval_request_id w = approval_request_id a)"

lemma content_digest_inject [simp]: "content_digest a = content_digest b \<longleftrightarrow> a = b"
  by (cases a; cases b) simp

lemma equal_tests [simp]:
  "finding_equal f g \<longleftrightarrow> f = g" "request_equal q q' \<longleftrightarrow> q = q'" "subject_equal s t \<longleftrightarrow> s = t"
  by (auto simp: finding_equal_def request_equal_def subject_equal_def compare_slices_keys case_ordering
      split: approval_subject.splits)

text \<open>A search for the first element with a key finds the only one, when keys are distinct.\<close>

lemma find_unique:
  assumes "inj_on key (set xs)" and "\<forall>x\<in>set xs. p x"
  shows "find (\<lambda>x. key x = k \<and> p x) xs = Some y \<longleftrightarrow> y \<in> set xs \<and> key y = k"
  using assms
proof (induction xs)
  case (Cons x xs)
  then show ?case by (auto simp: inj_on_def)
qed simp

lemma find_index_unique:
  assumes "inj_on key (set xs)" and "\<forall>x\<in>set xs. p x"
  shows "(\<exists>i. find_index (\<lambda>x. key x = k \<and> p x) xs = Some i \<and> q (xs ! i)) \<longleftrightarrow> (\<exists>x\<in>set xs. key x = k \<and> q x)"
proof
  assume "\<exists>i. find_index (\<lambda>x. key x = k \<and> p x) xs = Some i \<and> q (xs ! i)"
  then show "\<exists>x\<in>set xs. key x = k \<and> q x" by (auto simp: find_index_Some)
next
  assume "\<exists>x\<in>set xs. key x = k \<and> q x"
  then obtain x where x: "x \<in> set xs" "key x = k" "q x" by blast
  then obtain i where i: "find_index (\<lambda>x. key x = k \<and> p x) xs = Some i"
    using assms(2) find_index_None[of "\<lambda>x. key x = k \<and> p x" xs]
    by (cases "find_index (\<lambda>x. key x = k \<and> p x) xs") auto
  then have "xs ! i \<in> set xs" "key (xs ! i) = k" by (auto simp: find_index_Some)
  with x assms(1) have "xs ! i = x" by (metis inj_onD)
  with i x show "\<exists>i. find_index (\<lambda>x. key x = k \<and> p x) xs = Some i \<and> q (xs ! i)" by auto
qed

lemma duplicate_pair_iff:
  assumes "\<forall>v\<in>set vs. review_revision v = r" and "\<And>x y. same x y \<longleftrightarrow> trait (review_reviewer x) = trait (review_reviewer y)"
  shows "duplicate_pair same vs r \<longleftrightarrow> \<not> distinct (map trait (map review_reviewer vs))"
proof -
  have "duplicate_pair same vs r \<longleftrightarrow> (\<exists>j<length vs. \<exists>i<j. trait (review_reviewer (vs ! i)) = trait (review_reviewer (vs ! j)))"
  proof
    assume "duplicate_pair same vs r"
    then show "\<exists>j<length vs. \<exists>i<j. trait (review_reviewer (vs ! i)) = trait (review_reviewer (vs ! j))"
      by (simp add: duplicate_pair_def list_ex_iff assms(2) Bex_def) blast
  next
    assume "\<exists>j<length vs. \<exists>i<j. trait (review_reviewer (vs ! i)) = trait (review_reviewer (vs ! j))"
    then obtain i j where ij: "j < length vs" "i < j" "same (vs ! i) (vs ! j)" by (auto simp: assms(2))
    with assms(1) have "review_revision (vs ! j) = r" "review_revision (vs ! i) = r" by simp_all
    with ij show "duplicate_pair same vs r"
      unfolding duplicate_pair_def list_ex_iff
      by (intro bexI[of _ j] conjI bexI[of _ i]) simp_all
  qed
  moreover have "distinct (map trait (map review_reviewer vs)) \<longleftrightarrow>
      (\<forall>i j. i < j \<and> j < length vs \<longrightarrow> trait (review_reviewer (vs ! j)) \<noteq> trait (review_reviewer (vs ! i)))"
    unfolding distinct_nth_less by (intro all_cong1 imp_cong) simp_all
  ultimately show ?thesis by metis
qed

lemma current_count_iff:
  assumes "\<forall>v\<in>set (evidence_reviews e). review_revision v = r"
  shows "q \<le> current_count e r \<longleftrightarrow> unat q \<le> length (evidence_reviews e)"
proof -
  have count: "unat (fold (\<lambda>v count. if revision_matches (review_revision v) r \<and> count < U16_MAX then count + 1 else count)
      vs n) = min (2 ^ 16 - 1) (unat n + length vs)" if "\<forall>v\<in>set vs. review_revision v = r" for vs and n :: u16
    using that
  proof (induction vs arbitrary: n)
    case Nil
    have "unat n < 2 ^ 16" using unsigned_less[of n] by simp
    then show ?case by simp
  next
    case (Cons v vs)
    show ?case
    proof (cases "n < U16_MAX")
      case True
      then have "unat n < 2 ^ 16 - 1" by (simp add: U16_MAX_def word_less_nat_alt)
      then have "unat (n + 1) = unat n + 1" by (simp add: unat_word_ariths)
      with True Cons show ?thesis by simp
    next
      case False
      then have "2 ^ 16 - 1 \<le> unat n" by (simp add: U16_MAX_def word_less_nat_alt)
      with False Cons show ?thesis by simp
    qed
  qed
  have "unat q < 2 ^ 16" using unsigned_less[of q] by simp
  then show ?thesis
    using count[OF assms, of 0] by (auto simp: current_count_def word_le_nat_alt)
qed

lemma current_gate_passed:
  assumes "evidence_ok e" and "\<forall>g\<in>set (evidence_gates e). gate_revision g = r"
  shows "current_gate e i r = Some GatePassed \<longleftrightarrow> (\<exists>g\<in>set (evidence_gates e). observed_gate_id g = i \<and> gate_passed g)"
proof -
  have "inj_on (\<lambda>g. as_bytes (gate_id_raw (observed_gate_id g))) (set (evidence_gates e))"
    using assms(1) by (auto simp: evidence_ok_def intro: ascending_inj_on)
  then have "inj_on observed_gate_id (set (evidence_gates e))" by (auto simp: inj_on_def)
  from find_unique[OF this, of "\<lambda>g. gate_revision g = r" i] assms(2)
  have find: "find (\<lambda>g. observed_gate_id g = i \<and> gate_revision g = r) (evidence_gates e) = Some g
      \<longleftrightarrow> g \<in> set (evidence_gates e) \<and> observed_gate_id g = i" for g by simp
  have "gate_passed g \<longleftrightarrow> gate_outcome g = GatePassed" for g
    by (simp add: gate_passed_def split: gate_outcome.splits)
  then show ?thesis by (auto simp: current_gate_def find)
qed

lemma gates_acceptable:
  assumes "evidence_ok e" and "\<forall>g\<in>set (evidence_gates e). gate_revision g = r"
  shows "(\<forall>g\<in>set (evidence_gates e). gate_observed_ok c r g)
      \<and> (\<forall>d\<in>set (graph_definitions (contract_gates c)). current_gate e (gate_definition_id d) r = Some GatePassed)
    \<longleftrightarrow> observed_gate_id ` set (evidence_gates e) = gate_ids (graph_definitions (contract_gates c))
      \<and> (\<forall>g\<in>set (evidence_gates e). gate_passed g
        \<and> gate_attempt_get (observed_attempt g) \<le> max_gate_attempts (contract_completion_policy c))"
    (is "?evaluated \<longleftrightarrow> ?required")
proof
  assume eval: ?evaluated
  have passed: "gate_passed g" if "g \<in> set (evidence_gates e)" for g
  proof -
    from eval that assms(2) obtain d where "d \<in> set (graph_definitions (contract_gates c))"
      "gate_definition_id d = observed_gate_id g" by (auto simp: gate_observed_ok_def)
    with eval obtain g' where g': "g' \<in> set (evidence_gates e)" "observed_gate_id g' = observed_gate_id g" "gate_passed g'"
      by (auto simp: current_gate_passed[OF assms])
    have inj: "inj_on (\<lambda>g. as_bytes (gate_id_raw (observed_gate_id g))) (set (evidence_gates e))"
      using assms(1) by (auto simp: evidence_ok_def intro: ascending_inj_on)
    from inj_onD[OF inj _ g'(1) that] g'(2,3) show ?thesis by simp
  qed
  have "gate_ids (graph_definitions (contract_gates c)) \<subseteq> observed_gate_id ` set (evidence_gates e)"
    using eval unfolding current_gate_passed[OF assms] by (metis image_eqI image_subsetI)
  moreover have "observed_gate_id ` set (evidence_gates e) \<subseteq> gate_ids (graph_definitions (contract_gates c))"
    using eval assms(2) by (auto simp: gate_observed_ok_def)
  ultimately show ?required using eval assms(2) passed by (auto simp: gate_observed_ok_def)
next
  assume req: ?required
  have "\<exists>g\<in>set (evidence_gates e). observed_gate_id g = gate_definition_id d \<and> gate_passed g"
    if "d \<in> set (graph_definitions (contract_gates c))" for d
  proof -
    from that req have "gate_definition_id d \<in> observed_gate_id ` set (evidence_gates e)" by simp
    with req show ?thesis by (metis imageE)
  qed
  moreover have "gate_observed_ok c r g" if "g \<in> set (evidence_gates e)" for g
    using req that by (auto simp: gate_observed_ok_def)
  ultimately show ?evaluated by (simp add: current_gate_passed[OF assms])
qed

lemma requirement_current_iff:
  assumes "\<forall>v\<in>set (evidence_observations e). evidence_revision v = r"
  shows "requirement_current e i r \<longleftrightarrow> i \<in> observed_requirement_id ` set (evidence_observations e)"
  using assms by (auto simp: requirement_current_def list_ex_iff)

lemma requirements_acceptable:
  assumes "\<forall>v\<in>set (evidence_observations e). evidence_revision v = r"
  shows "(\<forall>v\<in>set (evidence_observations e). evidence_revision v = r \<longrightarrow>
         observed_requirement_id v \<in> evidence_requirement_id ` set (contract_evidence_requirements c))
      \<and> (\<forall>v\<in>set (contract_evidence_requirements c). requirement_current e (evidence_requirement_id v) r)
    \<longleftrightarrow> observed_requirement_id ` set (evidence_observations e)
        = evidence_requirement_id ` set (contract_evidence_requirements c)"
  unfolding requirement_current_iff[OF assms] using assms by (auto simp: subset_antisym image_subset_iff)

lemma reviews_acceptable:
  assumes "\<forall>v\<in>set (evidence_reviews e). review_revision v = r"
  shows "(\<forall>v\<in>set (evidence_reviews e). review_observed_ok c r v)
      \<and> reviewer_quorum (contract_review_policy c) \<le> current_count e r
      \<and> (\<forall>v\<in>set (required_categories (contract_review_policy c)). category_covered e v r)
      \<and> independence_ok c r e
    \<longleftrightarrow> (\<Union>v\<in>set (evidence_reviews e). set (review_categories v)) = set (required_categories (contract_review_policy c))
      \<and> (\<forall>v\<in>set (evidence_reviews e).
        review_cycle_get (review_cycle_ordinal v) \<le> max_review_cycles (contract_completion_policy c))
      \<and> unat (reviewer_quorum (contract_review_policy c)) \<le> length (evidence_reviews e)
      \<and> reviewers_independent (reviewer_independence (contract_review_policy c))
        (map review_reviewer (evidence_reviews e))"
proof -
  have covered: "category_covered e v r \<longleftrightarrow> v \<in> (\<Union>v\<in>set (evidence_reviews e). set (review_categories v))" for v
    using assms by (auto simp: category_covered_def list_ex_iff)
  have actor: "has_duplicate_actor e r \<longleftrightarrow> \<not> distinct (map reviewer_actor_id (map review_reviewer (evidence_reviews e)))"
    unfolding has_duplicate_actor_def by (rule duplicate_pair_iff[OF assms]) simp
  have traits: "has_duplicate_fact e r d \<longleftrightarrow>
      \<not> distinct (map (\<lambda>i. independence_fact i d) (map review_reviewer (evidence_reviews e)))" for d
    unfolding has_duplicate_fact_def by (rule duplicate_pair_iff[OF assms]) simp
  have "list_ex (\<lambda>v. revision_matches (review_revision v) r \<and> \<not> reviewer_independent (review_reviewer v)) (evidence_reviews e)
      \<longleftrightarrow> \<not> (\<forall>i\<in>set (map review_reviewer (evidence_reviews e)). reviewer_independent i)"
    using assms by (auto simp: list_ex_iff)
  then have independent: "independence_ok c r e \<longleftrightarrow> reviewers_independent (reviewer_independence (contract_review_policy c))
        (map review_reviewer (evidence_reviews e))"
    unfolding independence_ok_def Let_def actor traits reviewers_independent_def
    by (simp del: map_map set_map list.map_comp) 
  show ?thesis
    unfolding covered independent current_count_iff[OF assms]
    using assms by (auto simp: review_observed_ok_def)
qed

lemma inj_requests: "evidence_ok e \<Longrightarrow> inj_on approval_request_id (set (evidence_approvals e))"
  using ascending_inj_on[of "\<lambda>a. request_bytes (approval_request_id a)" "evidence_approvals e"]
  by (auto simp: evidence_ok_def inj_on_def)

lemma inj_subjects: "evidence_ok e \<Longrightarrow> inj_on approval_subject (set (evidence_approvals e))"
  by (simp add: evidence_ok_def distinct_map)

lemma inj_waivers: "evidence_ok e \<Longrightarrow> inj_on waiver_finding_id (set (evidence_waivers e))"
  using ascending_inj_on[of "\<lambda>w. finding_bytes (waiver_finding_id w)" "evidence_waivers e"]
  by (auto simp: evidence_ok_def inj_on_def)

lemma waiver_failure_None:
  assumes "evidence_ok e" and "current_evidence r e"
  shows "waiver_failure c r e f w = None \<longleftrightarrow> waives c e f w"
proof -
  have observations: "\<forall>v\<in>set (evidence_observations e). evidence_revision v = r"
    and approvals: "\<forall>a\<in>set (evidence_approvals e). approval_revision a = r"
    using assms(2) by (auto simp: current_evidence_def)
  let ?q = "\<lambda>a. approval_subject a = FindingWaiverSubject (finding_id f)
      \<and> observed_authority a = observed_waiver_authority w \<and> approval_outcome a = Approved"
  have approval: "(\<exists>i. current_approval e (waiver_approval_request_id w) r = Some i \<and> ?q (evidence_approvals e ! i))
      \<longleftrightarrow> (\<exists>a\<in>set (evidence_approvals e). approval_request_id a = waiver_approval_request_id w \<and> ?q a)"
    using find_index_unique[OF inj_requests[OF assms(1)], of "\<lambda>a. approval_revision a = r"
        "waiver_approval_request_id w" ?q] approvals
    by (simp add: current_approval_def)
  show ?thesis
  proof (cases "finding_disposition f = WaiverRequested
      \<and> contract_waiver_policy c = Allowed (observed_waiver_authority w) (waiver_requirement_id w)
      \<and> waiver_requirement_id w \<in> observed_requirement_id ` set (evidence_observations e)")
    case True
    then have "waiver_failure c r e f w = None \<longleftrightarrow>
        (\<exists>i. current_approval e (waiver_approval_request_id w) r = Some i \<and> ?q (evidence_approvals e ! i))"
      by (auto simp: waiver_failure_def requirement_current_iff[OF observations] Let_def
          split: option.splits approval_outcome.splits)
    with True approval show ?thesis by (simp add: waives_def)
  next
    case False
    then have "waiver_failure c r e f w \<noteq> None"
      by (auto simp: waiver_failure_def requirement_current_iff[OF observations] Let_def
          split: finding_disposition.splits waiver_policy.splits)
    with False show ?thesis by (auto simp: waives_def)
  qed
qed

lemma current_waiver_is_valid_iff:
  assumes "evidence_ok e" and "current_evidence r e"
  shows "current_waiver_is_valid c r e f \<longleftrightarrow>
    (\<exists>w\<in>set (evidence_waivers e). waiver_finding_id w = finding_id f \<and> waives c e f w)"
proof -
  have current: "\<forall>w\<in>set (evidence_waivers e). waiver_revision w = r"
    using assms(2) by (simp add: current_evidence_def)
  have "current_waiver_is_valid c r e f \<longleftrightarrow>
      (\<exists>i. current_waiver e (finding_id f) r = Some i \<and> waives c e f (evidence_waivers e ! i))"
    by (auto simp: current_waiver_is_valid_def waiver_failure_None[OF assms] split: option.splits)
  then show ?thesis
    using find_index_unique[OF inj_waivers[OF assms(1)], of "\<lambda>w. waiver_revision w = r" "finding_id f" "waives c e f"]
      current by (simp add: current_waiver_def)
qed

lemma find_finding_Some:
  "find_finding rs i r k = Some (v, j) \<Longrightarrow> \<exists>n. v = k + n \<and> n < length rs \<and> j < length (review_findings (rs ! n))
     \<and> finding_id (review_findings (rs ! n) ! j) = i"
proof (induction rs arbitrary: k)
  case (Cons x rs)
  show ?case
  proof (cases "review_revision x = r \<and> find_index (\<lambda>f. finding_id f = i) (review_findings x) \<noteq> None")
    case True
    then obtain j' where "find_index (\<lambda>f. finding_id f = i) (review_findings x) = Some j'" by blast
    with Cons.prems True show ?thesis by (auto simp: find_index_Some intro!: exI[of _ 0])
  next
    case False
    with Cons.prems have "find_finding rs i r (Suc k) = Some (v, j)" by (auto split: if_splits option.splits)
    from Cons.IH[OF this] obtain n where "v = Suc k + n" "n < length rs" "j < length (review_findings (rs ! n))"
      "finding_id (review_findings (rs ! n) ! j) = i" by blast
    then show ?thesis by (intro exI[of _ "Suc n"]) simp
  qed
qed simp

lemma find_finding_None:
  "\<forall>v\<in>set rs. review_revision v = r \<Longrightarrow> find_finding rs i r k = None \<longleftrightarrow>
     (\<forall>v\<in>set rs. \<forall>f\<in>set (review_findings v). finding_id f \<noteq> i)"
proof (induction rs arbitrary: k)
  case (Cons v rs)
  have "find_index (\<lambda>f. finding_id f = i) (review_findings v) = None \<longleftrightarrow>
      (\<forall>f\<in>set (review_findings v). finding_id f \<noteq> i)" by (rule find_index_None)
  with Cons show ?case by (cases "find_index (\<lambda>f. finding_id f = i) (review_findings v)") simp_all
qed simp

lemma findings_unique:
  assumes "evidence_ok e" and "\<forall>v\<in>set (evidence_reviews e). review_ok v"
  shows "inj_on finding_id (all_findings e)"
proof (rule inj_onI)
  fix f g assume "f \<in> all_findings e" "g \<in> all_findings e" and same: "finding_id f = finding_id g"
  then obtain m n where m: "m < length (evidence_reviews e)" "f \<in> set (review_findings (evidence_reviews e ! m))"
    and n: "n < length (evidence_reviews e)" "g \<in> set (review_findings (evidence_reviews e ! n))"
    unfolding all_findings_def by (auto simp: in_set_conv_nth[of _ "evidence_reviews e"])
  have disjoint: "finding_id ` set (review_findings (evidence_reviews e ! a))
      \<inter> finding_id ` set (review_findings (evidence_reviews e ! b)) = {}" if "a < b" "b < length (evidence_reviews e)" for a b
    using assms(1) that by (auto simp: evidence_ok_def dest: sorted_wrt_nth_less)
  have "m = n"
  proof (rule ccontr)
    assume "m \<noteq> n"
    then consider "m < n" | "n < m" by linarith
    then show False using disjoint[of m n] disjoint[of n m] m n same by cases (metis disjoint_iff imageI)+
  qed
  moreover have "review_ok (evidence_reviews e ! m)" using assms(2) m(1) by simp
  then have "inj_on (\<lambda>f. finding_bytes (finding_id f)) (set (review_findings (evidence_reviews e ! m)))"
    by (auto simp: review_ok_def intro: ascending_inj_on)
  then have "inj_on finding_id (set (review_findings (evidence_reviews e ! m)))" by (simp add: inj_on_def)
  ultimately show "f = g" using m(2) n(2) same by (auto dest: inj_onD)
qed

lemma supplied_failure_None:
  assumes ok: "evidence_ok e" and reviews: "\<forall>v\<in>set (evidence_reviews e). review_ok v" and current: "current_evidence r e"
  shows "supplied_failure c r e w = None \<longleftrightarrow> (\<exists>f\<in>all_findings e. finding_id f = waiver_finding_id w \<and> waives c e f w)"
proof (cases "find_finding (evidence_reviews e) (waiver_finding_id w) r 0")
  case None
  then have "\<forall>v\<in>set (evidence_reviews e). \<forall>f\<in>set (review_findings v). finding_id f \<noteq> waiver_finding_id w"
    using current by (simp add: find_finding_None current_evidence_def)
  with None show ?thesis by (auto simp: supplied_failure_def current_finding_def all_findings_def)
next
  case (Some p)
  then obtain v j where p: "find_finding (evidence_reviews e) (waiver_finding_id w) r 0 = Some (v, j)" by (cases p) auto
  let ?f = "review_findings (evidence_reviews e ! v) ! j"
  from find_finding_Some[OF p] have v: "v < length (evidence_reviews e)"
    "j < length (review_findings (evidence_reviews e ! v))" and f2: "finding_id ?f = waiver_finding_id w" by auto
  then have "?f \<in> all_findings e" unfolding all_findings_def by (meson UN_I nth_mem)
  with f2 have f: "?f \<in> all_findings e" "finding_id ?f = waiver_finding_id w" by simp_all
  have "g = ?f" if "g \<in> all_findings e" "finding_id g = waiver_finding_id w" for g
    using inj_onD[OF findings_unique[OF ok reviews] _ that(1) f(1)] that(2) f(2) by simp
  then have "(\<exists>f\<in>all_findings e. finding_id f = waiver_finding_id w \<and> waives c e f w) \<longleftrightarrow> waives c e ?f w"
    using f by metis
  then show ?thesis
    by (simp add: supplied_failure_def current_finding_def p waiver_failure_None[OF ok current])
qed

lemma final_approval_None:
  assumes "evidence_ok e" and "current_evidence r e"
  shows "final_approval_failure c r e = None \<longleftrightarrow> (\<forall>authority. contract_approval_policy c = Required authority \<longrightarrow>
        (\<exists>a\<in>set (evidence_approvals e). approval_subject a = AcceptanceSubject
          \<and> observed_authority a = authority \<and> approval_outcome a = Approved))"
proof (cases "contract_approval_policy c")
  case NotRequired
  then show ?thesis by (simp add: final_approval_failure_def)
next
  case (Required authority)
  have current: "\<forall>a\<in>set (evidence_approvals e). approval_revision a = r"
    using assms(2) by (simp add: current_evidence_def)
  let ?q = "\<lambda>a. observed_authority a = authority \<and> approval_outcome a = Approved"
  have "final_approval_failure c r e = None \<longleftrightarrow>
      (\<exists>i. current_acceptance_approval e r = Some i \<and> ?q (evidence_approvals e ! i))"
    using Required by (auto simp: final_approval_failure_def Let_def
        split: option.splits approval_outcome.splits)
  also have "\<dots> \<longleftrightarrow> (\<exists>a\<in>set (evidence_approvals e). approval_subject a = AcceptanceSubject \<and> ?q a)"
    using find_index_unique[OF inj_subjects[OF assms(1)], of "\<lambda>a. approval_revision a = r" AcceptanceSubject ?q] current
    by (simp add: current_acceptance_approval_def conj_commute)
  finally show ?thesis using Required by simp
qed

lemma waiver_approval_expected_iff:
  "waiver_approval_expected c r e a i \<longleftrightarrow> (\<exists>w\<in>set (evidence_waivers e). waiver_revision w = r \<and> waiver_finding_id w = i
     \<and> waiver_approval_request_id w = approval_request_id a \<and> supplied_failure c r e w = None)"
proof -
  have any: "fold (\<lambda>w found. if p w then True else found) ws b \<longleftrightarrow> b \<or> (\<exists>w\<in>set ws. p w)"
    for p and ws :: "waiver_observation list" and b
    by (induction ws arbitrary: b) auto
  show ?thesis unfolding waiver_approval_expected_def any by simp
qed

lemma evaluation_decides_acceptance:
  assumes ok: "evidence_ok e" and reviews: "\<forall>v\<in>set (evidence_reviews e). review_ok v"
  shows "is_acceptable (evaluate_acceptance c r e) \<longleftrightarrow> acceptable c r e"
proof (cases "current_evidence r e")
  case False
  then show ?thesis by (simp add: is_acceptable_phases acceptable_def)
next
  case True
  then have cur: "\<forall>g\<in>set (evidence_gates e). gate_revision g = r" "\<forall>v\<in>set (evidence_reviews e). review_revision v = r"
    "\<forall>v\<in>set (evidence_observations e). evidence_revision v = r" "\<forall>a\<in>set (evidence_approvals e). approval_revision a = r"
    "\<forall>w\<in>set (evidence_waivers e). waiver_revision w = r" by (auto simp: current_evidence_def)
  have blockers: "(\<forall>v\<in>set (evidence_reviews e). review_revision v = r \<longrightarrow>
      (\<forall>f\<in>set (review_findings v). blocks c f \<longrightarrow> current_waiver_is_valid c r e f)) \<longleftrightarrow>
    (\<forall>f\<in>all_findings e. blocks c f \<longrightarrow> (\<exists>w\<in>set (evidence_waivers e). waiver_finding_id w = finding_id f \<and> waives c e f w))"
    using cur(2) by (auto simp: all_findings_def current_waiver_is_valid_iff[OF ok True])
  have waivers: "(\<forall>w\<in>set (evidence_waivers e). waiver_revision w = r \<longrightarrow> supplied_failure c r e w = None) \<longleftrightarrow>
    (\<forall>w\<in>set (evidence_waivers e). \<exists>f\<in>all_findings e. finding_id f = waiver_finding_id w \<and> waives c e f w)"
    using cur(5) by (simp add: supplied_failure_None[OF ok reviews True])
  have approvals: "(\<forall>a\<in>set (evidence_approvals e). approval_revision a = r \<longrightarrow> approval_expected c r e a) \<longleftrightarrow>
      (\<forall>a\<in>set (evidence_approvals e). case approval_subject a of
        AcceptanceSubject \<Rightarrow> approval_is_required (contract_approval_policy c)
      | FindingWaiverSubject f \<Rightarrow> \<exists>w\<in>set (evidence_waivers e).
          waiver_finding_id w = f \<and> waiver_approval_request_id w = approval_request_id a)"
    if valid: "\<forall>w\<in>set (evidence_waivers e). supplied_failure c r e w = None"
    using cur(4,5) valid by (intro ball_cong refl)
      (auto simp: approval_expected_def waiver_approval_expected_iff split: approval_subject.splits)
  show ?thesis
    unfolding is_acceptable_phases acceptable_def gates_acceptable[OF ok cur(1)] requirements_acceptable[OF cur(3)]
      reviews_acceptable[OF cur(2)] final_approval_None[OF ok True] blockers
    using approvals waivers cur(5) by (auto 0 0)
qed

end
