(* ===== verification/Acceptance_Examples.thy ===== *)
theory Acceptance_Examples
  imports Quality_Spec
begin

text \<open>
  A concrete contract and evidence that satisfies it, used as input of the witnesses: two gates, the
  second after the first, one piece of general evidence, one review category with a quorum of one.
\<close>

definition sample_reference :: "u8 \<Rightarrow> content_reference" where
  "sample_reference b = ContentReference (low_digest b)"

definition sample_gate_id :: "u8 \<Rightarrow> gate_id" where
  "sample_gate_id b = GateId (low_identifier b)"

lemma sample_gate_id_eq [simp]:
  "sample_gate_id a = sample_gate_id b \<longleftrightarrow> (if a = 0 then 1 else a) = (if b = 0 then 1 else b)"
  "gate_id_raw (sample_gate_id b) = low_identifier b"
  by (simp_all add: sample_gate_id_def)

definition sample_plan_of_gate :: gate_execution_plan where
  "sample_plan_of_gate = \<lparr>plan_action = sample_reference 1, plan_environment = EnvironmentId (low_identifier 1),
     plan_inputs = sample_reference 2, plan_parser = sample_reference 3, plan_success = ExitCodeZero,
     plan_timeout_ms = 1000, plan_resources = sample_reference 4, plan_freshness = ExactRevisionTuple\<rparr>"

definition sample_gate :: "u8 \<Rightarrow> gate_id list \<Rightarrow> gate_definition" where
  "sample_gate b ds = \<lparr>gate_definition_id = sample_gate_id b, gate_plan = sample_plan_of_gate,
     gate_dependencies = ds, gate_required_evidence = []\<rparr>"

definition sample_gates :: "gate_definition list" where
  "sample_gates = [sample_gate 1 [], sample_gate 2 [sample_gate_id 1]]"

definition sample_graph :: gate_graph where
  "sample_graph = \<lparr>graph_definitions = sample_gates, execution_order = [sample_gate_id 1, sample_gate_id 2]\<rparr>"

definition sample_review_policy :: review_policy where
  "sample_review_policy = \<lparr>required_categories = [ReviewCategory (low_digest 1)], reviewer_quorum = 1,
     reviewer_independence = \<lparr>distinct_reviewers = True, independent_from_producer = True,
       distinct_contexts = True, distinct_model_families = False, distinct_providers = False,
       no_shared_ancestry = False\<rparr>,
     blocking_severity = High\<rparr>"

definition sample_requirement :: evidence_requirement where
  "sample_requirement = \<lparr>evidence_requirement_id = EvidenceRequirementId (low_digest 1),
     evidence_description = sample_reference 5, evidence_source = General, evidence_export = Internal\<rparr>"

definition sample_contract :: acceptance_contract where
  "sample_contract = \<lparr>contract_id = AcceptanceSpecId (low_identifier 1), contract_content_digest = low_digest 1,
     contract_documents = \<lparr>objective = sample_reference 1, user_visible_behavior = sample_reference 1,
       repository_roots = sample_reference 1, permitted_change_surface = sample_reference 1,
       resource_budget_policy = sample_reference 1, security_approval_policy = sample_reference 1,
       completion_conditions = sample_reference 1, failure_conditions = sample_reference 1\<rparr>,
     contract_requirements = [\<lparr>requirement_id = RequirementId (low_digest 1), requirement_content = sample_reference 1\<rparr>],
     contract_exclusions = [], contract_assumptions = [], contract_gates = sample_graph,
     contract_review_policy = sample_review_policy, contract_evidence_requirements = [sample_requirement],
     contract_completion_policy = \<lparr>max_gate_attempts = 3, max_review_cycles = 3\<rparr>,
     contract_approval_policy = NotRequired, contract_waiver_policy = Forbidden\<rparr>"

lemma sample_contract_ok: "contract_ok sample_contract"
  by (simp add: contract_ok_def sample_contract_def sample_review_policy_def declared_def
      sample_requirement_def sample_graph_def sample_gates_def sample_gate_def approval_is_required_def)

definition contract_revision :: revision_tuple where
  "contract_revision = \<lparr>acceptance_spec_id = AcceptanceSpecId (low_identifier 1),
     harness_id = HarnessId (low_identifier 2), workspace_id = WorkspaceId (low_identifier 3),
     workspace_generation = generation_first, workspace_revision = revision_number_first,
     policy_id = PolicyId (low_identifier 4), provider_profile_id = ProviderProfileId (low_identifier 5)\<rparr>"

definition sample_gate_observation :: "u8 \<Rightarrow> gate_observation" where
  "sample_gate_observation b = \<lparr>observed_execution_id = GateExecutionId (low_identifier b),
     observed_gate_id = sample_gate_id b, observed_attempt = GateAttemptOrdinal 1,
     gate_revision = contract_revision, gate_outcome = GatePassed, gate_result_digest = low_digest b\<rparr>"

definition sample_review :: review_observation where
  "sample_review = \<lparr>review_cycle_id = ReviewCycleId (low_identifier 1),
     review_cycle_ordinal = ReviewCycleOrdinal 1, review_revision = contract_revision,
     review_reviewer = \<lparr>reviewer_actor_id = ActorId (low_identifier 2), reviewer_provider = low_digest 1,
       reviewer_model_family = low_digest 1, reviewer_prompt_revision = low_digest 1,
       reviewer_context = low_digest 1, reviewer_ancestry = low_digest 1, reviewer_independent = True\<rparr>,
     review_categories = [ReviewCategory (low_digest 1)], review_findings = [], review_digest = low_digest 2\<rparr>"

definition sample_observation :: evidence_observation where
  "sample_observation = \<lparr>observed_requirement_id = EvidenceRequirementId (low_digest 1),
     evidence_revision = contract_revision, observed_artifact_digest = low_digest 3\<rparr>"

definition sample_evidence :: acceptance_evidence where
  "sample_evidence = \<lparr>evidence_gates = [sample_gate_observation 1, sample_gate_observation 2],
     evidence_reviews = [sample_review], evidence_observations = [sample_observation],
     evidence_approvals = [], evidence_waivers = []\<rparr>"

lemma sample_evidence_ok: "evidence_ok sample_evidence"
  using low_identifier_less[of 1 2]
  by (simp add: evidence_ok_def sample_evidence_def sample_gate_observation_def less_opaque_identifier_def
      del: low_identifier_less as_bytes_low_identifier)

lemma sample_review_ok: "review_ok sample_review"
  by (simp add: review_ok_def sample_review_def)

lemma sample_acceptable: "acceptable sample_contract contract_revision sample_evidence"
  by (simp add: acceptable_def sample_contract_def contract_revision_def current_evidence_def sample_evidence_def
      sample_gate_observation_def sample_review_def sample_observation_def sample_graph_def sample_gates_def
      sample_gate_def sample_requirement_def sample_review_policy_def gate_passed_def reviewers_independent_def
      all_findings_def)

end
