(* ===== verification/Acceptance_Properties.thy ===== *)
theory Acceptance_Properties
  imports Acceptance_Examples
begin

text \<open>
  Properties of the acceptance contract and of its evaluation, \<open>peritus-spec\<close> and
  \<open>peritus-quality-policy\<close>.
\<close>

text \<open>
  C13. The constructor of a gate graph accepts exactly the non-empty lists of gates in identifier order
  whose dependencies are declared and acyclic, and its execution order is the schedule of the gates:
  each gate once, after its dependencies, at each step the first eligible gate. It reports a cycle
  exactly when the list is otherwise in order, so its second walk over the order never fails.
\<close>
theorem gate_graphs_are_schedules:
  "(gate_graph_new ds = Ok g \<longleftrightarrow>
      ds \<noteq> [] \<and> ascending gate_key ds \<and> closed_dependencies ds \<and> acyclic (requires ds)
      \<and> graph_definitions g = ds \<and> is_schedule ds (execution_order g))
   \<and> (gate_graph_new ds = Err GateCycle \<longleftrightarrow>
      ds \<noteq> [] \<and> ascending gate_key ds \<and> closed_dependencies ds \<and> \<not> acyclic (requires ds))"
  by (rule conjI[OF gate_graph_new_Ok gate_graph_new_cycle])

text \<open>
  C33. The constructor of an acceptance contract returns a contract exactly when its parts fit together:
  the quorum is within the cycle limit, collections are in canonical order, every evidence source
  names a gate or category of the contract, every gate's evidence is declared for that gate, and a
  required approval and an allowed waiver have their evidence. A contract binds exactly to the
  revisions that name it.
\<close>
theorem contracts_fit_together:
  "(acceptance_contract_new i digest documents requirements exclusions assumptions gates review evidence
      completion approval waiver = Ok c \<longleftrightarrow>
    c = \<lparr>contract_id = i, contract_content_digest = digest, contract_documents = documents,
        contract_requirements = requirements, contract_exclusions = exclusions,
        contract_assumptions = assumptions, contract_gates = gates, contract_review_policy = review,
        contract_evidence_requirements = evidence, contract_completion_policy = completion,
        contract_approval_policy = approval, contract_waiver_policy = waiver\<rparr> \<and> contract_ok c)
   \<and> (contract_bind c revision = Ok b \<longleftrightarrow> acceptance_spec_id revision = contract_id c \<and>
      b = \<lparr>binding_contract_id = contract_id c, binding_contract_digest = contract_content_digest c,
          binding_revision = revision\<rparr>)"
  by (rule conjI[OF acceptance_contract_new_Ok contract_bind_Ok])

text \<open>
  C9. The evaluation of well-formed evidence decides acceptance: it answers acceptable exactly when
  every observation is of the requested revision, the observed gates are the gates of the contract
  and all passed within their attempts, the required evidence is there, the reviews cover the
  categories with enough independent reviewers, every blocking finding is resolved or properly
  waived, and the approvals are the required ones. Its list of unmet conditions is empty exactly
  when all its flags are complete.
\<close>
theorem acceptance_is_decided:
  assumes "acceptance_evidence_new gates reviews observations approvals waivers = Ok e"
    and "list_all review_ok reviews"
  shows "(is_acceptable (evaluate_acceptance c r e) \<longleftrightarrow> acceptable c r e)
    \<and> (unmet_conditions (evaluate_acceptance c r e) = []
         \<longleftrightarrow> checks_are_complete (acceptance_checks (evaluate_acceptance c r e)))"
proof -
  from assms have "evidence_ok e" "\<forall>v\<in>set (evidence_reviews e). review_ok v"
    by (auto simp: acceptance_evidence_new_Ok list_all_iff)
  then show ?thesis by (simp add: evaluation_decides_acceptance unmet_iff_incomplete)
qed

theorem acceptance_is_decided_witness:
  "is_acceptable (evaluate_acceptance sample_contract contract_revision sample_evidence)"
proof -
  have "acceptance_evidence_new [sample_gate_observation 1, sample_gate_observation 2] [sample_review]
      [sample_observation] [] [] = Ok sample_evidence"
    using sample_evidence_ok by (simp add: acceptance_evidence_new_Ok sample_evidence_def)
  moreover have "list_all review_ok [sample_review]" by (simp add: sample_review_ok)
  ultimately show ?thesis
    using acceptance_is_decided[of _ _ _ _ _ sample_evidence sample_contract contract_revision] sample_acceptable
    by blast
qed

end
