(* ===== verification/Kernel_Model.thy ===== *)
theory Kernel_Model
  imports Budget_Model Policy_Capability Quality_Evaluation
begin

text \<open>
  \<open>peritus-kernel\<close>, files \<open>identity.rs\<close>, \<open>envelope.rs\<close>, \<open>error.rs\<close>, \<open>event.rs\<close>, \<open>command.rs\<close>,
  \<open>inputs.rs\<close>, \<open>authorization.rs\<close>, \<open>transition.rs\<close>, \<open>state\<close> and \<open>aggregate\<close>: the aggregate of one
  session with its runs, attempts, turns, actions, reviews and waivers, the commands and events, the
  lookups, and the structural validation of an aggregate.
\<close>

section \<open>Identity\<close>

definition run_id_equal :: "run_id \<Rightarrow> run_id \<Rightarrow> bool" where
  "run_id_equal a b = identifier_values_equal (run_id_raw a) (run_id_raw b)"

definition finding_id_equal :: "finding_id \<Rightarrow> finding_id \<Rightarrow> bool" where
  "finding_id_equal a b = identifier_values_equal (finding_id_raw a) (finding_id_raw b)"

definition review_cycle_id_equal :: "review_cycle_id \<Rightarrow> review_cycle_id \<Rightarrow> bool" where
  "review_cycle_id_equal a b = identifier_values_equal (review_cycle_id_raw a) (review_cycle_id_raw b)"

definition optional_event_id_equal :: "event_id option \<Rightarrow> event_id option \<Rightarrow> bool" where
  "optional_event_id_equal a b = (case (a, b) of
     (Some x, Some y) \<Rightarrow> arrays_equal (as_bytes (event_id_raw x)) (as_bytes (event_id_raw y))
   | (None, None) \<Rightarrow> True
   | _ \<Rightarrow> False)"

definition kernel_revision_equal :: "revision_tuple \<Rightarrow> revision_tuple \<Rightarrow> bool" where
  "kernel_revision_equal a b \<longleftrightarrow>
     arrays_equal (as_bytes (acceptance_spec_id_raw (acceptance_spec_id a)))
       (as_bytes (acceptance_spec_id_raw (acceptance_spec_id b)))
   \<and> arrays_equal (as_bytes (harness_id_raw (harness_id a))) (as_bytes (harness_id_raw (harness_id b)))
   \<and> arrays_equal (as_bytes (workspace_id_raw (workspace_id a))) (as_bytes (workspace_id_raw (workspace_id b)))
   \<and> generation_get (workspace_generation a) = generation_get (workspace_generation b)
   \<and> revision_number_get (workspace_revision a) = revision_number_get (workspace_revision b)
   \<and> arrays_equal (as_bytes (policy_id_raw (policy_id a))) (as_bytes (policy_id_raw (policy_id b)))
   \<and> arrays_equal (as_bytes (provider_profile_id_raw (provider_profile_id a)))
       (as_bytes (provider_profile_id_raw (provider_profile_id b)))"

lemma run_id_equal_iff [simp]: "run_id_equal a b \<longleftrightarrow> a = b"
  by (cases a; cases b) (simp add: run_id_equal_def)

lemma finding_id_equal_iff [simp]: "finding_id_equal a b \<longleftrightarrow> a = b"
  by (cases a; cases b) (simp add: finding_id_equal_def)

lemma review_cycle_id_equal_iff [simp]: "review_cycle_id_equal a b \<longleftrightarrow> a = b"
  by (cases a; cases b) (simp add: review_cycle_id_equal_def)

lemma optional_event_id_equal_iff [simp]: "optional_event_id_equal a b \<longleftrightarrow> a = b"
  by (auto simp: optional_event_id_equal_def arrays_equal_iff event_id.expand split: option.splits)

lemma revision_equal_iff [simp]: "kernel_revision_equal a b \<longleftrightarrow> a = b"
  by (cases a; cases b) (simp add: kernel_revision_equal_def arrays_equal_iff raw_equal_iff)

section \<open>Envelopes and errors\<close>

record command_envelope =
  envelope_command_id :: command_id
  envelope_event_id :: event_id
  expected_previous_event_id :: "event_id option"
  envelope_revision :: revision_tuple

datatype lifecycle_entity =
    SessionEntity | RunEntity | AttemptEntity | TurnEntity | ActionEntity | ReviewEntity
  | WaiverEntity | AcceptanceEntity

datatype authority_input_kind =
    RunBudgetInput | AttemptBudgetInput | ParentBudgetInput | CapabilityUseInput | AcceptanceEvidenceInput

datatype kernel_error_kind =
    KernelRevisionMismatch | KernelContractMismatch | CausalHeadMismatch | DuplicateCommand
  | DuplicateEvent | MissingEntity | DuplicateEntity | ParentMismatch | IllegalPhase
  | MissingAuthorityInput | AuthorityMismatch | BudgetUnavailable | KernelBudgetExceeded | LiveChild
  | KernelSequenceOverflow | InvalidAggregate

record kernel_error =
  kernel_error_kind :: kernel_error_kind
  kernel_error_entity :: "lifecycle_entity option"
  kernel_error_authority :: "authority_input_kind option"

definition plain_error :: "kernel_error_kind \<Rightarrow> kernel_error" where
  "plain_error k = \<lparr>kernel_error_kind = k, kernel_error_entity = None, kernel_error_authority = None\<rparr>"

definition entity_error :: "kernel_error_kind \<Rightarrow> lifecycle_entity \<Rightarrow> kernel_error" where
  "entity_error k e = \<lparr>kernel_error_kind = k, kernel_error_entity = Some e, kernel_error_authority = None\<rparr>"

definition authority_error :: "kernel_error_kind \<Rightarrow> authority_input_kind \<Rightarrow> kernel_error" where
  "authority_error k a = \<lparr>kernel_error_kind = k, kernel_error_entity = None, kernel_error_authority = Some a\<rparr>"

section \<open>Phases\<close>

datatype session_phase = SessionOpen | SessionIsPaused | SessionIsClosed

definition session_terminal :: "session_phase \<Rightarrow> bool" where
  "session_terminal p \<longleftrightarrow> p = SessionIsClosed"

datatype run_phase =
    RunPending | RunRunning | RunIsPaused | RunReviewing | RunFixing | RunIsAccepted | RunIsRejected
  | RunIsCancelled | RunHasFailed | RunIsExhausted

definition run_terminal :: "run_phase \<Rightarrow> bool" where
  "run_terminal p \<longleftrightarrow> p = RunIsAccepted \<or> p = RunIsRejected \<or> p = RunIsCancelled \<or> p = RunHasFailed \<or> p = RunIsExhausted"

datatype attempt_phase =
    AttemptActive | AttemptIsSubmitted | AttemptReviewing | AttemptFixing | AttemptAccepted
  | AttemptHasFailed | AttemptCancelled | AttemptIsExhausted

definition attempt_terminal :: "attempt_phase \<Rightarrow> bool" where
  "attempt_terminal p \<longleftrightarrow> p = AttemptAccepted \<or> p = AttemptHasFailed \<or> p = AttemptCancelled \<or> p = AttemptIsExhausted"

datatype turn_phase = TurnActive | TurnIsCompleted | TurnHasFailed | TurnIsCancelled

definition turn_terminal :: "turn_phase \<Rightarrow> bool" where
  "turn_terminal p \<longleftrightarrow> p = TurnIsCompleted \<or> p = TurnHasFailed \<or> p = TurnIsCancelled"

datatype action_phase =
    ActionIsProposed | ActionIsAuthorized | ActionIsDispatched | ActionSucceeded | ActionHasFailed
  | ActionIsCancelled

definition action_terminal :: "action_phase \<Rightarrow> bool" where
  "action_terminal p \<longleftrightarrow> p = ActionSucceeded \<or> p = ActionHasFailed \<or> p = ActionIsCancelled"

datatype review_phase = ReviewIsRequested | ReviewActive | ReviewIsSubmitted | ReviewIsInvalidated

definition review_terminal :: "review_phase \<Rightarrow> bool" where
  "review_terminal p \<longleftrightarrow> p = ReviewIsSubmitted \<or> p = ReviewIsInvalidated"

datatype waiver_phase = WaiverIsRequested | WaiverIsGranted | WaiverIsDenied | WaiverIsInvalidated

definition waiver_terminal :: "waiver_phase \<Rightarrow> bool" where
  "waiver_terminal p \<longleftrightarrow> p = WaiverIsGranted \<or> p = WaiverIsDenied \<or> p = WaiverIsInvalidated"

datatype acceptance_phase =
    AcceptancePending | AcceptanceEvaluating | NeedsChanges | AcceptanceIsAccepted | AcceptanceTerminated

definition acceptance_is_accepted :: "acceptance_phase \<Rightarrow> bool" where
  "acceptance_is_accepted p \<longleftrightarrow> p = AcceptanceIsAccepted"

section \<open>Entities\<close>

record session_state =
  session_key :: session_id
  session_phase :: session_phase

record run_state =
  run_key :: run_id
  run_revision :: revision_tuple
  run_budget_id :: budget_id
  run_budget_limits :: budget_limits
  run_phase :: run_phase
  run_acceptance :: acceptance_phase
  run_current_attempt :: "attempt_id option"

definition run_pending :: "run_id \<Rightarrow> revision_tuple \<Rightarrow> budget_id \<Rightarrow> budget_limits \<Rightarrow> run_state" where
  "run_pending i cur budget lims =
     \<lparr>run_key = i, run_revision = cur, run_budget_id = budget, run_budget_limits = lims,
      run_phase = RunPending, run_acceptance = AcceptancePending, run_current_attempt = None\<rparr>"

record attempt_state =
  attempt_key :: attempt_id
  attempt_run :: run_id
  attempt_budget_id :: budget_id
  attempt_budget_limits :: budget_limits
  attempt_phase :: attempt_phase

definition attempt_active :: "attempt_id \<Rightarrow> run_id \<Rightarrow> budget_id \<Rightarrow> budget_limits \<Rightarrow> attempt_state" where
  "attempt_active i run budget lims =
     \<lparr>attempt_key = i, attempt_run = run, attempt_budget_id = budget, attempt_budget_limits = lims,
      attempt_phase = AttemptActive\<rparr>"

record turn_state =
  turn_key :: turn_id
  turn_attempt :: attempt_id
  turn_phase :: turn_phase

definition turn_active :: "turn_id \<Rightarrow> attempt_id \<Rightarrow> turn_state" where
  "turn_active i attempt = \<lparr>turn_key = i, turn_attempt = attempt, turn_phase = TurnActive\<rparr>"

record authorization_witness =
  witness_transition_digest :: sha256_digest
  witness_resource_id :: resource_id
  witness_capability_name :: capability_name

record action_state =
  action_key :: action_id
  action_turn :: turn_id
  action_digest :: sha256_digest
  action_actor :: actor_id
  action_role :: actor_role
  action_environment :: environment_id
  action_phase :: action_phase
  action_authorization :: "authorization_witness option"

definition action_proposed ::
  "action_id \<Rightarrow> turn_id \<Rightarrow> sha256_digest \<Rightarrow> actor_id \<Rightarrow> actor_role \<Rightarrow> environment_id \<Rightarrow> action_state" where
  "action_proposed i turn digest actor role environment =
     \<lparr>action_key = i, action_turn = turn, action_digest = digest, action_actor = actor, action_role = role,
      action_environment = environment, action_phase = ActionIsProposed, action_authorization = None\<rparr>"

definition action_authorize :: "authorization_witness \<Rightarrow> action_state \<Rightarrow> action_state" where
  "action_authorize w a = a\<lparr>action_authorization := Some w, action_phase := ActionIsAuthorized\<rparr>"

record review_state =
  review_key :: review_cycle_id
  review_run :: run_id
  review_attempt :: attempt_id
  review_phase :: review_phase

definition review_requested :: "review_cycle_id \<Rightarrow> run_id \<Rightarrow> attempt_id \<Rightarrow> review_state" where
  "review_requested i run attempt =
     \<lparr>review_key = i, review_run = run, review_attempt = attempt, review_phase = ReviewIsRequested\<rparr>"

record waiver_state =
  waiver_key :: finding_id
  waiver_review :: review_cycle_id
  waiver_run :: run_id
  waiver_phase :: waiver_phase

definition waiver_requested :: "finding_id \<Rightarrow> review_cycle_id \<Rightarrow> run_id \<Rightarrow> waiver_state" where
  "waiver_requested i review run =
     \<lparr>waiver_key = i, waiver_review = review, waiver_run = run, waiver_phase = WaiverIsRequested\<rparr>"

section \<open>Events and commands\<close>

datatype kernel_event_kind =
    SessionOpened | SessionPaused | SessionResumed | SessionClosed
  | RunStarted | RunPaused | RunResumed | RunCancelled | RunFailed | RunExhausted | RunRejected
  | AttemptStarted | AttemptResumed | AttemptSubmitted | AttemptFailed | AttemptExhausted
  | TurnStarted | TurnCompleted | TurnFailed | TurnCancelled
  | ActionProposed | ActionAuthorized | ActionDispatched | ActionCompleted | ActionFailed | ActionCancelled
  | ReviewRequested | ReviewBegun | ReviewSubmitted | ReviewInvalidated
  | WaiverWasRequested | WaiverGranted | WaiverDenied | WaiverInvalidated
  | AcceptanceBegun | AcceptanceAccepted | AcceptanceNeedsChanges

datatype kernel_subject =
    SessionSubject session_id | RunSubject run_id | AttemptSubject attempt_id | TurnSubject turn_id
  | ActionSubject action_id | ReviewSubject review_cycle_id | WaiverSubject finding_id
  | AcceptanceOfRun run_id

record kernel_event =
  kernel_event_id :: event_id
  event_command_id :: command_id
  event_sequence :: event_sequence
  previous_event_id :: "event_id option"
  event_revision :: revision_tuple
  event_kind :: kernel_event_kind
  event_subject :: kernel_subject

datatype kernel_command =
    PauseSession | ResumeSession | CloseSession
  | StartRun run_id | PauseRun run_id | ResumeRun run_id | CancelRun run_id | FailRun run_id
  | ExhaustRun run_id | RejectRun run_id
  | StartAttempt run_id attempt_id | ResumeAttempt run_id attempt_id | SubmitAttempt run_id attempt_id
  | FailAttempt run_id attempt_id | ExhaustAttempt run_id attempt_id
  | StartTurn attempt_id turn_id | CompleteTurn attempt_id turn_id | FailTurn attempt_id turn_id
  | CancelTurn attempt_id turn_id
  | ProposeAction turn_id action_id sha256_digest actor_id actor_role environment_id
  | AuthorizeAction action_id | DispatchAction action_id | CompleteAction action_id
  | FailAction action_id | CancelAction action_id
  | RequestReview run_id attempt_id review_cycle_id | BeginReview review_cycle_id
  | SubmitReview review_cycle_id | InvalidateReview review_cycle_id
  | RequestWaiver run_id review_cycle_id finding_id | GrantWaiver finding_id | DenyWaiver finding_id
  | InvalidateWaiver finding_id
  | BeginAcceptance run_id | EvaluateAcceptance run_id

datatype kernel_command_kind =
    PauseSessionKind | ResumeSessionKind | CloseSessionKind | StartRunKind | PauseRunKind
  | ResumeRunKind | CancelRunKind | FailRunKind | ExhaustRunKind | RejectRunKind | StartAttemptKind
  | ResumeAttemptKind | SubmitAttemptKind | FailAttemptKind | ExhaustAttemptKind | StartTurnKind
  | CompleteTurnKind | FailTurnKind | CancelTurnKind | ProposeActionKind | AuthorizeActionKind
  | DispatchActionKind | CompleteActionKind | FailActionKind | CancelActionKind | RequestReviewKind
  | BeginReviewKind | SubmitReviewKind | InvalidateReviewKind | RequestWaiverKind | GrantWaiverKind
  | DenyWaiverKind | InvalidateWaiverKind | BeginAcceptanceKind | EvaluateAcceptanceKind

fun kernel_command_kind_of :: "kernel_command \<Rightarrow> kernel_command_kind" where
  "kernel_command_kind_of PauseSession = PauseSessionKind"
| "kernel_command_kind_of ResumeSession = ResumeSessionKind"
| "kernel_command_kind_of CloseSession = CloseSessionKind"
| "kernel_command_kind_of (StartRun _) = StartRunKind"
| "kernel_command_kind_of (PauseRun _) = PauseRunKind"
| "kernel_command_kind_of (ResumeRun _) = ResumeRunKind"
| "kernel_command_kind_of (CancelRun _) = CancelRunKind"
| "kernel_command_kind_of (FailRun _) = FailRunKind"
| "kernel_command_kind_of (ExhaustRun _) = ExhaustRunKind"
| "kernel_command_kind_of (RejectRun _) = RejectRunKind"
| "kernel_command_kind_of (StartAttempt _ _) = StartAttemptKind"
| "kernel_command_kind_of (ResumeAttempt _ _) = ResumeAttemptKind"
| "kernel_command_kind_of (SubmitAttempt _ _) = SubmitAttemptKind"
| "kernel_command_kind_of (FailAttempt _ _) = FailAttemptKind"
| "kernel_command_kind_of (ExhaustAttempt _ _) = ExhaustAttemptKind"
| "kernel_command_kind_of (StartTurn _ _) = StartTurnKind"
| "kernel_command_kind_of (CompleteTurn _ _) = CompleteTurnKind"
| "kernel_command_kind_of (FailTurn _ _) = FailTurnKind"
| "kernel_command_kind_of (CancelTurn _ _) = CancelTurnKind"
| "kernel_command_kind_of (ProposeAction _ _ _ _ _ _) = ProposeActionKind"
| "kernel_command_kind_of (AuthorizeAction _) = AuthorizeActionKind"
| "kernel_command_kind_of (DispatchAction _) = DispatchActionKind"
| "kernel_command_kind_of (CompleteAction _) = CompleteActionKind"
| "kernel_command_kind_of (FailAction _) = FailActionKind"
| "kernel_command_kind_of (CancelAction _) = CancelActionKind"
| "kernel_command_kind_of (RequestReview _ _ _) = RequestReviewKind"
| "kernel_command_kind_of (BeginReview _) = BeginReviewKind"
| "kernel_command_kind_of (SubmitReview _) = SubmitReviewKind"
| "kernel_command_kind_of (InvalidateReview _) = InvalidateReviewKind"
| "kernel_command_kind_of (RequestWaiver _ _ _) = RequestWaiverKind"
| "kernel_command_kind_of (GrantWaiver _) = GrantWaiverKind"
| "kernel_command_kind_of (DenyWaiver _) = DenyWaiverKind"
| "kernel_command_kind_of (InvalidateWaiver _) = InvalidateWaiverKind"
| "kernel_command_kind_of (BeginAcceptance _) = BeginAcceptanceKind"
| "kernel_command_kind_of (EvaluateAcceptance _) = EvaluateAcceptanceKind"

text \<open>The authority inputs of one command; the builders \<open>with_...\<close> are record updates.\<close>

record reducer_inputs =
  inputs_contract :: acceptance_contract
  inputs_run_budget :: "budget_snapshot option"
  inputs_attempt_budget :: "budget_snapshot option"
  inputs_parent_budget :: "budget_snapshot option"
  inputs_capability_use :: "capability_use_transition option"
  inputs_acceptance_evidence :: "acceptance_evidence option"

definition reducer_inputs_new :: "acceptance_contract \<Rightarrow> reducer_inputs" where
  "reducer_inputs_new c = \<lparr>inputs_contract = c, inputs_run_budget = None, inputs_attempt_budget = None,
     inputs_parent_budget = None, inputs_capability_use = None, inputs_acceptance_evidence = None\<rparr>"

text \<open>\<open>transition.scope()\<close> is the scope of the successor capability.\<close>

definition witness_from_transition ::
  "action_id \<Rightarrow> sha256_digest \<Rightarrow> actor_id \<Rightarrow> actor_role \<Rightarrow> environment_id \<Rightarrow> revision_tuple
     \<Rightarrow> capability_use_transition \<Rightarrow> kernel_error + authorization_witness" where
  "witness_from_transition i digest actor role environment cur tr =
    (let scope = capability_scope (use_successor tr) in
     if used_action_id tr \<noteq> i \<or> used_action_digest tr \<noteq> digest \<or> scope_actor scope \<noteq> actor
        \<or> scope_role scope \<noteq> role \<or> scope_environment scope \<noteq> environment \<or> scope_revision scope \<noteq> cur
     then Err (plain_error AuthorityMismatch)
     else Ok \<lparr>witness_transition_digest = use_transition_digest tr,
              witness_resource_id = permission_resource (used_permission tr),
              witness_capability_name = permission_name (used_permission tr)\<rparr>)"

section \<open>The aggregate\<close>

record kernel_aggregate =
  kernel_project_id :: project_id
  kernel_revision :: revision_tuple
  kernel_binding :: contract_binding
  kernel_session :: session_state
  head_event_id :: event_id
  last_sequence :: event_sequence
  accepted_command_ids :: "command_id list"
  event_ids :: "event_id list"
  kernel_runs :: "run_state list"
  kernel_attempts :: "attempt_state list"
  kernel_turns :: "turn_state list"
  kernel_actions :: "action_state list"
  kernel_reviews :: "review_state list"
  kernel_waivers :: "waiver_state list"

definition run_of :: "kernel_aggregate \<Rightarrow> run_id \<Rightarrow> run_state option" where
  "run_of s i = find (\<lambda>r. run_key r = i) (kernel_runs s)"

definition attempt_of :: "kernel_aggregate \<Rightarrow> attempt_id \<Rightarrow> attempt_state option" where
  "attempt_of s i = find (\<lambda>a. attempt_key a = i) (kernel_attempts s)"

definition turn_of :: "kernel_aggregate \<Rightarrow> turn_id \<Rightarrow> turn_state option" where
  "turn_of s i = find (\<lambda>t. turn_key t = i) (kernel_turns s)"

definition action_of :: "kernel_aggregate \<Rightarrow> action_id \<Rightarrow> action_state option" where
  "action_of s i = find (\<lambda>a. action_key a = i) (kernel_actions s)"

definition review_of :: "kernel_aggregate \<Rightarrow> review_cycle_id \<Rightarrow> review_state option" where
  "review_of s i = find (\<lambda>r. review_key r = i) (kernel_reviews s)"

definition waiver_of :: "kernel_aggregate \<Rightarrow> finding_id \<Rightarrow> waiver_state option" where
  "waiver_of s i = find (\<lambda>w. waiver_key w = i) (kernel_waivers s)"

definition run_index :: "kernel_aggregate \<Rightarrow> run_id \<Rightarrow> nat option" where
  "run_index s i = find_index (\<lambda>r. run_id_equal (run_key r) i) (kernel_runs s)"

definition attempt_index :: "kernel_aggregate \<Rightarrow> attempt_id \<Rightarrow> nat option" where
  "attempt_index s i = find_index (\<lambda>a. attempt_key a = i) (kernel_attempts s)"

definition turn_index :: "kernel_aggregate \<Rightarrow> turn_id \<Rightarrow> nat option" where
  "turn_index s i = find_index (\<lambda>t. turn_key t = i) (kernel_turns s)"

definition action_index :: "kernel_aggregate \<Rightarrow> action_id \<Rightarrow> nat option" where
  "action_index s i = find_index (\<lambda>a. action_key a = i) (kernel_actions s)"

definition review_index :: "kernel_aggregate \<Rightarrow> review_cycle_id \<Rightarrow> nat option" where
  "review_index s i = find_index (\<lambda>r. review_cycle_id_equal (review_key r) i) (kernel_reviews s)"

definition waiver_index :: "kernel_aggregate \<Rightarrow> finding_id \<Rightarrow> nat option" where
  "waiver_index s i = find_index (\<lambda>w. finding_id_equal (waiver_key w) i) (kernel_waivers s)"

definition contains_command :: "kernel_aggregate \<Rightarrow> command_id \<Rightarrow> bool" where
  "contains_command s i = list_ex (\<lambda>c. c = i) (accepted_command_ids s)"

definition contains_event :: "kernel_aggregate \<Rightarrow> event_id \<Rightarrow> bool" where
  "contains_event s i = list_ex (\<lambda>e. e = i) (event_ids s)"

definition has_live_run :: "kernel_aggregate \<Rightarrow> bool" where
  "has_live_run s = list_ex (\<lambda>r. \<not> run_terminal (run_phase r)) (kernel_runs s)"

definition has_live_turn_for_attempt :: "kernel_aggregate \<Rightarrow> attempt_id \<Rightarrow> bool" where
  "has_live_turn_for_attempt s i =
     list_ex (\<lambda>t. turn_attempt t = i \<and> \<not> turn_terminal (turn_phase t)) (kernel_turns s)"

definition has_live_action_for_turn :: "kernel_aggregate \<Rightarrow> turn_id \<Rightarrow> bool" where
  "has_live_action_for_turn s i =
     list_ex (\<lambda>a. action_turn a = i \<and> \<not> action_terminal (action_phase a)) (kernel_actions s)"

section \<open>Structural validation\<close>

definition has_duplicate :: "('a \<Rightarrow> 'k) \<Rightarrow> 'a list \<Rightarrow> bool" where
  "has_duplicate key xs = list_ex (\<lambda>l. list_ex (\<lambda>r. key (xs ! l) = key (xs ! r)) [l + 1..<length xs]) [0..<length xs]"

definition has_duplicate_commands :: "kernel_aggregate \<Rightarrow> bool" where
  "has_duplicate_commands s = has_duplicate (\<lambda>c. c) (accepted_command_ids s)"

definition has_duplicate_events :: "kernel_aggregate \<Rightarrow> bool" where
  "has_duplicate_events s = has_duplicate (\<lambda>e. e) (event_ids s)"

definition has_duplicate_children :: "kernel_aggregate \<Rightarrow> bool" where
  "has_duplicate_children s \<longleftrightarrow>
     has_duplicate run_key (kernel_runs s) \<or> has_duplicate attempt_key (kernel_attempts s)
   \<or> has_duplicate turn_key (kernel_turns s) \<or> has_duplicate action_key (kernel_actions s)
   \<or> has_duplicate review_key (kernel_reviews s) \<or> has_duplicate waiver_key (kernel_waivers s)"

definition parents_are_valid :: "kernel_aggregate \<Rightarrow> bool" where
  "parents_are_valid s \<longleftrightarrow>
     list_all (\<lambda>a. run_of s (attempt_run a) \<noteq> None) (kernel_attempts s)
   \<and> list_all (\<lambda>t. attempt_of s (turn_attempt t) \<noteq> None) (kernel_turns s)
   \<and> list_all (\<lambda>a. turn_of s (action_turn a) \<noteq> None) (kernel_actions s)
   \<and> list_all (\<lambda>r. case attempt_of s (review_attempt r) of
        None \<Rightarrow> False | Some a \<Rightarrow> attempt_run a = review_run r) (kernel_reviews s)
   \<and> list_all (\<lambda>w. case review_of s (waiver_review w) of
        None \<Rightarrow> False | Some r \<Rightarrow> review_run r = waiver_run w) (kernel_waivers s)"

definition run_is_consistent :: "kernel_aggregate \<Rightarrow> run_state \<Rightarrow> bool" where
  "run_is_consistent s r \<longleftrightarrow> run_revision r = kernel_revision s
   \<and> (run_phase r = RunIsAccepted) = (run_acceptance r = AcceptanceIsAccepted)
   \<and> \<not> (run_terminal (run_phase r) \<and> run_phase r \<noteq> RunIsAccepted \<and> run_acceptance r \<noteq> AcceptanceTerminated)"

definition count_live_runs :: "kernel_aggregate \<Rightarrow> nat" where
  "count_live_runs s = fold (\<lambda>r n. if \<not> run_terminal (run_phase r) then n + 1 else n) (kernel_runs s) 0"

definition aggregate_is_valid :: "kernel_aggregate \<Rightarrow> bool" where
  "aggregate_is_valid s =
    (if binding_revision (kernel_binding s) \<noteq> kernel_revision s
        \<or> binding_contract_id (kernel_binding s) \<noteq> acceptance_spec_id (kernel_revision s)
        \<or> length (accepted_command_ids s) \<noteq> length (event_ids s)
        \<or> event_ids s = [] \<or> event_ids s ! (length (event_ids s) - 1) \<noteq> head_event_id s
     then False
     else if has_duplicate_commands s \<or> has_duplicate_events s \<or> has_duplicate_children s then False
     else if \<not> list_all (run_is_consistent s) (kernel_runs s) then False
     else if 1 < count_live_runs s \<or> session_terminal (session_phase (kernel_session s)) \<and> count_live_runs s \<noteq> 0
     then False
     else parents_are_valid s)"

section \<open>Opening a session\<close>

record kernel_genesis =
  genesis_aggregate :: kernel_aggregate
  genesis_event :: kernel_event

definition kernel_open ::
  "project_id \<Rightarrow> session_id \<Rightarrow> acceptance_contract \<Rightarrow> revision_tuple \<Rightarrow> command_envelope
     \<Rightarrow> kernel_error + kernel_genesis" where
  "kernel_open project session contract cur envelope =
    (if \<not> kernel_revision_equal (envelope_revision envelope) cur then Err (plain_error KernelRevisionMismatch)
     else if expected_previous_event_id envelope \<noteq> None then Err (plain_error CausalHeadMismatch)
     else case contract_bind contract cur of
       Inl _ \<Rightarrow> Err (plain_error KernelContractMismatch)
     | Inr binding \<Rightarrow>
        (let event = \<lparr>kernel_event_id = envelope_event_id envelope,
               event_command_id = envelope_command_id envelope, event_sequence = event_sequence_first,
               previous_event_id = None, event_revision = cur, event_kind = SessionOpened,
               event_subject = SessionSubject session\<rparr>;
             aggregate = \<lparr>kernel_project_id = project, kernel_revision = cur, kernel_binding = binding,
               kernel_session = \<lparr>session_key = session, session_phase = SessionOpen\<rparr>,
               head_event_id = envelope_event_id envelope, last_sequence = event_sequence_first,
               accepted_command_ids = [envelope_command_id envelope], event_ids = [envelope_event_id envelope],
               kernel_runs = [], kernel_attempts = [], kernel_turns = [], kernel_actions = [],
               kernel_reviews = [], kernel_waivers = []\<rparr> in
         if \<not> aggregate_is_valid aggregate then Err (plain_error InvalidAggregate)
         else Ok \<lparr>genesis_aggregate = aggregate, genesis_event = event\<rparr>))"

end
