(* ===== verification/Kernel_Reducer.thy ===== *)
theory Kernel_Reducer
  imports Kernel_Model
begin

text \<open>
  \<open>peritus-kernel\<close>, files \<open>reducer.rs\<close> and \<open>reducer\<close>: one function per command family, each a
  translation of the family's \<open>apply\<close> with its guards in the order of the code, the preflight, the
  audit of the critical steps, and \<open>reduce\<close>. The code mutates a clone of the aggregate; the
  functions return the changed aggregate. A loop over a list that changes its elements is a \<open>map\<close>.
\<close>

section \<open>Setters of the records\<close>

definition set_session_phase :: "session_phase \<Rightarrow> kernel_aggregate \<Rightarrow> kernel_aggregate" where
  "set_session_phase p s = s\<lparr>kernel_session := (kernel_session s)\<lparr>session_phase := p\<rparr>\<rparr>"

definition set_run_phase :: "nat \<Rightarrow> run_phase \<Rightarrow> kernel_aggregate \<Rightarrow> kernel_aggregate" where
  "set_run_phase i p s = s\<lparr>kernel_runs := (kernel_runs s)[i := (kernel_runs s ! i)\<lparr>run_phase := p\<rparr>]\<rparr>"

definition set_run_acceptance :: "nat \<Rightarrow> acceptance_phase \<Rightarrow> kernel_aggregate \<Rightarrow> kernel_aggregate" where
  "set_run_acceptance i p s = s\<lparr>kernel_runs := (kernel_runs s)[i := (kernel_runs s ! i)\<lparr>run_acceptance := p\<rparr>]\<rparr>"

definition set_run_attempt :: "nat \<Rightarrow> attempt_id option \<Rightarrow> kernel_aggregate \<Rightarrow> kernel_aggregate" where
  "set_run_attempt i a s = s\<lparr>kernel_runs := (kernel_runs s)[i := (kernel_runs s ! i)\<lparr>run_current_attempt := a\<rparr>]\<rparr>"

definition set_attempt_phase :: "nat \<Rightarrow> attempt_phase \<Rightarrow> kernel_aggregate \<Rightarrow> kernel_aggregate" where
  "set_attempt_phase i p s =
     s\<lparr>kernel_attempts := (kernel_attempts s)[i := (kernel_attempts s ! i)\<lparr>attempt_phase := p\<rparr>]\<rparr>"

definition set_turn_phase :: "nat \<Rightarrow> turn_phase \<Rightarrow> kernel_aggregate \<Rightarrow> kernel_aggregate" where
  "set_turn_phase i p s = s\<lparr>kernel_turns := (kernel_turns s)[i := (kernel_turns s ! i)\<lparr>turn_phase := p\<rparr>]\<rparr>"

definition set_action_phase :: "nat \<Rightarrow> action_phase \<Rightarrow> kernel_aggregate \<Rightarrow> kernel_aggregate" where
  "set_action_phase i p s =
     s\<lparr>kernel_actions := (kernel_actions s)[i := (kernel_actions s ! i)\<lparr>action_phase := p\<rparr>]\<rparr>"

definition set_review_phase :: "nat \<Rightarrow> review_phase \<Rightarrow> kernel_aggregate \<Rightarrow> kernel_aggregate" where
  "set_review_phase i p s =
     s\<lparr>kernel_reviews := (kernel_reviews s)[i := (kernel_reviews s ! i)\<lparr>review_phase := p\<rparr>]\<rparr>"

definition set_waiver_phase :: "nat \<Rightarrow> waiver_phase \<Rightarrow> kernel_aggregate \<Rightarrow> kernel_aggregate" where
  "set_waiver_phase i p s =
     s\<lparr>kernel_waivers := (kernel_waivers s)[i := (kernel_waivers s ! i)\<lparr>waiver_phase := p\<rparr>]\<rparr>"

section \<open>What a family returns\<close>

datatype acceptance_outcome = OutcomeAccepted | OutcomeNeedsChanges nat

record applied_command =
  applied_kind :: kernel_event_kind
  applied_subject :: kernel_subject
  applied_outcome :: "acceptance_outcome option"

definition applied_new :: "kernel_event_kind \<Rightarrow> kernel_subject \<Rightarrow> applied_command" where
  "applied_new k x = \<lparr>applied_kind = k, applied_subject = x, applied_outcome = None\<rparr>"

definition applied_acceptance :: "kernel_event_kind \<Rightarrow> kernel_subject \<Rightarrow> acceptance_outcome \<Rightarrow> applied_command" where
  "applied_acceptance k x out = \<lparr>applied_kind = k, applied_subject = x, applied_outcome = Some out\<rparr>"

type_synonym family_result = "kernel_error + kernel_aggregate \<times> applied_command"

section \<open>Session\<close>

definition has_unpaused_run :: "kernel_aggregate \<Rightarrow> bool" where
  "has_unpaused_run s =
     list_ex (\<lambda>r. \<not> run_terminal (run_phase r) \<and> run_phase r \<noteq> RunIsPaused) (kernel_runs s)"

fun session_apply :: "kernel_aggregate \<Rightarrow> kernel_command \<Rightarrow> family_result" where
  "session_apply s PauseSession =
    (if session_phase (kernel_session s) \<noteq> SessionOpen \<or> has_unpaused_run s
     then Err (entity_error IllegalPhase SessionEntity)
     else Ok (set_session_phase SessionIsPaused s,
              applied_new SessionPaused (SessionSubject (session_key (kernel_session s)))))"
| "session_apply s ResumeSession =
    (if session_phase (kernel_session s) \<noteq> SessionIsPaused
     then Err (entity_error IllegalPhase SessionEntity)
     else Ok (set_session_phase SessionOpen s,
              applied_new SessionResumed (SessionSubject (session_key (kernel_session s)))))"
| "session_apply s CloseSession =
    (if session_phase (kernel_session s) = SessionIsClosed
     then Err (entity_error IllegalPhase SessionEntity)
     else if has_live_run s then Err (entity_error LiveChild RunEntity)
     else Ok (set_session_phase SessionIsClosed s,
              applied_new SessionClosed (SessionSubject (session_key (kernel_session s)))))"
| "session_apply s _ = Err (entity_error IllegalPhase SessionEntity)"

section \<open>Runs\<close>

definition run_start :: "kernel_aggregate \<Rightarrow> run_id \<Rightarrow> reducer_inputs \<Rightarrow> family_result" where
  "run_start s i inputs =
    (if session_phase (kernel_session s) \<noteq> SessionOpen then Err (entity_error IllegalPhase SessionEntity)
     else if run_of s i \<noteq> None then Err (entity_error DuplicateEntity RunEntity)
     else if has_live_run s then Err (entity_error LiveChild RunEntity)
     else case inputs_run_budget inputs of
       None \<Rightarrow> Err (authority_error MissingAuthorityInput RunBudgetInput)
     | Some b \<Rightarrow>
       if snapshot_revision b \<noteq> kernel_revision s \<or> snapshot_parent_id b \<noteq> None
       then Err (authority_error AuthorityMismatch RunBudgetInput)
       else if snapshot_phase b \<noteq> Open then Err (authority_error BudgetUnavailable RunBudgetInput)
       else Ok (s\<lparr>kernel_runs := kernel_runs s
                  @ [run_pending i (kernel_revision s) (snapshot_id b) (snapshot_limits b)]\<rparr>,
                applied_new RunStarted (RunSubject i)))"

definition run_pause :: "kernel_aggregate \<Rightarrow> run_id \<Rightarrow> family_result" where
  "run_pause s i = (case run_index s i of
     None \<Rightarrow> Err (entity_error MissingEntity RunEntity)
   | Some k \<Rightarrow>
     if session_phase (kernel_session s) \<noteq> SessionOpen
        \<or> \<not> (run_phase (kernel_runs s ! k) = RunRunning \<or> run_phase (kernel_runs s ! k) = RunFixing)
     then Err (entity_error IllegalPhase RunEntity)
     else Ok (set_run_phase k RunIsPaused s, applied_new RunPaused (RunSubject i)))"

definition run_resume :: "kernel_aggregate \<Rightarrow> run_id \<Rightarrow> family_result" where
  "run_resume s i = (case run_index s i of
     None \<Rightarrow> Err (entity_error MissingEntity RunEntity)
   | Some k \<Rightarrow>
     if session_phase (kernel_session s) \<noteq> SessionOpen \<or> run_phase (kernel_runs s ! k) \<noteq> RunIsPaused
     then Err (entity_error IllegalPhase RunEntity)
     else Ok (set_run_phase k RunRunning s, applied_new RunResumed (RunSubject i)))"

text \<open>The three loops of \<open>terminate\<close>, each over the lists the loops before it have changed.\<close>

definition terminate_run_attempts :: "run_id \<Rightarrow> attempt_phase \<Rightarrow> kernel_aggregate \<Rightarrow> kernel_aggregate" where
  "terminate_run_attempts i p s = s\<lparr>kernel_attempts := map (\<lambda>a.
     if attempt_run a = i \<and> \<not> attempt_terminal (attempt_phase a) then a\<lparr>attempt_phase := p\<rparr> else a)
     (kernel_attempts s)\<rparr>"

definition terminate_run_turns :: "run_id \<Rightarrow> turn_phase \<Rightarrow> kernel_aggregate \<Rightarrow> kernel_aggregate" where
  "terminate_run_turns i p s = s\<lparr>kernel_turns := map (\<lambda>t.
     if (case attempt_of s (turn_attempt t) of Some a \<Rightarrow> attempt_run a = i | None \<Rightarrow> False)
        \<and> \<not> turn_terminal (turn_phase t) then t\<lparr>turn_phase := p\<rparr> else t)
     (kernel_turns s)\<rparr>"

definition terminate_run_actions :: "run_id \<Rightarrow> action_phase \<Rightarrow> kernel_aggregate \<Rightarrow> kernel_aggregate" where
  "terminate_run_actions i p s = s\<lparr>kernel_actions := map (\<lambda>c.
     if (case turn_of s (action_turn c) of
           Some t \<Rightarrow> (case attempt_of s (turn_attempt t) of Some a \<Rightarrow> attempt_run a = i | None \<Rightarrow> False)
         | None \<Rightarrow> False)
        \<and> \<not> action_terminal (action_phase c) then c\<lparr>action_phase := p\<rparr> else c)
     (kernel_actions s)\<rparr>"

definition run_terminate ::
  "kernel_aggregate \<Rightarrow> run_id \<Rightarrow> run_phase \<Rightarrow> attempt_phase \<Rightarrow> turn_phase \<Rightarrow> action_phase
     \<Rightarrow> kernel_event_kind \<Rightarrow> family_result" where
  "run_terminate s i rp ap tp cp kind = (case run_index s i of
     None \<Rightarrow> Err (entity_error MissingEntity RunEntity)
   | Some k \<Rightarrow>
     if run_terminal (run_phase (kernel_runs s ! k)) then Err (entity_error IllegalPhase RunEntity)
     else (let s1 = terminate_run_attempts i ap s;
               s2 = terminate_run_turns i tp s1;
               s3 = terminate_run_actions i cp s2;
               s4 = set_run_phase k rp s3;
               s5 = set_run_acceptance k AcceptanceTerminated s4;
               s6 = set_run_attempt k None s5 in
           Ok (s6, applied_new kind (RunSubject i))))"

fun run_apply :: "kernel_aggregate \<Rightarrow> kernel_command \<Rightarrow> reducer_inputs \<Rightarrow> family_result" where
  "run_apply s (StartRun i) inputs = run_start s i inputs"
| "run_apply s (PauseRun i) inputs = run_pause s i"
| "run_apply s (ResumeRun i) inputs = run_resume s i"
| "run_apply s (CancelRun i) inputs =
     run_terminate s i RunIsCancelled AttemptCancelled TurnIsCancelled ActionIsCancelled RunCancelled"
| "run_apply s (FailRun i) inputs =
     run_terminate s i RunHasFailed AttemptHasFailed TurnHasFailed ActionHasFailed RunFailed"
| "run_apply s (ExhaustRun i) inputs =
     run_terminate s i RunIsExhausted AttemptIsExhausted TurnIsCancelled ActionIsCancelled RunExhausted"
| "run_apply s (RejectRun i) inputs =
     run_terminate s i RunIsRejected AttemptHasFailed TurnIsCancelled ActionIsCancelled RunRejected"
| "run_apply s _ inputs = Err (entity_error IllegalPhase RunEntity)"

section \<open>Attempts\<close>

definition attempt_start ::
  "kernel_aggregate \<Rightarrow> run_id \<Rightarrow> attempt_id \<Rightarrow> reducer_inputs \<Rightarrow> family_result" where
  "attempt_start s i a inputs =
    (if session_phase (kernel_session s) \<noteq> SessionOpen then Err (entity_error IllegalPhase SessionEntity)
     else case run_index s i of
       None \<Rightarrow> Err (entity_error MissingEntity RunEntity)
     | Some k \<Rightarrow>
       if \<not> (run_phase (kernel_runs s ! k) = RunPending \<or> run_phase (kernel_runs s ! k) = RunRunning)
          \<or> run_current_attempt (kernel_runs s ! k) \<noteq> None
       then Err (entity_error IllegalPhase RunEntity)
       else if attempt_of s a \<noteq> None then Err (entity_error DuplicateEntity AttemptEntity)
       else case inputs_attempt_budget inputs of
         None \<Rightarrow> Err (authority_error MissingAuthorityInput AttemptBudgetInput)
       | Some child \<Rightarrow> (case inputs_parent_budget inputs of
           None \<Rightarrow> Err (authority_error MissingAuthorityInput ParentBudgetInput)
         | Some par \<Rightarrow>
           if snapshot_revision child \<noteq> kernel_revision s \<or> snapshot_revision par \<noteq> kernel_revision s
              \<or> snapshot_parent_id child \<noteq> Some (snapshot_id par)
              \<or> snapshot_id par \<noteq> run_budget_id (kernel_runs s ! k)
           then Err (authority_error AuthorityMismatch AttemptBudgetInput)
           else if snapshot_phase child \<noteq> Open \<or> snapshot_phase par \<noteq> Open
           then Err (authority_error BudgetUnavailable AttemptBudgetInput)
           else if \<not> fits_within (limit_amounts (snapshot_limits child)) (snapshot_available par)
           then Err (authority_error KernelBudgetExceeded AttemptBudgetInput)
           else (let s1 = s\<lparr>kernel_attempts := kernel_attempts s
                        @ [attempt_active a i (snapshot_id child) (snapshot_limits child)]\<rparr>;
                     s2 = set_run_phase k RunRunning s1;
                     s3 = set_run_acceptance k AcceptancePending s2;
                     s4 = set_run_attempt k (Some a) s3 in
                 Ok (s4, applied_new AttemptStarted (AttemptSubject a)))))"

definition attempt_resume :: "kernel_aggregate \<Rightarrow> run_id \<Rightarrow> attempt_id \<Rightarrow> family_result" where
  "attempt_resume s i a = (case (run_index s i, attempt_index s a) of
     (Some k, Some m) \<Rightarrow>
       if attempt_run (kernel_attempts s ! m) \<noteq> i then Err (entity_error ParentMismatch AttemptEntity)
       else if run_phase (kernel_runs s ! k) \<noteq> RunFixing
          \<or> attempt_phase (kernel_attempts s ! m) \<noteq> AttemptFixing \<or> has_live_turn_for_attempt s a
       then Err (entity_error IllegalPhase AttemptEntity)
       else (let s1 = set_attempt_phase m AttemptActive s;
                 s2 = set_run_phase k RunRunning s1;
                 s3 = set_run_acceptance k AcceptancePending s2 in
             Ok (s3, applied_new AttemptResumed (AttemptSubject a)))
   | _ \<Rightarrow> Err (entity_error MissingEntity AttemptEntity))"

definition attempt_submit :: "kernel_aggregate \<Rightarrow> run_id \<Rightarrow> attempt_id \<Rightarrow> family_result" where
  "attempt_submit s i a = (case (run_index s i, attempt_index s a) of
     (Some k, Some m) \<Rightarrow>
       if attempt_run (kernel_attempts s ! m) \<noteq> i then Err (entity_error ParentMismatch AttemptEntity)
       else if run_phase (kernel_runs s ! k) \<noteq> RunRunning
          \<or> attempt_phase (kernel_attempts s ! m) \<noteq> AttemptActive \<or> has_live_turn_for_attempt s a
       then Err (entity_error LiveChild TurnEntity)
       else (let s1 = set_attempt_phase m AttemptIsSubmitted s;
                 s2 = set_run_phase k RunReviewing s1;
                 s3 = set_run_acceptance k AcceptancePending s2 in
             Ok (s3, applied_new AttemptSubmitted (AttemptSubject a)))
   | _ \<Rightarrow> Err (entity_error MissingEntity AttemptEntity))"

definition terminate_attempt_turns :: "attempt_id \<Rightarrow> turn_phase \<Rightarrow> kernel_aggregate \<Rightarrow> kernel_aggregate" where
  "terminate_attempt_turns a p s = s\<lparr>kernel_turns := map (\<lambda>t.
     if turn_attempt t = a \<and> \<not> turn_terminal (turn_phase t) then t\<lparr>turn_phase := p\<rparr> else t)
     (kernel_turns s)\<rparr>"

definition terminate_attempt_actions :: "attempt_id \<Rightarrow> action_phase \<Rightarrow> kernel_aggregate \<Rightarrow> kernel_aggregate" where
  "terminate_attempt_actions a p s = s\<lparr>kernel_actions := map (\<lambda>c.
     if (case turn_of s (action_turn c) of Some t \<Rightarrow> turn_attempt t = a | None \<Rightarrow> False)
        \<and> \<not> action_terminal (action_phase c) then c\<lparr>action_phase := p\<rparr> else c)
     (kernel_actions s)\<rparr>"

definition attempt_terminate ::
  "kernel_aggregate \<Rightarrow> run_id \<Rightarrow> attempt_id \<Rightarrow> attempt_phase \<Rightarrow> turn_phase \<Rightarrow> action_phase
     \<Rightarrow> kernel_event_kind \<Rightarrow> family_result" where
  "attempt_terminate s i a ap tp cp kind = (case (run_index s i, attempt_index s a) of
     (Some k, Some m) \<Rightarrow>
       if attempt_run (kernel_attempts s ! m) \<noteq> i then Err (entity_error ParentMismatch AttemptEntity)
       else if run_terminal (run_phase (kernel_runs s ! k))
          \<or> attempt_terminal (attempt_phase (kernel_attempts s ! m))
       then Err (entity_error IllegalPhase AttemptEntity)
       else (let s1 = terminate_attempt_turns a tp s;
                 s2 = terminate_attempt_actions a cp s1;
                 s3 = set_attempt_phase m ap s2;
                 s4 = set_run_phase k RunRunning s3;
                 s5 = set_run_acceptance k AcceptancePending s4;
                 s6 = set_run_attempt k None s5 in
             Ok (s6, applied_new kind (AttemptSubject a)))
   | _ \<Rightarrow> Err (entity_error MissingEntity AttemptEntity))"

fun attempt_apply :: "kernel_aggregate \<Rightarrow> kernel_command \<Rightarrow> reducer_inputs \<Rightarrow> family_result" where
  "attempt_apply s (StartAttempt i a) inputs = attempt_start s i a inputs"
| "attempt_apply s (ResumeAttempt i a) inputs = attempt_resume s i a"
| "attempt_apply s (SubmitAttempt i a) inputs = attempt_submit s i a"
| "attempt_apply s (FailAttempt i a) inputs =
     attempt_terminate s i a AttemptHasFailed TurnHasFailed ActionHasFailed AttemptFailed"
| "attempt_apply s (ExhaustAttempt i a) inputs =
     attempt_terminate s i a AttemptIsExhausted TurnIsCancelled ActionIsCancelled AttemptExhausted"
| "attempt_apply s _ inputs = Err (entity_error IllegalPhase AttemptEntity)"

section \<open>Turns\<close>

definition turn_start :: "kernel_aggregate \<Rightarrow> attempt_id \<Rightarrow> turn_id \<Rightarrow> family_result" where
  "turn_start s a t = (case attempt_index s a of
     None \<Rightarrow> Err (entity_error MissingEntity AttemptEntity)
   | Some m \<Rightarrow>
     if attempt_phase (kernel_attempts s ! m) \<noteq> AttemptActive
     then Err (entity_error IllegalPhase AttemptEntity)
     else if turn_of s t \<noteq> None then Err (entity_error DuplicateEntity TurnEntity)
     else if has_live_turn_for_attempt s a then Err (entity_error LiveChild TurnEntity)
     else Ok (s\<lparr>kernel_turns := kernel_turns s @ [turn_active t a]\<rparr>,
              applied_new TurnStarted (TurnSubject t)))"

definition turn_complete :: "kernel_aggregate \<Rightarrow> attempt_id \<Rightarrow> turn_id \<Rightarrow> family_result" where
  "turn_complete s a t = (case turn_index s t of
     None \<Rightarrow> Err (entity_error MissingEntity TurnEntity)
   | Some k \<Rightarrow>
     if turn_attempt (kernel_turns s ! k) \<noteq> a then Err (entity_error ParentMismatch TurnEntity)
     else if turn_phase (kernel_turns s ! k) \<noteq> TurnActive then Err (entity_error IllegalPhase TurnEntity)
     else if has_live_action_for_turn s t then Err (entity_error LiveChild ActionEntity)
     else Ok (set_turn_phase k TurnIsCompleted s, applied_new TurnCompleted (TurnSubject t)))"

definition terminate_turn_actions :: "turn_id \<Rightarrow> action_phase \<Rightarrow> kernel_aggregate \<Rightarrow> kernel_aggregate" where
  "terminate_turn_actions t p s = s\<lparr>kernel_actions := map (\<lambda>c.
     if action_turn c = t \<and> \<not> action_terminal (action_phase c) then c\<lparr>action_phase := p\<rparr> else c)
     (kernel_actions s)\<rparr>"

definition turn_terminate ::
  "kernel_aggregate \<Rightarrow> attempt_id \<Rightarrow> turn_id \<Rightarrow> turn_phase \<Rightarrow> action_phase \<Rightarrow> kernel_event_kind
     \<Rightarrow> family_result" where
  "turn_terminate s a t tp cp kind = (case turn_index s t of
     None \<Rightarrow> Err (entity_error MissingEntity TurnEntity)
   | Some k \<Rightarrow>
     if turn_attempt (kernel_turns s ! k) \<noteq> a then Err (entity_error ParentMismatch TurnEntity)
     else if turn_phase (kernel_turns s ! k) \<noteq> TurnActive then Err (entity_error IllegalPhase TurnEntity)
     else (let s1 = terminate_turn_actions t cp s;
               s2 = set_turn_phase k tp s1 in
           Ok (s2, applied_new kind (TurnSubject t))))"

fun turn_apply :: "kernel_aggregate \<Rightarrow> kernel_command \<Rightarrow> family_result" where
  "turn_apply s (StartTurn a t) = turn_start s a t"
| "turn_apply s (CompleteTurn a t) = turn_complete s a t"
| "turn_apply s (FailTurn a t) = turn_terminate s a t TurnHasFailed ActionHasFailed TurnFailed"
| "turn_apply s (CancelTurn a t) = turn_terminate s a t TurnIsCancelled ActionIsCancelled TurnCancelled"
| "turn_apply s _ = Err (entity_error IllegalPhase TurnEntity)"

end
