(* ===== verification/Kernel_Evidence.thy ===== *)
theory Kernel_Evidence
  imports Kernel_Reducer
begin

text \<open>
  \<open>peritus-kernel\<close>, files \<open>reducer/action.rs\<close>, \<open>review.rs\<close>, \<open>waiver.rs\<close>, \<open>waiver_evidence.rs\<close>,
  \<open>acceptance.rs\<close>, \<open>refinement.rs\<close> and \<open>reducer.rs\<close>: the families whose commands need a capability
  use or acceptance evidence, the audit of critical steps, and the reducer.
\<close>

section \<open>Actions\<close>

definition action_propose ::
  "kernel_aggregate \<Rightarrow> turn_id \<Rightarrow> action_id \<Rightarrow> sha256_digest \<Rightarrow> actor_id \<Rightarrow> actor_role \<Rightarrow> environment_id
     \<Rightarrow> family_result" where
  "action_propose s t c digest actor role environment = (case turn_index s t of
     None \<Rightarrow> Err (entity_error MissingEntity TurnEntity)
   | Some k \<Rightarrow>
     if turn_phase (kernel_turns s ! k) \<noteq> TurnActive then Err (entity_error IllegalPhase TurnEntity)
     else if action_of s c \<noteq> None then Err (entity_error DuplicateEntity ActionEntity)
     else Ok (s\<lparr>kernel_actions := kernel_actions s @ [action_proposed c t digest actor role environment]\<rparr>,
              applied_new ActionProposed (ActionSubject c)))"

definition action_authorize_with :: "kernel_aggregate \<Rightarrow> action_id \<Rightarrow> reducer_inputs \<Rightarrow> family_result" where
  "action_authorize_with s c inputs = (case action_index s c of
     None \<Rightarrow> Err (entity_error MissingEntity ActionEntity)
   | Some k \<Rightarrow>
     if action_phase (kernel_actions s ! k) \<noteq> ActionIsProposed then Err (entity_error IllegalPhase ActionEntity)
     else case inputs_capability_use inputs of
       None \<Rightarrow> Err (authority_error MissingAuthorityInput CapabilityUseInput)
     | Some tr \<Rightarrow>
       (case witness_from_transition c (action_digest (kernel_actions s ! k)) (action_actor (kernel_actions s ! k))
               (action_role (kernel_actions s ! k)) (action_environment (kernel_actions s ! k))
               (kernel_revision s) tr of
          Inl e \<Rightarrow> Err e
        | Inr w \<Rightarrow> Ok (s\<lparr>kernel_actions := (kernel_actions s)[k := action_authorize w (kernel_actions s ! k)]\<rparr>,
                       applied_new ActionAuthorized (ActionSubject c))))"

definition action_advance ::
  "kernel_aggregate \<Rightarrow> action_id \<Rightarrow> action_phase \<Rightarrow> action_phase \<Rightarrow> kernel_event_kind \<Rightarrow> family_result" where
  "action_advance s c expected successor_phase kind = (case action_index s c of
     None \<Rightarrow> Err (entity_error MissingEntity ActionEntity)
   | Some k \<Rightarrow>
     if action_phase (kernel_actions s ! k) \<noteq> expected then Err (entity_error IllegalPhase ActionEntity)
     else Ok (set_action_phase k successor_phase s, applied_new kind (ActionSubject c)))"

definition action_fail :: "kernel_aggregate \<Rightarrow> action_id \<Rightarrow> family_result" where
  "action_fail s c = (case action_index s c of
     None \<Rightarrow> Err (entity_error MissingEntity ActionEntity)
   | Some k \<Rightarrow>
     if \<not> (action_phase (kernel_actions s ! k) = ActionIsAuthorized
          \<or> action_phase (kernel_actions s ! k) = ActionIsDispatched)
     then Err (entity_error IllegalPhase ActionEntity)
     else Ok (set_action_phase k ActionHasFailed s, applied_new ActionFailed (ActionSubject c)))"

definition action_cancel :: "kernel_aggregate \<Rightarrow> action_id \<Rightarrow> family_result" where
  "action_cancel s c = (case action_index s c of
     None \<Rightarrow> Err (entity_error MissingEntity ActionEntity)
   | Some k \<Rightarrow>
     if \<not> (action_phase (kernel_actions s ! k) = ActionIsProposed
          \<or> action_phase (kernel_actions s ! k) = ActionIsAuthorized)
     then Err (entity_error IllegalPhase ActionEntity)
     else Ok (set_action_phase k ActionIsCancelled s, applied_new ActionCancelled (ActionSubject c)))"

fun action_apply :: "kernel_aggregate \<Rightarrow> kernel_command \<Rightarrow> reducer_inputs \<Rightarrow> family_result" where
  "action_apply s (ProposeAction t c digest actor role environment) inputs =
     action_propose s t c digest actor role environment"
| "action_apply s (AuthorizeAction c) inputs = action_authorize_with s c inputs"
| "action_apply s (DispatchAction c) inputs =
     action_advance s c ActionIsAuthorized ActionIsDispatched ActionDispatched"
| "action_apply s (CompleteAction c) inputs =
     action_advance s c ActionIsDispatched ActionSucceeded ActionCompleted"
| "action_apply s (FailAction c) inputs = action_fail s c"
| "action_apply s (CancelAction c) inputs = action_cancel s c"
| "action_apply s _ inputs = Err (entity_error IllegalPhase ActionEntity)"

section \<open>Reviews\<close>

definition count_run_reviews :: "kernel_aggregate \<Rightarrow> run_id \<Rightarrow> nat" where
  "count_run_reviews s i = fold (\<lambda>r n. if review_run r = i then n + 1 else n) (kernel_reviews s) 0"

definition review_request ::
  "kernel_aggregate \<Rightarrow> run_id \<Rightarrow> attempt_id \<Rightarrow> review_cycle_id \<Rightarrow> reducer_inputs \<Rightarrow> family_result" where
  "review_request s i a v inputs = (case (run_index s i, attempt_index s a) of
     (Some k, Some m) \<Rightarrow>
       if attempt_run (kernel_attempts s ! m) \<noteq> i then Err (entity_error ParentMismatch AttemptEntity)
       else if run_phase (kernel_runs s ! k) \<noteq> RunReviewing
          \<or> \<not> (attempt_phase (kernel_attempts s ! m) = AttemptIsSubmitted
               \<or> attempt_phase (kernel_attempts s ! m) = AttemptReviewing)
       then Err (entity_error IllegalPhase ReviewEntity)
       else if review_of s v \<noteq> None then Err (entity_error DuplicateEntity ReviewEntity)
       else if unat (max_review_cycles (contract_completion_policy (inputs_contract inputs)))
               \<le> count_run_reviews s i
       then Err (entity_error IllegalPhase ReviewEntity)
       else (let s1 = s\<lparr>kernel_reviews := kernel_reviews s @ [review_requested v i a]\<rparr>;
                 s2 = set_attempt_phase m AttemptReviewing s1 in
             Ok (s2, applied_new ReviewRequested (ReviewSubject v)))
   | _ \<Rightarrow> Err (entity_error MissingEntity AttemptEntity))"

definition review_advance ::
  "kernel_aggregate \<Rightarrow> review_cycle_id \<Rightarrow> review_phase \<Rightarrow> review_phase \<Rightarrow> kernel_event_kind \<Rightarrow> family_result" where
  "review_advance s v expected successor_phase kind = (case review_index s v of
     None \<Rightarrow> Err (entity_error MissingEntity ReviewEntity)
   | Some k \<Rightarrow>
     if review_phase (kernel_reviews s ! k) \<noteq> expected then Err (entity_error IllegalPhase ReviewEntity)
     else Ok (set_review_phase k successor_phase s, applied_new kind (ReviewSubject v)))"

definition review_invalidate :: "kernel_aggregate \<Rightarrow> review_cycle_id \<Rightarrow> family_result" where
  "review_invalidate s v = (case review_index s v of
     None \<Rightarrow> Err (entity_error MissingEntity ReviewEntity)
   | Some k \<Rightarrow>
     if review_phase (kernel_reviews s ! k) = ReviewIsInvalidated then Err (entity_error IllegalPhase ReviewEntity)
     else Ok (set_review_phase k ReviewIsInvalidated s, applied_new ReviewInvalidated (ReviewSubject v)))"

fun review_apply :: "kernel_aggregate \<Rightarrow> kernel_command \<Rightarrow> reducer_inputs \<Rightarrow> family_result" where
  "review_apply s (RequestReview i a v) inputs = review_request s i a v inputs"
| "review_apply s (BeginReview v) inputs = review_advance s v ReviewIsRequested ReviewActive ReviewBegun"
| "review_apply s (SubmitReview v) inputs = review_advance s v ReviewActive ReviewIsSubmitted ReviewSubmitted"
| "review_apply s (InvalidateReview v) inputs = review_invalidate s v"
| "review_apply s _ inputs = Err (entity_error IllegalPhase ReviewEntity)"

section \<open>Waivers\<close>

definition current_supplied_waiver ::
  "acceptance_evidence \<Rightarrow> finding_id \<Rightarrow> revision_tuple \<Rightarrow> nat option" where
  "current_supplied_waiver e f cur = find_index (\<lambda>w.
     finding_id_equal (waiver_finding_id w) f \<and> kernel_revision_equal (waiver_revision w) cur) (evidence_waivers e)"

fun search_requested_finding ::
  "review_observation list \<Rightarrow> nat \<Rightarrow> review_cycle_id \<Rightarrow> finding_id \<Rightarrow> revision_tuple \<Rightarrow> (nat \<times> nat) option" where
  "search_requested_finding [] n v f cur = None"
| "search_requested_finding (o' # rest) n v f cur =
    (if review_cycle_id_equal (review_cycle_id o') v \<and> kernel_revision_equal (review_revision o') cur
     then (case find_index (\<lambda>x. finding_id_equal (finding_id x) f) (review_findings o') of
             Some j \<Rightarrow> Some (n, j)
           | None \<Rightarrow> search_requested_finding rest (n + 1) v f cur)
     else search_requested_finding rest (n + 1) v f cur)"

definition current_requested_finding ::
  "acceptance_evidence \<Rightarrow> review_cycle_id \<Rightarrow> finding_id \<Rightarrow> revision_tuple \<Rightarrow> (nat \<times> nat) option" where
  "current_requested_finding e v f cur = search_requested_finding (evidence_reviews e) 0 v f cur"

definition invalid_waiver_is_reported :: "unmet_condition list \<Rightarrow> finding_id \<Rightarrow> bool" where
  "invalid_waiver_is_reported conditions f = list_ex (\<lambda>c. case c of
     InvalidWaiver target reason \<Rightarrow> finding_id_equal target f | _ \<Rightarrow> False) conditions"

definition waiver_request :: "kernel_aggregate \<Rightarrow> run_id \<Rightarrow> review_cycle_id \<Rightarrow> finding_id \<Rightarrow> family_result" where
  "waiver_request s i v f = (case review_index s v of
     None \<Rightarrow> Err (entity_error MissingEntity ReviewEntity)
   | Some k \<Rightarrow>
     if review_run (kernel_reviews s ! k) \<noteq> i then Err (entity_error ParentMismatch ReviewEntity)
     else if review_phase (kernel_reviews s ! k) \<noteq> ReviewIsSubmitted then Err (entity_error IllegalPhase ReviewEntity)
     else if waiver_of s f \<noteq> None then Err (entity_error DuplicateEntity WaiverEntity)
     else Ok (s\<lparr>kernel_waivers := kernel_waivers s @ [waiver_requested f v i]\<rparr>,
              applied_new WaiverWasRequested (WaiverSubject f)))"

definition waiver_grant :: "kernel_aggregate \<Rightarrow> finding_id \<Rightarrow> reducer_inputs \<Rightarrow> family_result" where
  "waiver_grant s f inputs = (case waiver_index s f of
     None \<Rightarrow> Err (entity_error MissingEntity WaiverEntity)
   | Some k \<Rightarrow>
     if waiver_phase (kernel_waivers s ! k) \<noteq> WaiverIsRequested then Err (entity_error IllegalPhase WaiverEntity)
     else case review_index s (waiver_review (kernel_waivers s ! k)) of
       None \<Rightarrow> Err (plain_error InvalidAggregate)
     | Some j \<Rightarrow>
     if \<not> run_id_equal (review_run (kernel_reviews s ! j)) (waiver_run (kernel_waivers s ! k))
     then Err (plain_error InvalidAggregate)
     else case inputs_acceptance_evidence inputs of
       None \<Rightarrow> Err (authority_error MissingAuthorityInput AcceptanceEvidenceInput)
     | Some e \<Rightarrow> (case current_supplied_waiver e f (kernel_revision s) of
       None \<Rightarrow> Err (authority_error AuthorityMismatch AcceptanceEvidenceInput)
     | Some w \<Rightarrow>
     if \<not> list_ex (\<lambda>p. approval_request_id p = waiver_approval_request_id (evidence_waivers e ! w)
              \<and> approval_revision p = kernel_revision s \<and> approval_subject p = FindingWaiverSubject f
              \<and> approval_outcome p = Approved) (evidence_approvals e)
     then Err (authority_error AuthorityMismatch AcceptanceEvidenceInput)
     else case current_requested_finding e (waiver_review (kernel_waivers s ! k)) f (kernel_revision s) of
       None \<Rightarrow> Err (authority_error AuthorityMismatch AcceptanceEvidenceInput)
     | Some _ \<Rightarrow>
     if invalid_waiver_is_reported
          (unmet_conditions (evaluate_acceptance (inputs_contract inputs) (kernel_revision s) e)) f
     then Err (authority_error AuthorityMismatch AcceptanceEvidenceInput)
     else Ok (set_waiver_phase k WaiverIsGranted s, applied_new WaiverGranted (WaiverSubject f))))"

definition waiver_advance ::
  "kernel_aggregate \<Rightarrow> finding_id \<Rightarrow> waiver_phase \<Rightarrow> waiver_phase \<Rightarrow> kernel_event_kind \<Rightarrow> family_result" where
  "waiver_advance s f expected successor_phase kind = (case waiver_index s f of
     None \<Rightarrow> Err (entity_error MissingEntity WaiverEntity)
   | Some k \<Rightarrow>
     if waiver_phase (kernel_waivers s ! k) \<noteq> expected then Err (entity_error IllegalPhase WaiverEntity)
     else Ok (set_waiver_phase k successor_phase s, applied_new kind (WaiverSubject f)))"

definition waiver_invalidate :: "kernel_aggregate \<Rightarrow> finding_id \<Rightarrow> family_result" where
  "waiver_invalidate s f = (case waiver_index s f of
     None \<Rightarrow> Err (entity_error MissingEntity WaiverEntity)
   | Some k \<Rightarrow>
     if waiver_phase (kernel_waivers s ! k) = WaiverIsInvalidated then Err (entity_error IllegalPhase WaiverEntity)
     else Ok (set_waiver_phase k WaiverIsInvalidated s, applied_new WaiverInvalidated (WaiverSubject f)))"

fun waiver_apply :: "kernel_aggregate \<Rightarrow> kernel_command \<Rightarrow> reducer_inputs \<Rightarrow> family_result" where
  "waiver_apply s (RequestWaiver i v f) inputs = waiver_request s i v f"
| "waiver_apply s (GrantWaiver f) inputs = waiver_grant s f inputs"
| "waiver_apply s (DenyWaiver f) inputs = waiver_advance s f WaiverIsRequested WaiverIsDenied WaiverDenied"
| "waiver_apply s (InvalidateWaiver f) inputs = waiver_invalidate s f"
| "waiver_apply s _ inputs = Err (entity_error IllegalPhase WaiverEntity)"

section \<open>Acceptance\<close>

definition has_submitted_review :: "kernel_aggregate \<Rightarrow> run_id \<Rightarrow> attempt_id \<Rightarrow> bool" where
  "has_submitted_review s i a = list_ex (\<lambda>v. review_run v = i \<and> review_attempt v = a
     \<and> review_phase v = ReviewIsSubmitted) (kernel_reviews s)"

definition evidence_matches_projection ::
  "kernel_aggregate \<Rightarrow> run_id \<Rightarrow> attempt_id \<Rightarrow> acceptance_evidence \<Rightarrow> bool" where
  "evidence_matches_projection s i a e \<longleftrightarrow>
     list_all (\<lambda>x. case review_of s (review_cycle_id x) of
         None \<Rightarrow> False
       | Some v \<Rightarrow> \<not> (review_run v \<noteq> i \<or> review_attempt v \<noteq> a \<or> review_phase v \<noteq> ReviewIsSubmitted
                     \<or> review_revision x \<noteq> kernel_revision s)) (evidence_reviews e)
   \<and> list_all (\<lambda>x. case waiver_of s (waiver_finding_id x) of
         None \<Rightarrow> False
       | Some w \<Rightarrow> \<not> (waiver_run w \<noteq> i \<or> waiver_phase w \<noteq> WaiverIsGranted
                     \<or> waiver_revision x \<noteq> kernel_revision s)) (evidence_waivers e)"

definition acceptance_begin :: "kernel_aggregate \<Rightarrow> run_id \<Rightarrow> family_result" where
  "acceptance_begin s i = (case run_index s i of
     None \<Rightarrow> Err (entity_error MissingEntity RunEntity)
   | Some k \<Rightarrow> (case run_current_attempt (kernel_runs s ! k) of
     None \<Rightarrow> Err (entity_error MissingEntity AttemptEntity)
   | Some a \<Rightarrow> (case attempt_index s a of
     None \<Rightarrow> Err (entity_error MissingEntity AttemptEntity)
   | Some m \<Rightarrow>
     if run_phase (kernel_runs s ! k) \<noteq> RunReviewing \<or> run_acceptance (kernel_runs s ! k) \<noteq> AcceptancePending
        \<or> attempt_phase (kernel_attempts s ! m) \<noteq> AttemptReviewing \<or> \<not> has_submitted_review s i a
     then Err (entity_error IllegalPhase AcceptanceEntity)
     else Ok (set_run_acceptance k AcceptanceEvaluating s, applied_new AcceptanceBegun (AcceptanceOfRun i)))))"

definition acceptance_evaluate :: "kernel_aggregate \<Rightarrow> run_id \<Rightarrow> reducer_inputs \<Rightarrow> family_result" where
  "acceptance_evaluate s i inputs = (case run_index s i of
     None \<Rightarrow> Err (entity_error MissingEntity RunEntity)
   | Some k \<Rightarrow> (case run_current_attempt (kernel_runs s ! k) of
     None \<Rightarrow> Err (entity_error MissingEntity AttemptEntity)
   | Some a \<Rightarrow> (case attempt_index s a of
     None \<Rightarrow> Err (entity_error MissingEntity AttemptEntity)
   | Some m \<Rightarrow>
     if run_phase (kernel_runs s ! k) \<noteq> RunReviewing \<or> run_acceptance (kernel_runs s ! k) \<noteq> AcceptanceEvaluating
        \<or> attempt_phase (kernel_attempts s ! m) \<noteq> AttemptReviewing
     then Err (entity_error IllegalPhase AcceptanceEntity)
     else case inputs_acceptance_evidence inputs of
       None \<Rightarrow> Err (authority_error MissingAuthorityInput AcceptanceEvidenceInput)
     | Some e \<Rightarrow>
     if \<not> evidence_matches_projection s i a e
     then Err (authority_error AuthorityMismatch AcceptanceEvidenceInput)
     else (let decision = evaluate_acceptance (inputs_contract inputs) (kernel_revision s) e in
       if is_acceptable decision
       then (let s1 = set_attempt_phase m AttemptAccepted s;
                 s2 = set_run_phase k RunIsAccepted s1;
                 s3 = set_run_acceptance k AcceptanceIsAccepted s2;
                 s4 = set_run_attempt k None s3 in
             Ok (s4, applied_acceptance AcceptanceAccepted (AcceptanceOfRun i) OutcomeAccepted))
       else (let s1 = set_attempt_phase m AttemptFixing s;
                 s2 = set_run_phase k RunFixing s1;
                 s3 = set_run_acceptance k NeedsChanges s2 in
             Ok (s3, applied_acceptance AcceptanceNeedsChanges (AcceptanceOfRun i)
                       (OutcomeNeedsChanges (length (unmet_conditions decision)))))))))"

fun acceptance_apply :: "kernel_aggregate \<Rightarrow> kernel_command \<Rightarrow> reducer_inputs \<Rightarrow> family_result" where
  "acceptance_apply s (BeginAcceptance i) inputs = acceptance_begin s i"
| "acceptance_apply s (EvaluateAcceptance i) inputs = acceptance_evaluate s i inputs"
| "acceptance_apply s _ inputs = Err (entity_error IllegalPhase AcceptanceEntity)"

section \<open>The audit of critical steps\<close>

definition audit_run_edge ::
  "kernel_aggregate \<Rightarrow> kernel_aggregate \<Rightarrow> run_id \<Rightarrow> run_phase \<Rightarrow> acceptance_phase \<Rightarrow> bool" where
  "audit_run_edge before after i p acc = (case run_index before i of
     None \<Rightarrow> False
   | Some k \<Rightarrow> (case run_index after i of
     None \<Rightarrow> False
   | Some m \<Rightarrow> run_phase (kernel_runs before ! k) = RunReviewing
       \<and> run_acceptance (kernel_runs before ! k) = AcceptanceEvaluating
       \<and> run_phase (kernel_runs after ! m) = p \<and> run_acceptance (kernel_runs after ! m) = acc))"

definition audit_session_edge ::
  "kernel_aggregate \<Rightarrow> kernel_aggregate \<Rightarrow> session_id \<Rightarrow> (session_phase \<Rightarrow> bool) \<Rightarrow> session_phase \<Rightarrow> bool" where
  "audit_session_edge before after i legal p \<longleftrightarrow>
     session_key (kernel_session before) = i \<and> session_key (kernel_session after) = i
   \<and> legal (session_phase (kernel_session before)) \<and> session_phase (kernel_session after) = p"

definition critical_step_is_legal ::
  "kernel_aggregate \<Rightarrow> kernel_aggregate \<Rightarrow> kernel_event_kind \<Rightarrow> kernel_subject \<Rightarrow> bool" where
  "critical_step_is_legal before after kind subject = (case (kind, subject) of
     (SessionPaused, SessionSubject i) \<Rightarrow>
       audit_session_edge before after i (\<lambda>p. p = SessionOpen) SessionIsPaused
   | (SessionResumed, SessionSubject i) \<Rightarrow>
       audit_session_edge before after i (\<lambda>p. p = SessionIsPaused) SessionOpen
   | (SessionClosed, SessionSubject i) \<Rightarrow>
       audit_session_edge before after i (\<lambda>p. p \<noteq> SessionIsClosed) SessionIsClosed
   | (AcceptanceAccepted, AcceptanceOfRun i) \<Rightarrow>
       audit_run_edge before after i RunIsAccepted AcceptanceIsAccepted
   | (AcceptanceNeedsChanges, AcceptanceOfRun i) \<Rightarrow>
       audit_run_edge before after i RunFixing NeedsChanges
   | (SessionPaused, _) \<Rightarrow> False
   | (SessionResumed, _) \<Rightarrow> False
   | (SessionClosed, _) \<Rightarrow> False
   | (AcceptanceAccepted, _) \<Rightarrow> False
   | (AcceptanceNeedsChanges, _) \<Rightarrow> False
   | _ \<Rightarrow> True)"

definition no_new_acceptance :: "kernel_aggregate \<Rightarrow> kernel_aggregate \<Rightarrow> bool" where
  "no_new_acceptance before after = list_all (\<lambda>r.
     if run_phase r = RunIsAccepted
     then (case run_index before (run_key r) of
             None \<Rightarrow> False
           | Some k \<Rightarrow> run_phase (kernel_runs before ! k) = RunIsAccepted)
     else True) (kernel_runs after)"

section \<open>The reducer\<close>

record kernel_transition =
  transition_aggregate :: kernel_aggregate
  transition_event :: kernel_event
  transition_outcome :: "acceptance_outcome option"

datatype kernel_outcome = Applied kernel_transition | Rejected kernel_aggregate kernel_error

definition is_applied :: "kernel_outcome \<Rightarrow> bool" where
  "is_applied out = (case out of Applied _ \<Rightarrow> True | _ \<Rightarrow> False)"

definition into_result :: "kernel_outcome \<Rightarrow> kernel_aggregate \<times> kernel_error + kernel_transition" where
  "into_result out = (case out of Applied tr \<Rightarrow> Ok tr | Rejected s e \<Rightarrow> Err (s, e))"

definition preflight :: "kernel_aggregate \<Rightarrow> command_envelope \<Rightarrow> reducer_inputs \<Rightarrow> kernel_error + event_sequence" where
  "preflight s envelope inputs =
    (if \<not> aggregate_is_valid s then Err (plain_error InvalidAggregate)
     else if \<not> kernel_revision_equal (envelope_revision envelope) (kernel_revision s)
     then Err (plain_error KernelRevisionMismatch)
     else if \<not> optional_event_id_equal (expected_previous_event_id envelope) (Some (head_event_id s))
     then Err (plain_error CausalHeadMismatch)
     else if contract_id (inputs_contract inputs) \<noteq> binding_contract_id (kernel_binding s)
        \<or> contract_content_digest (inputs_contract inputs) \<noteq> binding_contract_digest (kernel_binding s)
        \<or> \<not> is_ok (contract_bind (inputs_contract inputs) (kernel_revision s))
     then Err (plain_error KernelContractMismatch)
     else if contains_command s (envelope_command_id envelope) then Err (plain_error DuplicateCommand)
     else if contains_event s (envelope_event_id envelope) then Err (plain_error DuplicateEvent)
     else case event_sequence_checked_next (last_sequence s) of
       Inr n \<Rightarrow> Ok n
     | Inl _ \<Rightarrow> Err (plain_error KernelSequenceOverflow))"

fun apply_command :: "kernel_aggregate \<Rightarrow> kernel_command \<Rightarrow> reducer_inputs \<Rightarrow> family_result" where
  "apply_command s PauseSession inputs = session_apply s PauseSession"
| "apply_command s ResumeSession inputs = session_apply s ResumeSession"
| "apply_command s CloseSession inputs = session_apply s CloseSession"
| "apply_command s (StartRun i) inputs = run_apply s (StartRun i) inputs"
| "apply_command s (PauseRun i) inputs = run_apply s (PauseRun i) inputs"
| "apply_command s (ResumeRun i) inputs = run_apply s (ResumeRun i) inputs"
| "apply_command s (CancelRun i) inputs = run_apply s (CancelRun i) inputs"
| "apply_command s (FailRun i) inputs = run_apply s (FailRun i) inputs"
| "apply_command s (ExhaustRun i) inputs = run_apply s (ExhaustRun i) inputs"
| "apply_command s (RejectRun i) inputs = run_apply s (RejectRun i) inputs"
| "apply_command s (StartAttempt i a) inputs = attempt_apply s (StartAttempt i a) inputs"
| "apply_command s (ResumeAttempt i a) inputs = attempt_apply s (ResumeAttempt i a) inputs"
| "apply_command s (SubmitAttempt i a) inputs = attempt_apply s (SubmitAttempt i a) inputs"
| "apply_command s (FailAttempt i a) inputs = attempt_apply s (FailAttempt i a) inputs"
| "apply_command s (ExhaustAttempt i a) inputs = attempt_apply s (ExhaustAttempt i a) inputs"
| "apply_command s (StartTurn a t) inputs = turn_apply s (StartTurn a t)"
| "apply_command s (CompleteTurn a t) inputs = turn_apply s (CompleteTurn a t)"
| "apply_command s (FailTurn a t) inputs = turn_apply s (FailTurn a t)"
| "apply_command s (CancelTurn a t) inputs = turn_apply s (CancelTurn a t)"
| "apply_command s (ProposeAction t c digest actor role environment) inputs =
     action_apply s (ProposeAction t c digest actor role environment) inputs"
| "apply_command s (AuthorizeAction c) inputs = action_apply s (AuthorizeAction c) inputs"
| "apply_command s (DispatchAction c) inputs = action_apply s (DispatchAction c) inputs"
| "apply_command s (CompleteAction c) inputs = action_apply s (CompleteAction c) inputs"
| "apply_command s (FailAction c) inputs = action_apply s (FailAction c) inputs"
| "apply_command s (CancelAction c) inputs = action_apply s (CancelAction c) inputs"
| "apply_command s (RequestReview i a v) inputs = review_apply s (RequestReview i a v) inputs"
| "apply_command s (BeginReview v) inputs = review_apply s (BeginReview v) inputs"
| "apply_command s (SubmitReview v) inputs = review_apply s (SubmitReview v) inputs"
| "apply_command s (InvalidateReview v) inputs = review_apply s (InvalidateReview v) inputs"
| "apply_command s (RequestWaiver i v f) inputs = waiver_apply s (RequestWaiver i v f) inputs"
| "apply_command s (GrantWaiver f) inputs = waiver_apply s (GrantWaiver f) inputs"
| "apply_command s (DenyWaiver f) inputs = waiver_apply s (DenyWaiver f) inputs"
| "apply_command s (InvalidateWaiver f) inputs = waiver_apply s (InvalidateWaiver f) inputs"
| "apply_command s (BeginAcceptance i) inputs = acceptance_apply s (BeginAcceptance i) inputs"
| "apply_command s (EvaluateAcceptance i) inputs = acceptance_apply s (EvaluateAcceptance i) inputs"

text \<open>The causal assembly after a family has run: head, sequence, and the two logs of identifiers.\<close>

definition advance_cursor :: "command_envelope \<Rightarrow> event_sequence \<Rightarrow> kernel_aggregate \<Rightarrow> kernel_aggregate" where
  "advance_cursor envelope n s = s\<lparr>head_event_id := envelope_event_id envelope, last_sequence := n,
     accepted_command_ids := accepted_command_ids s @ [envelope_command_id envelope],
     event_ids := event_ids s @ [envelope_event_id envelope]\<rparr>"

definition reduce :: "kernel_aggregate \<Rightarrow> command_envelope \<Rightarrow> kernel_command \<Rightarrow> reducer_inputs \<Rightarrow> kernel_outcome" where
  "reduce s envelope command inputs = (case preflight s envelope inputs of
     Inl e \<Rightarrow> Rejected s e
   | Inr n \<Rightarrow> (case apply_command s command inputs of
     Inl e \<Rightarrow> Rejected s e
   | Inr (changed, applied) \<Rightarrow>
     (let event = \<lparr>kernel_event_id = envelope_event_id envelope, event_command_id = envelope_command_id envelope,
            event_sequence = n, previous_event_id = Some (head_event_id s), event_revision = kernel_revision s,
            event_kind = applied_kind applied, event_subject = applied_subject applied\<rparr>;
          after = advance_cursor envelope n changed in
      if \<not> critical_step_is_legal s after (applied_kind applied) (applied_subject applied)
      then Rejected s (plain_error InvalidAggregate)
      else if applied_kind applied \<noteq> AcceptanceAccepted \<and> \<not> no_new_acceptance s after
      then Rejected s (plain_error InvalidAggregate)
      else if \<not> aggregate_is_valid after then Rejected s (plain_error InvalidAggregate)
      else Applied \<lparr>transition_aggregate = after\<lparr>kernel_revision := kernel_revision s\<rparr>,
                    transition_event = event, transition_outcome = applied_outcome applied\<rparr>)))"

end
