(* ===== verification/Kernel_Lifecycle.thy ===== *)
theory Kernel_Lifecycle
  imports Kernel_Evidence
begin

text \<open>
  The abstract machine of \<open>peritus-kernel\<close>: a lifecycle is the session with six finite maps, from
  identifiers to runs, attempts, turns, actions, reviews and waivers, and \<open>lifecycle_step\<close> says
  which commands move it and where. There are no lists, indices or error codes here; the theory
  \<open>Kernel_Refinement\<close> shows that the reducer implements exactly these steps.
\<close>

section \<open>Lifecycles\<close>

record lifecycle =
  life_session :: session_state
  life_runs :: "run_id \<rightharpoonup> run_state"
  life_attempts :: "attempt_id \<rightharpoonup> attempt_state"
  life_turns :: "turn_id \<rightharpoonup> turn_state"
  life_actions :: "action_id \<rightharpoonup> action_state"
  life_reviews :: "review_cycle_id \<rightharpoonup> review_state"
  life_waivers :: "finding_id \<rightharpoonup> waiver_state"

definition put_session :: "session_phase \<Rightarrow> lifecycle \<Rightarrow> lifecycle" where
  "put_session p v = v\<lparr>life_session := (life_session v)\<lparr>session_phase := p\<rparr>\<rparr>"

definition put_run :: "run_state \<Rightarrow> lifecycle \<Rightarrow> lifecycle" where
  "put_run r v = v\<lparr>life_runs := (life_runs v)(run_key r \<mapsto> r)\<rparr>"

definition put_attempt :: "attempt_state \<Rightarrow> lifecycle \<Rightarrow> lifecycle" where
  "put_attempt a v = v\<lparr>life_attempts := (life_attempts v)(attempt_key a \<mapsto> a)\<rparr>"

definition put_turn :: "turn_state \<Rightarrow> lifecycle \<Rightarrow> lifecycle" where
  "put_turn t v = v\<lparr>life_turns := (life_turns v)(turn_key t \<mapsto> t)\<rparr>"

definition put_action :: "action_state \<Rightarrow> lifecycle \<Rightarrow> lifecycle" where
  "put_action c v = v\<lparr>life_actions := (life_actions v)(action_key c \<mapsto> c)\<rparr>"

definition put_review :: "review_state \<Rightarrow> lifecycle \<Rightarrow> lifecycle" where
  "put_review x v = v\<lparr>life_reviews := (life_reviews v)(review_key x \<mapsto> x)\<rparr>"

definition put_waiver :: "waiver_state \<Rightarrow> lifecycle \<Rightarrow> lifecycle" where
  "put_waiver w v = v\<lparr>life_waivers := (life_waivers v)(waiver_key w \<mapsto> w)\<rparr>"

lemmas put_defs = put_session_def put_run_def put_attempt_def put_turn_def put_action_def put_review_def
  put_waiver_def

definition run_is_live :: "lifecycle \<Rightarrow> run_id \<Rightarrow> bool" where
  "run_is_live v i \<longleftrightarrow> (\<exists>r. life_runs v i = Some r \<and> \<not> run_terminal (run_phase r))"

definition live_turn_under :: "lifecycle \<Rightarrow> attempt_id \<Rightarrow> bool" where
  "live_turn_under v a \<longleftrightarrow> (\<exists>i t. life_turns v i = Some t \<and> turn_attempt t = a \<and> \<not> turn_terminal (turn_phase t))"

definition live_action_under :: "lifecycle \<Rightarrow> turn_id \<Rightarrow> bool" where
  "live_action_under v t \<longleftrightarrow>
     (\<exists>i c. life_actions v i = Some c \<and> action_turn c = t \<and> \<not> action_terminal (action_phase c))"

definition attempt_of_run :: "lifecycle \<Rightarrow> run_id \<Rightarrow> attempt_id \<Rightarrow> bool" where
  "attempt_of_run v i a \<longleftrightarrow> (\<exists>x. life_attempts v a = Some x \<and> attempt_run x = i)"

definition turn_of_attempt :: "lifecycle \<Rightarrow> attempt_id \<Rightarrow> turn_id \<Rightarrow> bool" where
  "turn_of_attempt v a t \<longleftrightarrow> (\<exists>x. life_turns v t = Some x \<and> turn_attempt x = a)"

definition turn_of_run :: "lifecycle \<Rightarrow> run_id \<Rightarrow> turn_id \<Rightarrow> bool" where
  "turn_of_run v i t \<longleftrightarrow> (\<exists>x. life_turns v t = Some x \<and> attempt_of_run v i (turn_attempt x))"

text \<open>Every live record that satisfies a predicate moves to a phase.\<close>

definition stop_attempts :: "(attempt_state \<Rightarrow> bool) \<Rightarrow> attempt_phase \<Rightarrow> attempt_state \<Rightarrow> attempt_state" where
  "stop_attempts P p a = (if P a \<and> \<not> attempt_terminal (attempt_phase a) then a\<lparr>attempt_phase := p\<rparr> else a)"

definition stop_turns :: "(turn_state \<Rightarrow> bool) \<Rightarrow> turn_phase \<Rightarrow> turn_state \<Rightarrow> turn_state" where
  "stop_turns P p t = (if P t \<and> \<not> turn_terminal (turn_phase t) then t\<lparr>turn_phase := p\<rparr> else t)"

definition stop_actions :: "(action_state \<Rightarrow> bool) \<Rightarrow> action_phase \<Rightarrow> action_state \<Rightarrow> action_state" where
  "stop_actions P p c = (if P c \<and> \<not> action_terminal (action_phase c) then c\<lparr>action_phase := p\<rparr> else c)"

definition stop_run :: "run_id \<Rightarrow> attempt_phase \<Rightarrow> turn_phase \<Rightarrow> action_phase \<Rightarrow> lifecycle \<Rightarrow> lifecycle" where
  "stop_run i ap tp cp v = v
     \<lparr>life_attempts := map_option (stop_attempts (\<lambda>a. attempt_run a = i) ap) \<circ> life_attempts v,
      life_turns := map_option (stop_turns (\<lambda>t. attempt_of_run v i (turn_attempt t)) tp) \<circ> life_turns v,
      life_actions := map_option (stop_actions (\<lambda>c. turn_of_run v i (action_turn c)) cp) \<circ> life_actions v\<rparr>"

definition stop_attempt :: "attempt_id \<Rightarrow> turn_phase \<Rightarrow> action_phase \<Rightarrow> lifecycle \<Rightarrow> lifecycle" where
  "stop_attempt a tp cp v = v
     \<lparr>life_turns := map_option (stop_turns (\<lambda>t. turn_attempt t = a) tp) \<circ> life_turns v,
      life_actions := map_option (stop_actions (\<lambda>c. turn_of_attempt v a (action_turn c)) cp) \<circ> life_actions v\<rparr>"

definition stop_turn :: "turn_id \<Rightarrow> action_phase \<Rightarrow> lifecycle \<Rightarrow> lifecycle" where
  "stop_turn t cp v = v\<lparr>life_actions := map_option (stop_actions (\<lambda>c. action_turn c = t) cp) \<circ> life_actions v\<rparr>"

definition reviews_of_run :: "lifecycle \<Rightarrow> run_id \<Rightarrow> review_cycle_id set" where
  "reviews_of_run v i = {k. \<exists>x. life_reviews v k = Some x \<and> review_run x = i}"

definition submitted_review :: "lifecycle \<Rightarrow> run_id \<Rightarrow> attempt_id \<Rightarrow> review_cycle_id \<Rightarrow> bool" where
  "submitted_review v i a k \<longleftrightarrow> (\<exists>x. life_reviews v k = Some x \<and> review_run x = i \<and> review_attempt x = a
     \<and> review_phase x = ReviewIsSubmitted)"

definition granted_waiver :: "lifecycle \<Rightarrow> run_id \<Rightarrow> finding_id \<Rightarrow> bool" where
  "granted_waiver v i f \<longleftrightarrow> (\<exists>w. life_waivers v f = Some w \<and> waiver_run w = i \<and> waiver_phase w = WaiverIsGranted)"

section \<open>Tables of the commands that only move a phase\<close>

fun run_end :: "kernel_command \<Rightarrow> (run_id \<times> run_phase \<times> attempt_phase \<times> turn_phase \<times> action_phase
     \<times> kernel_event_kind) option" where
  "run_end (CancelRun i) =
     Some (i, RunIsCancelled, AttemptCancelled, TurnIsCancelled, ActionIsCancelled, RunCancelled)"
| "run_end (FailRun i) = Some (i, RunHasFailed, AttemptHasFailed, TurnHasFailed, ActionHasFailed, RunFailed)"
| "run_end (ExhaustRun i) =
     Some (i, RunIsExhausted, AttemptIsExhausted, TurnIsCancelled, ActionIsCancelled, RunExhausted)"
| "run_end (RejectRun i) =
     Some (i, RunIsRejected, AttemptHasFailed, TurnIsCancelled, ActionIsCancelled, RunRejected)"
| "run_end _ = None"

fun attempt_end :: "kernel_command \<Rightarrow> (run_id \<times> attempt_id \<times> attempt_phase \<times> turn_phase \<times> action_phase
     \<times> kernel_event_kind) option" where
  "attempt_end (FailAttempt i a) = Some (i, a, AttemptHasFailed, TurnHasFailed, ActionHasFailed, AttemptFailed)"
| "attempt_end (ExhaustAttempt i a) =
     Some (i, a, AttemptIsExhausted, TurnIsCancelled, ActionIsCancelled, AttemptExhausted)"
| "attempt_end _ = None"

fun turn_end :: "kernel_command \<Rightarrow> (attempt_id \<times> turn_id \<times> turn_phase \<times> action_phase \<times> kernel_event_kind) option"
where
  "turn_end (FailTurn a t) = Some (a, t, TurnHasFailed, ActionHasFailed, TurnFailed)"
| "turn_end (CancelTurn a t) = Some (a, t, TurnIsCancelled, ActionIsCancelled, TurnCancelled)"
| "turn_end _ = None"

fun action_move :: "kernel_command \<Rightarrow> (action_id \<times> action_phase list \<times> action_phase \<times> kernel_event_kind) option"
where
  "action_move (DispatchAction c) = Some (c, [ActionIsAuthorized], ActionIsDispatched, ActionDispatched)"
| "action_move (CompleteAction c) = Some (c, [ActionIsDispatched], ActionSucceeded, ActionCompleted)"
| "action_move (FailAction c) = Some (c, [ActionIsAuthorized, ActionIsDispatched], ActionHasFailed, ActionFailed)"
| "action_move (CancelAction c) =
     Some (c, [ActionIsProposed, ActionIsAuthorized], ActionIsCancelled, ActionCancelled)"
| "action_move _ = None"

fun review_move :: "kernel_command
     \<Rightarrow> (review_cycle_id \<times> review_phase list \<times> review_phase \<times> kernel_event_kind) option" where
  "review_move (BeginReview k) = Some (k, [ReviewIsRequested], ReviewActive, ReviewBegun)"
| "review_move (SubmitReview k) = Some (k, [ReviewActive], ReviewIsSubmitted, ReviewSubmitted)"
| "review_move (InvalidateReview k) =
     Some (k, [ReviewIsRequested, ReviewActive, ReviewIsSubmitted], ReviewIsInvalidated, ReviewInvalidated)"
| "review_move _ = None"

fun waiver_move :: "kernel_command \<Rightarrow> (finding_id \<times> waiver_phase list \<times> waiver_phase \<times> kernel_event_kind) option"
where
  "waiver_move (DenyWaiver f) = Some (f, [WaiverIsRequested], WaiverIsDenied, WaiverDenied)"
| "waiver_move (InvalidateWaiver f) =
     Some (f, [WaiverIsRequested, WaiverIsGranted, WaiverIsDenied], WaiverIsInvalidated, WaiverInvalidated)"
| "waiver_move _ = None"

section \<open>What the authority inputs must say\<close>

definition root_budget_ok :: "revision_tuple \<Rightarrow> budget_snapshot \<Rightarrow> bool" where
  "root_budget_ok cur b \<longleftrightarrow> snapshot_revision b = cur \<and> snapshot_parent_id b = None \<and> snapshot_phase b = Open"

definition child_budget_ok :: "revision_tuple \<Rightarrow> run_state \<Rightarrow> budget_snapshot \<Rightarrow> budget_snapshot \<Rightarrow> bool" where
  "child_budget_ok cur r child par \<longleftrightarrow>
     snapshot_revision child = cur \<and> snapshot_revision par = cur
   \<and> snapshot_parent_id child = Some (snapshot_id par) \<and> snapshot_id par = run_budget_id r
   \<and> snapshot_phase child = Open \<and> snapshot_phase par = Open
   \<and> fits_within (limit_amounts (snapshot_limits child)) (snapshot_available par)"

definition use_covers :: "revision_tuple \<Rightarrow> action_state \<Rightarrow> capability_use_transition \<Rightarrow> bool" where
  "use_covers cur c tr \<longleftrightarrow>
     used_action_id tr = action_key c \<and> used_action_digest tr = action_digest c
   \<and> scope_actor (capability_scope (use_successor tr)) = action_actor c
   \<and> scope_role (capability_scope (use_successor tr)) = action_role c
   \<and> scope_environment (capability_scope (use_successor tr)) = action_environment c
   \<and> scope_revision (capability_scope (use_successor tr)) = cur"

definition witness_of :: "capability_use_transition \<Rightarrow> authorization_witness" where
  "witness_of tr = \<lparr>witness_transition_digest = use_transition_digest tr,
     witness_resource_id = permission_resource (used_permission tr),
     witness_capability_name = permission_name (used_permission tr)\<rparr>"

definition evidence_projected ::
  "revision_tuple \<Rightarrow> lifecycle \<Rightarrow> run_id \<Rightarrow> attempt_id \<Rightarrow> acceptance_evidence \<Rightarrow> bool" where
  "evidence_projected cur v i a e \<longleftrightarrow>
     (\<forall>x\<in>set (evidence_reviews e). submitted_review v i a (review_cycle_id x) \<and> review_revision x = cur)
   \<and> (\<forall>x\<in>set (evidence_waivers e). granted_waiver v i (waiver_finding_id x) \<and> waiver_revision x = cur)"

definition evidence_supports_waiver ::
  "acceptance_contract \<Rightarrow> revision_tuple \<Rightarrow> waiver_state \<Rightarrow> acceptance_evidence \<Rightarrow> bool" where
  "evidence_supports_waiver contract cur w e \<longleftrightarrow>
     (\<exists>k. current_supplied_waiver e (waiver_key w) cur = Some k
        \<and> (\<exists>p\<in>set (evidence_approvals e).
             approval_request_id p = waiver_approval_request_id (evidence_waivers e ! k)
           \<and> approval_revision p = cur \<and> approval_subject p = FindingWaiverSubject (waiver_key w)
           \<and> approval_outcome p = Approved))
   \<and> (\<exists>o'\<in>set (evidence_reviews e). review_cycle_id o' = waiver_review w \<and> review_revision o' = cur
        \<and> (\<exists>x\<in>set (review_findings o'). finding_id x = waiver_key w))
   \<and> \<not> (\<exists>reason. InvalidWaiver (waiver_key w) reason \<in> set (unmet_conditions (evaluate_acceptance contract cur e)))"

section \<open>The steps\<close>

inductive lifecycle_step ::
  "reducer_inputs \<Rightarrow> revision_tuple \<Rightarrow> lifecycle \<Rightarrow> kernel_command \<Rightarrow> applied_command \<Rightarrow> lifecycle \<Rightarrow> bool"
  for inputs cur v where
  pause_session:
    "lifecycle_step inputs cur v PauseSession
       (applied_new SessionPaused (SessionSubject (session_key (life_session v)))) (put_session SessionIsPaused v)"
  if "session_phase (life_session v) = SessionOpen"
    and "\<forall>i r. life_runs v i = Some r \<longrightarrow> run_terminal (run_phase r) \<or> run_phase r = RunIsPaused"
| resume_session:
    "lifecycle_step inputs cur v ResumeSession
       (applied_new SessionResumed (SessionSubject (session_key (life_session v)))) (put_session SessionOpen v)"
  if "session_phase (life_session v) = SessionIsPaused"
| close_session:
    "lifecycle_step inputs cur v CloseSession
       (applied_new SessionClosed (SessionSubject (session_key (life_session v)))) (put_session SessionIsClosed v)"
  if "session_phase (life_session v) \<noteq> SessionIsClosed" and "\<forall>i. \<not> run_is_live v i"
| start_run:
    "lifecycle_step inputs cur v (StartRun i) (applied_new RunStarted (RunSubject i))
       (put_run (run_pending i cur (snapshot_id b) (snapshot_limits b)) v)"
  if "session_phase (life_session v) = SessionOpen" and "life_runs v i = None" and "\<forall>j. \<not> run_is_live v j"
    and "inputs_run_budget inputs = Some b" and "root_budget_ok cur b"
| pause_run:
    "lifecycle_step inputs cur v (PauseRun i) (applied_new RunPaused (RunSubject i))
       (put_run (r\<lparr>run_phase := RunIsPaused\<rparr>) v)"
  if "session_phase (life_session v) = SessionOpen" and "life_runs v i = Some r"
    and "run_phase r = RunRunning \<or> run_phase r = RunFixing"
| resume_run:
    "lifecycle_step inputs cur v (ResumeRun i) (applied_new RunResumed (RunSubject i))
       (put_run (r\<lparr>run_phase := RunRunning\<rparr>) v)"
  if "session_phase (life_session v) = SessionOpen" and "life_runs v i = Some r" and "run_phase r = RunIsPaused"
| end_run:
    "lifecycle_step inputs cur v c (applied_new k (RunSubject i))
       (put_run (r\<lparr>run_phase := rp, run_acceptance := AcceptanceTerminated, run_current_attempt := None\<rparr>)
         (stop_run i ap tp cp v))"
  if "run_end c = Some (i, rp, ap, tp, cp, k)" and "life_runs v i = Some r" and "\<not> run_terminal (run_phase r)"
| start_attempt:
    "lifecycle_step inputs cur v (StartAttempt i a) (applied_new AttemptStarted (AttemptSubject a))
       (put_run (r\<lparr>run_phase := RunRunning, run_acceptance := AcceptancePending, run_current_attempt := Some a\<rparr>)
         (put_attempt (attempt_active a i (snapshot_id child) (snapshot_limits child)) v))"
  if "session_phase (life_session v) = SessionOpen" and "life_runs v i = Some r"
    and "run_phase r = RunPending \<or> run_phase r = RunRunning" and "run_current_attempt r = None"
    and "life_attempts v a = None" and "inputs_attempt_budget inputs = Some child"
    and "inputs_parent_budget inputs = Some par" and "child_budget_ok cur r child par"
| resume_attempt:
    "lifecycle_step inputs cur v (ResumeAttempt i a) (applied_new AttemptResumed (AttemptSubject a))
       (put_run (r\<lparr>run_phase := RunRunning, run_acceptance := AcceptancePending\<rparr>)
         (put_attempt (x\<lparr>attempt_phase := AttemptActive\<rparr>) v))"
  if "life_runs v i = Some r" and "life_attempts v a = Some x" and "attempt_run x = i"
    and "run_phase r = RunFixing" and "attempt_phase x = AttemptFixing" and "\<not> live_turn_under v a"
| submit_attempt:
    "lifecycle_step inputs cur v (SubmitAttempt i a) (applied_new AttemptSubmitted (AttemptSubject a))
       (put_run (r\<lparr>run_phase := RunReviewing, run_acceptance := AcceptancePending\<rparr>)
         (put_attempt (x\<lparr>attempt_phase := AttemptIsSubmitted\<rparr>) v))"
  if "life_runs v i = Some r" and "life_attempts v a = Some x" and "attempt_run x = i"
    and "run_phase r = RunRunning" and "attempt_phase x = AttemptActive" and "\<not> live_turn_under v a"
| end_attempt:
    "lifecycle_step inputs cur v c (applied_new k (AttemptSubject a))
       (put_run (r\<lparr>run_phase := RunRunning, run_acceptance := AcceptancePending, run_current_attempt := None\<rparr>)
         (put_attempt (x\<lparr>attempt_phase := ap\<rparr>) (stop_attempt a tp cp v)))"
  if "attempt_end c = Some (i, a, ap, tp, cp, k)" and "life_runs v i = Some r" and "life_attempts v a = Some x"
    and "attempt_run x = i" and "\<not> run_terminal (run_phase r)" and "\<not> attempt_terminal (attempt_phase x)"
| start_turn:
    "lifecycle_step inputs cur v (StartTurn a t) (applied_new TurnStarted (TurnSubject t))
       (put_turn (turn_active t a) v)"
  if "life_attempts v a = Some x" and "attempt_phase x = AttemptActive" and "life_turns v t = None"
    and "\<not> live_turn_under v a"
| complete_turn:
    "lifecycle_step inputs cur v (CompleteTurn a t) (applied_new TurnCompleted (TurnSubject t))
       (put_turn (x\<lparr>turn_phase := TurnIsCompleted\<rparr>) v)"
  if "life_turns v t = Some x" and "turn_attempt x = a" and "turn_phase x = TurnActive"
    and "\<not> live_action_under v t"
| end_turn:
    "lifecycle_step inputs cur v c (applied_new k (TurnSubject t))
       (put_turn (x\<lparr>turn_phase := tp\<rparr>) (stop_turn t cp v))"
  if "turn_end c = Some (a, t, tp, cp, k)" and "life_turns v t = Some x" and "turn_attempt x = a"
    and "turn_phase x = TurnActive"
| propose_action:
    "lifecycle_step inputs cur v (ProposeAction t c digest actor role environment)
       (applied_new ActionProposed (ActionSubject c))
       (put_action (action_proposed c t digest actor role environment) v)"
  if "life_turns v t = Some x" and "turn_phase x = TurnActive" and "life_actions v c = None"
| authorize_action:
    "lifecycle_step inputs cur v (AuthorizeAction c) (applied_new ActionAuthorized (ActionSubject c))
       (put_action (action_authorize (witness_of tr) x) v)"
  if "life_actions v c = Some x" and "action_phase x = ActionIsProposed"
    and "inputs_capability_use inputs = Some tr" and "use_covers cur x tr"
| move_action:
    "lifecycle_step inputs cur v c (applied_new k (ActionSubject i)) (put_action (x\<lparr>action_phase := p\<rparr>) v)"
  if "action_move c = Some (i, sources, p, k)" and "life_actions v i = Some x" and "action_phase x \<in> set sources"
| request_review:
    "lifecycle_step inputs cur v (RequestReview i a k) (applied_new ReviewRequested (ReviewSubject k))
       (put_attempt (x\<lparr>attempt_phase := AttemptReviewing\<rparr>) (put_review (review_requested k i a) v))"
  if "life_runs v i = Some r" and "life_attempts v a = Some x" and "attempt_run x = i"
    and "run_phase r = RunReviewing"
    and "attempt_phase x = AttemptIsSubmitted \<or> attempt_phase x = AttemptReviewing"
    and "life_reviews v k = None"
    and "card (reviews_of_run v i) < unat (max_review_cycles (contract_completion_policy (inputs_contract inputs)))"
| move_review:
    "lifecycle_step inputs cur v c (applied_new k (ReviewSubject i)) (put_review (x\<lparr>review_phase := p\<rparr>) v)"
  if "review_move c = Some (i, sources, p, k)" and "life_reviews v i = Some x" and "review_phase x \<in> set sources"
| request_waiver:
    "lifecycle_step inputs cur v (RequestWaiver i k f) (applied_new WaiverWasRequested (WaiverSubject f))
       (put_waiver (waiver_requested f k i) v)"
  if "life_reviews v k = Some x" and "review_run x = i" and "review_phase x = ReviewIsSubmitted"
    and "life_waivers v f = None"
| grant_waiver:
    "lifecycle_step inputs cur v (GrantWaiver f) (applied_new WaiverGranted (WaiverSubject f))
       (put_waiver (w\<lparr>waiver_phase := WaiverIsGranted\<rparr>) v)"
  if "life_waivers v f = Some w" and "waiver_phase w = WaiverIsRequested"
    and "life_reviews v (waiver_review w) = Some x" and "review_run x = waiver_run w"
    and "inputs_acceptance_evidence inputs = Some e"
    and "evidence_supports_waiver (inputs_contract inputs) cur w e"
| move_waiver:
    "lifecycle_step inputs cur v c (applied_new k (WaiverSubject f)) (put_waiver (w\<lparr>waiver_phase := p\<rparr>) v)"
  if "waiver_move c = Some (f, sources, p, k)" and "life_waivers v f = Some w" and "waiver_phase w \<in> set sources"
| begin_acceptance:
    "lifecycle_step inputs cur v (BeginAcceptance i) (applied_new AcceptanceBegun (AcceptanceOfRun i))
       (put_run (r\<lparr>run_acceptance := AcceptanceEvaluating\<rparr>) v)"
  if "life_runs v i = Some r" and "run_current_attempt r = Some a" and "life_attempts v a = Some x"
    and "run_phase r = RunReviewing" and "run_acceptance r = AcceptancePending"
    and "attempt_phase x = AttemptReviewing" and "\<exists>k. submitted_review v i a k"
| accept_run:
    "lifecycle_step inputs cur v (EvaluateAcceptance i)
       (applied_acceptance AcceptanceAccepted (AcceptanceOfRun i) OutcomeAccepted)
       (put_run (r\<lparr>run_phase := RunIsAccepted, run_acceptance := AcceptanceIsAccepted, run_current_attempt := None\<rparr>)
         (put_attempt (x\<lparr>attempt_phase := AttemptAccepted\<rparr>) v))"
  if "life_runs v i = Some r" and "run_current_attempt r = Some a" and "life_attempts v a = Some x"
    and "run_phase r = RunReviewing" and "run_acceptance r = AcceptanceEvaluating"
    and "attempt_phase x = AttemptReviewing" and "inputs_acceptance_evidence inputs = Some e"
    and "evidence_projected cur v i a e"
    and "is_acceptable (evaluate_acceptance (inputs_contract inputs) cur e)"
| need_changes:
    "lifecycle_step inputs cur v (EvaluateAcceptance i)
       (applied_acceptance AcceptanceNeedsChanges (AcceptanceOfRun i) (OutcomeNeedsChanges
         (length (unmet_conditions (evaluate_acceptance (inputs_contract inputs) cur e)))))
       (put_run (r\<lparr>run_phase := RunFixing, run_acceptance := NeedsChanges\<rparr>)
         (put_attempt (x\<lparr>attempt_phase := AttemptFixing\<rparr>) v))"
  if "life_runs v i = Some r" and "run_current_attempt r = Some a" and "life_attempts v a = Some x"
    and "run_phase r = RunReviewing" and "run_acceptance r = AcceptanceEvaluating"
    and "attempt_phase x = AttemptReviewing" and "inputs_acceptance_evidence inputs = Some e"
    and "evidence_projected cur v i a e"
    and "\<not> is_acceptable (evaluate_acceptance (inputs_contract inputs) cur e)"

end
