(* ===== verification/Kernel_Refinement.thy ===== *)
theory Kernel_Refinement
  imports Kernel_Lifecycle
begin

text \<open>
  The reducer implements the lifecycle: reading the lists of an aggregate as maps, a command
  family returns a changed aggregate exactly when the abstract machine has the step, with the same
  event and the same successor. The families are compared one command at a time.
\<close>

section \<open>Lists of records as maps\<close>

definition lookup :: "('r \<Rightarrow> 'k) \<Rightarrow> 'r list \<Rightarrow> 'k \<rightharpoonup> 'r" where
  "lookup key xs k = find (\<lambda>x. key x = k) xs"

lemma lookup_by_index: "lookup key xs k = map_option ((!) xs) (find_index (\<lambda>x. key x = k) xs)"
  by (induction xs) (auto simp: lookup_def option.map_comp comp_def)

lemma lookup_index_None: "find_index (\<lambda>x. key x = k) xs = None \<Longrightarrow> lookup key xs k = None"
  by (simp add: lookup_by_index)

lemma lookup_index_Some: "find_index (\<lambda>x. key x = k) xs = Some i \<Longrightarrow> lookup key xs k = Some (xs ! i)"
  by (simp add: lookup_by_index)

lemma index_cases:
  obtains (absent) "find_index (\<lambda>x. key x = k) xs = None" "lookup key xs k = None"
  | (present) i where "find_index (\<lambda>x. key x = k) xs = Some i" "lookup key xs k = Some (xs ! i)"
      "i < length xs" "key (xs ! i) = k"
proof (cases "find_index (\<lambda>x. key x = k) xs")
  case None
  then show ?thesis by (intro absent) (simp_all add: lookup_index_None)
next
  case (Some i)
  moreover from Some have "i < length xs" "key (xs ! i) = k" by (auto simp: find_index_Some)
  ultimately show ?thesis by (intro present) (simp_all add: lookup_index_Some)
qed

lemma lookup_key: "lookup key xs k = Some x \<Longrightarrow> key x = k"
  by (auto simp: lookup_by_index find_index_Some)

lemma lookup_member: "lookup key xs k = Some x \<Longrightarrow> x \<in> set xs"
  by (auto simp: lookup_by_index find_index_Some)

lemma lookup_None: "lookup key xs k = None \<longleftrightarrow> k \<notin> key ` set xs"
  by (auto simp: lookup_by_index find_index_None)

lemma lookup_update:
  assumes "find_index (\<lambda>x. key x = k) xs = Some i" and "key y = k"
  shows "lookup key (xs[i := y]) = (lookup key xs)(k \<mapsto> y)"
proof
  fix j
  from assms have i: "i < length xs" "key (xs ! i) = k" by (auto simp: find_index_Some)
  then have keys: "find_index (\<lambda>x. key x = j) (xs[i := y]) = find_index (\<lambda>x. key x = j) xs"
    by (intro find_index_cong_nth) (auto simp: nth_list_update assms(2))
  show "lookup key (xs[i := y]) j = ((lookup key xs)(k \<mapsto> y)) j"
  proof (cases "find_index (\<lambda>x. key x = j) xs")
    case None
    with assms have "j \<noteq> k" by auto
    with None keys show ?thesis by (simp add: lookup_by_index)
  next
    case (Some l)
    then have l: "key (xs ! l) = j" by (simp add: find_index_Some)
    show ?thesis
    proof (cases "j = k")
      case True
      with Some assms(1) have "l = i" by simp
      with True i keys Some show ?thesis by (simp add: lookup_by_index)
    next
      case False
      with l i have "l \<noteq> i" by auto
      with False keys Some show ?thesis by (simp add: lookup_by_index)
    qed
  qed
qed

lemma lookup_append:
  assumes "lookup key xs k = None" and "key y = k"
  shows "lookup key (xs @ [y]) = (lookup key xs)(k \<mapsto> y)"
proof
  fix j
  show "lookup key (xs @ [y]) j = ((lookup key xs)(k \<mapsto> y)) j"
    using assms by (induction xs) (auto simp: lookup_def)
qed

lemma lookup_map:
  assumes "\<And>x. key (f x) = key x"
  shows "lookup key (map f xs) = map_option f \<circ> lookup key xs"
proof
  fix j
  show "lookup key (map f xs) j = (map_option f \<circ> lookup key xs) j"
    by (induction xs) (simp_all add: lookup_def assms)
qed

lemma lookup_distinct: "distinct (map key xs) \<Longrightarrow> x \<in> set xs \<Longrightarrow> lookup key xs (key x) = Some x"
  by (induction xs) (auto simp: lookup_def rev_image_eqI)

lemma ex_lookup:
  assumes "distinct (map key xs)"
  shows "(\<exists>k x. lookup key xs k = Some x \<and> P x) \<longleftrightarrow> (\<exists>x\<in>set xs. P x)"
  using lookup_member[of key xs] lookup_distinct[OF assms] by blast

lemma all_lookup:
  assumes "distinct (map key xs)"
  shows "(\<forall>k x. lookup key xs k = Some x \<longrightarrow> P x) \<longleftrightarrow> (\<forall>x\<in>set xs. P x)"
  using lookup_member[of key xs] lookup_distinct[OF assms] by blast

lemma card_lookup:
  assumes "distinct (map key xs)"
  shows "card {k. \<exists>x. lookup key xs k = Some x \<and> P x} = length (filter P xs)"
proof -
  have "{k. \<exists>x. lookup key xs k = Some x \<and> P x} = set (map key (filter P xs))"
    using lookup_member[of key xs] lookup_distinct[OF assms] lookup_key[of key xs] by fastforce
  moreover have "distinct (map key (filter P xs))"
    by (rule distinct_map_filter[OF assms])
  ultimately show ?thesis
    using distinct_card[of "map key (filter P xs)"] by simp
qed

section \<open>The lifecycle of an aggregate\<close>

definition lifecycle_of :: "kernel_aggregate \<Rightarrow> lifecycle" where
  "lifecycle_of s = \<lparr>life_session = kernel_session s, life_runs = run_of s, life_attempts = attempt_of s,
     life_turns = turn_of s, life_actions = action_of s, life_reviews = review_of s, life_waivers = waiver_of s\<rparr>"

definition keys_distinct :: "kernel_aggregate \<Rightarrow> bool" where
  "keys_distinct s \<longleftrightarrow>
     distinct (map run_key (kernel_runs s)) \<and> distinct (map attempt_key (kernel_attempts s))
   \<and> distinct (map turn_key (kernel_turns s)) \<and> distinct (map action_key (kernel_actions s))
   \<and> distinct (map review_key (kernel_reviews s)) \<and> distinct (map waiver_key (kernel_waivers s))"

lemma of_lookup:
  "run_of s = lookup run_key (kernel_runs s)" "attempt_of s = lookup attempt_key (kernel_attempts s)"
  "turn_of s = lookup turn_key (kernel_turns s)" "action_of s = lookup action_key (kernel_actions s)"
  "review_of s = lookup review_key (kernel_reviews s)" "waiver_of s = lookup waiver_key (kernel_waivers s)"
  by (simp_all add: fun_eq_iff lookup_def run_of_def attempt_of_def turn_of_def action_of_def review_of_def
      waiver_of_def)

lemma index_lookup:
  "run_index s i = find_index (\<lambda>x. run_key x = i) (kernel_runs s)"
  "attempt_index s a = find_index (\<lambda>x. attempt_key x = a) (kernel_attempts s)"
  "turn_index s t = find_index (\<lambda>x. turn_key x = t) (kernel_turns s)"
  "action_index s c = find_index (\<lambda>x. action_key x = c) (kernel_actions s)"
  "review_index s k = find_index (\<lambda>x. review_key x = k) (kernel_reviews s)"
  "waiver_index s f = find_index (\<lambda>x. waiver_key x = f) (kernel_waivers s)"
  by (simp_all add: run_index_def attempt_index_def turn_index_def action_index_def review_index_def
      waiver_index_def)

lemma life_simps [simp]:
  "life_session (lifecycle_of s) = kernel_session s"
  "life_runs (lifecycle_of s) = lookup run_key (kernel_runs s)"
  "life_attempts (lifecycle_of s) = lookup attempt_key (kernel_attempts s)"
  "life_turns (lifecycle_of s) = lookup turn_key (kernel_turns s)"
  "life_actions (lifecycle_of s) = lookup action_key (kernel_actions s)"
  "life_reviews (lifecycle_of s) = lookup review_key (kernel_reviews s)"
  "life_waivers (lifecycle_of s) = lookup waiver_key (kernel_waivers s)"
  by (simp_all add: lifecycle_of_def of_lookup)

text \<open>What the proofs of the families share: the setters as list updates, and the maps.\<close>

lemmas setter_defs = set_session_phase_def set_run_phase_def set_run_acceptance_def set_run_attempt_def
  set_attempt_phase_def set_turn_phase_def set_action_phase_def set_review_phase_def set_waiver_phase_def

lemmas aggregate_maps = of_lookup index_lookup lifecycle_of_def put_defs lookup_update lookup_append

lemmas run_cases = index_cases[of run_key _ "kernel_runs s" for s]
lemmas attempt_cases = index_cases[of attempt_key _ "kernel_attempts s" for s]
lemmas turn_cases = index_cases[of turn_key _ "kernel_turns s" for s]
lemmas action_cases = index_cases[of action_key _ "kernel_actions s" for s]
lemmas review_cases = index_cases[of review_key _ "kernel_reviews s" for s]
lemmas waiver_cases = index_cases[of waiver_key _ "kernel_waivers s" for s]

section \<open>Searches\<close>

lemma has_live_run_iff: "keys_distinct s \<Longrightarrow> has_live_run s \<longleftrightarrow> (\<exists>i. run_is_live (lifecycle_of s) i)"
  using ex_lookup[of run_key "kernel_runs s" "\<lambda>r. \<not> run_terminal (run_phase r)"]
  by (simp add: has_live_run_def run_is_live_def keys_distinct_def list_ex_iff)

lemma has_unpaused_run_iff:
  "keys_distinct s \<Longrightarrow> \<not> has_unpaused_run s
     \<longleftrightarrow> (\<forall>i r. lookup run_key (kernel_runs s) i = Some r \<longrightarrow> run_terminal (run_phase r) \<or> run_phase r = RunIsPaused)"
  using all_lookup[of run_key "kernel_runs s" "\<lambda>r. run_terminal (run_phase r) \<or> run_phase r = RunIsPaused"]
  by (auto simp: has_unpaused_run_def keys_distinct_def list_ex_iff)

lemma has_live_turn_iff: "keys_distinct s \<Longrightarrow> has_live_turn_for_attempt s a \<longleftrightarrow> live_turn_under (lifecycle_of s) a"
  using ex_lookup[of turn_key "kernel_turns s" "\<lambda>t. turn_attempt t = a \<and> \<not> turn_terminal (turn_phase t)"]
  by (simp add: has_live_turn_for_attempt_def live_turn_under_def keys_distinct_def list_ex_iff)

lemma has_live_action_iff: "keys_distinct s \<Longrightarrow> has_live_action_for_turn s t \<longleftrightarrow> live_action_under (lifecycle_of s) t"
  using ex_lookup[of action_key "kernel_actions s" "\<lambda>c. action_turn c = t \<and> \<not> action_terminal (action_phase c)"]
  by (simp add: has_live_action_for_turn_def live_action_under_def keys_distinct_def list_ex_iff)

lemma has_submitted_review_iff:
  "keys_distinct s \<Longrightarrow> has_submitted_review s i a \<longleftrightarrow> (\<exists>k. submitted_review (lifecycle_of s) i a k)"
  using ex_lookup[of review_key "kernel_reviews s"
      "\<lambda>v. review_run v = i \<and> review_attempt v = a \<and> review_phase v = ReviewIsSubmitted"]
  by (simp add: has_submitted_review_def submitted_review_def keys_distinct_def list_ex_iff)

lemma fold_count: "fold (\<lambda>x n. if P x then n + 1 else n) xs n = n + length (filter P xs)"
  by (induction xs arbitrary: n) simp_all

lemma count_run_reviews_iff: "keys_distinct s \<Longrightarrow> count_run_reviews s i = card (reviews_of_run (lifecycle_of s) i)"
  using fold_count[of "\<lambda>r. review_run r = i" "kernel_reviews s" 0]
  by (simp add: count_run_reviews_def reviews_of_run_def keys_distinct_def card_lookup)

lemma evidence_matches_projection_iff:
  "evidence_matches_projection s i a e \<longleftrightarrow> evidence_projected (kernel_revision s) (lifecycle_of s) i a e"
  by (auto simp: evidence_matches_projection_def evidence_projected_def list_all_iff of_lookup
      submitted_review_def granted_waiver_def split: option.splits)

lemma find_index_member: "find_index p xs = Some i \<Longrightarrow> \<exists>x\<in>set xs. p x"
  by (auto simp: find_index_Some intro: nth_mem)

lemma search_requested_finding_None:
  "search_requested_finding os n v f cur = None \<longleftrightarrow>
     \<not> (\<exists>o'\<in>set os. review_cycle_id o' = v \<and> review_revision o' = cur
          \<and> (\<exists>x\<in>set (review_findings o'). finding_id x = f))"
  by (induction os arbitrary: n) (auto simp: find_index_None dest: find_index_member split: option.splits)

lemma current_requested_finding_None:
  "current_requested_finding e v f cur = None \<longleftrightarrow>
     \<not> (\<exists>o'\<in>set (evidence_reviews e). review_cycle_id o' = v \<and> review_revision o' = cur
          \<and> (\<exists>x\<in>set (review_findings o'). finding_id x = f))"
  by (simp add: current_requested_finding_def search_requested_finding_None)

lemma invalid_waiver_is_reported_iff:
  "invalid_waiver_is_reported cs f \<longleftrightarrow> (\<exists>reason. InvalidWaiver f reason \<in> set cs)"
proof -
  have "(case c of InvalidWaiver target reason \<Rightarrow> finding_id_equal target f | _ \<Rightarrow> False)
      \<longleftrightarrow> (\<exists>reason. c = InvalidWaiver f reason)" for c
    by (cases c) auto
  then show ?thesis by (auto simp: invalid_waiver_is_reported_def list_ex_iff)
qed

lemma witness_from_transition_Ok:
  "witness_from_transition (action_key c) (action_digest c) (action_actor c) (action_role c) (action_environment c)
     cur tr = (if use_covers cur c tr then Ok (witness_of tr) else Err (plain_error AuthorityMismatch))"
  by (simp add: witness_from_transition_def Let_def use_covers_def witness_of_def)

end
