(* ===== verification/Kernel_Families.thy ===== *)
theory Kernel_Families
  imports Kernel_Refinement
begin

text \<open>
  Each command of \<open>peritus-kernel\<close> against the lifecycle: the family's result is \<open>Ok\<close> exactly when
  the abstract machine has the step, with the same event and the same successor.
\<close>

section \<open>The steps by command\<close>

inductive_simps session_steps:
  "lifecycle_step inputs cur v PauseSession a v'"
  "lifecycle_step inputs cur v ResumeSession a v'"
  "lifecycle_step inputs cur v CloseSession a v'"

inductive_simps run_steps:
  "lifecycle_step inputs cur v (StartRun i) a v'"
  "lifecycle_step inputs cur v (PauseRun i) a v'"
  "lifecycle_step inputs cur v (ResumeRun i) a v'"

inductive_simps attempt_steps:
  "lifecycle_step inputs cur v (StartAttempt i x) a v'"
  "lifecycle_step inputs cur v (ResumeAttempt i x) a v'"
  "lifecycle_step inputs cur v (SubmitAttempt i x) a v'"

inductive_simps turn_steps:
  "lifecycle_step inputs cur v (StartTurn x t) a v'"
  "lifecycle_step inputs cur v (CompleteTurn x t) a v'"

inductive_simps action_steps:
  "lifecycle_step inputs cur v (ProposeAction t c digest actor role environment) a v'"
  "lifecycle_step inputs cur v (AuthorizeAction c) a v'"

inductive_simps review_steps:
  "lifecycle_step inputs cur v (RequestReview i x k) a v'"

inductive_simps waiver_steps:
  "lifecycle_step inputs cur v (RequestWaiver i k f) a v'"
  "lifecycle_step inputs cur v (GrantWaiver f) a v'"

inductive_simps acceptance_steps:
  "lifecycle_step inputs cur v (BeginAcceptance i) a v'"
  "lifecycle_step inputs cur v (EvaluateAcceptance i) a v'"

text \<open>The commands of the tables.\<close>

lemma tables_disjoint:
  "run_end c = Some x \<Longrightarrow> attempt_end c = None \<and> turn_end c = None \<and> action_move c = None
     \<and> review_move c = None \<and> waiver_move c = None"
  "attempt_end c = Some y \<Longrightarrow> run_end c = None \<and> turn_end c = None \<and> action_move c = None
     \<and> review_move c = None \<and> waiver_move c = None"
  "turn_end c = Some z \<Longrightarrow> run_end c = None \<and> attempt_end c = None \<and> action_move c = None
     \<and> review_move c = None \<and> waiver_move c = None"
  "action_move c = Some u \<Longrightarrow> run_end c = None \<and> attempt_end c = None \<and> turn_end c = None
     \<and> review_move c = None \<and> waiver_move c = None"
  "review_move c = Some w \<Longrightarrow> run_end c = None \<and> attempt_end c = None \<and> turn_end c = None
     \<and> action_move c = None \<and> waiver_move c = None"
  "waiver_move c = Some q \<Longrightarrow> run_end c = None \<and> attempt_end c = None \<and> turn_end c = None
     \<and> action_move c = None \<and> review_move c = None"
  by (cases c; simp)+

lemma end_run_iff:
  assumes "run_end c = Some (i, rp, ap, tp, cp, k)"
  shows "lifecycle_step inputs cur v c a v' \<longleftrightarrow> (\<exists>r. life_runs v i = Some r \<and> \<not> run_terminal (run_phase r)
    \<and> a = applied_new k (RunSubject i)
    \<and> v' = put_run (r\<lparr>run_phase := rp, run_acceptance := AcceptanceTerminated, run_current_attempt := None\<rparr>)
         (stop_run i ap tp cp v))"
  using assms tables_disjoint(1)[OF assms] by (auto elim!: lifecycle_step.cases intro: lifecycle_step.end_run)

lemma end_attempt_iff:
  assumes "attempt_end c = Some (i, a, ap, tp, cp, k)"
  shows "lifecycle_step inputs cur v c b v' \<longleftrightarrow> (\<exists>r x. life_runs v i = Some r \<and> life_attempts v a = Some x
    \<and> attempt_run x = i \<and> \<not> run_terminal (run_phase r) \<and> \<not> attempt_terminal (attempt_phase x)
    \<and> b = applied_new k (AttemptSubject a)
    \<and> v' = put_run (r\<lparr>run_phase := RunRunning, run_acceptance := AcceptancePending, run_current_attempt := None\<rparr>)
         (put_attempt (x\<lparr>attempt_phase := ap\<rparr>) (stop_attempt a tp cp v)))"
  using assms tables_disjoint(2)[OF assms] by (auto elim!: lifecycle_step.cases intro: lifecycle_step.end_attempt)

lemma end_turn_iff:
  assumes "turn_end c = Some (a, t, tp, cp, k)"
  shows "lifecycle_step inputs cur v c b v' \<longleftrightarrow> (\<exists>x. life_turns v t = Some x \<and> turn_attempt x = a
    \<and> turn_phase x = TurnActive \<and> b = applied_new k (TurnSubject t)
    \<and> v' = put_turn (x\<lparr>turn_phase := tp\<rparr>) (stop_turn t cp v))"
  using assms tables_disjoint(3)[OF assms] by (auto elim!: lifecycle_step.cases intro: lifecycle_step.end_turn)

lemma move_action_iff:
  assumes "action_move c = Some (i, sources, p, k)"
  shows "lifecycle_step inputs cur v c b v' \<longleftrightarrow> (\<exists>x. life_actions v i = Some x \<and> action_phase x \<in> set sources
    \<and> b = applied_new k (ActionSubject i) \<and> v' = put_action (x\<lparr>action_phase := p\<rparr>) v)"
  using assms tables_disjoint(4)[OF assms] by (auto elim!: lifecycle_step.cases intro: lifecycle_step.move_action)

lemma move_review_iff:
  assumes "review_move c = Some (i, sources, p, k)"
  shows "lifecycle_step inputs cur v c b v' \<longleftrightarrow> (\<exists>x. life_reviews v i = Some x \<and> review_phase x \<in> set sources
    \<and> b = applied_new k (ReviewSubject i) \<and> v' = put_review (x\<lparr>review_phase := p\<rparr>) v)"
  using assms tables_disjoint(5)[OF assms] by (auto elim!: lifecycle_step.cases intro: lifecycle_step.move_review)

lemma move_waiver_iff:
  assumes "waiver_move c = Some (f, sources, p, k)"
  shows "lifecycle_step inputs cur v c b v' \<longleftrightarrow> (\<exists>w. life_waivers v f = Some w \<and> waiver_phase w \<in> set sources
    \<and> b = applied_new k (WaiverSubject f) \<and> v' = put_waiver (w\<lparr>waiver_phase := p\<rparr>) v)"
  using assms tables_disjoint(6)[OF assms] by (auto elim!: lifecycle_step.cases intro: lifecycle_step.move_waiver)

section \<open>The correspondence\<close>

definition implements ::
  "reducer_inputs \<Rightarrow> kernel_aggregate \<Rightarrow> kernel_command \<Rightarrow> family_result \<Rightarrow> bool" where
  "implements inputs s c result \<longleftrightarrow> (\<forall>a v'.
     lifecycle_step inputs (kernel_revision s) (lifecycle_of s) c a v'
       \<longleftrightarrow> (\<exists>s'. result = Ok (s', a) \<and> lifecycle_of s' = v'))"

lemma session_commands:
  assumes "keys_distinct s"
  shows "implements inputs s PauseSession (session_apply s PauseSession)"
    and "implements inputs s ResumeSession (session_apply s ResumeSession)"
    and "implements inputs s CloseSession (session_apply s CloseSession)"
  using has_unpaused_run_iff[OF assms] has_live_run_iff[OF assms]
  by (auto simp: implements_def session_steps setter_defs lifecycle_of_def put_defs of_lookup)

lemma run_start_step:
  assumes "keys_distinct s"
  shows "implements inputs s (StartRun i) (run_start s i inputs)"
  using has_live_run_iff[OF assms]
  by (auto simp: implements_def run_steps run_start_def root_budget_ok_def aggregate_maps run_pending_def
      split: option.splits)

lemma run_pause_step: "implements inputs s (PauseRun i) (run_pause s i)"
  by (rule run_cases[of i s])
    (auto simp: implements_def run_steps run_pause_def setter_defs aggregate_maps)

lemma run_resume_step: "implements inputs s (ResumeRun i) (run_resume s i)"
  by (rule run_cases[of i s])
    (auto simp: implements_def run_steps run_resume_def setter_defs aggregate_maps)

lemma stopped_attempts [simp]:
  "lookup attempt_key (map (\<lambda>a. if P a \<and> \<not> attempt_terminal (attempt_phase a) then a\<lparr>attempt_phase := p\<rparr> else a) xs)
     = map_option (stop_attempts P p) \<circ> lookup attempt_key xs"
  by (subst lookup_map) (auto simp: stop_attempts_def[abs_def])

lemma stopped_turns [simp]:
  "lookup turn_key (map (\<lambda>t. if P t \<and> \<not> turn_terminal (turn_phase t) then t\<lparr>turn_phase := p\<rparr> else t) xs)
     = map_option (stop_turns P p) \<circ> lookup turn_key xs"
  by (subst lookup_map) (auto simp: stop_turns_def[abs_def])

lemma stopped_actions [simp]:
  "lookup action_key (map (\<lambda>c. if P c \<and> \<not> action_terminal (action_phase c) then c\<lparr>action_phase := p\<rparr> else c) xs)
     = map_option (stop_actions P p) \<circ> lookup action_key xs"
  by (subst lookup_map) (auto simp: stop_actions_def[abs_def])

lemma stop_parents [simp]:
  "attempt_run (stop_attempts P p a) = attempt_run a" "attempt_key (stop_attempts P p a) = attempt_key a"
  "turn_attempt (stop_turns Q q t) = turn_attempt t" "turn_key (stop_turns Q q t) = turn_key t"
  "action_turn (stop_actions R r c) = action_turn c" "action_key (stop_actions R r c) = action_key c"
  "action_authorization (stop_actions R r c) = action_authorization c"
  by (simp_all add: stop_attempts_def stop_turns_def stop_actions_def)

lemma case_some: "(case y of None \<Rightarrow> False | Some a \<Rightarrow> Q a) \<longleftrightarrow> (\<exists>a. y = Some a \<and> Q a)"
  by (cases y) simp_all

lemma terminate_run_lifecycle:
  "lifecycle_of (terminate_run_actions i cp (terminate_run_turns i tp (terminate_run_attempts i ap s)))
     = stop_run i ap tp cp (lifecycle_of s)"
  by (simp add: terminate_run_actions_def terminate_run_turns_def terminate_run_attempts_def stop_run_def
      lifecycle_of_def of_lookup attempt_of_run_def turn_of_run_def case_some)

lemma terminate_attempt_lifecycle:
  "lifecycle_of (terminate_attempt_actions a cp (terminate_attempt_turns a tp s))
     = stop_attempt a tp cp (lifecycle_of s)"
  by (simp add: terminate_attempt_actions_def terminate_attempt_turns_def stop_attempt_def
      lifecycle_of_def of_lookup turn_of_attempt_def case_some)

lemma terminate_turn_lifecycle:
  "lifecycle_of (terminate_turn_actions t cp s) = stop_turn t cp (lifecycle_of s)"
  by (simp add: terminate_turn_actions_def stop_turn_def lifecycle_of_def of_lookup)

text \<open>The loops leave the runs and their own record's index alone.\<close>

lemma terminate_run_frame [simp]:
  "kernel_runs (terminate_run_actions i cp s) = kernel_runs s"
  "kernel_runs (terminate_run_turns i tp s) = kernel_runs s"
  "kernel_runs (terminate_run_attempts i ap s) = kernel_runs s"
  "kernel_runs (terminate_attempt_actions a cp s) = kernel_runs s"
  "kernel_runs (terminate_attempt_turns a tp s) = kernel_runs s"
  "kernel_attempts (terminate_attempt_actions a cp s) = kernel_attempts s"
  "kernel_attempts (terminate_attempt_turns a tp s) = kernel_attempts s"
  "kernel_turns (terminate_turn_actions t cp s) = kernel_turns s"
  by (simp_all add: terminate_run_actions_def terminate_run_turns_def terminate_run_attempts_def
      terminate_attempt_actions_def terminate_attempt_turns_def terminate_turn_actions_def)

lemma put_in_list:
  assumes "find_index (\<lambda>x. run_key x = run_key r) (kernel_runs s) = Some k"
  shows "lifecycle_of (s\<lparr>kernel_runs := (kernel_runs s)[k := r]\<rparr>) = put_run r (lifecycle_of s)"
  using assms by (simp add: aggregate_maps)

lemma run_terminate_step:
  assumes "run_end c = Some (i, rp, ap, tp, cp, kind)"
  shows "implements inputs s c (run_terminate s i rp ap tp cp kind)"
proof (rule run_cases[of i s])
  assume "find_index (\<lambda>x. run_key x = i) (kernel_runs s) = None" "lookup run_key (kernel_runs s) i = None"
  then show ?thesis by (simp add: implements_def end_run_iff[OF assms] run_terminate_def index_lookup)
next
  fix k
  assume present: "find_index (\<lambda>x. run_key x = i) (kernel_runs s) = Some k"
    "lookup run_key (kernel_runs s) i = Some (kernel_runs s ! k)" "k < length (kernel_runs s)"
    "run_key (kernel_runs s ! k) = i"
  let ?s = "terminate_run_actions i cp (terminate_run_turns i tp (terminate_run_attempts i ap s))"
  let ?r = "(kernel_runs s ! k)\<lparr>run_phase := rp, run_acceptance := AcceptanceTerminated, run_current_attempt := None\<rparr>"
  have "lifecycle_of (?s\<lparr>kernel_runs := (kernel_runs ?s)[k := ?r]\<rparr>) = put_run ?r (lifecycle_of ?s)"
    by (rule put_in_list) (simp add: present)
  then have succ: "lifecycle_of (?s\<lparr>kernel_runs := (kernel_runs s)[k := ?r]\<rparr>)
      = put_run ?r (stop_run i ap tp cp (lifecycle_of s))"
    by (simp add: terminate_run_lifecycle)
  have result: "run_terminate s i rp ap tp cp kind = (if run_terminal (run_phase (kernel_runs s ! k))
      then Err (entity_error IllegalPhase RunEntity)
      else Ok (?s\<lparr>kernel_runs := (kernel_runs s)[k := ?r]\<rparr>, applied_new kind (RunSubject i)))"
    by (simp add: run_terminate_def index_lookup present Let_def set_run_phase_def set_run_acceptance_def
        set_run_attempt_def)
  show ?thesis
    using present(2) succ unfolding implements_def result end_run_iff[OF assms] by auto
qed

lemma attempt_start_step: "implements inputs s (StartAttempt i a) (attempt_start s i a inputs)"
  by (rule run_cases[of i s])
    (auto simp: implements_def attempt_steps attempt_start_def child_budget_ok_def Let_def setter_defs
      aggregate_maps attempt_active_def split: option.splits)

lemma attempt_resume_step:
  assumes "keys_distinct s"
  shows "implements inputs s (ResumeAttempt i a) (attempt_resume s i a)"
  by (rule run_cases[of i s]; rule attempt_cases[of a s])
    (auto simp: implements_def attempt_steps attempt_resume_def has_live_turn_iff[OF assms] Let_def setter_defs
      aggregate_maps)

lemma attempt_submit_step:
  assumes "keys_distinct s"
  shows "implements inputs s (SubmitAttempt i a) (attempt_submit s i a)"
  by (rule run_cases[of i s]; rule attempt_cases[of a s])
    (auto simp: implements_def attempt_steps attempt_submit_def has_live_turn_iff[OF assms] Let_def setter_defs
      aggregate_maps)


lemma attempt_terminate_step:
  assumes "attempt_end c = Some (i, a, ap, tp, cp, kind)"
  shows "implements inputs s c (attempt_terminate s i a ap tp cp kind)"
proof (rule run_cases[of i s]; rule attempt_cases[of a s])
  fix k m
  assume r: "find_index (\<lambda>x. run_key x = i) (kernel_runs s) = Some k"
    "lookup run_key (kernel_runs s) i = Some (kernel_runs s ! k)" "k < length (kernel_runs s)"
    "run_key (kernel_runs s ! k) = i"
    and x: "find_index (\<lambda>x. attempt_key x = a) (kernel_attempts s) = Some m"
    "lookup attempt_key (kernel_attempts s) a = Some (kernel_attempts s ! m)" "m < length (kernel_attempts s)"
    "attempt_key (kernel_attempts s ! m) = a"
  let ?s = "terminate_attempt_actions a cp (terminate_attempt_turns a tp s)"
  let ?r = "(kernel_runs s ! k)\<lparr>run_phase := RunRunning, run_acceptance := AcceptancePending, run_current_attempt := None\<rparr>"
  let ?x = "(kernel_attempts s ! m)\<lparr>attempt_phase := ap\<rparr>"
  have "lifecycle_of (?s\<lparr>kernel_attempts := (kernel_attempts s)[m := ?x], kernel_runs := (kernel_runs s)[k := ?r]\<rparr>)
      = put_run ?r (put_attempt ?x (lifecycle_of ?s))"
    using r x by (simp add: aggregate_maps)
  then have succ: "lifecycle_of (?s\<lparr>kernel_attempts := (kernel_attempts s)[m := ?x], kernel_runs := (kernel_runs s)[k := ?r]\<rparr>)
      = put_run ?r (put_attempt ?x (stop_attempt a tp cp (lifecycle_of s)))"
    by (simp add: terminate_attempt_lifecycle)
  have result: "attempt_terminate s i a ap tp cp kind =
     (if attempt_run (kernel_attempts s ! m) \<noteq> i then Err (entity_error ParentMismatch AttemptEntity)
      else if run_terminal (run_phase (kernel_runs s ! k)) \<or> attempt_terminal (attempt_phase (kernel_attempts s ! m))
      then Err (entity_error IllegalPhase AttemptEntity)
      else Ok (?s\<lparr>kernel_attempts := (kernel_attempts s)[m := ?x], kernel_runs := (kernel_runs s)[k := ?r]\<rparr>,
               applied_new kind (AttemptSubject a)))"
    by (simp add: attempt_terminate_def index_lookup r x Let_def set_attempt_phase_def set_run_phase_def
        set_run_acceptance_def set_run_attempt_def)
  show ?thesis
    using r(2) x(2) succ unfolding implements_def result end_attempt_iff[OF assms] by auto
qed (simp_all add: implements_def end_attempt_iff[OF assms] attempt_terminate_def index_lookup)

section \<open>Turns and actions\<close>

lemma turn_start_step:
  assumes "keys_distinct s"
  shows "implements inputs s (StartTurn a t) (turn_start s a t)"
  by (rule attempt_cases[of a s])
    (auto simp: implements_def turn_steps turn_start_def has_live_turn_iff[OF assms] aggregate_maps turn_active_def)

lemma turn_complete_step:
  assumes "keys_distinct s"
  shows "implements inputs s (CompleteTurn a t) (turn_complete s a t)"
  by (rule turn_cases[of t s])
    (auto simp: implements_def turn_steps turn_complete_def has_live_action_iff[OF assms] setter_defs aggregate_maps)

lemma turn_terminate_step:
  assumes "turn_end c = Some (a, t, tp, cp, kind)"
  shows "implements inputs s c (turn_terminate s a t tp cp kind)"
proof (rule turn_cases[of t s])
  assume "find_index (\<lambda>x. turn_key x = t) (kernel_turns s) = None" "lookup turn_key (kernel_turns s) t = None"
  then show ?thesis by (simp add: implements_def end_turn_iff[OF assms] turn_terminate_def index_lookup)
next
  fix k
  assume x: "find_index (\<lambda>x. turn_key x = t) (kernel_turns s) = Some k"
    "lookup turn_key (kernel_turns s) t = Some (kernel_turns s ! k)" "k < length (kernel_turns s)"
    "turn_key (kernel_turns s ! k) = t"
  let ?s = "terminate_turn_actions t cp s"
  let ?x = "(kernel_turns s ! k)\<lparr>turn_phase := tp\<rparr>"
  have "lifecycle_of (?s\<lparr>kernel_turns := (kernel_turns s)[k := ?x]\<rparr>) = put_turn ?x (lifecycle_of ?s)"
    using x by (simp add: aggregate_maps)
  then have succ: "lifecycle_of (?s\<lparr>kernel_turns := (kernel_turns s)[k := ?x]\<rparr>)
      = put_turn ?x (stop_turn t cp (lifecycle_of s))"
    by (simp add: terminate_turn_lifecycle)
  have result: "turn_terminate s a t tp cp kind =
     (if turn_attempt (kernel_turns s ! k) \<noteq> a then Err (entity_error ParentMismatch TurnEntity)
      else if turn_phase (kernel_turns s ! k) \<noteq> TurnActive then Err (entity_error IllegalPhase TurnEntity)
      else Ok (?s\<lparr>kernel_turns := (kernel_turns s)[k := ?x]\<rparr>, applied_new kind (TurnSubject t)))"
    by (simp add: turn_terminate_def index_lookup x Let_def set_turn_phase_def)
  show ?thesis
    using x(2) succ unfolding implements_def result end_turn_iff[OF assms] by auto
qed

lemma action_propose_step:
  "implements inputs s (ProposeAction t c digest actor role environment)
     (action_propose s t c digest actor role environment)"
  by (rule turn_cases[of t s])
    (auto simp: implements_def action_steps action_propose_def aggregate_maps action_proposed_def)

lemma action_authorize_step: "implements inputs s (AuthorizeAction c) (action_authorize_with s c inputs)"
proof (rule action_cases[of c s])
  fix k
  assume x: "find_index (\<lambda>x. action_key x = c) (kernel_actions s) = Some k"
    "lookup action_key (kernel_actions s) c = Some (kernel_actions s ! k)" "k < length (kernel_actions s)"
    "action_key (kernel_actions s ! k) = c"
  have w: "witness_from_transition c (action_digest (kernel_actions s ! k)) (action_actor (kernel_actions s ! k))
      (action_role (kernel_actions s ! k)) (action_environment (kernel_actions s ! k)) (kernel_revision s) tr
    = (if use_covers (kernel_revision s) (kernel_actions s ! k) tr then Ok (witness_of tr)
       else Err (plain_error AuthorityMismatch))" for tr
    using witness_from_transition_Ok[of "kernel_actions s ! k"] x(4) by simp
  show ?thesis
    using x by (auto simp: implements_def action_steps action_authorize_with_def w aggregate_maps
        action_authorize_def split: option.splits if_splits)
qed (simp add: implements_def action_steps action_authorize_with_def index_lookup)

lemma action_advance_step:
  assumes "action_move c = Some (i, [p], q, kind)"
  shows "implements inputs s c (action_advance s i p q kind)"
  by (rule action_cases[of i s])
    (auto simp: implements_def move_action_iff[OF assms] action_advance_def setter_defs aggregate_maps)

lemma action_fail_step: "implements inputs s (FailAction c) (action_fail s c)"
  by (rule action_cases[of c s])
    (auto simp: implements_def move_action_iff[OF action_move.simps(3)] action_fail_def setter_defs aggregate_maps)

lemma action_cancel_step: "implements inputs s (CancelAction c) (action_cancel s c)"
  by (rule action_cases[of c s])
    (auto simp: implements_def move_action_iff[OF action_move.simps(4)] action_cancel_def setter_defs aggregate_maps)

end
