(* ===== verification/Kernel_Simulation.thy ===== *)
theory Kernel_Simulation
  imports Kernel_Families
begin

text \<open>
  The remaining families of \<open>peritus-kernel\<close> (reviews, waivers, acceptance) against the lifecycle,
  and the whole dispatch: \<open>apply_command\<close> implements \<open>lifecycle_step\<close>.
\<close>

lemma review_request_step:
  assumes "keys_distinct s"
  shows "implements inputs s (RequestReview i a k) (review_request s i a k inputs)"
proof (rule run_cases[of i s]; rule attempt_cases[of a s])
  fix n m
  assume r: "find_index (\<lambda>x. run_key x = i) (kernel_runs s) = Some n"
    "lookup run_key (kernel_runs s) i = Some (kernel_runs s ! n)" "n < length (kernel_runs s)"
    "run_key (kernel_runs s ! n) = i"
    and x: "find_index (\<lambda>x. attempt_key x = a) (kernel_attempts s) = Some m"
    "lookup attempt_key (kernel_attempts s) a = Some (kernel_attempts s ! m)" "m < length (kernel_attempts s)"
    "attempt_key (kernel_attempts s ! m) = a"
  let ?x = "(kernel_attempts s ! m)\<lparr>attempt_phase := AttemptReviewing\<rparr>"
  let ?s = "s\<lparr>kernel_attempts := (kernel_attempts s)[m := ?x],
              kernel_reviews := kernel_reviews s @ [review_requested k i a]\<rparr>"
  have succ: "lookup review_key (kernel_reviews s) k = None \<Longrightarrow>
      lifecycle_of ?s = put_attempt ?x (put_review (review_requested k i a) (lifecycle_of s))"
    using x by (simp add: aggregate_maps review_requested_def)
  have result: "review_request s i a k inputs =
     (if attempt_run (kernel_attempts s ! m) \<noteq> i then Err (entity_error ParentMismatch AttemptEntity)
      else if run_phase (kernel_runs s ! n) \<noteq> RunReviewing
         \<or> \<not> (attempt_phase (kernel_attempts s ! m) = AttemptIsSubmitted
              \<or> attempt_phase (kernel_attempts s ! m) = AttemptReviewing)
      then Err (entity_error IllegalPhase ReviewEntity)
      else if lookup review_key (kernel_reviews s) k \<noteq> None then Err (entity_error DuplicateEntity ReviewEntity)
      else if unat (max_review_cycles (contract_completion_policy (inputs_contract inputs)))
              \<le> card (reviews_of_run (lifecycle_of s) i)
      then Err (entity_error IllegalPhase ReviewEntity)
      else Ok (?s, applied_new ReviewRequested (ReviewSubject k)))"
    by (simp add: review_request_def index_lookup of_lookup r x Let_def set_attempt_phase_def
        count_run_reviews_iff[OF assms])
  show ?thesis
    using r(2) x(2) succ unfolding implements_def result review_steps by auto
qed (simp_all add: implements_def review_steps review_request_def index_lookup)

lemma review_advance_step:
  assumes "review_move c = Some (k, [p], q, kind)"
  shows "implements inputs s c (review_advance s k p q kind)"
  by (rule review_cases[of k s])
    (auto simp: implements_def move_review_iff[OF assms] review_advance_def setter_defs aggregate_maps)

lemma invalidate_review_iff:
  "lifecycle_step inputs cur v (InvalidateReview k) b v' \<longleftrightarrow> (\<exists>x. life_reviews v k = Some x
    \<and> review_phase x \<noteq> ReviewIsInvalidated \<and> b = applied_new ReviewInvalidated (ReviewSubject k)
    \<and> v' = put_review (x\<lparr>review_phase := ReviewIsInvalidated\<rparr>) v)"
proof -
  have "review_phase y \<in> set [ReviewIsRequested, ReviewActive, ReviewIsSubmitted]
      \<longleftrightarrow> review_phase y \<noteq> ReviewIsInvalidated" for y :: review_state
    by (cases "review_phase y") simp_all
  then show ?thesis by (simp only: move_review_iff[OF review_move.simps(3)])
qed

lemma review_invalidate_step: "implements inputs s (InvalidateReview k) (review_invalidate s k)"
  by (rule review_cases[of k s])
    (auto simp: implements_def invalidate_review_iff review_invalidate_def setter_defs aggregate_maps)

lemma waiver_request_step: "implements inputs s (RequestWaiver i k f) (waiver_request s i k f)"
  by (rule review_cases[of k s])
    (auto simp: implements_def waiver_steps waiver_request_def aggregate_maps waiver_requested_def)

lemma waiver_advance_step:
  assumes "waiver_move c = Some (f, [p], q, kind)"
  shows "implements inputs s c (waiver_advance s f p q kind)"
  by (rule waiver_cases[of f s])
    (auto simp: implements_def move_waiver_iff[OF assms] waiver_advance_def setter_defs aggregate_maps)

lemma invalidate_waiver_iff:
  "lifecycle_step inputs cur v (InvalidateWaiver f) b v' \<longleftrightarrow> (\<exists>w. life_waivers v f = Some w
    \<and> waiver_phase w \<noteq> WaiverIsInvalidated \<and> b = applied_new WaiverInvalidated (WaiverSubject f)
    \<and> v' = put_waiver (w\<lparr>waiver_phase := WaiverIsInvalidated\<rparr>) v)"
proof -
  have "waiver_phase y \<in> set [WaiverIsRequested, WaiverIsGranted, WaiverIsDenied]
      \<longleftrightarrow> waiver_phase y \<noteq> WaiverIsInvalidated" for y :: waiver_state
    by (cases "waiver_phase y") simp_all
  then show ?thesis by (simp only: move_waiver_iff[OF waiver_move.simps(2)])
qed

lemma waiver_invalidate_step: "implements inputs s (InvalidateWaiver f) (waiver_invalidate s f)"
  by (rule waiver_cases[of f s])
    (auto simp: implements_def invalidate_waiver_iff waiver_invalidate_def setter_defs aggregate_maps)

text \<open>The three searches of a grant, one after the other, decide whether the evidence supports it.\<close>

lemma grant_searches:
  assumes "waiver_key w = f"
  shows "(case current_supplied_waiver e f cur of
       None \<Rightarrow> Err x
     | Some k \<Rightarrow>
       if \<not> list_ex (\<lambda>p. approval_request_id p = waiver_approval_request_id (evidence_waivers e ! k)
              \<and> approval_revision p = cur \<and> approval_subject p = FindingWaiverSubject f
              \<and> approval_outcome p = Approved) (evidence_approvals e)
       then Err x
       else case current_requested_finding e (waiver_review w) f cur of
         None \<Rightarrow> Err x
       | Some _ \<Rightarrow>
         if invalid_waiver_is_reported (unmet_conditions (evaluate_acceptance contract cur e)) f
         then Err x else Ok y)
     = (if evidence_supports_waiver contract cur w e then Ok y else Err x)"
proof (cases "current_supplied_waiver e f cur")
  case None
  then show ?thesis using assms by (simp add: evidence_supports_waiver_def)
next
  case (Some k)
  show ?thesis
  proof (cases "current_requested_finding e (waiver_review w) f cur")
    case None
    with current_requested_finding_None[of e "waiver_review w" f cur] Some assms show ?thesis
      unfolding evidence_supports_waiver_def by auto
  next
    case (Some r)
    then have "current_requested_finding e (waiver_review w) f cur \<noteq> None" by simp
    then have "\<exists>o'\<in>set (evidence_reviews e). review_cycle_id o' = waiver_review w \<and> review_revision o' = cur
        \<and> (\<exists>x\<in>set (review_findings o'). finding_id x = f)"
      unfolding current_requested_finding_None by (rule notnotD)
    with \<open>current_supplied_waiver e f cur = Some k\<close> Some assms show ?thesis
      by (simp add: evidence_supports_waiver_def invalid_waiver_is_reported_iff list_ex_iff)
  qed
qed

lemma waiver_grant_step: "implements inputs s (GrantWaiver f) (waiver_grant s f inputs)"
proof (rule waiver_cases[of f s])
  fix n
  assume w: "find_index (\<lambda>x. waiver_key x = f) (kernel_waivers s) = Some n"
    "lookup waiver_key (kernel_waivers s) f = Some (kernel_waivers s ! n)" "n < length (kernel_waivers s)"
    "waiver_key (kernel_waivers s ! n) = f"
  let ?w = "kernel_waivers s ! n"
  let ?s = "s\<lparr>kernel_waivers := (kernel_waivers s)[n := ?w\<lparr>waiver_phase := WaiverIsGranted\<rparr>]\<rparr>"
  have succ: "lifecycle_of ?s = put_waiver (?w\<lparr>waiver_phase := WaiverIsGranted\<rparr>) (lifecycle_of s)"
    using w by (simp add: aggregate_maps)
  show ?thesis
  proof (rule review_cases[of "waiver_review ?w" s])
    fix j
    assume x: "find_index (\<lambda>x. review_key x = waiver_review ?w) (kernel_reviews s) = Some j"
      "lookup review_key (kernel_reviews s) (waiver_review ?w) = Some (kernel_reviews s ! j)"
    have result: "waiver_grant s f inputs =
       (if waiver_phase ?w \<noteq> WaiverIsRequested then Err (entity_error IllegalPhase WaiverEntity)
        else if review_run (kernel_reviews s ! j) \<noteq> waiver_run ?w then Err (plain_error InvalidAggregate)
        else case inputs_acceptance_evidence inputs of
          None \<Rightarrow> Err (authority_error MissingAuthorityInput AcceptanceEvidenceInput)
        | Some e \<Rightarrow> if evidence_supports_waiver (inputs_contract inputs) (kernel_revision s) ?w e
            then Ok (?s, applied_new WaiverGranted (WaiverSubject f))
            else Err (authority_error AuthorityMismatch AcceptanceEvidenceInput))"
      unfolding waiver_grant_def index_lookup w(1) x(1) option.case grant_searches[OF w(4)]
      by (cases "inputs_acceptance_evidence inputs") (simp_all add: set_waiver_phase_def)
    show ?thesis
      using w(2) x(2) succ unfolding implements_def waiver_steps result by (auto split: option.splits)
  qed (use w in \<open>simp add: implements_def waiver_steps waiver_grant_def index_lookup\<close>)
qed (simp add: implements_def waiver_steps waiver_grant_def index_lookup)

section \<open>Acceptance\<close>

lemma acceptance_begin_step:
  assumes "keys_distinct s"
  shows "implements inputs s (BeginAcceptance i) (acceptance_begin s i)"
proof (rule run_cases[of i s])
  fix k
  assume r: "find_index (\<lambda>x. run_key x = i) (kernel_runs s) = Some k"
    "lookup run_key (kernel_runs s) i = Some (kernel_runs s ! k)" "k < length (kernel_runs s)"
    "run_key (kernel_runs s ! k) = i"
  show ?thesis
  proof (cases "run_current_attempt (kernel_runs s ! k)")
    case None
    with r show ?thesis by (simp add: implements_def acceptance_steps acceptance_begin_def index_lookup)
  next
    case (Some a)
    show ?thesis
    proof (rule attempt_cases[of a s])
      assume "find_index (\<lambda>x. attempt_key x = a) (kernel_attempts s) = None"
        "lookup attempt_key (kernel_attempts s) a = None"
      with r Some show ?thesis by (simp add: implements_def acceptance_steps acceptance_begin_def index_lookup)
    next
      fix m
      assume x: "find_index (\<lambda>x. attempt_key x = a) (kernel_attempts s) = Some m"
        "lookup attempt_key (kernel_attempts s) a = Some (kernel_attempts s ! m)"
      let ?r = "kernel_runs s ! k"
      let ?s = "s\<lparr>kernel_runs := (kernel_runs s)[k := ?r\<lparr>run_acceptance := AcceptanceEvaluating\<rparr>]\<rparr>"
      have succ: "lifecycle_of ?s = put_run (?r\<lparr>run_acceptance := AcceptanceEvaluating\<rparr>) (lifecycle_of s)"
        using r by (simp add: aggregate_maps)
      have result: "acceptance_begin s i =
        (if run_phase ?r \<noteq> RunReviewing \<or> run_acceptance ?r \<noteq> AcceptancePending
            \<or> attempt_phase (kernel_attempts s ! m) \<noteq> AttemptReviewing
            \<or> \<not> (\<exists>k. submitted_review (lifecycle_of s) i a k)
         then Err (entity_error IllegalPhase AcceptanceEntity)
         else Ok (?s, applied_new AcceptanceBegun (AcceptanceOfRun i)))"
        by (simp add: acceptance_begin_def index_lookup r(1) x(1) Some set_run_acceptance_def
            has_submitted_review_iff[OF assms])
      show ?thesis
        using r(2) x(2) Some succ unfolding implements_def result acceptance_steps by auto
    qed
  qed
qed (simp add: implements_def acceptance_steps acceptance_begin_def index_lookup)

lemma acceptance_evaluate_step: "implements inputs s (EvaluateAcceptance i) (acceptance_evaluate s i inputs)"
proof (rule run_cases[of i s])
  fix k
  assume r: "find_index (\<lambda>x. run_key x = i) (kernel_runs s) = Some k"
    "lookup run_key (kernel_runs s) i = Some (kernel_runs s ! k)" "k < length (kernel_runs s)"
    "run_key (kernel_runs s ! k) = i"
  show ?thesis
  proof (cases "run_current_attempt (kernel_runs s ! k)")
    case None
    with r show ?thesis by (simp add: implements_def acceptance_steps acceptance_evaluate_def index_lookup)
  next
    case (Some a)
    show ?thesis
    proof (rule attempt_cases[of a s])
      assume "find_index (\<lambda>x. attempt_key x = a) (kernel_attempts s) = None"
        "lookup attempt_key (kernel_attempts s) a = None"
      with r Some show ?thesis by (simp add: implements_def acceptance_steps acceptance_evaluate_def index_lookup)
    next
      fix m
      assume x: "find_index (\<lambda>x. attempt_key x = a) (kernel_attempts s) = Some m"
        "lookup attempt_key (kernel_attempts s) a = Some (kernel_attempts s ! m)"
        "m < length (kernel_attempts s)" "attempt_key (kernel_attempts s ! m) = a"
      let ?r = "kernel_runs s ! k" and ?x = "kernel_attempts s ! m" and ?cur = "kernel_revision s"
      let ?d = "\<lambda>e. evaluate_acceptance (inputs_contract inputs) ?cur e"
      let ?yes = "s\<lparr>kernel_attempts := (kernel_attempts s)[m := ?x\<lparr>attempt_phase := AttemptAccepted\<rparr>],
        kernel_runs := (kernel_runs s)[k := ?r\<lparr>run_phase := RunIsAccepted, run_acceptance := AcceptanceIsAccepted,
          run_current_attempt := None\<rparr>]\<rparr>"
      let ?no = "s\<lparr>kernel_attempts := (kernel_attempts s)[m := ?x\<lparr>attempt_phase := AttemptFixing\<rparr>],
        kernel_runs := (kernel_runs s)[k := ?r\<lparr>run_phase := RunFixing, run_acceptance := NeedsChanges\<rparr>]\<rparr>"
      have succ:
        "lifecycle_of ?yes = put_run (?r\<lparr>run_phase := RunIsAccepted, run_acceptance := AcceptanceIsAccepted,
            run_current_attempt := None\<rparr>) (put_attempt (?x\<lparr>attempt_phase := AttemptAccepted\<rparr>) (lifecycle_of s))"
        "lifecycle_of ?no = put_run (?r\<lparr>run_phase := RunFixing, run_acceptance := NeedsChanges\<rparr>)
            (put_attempt (?x\<lparr>attempt_phase := AttemptFixing\<rparr>) (lifecycle_of s))"
        using r x by (simp_all add: aggregate_maps)
      have result: "acceptance_evaluate s i inputs =
        (if run_phase ?r \<noteq> RunReviewing \<or> run_acceptance ?r \<noteq> AcceptanceEvaluating
            \<or> attempt_phase ?x \<noteq> AttemptReviewing
         then Err (entity_error IllegalPhase AcceptanceEntity)
         else case inputs_acceptance_evidence inputs of
           None \<Rightarrow> Err (authority_error MissingAuthorityInput AcceptanceEvidenceInput)
         | Some e \<Rightarrow>
           if \<not> evidence_projected ?cur (lifecycle_of s) i a e
           then Err (authority_error AuthorityMismatch AcceptanceEvidenceInput)
           else if is_acceptable (?d e)
           then Ok (?yes, applied_acceptance AcceptanceAccepted (AcceptanceOfRun i) OutcomeAccepted)
           else Ok (?no, applied_acceptance AcceptanceNeedsChanges (AcceptanceOfRun i)
                  (OutcomeNeedsChanges (length (unmet_conditions (?d e))))))"
        using r(3) x(3)
        by (cases "inputs_acceptance_evidence inputs")
          (simp_all add: acceptance_evaluate_def index_lookup r(1) x(1) Some Let_def set_attempt_phase_def
            set_run_phase_def set_run_acceptance_def set_run_attempt_def evidence_matches_projection_iff)
      show ?thesis
        using r(2) x(2) Some succ unfolding implements_def result acceptance_steps
        by (auto split: option.splits)
    qed
  qed
qed (simp add: implements_def acceptance_steps acceptance_evaluate_def index_lookup)

section \<open>The dispatch\<close>

theorem apply_command_implements:
  assumes "keys_distinct s"
  shows "implements inputs s c (apply_command s c inputs)"
proof (cases c)
qed (simp_all add: assms session_commands run_start_step run_pause_step run_resume_step run_terminate_step
    attempt_start_step attempt_resume_step attempt_submit_step attempt_terminate_step turn_start_step
    turn_complete_step turn_terminate_step action_propose_step action_authorize_step action_advance_step
    action_fail_step action_cancel_step review_request_step review_advance_step review_invalidate_step
    waiver_request_step waiver_grant_step waiver_advance_step waiver_invalidate_step acceptance_begin_step
    acceptance_evaluate_step del: session_apply.simps)

lemma apply_command_sound:
  "keys_distinct s \<Longrightarrow> apply_command s c inputs = Ok (s', a)
     \<Longrightarrow> lifecycle_step inputs (kernel_revision s) (lifecycle_of s) c a (lifecycle_of s')"
  using apply_command_implements[of s inputs c] unfolding implements_def by blast

lemma apply_command_complete:
  "keys_distinct s \<Longrightarrow> lifecycle_step inputs (kernel_revision s) (lifecycle_of s) c a v'
     \<Longrightarrow> \<exists>s'. apply_command s c inputs = Ok (s', a) \<and> lifecycle_of s' = v'"
  using apply_command_implements[of s inputs c] unfolding implements_def by blast

end
