(* ===== verification/Kernel_Invariant.thy ===== *)
theory Kernel_Invariant
  imports Kernel_Simulation
begin

text \<open>
  The invariant of the lifecycle of \<open>peritus-kernel\<close>: where live records may be, how the phases of a
  run, its acceptance and its current attempt agree, which actions carry an authorization, and what
  a paused or closed session holds. Each conjunct is kept by every step.
\<close>

section \<open>The conjuncts\<close>

definition keyed :: "lifecycle \<Rightarrow> bool" where
  "keyed v \<longleftrightarrow> (\<forall>i r. life_runs v i = Some r \<longrightarrow> run_key r = i)
   \<and> (\<forall>i x. life_attempts v i = Some x \<longrightarrow> attempt_key x = i)
   \<and> (\<forall>i x. life_turns v i = Some x \<longrightarrow> turn_key x = i)
   \<and> (\<forall>i x. life_actions v i = Some x \<longrightarrow> action_key x = i)
   \<and> (\<forall>i x. life_reviews v i = Some x \<longrightarrow> review_key x = i)
   \<and> (\<forall>i x. life_waivers v i = Some x \<longrightarrow> waiver_key x = i)"

definition idle_agrees :: "run_state \<Rightarrow> bool" where
  "idle_agrees r \<longleftrightarrow>
     (run_phase r = RunPending \<or> run_phase r = RunRunning \<or> run_phase r = RunIsPaused)
       \<and> run_acceptance r = AcceptancePending
   \<or> run_phase r = RunIsAccepted \<and> run_acceptance r = AcceptanceIsAccepted
   \<or> run_terminal (run_phase r) \<and> run_phase r \<noteq> RunIsAccepted \<and> run_acceptance r = AcceptanceTerminated"

definition busy_agrees :: "run_state \<Rightarrow> attempt_phase \<Rightarrow> bool" where
  "busy_agrees r p \<longleftrightarrow>
     (run_phase r = RunRunning \<or> run_phase r = RunIsPaused)
       \<and> (p = AttemptActive \<and> run_acceptance r = AcceptancePending
          \<or> p = AttemptFixing \<and> run_acceptance r = NeedsChanges)
   \<or> run_phase r = RunReviewing
       \<and> (p = AttemptIsSubmitted \<and> run_acceptance r = AcceptancePending
          \<or> p = AttemptReviewing \<and> (run_acceptance r = AcceptancePending \<or> run_acceptance r = AcceptanceEvaluating))
   \<or> run_phase r = RunFixing \<and> p = AttemptFixing \<and> run_acceptance r = NeedsChanges"

text \<open>
  A run and the attempts: its live attempt is exactly its current one, so there is at most one; the
  phases agree; and it is accepted exactly when one of its attempts is, and then only one.
\<close>

definition attempts_under :: "(attempt_id \<rightharpoonup> attempt_state) \<Rightarrow> run_id \<Rightarrow> attempt_id \<Rightarrow> attempt_state \<Rightarrow> bool" where
  "attempts_under m i a x \<longleftrightarrow> m a = Some x \<and> attempt_run x = i"

definition run_matches :: "(attempt_id \<Rightarrow> attempt_state \<Rightarrow> bool) \<Rightarrow> run_state \<Rightarrow> bool" where
  "run_matches att r \<longleftrightarrow>
     (case run_current_attempt r of
        None \<Rightarrow> idle_agrees r
      | Some a \<Rightarrow> (\<exists>x. att a x \<and> busy_agrees r (attempt_phase x)))
   \<and> (\<forall>a x. att a x \<longrightarrow> (attempt_terminal (attempt_phase x) \<longleftrightarrow> run_current_attempt r \<noteq> Some a))
   \<and> (\<forall>a x b y. att a x \<longrightarrow> attempt_phase x = AttemptAccepted \<longrightarrow>
        att b y \<longrightarrow> attempt_phase y = AttemptAccepted \<longrightarrow> a = b)
   \<and> (run_phase r = RunIsAccepted \<longleftrightarrow> (\<exists>a x. att a x \<and> attempt_phase x = AttemptAccepted))"

definition runs_match :: "lifecycle \<Rightarrow> bool" where
  "runs_match v \<longleftrightarrow>
     (\<forall>i r. life_runs v i = Some r \<longrightarrow> run_matches (attempts_under (life_attempts v) i) r)
   \<and> (\<forall>a x. life_attempts v a = Some x \<longrightarrow> life_runs v (attempt_run x) \<noteq> None)"

definition turns_placed :: "lifecycle \<Rightarrow> bool" where
  "turns_placed v \<longleftrightarrow> (\<forall>t y. life_turns v t = Some y \<longrightarrow> (\<exists>x. life_attempts v (turn_attempt y) = Some x
     \<and> (\<not> turn_terminal (turn_phase y) \<longrightarrow> attempt_phase x = AttemptActive)))"

definition turns_alternate :: "lifecycle \<Rightarrow> bool" where
  "turns_alternate v \<longleftrightarrow> (\<forall>t y t' y'. life_turns v t = Some y \<longrightarrow> life_turns v t' = Some y'
     \<longrightarrow> \<not> turn_terminal (turn_phase y) \<longrightarrow> \<not> turn_terminal (turn_phase y')
     \<longrightarrow> turn_attempt y = turn_attempt y' \<longrightarrow> t = t')"

definition actions_placed :: "lifecycle \<Rightarrow> bool" where
  "actions_placed v \<longleftrightarrow> (\<forall>c z. life_actions v c = Some z \<longrightarrow> (\<exists>y. life_turns v (action_turn z) = Some y
     \<and> (\<not> action_terminal (action_phase z) \<longrightarrow> turn_phase y = TurnActive)))"

definition witnessed :: "action_state \<Rightarrow> bool" where
  "witnessed z \<longleftrightarrow> (action_phase z = ActionIsProposed \<longrightarrow> action_authorization z = None)
   \<and> (action_phase z = ActionIsAuthorized \<or> action_phase z = ActionIsDispatched \<or> action_phase z = ActionSucceeded
      \<longrightarrow> action_authorization z \<noteq> None)"

definition actions_witnessed :: "lifecycle \<Rightarrow> bool" where
  "actions_witnessed v \<longleftrightarrow> (\<forall>c z. life_actions v c = Some z \<longrightarrow> witnessed z)"

definition reviews_placed :: "lifecycle \<Rightarrow> bool" where
  "reviews_placed v \<longleftrightarrow> (\<forall>k y. life_reviews v k = Some y \<longrightarrow>
     (\<exists>x. life_attempts v (review_attempt y) = Some x \<and> attempt_run x = review_run y))"

definition waivers_placed :: "lifecycle \<Rightarrow> bool" where
  "waivers_placed v \<longleftrightarrow> (\<forall>f w. life_waivers v f = Some w \<longrightarrow>
     (\<exists>y. life_reviews v (waiver_review w) = Some y \<and> review_run y = waiver_run w))"

definition one_live_run :: "lifecycle \<Rightarrow> bool" where
  "one_live_run v \<longleftrightarrow> (\<forall>i j. run_is_live v i \<longrightarrow> run_is_live v j \<longrightarrow> i = j)"

definition session_agrees :: "lifecycle \<Rightarrow> bool" where
  "session_agrees v \<longleftrightarrow>
     (session_phase (life_session v) = SessionIsClosed \<longrightarrow> (\<forall>i. \<not> run_is_live v i))
   \<and> (session_phase (life_session v) = SessionIsPaused \<longrightarrow> (\<forall>i r. life_runs v i = Some r \<longrightarrow>
        run_terminal (run_phase r) \<or> run_phase r = RunIsPaused
        \<or> run_phase r = RunRunning \<and> run_current_attempt r = None))"

definition lifecycle_inv :: "lifecycle \<Rightarrow> bool" where
  "lifecycle_inv v \<longleftrightarrow> keyed v \<and> runs_match v \<and> turns_placed v \<and> turns_alternate v \<and> actions_placed v
   \<and> actions_witnessed v \<and> reviews_placed v \<and> waivers_placed v \<and> one_live_run v \<and> session_agrees v"

section \<open>The tables end in terminal phases\<close>

lemma run_end_terminal:
  "run_end c = Some (i, rp, ap, tp, cp, k) \<Longrightarrow> run_terminal rp \<and> rp \<noteq> RunIsAccepted
     \<and> attempt_terminal ap \<and> ap \<noteq> AttemptAccepted \<and> turn_terminal tp \<and> action_terminal cp
     \<and> cp \<noteq> ActionSucceeded"
  by (cases c) (auto simp: run_terminal_def attempt_terminal_def turn_terminal_def action_terminal_def)

lemma attempt_end_terminal:
  "attempt_end c = Some (i, a, ap, tp, cp, k) \<Longrightarrow>
     attempt_terminal ap \<and> ap \<noteq> AttemptAccepted \<and> turn_terminal tp \<and> action_terminal cp
     \<and> cp \<noteq> ActionSucceeded"
  by (cases c) (auto simp: attempt_terminal_def turn_terminal_def action_terminal_def)

lemma turn_end_terminal: "turn_end c = Some (a, t, tp, cp, k) \<Longrightarrow>
     turn_terminal tp \<and> action_terminal cp \<and> cp \<noteq> ActionSucceeded"
  by (cases c) (auto simp: turn_terminal_def action_terminal_def)

lemma action_move_forward:
  "action_move c = Some (i, sources, p, k) \<Longrightarrow> q \<in> set sources \<Longrightarrow>
     \<not> action_terminal q \<and> p \<noteq> ActionIsProposed
     \<and> (p = ActionIsAuthorized \<or> p = ActionIsDispatched \<or> p = ActionSucceeded
        \<longrightarrow> q = ActionIsAuthorized \<or> q = ActionIsDispatched \<or> q = ActionSucceeded)"
  by (cases c) (auto simp: action_terminal_def)

lemmas end_terminal = run_end_terminal attempt_end_terminal turn_end_terminal

lemma terminal_simps [simp]:
  "\<not> run_terminal RunPending" "\<not> run_terminal RunRunning" "\<not> run_terminal RunIsPaused"
  "\<not> run_terminal RunReviewing" "\<not> run_terminal RunFixing" "run_terminal RunIsAccepted"
  "\<not> attempt_terminal AttemptActive" "\<not> attempt_terminal AttemptIsSubmitted"
  "\<not> attempt_terminal AttemptReviewing" "\<not> attempt_terminal AttemptFixing" "attempt_terminal AttemptAccepted"
  "\<not> turn_terminal TurnActive" "turn_terminal TurnIsCompleted"
  "\<not> action_terminal ActionIsProposed" "\<not> action_terminal ActionIsAuthorized"
  by (simp_all add: run_terminal_def attempt_terminal_def turn_terminal_def action_terminal_def)

text \<open>The new records and the put operations, as the proofs of this theory unfold them.\<close>

lemmas new_records = run_pending_def attempt_active_def turn_active_def action_proposed_def
  action_authorize_def review_requested_def waiver_requested_def

lemmas stops = stop_run_def stop_attempt_def stop_turn_def

section \<open>Every step keeps every conjunct\<close>

text \<open>What is left alone by an update of another map.\<close>

lemma put_frames [simp]:
  "life_session (put_run r v) = life_session v" "life_session (put_attempt x v) = life_session v"
  "life_session (put_turn y v) = life_session v" "life_session (put_action z v) = life_session v"
  "life_session (put_review k v) = life_session v" "life_session (put_waiver w v) = life_session v"
  "life_runs (put_session p v) = life_runs v" "life_runs (put_attempt x v) = life_runs v"
  "life_runs (put_turn y v) = life_runs v" "life_runs (put_action z v) = life_runs v"
  "life_runs (put_review k v) = life_runs v" "life_runs (put_waiver w v) = life_runs v"
  "life_attempts (put_session p v) = life_attempts v" "life_attempts (put_run r v) = life_attempts v"
  "life_attempts (put_turn y v) = life_attempts v" "life_attempts (put_action z v) = life_attempts v"
  "life_attempts (put_review k v) = life_attempts v" "life_attempts (put_waiver w v) = life_attempts v"
  "life_turns (put_session p v) = life_turns v" "life_turns (put_run r v) = life_turns v"
  "life_turns (put_attempt x v) = life_turns v" "life_turns (put_action z v) = life_turns v"
  "life_turns (put_review k v) = life_turns v" "life_turns (put_waiver w v) = life_turns v"
  "life_actions (put_session p v) = life_actions v" "life_actions (put_run r v) = life_actions v"
  "life_actions (put_attempt x v) = life_actions v" "life_actions (put_turn y v) = life_actions v"
  "life_actions (put_review k v) = life_actions v" "life_actions (put_waiver w v) = life_actions v"
  "life_reviews (put_session p v) = life_reviews v" "life_reviews (put_run r v) = life_reviews v"
  "life_reviews (put_attempt x v) = life_reviews v" "life_reviews (put_turn y v) = life_reviews v"
  "life_reviews (put_action z v) = life_reviews v" "life_reviews (put_waiver w v) = life_reviews v"
  "life_waivers (put_session p v) = life_waivers v" "life_waivers (put_run r v) = life_waivers v"
  "life_waivers (put_attempt x v) = life_waivers v" "life_waivers (put_turn y v) = life_waivers v"
  "life_waivers (put_action z v) = life_waivers v" "life_waivers (put_review k v) = life_waivers v"
  by (simp_all add: put_defs)

lemma put_updates [simp]:
  "life_session (put_session p v) = (life_session v)\<lparr>session_phase := p\<rparr>"
  "life_runs (put_run r v) = (life_runs v)(run_key r \<mapsto> r)"
  "life_attempts (put_attempt x v) = (life_attempts v)(attempt_key x \<mapsto> x)"
  "life_turns (put_turn y v) = (life_turns v)(turn_key y \<mapsto> y)"
  "life_actions (put_action z v) = (life_actions v)(action_key z \<mapsto> z)"
  "life_reviews (put_review k v) = (life_reviews v)(review_key k \<mapsto> k)"
  "life_waivers (put_waiver w v) = (life_waivers v)(waiver_key w \<mapsto> w)"
  by (simp_all add: put_defs)

lemma stop_frames [simp]:
  "life_session (stop_run i ap tp cp v) = life_session v" "life_session (stop_attempt a tp cp v) = life_session v"
  "life_session (stop_turn t cp v) = life_session v"
  "life_runs (stop_run i ap tp cp v) = life_runs v" "life_runs (stop_attempt a tp cp v) = life_runs v"
  "life_runs (stop_turn t cp v) = life_runs v"
  "life_attempts (stop_attempt a tp cp v) = life_attempts v" "life_attempts (stop_turn t cp v) = life_attempts v"
  "life_turns (stop_turn t cp v) = life_turns v"
  "life_reviews (stop_run i ap tp cp v) = life_reviews v" "life_reviews (stop_attempt a tp cp v) = life_reviews v"
  "life_reviews (stop_turn t cp v) = life_reviews v"
  "life_waivers (stop_run i ap tp cp v) = life_waivers v" "life_waivers (stop_attempt a tp cp v) = life_waivers v"
  "life_waivers (stop_turn t cp v) = life_waivers v"
  by (simp_all add: stops)

lemma stop_updates:
  "life_attempts (stop_run i ap tp cp v) k = map_option (stop_attempts (\<lambda>a. attempt_run a = i) ap) (life_attempts v k)"
  "life_turns (stop_run i ap tp cp v) t
     = map_option (stop_turns (\<lambda>t. attempt_of_run v i (turn_attempt t)) tp) (life_turns v t)"
  "life_turns (stop_attempt a tp cp v) t = map_option (stop_turns (\<lambda>t. turn_attempt t = a) tp) (life_turns v t)"
  "life_actions (stop_run i ap tp cp v) c
     = map_option (stop_actions (\<lambda>c. turn_of_run v i (action_turn c)) cp) (life_actions v c)"
  "life_actions (stop_attempt a tp cp v) c
     = map_option (stop_actions (\<lambda>c. turn_of_attempt v a (action_turn c)) cp) (life_actions v c)"
  "life_actions (stop_turn t cp v) c = map_option (stop_actions (\<lambda>c. action_turn c = t) cp) (life_actions v c)"
  by (simp_all add: stops)

lemma step_keyed:
  assumes "lifecycle_step inputs cur v c a v'" and "keyed v"
  shows "keyed v'"
  using assms(1)
  by cases (use assms(2) in \<open>auto simp: keyed_def new_records stop_updates\<close>)

lemma witnessed_stop: "witnessed z \<Longrightarrow> action_terminal p \<Longrightarrow> p \<noteq> ActionSucceeded \<Longrightarrow> witnessed (stop_actions P p z)"
  by (auto simp: witnessed_def stop_actions_def action_terminal_def)

lemma step_actions_witnessed:
  assumes "lifecycle_step inputs cur v c a v'" and "actions_witnessed v" and "keyed v"
  shows "actions_witnessed v'"
  using assms(1)
proof cases
  case (end_run i rp ap tp cp k r)
  then show ?thesis using assms(2) run_end_terminal[OF end_run(3)]
    by (auto simp: actions_witnessed_def stop_updates intro!: witnessed_stop)
next
  case (end_attempt i a ap tp cp k r x)
  then show ?thesis using assms(2) attempt_end_terminal[OF end_attempt(3)]
    by (auto simp: actions_witnessed_def stop_updates intro!: witnessed_stop)
next
  case (end_turn a t tp cp k x)
  then show ?thesis using assms(2) turn_end_terminal[OF end_turn(3)]
    by (auto simp: actions_witnessed_def stop_updates intro!: witnessed_stop)
next
  case (move_action i sources p k x)
  then have "witnessed x" using assms(2) by (auto simp: actions_witnessed_def)
  then have "witnessed (x\<lparr>action_phase := p\<rparr>)"
    using action_move_forward[OF move_action(3) move_action(5)] by (auto simp: witnessed_def)
  with move_action assms(2) show ?thesis by (auto simp: actions_witnessed_def)
qed (use assms(2) in \<open>auto simp: actions_witnessed_def witnessed_def action_proposed_def action_authorize_def\<close>)

lemma keyedD:
  assumes "keyed v"
  shows "life_runs v i = Some r \<Longrightarrow> run_key r = i" "life_attempts v a = Some x \<Longrightarrow> attempt_key x = a"
    "life_turns v t = Some y \<Longrightarrow> turn_key y = t" "life_actions v c = Some z \<Longrightarrow> action_key z = c"
    "life_reviews v k = Some u \<Longrightarrow> review_key u = k" "life_waivers v f = Some w \<Longrightarrow> waiver_key w = f"
  using assms by (simp_all add: keyed_def)

lemma stop_attempts_phase:
  "attempt_phase (stop_attempts P p x) = (if P x \<and> \<not> attempt_terminal (attempt_phase x) then p else attempt_phase x)"
  by (simp add: stop_attempts_def)

lemma stop_turns_phase:
  "turn_phase (stop_turns P p y) = (if P y \<and> \<not> turn_terminal (turn_phase y) then p else turn_phase y)"
  by (simp add: stop_turns_def)

lemma stop_actions_phase:
  "action_phase (stop_actions P p z) = (if P z \<and> \<not> action_terminal (action_phase z) then p else action_phase z)"
  by (simp add: stop_actions_def)

lemmas stop_phases = stop_attempts_phase stop_turns_phase stop_actions_phase

text \<open>A step on one run and its attempts has to restore the match of that run only.\<close>

lemma runs_match_local:
  assumes "runs_match v" and "life_runs v' = (life_runs v)(i \<mapsto> r)"
    and "\<And>a x. attempt_run x \<noteq> i \<Longrightarrow> life_attempts v' a = Some x \<longleftrightarrow> life_attempts v a = Some x"
    and "run_matches (attempts_under (life_attempts v') i) r"
  shows "runs_match v'"
  unfolding runs_match_def
proof (intro conjI allI impI)
  fix j q
  assume q: "life_runs v' j = Some q"
  show "run_matches (attempts_under (life_attempts v') j) q"
  proof (cases "j = i")
    case True
    with q assms(2,4) show ?thesis by simp
  next
    case False
    with assms(3) have "attempts_under (life_attempts v') j = attempts_under (life_attempts v) j"
      by (auto simp: attempts_under_def fun_eq_iff)
    with False q assms(1,2) show ?thesis by (simp add: runs_match_def)
  qed
next
  fix a x
  assume "life_attempts v' a = Some x"
  then show "life_runs v' (attempt_run x) \<noteq> None"
    using assms(1,2) assms(3)[of x a] by (auto simp: runs_match_def)
qed

text \<open>The ways the attempts of a run change: not at all, one of them, or all live ones.\<close>

lemma busy_live: "busy_agrees r p \<Longrightarrow> \<not> attempt_terminal p \<and> \<not> run_terminal (run_phase r)"
  by (auto simp: busy_agrees_def)

lemma matches_busy:
  "run_matches att r \<Longrightarrow> run_current_attempt r = Some a \<Longrightarrow> \<exists>x. att a x \<and> busy_agrees r (attempt_phase x)"
  by (simp add: run_matches_def)

lemma matches_idle: "run_matches att r \<Longrightarrow> run_current_attempt r = None \<Longrightarrow> idle_agrees r"
  by (simp add: run_matches_def)

lemma matches_current:
  "run_matches att r \<Longrightarrow> att a x \<Longrightarrow> \<not> attempt_terminal (attempt_phase x) \<Longrightarrow> run_current_attempt r = Some a"
  by (auto simp: run_matches_def)

lemma matches_unaccepted: "run_matches att r \<Longrightarrow> run_phase r \<noteq> RunIsAccepted \<Longrightarrow> att a x \<Longrightarrow> attempt_phase x \<noteq> AttemptAccepted"
  by (auto simp: run_matches_def)

lemma matches_rephase:
  assumes "run_matches att r" and "run_current_attempt q = run_current_attempt r"
    and "run_phase q \<noteq> RunIsAccepted" and "run_phase r \<noteq> RunIsAccepted"
    and "run_current_attempt r = None \<Longrightarrow> idle_agrees q"
    and "\<And>p. busy_agrees r p \<Longrightarrow> busy_agrees q p"
  shows "run_matches att q"
  using assms unfolding run_matches_def by (auto split: option.splits)

lemma matches_replace:
  assumes "run_matches att r" and "run_current_attempt r = Some a"
    and "\<not> attempt_terminal p \<Longrightarrow> run_current_attempt q = Some a \<and> busy_agrees q p"
    and "attempt_terminal p \<Longrightarrow> run_current_attempt q = None \<and> idle_agrees q
           \<and> (run_phase q = RunIsAccepted \<longleftrightarrow> p = AttemptAccepted)"
  shows "run_matches (\<lambda>b y. if b = a then y = x\<lparr>attempt_phase := p\<rparr> else att b y) q"
proof -
  from assms(1,2) have "run_phase r \<noteq> RunIsAccepted"
    using busy_live by (fastforce simp: run_matches_def)
  then have none: "attempt_phase y \<noteq> AttemptAccepted" if "att b y" for b y
    using matches_unaccepted[OF assms(1)] that by blast
  have other: "attempt_terminal (attempt_phase y)" if "att b y" "b \<noteq> a" for b y
    using assms(1,2) that by (auto simp: run_matches_def)
  show ?thesis
  proof (cases "attempt_terminal p")
    case True
    have "(\<exists>b y. (if b = a then y = x\<lparr>attempt_phase := p\<rparr> else att b y) \<and> attempt_phase y = AttemptAccepted)
        \<longleftrightarrow> p = AttemptAccepted"
      by (rule iffI, use none in \<open>force split: if_splits\<close>, rule exI[of _ a], simp)
    with True assms(4) none other show ?thesis unfolding run_matches_def by auto
  next
    case False
    with assms(3) have q: "run_current_attempt q = Some a" "busy_agrees q p" by auto
    with busy_live have "run_phase q \<noteq> RunIsAccepted" by fastforce
    with q False none other show ?thesis unfolding run_matches_def by auto
  qed
qed

lemma matches_new:
  assumes "run_matches att r" and "run_current_attempt r = None" and "run_phase r \<noteq> RunIsAccepted"
    and "run_current_attempt q = Some a" and "busy_agrees q (attempt_phase x)" and "\<And>y. \<not> att a y"
  shows "run_matches (\<lambda>b y. if b = a then y = x else att b y) q"
proof -
  have "run_phase q \<noteq> RunIsAccepted" "\<not> attempt_terminal (attempt_phase x)"
    using busy_live[OF assms(5)] by auto
  moreover have "attempt_phase y \<noteq> AttemptAccepted" "attempt_terminal (attempt_phase y)" if "att b y" for b y
    using assms(1-3) that by (auto simp: run_matches_def)
  ultimately show ?thesis using assms(4,5) unfolding run_matches_def by auto
qed

lemma matches_stop:
  assumes "run_matches att r" and "\<not> run_terminal (run_phase r)" and "attempt_terminal p" "p \<noteq> AttemptAccepted"
    and "run_current_attempt q = None" and "idle_agrees q" and "run_phase q \<noteq> RunIsAccepted"
    and under: "\<And>b x. att b x \<Longrightarrow> P x"
  shows "run_matches (\<lambda>b y. \<exists>x. att b x \<and> y = stop_attempts P p x) q"
proof -
  have "run_phase r \<noteq> RunIsAccepted" using assms(2) by auto
  then have "attempt_phase y \<noteq> AttemptAccepted" if "att b y" for b y
    using matches_unaccepted[OF assms(1)] that by blast
  then have "attempt_terminal (attempt_phase (stop_attempts P p x)) \<and> attempt_phase (stop_attempts P p x) \<noteq> AttemptAccepted"
    if "att b x" for b x
    using under that assms(3,4) \<open>att b x \<Longrightarrow> attempt_phase x \<noteq> AttemptAccepted\<close>
    by (auto simp: stop_attempts_phase)
  then show ?thesis using assms(5-7) unfolding run_matches_def by auto
qed

lemma attempts_under_put:
  "attempt_run x = i \<Longrightarrow>
     attempts_under (m(a \<mapsto> x)) i = (\<lambda>b y. if b = a then y = x else attempts_under m i b y)"
  by (auto simp: attempts_under_def fun_eq_iff)

lemma attempts_under_map:
  "(\<And>x. attempt_run (f x) = attempt_run x) \<Longrightarrow>
     attempts_under (map_option f \<circ> m) i = (\<lambda>b y. \<exists>x. attempts_under m i b x \<and> y = f x)"
  by (auto simp: attempts_under_def fun_eq_iff)

lemma runs_matchD:
  "runs_match v \<Longrightarrow> life_runs v i = Some r \<Longrightarrow> run_matches (attempts_under (life_attempts v) i) r"
  by (simp add: runs_match_def)

lemma runs_match_parent: "runs_match v \<Longrightarrow> life_attempts v a = Some x \<Longrightarrow> life_runs v (attempt_run x) \<noteq> None"
  by (simp add: runs_match_def)

text \<open>One run and one of its attempts move together.\<close>

lemma runs_match_pair:
  assumes "runs_match v" and "keyed v" and "life_runs v i = Some r" and "life_attempts v a = Some x"
    and "attempt_run x = i" and "\<not> attempt_terminal (attempt_phase x)"
    and "run_key q = i"
    and "\<not> attempt_terminal p \<Longrightarrow> run_current_attempt q = Some a \<and> busy_agrees q p"
    and "attempt_terminal p \<Longrightarrow> run_current_attempt q = None \<and> idle_agrees q
           \<and> (run_phase q = RunIsAccepted \<longleftrightarrow> p = AttemptAccepted)"
  shows "runs_match (put_run q (put_attempt (x\<lparr>attempt_phase := p\<rparr>) v))"
proof (rule runs_match_local[OF assms(1), where i = i and r = q])
  have key: "attempt_key x = a" by (rule keyedD(2)[OF assms(2,4)])
  show "life_runs (put_run q (put_attempt (x\<lparr>attempt_phase := p\<rparr>) v)) = (life_runs v)(i \<mapsto> q)"
    by (simp add: assms(7))
  show "life_attempts (put_run q (put_attempt (x\<lparr>attempt_phase := p\<rparr>) v)) b = Some y \<longleftrightarrow> life_attempts v b = Some y"
    if "attempt_run y \<noteq> i" for b y
    using that assms(4,5) key by auto
  have match: "run_matches (attempts_under (life_attempts v) i) r" by (rule runs_matchD[OF assms(1,3)])
  have "run_current_attempt r = Some a"
    by (rule matches_current[OF match, of a x]) (simp_all add: attempts_under_def assms(4-6))
  from matches_replace[OF match this assms(8,9), where x = x]
  show "run_matches (attempts_under (life_attempts (put_run q (put_attempt (x\<lparr>attempt_phase := p\<rparr>) v))) i) q"
    by (simp add: key attempts_under_put assms(5))
qed

lemma step_runs_match:
  assumes "lifecycle_step inputs cur v c a v'" and "runs_match v" and "keyed v"
  shows "runs_match v'"
  using assms(1)
proof cases
  case (start_run i b)
  show ?thesis
  proof (rule runs_match_local[OF assms(2), where i = i and r = "run_pending i cur (snapshot_id b) (snapshot_limits b)"])
    have "attempts_under (life_attempts v) i b x \<Longrightarrow> False" for b x
      using runs_match_parent[OF assms(2), of b x] start_run(5) by (simp add: attempts_under_def)
    then show "run_matches (attempts_under (life_attempts v') i) (run_pending i cur (snapshot_id b) (snapshot_limits b))"
      by (auto simp: start_run run_matches_def idle_agrees_def run_pending_def)
  qed (simp_all add: start_run run_pending_def)
next
  case (pause_run i r)
  have "run_matches (attempts_under (life_attempts v) i) (r\<lparr>run_phase := RunIsPaused\<rparr>)"
    by (rule matches_rephase[OF runs_matchD[OF assms(2) pause_run(5)]])
      (use pause_run(6) matches_idle[OF runs_matchD[OF assms(2) pause_run(5)]] in
        \<open>auto simp: idle_agrees_def busy_agrees_def\<close>)
  with pause_run keyedD[OF assms(3)] show ?thesis
    by (intro runs_match_local[OF assms(2), where i = i]) auto
next
  case (resume_run i r)
  have "run_matches (attempts_under (life_attempts v) i) (r\<lparr>run_phase := RunRunning\<rparr>)"
    by (rule matches_rephase[OF runs_matchD[OF assms(2) resume_run(5)]])
      (use resume_run(6) matches_idle[OF runs_matchD[OF assms(2) resume_run(5)]] in
        \<open>auto simp: idle_agrees_def busy_agrees_def\<close>)
  with resume_run keyedD[OF assms(3)] show ?thesis
    by (intro runs_match_local[OF assms(2), where i = i]) auto
next
  case (begin_acceptance i r b x)
  have "run_matches (attempts_under (life_attempts v) i) (r\<lparr>run_acceptance := AcceptanceEvaluating\<rparr>)"
    using runs_matchD[OF assms(2) begin_acceptance(4)] begin_acceptance(5-9)
    by (auto simp: run_matches_def busy_agrees_def attempts_under_def)
  with begin_acceptance keyedD[OF assms(3)] show ?thesis
    by (intro runs_match_local[OF assms(2), where i = i]) auto
next
  case (start_attempt i r b child par)
  let ?x = "attempt_active b i (snapshot_id child) (snapshot_limits child)"
  let ?q = "r\<lparr>run_phase := RunRunning, run_acceptance := AcceptancePending, run_current_attempt := Some b\<rparr>"
  have "run_matches (attempts_under ((life_attempts v)(b \<mapsto> ?x)) i) ?q"
    by (subst attempts_under_put, simp add: attempt_active_def,
        rule matches_new[OF runs_matchD[OF assms(2) start_attempt(5)]])
      (use start_attempt(6-8) in \<open>auto simp: busy_agrees_def attempt_active_def attempts_under_def\<close>)
  with start_attempt keyedD[OF assms(3)] show ?thesis
    by (intro runs_match_local[OF assms(2), where i = i and r = ?q])
      (auto simp: attempt_active_def split: if_splits)
next
  case (end_run i rp ap tp cp k r)
  let ?q = "r\<lparr>run_phase := rp, run_acceptance := AcceptanceTerminated, run_current_attempt := None\<rparr>"
  let ?f = "stop_attempts (\<lambda>x. attempt_run x = i) ap"
  have under: "attempts_under (life_attempts v') i = (\<lambda>b y. \<exists>x. attempts_under (life_attempts v) i b x \<and> y = ?f x)"
    using attempts_under_map[of ?f "life_attempts v" i] by (simp add: end_run stop_run_def)
  have "run_matches (attempts_under (life_attempts v') i) ?q"
    unfolding under
    by (rule matches_stop[OF runs_matchD[OF assms(2) end_run(4)] end_run(5)])
      (use run_end_terminal[OF end_run(3)] in \<open>auto simp: idle_agrees_def attempts_under_def\<close>)
  moreover have "life_attempts v' b = Some x \<longleftrightarrow> life_attempts v b = Some x" if "attempt_run x \<noteq> i" for b x
    using that by (auto simp: end_run stop_updates stop_attempts_def split: if_splits)
  ultimately show ?thesis
    using end_run(2) keyedD(1)[OF assms(3) end_run(4)]
    by (intro runs_match_local[OF assms(2), where i = i and r = ?q]) auto
next
  case (resume_attempt i r b x)
  then show ?thesis using keyedD(1)[OF assms(3) resume_attempt(4)] matches_current[OF runs_matchD[OF assms(2) resume_attempt(4)], of b x]
    by (auto simp: busy_agrees_def attempts_under_def intro!: runs_match_pair[OF assms(2,3)])
next
  case (submit_attempt i r b x)
  then show ?thesis using keyedD(1)[OF assms(3) submit_attempt(4)] matches_current[OF runs_matchD[OF assms(2) submit_attempt(4)], of b x]
    by (auto simp: busy_agrees_def attempts_under_def intro!: runs_match_pair[OF assms(2,3)])
next
  case (accept_run i r b x e)
  with runs_matchD[OF assms(2) accept_run(4)] have "attempt_run x = i"
    by (auto simp: run_matches_def attempts_under_def)
  with accept_run show ?thesis using keyedD(1)[OF assms(3) accept_run(4)]
    by (auto simp: idle_agrees_def intro!: runs_match_pair[OF assms(2,3)])
next
  case (need_changes i r b x e)
  with runs_matchD[OF assms(2) need_changes(4)] have "attempt_run x = i"
    by (auto simp: run_matches_def attempts_under_def)
  with need_changes show ?thesis using keyedD(1)[OF assms(3) need_changes(4)]
    by (auto simp: busy_agrees_def intro!: runs_match_pair[OF assms(2,3)])
next
  case (end_attempt i b ap tp cp k r x)
  have "runs_match (stop_attempt b tp cp v)" "keyed (stop_attempt b tp cp v)"
    using assms(2,3) by (auto simp: runs_match_def keyed_def stop_updates)
  then show ?thesis
    using end_attempt attempt_end_terminal[OF end_attempt(3)] keyedD(1)[OF assms(3) end_attempt(4)]
    by (auto simp: idle_agrees_def intro!: runs_match_pair)
next
  case (request_review i r b x k)
  have match: "run_matches (attempts_under (life_attempts v) i) r" by (rule runs_matchD[OF assms(2) request_review(4)])
  have cur: "run_current_attempt r = Some b"
    by (rule matches_current[OF match]) (use request_review in \<open>auto simp: attempts_under_def\<close>)
  have busy: "busy_agrees r (attempt_phase x)"
    using matches_busy[OF match cur] request_review(5) by (auto simp: attempts_under_def)
  have "(life_runs v)(run_key r \<mapsto> r) = life_runs v"
    using request_review(4) keyedD(1)[OF assms(3) request_review(4)] by (simp add: fun_upd_idem)
  then have "put_attempt (x\<lparr>attempt_phase := AttemptReviewing\<rparr>) v
      = put_run r (put_attempt (x\<lparr>attempt_phase := AttemptReviewing\<rparr>) v)"
    by (intro lifecycle.equality) simp_all
  moreover have "runs_match (put_run r (put_attempt (x\<lparr>attempt_phase := AttemptReviewing\<rparr>) v))"
    using request_review busy cur keyedD(1)[OF assms(3) request_review(4)]
    by (intro runs_match_pair[OF assms(2,3)]) (auto simp: busy_agrees_def)
  ultimately show ?thesis using request_review(3) by (simp add: runs_match_def put_defs)
qed (use assms(2) in \<open>simp_all add: runs_match_def\<close>)

end
