(* ===== verification/Kernel_Preservation.thy ===== *)
theory Kernel_Preservation
  imports Kernel_Invariant
begin

text \<open>
  The conjuncts of the lifecycle invariant about turns, actions, reviews, waivers and the session,
  and the invariant as a whole: every step of the lifecycle keeps it.
\<close>

section \<open>Turns\<close>

lemma no_live_turn:
  "turns_placed v \<Longrightarrow> life_attempts v a = Some x \<Longrightarrow> attempt_phase x \<noteq> AttemptActive \<Longrightarrow> \<not> live_turn_under v a"
  by (fastforce simp: turns_placed_def live_turn_under_def)

lemma turns_placed_attempt:
  assumes "turns_placed v" and "attempt_phase x = AttemptActive \<or> \<not> live_turn_under v (attempt_key x)"
  shows "turns_placed (put_attempt x v)"
  unfolding turns_placed_def
proof (intro allI impI)
  fix t y
  assume y: "life_turns (put_attempt x v) t = Some y"
  then obtain z where "life_attempts v (turn_attempt y) = Some z"
    "\<not> turn_terminal (turn_phase y) \<longrightarrow> attempt_phase z = AttemptActive"
    using assms(1) by (auto simp: turns_placed_def)
  then show "\<exists>z. life_attempts (put_attempt x v) (turn_attempt y) = Some z
      \<and> (\<not> turn_terminal (turn_phase y) \<longrightarrow> attempt_phase z = AttemptActive)"
    using y assms(2) by (cases "turn_attempt y = attempt_key x") (auto simp: live_turn_under_def)
qed

lemma turns_placed_put_run [simp]: "turns_placed (put_run r v) = turns_placed v"
  by (simp add: turns_placed_def)

lemma turns_placed_stop:
  assumes "turns_placed v" and "turn_terminal tp" and "life_turns v' = map_option (stop_turns P tp) \<circ> life_turns v"
    and "life_attempts v' = map_option f \<circ> life_attempts v"
    and "\<And>t y x. life_turns v t = Some y \<Longrightarrow> \<not> P y \<Longrightarrow> life_attempts v (turn_attempt y) = Some x \<Longrightarrow> f x = x"
  shows "turns_placed v'"
  unfolding turns_placed_def
proof (intro allI impI)
  fix t y'
  assume "life_turns v' t = Some y'"
  then obtain y where y: "life_turns v t = Some y" "y' = stop_turns P tp y" using assms(3) by auto
  with assms(1) obtain x where x: "life_attempts v (turn_attempt y) = Some x"
    "\<not> turn_terminal (turn_phase y) \<longrightarrow> attempt_phase x = AttemptActive" by (auto simp: turns_placed_def)
  have "attempt_phase (f x) = AttemptActive" if "\<not> turn_terminal (turn_phase y')"
    using that y x assms(2) assms(5)[OF y(1) _ x(1)] by (auto simp: stop_turns_phase split: if_splits)
  with x y assms(4) show "\<exists>x. life_attempts v' (turn_attempt y') = Some x
      \<and> (\<not> turn_terminal (turn_phase y') \<longrightarrow> attempt_phase x = AttemptActive)" by simp
qed

lemma stop_leaves_no_turn:
  assumes "turn_terminal tp" and "life_turns v' = map_option (stop_turns P tp) \<circ> life_turns v"
    and "\<And>y. turn_attempt y = a \<Longrightarrow> P y"
  shows "\<not> live_turn_under v' a"
proof
  assume "live_turn_under v' a"
  then obtain t y where "life_turns v t = Some y" "turn_attempt y = a"
    "\<not> turn_terminal (turn_phase (stop_turns P tp y))"
    using assms(2) by (auto simp: live_turn_under_def)
  with assms(1,3) show False by (auto simp: stop_turns_phase split: if_splits)
qed

lemma step_turns_placed:
  assumes "lifecycle_step inputs cur v c a v'" and "turns_placed v" and "keyed v"
  shows "turns_placed v'"
  using assms(1)
proof cases
  case (end_run i rp ap tp cp k r)
  have "stop_attempts (\<lambda>x. attempt_run x = i) ap x = x"
    if "\<not> attempt_of_run v i (turn_attempt y)" "life_attempts v (turn_attempt y) = Some x" for y x
    using that by (auto simp: stop_attempts_def attempt_of_run_def)
  then have "turns_placed (stop_run i ap tp cp v)"
    using run_end_terminal[OF end_run(3)]
    by (intro turns_placed_stop[OF assms(2), where f = "stop_attempts (\<lambda>x. attempt_run x = i) ap"])
      (auto simp: stop_run_def)
  then show ?thesis using end_run(2) by simp
next
  case (start_attempt i r b child par)
  have "turns_placed (put_attempt (attempt_active b i (snapshot_id child) (snapshot_limits child)) v)"
    by (rule turns_placed_attempt[OF assms(2)]) (simp add: attempt_active_def)
  then show ?thesis using start_attempt(3) by simp
next
  case (resume_attempt i r b x)
  have "turns_placed (put_attempt (x\<lparr>attempt_phase := AttemptActive\<rparr>) v)"
    by (rule turns_placed_attempt[OF assms(2)]) simp
  then show ?thesis using resume_attempt(3) by simp
next
  case (submit_attempt i r b x)
  have "turns_placed (put_attempt (x\<lparr>attempt_phase := AttemptIsSubmitted\<rparr>) v)"
    using submit_attempt keyedD(2)[OF assms(3)] by (intro turns_placed_attempt[OF assms(2)]) simp
  then show ?thesis using submit_attempt(3) by simp
next
  case (end_attempt i b ap tp cp k r x)
  have "turns_placed (stop_attempt b tp cp v)"
    using attempt_end_terminal[OF end_attempt(3)]
    by (intro turns_placed_stop[OF assms(2), where f = "\<lambda>x. x"]) (auto simp: stop_attempt_def option.map_ident)
  moreover have "\<not> live_turn_under (stop_attempt b tp cp v) b"
    using attempt_end_terminal[OF end_attempt(3)] 
    by (intro stop_leaves_no_turn[where v = v and tp = tp and P = "\<lambda>y. turn_attempt y = b"]) (auto simp: stop_attempt_def)
  ultimately have "turns_placed (put_attempt (x\<lparr>attempt_phase := ap\<rparr>) (stop_attempt b tp cp v))"
    using keyedD(2)[OF assms(3) end_attempt(5)] by (intro turns_placed_attempt) simp_all
  then show ?thesis using end_attempt(2) by simp
next
  case (request_review i r b x k)
  then have "\<not> live_turn_under v b" by (intro no_live_turn[OF assms(2)]) auto
  then have "turns_placed (put_attempt (x\<lparr>attempt_phase := AttemptReviewing\<rparr>) v)"
    using request_review keyedD(2)[OF assms(3)] by (intro turns_placed_attempt[OF assms(2)]) simp
  then show ?thesis using request_review(3) by (simp add: turns_placed_def)
next
  case (accept_run i r b x e)
  then have "\<not> live_turn_under v b" by (intro no_live_turn[OF assms(2)]) auto
  then have "turns_placed (put_attempt (x\<lparr>attempt_phase := AttemptAccepted\<rparr>) v)"
    using accept_run keyedD(2)[OF assms(3)] by (intro turns_placed_attempt[OF assms(2)]) simp
  then show ?thesis using accept_run(3) by simp
next
  case (need_changes i r b x e)
  then have "\<not> live_turn_under v b" by (intro no_live_turn[OF assms(2)]) auto
  then have "turns_placed (put_attempt (x\<lparr>attempt_phase := AttemptFixing\<rparr>) v)"
    using need_changes keyedD(2)[OF assms(3)] by (intro turns_placed_attempt[OF assms(2)]) simp
  then show ?thesis using need_changes(3) by simp
next
  case (start_turn b x t)
  with assms(2) show ?thesis by (auto simp: turns_placed_def turn_active_def)
next
  case (complete_turn t x b)
  with assms(2) show ?thesis by (auto simp: turns_placed_def)
next
  case (end_turn b t tp cp k x)
  with assms(2) turn_end_terminal[OF end_turn(3)] show ?thesis by (auto simp: turns_placed_def)
qed (use assms(2) in \<open>simp_all add: turns_placed_def\<close>)

text \<open>Turns only become terminal, and a new turn starts when its attempt has none.\<close>

lemma turns_alternate_mono:
  assumes "turns_alternate v"
    and "\<And>t y. life_turns v' t = Some y \<Longrightarrow> \<not> turn_terminal (turn_phase y)
      \<Longrightarrow> \<exists>z. life_turns v t = Some z \<and> \<not> turn_terminal (turn_phase z) \<and> turn_attempt z = turn_attempt y"
  shows "turns_alternate v'"
  using assms unfolding turns_alternate_def by metis

lemma step_turns_alternate:
  assumes "lifecycle_step inputs cur v c a v'" and "turns_alternate v" and "keyed v"
  shows "turns_alternate v'"
  using assms(1)
proof cases
  case (start_turn b x t)
  with assms(2) show ?thesis by (auto simp: turns_alternate_def turn_active_def live_turn_under_def)
next
  case (end_run i rp ap tp cp k r)
  then show ?thesis using run_end_terminal[OF end_run(3)]
    by (intro turns_alternate_mono[OF assms(2)]) (auto simp: stop_updates stop_turns_phase split: if_splits)
next
  case (end_attempt i b ap tp cp k r x)
  then show ?thesis using attempt_end_terminal[OF end_attempt(3)]
    by (intro turns_alternate_mono[OF assms(2)]) (auto simp: stop_updates stop_turns_phase split: if_splits)
next
  case (complete_turn t x b)
  then show ?thesis by (intro turns_alternate_mono[OF assms(2)]) (auto split: if_splits)
next
  case (end_turn b t tp cp k x)
  then show ?thesis using turn_end_terminal[OF end_turn(3)]
    by (intro turns_alternate_mono[OF assms(2)]) (auto split: if_splits)
qed (use assms(2) in \<open>simp_all add: turns_alternate_def\<close>)

section \<open>Actions\<close>

lemma actions_placed_mono:
  assumes "actions_placed v"
    and "\<And>c z. life_actions v' c = Some z \<Longrightarrow> \<exists>z0. life_actions v c = Some z0 \<and> action_turn z = action_turn z0
      \<and> (\<not> action_terminal (action_phase z) \<longrightarrow> \<not> action_terminal (action_phase z0))"
    and "\<And>t y. life_turns v t = Some y \<Longrightarrow> \<exists>y'. life_turns v' t = Some y'
      \<and> (turn_phase y = TurnActive \<longrightarrow> live_action_under v' t \<longrightarrow> turn_phase y' = TurnActive)"
  shows "actions_placed v'"
  unfolding actions_placed_def
proof (intro allI impI)
  fix c z
  assume z: "life_actions v' c = Some z"
  from assms(2)[OF z] obtain z0 where z0: "life_actions v c = Some z0" "action_turn z = action_turn z0"
    "\<not> action_terminal (action_phase z) \<longrightarrow> \<not> action_terminal (action_phase z0)" by blast
  with assms(1) obtain y where y: "life_turns v (action_turn z) = Some y"
    "\<not> action_terminal (action_phase z0) \<longrightarrow> turn_phase y = TurnActive" by (auto simp: actions_placed_def)
  have "\<not> action_terminal (action_phase z) \<longrightarrow> live_action_under v' (action_turn z)"
    using z by (auto simp: live_action_under_def)
  with assms(3)[OF y(1)] z0(3) y(2) show "\<exists>y. life_turns v' (action_turn z) = Some y
      \<and> (\<not> action_terminal (action_phase z) \<longrightarrow> turn_phase y = TurnActive)" by auto
qed

lemma stop_leaves_none:
  assumes "action_terminal cp" and "life_actions v' = map_option (stop_actions P cp) \<circ> life_actions v"
    and "\<And>c z. life_actions v c = Some z \<Longrightarrow> action_turn z = t \<Longrightarrow> P z"
  shows "\<not> live_action_under v' t"
proof
  assume "live_action_under v' t"
  then obtain c z where "life_actions v c = Some z" "action_turn z = t"
    "\<not> action_terminal (action_phase (stop_actions P cp z))"
    using assms(2) by (auto simp: live_action_under_def)
  with assms(1,3) show False by (auto simp: stop_actions_phase split: if_splits)
qed

lemma step_actions_placed:
  assumes "lifecycle_step inputs cur v c a v'" and "actions_placed v" and "keyed v"
  shows "actions_placed v'"
  using assms(1)
proof cases
  case (end_run i rp ap tp cp k r)
  have "\<not> live_action_under v' t" if "life_turns v t = Some y" "attempt_of_run v i (turn_attempt y)" for t y
    using that end_run(2) run_end_terminal[OF end_run(3)]
    by (intro stop_leaves_none[where v = v and cp = cp and P = "\<lambda>c. turn_of_run v i (action_turn c)"])
      (auto simp: turn_of_run_def stop_run_def)
  then show ?thesis using end_run(2)
    by (intro actions_placed_mono[OF assms(2)]) (auto simp: stop_updates stop_phases split: if_splits)
next
  case (end_attempt i b ap tp cp k r x)
  have "\<not> live_action_under v' t" if "life_turns v t = Some y" "turn_attempt y = b" for t y
    using that end_attempt(2) attempt_end_terminal[OF end_attempt(3)]
    by (intro stop_leaves_none[where v = v and cp = cp and P = "\<lambda>c. turn_of_attempt v b (action_turn c)"])
      (auto simp: turn_of_attempt_def stop_attempt_def)
  then show ?thesis using end_attempt(2)
    by (intro actions_placed_mono[OF assms(2)]) (auto simp: stop_updates stop_phases split: if_splits)
next
  case (end_turn b t tp cp k x)
  have "\<not> live_action_under v' t"
    using end_turn(2) turn_end_terminal[OF end_turn(3)]
    by (intro stop_leaves_none[where v = v and cp = cp and P = "\<lambda>c. action_turn c = t"]) (auto simp: stop_turn_def)
  then show ?thesis using end_turn(2) keyedD(3)[OF assms(3) end_turn(4)]
    by (intro actions_placed_mono[OF assms(2)]) (auto simp: stop_updates stop_phases split: if_splits)
next
  case (complete_turn t x b)
  then have "\<not> live_action_under v' t" by (auto simp: live_action_under_def)
  then show ?thesis using complete_turn(3) keyedD(3)[OF assms(3) complete_turn(4)]
    by (intro actions_placed_mono[OF assms(2)]) (auto split: if_splits)
next
  case (start_turn b x t)
  with assms(2) show ?thesis by (auto simp: actions_placed_def turn_active_def)
next
  case (propose_action t x c digest actor role environment)
  with assms(2) show ?thesis by (auto simp: actions_placed_def action_proposed_def)
next
  case (authorize_action c x tr)
  then show ?thesis using keyedD(4)[OF assms(3) authorize_action(4)]
    by (intro actions_placed_mono[OF assms(2)]) (auto simp: action_authorize_def split: if_splits)
next
  case (move_action i sources p k x)
  then show ?thesis using keyedD(4)[OF assms(3) move_action(4)] action_move_forward[OF move_action(3,5)]
    by (intro actions_placed_mono[OF assms(2)]) (auto split: if_splits)
qed (use assms(2) in \<open>simp_all add: actions_placed_def\<close>)

section \<open>Reviews and waivers\<close>

lemma step_reviews_placed:
  assumes "lifecycle_step inputs cur v c a v'" and "reviews_placed v" and "keyed v"
  shows "reviews_placed v'"
proof -
  have attempts: "\<exists>y. life_attempts v' k = Some y \<and> attempt_run y = attempt_run x" if "life_attempts v k = Some x" for k x
    using assms(1) that keyedD(2)[OF assms(3)]
    by (cases) (auto simp: stop_updates attempt_active_def)
  have reviews: "(\<exists>z. life_reviews v k = Some z \<and> review_run z = review_run y \<and> review_attempt z = review_attempt y)
      \<or> (\<exists>x. life_attempts v (review_attempt y) = Some x \<and> attempt_run x = review_run y)"
    if "life_reviews v' k = Some y" for k y
    using assms(1) that keyedD(5)[OF assms(3)]
    by (cases) (auto simp: review_requested_def split: if_splits)
  show ?thesis
    unfolding reviews_placed_def
  proof (intro allI impI)
    fix k y
    assume "life_reviews v' k = Some y"
    from reviews[OF this] obtain x where "life_attempts v (review_attempt y) = Some x" "attempt_run x = review_run y"
      using assms(2) unfolding reviews_placed_def by metis
    with attempts[of "review_attempt y" x]
    show "\<exists>x. life_attempts v' (review_attempt y) = Some x \<and> attempt_run x = review_run y" by simp
  qed
qed

lemma step_waivers_placed:
  assumes "lifecycle_step inputs cur v c a v'" and "waivers_placed v" and "keyed v"
  shows "waivers_placed v'"
proof -
  have reviews: "\<exists>y. life_reviews v' k = Some y \<and> review_run y = review_run x" if "life_reviews v k = Some x" for k x
    using assms(1) that keyedD(5)[OF assms(3)]
    by (cases) (auto simp: review_requested_def)
  have waivers: "(\<exists>z. life_waivers v f = Some z \<and> waiver_run z = waiver_run w \<and> waiver_review z = waiver_review w)
      \<or> (\<exists>x. life_reviews v (waiver_review w) = Some x \<and> review_run x = waiver_run w)"
    if "life_waivers v' f = Some w" for f w
    using assms(1) that keyedD(6)[OF assms(3)]
    by (cases) (auto simp: waiver_requested_def split: if_splits)
  show ?thesis
    unfolding waivers_placed_def
  proof (intro allI impI)
    fix f w
    assume "life_waivers v' f = Some w"
    from waivers[OF this] obtain x where "life_reviews v (waiver_review w) = Some x" "review_run x = waiver_run w"
      using assms(2) unfolding waivers_placed_def by metis
    with reviews[of "waiver_review w" x]
    show "\<exists>y. life_reviews v' (waiver_review w) = Some y \<and> review_run y = waiver_run w" by simp
  qed
qed

section \<open>Runs and the session\<close>

text \<open>Only a start makes a run live, and it needs that there is none.\<close>

lemma step_live:
  assumes "lifecycle_step inputs cur v c a v'" and "keyed v" and "run_is_live v' i"
  shows "run_is_live v i \<or> (\<forall>j. \<not> run_is_live v j) \<and> session_phase (life_session v) = SessionOpen \<and> c = StartRun i"
  using assms(1)
proof cases
  case (end_run j rp ap tp cp k r)
  then show ?thesis using assms(3) keyedD(1)[OF assms(2) end_run(4)] run_end_terminal[OF end_run(3)]
    by (auto simp: run_is_live_def split: if_splits)
next
  case (end_attempt j b ap tp cp k r x)
  then show ?thesis using assms(3) keyedD(1)[OF assms(2) end_attempt(4)] by (auto simp: run_is_live_def split: if_splits)
qed (use assms(3) keyedD(1)[OF assms(2)] in \<open>auto simp: run_is_live_def run_pending_def split: if_splits\<close>)

lemma step_one_live_run:
  "lifecycle_step inputs cur v c a v' \<Longrightarrow> one_live_run v \<Longrightarrow> keyed v \<Longrightarrow> one_live_run v'"
  unfolding one_live_run_def using step_live kernel_command.inject(1) by metis

lemma live_attempt_current:
  assumes "runs_match v" and "life_runs v i = Some r" and "life_attempts v a = Some x" and "attempt_run x = i"
    and "\<not> attempt_terminal (attempt_phase x)"
  shows "run_current_attempt r = Some a"
  by (rule matches_current[OF runs_matchD[OF assms(1,2)], of a x]) (simp_all add: attempts_under_def assms)

definition paused_agrees :: "lifecycle \<Rightarrow> bool" where
  "paused_agrees v \<longleftrightarrow> (\<forall>i r. life_runs v i = Some r \<longrightarrow> run_terminal (run_phase r)
     \<or> run_phase r = RunIsPaused \<or> run_phase r = RunRunning \<and> run_current_attempt r = None)"

lemma paused_agreesD:
  "paused_agrees v \<Longrightarrow> life_runs v i = Some r \<Longrightarrow> run_phase r \<noteq> RunReviewing \<and> run_phase r \<noteq> RunFixing
     \<and> (run_phase r = RunRunning \<longrightarrow> run_current_attempt r = None)"
  by (fastforce simp: paused_agrees_def)

lemma paused_put: "paused_agrees v \<Longrightarrow> run_terminal (run_phase r) \<or> run_phase r = RunIsPaused
    \<or> run_phase r = RunRunning \<and> run_current_attempt r = None \<Longrightarrow> paused_agrees (put_run r v)"
  by (auto simp: paused_agrees_def)

lemma paused_cong [simp]:
  "paused_agrees (put_attempt x v) = paused_agrees v" "paused_agrees (put_turn y v) = paused_agrees v"
  "paused_agrees (put_action z v) = paused_agrees v" "paused_agrees (put_review k v) = paused_agrees v"
  "paused_agrees (put_waiver w v) = paused_agrees v" "paused_agrees (put_session p v) = paused_agrees v"
  "paused_agrees (stop_run i ap tp cp v) = paused_agrees v" "paused_agrees (stop_attempt b tp cp v) = paused_agrees v"
  "paused_agrees (stop_turn t cp v) = paused_agrees v"
  by (simp_all add: paused_agrees_def)

lemma step_paused:
  assumes "lifecycle_step inputs cur v c a v'" and "runs_match v" and "keyed v"
    and "session_phase (life_session v) = SessionIsPaused \<Longrightarrow> paused_agrees v"
    and "session_phase (life_session v') = SessionIsPaused"
  shows "paused_agrees v'"
  using assms(1)
proof cases
  case (submit_attempt i r b x)
  with live_attempt_current[OF assms(2), of i r b x] assms(4,5) paused_agreesD[of v i r] show ?thesis by auto
next
  case (end_run i rp ap tp cp k r)
  with assms(4,5) run_end_terminal[OF end_run(3)] show ?thesis by (auto intro!: paused_put)
next
  case (end_attempt i b ap tp cp k r x)
  with assms(4,5) show ?thesis by (auto intro!: paused_put)
next
  case (resume_attempt i r b x)
  with assms(4,5) paused_agreesD[of v i r] show ?thesis by auto
next
  case (begin_acceptance i r b x)
  with assms(4,5) paused_agreesD[of v i r] show ?thesis by auto
next
  case (accept_run i r b x e)
  with assms(4,5) paused_agreesD[of v i r] show ?thesis by auto
next
  case (need_changes i r b x e)
  with assms(4,5) paused_agreesD[of v i r] show ?thesis by auto
next
  case pause_session
  then show ?thesis by (auto simp: paused_agrees_def)
qed (use assms(4,5) in simp_all)

lemma session_agrees_paused:
  "session_agrees v \<longleftrightarrow>
     (session_phase (life_session v) = SessionIsClosed \<longrightarrow> (\<forall>i. \<not> run_is_live v i))
   \<and> (session_phase (life_session v) = SessionIsPaused \<longrightarrow> paused_agrees v)"
  by (simp add: session_agrees_def paused_agrees_def)

lemma step_closed:
  assumes "lifecycle_step inputs cur v c a v'" and "session_phase (life_session v') = SessionIsClosed"
  shows "session_phase (life_session v) = SessionIsClosed \<or> (\<forall>i. \<not> run_is_live v i)"
  using assms by cases auto

lemma step_session_agrees:
  assumes "lifecycle_step inputs cur v c a v'" and "session_agrees v" and "runs_match v" and "keyed v"
  shows "session_agrees v'"
  unfolding session_agrees_paused
proof (intro conjI impI allI)
  fix i
  assume closed: "session_phase (life_session v') = SessionIsClosed"
  have none: "\<not> run_is_live v j" for j
    using step_closed[OF assms(1) closed] assms(2) by (auto simp: session_agrees_def)
  have "\<not> run_is_live v' i" if "c \<noteq> StartRun i" using step_live[OF assms(1,4)] none that by blast
  moreover have "c \<noteq> StartRun i"
    using assms(1) closed by cases auto
  ultimately show "\<not> run_is_live v' i" by blast
next
  assume "session_phase (life_session v') = SessionIsPaused"
  moreover have "session_phase (life_session v) = SessionIsPaused \<Longrightarrow> paused_agrees v"
    using assms(2) by (simp add: session_agrees_paused)
  ultimately show "paused_agrees v'" by (intro step_paused[OF assms(1,3,4)])
qed

theorem lifecycle_step_inv:
  assumes step: "lifecycle_step inputs cur v c a v'" and "lifecycle_inv v"
  shows "lifecycle_inv v'"
proof -
  from assms(2) have inv: "keyed v" "runs_match v" "turns_placed v" "turns_alternate v" "actions_placed v"
    "actions_witnessed v" "reviews_placed v" "waivers_placed v" "one_live_run v" "session_agrees v"
    by (simp_all add: lifecycle_inv_def)
  show ?thesis
    unfolding lifecycle_inv_def
    using step_keyed[OF step inv(1)] step_runs_match[OF step inv(2,1)] step_turns_placed[OF step inv(3,1)]
      step_turns_alternate[OF step inv(4,1)] step_actions_placed[OF step inv(5,1)]
      step_actions_witnessed[OF step inv(6,1)] step_reviews_placed[OF step inv(7,1)]
      step_waivers_placed[OF step inv(8,1)] step_one_live_run[OF step inv(9,1)]
      step_session_agrees[OF step inv(10,2,1)]
    by blast
qed

end
