(* ===== verification/Kernel_Progress.thy ===== *)
theory Kernel_Progress
  imports Kernel_Preservation
begin

text \<open>
  Which way the records of \<open>peritus-kernel\<close> may move: the edges of each phase diagram, the fields a
  record keeps for ever, and the proof that a step of the lifecycle moves every record along at most
  one edge and removes none.
\<close>

section \<open>Phase diagrams\<close>

definition session_edge :: "session_phase \<Rightarrow> session_phase \<Rightarrow> bool" where
  "session_edge p q \<longleftrightarrow> p = q \<or> p \<noteq> SessionIsClosed"

definition run_edge :: "run_phase \<Rightarrow> run_phase \<Rightarrow> bool" where
  "run_edge p q \<longleftrightarrow> p = q \<or> \<not> run_terminal p \<and>
     (q = RunRunning \<or> q \<in> {RunIsRejected, RunIsCancelled, RunHasFailed, RunIsExhausted}
      \<or> (p, q) \<in> {(RunRunning, RunIsPaused), (RunFixing, RunIsPaused), (RunRunning, RunReviewing),
                  (RunReviewing, RunFixing), (RunReviewing, RunIsAccepted)})"

definition attempt_edge :: "attempt_phase \<Rightarrow> attempt_phase \<Rightarrow> bool" where
  "attempt_edge p q \<longleftrightarrow> p = q \<or> \<not> attempt_terminal p \<and>
     (q \<in> {AttemptHasFailed, AttemptCancelled, AttemptIsExhausted}
      \<or> (p, q) \<in> {(AttemptActive, AttemptIsSubmitted), (AttemptIsSubmitted, AttemptReviewing),
                  (AttemptReviewing, AttemptAccepted), (AttemptReviewing, AttemptFixing),
                  (AttemptFixing, AttemptActive)})"

definition turn_edge :: "turn_phase \<Rightarrow> turn_phase \<Rightarrow> bool" where
  "turn_edge p q \<longleftrightarrow> p = q \<or> p = TurnActive"

definition action_edge :: "action_phase \<Rightarrow> action_phase \<Rightarrow> bool" where
  "action_edge p q \<longleftrightarrow> p = q \<or> \<not> action_terminal p \<and>
     (q \<in> {ActionHasFailed, ActionIsCancelled}
      \<or> (p, q) \<in> {(ActionIsProposed, ActionIsAuthorized), (ActionIsAuthorized, ActionIsDispatched),
                  (ActionIsDispatched, ActionSucceeded)})"

definition review_edge :: "review_phase \<Rightarrow> review_phase \<Rightarrow> bool" where
  "review_edge p q \<longleftrightarrow> p = q \<or> q = ReviewIsInvalidated
   \<or> (p, q) \<in> {(ReviewIsRequested, ReviewActive), (ReviewActive, ReviewIsSubmitted)}"

definition waiver_edge :: "waiver_phase \<Rightarrow> waiver_phase \<Rightarrow> bool" where
  "waiver_edge p q \<longleftrightarrow> p = q \<or> q = WaiverIsInvalidated
   \<or> (p, q) \<in> {(WaiverIsRequested, WaiverIsGranted), (WaiverIsRequested, WaiverIsDenied)}"

section \<open>Moves of a record\<close>

definition run_moves :: "run_state \<Rightarrow> run_state \<Rightarrow> bool" where
  "run_moves r r' \<longleftrightarrow> run_key r' = run_key r \<and> run_revision r' = run_revision r \<and> run_budget_id r' = run_budget_id r
   \<and> run_budget_limits r' = run_budget_limits r \<and> run_edge (run_phase r) (run_phase r')"

definition attempt_moves :: "attempt_state \<Rightarrow> attempt_state \<Rightarrow> bool" where
  "attempt_moves x x' \<longleftrightarrow> attempt_edge (attempt_phase x) (attempt_phase x') \<and> x' = x\<lparr>attempt_phase := attempt_phase x'\<rparr>"

definition turn_moves :: "turn_state \<Rightarrow> turn_state \<Rightarrow> bool" where
  "turn_moves y y' \<longleftrightarrow> turn_edge (turn_phase y) (turn_phase y') \<and> y' = y\<lparr>turn_phase := turn_phase y'\<rparr>"

text \<open>An action keeps what was proposed, and its authorization once it has one.\<close>

definition action_moves :: "action_state \<Rightarrow> action_state \<Rightarrow> bool" where
  "action_moves z z' \<longleftrightarrow> action_edge (action_phase z) (action_phase z')
   \<and> z' = z\<lparr>action_phase := action_phase z', action_authorization := action_authorization z'\<rparr>
   \<and> (action_authorization z' = action_authorization z
      \<or> action_phase z = ActionIsProposed \<and> action_phase z' = ActionIsAuthorized)"

definition review_moves :: "review_state \<Rightarrow> review_state \<Rightarrow> bool" where
  "review_moves y y' \<longleftrightarrow> review_edge (review_phase y) (review_phase y') \<and> y' = y\<lparr>review_phase := review_phase y'\<rparr>"

definition waiver_moves :: "waiver_state \<Rightarrow> waiver_state \<Rightarrow> bool" where
  "waiver_moves w w' \<longleftrightarrow> waiver_edge (waiver_phase w) (waiver_phase w') \<and> w' = w\<lparr>waiver_phase := waiver_phase w'\<rparr>"

lemmas moves_defs = run_moves_def attempt_moves_def turn_moves_def action_moves_def review_moves_def
  waiver_moves_def

lemma moves_refl [simp]:
  "run_moves r r" "attempt_moves x x" "turn_moves y y" "action_moves z z" "review_moves k k" "waiver_moves w w"
  by (simp_all add: moves_defs run_edge_def attempt_edge_def turn_edge_def action_edge_def review_edge_def
      waiver_edge_def)

text \<open>No record disappears, and each moves along at most one edge.\<close>

definition survives :: "('r \<Rightarrow> 'r \<Rightarrow> bool) \<Rightarrow> ('k \<rightharpoonup> 'r) \<Rightarrow> ('k \<rightharpoonup> 'r) \<Rightarrow> bool" where
  "survives moves m m' \<longleftrightarrow> (\<forall>k x. m k = Some x \<longrightarrow> (\<exists>x'. m' k = Some x' \<and> moves x x'))"

definition lifecycle_moves :: "lifecycle \<Rightarrow> lifecycle \<Rightarrow> bool" where
  "lifecycle_moves v v' \<longleftrightarrow>
     session_key (life_session v') = session_key (life_session v)
   \<and> session_edge (session_phase (life_session v)) (session_phase (life_session v'))
   \<and> survives run_moves (life_runs v) (life_runs v') \<and> survives attempt_moves (life_attempts v) (life_attempts v')
   \<and> survives turn_moves (life_turns v) (life_turns v') \<and> survives action_moves (life_actions v) (life_actions v')
   \<and> survives review_moves (life_reviews v) (life_reviews v')
   \<and> survives waiver_moves (life_waivers v) (life_waivers v')"

lemma survives_id [simp]: "(\<And>x. moves x x) \<Longrightarrow> survives moves m m"
  by (simp add: survives_def)

lemma survives_put:
  "(\<And>x. moves x x) \<Longrightarrow> (\<And>x. m k = Some x \<Longrightarrow> moves x y) \<Longrightarrow> survives moves m (m(k \<mapsto> y))"
  by (simp add: survives_def)

lemma survives_map: "(\<And>x. moves x (f x)) \<Longrightarrow> survives moves m (map_option f \<circ> m)"
  by (simp add: survives_def)

section \<open>Every step moves\<close>

lemma turn_live: "\<not> turn_terminal u \<longleftrightarrow> u = TurnActive"
  by (cases u) (simp_all add: turn_terminal_def)

lemma run_end_edges:
  assumes "run_end c = Some (i, rp, ap, tp, cp, k)"
  shows "\<not> run_terminal p \<Longrightarrow> run_edge p rp" "\<not> attempt_terminal q \<Longrightarrow> attempt_edge q ap"
    "\<not> turn_terminal u \<Longrightarrow> turn_edge u tp" "\<not> action_terminal w \<Longrightarrow> action_edge w cp"
proof -
  from assms have "rp \<in> {RunIsRejected, RunIsCancelled, RunHasFailed, RunIsExhausted}
      \<and> ap \<in> {AttemptHasFailed, AttemptCancelled, AttemptIsExhausted} \<and> cp \<in> {ActionHasFailed, ActionIsCancelled}"
    by (cases c) auto
  then show "\<not> run_terminal p \<Longrightarrow> run_edge p rp" "\<not> attempt_terminal q \<Longrightarrow> attempt_edge q ap"
    "\<not> turn_terminal u \<Longrightarrow> turn_edge u tp" "\<not> action_terminal w \<Longrightarrow> action_edge w cp"
    by (auto simp: run_edge_def attempt_edge_def turn_edge_def action_edge_def turn_live)
qed

lemma attempt_end_edges:
  assumes "attempt_end c = Some (i, a, ap, tp, cp, k)"
  shows "\<not> attempt_terminal q \<Longrightarrow> attempt_edge q ap"
    "\<not> turn_terminal u \<Longrightarrow> turn_edge u tp" "\<not> action_terminal w \<Longrightarrow> action_edge w cp"
proof -
  from assms have "ap \<in> {AttemptHasFailed, AttemptIsExhausted} \<and> cp \<in> {ActionHasFailed, ActionIsCancelled}"
    by (cases c) auto
  then show "\<not> attempt_terminal q \<Longrightarrow> attempt_edge q ap"
    "\<not> turn_terminal u \<Longrightarrow> turn_edge u tp" "\<not> action_terminal w \<Longrightarrow> action_edge w cp"
    by (auto simp: attempt_edge_def turn_edge_def action_edge_def turn_live)
qed

lemma turn_end_edges:
  "turn_end c = Some (a, t, tp, cp, k) \<Longrightarrow> \<not> action_terminal w \<Longrightarrow> action_edge w cp"
  by (cases c) (auto simp: action_edge_def)

lemma action_move_edges:
  "action_move c = Some (i, sources, p, k) \<Longrightarrow> q \<in> set sources \<Longrightarrow> action_edge q p"
  by (cases c) (auto simp: action_edge_def action_terminal_def)

lemma review_move_edges:
  "review_move c = Some (i, sources, p, k) \<Longrightarrow> q \<in> set sources \<Longrightarrow> review_edge q p"
  by (cases c) (auto simp: review_edge_def)

lemma waiver_move_edges:
  "waiver_move c = Some (i, sources, p, k) \<Longrightarrow> q \<in> set sources \<Longrightarrow> waiver_edge q p"
  by (cases c) (auto simp: waiver_edge_def)

lemma stop_moves:
  "(\<And>q. \<not> attempt_terminal q \<Longrightarrow> attempt_edge q ap) \<Longrightarrow> attempt_moves x (stop_attempts P ap x)"
  "(\<And>q. \<not> turn_terminal q \<Longrightarrow> turn_edge q tp) \<Longrightarrow> turn_moves y (stop_turns Q tp y)"
  "(\<And>q. \<not> action_terminal q \<Longrightarrow> action_edge q cp) \<Longrightarrow> action_moves z (stop_actions R cp z)"
  by (auto simp: stop_attempts_def stop_turns_def stop_actions_def attempt_moves_def turn_moves_def action_moves_def
      attempt_edge_def turn_edge_def action_edge_def)

text \<open>One lemma for each kind of record.\<close>

lemma step_session: "lifecycle_step inputs cur v c a v' \<Longrightarrow>
    session_key (life_session v') = session_key (life_session v)
  \<and> session_edge (session_phase (life_session v)) (session_phase (life_session v'))"
  by (erule lifecycle_step.cases) (simp_all add: session_edge_def)

lemma step_runs:
  assumes "lifecycle_step inputs cur v c a v'" and "keyed v"
  shows "survives run_moves (life_runs v) (life_runs v')"
  using assms(1)
proof cases
  case (end_run i rp ap tp cp k r)
  then show ?thesis using run_end_edges(1)[OF end_run(3)] keyedD(1)[OF assms(2) end_run(4)]
    by (auto simp: run_moves_def intro!: survives_put)
next
  case (end_attempt i b ap tp cp k r x)
  then show ?thesis using keyedD(1)[OF assms(2) end_attempt(4)]
    by (auto simp: run_moves_def run_edge_def intro!: survives_put)
qed (use keyedD(1)[OF assms(2)] in \<open>auto simp: run_moves_def run_edge_def run_pending_def intro!: survives_put\<close>)

lemma step_attempts:
  assumes "lifecycle_step inputs cur v c a v'" and "keyed v"
  shows "survives attempt_moves (life_attempts v) (life_attempts v')"
  using assms(1)
proof cases
  case (end_run i rp ap tp cp k r)
  then show ?thesis using run_end_edges(2)[OF end_run(3)]
    by (auto simp: stop_run_def intro!: survives_map stop_moves)
next
  case (end_attempt i b ap tp cp k r x)
  then show ?thesis using attempt_end_edges(1)[OF end_attempt(3)] keyedD(2)[OF assms(2) end_attempt(5)]
    by (auto simp: attempt_moves_def intro!: survives_put)
qed (use keyedD(2)[OF assms(2)] in \<open>auto simp: attempt_moves_def attempt_edge_def attempt_active_def intro!: survives_put\<close>)

lemma step_turns:
  assumes "lifecycle_step inputs cur v c a v'" and "keyed v"
  shows "survives turn_moves (life_turns v) (life_turns v')"
  using assms(1)
proof cases
  case (end_run i rp ap tp cp k r)
  then show ?thesis using run_end_edges(3)[OF end_run(3)]
    by (auto simp: stop_run_def intro!: survives_map stop_moves)
next
  case (end_attempt i b ap tp cp k r x)
  then show ?thesis using attempt_end_edges(2)[OF end_attempt(3)]
    by (auto simp: stop_attempt_def intro!: survives_map stop_moves)
qed (use keyedD(3)[OF assms(2)] in \<open>auto simp: turn_moves_def turn_edge_def turn_active_def intro!: survives_put\<close>)

lemma step_actions:
  assumes "lifecycle_step inputs cur v c a v'" and "keyed v"
  shows "survives action_moves (life_actions v) (life_actions v')"
  using assms(1)
proof cases
  case (end_run i rp ap tp cp k r)
  then show ?thesis using run_end_edges(4)[OF end_run(3)]
    by (auto simp: stop_run_def intro!: survives_map stop_moves)
next
  case (end_attempt i b ap tp cp k r x)
  then show ?thesis using attempt_end_edges(3)[OF end_attempt(3)]
    by (auto simp: stop_attempt_def intro!: survives_map stop_moves)
next
  case (end_turn b t tp cp k x)
  then show ?thesis using turn_end_edges[OF end_turn(3)]
    by (auto simp: stop_turn_def intro!: survives_map stop_moves)
next
  case (move_action i sources p k x)
  then show ?thesis using action_move_edges[OF move_action(3,5)] keyedD(4)[OF assms(2) move_action(4)]
    by (auto simp: action_moves_def intro!: survives_put)
qed (use keyedD(4)[OF assms(2)] in \<open>auto simp: action_moves_def action_edge_def action_proposed_def action_authorize_def intro!: survives_put\<close>)

lemma step_reviews:
  assumes "lifecycle_step inputs cur v c a v'" and "keyed v"
  shows "survives review_moves (life_reviews v) (life_reviews v')"
  using assms(1)
proof cases
  case (move_review i sources p k x)
  then show ?thesis using review_move_edges[OF move_review(3,5)] keyedD(5)[OF assms(2) move_review(4)]
    by (auto simp: review_moves_def intro!: survives_put)
qed (auto simp: review_requested_def intro!: survives_put)

lemma step_waivers:
  assumes "lifecycle_step inputs cur v c a v'" and "keyed v"
  shows "survives waiver_moves (life_waivers v) (life_waivers v')"
  using assms(1)
proof cases
  case (move_waiver f sources p k w)
  then show ?thesis using waiver_move_edges[OF move_waiver(3,5)] keyedD(6)[OF assms(2) move_waiver(4)]
    by (auto simp: waiver_moves_def intro!: survives_put)
qed (use keyedD(6)[OF assms(2)] in \<open>auto simp: waiver_moves_def waiver_edge_def waiver_requested_def intro!: survives_put\<close>)

theorem step_moves:
  assumes "lifecycle_step inputs cur v c a v'" and "keyed v"
  shows "lifecycle_moves v v'"
  unfolding lifecycle_moves_def
  using step_session[OF assms(1)] step_runs[OF assms] step_attempts[OF assms] step_turns[OF assms]
    step_actions[OF assms] step_reviews[OF assms] step_waivers[OF assms]
  by blast

text \<open>
  A submitted review and a decided waiver change in one way only: a later candidate invalidates them.
\<close>

lemma withdrawn_stays:
  "review_moves\<^sup>*\<^sup>* y y' \<Longrightarrow> review_terminal (review_phase y) \<Longrightarrow>
     y' = y \<or> y' = y\<lparr>review_phase := ReviewIsInvalidated\<rparr>"
  "waiver_moves\<^sup>*\<^sup>* w w' \<Longrightarrow> waiver_terminal (waiver_phase w) \<Longrightarrow>
     w' = w \<or> w' = w\<lparr>waiver_phase := WaiverIsInvalidated\<rparr>"
proof -
  show "y' = y \<or> y' = y\<lparr>review_phase := ReviewIsInvalidated\<rparr>"
    if "review_moves\<^sup>*\<^sup>* y y'" "review_terminal (review_phase y)"
    using that
  proof (induction rule: rtranclp_induct)
    case (step y' z)
    then show ?case by (cases y; cases y'; cases z) (auto simp: review_moves_def review_edge_def review_terminal_def)
  qed simp
  show "w' = w \<or> w' = w\<lparr>waiver_phase := WaiverIsInvalidated\<rparr>"
    if "waiver_moves\<^sup>*\<^sup>* w w'" "waiver_terminal (waiver_phase w)"
    using that
  proof (induction rule: rtranclp_induct)
    case (step w' z)
    then show ?case by (cases w; cases w'; cases z) (auto simp: waiver_moves_def waiver_edge_def waiver_terminal_def)
  qed simp
qed

end
