(* ===== verification/Kernel_Validity.thy ===== *)
theory Kernel_Validity
  imports Kernel_Progress
begin

text \<open>
  The structural validation of \<open>aggregate/validation.rs\<close> read as a property of the logs and of the
  lifecycle, and the proof that a command family keeps it: the checks the reducer repeats after a
  command can never refuse what a family has accepted.
\<close>

section \<open>The validation, declaratively\<close>

lemma has_duplicate_iff: "has_duplicate key xs \<longleftrightarrow> \<not> distinct (map key xs)"
proof
  assume "has_duplicate key xs"
  then obtain l r where "l < r" "r < length xs" "key (xs ! l) = key (xs ! r)"
    by (auto simp: has_duplicate_def list_ex_iff Suc_le_eq)
  then show "\<not> distinct (map key xs)"
    by (metis (no_types) distinct_conv_nth length_map less_trans nat_neq_iff nth_map)
next
  assume "\<not> distinct (map key xs)"
  then obtain i j where "i < length xs" "j < length xs" "i \<noteq> j" "key (xs ! i) = key (xs ! j)"
    by (auto simp: distinct_conv_nth)
  then have "\<exists>l r. l < r \<and> r < length xs \<and> key (xs ! l) = key (xs ! r)"
    by (metis nat_neq_iff)
  then show "has_duplicate key xs"
    by (fastforce simp: has_duplicate_def list_ex_iff)
qed

definition log_valid :: "kernel_aggregate \<Rightarrow> bool" where
  "log_valid s \<longleftrightarrow> binding_revision (kernel_binding s) = kernel_revision s
   \<and> binding_contract_id (kernel_binding s) = acceptance_spec_id (kernel_revision s)
   \<and> length (accepted_command_ids s) = length (event_ids s)
   \<and> event_ids s \<noteq> [] \<and> last (event_ids s) = head_event_id s
   \<and> distinct (accepted_command_ids s) \<and> distinct (event_ids s)"

definition runs_consistent :: "revision_tuple \<Rightarrow> lifecycle \<Rightarrow> bool" where
  "runs_consistent cur v \<longleftrightarrow> (\<forall>i r. life_runs v i = Some r \<longrightarrow> run_revision r = cur
   \<and> (run_phase r = RunIsAccepted \<longleftrightarrow> run_acceptance r = AcceptanceIsAccepted)
   \<and> (run_terminal (run_phase r) \<longrightarrow> run_phase r = RunIsAccepted \<or> run_acceptance r = AcceptanceTerminated))"

definition parents_exist :: "lifecycle \<Rightarrow> bool" where
  "parents_exist v \<longleftrightarrow> (\<forall>a x. life_attempts v a = Some x \<longrightarrow> life_runs v (attempt_run x) \<noteq> None)
   \<and> (\<forall>t y. life_turns v t = Some y \<longrightarrow> life_attempts v (turn_attempt y) \<noteq> None)
   \<and> (\<forall>c z. life_actions v c = Some z \<longrightarrow> life_turns v (action_turn z) \<noteq> None)"

definition closed_agrees :: "lifecycle \<Rightarrow> bool" where
  "closed_agrees v \<longleftrightarrow> (session_phase (life_session v) = SessionIsClosed \<longrightarrow> (\<forall>i. \<not> run_is_live v i))"

definition life_valid :: "revision_tuple \<Rightarrow> lifecycle \<Rightarrow> bool" where
  "life_valid cur v \<longleftrightarrow> runs_consistent cur v \<and> one_live_run v \<and> closed_agrees v \<and> parents_exist v
   \<and> reviews_placed v \<and> waivers_placed v"

lemma keyed_lifecycle [simp]: "keyed (lifecycle_of s)"
  by (auto simp: keyed_def dest: lookup_key)

lemma count_live_runs_eq: "count_live_runs s = length (filter (\<lambda>r. \<not> run_terminal (run_phase r)) (kernel_runs s))"
  using fold_count[of "\<lambda>r. \<not> run_terminal (run_phase r)" "kernel_runs s" 0] by (simp add: count_live_runs_def)

lemma live_run_set:
  assumes "keys_distinct s"
  shows "count_live_runs s = card {i. run_is_live (lifecycle_of s) i}"
  using assms card_lookup[of run_key "kernel_runs s" "\<lambda>r. \<not> run_terminal (run_phase r)"]
  by (simp add: count_live_runs_eq run_is_live_def keys_distinct_def)

lemma finite_live_runs: "finite {i. run_is_live (lifecycle_of s) i}"
proof (rule finite_subset)
  show "{i. run_is_live (lifecycle_of s) i} \<subseteq> run_key ` set (kernel_runs s)"
    using lookup_member[of run_key] lookup_key[of run_key] by (fastforce simp: run_is_live_def)
qed simp

lemma one_live_run_iff: "keys_distinct s \<Longrightarrow> count_live_runs s \<le> 1 \<longleftrightarrow> one_live_run (lifecycle_of s)"
  using card_le_Suc0_iff_eq[OF finite_live_runs[of s]] by (simp add: live_run_set one_live_run_def)

lemma no_live_run_iff: "keys_distinct s \<Longrightarrow> count_live_runs s = 0 \<longleftrightarrow> (\<forall>i. \<not> run_is_live (lifecycle_of s) i)"
  using finite_live_runs[of s] by (auto simp: live_run_set)

lemma runs_consistent_iff:
  "keys_distinct s \<Longrightarrow> list_all (run_is_consistent s) (kernel_runs s)
     \<longleftrightarrow> runs_consistent (kernel_revision s) (lifecycle_of s)"
  using all_lookup[of run_key "kernel_runs s" "run_is_consistent s"]
  by (auto simp: runs_consistent_def run_is_consistent_def keys_distinct_def list_all_iff)

lemma all_set_lookup:
  "distinct (map key xs) \<Longrightarrow> list_all P xs \<longleftrightarrow> (\<forall>k x. lookup key xs k = Some x \<longrightarrow> P x)"
  by (simp add: all_lookup list_all_iff)

lemma parents_are_valid_iff:
  "keys_distinct s \<Longrightarrow> parents_are_valid s \<longleftrightarrow>
     parents_exist (lifecycle_of s) \<and> reviews_placed (lifecycle_of s) \<and> waivers_placed (lifecycle_of s)"
  unfolding parents_are_valid_def parents_exist_def reviews_placed_def waivers_placed_def keys_distinct_def
  by (simp add: all_set_lookup[of attempt_key "kernel_attempts s"] all_set_lookup[of turn_key "kernel_turns s"]
      all_set_lookup[of action_key "kernel_actions s"] all_set_lookup[of review_key "kernel_reviews s"]
      all_set_lookup[of waiver_key "kernel_waivers s"] of_lookup case_some)

lemma aggregate_is_valid_iff:
  "aggregate_is_valid s \<longleftrightarrow>
     log_valid s \<and> keys_distinct s \<and> life_valid (kernel_revision s) (lifecycle_of s)"
proof (cases "keys_distinct s")
  case False
  then have "has_duplicate_children s"
    by (simp add: has_duplicate_children_def keys_distinct_def has_duplicate_iff)
  with False show ?thesis by (simp add: aggregate_is_valid_def)
next
  case True
  then have "\<not> has_duplicate_children s"
    by (simp add: has_duplicate_children_def keys_distinct_def has_duplicate_iff)
  moreover have "event_ids s \<noteq> [] \<Longrightarrow> event_ids s ! (length (event_ids s) - 1) = last (event_ids s)"
    by (simp add: last_conv_nth)
  moreover have "1 < count_live_runs s \<longleftrightarrow> \<not> one_live_run (lifecycle_of s)"
    using one_live_run_iff[OF True] by linarith
  ultimately show ?thesis
    using True
    by (auto simp: aggregate_is_valid_def log_valid_def life_valid_def closed_agrees_def session_terminal_def
        has_duplicate_commands_def has_duplicate_events_def has_duplicate_iff runs_consistent_iff
        no_live_run_iff parents_are_valid_iff)
qed

section \<open>The lifecycle stays valid\<close>

lemma runs_consistentD:
  "runs_consistent cur v \<Longrightarrow> life_runs v i = Some r \<Longrightarrow> run_acceptance r = AcceptanceIsAccepted \<longleftrightarrow> run_phase r = RunIsAccepted"
  by (simp add: runs_consistent_def)

lemma step_runs_consistent:
  assumes "lifecycle_step inputs cur v c a v'" and "runs_consistent cur v" and "keyed v"
  shows "runs_consistent cur v'"
  using assms(1)
proof cases
  case (end_run i rp ap tp cp k r)
  then show ?thesis using assms(2) run_end_terminal[OF end_run(3)] by (auto simp: runs_consistent_def)
next
  case (pause_run i r)
  with runs_consistentD[OF assms(2) pause_run(5)] have "run_acceptance r \<noteq> AcceptanceIsAccepted" by auto
  with pause_run assms(2) show ?thesis by (auto simp: runs_consistent_def)
next
  case (resume_run i r)
  with runs_consistentD[OF assms(2) resume_run(5)] have "run_acceptance r \<noteq> AcceptanceIsAccepted" by auto
  with resume_run assms(2) show ?thesis by (auto simp: runs_consistent_def)
qed (use assms(2) in \<open>auto simp: runs_consistent_def run_pending_def\<close>)

lemma survives_some: "survives moves m m' \<Longrightarrow> m k \<noteq> None \<Longrightarrow> m' k \<noteq> None"
  by (auto simp: survives_def)

lemma step_parents_exist:
  assumes step: "lifecycle_step inputs cur v c a v'" and "parents_exist v" and key: "keyed v"
  shows "parents_exist v'"
proof -
  have attempts: "life_runs v (attempt_run x) \<noteq> None" if "life_attempts v' b = Some x" for b x
    using step that assms(2) by cases (auto simp: parents_exist_def stop_updates attempt_active_def split: if_splits)
  have turns: "life_attempts v (turn_attempt y) \<noteq> None" if "life_turns v' t = Some y" for t y
    using step that assms(2) by cases (auto simp: parents_exist_def stop_updates turn_active_def split: if_splits)
  have actions: "life_turns v (action_turn z) \<noteq> None" if "life_actions v' i = Some z" for i z
    using step that assms(2)
    by cases (auto simp: parents_exist_def stop_updates action_proposed_def action_authorize_def split: if_splits)
  have "life_runs v' (attempt_run x) \<noteq> None" if "life_attempts v' b = Some x" for b x
    by (rule survives_some[OF step_runs[OF step key] attempts[OF that]])
  moreover have "life_attempts v' (turn_attempt y) \<noteq> None" if "life_turns v' t = Some y" for t y
    by (rule survives_some[OF step_attempts[OF step key] turns[OF that]])
  moreover have "life_turns v' (action_turn z) \<noteq> None" if "life_actions v' i = Some z" for i z
    by (rule survives_some[OF step_turns[OF step key] actions[OF that]])
  ultimately show ?thesis unfolding parents_exist_def by (intro conjI allI impI)
qed

lemma step_closed_agrees:
  assumes "lifecycle_step inputs cur v c a v'" and "closed_agrees v" and "keyed v"
  shows "closed_agrees v'"
  unfolding closed_agrees_def
proof (intro impI allI)
  fix i
  assume closed: "session_phase (life_session v') = SessionIsClosed"
  have "\<not> run_is_live v j" for j
    using step_closed[OF assms(1) closed] assms(2) by (auto simp: closed_agrees_def)
  moreover have "c \<noteq> StartRun i" using assms(1) closed by cases auto
  ultimately show "\<not> run_is_live v' i" using step_live[OF assms(1,3)] by blast
qed

theorem step_life_valid:
  assumes step: "lifecycle_step inputs cur v c a v'" and "life_valid cur v" and key: "keyed v"
  shows "life_valid cur v'"
proof -
  from assms(2) have valid: "runs_consistent cur v" "one_live_run v" "closed_agrees v" "parents_exist v"
    "reviews_placed v" "waivers_placed v" by (simp_all add: life_valid_def)
  show ?thesis unfolding life_valid_def
    using step_runs_consistent[OF step valid(1) key] step_one_live_run[OF step valid(2) key]
      step_closed_agrees[OF step valid(3) key] step_parents_exist[OF step valid(4) key]
      step_reviews_placed[OF step valid(5) key] step_waivers_placed[OF step valid(6) key]
    by (intro conjI)
qed

end
