(* ===== verification/Kernel_Reduction.thy ===== *)
theory Kernel_Reduction
  imports Kernel_Validity
begin

text \<open>
  The reducer of \<open>peritus-kernel\<close> as a whole: what a command family leaves alone, the cursor, and
  the theorem that \<open>reduce\<close> accepts exactly when the preflight and the lifecycle do.
\<close>

section \<open>Tables only grow\<close>

definition grows :: "('r \<Rightarrow> 'k) \<Rightarrow> 'r list \<Rightarrow> 'r list \<Rightarrow> bool" where
  "grows key xs ys \<longleftrightarrow> map key ys = map key xs \<or> (\<exists>k. k \<notin> key ` set xs \<and> map key ys = map key xs @ [k])"

lemma grows_refl [simp]: "grows key xs xs"
  by (simp add: grows_def)

lemma grows_update [simp]: "key y = key (xs ! i) \<Longrightarrow> grows key xs (xs[i := y])"
proof -
  assume "key y = key (xs ! i)"
  then have "map key (xs[i := y]) = map key xs"
    by (cases "i < length xs") (simp_all add: map_update list_update_same_conv list_update_beyond)
  then show ?thesis by (simp add: grows_def)
qed

lemma nth_update_self [simp]: "xs[i := y] ! i = (if i < length xs then y else xs ! i)"
  by (cases "i < length xs") (simp_all add: list_update_beyond)

lemma grows_map [simp]: "(\<And>x. key (f x) = key x) \<Longrightarrow> grows key xs (map f xs)"
  by (simp add: grows_def)

lemma grows_append: "lookup key xs (key y) = None \<Longrightarrow> grows key xs (xs @ [y])"
  by (simp add: grows_def lookup_None)

lemma grows_distinct: "grows key xs ys \<Longrightarrow> distinct (map key xs) \<Longrightarrow> distinct (map key ys)"
  by (auto simp: grows_def)

text \<open>What no command family touches: identity, revision, contract and the causal cursor.\<close>

definition frame :: "kernel_aggregate \<Rightarrow> project_id \<times> revision_tuple \<times> contract_binding \<times> event_id
     \<times> event_sequence \<times> command_id list \<times> event_id list" where
  "frame s = (kernel_project_id s, kernel_revision s, kernel_binding s, head_event_id s, last_sequence s,
     accepted_command_ids s, event_ids s)"

definition tables_grow :: "kernel_aggregate \<Rightarrow> kernel_aggregate \<Rightarrow> bool" where
  "tables_grow s s' \<longleftrightarrow> frame s' = frame s
   \<and> grows run_key (kernel_runs s) (kernel_runs s') \<and> grows attempt_key (kernel_attempts s) (kernel_attempts s')
   \<and> grows turn_key (kernel_turns s) (kernel_turns s') \<and> grows action_key (kernel_actions s) (kernel_actions s')
   \<and> grows review_key (kernel_reviews s) (kernel_reviews s') \<and> grows waiver_key (kernel_waivers s) (kernel_waivers s')"

lemmas grow_defs = tables_grow_def frame_def setter_defs of_lookup

lemma terminate_frame [simp]:
  "frame (terminate_run_attempts i ap s) = frame s" "frame (terminate_run_turns i tp s) = frame s"
  "frame (terminate_run_actions i cp s) = frame s" "frame (terminate_attempt_turns b tp s) = frame s"
  "frame (terminate_attempt_actions b cp s) = frame s" "frame (terminate_turn_actions t cp s) = frame s"
  by (simp_all add: frame_def terminate_run_attempts_def terminate_run_turns_def terminate_run_actions_def
      terminate_attempt_turns_def terminate_attempt_actions_def terminate_turn_actions_def)

lemmas terminate_defs = terminate_run_attempts_def terminate_run_turns_def terminate_run_actions_def
  terminate_attempt_turns_def terminate_attempt_actions_def terminate_turn_actions_def

lemma session_grows: "session_apply s c = Ok (s', a) \<Longrightarrow> tables_grow s s'"
  by (cases c) (auto simp: grow_defs split: if_splits)

lemma run_grows: "run_apply s c inputs = Ok (s', a) \<Longrightarrow> tables_grow s s'"
  by (cases c) (auto simp: run_start_def run_pause_def run_resume_def run_terminate_def Let_def grow_defs
      terminate_defs run_pending_def intro!: grows_append split: if_splits option.splits)

lemma attempt_grows: "attempt_apply s c inputs = Ok (s', a) \<Longrightarrow> tables_grow s s'"
  by (cases c) (auto simp: attempt_start_def attempt_resume_def attempt_submit_def attempt_terminate_def Let_def
      grow_defs terminate_defs attempt_active_def intro!: grows_append split: if_splits option.splits)

lemma turn_grows: "turn_apply s c = Ok (s', a) \<Longrightarrow> tables_grow s s'"
  by (cases c) (auto simp: turn_start_def turn_complete_def turn_terminate_def Let_def
      grow_defs terminate_defs turn_active_def intro!: grows_append split: if_splits option.splits)

lemma action_grows: "action_apply s c inputs = Ok (s', a) \<Longrightarrow> tables_grow s s'"
  by (cases c) (auto simp: action_propose_def action_authorize_with_def action_advance_def action_fail_def
      action_cancel_def grow_defs action_proposed_def action_authorize_def
      intro!: grows_append split: if_splits option.splits sum.splits)

lemma review_grows: "review_apply s c inputs = Ok (s', a) \<Longrightarrow> tables_grow s s'"
  by (cases c) (auto simp: review_request_def review_advance_def review_invalidate_def Let_def grow_defs
      review_requested_def intro!: grows_append split: if_splits option.splits)

lemma waiver_grows: "waiver_apply s c inputs = Ok (s', a) \<Longrightarrow> tables_grow s s'"
  by (cases c) (auto simp: waiver_request_def waiver_grant_def waiver_advance_def waiver_invalidate_def grow_defs
      waiver_requested_def intro!: grows_append split: if_splits option.splits)

lemma acceptance_grows: "acceptance_apply s c inputs = Ok (s', a) \<Longrightarrow> tables_grow s s'"
  by (cases c) (auto simp: acceptance_begin_def acceptance_evaluate_def Let_def grow_defs
      split: if_splits option.splits)

lemma apply_command_grows: "apply_command s c inputs = Ok (s', a) \<Longrightarrow> tables_grow s s'"
  by (cases c) (simp_all only: apply_command.simps session_grows run_grows attempt_grows turn_grows action_grows
      review_grows waiver_grows acceptance_grows)

lemma tables_grow_distinct: "tables_grow s s' \<Longrightarrow> keys_distinct s \<Longrightarrow> keys_distinct s'"
  by (auto simp: tables_grow_def keys_distinct_def intro: grows_distinct)


section \<open>A family's result is valid\<close>

lemma frame_simps:
  assumes "frame s' = frame s"
  shows "kernel_project_id s' = kernel_project_id s" "kernel_revision s' = kernel_revision s"
    "kernel_binding s' = kernel_binding s" "head_event_id s' = head_event_id s" "last_sequence s' = last_sequence s"
    "accepted_command_ids s' = accepted_command_ids s" "event_ids s' = event_ids s"
  using assms by (simp_all add: frame_def)

lemma advance_cursor_simps [simp]:
  "lifecycle_of (advance_cursor envelope n s) = lifecycle_of s"
  "keys_distinct (advance_cursor envelope n s) = keys_distinct s"
  "kernel_revision (advance_cursor envelope n s) = kernel_revision s"
  "kernel_runs (advance_cursor envelope n s) = kernel_runs s"
  "kernel_session (advance_cursor envelope n s) = kernel_session s"
  by (simp_all add: advance_cursor_def lifecycle_of_def of_lookup keys_distinct_def)

lemma log_valid_advance:
  assumes "log_valid s" and "envelope_command_id envelope \<notin> set (accepted_command_ids s)"
    and "envelope_event_id envelope \<notin> set (event_ids s)"
  shows "log_valid (advance_cursor envelope n s)"
  using assms by (simp add: log_valid_def advance_cursor_def)

lemma contains_iff:
  "contains_command s i \<longleftrightarrow> i \<in> set (accepted_command_ids s)" "contains_event s e \<longleftrightarrow> e \<in> set (event_ids s)"
  by (auto simp: contains_command_def contains_event_def list_ex_iff)

definition admitted :: "kernel_aggregate \<Rightarrow> command_envelope \<Rightarrow> reducer_inputs \<Rightarrow> event_sequence \<Rightarrow> bool" where
  "admitted s envelope inputs n \<longleftrightarrow>
     aggregate_is_valid s \<and> envelope_revision envelope = kernel_revision s
   \<and> expected_previous_event_id envelope = Some (head_event_id s)
   \<and> contract_id (inputs_contract inputs) = binding_contract_id (kernel_binding s)
   \<and> contract_content_digest (inputs_contract inputs) = binding_contract_digest (kernel_binding s)
   \<and> acceptance_spec_id (kernel_revision s) = contract_id (inputs_contract inputs)
   \<and> envelope_command_id envelope \<notin> set (accepted_command_ids s)
   \<and> envelope_event_id envelope \<notin> set (event_ids s)
   \<and> event_sequence_checked_next (last_sequence s) = Ok n"

lemma contract_binds: "is_ok (contract_bind contract cur) \<longleftrightarrow> acceptance_spec_id cur = contract_id contract"
  using contract_bind_Ok[of contract cur] by (cases "contract_bind contract cur") auto

lemma preflight_Ok: "preflight s envelope inputs = Ok n \<longleftrightarrow> admitted s envelope inputs n"
  by (auto simp: preflight_def admitted_def contains_iff contract_binds split: sum.splits)

lemma family_valid:
  assumes "admitted s envelope inputs n" and "apply_command s c inputs = Ok (s', a)"
  shows "aggregate_is_valid (advance_cursor envelope n s')"
proof -
  from assms(1) have s: "log_valid s" "keys_distinct s" "life_valid (kernel_revision s) (lifecycle_of s)"
    by (simp_all add: admitted_def aggregate_is_valid_iff)
  note grow = apply_command_grows[OF assms(2)]
  then have fr: "frame s' = frame s" by (simp add: tables_grow_def)
  have "log_valid s'" using s(1) by (simp add: log_valid_def frame_simps[OF fr])
  then have "log_valid (advance_cursor envelope n s')"
    using assms(1) by (intro log_valid_advance) (simp_all add: admitted_def frame_simps[OF fr])
  moreover have "keys_distinct s'" by (rule tables_grow_distinct[OF grow s(2)])
  moreover have "life_valid (kernel_revision s') (lifecycle_of s')"
    using step_life_valid[OF apply_command_sound[OF s(2) assms(2)] s(3)] by (simp add: frame_simps[OF fr])
  ultimately show ?thesis by (simp add: aggregate_is_valid_iff)
qed

section \<open>The audit accepts every step\<close>

lemma run_index_lookup:
  "life_runs (lifecycle_of s) i = Some r \<Longrightarrow> \<exists>k. run_index s i = Some k \<and> kernel_runs s ! k = r"
  by (rule run_cases[of i s]) (auto simp: index_lookup)

lemma audit_run_edge_iff:
  "audit_run_edge before after i p acc \<longleftrightarrow>
     (\<exists>r r'. life_runs (lifecycle_of before) i = Some r \<and> life_runs (lifecycle_of after) i = Some r'
        \<and> run_phase r = RunReviewing \<and> run_acceptance r = AcceptanceEvaluating
        \<and> run_phase r' = p \<and> run_acceptance r' = acc)"
  by (auto simp: audit_run_edge_def index_lookup lookup_by_index split: option.splits)

definition critical_kinds :: "kernel_event_kind set" where
  "critical_kinds = {SessionPaused, SessionResumed, SessionClosed, AcceptanceAccepted, AcceptanceNeedsChanges}"

lemma critical_other: "k \<notin> critical_kinds \<Longrightarrow> critical_step_is_legal s s' k x"
  by (cases k) (simp_all add: critical_step_is_legal_def critical_kinds_def)

lemma table_kinds:
  "run_end c = Some (i, rp, ap, tp, cp, k) \<Longrightarrow> k \<notin> critical_kinds"
  "attempt_end c = Some (i, b, ap, tp, cp, k) \<Longrightarrow> k \<notin> critical_kinds"
  "turn_end c = Some (b, t, tp, cp, k) \<Longrightarrow> k \<notin> critical_kinds"
  "action_move c = Some (ai, sa, pa, k) \<Longrightarrow> k \<notin> critical_kinds"
  "review_move c = Some (ri, sr, pr, k) \<Longrightarrow> k \<notin> critical_kinds"
  "waiver_move c = Some (f, sw, pw, k) \<Longrightarrow> k \<notin> critical_kinds"
  by (cases c; auto simp: critical_kinds_def; fail)+

lemma step_kinds:
  assumes "lifecycle_step inputs cur v c a v'"
  shows "applied_kind a \<notin> critical_kinds \<or> c \<in> {PauseSession, ResumeSession, CloseSession}
    \<or> (\<exists>i. c = EvaluateAcceptance i)"
  using assms
  by cases (simp_all add: applied_new_def table_kinds, simp_all add: critical_kinds_def)

lemma step_critical:
  assumes "lifecycle_step inputs cur (lifecycle_of s) c a (lifecycle_of s')"
  shows "critical_step_is_legal s s' (applied_kind a) (applied_subject a)"
proof (cases "applied_kind a \<in> critical_kinds")
  case False
  then show ?thesis by (rule critical_other)
next
  case True
  have session: "kernel_session t = life_session (lifecycle_of t)" for t :: kernel_aggregate by simp
  from True step_kinds[OF assms] consider "c = PauseSession" | "c = ResumeSession" | "c = CloseSession"
    | i where "c = EvaluateAcceptance i" by auto
  then show ?thesis
  proof cases
    case 4
    with assms keyedD(1)[OF keyed_lifecycle, of s i] show ?thesis
      by (auto simp: acceptance_steps critical_step_is_legal_def audit_run_edge_iff applied_acceptance_def
          simp del: life_simps)
  qed (use assms in \<open>auto simp: session_steps critical_step_is_legal_def audit_session_edge_def applied_new_def
         session simp del: life_simps(1)\<close>)
qed

lemma step_no_new_acceptance:
  assumes "lifecycle_step inputs cur v c a v'" and "applied_kind a \<noteq> AcceptanceAccepted" and "keyed v"
    and "life_runs v' i = Some r'" and "run_phase r' = RunIsAccepted"
  shows "\<exists>r. life_runs v i = Some r \<and> run_phase r = RunIsAccepted"
  using assms(1)
proof cases
  case (end_run j rp ap tp cp k r)
  then show ?thesis using assms(4,5) run_end_terminal[OF end_run(3)] by (auto split: if_splits)
qed (use assms(2,4,5) in \<open>auto simp: applied_acceptance_def run_pending_def split: if_splits\<close>)

lemma no_new_acceptance_iff:
  assumes "keys_distinct s'"
  shows "no_new_acceptance s s' \<longleftrightarrow> (\<forall>i r'. life_runs (lifecycle_of s') i = Some r' \<longrightarrow> run_phase r' = RunIsAccepted
    \<longrightarrow> (\<exists>r. life_runs (lifecycle_of s) i = Some r \<and> run_phase r = RunIsAccepted))"
proof -
  have "(if run_phase r = RunIsAccepted
         then (case run_index s (run_key r) of None \<Rightarrow> False | Some k \<Rightarrow> run_phase (kernel_runs s ! k) = RunIsAccepted)
         else True)
      \<longleftrightarrow> (run_phase r = RunIsAccepted \<longrightarrow>
           (\<exists>q. lookup run_key (kernel_runs s) (run_key r) = Some q \<and> run_phase q = RunIsAccepted))" for r :: run_state
    by (auto simp: index_lookup lookup_by_index split: option.splits)
  moreover have "distinct (map run_key (kernel_runs s'))" using assms by (simp add: keys_distinct_def)
  ultimately show ?thesis
    by (simp add: no_new_acceptance_def all_set_lookup[of run_key "kernel_runs s'"]) (metis lookup_key)
qed

section \<open>The reducer accepts exactly the admitted steps\<close>

definition event_of :: "kernel_aggregate \<Rightarrow> command_envelope \<Rightarrow> event_sequence \<Rightarrow> applied_command \<Rightarrow> kernel_event" where
  "event_of s envelope n a = \<lparr>kernel_event_id = envelope_event_id envelope,
     event_command_id = envelope_command_id envelope, event_sequence = n,
     previous_event_id = Some (head_event_id s), event_revision = kernel_revision s,
     event_kind = applied_kind a, event_subject = applied_subject a\<rparr>"

lemma reduce_eq:
  "reduce s envelope c inputs =
    (case preflight s envelope inputs of
       Inl e \<Rightarrow> Rejected s e
     | Inr n \<Rightarrow> (case apply_command s c inputs of
         Inl e \<Rightarrow> Rejected s e
       | Inr (s', a) \<Rightarrow> Applied \<lparr>transition_aggregate = advance_cursor envelope n s',
           transition_event = event_of s envelope n a, transition_outcome = applied_outcome a\<rparr>))"
proof (cases "preflight s envelope inputs")
  case (Inr n)
  then have adm: "admitted s envelope inputs n" by (simp add: preflight_Ok)
  then have s: "keys_distinct s" by (simp add: admitted_def aggregate_is_valid_iff)
  show ?thesis
  proof (cases "apply_command s c inputs")
    case ok: (Inr r)
    obtain s' a where r: "r = (s', a)" by (cases r)
    with ok have ok: "apply_command s c inputs = Ok (s', a)" by simp
    note step = apply_command_sound[OF s ok]
    have grow: "tables_grow s s'" by (rule apply_command_grows[OF ok])
    have rev: "kernel_revision s' = kernel_revision s" using grow by (simp add: tables_grow_def frame_def)
    have "critical_step_is_legal s (advance_cursor envelope n s') (applied_kind a) (applied_subject a)"
      using step_critical[of inputs "kernel_revision s" s c a "advance_cursor envelope n s'"] step by simp
    moreover have "applied_kind a \<noteq> AcceptanceAccepted \<longrightarrow> no_new_acceptance s (advance_cursor envelope n s')"
      using step_no_new_acceptance[OF step] tables_grow_distinct[OF grow s]
      by (auto simp: no_new_acceptance_iff)
    moreover have "aggregate_is_valid (advance_cursor envelope n s')" by (rule family_valid[OF adm ok])
    moreover have "(advance_cursor envelope n s')\<lparr>kernel_revision := kernel_revision s\<rparr> = advance_cursor envelope n s'"
      by (simp add: rev[symmetric])
    ultimately show ?thesis
      by (auto simp: reduce_def Inr ok Let_def event_of_def)
  qed (simp add: reduce_def Inr)
qed (simp add: reduce_def)

lemma reduce_Applied:
  "reduce s envelope c inputs = Applied tr \<longleftrightarrow>
     (\<exists>n s' a. admitted s envelope inputs n \<and> apply_command s c inputs = Ok (s', a)
        \<and> tr = \<lparr>transition_aggregate = advance_cursor envelope n s', transition_event = event_of s envelope n a,
                transition_outcome = applied_outcome a\<rparr>)"
  unfolding reduce_eq preflight_Ok[symmetric] by (auto split: sum.splits)

lemma reduce_Rejected:
  "reduce s envelope c inputs = Rejected s' e \<longleftrightarrow>
     s' = s \<and> (preflight s envelope inputs = Err e
        \<or> (\<exists>n. preflight s envelope inputs = Ok n \<and> apply_command s c inputs = Err e))"
  unfolding reduce_eq by (auto split: sum.splits)

end
