(* ===== verification/Kernel_Executions.thy ===== *)
theory Kernel_Executions
  imports Kernel_Reduction "HOL-Library.Sublist"
begin

text \<open>
  Executions of \<open>peritus-kernel\<close>: sequences of submitted commands, rejected ones leaving the aggregate
  alone. What every accepted command keeps, what may only grow, and what the history of accepted
  commands says about the aggregate it has led to.
\<close>

section \<open>One accepted command\<close>

type_synonym kernel_request = "command_envelope \<times> kernel_command \<times> reducer_inputs"

definition kernel_accepts ::
  "kernel_aggregate \<Rightarrow> kernel_request \<Rightarrow> kernel_aggregate \<Rightarrow> kernel_transition \<Rightarrow> bool" where
  "kernel_accepts s q s' tr \<longleftrightarrow>
     reduce s (fst q) (fst (snd q)) (snd (snd q)) = Applied tr \<and> transition_aggregate tr = s'"

lemma kernel_accepts_step:
  assumes "kernel_accepts s (envelope, c, inputs) s' tr"
  obtains n a where "admitted s envelope inputs n" "transition_event tr = event_of s envelope n a"
    "transition_outcome tr = applied_outcome a"
    "lifecycle_step inputs (kernel_revision s) (lifecycle_of s) c a (lifecycle_of s')"
    "aggregate_is_valid s'" "kernel_project_id s' = kernel_project_id s" "kernel_revision s' = kernel_revision s"
    "kernel_binding s' = kernel_binding s" "head_event_id s' = envelope_event_id envelope" "last_sequence s' = n"
    "accepted_command_ids s' = accepted_command_ids s @ [envelope_command_id envelope]"
    "event_ids s' = event_ids s @ [envelope_event_id envelope]"
proof -
  from assms obtain n t a where r: "admitted s envelope inputs n" "apply_command s c inputs = Ok (t, a)"
    "tr = \<lparr>transition_aggregate = advance_cursor envelope n t, transition_event = event_of s envelope n a,
           transition_outcome = applied_outcome a\<rparr>" "s' = advance_cursor envelope n t"
    by (auto simp: kernel_accepts_def reduce_Applied)
  have "keys_distinct s" using r(1) by (simp add: admitted_def aggregate_is_valid_iff)
  from apply_command_sound[OF this r(2)]
  have step: "lifecycle_step inputs (kernel_revision s) (lifecycle_of s) c a (lifecycle_of s')" by (simp add: r(4))
  have fr: "frame t = frame s" using apply_command_grows[OF r(2)] by (simp add: tables_grow_def)
  show ?thesis
  proof (rule that[OF r(1) _ _ step])
    show "aggregate_is_valid s'" unfolding r(4) by (rule family_valid[OF r(1,2)])
  qed (simp_all add: r(3,4) advance_cursor_def frame_simps[OF fr])
qed

section \<open>What every accepted command keeps\<close>

definition kernel_inv :: "kernel_aggregate \<Rightarrow> bool" where
  "kernel_inv s \<longleftrightarrow> aggregate_is_valid s \<and> lifecycle_inv (lifecycle_of s)"

lemma accepted_inv: "kernel_inv s \<Longrightarrow> kernel_accepts s q s' tr \<Longrightarrow> kernel_inv s'"
  by (cases q, elim kernel_accepts_step[of s "fst q" "fst (snd q)" "snd (snd q)" s' tr, simplified])
    (auto simp: kernel_inv_def intro: lifecycle_step_inv)

section \<open>What may only grow\<close>

text \<open>Over several commands a record moves along a path of edges.\<close>

definition lifecycle_grows :: "lifecycle \<Rightarrow> lifecycle \<Rightarrow> bool" where
  "lifecycle_grows v v' \<longleftrightarrow>
     session_key (life_session v') = session_key (life_session v)
   \<and> session_edge (session_phase (life_session v)) (session_phase (life_session v'))
   \<and> survives run_moves\<^sup>*\<^sup>* (life_runs v) (life_runs v') \<and> survives attempt_moves\<^sup>*\<^sup>* (life_attempts v) (life_attempts v')
   \<and> survives turn_moves\<^sup>*\<^sup>* (life_turns v) (life_turns v') \<and> survives action_moves\<^sup>*\<^sup>* (life_actions v) (life_actions v')
   \<and> survives review_moves\<^sup>*\<^sup>* (life_reviews v) (life_reviews v')
   \<and> survives waiver_moves\<^sup>*\<^sup>* (life_waivers v) (life_waivers v')"

lemma survives_trans:
  "survives P\<^sup>*\<^sup>* m n \<Longrightarrow> survives P\<^sup>*\<^sup>* n k \<Longrightarrow> survives P\<^sup>*\<^sup>* m k"
  unfolding survives_def by (meson rtranclp_trans)

lemma survives_star: "survives P m n \<Longrightarrow> survives P\<^sup>*\<^sup>* m n"
  unfolding survives_def by blast

lemma session_edge_trans: "session_edge p q \<Longrightarrow> session_edge q r \<Longrightarrow> session_edge p r"
  by (auto simp: session_edge_def)

lemma lifecycle_grows_refl: "lifecycle_grows v v"
  by (simp add: lifecycle_grows_def session_edge_def)

lemma lifecycle_grows_trans: "lifecycle_grows v w \<Longrightarrow> lifecycle_grows w u \<Longrightarrow> lifecycle_grows v u"
  unfolding lifecycle_grows_def by (auto intro: survives_trans session_edge_trans)

lemma moves_grow: "lifecycle_moves v w \<Longrightarrow> lifecycle_grows v w"
  unfolding lifecycle_moves_def lifecycle_grows_def by (auto intro: survives_star)

definition kernel_grows :: "kernel_aggregate \<Rightarrow> kernel_aggregate \<Rightarrow> bool" where
  "kernel_grows s s' \<longleftrightarrow> kernel_project_id s' = kernel_project_id s \<and> kernel_revision s' = kernel_revision s
   \<and> kernel_binding s' = kernel_binding s \<and> prefix (accepted_command_ids s) (accepted_command_ids s')
   \<and> prefix (event_ids s) (event_ids s') \<and> lifecycle_grows (lifecycle_of s) (lifecycle_of s')"

lemma accepted_grows: "kernel_accepts s q s' tr \<Longrightarrow> kernel_grows s s'"
proof (cases q)
  case (fields envelope c inputs)
  assume "kernel_accepts s q s' tr"
  then show ?thesis unfolding fields
    by (rule kernel_accepts_step) (auto simp: kernel_grows_def intro!: moves_grow step_moves)
qed

interpretation kernel: reducer kernel_accepts kernel_inv kernel_grows
proof
  show "kernel_inv s \<Longrightarrow> kernel_accepts s q s' tr \<Longrightarrow> kernel_inv s'" for s q s' tr by (rule accepted_inv)
  show "kernel_inv s \<Longrightarrow> kernel_accepts s q s' tr \<Longrightarrow> kernel_grows s s'" for s q s' tr by (rule accepted_grows)
  show "kernel_grows s s" for s by (simp add: kernel_grows_def lifecycle_grows_refl)
  show "kernel_grows s t \<Longrightarrow> kernel_grows t u \<Longrightarrow> kernel_grows s u" for s t u
    unfolding kernel_grows_def using lifecycle_grows_trans by (metis prefix_order.trans)
qed

section \<open>Executions with their history\<close>

text \<open>
  \<open>run_kernel\<close> submits the requests one after the other and returns the accepted ones, with the events
  they emitted, and the last aggregate.
\<close>

fun run_kernel :: "kernel_aggregate \<Rightarrow> kernel_request list
     \<Rightarrow> (kernel_request \<times> kernel_event) list \<times> kernel_aggregate" where
  "run_kernel s [] = ([], s)"
| "run_kernel s (q # qs) = (case reduce s (fst q) (fst (snd q)) (snd (snd q)) of
     Applied tr \<Rightarrow> (let (done', t) = run_kernel (transition_aggregate tr) qs in ((q, transition_event tr) # done', t))
   | Rejected s' e \<Rightarrow> run_kernel s' qs)"

lemma run_kernel_induct [consumes 1, case_names start accept]:
  assumes "run_kernel s qs = (h, t)" and "P s []"
    and "\<And>u h q u' tr. P u h \<Longrightarrow> kernel_accepts u q u' tr \<Longrightarrow> P u' (h @ [(q, transition_event tr)])"
  shows "P t h"
proof -
  have "P (snd (run_kernel u qs)) (g @ fst (run_kernel u qs))" if "P u g" for u g
    using that
  proof (induction qs arbitrary: u g)
    case (Cons q qs)
    show ?case
    proof (cases "reduce u (fst q) (fst (snd q)) (snd (snd q))")
      case (Applied tr)
      then have "kernel_accepts u q (transition_aggregate tr) tr" by (simp add: kernel_accepts_def)
      from assms(3)[OF Cons.prems this] Cons.IH[of "transition_aggregate tr" "g @ [(q, transition_event tr)]"]
      show ?thesis by (cases "run_kernel (transition_aggregate tr) qs") (simp add: Applied)
    next
      case (Rejected s' e)
      then have "s' = u" by (simp add: reduce_Rejected)
      with Rejected Cons show ?thesis by simp
    qed
  qed simp
  from this[OF assms(2)] assms(1) show ?thesis by simp
qed

lemma run_kernel_star: "run_kernel s qs = (h, t) \<Longrightarrow> (successor kernel_accepts)\<^sup>*\<^sup>* s t"
proof (induction rule: run_kernel_induct)
  case (accept u h q u' tr)
  then have "successor kernel_accepts u u'" unfolding successor_def by blast
  with accept(1) show ?case by (rule rtranclp.rtrancl_into_rtrancl)
qed simp

lemma run_kernel_inv: "run_kernel s qs = (h, t) \<Longrightarrow> kernel_inv s \<Longrightarrow> kernel_inv t"
  by (rule kernel.run_inv[OF run_kernel_star])

lemma run_kernel_grows: "run_kernel s qs = (h, t) \<Longrightarrow> kernel_inv s \<Longrightarrow> kernel_grows s t"
  by (rule kernel.run_le[OF run_kernel_star])

section \<open>The opening aggregate\<close>

lemma kernel_open_Ok:
  assumes "kernel_open project session contract cur envelope = Ok g"
  shows "kernel_inv (genesis_aggregate g) \<and> life_runs (lifecycle_of (genesis_aggregate g)) = Map.empty
    \<and> life_attempts (lifecycle_of (genesis_aggregate g)) = Map.empty
    \<and> life_turns (lifecycle_of (genesis_aggregate g)) = Map.empty
    \<and> life_actions (lifecycle_of (genesis_aggregate g)) = Map.empty
    \<and> life_reviews (lifecycle_of (genesis_aggregate g)) = Map.empty
    \<and> life_waivers (lifecycle_of (genesis_aggregate g)) = Map.empty
    \<and> session_phase (life_session (lifecycle_of (genesis_aggregate g))) = SessionOpen
    \<and> kernel_revision (genesis_aggregate g) = cur
    \<and> accepted_command_ids (genesis_aggregate g) = [envelope_command_id envelope]
    \<and> event_ids (genesis_aggregate g) = [envelope_event_id envelope]
    \<and> last_sequence (genesis_aggregate g) = event_sequence_first
    \<and> head_event_id (genesis_aggregate g) = envelope_event_id envelope"
proof -
  obtain s where s: "genesis_aggregate g = s" "aggregate_is_valid s" "kernel_session s = \<lparr>session_key = session, session_phase = SessionOpen\<rparr>"
    "kernel_runs s = []" "kernel_attempts s = []" "kernel_turns s = []" "kernel_actions s = []" "kernel_reviews s = []"
    "kernel_waivers s = []" "kernel_revision s = cur" "accepted_command_ids s = [envelope_command_id envelope]"
    "event_ids s = [envelope_event_id envelope]" "last_sequence s = event_sequence_first"
    "head_event_id s = envelope_event_id envelope"
    using assms by (auto simp: kernel_open_def Let_def split: if_splits sum.splits)
  have empty: "lookup key [] = Map.empty" for key :: "'r \<Rightarrow> 'k" by (simp add: lookup_def fun_eq_iff)
  have "lifecycle_inv (lifecycle_of s)"
    by (simp add: lifecycle_inv_def runs_match_def turns_placed_def turns_alternate_def actions_placed_def
        actions_witnessed_def reviews_placed_def waivers_placed_def one_live_run_def session_agrees_def
        run_is_live_def s empty)
  with s show ?thesis by (simp add: kernel_inv_def empty)
qed

lemma kernel_open_valid:
  assumes "contract_bind contract cur = Ok b" and "envelope_revision envelope = cur"
    and "expected_previous_event_id envelope = None"
  shows "\<exists>g. kernel_open project session contract cur envelope = Ok g"
proof -
  from assms(1) have b: "binding_revision b = cur" "binding_contract_id b = acceptance_spec_id cur"
    by (auto simp: contract_bind_Ok)
  show ?thesis
    by (simp add: kernel_open_def assms Let_def aggregate_is_valid_def b has_duplicate_commands_def
        has_duplicate_events_def has_duplicate_children_def has_duplicate_def count_live_runs_def parents_are_valid_def)
qed

end
