(* ===== verification/Kernel_History.thy ===== *)
theory Kernel_History
  imports Kernel_Executions
begin

text \<open>
  What the history of an execution of \<open>peritus-kernel\<close> says: identifiers and sequence numbers, the one
  authorization behind each action that runs, what an acceptance rests on, and the commands that are
  always available to end a run.
\<close>

section \<open>The chain of events\<close>

lemma admitted_sequence:
  "admitted s envelope inputs n \<Longrightarrow>
     unat (event_sequence_get n) = unat (event_sequence_get (last_sequence s)) + 1"
  by (cases "last_sequence s")
    (auto simp: admitted_def event_sequence_checked_next_def event_sequence_get_def positive_checked_next_Ok
      split: sum.splits)

definition event_chain :: "kernel_aggregate \<Rightarrow> kernel_event list \<Rightarrow> bool" where
  "event_chain s es \<longleftrightarrow> (\<forall>i<length es.
     unat (event_sequence_get (event_sequence (es ! i))) = unat (event_sequence_get (last_sequence s)) + i + 1
   \<and> previous_event_id (es ! i) = Some (if i = 0 then head_event_id s else kernel_event_id (es ! (i - 1))))"

definition chained :: "kernel_aggregate \<Rightarrow> (kernel_request \<times> kernel_event) list \<Rightarrow> kernel_aggregate \<Rightarrow> bool" where
  "chained s h t \<longleftrightarrow>
     accepted_command_ids t = accepted_command_ids s @ map (\<lambda>x. envelope_command_id (fst (fst x))) h
   \<and> map (\<lambda>x. event_command_id (snd x)) h = map (\<lambda>x. envelope_command_id (fst (fst x))) h
   \<and> event_ids t = event_ids s @ map (\<lambda>x. kernel_event_id (snd x)) h
   \<and> unat (event_sequence_get (last_sequence t)) = unat (event_sequence_get (last_sequence s)) + length h
   \<and> head_event_id t = (if h = [] then head_event_id s else kernel_event_id (snd (last h)))
   \<and> event_chain s (map snd h)"

lemma event_chain_snoc:
  assumes "event_chain s es"
    and "unat (event_sequence_get (event_sequence e)) = unat (event_sequence_get (last_sequence s)) + length es + 1"
    and "previous_event_id e = Some (if es = [] then head_event_id s else kernel_event_id (last es))"
  shows "event_chain s (es @ [e])"
  using assms by (auto simp: event_chain_def nth_append less_Suc_eq last_conv_nth)

lemma run_kernel_chained: "run_kernel s qs = (h, t) \<Longrightarrow> chained s h t"
proof (induction rule: run_kernel_induct)
  case start
  show ?case by (simp add: chained_def event_chain_def)
next
  case (accept u h q u' tr)
  obtain envelope c inputs where q: "q = (envelope, c, inputs)" by (cases q)
  from accept(2)[unfolded q] obtain n a where st: "admitted u envelope inputs n"
    "transition_event tr = event_of u envelope n a" "head_event_id u' = envelope_event_id envelope"
    "last_sequence u' = n" "accepted_command_ids u' = accepted_command_ids u @ [envelope_command_id envelope]"
    "event_ids u' = event_ids u @ [envelope_event_id envelope]"
    by (rule kernel_accepts_step)
  note seq = admitted_sequence[OF st(1)]
  have "event_chain s (map snd h @ [transition_event tr])"
    using accept(1) seq by (intro event_chain_snoc) (auto simp: chained_def st(2) event_of_def last_map)
  with accept(1) seq st show ?case
    by (simp add: chained_def q event_of_def)
qed

section \<open>Authorizations\<close>

definition authorizations ::
  "(kernel_request \<times> kernel_event) list \<Rightarrow> action_id \<Rightarrow> (kernel_request \<times> kernel_event) list" where
  "authorizations h c = filter (\<lambda>x. fst (snd (fst x)) = AuthorizeAction c) h"

definition authorized_by ::
  "revision_tuple \<Rightarrow> (kernel_request \<times> kernel_event) list \<Rightarrow> action_id \<Rightarrow> action_state \<Rightarrow> bool" where
  "authorized_by cur h c z \<longleftrightarrow> (\<exists>envelope inputs e tr. authorizations h c = [((envelope, AuthorizeAction c, inputs), e)]
     \<and> inputs_capability_use inputs = Some tr \<and> use_covers cur z tr \<and> action_authorization z = Some (witness_of tr))"

definition authorized_once :: "revision_tuple \<Rightarrow> (kernel_request \<times> kernel_event) list \<Rightarrow> lifecycle \<Rightarrow> bool" where
  "authorized_once cur h v \<longleftrightarrow> (\<forall>c. case life_actions v c of
     None \<Rightarrow> authorizations h c = []
   | Some z \<Rightarrow> (if action_authorization z = None then authorizations h c = [] else authorized_by cur h c z))"

lemma survivesD: "survives P m m' \<Longrightarrow> m k = Some x \<Longrightarrow> m' k = Some x' \<Longrightarrow> P x x'"
  by (fastforce simp: survives_def)

lemma step_authorization:
  assumes "lifecycle_step inputs cur v c a v'" and "keyed v" and "life_actions v' i = Some z'"
  shows "(\<exists>z. life_actions v i = Some z \<and> action_authorization z' = action_authorization z
            \<and> (\<forall>tr. use_covers cur z' tr = use_covers cur z tr) \<and> c \<noteq> AuthorizeAction i)
    \<or> (life_actions v i = None \<and> action_authorization z' = None \<and> c \<noteq> AuthorizeAction i)
    \<or> (c = AuthorizeAction i \<and> (\<exists>z tr. life_actions v i = Some z \<and> action_phase z = ActionIsProposed
         \<and> inputs_capability_use inputs = Some tr \<and> use_covers cur z' tr \<and> action_authorization z' = Some (witness_of tr)))"
proof (cases "\<exists>j. c = AuthorizeAction j")
  case True
  then obtain j where j: "c = AuthorizeAction j" by blast
  with assms(1) obtain x tr where x: "life_actions v j = Some x" "action_phase x = ActionIsProposed"
    "inputs_capability_use inputs = Some tr" "use_covers cur x tr" "v' = put_action (action_authorize (witness_of tr) x) v"
    by (auto simp: action_steps)
  then show ?thesis using assms(3) j keyedD(4)[OF assms(2) x(1)]
    by (cases "i = j") (auto simp: action_authorize_def use_covers_def)
next
  case False
  have kept: "action_moves z z' \<Longrightarrow> action_authorization z' = action_authorization z \<Longrightarrow>
      use_covers cur z' tr = use_covers cur z tr" for z tr
    by (auto simp: action_moves_def use_covers_def) (metis action_state.simps action_state.surjective)+
  show ?thesis
  proof (cases "life_actions v i")
    case None
    have "action_authorization z' = None"
      using assms(1,3) False None keyedD(4)[OF assms(2)] by cases (auto simp: stop_updates action_proposed_def split: if_splits)
    with None False show ?thesis by blast
  next
    case (Some z)
    have "action_authorization z' = action_authorization z"
      using assms(1,3) False Some keyedD(4)[OF assms(2)]
      by cases (auto simp: stop_updates action_proposed_def split: if_splits)
    moreover have "action_moves z z'"
      by (rule survivesD[OF step_actions[OF assms(1,2)] Some assms(3)])
    ultimately show ?thesis using Some False kept by blast
  qed
qed

lemma step_new_action:
  assumes "lifecycle_step inputs cur v c a v'" and "keyed v" and "life_actions v' i = None"
  shows "life_actions v i = None \<and> c \<noteq> AuthorizeAction i"
proof (intro conjI notI)
  show "life_actions v i = None"
    using survives_some[OF step_actions[OF assms(1,2)]] assms(3) by blast
  then show False if "c = AuthorizeAction i"
    using assms(1) that by (auto simp: action_steps)
qed

lemma authorizations_snoc:
  "authorizations (h @ [(q, e)]) c = authorizations h c @ (if fst (snd q) = AuthorizeAction c then [(q, e)] else [])"
  by (simp add: authorizations_def)

lemma step_authorized_once:
  assumes step: "lifecycle_step inputs cur v c a v'" and key: "keyed v" and wit: "actions_witnessed v"
    and once: "authorized_once cur h v"
  shows "authorized_once cur (h @ [((envelope, c, inputs), e)]) v'"
  unfolding authorized_once_def
proof
  fix i
  note old = once[unfolded authorized_once_def, THEN spec, of i]
  show "case life_actions v' i of None \<Rightarrow> authorizations (h @ [((envelope, c, inputs), e)]) i = []
    | Some z \<Rightarrow> if action_authorization z = None then authorizations (h @ [((envelope, c, inputs), e)]) i = []
        else authorized_by cur (h @ [((envelope, c, inputs), e)]) i z"
  proof (cases "life_actions v' i")
    case None
    with step_new_action[OF step key None] old show ?thesis by (simp add: authorizations_snoc)
  next
    case (Some z')
    from step_authorization[OF step key Some] show ?thesis
    proof (elim disjE exE conjE)
      fix z
      assume "life_actions v i = Some z" "action_authorization z' = action_authorization z"
        "\<forall>tr. use_covers cur z' tr = use_covers cur z tr" "c \<noteq> AuthorizeAction i"
      with old Some show ?thesis by (auto simp: authorizations_snoc authorized_by_def)
    next
      assume "life_actions v i = None" "action_authorization z' = None" "c \<noteq> AuthorizeAction i"
      with old Some show ?thesis by (simp add: authorizations_snoc)
    next
      fix z tr
      assume z: "c = AuthorizeAction i" "life_actions v i = Some z" "action_phase z = ActionIsProposed"
        "inputs_capability_use inputs = Some tr" "use_covers cur z' tr" "action_authorization z' = Some (witness_of tr)"
      with wit have "action_authorization z = None" by (auto simp: actions_witnessed_def witnessed_def)
      with z old Some show ?thesis by (simp add: authorizations_snoc authorized_by_def)
    qed
  qed
qed

lemma run_kernel_authorized:
  assumes "run_kernel s qs = (h, t)" and "kernel_inv s" and "life_actions (lifecycle_of s) = Map.empty"
  shows "kernel_inv t \<and> kernel_revision t = kernel_revision s \<and> authorized_once (kernel_revision s) h (lifecycle_of t)"
  using assms(1)
proof (induction rule: run_kernel_induct)
  case start
  show ?case using assms(2,3) by (simp add: authorized_once_def authorizations_def)
next
  case (accept u h q u' tr)
  obtain envelope c inputs where q: "q = (envelope, c, inputs)" by (cases q)
  from accept(2)[unfolded q] obtain a where st:
    "lifecycle_step inputs (kernel_revision u) (lifecycle_of u) c a (lifecycle_of u')" "kernel_revision u' = kernel_revision u"
    by (rule kernel_accepts_step)
  from accept have "actions_witnessed (lifecycle_of u)" by (simp add: kernel_inv_def lifecycle_inv_def)
  with step_authorized_once[OF _ keyed_lifecycle this] st accept accepted_inv[of u q u' tr] show ?case by (simp add: q)
qed

section \<open>Acceptance\<close>

lemma accepted_by_evaluation:
  assumes "lifecycle_step inputs cur v c a v'" and "keyed v"
    and "life_runs v' i = Some r'" and "run_phase r' = RunIsAccepted"
    and "\<forall>r. life_runs v i = Some r \<longrightarrow> run_phase r \<noteq> RunIsAccepted"
  obtains r b x e where "c = EvaluateAcceptance i" "life_runs v i = Some r" "run_phase r = RunReviewing"
    "run_acceptance r = AcceptanceEvaluating" "run_current_attempt r = Some b"
    "life_attempts v b = Some x" "attempt_phase x = AttemptReviewing"
    "inputs_acceptance_evidence inputs = Some e" "evidence_projected cur v i b e"
    "is_acceptable (evaluate_acceptance (inputs_contract inputs) cur e)"
proof -
  have "applied_kind a = AcceptanceAccepted"
    using step_no_new_acceptance[OF assms(1) _ assms(2-4)] assms(5) by blast
  with assms(1,3-5) have "\<exists>r b x e. c = EvaluateAcceptance i \<and> life_runs v i = Some r \<and> run_phase r = RunReviewing
      \<and> run_acceptance r = AcceptanceEvaluating \<and> run_current_attempt r = Some b
      \<and> life_attempts v b = Some x \<and> attempt_phase x = AttemptReviewing
      \<and> inputs_acceptance_evidence inputs = Some e \<and> evidence_projected cur v i b e
      \<and> is_acceptable (evaluate_acceptance (inputs_contract inputs) cur e)"
  proof cases
    case (accept_run j r b x e)
    with assms(3-5) keyedD(1)[OF assms(2) accept_run(4)] show ?thesis by (auto split: if_splits)
  qed (auto simp: applied_new_def applied_acceptance_def dest: table_kinds(1-6) simp: critical_kinds_def)
  with that show ?thesis by blast
qed

section \<open>Ending a run\<close>

text \<open>A terminal run has nothing live below it.\<close>

definition quiet_run :: "lifecycle \<Rightarrow> run_id \<Rightarrow> bool" where
  "quiet_run v i \<longleftrightarrow>
     (\<forall>a x. life_attempts v a = Some x \<longrightarrow> attempt_run x = i \<longrightarrow> attempt_terminal (attempt_phase x))
   \<and> (\<forall>t y. life_turns v t = Some y \<longrightarrow> attempt_of_run v i (turn_attempt y) \<longrightarrow> turn_terminal (turn_phase y))
   \<and> (\<forall>c z. life_actions v c = Some z \<longrightarrow> turn_of_run v i (action_turn z) \<longrightarrow> action_terminal (action_phase z))"

lemma terminal_run_quiet:
  assumes inv: "lifecycle_inv v" and r: "life_runs v i = Some r" and "run_terminal (run_phase r)"
  shows "quiet_run v i"
proof -
  have match: "run_matches (attempts_under (life_attempts v) i) r"
    using inv r by (simp add: lifecycle_inv_def runs_matchD)
  have "run_current_attempt r = None"
    using match assms(3) busy_live by (cases "run_current_attempt r") (fastforce simp: run_matches_def)+
  then have attempts: "attempt_terminal (attempt_phase x)" if "life_attempts v a = Some x" "attempt_run x = i" for a x
    using match that by (simp add: run_matches_def attempts_under_def)
  have turns: "turn_terminal (turn_phase y)" if y: "life_turns v t = Some y" "attempt_of_run v i (turn_attempt y)" for t y
  proof (rule ccontr)
    assume "\<not> turn_terminal (turn_phase y)"
    with inv y(1) obtain x where "life_attempts v (turn_attempt y) = Some x" "attempt_phase x = AttemptActive"
      by (fastforce simp: lifecycle_inv_def turns_placed_def)
    with attempts[of "turn_attempt y" x] y(2) show False by (auto simp: attempt_of_run_def)
  qed
  have "action_terminal (action_phase z)" if z: "life_actions v c = Some z" "turn_of_run v i (action_turn z)" for c z
  proof (rule ccontr)
    assume "\<not> action_terminal (action_phase z)"
    with inv z(1) obtain y where "life_turns v (action_turn z) = Some y" "turn_phase y = TurnActive"
      by (fastforce simp: lifecycle_inv_def actions_placed_def)
    with turns[of "action_turn z" y] z(2) show False by (auto simp: turn_of_run_def)
  qed
  with attempts turns show ?thesis unfolding quiet_run_def by blast
qed

lemma live_run_can_end:
  assumes "admitted s envelope inputs n" and "life_runs (lifecycle_of s) i = Some r" and "\<not> run_terminal (run_phase r)"
    and "run_end c = Some (i, rp, ap, tp, cp, k)"
  shows "\<exists>s' tr. kernel_accepts s (envelope, c, inputs) s' tr
    \<and> (\<exists>r'. life_runs (lifecycle_of s') i = Some r' \<and> run_phase r' = rp)"
proof -
  let ?v = "lifecycle_of s"
  let ?v' = "put_run (r\<lparr>run_phase := rp, run_acceptance := AcceptanceTerminated, run_current_attempt := None\<rparr>)
         (stop_run i ap tp cp ?v)"
  have "lifecycle_step inputs (kernel_revision s) ?v c (applied_new k (RunSubject i)) ?v'"
    by (rule lifecycle_step.end_run[OF assms(4,2,3)])
  moreover have "keys_distinct s" using assms(1) by (simp add: admitted_def aggregate_is_valid_iff)
  ultimately obtain t where t: "apply_command s c inputs = Ok (t, applied_new k (RunSubject i))" "lifecycle_of t = ?v'"
    using apply_command_complete by blast
  have "life_runs ?v' i = Some (r\<lparr>run_phase := rp, run_acceptance := AcceptanceTerminated, run_current_attempt := None\<rparr>)"
    using keyedD(1)[OF keyed_lifecycle assms(2)] by simp
  then have "life_runs (lifecycle_of (advance_cursor envelope n t)) i
      = Some (r\<lparr>run_phase := rp, run_acceptance := AcceptanceTerminated, run_current_attempt := None\<rparr>)"
    using t(2) by (simp del: life_simps)
  then show ?thesis
    using assms(1) t(1) by (fastforce simp: kernel_accepts_def reduce_Applied simp del: life_simps)
qed

section \<open>Terminal phases\<close>

lemma terminal_moves:
  "run_moves r r' \<Longrightarrow> run_terminal (run_phase r) \<Longrightarrow> run_phase r' = run_phase r"
  "attempt_moves x x' \<Longrightarrow> attempt_terminal (attempt_phase x) \<Longrightarrow> x' = x"
  "turn_moves y y' \<Longrightarrow> turn_terminal (turn_phase y) \<Longrightarrow> y' = y"
  "action_moves z z' \<Longrightarrow> action_terminal (action_phase z) \<Longrightarrow> z' = z"
proof -
  show "run_moves r r' \<Longrightarrow> run_terminal (run_phase r) \<Longrightarrow> run_phase r' = run_phase r"
    by (auto simp: run_moves_def run_edge_def)
  show "attempt_moves x x' \<Longrightarrow> attempt_terminal (attempt_phase x) \<Longrightarrow> x' = x"
    by (cases x; cases x') (auto simp: attempt_moves_def attempt_edge_def)
  show "turn_moves y y' \<Longrightarrow> turn_terminal (turn_phase y) \<Longrightarrow> y' = y"
    by (cases y; cases y') (auto simp: turn_moves_def turn_edge_def)
  show "action_moves z z' \<Longrightarrow> action_terminal (action_phase z) \<Longrightarrow> z' = z"
    by (cases z; cases z') (auto simp: action_moves_def action_edge_def)
qed

lemma terminal_stays:
  "run_terminal (run_phase r) \<Longrightarrow> run_moves\<^sup>*\<^sup>* r r' \<Longrightarrow> run_phase r' = run_phase r"
  "attempt_terminal (attempt_phase x) \<Longrightarrow> attempt_moves\<^sup>*\<^sup>* x x' \<Longrightarrow> x' = x"
  "turn_terminal (turn_phase y) \<Longrightarrow> turn_moves\<^sup>*\<^sup>* y y' \<Longrightarrow> y' = y"
  "action_terminal (action_phase z) \<Longrightarrow> action_moves\<^sup>*\<^sup>* z z' \<Longrightarrow> z' = z"
proof -
  show "run_phase r' = run_phase r" if "run_moves\<^sup>*\<^sup>* r r'" "run_terminal (run_phase r)"
    using that by (induction rule: rtranclp_induct) (auto dest: terminal_moves(1))
  show "x' = x" if "attempt_moves\<^sup>*\<^sup>* x x'" "attempt_terminal (attempt_phase x)"
    using that by (induction rule: rtranclp_induct) (auto dest: terminal_moves(2))
  show "y' = y" if "turn_moves\<^sup>*\<^sup>* y y'" "turn_terminal (turn_phase y)"
    using that by (induction rule: rtranclp_induct) (auto dest: terminal_moves(3))
  show "z' = z" if "action_moves\<^sup>*\<^sup>* z z'" "action_terminal (action_phase z)"
    using that by (induction rule: rtranclp_induct) (auto dest: terminal_moves(4))
qed

end
