(* ===== verification/Kernel_Acceptance.thy ===== *)
theory Kernel_Acceptance
  imports Kernel_History
begin

text \<open>
  Where the acceptance of a run comes from in an execution of \<open>peritus-kernel\<close>: the accepted commands
  alone replay it, and the one that accepted the run evaluated evidence drawn from the reviews and
  waivers of the aggregate it was submitted to.
\<close>

section \<open>Replaying the accepted commands\<close>

lemma run_kernel_snoc:
  assumes "run_kernel s qs = (h, t)" and "kernel_accepts t q t' tr"
  shows "run_kernel s (qs @ [q]) = (h @ [(q, transition_event tr)], t')"
  using assms(1)
proof (induction qs arbitrary: s h)
  case Nil
  with assms(2) show ?case by (simp add: kernel_accepts_def)
next
  case (Cons p ps)
  show ?case
  proof (cases "reduce s (fst p) (fst (snd p)) (snd (snd p))")
    case (Applied tr')
    obtain h' u where r: "run_kernel (transition_aggregate tr') ps = (h', u)" by (cases "run_kernel (transition_aggregate tr') ps")
    with Cons.prems Applied have "h = (p, transition_event tr') # h'" "u = t" by auto
    with Cons.IH r Applied show ?thesis by simp
  next
    case (Rejected s' e)
    with Cons.prems Cons.IH show ?thesis by simp
  qed
qed

lemma run_kernel_replay: "run_kernel s qs = (h, t) \<Longrightarrow> run_kernel s (map fst h) = (h, t)"
proof (induction rule: run_kernel_induct)
  case (accept u h q u' tr)
  then show ?case by (simp add: run_kernel_snoc)
qed simp

section \<open>The evaluation behind an acceptance\<close>

text \<open>
  \<open>accepted_at s h i\<close>: an entry of the history \<open>h\<close>, submitted to the aggregate \<open>u\<close> that the entries before it
  lead to from \<open>s\<close>, evaluated evidence for the run \<open>i\<close> and found it acceptable.
\<close>

definition accepting_evidence :: "kernel_aggregate \<Rightarrow> run_id \<Rightarrow> reducer_inputs \<Rightarrow> acceptance_evidence \<Rightarrow> bool" where
  "accepting_evidence u i inputs e \<longleftrightarrow>
     inputs_acceptance_evidence inputs = Some e
   \<and> contract_content_digest (inputs_contract inputs) = binding_contract_digest (kernel_binding u)
   \<and> is_acceptable (evaluate_acceptance (inputs_contract inputs) (kernel_revision u) e)
   \<and> (\<exists>r b x. life_runs (lifecycle_of u) i = Some r \<and> run_phase r = RunReviewing \<and> run_current_attempt r = Some b
        \<and> life_attempts (lifecycle_of u) b = Some x \<and> attempt_phase x = AttemptReviewing
        \<and> evidence_projected (kernel_revision u) (lifecycle_of u) i b e)"

definition accepted_at :: "kernel_aggregate \<Rightarrow> (kernel_request \<times> kernel_event) list \<Rightarrow> run_id \<Rightarrow> bool" where
  "accepted_at s h i \<longleftrightarrow> (\<exists>before envelope inputs event after u e.
     h = before @ ((envelope, EvaluateAcceptance i, inputs), event) # after
   \<and> run_kernel s (map fst before) = (before, u) \<and> accepting_evidence u i inputs e)"

lemma accepted_at_snoc: "accepted_at s h i \<Longrightarrow> accepted_at s (h @ [y]) i"
  unfolding accepted_at_def by fastforce

lemma run_kernel_accepted:
  assumes "run_kernel s qs = (h, t)" and "kernel_inv s"
    and "\<forall>i r. life_runs (lifecycle_of s) i = Some r \<longrightarrow> run_phase r \<noteq> RunIsAccepted"
  shows "run_kernel s (map fst h) = (h, t)
    \<and> (\<forall>i r. life_runs (lifecycle_of t) i = Some r \<longrightarrow> run_phase r = RunIsAccepted \<longrightarrow> accepted_at s h i)"
  using assms(1)
proof (induction rule: run_kernel_induct)
  case start
  then show ?case using assms(3) by auto
next
  case (accept u h q u' tr)
  obtain envelope c inputs where q: "q = (envelope, c, inputs)" by (cases q)
  from accept(2)[unfolded q] obtain n a where st: "admitted u envelope inputs n"
    "lifecycle_step inputs (kernel_revision u) (lifecycle_of u) c a (lifecycle_of u')"
    by (rule kernel_accepts_step)
  have "accepted_at s (h @ [(q, transition_event tr)]) i"
    if r': "life_runs (lifecycle_of u') i = Some r'" "run_phase r' = RunIsAccepted" for i r'
  proof (cases "\<exists>r. life_runs (lifecycle_of u) i = Some r \<and> run_phase r = RunIsAccepted")
    case True
    with accept(1) show ?thesis by (blast intro: accepted_at_snoc)
  next
    case False
    from accepted_by_evaluation[OF st(2) keyed_lifecycle r'] False obtain r b x e where
      new: "c = EvaluateAcceptance i" "life_runs (lifecycle_of u) i = Some r" "run_phase r = RunReviewing"
      "run_current_attempt r = Some b" "life_attempts (lifecycle_of u) b = Some x" "attempt_phase x = AttemptReviewing"
      "inputs_acceptance_evidence inputs = Some e" "evidence_projected (kernel_revision u) (lifecycle_of u) i b e"
      "is_acceptable (evaluate_acceptance (inputs_contract inputs) (kernel_revision u) e)" by metis
    then have "accepting_evidence u i inputs e" using st(1) by (auto simp: accepting_evidence_def admitted_def simp del: life_simps)
    with accept(1) new(1) q show ?thesis unfolding accepted_at_def by fastforce
  qed
  with accept show ?case by (simp add: run_kernel_snoc)
qed

end
