(* ===== verification/Kernel_Examples.thy ===== *)
theory Kernel_Examples
  imports Kernel_Acceptance Acceptance_Examples Lease_Examples
begin

text \<open>
  Concrete executions of \<open>peritus-kernel\<close>: a session under the sample contract, in which a run is started,
  an action authorized with the sample capability use and dispatched, the attempt reviewed and the
  run accepted; and one in which the run needs changes, is paused and resumed.
\<close>

lemma sample_revisions: "policy_revision 4 = contract_revision"
  by (simp add: policy_revision_def contract_revision_def)

section \<open>Envelopes and inputs\<close>

definition sample_envelope :: "nat \<Rightarrow> event_id option \<Rightarrow> command_envelope" where
  "sample_envelope n head = \<lparr>envelope_command_id = CommandId (low_identifier (of_nat n)),
     envelope_event_id = EventId (low_identifier (of_nat n)), expected_previous_event_id = head,
     envelope_revision = contract_revision\<rparr>"

definition sample_snapshot :: "u8 \<Rightarrow> budget_id option \<Rightarrow> budget_snapshot" where
  "sample_snapshot b par = \<lparr>snapshot_id = BudgetId (low_identifier b), snapshot_parent_id = par,
     snapshot_revision = contract_revision, snapshot_limits = BudgetLimits amounts_zero,
     snapshot_consumed = amounts_zero, snapshot_operation_reserved = amounts_zero,
     snapshot_child_delegated_remaining = amounts_zero, snapshot_available = amounts_zero, snapshot_phase = Open\<rparr>"

definition sample_inputs :: "acceptance_evidence option \<Rightarrow> reducer_inputs" where
  "sample_inputs e = \<lparr>inputs_contract = sample_contract, inputs_run_budget = Some (sample_snapshot 1 None),
     inputs_attempt_budget = Some (sample_snapshot 2 (Some (BudgetId (low_identifier 1)))),
     inputs_parent_budget = Some (sample_snapshot 1 None), inputs_capability_use = Some sample_use,
     inputs_acceptance_evidence = e\<rparr>"

definition sample_opening :: "kernel_error + kernel_genesis" where
  "sample_opening = kernel_open (ProjectId (low_identifier 1)) (SessionId (low_identifier 1)) sample_contract
     contract_revision (sample_envelope 1 None)"

lemma sample_opens: "\<exists>g. sample_opening = Ok g"
  unfolding sample_opening_def
  by (rule kernel_open_valid) (auto simp: sample_envelope_def contract_bind_Ok sample_contract_def contract_revision_def)

section \<open>Executions by their commands\<close>

text \<open>
  \<open>sample_at cs g h t\<close>: submitting the commands \<open>cs\<close>, all accepted, leads from the opening \<open>g\<close> to \<open>t\<close> with
  the history \<open>h\<close>; \<open>sample_reaches cs v\<close>: the lifecycle of such a \<open>t\<close> is \<open>v\<close>.
\<close>

definition sample_at :: "(kernel_command \<times> reducer_inputs) list \<Rightarrow> kernel_genesis
     \<Rightarrow> (kernel_request \<times> kernel_event) list \<Rightarrow> kernel_aggregate \<Rightarrow> bool" where
  "sample_at cs g h t \<longleftrightarrow> sample_opening = Ok g \<and> run_kernel (genesis_aggregate g) (map fst h) = (h, t)
     \<and> map (\<lambda>x. snd (fst x)) h = cs \<and> binding_contract_digest (kernel_binding t) = low_digest 1
     \<and> accepted_command_ids t = map (\<lambda>k. CommandId (low_identifier (of_nat k))) [1..<length cs + 2]
     \<and> event_ids t = map (\<lambda>k. EventId (low_identifier (of_nat k))) [1..<length cs + 2]"

definition sample_reaches :: "(kernel_command \<times> reducer_inputs) list \<Rightarrow> lifecycle \<Rightarrow> bool" where
  "sample_reaches cs v \<longleftrightarrow> (\<exists>g h t. sample_at cs g h t \<and> lifecycle_of t = v)"

definition sample_life :: lifecycle where
  "sample_life = \<lparr>life_session = \<lparr>session_key = SessionId (low_identifier 1), session_phase = SessionOpen\<rparr>,
     life_runs = Map.empty, life_attempts = Map.empty, life_turns = Map.empty, life_actions = Map.empty,
     life_reviews = Map.empty, life_waivers = Map.empty\<rparr>"

lemma sample_start: "sample_reaches [] sample_life"
proof -
  obtain g where g: "sample_opening = Ok g" using sample_opens by blast
  let ?s = "genesis_aggregate g"
  note facts = kernel_open_Ok[OF g[unfolded sample_opening_def]]
  have "kernel_session ?s = \<lparr>session_key = SessionId (low_identifier 1), session_phase = SessionOpen\<rparr>
      \<and> binding_contract_digest (kernel_binding ?s) = low_digest 1"
    using g by (auto simp: sample_opening_def kernel_open_def Let_def contract_bind_Ok sample_contract_def
        split: if_splits sum.splits)
  with facts have "lifecycle_of ?s = sample_life" "binding_contract_digest (kernel_binding ?s) = low_digest 1"
    by (auto intro!: lifecycle.equality simp: sample_life_def)
  with g facts show ?thesis
    unfolding sample_reaches_def sample_at_def
    by (intro exI[of _ g] exI[of _ "[]"] exI[of _ ?s]) (simp add: sample_envelope_def)
qed

lemma sequence_continues:
  "unat (event_sequence_get n) + 1 < 2 ^ 64 \<Longrightarrow> \<exists>m. event_sequence_checked_next n = Ok m"
  by (cases n; cases "positive_checked_next (event_sequence_raw n)")
    (auto simp: event_sequence_checked_next_def event_sequence_get_def positive_checked_next_Err)

lemma low_fresh: "n < 200 \<Longrightarrow> k \<in> {1..<n} \<Longrightarrow> low_identifier (of_nat n) \<noteq> low_identifier (of_nat k)"
  by (simp add: low_identifier_eq word_unat_eq_iff unat_of_nat)

lemma sample_facts:
  assumes "sample_at cs g h t"
  shows "kernel_inv t \<and> kernel_revision t = contract_revision
    \<and> unat (event_sequence_get (last_sequence t)) = 1 + length cs"
proof -
  note at = assms[unfolded sample_at_def]
  have run: "run_kernel (genesis_aggregate g) (map fst h) = (h, t)" using at by simp
  have "sample_opening = Ok g" using at by simp
  note open' = kernel_open_Ok[OF this[unfolded sample_opening_def]]
  have "kernel_inv t" by (rule run_kernel_inv[OF run]) (simp add: open')
  moreover have "kernel_grows (genesis_aggregate g) t" by (rule run_kernel_grows[OF run]) (simp add: open')
  moreover have "unat (event_sequence_get (last_sequence t)) = 1 + length cs"
    using run_kernel_chained[OF run] open' at by (auto simp: chained_def event_sequence_first_def event_sequence_get_def)
  ultimately show ?thesis using open' by (simp add: kernel_grows_def)
qed

abbreviation sample_next :: "(kernel_command \<times> reducer_inputs) list \<Rightarrow> kernel_aggregate \<Rightarrow> command_envelope" where
  "sample_next cs t \<equiv> sample_envelope (length cs + 2) (Some (head_event_id t))"

lemma sample_admits:
  assumes at: "sample_at cs g h t" and len: "length cs < 100" and contract: "inputs_contract inputs = sample_contract"
  shows "\<exists>n. admitted t (sample_next cs t) inputs n"
proof -
  have inv: "kernel_inv t" and rev: "kernel_revision t = contract_revision"
    and seq: "unat (event_sequence_get (last_sequence t)) = 1 + length cs" using sample_facts[OF at] by simp_all
  obtain n where n: "event_sequence_checked_next (last_sequence t) = Ok n"
    using sequence_continues[of "last_sequence t"] seq len by auto
  have fresh: "low_identifier (of_nat (length cs + 2)) \<notin> (\<lambda>k. low_identifier (of_nat k)) ` {1..<length cs + 2}"
    unfolding image_iff bex_simps
  proof (intro ballI notI)
    fix k
    assume "k \<in> {1..<length cs + 2}" "low_identifier (of_nat (length cs + 2)) = low_identifier (of_nat k)"
    moreover have "length cs + 2 < 200" using len by linarith
    ultimately show False using low_fresh by blast
  qed
  have log: "log_valid t" using inv by (simp add: kernel_inv_def aggregate_is_valid_iff)
  have ids: "binding_contract_digest (kernel_binding t) = low_digest 1"
    "accepted_command_ids t = map (\<lambda>k. CommandId (low_identifier (of_nat k))) [1..<length cs + 2]"
    "event_ids t = map (\<lambda>k. EventId (low_identifier (of_nat k))) [1..<length cs + 2]"
    using at by (simp_all only: sample_at_def)
  have "admitted t (sample_next cs t) inputs n"
    unfolding admitted_def ids contract
  proof (intro conjI)
    show "aggregate_is_valid t" using inv by (simp add: kernel_inv_def)
    show "contract_id sample_contract = binding_contract_id (kernel_binding t)"
      using log rev by (simp add: log_valid_def sample_contract_def contract_revision_def)
    show "envelope_command_id (sample_next cs t)
        \<notin> set (map (\<lambda>k. CommandId (low_identifier (of_nat k))) [1..<length cs + 2])"
      "envelope_event_id (sample_next cs t)
        \<notin> set (map (\<lambda>k. EventId (low_identifier (of_nat k))) [1..<length cs + 2])"
      using fresh by (auto simp only: sample_envelope_def command_envelope.simps set_map set_upt image_iff
          command_id.inject event_id.inject)
  qed (use n rev in \<open>simp_all add: sample_envelope_def sample_contract_def contract_revision_def\<close>)
  then show ?thesis by blast
qed

lemma sample_extend:
  assumes "sample_reaches cs v" and "length cs < 100" and "inputs_contract inputs = sample_contract"
    and "lifecycle_step inputs contract_revision v c a v'"
  shows "sample_reaches (cs @ [(c, inputs)]) v'"
proof -
  from assms(1) obtain g h t where at: "sample_at cs g h t" "lifecycle_of t = v" unfolding sample_reaches_def by blast
  from sample_admits[OF at(1) assms(2,3)] obtain n where adm: "admitted t (sample_next cs t) inputs n" by blast
  have "keys_distinct t" using adm by (simp add: admitted_def aggregate_is_valid_iff)
  with apply_command_complete[of t inputs c a v'] assms(4) at(2) sample_facts[OF at(1)] obtain u where
    u: "apply_command t c inputs = Ok (u, a)" "lifecycle_of u = v'" by auto
  let ?t = "advance_cursor (sample_next cs t) n u"
  have "\<exists>tr. kernel_accepts t (sample_next cs t, c, inputs) ?t tr"
    using adm u by (auto simp: kernel_accepts_def reduce_Applied)
  then obtain tr where tr: "kernel_accepts t (sample_next cs t, c, inputs) ?t tr" by blast
  from tr have "kernel_binding ?t = kernel_binding t"
    "accepted_command_ids ?t = accepted_command_ids t @ [CommandId (low_identifier (of_nat (length cs + 2)))]"
    "event_ids ?t = event_ids t @ [EventId (low_identifier (of_nat (length cs + 2)))]"
    by (auto elim!: kernel_accepts_step simp: sample_envelope_def)
  with at(1) run_kernel_snoc[OF _ tr]
  have "sample_at (cs @ [(c, inputs)]) g (h @ [((sample_next cs t, c, inputs), transition_event tr)]) ?t"
    by (simp add: sample_at_def)
  moreover have "lifecycle_of ?t = v'" using u by simp
  ultimately show ?thesis unfolding sample_reaches_def by blast
qed

section \<open>Stages of one run\<close>

abbreviation sample_run_id :: run_id where "sample_run_id \<equiv> RunId (low_identifier 1)"
abbreviation sample_attempt_id :: attempt_id where "sample_attempt_id \<equiv> AttemptId (low_identifier 1)"
abbreviation sample_turn_id :: turn_id where "sample_turn_id \<equiv> TurnId (low_identifier 1)"
abbreviation sample_action_id :: action_id where "sample_action_id \<equiv> ActionId (low_identifier 1)"
abbreviation sample_review_id :: review_cycle_id where "sample_review_id \<equiv> ReviewCycleId (low_identifier 1)"

text \<open>One run with at most one attempt, turn, action and review cycle, each given by its phase.\<close>

definition sample_stage :: "run_phase \<Rightarrow> acceptance_phase \<Rightarrow> attempt_id option \<Rightarrow> attempt_phase option
     \<Rightarrow> turn_phase option \<Rightarrow> (action_phase \<times> authorization_witness option) option \<Rightarrow> review_phase option \<Rightarrow> lifecycle" where
  "sample_stage rp acc cur ap tp cp kp = sample_life
     \<lparr>life_runs := [sample_run_id \<mapsto> \<lparr>run_key = sample_run_id, run_revision = contract_revision,
        run_budget_id = BudgetId (low_identifier 1), run_budget_limits = BudgetLimits amounts_zero,
        run_phase = rp, run_acceptance = acc, run_current_attempt = cur\<rparr>],
      life_attempts := (\<lambda>i. if i = sample_attempt_id then map_option (\<lambda>p. \<lparr>attempt_key = sample_attempt_id,
        attempt_run = sample_run_id, attempt_budget_id = BudgetId (low_identifier 2),
        attempt_budget_limits = BudgetLimits amounts_zero, attempt_phase = p\<rparr>) ap else None),
      life_turns := (\<lambda>i. if i = sample_turn_id then map_option (\<lambda>p. \<lparr>turn_key = sample_turn_id,
        turn_attempt = sample_attempt_id, turn_phase = p\<rparr>) tp else None),
      life_actions := (\<lambda>i. if i = sample_action_id then map_option (\<lambda>p. \<lparr>action_key = sample_action_id,
        action_turn = sample_turn_id, action_digest = low_digest 2, action_actor = ActorId (low_identifier 1),
        action_role = Writer, action_environment = EnvironmentId (low_identifier 1), action_phase = fst p,
        action_authorization = snd p\<rparr>) cp else None),
      life_reviews := (\<lambda>i. if i = sample_review_id then map_option (\<lambda>p. \<lparr>review_key = sample_review_id,
        review_run = sample_run_id, review_attempt = sample_attempt_id, review_phase = p\<rparr>) kp else None)\<rparr>"

abbreviation sample_proposal :: kernel_command where
  "sample_proposal \<equiv> ProposeAction sample_turn_id sample_action_id (low_digest 2) (ActorId (low_identifier 1)) Writer
     (EnvironmentId (low_identifier 1))"

definition sample_witness :: authorization_witness where
  "sample_witness = witness_of sample_use"

lemma step_to: "lifecycle_step inputs cur v c a w \<Longrightarrow> w = v' \<Longrightarrow> lifecycle_step inputs cur v c a v'"
  by simp

lemmas stage_simps = sample_stage_def sample_life_def put_defs new_records sample_inputs_def sample_snapshot_def fun_eq_iff

lemma stage_reads [simp]:
  "session_phase (life_session (sample_stage rp acc cur ap tp cp kp)) = SessionOpen"
  "life_waivers (sample_stage rp acc cur ap tp cp kp) = Map.empty"
  by (simp_all add: sample_stage_def sample_life_def)

lemma sample_start_run:
  "lifecycle_step (sample_inputs e) contract_revision sample_life (StartRun sample_run_id)
     (applied_new RunStarted (RunSubject sample_run_id)) (sample_stage RunPending AcceptancePending None None None None None)"
  by (rule step_to, rule lifecycle_step.start_run[where b = "sample_snapshot 1 None"])
    (auto simp: stage_simps run_is_live_def root_budget_ok_def intro!: lifecycle.equality)

lemma sample_start_attempt:
  "lifecycle_step (sample_inputs e) contract_revision (sample_stage RunPending AcceptancePending None None None None None)
     (StartAttempt sample_run_id sample_attempt_id) (applied_new AttemptStarted (AttemptSubject sample_attempt_id))
     (sample_stage RunRunning AcceptancePending (Some sample_attempt_id) (Some AttemptActive) None None None)"
  by (rule step_to, rule lifecycle_step.start_attempt)
    (auto simp: stage_simps child_budget_ok_def fits_within_iff intro!: lifecycle.equality)

lemma sample_start_turn:
  "lifecycle_step (sample_inputs e) contract_revision
     (sample_stage RunRunning AcceptancePending cur (Some AttemptActive) None None None)
     (StartTurn sample_attempt_id sample_turn_id) (applied_new TurnStarted (TurnSubject sample_turn_id))
     (sample_stage RunRunning AcceptancePending cur (Some AttemptActive) (Some TurnActive) None None)"
  by (rule step_to, rule lifecycle_step.start_turn)
    (auto simp: stage_simps live_turn_under_def intro!: lifecycle.equality)

lemma sample_propose:
  "lifecycle_step (sample_inputs e) contract_revision (sample_stage rp acc cur ap (Some TurnActive) None kp)
     sample_proposal (applied_new ActionProposed (ActionSubject sample_action_id))
     (sample_stage rp acc cur ap (Some TurnActive) (Some (ActionIsProposed, None)) kp)"
  by (rule step_to, rule lifecycle_step.propose_action)
    (auto simp: stage_simps intro!: lifecycle.equality)

lemma sample_use_covers:
  "life_actions (sample_stage rp acc cur ap tp (Some cp) kp) sample_action_id = Some z \<Longrightarrow>
     use_covers contract_revision z sample_use"
  by (auto simp: sample_stage_def use_covers_def sample_use_def sample_scope_def sample_revisions)

lemma sample_authorize:
  "lifecycle_step (sample_inputs e) contract_revision (sample_stage rp acc cur ap tp (Some (ActionIsProposed, None)) kp)
     (AuthorizeAction sample_action_id) (applied_new ActionAuthorized (ActionSubject sample_action_id))
     (sample_stage rp acc cur ap tp (Some (ActionIsAuthorized, Some sample_witness)) kp)"
proof -
  let ?v = "sample_stage rp acc cur ap tp (Some (ActionIsProposed, None)) kp"
  obtain z where z: "life_actions ?v sample_action_id = Some z" "action_phase z = ActionIsProposed"
    by (simp add: sample_stage_def)
  show ?thesis
    by (rule step_to, rule lifecycle_step.authorize_action[OF z _ sample_use_covers[OF z(1)]])
      (use z in \<open>auto simp: stage_simps sample_witness_def intro!: lifecycle.equality\<close>)
qed

lemma sample_move_action:
  assumes "action_move c = Some (sample_action_id, sources, p, k)" and "q \<in> set sources"
  shows "lifecycle_step (sample_inputs e) contract_revision (sample_stage rp acc cur ap tp (Some (q, w)) kp)
     c (applied_new k (ActionSubject sample_action_id)) (sample_stage rp acc cur ap tp (Some (p, w)) kp)"
  by (rule step_to, rule lifecycle_step.move_action[OF assms(1)])
    (use assms(2) in \<open>auto simp: stage_simps intro!: lifecycle.equality\<close>)

lemma sample_complete_turn:
  assumes "action_terminal p"
  shows "lifecycle_step (sample_inputs e) contract_revision (sample_stage rp acc cur ap (Some TurnActive) (Some (p, w)) kp)
     (CompleteTurn sample_attempt_id sample_turn_id) (applied_new TurnCompleted (TurnSubject sample_turn_id))
     (sample_stage rp acc cur ap (Some TurnIsCompleted) (Some (p, w)) kp)"
  by (rule step_to, rule lifecycle_step.complete_turn)
    (use assms in \<open>auto simp: stage_simps live_action_under_def intro!: lifecycle.equality split: if_splits\<close>)

lemma sample_submit:
  "lifecycle_step (sample_inputs e) contract_revision
     (sample_stage RunRunning acc cur (Some AttemptActive) (Some TurnIsCompleted) cp kp)
     (SubmitAttempt sample_run_id sample_attempt_id) (applied_new AttemptSubmitted (AttemptSubject sample_attempt_id))
     (sample_stage RunReviewing AcceptancePending cur (Some AttemptIsSubmitted) (Some TurnIsCompleted) cp kp)"
  by (rule step_to, rule lifecycle_step.submit_attempt)
    (auto simp: stage_simps live_turn_under_def intro!: lifecycle.equality split: if_splits)

lemma sample_request_review:
  "lifecycle_step (sample_inputs e) contract_revision
     (sample_stage RunReviewing acc cur (Some AttemptIsSubmitted) tp cp None)
     (RequestReview sample_run_id sample_attempt_id sample_review_id)
     (applied_new ReviewRequested (ReviewSubject sample_review_id))
     (sample_stage RunReviewing acc cur (Some AttemptReviewing) tp cp (Some ReviewIsRequested))"
  by (rule step_to, rule lifecycle_step.request_review)
    (auto simp: stage_simps reviews_of_run_def sample_contract_def intro!: lifecycle.equality)

lemma sample_move_review:
  assumes "review_move c = Some (sample_review_id, sources, p, k)" and "q \<in> set sources"
  shows "lifecycle_step (sample_inputs e) contract_revision (sample_stage rp acc cur ap tp cp (Some q))
     c (applied_new k (ReviewSubject sample_review_id)) (sample_stage rp acc cur ap tp cp (Some p))"
  by (rule step_to, rule lifecycle_step.move_review[OF assms(1)])
    (use assms(2) in \<open>auto simp: stage_simps intro!: lifecycle.equality\<close>)

lemma sample_begin_acceptance:
  "lifecycle_step (sample_inputs e) contract_revision
     (sample_stage RunReviewing AcceptancePending (Some sample_attempt_id) (Some AttemptReviewing) tp cp (Some ReviewIsSubmitted))
     (BeginAcceptance sample_run_id) (applied_new AcceptanceBegun (AcceptanceOfRun sample_run_id))
     (sample_stage RunReviewing AcceptanceEvaluating (Some sample_attempt_id) (Some AttemptReviewing) tp cp (Some ReviewIsSubmitted))"
  by (rule step_to, rule lifecycle_step.begin_acceptance)
    (auto simp: stage_simps submitted_review_def intro!: lifecycle.equality)

lemma sample_projected:
  "evidence_projected contract_revision
     (sample_stage rp acc cur ap tp cp (Some ReviewIsSubmitted)) sample_run_id sample_attempt_id sample_evidence"
  by (simp add: evidence_projected_def sample_evidence_def sample_review_def submitted_review_def sample_stage_def)

lemma sample_decided: "is_acceptable (evaluate_acceptance sample_contract contract_revision sample_evidence)"
proof -
  have "\<forall>v\<in>set (evidence_reviews sample_evidence). review_ok v" using sample_review_ok by (simp add: sample_evidence_def)
  from evaluation_decides_acceptance[OF sample_evidence_ok this] sample_acceptable show ?thesis by simp
qed

lemma sample_accept_run:
  "lifecycle_step (sample_inputs (Some sample_evidence)) contract_revision
     (sample_stage RunReviewing AcceptanceEvaluating (Some sample_attempt_id) (Some AttemptReviewing) tp cp (Some ReviewIsSubmitted))
     (EvaluateAcceptance sample_run_id)
     (applied_acceptance AcceptanceAccepted (AcceptanceOfRun sample_run_id) OutcomeAccepted)
     (sample_stage RunIsAccepted AcceptanceIsAccepted None (Some AttemptAccepted) tp cp (Some ReviewIsSubmitted))"
  by (rule step_to, rule lifecycle_step.accept_run[OF _ _ _ _ _ _ _ sample_projected])
    (use sample_decided in \<open>auto simp: stage_simps intro!: lifecycle.equality\<close>)

definition no_evidence :: acceptance_evidence where
  "no_evidence = \<lparr>evidence_gates = [], evidence_reviews = [], evidence_observations = [], evidence_approvals = [],
     evidence_waivers = []\<rparr>"

lemma no_evidence_undecided: "\<not> is_acceptable (evaluate_acceptance sample_contract contract_revision no_evidence)"
proof -
  have "evidence_ok no_evidence" by (simp add: evidence_ok_def no_evidence_def)
  moreover have "\<not> acceptable sample_contract contract_revision no_evidence"
    by (simp add: acceptable_def sample_contract_def no_evidence_def sample_graph_def sample_gates_def
        sample_gate_def gate_passed_def)
  ultimately show ?thesis by (subst evaluation_decides_acceptance) (simp_all add: no_evidence_def)
qed

lemma sample_need_changes:
  "\<exists>n. lifecycle_step (sample_inputs (Some no_evidence)) contract_revision
     (sample_stage RunReviewing AcceptanceEvaluating (Some sample_attempt_id) (Some AttemptReviewing) tp cp (Some ReviewIsSubmitted))
     (EvaluateAcceptance sample_run_id)
     (applied_acceptance AcceptanceNeedsChanges (AcceptanceOfRun sample_run_id) (OutcomeNeedsChanges n))
     (sample_stage RunFixing NeedsChanges (Some sample_attempt_id) (Some AttemptFixing) tp cp (Some ReviewIsSubmitted))"
proof -
  have "evidence_projected contract_revision v i a no_evidence" for v i a
    by (simp add: evidence_projected_def no_evidence_def)
  with no_evidence_undecided show ?thesis
    by - (rule exI, rule step_to, rule lifecycle_step.need_changes[where e = no_evidence],
        auto simp: stage_simps intro!: lifecycle.equality)
qed

lemma sample_pause:
  assumes "rp = RunRunning \<or> rp = RunFixing"
  shows "lifecycle_step (sample_inputs e) contract_revision (sample_stage rp acc cur ap tp cp kp)
     (PauseRun sample_run_id) (applied_new RunPaused (RunSubject sample_run_id))
     (sample_stage RunIsPaused acc cur ap tp cp kp)"
  by (rule step_to, rule lifecycle_step.pause_run)
    (use assms in \<open>auto simp: stage_simps intro!: lifecycle.equality\<close>)

lemma sample_resume:
  "lifecycle_step (sample_inputs e) contract_revision (sample_stage RunIsPaused acc cur ap tp cp kp)
     (ResumeRun sample_run_id) (applied_new RunResumed (RunSubject sample_run_id))
     (sample_stage RunRunning acc cur ap tp cp kp)"
  by (rule step_to, rule lifecycle_step.resume_run)
    (auto simp: stage_simps intro!: lifecycle.equality)

section \<open>Executions\<close>

definition sample_dispatch_commands :: "(kernel_command \<times> reducer_inputs) list" where
  "sample_dispatch_commands = map (\<lambda>c. (c, sample_inputs None))
     [StartRun sample_run_id, StartAttempt sample_run_id sample_attempt_id, StartTurn sample_attempt_id sample_turn_id,
      sample_proposal, AuthorizeAction sample_action_id, DispatchAction sample_action_id]"

definition sample_review_commands :: "(kernel_command \<times> reducer_inputs) list" where
  "sample_review_commands = sample_dispatch_commands @ map (\<lambda>c. (c, sample_inputs None))
     [CompleteAction sample_action_id, CompleteTurn sample_attempt_id sample_turn_id,
      SubmitAttempt sample_run_id sample_attempt_id, RequestReview sample_run_id sample_attempt_id sample_review_id,
      BeginReview sample_review_id, SubmitReview sample_review_id, BeginAcceptance sample_run_id]"

abbreviation sample_running :: "turn_phase option \<Rightarrow> (action_phase \<times> authorization_witness option) option \<Rightarrow> lifecycle" where
  "sample_running tp cp \<equiv> sample_stage RunRunning AcceptancePending (Some sample_attempt_id) (Some AttemptActive) tp cp None"

abbreviation sample_reviewing :: "acceptance_phase \<Rightarrow> attempt_phase \<Rightarrow> review_phase option \<Rightarrow> lifecycle" where
  "sample_reviewing acc ap kp \<equiv> sample_stage RunReviewing acc (Some sample_attempt_id) (Some ap) (Some TurnIsCompleted)
     (Some (ActionSucceeded, Some sample_witness)) kp"

lemma sample_contract_of [simp]: "inputs_contract (sample_inputs e) = sample_contract"
  by (simp add: sample_inputs_def)

lemma sample_dispatched:
  "sample_reaches sample_dispatch_commands (sample_running (Some TurnActive) (Some (ActionIsDispatched, Some sample_witness)))"
proof -
  note 1 = sample_extend[OF sample_start _ _ sample_start_run[of None], simplified]
  note 2 = sample_extend[OF 1 _ _ sample_start_attempt[of None], simplified]
  note 3 = sample_extend[OF 2 _ _ sample_start_turn[of None], simplified]
  note 4 = sample_extend[OF 3 _ _ sample_propose[of None], simplified]
  note 5 = sample_extend[OF 4 _ _ sample_authorize[of None], simplified]
  have "action_move (DispatchAction sample_action_id)
      = Some (sample_action_id, [ActionIsAuthorized], ActionIsDispatched, ActionDispatched)" by simp
  note 6 = sample_extend[OF 5 _ _ sample_move_action[OF this, of ActionIsAuthorized None], simplified]
  then show ?thesis by (simp add: sample_dispatch_commands_def)
qed

lemma sample_under_review:
  "sample_reaches sample_review_commands (sample_reviewing AcceptanceEvaluating AttemptReviewing (Some ReviewIsSubmitted))"
proof -
  have a: "action_move (CompleteAction sample_action_id)
      = Some (sample_action_id, [ActionIsDispatched], ActionSucceeded, ActionCompleted)" by simp
  have k1: "review_move (BeginReview sample_review_id)
      = Some (sample_review_id, [ReviewIsRequested], ReviewActive, ReviewBegun)" by simp
  have k2: "review_move (SubmitReview sample_review_id)
      = Some (sample_review_id, [ReviewActive], ReviewIsSubmitted, ReviewSubmitted)" by simp
  have len: "length sample_dispatch_commands = 6" by (simp add: sample_dispatch_commands_def)
  have t: "action_terminal ActionSucceeded" by (simp add: action_terminal_def)
  note ext = sample_extend[where inputs = "sample_inputs None"]
  note 1 = ext[OF sample_dispatched _ _ sample_move_action[OF a, of ActionIsDispatched], simplified len, simplified]
  note 2 = ext[OF 1 _ _ sample_complete_turn[OF t], simplified len length_append, simplified]
  note 3 = ext[OF 2 _ _ sample_submit, simplified len length_append, simplified]
  note 4 = ext[OF 3 _ _ sample_request_review, simplified len length_append, simplified]
  note 5 = ext[OF 4 _ _ sample_move_review[OF k1, of ReviewIsRequested], simplified len length_append, simplified]
  note 6 = ext[OF 5 _ _ sample_move_review[OF k2, of ReviewActive], simplified len length_append, simplified]
  note 7 = ext[OF 6 _ _ sample_begin_acceptance, simplified len length_append, simplified]
  then show ?thesis by (simp add: sample_review_commands_def)
qed

lemma sample_review_length: "length sample_review_commands < 50"
  by (simp add: sample_review_commands_def sample_dispatch_commands_def)

lemma sample_accepted:
  "sample_reaches (sample_review_commands @ [(EvaluateAcceptance sample_run_id, sample_inputs (Some sample_evidence))])
     (sample_stage RunIsAccepted AcceptanceIsAccepted None (Some AttemptAccepted) (Some TurnIsCompleted)
       (Some (ActionSucceeded, Some sample_witness)) (Some ReviewIsSubmitted))"
  using sample_review_length by (intro sample_extend[OF sample_under_review _ _ sample_accept_run]) simp_all

lemma sample_resumed:
  "sample_reaches (sample_review_commands @ [(EvaluateAcceptance sample_run_id, sample_inputs (Some no_evidence)),
       (PauseRun sample_run_id, sample_inputs None), (ResumeRun sample_run_id, sample_inputs None)])
     (sample_stage RunRunning NeedsChanges (Some sample_attempt_id) (Some AttemptFixing) (Some TurnIsCompleted)
       (Some (ActionSucceeded, Some sample_witness)) (Some ReviewIsSubmitted))"
proof -
  obtain n where "lifecycle_step (sample_inputs (Some no_evidence)) contract_revision
      (sample_reviewing AcceptanceEvaluating AttemptReviewing (Some ReviewIsSubmitted))
      (EvaluateAcceptance sample_run_id)
      (applied_acceptance AcceptanceNeedsChanges (AcceptanceOfRun sample_run_id) (OutcomeNeedsChanges n))
      (sample_stage RunFixing NeedsChanges (Some sample_attempt_id) (Some AttemptFixing) (Some TurnIsCompleted)
        (Some (ActionSucceeded, Some sample_witness)) (Some ReviewIsSubmitted))"
    using sample_need_changes by blast
  from sample_extend[OF sample_under_review _ _ this] sample_review_length
  have 1: "sample_reaches (sample_review_commands @ [(EvaluateAcceptance sample_run_id, sample_inputs (Some no_evidence))])
      (sample_stage RunFixing NeedsChanges (Some sample_attempt_id) (Some AttemptFixing) (Some TurnIsCompleted)
        (Some (ActionSucceeded, Some sample_witness)) (Some ReviewIsSubmitted))" by simp
  have fixing: "RunFixing = RunRunning \<or> RunFixing = RunFixing" by simp
  note 2 = sample_extend[OF 1 _ _ sample_pause[OF fixing, of None]]
  note 3 = sample_extend[OF 2 _ _ sample_resume[of None]]
  from 3 sample_review_length show ?thesis by simp
qed

end
