(* ===== verification/Kernel_Properties.thy ===== *)
theory Kernel_Properties
  imports Kernel_Examples
begin

text \<open>
  What is shown of \<open>peritus-kernel\<close>: the reducer implements the lifecycle machine and refuses only for
  the reasons of its checks; the invariant, the history and the direction of every execution; where
  an acceptance comes from; and that a live run can always be ended.
\<close>

section \<open>The reducer and the lifecycle machine\<close>

text \<open>
  C3. The reducer applies a command exactly when the envelope, the contract and the inputs are
  admitted and the lifecycle machine has a step for the command; the event, the outcome and the
  successor it returns are the ones of that step.
\<close>
theorem reducer_is_lifecycle_machine:
  "(\<exists>tr. reduce s envelope c inputs = Applied tr
      \<and> transition_event tr = event_of s envelope n a \<and> transition_outcome tr = applied_outcome a
      \<and> lifecycle_of (transition_aggregate tr) = v')
   \<longleftrightarrow> admitted s envelope inputs n \<and> lifecycle_step inputs (kernel_revision s) (lifecycle_of s) c a v'"
  (is "?lhs \<longleftrightarrow> ?rhs")
proof
  assume ?lhs
  then obtain tr where tr: "kernel_accepts s (envelope, c, inputs) (transition_aggregate tr) tr"
    "transition_event tr = event_of s envelope n a" "transition_outcome tr = applied_outcome a"
    "lifecycle_of (transition_aggregate tr) = v'" by (auto simp: kernel_accepts_def)
  from tr(1) obtain m b where st: "admitted s envelope inputs m" "transition_event tr = event_of s envelope m b"
    "transition_outcome tr = applied_outcome b"
    "lifecycle_step inputs (kernel_revision s) (lifecycle_of s) c b (lifecycle_of (transition_aggregate tr))"
    by (rule kernel_accepts_step)
  then have "m = n" "b = a" using tr(2,3) by (auto simp: event_of_def intro: applied_command.equality)
  with st tr(4) show ?rhs by simp
next
  assume r: ?rhs
  then have "keys_distinct s" by (simp add: admitted_def aggregate_is_valid_iff)
  with r apply_command_complete obtain t where "apply_command s c inputs = Ok (t, a)" "lifecycle_of t = v'" by blast
  with r show ?lhs by (auto simp: reduce_Applied)
qed

text \<open>
  C34. A refusal returns the aggregate unchanged, with the error of the preflight checks or, when they
  pass, of the command's own guards: the validation, the audit of critical steps and the check for
  unexplained acceptances that run on the successor never refuse, and so a command whose guards hold
  is applied.
\<close>
theorem refusals_come_from_the_guards:
  "case reduce s envelope c inputs of
     Rejected s' e \<Rightarrow> s' = s \<and> (case preflight s envelope inputs of
         Inl e' \<Rightarrow> e = e' | Inr n \<Rightarrow> apply_command s c inputs = Err e)
   | Applied tr \<Rightarrow> (case preflight s envelope inputs of
         Inl e \<Rightarrow> False
       | Inr n \<Rightarrow> (\<exists>t a. apply_command s c inputs = Ok (t, a) \<and> transition_aggregate tr = advance_cursor envelope n t
           \<and> transition_event tr = event_of s envelope n a \<and> transition_outcome tr = applied_outcome a))"
  unfolding reduce_eq by (auto split: sum.splits)

section \<open>Every execution\<close>

text \<open>
  C8. Every aggregate an execution leads to from an opening is structurally valid and keeps the
  lifecycle invariant: runs and attempts are in matching phases and only the current attempt is live,
  live turns are below an active attempt and at most one per attempt, live actions below an active
  turn, actions beyond the proposal carry a witness, at most one run is live, and none in a closed
  session.
\<close>
theorem executions_keep_the_lifecycle:
  assumes "kernel_open project session contract cur envelope = Ok g"
    and "run_kernel (genesis_aggregate g) qs = (h, t)"
  shows "aggregate_is_valid t \<and> lifecycle_inv (lifecycle_of t)"
proof -
  have "kernel_inv t" using run_kernel_inv[OF assms(2)] kernel_open_Ok[OF assms(1)] by simp
  then show ?thesis by (simp add: kernel_inv_def)
qed

theorem executions_keep_the_lifecycle_witness:
  "\<exists>g h t. sample_opening = Ok g \<and> run_kernel (genesis_aggregate g) (map fst h) = (h, t) \<and> length h = 6
     \<and> aggregate_is_valid t \<and> lifecycle_inv (lifecycle_of t)"
proof -
  obtain g h t where t: "sample_at sample_dispatch_commands g h t"
    using sample_dispatched unfolding sample_reaches_def by blast
  then have run: "sample_opening = Ok g" "run_kernel (genesis_aggregate g) (map fst h) = (h, t)"
    by (simp_all add: sample_at_def)
  have "length (map (\<lambda>x. snd (fst x)) h) = 6" using t by (simp add: sample_at_def sample_dispatch_commands_def)
  with run executions_keep_the_lifecycle[OF run(1)[unfolded sample_opening_def] run(2)] show ?thesis by auto
qed

text \<open>
  C5. Whenever a run is accepted, exactly such an evaluation is in the history: at the aggregate of
  that time the run and its current attempt were under review, every review of the evidence was a
  submitted cycle of that attempt and every waiver a granted one of that run, at the current
  revision, under the bound contract, and the evidence, where well-formed, fulfils the contract.
\<close>
theorem acceptance_rests_on_an_evaluation:
  assumes opened: "kernel_open project session contract cur envelope = Ok g"
    and run: "run_kernel (genesis_aggregate g) qs = (h, t)"
    and r: "life_runs (lifecycle_of t) i = Some r" "run_phase r = RunIsAccepted"
  shows "\<exists>before q inputs event after u e. h = before @ ((q, EvaluateAcceptance i, inputs), event) # after
    \<and> run_kernel (genesis_aggregate g) (map fst before) = (before, u) \<and> accepting_evidence u i inputs e
    \<and> (evidence_ok e \<and> (\<forall>x\<in>set (evidence_reviews e). review_ok x) \<longrightarrow> acceptable (inputs_contract inputs) cur e)"
proof -
  note o' = kernel_open_Ok[OF opened]
  from run_kernel_accepted[OF run] o' r have "accepted_at (genesis_aggregate g) h i" by simp
  then obtain before q inputs event after u e where at:
    "h = before @ ((q, EvaluateAcceptance i, inputs), event) # after"
    "run_kernel (genesis_aggregate g) (map fst before) = (before, u)" "accepting_evidence u i inputs e"
    unfolding accepted_at_def by blast
  have "kernel_revision u = cur" using run_kernel_grows[OF at(2)] o' by (simp add: kernel_grows_def)
  with at(3) have "is_acceptable (evaluate_acceptance (inputs_contract inputs) cur e)"
    by (simp add: accepting_evidence_def)
  then have "evidence_ok e \<and> (\<forall>x\<in>set (evidence_reviews e). review_ok x) \<longrightarrow> acceptable (inputs_contract inputs) cur e"
    using evaluation_decides_acceptance by blast
  with at show ?thesis by blast
qed

theorem acceptance_rests_on_an_evaluation_witness:
  "\<exists>g h t r before q inputs event after u e. sample_opening = Ok g
     \<and> run_kernel (genesis_aggregate g) (map fst h) = (h, t)
     \<and> life_runs (lifecycle_of t) sample_run_id = Some r \<and> run_phase r = RunIsAccepted
     \<and> h = before @ ((q, EvaluateAcceptance sample_run_id, inputs), event) # after
     \<and> run_kernel (genesis_aggregate g) (map fst before) = (before, u)
     \<and> accepting_evidence u sample_run_id inputs e"
proof -
  from sample_accepted obtain g h t where at: "sample_opening = Ok g"
    "run_kernel (genesis_aggregate g) (map fst h) = (h, t)"
    "lifecycle_of t = sample_stage RunIsAccepted AcceptanceIsAccepted None (Some AttemptAccepted) (Some TurnIsCompleted)
       (Some (ActionSucceeded, Some sample_witness)) (Some ReviewIsSubmitted)"
    unfolding sample_reaches_def sample_at_def by blast
  obtain r where r: "life_runs (lifecycle_of t) sample_run_id = Some r" "run_phase r = RunIsAccepted"
    by (simp add: at(3) sample_stage_def)
  from acceptance_rests_on_an_evaluation[OF at(1)[unfolded sample_opening_def] at(2) r] at(1,2) r show ?thesis
    by blast
qed

text \<open>
  C16. The history of an execution is one chain: no command identifier and no event identifier is
  accepted twice, the opening included; the events carry the consecutive sequence numbers from two on;
  and each names its predecessor, the first one the opening event.
\<close>
theorem history_is_one_chain:
  assumes "kernel_open project session contract cur envelope = Ok g"
    and "run_kernel (genesis_aggregate g) qs = (h, t)"
  shows "distinct (envelope_command_id envelope # map (\<lambda>x. event_command_id (snd x)) h)
    \<and> distinct (envelope_event_id envelope # map (\<lambda>x. kernel_event_id (snd x)) h)
    \<and> (\<forall>k<length h. unat (event_sequence_get (event_sequence (snd (h ! k)))) = k + 2
         \<and> previous_event_id (snd (h ! k))
             = Some (if k = 0 then envelope_event_id envelope else kernel_event_id (snd (h ! (k - 1))))
         \<and> event_command_id (snd (h ! k)) = envelope_command_id (fst (fst (h ! k))))"
proof -
  note o' = kernel_open_Ok[OF assms(1)]
  have "kernel_inv (genesis_aggregate g)" using o' by blast
  from run_kernel_inv[OF assms(2) this] have "log_valid t" by (simp add: kernel_inv_def aggregate_is_valid_iff)
  have first: "accepted_command_ids (genesis_aggregate g) = [envelope_command_id envelope]"
    "event_ids (genesis_aggregate g) = [envelope_event_id envelope]"
    "head_event_id (genesis_aggregate g) = envelope_event_id envelope"
    "unat (event_sequence_get (last_sequence (genesis_aggregate g))) = 1"
    using o' by (simp_all add: event_sequence_first_def event_sequence_get_def)
  have cmds: "map (\<lambda>x. event_command_id (snd x)) h = map (\<lambda>x. envelope_command_id (fst (fst x))) h"
    and all: "accepted_command_ids t = accepted_command_ids (genesis_aggregate g)
        @ map (\<lambda>x. envelope_command_id (fst (fst x))) h"
    "event_ids t = event_ids (genesis_aggregate g) @ map (\<lambda>x. kernel_event_id (snd x)) h"
    and links: "event_chain (genesis_aggregate g) (map snd h)"
    using run_kernel_chained[OF assms(2)] by (simp_all only: chained_def)
  have "distinct (envelope_command_id envelope # map (\<lambda>x. event_command_id (snd x)) h)"
    "distinct (envelope_event_id envelope # map (\<lambda>x. kernel_event_id (snd x)) h)"
    using \<open>log_valid t\<close> unfolding log_valid_def all first cmds by simp_all
  moreover have "event_command_id (snd (h ! k)) = envelope_command_id (fst (fst (h ! k)))" if "k < length h" for k
    using cmds that by (simp add: list_eq_iff_nth_eq)
  moreover have "unat (event_sequence_get (event_sequence (snd (h ! k)))) = k + 2
      \<and> previous_event_id (snd (h ! k))
          = Some (if k = 0 then envelope_event_id envelope else kernel_event_id (snd (h ! (k - 1))))"
    if "k < length h" for k
    using links that unfolding event_chain_def first by (cases k) auto
  ultimately show ?thesis by blast
qed

theorem history_is_one_chain_witness:
  "\<exists>g h t. sample_opening = Ok g \<and> run_kernel (genesis_aggregate g) (map fst h) = (h, t) \<and> length h = 6
     \<and> distinct (map (\<lambda>x. kernel_event_id (snd x)) h)
     \<and> previous_event_id (snd (h ! 5)) = Some (kernel_event_id (snd (h ! 4)))"
proof -
  obtain g h t where t: "sample_at sample_dispatch_commands g h t"
    using sample_dispatched unfolding sample_reaches_def by blast
  then have run: "sample_opening = Ok g" "run_kernel (genesis_aggregate g) (map fst h) = (h, t)"
    by (simp_all add: sample_at_def)
  have "length (map (\<lambda>x. snd (fst x)) h) = 6" using t by (simp add: sample_at_def sample_dispatch_commands_def)
  then have "length h = 6" by simp
  moreover note chain = history_is_one_chain[OF run(1)[unfolded sample_opening_def] run(2)]
  have "distinct (map (\<lambda>x. kernel_event_id (snd x)) h)" using chain by simp
  moreover have "previous_event_id (snd (h ! 5)) = Some (kernel_event_id (snd (h ! 4)))"
    using chain[THEN conjunct2, THEN conjunct2, THEN spec, of 5] \<open>length h = 6\<close> by simp
  ultimately show ?thesis using run by blast
qed

section \<open>Direction and ending\<close>

lemma survives_ended:
  "survives Q life life' \<Longrightarrow> life k = Some x \<Longrightarrow> P x \<Longrightarrow> (\<And>x'. P x \<Longrightarrow> Q x x' \<Longrightarrow> x' = x) \<Longrightarrow> life' k = Some x"
  unfolding survives_def by blast

text \<open>
  C35. Executions only move forward: no run, attempt, turn, action, review or waiver disappears, a run
  keeps the revision and the budget it was started with and an action what was proposed, and every
  record moves along the edges of its phase diagram. A closed session stays closed; a run, attempt,
  turn or action in a terminal phase stays there, an action with the authorization it had. The
  terminal phases of reviews and waivers are not all final: a submitted review and a granted or
  denied waiver either stay as they are or become invalidated, and what is invalidated stays so.
\<close>
theorem executions_only_move_forward:
  assumes "kernel_inv s" and "run_kernel s qs = (h, t)"
  shows "lifecycle_grows (lifecycle_of s) (lifecycle_of t)
    \<and> (\<forall>i r. life_runs (lifecycle_of s) i = Some r \<longrightarrow> (\<exists>r'. life_runs (lifecycle_of t) i = Some r'
         \<and> run_revision r' = run_revision r \<and> run_budget_id r' = run_budget_id r \<and> run_budget_limits r' = run_budget_limits r
         \<and> (run_terminal (run_phase r) \<longrightarrow> run_phase r' = run_phase r)))
    \<and> (\<forall>a x. life_attempts (lifecycle_of s) a = Some x \<longrightarrow> attempt_terminal (attempt_phase x)
         \<longrightarrow> life_attempts (lifecycle_of t) a = Some x)
    \<and> (\<forall>k y. life_turns (lifecycle_of s) k = Some y \<longrightarrow> turn_terminal (turn_phase y)
         \<longrightarrow> life_turns (lifecycle_of t) k = Some y)
    \<and> (\<forall>c z. life_actions (lifecycle_of s) c = Some z \<longrightarrow> action_terminal (action_phase z)
         \<longrightarrow> life_actions (lifecycle_of t) c = Some z)
    \<and> (\<forall>k y. life_reviews (lifecycle_of s) k = Some y \<longrightarrow> review_terminal (review_phase y)
         \<longrightarrow> life_reviews (lifecycle_of t) k \<in> {Some y, Some (y\<lparr>review_phase := ReviewIsInvalidated\<rparr>)})
    \<and> (\<forall>f w. life_waivers (lifecycle_of s) f = Some w \<longrightarrow> waiver_terminal (waiver_phase w)
         \<longrightarrow> life_waivers (lifecycle_of t) f \<in> {Some w, Some (w\<lparr>waiver_phase := WaiverIsInvalidated\<rparr>)})
    \<and> (session_terminal (session_phase (life_session (lifecycle_of s)))
         \<longrightarrow> session_terminal (session_phase (life_session (lifecycle_of t))))"
proof -
  have grows: "lifecycle_grows (lifecycle_of s) (lifecycle_of t)"
    using run_kernel_grows[OF assms(2,1)] by (simp add: kernel_grows_def)
  have kept: "run_revision r' = run_revision r \<and> run_budget_id r' = run_budget_id r \<and> run_budget_limits r' = run_budget_limits r"
    if "run_moves\<^sup>*\<^sup>* r r'" for r r' using that by (induction rule: rtranclp_induct) (auto simp: run_moves_def)
  have tables: "survives attempt_moves\<^sup>*\<^sup>* (life_attempts (lifecycle_of s)) (life_attempts (lifecycle_of t))"
    "survives turn_moves\<^sup>*\<^sup>* (life_turns (lifecycle_of s)) (life_turns (lifecycle_of t))"
    "survives action_moves\<^sup>*\<^sup>* (life_actions (lifecycle_of s)) (life_actions (lifecycle_of t))"
    "survives review_moves\<^sup>*\<^sup>* (life_reviews (lifecycle_of s)) (life_reviews (lifecycle_of t))"
    "survives waiver_moves\<^sup>*\<^sup>* (life_waivers (lifecycle_of s)) (life_waivers (lifecycle_of t))"
    using grows by (simp_all only: lifecycle_grows_def)
  show ?thesis
  proof (intro conjI allI impI)
    fix i r
    assume "life_runs (lifecycle_of s) i = Some r"
    with grows obtain r' where r': "life_runs (lifecycle_of t) i = Some r'" "run_moves\<^sup>*\<^sup>* r r'"
      unfolding lifecycle_grows_def survives_def by blast
    with kept[OF r'(2)] terminal_stays(1)[OF _ r'(2)] show "\<exists>r'. life_runs (lifecycle_of t) i = Some r'
         \<and> run_revision r' = run_revision r \<and> run_budget_id r' = run_budget_id r \<and> run_budget_limits r' = run_budget_limits r
         \<and> (run_terminal (run_phase r) \<longrightarrow> run_phase r' = run_phase r)" by blast
  next
    show "life_attempts (lifecycle_of t) a = Some x"
      if "life_attempts (lifecycle_of s) a = Some x" "attempt_terminal (attempt_phase x)" for a x
      by (rule survives_ended[where P = "\<lambda>x. attempt_terminal (attempt_phase x)", OF tables(1) that terminal_stays(2)])
    show "life_turns (lifecycle_of t) k = Some y"
      if "life_turns (lifecycle_of s) k = Some y" "turn_terminal (turn_phase y)" for k y
      by (rule survives_ended[where P = "\<lambda>x. turn_terminal (turn_phase x)", OF tables(2) that terminal_stays(3)])
    show "life_actions (lifecycle_of t) c = Some z"
      if "life_actions (lifecycle_of s) c = Some z" "action_terminal (action_phase z)" for c z
      by (rule survives_ended[where P = "\<lambda>x. action_terminal (action_phase x)", OF tables(3) that terminal_stays(4)])
    show "life_reviews (lifecycle_of t) k \<in> {Some y, Some (y\<lparr>review_phase := ReviewIsInvalidated\<rparr>)}"
      if "life_reviews (lifecycle_of s) k = Some y" "review_terminal (review_phase y)" for k y
      using tables(4) that withdrawn_stays(1) unfolding survives_def by fastforce
    show "life_waivers (lifecycle_of t) f \<in> {Some w, Some (w\<lparr>waiver_phase := WaiverIsInvalidated\<rparr>)}"
      if "life_waivers (lifecycle_of s) f = Some w" "waiver_terminal (waiver_phase w)" for f w
      using tables(5) that withdrawn_stays(2) unfolding survives_def by fastforce
    show "session_terminal (session_phase (life_session (lifecycle_of t)))"
      if "session_terminal (session_phase (life_session (lifecycle_of s)))"
      using grows that by (auto simp: lifecycle_grows_def session_edge_def session_terminal_def)
  qed (rule grows)
qed

theorem executions_only_move_forward_witness:
  "\<exists>s r. kernel_inv s \<and> life_runs (lifecycle_of s) sample_run_id = Some r \<and> run_phase r = RunIsAccepted
     \<and> (\<forall>qs. \<exists>r'. life_runs (lifecycle_of (snd (run_kernel s qs))) sample_run_id = Some r' \<and> run_phase r' = RunIsAccepted)"
proof -
  from sample_accepted obtain g h s where at: "sample_at (sample_review_commands
        @ [(EvaluateAcceptance sample_run_id, sample_inputs (Some sample_evidence))]) g h s"
    "lifecycle_of s = sample_stage RunIsAccepted AcceptanceIsAccepted None (Some AttemptAccepted) (Some TurnIsCompleted)
       (Some (ActionSucceeded, Some sample_witness)) (Some ReviewIsSubmitted)"
    unfolding sample_reaches_def by blast
  obtain r where r: "life_runs (lifecycle_of s) sample_run_id = Some r" "run_phase r = RunIsAccepted"
    by (simp add: at(2) sample_stage_def)
  have inv: "kernel_inv s" using sample_facts[OF at(1)] by simp
  have "\<exists>r'. life_runs (lifecycle_of (snd (run_kernel s qs))) sample_run_id = Some r' \<and> run_phase r' = RunIsAccepted" for qs
  proof -
    obtain h' t where run: "run_kernel s qs = (h', t)" by (cases "run_kernel s qs")
    from executions_only_move_forward[OF inv run, THEN conjunct2, THEN conjunct1, rule_format, OF r(1)] r(2) show ?thesis
      unfolding run by auto
  qed
  with inv r show ?thesis by blast
qed

text \<open>
  C15. A live run can always be ended. In an aggregate that keeps the invariant, once the envelope passes
  the preflight, each of the commands that cancel, fail, exhaust or reject a live run is applied, in
  whatever phase the run, its attempt, turns and actions are; the run is then in the terminal phase
  the command names, and nothing below it is live.
\<close>
theorem live_runs_can_be_ended:
  assumes "kernel_inv s" and "preflight s envelope inputs = Ok n"
    and "life_runs (lifecycle_of s) i = Some r" and "\<not> run_terminal (run_phase r)"
    and "(c, p) \<in> {(CancelRun i, RunIsCancelled), (FailRun i, RunHasFailed), (ExhaustRun i, RunIsExhausted),
           (RejectRun i, RunIsRejected)}"
  shows "\<exists>tr r'. reduce s envelope c inputs = Applied tr
    \<and> life_runs (lifecycle_of (transition_aggregate tr)) i = Some r' \<and> run_phase r' = p
    \<and> quiet_run (lifecycle_of (transition_aggregate tr)) i"
proof -
  from assms(5) obtain ap tp cp k where e: "run_end c = Some (i, p, ap, tp, cp, k)" by auto
  from live_run_can_end[OF assms(2)[unfolded preflight_Ok] assms(3,4) e] obtain s' tr r' where
    acc: "kernel_accepts s (envelope, c, inputs) s' tr" "life_runs (lifecycle_of s') i = Some r'" "run_phase r' = p" by blast
  have "lifecycle_inv (lifecycle_of s')" using accepted_inv[OF assms(1) acc(1)] by (simp add: kernel_inv_def)
  from terminal_run_quiet[OF this acc(2)] run_end_terminal[OF e] acc(1-3) show ?thesis
    by (auto simp: kernel_accepts_def simp del: life_simps)
qed

theorem live_runs_can_be_ended_witness:
  "\<exists>s envelope tr z. kernel_inv s \<and> life_actions (lifecycle_of s) sample_action_id = Some z
     \<and> action_phase z = ActionIsDispatched
     \<and> reduce s envelope (CancelRun sample_run_id) (sample_inputs None) = Applied tr
     \<and> quiet_run (lifecycle_of (transition_aggregate tr)) sample_run_id"
proof -
  obtain g h s where at: "sample_at sample_dispatch_commands g h s"
    "lifecycle_of s = sample_running (Some TurnActive) (Some (ActionIsDispatched, Some sample_witness))"
    using sample_dispatched unfolding sample_reaches_def by blast
  have "length sample_dispatch_commands < 100" by (simp add: sample_dispatch_commands_def)
  from sample_admits[OF at(1) this sample_contract_of[of None]] obtain n where
    n: "preflight s (sample_next sample_dispatch_commands s) (sample_inputs None) = Ok n" by (auto simp: preflight_Ok)
  obtain r z where r: "life_runs (lifecycle_of s) sample_run_id = Some r" "run_phase r = RunRunning"
    "life_actions (lifecycle_of s) sample_action_id = Some z" "action_phase z = ActionIsDispatched"
    by (simp add: at(2) sample_stage_def)
  have inv: "kernel_inv s" using sample_facts[OF at(1)] by simp
  have live: "\<not> run_terminal (run_phase r)" by (simp add: r(2))
  from live_runs_can_be_ended[OF inv n r(1) live, of "CancelRun sample_run_id" RunIsCancelled] inv r(3,4)
  show ?thesis by blast
qed

end
