(* ===== verification/Kernel_Findings.thy ===== *)
theory Kernel_Findings
  imports Kernel_Properties
begin

text \<open>
  Two behaviours of \<open>peritus-kernel\<close> that its phase diagrams do not suggest, each shown reachable: a
  run paused while its attempt is being fixed resumes into a phase its attempt cannot leave, and
  ending an attempt makes a paused run of a paused session run again.
\<close>

section \<open>A stranded attempt\<close>

definition stranded :: "lifecycle \<Rightarrow> run_id \<Rightarrow> attempt_id \<Rightarrow> bool" where
  "stranded v i a \<longleftrightarrow> (\<exists>r x. life_runs v i = Some r \<and> (run_phase r = RunRunning \<or> run_phase r = RunIsPaused)
     \<and> run_current_attempt r = Some a \<and> life_attempts v a = Some x \<and> attempt_run x = i \<and> attempt_phase x = AttemptFixing)"

lemma step_stranded:
  assumes "lifecycle_step inputs cur v c p v'" and "lifecycle_inv v" and "stranded v i a"
    and "run_end c = None" and "attempt_end c = None"
  shows "stranded v' i a"
proof -
  from assms(3) obtain r x where s: "life_runs v i = Some r" "run_phase r = RunRunning \<or> run_phase r = RunIsPaused"
    "run_current_attempt r = Some a" "life_attempts v a = Some x" "attempt_run x = i" "attempt_phase x = AttemptFixing"
    unfolding stranded_def by blast
  have "keyed v" "runs_match v" using assms(2) by (simp_all add: lifecycle_inv_def)
  note keys = keyedD(1,2)[OF \<open>keyed v\<close>]
  have current: "attempt_terminal (attempt_phase y)" if "life_attempts v b = Some y" "attempt_run y = i" "b \<noteq> a" for b y
    using runs_matchD[OF \<open>runs_match v\<close> s(1)] s(3) that by (auto simp: run_matches_def attempts_under_def)
  from assms(1) show ?thesis
    by cases (use s keys assms(4,5) in \<open>auto simp: stranded_def new_records stop_updates dest: current\<close>)
qed

definition ends_nothing :: "kernel_request list \<Rightarrow> bool" where
  "ends_nothing qs \<longleftrightarrow> list_all (\<lambda>q. run_end (fst (snd q)) = None \<and> attempt_end (fst (snd q)) = None) qs"

lemma run_stranded:
  "kernel_inv s \<Longrightarrow> stranded (lifecycle_of s) i a \<Longrightarrow> ends_nothing qs \<Longrightarrow>
     stranded (lifecycle_of (snd (run_kernel s qs))) i a"
proof (induction qs arbitrary: s)
  case (Cons q qs)
  obtain envelope c inputs where q: "q = (envelope, c, inputs)" by (cases q)
  have c: "run_end c = None" "attempt_end c = None" "ends_nothing qs" using Cons.prems(3) by (simp_all add: ends_nothing_def q)
  show ?case
  proof (cases "reduce s envelope c inputs")
    case (Applied tr)
    then have acc: "kernel_accepts s (envelope, c, inputs) (transition_aggregate tr) tr" by (simp add: kernel_accepts_def)
    then obtain b where step:
      "lifecycle_step inputs (kernel_revision s) (lifecycle_of s) c b (lifecycle_of (transition_aggregate tr))"
      by (rule kernel_accepts_step)
    have "lifecycle_inv (lifecycle_of s)" using Cons.prems(1) by (simp add: kernel_inv_def)
    from Cons.IH[OF accepted_inv[OF Cons.prems(1) acc] step_stranded[OF step this Cons.prems(2) c(1,2)] c(3)]
    show ?thesis by (simp add: q Applied split_beta Let_def)
  next
    case (Rejected s' e)
    then have "s' = s" by (simp add: reduce_Rejected)
    with Cons.IH[OF Cons.prems(1,2) c(3)] Rejected show ?thesis by (simp add: q)
  qed
qed simp

text \<open>
  The sample run needs changes, is paused and resumed; from then on its attempt stays in the phase for
  fixing, whatever is submitted, until a command ends the attempt or the run: it can neither be
  resumed nor submitted nor given a turn.
\<close>
theorem pausing_a_fix_strands_the_attempt:
  "\<exists>g h s. sample_at (sample_review_commands @ [(EvaluateAcceptance sample_run_id, sample_inputs (Some no_evidence)),
       (PauseRun sample_run_id, sample_inputs None), (ResumeRun sample_run_id, sample_inputs None)]) g h s
     \<and> (\<forall>qs. ends_nothing qs \<longrightarrow> stranded (lifecycle_of (snd (run_kernel s qs))) sample_run_id sample_attempt_id)"
proof -
  from sample_resumed obtain g h s where at: "sample_at (sample_review_commands
        @ [(EvaluateAcceptance sample_run_id, sample_inputs (Some no_evidence)),
           (PauseRun sample_run_id, sample_inputs None), (ResumeRun sample_run_id, sample_inputs None)]) g h s"
    "lifecycle_of s = sample_stage RunRunning NeedsChanges (Some sample_attempt_id) (Some AttemptFixing)
       (Some TurnIsCompleted) (Some (ActionSucceeded, Some sample_witness)) (Some ReviewIsSubmitted)"
    unfolding sample_reaches_def by blast
  have "kernel_inv s" using sample_facts[OF at(1)] by simp
  moreover have "stranded (lifecycle_of s) sample_run_id sample_attempt_id"
    unfolding at(2) by (simp add: stranded_def sample_stage_def)
  ultimately show ?thesis using at(1) run_stranded by blast
qed

section \<open>A run that runs in a paused session\<close>

text \<open>
  A session pauses only when no run is running; but failing the attempt of its paused run then sets
  the run to running while the session stays paused.
\<close>
theorem failing_an_attempt_unpauses_its_run:
  "\<exists>v r. sample_reaches (map (\<lambda>c. (c, sample_inputs None)) [StartRun sample_run_id,
       StartAttempt sample_run_id sample_attempt_id, PauseRun sample_run_id, PauseSession,
       FailAttempt sample_run_id sample_attempt_id]) v
     \<and> session_phase (life_session v) = SessionIsPaused
     \<and> life_runs v sample_run_id = Some r \<and> run_phase r = RunRunning"
proof -
  let ?p = "sample_stage RunIsPaused AcceptancePending (Some sample_attempt_id) (Some AttemptActive) None None None"
  note 1 = sample_extend[OF sample_start _ _ sample_start_run[of None], simplified]
  note 2 = sample_extend[OF 1 _ _ sample_start_attempt[of None], simplified]
  have running: "RunRunning = RunRunning \<or> RunRunning = RunFixing" by simp
  note 3 = sample_extend[OF 2 _ _ sample_pause[OF running, of None], simplified]
  have "lifecycle_step (sample_inputs None) contract_revision ?p PauseSession
      (applied_new SessionPaused (SessionSubject (session_key (life_session ?p)))) (put_session SessionIsPaused ?p)"
    by (rule lifecycle_step.pause_session) (auto simp: sample_stage_def sample_life_def split: if_splits)
  note 4 = sample_extend[OF 3 _ _ this, simplified]
  obtain r x where rx: "life_runs (put_session SessionIsPaused ?p) sample_run_id = Some r" "\<not> run_terminal (run_phase r)"
    "life_attempts (put_session SessionIsPaused ?p) sample_attempt_id = Some x" "attempt_run x = sample_run_id"
    "\<not> attempt_terminal (attempt_phase x)" "run_key r = sample_run_id"
    by (simp add: sample_stage_def)
  have e: "attempt_end (FailAttempt sample_run_id sample_attempt_id)
      = Some (sample_run_id, sample_attempt_id, AttemptHasFailed, TurnHasFailed, ActionHasFailed, AttemptFailed)" by simp
  note 5 = sample_extend[OF 4 _ _ lifecycle_step.end_attempt[OF e rx(1,3,4,2,5)], simplified]
  show ?thesis
  proof (rule exI, rule exI, intro conjI)
    let ?r = "r\<lparr>run_phase := RunRunning, run_acceptance := AcceptancePending, run_current_attempt := None\<rparr>"
    let ?v = "put_run ?r (put_attempt (x\<lparr>attempt_phase := AttemptHasFailed\<rparr>)
      (stop_attempt sample_attempt_id TurnHasFailed ActionHasFailed (put_session SessionIsPaused ?p)))"
    show "sample_reaches (map (\<lambda>c. (c, sample_inputs None)) [StartRun sample_run_id,
       StartAttempt sample_run_id sample_attempt_id, PauseRun sample_run_id, PauseSession,
       FailAttempt sample_run_id sample_attempt_id]) ?v" using 5 by simp
    show "session_phase (life_session ?v) = SessionIsPaused" by simp
    show "life_runs ?v sample_run_id = Some ?r" by (simp add: rx(6))
    show "run_phase ?r = RunRunning" by simp
  qed
qed

end
