(* ===== verification/Spec2Isabelle.thy ===== *)
theory Spec2Isabelle
  imports Budget_Properties Codec_Properties Policy_Properties Lease_Properties Acceptance_Properties
    Kernel_Findings
begin

text \<open>
  Verification of the authority core of Project Peritus, a runtime for coding agents written in
  Rust. The program decides what an agent may do, how much it may spend, who may change a workspace
  and when its work is accepted, before any effect happens; these decisions are pure state machines
  in the crates under \<open>src/crates/foundation\<close> and \<open>src/crates/state\<close>, and they are what the development
  models.

  \<^bold>\<open>The parts and how they interact.\<close> A budget ledger (\<open>peritus-budget\<close>) holds a tree of accounts
  and reservations; commands reach it as messages of the canonical codec (\<open>peritus-codec\<close>,
  \<open>peritus-protocol\<close>). A policy (\<open>peritus-policy\<close>) evaluates the scope a worker asks for and issues a
  capability, which is consumed and returned by each use. A lease (\<open>peritus-leases\<close>) gives one holder
  the exclusive right to change a resource and admits a use of a capability only inside its claim.
  A contract (\<open>peritus-spec\<close>) says what a run has to fulfil, and the acceptance evaluator
  (\<open>peritus-quality-policy\<close>) decides whether evidence fulfils it. The kernel (\<open>peritus-kernel\<close>) is the
  state machine of one session that composes them: its reducer takes a command with snapshots of
  budgets, a capability use and acceptance evidence, and starts runs and attempts, authorizes
  actions, records reviews and waivers, and accepts runs. All of them share the identifiers,
  counters and revision tuples of \<open>peritus-types\<close>.

  \<^bold>\<open>Theories and sources.\<close>
  \<^item> \<open>Prelude\<close>: machine integers, \<open>Result\<close> as a sum, the loops the sources use, and the locale
    \<open>reducer\<close> of machines that consume a state and return its successor.
  \<^item> \<open>Peritus_Types\<close>, \<open>Peritus_Identifiers\<close>, \<open>Capability_Name\<close>: \<open>peritus-types\<close>. Identifiers are the
    sixteen nonzero bytes, nominal identifiers one datatype each; names are checked strings.
  \<^item> \<open>Budget_Amounts\<close>, \<open>Budget_Model\<close>, \<open>Budget_Accounting\<close>, \<open>Budget_Validation\<close>, \<open>Budget_Transition\<close>:
    \<open>peritus-budget\<close>, state as records, one definition per function of the reducer.
    \<open>Budget_Spec\<close> to \<open>Budget_Executions\<close>: the invariant, the abstract machine, and their lemmas.
  \<^item> \<open>Codec_Model\<close>, \<open>Codec_Message\<close>: \<open>peritus-codec\<close>; \<open>Codec_Wire\<close>, \<open>Codec_Format\<close>: the contract
    between an encoder and a decoder as a locale; \<open>Codec_Nesting\<close>: nested aggregates of any shape; \<open>Protocol_Primitives\<close>, \<open>Protocol_Budget\<close>,
    \<open>Protocol_Messages\<close>: the budget messages of \<open>peritus-protocol\<close>.
  \<^item> \<open>Canonical\<close>, \<open>Policy_Base\<close>, \<open>Policy_Roles\<close>, \<open>Policy_Scope\<close>, \<open>Policy_Definition\<close>,
    \<open>Policy_Evaluation\<close>, \<open>Policy_Capability\<close>, \<open>Policy_Amendment\<close>: \<open>peritus-policy\<close>, in the order of
    its dependencies. \<open>Policy_Spec\<close> and \<open>Policy_Decisions\<close>: what a policy means, and that the
    evaluation computes it.
  \<^item> \<open>Lease_Model\<close>, \<open>Lease_Transition\<close>, \<open>Lease_Port\<close>: \<open>peritus-leases\<close>. \<open>Lease_Spec\<close>,
    \<open>Lease_Refinement\<close>, \<open>Lease_Invariant\<close>: the lease machine, the operations as its steps, validity
    and the order of fencing stamps over executions.
  \<^item> \<open>Spec_Model\<close>, \<open>Spec_Gates\<close>, \<open>Spec_Contract\<close>: \<open>peritus-spec\<close>; \<open>Spec_Order\<close>: gate graphs as schedules.
    \<open>Quality_Evidence\<close>, \<open>Quality_Evaluation\<close>: \<open>peritus-quality-policy\<close>; \<open>Quality_Spec\<close>: what acceptance
    means, and that the evaluation decides it.
  \<^item> \<open>Kernel_Model\<close> (files \<open>identity.rs\<close> to \<open>aggregate/validation.rs\<close>, the records and the lookups),
    \<open>Kernel_Reducer\<close> (\<open>reducer/session.rs\<close>, \<open>run.rs\<close>, \<open>attempt.rs\<close>, \<open>turn.rs\<close>) and \<open>Kernel_Evidence\<close>
    (\<open>action.rs\<close>, \<open>review.rs\<close>, \<open>waiver.rs\<close>, \<open>acceptance.rs\<close>, \<open>refinement.rs\<close>, \<open>reducer.rs\<close>): \<open>peritus-kernel\<close>.
    \<open>Kernel_Lifecycle\<close>: the abstract machine on finite maps; \<open>Kernel_Refinement\<close>, \<open>Kernel_Families\<close>,
    \<open>Kernel_Simulation\<close>: the commands of the reducer are its steps, in both directions;
    \<open>Kernel_Invariant\<close>, \<open>Kernel_Preservation\<close>, \<open>Kernel_Progress\<close>, \<open>Kernel_Validity\<close>: what every step
    keeps and which way it moves; \<open>Kernel_Reduction\<close>: preflight, audits and the assembled reducer;
    \<open>Kernel_Executions\<close>, \<open>Kernel_History\<close>, \<open>Kernel_Acceptance\<close>: sequences of commands and what their
    history says; \<open>Kernel_Findings\<close>: two reachable behaviours the phase diagrams do not suggest.
  \<^item> \<open>Budget_Examples\<close>, \<open>Policy_Examples\<close>, \<open>Lease_Examples\<close>, \<open>Acceptance_Examples\<close>, \<open>Kernel_Examples\<close>:
    the inputs of the witnesses, among them whole executions of the kernel.

  \<^bold>\<open>What the properties show.\<close> Each property carries its number \<open>C\<close>n in order of importance.
  \<open>Kernel_Properties\<close>: the kernel's reducer is the lifecycle machine, refuses only by its guards,
  keeps its invariant and one chain of events, accepts a run only after an evaluation of projected
  evidence, moves forward only (its reviews and waivers up to invalidation), and can always end a live
  run. \<open>Budget_Properties\<close>: the reducer is
  the abstract machine and always returns, its invariant holds over every run, spending is accounted
  for, refusals are justified, retries are sequential. \<open>Codec_Properties\<close>: frames and budget messages
  decode exactly what was encoded, reads and writes keep their bounds, and nesting its limit. \<open>Policy_Properties\<close>: names
  match their grammar, evaluation answers what the policy means, authorization is exact, uses stay
  authorized, amendments keep the ceiling. \<open>Lease_Properties\<close>: the operations are the lease machine,
  validity and stamps over every run, superseded claims are dead, active leases can always be fenced.
  \<open>Acceptance_Properties\<close>: the evaluation decides acceptance, gate graphs are schedules, contracts fit
  together. This theory: an effect a lease admits, and an action the kernel executes, is authorized by
  the policy from end to end.

  \<^bold>\<open>Interfaces.\<close> \<open>reducer\<close> (an operation that keeps an invariant and moves forward in an order) is
  interpreted by the budget ledger, the capabilities, the leases and the kernel; \<open>keyed_list\<close> (lookup
  in a list by key) by the ledger's accounts and reservations; \<open>wire_format\<close> and \<open>message_format\<close> by
  every codec primitive and message; \<open>nominal_id\<close> by the identifier types; \<open>canonical_order\<close> and
  \<open>canonical_identity\<close> by identifiers, digests, names, permissions, roles, risks and rules, the order
  also by the acceptance checks.

  \<^bold>\<open>Errors, bounds and fuel.\<close> Every error of the sources is a value. Machine integers keep their width
  where an operation can overflow. A panic of the source is \<open>None\<close>; the properties of the ledger and of
  the codec show it is not reached. The walks over account lineages carry the fuel that the sources
  pass, the number of accounts, and are shown to end within it on valid ledgers; no other bound is
  chosen here. The kernel's indices into its lists come from its own lookups, and its counts are
  bounded by the lengths of the lists.

  \<^bold>\<open>Outside code.\<close> SHA-256 is a third-party function and a parameter of the codec definitions that
  use it. The store behind the trait \<open>LeaseCasPort\<close> is an effect.

  \<^bold>\<open>Not modelled.\<close> The scheduler, obligations, gates, reviews and approvals of the orchestration and
  state layers are state machines above the kernel and would come next, with the message families of
  \<open>peritus-protocol\<close> that carry their values. The journal, artifact store, sandboxes, tools, model
  providers, daemon and user interfaces are input and output around these decisions and are left out.
  Derived traits and functions that only copy a value have no counterpart.
\<close>

section \<open>Uses of a capability under a policy\<close>

text \<open>
  \<open>performed_under p s tr n\<close>: \<open>tr\<close> is the \<open>n\<close>th use of a capability issued from a plan in which the policy \<open>p\<close>
  authorized the scope \<open>s\<close>.
\<close>

definition performed_under :: "policy_definition \<Rightarrow> capability_scope \<Rightarrow> capability_use_transition \<Rightarrow> nat \<Rightarrow> bool" where
  "performed_under p s tr n \<longleftrightarrow> (\<exists>time k plan command digest requests performed cap q transition_digest.
     evaluate p s time k = Some (Ok (Authorized plan))
   \<and> use_all (issued_capability (issue plan command digest)) requests = (performed, cap)
   \<and> try_use cap q transition_digest = Ok tr \<and> n = Suc (length performed))"

lemma performed_under_authorized:
  assumes ok: "policy_ok p" and performed: "performed_under p s tr n"
  shows "admissible p s \<and> n \<in> effective_uses p s \<and> used_at tr \<in> effective_instants p s
    \<and> used_permission tr \<in> permissions_of (scope_permissions s)
    \<and> (\<exists>v l. capability_scope (use_successor tr) = with_constraints s v l)"
proof -
  from performed obtain time k plan command digest requests performed cap q d where
    plan: "evaluate p s time k = Some (Ok (Authorized plan))"
    and uses: "use_all (issued_capability (issue plan command digest)) requests = (performed, cap)"
    and use: "try_use cap q d = Ok tr" and n: "n = Suc (length performed)"
    unfolding performed_under_def by blast
  from use_all_snoc[OF uses, of "(q, d)"] use
  have all: "use_all (issued_capability (issue plan command digest)) (requests @ [(q, d)])
    = (performed @ [tr], use_successor tr)" by simp
  from issued_scope[OF ok plan all] issued_uses[OF ok plan all] n show ?thesis by auto
qed

section \<open>From a policy to an effect\<close>

text \<open>
  C2. An effect that a lease admits is authorized from end to end. When a policy authorized a
  scope, a capability was issued from that plan and used any number of times, and the lease
  accepts the next use, then the policy admits the scope, all uses together stay within every
  limit of the policy, the use happens inside every window of the policy and before the claim
  expires, on a permitted resource that is the leased one, in the workspace generation the scope
  names, and the actor of the scope holds the active claim.
\<close>
theorem leased_effects_are_authorized:
  assumes ok: "policy_ok p" and plan: "evaluate p s time t = Some (Ok (Authorized plan))"
    and uses: "use_all (issued_capability (issue plan command digest)) requests = (performed, cap)"
    and use: "try_use cap q transition_digest = Ok (capability_use c)"
    and lease: "apply_lease a (Use c) = Ok tr"
  shows "admissible p s \<and> Suc (length performed) \<in> effective_uses p s
    \<and> used_at (capability_use c) \<in> effective_instants p s
    \<and> tick_millis (used_at (capability_use c)) < tick_millis (claim_expires_at (use_claim c))
    \<and> used_permission (capability_use c) \<in> permissions_of (scope_permissions s)
    \<and> permission_resource (used_permission (capability_use c)) = lease_resource (aggregate_scope a)
    \<and> workspace_id (scope_revision s) = lease_workspace (aggregate_scope a)
    \<and> workspace_generation (scope_revision s) = aggregate_generation a
    \<and> active_claim a = Some (use_claim c) \<and> holder_actor_id (claim_holder (use_claim c)) = scope_actor s"
proof -
  have "performed_under p s (capability_use c) (Suc (length performed))"
    unfolding performed_under_def using plan uses use by blast
  note policy = performed_under_authorized[OF ok this]
  then obtain v l where s: "capability_scope (use_successor (capability_use c)) = with_constraints s v l" by blast
  from apply_lease_next[of a "Use c" "next_aggregate tr"] lease
  have "lease_step a (Use c) (next_aggregate tr)" by (simp add: next_is_def)
  then obtain act where act: "aggregate_state a = Active act" "use_claim c = claim_of a act"
    "tick_millis (use_lease_observed_at c) < tick_millis (active_expires_at act)" "intersects_policy a c"
    by (rule lease_step_cases) auto
  from act(4) have "used_at (capability_use c) = use_lease_observed_at c"
    "permission_resource (used_permission (capability_use c)) = lease_resource (aggregate_scope a)"
    "workspace_id (scope_revision s) = lease_workspace (aggregate_scope a)"
    "workspace_generation (scope_revision s) = aggregate_generation a"
    "holder_actor_id (claim_holder (use_claim c)) = scope_actor s"
    unfolding intersects_policy_def Let_def s by simp_all
  with policy act(1-3) show ?thesis
    by (simp add: active_claim_Some claim_of_def)
qed

theorem leased_effects_are_authorized_witness:
  "\<exists>tr. apply_lease sample_lease (Use sample_use_command) = Ok tr
     \<and> Suc 0 \<in> effective_uses sample_policy sample_scope
     \<and> active_claim sample_lease = Some (use_claim sample_use_command)"
proof -
  obtain tr where tr: "apply_lease sample_lease (Use sample_use_command) = Ok tr"
    using sample_use_accepted by blast
  have none: "use_all (issued_capability (issue sample_plan (CommandId (low_identifier 1)) (low_digest 3))) []
      = ([], sample_capability)"
    by (simp add: sample_capability_def)
  have use: "try_use sample_capability (sample_request 20) (low_digest 4) = Ok (capability_use sample_use_command)"
    by (simp add: sample_try_use sample_use_command_def)
  from leased_effects_are_authorized[OF sample_policy_ok sample_evaluate none use tr] tr show ?thesis by simp
qed

section \<open>From a policy to an executed action\<close>

text \<open>
  C1. An action of the kernel that is authorized, dispatched or has succeeded was authorized once, and
  from end to end. The history of the execution holds exactly one accepted authorization of the
  action; the capability use it presented covers the action: its identity, digest, actor, role,
  environment and the revision of the session, and the action carries the witness of that use. When
  the use was performed with a capability issued from a plan that a policy authorized, then the
  policy admits the scope, all uses together stay within every limit of the policy, the use happens
  inside every window of the policy, on a permission of the scope, and the scope names the actor,
  role, environment and revision of the action.
\<close>
theorem executed_actions_are_authorized:
  assumes opened: "kernel_open project session contract cur opening = Ok g"
    and run: "run_kernel (genesis_aggregate g) qs = (h, t)"
    and z: "life_actions (lifecycle_of t) c = Some z"
    and phase: "action_phase z \<in> {ActionIsAuthorized, ActionIsDispatched, ActionSucceeded}"
  shows "\<exists>envelope inputs event tr. authorizations h c = [((envelope, AuthorizeAction c, inputs), event)]
    \<and> inputs_capability_use inputs = Some tr \<and> use_covers cur z tr \<and> action_authorization z = Some (witness_of tr)
    \<and> (\<forall>p s n. policy_ok p \<longrightarrow> performed_under p s tr n \<longrightarrow>
         admissible p s \<and> n \<in> effective_uses p s \<and> used_at tr \<in> effective_instants p s
         \<and> used_permission tr \<in> permissions_of (scope_permissions s)
         \<and> scope_actor s = action_actor z \<and> scope_role s = action_role z
         \<and> scope_environment s = action_environment z \<and> scope_revision s = cur)"
proof -
  note o' = kernel_open_Ok[OF opened]
  from run_kernel_authorized[OF run] o' have t: "kernel_inv t" "authorized_once cur h (lifecycle_of t)" by simp_all
  then have "witnessed z" using z by (simp add: kernel_inv_def lifecycle_inv_def actions_witnessed_def)
  with phase have "action_authorization z \<noteq> None" by (auto simp: witnessed_def)
  with t(2) z have "authorized_by cur h c z" by (simp add: authorized_once_def split: option.splits)
  then obtain envelope inputs event tr where a: "authorizations h c = [((envelope, AuthorizeAction c, inputs), event)]"
    "inputs_capability_use inputs = Some tr" "use_covers cur z tr" "action_authorization z = Some (witness_of tr)"
    unfolding authorized_by_def by blast
  have "admissible p s \<and> n \<in> effective_uses p s \<and> used_at tr \<in> effective_instants p s
      \<and> used_permission tr \<in> permissions_of (scope_permissions s)
      \<and> scope_actor s = action_actor z \<and> scope_role s = action_role z
      \<and> scope_environment s = action_environment z \<and> scope_revision s = cur"
    if "policy_ok p" "performed_under p s tr n" for p s n
    using performed_under_authorized[OF that] a(3) by (auto simp: use_covers_def)
  then show ?thesis using a by blast
qed

theorem executed_actions_are_authorized_witness:
  "\<exists>g h t z envelope inputs event. sample_opening = Ok g \<and> run_kernel (genesis_aggregate g) (map fst h) = (h, t)
     \<and> life_actions (lifecycle_of t) sample_action_id = Some z \<and> action_phase z = ActionIsDispatched
     \<and> authorizations h sample_action_id = [((envelope, AuthorizeAction sample_action_id, inputs), event)]
     \<and> inputs_capability_use inputs = Some sample_use \<and> used_at sample_use \<in> effective_instants sample_policy sample_scope"
proof -
  obtain g h t where at: "sample_at sample_dispatch_commands g h t"
    "lifecycle_of t = sample_running (Some TurnActive) (Some (ActionIsDispatched, Some sample_witness))"
    using sample_dispatched unfolding sample_reaches_def by blast
  then have run: "sample_opening = Ok g" "run_kernel (genesis_aggregate g) (map fst h) = (h, t)"
    "map (\<lambda>x. snd (fst x)) h = sample_dispatch_commands" by (simp_all add: sample_at_def)
  obtain z where z: "life_actions (lifecycle_of t) sample_action_id = Some z" "action_phase z = ActionIsDispatched"
    by (simp add: at(2) sample_stage_def)
  then have phase: "action_phase z \<in> {ActionIsAuthorized, ActionIsDispatched, ActionSucceeded}" by simp
  from executed_actions_are_authorized[OF run(1)[unfolded sample_opening_def] run(2) z(1) phase]
  obtain envelope inputs event tr where a:
    "authorizations h sample_action_id = [((envelope, AuthorizeAction sample_action_id, inputs), event)]"
    "inputs_capability_use inputs = Some tr"
    and policy: "policy_ok p \<Longrightarrow> performed_under p s tr n \<Longrightarrow> used_at tr \<in> effective_instants p s" for p s n
    by metis
  have "((envelope, AuthorizeAction sample_action_id, inputs), event) \<in> set h"
    using a(1) unfolding authorizations_def by (metis filter_is_subset list.set_intros(1) subsetD)
  then have "(AuthorizeAction sample_action_id, inputs) \<in> set (map (\<lambda>x. snd (fst x)) h)" by force
  then have "inputs = sample_inputs None" unfolding run(3) sample_dispatch_commands_def by auto
  with a(2) have tr: "tr = sample_use" by (simp add: sample_inputs_def)
  have none: "use_all (issued_capability (issue sample_plan (CommandId (low_identifier 1)) (low_digest 3))) []
      = ([], sample_capability)" by (simp add: sample_capability_def)
  have "performed_under sample_policy sample_scope sample_use 1"
    unfolding performed_under_def
    by (intro exI conjI, rule sample_evaluate, rule none, rule sample_try_use, simp)
  with policy[OF sample_policy_ok] have "used_at sample_use \<in> effective_instants sample_policy sample_scope"
    unfolding tr by blast
  with run z a tr show ?thesis by blast
qed

end
